(* ===== verification/Prelude.thy ===== *)
theory Prelude
  imports Main "HOL-Library.Word" "HOL-Library.AList" "HOL-Library.Char_ord"
    "HOL-Library.List_Lexorder"
begin

text \<open>
  What every component of the development shares: Rust's fixed-width unsigned integers with their
  checked, saturating and wrapping operations, the \<open>Result\<close> type with its early returns, the
  hash map, and the ASCII operations on strings.

  \<^item> Machine integers. An unsigned integer of the source is a \<^typ>\<open>nat\<close> together with the largest
    value of its type; every operation that can leave the type is written with that bound
    (\<open>checked_add U128_MAX a b\<close> is Rust's \<open>u128::checked_add\<close>). The lemmas of the section
    \<open>Words\<close> show that these operations are the ones of \<open>'w word\<close>. Bit flags are kept as
    \<^typ>\<open>8 word\<close>, and arithmetic that really wraps is done on words.
  \<^item> Errors. \<open>Result<T, E>\<close> is \<^typ>\<open>'e + 'a\<close> with \<^const>\<open>Inl\<close> for \<open>Err\<close>. The early
    returns of the source (\<open>?\<close>, \<open>ok_or\<close>, \<open>if c { return Err(e) }\<close>) are the combinators
    \<open>bindR\<close>, \<open>ok_or_else\<close> and \<open>refuse_if\<close>.
  \<^item> Hash maps. \<open>HashMap\<close> is an association list with distinct keys; the order of the list stands
    for the unspecified iteration order. The locale \<open>keyed_store\<close> states the laws clients use.
\<close>

named_theorems result_simps "success and failure of the Result combinators, as equivalences"
named_theorems checked_simps "success of the checked arithmetic, as equivalences"

section \<open>Fixed-width unsigned integers\<close>

type_synonym u8 = nat
type_synonym u16 = nat
type_synonym u32 = nat
type_synonym u64 = nat
type_synonym u128 = nat
type_synonym i64 = int

definition U8_MAX :: nat where "U8_MAX = 2 ^ 8 - 1"
definition U32_MAX :: nat where "U32_MAX = 2 ^ 32 - 1"
definition U64_MAX :: nat where "U64_MAX = 2 ^ 64 - 1"
definition U128_MAX :: nat where "U128_MAX = 2 ^ 128 - 1"

lemmas MAX_defs = U8_MAX_def U32_MAX_def U64_MAX_def U128_MAX_def

text \<open>The first argument of each operation is the largest value of the integer type.\<close>

definition checked_add :: "nat \<Rightarrow> nat \<Rightarrow> nat \<Rightarrow> nat option" where
  "checked_add m a b = (if a + b \<le> m then Some (a + b) else None)"

definition checked_mul :: "nat \<Rightarrow> nat \<Rightarrow> nat \<Rightarrow> nat option" where
  "checked_mul m a b = (if a * b \<le> m then Some (a * b) else None)"

definition checked_sub :: "nat \<Rightarrow> nat \<Rightarrow> nat option" where
  "checked_sub a b = (if b \<le> a then Some (a - b) else None)"

definition saturating_add :: "nat \<Rightarrow> nat \<Rightarrow> nat \<Rightarrow> nat" where
  "saturating_add m a b = min m (a + b)"

definition saturating_mul :: "nat \<Rightarrow> nat \<Rightarrow> nat \<Rightarrow> nat" where
  "saturating_mul m a b = min m (a * b)"

definition saturating_sub :: "nat \<Rightarrow> nat \<Rightarrow> nat" where
  "saturating_sub a b = (if b \<le> a then a - b else 0)"

definition try_from :: "nat \<Rightarrow> nat \<Rightarrow> nat option" where
  "try_from m a = (if a \<le> m then Some a else None)"

definition wrapping_add :: "nat \<Rightarrow> nat \<Rightarrow> nat \<Rightarrow> nat" where
  "wrapping_add m a b = (a + b) mod (m + 1)"

definition div_ceil :: "nat \<Rightarrow> nat \<Rightarrow> nat" where
  "div_ceil a b = (if a mod b = 0 then a div b else a div b + 1)"

lemma checked_add_eq_Some [checked_simps, simp]:
  "checked_add m a b = Some r \<longleftrightarrow> r = a + b \<and> a + b \<le> m"
  by (auto simp: checked_add_def)

lemma checked_add_eq_None [simp]: "checked_add m a b = None \<longleftrightarrow> m < a + b"
  by (auto simp: checked_add_def)

lemma checked_mul_eq_Some [checked_simps, simp]:
  "checked_mul m a b = Some r \<longleftrightarrow> r = a * b \<and> a * b \<le> m"
  by (auto simp: checked_mul_def)

lemma checked_mul_eq_None [simp]: "checked_mul m a b = None \<longleftrightarrow> m < a * b"
  by (auto simp: checked_mul_def)

lemma checked_sub_eq_Some [checked_simps, simp]:
  "checked_sub a b = Some r \<longleftrightarrow> r = a - b \<and> b \<le> a"
  by (auto simp: checked_sub_def)

lemma checked_sub_eq_None [simp]: "checked_sub a b = None \<longleftrightarrow> a < b"
  by (auto simp: checked_sub_def)

lemma try_from_eq_Some [checked_simps, simp]: "try_from m a = Some r \<longleftrightarrow> r = a \<and> a \<le> m"
  by (auto simp: try_from_def)

lemma try_from_eq_None [simp]: "try_from m a = None \<longleftrightarrow> m < a"
  by (auto simp: try_from_def)

lemma saturating_add_le [simp]: "saturating_add m a b \<le> m"
  by (simp add: saturating_add_def)

lemma saturating_add_exact: "a + b \<le> m \<Longrightarrow> saturating_add m a b = a + b"
  by (simp add: saturating_add_def)

lemma saturating_mul_exact: "a * b \<le> m \<Longrightarrow> saturating_mul m a b = a * b"
  by (simp add: saturating_mul_def)

lemma saturating_sub_eq [simp]: "saturating_sub a b = a - b"
  by (simp add: saturating_sub_def)

lemma U64_le_U128: "U64_MAX \<le> U128_MAX"
  by (simp add: MAX_defs)

lemma div_ceil_le_iff: "0 < b \<Longrightarrow> div_ceil a b \<le> n \<longleftrightarrow> a \<le> n * b"
proof -
  assume b: "0 < b"
  have a: "a = a div b * b + a mod b" by simp
  show ?thesis
  proof (cases "a mod b = 0")
    case True
    then have "a = a div b * b" using a by simp
    then have "a \<le> n * b \<longleftrightarrow> a div b \<le> n" using b by (metis mult_le_cancel2)
    with True show ?thesis by (simp add: div_ceil_def)
  next
    case False
    have "a div b + 1 \<le> n \<longleftrightarrow> a div b < n" by auto
    also have "\<dots> \<longleftrightarrow> a < n * b" using b by (simp add: div_less_iff_less_mult)
    also have "\<dots> \<longleftrightarrow> a \<le> n * b" using False by (metis le_less mod_mult_self2_is_0)
    finally show ?thesis using False by (simp add: div_ceil_def)
  qed
qed

lemma div_ceil_mult [simp]: "0 < b \<Longrightarrow> div_ceil (n * b) b = n"
  by (simp add: div_ceil_def)

lemma div_ceil_mono: "a \<le> a' \<Longrightarrow> 0 < b \<Longrightarrow> div_ceil a b \<le> div_ceil a' b"
  by (metis div_ceil_le_iff le_refl le_trans)

lemma div_le_div_ceil: "a div b \<le> div_ceil a b"
  by (simp add: div_ceil_def)

lemma div_ceil_0 [simp]: "div_ceil 0 b = 0"
  by (simp add: div_ceil_def)

subsection \<open>Words: the operations above are those of the machine words\<close>

lemma checked_add_unat:
  fixes x y :: "'w::len word"
  shows "checked_add (2 ^ LENGTH('w) - 1) (unat x) (unat y) =
    (if unat (x + y) = unat x + unat y then Some (unat (x + y)) else None)"
proof -
  have "(0::nat) < 2 ^ LENGTH('w)" by simp
  then have "unat x + unat y \<le> 2 ^ LENGTH('w) - 1 \<longleftrightarrow> unat x + unat y < 2 ^ LENGTH('w)"
    by linarith
  moreover have "unat (x + y) = (unat x + unat y) mod 2 ^ LENGTH('w)"
    by (simp add: unat_word_ariths)
  ultimately show ?thesis
    by (metis checked_add_def mod_less unsigned_less)
qed

lemma wrapping_add_unat:
  fixes x y :: "'w::len word"
  shows "wrapping_add (2 ^ LENGTH('w) - 1) (unat x) (unat y) = unat (x + y)"
  by (simp add: wrapping_add_def unat_word_ariths)

section \<open>Results and early returns\<close>

definition bindR :: "'e + 'a \<Rightarrow> ('a \<Rightarrow> 'e + 'b) \<Rightarrow> 'e + 'b" where
  "bindR r f = (case r of Inl e \<Rightarrow> Inl e | Inr a \<Rightarrow> f a)"

definition ok_or_else :: "'a option \<Rightarrow> 'e \<Rightarrow> ('a \<Rightarrow> 'e + 'b) \<Rightarrow> 'e + 'b" where
  "ok_or_else x e f = (case x of None \<Rightarrow> Inl e | Some a \<Rightarrow> f a)"

definition refuse_if :: "bool \<Rightarrow> 'e \<Rightarrow> 'e + 'b \<Rightarrow> 'e + 'b" where
  "refuse_if c e k = (if c then Inl e else k)"

definition map_err :: "('e \<Rightarrow> 'f) \<Rightarrow> 'e + 'a \<Rightarrow> 'f + 'a" where
  "map_err g r = (case r of Inl e \<Rightarrow> Inl (g e) | Inr a \<Rightarrow> Inr a)"

definition is_ok :: "'e + 'a \<Rightarrow> bool" where
  "is_ok r = (case r of Inl _ \<Rightarrow> False | Inr _ \<Rightarrow> True)"

lemma bindR_Inr_iff [result_simps]: "bindR r f = Inr b \<longleftrightarrow> (\<exists>a. r = Inr a \<and> f a = Inr b)"
  by (auto simp: bindR_def split: sum.splits)

lemma bindR_simps [simp]: "bindR (Inr a) f = f a" "bindR (Inl e) f = Inl e"
  by (simp_all add: bindR_def)

lemma ok_or_else_Inr_iff [result_simps]:
  "ok_or_else x e f = Inr b \<longleftrightarrow> (\<exists>a. x = Some a \<and> f a = Inr b)"
  by (auto simp: ok_or_else_def split: option.splits)

lemma ok_or_else_simps [simp]: "ok_or_else (Some a) e f = f a" "ok_or_else None e f = Inl e"
  by (simp_all add: ok_or_else_def)

lemma refuse_if_Inr_iff [result_simps]: "refuse_if c e k = Inr b \<longleftrightarrow> \<not> c \<and> k = Inr b"
  by (simp add: refuse_if_def)

lemma refuse_if_simps [simp]: "refuse_if True e k = Inl e" "refuse_if False e k = k"
  by (simp_all add: refuse_if_def)

lemma map_err_Inr_iff [result_simps]: "map_err g r = Inr b \<longleftrightarrow> r = Inr b"
  by (auto simp: map_err_def split: sum.splits)

lemma map_err_simps [simp]: "map_err g (Inr a) = Inr a" "map_err g (Inl e) = Inl (g e)"
  by (simp_all add: map_err_def)

lemma is_ok_iff: "is_ok r \<longleftrightarrow> (\<exists>a. r = Inr a)"
  by (auto simp: is_ok_def split: sum.splits)

text \<open>A loop that checks every element and stops at the first refusal.\<close>

fun check_all :: "('a \<Rightarrow> 'e + unit) \<Rightarrow> 'a list \<Rightarrow> 'e + unit" where
  "check_all f [] = Inr ()"
| "check_all f (x # xs) = bindR (f x) (\<lambda>_. check_all f xs)"

lemma check_all_ok_iff [result_simps]:
  "check_all f xs = Inr u \<longleftrightarrow> (\<forall>x\<in>set xs. f x = Inr ())"
  by (induction xs) (auto simp: result_simps)

section \<open>Hash maps\<close>

type_synonym ('k, 'v) hash_map = "('k \<times> 'v) list"

definition hget :: "('k, 'v) hash_map \<Rightarrow> 'k \<Rightarrow> 'v option" where
  "hget m k = map_of m k"

definition hinsert :: "'k \<Rightarrow> 'v \<Rightarrow> ('k, 'v) hash_map \<Rightarrow> ('k, 'v) hash_map" where
  "hinsert k v m = AList.update k v m"

definition hremove :: "'k \<Rightarrow> ('k, 'v) hash_map \<Rightarrow> ('k, 'v) hash_map" where
  "hremove k m = AList.delete k m"

definition contains_key :: "('k, 'v) hash_map \<Rightarrow> 'k \<Rightarrow> bool" where
  "contains_key m k = (hget m k \<noteq> None)"

text \<open>\<open>entry(k).or_insert(v)\<close>: keeps a value that is already there.\<close>

definition or_insert :: "'k \<Rightarrow> 'v \<Rightarrow> ('k, 'v) hash_map \<Rightarrow> ('k, 'v) hash_map" where
  "or_insert k v m = (if contains_key m k then m else hinsert k v m)"

definition hkeys :: "('k, 'v) hash_map \<Rightarrow> 'k list" where
  "hkeys m = map fst m"

definition distinct_keys :: "('k, 'v) hash_map \<Rightarrow> bool" where
  "distinct_keys m = distinct (hkeys m)"

locale keyed_store =
  fixes lookup_key :: "'m \<Rightarrow> 'k \<Rightarrow> 'v option"
    and put :: "'k \<Rightarrow> 'v \<Rightarrow> 'm \<Rightarrow> 'm"
    and take_out :: "'k \<Rightarrow> 'm \<Rightarrow> 'm"
  assumes lookup_put: "lookup_key (put k v m) j = (if j = k then Some v else lookup_key m j)"
    and lookup_take_out: "lookup_key (take_out k m) j = (if j = k then None else lookup_key m j)"
begin

lemma lookup_put_same [simp]: "lookup_key (put k v m) k = Some v"
  by (simp add: lookup_put)

lemma lookup_put_other [simp]: "j \<noteq> k \<Longrightarrow> lookup_key (put k v m) j = lookup_key m j"
  by (simp add: lookup_put)

lemma lookup_take_out_same [simp]: "lookup_key (take_out k m) k = None"
  by (simp add: lookup_take_out)

lemma lookup_take_out_other [simp]: "j \<noteq> k \<Longrightarrow> lookup_key (take_out k m) j = lookup_key m j"
  by (simp add: lookup_take_out)

lemma put_overwrites: "lookup_key (put k v (put k w m)) = lookup_key (put k v m)"
  by (rule ext) (simp add: lookup_put)

lemma update_keeps_all:
  assumes "\<And>j x. lookup_key m j = Some x \<Longrightarrow> P j x" and "P k v"
    and "lookup_key (put k v m) j = Some x"
  shows "P j x"
  using assms by (auto simp: lookup_put split: if_splits)

lemma removal_keeps_all:
  assumes "\<And>j x. lookup_key m j = Some x \<Longrightarrow> P j x"
    and "lookup_key (take_out k m) j = Some x"
  shows "P j x"
  using assms by (auto simp: lookup_take_out split: if_splits)

end

interpretation hm: keyed_store hget hinsert hremove
  by unfold_locales
    (simp_all add: hget_def hinsert_def hremove_def update_conv' delete_conv')

lemma hget_hinsert: "hget (hinsert k v m) j = (if j = k then Some v else hget m j)"
  by (rule hm.lookup_put)

lemma hget_hremove: "hget (hremove k m) j = (if j = k then None else hget m j)"
  by (rule hm.lookup_take_out)

lemma contains_key_hinsert [simp]: "contains_key (hinsert k v m) j \<longleftrightarrow> j = k \<or> contains_key m j"
  by (simp add: contains_key_def hget_hinsert)

lemma contains_key_hremove [simp]: "contains_key (hremove k m) j \<longleftrightarrow> j \<noteq> k \<and> contains_key m j"
  by (simp add: contains_key_def hget_hremove)

lemma hget_or_insert:
  "hget (or_insert k v m) j =
    (if j = k then Some (case hget m k of None \<Rightarrow> v | Some w \<Rightarrow> w) else hget m j)"
  by (auto simp: or_insert_def contains_key_def hget_hinsert split: option.splits)

lemma distinct_keys_hinsert [simp, intro]: "distinct_keys m \<Longrightarrow> distinct_keys (hinsert k v m)"
  by (simp add: distinct_keys_def hkeys_def hinsert_def distinct_update)

lemma distinct_keys_hremove [simp, intro]: "distinct_keys m \<Longrightarrow> distinct_keys (hremove k m)"
  by (simp add: distinct_keys_def hkeys_def hremove_def distinct_delete)

lemma distinct_keys_or_insert [simp, intro]: "distinct_keys m \<Longrightarrow> distinct_keys (or_insert k v m)"
  by (simp add: or_insert_def)

lemma distinct_keys_Nil [simp, intro]: "distinct_keys []"
  by (simp add: distinct_keys_def hkeys_def)

lemma hkeys_contains: "k \<in> set (hkeys m) \<longleftrightarrow> contains_key m k"
  by (auto simp: hkeys_def contains_key_def hget_def map_of_eq_None_iff)

lemma hget_entry: "distinct_keys m \<Longrightarrow> (k, v) \<in> set m \<longleftrightarrow> hget m k = Some v"
  by (auto simp: distinct_keys_def hkeys_def hget_def)

lemma hget_SomeD: "hget m k = Some v \<Longrightarrow> (k, v) \<in> set m"
  by (simp add: hget_def map_of_SomeD)

lemma hget_Nil [simp]: "hget [] k = None"
  by (simp add: hget_def)

section \<open>ASCII operations on strings\<close>

definition ascii_lower :: "char \<Rightarrow> char" where
  "ascii_lower c =
    (let n = (of_char c :: nat) in if 65 \<le> n \<and> n \<le> 90 then char_of (n + 32) else c)"

definition to_ascii_lowercase :: "string \<Rightarrow> string" where
  "to_ascii_lowercase s = map ascii_lower s"

definition eq_ignore_ascii_case :: "string \<Rightarrow> string \<Rightarrow> bool" where
  "eq_ignore_ascii_case a b = (to_ascii_lowercase a = to_ascii_lowercase b)"

definition is_ascii_digit :: "char \<Rightarrow> bool" where
  "is_ascii_digit c = (48 \<le> (of_char c :: nat) \<and> (of_char c :: nat) \<le> 57)"

definition hex_digit :: "nat \<Rightarrow> char" where
  "hex_digit n = (if n < 10 then char_of (48 + n) else char_of (87 + n))"

definition hex_byte :: "8 word \<Rightarrow> string" where
  "hex_byte b = [hex_digit (unat b div 16), hex_digit (unat b mod 16)]"

lemma eq_ignore_ascii_case_refl [simp]: "eq_ignore_ascii_case a a"
  by (simp add: eq_ignore_ascii_case_def)

lemma eq_ignore_ascii_case_sym: "eq_ignore_ascii_case a b = eq_ignore_ascii_case b a"
  by (auto simp: eq_ignore_ascii_case_def)

lemma hex_digit_inj: "m < 16 \<Longrightarrow> n < 16 \<Longrightarrow> hex_digit m = hex_digit n \<Longrightarrow> m = n"
  by (auto simp: hex_digit_def char_of_eq_iff take_bit_eq_mod split: if_splits)

lemma hex_byte_inj: "hex_byte a = hex_byte b \<longleftrightarrow> a = b"
proof
  assume eq: "hex_byte a = hex_byte b"
  have lt: "unat a < 256" "unat b < 256"
    using unsigned_less [of a] unsigned_less [of b] by simp_all
  have "unat a div 16 = unat b div 16" "unat a mod 16 = unat b mod 16"
    using eq lt by (auto simp: hex_byte_def intro!: hex_digit_inj)
  then have "unat a = unat b" by (metis div_mult_mod_eq)
  then show "a = b" by (rule unsigned_word_eqI)
qed simp

end
