(* ===== verification/Params.thy ===== *)
theory Params
  imports Prelude
begin

text \<open>
  Protocol parameters: \<open>src/crates/core/src/params.rs\<close>. The constants the money paths are computed
  from, the protocol constants of the deal contract, the SHELL amount renderer and its parser, the
  price conversions, and the sizing of the gas reserve of a deal. A \<open>Duration\<close> is its whole number
  of seconds, which is all the modelled code reads of it.
\<close>

type_synonym shell = u64
type_synonym secs = u64

section \<open>Constants\<close>

definition PRICE_STEP :: u128 where "PRICE_STEP = 1000000000"
definition SHELL_UNIT :: u128 where "SHELL_UNIT = 1000000000"
definition MAX_NOTE_NOMINAL_SHELL :: u128 where "MAX_NOTE_NOMINAL_SHELL = 1000000"
definition MIN_STREAM_BUY_TICKS :: u128 where "MIN_STREAM_BUY_TICKS = 2"
definition TICK_SIZE :: u128 where "TICK_SIZE = 1000000"
definition PLATFORM_FEE_BPS :: u32 where "PLATFORM_FEE_BPS = 250"
definition MAX_CLAIM_DELTA :: u128 where "MAX_CLAIM_DELTA = TICK_SIZE"
definition SUB_WEEK_LEN :: secs where "SUB_WEEK_LEN = 604800"
definition SUBSCRIPTION_WEEKS :: u8 where "SUBSCRIPTION_WEEKS = 4"
definition SUB_TICKS_PER_WEEK :: u128 where "SUB_TICKS_PER_WEEK = 10080"
definition SUBSCRIPTION_MAX_TICKS :: u128 where
  "SUBSCRIPTION_MAX_TICKS = SUB_TICKS_PER_WEEK * SUBSCRIPTION_WEEKS"
definition SUBSCRIPTION_BUYER_BOND_TICKS :: u128 where "SUBSCRIPTION_BUYER_BOND_TICKS = 2"
definition MATCH_OPEN_TIMEOUT_SECS :: secs where "MATCH_OPEN_TIMEOUT_SECS = 600"
definition PROBE_WINDOW :: secs where "PROBE_WINDOW = 180"
definition DEFAULT_BUY_TTL :: secs where "DEFAULT_BUY_TTL = 3600"
definition MAX_SELL_TTL :: secs where "MAX_SELL_TTL = 3600"
definition ROOT_PN_GAS_DEPOSIT_RAW :: u64 where "ROOT_PN_GAS_DEPOSIT_RAW = 250000000000"

lemmas param_defs = PRICE_STEP_def SHELL_UNIT_def MAX_NOTE_NOMINAL_SHELL_def
  MIN_STREAM_BUY_TICKS_def TICK_SIZE_def PLATFORM_FEE_BPS_def MAX_CLAIM_DELTA_def SUB_WEEK_LEN_def
  SUBSCRIPTION_WEEKS_def SUB_TICKS_PER_WEEK_def SUBSCRIPTION_MAX_TICKS_def
  SUBSCRIPTION_BUYER_BOND_TICKS_def MATCH_OPEN_TIMEOUT_SECS_def PROBE_WINDOW_def
  DEFAULT_BUY_TTL_def MAX_SELL_TTL_def ROOT_PN_GAS_DEPOSIT_RAW_def

lemma TICK_SIZE_pos [simp, intro]: "0 < TICK_SIZE"
  by (simp add: TICK_SIZE_def)

section \<open>Protocol constants\<close>

record ProtocolConsts =
  platform_fee_bps :: u32
  min_claim_interval :: secs
  min_seconds_per_tick :: secs
  claim_promote_window :: secs
  probe_window :: secs
  dispute_window :: secs
  rebate_max_bps :: u32
  rebate_slope_bps :: u32

definition canonical :: ProtocolConsts where
  "canonical = \<lparr>platform_fee_bps = PLATFORM_FEE_BPS, min_claim_interval = 60,
     min_seconds_per_tick = 60, claim_promote_window = 60, probe_window = PROBE_WINDOW,
     dispute_window = 600, rebate_max_bps = 200, rebate_slope_bps = 4\<rparr>"

text \<open>The order book's deploy parameters.\<close>

record DobParams =
  tick_size :: u64

definition dob_canonical :: DobParams where
  "dob_canonical = \<lparr>tick_size = TICK_SIZE\<rparr>"

text \<open>
  The combined client-side limit of one claim: the physical rate and the per-call maximum.
  \<open>elapsed\<close> is a \<open>u64\<close>, so its product with \<open>TICK_SIZE\<close> stays inside \<open>u128\<close>.
\<close>

definition claim_delta_limit :: "secs \<Rightarrow> secs \<Rightarrow> u128" where
  "claim_delta_limit elapsed floor_secs =
    (let rate_limit = (if floor_secs = 0 then MAX_CLAIM_DELTA
                       else elapsed * TICK_SIZE div floor_secs)
     in if rate_limit < MAX_CLAIM_DELTA then rate_limit else MAX_CLAIM_DELTA)"

definition max_claim_delta :: "ProtocolConsts \<Rightarrow> secs \<Rightarrow> u128" where
  "max_claim_delta c elapsed = claim_delta_limit elapsed (min_seconds_per_tick c)"

text \<open>The bounds of one deal's claim loop, \<open>ClaimBounds\<close> of \<open>src/crates/core/src/market/mod.rs\<close>.\<close>

record ClaimBounds =
  cb_min_claim_interval :: secs
  cb_min_seconds_per_tick :: secs
  cb_promote_window :: secs
  cb_probe_window :: secs
  cb_dispute_window :: secs

definition claim_bounds_canonical :: ClaimBounds where
  "claim_bounds_canonical =
    \<lparr>cb_min_claim_interval = min_claim_interval canonical,
     cb_min_seconds_per_tick = min_seconds_per_tick canonical,
     cb_promote_window = claim_promote_window canonical,
     cb_probe_window = probe_window canonical,
     cb_dispute_window = dispute_window canonical\<rparr>"

definition claim_bounds_from_config :: "u64 \<Rightarrow> u64 \<Rightarrow> u64 \<Rightarrow> ClaimBounds" where
  "claim_bounds_from_config min_interval min_per_tick dispute =
    \<lparr>cb_min_claim_interval = min_interval, cb_min_seconds_per_tick = min_per_tick,
     cb_promote_window = min_per_tick, cb_probe_window = PROBE_WINDOW,
     cb_dispute_window = dispute\<rparr>"

definition claim_bounds_max_delta :: "ClaimBounds \<Rightarrow> secs \<Rightarrow> u128" where
  "claim_bounds_max_delta b elapsed = claim_delta_limit elapsed (cb_min_seconds_per_tick b)"

section \<open>Prices, deadlines and funding\<close>

definition price_ceiling_shell :: "u128 \<Rightarrow> u128" where
  "price_ceiling_shell raw = div_ceil raw PRICE_STEP"

definition price_raw_from_shell :: "u128 \<Rightarrow> u128 option" where
  "price_raw_from_shell s = checked_mul U128_MAX s PRICE_STEP"

datatype price_error = NotWholeShell | AboveLargestNote | PriceOutOfRange

definition serialize_price :: "u128 \<Rightarrow> price_error + u128" where
  "serialize_price raw =
    refuse_if (raw mod PRICE_STEP \<noteq> 0) NotWholeShell (Inr (raw div PRICE_STEP))"

definition deserialize_price :: "u128 \<Rightarrow> price_error + u128" where
  "deserialize_price s =
    refuse_if (MAX_NOTE_NOMINAL_SHELL < s) AboveLargestNote
    (ok_or_else (price_raw_from_shell s) PriceOutOfRange Inr)"

definition probe_seed_owed :: "bool \<Rightarrow> u128 \<Rightarrow> u128" where
  "probe_seed_owed accepted price_per_tick = (if accepted then price_per_tick else 0)"

definition default_buy_deadline :: "u64 \<Rightarrow> u64 option" where
  "default_buy_deadline now = checked_add U64_MAX now DEFAULT_BUY_TTL"

definition cli_buy_deadline_is_valid :: "u64 \<Rightarrow> u64 \<Rightarrow> bool" where
  "cli_buy_deadline_is_valid deadline now \<longleftrightarrow> deadline \<noteq> 0 \<and> now < deadline"

definition note_deploy_wallet_funding_raw :: "u64 \<Rightarrow> u128" where
  "note_deploy_wallet_funding_raw nominal_raw = nominal_raw + ROOT_PN_GAS_DEPOSIT_RAW"

definition NOTE_DEPLOY_SUBMIT_NATIVE_VALUE :: u128 where
  "NOTE_DEPLOY_SUBMIT_NATIVE_VALUE = 100000000"
definition NOTE_DEPLOY_WALLET_SUBMITS :: u128 where "NOTE_DEPLOY_WALLET_SUBMITS = 2"
definition WALLET_SUBMIT_NATIVE_FEE_BOUND_RAW :: u128 where
  "WALLET_SUBMIT_NATIVE_FEE_BOUND_RAW = 153501000"
definition FUNDING_WALLET_NATIVE_FLOOR_RAW :: u128 where
  "FUNDING_WALLET_NATIVE_FLOOR_RAW =
    NOTE_DEPLOY_WALLET_SUBMITS *
      (NOTE_DEPLOY_SUBMIT_NATIVE_VALUE + WALLET_SUBMIT_NATIVE_FEE_BOUND_RAW)"

definition funding_wallet_native_shortfall_raw :: "u128 \<Rightarrow> u128 option" where
  "funding_wallet_native_shortfall_raw native_raw =
    (case checked_sub FUNDING_WALLET_NATIVE_FLOOR_RAW native_raw of
       None \<Rightarrow> None
     | Some short \<Rightarrow> if 0 < short then Some short else None)"

section \<open>The gas reserve of a deal\<close>

definition DEAL_BURN_DEPLOY_RAW :: u128 where "DEAL_BURN_DEPLOY_RAW = 100000000"
definition DEAL_BURN_TERMINAL_RAW :: u128 where "DEAL_BURN_TERMINAL_RAW = 45000000"
definition DEAL_BURN_POST_FROM_NOTE_RAW :: u128 where "DEAL_BURN_POST_FROM_NOTE_RAW = 25000000"
definition DEAL_BURN_FUND_FROM_BOOK_RAW :: u128 where "DEAL_BURN_FUND_FROM_BOOK_RAW = 20000000"
definition DEAL_BURN_OPEN_RAW :: u128 where "DEAL_BURN_OPEN_RAW = 15000000"
definition DEAL_BURN_ACCEPT_PROBE_RAW :: u128 where "DEAL_BURN_ACCEPT_PROBE_RAW = 15000000"
definition DEAL_BURN_CLAIM_RAW :: u128 where "DEAL_BURN_CLAIM_RAW = 15000000"
definition DEAL_BURN_SETTLE_RAW :: u128 where "DEAL_BURN_SETTLE_RAW = 15000000"
definition DEAL_BURN_FUND_DEAL_RAW :: u128 where "DEAL_BURN_FUND_DEAL_RAW = 10000000"
definition DEAL_BURN_LIGHT_RAW :: u128 where "DEAL_BURN_LIGHT_RAW = 5000000"

lemmas burn_defs = DEAL_BURN_DEPLOY_RAW_def DEAL_BURN_TERMINAL_RAW_def
  DEAL_BURN_POST_FROM_NOTE_RAW_def DEAL_BURN_FUND_FROM_BOOK_RAW_def DEAL_BURN_OPEN_RAW_def
  DEAL_BURN_ACCEPT_PROBE_RAW_def DEAL_BURN_CLAIM_RAW_def DEAL_BURN_SETTLE_RAW_def
  DEAL_BURN_FUND_DEAL_RAW_def DEAL_BURN_LIGHT_RAW_def

definition deal_gas_reserve_raw :: "u128 \<Rightarrow> u128" where
  "deal_gas_reserve_raw max_ticks =
    (let once = DEAL_BURN_DEPLOY_RAW + DEAL_BURN_POST_FROM_NOTE_RAW + DEAL_BURN_FUND_FROM_BOOK_RAW
                + DEAL_BURN_FUND_DEAL_RAW + DEAL_BURN_OPEN_RAW + DEAL_BURN_ACCEPT_PROBE_RAW
                + DEAL_BURN_SETTLE_RAW + DEAL_BURN_LIGHT_RAW * 2 + DEAL_BURN_TERMINAL_RAW * 2
     in saturating_add U128_MAX once
          (saturating_mul U128_MAX DEAL_BURN_CLAIM_RAW (max max_ticks 1)))"

definition resolve_deal_gas_overhead_raw :: "string \<Rightarrow> u128 option \<Rightarrow> string + u128" where
  "resolve_deal_gas_overhead_raw network supplied_raw =
    Inr (case supplied_raw of None \<Rightarrow> 0 | Some r \<Rightarrow> r)"

definition deal_gas_requirement_raw_with_overhead :: "u128 \<Rightarrow> u128 \<Rightarrow> u128" where
  "deal_gas_requirement_raw_with_overhead max_ticks surplus =
    saturating_add U128_MAX (deal_gas_reserve_raw max_ticks) surplus"

definition deal_gas_requirement_raw :: "u128 \<Rightarrow> u128" where
  "deal_gas_requirement_raw max_ticks = deal_gas_requirement_raw_with_overhead max_ticks 0"

definition min_deploy_shells_with_overhead :: "u128 \<Rightarrow> u128 \<Rightarrow> u128" where
  "min_deploy_shells_with_overhead max_ticks overhead =
    max (div_ceil (deal_gas_requirement_raw_with_overhead max_ticks overhead) SHELL_UNIT) 1"

definition min_deploy_shells :: "u128 \<Rightarrow> u128" where
  "min_deploy_shells max_ticks = min_deploy_shells_with_overhead max_ticks 0"

definition default_deposit_shells :: "u128 \<Rightarrow> u128" where
  "default_deposit_shells max_ticks = min_deploy_shells max_ticks"

definition deal_gas_health_floor_raw_with_overhead :: "u128 \<Rightarrow> u128 \<Rightarrow> u128" where
  "deal_gas_health_floor_raw_with_overhead max_ticks overhead =
    deal_gas_requirement_raw_with_overhead max_ticks overhead"

definition deal_gas_health_floor_raw :: "u128 \<Rightarrow> u128" where
  "deal_gas_health_floor_raw max_ticks = deal_gas_health_floor_raw_with_overhead max_ticks 0"

definition deal_gas_health_target_raw_with_overhead :: "u128 \<Rightarrow> u128 \<Rightarrow> u128" where
  "deal_gas_health_target_raw_with_overhead max_ticks overhead =
    saturating_mul U128_MAX (min_deploy_shells_with_overhead max_ticks overhead) SHELL_UNIT"

definition deal_gas_health_target_raw :: "u128 \<Rightarrow> u128" where
  "deal_gas_health_target_raw max_ticks = deal_gas_health_target_raw_with_overhead max_ticks 0"

section \<open>SHELL amounts as text\<close>

text \<open>
  Rust's integer formatting and parsing, and \<open>str::trim\<close> on the ASCII white space characters. The
  texts are ASCII.
\<close>

definition digit_char :: "nat \<Rightarrow> char" where
  "digit_char n = char_of (48 + n)"

fun show_nat :: "nat \<Rightarrow> string" where
  "show_nat n = (if n < 10 then [digit_char n] else show_nat (n div 10) @ [digit_char (n mod 10)])"

declare show_nat.simps [simp del]

definition digit_val :: "char \<Rightarrow> nat" where
  "digit_val c = of_char c - 48"

definition dec_val :: "string \<Rightarrow> nat" where
  "dec_val s = foldl (\<lambda>acc c. acc * 10 + digit_val c) 0 s"

definition strip_plus :: "string \<Rightarrow> string" where
  "strip_plus s = (case s of c # rest \<Rightarrow> if c = CHR ''+'' then rest else s | [] \<Rightarrow> [])"

definition parse_uint :: "nat \<Rightarrow> string \<Rightarrow> nat option" where
  "parse_uint m s =
    (let ds = strip_plus s
     in if ds \<noteq> [] \<and> list_all is_ascii_digit ds \<and> dec_val ds \<le> m
        then Some (dec_val ds) else None)"

definition is_ascii_space :: "char \<Rightarrow> bool" where
  "is_ascii_space c = (let n = (of_char c :: nat) in n = 32 \<or> (9 \<le> n \<and> n \<le> 13))"

definition trim :: "string \<Rightarrow> string" where
  "trim s = rev (dropWhile is_ascii_space (rev (dropWhile is_ascii_space s)))"

function trim_start_matches :: "string \<Rightarrow> string \<Rightarrow> string" where
  "trim_start_matches pat s =
    (if pat \<noteq> [] \<and> take (length pat) s = pat then trim_start_matches pat (drop (length pat) s)
     else s)"
  by pat_completeness auto
termination
proof (relation "measure (\<lambda>(pat, s). length s)")
  fix pat s :: string
  assume "pat \<noteq> [] \<and> take (length pat) s = pat"
  then have "0 < length pat" and "0 < length s" by auto
  then show "((pat, drop (length pat) s), pat, s) \<in> measure (\<lambda>(pat, s). length s)" by simp
qed simp

definition zero_pad :: "nat \<Rightarrow> string \<Rightarrow> string" where
  "zero_pad w s = replicate (w - length s) (CHR ''0'') @ s"

definition pop_zeros :: "string \<Rightarrow> string" where
  "pop_zeros s = rev (dropWhile (\<lambda>c. c = CHR ''0'') (rev s))"

definition shell_amount :: "u128 \<Rightarrow> string" where
  "shell_amount raw =
    (let whole = raw div SHELL_UNIT; rest = raw mod SHELL_UNIT
     in if rest = 0 then show_nat whole
        else show_nat whole @ CHR ''.'' # pop_zeros (zero_pad 9 (show_nat rest)))"

definition shell_amount_of_text :: "string \<Rightarrow> string" where
  "shell_amount_of_text raw =
    (case parse_uint U128_MAX (trim raw) of Some v \<Rightarrow> shell_amount v | None \<Rightarrow> raw)"

datatype amount_error =
  AmountEmpty | FinerThanRawUnit | SignInAmount | BadWholePart | BadDecimals | AmountOutOfRange

definition split_at_point :: "string \<Rightarrow> string \<times> string" where
  "split_at_point s =
    (let whole = takeWhile (\<lambda>c. c \<noteq> CHR ''.'') s
     in (whole, drop (length whole + 1) s))"

definition shell_amount_raw :: "string \<Rightarrow> amount_error + u128" where
  "shell_amount_raw input =
    (let amt = trim input in
     refuse_if (amt = []) AmountEmpty
     (let (whole_text, decimals_text) = split_at_point amt in
      refuse_if (9 < length decimals_text) FinerThanRawUnit
      (refuse_if (CHR ''+'' \<in> set amt) SignInAmount
       (ok_or_else (if whole_text = [] then Some 0 else parse_uint U128_MAX whole_text)
          BadWholePart (\<lambda>whole.
        ok_or_else (if decimals_text = [] then Some 0 else parse_uint U128_MAX decimals_text)
          BadDecimals (\<lambda>decimals.
        let scale = 10 ^ (9 - length decimals_text) in
        ok_or_else (checked_mul U128_MAX whole SHELL_UNIT) AmountOutOfRange (\<lambda>raw.
        ok_or_else (checked_mul U128_MAX decimals scale) AmountOutOfRange (\<lambda>part.
        ok_or_else (checked_add U128_MAX raw part) AmountOutOfRange Inr))))))))"

subsection \<open>Decimal digits\<close>

lemma of_char_digit [simp]: "n < 10 \<Longrightarrow> (of_char (digit_char n) :: nat) = 48 + n"
  by (simp add: digit_char_def take_bit_eq_mod)

lemma digit_val_digit [simp]: "n < 10 \<Longrightarrow> digit_val (digit_char n) = n"
  by (simp add: digit_val_def)

lemma is_ascii_digit_digit [simp]: "n < 10 \<Longrightarrow> is_ascii_digit (digit_char n)"
  by (simp add: is_ascii_digit_def)

lemma dec_val_acc: "foldl (\<lambda>acc c. acc * 10 + digit_val c) a s = a * 10 ^ length s + dec_val s"
proof (induction s arbitrary: a)
  case (Cons c s)
  show ?case
    using Cons.IH [of "a * 10 + digit_val c"] Cons.IH [of "digit_val c"]
    by (simp add: dec_val_def algebra_simps)
qed (simp add: dec_val_def)

lemma dec_val_append: "dec_val (s @ t) = dec_val s * 10 ^ length t + dec_val t"
proof -
  have "dec_val (s @ t) = foldl (\<lambda>acc c. acc * 10 + digit_val c) (dec_val s) t"
    by (simp add: dec_val_def)
  then show ?thesis by (simp only: dec_val_acc)
qed

lemma dec_val_zeros [simp]: "dec_val (replicate k (CHR ''0'')) = 0"
proof (induction k)
  case (Suc k)
  have "replicate (Suc k) (CHR ''0'') = [CHR ''0''] @ replicate k (CHR ''0'')" by simp
  then show ?case using Suc by (simp only: dec_val_append) (simp add: dec_val_def digit_val_def)
qed (simp add: dec_val_def)

lemma show_nat_correct:
  "dec_val (show_nat n) = n \<and> list_all is_ascii_digit (show_nat n) \<and> show_nat n \<noteq> []"
proof (induction n rule: show_nat.induct)
  case (1 n)
  show ?case
  proof (cases "n < 10")
    case True
    then show ?thesis by (simp add: show_nat.simps [of n] dec_val_def)
  next
    case False
    with "1.IH" have "dec_val (show_nat (n div 10)) = n div 10" and
      "list_all is_ascii_digit (show_nat (n div 10))" by auto
    with False show ?thesis
      by (simp add: show_nat.simps [of n] dec_val_append) (simp add: dec_val_def)
  qed
qed

lemmas dec_val_show [simp] = show_nat_correct [THEN conjunct1]
lemmas show_nat_digits [simp] = show_nat_correct [THEN conjunct2, THEN conjunct1]
lemmas show_nat_nonempty [simp] = show_nat_correct [THEN conjunct2, THEN conjunct2]

lemma length_show_nat: "n < 10 ^ k \<Longrightarrow> 0 < k \<Longrightarrow> length (show_nat n) \<le> k"
proof (induction k arbitrary: n)
  case (Suc k)
  show ?case
  proof (cases "n < 10")
    case True
    then show ?thesis by (simp add: show_nat.simps [of n])
  next
    case False
    then have "0 < k" using Suc.prems by (cases k) auto
    moreover have "n div 10 < 10 ^ k" using Suc.prems by (simp add: div_less_iff_less_mult mult.commute)
    ultimately have "length (show_nat (n div 10)) \<le> k" using Suc.IH by blast
    with False show ?thesis by (simp add: show_nat.simps [of n])
  qed
qed simp

lemma digit_not_special:
  "is_ascii_digit c \<Longrightarrow> c \<noteq> CHR ''.'' \<and> c \<noteq> CHR ''+'' \<and> \<not> is_ascii_space c"
  by (auto simp: is_ascii_digit_def is_ascii_space_def Let_def)

lemma parse_uint_digits:
  "list_all is_ascii_digit s \<Longrightarrow> s \<noteq> [] \<Longrightarrow>
    parse_uint m s = (if dec_val s \<le> m then Some (dec_val s) else None)"
  by (cases s) (auto simp: parse_uint_def strip_plus_def dest: digit_not_special)

lemma trim_fixed:
  assumes "s \<noteq> []" "\<not> is_ascii_space (hd s)" "\<not> is_ascii_space (last s)"
  shows "trim s = s"
proof -
  have "dropWhile is_ascii_space s = s" using assms by (cases s) auto
  moreover have "dropWhile is_ascii_space (rev s) = rev s"
    using assms by (cases "rev s") (auto simp: last_rev hd_rev simp flip: rev_rev_ident)
  ultimately show ?thesis by (simp add: trim_def)
qed

lemma pop_zeros_split: "\<exists>k. s = pop_zeros s @ replicate k (CHR ''0'')"
proof (induction s rule: rev_induct)
  case (snoc c s)
  show ?case
  proof (cases "c = CHR ''0''")
    case True
    obtain k where "s = pop_zeros s @ replicate k (CHR ''0'')" using snoc.IH by blast
    then have "s @ [c] = pop_zeros s @ replicate (Suc k) (CHR ''0'')"
      using True by (metis append.assoc replicate_append_same replicate_Suc)
    moreover have "pop_zeros (s @ [c]) = pop_zeros s" using True by (simp add: pop_zeros_def)
    ultimately show ?thesis by metis
  next
    case False
    then have "s @ [c] = pop_zeros (s @ [c]) @ replicate 0 (CHR ''0'')"
      by (simp add: pop_zeros_def)
    then show ?thesis by metis
  qed
qed (simp add: pop_zeros_def)

text \<open>The nine decimals of a fraction, after the trailing zeros are dropped.\<close>

lemma fraction_text:
  assumes "rest < SHELL_UNIT" and "rest \<noteq> 0"
  defines "d \<equiv> pop_zeros (zero_pad 9 (show_nat rest))"
  shows "d \<noteq> []" and "length d \<le> 9" and "list_all is_ascii_digit d"
    and "dec_val d * 10 ^ (9 - length d) = rest"
proof -
  let ?p = "zero_pad 9 (show_nat rest)"
  have len: "length (show_nat rest) \<le> 9"
    using assms(1) by (intro length_show_nat) (simp_all add: SHELL_UNIT_def)
  then have lp: "length ?p = 9" by (simp add: zero_pad_def)
  have vp: "dec_val ?p = rest" by (simp add: zero_pad_def dec_val_append)
  have dp: "list_all is_ascii_digit ?p"
    using show_nat_digits [of rest] by (auto simp: zero_pad_def list_all_iff is_ascii_digit_def)
  obtain k where k: "?p = d @ replicate k (CHR ''0'')"
    using pop_zeros_split [of ?p] by (auto simp: d_def)
  have lk: "length d + k = 9" using lp k by (metis length_append length_replicate)
  have "rest = dec_val d * 10 ^ k" using vp k by (simp add: dec_val_append)
  moreover have "k = 9 - length d" using lk by simp
  ultimately show "dec_val d * 10 ^ (9 - length d) = rest" by simp
  with assms(2) show "d \<noteq> []" by (auto simp: dec_val_def)
  show "length d \<le> 9" using lk by simp
  show "list_all is_ascii_digit d" using dp k by simp
qed

lemma no_point_takeWhile:
  assumes "list_all is_ascii_digit w"
  shows "takeWhile (\<lambda>c. c \<noteq> CHR ''.'') (w @ CHR ''.'' # d) = w"
    and "takeWhile (\<lambda>c. c \<noteq> CHR ''.'') w = w"
proof -
  have w: "\<forall>c\<in>set w. c \<noteq> CHR ''.''"
    using assms digit_not_special by (auto simp: list_all_iff)
  then show "takeWhile (\<lambda>c. c \<noteq> CHR ''.'') (w @ CHR ''.'' # d) = w"
    by (subst takeWhile_append2) auto
  show "takeWhile (\<lambda>c. c \<noteq> CHR ''.'') w = w"
    using w by (simp add: takeWhile_eq_all_conv)
qed

lemma digits_hd_last:
  assumes "list_all is_ascii_digit s" and "s \<noteq> []"
  shows "\<not> is_ascii_space (hd s)" and "\<not> is_ascii_space (last s)"
  using assms digit_not_special hd_in_set [of s] last_in_set [of s] by (auto simp: list_all_iff)

lemma no_plus: "list_all is_ascii_digit s \<Longrightarrow> CHR ''+'' \<notin> set s"
  by (auto simp: list_all_iff dest: digit_not_special)

subsection \<open>Round trips and limits\<close>

lemma shell_amount_raw_shell_amount:
  assumes "raw \<le> U128_MAX"
  shows "shell_amount_raw (shell_amount raw) = Inr raw"
proof -
  let ?w = "raw div SHELL_UNIT" and ?r = "raw mod SHELL_UNIT"
  have raw: "?w * SHELL_UNIT + ?r = raw" by simp
  have w: "?w \<le> U128_MAX" "?w * SHELL_UNIT \<le> U128_MAX"
    using assms div_le_dividend [of raw SHELL_UNIT] div_times_less_eq_dividend [of raw SHELL_UNIT]
    by linarith+
  show ?thesis
  proof (cases "?r = 0")
    case True
    have t: "trim (show_nat ?w) = show_nat ?w"
      using digits_hd_last [of "show_nat ?w"] by (intro trim_fixed) auto
    show ?thesis using True raw w t no_plus [of "show_nat ?w"]
      by (simp add: shell_amount_def shell_amount_raw_def split_at_point_def no_point_takeWhile
          parse_uint_digits checked_mul_def checked_add_def Let_def)
  next
    case False
    define d where "d = pop_zeros (zero_pad 9 (show_nat ?r))"
    have r: "?r < SHELL_UNIT" by (simp add: SHELL_UNIT_def)
    note d = fraction_text [OF r False, folded d_def]
    have amt: "shell_amount raw = show_nat ?w @ CHR ''.'' # d"
      using False by (simp add: shell_amount_def d_def)
    have "\<not> is_ascii_space (hd (shell_amount raw))"
      and "\<not> is_ascii_space (last (shell_amount raw))"
      using digits_hd_last [of "show_nat ?w"] digits_hd_last [OF d(3,1)] d(1) by (simp_all add: amt)
    then have t: "trim (shell_amount raw) = shell_amount raw"
      by (intro trim_fixed) (simp_all add: amt)
    have "dec_val d \<le> ?r" using d(4) by (metis le_add1 mult.commute mult_le_mono1 mult.right_neutral one_le_numeral one_le_power mult_le_mono2)
    then have dv: "dec_val d \<le> U128_MAX" using assms by (meson le_trans mod_less_eq_dividend)
    have rm: "?r \<le> U128_MAX" using assms by (meson le_trans mod_less_eq_dividend)
    show ?thesis using raw w dv d t no_plus [of "show_nat ?w"] no_plus [OF d(3)] assms rm
      by (simp add: shell_amount_raw_def split_at_point_def amt no_point_takeWhile
          parse_uint_digits checked_mul_def checked_add_def Let_def)
  qed
qed

lemma claim_delta_limit_iff:
  assumes "0 < floor_secs"
  shows "delta \<le> claim_delta_limit elapsed floor_secs \<longleftrightarrow>
    delta \<le> MAX_CLAIM_DELTA \<and> delta * floor_secs \<le> elapsed * TICK_SIZE"
proof -
  have "delta \<le> elapsed * TICK_SIZE div floor_secs \<longleftrightarrow> delta * floor_secs \<le> elapsed * TICK_SIZE"
    using assms by (rule less_eq_div_iff_mult_less_eq)
  with assms show ?thesis by (auto simp: claim_delta_limit_def Let_def)
qed

lemma deal_gas_floor_le_target:
  "deal_gas_health_floor_raw_with_overhead n s \<le> deal_gas_health_target_raw_with_overhead n s"
proof -
  let ?r = "deal_gas_requirement_raw_with_overhead n s"
  have "?r \<le> div_ceil ?r SHELL_UNIT * SHELL_UNIT"
    using div_ceil_le_iff [of SHELL_UNIT ?r "div_ceil ?r SHELL_UNIT"] by (simp add: SHELL_UNIT_def)
  also have "\<dots> \<le> max (div_ceil ?r SHELL_UNIT) 1 * SHELL_UNIT" by (rule mult_le_mono1) simp
  finally show ?thesis
    by (simp add: deal_gas_health_floor_raw_with_overhead_def saturating_mul_def
        deal_gas_health_target_raw_with_overhead_def min_deploy_shells_with_overhead_def
        deal_gas_requirement_raw_with_overhead_def)
qed

end
