(* ===== verification/Settle.thy ===== *)
theory Settle
  imports Params
begin

text \<open>
  Settlement formulas: \<open>src/crates/core/src/settle.rs\<close>. Fee, rebate and net burn are computed on
  the machine words the code uses, because the intermediate product of \<open>mul_bps\<close> is an unchecked
  \<open>u128\<close> multiplication that wraps in a release build, and its quotient is truncated to \<open>u64\<close>.
  The burns of a dispute and of an abandoned probe only take minima and differences that cannot
  leave the type; they are on \<^typ>\<open>nat\<close>.
\<close>

section \<open>Fee, rebate, net burn\<close>

type_synonym w32 = "32 word"
type_synonym w64 = "64 word"
type_synonym w128 = "128 word"

record WordConsts =
  w_platform_fee_bps :: w32
  w_rebate_max_bps :: w32
  w_rebate_slope_bps :: w32

definition word_consts :: "ProtocolConsts \<Rightarrow> WordConsts" where
  "word_consts c = \<lparr>w_platform_fee_bps = of_nat (platform_fee_bps c),
     w_rebate_max_bps = of_nat (rebate_max_bps c),
     w_rebate_slope_bps = of_nat (rebate_slope_bps c)\<rparr>"

definition mul_bps :: "w32 \<Rightarrow> w64 \<Rightarrow> w64 \<Rightarrow> w64" where
  "mul_bps bps n v = ucast ((ucast bps * ucast n * ucast v :: w128) div 10000)"

definition fee :: "w64 \<Rightarrow> w64 \<Rightarrow> WordConsts \<Rightarrow> w64" where
  "fee delivered_ticks p c = mul_bps (w_platform_fee_bps c) delivered_ticks p"

definition saturating_mul_w64 :: "w64 \<Rightarrow> w64 \<Rightarrow> w64" where
  "saturating_mul_w64 a b = (if unat a * unat b < 2 ^ 64 then a * b else - 1)"

definition rebate_rate_bps :: "w64 \<Rightarrow> WordConsts \<Rightarrow> w32" where
  "rebate_rate_bps n_clean_ticks c =
    (let slope = saturating_mul_w64 (ucast (w_rebate_slope_bps c)) n_clean_ticks
     in ucast (min slope (ucast (w_rebate_max_bps c))))"

definition rebate :: "w64 \<Rightarrow> w64 \<Rightarrow> WordConsts \<Rightarrow> w64" where
  "rebate n_clean_ticks p c = mul_bps (rebate_rate_bps n_clean_ticks c) n_clean_ticks p"

definition saturating_sub_w32 :: "w32 \<Rightarrow> w32 \<Rightarrow> w32" where
  "saturating_sub_w32 a b = (if b \<le> a then a - b else 0)"

definition net_burn :: "w64 \<Rightarrow> w64 \<Rightarrow> WordConsts \<Rightarrow> w64" where
  "net_burn n_clean_ticks p c =
    (let rate = saturating_sub_w32 (w_platform_fee_bps c) (rebate_rate_bps n_clean_ticks c)
     in mul_bps rate n_clean_ticks p)"

section \<open>Burns\<close>

record ContestedBurn =
  burn_buyer :: shell
  burn_buyer_refund :: u128
  burn_seller :: shell
  burn_seller_refund :: shell

definition burn_total :: "ContestedBurn \<Rightarrow> u128" where
  "burn_total b = burn_buyer b + burn_seller b"

definition contested_burn :: "shell \<Rightarrow> shell \<Rightarrow> ContestedBurn" where
  "contested_burn deposit seller_bond =
    \<lparr>burn_buyer = min seller_bond deposit, burn_buyer_refund = 0, burn_seller = seller_bond,
     burn_seller_refund = 0\<rparr>"

definition probe_burn :: "shell \<Rightarrow> shell \<Rightarrow> ContestedBurn" where
  "probe_burn probe_tick seller_bond =
    (let seller = min probe_tick seller_bond
     in \<lparr>burn_buyer = probe_tick, burn_buyer_refund = 0, burn_seller = seller,
         burn_seller_refund = seller_bond - seller\<rparr>)"

section \<open>Exact values where nothing wraps\<close>

lemma unat_ucast_32_64 [simp]: "unat (ucast (x :: w32) :: w64) = unat x"
  by (simp add: unsigned_ucast_eq take_bit_nat_eq_self unsigned_less [THEN less_le_trans])

lemma unat_ucast_32_128 [simp]: "unat (ucast (x :: w32) :: w128) = unat x"
  by (simp add: unsigned_ucast_eq take_bit_nat_eq_self unsigned_less [THEN less_le_trans])

lemma unat_ucast_64_128 [simp]: "unat (ucast (x :: w64) :: w128) = unat x"
  by (simp add: unsigned_ucast_eq take_bit_nat_eq_self unsigned_less [THEN less_le_trans])

lemma unat_mul_bps:
  assumes "unat bps * unat n * unat v < 10000 * 2 ^ 64"
  shows "unat (mul_bps bps n v) = unat bps * unat n * unat v div 10000"
proof -
  let ?prod = "unat bps * unat n * unat v"
  have lt: "?prod < 2 ^ 128" using assms by simp
  have bn: "unat bps * unat n < 2 ^ 128"
  proof -
    have "unat bps * unat n < 2 ^ 32 * 2 ^ 64"
      using unsigned_less [of bps] unsigned_less [of n] by (intro mult_strict_mono) auto
    then show ?thesis by simp
  qed
  have "unat (ucast bps * ucast n * ucast v :: w128) = ?prod"
    using lt bn by (simp add: unat_word_ariths)
  then have "unat ((ucast bps * ucast n * ucast v :: w128) div 10000) = ?prod div 10000"
    by (simp add: unat_div)
  moreover have "?prod div 10000 < 2 ^ 64" using assms by (simp add: div_less_iff_less_mult)
  ultimately show ?thesis by (simp add: mul_bps_def unsigned_ucast_eq take_bit_nat_eq_self)
qed

lemma unat_min: "unat (min (a :: 'w::len word) b) = min (unat a) (unat b)"
  by (simp add: min_def word_le_nat_alt)

lemma unat_rebate_rate_bps:
  "unat (rebate_rate_bps n c) = min (unat (w_rebate_slope_bps c) * unat n) (unat (w_rebate_max_bps c))"
proof -
  let ?s = "w_rebate_slope_bps c" and ?m = "w_rebate_max_bps c"
  let ?slope = "saturating_mul_w64 (ucast ?s) n"
  have mx: "unat ?m < 2 ^ 32" using unsigned_less [of ?m] by simp
  have "min (unat ?slope) (unat ?m) = min (unat ?s * unat n) (unat ?m)"
  proof (cases "unat ?s * unat n < 2 ^ 64")
    case True
    then show ?thesis by (simp add: saturating_mul_w64_def unat_word_ariths)
  next
    case False
    then have "unat ?slope = 2 ^ 64 - 1" by (simp add: saturating_mul_w64_def unsigned_minus_1_eq_mask mask_eq_exp_minus_1)
    with False mx show ?thesis by simp
  qed
  with mx show ?thesis
    by (simp add: rebate_rate_bps_def Let_def unsigned_ucast_eq unat_min take_bit_nat_eq_self)
qed

end
