(* ===== verification/MarketTypes.thy ===== *)
theory MarketTypes
  imports Settle
begin

unbundle bit_operations_syntax

text \<open>
  The data of the market: \<open>src/crates/core/src/market/types.rs\<close>. Offers, orders and their
  liveness, the shape of a deal, the typed reads of the deal contract with their strict decoders,
  the seller's fill cursor, and the errors of a backend. The first part holds the types, the second
  the operations on them, the third their lemmas.
\<close>

section \<open>Errors\<close>

text \<open>
  What the mock chain and the accounting refuse. The messages of the source carry the figures
  involved; the model keeps which refusal it is. \<open>MachinePanic\<close> stands for the panic of a stream
  machine transition (\<open>refuse_when_not_live\<close>), which unwinds before anything is stored.
\<close>

datatype refusal =
    ArithmeticOverflow | NotASubscriptionOrder | ReserveMismatch | OrderIdExists | OrderAbsent
  | AlreadyMatched | BuyTicksOutOfRange | AonNeedsFullVolume | DuplicateActiveSell | AlreadyFilled
  | BoundToOriginalSeller | RestingSellAbsent | NotOpenable | NoSellerActor | WrongSellerNote
  | WrongBuyerNote | StreamExists | NoDealShape | ProbeNotCovered | NotOpenAccepted | NoDueClaim
  | NotOpenProbe | ProbeWindowOpen | ProbeFeeNotCovered | LifecycleDisagrees | ClaimRegresses
  | ClockRegresses | ClaimIntervalOpen | PromotionWindowOpen | OrdinaryDeal | NoCrossedWeek
  | AlreadyClosed | IsDisputed | NoProbeBurn | NotUndisputedOpen | NotInDispute | DisputeWindowOpen
  | AlreadyOpened | MatchTimeoutOpen | EscrowExceeded | PaymentRegresses | PaymentExceedsFunded
  | NoConsumedOffer | PendingBelowFinal | QuoteChanged | MachinePanic

datatype offer_refusal =
    TooFewTicks | PriceNotOnStep | UnsupportedFlags | MarketSell | PostOnlyTaker | IocAndFok
  | SubscriptionNeedsAon | SubscriptionVolume | OfferOverflow

datatype limit_refusal = OverMaxTokens | OverWeeklyCap | OverClaimDelta | OverPhysicalRate

datatype state_fault =
    UnknownDealFlags | FlagWeeksContradict | WeekBeyondTerm | PaidBeyondFunded | BaseBeyondFunded
  | PeriodInFuture | WeeksNotCanonical | QuotaOverflow | QuotaNotFunded | OrdinaryWeekly
  | BadProbeTime | PipelineNotMonotonic | ClaimInFuture | PipelineWithoutTime | DisputeInFuture
  | DisputeWithoutTime | RetainedDisputeTime | ClaimAfterDispute | ClaimsBeforeProbe
  | ProbeNotSeeded | ProbeStillLocked | LifecycleIncoherent | TickCounterOverflow
  | PendingDisagrees | TrustedDisagrees | DisputedTotalOverflow | NoPersistedMatch | MatchKeyDisagrees
  | NoFilledOffer | OfferKeyDisagrees | NoPersistedSeller | SellerNotCanonical | PriceDisagrees
  | TicksOutsideOffer | MatchedTicksOverflow | FundedDisagrees | FlagsDisagree | BuyerDisagrees
  | MachinePriceDisagrees | MaxTicksDisagree | PendingBeyondFunded | MatchWithoutShape
  | BadFundedTime | OrphanMatchTime | SchemaUnsupported | StreamWithoutShape | NoMatchTime
  | MatchTimeNegative | StreamWithoutMatch | CrossGetter | MachineRefused | NoFundedTime

datatype ChainError =
    NoMatch string
  | NoStream string
  | EndpointsFile state_fault
  | MalformedFile
  | UnreadableFile
  | Chain refusal
  | BadOffer offer_refusal
  | Limit limit_refusal
  | ClaimHighWaterResync u128 u128

section \<open>Offers and orders\<close>

type_synonym token_contract = string
type_synonym flag_bits = "8 word"

definition IOC :: flag_bits where "IOC = 0x01"
definition FOK :: flag_bits where "FOK = 0x02"
definition MARKET :: flag_bits where "MARKET = 0x04"
definition POST_ONLY :: flag_bits where "POST_ONLY = 0x08"
definition TEE :: flag_bits where "TEE = 0x10"
definition AON :: flag_bits where "AON = 0x20"
definition SUBSCRIPTION :: flag_bits where "SUBSCRIPTION = 0x40"
definition DEAL_MASK :: flag_bits where "DEAL_MASK = TEE OR SUBSCRIPTION"

lemmas flag_defs = IOC_def FOK_def MARKET_def POST_ONLY_def TEE_def AON_def SUBSCRIPTION_def
  DEAL_MASK_def

datatype SellOfferOutcome = Rested u128 | Matched

record SellOffer =
  so_price_per_tick :: shell
  so_max_ticks :: u64
  so_token_contract :: token_contract
  so_flags :: flag_bits

record OfferListing =
  ol_seller_id :: string
  ol_token_contract :: token_contract
  ol_price_per_tick :: shell
  ol_max_ticks :: u64

record OrderBookOrder =
  ob_order_id :: u128
  ob_owner_note :: string
  ob_token_contract :: "token_contract option"
  ob_is_buy :: bool
  ob_price_per_tick :: u128
  ob_ticks :: u128
  ob_escrow :: u128
  ob_deadline :: u64
  ob_flags :: flag_bits
  ob_timestamp :: u64

definition order_deadline_is_live :: "bool \<Rightarrow> u64 \<Rightarrow> u64 \<Rightarrow> bool" where
  "order_deadline_is_live is_buy deadline now = (if deadline = 0 then is_buy else now < deadline)"

definition is_resting_ask :: "OrderBookOrder \<Rightarrow> bool" where
  "is_resting_ask o1 \<longleftrightarrow> \<not> ob_is_buy o1 \<and> ob_token_contract o1 \<noteq> None \<and> 0 < ob_ticks o1"

definition is_live_resting_ask_at :: "OrderBookOrder \<Rightarrow> u64 \<Rightarrow> bool" where
  "is_live_resting_ask_at o1 now \<longleftrightarrow>
    is_resting_ask o1 \<and> order_deadline_is_live (ob_is_buy o1) (ob_deadline o1) now"

definition ensure_pre_submit_quote_unchanged ::
  "OrderBookOrder option \<Rightarrow> OrderBookOrder \<Rightarrow> ChainError + unit" where
  "ensure_pre_submit_quote_unchanged quoted_order selected =
    (if (case quoted_order of
           None \<Rightarrow> False
         | Some quoted \<Rightarrow> ob_order_id quoted = ob_order_id selected
             \<and> ob_token_contract quoted = ob_token_contract selected
             \<and> ob_price_per_tick quoted = ob_price_per_tick selected
             \<and> ob_ticks quoted = ob_ticks selected
             \<and> ob_deadline quoted = ob_deadline selected
             \<and> ob_flags quoted = ob_flags selected)
     then Inr () else Inl (Chain QuoteChanged))"

record OrderBookStats =
  obs_next_order_id :: u128
  obs_order_count :: u128
  obs_executed_notional :: u128
  obs_executed_ticks :: u128

record OrderBookSnapshot =
  book_frame_model :: string
  book_model_hash :: string
  book_order_book :: string
  book_stats :: "OrderBookStats option"
  book_orders :: "OrderBookOrder list"

definition active :: "OrderBookSnapshot \<Rightarrow> bool" where
  "active b \<longleftrightarrow> book_stats b \<noteq> None"

definition resting_asks :: "OrderBookSnapshot \<Rightarrow> OrderBookOrder list" where
  "resting_asks b = filter is_resting_ask (book_orders b)"

definition live_resting_asks_at :: "OrderBookSnapshot \<Rightarrow> u64 \<Rightarrow> OrderBookOrder list" where
  "live_resting_asks_at b now = filter (\<lambda>o1. is_live_resting_ask_at o1 now) (book_orders b)"

section \<open>The shape of a deal\<close>

record DealSubscription =
  sub_deal_flags :: flag_bits
  sub_weeks :: u8
  sub_week_index :: u8
  sub_tokens_per_week :: u128
  sub_funded_tokens :: u128
  sub_tokens_paid :: u128
  sub_period_start :: u64
  sub_week_base_tokens :: u128

definition is_subscription :: "DealSubscription \<Rightarrow> bool" where
  "is_subscription s \<longleftrightarrow> sub_weeks s \<noteq> 0"

definition is_tee :: "DealSubscription \<Rightarrow> bool" where
  "is_tee s \<longleftrightarrow> sub_deal_flags s AND TEE \<noteq> 0"

definition weeks_remaining :: "DealSubscription \<Rightarrow> u8" where
  "weeks_remaining s = saturating_sub (sub_weeks s) (sub_week_index s)"

definition recorded_week_expires_at :: "DealSubscription \<Rightarrow> u64" where
  "recorded_week_expires_at s =
    (if \<not> is_subscription s \<or> sub_weeks s \<le> sub_week_index s then U64_MAX
     else saturating_add U64_MAX (sub_period_start s)
            (saturating_add U64_MAX (sub_week_index s) 1 * SUB_WEEK_LEN))"

definition term_is_over :: "DealSubscription \<Rightarrow> bool" where
  "term_is_over s \<longleftrightarrow> is_subscription s \<and> sub_weeks s \<le> sub_week_index s"

section \<open>Typed reads of the deal contract\<close>

record DealChainState =
  dcs_funded :: bool
  dcs_opened :: bool
  dcs_probe_accepted :: bool
  dcs_disputed :: bool
  dcs_deposit :: u128
  dcs_finalized_owed :: u128
  dcs_tokens_final :: u128
  dcs_tokens_pending :: u128
  dcs_probe_tick :: u128
  dcs_funded_time :: "u64 option"
  dcs_probe_time :: u64
  dcs_last_claim_time :: u64
  dcs_dispute_time :: u64

definition contested_tokens :: "DealChainState \<Rightarrow> u128" where
  "contested_tokens s = saturating_sub (dcs_tokens_pending s) (dcs_tokens_final s)"

definition dcs_on_probe :: "DealChainState \<Rightarrow> bool" where
  "dcs_on_probe s \<longleftrightarrow> dcs_opened s \<and> \<not> dcs_probe_accepted s"

definition is_stopped :: "DealChainState \<Rightarrow> bool" where
  "is_stopped s \<longleftrightarrow> dcs_funded s \<and> \<not> dcs_opened s \<and> \<not> dcs_disputed s
    \<and> dcs_deposit s = 0 \<and> dcs_probe_tick s = 0"

definition figure :: "string \<Rightarrow> nat \<Rightarrow> string list" where
  "figure field v = (if 0 < v then [field @ ''='' @ show_nat v] else [])"

fun join_comma :: "string list \<Rightarrow> string" where
  "join_comma [] = []"
| "join_comma [s] = s"
| "join_comma (s # t # rest) = s @ '', '' @ join_comma (t # rest)"

definition used_facts :: "DealChainState \<Rightarrow> string list" where
  "used_facts s =
    (if dcs_opened s then [''opened''] else []) @
    (if dcs_funded s then [''funded''] else []) @
    (if dcs_disputed s then [''disputed''] else []) @
    (if dcs_probe_accepted s then [''probeAccepted''] else []) @
    figure ''deposit'' (dcs_deposit s) @ figure ''probeTick'' (dcs_probe_tick s) @
    figure ''finalizedOwed'' (dcs_finalized_owed s) @
    figure ''tokensFinal'' (dcs_tokens_final s) @
    figure ''tokensPending'' (dcs_tokens_pending s) @
    (case dcs_funded_time s of None \<Rightarrow> [] | Some t \<Rightarrow> [''fundedTime='' @ show_nat t]) @
    figure ''probeTime'' (dcs_probe_time s) @
    figure ''lastClaimTime'' (dcs_last_claim_time s) @
    figure ''disputeTime'' (dcs_dispute_time s)"

definition used_reason :: "DealChainState \<Rightarrow> string option" where
  "used_reason s = (if used_facts s = [] then None else Some (join_comma (used_facts s)))"

datatype cap_error = NotASubscription | CapOverflow | ClaimAboveCap

definition subscription_claim_cap_at ::
  "DealChainState \<Rightarrow> DealSubscription \<Rightarrow> cap_error + u128" where
  "subscription_claim_cap_at st s =
    refuse_if (\<not> is_subscription s) NotASubscription
    (if term_is_over s then Inr (dcs_tokens_pending st)
     else ok_or_else (checked_add U128_MAX (sub_week_base_tokens s) (sub_tokens_per_week s))
            CapOverflow (\<lambda>cap. Inr (min cap (sub_funded_tokens s))))"

definition subscription_current_week_headroom ::
  "DealChainState \<Rightarrow> DealSubscription \<Rightarrow> cap_error + u128" where
  "subscription_current_week_headroom st s =
    bindR (subscription_claim_cap_at st s) (\<lambda>cap.
    ok_or_else (checked_sub cap (dcs_tokens_pending st)) ClaimAboveCap Inr)"

record DealOfferLatch =
  offer_posted :: bool

record DealSellerBond =
  sb_bond_funded :: bool
  sb_bond_held :: u128
  sb_bond_required :: u128

record DealBuyerBond =
  bb_bond_held :: u128
  bb_bond_required :: u128

record DealChainSnapshot =
  snap_account_code_hash :: string
  snap_account_boc_hash :: string
  snap_state :: DealChainState
  snap_subscription :: DealSubscription
  snap_seller_bond :: DealSellerBond
  snap_buyer_bond :: DealBuyerBond

datatype cross_fault =
    UnderTwoTicks | SellerHeldAboveRequired | SellerHeldUnfunded | OpenedUnfunded
  | OpenedWithoutBond | BuyerRequiredShape | BuyerHeldAboveBond | SubscriptionBondNotHeld

definition validate_cross_getter_invariants :: "DealChainSnapshot \<Rightarrow> cross_fault + unit" where
  "validate_cross_getter_invariants d =
    (let st = snap_state d; sub = snap_subscription d;
         seller = snap_seller_bond d; buyer = snap_buyer_bond d;
         minimum_funded_tokens = TICK_SIZE * 2;
         expected_buyer_required = (if is_subscription sub then sb_bond_required seller else 0)
     in
     refuse_if (dcs_funded st \<and> sub_funded_tokens sub < minimum_funded_tokens) UnderTwoTicks
     (refuse_if (sb_bond_required seller < sb_bond_held seller) SellerHeldAboveRequired
     (refuse_if (\<not> sb_bond_funded seller \<and> sb_bond_held seller \<noteq> 0) SellerHeldUnfunded
     (refuse_if (dcs_opened st \<and> \<not> dcs_funded st) OpenedUnfunded
     (refuse_if (dcs_opened st \<and> (\<not> sb_bond_funded seller \<or> sb_bond_required seller = 0
                  \<or> sb_bond_held seller \<noteq> sb_bond_required seller)) OpenedWithoutBond
     (refuse_if (bb_bond_required buyer \<noteq> expected_buyer_required) BuyerRequiredShape
     (refuse_if (sb_bond_required seller < bb_bond_held buyer) BuyerHeldAboveBond
     (if \<not> is_subscription sub then Inr ()
      else refuse_if ((dcs_funded st \<and> \<not> is_stopped st)
                      \<and> (bb_bond_required buyer = 0 \<or> bb_bond_held buyer \<noteq> bb_bond_required buyer))
             SubscriptionBondNotHeld (Inr ())))))))))"

definition snapshot_buyer_locked :: "DealChainSnapshot \<Rightarrow> refusal + u128" where
  "snapshot_buyer_locked d =
    ok_or_else (checked_add U128_MAX (dcs_deposit (snap_state d)) (dcs_probe_tick (snap_state d)))
      ArithmeticOverflow (\<lambda>total.
    ok_or_else (checked_add U128_MAX total (bb_bond_held (snap_buyer_bond d)))
      ArithmeticOverflow Inr)"

section \<open>Strict getter decoding\<close>

text \<open>A JSON value as \<open>serde_json::Value\<close> has it; an object's keys are distinct.\<close>

datatype json =
  JNull | JBool bool | JNum int | JStr string | JArr "json list" | JObj "(string \<times> json) list"

datatype getter_error =
    NonObject | FieldSetMismatch "string list" "string list" | MissingField string | NotABool string
  | NotADecimalString string | NotUnsignedDecimal string | ExceedsWidth string
  | UnknownShapeBits | ContradictoryWeeks | WeekIndexBeyond | TokensPaidBeyond | WeekBaseBeyond
  | WeeksNotTerm | QuotaProductOverflow | QuotaMismatch | OrdinaryWeeklyState | ClaimPipeline

definition getter_exact_object ::
  "json \<Rightarrow> string list \<Rightarrow> getter_error + (string \<times> json) list" where
  "getter_exact_object v expected =
    (case v of
       JObj obj \<Rightarrow>
         (let missing = filter (\<lambda>f. \<not> contains_key obj f) expected;
              unexpected = filter (\<lambda>f. f \<notin> set expected) (hkeys obj)
          in if missing \<noteq> [] \<or> unexpected \<noteq> [] \<or> length obj \<noteq> length expected
             then Inl (FieldSetMismatch missing (sort unexpected)) else Inr obj)
     | _ \<Rightarrow> Inl NonObject)"

definition getter_field :: "json \<Rightarrow> string \<Rightarrow> getter_error + json" where
  "getter_field v field =
    (case v of JObj obj \<Rightarrow> ok_or_else (hget obj field) (MissingField field) Inr
     | _ \<Rightarrow> Inl NonObject)"

definition getter_bool :: "json \<Rightarrow> string \<Rightarrow> getter_error + bool" where
  "getter_bool v field =
    bindR (getter_field v field) (\<lambda>x. case x of JBool b \<Rightarrow> Inr b | _ \<Rightarrow> Inl (NotABool field))"

definition getter_decimal :: "json \<Rightarrow> string \<Rightarrow> getter_error + string" where
  "getter_decimal v field =
    bindR (getter_field v field) (\<lambda>x. case x of
      JStr raw \<Rightarrow> refuse_if (raw = [] \<or> \<not> list_all is_ascii_digit raw)
                    (NotUnsignedDecimal field) (Inr raw)
    | _ \<Rightarrow> Inl (NotADecimalString field))"

definition getter_uint :: "nat \<Rightarrow> json \<Rightarrow> string \<Rightarrow> getter_error + nat" where
  "getter_uint m v field =
    bindR (getter_decimal v field) (\<lambda>raw. ok_or_else (parse_uint m raw) (ExceedsWidth field) Inr)"

abbreviation getter_u8 :: "json \<Rightarrow> string \<Rightarrow> getter_error + nat" where
  "getter_u8 \<equiv> getter_uint U8_MAX"
abbreviation getter_u64 :: "json \<Rightarrow> string \<Rightarrow> getter_error + nat" where
  "getter_u64 \<equiv> getter_uint U64_MAX"
abbreviation getter_u128 :: "json \<Rightarrow> string \<Rightarrow> getter_error + nat" where
  "getter_u128 \<equiv> getter_uint U128_MAX"

definition GET_SUBSCRIPTION_FIELDS :: "string list" where
  "GET_SUBSCRIPTION_FIELDS =
    [''dealFlags'', ''subWeeks'', ''weekIndex'', ''tokensPerWeek'', ''fundedTokens'',
     ''tokensPaid'', ''periodStart'', ''weekBaseTokens'']"

definition check_subscription_shape :: "DealSubscription \<Rightarrow> getter_error + DealSubscription" where
  "check_subscription_shape d =
    (let unknown = sub_deal_flags d AND NOT DEAL_MASK;
         subscription_flag = (sub_deal_flags d AND SUBSCRIPTION \<noteq> 0)
     in
     refuse_if (unknown \<noteq> 0) UnknownShapeBits
     (refuse_if (subscription_flag \<noteq> (sub_weeks d \<noteq> 0)) ContradictoryWeeks
     (refuse_if (sub_weeks d < sub_week_index d) WeekIndexBeyond
     (refuse_if (sub_funded_tokens d < sub_tokens_paid d) TokensPaidBeyond
     (refuse_if (sub_funded_tokens d < sub_week_base_tokens d) WeekBaseBeyond
     (if subscription_flag then
        refuse_if (sub_weeks d \<noteq> SUBSCRIPTION_WEEKS) WeeksNotTerm
        (ok_or_else (checked_mul U128_MAX (sub_tokens_per_week d) (sub_weeks d)) QuotaProductOverflow
           (\<lambda>expected. refuse_if (expected \<noteq> sub_funded_tokens d) QuotaMismatch (Inr d)))
      else refuse_if (sub_week_index d \<noteq> 0 \<or> sub_tokens_per_week d \<noteq> sub_funded_tokens d
                      \<or> sub_week_base_tokens d \<noteq> 0) OrdinaryWeeklyState (Inr d)))))))"

definition decode_subscription :: "json \<Rightarrow> getter_error + DealSubscription" where
  "decode_subscription v =
    bindR (getter_exact_object v GET_SUBSCRIPTION_FIELDS) (\<lambda>_.
    bindR (getter_u8 v ''dealFlags'') (\<lambda>deal_flags.
    bindR (getter_u8 v ''subWeeks'') (\<lambda>weeks.
    bindR (getter_u8 v ''weekIndex'') (\<lambda>week_index.
    bindR (getter_u128 v ''tokensPerWeek'') (\<lambda>tokens_per_week.
    bindR (getter_u128 v ''fundedTokens'') (\<lambda>funded_tokens.
    bindR (getter_u128 v ''tokensPaid'') (\<lambda>tokens_paid.
    bindR (getter_u64 v ''periodStart'') (\<lambda>period_start.
    bindR (getter_u128 v ''weekBaseTokens'') (\<lambda>week_base_tokens.
    check_subscription_shape
      \<lparr>sub_deal_flags = of_nat deal_flags, sub_weeks = weeks, sub_week_index = week_index,
       sub_tokens_per_week = tokens_per_week, sub_funded_tokens = funded_tokens,
       sub_tokens_paid = tokens_paid, sub_period_start = period_start,
       sub_week_base_tokens = week_base_tokens\<rparr>)))))))))"

definition GET_STATE_FIELDS :: "string list" where
  "GET_STATE_FIELDS =
    [''funded'', ''opened'', ''probeAccepted'', ''disputed'', ''deposit'', ''probeTick'',
     ''finalizedOwed'', ''tokensFinal'', ''tokensPending'', ''probeTime'', ''lastClaimTime'',
     ''disputeTime'', ''fundedTime'']"

definition decode_state :: "json \<Rightarrow> getter_error + DealChainState" where
  "decode_state v =
    bindR (getter_exact_object v GET_STATE_FIELDS) (\<lambda>_.
    bindR (getter_u64 v ''fundedTime'') (\<lambda>funded_time.
    bindR (getter_bool v ''funded'') (\<lambda>funded.
    bindR (getter_bool v ''opened'') (\<lambda>opened.
    bindR (getter_bool v ''probeAccepted'') (\<lambda>probe_accepted.
    bindR (getter_bool v ''disputed'') (\<lambda>disputed.
    bindR (getter_u128 v ''deposit'') (\<lambda>deposit.
    bindR (getter_u128 v ''probeTick'') (\<lambda>probe_tick.
    bindR (getter_u128 v ''finalizedOwed'') (\<lambda>finalized_owed.
    bindR (getter_u128 v ''tokensFinal'') (\<lambda>tokens_final.
    bindR (getter_u128 v ''tokensPending'') (\<lambda>tokens_pending.
    bindR (getter_u64 v ''probeTime'') (\<lambda>probe_time.
    bindR (getter_u64 v ''lastClaimTime'') (\<lambda>last_claim_time.
    bindR (getter_u64 v ''disputeTime'') (\<lambda>dispute_time.
    refuse_if (tokens_pending < tokens_final) ClaimPipeline
    (Inr \<lparr>dcs_funded = funded, dcs_opened = opened, dcs_probe_accepted = probe_accepted,
       dcs_disputed = disputed, dcs_deposit = deposit, dcs_finalized_owed = finalized_owed,
       dcs_tokens_final = tokens_final, dcs_tokens_pending = tokens_pending,
       dcs_probe_tick = probe_tick,
       dcs_funded_time = (if funded_time \<noteq> 0 then Some funded_time else None),
       dcs_probe_time = probe_time, dcs_last_claim_time = last_claim_time,
       dcs_dispute_time = dispute_time\<rparr>)))))))))))))))"

definition decode_offer_latch :: "json \<Rightarrow> getter_error + DealOfferLatch" where
  "decode_offer_latch v =
    bindR (getter_exact_object v [''offerPosted'']) (\<lambda>_.
    bindR (getter_bool v ''offerPosted'') (\<lambda>b. Inr \<lparr>offer_posted = b\<rparr>))"

definition decode_seller_bond :: "json \<Rightarrow> getter_error + DealSellerBond" where
  "decode_seller_bond v =
    bindR (getter_exact_object v [''bondFunded'', ''bondHeld'', ''bondRequired'']) (\<lambda>_.
    bindR (getter_bool v ''bondFunded'') (\<lambda>funded.
    bindR (getter_u128 v ''bondHeld'') (\<lambda>held.
    bindR (getter_u128 v ''bondRequired'') (\<lambda>required.
    Inr \<lparr>sb_bond_funded = funded, sb_bond_held = held, sb_bond_required = required\<rparr>))))"

definition decode_buyer_bond :: "json \<Rightarrow> getter_error + DealBuyerBond" where
  "decode_buyer_bond v =
    bindR (getter_exact_object v [''bondHeld'', ''bondRequired'']) (\<lambda>_.
    bindR (getter_u128 v ''bondHeld'') (\<lambda>held.
    bindR (getter_u128 v ''bondRequired'') (\<lambda>required.
    Inr \<lparr>bb_bond_held = held, bb_bond_required = required\<rparr>)))"

end
