(* ===== verification/MarketViews.thy ===== *)
theory MarketViews
  imports MarketTypes
begin

text \<open>
  The second half of \<open>src/crates/core/src/market/types.rs\<close>: quotes and fills, the owner-facing book
  facts, the seller's fill cursor, the receipts of a settlement action, and the views of a note. The
  lemmas at the end show what the cursor lets through: exactly the events no batch has covered.
\<close>

section \<open>Notes\<close>

text \<open>The public half of a note, \<open>NotePubkey\<close>: an encryption key and a signing key of 32 bytes.\<close>

record NotePubkey =
  pk_x :: "8 word list"
  pk_ed :: "8 word list"

definition note_id_hex :: "NotePubkey \<Rightarrow> string" where
  "note_id_hex pk = concat (map hex_byte (pk_ed pk))"

lemma hex_bytes_inj: "concat (map hex_byte xs) = concat (map hex_byte ys) \<Longrightarrow> xs = ys"
proof (induction xs arbitrary: ys)
  case Nil
  then show ?case by (cases ys) (auto simp: hex_byte_def)
next
  case (Cons x xs)
  then obtain y ys' where ys: "ys = y # ys'" by (cases ys) (auto simp: hex_byte_def)
  with Cons.prems have "hex_byte x @ concat (map hex_byte xs) = hex_byte y @ concat (map hex_byte ys')"
    by simp
  then have "hex_byte x = hex_byte y" and "concat (map hex_byte xs) = concat (map hex_byte ys')"
    by (simp_all add: hex_byte_def)
  with Cons.IH ys show ?case by (simp add: hex_byte_inj)
qed

section \<open>Quotes, fills and book facts\<close>

record QuoteFill =
  qf_order_id :: u128
  qf_token_contract :: token_contract
  qf_ticks :: u128
  qf_price_per_tick :: u128
  qf_cost_with_fee :: u128

record MatchedFill =
  mf_order_id :: u128
  mf_token_contract :: token_contract
  mf_ticks :: u128
  mf_price_per_tick :: u128

record InferenceSubscriptionPlacement =
  isp_order_id :: u128
  isp_buyer_note :: string
  isp_max_price_per_tick :: u128
  isp_ticks :: u128
  isp_sub_weeks :: u8
  isp_deadline :: u64
  isp_created_at :: i64

datatype BuyerOrderFactKind =
    FactPlaced u128 u128 u128 u64
  | FactCancelled u128 u128
  | FactExpired u128
  | FactRefunded u128 u128
  | FactRejected u8 u128

record BuyerOrderFact =
  fact_created_at :: i64
  fact_note :: string
  fact_kind :: BuyerOrderFactKind

definition fact_order_id :: "BuyerOrderFact \<Rightarrow> u128 option" where
  "fact_order_id f =
    (case fact_kind f of
       FactPlaced oid _ _ _ \<Rightarrow> Some oid
     | FactCancelled oid _ \<Rightarrow> Some oid
     | FactExpired oid \<Rightarrow> Some oid
     | FactRefunded oid _ \<Rightarrow> Some oid
     | FactRejected _ _ \<Rightarrow> None)"

record ExecutableQuote =
  eq_filled_ticks :: u128
  eq_total_with_fee :: u128
  eq_complete :: bool
  eq_fills :: "QuoteFill list"

record Match =
  mt_token_contract :: token_contract
  mt_buyer_pubkey :: NotePubkey
  mt_price_per_tick :: shell

section \<open>The seller's fill cursor\<close>

record MatchWatchCursor =
  cur_since_unix :: i64
  cur_last_seen_created_at :: "i64 option"
  cur_seen_token_contracts_at_last_seen :: "token_contract list"

definition new_cursor :: "i64 \<Rightarrow> MatchWatchCursor" where
  "new_cursor since_unix = \<lparr>cur_since_unix = since_unix, cur_last_seen_created_at = None,
     cur_seen_token_contracts_at_last_seen = []\<rparr>"

definition any_ignoring_case :: "token_contract list \<Rightarrow> token_contract \<Rightarrow> bool" where
  "any_ignoring_case tcs tc = list_ex (\<lambda>t. eq_ignore_ascii_case t tc) tcs"

definition has_seen :: "MatchWatchCursor \<Rightarrow> i64 \<Rightarrow> token_contract \<Rightarrow> bool" where
  "has_seen c created_at tc =
    (if created_at < cur_since_unix c then True
     else case cur_last_seen_created_at c of
       None \<Rightarrow> False
     | Some l \<Rightarrow> if created_at < l then True
                 else if created_at = l
                 then any_ignoring_case (cur_seen_token_contracts_at_last_seen c) tc
                 else False)"

text \<open>\<open>Vec::dedup_by\<close>: an element goes when it equals the last one kept.\<close>

fun dedup_by :: "('a \<Rightarrow> 'a \<Rightarrow> bool) \<Rightarrow> 'a list \<Rightarrow> 'a list" where
  "dedup_by same [] = []"
| "dedup_by same [x] = [x]"
| "dedup_by same (x # y # rest) =
    (if same y x then dedup_by same (x # rest) else x # dedup_by same (y # rest))"

definition record_seen_one ::
  "i64 \<Rightarrow> i64 option \<times> token_contract list \<Rightarrow> i64 \<times> token_contract
    \<Rightarrow> i64 option \<times> token_contract list" where
  "record_seen_one since_unix acc ev =
    (case acc of (max_seen, at_max) \<Rightarrow> case ev of (created_at, tc) \<Rightarrow>
     if created_at < since_unix then acc
     else case max_seen of
       None \<Rightarrow> (Some created_at, [tc])
     | Some m \<Rightarrow> if created_at < m then acc
                 else if created_at = m
                 then (if any_ignoring_case at_max tc then acc else (max_seen, at_max @ [tc]))
                 else (Some created_at, [tc]))"

definition record_seen_batch ::
  "MatchWatchCursor \<Rightarrow> (i64 \<times> token_contract) list \<Rightarrow> MatchWatchCursor" where
  "record_seen_batch c events =
    (let at_start = (if cur_last_seen_created_at c \<noteq> None
                     then cur_seen_token_contracts_at_last_seen c else []);
         (max_seen, at_max) =
           foldl (record_seen_one (cur_since_unix c)) (cur_last_seen_created_at c, at_start) events
     in case max_seen of
          None \<Rightarrow> c
        | Some m \<Rightarrow> c\<lparr>cur_last_seen_created_at := Some m,
            cur_seen_token_contracts_at_last_seen :=
              dedup_by eq_ignore_ascii_case (sort at_max)\<rparr>)"

section \<open>Stream snapshots and settlement receipts\<close>

record StreamSnapshot =
  ss_seller_locked :: u128
  ss_buyer_locked :: u128
  ss_buyer_lead :: u128
  ss_tokens_final :: u128
  ss_seller_received :: u128
  ss_buyer_refunded :: u128
  ss_burned :: u128
  ss_closed :: bool

datatype SettlementAction =
  BuyerStop | SellerStop | Dispute | ReleaseDispute | ResolveDisputeTimeout

definition show_settlement_action :: "SettlementAction \<Rightarrow> string" where
  "show_settlement_action a =
    (case a of BuyerStop \<Rightarrow> ''buyer_stop'' | SellerStop \<Rightarrow> ''seller_stop'' | Dispute \<Rightarrow> ''dispute''
     | ReleaseDispute \<Rightarrow> ''release_dispute'' | ResolveDisputeTimeout \<Rightarrow> ''resolve_dispute_timeout'')"

datatype SettlementActionEvent =
    ProbeBurned string u128 u128 u128
  | StreamStopped string u128 u128
  | StreamDisputed string u64
  | DisputeResolved u128 u128 bool

record SettlementActionBondState =
  bs_seller_bond_held :: u128
  bs_seller_bond_required :: u128
  bs_buyer_bond_held :: u128
  bs_buyer_bond_required :: u128

record SettlementActionPostState =
  ps_tokens_final :: u128
  ps_tokens_pending :: u128
  ps_seller_bond_held :: u128
  ps_seller_bond_required :: u128
  ps_buyer_bond_held :: u128
  ps_buyer_bond_required :: u128
  ps_opened :: bool
  ps_disputed :: bool

record SettlementActionReceipt =
  sar_token_contract :: token_contract
  sar_action :: SettlementAction
  sar_message_id :: string
  sar_created_at :: u64
  sar_event :: SettlementActionEvent
  sar_pre_bonds :: SettlementActionBondState
  sar_post_state :: "SettlementActionPostState option"

datatype BuyerStopTerminalFact = SubmittedStop | AlreadyClosedFact | UnknownCloser

record BuyerStopTerminalReceipt =
  bst_token_contract :: token_contract
  bst_fact :: BuyerStopTerminalFact
  bst_stop_submitted :: bool
  bst_message_id :: string
  bst_created_at :: u64
  bst_event :: SettlementActionEvent
  bst_pre_bonds :: "SettlementActionBondState option"
  bst_post_state :: "SettlementActionPostState option"

definition unknown_closer :: "SettlementActionReceipt \<Rightarrow> BuyerStopTerminalReceipt" where
  "unknown_closer r =
    \<lparr>bst_token_contract = sar_token_contract r, bst_fact = UnknownCloser,
     bst_stop_submitted = True, bst_message_id = sar_message_id r,
     bst_created_at = sar_created_at r, bst_event = sar_event r,
     bst_pre_bonds = Some (sar_pre_bonds r), bst_post_state = sar_post_state r\<rparr>"

section \<open>Views of a note\<close>

datatype MatchedTokenContractStatus =
    Opened
  | FundedNeverOpened "u64 option" "u64 option" bool "u64 option"

datatype DealRole = Buyer | Seller

record DealView =
  dv_token_contract :: token_contract
  dv_role :: DealRole
  dv_counterparty :: "string option"
  dv_price_per_tick :: shell
  dv_model :: "string option"
  dv_snapshot :: "StreamSnapshot option"

record NoteSnapshot =
  ns_note_id :: string
  ns_offers :: "OfferListing list"
  ns_deals :: "DealView list"
  ns_exposure :: shell

record TreeSnapshot =
  ts_note_ids :: "string list"
  ts_offers :: "OfferListing list"
  ts_deals :: "DealView list"
  ts_exposure :: shell

definition UNKNOWN_MODEL :: string where "UNKNOWN_MODEL = ''(unknown)''"

record CounterpartyTally =
  ct_counterparty :: "string option"
  ct_tokens :: u64
  ct_money :: shell
  ct_locked :: shell
  ct_burned :: shell

record ModelBreakdown =
  mb_model :: string
  mb_role :: DealRole
  mb_counterparties :: "CounterpartyTally list"
  mb_tokens :: u64
  mb_money :: shell
  mb_locked :: shell
  mb_burned :: shell

datatype DealAnomaly =
    LockedNoMatch shell
  | LockedAfterClose shell
  | BuyerLockExceedsTwoTicks shell shell

section \<open>What the cursor covers\<close>

lemma any_ignoring_case_iff:
  "any_ignoring_case tcs tc \<longleftrightarrow> to_ascii_lowercase tc \<in> to_ascii_lowercase ` set tcs"
  by (auto simp: any_ignoring_case_def list_ex_iff eq_ignore_ascii_case_def image_iff)
    metis

lemma dedup_by_lowercase:
  "to_ascii_lowercase ` set (dedup_by eq_ignore_ascii_case xs) = to_ascii_lowercase ` set xs"
proof (induction "eq_ignore_ascii_case" xs rule: dedup_by.induct)
  case (3 x y rest)
  then show ?case by (auto simp: eq_ignore_ascii_case_def)
qed simp_all

lemma any_ignoring_case_dedup [simp]:
  "any_ignoring_case (dedup_by eq_ignore_ascii_case (sort xs)) tc = any_ignoring_case xs tc"
  by (simp add: any_ignoring_case_iff dedup_by_lowercase)

definition covered :: "i64 option \<times> token_contract list \<Rightarrow> i64 \<Rightarrow> token_contract \<Rightarrow> bool" where
  "covered acc t tc =
    (case fst acc of None \<Rightarrow> False
     | Some m \<Rightarrow> t < m \<or> (t = m \<and> any_ignoring_case (snd acc) tc))"

lemma covered_record_seen_one:
  "covered (record_seen_one since_unix acc ev) t tc \<longleftrightarrow>
    covered acc t tc \<or>
    since_unix \<le> fst ev \<and> (t < fst ev \<or> t = fst ev \<and> eq_ignore_ascii_case (snd ev) tc)"
  by (cases acc; cases ev)
    (auto simp: covered_def record_seen_one_def any_ignoring_case_def eq_ignore_ascii_case_def
      list_ex_iff split: option.splits if_splits)

lemma fold_keeps_max: "fst (foldl (record_seen_one since_unix) acc evs) = None \<Longrightarrow> fst acc = None"
proof (induction evs arbitrary: acc)
  case (Cons ev evs)
  then have "fst (record_seen_one since_unix acc ev) = None" by simp
  then show ?case
    by (cases acc; cases ev) (auto simp: record_seen_one_def split: if_splits option.splits)
qed simp

lemma covered_fold:
  "covered (foldl (record_seen_one since_unix) acc evs) t tc \<longleftrightarrow>
    covered acc t tc \<or>
    (\<exists>ev\<in>set evs. since_unix \<le> fst ev
      \<and> (t < fst ev \<or> t = fst ev \<and> eq_ignore_ascii_case (snd ev) tc))"
proof (induction evs arbitrary: acc)
  case (Cons ev evs)
  then show ?case by (auto simp: covered_record_seen_one)
qed simp

lemma has_seen_covered:
  "has_seen c t tc \<longleftrightarrow> t < cur_since_unix c \<or>
    covered (cur_last_seen_created_at c, cur_seen_token_contracts_at_last_seen c) t tc"
  by (auto simp: has_seen_def covered_def split: option.splits)

lemma has_seen_record_seen_batch:
  "has_seen (record_seen_batch c evs) t tc \<longleftrightarrow>
    has_seen c t tc \<or>
    (\<exists>(t', tc') \<in> set evs. cur_since_unix c \<le> t'
      \<and> (t < t' \<or> t = t' \<and> eq_ignore_ascii_case tc' tc))"
proof -
  let ?start = "(cur_last_seen_created_at c,
    if cur_last_seen_created_at c \<noteq> None then cur_seen_token_contracts_at_last_seen c else [])"
  obtain m at_max where fold:
    "foldl (record_seen_one (cur_since_unix c)) ?start evs = (m, at_max)" by fastforce
  have start: "covered ?start t tc = covered (cur_last_seen_created_at c,
      cur_seen_token_contracts_at_last_seen c) t tc"
    by (auto simp: covered_def split: option.splits)
  have "covered (m, at_max) t tc \<longleftrightarrow> covered ?start t tc \<or>
    (\<exists>ev\<in>set evs. cur_since_unix c \<le> fst ev
      \<and> (t < fst ev \<or> t = fst ev \<and> eq_ignore_ascii_case (snd ev) tc))"
    using covered_fold [of "cur_since_unix c" ?start evs] by (simp only: fold)
  moreover have "has_seen (record_seen_batch c evs) t tc \<longleftrightarrow>
    t < cur_since_unix c \<or> covered (m, at_max) t tc"
  proof (cases m)
    case None
    then have "cur_last_seen_created_at c = None"
      using fold_keeps_max [of "cur_since_unix c" ?start evs] fold by simp
    then show ?thesis using None fold
      by (simp add: record_seen_batch_def has_seen_covered covered_def Let_def)
  next
    case (Some k)
    then show ?thesis using fold
      by (auto simp: record_seen_batch_def has_seen_covered covered_def Let_def)
  qed
  ultimately show ?thesis unfolding start has_seen_covered [of c] case_prod_unfold by blast
qed

end
