(* ===== verification/Machine.thy ===== *)
theory Machine
  imports MarketViews
begin

text \<open>
  The stream state machine: \<open>src/crates/core/src/machine.rs\<close>. A transition that returns a
  \<open>Result\<close> is a sum; a terminal transition that panics outside a live deal
  (\<open>refuse_when_not_live\<close>) is an option with \<^const>\<open>None\<close> for the panic. The unchecked additions
  of the source wrap at \<open>u64\<close>.
\<close>

section \<open>State and transitions\<close>

record Tick =
  tick_index :: u64
  tick_price :: shell

datatype StreamState =
    Opening
  | Probe Tick
  | Streaming u64 u64
  | Stopping
  | Disputed u64 u64
  | Closed

datatype Settlement =
    AuthoritativeReceipt SettlementActionReceipt
  | BuyerStopTerminal BuyerStopTerminalReceipt
  | BurnBoth ContestedBurn
  | AmicableSplit u64 u128
  | SellerNoShow u128 u128

datatype InvariantError =
    ProbeAcceptedNeedsProbe | ClaimsCannotDecrease | ClaimNeedsOpen | PromoteNeedsOpen
  | ClaimBelowTrusted

record StreamMachine =
  sm_state :: StreamState
  sm_price :: shell
  sm_seller_bond :: u128

definition open_machine :: "shell \<Rightarrow> DobParams \<Rightarrow> StreamMachine" where
  "open_machine price params =
    \<lparr>sm_state = Probe \<lparr>tick_index = 0, tick_price = price\<rparr>, sm_price = price,
     sm_seller_bond = price * 2\<rparr>"

definition on_probe_accepted :: "StreamMachine \<Rightarrow> InvariantError + StreamMachine" where
  "on_probe_accepted m =
    (case sm_state m of
       Probe _ \<Rightarrow> Inr (m\<lparr>sm_state := Streaming 1 1\<rparr>)
     | _ \<Rightarrow> Inl ProbeAcceptedNeedsProbe)"

definition on_probe :: "StreamMachine \<Rightarrow> bool" where
  "on_probe m = (case sm_state m of Probe _ \<Rightarrow> True | _ \<Rightarrow> False)"

definition trusted_ticks :: "StreamMachine \<Rightarrow> u64" where
  "trusted_ticks m =
    (case sm_state m of Streaming trusted _ \<Rightarrow> trusted | Disputed trusted _ \<Rightarrow> trusted | _ \<Rightarrow> 0)"

definition check_invariant :: "StreamMachine \<Rightarrow> InvariantError + StreamMachine" where
  "check_invariant m =
    (case sm_state m of
       Streaming trusted pending \<Rightarrow> refuse_if (pending < trusted) ClaimBelowTrusted (Inr m)
     | _ \<Rightarrow> Inr m)"

definition on_claim :: "StreamMachine \<Rightarrow> u64 \<Rightarrow> InvariantError + StreamMachine" where
  "on_claim m cumulative =
    (case sm_state m of
       Streaming _ pending \<Rightarrow>
         refuse_if (cumulative < pending) ClaimsCannotDecrease
           (check_invariant (m\<lparr>sm_state := Streaming pending cumulative\<rparr>))
     | _ \<Rightarrow> Inl ClaimNeedsOpen)"

definition on_promote :: "StreamMachine \<Rightarrow> InvariantError + StreamMachine" where
  "on_promote m =
    (case sm_state m of
       Streaming _ pending \<Rightarrow> check_invariant (m\<lparr>sm_state := Streaming pending pending\<rparr>)
     | _ \<Rightarrow> Inl PromoteNeedsOpen)"

definition bond_as_shell :: "StreamMachine \<Rightarrow> shell" where
  "bond_as_shell m = (case try_from U64_MAX (sm_seller_bond m) of Some b \<Rightarrow> b | None \<Rightarrow> U64_MAX)"

definition split_by_fact :: "StreamMachine \<Rightarrow> Settlement" where
  "split_by_fact m = AmicableSplit (trusted_ticks m) 0"

definition buyer_stop :: "StreamMachine \<Rightarrow> (Settlement \<times> StreamMachine) option" where
  "buyer_stop m =
    (let stopped = m\<lparr>sm_state := Stopping\<rparr> in
     case sm_state m of
       Probe tick \<Rightarrow> Some (BurnBoth (probe_burn (tick_price tick) (bond_as_shell m)), stopped)
     | Streaming _ _ \<Rightarrow> Some (split_by_fact m, stopped)
     | Disputed _ _ \<Rightarrow> Some (split_by_fact m, stopped)
     | _ \<Rightarrow> None)"

definition seller_stop_machine :: "StreamMachine \<Rightarrow> (Settlement \<times> StreamMachine) option" where
  "seller_stop_machine m =
    (let stopped = m\<lparr>sm_state := Stopping\<rparr> in
     case sm_state m of
       Probe _ \<Rightarrow> Some (split_by_fact m, stopped)
     | Streaming _ _ \<Rightarrow> Some (split_by_fact m, stopped)
     | Disputed _ _ \<Rightarrow> Some (split_by_fact m, stopped)
     | _ \<Rightarrow> None)"

definition seller_no_show :: "StreamMachine \<Rightarrow> Settlement \<times> StreamMachine" where
  "seller_no_show m = (SellerNoShow 0 (sm_seller_bond m), m\<lparr>sm_state := Closed\<rparr>)"

definition buyer_dispute :: "StreamMachine \<Rightarrow> StreamMachine" where
  "buyer_dispute m =
    (let (trusted, pending) =
       (case sm_state m of
          Streaming trusted pending \<Rightarrow> (trusted, pending)
        | Disputed trusted contested \<Rightarrow> (trusted, wrapping_add U64_MAX trusted contested)
        | _ \<Rightarrow> (0, 0))
     in m\<lparr>sm_state := Disputed trusted (saturating_sub pending trusted)\<rparr>)"

definition release_dispute_machine :: "StreamMachine \<Rightarrow> (Settlement \<times> StreamMachine) option" where
  "release_dispute_machine m =
    (let closed = m\<lparr>sm_state := Closed\<rparr> in
     case sm_state m of
       Probe _ \<Rightarrow> Some (split_by_fact m, closed)
     | Streaming _ _ \<Rightarrow> Some (split_by_fact m, closed)
     | Disputed _ _ \<Rightarrow> Some (split_by_fact m, closed)
     | _ \<Rightarrow> None)"

definition resolve_dispute_timeout_machine :: "StreamMachine \<Rightarrow> Settlement \<times> StreamMachine" where
  "resolve_dispute_timeout_machine m =
    (BurnBoth (contested_burn (bond_as_shell m) (bond_as_shell m)), m\<lparr>sm_state := Closed\<rparr>)"

definition close_machine :: "StreamMachine \<Rightarrow> StreamMachine" where
  "close_machine m = m\<lparr>sm_state := Closed\<rparr>"

definition max_buyer_loss :: "StreamMachine \<Rightarrow> u128" where
  "max_buyer_loss m =
    (let tail =
       (case sm_state m of
          Opening \<Rightarrow> 0
        | Closed \<Rightarrow> 0
        | Probe _ \<Rightarrow> 1
        | Streaming trusted pending \<Rightarrow> saturating_sub pending trusted
        | Disputed _ contested \<Rightarrow> contested
        | Stopping \<Rightarrow> 0)
     in saturating_mul U128_MAX tail (sm_price m))"

section \<open>The machine as a step relation\<close>

text \<open>
  One call of the machine, with its answer where the call has one. A refused or panicking call is
  no step.
\<close>

datatype MachineCall =
    CallProbeAccepted | CallClaim u64 | CallPromote | CallBuyerStop | CallSellerStop
  | CallNoShow | CallDispute | CallRelease | CallTimeout | CallClose

fun run_machine :: "MachineCall \<Rightarrow> StreamMachine \<Rightarrow> StreamMachine option" where
  "run_machine CallProbeAccepted m =
    (case on_probe_accepted m of Inr m' \<Rightarrow> Some m' | Inl _ \<Rightarrow> None)"
| "run_machine (CallClaim n) m = (case on_claim m n of Inr m' \<Rightarrow> Some m' | Inl _ \<Rightarrow> None)"
| "run_machine CallPromote m = (case on_promote m of Inr m' \<Rightarrow> Some m' | Inl _ \<Rightarrow> None)"
| "run_machine CallBuyerStop m = map_option snd (buyer_stop m)"
| "run_machine CallSellerStop m = map_option snd (seller_stop_machine m)"
| "run_machine CallNoShow m = Some (snd (seller_no_show m))"
| "run_machine CallDispute m = Some (buyer_dispute m)"
| "run_machine CallRelease m = map_option snd (release_dispute_machine m)"
| "run_machine CallTimeout m = Some (snd (resolve_dispute_timeout_machine m))"
| "run_machine CallClose m = Some (close_machine m)"

inductive machine_reach :: "StreamMachine \<Rightarrow> MachineCall list \<Rightarrow> StreamMachine \<Rightarrow> bool" where
  reach_start: "machine_reach m [] m"
| reach_step: "machine_reach m cs m1 \<Longrightarrow> run_machine c m1 = Some m2 \<Longrightarrow> machine_reach m (cs @ [c]) m2"

inductive_cases machine_reach_Nil: "machine_reach m [] m'"

section \<open>The claim pipeline\<close>

text \<open>
  The pipeline invariant: the newest claim never falls below what is trusted, both fit \<open>u64\<close>, and a
  disputed tail ends where a claim ended.
\<close>

definition pipeline_ok :: "StreamMachine \<Rightarrow> bool" where
  "pipeline_ok m =
    (case sm_state m of
       Streaming trusted pending \<Rightarrow> trusted \<le> pending \<and> pending \<le> U64_MAX
     | Disputed trusted contested \<Rightarrow> trusted + contested \<le> U64_MAX
     | _ \<Rightarrow> True)"

definition call_in_range :: "MachineCall \<Rightarrow> bool" where
  "call_in_range c = (case c of CallClaim n \<Rightarrow> n \<le> U64_MAX | _ \<Rightarrow> True)"

lemmas machine_defs = on_probe_accepted_def on_claim_def on_promote_def buyer_stop_def
  seller_stop_machine_def seller_no_show_def buyer_dispute_def release_dispute_machine_def
  resolve_dispute_timeout_machine_def close_machine_def check_invariant_def Let_def

lemma run_machine_keeps:
  assumes "run_machine c m = Some m'"
  shows "sm_price m' = sm_price m" and "sm_seller_bond m' = sm_seller_bond m"
  using assms by (cases c; auto simp: machine_defs refuse_if_def
      split: StreamState.splits if_splits prod.splits)+

lemma run_machine_pipeline:
  assumes "pipeline_ok m" and "call_in_range c" and "run_machine c m = Some m'"
  shows "pipeline_ok m'"
proof -
  have one: "(1::nat) \<le> U64_MAX" by (simp add: MAX_defs)
  show ?thesis
    using assms one
    by (cases c; cases "sm_state m")
      (auto simp: machine_defs refuse_if_def pipeline_ok_def call_in_range_def wrapping_add_def
        split: if_splits)
qed

text \<open>While a deal is claimable, trusted consumption only grows.\<close>

definition claimable :: "StreamMachine \<Rightarrow> bool" where
  "claimable m = (case sm_state m of Streaming _ _ \<Rightarrow> True | Disputed _ _ \<Rightarrow> True | _ \<Rightarrow> False)"

lemma run_machine_trusted_mono:
  assumes "pipeline_ok m" and "call_in_range c" and "run_machine c m = Some m'"
    and "claimable m" and "claimable m'"
  shows "trusted_ticks m \<le> trusted_ticks m'"
  using assms
  by (cases c; cases "sm_state m")
    (auto simp: machine_defs refuse_if_def pipeline_ok_def claimable_def trusted_ticks_def
      split: if_splits)

lemma machine_reach_pipeline:
  assumes "machine_reach m cs m'" and "pipeline_ok m" and "list_all call_in_range cs"
  shows "pipeline_ok m' \<and> sm_price m' = sm_price m \<and> sm_seller_bond m' = sm_seller_bond m"
  using assms
proof (induction rule: machine_reach.induct)
  case (reach_step m cs m1 c m2)
  then show ?case using run_machine_pipeline run_machine_keeps by fastforce
qed simp

definition machine_ended :: "StreamMachine \<Rightarrow> bool" where
  "machine_ended m = (sm_state m = Stopping \<or> sm_state m = Closed)"

lemma terminal_calls_end:
  "buyer_stop m = Some (s, m') \<Longrightarrow> machine_ended m'"
  "seller_stop_machine m = Some (s, m') \<Longrightarrow> machine_ended m'"
  "release_dispute_machine m = Some (s, m') \<Longrightarrow> machine_ended m'"
  by (auto simp: machine_defs machine_ended_def split: StreamState.splits)

lemma ended_refuses:
  assumes "machine_ended m"
  shows "buyer_stop m = None \<and> seller_stop_machine m = None \<and> release_dispute_machine m = None"
  using assms by (auto simp: machine_defs machine_ended_def)

lemma ended_step:
  assumes "machine_ended m" and "c \<noteq> CallDispute" and "run_machine c m = Some m'"
  shows "machine_ended m'"
  using assms by (cases c) (auto simp: machine_defs machine_ended_def)

lemma ended_reach:
  assumes "machine_reach m cs m'" and "machine_ended m" and "CallDispute \<notin> set cs"
  shows "machine_ended m'"
  using assms
proof (induction rule: machine_reach.induct)
  case (reach_step m cs m1 c m2)
  then have "machine_ended m1" and "c \<noteq> CallDispute" by auto
  with reach_step.hyps ended_step show ?case by blast
qed

text \<open>
  \<open>buyer_dispute\<close> has no such guard: it turns a closed machine into a disputed one, from which a
  second terminal record can be taken.
\<close>

lemma dispute_revives_closed_machine:
  "sm_state m = Closed \<Longrightarrow> buyer_stop (buyer_dispute m) =
    Some (AmicableSplit 0 0, m\<lparr>sm_state := Stopping\<rparr>)"
  by (simp add: machine_defs split_by_fact_def trusted_ticks_def)

section \<open>Properties\<close>

text \<open>
  A machine opened at a price \<open>P\<close> and driven by any sequence of calls keeps its price and its
  \<open>2P\<close> bond, never has a newest claim below its trusted consumption, and the value the buyer can
  lose is exactly the contested tail at the tick price.
\<close>

theorem machine_contested_tail:
  assumes "machine_reach (open_machine p params) cs m" and "list_all call_in_range cs"
    and "p \<le> U64_MAX"
  shows "sm_price m = p \<and> sm_seller_bond m = 2 * p \<and>
    (\<forall>trusted pending. sm_state m = Streaming trusted pending \<longrightarrow>
      trusted \<le> pending \<and> max_buyer_loss m = (pending - trusted) * p) \<and>
    (\<forall>trusted contested. sm_state m = Disputed trusted contested \<longrightarrow>
      max_buyer_loss m = contested * p)"
proof -
  have inv: "pipeline_ok m \<and> sm_price m = p \<and> sm_seller_bond m = 2 * p"
    using machine_reach_pipeline [OF assms(1) _ assms(2)]
    by (simp add: open_machine_def pipeline_ok_def mult.commute)
  have small: "n * p \<le> U128_MAX" if "n \<le> U64_MAX" for n
    using mult_le_mono [OF that assms(3)] by (rule le_trans) (simp add: MAX_defs)
  show ?thesis
  proof (cases "sm_state m")
    case (Streaming trusted pending)
    then have "pending - trusted \<le> U64_MAX" using inv by (auto simp: pipeline_ok_def)
    then show ?thesis using Streaming inv small
      by (simp add: pipeline_ok_def max_buyer_loss_def saturating_mul_def)
  next
    case (Disputed trusted contested)
    then have "contested \<le> U64_MAX" using inv by (simp add: pipeline_ok_def)
    then show ?thesis using Disputed inv small
      by (simp add: max_buyer_loss_def saturating_mul_def)
  qed (use inv in simp_all)
qed

text \<open>The probe is accepted, two claims land, and the tail is what the second one added.\<close>

theorem machine_contested_tail_witness:
  "(3000000000::nat) \<le> U64_MAX \<and>
   max_buyer_loss \<lparr>sm_state = Streaming 3 7, sm_price = 3000000000, sm_seller_bond = 6000000000\<rparr>
     = (7 - 3) * 3000000000"
proof -
  let ?open = "open_machine 3000000000 dob_canonical"
  let ?m = "\<lparr>sm_state = Streaming 3 7, sm_price = 3000000000, sm_seller_bond = 6000000000\<rparr>"
  have steps: "run_machine CallProbeAccepted ?open = Some (?open\<lparr>sm_state := Streaming 1 1\<rparr>)"
    "run_machine (CallClaim 3) (?open\<lparr>sm_state := Streaming 1 1\<rparr>)
       = Some (?open\<lparr>sm_state := Streaming 1 3\<rparr>)"
    "run_machine (CallClaim 7) (?open\<lparr>sm_state := Streaming 1 3\<rparr>) = Some ?m"
    by (simp_all add: machine_defs open_machine_def)
  have reach: "machine_reach ?open ([] @ [CallProbeAccepted] @ [CallClaim 3] @ [CallClaim 7]) ?m"
    using reach_step [OF reach_step [OF reach_step [OF reach_start steps(1)] steps(2)] steps(3)]
    by simp
  have range: "list_all call_in_range ([] @ [CallProbeAccepted] @ [CallClaim 3] @ [CallClaim 7])"
    by (simp add: call_in_range_def MAX_defs)
  have le: "(3000000000::nat) \<le> U64_MAX" by (simp add: MAX_defs)
  from machine_contested_tail [OF reach range le] le show ?thesis by simp
qed

text \<open>
  One terminal record per deal: once a stop or a release has answered, no further stop or release
  answers, whatever is called in between, as long as nothing opens a dispute on the ended machine.
\<close>

theorem machine_ends_once:
  assumes "buyer_stop m = Some (s, m1) \<or> seller_stop_machine m = Some (s, m1)
      \<or> release_dispute_machine m = Some (s, m1)"
    and "machine_reach m1 cs m2" and "CallDispute \<notin> set cs"
  shows "buyer_stop m2 = None \<and> seller_stop_machine m2 = None \<and> release_dispute_machine m2 = None"
  using assms terminal_calls_end ended_reach ended_refuses by blast

theorem machine_ends_once_witness:
  "seller_stop_machine \<lparr>sm_state = Closed, sm_price = 5, sm_seller_bond = 10\<rparr> = None"
proof -
  let ?m = "\<lparr>sm_state = Streaming 2 3, sm_price = 5, sm_seller_bond = 10\<rparr>"
  have stop: "buyer_stop ?m = Some (AmicableSplit 2 0, ?m\<lparr>sm_state := Stopping\<rparr>)"
    by (simp add: machine_defs split_by_fact_def trusted_ticks_def)
  have step: "run_machine CallClose (?m\<lparr>sm_state := Stopping\<rparr>) = Some (?m\<lparr>sm_state := Closed\<rparr>)"
    by (simp add: machine_defs)
  from machine_ends_once [OF disjI1 [OF stop] reach_step [OF reach_start step]]
  show ?thesis by simp
qed

end
