(* ===== verification/Accounting.thy ===== *)
theory Accounting
  imports MarketViews "HOL-Library.Product_Lexorder"
begin

text \<open>
  Escrow, quotes, preflight checks and the accounting views:
  \<open>src/crates/core/src/market/accounting.rs\<close>. All of it is pure. A \<open>BTreeMap\<close> keyed by text is
  walked in the order of its keys, so its groups are computed from the sorted distinct keys; the
  source's sorts are stable, as \<^const>\<open>sort_key\<close> is.
\<close>

section \<open>Escrow of a buy\<close>

definition checked_required_escrow_for_buy :: "u128 \<Rightarrow> u128 \<Rightarrow> u128 option" where
  "checked_required_escrow_for_buy ticks max_price_per_tick =
    (case checked_mul U128_MAX max_price_per_tick PLATFORM_FEE_BPS of
       None \<Rightarrow> None
     | Some product \<Rightarrow>
         (case checked_add U128_MAX max_price_per_tick (product div 10000) of
            None \<Rightarrow> None
          | Some unit_price \<Rightarrow> checked_mul U128_MAX ticks unit_price))"

definition required_escrow_for_buy :: "u128 \<Rightarrow> u128 \<Rightarrow> u128" where
  "required_escrow_for_buy ticks max_price_per_tick =
    (case checked_required_escrow_for_buy ticks max_price_per_tick of
       Some e \<Rightarrow> e | None \<Rightarrow> U128_MAX)"

record SubscriptionBuyReserve =
  sr_deposit :: u128
  sr_buyer_bond :: u128
  sr_total_escrow :: u128

datatype escrow_error =
    DepositOverflows | BondOverflows | TotalOverflows | Underfunded u128 | Overfunded u128
  | ClearingAboveLimit | RefundUnderflows

definition subscription_buy_reserve ::
  "u128 \<Rightarrow> u128 \<Rightarrow> escrow_error + SubscriptionBuyReserve" where
  "subscription_buy_reserve ticks price_per_tick =
    ok_or_else (checked_required_escrow_for_buy ticks price_per_tick) DepositOverflows (\<lambda>deposit.
    ok_or_else (checked_mul U128_MAX price_per_tick SUBSCRIPTION_BUYER_BOND_TICKS) BondOverflows
      (\<lambda>buyer_bond.
    ok_or_else (checked_add U128_MAX deposit buyer_bond) TotalOverflows (\<lambda>total_escrow.
    Inr \<lparr>sr_deposit = deposit, sr_buyer_bond = buyer_bond, sr_total_escrow = total_escrow\<rparr>)))"

definition ordinary_buy_reserve ::
  "u128 \<Rightarrow> u128 \<Rightarrow> escrow_error + SubscriptionBuyReserve" where
  "ordinary_buy_reserve ticks max_price_per_tick = subscription_buy_reserve ticks max_price_per_tick"

definition check_subscription_buy_reserve ::
  "u128 \<Rightarrow> u128 \<Rightarrow> u128 \<Rightarrow> escrow_error + SubscriptionBuyReserve" where
  "check_subscription_buy_reserve escrow ticks max_price_per_tick =
    bindR (subscription_buy_reserve ticks max_price_per_tick) (\<lambda>required.
    refuse_if (escrow < sr_total_escrow required) (Underfunded (sr_total_escrow required))
    (refuse_if (sr_total_escrow required < escrow) (Overfunded (sr_total_escrow required))
    (Inr required)))"

definition subscription_buy_clearing_refund ::
  "u128 \<Rightarrow> u128 \<Rightarrow> u128 \<Rightarrow> escrow_error + u128" where
  "subscription_buy_clearing_refund ticks limit_price clearing_price =
    refuse_if (limit_price < clearing_price) ClearingAboveLimit
    (bindR (subscription_buy_reserve ticks limit_price) (\<lambda>reserved.
     bindR (subscription_buy_reserve ticks clearing_price) (\<lambda>forwarded.
     ok_or_else (checked_sub (sr_total_escrow reserved) (sr_total_escrow forwarded))
       RefundUnderflows Inr)))"

definition check_buy_deposit_headroom :: "u128 \<Rightarrow> u128 \<Rightarrow> u128 \<Rightarrow> escrow_error + unit" where
  "check_buy_deposit_headroom escrow ticks max_price_per_tick =
    ok_or_else (checked_required_escrow_for_buy ticks max_price_per_tick) DepositOverflows
      (\<lambda>required.
    refuse_if (escrow < required) (Underfunded required)
    (refuse_if (required < escrow) (Overfunded required) (Inr ())))"

section \<open>Executable quotes\<close>

datatype quote_error = SelectorNotUnique | ConflictingDuplicates string "u128 list"

definition equivalent_resting_ask :: "OrderBookOrder \<Rightarrow> OrderBookOrder \<Rightarrow> bool" where
  "equivalent_resting_ask a b \<longleftrightarrow>
    ob_owner_note a = ob_owner_note b \<and> ob_price_per_tick a = ob_price_per_tick b
    \<and> ob_ticks a = ob_ticks b \<and> ob_escrow a = ob_escrow b
    \<and> ob_deadline a = ob_deadline b \<and> ob_flags a = ob_flags b"

definition tc_key :: "OrderBookOrder \<Rightarrow> string" where
  "tc_key o1 = (case ob_token_contract o1 of None \<Rightarrow> [] | Some tc \<Rightarrow> to_ascii_lowercase tc)"

definition group_of :: "OrderBookOrder list \<Rightarrow> string \<Rightarrow> OrderBookOrder list" where
  "group_of asks tc = sort_key ob_order_id (filter (\<lambda>o1. tc_key o1 = tc) asks)"

definition representative ::
  "OrderBookOrder list \<Rightarrow> string \<Rightarrow> quote_error + OrderBookOrder" where
  "representative asks tc =
    (let group = group_of asks tc; rep = hd group in
     refuse_if (\<not> list_all (equivalent_resting_ask rep) (tl group))
       (ConflictingDuplicates tc (map ob_order_id group)) (Inr rep))"

fun collect_results :: "('a \<Rightarrow> 'e + 'b) \<Rightarrow> 'a list \<Rightarrow> 'e + 'b list" where
  "collect_results f [] = Inr []"
| "collect_results f (x # xs) =
    bindR (f x) (\<lambda>y. bindR (collect_results f xs) (\<lambda>ys. Inr (y # ys)))"

definition coalesce_equivalent_resting_asks ::
  "OrderBookOrder list \<Rightarrow> quote_error + OrderBookOrder list" where
  "coalesce_equivalent_resting_asks orders =
    (let asks = filter is_resting_ask orders;
         keys = sort (remdups (map tc_key asks))
     in bindR (collect_results (representative asks) keys) (\<lambda>coalesced.
        Inr (sort_key (\<lambda>o1. (ob_price_per_tick o1, ob_order_id o1)) coalesced)))"

fun quote_loop ::
  "OrderBookOrder list \<Rightarrow> u128 \<Rightarrow> u128 \<Rightarrow> u128 \<Rightarrow> u128 \<Rightarrow> QuoteFill list
    \<Rightarrow> u128 \<times> u128 \<times> QuoteFill list" where
  "quote_loop [] remaining_ticks remaining_budget filled total_fee fills = (filled, total_fee, fills)"
| "quote_loop (ask # asks) remaining_ticks remaining_budget filled total_fee fills =
    (if remaining_ticks = 0 \<or> remaining_budget = 0 then (filled, total_fee, fills)
     else
       let unit_price = required_escrow_for_buy 1 (ob_price_per_tick ask) in
       if unit_price = 0 \<or> unit_price = U128_MAX
       then quote_loop asks remaining_ticks remaining_budget filled total_fee fills
       else
         let by_budget = remaining_budget div unit_price;
             fill_ticks = min (min (ob_ticks ask) remaining_ticks) by_budget in
         if fill_ticks = 0 then (filled, total_fee, fills)
         else
           let cost = required_escrow_for_buy fill_ticks (ob_price_per_tick ask) in
           case ob_token_contract ask of
             None \<Rightarrow> quote_loop asks remaining_ticks remaining_budget filled total_fee fills
           | Some tc \<Rightarrow>
               quote_loop asks (saturating_sub remaining_ticks fill_ticks)
                 (saturating_sub remaining_budget cost)
                 (saturating_add U128_MAX filled fill_ticks)
                 (saturating_add U128_MAX total_fee cost)
                 (fills @ [\<lparr>qf_order_id = ob_order_id ask, qf_token_contract = tc,
                            qf_ticks = fill_ticks, qf_price_per_tick = ob_price_per_tick ask,
                            qf_cost_with_fee = cost\<rparr>]))"

definition executable_quote ::
  "OrderBookOrder list \<Rightarrow> u128 option \<Rightarrow> u128 option \<Rightarrow> quote_error + ExecutableQuote" where
  "executable_quote asks wanted_ticks budget =
    refuse_if ((wanted_ticks \<noteq> None) = (budget \<noteq> None)) SelectorNotUnique
    (bindR (coalesce_equivalent_resting_asks asks) (\<lambda>cands.
     let remaining_ticks = (case wanted_ticks of Some n \<Rightarrow> n | None \<Rightarrow> U128_MAX);
         remaining_budget = (case budget of Some b \<Rightarrow> b | None \<Rightarrow> U128_MAX);
         (filled, total_fee, fills) = quote_loop cands remaining_ticks remaining_budget 0 0 [];
         complete = (case wanted_ticks of Some want \<Rightarrow> want \<le> filled | None \<Rightarrow> 0 < filled)
     in Inr \<lparr>eq_filled_ticks = filled, eq_total_with_fee = total_fee, eq_complete = complete,
             eq_fills = fills\<rparr>))"

definition submit_safe_single_ask_quote ::
  "OrderBookOrder list \<Rightarrow> u128 option \<Rightarrow> u128 option \<Rightarrow> quote_error + ExecutableQuote" where
  "submit_safe_single_ask_quote asks wanted_ticks budget = executable_quote asks wanted_ticks budget"

section \<open>State of a reported match and recovery preflights\<close>

definition exact_never_opened_funded_time :: "DealChainState \<Rightarrow> u64 option" where
  "exact_never_opened_funded_time st =
    (case dcs_funded_time st of
       None \<Rightarrow> None
     | Some funded_time \<Rightarrow>
         if 0 < funded_time \<and> dcs_funded st \<and> \<not> dcs_opened st \<and> \<not> dcs_probe_accepted st
            \<and> \<not> dcs_disputed st \<and> 0 < dcs_deposit st \<and> dcs_probe_tick st = 0
            \<and> dcs_finalized_owed st = 0 \<and> dcs_tokens_final st = 0 \<and> dcs_tokens_pending st = 0
            \<and> dcs_probe_time st = 0 \<and> dcs_last_claim_time st = funded_time
            \<and> dcs_dispute_time st = 0
         then Some funded_time else None)"

datatype preflight_error =
    DisputedAfterFill | NotFunded | NotNeverOpened | NotOpen | IsDisputedDeal | NoBuyerNote
  | NotBuyerNote | NoBuyerKey | NotBuyerKey | StillOpen | AlreadyTerminal | TooEarly
  | NotDisputed | NoSellerPubkey | NotSellerKey | NothingWithdrawable | ExceedsFinalized

definition check_matched_token_contract_state ::
  "DealChainState \<Rightarrow> u64 \<Rightarrow> u64 \<Rightarrow> preflight_error + MatchedTokenContractStatus" where
  "check_matched_token_contract_state st now_secs match_open_timeout_secs =
    refuse_if (dcs_disputed st) DisputedAfterFill
    (refuse_if (\<not> dcs_funded st) NotFunded
    (if dcs_opened st then Inr Opened
     else ok_or_else (exact_never_opened_funded_time st) NotNeverOpened (\<lambda>funded_time.
       let cleanup_after_unix = saturating_add U64_MAX funded_time match_open_timeout_secs
       in Inr (FundedNeverOpened (Some funded_time) (Some cleanup_after_unix)
                 (cleanup_after_unix \<le> now_secs)
                 (Some (saturating_sub cleanup_after_unix now_secs))))))"

definition check_buyer_owns ::
  "string option \<Rightarrow> string \<Rightarrow> 8 word list option \<Rightarrow> 8 word list \<Rightarrow> preflight_error + unit" where
  "check_buyer_owns buyer_note note_addr buyer_pubkey note_ed_pubkey =
    (case buyer_note of
       None \<Rightarrow> Inl NoBuyerNote
     | Some buyer \<Rightarrow>
         refuse_if (buyer \<noteq> note_addr) NotBuyerNote
         (case buyer_pubkey of
            None \<Rightarrow> Inl NoBuyerKey
          | Some bpk \<Rightarrow> refuse_if (bpk \<noteq> note_ed_pubkey) NotBuyerKey (Inr ())))"

definition check_recoverable ::
  "bool \<Rightarrow> bool \<Rightarrow> string option \<Rightarrow> string \<Rightarrow> 8 word list option \<Rightarrow> 8 word list
    \<Rightarrow> preflight_error + unit" where
  "check_recoverable opened disputed buyer_note note_addr buyer_pubkey note_ed_pubkey =
    refuse_if (\<not> opened) NotOpen
    (refuse_if disputed IsDisputedDeal
    (case buyer_note of
       None \<Rightarrow> Inl NoBuyerNote
     | Some buyer \<Rightarrow>
         refuse_if (buyer \<noteq> note_addr) NotBuyerNote
         (case buyer_pubkey of
            None \<Rightarrow> Inl NoBuyerKey
          | Some bpk \<Rightarrow> refuse_if (bpk \<noteq> note_ed_pubkey) NotBuyerKey (Inr ()))))"

definition check_disputable ::
  "bool \<Rightarrow> bool \<Rightarrow> string option \<Rightarrow> string \<Rightarrow> 8 word list option \<Rightarrow> 8 word list
    \<Rightarrow> preflight_error + unit" where
  "check_disputable opened disputed buyer_note note_addr buyer_pubkey note_ed_pubkey =
    refuse_if (\<not> opened) NotOpen
    (refuse_if disputed IsDisputedDeal
    (check_buyer_owns buyer_note note_addr buyer_pubkey note_ed_pubkey))"

definition check_reclaimable ::
  "DealChainState \<Rightarrow> string option \<Rightarrow> string \<Rightarrow> 8 word list option \<Rightarrow> 8 word list \<Rightarrow> u64 \<Rightarrow> u64
    \<Rightarrow> preflight_error + unit" where
  "check_reclaimable st buyer_note note_addr buyer_pubkey note_ed_pubkey now match_open_timeout =
    refuse_if (dcs_disputed st) IsDisputedDeal
    (bindR (check_buyer_owns buyer_note note_addr buyer_pubkey note_ed_pubkey) (\<lambda>_.
     refuse_if (\<not> dcs_funded st) NotFunded
     (refuse_if (dcs_opened st) StillOpen
     (refuse_if (is_stopped st) AlreadyTerminal
     (ok_or_else (exact_never_opened_funded_time st) NotNeverOpened (\<lambda>funded_time.
      refuse_if (now < saturating_add U64_MAX funded_time match_open_timeout) TooEarly
        (Inr ())))))))"

definition check_release_disputable :: "bool \<Rightarrow> preflight_error + unit" where
  "check_release_disputable disputed = (if disputed then Inr () else Inl NotDisputed)"

definition norm_pubkey :: "string \<Rightarrow> string" where
  "norm_pubkey s =
    trim_start_matches ''0''
      (to_ascii_lowercase (trim_start_matches ''0X'' (trim_start_matches ''0x'' (trim s))))"

definition check_seller_pubkey :: "string option \<Rightarrow> string \<Rightarrow> preflight_error + unit" where
  "check_seller_pubkey seller_pubkey signing_pubkey_hex =
    (case seller_pubkey of
       None \<Rightarrow> Inl NoSellerPubkey
     | Some seller \<Rightarrow>
         refuse_if (trim seller = []) NoSellerPubkey
         (if norm_pubkey seller = norm_pubkey signing_pubkey_hex then Inr ()
          else Inl NotSellerKey))"

definition check_withdrawable_shell :: "u128 \<Rightarrow> u128 option \<Rightarrow> preflight_error + u128" where
  "check_withdrawable_shell finalized_owed requested =
    (let amt = (case requested of Some a \<Rightarrow> a | None \<Rightarrow> finalized_owed) in
     refuse_if (amt = 0) NothingWithdrawable
     (refuse_if (finalized_owed < amt) ExceedsFinalized (Inr amt)))"

section \<open>Aggregation and anomalies\<close>

definition aggregate_one :: "TreeSnapshot \<Rightarrow> NoteSnapshot \<Rightarrow> TreeSnapshot" where
  "aggregate_one t s =
    \<lparr>ts_note_ids = ts_note_ids t @ [ns_note_id s], ts_offers = ts_offers t @ ns_offers s,
     ts_deals = ts_deals t @ ns_deals s,
     ts_exposure = saturating_add U64_MAX (ts_exposure t) (ns_exposure s)\<rparr>"

definition aggregate_tree :: "NoteSnapshot list \<Rightarrow> TreeSnapshot" where
  "aggregate_tree snaps =
    foldl aggregate_one \<lparr>ts_note_ids = [], ts_offers = [], ts_deals = [], ts_exposure = 0\<rparr> snaps"

definition u64_or_max :: "u128 \<Rightarrow> u64" where
  "u64_or_max a = (case try_from U64_MAX a of Some v \<Rightarrow> v | None \<Rightarrow> U64_MAX)"

definition finalized_ticks :: "StreamSnapshot option \<Rightarrow> u64" where
  "finalized_ticks snapshot =
    (case snapshot of None \<Rightarrow> 0 | Some s \<Rightarrow> u64_or_max (ss_tokens_final s div TICK_SIZE))"

definition summary_shell :: "u128 \<Rightarrow> shell" where
  "summary_shell amt = u64_or_max amt"

text \<open>
  \<open>position\<close> followed by a push when nothing is found: the first element with the key is updated, or
  a fresh one is appended and updated.
\<close>

fun upsert :: "('a \<Rightarrow> bool) \<Rightarrow> 'a \<Rightarrow> ('a \<Rightarrow> 'a) \<Rightarrow> 'a list \<Rightarrow> 'a list" where
  "upsert sel fresh upd [] = [upd fresh]"
| "upsert sel fresh upd (x # xs) = (if sel x then upd x # xs else x # upsert sel fresh upd xs)"

definition deal_figures :: "DealRole \<Rightarrow> DealView \<Rightarrow> shell \<times> shell \<times> shell" where
  "deal_figures role d =
    (case dv_snapshot d of
       Some s \<Rightarrow>
         (let locked = (case role of Seller \<Rightarrow> ss_seller_locked s | Buyer \<Rightarrow> ss_buyer_locked s)
          in (summary_shell (ss_seller_received s), summary_shell locked,
              summary_shell (ss_burned s)))
     | None \<Rightarrow> (0, 0, 0))"

definition model_id :: "DealView \<Rightarrow> string" where
  "model_id d = (case dv_model d of Some m \<Rightarrow> m | None \<Rightarrow> UNKNOWN_MODEL)"

definition add_counterparty ::
  "DealView \<Rightarrow> u64 \<Rightarrow> shell \<Rightarrow> shell \<Rightarrow> shell \<Rightarrow> CounterpartyTally list \<Rightarrow> CounterpartyTally list"
  where
  "add_counterparty d tokens money locked burned cs =
    upsert (\<lambda>c. ct_counterparty c = dv_counterparty d)
      \<lparr>ct_counterparty = dv_counterparty d, ct_tokens = 0, ct_money = 0, ct_locked = 0,
       ct_burned = 0\<rparr>
      (\<lambda>c. c\<lparr>ct_tokens := saturating_add U64_MAX (ct_tokens c) tokens,
             ct_money := saturating_add U64_MAX (ct_money c) money,
             ct_locked := saturating_add U64_MAX (ct_locked c) locked,
             ct_burned := saturating_add U64_MAX (ct_burned c) burned\<rparr>) cs"

definition breakdown_one :: "DealRole \<Rightarrow> ModelBreakdown list \<Rightarrow> DealView \<Rightarrow> ModelBreakdown list" where
  "breakdown_one role models d =
    (let tokens = finalized_ticks (dv_snapshot d);
         (money, locked, burned) = deal_figures role d
     in upsert (\<lambda>m. mb_model m = model_id d)
          \<lparr>mb_model = model_id d, mb_role = role, mb_counterparties = [], mb_tokens = 0,
           mb_money = 0, mb_locked = 0, mb_burned = 0\<rparr>
          (\<lambda>m. m\<lparr>mb_tokens := saturating_add U64_MAX (mb_tokens m) tokens,
                 mb_money := saturating_add U64_MAX (mb_money m) money,
                 mb_locked := saturating_add U64_MAX (mb_locked m) locked,
                 mb_burned := saturating_add U64_MAX (mb_burned m) burned,
                 mb_counterparties :=
                   add_counterparty d tokens money locked burned (mb_counterparties m)\<rparr>)
          models)"

definition per_model_breakdown :: "DealView list \<Rightarrow> DealRole \<Rightarrow> ModelBreakdown list" where
  "per_model_breakdown deals role =
    foldl (breakdown_one role) [] (filter (\<lambda>d. dv_role d = role) deals)"

definition deal_anomalies :: "DealView \<Rightarrow> DealAnomaly list" where
  "deal_anomalies deal =
    (case dv_snapshot deal of
       None \<Rightarrow> []
     | Some snap \<Rightarrow>
         (let locked = summary_shell (saturating_add U128_MAX (ss_seller_locked snap)
                                        (ss_buyer_locked snap));
              ceiling = min (required_escrow_for_buy 2 (dv_price_per_tick deal)) U64_MAX;
              buyer_lead = summary_shell (ss_buyer_lead snap)
          in (if 0 < locked \<and> dv_counterparty deal = None then [LockedNoMatch locked] else [])
             @ (if ss_closed snap \<and> 0 < locked then [LockedAfterClose locked] else [])
             @ (if 0 < dv_price_per_tick deal \<and> ceiling < buyer_lead
                then [BuyerLockExceedsTwoTicks buyer_lead ceiling] else [])))"

section \<open>Lemmas: escrow\<close>

text \<open>The price of one tick with the book's fee on top, in exact arithmetic.\<close>

definition unit_price :: "u128 \<Rightarrow> nat" where
  "unit_price p = p + p * PLATFORM_FEE_BPS div 10000"

definition unit_price_fits :: "u128 \<Rightarrow> bool" where
  "unit_price_fits p \<longleftrightarrow> p * PLATFORM_FEE_BPS \<le> U128_MAX \<and> unit_price p \<le> U128_MAX"

lemma checked_required_escrow_for_buy_eq:
  "checked_required_escrow_for_buy n p =
    (if unit_price_fits p \<and> n * unit_price p \<le> U128_MAX then Some (n * unit_price p) else None)"
  by (simp add: checked_required_escrow_for_buy_def checked_mul_def checked_add_def unit_price_def
      unit_price_fits_def)

lemma unit_price_mono: "p \<le> q \<Longrightarrow> unit_price p \<le> unit_price q"
  unfolding unit_price_def by (intro add_mono div_le_mono mult_le_mono1)

lemma unit_price_fits_mono: "p \<le> q \<Longrightarrow> unit_price_fits q \<Longrightarrow> unit_price_fits p"
  unfolding unit_price_fits_def by (meson le_trans mult_le_mono1 unit_price_mono)

lemma subscription_buy_reserve_ok_iff:
  "subscription_buy_reserve n p = Inr r \<longleftrightarrow>
    unit_price_fits p \<and> n * unit_price p + 2 * p \<le> U128_MAX \<and>
    r = \<lparr>sr_deposit = n * unit_price p, sr_buyer_bond = 2 * p,
         sr_total_escrow = n * unit_price p + 2 * p\<rparr>"
  by (auto simp: subscription_buy_reserve_def result_simps checked_required_escrow_for_buy_eq
      SUBSCRIPTION_BUYER_BOND_TICKS_def)

lemma required_escrow_unit:
  assumes "required_escrow_for_buy 1 p \<noteq> U128_MAX"
  shows "unit_price_fits p" and "required_escrow_for_buy 1 p = unit_price p"
  using assms
  by (auto simp: required_escrow_for_buy_def checked_required_escrow_for_buy_eq split: if_splits)

lemma required_escrow_exact:
  assumes "unit_price_fits p" and "n * unit_price p \<le> U128_MAX"
  shows "required_escrow_for_buy n p = n * unit_price p"
  using assms by (simp add: required_escrow_for_buy_def checked_required_escrow_for_buy_eq)

section \<open>Lemmas: quotes\<close>

definition fill_matches :: "OrderBookOrder \<Rightarrow> QuoteFill \<Rightarrow> bool" where
  "fill_matches ask f \<longleftrightarrow>
    qf_order_id f = ob_order_id ask \<and> Some (qf_token_contract f) = ob_token_contract ask \<and>
    qf_price_per_tick f = ob_price_per_tick ask \<and> 0 < qf_ticks f \<and> qf_ticks f \<le> ob_ticks ask \<and>
    qf_cost_with_fee f = qf_ticks f * unit_price (ob_price_per_tick ask)"

abbreviation ticks_of :: "QuoteFill list \<Rightarrow> nat" where
  "ticks_of fills \<equiv> sum_list (map qf_ticks fills)"

abbreviation cost_of :: "QuoteFill list \<Rightarrow> nat" where
  "cost_of fills \<equiv> sum_list (map qf_cost_with_fee fills)"

text \<open>The fills are a sublist of the candidates, in their order.\<close>

inductive fills_of :: "OrderBookOrder list \<Rightarrow> QuoteFill list \<Rightarrow> bool" where
  fills_done: "fills_of asks []"
| fills_skip: "fills_of asks fills \<Longrightarrow> fills_of (ask # asks) fills"
| fills_take: "fill_matches ask f \<Longrightarrow> fills_of asks fills \<Longrightarrow> fills_of (ask # asks) (f # fills)"

lemma quote_loop_exact:
  assumes "quote_loop asks rt rb filled total_fee fills = (filled', total', fills')"
    and "filled + rt \<le> U128_MAX" and "total_fee + rb \<le> U128_MAX"
  shows "\<exists>new. fills' = fills @ new \<and> fills_of asks new \<and> filled' = filled + ticks_of new
    \<and> total' = total_fee + cost_of new \<and> ticks_of new \<le> rt \<and> cost_of new \<le> rb"
  using assms
proof (induction asks arbitrary: rt rb filled total_fee fills)
  case Nil
  then show ?case by (intro exI [of _ "[]"]) (auto intro: fills_done)
next
  case (Cons ask asks)
  define u where "u = required_escrow_for_buy 1 (ob_price_per_tick ask)"
  define n where "n = min (min (ob_ticks ask) rt) (rb div u)"
  define cost where "cost = required_escrow_for_buy n (ob_price_per_tick ask)"
  note step = Cons.prems(1) [unfolded quote_loop.simps(2) Let_def, folded u_def, folded n_def,
      folded cost_def]
  consider (stop) "rt = 0 \<or> rb = 0 \<or> u \<noteq> 0 \<and> u \<noteq> U128_MAX \<and> n = 0"
    | (bad) "rt \<noteq> 0" "rb \<noteq> 0" "u = 0 \<or> u = U128_MAX"
    | (fill) "rt \<noteq> 0" "rb \<noteq> 0" "u \<noteq> 0" "u \<noteq> U128_MAX" "n \<noteq> 0"
    by metis
  then show ?case
  proof cases
    case stop
    then have "filled' = filled \<and> total' = total_fee \<and> fills' = fills"
      using step by (auto split: if_splits)
    then show ?thesis by (intro exI [of _ "[]"]) (auto intro: fills_done)
  next
    case bad
    then have "quote_loop asks rt rb filled total_fee fills = (filled', total', fills')"
      using step by auto
    then show ?thesis using Cons.IH Cons.prems(2,3) by (meson fills_skip)
  next
    case fill
    note unit = required_escrow_unit [OF fill(4) [unfolded u_def], folded u_def]
    have "n * unit_price (ob_price_per_tick ask) \<le> rb div u * u"
      unfolding unit(2) [symmetric] n_def by (rule mult_le_mono1) simp
    then have le: "n * unit_price (ob_price_per_tick ask) \<le> rb"
      using div_times_less_eq_dividend [of rb u] by linarith
    then have cost: "cost = n * unit_price (ob_price_per_tick ask)"
      unfolding cost_def using Cons.prems(3) by (intro required_escrow_exact unit(1)) simp
    have nle: "n \<le> rt" "n \<le> ob_ticks ask" by (simp_all add: n_def)
    show ?thesis
    proof (cases "ob_token_contract ask")
      case None
      then have "quote_loop asks rt rb filled total_fee fills = (filled', total', fills')"
        using step fill by simp
      then show ?thesis using Cons.IH Cons.prems(2,3) by (meson fills_skip)
    next
      case (Some tc)
      let ?f = "\<lparr>qf_order_id = ob_order_id ask, qf_token_contract = tc, qf_ticks = n,
        qf_price_per_tick = ob_price_per_tick ask, qf_cost_with_fee = cost\<rparr>"
      have sat: "saturating_add U128_MAX filled n = filled + n"
        "saturating_add U128_MAX total_fee cost = total_fee + cost"
        using Cons.prems(2,3) le nle by (simp_all add: cost saturating_add_exact)
      have run: "quote_loop asks (rt - n) (rb - cost) (filled + n) (total_fee + cost)
        (fills @ [?f]) = (filled', total', fills')"
        using step fill Some sat by simp
      have match: "fill_matches ask ?f" using fill Some nle by (simp add: fill_matches_def cost)
      obtain new where "fills' = (fills @ [?f]) @ new" "fills_of asks new"
        "filled' = filled + n + ticks_of new" "total' = total_fee + cost + cost_of new"
        "ticks_of new \<le> rt - n" "cost_of new \<le> rb - cost"
        using Cons.IH [OF run] Cons.prems(2,3) le nle cost by auto
      then show ?thesis
        using match le cost nle by (intro exI [of _ "?f # new"]) (auto intro: fills_take)
    qed
  qed
qed

text \<open>With enough budget, a quote takes all the liquidity there is, up to the ticks wanted.\<close>

definition offers_at_most :: "u128 \<Rightarrow> OrderBookOrder \<Rightarrow> bool" where
  "offers_at_most p ask \<longleftrightarrow> ob_token_contract ask \<noteq> None \<and> 0 < ob_ticks ask
    \<and> 0 < ob_price_per_tick ask \<and> ob_price_per_tick ask \<le> p"

lemma quote_loop_fills:
  assumes "list_all (offers_at_most p) asks" and "unit_price_fits p" and "unit_price p < U128_MAX"
    and "rt * unit_price p \<le> rb" and "filled + rt \<le> U128_MAX" and "total_fee + rb \<le> U128_MAX"
  shows "fst (quote_loop asks rt rb filled total_fee fills) =
    filled + min rt (sum_list (map ob_ticks asks))"
  using assms
proof (induction asks arbitrary: rt rb filled total_fee fills)
  case (Cons ask asks)
  define u where "u = unit_price (ob_price_per_tick ask)"
  define n where "n = min (ob_ticks ask) rt"
  have ask: "offers_at_most p ask" and asks: "list_all (offers_at_most p) asks"
    using Cons.prems(1) by simp_all
  have u: "u \<le> unit_price p" "0 < u" and fits: "unit_price_fits (ob_price_per_tick ask)"
    using ask Cons.prems(2) unit_price_mono unit_price_fits_mono
    by (auto simp: u_def offers_at_most_def) (simp add: unit_price_def)
  have one: "required_escrow_for_buy 1 (ob_price_per_tick ask) = u"
    using required_escrow_exact [OF fits, of 1] u Cons.prems(3) by (simp add: u_def)
  show ?case
  proof (cases "rt = 0")
    case False
    have ru: "rt * u \<le> rb" using mult_le_mono2 [OF u(1), of rt] Cons.prems(4) by linarith
    then have rb: "rb \<noteq> 0" using False u(2) by (cases rb) auto
    have n: "n \<le> rt" "0 < n" "n \<le> ob_ticks ask" using False ask by (auto simp: n_def offers_at_most_def)
    have nu: "n * u \<le> n * unit_price p" "n * u \<le> rt * u"
      using u(1) n(1) by (simp_all add: mult_le_mono)
    have "rt \<le> rb div u" using ru u(2) by (simp add: less_eq_div_iff_mult_less_eq)
    then have fill: "min (min (ob_ticks ask) rt) (rb div u) = n" by (simp add: n_def)
    have nb: "n * u \<le> rb" using nu(2) ru by linarith
    have cost: "required_escrow_for_buy n (ob_price_per_tick ask) = n * u"
      using required_escrow_exact [OF fits, of n] nb Cons.prems(6) by (simp add: u_def)
    obtain tc where tc: "ob_token_contract ask = Some tc" using ask by (auto simp: offers_at_most_def)
    have "(rt - n) * unit_price p + n * unit_price p = rt * unit_price p"
      using n(1) by (simp flip: add_mult_distrib)
    then have next_budget: "(rt - n) * unit_price p \<le> rb - n * u"
      using Cons.prems(4) nu(1) by linarith
    have sat: "saturating_add U128_MAX filled n = filled + n"
      "saturating_add U128_MAX total_fee (n * u) = total_fee + n * u"
      using Cons.prems(5,6) n(1) nb by (simp_all add: saturating_add_exact)
    have "fst (quote_loop (ask # asks) rt rb filled total_fee fills) =
      filled + n + min (rt - n) (sum_list (map ob_ticks asks))"
      using False rb u Cons.prems(3) n(2) Cons.IH [OF asks Cons.prems(2,3) next_budget] Cons.prems(5,6) n(1) nb
      unfolding quote_loop.simps(2) Let_def one fill cost by (simp add: tc sat)
    then show ?thesis by (auto simp: n_def min_def)
  qed simp
qed simp

section \<open>Lemmas: coalescing\<close>

lemma collect_results_ok:
  "collect_results f xs = Inr ys \<longleftrightarrow> list_all2 (\<lambda>x y. f x = Inr y) xs ys"
  by (induction xs arbitrary: ys) (auto simp: result_simps list_all2_Cons1)

lemma list_all2_in_right: "list_all2 R xs ys \<Longrightarrow> y \<in> set ys \<Longrightarrow> \<exists>x\<in>set xs. R x y"
  by (induction rule: list_all2_induct) auto

lemma list_all2_image: "map g ys = xs \<longleftrightarrow> list_all2 (\<lambda>x y. g y = x) xs ys"
  by (induction ys arbitrary: xs) (auto simp: list_all2_Cons2)

lemma representative_ok:
  assumes "representative asks tc = Inr r" and "tc \<in> tc_key ` set asks"
  shows "tc_key r = tc" and "r \<in> set asks"
    and "\<forall>o1\<in>set asks. tc_key o1 = tc \<longrightarrow> ob_order_id r \<le> ob_order_id o1
      \<and> equivalent_resting_ask r o1"
proof -
  let ?g = "group_of asks tc"
  have set: "set ?g = {o1 \<in> set asks. tc_key o1 = tc}" by (auto simp: group_of_def)
  with assms(2) have "?g \<noteq> []" by (metis (mono_tags, lifting) empty_iff empty_set imageE mem_Collect_eq)
  then obtain h t where g: "?g = h # t" by (cases ?g) auto
  have r: "r = h" and eqv: "\<forall>o1\<in>set t. equivalent_resting_ask h o1"
    using assms(1) g by (auto simp: representative_def Let_def result_simps list_all_iff)
  have "h \<in> set ?g" using g by simp
  then show "tc_key r = tc" and "r \<in> set asks" unfolding set r by simp_all
  have "sorted (map ob_order_id (h # t))"
    using sorted_sort_key [of ob_order_id "filter (\<lambda>o1. tc_key o1 = tc) asks"] g
    by (simp only: group_of_def)
  then have "\<forall>o1\<in>set (h # t). ob_order_id h \<le> ob_order_id o1 \<and> equivalent_resting_ask h o1"
    using eqv by (auto simp: equivalent_resting_ask_def)
  then show "\<forall>o1\<in>set asks. tc_key o1 = tc \<longrightarrow> ob_order_id r \<le> ob_order_id o1
      \<and> equivalent_resting_ask r o1"
    using set g r by auto
qed

lemma coalesce_ok:
  assumes "coalesce_equivalent_resting_asks orders = Inr cands"
  shows "sorted (map (\<lambda>o1. (ob_price_per_tick o1, ob_order_id o1)) cands)"
    and "distinct (map tc_key cands)"
    and "tc_key ` set cands = tc_key ` set (filter is_resting_ask orders)"
    and "\<forall>c\<in>set cands. c \<in> set (filter is_resting_ask orders) \<and>
      (\<forall>o1\<in>set (filter is_resting_ask orders). tc_key o1 = tc_key c \<longrightarrow>
        ob_order_id c \<le> ob_order_id o1 \<and> equivalent_resting_ask c o1)"
proof -
  let ?asks = "filter is_resting_ask orders"
  let ?keys = "sort (remdups (map tc_key ?asks))"
  let ?by = "\<lambda>o1. (ob_price_per_tick o1, ob_order_id o1)"
  obtain cs where cs: "list_all2 (\<lambda>k r. representative ?asks k = Inr r) ?keys cs"
    and cands: "cands = sort_key ?by cs"
    using assms by (auto simp: coalesce_equivalent_resting_asks_def Let_def result_simps collect_results_ok)
  have rep: "\<And>k. k \<in> set ?keys \<Longrightarrow> k \<in> tc_key ` set ?asks" by simp
  have keys: "map tc_key cs = ?keys"
    unfolding list_all2_image
    by (rule list.rel_mono_strong [OF cs]) (metis rep representative_ok(1))
  have "distinct (map tc_key cs)" unfolding keys by simp
  then show "distinct (map tc_key cands)" by (simp add: cands distinct_map)
  show "sorted (map ?by cands)" by (simp add: cands)
  have "set (map tc_key cs) = tc_key ` set ?asks" unfolding keys by simp
  then show "tc_key ` set cands = tc_key ` set ?asks" by (simp add: cands)
  show "\<forall>c\<in>set cands. c \<in> set ?asks \<and> (\<forall>o1\<in>set ?asks. tc_key o1 = tc_key c \<longrightarrow>
      ob_order_id c \<le> ob_order_id o1 \<and> equivalent_resting_ask c o1)"
  proof
    fix c
    assume "c \<in> set cands"
    then have "c \<in> set cs" by (simp add: cands)
    then obtain k where "k \<in> set ?keys" and "representative ?asks k = Inr c"
      using list_all2_in_right [OF cs] by blast
    then show "c \<in> set ?asks \<and> (\<forall>o1\<in>set ?asks. tc_key o1 = tc_key c \<longrightarrow>
      ob_order_id c \<le> ob_order_id o1 \<and> equivalent_resting_ask c o1)"
      using representative_ok [of ?asks k c] rep by blast
  qed
qed

section \<open>Lemmas: the breakdown\<close>

lemma upsert_keys:
  assumes "\<And>x. key (upd x) = key x" and "key fresh = k"
  shows "map key (upsert (\<lambda>x. key x = k) fresh upd xs) =
    (if k \<in> key ` set xs then map key xs else map key xs @ [k])"
  using assms by (induction xs) auto

lemma find_upsert:
  assumes "\<And>x. key (upd x) = key x" and "key fresh = k"
  shows "find (\<lambda>x. key x = j) (upsert (\<lambda>x. key x = k) fresh upd xs) =
    (if j = k then Some (upd (case find (\<lambda>x. key x = k) xs of None \<Rightarrow> fresh | Some x \<Rightarrow> x))
     else find (\<lambda>x. key x = j) xs)"
  using assms by (induction xs) auto

lemma find_distinct_key:
  "distinct (map key xs) \<Longrightarrow> x \<in> set xs \<Longrightarrow> find (\<lambda>y. key y = key x) xs = Some x"
  by (induction xs) auto

text \<open>A sum that stops at the largest \<open>u64\<close>.\<close>

definition sat_sum :: "nat list \<Rightarrow> nat" where
  "sat_sum xs = min U64_MAX (sum_list xs)"

lemma sat_sum_snoc [simp]: "sat_sum (xs @ [x]) = saturating_add U64_MAX (sat_sum xs) x"
  by (simp add: sat_sum_def saturating_add_def)

lemma sat_sum_Nil [simp]: "sat_sum [] = 0"
  by (simp add: sat_sum_def)

definition deal_tokens :: "DealView \<Rightarrow> u64" where
  "deal_tokens d = finalized_ticks (dv_snapshot d)"
definition deal_money :: "DealRole \<Rightarrow> DealView \<Rightarrow> shell" where
  "deal_money role d = fst (deal_figures role d)"
definition deal_locked :: "DealRole \<Rightarrow> DealView \<Rightarrow> shell" where
  "deal_locked role d = fst (snd (deal_figures role d))"
definition deal_burned :: "DealRole \<Rightarrow> DealView \<Rightarrow> shell" where
  "deal_burned role d = snd (snd (deal_figures role d))"

lemmas deal_figure_defs = deal_tokens_def deal_money_def deal_locked_def deal_burned_def

definition tally :: "DealRole \<Rightarrow> string option \<Rightarrow> DealView list \<Rightarrow> CounterpartyTally" where
  "tally role cp ds =
    \<lparr>ct_counterparty = cp, ct_tokens = sat_sum (map deal_tokens ds),
     ct_money = sat_sum (map (deal_money role) ds), ct_locked = sat_sum (map (deal_locked role) ds),
     ct_burned = sat_sum (map (deal_burned role) ds)\<rparr>"

definition tallies :: "DealRole \<Rightarrow> DealView list \<Rightarrow> CounterpartyTally list" where
  "tallies role ds =
    foldl (\<lambda>cs d. add_counterparty d (deal_tokens d) (deal_money role d) (deal_locked role d)
      (deal_burned role d) cs) [] ds"

definition model_total :: "DealRole \<Rightarrow> string \<Rightarrow> DealView list \<Rightarrow> ModelBreakdown" where
  "model_total role m ds =
    \<lparr>mb_model = m, mb_role = role, mb_counterparties = tallies role ds,
     mb_tokens = sat_sum (map deal_tokens ds), mb_money = sat_sum (map (deal_money role) ds),
     mb_locked = sat_sum (map (deal_locked role) ds),
     mb_burned = sat_sum (map (deal_burned role) ds)\<rparr>"

abbreviation with_counterparty :: "string option \<Rightarrow> DealView list \<Rightarrow> DealView list" where
  "with_counterparty cp ds \<equiv> filter (\<lambda>d. dv_counterparty d = cp) ds"

abbreviation with_model :: "string \<Rightarrow> DealView list \<Rightarrow> DealView list" where
  "with_model m ds \<equiv> filter (\<lambda>d. model_id d = m) ds"

lemma find_tallies:
  "find (\<lambda>c. ct_counterparty c = cp) (tallies role ds) =
    (if with_counterparty cp ds = [] then None
     else Some (tally role cp (with_counterparty cp ds)))"
proof (induction ds arbitrary: cp rule: rev_induct)
  case (snoc d ds)
  have step: "tallies role (ds @ [d]) = add_counterparty d (deal_tokens d) (deal_money role d)
    (deal_locked role d) (deal_burned role d) (tallies role ds)" by (simp add: tallies_def)
  show ?case
    unfolding step add_counterparty_def
    by (subst find_upsert) (auto simp: snoc.IH tally_def)
qed (simp add: tallies_def)

lemma tallies_keys: "map ct_counterparty (tallies role ds) = rev (remdups (rev (map dv_counterparty ds)))"
proof (induction ds rule: rev_induct)
  case (snoc d ds)
  have step: "tallies role (ds @ [d]) = add_counterparty d (deal_tokens d) (deal_money role d)
    (deal_locked role d) (deal_burned role d) (tallies role ds)" by (simp add: tallies_def)
  have keys: "ct_counterparty ` set (tallies role ds) = dv_counterparty ` set ds"
    using arg_cong [OF snoc.IH, of set] by simp
  show ?case
    unfolding step add_counterparty_def
    by (subst upsert_keys) (auto simp: snoc.IH keys)
qed (simp add: tallies_def)

definition bump :: "DealRole \<Rightarrow> DealView \<Rightarrow> ModelBreakdown \<Rightarrow> ModelBreakdown" where
  "bump role d m =
    m\<lparr>mb_tokens := saturating_add U64_MAX (mb_tokens m) (deal_tokens d),
      mb_money := saturating_add U64_MAX (mb_money m) (deal_money role d),
      mb_locked := saturating_add U64_MAX (mb_locked m) (deal_locked role d),
      mb_burned := saturating_add U64_MAX (mb_burned m) (deal_burned role d),
      mb_counterparties := add_counterparty d (deal_tokens d) (deal_money role d)
        (deal_locked role d) (deal_burned role d) (mb_counterparties m)\<rparr>"

lemma breakdown_one_upsert:
  "breakdown_one role models d = upsert (\<lambda>m. mb_model m = model_id d)
    (model_total role (model_id d) []) (bump role d) models"
  by (simp add: breakdown_one_def bump_def [abs_def] deal_figure_defs model_total_def tallies_def
      Let_def split: prod.splits)

lemma bump_model: "mb_model (bump role d m) = mb_model m"
  by (simp add: bump_def)

lemma bump_total: "bump role d (model_total role m ds) = model_total role m (ds @ [d])"
  by (simp add: bump_def model_total_def tallies_def)

lemma model_total_model: "mb_model (model_total role m ds) = m"
  by (simp add: model_total_def)

lemma find_breakdown:
  "find (\<lambda>b. mb_model b = m) (foldl (breakdown_one role) [] ds) =
    (if with_model m ds = [] then None else Some (model_total role m (with_model m ds)))"
proof (induction ds arbitrary: m rule: rev_induct)
  case (snoc d ds)
  show ?case
    by (simp add: breakdown_one_upsert [of role _ d] find_upsert bump_model model_total_model snoc.IH
        bump_total)
qed simp

lemma breakdown_models:
  "map mb_model (foldl (breakdown_one role) [] ds) = rev (remdups (rev (map model_id ds)))"
proof (induction ds rule: rev_induct)
  case (snoc d ds)
  have keys: "mb_model ` set (foldl (breakdown_one role) [] ds) = model_id ` set ds"
    using arg_cong [OF snoc.IH, of set] by simp
  show ?case
    by (simp add: breakdown_one_upsert [of role _ d] upsert_keys bump_model model_total_model snoc.IH
        keys)
qed simp

section \<open>Properties\<close>

text \<open>
  The deposit check of a buy accepts exactly one escrow: the ticks times the fee-inclusive price
  of one tick in exact arithmetic. A product that leaves \<open>u128\<close> anywhere on the way is refused, so
  a truncated figure never passes.
\<close>

theorem buy_deposit_exact:
  "check_buy_deposit_headroom escrow n p = Inr () \<longleftrightarrow>
    escrow = n * (p + p * 250 div 10000) \<and> escrow \<le> U128_MAX \<and> p * 250 \<le> U128_MAX
      \<and> p + p * 250 div 10000 \<le> U128_MAX"
  by (auto simp: check_buy_deposit_headroom_def result_simps checked_required_escrow_for_buy_eq
      unit_price_fits_def unit_price_def PLATFORM_FEE_BPS_def split: if_splits)

text \<open>
  A subscription that clears at or below its limit is always refunded, and the refund is exactly
  what was reserved at the limit less what is forwarded at the clearing price; the underflow branch
  is never taken.
\<close>

theorem clearing_refund_exact:
  assumes "clearing \<le> limit" and "subscription_buy_reserve n limit = Inr reserved"
  shows "\<exists>forwarded. subscription_buy_reserve n clearing = Inr forwarded \<and>
    sr_total_escrow forwarded \<le> sr_total_escrow reserved \<and>
    subscription_buy_clearing_refund n limit clearing =
      Inr (sr_total_escrow reserved - sr_total_escrow forwarded)"
proof -
  have res: "unit_price_fits limit" "n * unit_price limit + 2 * limit \<le> U128_MAX"
    "sr_total_escrow reserved = n * unit_price limit + 2 * limit"
    using assms(2) by (auto simp: subscription_buy_reserve_ok_iff)
  have "n * unit_price clearing \<le> n * unit_price limit"
    using unit_price_mono [OF assms(1)] by simp
  then have le: "n * unit_price clearing + 2 * clearing \<le> n * unit_price limit + 2 * limit"
    using assms(1) by linarith
  define forwarded where "forwarded = \<lparr>sr_deposit = n * unit_price clearing,
    sr_buyer_bond = 2 * clearing, sr_total_escrow = n * unit_price clearing + 2 * clearing\<rparr>"
  have fwd: "subscription_buy_reserve n clearing = Inr forwarded"
    using res le unit_price_fits_mono [OF assms(1)]
    by (simp add: subscription_buy_reserve_ok_iff forwarded_def)
  have "sr_total_escrow forwarded \<le> sr_total_escrow reserved"
    using le res by (simp add: forwarded_def)
  then show ?thesis using assms fwd
    by (simp add: subscription_buy_clearing_refund_def refuse_if_def checked_sub_def)
qed

theorem clearing_refund_exact_witness:
  "(3000000000::nat) \<le> 5000000000 \<and>
   subscription_buy_clearing_refund 4 5000000000 3000000000 = Inr 12200000000"
proof -
  let ?r = "\<lparr>sr_deposit = 20500000000, sr_buyer_bond = 10000000000, sr_total_escrow = 30500000000\<rparr>"
  have le: "(3000000000::nat) \<le> 5000000000" by simp
  have res: "subscription_buy_reserve 4 5000000000 = Inr ?r"
    by (simp add: subscription_buy_reserve_ok_iff unit_price_def unit_price_fits_def
        PLATFORM_FEE_BPS_def MAX_defs)
  from clearing_refund_exact [OF le res] show ?thesis
    by (auto simp: subscription_buy_reserve_ok_iff unit_price_def PLATFORM_FEE_BPS_def)
qed

text \<open>
  An executable quote is exact. Its fills are taken from the coalesced asks in price/time order,
  each for at most the ticks the ask holds and at exactly its ticks times the fee-inclusive price;
  the filled ticks and the total are the sums of the fills; a quote for \<open>n\<close> ticks never fills more
  and is complete exactly when it fills \<open>n\<close>; a quote for a budget never costs more than it.
\<close>

theorem executable_quote_exact:
  assumes "executable_quote asks wanted budget = Inr q"
    and "\<forall>n. wanted = Some n \<longrightarrow> n \<le> U128_MAX" and "\<forall>b. budget = Some b \<longrightarrow> b \<le> U128_MAX"
  shows "\<exists>cands. coalesce_equivalent_resting_asks asks = Inr cands \<and> fills_of cands (eq_fills q) \<and>
    eq_filled_ticks q = ticks_of (eq_fills q) \<and> eq_total_with_fee q = cost_of (eq_fills q) \<and>
    (\<forall>n. wanted = Some n \<longrightarrow>
      eq_filled_ticks q \<le> n \<and> (eq_complete q \<longleftrightarrow> eq_filled_ticks q = n)) \<and>
    (\<forall>b. budget = Some b \<longrightarrow> eq_total_with_fee q \<le> b)"
proof -
  let ?rt = "case wanted of Some n \<Rightarrow> n | None \<Rightarrow> U128_MAX"
  let ?rb = "case budget of Some b \<Rightarrow> b | None \<Rightarrow> U128_MAX"
  obtain cands where cands: "coalesce_equivalent_resting_asks asks = Inr cands"
    using assms(1) by (auto simp: executable_quote_def result_simps)
  obtain filled total_fee fills where loop:
    "quote_loop cands ?rt ?rb 0 0 [] = (filled, total_fee, fills)" using prod_cases3 by blast
  have bounds: "0 + ?rt \<le> U128_MAX" "0 + ?rb \<le> U128_MAX"
    using assms(2,3) by (simp_all split: option.splits)
  have q: "eq_filled_ticks q = filled" "eq_total_with_fee q = total_fee" "eq_fills q = fills"
    "eq_complete q = (case wanted of Some want \<Rightarrow> want \<le> filled | None \<Rightarrow> 0 < filled)"
    using assms(1) cands loop by (auto simp: executable_quote_def result_simps)
  show ?thesis
    using quote_loop_exact [OF loop bounds] cands q by (auto split: option.splits)
qed

definition ask_at :: "u128 \<Rightarrow> string \<Rightarrow> u128 \<Rightarrow> u128 \<Rightarrow> OrderBookOrder" where
  "ask_at oid tc price ticks =
    \<lparr>ob_order_id = oid, ob_owner_note = ''s'', ob_token_contract = Some tc, ob_is_buy = False,
     ob_price_per_tick = price, ob_ticks = ticks, ob_escrow = 0, ob_deadline = 100, ob_flags = 0,
     ob_timestamp = 1\<rparr>"

theorem executable_quote_exact_witness:
  "\<exists>q. executable_quote [ask_at 1 ''a'' 1000 4] (Some 3) None = Inr q \<and> eq_filled_ticks q \<le> 3"
proof -
  have cands: "coalesce_equivalent_resting_asks [ask_at 1 ''a'' 1000 4] = Inr [ask_at 1 ''a'' 1000 4]"
    by (simp add: coalesce_equivalent_resting_asks_def ask_at_def is_resting_ask_def
        representative_def group_of_def Let_def)
  obtain f t fs where "quote_loop [ask_at 1 ''a'' 1000 4] 3 U128_MAX 0 0 [] = (f, t, fs)"
    using prod_cases3 by blast
  then obtain q where q: "executable_quote [ask_at 1 ''a'' 1000 4] (Some 3) None = Inr q"
    using cands by (simp add: executable_quote_def del: quote_loop.simps One_nat_def)
  from executable_quote_exact [OF q] q show ?thesis by (auto simp: MAX_defs)
qed

text \<open>
  A quote takes all the liquidity there is: over asks that are priced, and whose dearest price
  keeps the wanted volume inside \<open>u128\<close>, a quote for \<open>n\<close> ticks fills the smaller of \<open>n\<close> and the
  ticks of the coalesced asks.
\<close>

theorem executable_quote_fills:
  assumes "coalesce_equivalent_resting_asks asks = Inr cands"
    and "list_all (offers_at_most p) cands" and "unit_price_fits p"
    and "unit_price p < U128_MAX" and "n * unit_price p \<le> U128_MAX" and "n \<le> U128_MAX"
  shows "\<exists>q. executable_quote asks (Some n) None = Inr q \<and>
    eq_filled_ticks q = min n (sum_list (map ob_ticks cands))"
proof -
  obtain filled total_fee fills where loop:
    "quote_loop cands n U128_MAX 0 0 [] = (filled, total_fee, fills)" using prod_cases3 by blast
  have "fst (quote_loop cands n U128_MAX 0 0 []) = 0 + min n (sum_list (map ob_ticks cands))"
    using assms by (intro quote_loop_fills) auto
  with loop assms(1) show ?thesis by (simp add: executable_quote_def)
qed

theorem executable_quote_fills_witness:
  "\<exists>q. executable_quote [ask_at 2 ''b'' 2000 5, ask_at 1 ''a'' 1000 4] (Some 6) None = Inr q
    \<and> eq_filled_ticks q = 6"
proof -
  let ?asks = "[ask_at 2 ''b'' 2000 5, ask_at 1 ''a'' 1000 4]"
  let ?cands = "[ask_at 1 ''a'' 1000 4, ask_at 2 ''b'' 2000 5]"
  have cands: "coalesce_equivalent_resting_asks ?asks = Inr ?cands"
    by (simp add: coalesce_equivalent_resting_asks_def ask_at_def is_resting_ask_def tc_key_def
        representative_def group_of_def Let_def to_ascii_lowercase_def ascii_lower_def)
  have ok: "list_all (offers_at_most 2000) ?cands" "unit_price_fits 2000"
    "unit_price 2000 < U128_MAX" "6 * unit_price 2000 \<le> U128_MAX" "(6::nat) \<le> U128_MAX"
    by (simp_all add: ask_at_def offers_at_most_def unit_price_fits_def unit_price_def
        PLATFORM_FEE_BPS_def MAX_defs)
  from executable_quote_fills [OF cands ok] show ?thesis by (simp add: ask_at_def)
qed

text \<open>
  Coalescing keeps one candidate per token contract, the one with the lowest order id, and only
  when every other resting ask of that contract agrees with it; every contract with a resting ask is
  kept, and the candidates come out in price/time order.
\<close>

theorem coalesce_sound:
  assumes "coalesce_equivalent_resting_asks orders = Inr cands"
  shows "sorted (map (\<lambda>o1. (ob_price_per_tick o1, ob_order_id o1)) cands) \<and>
    distinct (map tc_key cands) \<and>
    tc_key ` set cands = tc_key ` set (filter is_resting_ask orders) \<and>
    (\<forall>c\<in>set cands. c \<in> set (filter is_resting_ask orders) \<and>
      (\<forall>o1\<in>set (filter is_resting_ask orders). tc_key o1 = tc_key c \<longrightarrow>
        ob_order_id c \<le> ob_order_id o1 \<and> equivalent_resting_ask c o1))"
  using coalesce_ok [OF assms] by blast

theorem coalesce_sound_witness:
  "coalesce_equivalent_resting_asks [ask_at 7 ''A'' 1000 4, ask_at 3 ''a'' 1000 4]
    = Inr [ask_at 3 ''a'' 1000 4] \<and> distinct (map tc_key [ask_at 3 ''a'' 1000 4])"
proof -
  have "coalesce_equivalent_resting_asks [ask_at 7 ''A'' 1000 4, ask_at 3 ''a'' 1000 4]
    = Inr [ask_at 3 ''a'' 1000 4]"
    by (simp add: coalesce_equivalent_resting_asks_def ask_at_def is_resting_ask_def tc_key_def
        representative_def group_of_def Let_def to_ascii_lowercase_def ascii_lower_def
        equivalent_resting_ask_def char_of_eq_iff)
  with coalesce_sound [OF this] show ?thesis by simp
qed

lemma rebuild_by_key: "(\<And>x. x \<in> set xs \<Longrightarrow> x = f (key x)) \<Longrightarrow> xs = map f (map key xs)"
  by (induction xs) auto

lemma tallies_exact:
  "tallies role ds = map (\<lambda>cp. tally role cp (with_counterparty cp ds))
    (rev (remdups (rev (map dv_counterparty ds))))"
proof -
  have "distinct (map ct_counterparty (tallies role ds))" unfolding tallies_keys by simp
  then have "c = tally role (ct_counterparty c) (with_counterparty (ct_counterparty c) ds)"
    if "c \<in> set (tallies role ds)" for c
    using find_distinct_key [OF _ that, of ct_counterparty] find_tallies [of "ct_counterparty c" role ds]
    by (simp split: if_splits)
  then have "tallies role ds = map (\<lambda>cp. tally role cp (with_counterparty cp ds))
      (map ct_counterparty (tallies role ds))"
    by (rule rebuild_by_key)
  then show ?thesis unfolding tallies_keys .
qed

text \<open>
  The per-model breakdown has one bucket per model among the deals of the role, in first-seen
  order, and each figure of a bucket is the sum over the deals of that model, stopped at the largest
  \<open>u64\<close>; inside a bucket the same holds per counterparty.
\<close>

theorem breakdown_exact:
  "per_model_breakdown deals role =
    (let ds = filter (\<lambda>d. dv_role d = role) deals in
     map (\<lambda>m. let es = with_model m ds in
         \<lparr>mb_model = m, mb_role = role,
          mb_counterparties = map (\<lambda>cp. tally role cp (with_counterparty cp es))
            (rev (remdups (rev (map dv_counterparty es)))),
          mb_tokens = sat_sum (map deal_tokens es), mb_money = sat_sum (map (deal_money role) es),
          mb_locked = sat_sum (map (deal_locked role) es), mb_burned = sat_sum (map (deal_burned role) es)\<rparr>)
       (rev (remdups (rev (map model_id ds)))))"
proof -
  define ds where "ds = filter (\<lambda>d. dv_role d = role) deals"
  define b where "b = per_model_breakdown deals role"
  have b: "b = foldl (breakdown_one role) [] ds" by (simp add: b_def per_model_breakdown_def ds_def)
  have keys: "map mb_model b = rev (remdups (rev (map model_id ds)))"
    unfolding b by (rule breakdown_models)
  have "distinct (map mb_model b)" unfolding keys by simp
  then have "x = model_total role (mb_model x) (with_model (mb_model x) ds)" if "x \<in> set b" for x
    using find_distinct_key [OF _ that, of mb_model] find_breakdown [of "mb_model x" role ds]
    unfolding b by (simp split: if_splits)
  then have "b = map (\<lambda>m. model_total role m (with_model m ds)) (map mb_model b)"
    by (rule rebuild_by_key)
  then show ?thesis
    unfolding keys unfolding b_def Let_def ds_def [symmetric] by (simp add: model_total_def tallies_exact)
qed

text \<open>
  The reclaim preflight lets exactly those calls through that the buyer's own note and key make
  on a funded deal that was never opened, never disputed and never touched since funding, after the
  match-open timeout.
\<close>

theorem reclaimable_iff:
  "check_reclaimable st buyer_note note_addr buyer_pubkey ed now timeout = Inr () \<longleftrightarrow>
    buyer_note = Some note_addr \<and> buyer_pubkey = Some ed \<and>
    (\<exists>t>0. dcs_funded_time st = Some t \<and> dcs_last_claim_time st = t \<and> min U64_MAX (t + timeout) \<le> now)
    \<and> dcs_funded st \<and> \<not> dcs_opened st \<and> \<not> dcs_probe_accepted st \<and> \<not> dcs_disputed st
    \<and> 0 < dcs_deposit st \<and> dcs_probe_tick st = 0 \<and> dcs_finalized_owed st = 0
    \<and> dcs_tokens_final st = 0 \<and> dcs_tokens_pending st = 0 \<and> dcs_probe_time st = 0
    \<and> dcs_dispute_time st = 0"
  by (auto simp: check_reclaimable_def check_buyer_owns_def result_simps is_stopped_def
      exact_never_opened_funded_time_def saturating_add_def not_less split: option.splits if_splits)

end
