(* ===== verification/MockState.thy ===== *)
theory MockState
  imports Machine Accounting
begin

unbundle bit_operations_syntax

text \<open>
  The state of the mock chain and its persistence: the first part of
  \<open>src/crates/core/src/market/mock.rs\<close>. Every operation of the mock loads the whole state from a
  file, checks it (\<open>validate_persisted_state\<close>), computes a new state and writes it back only when
  it succeeds, all under one lock; so an operation is a function from a state to an error or a new
  state with an answer.

  Clock reads are arguments, in the order the code reads the clock. The JSON codec of the file and
  SHA-256 are arguments too.
\<close>

section \<open>Data\<close>

record StreamCell =
  sc_schema_version :: u8
  sc_machine :: StreamMachine
  sc_probe_accepted :: bool
  sc_buyer_pubkey :: NotePubkey
  sc_seller_locked :: u128
  sc_buyer_locked :: u128
  sc_probe_locked :: u128
  sc_probe_time :: u64
  sc_buyer_bond :: u128
  sc_fee_accrued :: u128
  sc_tokens_final :: u128
  sc_tokens_pending :: u128
  sc_last_claim_time :: u64
  sc_seller_received :: u128
  sc_buyer_refunded :: u128
  sc_burned :: u128
  sc_closed :: bool
  sc_max_ticks :: u64
  sc_disputed :: bool
  sc_dispute_time :: u64
  sc_buyer_stop_settlement :: "(u128 \<times> u128) option"

definition STREAM_CELL_SCHEMA_VERSION :: u8 where "STREAM_CELL_SCHEMA_VERSION = 3"

datatype MockSubscriptionExit = ExitCancelled | ExitExpired

record MockSubscriptionTerminal =
  ter_order :: OrderBookOrder
  ter_order_book :: string
  ter_reason :: MockSubscriptionExit
  ter_refunded :: u128

record MockState =
  ms_offers :: "(token_contract, SellOffer) hash_map"
  ms_matched_offers :: "(token_contract, SellOffer) hash_map"
  ms_matched_ticks :: "(token_contract, u64) hash_map"
  ms_deal_subscriptions :: "(token_contract, DealSubscription) hash_map"
  ms_offer_sellers :: "(token_contract, string) hash_map"
  ms_offer_deadlines :: "(token_contract, u64) hash_map"
  ms_deal_terms :: "(token_contract, u64 \<times> u64) hash_map"
  ms_expired_generations :: "(token_contract, u128) hash_map"
  ms_matches :: "(token_contract, Match) hash_map"
  ms_match_created_at :: "(token_contract, i64) hash_map"
  ms_streams :: "(token_contract, StreamCell) hash_map"
  ms_subscription_orders :: "(u128, OrderBookOrder) hash_map"
  ms_subscription_order_books :: "(u128, string) hash_map"
  ms_subscription_terminal_orders :: "(u128, MockSubscriptionTerminal) hash_map"
  ms_next_subscription_order_id :: u128

definition default_state :: MockState where
  "default_state =
    \<lparr>ms_offers = [], ms_matched_offers = [], ms_matched_ticks = [], ms_deal_subscriptions = [],
     ms_offer_sellers = [], ms_offer_deadlines = [], ms_deal_terms = [],
     ms_expired_generations = [], ms_matches = [], ms_match_created_at = [], ms_streams = [],
     ms_subscription_orders = [], ms_subscription_order_books = [],
     ms_subscription_terminal_orders = [], ms_next_subscription_order_id = 0\<rparr>"

section \<open>Validation of a persisted state\<close>

definition validate_persisted_subscription :: "DealSubscription \<Rightarrow> u64 \<Rightarrow> ChainError + unit" where
  "validate_persisted_subscription s now =
    (let unknown = sub_deal_flags s AND NOT DEAL_MASK;
         subscription_flag = (sub_deal_flags s AND SUBSCRIPTION \<noteq> 0)
     in
     refuse_if (unknown \<noteq> 0) (EndpointsFile UnknownDealFlags)
     (refuse_if (subscription_flag \<noteq> (sub_weeks s \<noteq> 0)) (EndpointsFile FlagWeeksContradict)
     (refuse_if (sub_weeks s < sub_week_index s) (EndpointsFile WeekBeyondTerm)
     (refuse_if (sub_funded_tokens s < sub_tokens_paid s) (EndpointsFile PaidBeyondFunded)
     (refuse_if (sub_funded_tokens s < sub_week_base_tokens s) (EndpointsFile BaseBeyondFunded)
     (refuse_if (now < sub_period_start s) (EndpointsFile PeriodInFuture)
     (if subscription_flag then
        refuse_if (sub_weeks s \<noteq> SUBSCRIPTION_WEEKS) (EndpointsFile WeeksNotCanonical)
        (ok_or_else (checked_mul U128_MAX (sub_tokens_per_week s) (sub_weeks s))
           (EndpointsFile QuotaOverflow) (\<lambda>expected_funded.
         refuse_if (expected_funded \<noteq> sub_funded_tokens s) (EndpointsFile QuotaNotFunded) (Inr ())))
      else refuse_if (sub_week_index s \<noteq> 0 \<or> sub_tokens_per_week s \<noteq> sub_funded_tokens s
                      \<or> sub_week_base_tokens s \<noteq> 0) (EndpointsFile OrdinaryWeekly) (Inr ()))))))))"

definition lifecycle_coherent :: "StreamCell \<Rightarrow> bool" where
  "lifecycle_coherent cell =
    (case sm_state (sc_machine cell) of
       Probe tick \<Rightarrow> \<not> sc_closed cell \<and> \<not> sc_disputed cell \<and> \<not> sc_probe_accepted cell
         \<and> tick_price tick = sm_price (sc_machine cell)
     | Streaming trusted pending \<Rightarrow> \<not> sc_closed cell \<and> \<not> sc_disputed cell
         \<and> sc_probe_accepted cell \<and> trusted \<le> pending
     | Disputed trusted contested \<Rightarrow> \<not> sc_closed cell \<and> sc_disputed cell
         \<and> checked_add U64_MAX trusted contested \<noteq> None
     | Closed \<Rightarrow> sc_closed cell \<and> \<not> sc_disputed cell
     | Opening \<Rightarrow> False
     | Stopping \<Rightarrow> False)"

definition raw_ticks :: "u128 \<Rightarrow> (u64 \<Rightarrow> ChainError + 'a) \<Rightarrow> ChainError + 'a" where
  "raw_ticks tokens k =
    ok_or_else (try_from U64_MAX (div_ceil tokens TICK_SIZE)) (EndpointsFile TickCounterOverflow) k"

definition validate_machine_ticks :: "StreamCell \<Rightarrow> ChainError + unit" where
  "validate_machine_ticks cell =
    (case sm_state (sc_machine cell) of
       Streaming trusted pending \<Rightarrow>
         raw_ticks (sc_tokens_final cell) (\<lambda>raw_final.
         raw_ticks (sc_tokens_pending cell) (\<lambda>raw_pending.
         refuse_if (pending \<noteq> raw_pending) (EndpointsFile PendingDisagrees)
         (refuse_if (trusted \<noteq> raw_final) (EndpointsFile TrustedDisagrees) (Inr ()))))
     | Disputed trusted contested \<Rightarrow>
         raw_ticks (sc_tokens_final cell) (\<lambda>raw_final.
         raw_ticks (sc_tokens_pending cell) (\<lambda>raw_pending.
         ok_or_else (checked_add U64_MAX trusted contested) (EndpointsFile DisputedTotalOverflow)
           (\<lambda>machine_pending.
         refuse_if (machine_pending \<noteq> raw_pending) (EndpointsFile PendingDisagrees)
         (refuse_if (trusted \<noteq> raw_final) (EndpointsFile TrustedDisagrees) (Inr ())))))
     | _ \<Rightarrow> Inr ())"

definition validate_persisted_stream :: "StreamCell \<Rightarrow> u64 \<Rightarrow> ChainError + unit" where
  "validate_persisted_stream cell now =
    refuse_if (sc_probe_time cell = 0 \<or> now < sc_probe_time cell) (EndpointsFile BadProbeTime)
    (refuse_if (sc_tokens_pending cell < sc_tokens_final cell) (EndpointsFile PipelineNotMonotonic)
    (refuse_if (now < sc_last_claim_time cell) (EndpointsFile ClaimInFuture)
    (refuse_if (sc_tokens_pending cell \<noteq> 0 \<and> sc_last_claim_time cell = 0)
       (EndpointsFile PipelineWithoutTime)
    (refuse_if (now < sc_dispute_time cell) (EndpointsFile DisputeInFuture)
    (refuse_if (sc_disputed cell \<and> sc_dispute_time cell = 0) (EndpointsFile DisputeWithoutTime)
    (refuse_if (\<not> sc_disputed cell \<and> \<not> sc_closed cell \<and> sc_dispute_time cell \<noteq> 0)
       (EndpointsFile RetainedDisputeTime)
    (refuse_if (sc_dispute_time cell \<noteq> 0 \<and> sc_dispute_time cell < sc_last_claim_time cell)
       (EndpointsFile ClaimAfterDispute)
    (refuse_if (\<not> sc_probe_accepted cell \<and> sc_tokens_pending cell \<noteq> 0)
       (EndpointsFile ClaimsBeforeProbe)
    (refuse_if (sc_probe_accepted cell \<and> sc_tokens_final cell < TICK_SIZE)
       (EndpointsFile ProbeNotSeeded)
    (refuse_if (sc_probe_accepted cell \<and> sc_probe_locked cell \<noteq> 0)
       (EndpointsFile ProbeStillLocked)
    (refuse_if (\<not> lifecycle_coherent cell) (EndpointsFile LifecycleIncoherent)
    (validate_machine_ticks cell))))))))))))"

definition is_canonical_hex :: "string \<Rightarrow> bool" where
  "is_canonical_hex s \<longleftrightarrow> length s = 64 \<and>
    list_all (\<lambda>c. is_ascii_digit c \<or> (97 \<le> (of_char c :: nat) \<and> (of_char c :: nat) \<le> 102)) s"

definition filled_offer :: "MockState \<Rightarrow> token_contract \<Rightarrow> SellOffer option" where
  "filled_offer st tc =
    (case hget (ms_matched_offers st) tc of Some o1 \<Rightarrow> Some o1 | None \<Rightarrow> hget (ms_offers st) tc)"

definition validate_bound_cell ::
  "Match \<Rightarrow> u64 \<Rightarrow> u128 \<Rightarrow> StreamCell \<Rightarrow> ChainError + unit" where
  "validate_bound_cell matched matched_ticks funded_tokens cell =
    refuse_if (sc_buyer_pubkey cell \<noteq> mt_buyer_pubkey matched) (EndpointsFile BuyerDisagrees)
    (refuse_if (sm_price (sc_machine cell) \<noteq> mt_price_per_tick matched)
       (EndpointsFile MachinePriceDisagrees)
    (refuse_if (sc_max_ticks cell \<noteq> matched_ticks) (EndpointsFile MaxTicksDisagree)
    (refuse_if (funded_tokens < sc_tokens_pending cell) (EndpointsFile PendingBeyondFunded)
    (Inr ()))))"

definition validate_persisted_deal_binding ::
  "MockState \<Rightarrow> token_contract \<Rightarrow> DealSubscription \<Rightarrow> StreamCell option \<Rightarrow> ChainError + unit" where
  "validate_persisted_deal_binding st tc s cell =
    ok_or_else (hget (ms_matches st) tc) (EndpointsFile NoPersistedMatch) (\<lambda>matched.
    refuse_if (mt_token_contract matched \<noteq> tc) (EndpointsFile MatchKeyDisagrees)
    (ok_or_else (filled_offer st tc) (EndpointsFile NoFilledOffer) (\<lambda>offer.
     refuse_if (so_token_contract offer \<noteq> tc) (EndpointsFile OfferKeyDisagrees)
     (ok_or_else (hget (ms_offer_sellers st) tc) (EndpointsFile NoPersistedSeller) (\<lambda>seller.
      refuse_if (\<not> is_canonical_hex seller) (EndpointsFile SellerNotCanonical)
      (refuse_if (mt_price_per_tick matched \<noteq> so_price_per_tick offer)
         (EndpointsFile PriceDisagrees)
      (let matched_ticks =
             (case hget (ms_matched_ticks st) tc of Some t \<Rightarrow> t | None \<Rightarrow> so_max_ticks offer) in
       refuse_if (matched_ticks < MIN_STREAM_BUY_TICKS \<or> so_max_ticks offer < matched_ticks)
         (EndpointsFile TicksOutsideOffer)
       (ok_or_else (checked_mul U128_MAX matched_ticks TICK_SIZE)
          (EndpointsFile MatchedTicksOverflow) (\<lambda>funded_tokens.
        refuse_if (sub_funded_tokens s \<noteq> funded_tokens) (EndpointsFile FundedDisagrees)
        (refuse_if (sub_deal_flags s \<noteq> so_flags offer AND DEAL_MASK)
           (EndpointsFile FlagsDisagree)
        (case cell of
           None \<Rightarrow> Inr ()
         | Some c \<Rightarrow> validate_bound_cell matched matched_ticks funded_tokens c)))))))))))"

definition mock_funded_time :: "MockState \<Rightarrow> token_contract \<Rightarrow> ChainError + u64" where
  "mock_funded_time st tc =
    ok_or_else (hget (ms_match_created_at st) tc) (EndpointsFile NoMatchTime) (\<lambda>created_at.
    refuse_if (created_at < 0) (EndpointsFile MatchTimeNegative) (Inr (nat created_at)))"

definition validate_match_key :: "MockState \<Rightarrow> u64 \<Rightarrow> token_contract \<Rightarrow> ChainError + unit" where
  "validate_match_key st now tc =
    refuse_if (\<not> contains_key (ms_deal_subscriptions st) tc) (EndpointsFile MatchWithoutShape)
    (bindR (mock_funded_time st tc) (\<lambda>funded_time.
     refuse_if (funded_time = 0 \<or> now < funded_time) (EndpointsFile BadFundedTime) (Inr ())))"

definition validate_deal_entry ::
  "MockState \<Rightarrow> u64 \<Rightarrow> token_contract \<times> DealSubscription \<Rightarrow> ChainError + unit" where
  "validate_deal_entry st now e =
    bindR (validate_persisted_subscription (snd e) now) (\<lambda>_.
    validate_persisted_deal_binding st (fst e) (snd e) (hget (ms_streams st) (fst e)))"

definition validate_stream_entry ::
  "MockState \<Rightarrow> u64 \<Rightarrow> token_contract \<times> StreamCell \<Rightarrow> ChainError + unit" where
  "validate_stream_entry st now e =
    refuse_if (sc_schema_version (snd e) \<noteq> STREAM_CELL_SCHEMA_VERSION)
      (EndpointsFile SchemaUnsupported)
    (refuse_if (\<not> contains_key (ms_deal_subscriptions st) (fst e))
      (EndpointsFile StreamWithoutShape)
    (validate_persisted_stream (snd e) now))"

definition validate_persisted_state :: "MockState \<Rightarrow> u64 \<Rightarrow> ChainError + unit" where
  "validate_persisted_state st now =
    bindR (check_all (validate_match_key st now) (hkeys (ms_matches st))) (\<lambda>_.
    bindR (check_all (\<lambda>tc. refuse_if (\<not> contains_key (ms_matches st) tc)
             (EndpointsFile OrphanMatchTime) (Inr ())) (hkeys (ms_match_created_at st))) (\<lambda>_.
    bindR (check_all (validate_deal_entry st now) (ms_deal_subscriptions st)) (\<lambda>_.
    check_all (validate_stream_entry st now) (ms_streams st))))"

section \<open>The state file\<close>

datatype disk_file = NotFound | ReadError | Contents "8 word list"

definition load_state ::
  "(8 word list \<Rightarrow> MockState option) \<Rightarrow> disk_file \<Rightarrow> u64 \<Rightarrow> ChainError + MockState" where
  "load_state decode_json disk now =
    (case disk of
       NotFound \<Rightarrow> Inr default_state
     | ReadError \<Rightarrow> Inl UnreadableFile
     | Contents bytes \<Rightarrow>
         if bytes = [] then Inr default_state
         else ok_or_else (decode_json bytes) MalformedFile (\<lambda>st.
              bindR (validate_persisted_state st now) (\<lambda>_. Inr st)))"

definition store_state :: "(MockState \<Rightarrow> 8 word list) \<Rightarrow> MockState \<Rightarrow> disk_file" where
  "store_state encode_json st = Contents (encode_json st)"

text \<open>One locked operation on the file: load, run, store on success.\<close>

definition transact ::
  "(8 word list \<Rightarrow> MockState option) \<Rightarrow> (MockState \<Rightarrow> 8 word list) \<Rightarrow> u64
    \<Rightarrow> (MockState \<Rightarrow> ChainError + MockState \<times> 'r) \<Rightarrow> disk_file \<Rightarrow> ChainError + disk_file \<times> 'r" where
  "transact decode_json encode_json now op disk =
    bindR (load_state decode_json disk now) (\<lambda>st.
    bindR (op st) (\<lambda>(st', r). Inr (store_state encode_json st', r)))"

section \<open>The endpoints file\<close>

type_synonym endpoints_file = "(token_contract, 8 word list) hash_map"

definition read_endpoints ::
  "(8 word list \<Rightarrow> endpoints_file option) \<Rightarrow> disk_file \<Rightarrow> ChainError + endpoints_file" where
  "read_endpoints decode_json disk =
    (case disk of
       NotFound \<Rightarrow> Inr []
     | ReadError \<Rightarrow> Inl UnreadableFile
     | Contents bytes \<Rightarrow>
         if bytes = [] then Inr [] else ok_or_else (decode_json bytes) MalformedFile Inr)"

definition write_endpoints :: "(endpoints_file \<Rightarrow> 8 word list) \<Rightarrow> endpoints_file \<Rightarrow> disk_file" where
  "write_endpoints encode_json f = Contents (encode_json f)"

definition read_handover ::
  "(8 word list \<Rightarrow> endpoints_file option) \<Rightarrow> disk_file \<Rightarrow> token_contract
    \<Rightarrow> ChainError + 8 word list option" where
  "read_handover decode_json disk tc =
    bindR (read_endpoints decode_json disk) (\<lambda>ef. Inr (hget ef tc))"

end
