(* ===== verification/MockMoney.thy ===== *)
theory MockMoney
  imports MockState
begin

text \<open>
  The money of one deal: the claim pipeline, payments, weekly charges, fees and the terminal paths of
  \<open>src/crates/core/src/market/mock.rs\<close>. Each function of the source that takes the cell and the
  deal shape by mutable reference returns them updated. The lemmas give the exact value of every
  payment and show that every path moves money without creating or losing any.
\<close>

section \<open>The claim pipeline\<close>

definition pending_tokens :: "StreamCell \<Rightarrow> u128" where
  "pending_tokens cell = sc_tokens_pending cell"

definition claim_deadline_reached :: "u64 \<Rightarrow> secs \<Rightarrow> u64 \<Rightarrow> ChainError + bool" where
  "claim_deadline_reached landed_at window now =
    ok_or_else (checked_add U64_MAX landed_at window) (Chain ArithmeticOverflow)
      (\<lambda>due. Inr (due \<le> now))"

definition promote_once :: "StreamCell \<Rightarrow> StreamCell" where
  "promote_once cell =
    (if sc_tokens_final cell < sc_tokens_pending cell
     then cell\<lparr>sc_tokens_final := sc_tokens_pending cell\<rparr> else cell)"

definition promote_due :: "StreamCell \<Rightarrow> u64 \<Rightarrow> ProtocolConsts \<Rightarrow> ChainError + StreamCell" where
  "promote_due cell now consts =
    bindR (claim_deadline_reached (sc_last_claim_time cell) (claim_promote_window consts) now)
      (\<lambda>reached. Inr (if reached then promote_once cell else cell))"

definition has_due_claim :: "StreamCell \<Rightarrow> u64 \<Rightarrow> ProtocolConsts \<Rightarrow> ChainError + bool" where
  "has_due_claim cell now consts =
    (if sc_tokens_final cell < sc_tokens_pending cell
     then claim_deadline_reached (sc_last_claim_time cell) (claim_promote_window consts) now
     else Inr False)"

definition void_claims_at :: "StreamCell \<Rightarrow> u64 \<Rightarrow> ProtocolConsts \<Rightarrow> ChainError + StreamCell" where
  "void_claims_at cell at consts =
    bindR (has_due_claim cell at consts) (\<lambda>due.
    let promoted = (if due then cell\<lparr>sc_tokens_final := sc_tokens_pending cell\<rparr> else cell)
    in Inr (promoted\<lparr>sc_tokens_pending := sc_tokens_final promoted\<rparr>))"

definition mock_finalized_ticks :: "u128 \<Rightarrow> ChainError + u64" where
  "mock_finalized_ticks tokens =
    ok_or_else (try_from U64_MAX (tokens div TICK_SIZE)) (Chain ArithmeticOverflow) Inr"

section \<open>Payments\<close>

definition checked_mul_div_floor :: "u128 \<Rightarrow> u128 \<Rightarrow> u128 \<Rightarrow> ChainError + u128" where
  "checked_mul_div_floor v multiplier denominator =
    (let whole = v div denominator; remainder = v mod denominator in
     ok_or_else (checked_mul U128_MAX whole multiplier) (Chain ArithmeticOverflow) (\<lambda>amt.
     ok_or_else (checked_mul U128_MAX remainder multiplier) (Chain ArithmeticOverflow) (\<lambda>tail.
     ok_or_else (checked_add U128_MAX amt (tail div denominator)) (Chain ArithmeticOverflow) Inr)))"

definition token_pay_and_fee :: "u128 \<Rightarrow> shell \<Rightarrow> ProtocolConsts \<Rightarrow> ChainError + u128 \<times> u128" where
  "token_pay_and_fee tokens price consts =
    bindR (checked_mul_div_floor tokens price TICK_SIZE) (\<lambda>pay.
    bindR (checked_mul_div_floor pay (platform_fee_bps consts) 10000) (\<lambda>fee_part.
    Inr (pay, fee_part)))"

text \<open>The debit both payment paths end with: escrow to seller proceeds and accrued fee.\<close>

definition move_payment :: "StreamCell \<Rightarrow> u128 \<Rightarrow> u128 \<Rightarrow> ChainError + StreamCell" where
  "move_payment cell pay fee_part =
    ok_or_else (checked_add U128_MAX pay fee_part) (Chain ArithmeticOverflow) (\<lambda>debit.
    refuse_if (sc_buyer_locked cell < debit) (Chain EscrowExceeded)
    (ok_or_else (checked_add U128_MAX (sc_seller_received cell) pay) (Chain ArithmeticOverflow)
       (\<lambda>received.
     ok_or_else (checked_add U128_MAX (sc_fee_accrued cell) fee_part) (Chain ArithmeticOverflow)
       (\<lambda>accrued.
     Inr (cell\<lparr>sc_buyer_locked := sc_buyer_locked cell - debit,
               sc_seller_received := received, sc_fee_accrued := accrued\<rparr>)))))"

definition credit_token_delta ::
  "StreamCell \<Rightarrow> u128 \<Rightarrow> ProtocolConsts \<Rightarrow> ChainError + StreamCell" where
  "credit_token_delta cell tokens consts =
    bindR (token_pay_and_fee tokens (sm_price (sc_machine cell)) consts) (\<lambda>(pay, fee_part).
    move_payment cell pay fee_part)"

definition credit_tokens_through ::
  "StreamCell \<Rightarrow> DealSubscription \<Rightarrow> u128 \<Rightarrow> ProtocolConsts
    \<Rightarrow> ChainError + StreamCell \<times> DealSubscription" where
  "credit_tokens_through cell s target consts =
    refuse_if (target < sub_tokens_paid s) (Chain PaymentRegresses)
    (refuse_if (sub_funded_tokens s < target) (Chain PaymentExceedsFunded)
    (bindR (token_pay_and_fee (sub_tokens_paid s) (sm_price (sc_machine cell)) consts)
       (\<lambda>(paid_value, paid_fee).
     bindR (token_pay_and_fee target (sm_price (sc_machine cell)) consts)
       (\<lambda>(target_value, target_fee).
     ok_or_else (checked_sub target_value paid_value) (Chain PaymentRegresses) (\<lambda>pay.
     ok_or_else (checked_sub target_fee paid_fee) (Chain PaymentRegresses) (\<lambda>fee_part.
     bindR (move_payment cell pay fee_part) (\<lambda>cell'.
     Inr (cell', s\<lparr>sub_tokens_paid := target\<rparr>))))))))"

section \<open>Weeks of a subscription\<close>

definition subscription_weeks_at :: "DealSubscription \<Rightarrow> u64 \<Rightarrow> bool \<Rightarrow> ChainError + u8" where
  "subscription_weeks_at s now include_started =
    ok_or_else (checked_sub now (sub_period_start s)) (Chain ClockRegresses) (\<lambda>elapsed.
    let elapsed_weeks = min (elapsed div SUB_WEEK_LEN) (sub_weeks s);
        target = (if include_started \<and> elapsed_weeks < sub_weeks s then elapsed_weeks + 1
                  else elapsed_weeks)
    in ok_or_else (try_from U8_MAX target) (Chain ArithmeticOverflow) Inr)"

definition charge_subscription_through ::
  "StreamCell \<Rightarrow> DealSubscription \<Rightarrow> u8 \<Rightarrow> ProtocolConsts
    \<Rightarrow> ChainError + StreamCell \<times> DealSubscription \<times> bool" where
  "charge_subscription_through cell s target_week consts =
    (if target_week \<le> sub_week_index s then Inr (cell, s, False)
     else ok_or_else (checked_mul U128_MAX target_week (sub_tokens_per_week s))
            (Chain ArithmeticOverflow) (\<lambda>target_tokens_paid.
          bindR (credit_tokens_through cell s target_tokens_paid consts) (\<lambda>(cell', s').
          Inr (cell', s'\<lparr>sub_week_index := target_week,
                         sub_week_base_tokens := pending_tokens cell'\<rparr>, True))))"

definition charge_elapsed_subscription_weeks ::
  "StreamCell \<Rightarrow> DealSubscription \<Rightarrow> u64 \<Rightarrow> ProtocolConsts
    \<Rightarrow> ChainError + StreamCell \<times> DealSubscription \<times> bool" where
  "charge_elapsed_subscription_weeks cell s now consts =
    (if \<not> is_subscription s then Inr (cell, s, False)
     else refuse_if (\<not> sc_probe_accepted cell \<or> sc_closed cell \<or> sc_disputed cell)
            (Chain NotOpenAccepted)
          (bindR (subscription_weeks_at s now False) (\<lambda>due.
           charge_subscription_through cell s due consts)))"

section \<open>Terminal paths\<close>

definition delivered_ticks :: "StreamCell \<Rightarrow> ChainError + u64" where
  "delivered_ticks cell =
    bindR (mock_finalized_ticks (sc_tokens_final cell)) (\<lambda>ticks.
    Inr (max ticks (if sc_probe_accepted cell then 1 else 0)))"

definition mock_rebate ::
  "StreamCell \<Rightarrow> u64 \<Rightarrow> ProtocolConsts \<Rightarrow> bool \<Rightarrow> ChainError + u128" where
  "mock_rebate cell delivered consts clean =
    (if clean then
       ok_or_else (checked_mul U128_MAX delivered (sm_price (sc_machine cell)))
         (Chain ArithmeticOverflow) (\<lambda>gross.
       let rate = min (saturating_mul U128_MAX (rebate_slope_bps consts) delivered)
                      (rebate_max_bps consts)
       in bindR (checked_mul_div_floor gross rate 10000) (\<lambda>r. Inr (min r (sc_fee_accrued cell))))
     else Inr 0)"

definition settle_mock_fees ::
  "StreamCell \<Rightarrow> u64 \<Rightarrow> ProtocolConsts \<Rightarrow> bool \<Rightarrow> ChainError + StreamCell" where
  "settle_mock_fees cell delivered consts clean =
    bindR (mock_rebate cell delivered consts clean) (\<lambda>rebate_part.
    ok_or_else (checked_add U128_MAX (sc_seller_received cell) rebate_part)
      (Chain ArithmeticOverflow) (\<lambda>received.
    ok_or_else (checked_add U128_MAX (sc_burned cell) (sc_fee_accrued cell - rebate_part))
      (Chain ArithmeticOverflow) (\<lambda>burned.
    Inr (cell\<lparr>sc_seller_received := received, sc_burned := burned, sc_fee_accrued := 0\<rparr>))))"

text \<open>Every terminal path ends by emptying the four locks and closing the cell.\<close>

definition drain :: "StreamCell \<Rightarrow> StreamMachine \<Rightarrow> StreamCell" where
  "drain cell m =
    cell\<lparr>sc_buyer_locked := 0, sc_probe_locked := 0, sc_buyer_bond := 0, sc_seller_locked := 0,
         sc_machine := m, sc_closed := True\<rparr>"

definition close_mock_clean ::
  "StreamCell \<Rightarrow> u64 \<Rightarrow> ProtocolConsts \<Rightarrow> ChainError + StreamCell \<times> u128" where
  "close_mock_clean cell0 delivered consts =
    bindR (settle_mock_fees cell0 delivered consts True) (\<lambda>cell.
    ok_or_else (checked_add U128_MAX (sc_buyer_locked cell) (sc_probe_locked cell))
      (Chain ArithmeticOverflow) (\<lambda>part.
    ok_or_else (checked_add U128_MAX part (sc_buyer_bond cell))
      (Chain ArithmeticOverflow) (\<lambda>refund.
    ok_or_else (checked_add U128_MAX (sc_buyer_refunded cell) refund)
      (Chain ArithmeticOverflow) (\<lambda>refunded.
    ok_or_else (checked_add U128_MAX (sc_seller_received cell) (sc_seller_locked cell))
      (Chain ArithmeticOverflow) (\<lambda>received.
    Inr (drain (cell\<lparr>sc_buyer_refunded := refunded, sc_seller_received := received\<rparr>)
           (close_machine (sc_machine cell)), refund))))))"

definition claim_base :: "DealSubscription \<Rightarrow> u128" where
  "claim_base s =
    (if is_subscription s \<and> 0 < sub_week_index s then sub_week_base_tokens s else sub_tokens_paid s)"

text \<open>The stake of a dispute: the claimed value between one and two ticks, as far as both sides
  hold it.\<close>

definition dispute_stake :: "StreamCell \<Rightarrow> DealSubscription \<Rightarrow> u128 \<Rightarrow> u128" where
  "dispute_stake cell s claimed_value =
    (let price = sm_price (sc_machine cell);
         stake = min (min (max claimed_value price) (2 * price)) (sc_seller_locked cell)
     in if is_subscription s then min stake (sc_buyer_bond cell)
        else min stake (sc_buyer_locked cell))"

definition refundable_deposit ::
  "StreamCell \<Rightarrow> DealSubscription \<Rightarrow> u128 \<Rightarrow> ProtocolConsts \<Rightarrow> ChainError + u128" where
  "refundable_deposit cell s remaining consts =
    (if is_subscription s \<and> sc_probe_accepted cell then
       bindR (subscription_weeks_at s (sc_dispute_time cell) True) (\<lambda>started.
       ok_or_else (checked_mul U128_MAX (saturating_sub (sub_weeks s) started)
                     (sub_tokens_per_week s)) (Chain ArithmeticOverflow) (\<lambda>future_tokens.
       bindR (token_pay_and_fee future_tokens (sm_price (sc_machine cell)) consts)
         (\<lambda>(future_pay, future_fee).
       ok_or_else (checked_add U128_MAX future_pay future_fee) (Chain ArithmeticOverflow)
         (\<lambda>future. Inr (min future remaining)))))
     else Inr remaining)"

definition resolved_machine :: "StreamMachine \<Rightarrow> bool \<Rightarrow> StreamMachine option" where
  "resolved_machine m timed_out =
    (if timed_out then Some (snd (resolve_dispute_timeout_machine m))
     else map_option snd (release_dispute_machine m))"

text \<open>The part of the resolution after the stake is taken: fees, refund, burn and close.\<close>

definition finish_dispute ::
  "StreamCell \<Rightarrow> DealSubscription \<Rightarrow> ProtocolConsts \<Rightarrow> bool
    \<Rightarrow> ChainError + StreamCell \<times> u128 \<times> u128" where
  "finish_dispute cell0 s consts timed_out =
    bindR (delivered_ticks cell0) (\<lambda>delivered.
    bindR (settle_mock_fees cell0 delivered consts False) (\<lambda>cell.
    ok_or_else (checked_add U128_MAX (sc_buyer_locked cell) (sc_probe_locked cell))
      (Chain ArithmeticOverflow) (\<lambda>remaining_deposit.
    bindR (refundable_deposit cell s remaining_deposit consts) (\<lambda>refundable.
    ok_or_else (checked_add U128_MAX (sc_burned cell) (remaining_deposit - refundable))
      (Chain ArithmeticOverflow) (\<lambda>burned.
    ok_or_else (checked_add U128_MAX refundable (sc_buyer_bond cell))
      (Chain ArithmeticOverflow) (\<lambda>refund.
    ok_or_else (checked_add U128_MAX (sc_buyer_refunded cell) refund)
      (Chain ArithmeticOverflow) (\<lambda>refunded.
    ok_or_else (checked_add U128_MAX (sc_seller_received cell) (sc_seller_locked cell))
      (Chain ArithmeticOverflow) (\<lambda>received.
    ok_or_else (resolved_machine (sc_machine cell) timed_out) (Chain MachinePanic) (\<lambda>m.
    Inr (drain (cell\<lparr>sc_burned := burned, sc_buyer_refunded := refunded,
                     sc_seller_received := received, sc_disputed := False\<rparr>) m,
         refund, sc_seller_locked cell))))))))))"

text \<open>The stake leaves the buyer's bond or escrow, and on a timeout the seller's bond too.\<close>

definition take_stake ::
  "StreamCell \<Rightarrow> DealSubscription \<Rightarrow> u128 \<Rightarrow> bool \<Rightarrow> ChainError + StreamCell" where
  "take_stake cell s stake0 timed_out =
    (let stake = (if is_subscription s then stake0 else min stake0 (sc_buyer_locked cell));
         cell1 = (if is_subscription s
                  then cell\<lparr>sc_buyer_bond := sc_buyer_bond cell - stake\<rparr>
                  else cell\<lparr>sc_buyer_locked := sc_buyer_locked cell - stake\<rparr>);
         seller_burn = (if timed_out then min stake (sc_seller_locked cell) else 0)
     in
     ok_or_else (checked_add U128_MAX (sc_burned cell1) stake) (Chain ArithmeticOverflow) (\<lambda>burned1.
     ok_or_else (checked_add U128_MAX burned1 seller_burn) (Chain ArithmeticOverflow) (\<lambda>burned2.
     Inr (cell1\<lparr>sc_seller_locked := sc_seller_locked cell - seller_burn, sc_burned := burned2\<rparr>))))"

definition resolve_mock_dispute ::
  "StreamCell \<Rightarrow> DealSubscription \<Rightarrow> ProtocolConsts \<Rightarrow> bool
    \<Rightarrow> ChainError + StreamCell \<times> DealSubscription \<times> u128 \<times> u128" where
  "resolve_mock_dispute cell0 s0 consts timed_out =
    refuse_if (\<not> sc_disputed cell0) (Chain NotInDispute)
    (bindR (if is_subscription s0 \<and> sc_probe_accepted cell0
            then bindR (subscription_weeks_at s0 (sc_dispute_time cell0) False) (\<lambda>completed.
                 charge_subscription_through cell0 s0 completed consts)
            else Inr (cell0, s0, False)) (\<lambda>(cell1, s1, _).
     bindR (token_pay_and_fee (saturating_sub (pending_tokens cell1) (claim_base s1))
              (sm_price (sc_machine cell1)) consts) (\<lambda>(claimed_pay, claimed_fee).
     ok_or_else (checked_add U128_MAX claimed_pay claimed_fee) (Chain ArithmeticOverflow)
       (\<lambda>claimed_value.
     let stake = dispute_stake cell1 s1 claimed_value in
     bindR (void_claims_at cell1 (sc_dispute_time cell1) consts) (\<lambda>cell2.
     let trusted_tokens = sc_tokens_final cell2 in
     bindR (credit_token_delta cell2 (saturating_sub trusted_tokens (claim_base s1)) consts)
       (\<lambda>cell3.
     let s2 = s1\<lparr>sub_tokens_paid := max (sub_tokens_paid s1) trusted_tokens\<rparr> in
     bindR (take_stake cell3 s1 stake timed_out) (\<lambda>cell4.
     bindR (finish_dispute cell4 s2 consts timed_out) (\<lambda>(cell5, refund, seller_refund).
     Inr (cell5, s2, refund, seller_refund)))))))))"

section \<open>Stopping\<close>

definition probe_stop ::
  "StreamCell \<Rightarrow> ChainError + StreamCell \<times> Settlement" where
  "probe_stop cell =
    (case buyer_stop (sc_machine cell) of
       Some (BurnBoth burn, m) \<Rightarrow>
         (let seller_burn = min (sc_probe_locked cell) (sc_seller_locked cell) in
          ok_or_else (checked_add U128_MAX (sc_buyer_locked cell) (sc_buyer_bond cell))
            (Chain ArithmeticOverflow) (\<lambda>refund.
          ok_or_else (checked_add U128_MAX (sc_burned cell) (sc_probe_locked cell))
            (Chain ArithmeticOverflow) (\<lambda>burned1.
          ok_or_else (checked_add U128_MAX burned1 seller_burn)
            (Chain ArithmeticOverflow) (\<lambda>burned2.
          ok_or_else (checked_add U128_MAX (sc_buyer_refunded cell) refund)
            (Chain ArithmeticOverflow) (\<lambda>refunded.
          ok_or_else (checked_add U128_MAX (sc_seller_received cell)
                        (sc_seller_locked cell - seller_burn))
            (Chain ArithmeticOverflow) (\<lambda>received.
          Inr (drain (cell\<lparr>sc_burned := burned2, sc_buyer_refunded := refunded,
                           sc_seller_received := received\<rparr>) (close_machine m),
               BurnBoth (burn\<lparr>burn_buyer_refund := refund\<rparr>))))))))
     | Some _ \<Rightarrow> Inl (Chain NoProbeBurn)
     | None \<Rightarrow> Inl (Chain MachinePanic))"

definition accepted_stop ::
  "StreamCell \<Rightarrow> DealSubscription \<Rightarrow> u64 \<Rightarrow> u64 \<Rightarrow> ProtocolConsts
    \<Rightarrow> ChainError + StreamCell \<times> DealSubscription \<times> Settlement" where
  "accepted_stop cell0 s0 now1 now2 consts =
    bindR (promote_due cell0 now1 consts) (\<lambda>cell1.
    bindR (if is_subscription s0
           then bindR (subscription_weeks_at s0 now2 True) (\<lambda>started.
                charge_subscription_through cell1 s0 started consts)
           else Inr (cell1, s0, False)) (\<lambda>(cell2, s1, _).
    bindR (if sub_tokens_paid s1 < sc_tokens_final cell2
           then credit_tokens_through cell2 s1 (sc_tokens_final cell2) consts
           else Inr (cell2, s1)) (\<lambda>(cell3, s2).
    bindR (delivered_ticks cell3) (\<lambda>delivered.
    ok_or_else (map_option snd (buyer_stop (sc_machine cell3))) (Chain MachinePanic) (\<lambda>m.
    bindR (close_mock_clean (cell3\<lparr>sc_machine := m\<rparr>) delivered consts) (\<lambda>(cell4, refund).
    bindR (mock_finalized_ticks (sub_tokens_paid s2)) (\<lambda>paid_ticks.
    Inr (cell4\<lparr>sc_buyer_stop_settlement := Some (sc_seller_received cell4, refund)\<rparr>, s2,
         AmicableSplit paid_ticks refund))))))))"

definition stop_mock_deal ::
  "StreamCell \<Rightarrow> DealSubscription \<Rightarrow> u64 \<Rightarrow> u64 \<Rightarrow> ProtocolConsts
    \<Rightarrow> ChainError + StreamCell \<times> DealSubscription \<times> Settlement" where
  "stop_mock_deal cell s now1 now2 consts =
    refuse_if (sc_closed cell) (Chain AlreadyClosed)
    (refuse_if (sc_disputed cell) (Chain IsDisputed)
    (if \<not> sc_probe_accepted cell
     then bindR (probe_stop cell) (\<lambda>(cell', settlement). Inr (cell', s, settlement))
     else accepted_stop cell s now1 now2 consts))"

end
