(* ===== verification/MockLaws.thy ===== *)
theory MockLaws
  imports MockMoney
begin

text \<open>
  The laws of the money of one deal. The first part is conservation: whatever path runs, the eight
  amounts of the cell keep their sum. The second part gives the exact value of a payment, and the
  third shows that a payment inside the funded volume always goes through when the books of the deal
  are in order.
\<close>

section \<open>Conservation\<close>

definition cell_total :: "StreamCell \<Rightarrow> nat" where
  "cell_total c = sc_seller_locked c + sc_buyer_locked c + sc_probe_locked c + sc_buyer_bond c
    + sc_fee_accrued c + sc_seller_received c + sc_buyer_refunded c + sc_burned c"

definition drained :: "StreamCell \<Rightarrow> bool" where
  "drained c \<longleftrightarrow> sc_seller_locked c = 0 \<and> sc_buyer_locked c = 0 \<and> sc_probe_locked c = 0
    \<and> sc_buyer_bond c = 0 \<and> sc_fee_accrued c = 0"

text \<open>The fields no money path touches.\<close>

definition cell_static :: "StreamCell \<Rightarrow> u8 \<times> NotePubkey \<times> u64 \<times> u64 \<times> bool" where
  "cell_static c = (sc_schema_version c, sc_buyer_pubkey c, sc_probe_time c, sc_max_ticks c,
     sc_probe_accepted c)"

definition cell_clock :: "StreamCell \<Rightarrow> u64 \<times> u64" where
  "cell_clock c = (sc_last_claim_time c, sc_dispute_time c)"

named_theorems money_iffs "success of a money function, as an equivalence with the explicit result"

lemma move_payment_iff [money_iffs]:
  "move_payment cell pay fee_part = Inr c' \<longleftrightarrow>
    pay + fee_part \<le> U128_MAX \<and> pay + fee_part \<le> sc_buyer_locked cell
    \<and> sc_seller_received cell + pay \<le> U128_MAX \<and> sc_fee_accrued cell + fee_part \<le> U128_MAX
    \<and> c' = cell\<lparr>sc_buyer_locked := sc_buyer_locked cell - (pay + fee_part),
              sc_seller_received := sc_seller_received cell + pay,
              sc_fee_accrued := sc_fee_accrued cell + fee_part\<rparr>"
  by (auto simp: move_payment_def result_simps)

lemma credit_token_delta_iff [money_iffs]:
  "credit_token_delta cell tokens consts = Inr c' \<longleftrightarrow>
    (\<exists>pay fee_part. token_pay_and_fee tokens (sm_price (sc_machine cell)) consts = Inr (pay, fee_part)
      \<and> move_payment cell pay fee_part = Inr c')"
  by (auto simp: credit_token_delta_def result_simps)

lemma credit_tokens_through_iff [money_iffs]:
  "credit_tokens_through cell s target consts = Inr (c', s') \<longleftrightarrow>
    sub_tokens_paid s \<le> target \<and> target \<le> sub_funded_tokens s
    \<and> (\<exists>pv pf tv tf. token_pay_and_fee (sub_tokens_paid s) (sm_price (sc_machine cell)) consts
          = Inr (pv, pf)
        \<and> token_pay_and_fee target (sm_price (sc_machine cell)) consts = Inr (tv, tf)
        \<and> pv \<le> tv \<and> pf \<le> tf \<and> move_payment cell (tv - pv) (tf - pf) = Inr c')
    \<and> s' = s\<lparr>sub_tokens_paid := target\<rparr>"
  by (auto simp: credit_tokens_through_def result_simps)

lemma move_payment_total:
  assumes "move_payment cell pay fee_part = Inr c'"
  shows "cell_total c' = cell_total cell"
  using assms by (auto simp: money_iffs cell_total_def)

lemma credit_token_delta_total:
  "credit_token_delta cell tokens consts = Inr c' \<Longrightarrow> cell_total c' = cell_total cell"
  by (auto simp: credit_token_delta_iff dest: move_payment_total)

lemma credit_tokens_through_total:
  "credit_tokens_through cell s target consts = Inr (c', s') \<Longrightarrow> cell_total c' = cell_total cell"
  by (auto simp: credit_tokens_through_iff dest: move_payment_total)

lemma charge_subscription_through_total:
  "charge_subscription_through cell s w consts = Inr (c', s', b) \<Longrightarrow> cell_total c' = cell_total cell"
  by (auto simp: charge_subscription_through_def result_simps dest: credit_tokens_through_total
      split: if_splits)

lemma charge_elapsed_total:
  "charge_elapsed_subscription_weeks cell s now consts = Inr (c', s', b) \<Longrightarrow>
    cell_total c' = cell_total cell"
  by (auto simp: charge_elapsed_subscription_weeks_def result_simps
      dest: charge_subscription_through_total split: if_splits)

lemma promote_once_total [simp]: "cell_total (promote_once cell) = cell_total cell"
  by (simp add: promote_once_def cell_total_def)

lemma promote_due_total: "promote_due cell now consts = Inr c' \<Longrightarrow> cell_total c' = cell_total cell"
  by (auto simp: promote_due_def result_simps)

lemma void_claims_at_total: "void_claims_at cell at consts = Inr c' \<Longrightarrow> cell_total c' = cell_total cell"
  by (auto simp: void_claims_at_def result_simps Let_def cell_total_def)

lemma mock_rebate_le: "mock_rebate cell d consts clean = Inr r \<Longrightarrow> r \<le> sc_fee_accrued cell"
  by (auto simp: mock_rebate_def result_simps Let_def split: if_splits)

lemma settle_mock_fees_iff [money_iffs]:
  "settle_mock_fees cell d consts clean = Inr c' \<longleftrightarrow>
    (\<exists>r. mock_rebate cell d consts clean = Inr r \<and> sc_seller_received cell + r \<le> U128_MAX
      \<and> sc_burned cell + (sc_fee_accrued cell - r) \<le> U128_MAX
      \<and> c' = cell\<lparr>sc_seller_received := sc_seller_received cell + r,
                sc_burned := sc_burned cell + (sc_fee_accrued cell - r), sc_fee_accrued := 0\<rparr>)"
  by (auto simp: settle_mock_fees_def result_simps)

lemma settle_mock_fees_total:
  "settle_mock_fees cell d consts clean = Inr c' \<Longrightarrow> cell_total c' = cell_total cell"
  by (auto simp: settle_mock_fees_iff cell_total_def dest!: mock_rebate_le)

lemma close_mock_clean_iff [money_iffs]:
  "close_mock_clean cell d consts = Inr (c', refund) \<longleftrightarrow>
    (\<exists>c1. settle_mock_fees cell d consts True = Inr c1
      \<and> refund = sc_buyer_locked c1 + sc_probe_locked c1 + sc_buyer_bond c1
      \<and> refund \<le> U128_MAX \<and> sc_buyer_refunded c1 + refund \<le> U128_MAX
      \<and> sc_seller_received c1 + sc_seller_locked c1 \<le> U128_MAX
      \<and> c' = drain (c1\<lparr>sc_buyer_refunded := sc_buyer_refunded c1 + refund,
                     sc_seller_received := sc_seller_received c1 + sc_seller_locked c1\<rparr>)
              (close_machine (sc_machine c1)))"
  by (auto simp: close_mock_clean_def result_simps)

lemma close_mock_clean_total:
  assumes "close_mock_clean cell d consts = Inr (c', refund)"
  shows "cell_total c' = cell_total cell" and "drained c'" and "sc_closed c'"
    and "sc_buyer_refunded c' = sc_buyer_refunded cell + refund"
  using assms
  by (auto simp: close_mock_clean_iff settle_mock_fees_iff drain_def cell_total_def drained_def
      dest!: mock_rebate_le)

lemma take_stake_total:
  assumes "take_stake cell s stake timed_out = Inr c'"
    and "is_subscription s \<Longrightarrow> stake \<le> sc_buyer_bond cell"
  shows "cell_total c' = cell_total cell"
  using assms by (auto simp: take_stake_def Let_def result_simps cell_total_def split: if_splits)

lemma refundable_deposit_le: "refundable_deposit cell s r consts = Inr x \<Longrightarrow> x \<le> r"
  by (auto simp: refundable_deposit_def result_simps split: if_splits)

lemma finish_dispute_total:
  assumes "finish_dispute cell s consts timed_out = Inr (c', refund, bond)"
  shows "cell_total c' = cell_total cell" and "drained c'" and "sc_closed c'"
  using assms
  by (auto simp: finish_dispute_def result_simps settle_mock_fees_iff drain_def cell_total_def
      drained_def dest!: mock_rebate_le refundable_deposit_le)

lemma dispute_stake_le: "is_subscription s \<Longrightarrow> dispute_stake cell s v \<le> sc_buyer_bond cell"
  by (simp add: dispute_stake_def Let_def)

lemma credit_token_delta_bond:
  "credit_token_delta cell t consts = Inr c' \<Longrightarrow> sc_buyer_bond c' = sc_buyer_bond cell"
  by (auto simp: money_iffs)

lemma void_claims_at_bond:
  "void_claims_at cell at consts = Inr c' \<Longrightarrow> sc_buyer_bond c' = sc_buyer_bond cell"
  by (auto simp: void_claims_at_def result_simps Let_def)

lemma resolve_mock_dispute_total:
  assumes "resolve_mock_dispute cell s consts timed_out = Inr (c', s', refund, bond)"
  shows "cell_total c' = cell_total cell" and "drained c'" and "sc_closed c'"
proof -
  obtain c1 s1 b c2 c3 c4 v where steps:
    "(if is_subscription s \<and> sc_probe_accepted cell
      then bindR (subscription_weeks_at s (sc_dispute_time cell) False) (\<lambda>completed.
           charge_subscription_through cell s completed consts)
      else Inr (cell, s, False)) = Inr (c1, s1, b)"
    "void_claims_at c1 (sc_dispute_time c1) consts = Inr c2"
    "credit_token_delta c2 (sc_tokens_final c2 - claim_base s1) consts = Inr c3"
    "take_stake c3 s1 (dispute_stake c1 s1 v) timed_out = Inr c4"
    "\<exists>s2. finish_dispute c4 s2 consts timed_out = Inr (c', refund, bond)"
    using assms by (auto simp: resolve_mock_dispute_def result_simps Let_def) blast
  then obtain s2 where fin: "finish_dispute c4 s2 consts timed_out = Inr (c', refund, bond)" by blast
  have t1: "cell_total c1 = cell_total cell"
    using steps(1) by (auto simp: result_simps dest: charge_subscription_through_total split: if_splits)
  have bond: "sc_buyer_bond c3 = sc_buyer_bond c1"
    using credit_token_delta_bond [OF steps(3)] void_claims_at_bond [OF steps(2)] by simp
  have "cell_total c4 = cell_total c3"
    using take_stake_total [OF steps(4)] dispute_stake_le [of s1 c1 v] bond by simp
  then show "cell_total c' = cell_total cell"
    using t1 void_claims_at_total [OF steps(2)] credit_token_delta_total [OF steps(3)]
      finish_dispute_total(1) [OF fin] by simp
  show "drained c'" and "sc_closed c'" using finish_dispute_total [OF fin] by simp_all
qed

lemma probe_stop_total:
  assumes "probe_stop cell = Inr (c', settlement)"
  shows "cell_total c' = cell_total cell" and "sc_closed c'"
    and "sc_fee_accrued cell = 0 \<Longrightarrow> drained c'"
  using assms
  by (auto simp: probe_stop_def result_simps Let_def drain_def cell_total_def drained_def
      split: option.splits prod.splits Settlement.splits)

lemma accepted_stop_total:
  assumes "accepted_stop cell s now1 now2 consts = Inr (c', s', settlement)"
  shows "cell_total c' = cell_total cell" and "drained c'" and "sc_closed c'"
proof -
  obtain c1 c2 s1 b c3 s2 m d c4 refund where steps:
    "promote_due cell now1 consts = Inr c1"
    "(if is_subscription s then bindR (subscription_weeks_at s now2 True) (\<lambda>started.
        charge_subscription_through c1 s started consts) else Inr (c1, s, False)) = Inr (c2, s1, b)"
    "(if sub_tokens_paid s1 < sc_tokens_final c2
      then credit_tokens_through c2 s1 (sc_tokens_final c2) consts else Inr (c2, s1)) = Inr (c3, s2)"
    "close_mock_clean (c3\<lparr>sc_machine := m\<rparr>) d consts = Inr (c4, refund)"
    "c' = c4\<lparr>sc_buyer_stop_settlement := Some (sc_seller_received c4, refund)\<rparr>"
    using assms by (auto simp: accepted_stop_def result_simps)
  have "cell_total c2 = cell_total c1"
    using steps(2) by (auto simp: result_simps dest: charge_subscription_through_total split: if_splits)
  moreover have "cell_total c3 = cell_total c2"
    using steps(3) by (auto dest: credit_tokens_through_total split: if_splits)
  moreover have "cell_total (c3\<lparr>sc_machine := m\<rparr>) = cell_total c3" by (simp add: cell_total_def)
  ultimately show "cell_total c' = cell_total cell"
    using promote_due_total [OF steps(1)] close_mock_clean_total(1) [OF steps(4)] steps(5)
    by (simp add: cell_total_def)
  show "drained c'" and "sc_closed c'"
    using close_mock_clean_total [OF steps(4)] steps(5) by (simp_all add: drained_def)
qed

section \<open>Exact values\<close>

definition pay_of :: "shell \<Rightarrow> u128 \<Rightarrow> nat" where
  "pay_of p t = t * p div TICK_SIZE"

definition fee_of :: "ProtocolConsts \<Rightarrow> shell \<Rightarrow> u128 \<Rightarrow> nat" where
  "fee_of c p t = pay_of p t * platform_fee_bps c div 10000"

definition value_of :: "ProtocolConsts \<Rightarrow> shell \<Rightarrow> u128 \<Rightarrow> nat" where
  "value_of c p t = pay_of p t + fee_of c p t"

definition consts_ok :: "ProtocolConsts \<Rightarrow> bool" where
  "consts_ok c \<longleftrightarrow> platform_fee_bps c \<le> U32_MAX \<and> rebate_max_bps c \<le> 10000"

lemma mul_div_split: "0 < (d::nat) \<Longrightarrow> v * m div d = v div d * m + v mod d * m div d"
proof -
  assume d: "0 < d"
  have "v * m = (v div d * m) * d + v mod d * m"
    by (metis add_mult_distrib div_mult_mod_eq mult.assoc mult.commute)
  then show ?thesis using d by (metis div_mult_self3 less_numeral_extra(3))
qed

lemma checked_mul_div_floor_eq:
  assumes "0 < d" and "d * m \<le> U128_MAX"
  shows "checked_mul_div_floor v m d =
    (if v * m div d \<le> U128_MAX then Inr (v * m div d) else Inl (Chain ArithmeticOverflow))"
proof -
  have "v mod d * m \<le> d * m" using assms(1) by (intro mult_le_mono1) (simp add: less_imp_le)
  then have "v mod d * m \<le> U128_MAX" using assms(2) by (rule le_trans)
  then have tail: "checked_mul U128_MAX (v mod d) m = Some (v mod d * m)"
    by (simp only: checked_mul_def if_True)
  show ?thesis
    unfolding mul_div_split [OF assms(1), of v m] checked_mul_div_floor_def Let_def
    by (simp add: tail checked_add_def) (auto simp: checked_mul_def checked_add_def)
qed

lemma token_pay_and_fee_eq:
  assumes "consts_ok c" and "p \<le> U64_MAX"
  shows "token_pay_and_fee t p c =
    (if pay_of p t \<le> U128_MAX \<and> fee_of c p t \<le> U128_MAX then Inr (pay_of p t, fee_of c p t)
     else Inl (Chain ArithmeticOverflow))"
proof -
  have "TICK_SIZE * p \<le> TICK_SIZE * U64_MAX" using assms(2) by simp
  then have p: "TICK_SIZE * p \<le> U128_MAX" by (simp add: TICK_SIZE_def MAX_defs)
  have "10000 * platform_fee_bps c \<le> 10000 * U32_MAX" using assms(1) by (simp add: consts_ok_def)
  then have f: "10000 * platform_fee_bps c \<le> U128_MAX" by (simp add: MAX_defs)
  show ?thesis
    by (simp add: token_pay_and_fee_def checked_mul_div_floor_eq p f pay_of_def fee_of_def)
qed

lemma pay_of_mono: "t \<le> t' \<Longrightarrow> pay_of p t \<le> pay_of p t'"
  unfolding pay_of_def by (intro div_le_mono mult_le_mono1)

lemma fee_of_mono: "t \<le> t' \<Longrightarrow> fee_of c p t \<le> fee_of c p t'"
  unfolding fee_of_def by (intro div_le_mono mult_le_mono1 pay_of_mono)

lemma value_of_mono: "t \<le> t' \<Longrightarrow> value_of c p t \<le> value_of c p t'"
  unfolding value_of_def by (intro add_mono pay_of_mono fee_of_mono)

lemma div_add_le: "(a::nat) div d + b div d \<le> (a + b) div d"
proof -
  have "a div d + b div d = (a div d * d + b div d * d) div d \<or> d = 0"
    by (simp add: add_mult_distrib [symmetric])
  moreover have "a div d * d + b div d * d \<le> a + b"
    by (intro add_mono div_times_less_eq_dividend)
  ultimately show ?thesis by (metis add.right_neutral div_by_0 div_le_mono le_refl)
qed

lemma value_of_add: "value_of c p t + value_of c p u \<le> value_of c p (t + u)"
proof -
  have pay: "pay_of p t + pay_of p u \<le> pay_of p (t + u)"
    unfolding pay_of_def add_mult_distrib by (rule div_add_le)
  then have "(pay_of p t + pay_of p u) * platform_fee_bps c div 10000 \<le> fee_of c p (t + u)"
    unfolding fee_of_def by (intro div_le_mono mult_le_mono1)
  then have "fee_of c p t + fee_of c p u \<le> fee_of c p (t + u)"
    unfolding fee_of_def add_mult_distrib using div_add_le le_trans by blast
  with pay show ?thesis by (simp add: value_of_def)
qed

lemma pay_of_tick [simp]: "pay_of p TICK_SIZE = p"
  by (simp add: pay_of_def TICK_SIZE_def)

lemma pay_of_0 [simp]: "pay_of p 0 = 0"
  by (simp add: pay_of_def)

lemma pay_of_ticks: "pay_of p (n * TICK_SIZE) = n * p"
  by (simp add: pay_of_def TICK_SIZE_def)

lemma value_of_ge_pay: "pay_of p t \<le> value_of c p t" "fee_of c p t \<le> value_of c p t"
  by (simp_all add: value_of_def)

section \<open>Payments on a deal whose books are in order\<close>

text \<open>
  The books of an accepted open deal: the seller's proceeds and the accrued fee are the value of the
  tokens paid, and the escrow still holds the value of the rest.
\<close>

definition books_ok :: "ProtocolConsts \<Rightarrow> StreamCell \<Rightarrow> DealSubscription \<Rightarrow> bool" where
  "books_ok c cell s \<longleftrightarrow>
    (let p = sm_price (sc_machine cell) in
     p \<le> U64_MAX \<and> value_of c p (sub_funded_tokens s) \<le> U128_MAX
     \<and> sub_tokens_paid s \<le> sub_funded_tokens s
     \<and> sc_seller_received cell = pay_of p (sub_tokens_paid s)
     \<and> sc_fee_accrued cell = fee_of c p (sub_tokens_paid s)
     \<and> sc_buyer_locked cell =
         value_of c p (sub_funded_tokens s) - value_of c p (sub_tokens_paid s))"

definition paid_through ::
  "ProtocolConsts \<Rightarrow> DealSubscription \<Rightarrow> u128 \<Rightarrow> StreamCell \<Rightarrow> StreamCell" where
  "paid_through c s target cell =
    (let p = sm_price (sc_machine cell) in
     cell\<lparr>sc_buyer_locked := value_of c p (sub_funded_tokens s) - value_of c p target,
          sc_seller_received := pay_of p target, sc_fee_accrued := fee_of c p target\<rparr>)"

lemma token_pay_and_fee_funded:
  assumes "consts_ok c" and "books_ok c cell s" and "t \<le> sub_funded_tokens s"
  shows "token_pay_and_fee t (sm_price (sc_machine cell)) c =
    Inr (pay_of (sm_price (sc_machine cell)) t, fee_of c (sm_price (sc_machine cell)) t)"
proof -
  let ?p = "sm_price (sc_machine cell)"
  have "value_of c ?p t \<le> U128_MAX"
    using value_of_mono [OF assms(3), of c ?p] assms(2) by (simp add: books_ok_def Let_def)
  then have "pay_of ?p t \<le> U128_MAX" "fee_of c ?p t \<le> U128_MAX"
    by (simp_all add: value_of_def)
  then show ?thesis using assms(1,2) by (simp add: token_pay_and_fee_eq books_ok_def Let_def)
qed

text \<open>A payment inside the funded volume always goes through, with exactly this result.\<close>

lemma credit_tokens_through_books:
  assumes c: "consts_ok c" and b: "books_ok c cell s"
    and t: "sub_tokens_paid s \<le> target" "target \<le> sub_funded_tokens s"
  shows "credit_tokens_through cell s target c =
    Inr (paid_through c s target cell, s\<lparr>sub_tokens_paid := target\<rparr>)"
proof -
  let ?p = "sm_price (sc_machine cell)" and ?paid = "sub_tokens_paid s"
  have le: "pay_of ?p ?paid \<le> pay_of ?p target" "fee_of c ?p ?paid \<le> fee_of c ?p target"
    using t(1) by (simp_all add: pay_of_mono fee_of_mono)
  have vt: "value_of c ?p target \<le> value_of c ?p (sub_funded_tokens s)"
    using t(2) by (rule value_of_mono)
  have bb: "?p \<le> U64_MAX" "value_of c ?p (sub_funded_tokens s) \<le> U128_MAX"
    "sc_seller_received cell = pay_of ?p ?paid" "sc_fee_accrued cell = fee_of c ?p ?paid"
    "sc_buyer_locked cell = value_of c ?p (sub_funded_tokens s) - value_of c ?p ?paid"
    using b by (simp_all add: books_ok_def Let_def)
  have "move_payment cell (pay_of ?p target - pay_of ?p ?paid) (fee_of c ?p target - fee_of c ?p ?paid)
    = Inr (paid_through c s target cell)"
    using le vt bb unfolding move_payment_iff paid_through_def Let_def value_of_def by auto
  then show ?thesis
    using t le token_pay_and_fee_funded [OF c b] by (simp add: credit_tokens_through_iff)
qed

lemma paid_through_books:
  assumes "books_ok c cell s" and "target \<le> sub_funded_tokens s"
  shows "books_ok c (paid_through c s target cell) (s\<lparr>sub_tokens_paid := target\<rparr>)"
  using assms by (simp add: books_ok_def paid_through_def Let_def)

lemma charge_subscription_through_books:
  assumes c: "consts_ok c" and b: "books_ok c cell s"
    and w: "w * sub_tokens_per_week s \<le> sub_funded_tokens s" "sub_funded_tokens s \<le> U128_MAX"
    and paid: "sub_week_index s < w \<Longrightarrow> sub_tokens_paid s \<le> w * sub_tokens_per_week s"
  shows "charge_subscription_through cell s w c =
    (if w \<le> sub_week_index s then Inr (cell, s, False)
     else Inr (paid_through c s (w * sub_tokens_per_week s) cell,
       s\<lparr>sub_tokens_paid := w * sub_tokens_per_week s, sub_week_index := w,
         sub_week_base_tokens := sc_tokens_pending cell\<rparr>, True))"
  using credit_tokens_through_books [OF c b _ w(1)] paid w
  by (auto simp: charge_subscription_through_def checked_mul_def pending_tokens_def paid_through_def
      Let_def)

end
