(* ===== verification/MockBackend.thy ===== *)
theory MockBackend
  imports MockMoney
begin

unbundle bit_operations_syntax

text \<open>
  The operations of the mock chain, \<open>MockChainBackend\<close> of \<open>src/crates/core/src/market/mock.rs\<close>: the
  sell side of the book, matching, the life of a stream, the subscription orders, and the reads.
  Each operation takes the state it has loaded and returns an error or the state it stores; a
  branch that returns before the store returns the state it loaded. \<open>sha\<close> is the 128-bit prefix of
  SHA-256 of a token contract's name.
\<close>

section \<open>Order ids\<close>

definition mock_current_order_id :: "(token_contract \<Rightarrow> u128) \<Rightarrow> MockState \<Rightarrow> token_contract \<Rightarrow> u128"
  where
  "mock_current_order_id sha st tc =
    wrapping_add U128_MAX (sha tc)
      (case hget (ms_expired_generations st) tc of Some g \<Rightarrow> g | None \<Rightarrow> 0)"

section \<open>Offers\<close>

definition SUPPORTED_FLAGS :: flag_bits where
  "SUPPORTED_FLAGS = IOC OR FOK OR MARKET OR POST_ONLY OR TEE OR AON OR SUBSCRIPTION"

definition TAKER_FLAGS :: flag_bits where
  "TAKER_FLAGS = IOC OR FOK OR MARKET"

definition validate_mock_sell_offer :: "SellOffer \<Rightarrow> ProtocolConsts \<Rightarrow> ChainError + unit" where
  "validate_mock_sell_offer offer consts =
    (let ticks = so_max_ticks offer; price = so_price_per_tick offer; fl = so_flags offer in
     refuse_if (ticks < MIN_STREAM_BUY_TICKS) (BadOffer TooFewTicks)
     (refuse_if (price = 0 \<or> price mod PRICE_STEP \<noteq> 0) (BadOffer PriceNotOnStep)
     (refuse_if (fl AND NOT SUPPORTED_FLAGS \<noteq> 0) (BadOffer UnsupportedFlags)
     (refuse_if (fl AND MARKET \<noteq> 0) (BadOffer MarketSell)
     (refuse_if (fl AND POST_ONLY \<noteq> 0 \<and> fl AND TAKER_FLAGS \<noteq> 0) (BadOffer PostOnlyTaker)
     (refuse_if (fl AND IOC \<noteq> 0 \<and> fl AND FOK \<noteq> 0) (BadOffer IocAndFok)
     (refuse_if (fl AND SUBSCRIPTION \<noteq> 0 \<and> fl AND AON = 0) (BadOffer SubscriptionNeedsAon)
     (refuse_if (fl AND SUBSCRIPTION \<noteq> 0 \<and> (ticks mod SUBSCRIPTION_WEEKS \<noteq> 0
                  \<or> SUBSCRIPTION_MAX_TICKS < ticks)) (BadOffer SubscriptionVolume)
     (ok_or_else (checked_mul U128_MAX ticks TICK_SIZE) (BadOffer OfferOverflow) (\<lambda>funded_tokens.
      bindR (token_pay_and_fee funded_tokens price consts) (\<lambda>(pay, fee_part).
      ok_or_else (checked_add U128_MAX pay fee_part) (BadOffer OfferOverflow)
        (\<lambda>_. Inr ()))))))))))))"

definition listing_of :: "MockState \<Rightarrow> SellOffer \<Rightarrow> OfferListing" where
  "listing_of st o1 =
    \<lparr>ol_seller_id = (case hget (ms_offer_sellers st) (so_token_contract o1) of Some s \<Rightarrow> s | None \<Rightarrow> []),
     ol_token_contract = so_token_contract o1, ol_price_per_tick = so_price_per_tick o1,
     ol_max_ticks = so_max_ticks o1\<rparr>"

definition discover_offers :: "MockState \<Rightarrow> OfferListing list" where
  "discover_offers st = map (\<lambda>(_, o1). listing_of st o1) (ms_offers st)"

definition post_offer ::
  "ProtocolConsts \<Rightarrow> u64 \<Rightarrow> SellOffer \<Rightarrow> NotePubkey \<Rightarrow> MockState \<Rightarrow> ChainError + MockState \<times> unit" where
  "post_offer consts now offer pk st =
    (let tc = so_token_contract offer; seller_id = note_id_hex pk in
     bindR (validate_mock_sell_offer offer consts) (\<lambda>_.
     refuse_if (contains_key (ms_offers st) tc) (Chain DuplicateActiveSell)
     (refuse_if (contains_key (ms_matches st) tc \<or> contains_key (ms_matched_offers st) tc
         \<or> contains_key (ms_matched_ticks st) tc \<or> contains_key (ms_deal_subscriptions st) tc
         \<or> contains_key (ms_streams st) tc) (Chain AlreadyFilled)
     (refuse_if (case hget (ms_offer_sellers st) tc of None \<Rightarrow> False | Some s \<Rightarrow> s \<noteq> seller_id)
        (Chain BoundToOriginalSeller)
     (Inr (st\<lparr>ms_offer_sellers := or_insert tc seller_id (ms_offer_sellers st),
              ms_offer_deadlines := hinsert tc (wrapping_add U64_MAX now MAX_SELL_TTL)
                (ms_offer_deadlines st),
              ms_deal_terms := or_insert tc (so_price_per_tick offer, so_max_ticks offer)
                (ms_deal_terms st),
              ms_offers := hinsert tc offer (ms_offers st)\<rparr>, ()))))))"

definition expire_resting_sell_order ::
  "(token_contract \<Rightarrow> u128) \<Rightarrow> u64 \<Rightarrow> token_contract \<Rightarrow> u128 \<Rightarrow> MockState
    \<Rightarrow> ChainError + MockState \<times> unit" where
  "expire_resting_sell_order sha now tc order_id st =
    (if \<not> contains_key (ms_offers st) tc \<or> mock_current_order_id sha st tc \<noteq> order_id
     then Inr (st, ())
     else if (case hget (ms_offer_deadlines st) tc of None \<Rightarrow> True | Some d \<Rightarrow> now < d)
     then Inr (st, ())
     else Inr (st\<lparr>ms_offers := hremove tc (ms_offers st),
                  ms_expired_generations := hinsert tc
                    (wrapping_add U128_MAX
                      (case hget (ms_expired_generations st) tc of Some g \<Rightarrow> g | None \<Rightarrow> 0) 1)
                    (ms_expired_generations st)\<rparr>, ()))"

definition token_contract_offer_latch :: "MockState \<Rightarrow> token_contract \<Rightarrow> DealOfferLatch option" where
  "token_contract_offer_latch st tc =
    (if \<not> contains_key (ms_deal_terms st) tc \<and> \<not> contains_key (ms_offers st) tc then None
     else Some \<lparr>offer_posted = contains_key (ms_offers st) tc\<rparr>)"

definition confirm_offer_outcome ::
  "(token_contract \<Rightarrow> u128) \<Rightarrow> MockState \<Rightarrow> token_contract \<Rightarrow> SellOfferOutcome option" where
  "confirm_offer_outcome sha st tc =
    (if contains_key (ms_matches st) tc then Some Matched
     else if contains_key (ms_offers st) tc then Some (Rested (mock_current_order_id sha st tc))
     else None)"

definition raw_resting_sell_orders_for_tc ::
  "(token_contract \<Rightarrow> u128) \<Rightarrow> u64 \<Rightarrow> MockState \<Rightarrow> token_contract \<Rightarrow> OrderBookOrder list" where
  "raw_resting_sell_orders_for_tc sha now st tc =
    (case hget (ms_offers st) tc of
       None \<Rightarrow> []
     | Some offer \<Rightarrow>
         [\<lparr>ob_order_id = mock_current_order_id sha st tc,
           ob_owner_note = (case hget (ms_offer_sellers st) tc of Some s \<Rightarrow> ''0:'' @ s | None \<Rightarrow> []),
           ob_token_contract = Some tc, ob_is_buy = False,
           ob_price_per_tick = so_price_per_tick offer, ob_ticks = so_max_ticks offer,
           ob_escrow = 0,
           ob_deadline = (case hget (ms_offer_deadlines st) tc of Some d \<Rightarrow> d
                          | None \<Rightarrow> wrapping_add U64_MAX now MAX_SELL_TTL),
           ob_flags = so_flags offer, ob_timestamp = 0\<rparr>])"

definition cancel_resting_sell_order ::
  "(token_contract \<Rightarrow> u128) \<Rightarrow> token_contract \<Rightarrow> u128 \<Rightarrow> MockState \<Rightarrow> ChainError + MockState \<times> unit"
  where
  "cancel_resting_sell_order sha tc order_id st =
    refuse_if (order_id \<noteq> mock_current_order_id sha st tc \<or> \<not> contains_key (ms_offers st) tc)
      (Chain RestingSellAbsent)
    (Inr (st\<lparr>ms_offers := hremove tc (ms_offers st)\<rparr>, ()))"

definition sell_offer_terms :: "MockState \<Rightarrow> token_contract \<Rightarrow> (u64 \<times> u64) option" where
  "sell_offer_terms st tc =
    (case hget (ms_deal_terms st) tc of
       Some t \<Rightarrow> Some t
     | None \<Rightarrow> map_option (\<lambda>o1. (so_price_per_tick o1, so_max_ticks o1))
         (case hget (ms_offers st) tc of Some o1 \<Rightarrow> Some o1
          | None \<Rightarrow> hget (ms_matched_offers st) tc))"

section \<open>Matching\<close>

definition mock_deal_shape :: "SellOffer \<Rightarrow> u64 \<Rightarrow> u64 \<Rightarrow> ChainError + DealSubscription" where
  "mock_deal_shape offer funded_ticks period_start =
    ok_or_else (checked_mul U128_MAX funded_ticks TICK_SIZE) (Chain ArithmeticOverflow)
      (\<lambda>funded_tokens.
    let deal_flags = so_flags offer AND DEAL_MASK in
    if deal_flags AND SUBSCRIPTION \<noteq> 0 then
      refuse_if (funded_ticks mod SUBSCRIPTION_WEEKS \<noteq> 0) (BadOffer SubscriptionVolume)
      (Inr \<lparr>sub_deal_flags = deal_flags, sub_weeks = SUBSCRIPTION_WEEKS, sub_week_index = 0,
            sub_tokens_per_week = funded_tokens div SUBSCRIPTION_WEEKS,
            sub_funded_tokens = funded_tokens, sub_tokens_paid = 0,
            sub_period_start = period_start, sub_week_base_tokens = 0\<rparr>)
    else
      Inr \<lparr>sub_deal_flags = deal_flags, sub_weeks = 0, sub_week_index = 0,
           sub_tokens_per_week = funded_tokens, sub_funded_tokens = funded_tokens,
           sub_tokens_paid = 0, sub_period_start = period_start, sub_week_base_tokens = 0\<rparr>)"

definition place_buy_ticks_inner ::
  "u64 \<Rightarrow> i64 \<Rightarrow> token_contract \<Rightarrow> NotePubkey \<Rightarrow> u64 option \<Rightarrow> MockState
    \<Rightarrow> ChainError + MockState \<times> unit" where
  "place_buy_ticks_inner now created_at tc pk ticks st =
    refuse_if (contains_key (ms_matches st) tc) (Chain AlreadyMatched)
    (ok_or_else (hget (ms_offers st) tc) (NoMatch tc) (\<lambda>offer.
     let matched_ticks = (case ticks of Some t \<Rightarrow> t | None \<Rightarrow> so_max_ticks offer) in
     refuse_if (matched_ticks < MIN_STREAM_BUY_TICKS \<or> so_max_ticks offer < matched_ticks)
       (Chain BuyTicksOutOfRange)
     (refuse_if (so_flags offer AND AON \<noteq> 0 \<and> matched_ticks \<noteq> so_max_ticks offer)
       (Chain AonNeedsFullVolume)
     (bindR (mock_deal_shape offer matched_ticks now) (\<lambda>s.
      Inr (st\<lparr>ms_offers := hremove tc (ms_offers st),
              ms_matched_offers := hinsert tc offer (ms_matched_offers st),
              ms_matched_ticks := hinsert tc matched_ticks (ms_matched_ticks st),
              ms_deal_subscriptions := hinsert tc s (ms_deal_subscriptions st),
              ms_matches := hinsert tc \<lparr>mt_token_contract = tc, mt_buyer_pubkey = pk,
                mt_price_per_tick = so_price_per_tick offer\<rparr> (ms_matches st),
              ms_match_created_at := hinsert tc created_at (ms_match_created_at st)\<rparr>, ()))))))"

definition place_buy ::
  "u64 \<Rightarrow> i64 \<Rightarrow> token_contract \<Rightarrow> NotePubkey \<Rightarrow> MockState \<Rightarrow> ChainError + MockState \<times> unit" where
  "place_buy now created_at tc pk st = place_buy_ticks_inner now created_at tc pk None st"

definition place_buy_ticks ::
  "u64 \<Rightarrow> i64 \<Rightarrow> token_contract \<Rightarrow> NotePubkey \<Rightarrow> u64 \<Rightarrow> MockState \<Rightarrow> ChainError + MockState \<times> unit"
  where
  "place_buy_ticks now created_at tc pk ticks st =
    place_buy_ticks_inner now created_at tc pk (Some ticks) st"

definition read_match :: "MockState \<Rightarrow> token_contract \<Rightarrow> ChainError + Match" where
  "read_match st tc = ok_or_else (hget (ms_matches st) tc) (NoMatch tc) Inr"

definition read_openable_match_now :: "MockState \<Rightarrow> token_contract \<Rightarrow> ChainError + Match option" where
  "read_openable_match_now st tc =
    refuse_if (contains_key (ms_streams st) tc) (Chain NotOpenable) (Inr (hget (ms_matches st) tc))"

definition unseen_fill ::
  "(token_contract \<Rightarrow> u128) \<Rightarrow> MockState \<Rightarrow> string \<Rightarrow> MatchWatchCursor \<Rightarrow> token_contract
    \<Rightarrow> (i64 \<times> MatchedFill) option" where
  "unseen_fill sha st seller_id cur tc =
    (if hget (ms_offer_sellers st) tc \<noteq> Some seller_id then None
     else case hget (ms_matched_offers st) tc of
       None \<Rightarrow> None
     | Some offer \<Rightarrow>
         (let created_at = (case hget (ms_match_created_at st) tc of Some t \<Rightarrow> t
                            | None \<Rightarrow> cur_since_unix cur) in
          if has_seen cur created_at tc then None
          else Some (created_at,
            \<lparr>mf_order_id = mock_current_order_id sha st tc, mf_token_contract = tc,
             mf_ticks = (case hget (ms_matched_ticks st) tc of Some t \<Rightarrow> t
                         | None \<Rightarrow> so_max_ticks offer),
             mf_price_per_tick = so_price_per_tick offer\<rparr>)))"

definition poll_seller_fills ::
  "(token_contract \<Rightarrow> u128) \<Rightarrow> MockState \<Rightarrow> NotePubkey \<Rightarrow> MatchWatchCursor
    \<Rightarrow> MatchedFill list \<times> MatchWatchCursor" where
  "poll_seller_fills sha st pk cur =
    (let batch = sort_key (\<lambda>e. (fst e, mf_token_contract (snd e)))
                   (List.map_filter (unseen_fill sha st (note_id_hex pk) cur) (hkeys (ms_matches st)))
     in (map snd batch,
         record_seen_batch cur (map (\<lambda>e. (fst e, mf_token_contract (snd e))) batch)))"

section \<open>Actors\<close>

definition require_mock_seller_actor ::
  "MockState \<Rightarrow> token_contract \<Rightarrow> NotePubkey \<Rightarrow> (unit \<Rightarrow> ChainError + 'a) \<Rightarrow> ChainError + 'a" where
  "require_mock_seller_actor st tc pk k =
    ok_or_else (hget (ms_offer_sellers st) tc) (Chain NoSellerActor) (\<lambda>expected.
    refuse_if (note_id_hex pk \<noteq> expected) (Chain WrongSellerNote) (k ()))"

definition require_mock_buyer_actor ::
  "MockState \<Rightarrow> token_contract \<Rightarrow> NotePubkey \<Rightarrow> (unit \<Rightarrow> ChainError + 'a) \<Rightarrow> ChainError + 'a" where
  "require_mock_buyer_actor st tc pk k =
    ok_or_else (hget (ms_streams st) tc) (NoStream tc) (\<lambda>cell.
    refuse_if (note_id_hex pk \<noteq> note_id_hex (sc_buyer_pubkey cell)) (Chain WrongBuyerNote) (k ()))"

definition require_mock_buyer_note_addr ::
  "MockState \<Rightarrow> token_contract \<Rightarrow> string \<Rightarrow> (unit \<Rightarrow> ChainError + 'a) \<Rightarrow> ChainError + 'a" where
  "require_mock_buyer_note_addr st tc addr k =
    ok_or_else (hget (ms_streams st) tc) (NoStream tc) (\<lambda>cell.
    refuse_if (to_ascii_lowercase (trim addr) \<noteq> ''mock:'' @ note_id_hex (sc_buyer_pubkey cell))
      (Chain WrongBuyerNote) (k ()))"

text \<open>The cell and the shape of one deal, taken out together and put back updated.\<close>

definition with_deal ::
  "token_contract \<Rightarrow> MockState
    \<Rightarrow> (StreamCell \<Rightarrow> DealSubscription \<Rightarrow> ChainError + StreamCell \<times> DealSubscription \<times> 'r)
    \<Rightarrow> ChainError + MockState \<times> 'r" where
  "with_deal tc st f =
    ok_or_else (hget (ms_streams st) tc) (NoStream tc) (\<lambda>cell.
    ok_or_else (hget (ms_deal_subscriptions st) tc) (Chain NoDealShape) (\<lambda>s.
    bindR (f cell s) (\<lambda>(cell', s', r).
    Inr (st\<lparr>ms_streams := hinsert tc cell' (ms_streams st),
            ms_deal_subscriptions := hinsert tc s' (ms_deal_subscriptions st)\<rparr>, r))))"

section \<open>The life of a stream\<close>

definition opened_cell ::
  "DobParams \<Rightarrow> u64 \<Rightarrow> Match \<Rightarrow> u64 \<Rightarrow> DealSubscription \<Rightarrow> u128 \<Rightarrow> StreamCell" where
  "opened_cell params opened_at m max_ticks s buyer_locked =
    \<lparr>sc_schema_version = STREAM_CELL_SCHEMA_VERSION,
     sc_machine = open_machine (mt_price_per_tick m) params, sc_probe_accepted = False,
     sc_buyer_pubkey = mt_buyer_pubkey m, sc_seller_locked = 2 * mt_price_per_tick m,
     sc_buyer_locked = buyer_locked, sc_probe_locked = mt_price_per_tick m,
     sc_probe_time = opened_at,
     sc_buyer_bond = (if is_subscription s then 2 * mt_price_per_tick m else 0),
     sc_fee_accrued = 0, sc_tokens_final = 0, sc_tokens_pending = 0,
     sc_last_claim_time = opened_at, sc_seller_received = 0, sc_buyer_refunded = 0,
     sc_burned = 0, sc_closed = False, sc_max_ticks = max_ticks, sc_disputed = False,
     sc_dispute_time = 0, sc_buyer_stop_settlement = None\<rparr>"

definition open_stream ::
  "ProtocolConsts \<Rightarrow> DobParams \<Rightarrow> u64 \<Rightarrow> token_contract \<Rightarrow> NotePubkey \<Rightarrow> MockState
    \<Rightarrow> ChainError + MockState \<times> unit" where
  "open_stream consts params opened_at tc pk st =
    require_mock_seller_actor st tc pk (\<lambda>_.
    refuse_if (contains_key (ms_streams st) tc) (Chain StreamExists)
    (ok_or_else (hget (ms_matches st) tc) (NoMatch tc) (\<lambda>m.
     let max_ticks = (case hget (ms_matched_ticks st) tc of Some t \<Rightarrow> t
                      | None \<Rightarrow> (case filled_offer st tc of Some o1 \<Rightarrow> so_max_ticks o1
                                | None \<Rightarrow> U64_MAX)) in
     ok_or_else (hget (ms_deal_subscriptions st) tc) (Chain NoDealShape) (\<lambda>s.
     bindR (token_pay_and_fee (sub_funded_tokens s) (mt_price_per_tick m) consts)
       (\<lambda>(pay, fee_part).
     ok_or_else (checked_add U128_MAX pay fee_part) (Chain ArithmeticOverflow) (\<lambda>gross_deposit.
     ok_or_else (checked_sub gross_deposit (mt_price_per_tick m)) (Chain ProbeNotCovered)
       (\<lambda>buyer_locked.
     Inr (st\<lparr>ms_streams := hinsert tc (opened_cell params opened_at m max_ticks s buyer_locked)
                           (ms_streams st)\<rparr>, ()))))))))"

text \<open>
  Opening writes two files: the state first, then the endpoint's ciphertext. An error of the second
  leaves the first written.
\<close>

definition open_stream_io ::
  "(8 word list \<Rightarrow> MockState option) \<Rightarrow> (MockState \<Rightarrow> 8 word list)
    \<Rightarrow> (8 word list \<Rightarrow> endpoints_file option) \<Rightarrow> (endpoints_file \<Rightarrow> 8 word list)
    \<Rightarrow> ProtocolConsts \<Rightarrow> DobParams \<Rightarrow> u64 \<Rightarrow> u64 \<Rightarrow> token_contract \<Rightarrow> NotePubkey \<Rightarrow> 8 word list
    \<Rightarrow> disk_file \<times> disk_file \<Rightarrow> (disk_file \<times> disk_file) \<times> (ChainError + unit)" where
  "open_stream_io dec_state enc_state dec_ep enc_ep consts params now opened_at tc pk enc_endpoint
     disks =
    (case disks of (state_disk, endpoints_disk) \<Rightarrow>
     case transact dec_state enc_state now (open_stream consts params opened_at tc pk) state_disk of
       Inl e \<Rightarrow> (disks, Inl e)
     | Inr (state_disk', _) \<Rightarrow>
         (case read_endpoints dec_ep endpoints_disk of
            Inl e \<Rightarrow> ((state_disk', endpoints_disk), Inl e)
          | Inr ef \<Rightarrow> ((state_disk', write_endpoints enc_ep (hinsert tc enc_endpoint ef)), Inr ())))"

definition promote_machine :: "StreamCell \<Rightarrow> ChainError + StreamCell" where
  "promote_machine cell =
    (if sc_tokens_final cell = sc_tokens_pending cell
     then bindR (map_err (\<lambda>_. EndpointsFile MachineRefused) (on_promote (sc_machine cell)))
            (\<lambda>m. Inr (cell\<lparr>sc_machine := m\<rparr>))
     else Inr cell)"

definition finalize_deal ::
  "ProtocolConsts \<Rightarrow> u64 \<Rightarrow> StreamCell \<Rightarrow> DealSubscription
    \<Rightarrow> ChainError + StreamCell \<times> DealSubscription \<times> unit" where
  "finalize_deal consts now cell0 s0 =
    refuse_if (sc_closed cell0 \<or> sc_disputed cell0 \<or> \<not> sc_probe_accepted cell0)
      (Chain NotOpenAccepted)
    (bindR (has_due_claim cell0 now consts) (\<lambda>due.
     refuse_if (\<not> due) (Chain NoDueClaim)
     (bindR (promote_due cell0 now consts) (\<lambda>cell1.
      bindR (promote_machine cell1) (\<lambda>cell2.
      if \<not> is_subscription s0 \<and> sub_funded_tokens s0 \<le> sc_tokens_final cell2 then
        bindR (credit_tokens_through cell2 s0 (sc_tokens_final cell2) consts) (\<lambda>(cell3, s1).
        bindR (delivered_ticks cell3) (\<lambda>delivered.
        bindR (close_mock_clean cell3 delivered consts) (\<lambda>(cell4, _).
        Inr (cell4, s1, ()))))
      else Inr (cell2, s0, ()))))))"

definition finalize ::
  "ProtocolConsts \<Rightarrow> u64 \<Rightarrow> token_contract \<Rightarrow> MockState \<Rightarrow> ChainError + MockState \<times> unit" where
  "finalize consts now tc st = with_deal tc st (finalize_deal consts now)"

definition accept_probe_deal ::
  "ProtocolConsts \<Rightarrow> u64 \<Rightarrow> StreamCell \<Rightarrow> DealSubscription
    \<Rightarrow> ChainError + StreamCell \<times> DealSubscription \<times> unit" where
  "accept_probe_deal consts now cell s =
    refuse_if (sc_closed cell \<or> sc_disputed cell \<or> sc_probe_accepted cell) (Chain NotOpenProbe)
    (ok_or_else (checked_add U64_MAX (sc_probe_time cell) (probe_window consts))
       (Chain ArithmeticOverflow) (\<lambda>deadline.
     refuse_if (now < deadline) (Chain ProbeWindowOpen)
     (bindR (map_err (\<lambda>_. EndpointsFile MachineRefused) (on_probe_accepted (sc_machine cell)))
       (\<lambda>m.
      bindR (token_pay_and_fee TICK_SIZE (sm_price m) consts) (\<lambda>(_, fee_part).
      refuse_if (sc_buyer_locked cell < fee_part) (Chain ProbeFeeNotCovered)
      (ok_or_else (checked_add U128_MAX (sc_seller_received cell) (sc_probe_locked cell))
         (Chain ArithmeticOverflow) (\<lambda>received.
       ok_or_else (checked_add U128_MAX (sc_fee_accrued cell) fee_part)
         (Chain ArithmeticOverflow) (\<lambda>accrued.
       Inr (cell\<lparr>sc_machine := m, sc_probe_accepted := True,
                 sc_buyer_locked := sc_buyer_locked cell - fee_part, sc_probe_locked := 0,
                 sc_seller_received := received, sc_fee_accrued := accrued,
                 sc_tokens_final := TICK_SIZE, sc_tokens_pending := TICK_SIZE,
                 sc_last_claim_time := now\<rparr>,
            s\<lparr>sub_tokens_paid := TICK_SIZE, sub_period_start := now, sub_week_base_tokens := 0\<rparr>,
            ())))))))))"

definition accept_probe ::
  "ProtocolConsts \<Rightarrow> u64 \<Rightarrow> token_contract \<Rightarrow> MockState \<Rightarrow> ChainError + MockState \<times> unit" where
  "accept_probe consts now tc st = with_deal tc st (accept_probe_deal consts now)"

definition check_claim_cap :: "StreamCell \<Rightarrow> DealSubscription \<Rightarrow> u128 \<Rightarrow> ChainError + unit" where
  "check_claim_cap cell s cumulative_tokens =
    ok_or_else (checked_mul U128_MAX (sc_max_ticks cell) TICK_SIZE) (Chain ArithmeticOverflow)
      (\<lambda>max_tokens.
    refuse_if (max_tokens < cumulative_tokens) (Limit OverMaxTokens)
    (if is_subscription s then
       (if sub_weeks s \<le> sub_week_index s
        then refuse_if (sc_tokens_pending cell < cumulative_tokens) (Limit OverWeeklyCap) (Inr ())
        else ok_or_else (checked_add U128_MAX (sub_week_base_tokens s) (sub_tokens_per_week s))
               (Chain ArithmeticOverflow) (\<lambda>cap.
             refuse_if (min cap (sub_funded_tokens s) < cumulative_tokens) (Limit OverWeeklyCap)
               (Inr ())))
     else Inr ()))"

definition check_claim_rate ::
  "ProtocolConsts \<Rightarrow> u64 \<Rightarrow> StreamCell \<Rightarrow> u128 \<Rightarrow> ChainError + unit" where
  "check_claim_rate consts claim_time cell cumulative_tokens =
    ok_or_else (checked_sub claim_time (sc_last_claim_time cell)) (Chain ClockRegresses) (\<lambda>elapsed.
    refuse_if (elapsed < min_claim_interval consts) (Chain ClaimIntervalOpen)
    (let delta = cumulative_tokens - sc_tokens_pending cell in
     refuse_if (MAX_CLAIM_DELTA < delta) (Limit OverClaimDelta)
     (ok_or_else (checked_mul U128_MAX delta (min_seconds_per_tick consts))
        (Chain ArithmeticOverflow) (\<lambda>produced_time.
      ok_or_else (checked_mul U128_MAX elapsed TICK_SIZE) (Chain ArithmeticOverflow)
        (\<lambda>allowed_time.
      refuse_if (allowed_time < produced_time) (Limit OverPhysicalRate) (Inr ()))))))"

definition claim_tokens_deal ::
  "ProtocolConsts \<Rightarrow> u64 \<Rightarrow> u64 \<Rightarrow> u128 \<Rightarrow> StreamCell \<Rightarrow> DealSubscription
    \<Rightarrow> ChainError + StreamCell \<times> DealSubscription \<times> unit" where
  "claim_tokens_deal consts now claim_time cumulative_tokens cell0 s0 =
    refuse_if (sc_closed cell0 \<or> sc_disputed cell0 \<or> \<not> sc_probe_accepted cell0)
      (Chain NotOpenAccepted)
    (refuse_if (on_probe (sc_machine cell0)) (Chain LifecycleDisagrees)
    (refuse_if (cumulative_tokens < sc_tokens_pending cell0) (Chain ClaimRegresses)
    (if cumulative_tokens = sc_tokens_pending cell0 then Inr (cell0, s0, ())
     else
       bindR (if is_subscription s0 then charge_elapsed_subscription_weeks cell0 s0 now consts
              else Inr (cell0, s0, False)) (\<lambda>(cell1, s1, _).
       bindR (check_claim_cap cell1 s1 cumulative_tokens) (\<lambda>_.
       bindR (check_claim_rate consts claim_time cell1 cumulative_tokens) (\<lambda>_.
       bindR (promote_due cell1 claim_time consts) (\<lambda>cell2.
       refuse_if (sc_tokens_pending cell2 \<noteq> sc_tokens_final cell2) (Chain PromotionWindowOpen)
       (ok_or_else (try_from U64_MAX (div_ceil cumulative_tokens TICK_SIZE))
          (Chain ArithmeticOverflow) (\<lambda>machine_ticks.
        bindR (map_err (\<lambda>_. EndpointsFile MachineRefused)
                 (on_claim (sc_machine cell2) machine_ticks)) (\<lambda>m.
        Inr (cell2\<lparr>sc_machine := m, sc_tokens_pending := cumulative_tokens,
                   sc_last_claim_time := claim_time\<rparr>, s1, ())))))))))))"

definition claim_tokens ::
  "ProtocolConsts \<Rightarrow> u64 \<Rightarrow> u64 \<Rightarrow> token_contract \<Rightarrow> NotePubkey \<Rightarrow> u128 \<Rightarrow> MockState
    \<Rightarrow> ChainError + MockState \<times> unit" where
  "claim_tokens consts now claim_time tc pk cumulative_tokens st =
    require_mock_seller_actor st tc pk (\<lambda>_.
    with_deal tc st (claim_tokens_deal consts now claim_time cumulative_tokens))"

definition settle_week_deal ::
  "ProtocolConsts \<Rightarrow> u64 \<Rightarrow> StreamCell \<Rightarrow> DealSubscription
    \<Rightarrow> ChainError + StreamCell \<times> DealSubscription \<times> unit" where
  "settle_week_deal consts now cell0 s0 =
    refuse_if (\<not> is_subscription s0) (Chain OrdinaryDeal)
    (bindR (charge_elapsed_subscription_weeks cell0 s0 now consts) (\<lambda>(cell1, s1, crossed).
     refuse_if (\<not> crossed \<and> sub_week_index s1 < sub_weeks s1) (Chain NoCrossedWeek)
     (bindR (if sub_weeks s1 \<le> sub_week_index s1
             then claim_deadline_reached (sc_last_claim_time cell1) (claim_promote_window consts) now
             else Inr False) (\<lambda>ended.
      if ended then
        bindR (promote_due cell1 now consts) (\<lambda>cell2.
        bindR (promote_machine cell2) (\<lambda>cell3.
        bindR (if sub_tokens_paid s1 < sc_tokens_final cell3
               then credit_tokens_through cell3 s1 (sc_tokens_final cell3) consts
               else Inr (cell3, s1)) (\<lambda>(cell4, s2).
        bindR (delivered_ticks cell4) (\<lambda>delivered.
        bindR (close_mock_clean cell4 delivered consts) (\<lambda>(cell5, _).
        Inr (cell5, s2, ()))))))
      else Inr (cell1, s1, ())))))"

definition settle_week ::
  "ProtocolConsts \<Rightarrow> u64 \<Rightarrow> token_contract \<Rightarrow> MockState \<Rightarrow> ChainError + MockState \<times> unit" where
  "settle_week consts now tc st = with_deal tc st (settle_week_deal consts now)"

definition stop_mock_stream ::
  "ProtocolConsts \<Rightarrow> u64 \<Rightarrow> u64 \<Rightarrow> token_contract \<Rightarrow> MockState \<Rightarrow> ChainError + MockState \<times> Settlement"
  where
  "stop_mock_stream consts now1 now2 tc st =
    with_deal tc st (\<lambda>cell s. stop_mock_deal cell s now1 now2 consts)"

definition stop ::
  "ProtocolConsts \<Rightarrow> u64 \<Rightarrow> u64 \<Rightarrow> token_contract \<Rightarrow> NotePubkey \<Rightarrow> MockState
    \<Rightarrow> ChainError + MockState \<times> Settlement" where
  "stop consts now1 now2 tc pk st =
    require_mock_buyer_actor st tc pk (\<lambda>_. stop_mock_stream consts now1 now2 tc st)"

definition stop_by_buyer_note_addr ::
  "ProtocolConsts \<Rightarrow> u64 \<Rightarrow> u64 \<Rightarrow> token_contract \<Rightarrow> string \<Rightarrow> MockState
    \<Rightarrow> ChainError + MockState \<times> Settlement" where
  "stop_by_buyer_note_addr consts now1 now2 tc addr st =
    require_mock_buyer_note_addr st tc addr (\<lambda>_. stop_mock_stream consts now1 now2 tc st)"

end
