(* ===== verification/MockTerminal.thy ===== *)
theory MockTerminal
  imports MockBackend
begin

text \<open>
  The rest of \<open>MockChainBackend\<close> (\<open>src/crates/core/src/market/mock.rs\<close>): disputes, the seller's stop,
  the clean-up of a deal that was never opened, the resting subscription orders, and the reads of a
  deal and of a note.
\<close>

section \<open>Disputes\<close>

definition dispute_receipt ::
  "u64 \<Rightarrow> token_contract \<Rightarrow> bool \<Rightarrow> StreamCell \<Rightarrow> u128 \<Rightarrow> SettlementActionReceipt" where
  "dispute_receipt at tc subscription cell bond_required =
    (let buyer_bond_required = (if subscription then bond_required else 0) in
     \<lparr>sar_token_contract = tc, sar_action = Dispute,
      sar_message_id = ''mock:'' @ tc @ '':dispute:'' @ show_nat at, sar_created_at = at,
      sar_event = StreamDisputed (''mock:'' @ note_id_hex (sc_buyer_pubkey cell)) at,
      sar_pre_bonds = \<lparr>bs_seller_bond_held = sc_seller_locked cell,
        bs_seller_bond_required = bond_required, bs_buyer_bond_held = sc_buyer_bond cell,
        bs_buyer_bond_required = buyer_bond_required\<rparr>,
      sar_post_state = Some \<lparr>ps_tokens_final = sc_tokens_final cell,
        ps_tokens_pending = sc_tokens_pending cell, ps_seller_bond_held = sc_seller_locked cell,
        ps_seller_bond_required = bond_required, ps_buyer_bond_held = sc_buyer_bond cell,
        ps_buyer_bond_required = buyer_bond_required, ps_opened = True, ps_disputed = True\<rparr>\<rparr>)"

definition dispute_deal ::
  "u64 \<Rightarrow> token_contract \<Rightarrow> StreamCell \<Rightarrow> DealSubscription
    \<Rightarrow> ChainError + StreamCell \<times> DealSubscription \<times> Settlement" where
  "dispute_deal at tc cell s =
    refuse_if (sc_closed cell \<or> sc_disputed cell) (Chain NotUndisputedOpen)
    (ok_or_else (checked_mul U128_MAX (sm_price (sc_machine cell)) 2) (Chain ArithmeticOverflow)
       (\<lambda>bond_required.
     Inr (cell\<lparr>sc_machine := buyer_dispute (sc_machine cell), sc_disputed := True,
               sc_dispute_time := at\<rparr>, s,
          AuthoritativeReceipt (dispute_receipt at tc (is_subscription s) cell bond_required))))"

definition dispute ::
  "u64 \<Rightarrow> token_contract \<Rightarrow> NotePubkey \<Rightarrow> MockState \<Rightarrow> ChainError + MockState \<times> Settlement" where
  "dispute at tc pk st =
    require_mock_buyer_actor st tc pk (\<lambda>_.
    ok_or_else (hget (ms_deal_subscriptions st) tc) (Chain NoDealShape) (\<lambda>_.
    with_deal tc st (dispute_deal at tc)))"

definition resolve_deal ::
  "ProtocolConsts \<Rightarrow> bool \<Rightarrow> StreamCell \<Rightarrow> DealSubscription
    \<Rightarrow> ChainError + StreamCell \<times> DealSubscription \<times> Settlement" where
  "resolve_deal consts timed_out cell s =
    bindR (resolve_mock_dispute cell s consts timed_out) (\<lambda>(cell', s', to_buyer, seller_bond).
    Inr (cell', s', SellerNoShow to_buyer seller_bond))"

definition release_dispute ::
  "ProtocolConsts \<Rightarrow> token_contract \<Rightarrow> MockState \<Rightarrow> ChainError + MockState \<times> Settlement" where
  "release_dispute consts tc st = with_deal tc st (resolve_deal consts False)"

definition resolve_dispute_timeout ::
  "ProtocolConsts \<Rightarrow> u64 \<Rightarrow> token_contract \<Rightarrow> MockState \<Rightarrow> ChainError + MockState \<times> Settlement" where
  "resolve_dispute_timeout consts now tc st =
    ok_or_else (hget (ms_streams st) tc) (NoStream tc) (\<lambda>cell.
    refuse_if (\<not> sc_disputed cell \<or> sc_dispute_time cell = 0) (Chain NotInDispute)
    (ok_or_else (checked_add U64_MAX (sc_dispute_time cell) (dispute_window consts))
       (Chain ArithmeticOverflow) (\<lambda>deadline.
     refuse_if (now < deadline) (Chain DisputeWindowOpen)
       (with_deal tc st (resolve_deal consts True)))))"

section \<open>The seller's stop and the clean-up\<close>

definition seller_stop_probe ::
  "StreamCell \<Rightarrow> ChainError + StreamCell \<times> Settlement" where
  "seller_stop_probe cell =
    (let seller_burn = min (sm_price (sc_machine cell)) (sc_seller_locked cell) in
     ok_or_else (checked_add U128_MAX (sc_buyer_locked cell) (sc_probe_locked cell))
       (Chain ArithmeticOverflow) (\<lambda>part.
     ok_or_else (checked_add U128_MAX part (sc_buyer_bond cell))
       (Chain ArithmeticOverflow) (\<lambda>refund.
     ok_or_else (checked_add U128_MAX (sc_burned cell) seller_burn)
       (Chain ArithmeticOverflow) (\<lambda>burned.
     ok_or_else (checked_add U128_MAX (sc_buyer_refunded cell) refund)
       (Chain ArithmeticOverflow) (\<lambda>refunded.
     ok_or_else (checked_add U128_MAX (sc_seller_received cell)
                   (sc_seller_locked cell - seller_burn))
       (Chain ArithmeticOverflow) (\<lambda>received.
     Inr (drain (cell\<lparr>sc_burned := burned, sc_buyer_refunded := refunded,
                      sc_seller_received := received\<rparr>) (close_machine (sc_machine cell)),
          AmicableSplit 0 refund)))))))"

definition seller_stop_accepted ::
  "ProtocolConsts \<Rightarrow> u64 \<Rightarrow> u64 \<Rightarrow> StreamCell \<Rightarrow> DealSubscription
    \<Rightarrow> ChainError + StreamCell \<times> DealSubscription \<times> Settlement" where
  "seller_stop_accepted consts now1 now2 cell0 s0 =
    bindR (promote_due cell0 now1 consts) (\<lambda>cell1.
    bindR (if is_subscription s0
           then bindR (subscription_weeks_at s0 now2 False) (\<lambda>elapsed.
                charge_subscription_through cell1 s0 elapsed consts)
           else Inr (cell1, s0, False)) (\<lambda>(cell2, s1, _).
    bindR (if \<not> is_subscription s1 \<and> sub_tokens_paid s1 < sc_tokens_final cell2
           then credit_tokens_through cell2 s1 (sc_tokens_final cell2) consts
           else Inr (cell2, s1)) (\<lambda>(cell3, s2).
    bindR (delivered_ticks cell3) (\<lambda>delivered.
    ok_or_else (map_option snd (seller_stop_machine (sc_machine cell3))) (Chain MachinePanic) (\<lambda>m.
    bindR (close_mock_clean (cell3\<lparr>sc_machine := m\<rparr>) delivered consts) (\<lambda>(cell4, refund).
    bindR (mock_finalized_ticks (sub_tokens_paid s2)) (\<lambda>paid_ticks.
    Inr (cell4, s2, AmicableSplit paid_ticks refund))))))))"

definition seller_stop_deal ::
  "ProtocolConsts \<Rightarrow> u64 \<Rightarrow> u64 \<Rightarrow> StreamCell \<Rightarrow> DealSubscription
    \<Rightarrow> ChainError + StreamCell \<times> DealSubscription \<times> Settlement" where
  "seller_stop_deal consts now1 now2 cell s =
    refuse_if (sc_closed cell) (Chain AlreadyClosed)
    (refuse_if (sc_disputed cell) (Chain IsDisputed)
    (if \<not> sc_probe_accepted cell
     then bindR (seller_stop_probe cell) (\<lambda>(cell', settlement). Inr (cell', s, settlement))
     else seller_stop_accepted consts now1 now2 cell s))"

definition seller_stop ::
  "ProtocolConsts \<Rightarrow> u64 \<Rightarrow> u64 \<Rightarrow> token_contract \<Rightarrow> MockState \<Rightarrow> ChainError + MockState \<times> Settlement"
  where
  "seller_stop consts now1 now2 tc st = with_deal tc st (seller_stop_deal consts now1 now2)"

section \<open>Reads of a deal\<close>

definition mock_deal_state ::
  "MockState \<Rightarrow> token_contract \<Rightarrow> ProtocolConsts \<Rightarrow> ChainError + DealChainState option" where
  "mock_deal_state st tc consts =
    bindR (if contains_key (ms_matches st) tc
           then bindR (mock_funded_time st tc) (\<lambda>t. Inr (Some t)) else Inr None) (\<lambda>funded_time.
    case hget (ms_streams st) tc of
      Some cell \<Rightarrow>
        ok_or_else funded_time (EndpointsFile StreamWithoutMatch) (\<lambda>t.
        Inr (Some \<lparr>dcs_funded = True, dcs_opened = (\<not> sc_closed cell),
          dcs_probe_accepted = sc_probe_accepted cell, dcs_disputed = sc_disputed cell,
          dcs_deposit = (if sc_closed cell then 0 else sc_buyer_locked cell),
          dcs_finalized_owed = sc_seller_received cell, dcs_tokens_final = sc_tokens_final cell,
          dcs_tokens_pending = sc_tokens_pending cell, dcs_probe_tick = sc_probe_locked cell,
          dcs_funded_time = Some t, dcs_probe_time = sc_probe_time cell,
          dcs_last_claim_time = sc_last_claim_time cell, dcs_dispute_time = sc_dispute_time cell\<rparr>))
    | None \<Rightarrow>
        (case funded_time of
           None \<Rightarrow> Inr None
         | Some t \<Rightarrow>
             ok_or_else (hget (ms_deal_subscriptions st) tc) (EndpointsFile MatchWithoutShape) (\<lambda>s.
             ok_or_else (hget (ms_matches st) tc) (EndpointsFile NoPersistedMatch) (\<lambda>matched.
             bindR (token_pay_and_fee (sub_funded_tokens s) (mt_price_per_tick matched) consts)
               (\<lambda>(pay, fee_part).
             ok_or_else (checked_add U128_MAX pay fee_part) (Chain ArithmeticOverflow) (\<lambda>deposit.
             Inr (Some \<lparr>dcs_funded = True, dcs_opened = False, dcs_probe_accepted = False,
               dcs_disputed = False, dcs_deposit = deposit, dcs_finalized_owed = 0,
               dcs_tokens_final = 0, dcs_tokens_pending = 0, dcs_probe_tick = 0,
               dcs_funded_time = Some t, dcs_probe_time = 0, dcs_last_claim_time = t,
               dcs_dispute_time = 0\<rparr>)))))))"

definition mock_deal_subscription ::
  "MockState \<Rightarrow> token_contract \<Rightarrow> ChainError + DealSubscription option" where
  "mock_deal_subscription st tc =
    (case hget (ms_deal_subscriptions st) tc of
       Some s \<Rightarrow> Inr (Some s)
     | None \<Rightarrow>
         (case filled_offer st tc of
            None \<Rightarrow> Inr None
          | Some offer \<Rightarrow>
              bindR (mock_deal_shape offer (case hget (ms_matched_ticks st) tc of Some t \<Rightarrow> t
                                            | None \<Rightarrow> so_max_ticks offer) 0)
                (\<lambda>s. Inr (Some s))))"

definition deal_snapshot ::
  "ProtocolConsts \<Rightarrow> MockState \<Rightarrow> token_contract \<Rightarrow> ChainError + DealChainSnapshot option" where
  "deal_snapshot consts st tc =
    bindR (mock_deal_state st tc consts) (\<lambda>state.
    case state of
      None \<Rightarrow> Inr None
    | Some state \<Rightarrow>
        bindR (mock_deal_subscription st tc) (\<lambda>sub.
        ok_or_else sub (Chain NoDealShape) (\<lambda>s.
        ok_or_else (hget (ms_matched_offers st) tc) (Chain NoConsumedOffer) (\<lambda>offer.
        ok_or_else (checked_mul U128_MAX (so_price_per_tick offer) 2) (Chain ArithmeticOverflow)
          (\<lambda>bond_required.
        let seller_held = (case hget (ms_streams st) tc of Some c \<Rightarrow> sc_seller_locked c
                           | None \<Rightarrow> bond_required);
            sub_required = (if is_subscription s then bond_required else 0);
            sub_held = (case hget (ms_streams st) tc of Some c \<Rightarrow> sc_buyer_bond c
                        | None \<Rightarrow> sub_required);
            snap = \<lparr>snap_account_code_hash = ''mock-token-contract'',
                    snap_account_boc_hash = ''mock:'' @ tc, snap_state = state,
                    snap_subscription = s,
                    snap_seller_bond = \<lparr>sb_bond_funded = True, sb_bond_held = seller_held,
                      sb_bond_required = bond_required\<rparr>,
                    snap_buyer_bond = \<lparr>bb_bond_held = sub_held, bb_bond_required = sub_required\<rparr>\<rparr>
        in bindR (map_err (\<lambda>_. EndpointsFile CrossGetter) (validate_cross_getter_invariants snap))
             (\<lambda>_. Inr (Some snap)))))))"

definition buyer_stop_settlement :: "MockState \<Rightarrow> token_contract \<Rightarrow> (u128 \<times> u128) option" where
  "buyer_stop_settlement st tc =
    (case hget (ms_streams st) tc of None \<Rightarrow> None | Some c \<Rightarrow> sc_buyer_stop_settlement c)"

definition cleanup_unopened ::
  "ProtocolConsts \<Rightarrow> u64 \<Rightarrow> token_contract \<Rightarrow> MockState \<Rightarrow> ChainError + MockState \<times> Settlement" where
  "cleanup_unopened consts now tc st =
    refuse_if (contains_key (ms_streams st) tc) (Chain AlreadyOpened)
    (refuse_if (\<not> contains_key (ms_matches st) tc) (NoMatch tc)
    (bindR (mock_deal_state st tc consts) (\<lambda>state_opt.
     ok_or_else state_opt (NoMatch tc) (\<lambda>state.
     ok_or_else (dcs_funded_time state) (EndpointsFile NoFundedTime) (\<lambda>funded_time.
     ok_or_else (checked_add U64_MAX funded_time MATCH_OPEN_TIMEOUT_SECS)
       (Chain ArithmeticOverflow) (\<lambda>cleanup_at.
     refuse_if (now < cleanup_at) (Chain MatchTimeoutOpen)
     (ok_or_else (hget (ms_deal_subscriptions st) tc) (EndpointsFile MatchWithoutShape) (\<lambda>s.
      ok_or_else (hget (ms_matches st) tc) (EndpointsFile NoPersistedMatch) (\<lambda>matched.
      ok_or_else (checked_mul U128_MAX (mt_price_per_tick matched) 2) (Chain ArithmeticOverflow)
        (\<lambda>seller_bond.
      ok_or_else (checked_add U128_MAX (dcs_deposit state)
                    (if is_subscription s then seller_bond else 0)) (Chain ArithmeticOverflow)
        (\<lambda>buyer_refund.
      Inr (st\<lparr>ms_matches := hremove tc (ms_matches st),
              ms_match_created_at := hremove tc (ms_match_created_at st),
              ms_matched_offers := hremove tc (ms_matched_offers st),
              ms_matched_ticks := hremove tc (ms_matched_ticks st),
              ms_deal_subscriptions := hremove tc (ms_deal_subscriptions st)\<rparr>,
           SellerNoShow buyer_refund seller_bond))))))))))))"

section \<open>Subscription orders\<close>

definition owner_addr :: "NotePubkey \<Rightarrow> string" where
  "owner_addr pk = ''0:'' @ note_id_hex pk"

definition place_subscription_order ::
  "u64 \<Rightarrow> string \<Rightarrow> NotePubkey \<Rightarrow> u128 \<Rightarrow> u128 \<Rightarrow> u128 \<Rightarrow> flag_bits \<Rightarrow> u64 \<Rightarrow> MockState
    \<Rightarrow> ChainError + MockState \<times> OrderBookOrder" where
  "place_subscription_order now order_book pk max_price ticks escrow fl deadline st =
    refuse_if (fl \<noteq> AON OR SUBSCRIPTION \<or> fl AND MARKET \<noteq> 0) (Chain NotASubscriptionOrder)
    (bindR (map_err (\<lambda>_. Chain ReserveMismatch)
              (check_subscription_buy_reserve escrow ticks max_price)) (\<lambda>_.
     let order_id = max (ms_next_subscription_order_id st) 1 in
     ok_or_else (checked_add U128_MAX order_id 1) (Chain ArithmeticOverflow) (\<lambda>next_id.
     let order = \<lparr>ob_order_id = order_id, ob_owner_note = owner_addr pk, ob_token_contract = None,
                  ob_is_buy = True, ob_price_per_tick = max_price, ob_ticks = ticks,
                  ob_escrow = escrow, ob_deadline = deadline, ob_flags = fl, ob_timestamp = now\<rparr> in
     refuse_if (contains_key (ms_subscription_orders st) order_id) (Chain OrderIdExists)
     (Inr (st\<lparr>ms_next_subscription_order_id := next_id,
              ms_subscription_orders := hinsert order_id order (ms_subscription_orders st),
              ms_subscription_order_books := hinsert order_id order_book
                (ms_subscription_order_books st)\<rparr>, order)))))"

definition remove_subscription_order_from_book ::
  "u128 \<Rightarrow> MockSubscriptionExit \<Rightarrow> u128 \<Rightarrow> MockState \<Rightarrow> MockState" where
  "remove_subscription_order_from_book order_id reason refunded st =
    (case hget (ms_subscription_orders st) order_id of
       None \<Rightarrow> st
     | Some order \<Rightarrow>
         st\<lparr>ms_subscription_orders := hremove order_id (ms_subscription_orders st),
            ms_subscription_order_books := hremove order_id (ms_subscription_order_books st),
            ms_subscription_terminal_orders := hinsert order_id
              \<lparr>ter_order = order,
               ter_order_book = (case hget (ms_subscription_order_books st) order_id of
                                   Some b \<Rightarrow> b | None \<Rightarrow> []),
               ter_reason = reason, ter_refunded = refunded\<rparr>
              (ms_subscription_terminal_orders st)\<rparr>)"

definition swept_state :: "u64 \<Rightarrow> u128 \<Rightarrow> MockState \<Rightarrow> MockState" where
  "swept_state now order_id st =
    (case hget (ms_subscription_orders st) order_id of
       None \<Rightarrow> st
     | Some order \<Rightarrow>
         if ob_deadline order \<noteq> 0 \<and> ob_deadline order \<le> now
         then remove_subscription_order_from_book order_id ExitExpired (ob_escrow order) st
         else st)"

definition owned_order :: "string \<Rightarrow> u128 \<Rightarrow> NotePubkey \<Rightarrow> MockState \<Rightarrow> OrderBookOrder option" where
  "owned_order order_book order_id pk st =
    (case hget (ms_subscription_orders st) order_id of
       None \<Rightarrow> None
     | Some order \<Rightarrow>
         if ob_owner_note order = owner_addr pk
            \<and> hget (ms_subscription_order_books st) order_id = Some order_book
         then Some order else None)"

definition subscription_order ::
  "u64 \<Rightarrow> string \<Rightarrow> u128 \<Rightarrow> NotePubkey \<Rightarrow> MockState \<Rightarrow> ChainError + MockState \<times> OrderBookOrder option"
  where
  "subscription_order now order_book order_id pk st =
    (let swept = swept_state now order_id st
     in Inr (swept, owned_order order_book order_id pk swept))"

definition subscription_terminal_order ::
  "u64 \<Rightarrow> string \<Rightarrow> u128 \<Rightarrow> NotePubkey \<Rightarrow> MockState
    \<Rightarrow> ChainError + MockState \<times> MockSubscriptionTerminal option" where
  "subscription_terminal_order now order_book order_id pk st =
    (let swept = swept_state now order_id st
     in Inr (swept,
          case hget (ms_subscription_terminal_orders swept) order_id of
            None \<Rightarrow> None
          | Some t \<Rightarrow> if ob_owner_note (ter_order t) = owner_addr pk \<and> ter_order_book t = order_book
                      then Some t else None))"

definition cancel_subscription_order ::
  "u64 \<Rightarrow> string \<Rightarrow> u128 \<Rightarrow> NotePubkey \<Rightarrow> MockState
    \<Rightarrow> MockState \<times> (ChainError + OrderBookOrder)" where
  "cancel_subscription_order now order_book order_id pk st =
    (let swept = swept_state now order_id st in
     case owned_order order_book order_id pk swept of
       None \<Rightarrow> (swept, Inl (Chain OrderAbsent))
     | Some order \<Rightarrow>
         (remove_subscription_order_from_book order_id ExitCancelled (ob_escrow order) swept,
          Inr order))"

section \<open>Views\<close>

definition checked_snapshot :: "MockState \<Rightarrow> token_contract \<Rightarrow> ChainError + StreamSnapshot option" where
  "checked_snapshot st tc =
    (case hget (ms_streams st) tc of
       None \<Rightarrow> Inr None
     | Some cell \<Rightarrow>
         ok_or_else (checked_add U128_MAX (sc_buyer_locked cell) (sc_probe_locked cell))
           (Chain ArithmeticOverflow) (\<lambda>part.
         ok_or_else (checked_add U128_MAX part (sc_buyer_bond cell))
           (Chain ArithmeticOverflow) (\<lambda>buyer_locked.
         ok_or_else (checked_sub (sc_tokens_pending cell) (sc_tokens_final cell))
           (Chain PendingBelowFinal) (\<lambda>contested.
         bindR (checked_mul_div_floor contested (sm_price (sc_machine cell)) TICK_SIZE)
           (\<lambda>contested_value.
         ok_or_else (checked_add U128_MAX (sc_probe_locked cell) contested_value)
           (Chain ArithmeticOverflow) (\<lambda>buyer_lead.
         Inr (Some \<lparr>ss_seller_locked = sc_seller_locked cell, ss_buyer_locked = buyer_locked,
           ss_buyer_lead = buyer_lead, ss_tokens_final = sc_tokens_final cell,
           ss_seller_received = sc_seller_received cell,
           ss_buyer_refunded = sc_buyer_refunded cell, ss_burned = sc_burned cell,
           ss_closed = sc_closed cell\<rparr>)))))))"

definition snapshot :: "MockState \<Rightarrow> token_contract \<Rightarrow> StreamSnapshot option" where
  "snapshot st tc = (case checked_snapshot st tc of Inr s \<Rightarrow> s | Inl _ \<Rightarrow> None)"

definition seller_deal_keys ::
  "MockState \<Rightarrow> string \<Rightarrow> (token_contract \<times> DealRole \<times> string option \<times> shell) list" where
  "seller_deal_keys st nid =
    List.map_filter (\<lambda>(tc, seller).
      if seller = nid \<and> (contains_key (ms_offers st) tc \<or> contains_key (ms_matches st) tc
          \<or> contains_key (ms_matched_offers st) tc \<or> contains_key (ms_streams st) tc)
      then Some (tc, Seller,
        map_option (\<lambda>m. note_id_hex (mt_buyer_pubkey m)) (hget (ms_matches st) tc),
        (case hget (ms_matches st) tc of
           Some m \<Rightarrow> mt_price_per_tick m
         | None \<Rightarrow> (case filled_offer st tc of Some o1 \<Rightarrow> so_price_per_tick o1 | None \<Rightarrow> 0)))
      else None) (ms_offer_sellers st)"

definition buyer_deal_keys ::
  "MockState \<Rightarrow> string \<Rightarrow> token_contract list
    \<Rightarrow> (token_contract \<times> DealRole \<times> string option \<times> shell) list" where
  "buyer_deal_keys st nid seen =
    List.map_filter (\<lambda>(tc, m).
      if note_id_hex (mt_buyer_pubkey m) = nid \<and> tc \<notin> set seen
      then Some (tc, Buyer, hget (ms_offer_sellers st) tc, mt_price_per_tick m)
      else None) (ms_matches st)"

definition deal_view ::
  "(token_contract \<Rightarrow> StreamSnapshot option)
    \<Rightarrow> token_contract \<times> DealRole \<times> string option \<times> shell \<Rightarrow> DealView" where
  "deal_view snap k =
    (case k of (tc, role, counterparty, price) \<Rightarrow>
     \<lparr>dv_token_contract = tc, dv_role = role, dv_counterparty = counterparty,
      dv_price_per_tick = price, dv_model = None, dv_snapshot = snap tc\<rparr>)"

definition add_exposure :: "shell \<Rightarrow> DealView \<Rightarrow> shell" where
  "add_exposure exposure d =
    (case dv_snapshot d of
       None \<Rightarrow> exposure
     | Some s \<Rightarrow>
         if ss_closed s then exposure
         else saturating_add U64_MAX exposure
                (u64_or_max (case dv_role d of Buyer \<Rightarrow> ss_buyer_locked s
                             | Seller \<Rightarrow> ss_seller_locked s)))"

text \<open>
  The lists come from one read of the state; each snapshot comes from a read of its own, given here
  as \<open>snap\<close>.
\<close>

definition note_snapshot ::
  "MockState \<Rightarrow> (token_contract \<Rightarrow> StreamSnapshot option) \<Rightarrow> NotePubkey \<Rightarrow> NoteSnapshot" where
  "note_snapshot st snap pk =
    (let nid = note_id_hex pk;
         offers = List.map_filter (\<lambda>(tc, o1).
           if hget (ms_offer_sellers st) tc = Some nid
           then Some \<lparr>ol_seller_id = nid, ol_token_contract = tc,
                      ol_price_per_tick = so_price_per_tick o1, ol_max_ticks = so_max_ticks o1\<rparr>
           else None) (ms_offers st);
         sells = seller_deal_keys st nid;
         buys = buyer_deal_keys st nid (map fst sells);
         deals = map (deal_view snap) (sells @ buys)
     in \<lparr>ns_note_id = nid, ns_offers = offers, ns_deals = deals,
         ns_exposure = foldl add_exposure 0 deals\<rparr>)"

end
