(* ===== verification/MockInvariant.thy ===== *)
theory MockInvariant
  imports MockLaws MockTerminal
begin

text \<open>
  The invariant of one deal and its preservation by every operation on the deal. \<open>deal_core\<close> says
  that the shape is canonical, the claim pipeline and the clocks are in order, the money is where
  the phase of the deal says it is, and the weekly books agree; \<open>deal_ok\<close> adds that the stream
  machine agrees with the raw counters. The locale \<open>deal_operation\<close> is the contract of an operation
  on a deal; every operation of the mock is an interpretation of it.
\<close>

section \<open>The invariant\<close>

abbreviation cell_price :: "StreamCell \<Rightarrow> shell" where
  "cell_price cell \<equiv> sm_price (sc_machine cell)"

definition bond_of :: "DealSubscription \<Rightarrow> shell \<Rightarrow> nat" where
  "bond_of s p = (if is_subscription s then 2 * p else 0)"

definition shape_ok :: "DealSubscription \<Rightarrow> bool" where
  "shape_ok s \<longleftrightarrow>
    sub_deal_flags s AND NOT DEAL_MASK = 0
    \<and> (sub_deal_flags s AND SUBSCRIPTION \<noteq> 0) = (sub_weeks s \<noteq> 0)
    \<and> (if sub_weeks s = 0
       then sub_week_index s = 0 \<and> sub_tokens_per_week s = sub_funded_tokens s
         \<and> sub_week_base_tokens s = 0
       else sub_weeks s = SUBSCRIPTION_WEEKS \<and> TICK_SIZE \<le> sub_tokens_per_week s
         \<and> sub_funded_tokens s = sub_tokens_per_week s * sub_weeks s)
    \<and> sub_week_index s \<le> sub_weeks s \<and> sub_tokens_paid s \<le> sub_funded_tokens s
    \<and> sub_week_base_tokens s \<le> sub_funded_tokens s
    \<and> 2 * TICK_SIZE \<le> sub_funded_tokens s \<and> sub_funded_tokens s \<le> U128_MAX"

definition static_ok :: "ProtocolConsts \<Rightarrow> StreamCell \<Rightarrow> DealSubscription \<Rightarrow> bool" where
  "static_ok c cell s \<longleftrightarrow>
    sc_schema_version cell = STREAM_CELL_SCHEMA_VERSION \<and> 0 < cell_price cell
    \<and> cell_price cell \<le> U64_MAX \<and> sc_max_ticks cell \<le> U64_MAX
    \<and> sub_funded_tokens s = sc_max_ticks cell * TICK_SIZE
    \<and> value_of c (cell_price cell) (sub_funded_tokens s) \<le> U128_MAX"

definition pipeline_times :: "StreamCell \<Rightarrow> DealSubscription \<Rightarrow> bool" where
  "pipeline_times cell s \<longleftrightarrow>
    sc_tokens_final cell \<le> sc_tokens_pending cell
    \<and> sc_tokens_pending cell \<le> sub_funded_tokens s
    \<and> (if sc_probe_accepted cell then TICK_SIZE \<le> sc_tokens_final cell \<and> 0 < sub_period_start s
       else sc_tokens_pending cell = 0)
    \<and> 0 < sc_probe_time cell \<and> sc_probe_time cell \<le> sc_last_claim_time cell
    \<and> sub_period_start s \<le> sc_last_claim_time cell
    \<and> (sc_disputed cell \<longrightarrow> sc_dispute_time cell \<noteq> 0)
    \<and> (\<not> sc_disputed cell \<and> \<not> sc_closed cell \<longrightarrow> sc_dispute_time cell = 0)
    \<and> (sc_dispute_time cell \<noteq> 0 \<longrightarrow> sc_last_claim_time cell \<le> sc_dispute_time cell)"

definition money_ok :: "ProtocolConsts \<Rightarrow> StreamCell \<Rightarrow> DealSubscription \<Rightarrow> bool" where
  "money_ok c cell s \<longleftrightarrow>
    (let p = cell_price cell; funded = value_of c p (sub_funded_tokens s) in
     if sc_closed cell then drained cell \<and> cell_total cell = 2 * p + funded + bond_of s p
     else sc_seller_locked cell = 2 * p \<and> sc_buyer_bond cell = bond_of s p
       \<and> sc_buyer_refunded cell = 0 \<and> sc_burned cell = 0
       \<and> (if sc_probe_accepted cell then sc_probe_locked cell = 0 \<and> books_ok c cell s
          else sc_probe_locked cell = p \<and> sub_tokens_paid s = 0 \<and> sc_seller_received cell = 0
            \<and> sc_fee_accrued cell = 0 \<and> sc_buyer_locked cell + p = funded))"

definition weeks_ok :: "StreamCell \<Rightarrow> DealSubscription \<Rightarrow> bool" where
  "weeks_ok cell s \<longleftrightarrow>
    (\<not> sc_closed cell \<longrightarrow>
     (if sc_probe_accepted cell then
        (if is_subscription s then
           (if sub_week_index s = 0 then sub_tokens_paid s = TICK_SIZE
            else sub_tokens_paid s = sub_week_index s * sub_tokens_per_week s)
           \<and> sub_week_base_tokens s \<le> sub_week_index s * sub_tokens_per_week s
           \<and> sub_week_base_tokens s \<le> sc_tokens_pending cell
           \<and> sc_tokens_pending cell \<le> sub_week_base_tokens s
              + (if sub_week_index s < sub_weeks s then sub_tokens_per_week s else 0)
         else sub_tokens_paid s = TICK_SIZE)
      else sub_week_index s = 0 \<and> sub_week_base_tokens s = 0))"

definition deal_core :: "ProtocolConsts \<Rightarrow> StreamCell \<Rightarrow> DealSubscription \<Rightarrow> bool" where
  "deal_core c cell s \<longleftrightarrow> shape_ok s \<and> static_ok c cell s \<and> pipeline_times cell s
    \<and> money_ok c cell s \<and> weeks_ok cell s"

definition machine_agrees :: "StreamCell \<Rightarrow> bool" where
  "machine_agrees cell =
    (case sm_state (sc_machine cell) of
       Probe tick \<Rightarrow> \<not> sc_closed cell \<and> \<not> sc_disputed cell \<and> \<not> sc_probe_accepted cell
         \<and> tick_price tick = cell_price cell
     | Streaming trusted pending \<Rightarrow> \<not> sc_closed cell \<and> \<not> sc_disputed cell
         \<and> sc_probe_accepted cell \<and> trusted = div_ceil (sc_tokens_final cell) TICK_SIZE
         \<and> pending = div_ceil (sc_tokens_pending cell) TICK_SIZE
     | Disputed trusted contested \<Rightarrow> \<not> sc_closed cell \<and> sc_disputed cell
         \<and> trusted = div_ceil (sc_tokens_final cell) TICK_SIZE
         \<and> trusted + contested = div_ceil (sc_tokens_pending cell) TICK_SIZE
     | Closed \<Rightarrow> sc_closed cell \<and> \<not> sc_disputed cell
     | Opening \<Rightarrow> False
     | Stopping \<Rightarrow> False)"

definition deal_ok :: "ProtocolConsts \<Rightarrow> StreamCell \<Rightarrow> DealSubscription \<Rightarrow> bool" where
  "deal_ok c cell s \<longleftrightarrow> deal_core c cell s \<and> machine_agrees cell"

text \<open>The clocks of the deal do not run ahead of \<open>now\<close>.\<close>

definition deal_by :: "u64 \<Rightarrow> StreamCell \<Rightarrow> bool" where
  "deal_by now cell \<longleftrightarrow> sc_last_claim_time cell \<le> now \<and> sc_dispute_time cell \<le> now"

text \<open>What no operation changes of a deal.\<close>

definition same_deal ::
  "StreamCell \<Rightarrow> DealSubscription \<Rightarrow> StreamCell \<Rightarrow> DealSubscription \<Rightarrow> bool" where
  "same_deal cell s cell' s' \<longleftrightarrow>
    sc_buyer_pubkey cell' = sc_buyer_pubkey cell \<and> sc_max_ticks cell' = sc_max_ticks cell
    \<and> cell_price cell' = cell_price cell \<and> sub_funded_tokens s' = sub_funded_tokens s
    \<and> sub_deal_flags s' = sub_deal_flags s \<and> sub_weeks s' = sub_weeks s"

lemmas deal_defs = deal_core_def shape_ok_def static_ok_def pipeline_times_def money_ok_def
  weeks_ok_def

section \<open>Consequences\<close>

lemma deal_core_books:
  assumes "deal_core c cell s" and "sc_probe_accepted cell" and "\<not> sc_closed cell"
  shows "books_ok c cell s"
  using assms by (simp add: deal_core_def money_ok_def Let_def)

lemma deal_core_total:
  assumes "deal_core c cell s"
  shows "cell_total cell =
    2 * cell_price cell + value_of c (cell_price cell) (sub_funded_tokens s)
      + bond_of s (cell_price cell)"
proof (cases "sc_closed cell")
  case False
  show ?thesis
  proof (cases "sc_probe_accepted cell")
    case True
    have b: "books_ok c cell s" using deal_core_books [OF assms True False] .
    then have "value_of c (cell_price cell) (sub_tokens_paid s)
      \<le> value_of c (cell_price cell) (sub_funded_tokens s)"
      by (intro value_of_mono) (simp add: books_ok_def Let_def)
    with b True False assms show ?thesis
      by (simp add: deal_core_def money_ok_def books_ok_def cell_total_def Let_def)
        (simp add: value_of_def)
  qed (use False assms in \<open>simp add: deal_core_def money_ok_def cell_total_def Let_def\<close>)
qed (use assms in \<open>simp add: deal_core_def money_ok_def Let_def\<close>)

lemma div_ceil_ticks: "div_ceil (n * TICK_SIZE) TICK_SIZE = n"
  by simp

lemma deal_core_ticks_fit:
  assumes "deal_core c cell s" and "t \<le> sub_funded_tokens s"
  shows "div_ceil t TICK_SIZE \<le> U64_MAX" and "t div TICK_SIZE \<le> U64_MAX"
proof -
  have "div_ceil t TICK_SIZE \<le> sc_max_ticks cell"
    using assms by (simp add: deal_core_def static_ok_def div_ceil_le_iff)
  then show "div_ceil t TICK_SIZE \<le> U64_MAX"
    using assms(1) by (simp add: deal_core_def static_ok_def)
  then show "t div TICK_SIZE \<le> U64_MAX" using div_le_div_ceil le_trans by blast
qed

text \<open>A deal in order is one the persisted-state checks accept.\<close>

lemma deal_ok_validates:
  assumes "deal_ok c cell s" and "deal_by now cell"
  shows "validate_persisted_stream cell now = Inr ()"
    and "validate_persisted_subscription s now = Inr ()"
proof -
  have core: "deal_core c cell s" and ag: "machine_agrees cell" using assms(1) by (simp_all add: deal_ok_def)
  have fit: "div_ceil (sc_tokens_final cell) TICK_SIZE \<le> U64_MAX"
    "div_ceil (sc_tokens_pending cell) TICK_SIZE \<le> U64_MAX"
    using deal_core_ticks_fit(1) [OF core] core by (auto simp: deal_core_def pipeline_times_def)
  have mono: "div_ceil (sc_tokens_final cell) TICK_SIZE \<le> div_ceil (sc_tokens_pending cell) TICK_SIZE"
    using core by (intro div_ceil_mono) (auto simp: deal_core_def pipeline_times_def)
  have probe: "sc_probe_accepted cell \<Longrightarrow> sc_probe_locked cell = 0"
    using core by (cases "sc_closed cell") (auto simp: deal_core_def money_ok_def drained_def Let_def)
  have "lifecycle_coherent cell"
    using ag fit mono
    by (auto simp: lifecycle_coherent_def machine_agrees_def split: StreamState.splits)
  moreover have "validate_machine_ticks cell = Inr ()"
    using ag fit
    by (auto simp: validate_machine_ticks_def machine_agrees_def raw_ticks_def result_simps
        try_from_def checked_add_def split: StreamState.splits)
  ultimately show "validate_persisted_stream cell now = Inr ()"
    using core probe assms(2)
    by (auto simp: validate_persisted_stream_def deal_core_def pipeline_times_def deal_by_def
        result_simps split: if_splits)
  show "validate_persisted_subscription s now = Inr ()"
    using core assms(2)
    by (auto simp: validate_persisted_subscription_def deal_core_def shape_ok_def Let_def result_simps
        pipeline_times_def deal_by_def checked_mul_def mult.commute split: if_splits)
qed

section \<open>The steps operations are made of\<close>

lemma promote_due_iff:
  "promote_due cell now c = Inr cell' \<longleftrightarrow>
    sc_last_claim_time cell + claim_promote_window c \<le> U64_MAX \<and>
    cell' = (if sc_last_claim_time cell + claim_promote_window c \<le> now then promote_once cell else cell)"
  by (auto simp: promote_due_def claim_deadline_reached_def result_simps)

lemma promote_once_eq:
  "sc_tokens_final cell \<le> sc_tokens_pending cell \<Longrightarrow>
    promote_once cell = cell\<lparr>sc_tokens_final := sc_tokens_pending cell\<rparr>"
  by (simp add: promote_once_def)

text \<open>An update of fields the component does not read leaves the component as it is.\<close>

lemma update_final:
  "static_ok c (cell\<lparr>sc_tokens_final := t\<rparr>) s = static_ok c cell s"
  "money_ok c (cell\<lparr>sc_tokens_final := t\<rparr>) s = money_ok c cell s"
  "weeks_ok (cell\<lparr>sc_tokens_final := t\<rparr>) s = weeks_ok cell s"
  by (simp_all add: static_ok_def money_ok_def weeks_ok_def books_ok_def drained_def cell_total_def
      Let_def)

lemma promote_core:
  assumes "deal_core c cell s"
  shows "deal_core c (cell\<lparr>sc_tokens_final := sc_tokens_pending cell\<rparr>) s"
proof -
  have "pipeline_times (cell\<lparr>sc_tokens_final := sc_tokens_pending cell\<rparr>) s"
    using assms by (simp add: deal_core_def pipeline_times_def split: if_splits)
  with assms show ?thesis by (simp add: deal_core_def update_final)
qed

text \<open>\<open>promote_due\<close> on a deal in order: the newest claim becomes final, or nothing changes.\<close>

lemma promote_due_core:
  assumes core: "deal_core c cell s" and step: "promote_due cell now c = Inr cell'"
  obtains t where "cell' = cell\<lparr>sc_tokens_final := t\<rparr>" and "deal_core c cell' s"
    and "t \<le> sc_tokens_pending cell"
    and "sc_last_claim_time cell + claim_promote_window c \<le> now \<Longrightarrow> t = sc_tokens_pending cell"
proof -
  have le: "sc_tokens_final cell \<le> sc_tokens_pending cell"
    using core by (simp add: deal_core_def pipeline_times_def)
  show thesis
  proof (cases "sc_last_claim_time cell + claim_promote_window c \<le> now")
    case True
    then have "cell' = cell\<lparr>sc_tokens_final := sc_tokens_pending cell\<rparr>"
      using step le by (simp add: promote_due_iff promote_once_eq)
    with promote_core [OF core] show ?thesis by (intro that) simp_all
  next
    case False
    then have "cell' = cell\<lparr>sc_tokens_final := sc_tokens_final cell\<rparr>"
      using step by (simp add: promote_due_iff)
    with core le False show ?thesis by (intro that) simp_all
  qed
qed

lemma subscription_weeks_at_le: "subscription_weeks_at s now b = Inr w \<Longrightarrow> w \<le> sub_weeks s"
  by (auto simp: subscription_weeks_at_def result_simps Let_def split: if_splits)

text \<open>
  Charging weeks on an open accepted subscription always goes through, and keeps the deal in order.
\<close>

lemma charge_core:
  assumes c: "consts_ok c" and core: "deal_core c cell s"
    and st: "sc_probe_accepted cell" "\<not> sc_closed cell" "is_subscription s" and w: "w \<le> sub_weeks s"
  obtains cell' s' where
    "charge_subscription_through cell s w c = Inr (cell', s', sub_week_index s < w)"
    and "deal_core c cell' s'" and "same_deal cell s cell' s'"
    and "\<exists>a b d. cell' = cell\<lparr>sc_buyer_locked := a, sc_seller_received := b, sc_fee_accrued := d\<rparr>"
    and "sub_week_index s' = max w (sub_week_index s)"
    and "sub_period_start s' = sub_period_start s"
    and "w \<le> sub_week_index s \<Longrightarrow> s' = s"
proof (cases "w \<le> sub_week_index s")
  case True
  then have "charge_subscription_through cell s w c = Inr (cell, s, sub_week_index s < w)"
    by (simp add: charge_subscription_through_def)
  moreover have "\<exists>a b d. cell = cell\<lparr>sc_buyer_locked := a, sc_seller_received := b, sc_fee_accrued := d\<rparr>"
    by (rule exI [of _ "sc_buyer_locked cell"], rule exI [of _ "sc_seller_received cell"],
        rule exI [of _ "sc_fee_accrued cell"]) simp
  ultimately show ?thesis using core True
    by (intro that [of cell s]) (auto simp only: same_deal_def max_absorb2)
next
  case False
  let ?tpw = "sub_tokens_per_week s" and ?wi = "sub_week_index s"
  let ?t = "w * ?tpw"
  have b: "books_ok c cell s" using deal_core_books [OF core st(1,2)] .
  have sh: "sub_weeks s = SUBSCRIPTION_WEEKS" "TICK_SIZE \<le> ?tpw"
    "sub_funded_tokens s = ?tpw * sub_weeks s" "sub_funded_tokens s \<le> U128_MAX" "shape_ok s"
    using core st(3) by (auto simp: deal_core_def shape_ok_def is_subscription_def split: if_splits)
  have wk: "?wi = 0 \<Longrightarrow> sub_tokens_paid s = TICK_SIZE" "?wi \<noteq> 0 \<Longrightarrow> sub_tokens_paid s = ?wi * ?tpw"
    "sub_week_base_tokens s \<le> ?wi * ?tpw"
    "?wi < sub_weeks s \<Longrightarrow> sc_tokens_pending cell \<le> sub_week_base_tokens s + ?tpw"
    using core st by (auto simp: deal_core_def weeks_ok_def split: if_splits)
  have lt: "?wi < sub_weeks s" using False w by simp
  have tw: "?t \<le> sub_funded_tokens s" using w by (simp add: sh(3) mult.commute)
  have step: "?wi * ?tpw + ?tpw \<le> ?t"
    using False mult_le_mono1 [of "Suc ?wi" w ?tpw] by simp
  have paid: "sub_tokens_paid s \<le> ?t"
  proof (cases "?wi = 0")
    case True
    then show ?thesis using wk(1) step sh(2) by linarith
  next
    case False
    then show ?thesis using wk(2) step by linarith
  qed
  let ?s' = "s\<lparr>sub_tokens_paid := ?t, sub_week_index := w, sub_week_base_tokens := sc_tokens_pending cell\<rparr>"
  let ?cell' = "paid_through c s ?t cell"
  have run: "charge_subscription_through cell s w c = Inr (?cell', ?s', True)"
    using charge_subscription_through_books [OF c b tw sh(4)] paid False by simp
  have pend: "sc_tokens_pending cell \<le> ?t" using wk(3,4) lt step by linarith
  have price: "cell_price ?cell' = cell_price cell" by (simp add: paid_through_def Let_def)
  have books: "books_ok c ?cell' ?s'"
    using paid_through_books [OF b tw] by (simp add: books_ok_def paid_through_def Let_def)
  have "shape_ok ?s'"
    using sh(5) w tw core st(3) by (auto simp: shape_ok_def deal_core_def pipeline_times_def is_subscription_def)
  moreover have "static_ok c ?cell' ?s'" using core by (auto simp: deal_core_def static_ok_def paid_through_def Let_def)
  moreover have "pipeline_times ?cell' ?s'"
    using core by (simp add: deal_core_def pipeline_times_def paid_through_def Let_def)
  moreover have "money_ok c ?cell' ?s'"
    using core st books by (simp add: deal_core_def money_ok_def paid_through_def Let_def bond_of_def
        is_subscription_def)
  moreover have "weeks_ok ?cell' ?s'"
    using st pend False by (simp add: weeks_ok_def paid_through_def Let_def is_subscription_def)
  ultimately have "deal_core c ?cell' ?s'" by (simp add: deal_core_def)
  moreover have "\<exists>a b d. ?cell' = cell\<lparr>sc_buyer_locked := a, sc_seller_received := b, sc_fee_accrued := d\<rparr>"
    by (auto simp: paid_through_def Let_def)
  ultimately show ?thesis using run False
    by (intro that [of ?cell' ?s']) (auto simp: same_deal_def price paid_through_def Let_def)
qed

end
