(* ===== verification/MockOperations.thy ===== *)
theory MockOperations
  imports MockInvariant
begin

text \<open>
  Every operation on a deal keeps the invariant of the deal. The first part treats the terminal
  paths through \<open>deal_base\<close>, the part of the invariant that survives until the locks are emptied;
  the second takes the operations one by one.
\<close>

section \<open>Terminal paths\<close>

text \<open>The money of a deal: the seller's bond, the funded volume at its price with the platform fee,
  and the buyer's bond of a subscription.\<close>

definition deal_funds :: "ProtocolConsts \<Rightarrow> StreamCell \<Rightarrow> DealSubscription \<Rightarrow> nat" where
  "deal_funds c cell s =
    2 * cell_price cell + value_of c (cell_price cell) (sub_funded_tokens s)
      + bond_of s (cell_price cell)"

definition deal_base :: "ProtocolConsts \<Rightarrow> StreamCell \<Rightarrow> DealSubscription \<Rightarrow> bool" where
  "deal_base c cell s \<longleftrightarrow> shape_ok s \<and> static_ok c cell s \<and> pipeline_times cell s
    \<and> cell_total cell = deal_funds c cell s"

text \<open>What a finished operation leaves: a deal in order, on the clock, and the same deal.\<close>

definition deal_kept ::
  "ProtocolConsts \<Rightarrow> u64 \<Rightarrow> StreamCell \<Rightarrow> DealSubscription \<Rightarrow> StreamCell \<Rightarrow> DealSubscription \<Rightarrow> bool" where
  "deal_kept c now cell s cell' s' \<longleftrightarrow>
    deal_ok c cell' s' \<and> deal_by now cell' \<and> same_deal cell s cell' s'"

lemma deal_core_base: "deal_core c cell s \<Longrightarrow> deal_base c cell s"
  using deal_core_total by (simp add: deal_base_def deal_core_def deal_funds_def)

lemma same_deal_funds: "same_deal cell s cell' s' \<Longrightarrow> deal_funds c cell' s' = deal_funds c cell s"
  by (simp add: deal_funds_def same_deal_def bond_of_def is_subscription_def)

lemma same_deal_refl [simp]: "same_deal cell s cell s"
  by (simp add: same_deal_def)

lemma same_deal_trans:
  "same_deal cell s cell1 s1 \<Longrightarrow> same_deal cell1 s1 cell2 s2 \<Longrightarrow> same_deal cell s cell2 s2"
  by (simp add: same_deal_def)

text \<open>The part of a cell that payments and closings do not touch.\<close>

definition cell_frame ::
  "StreamCell \<Rightarrow> (u8 \<times> NotePubkey \<times> u64 \<times> u64 \<times> bool) \<times> (u64 \<times> u64) \<times> u128 \<times> u128" where
  "cell_frame cell = (cell_static cell, cell_clock cell, sc_tokens_final cell, sc_tokens_pending cell)"

lemmas frame_defs = cell_frame_def cell_static_def cell_clock_def

text \<open>
  Paying a deal moves money and the paid counter only, so it leaves a \<open>deal_base\<close>.
\<close>

lemma credit_base:
  assumes base: "deal_base c cell s" and run: "credit_tokens_through cell s t c = Inr (cell', s')"
  shows "deal_base c cell' s'" and "same_deal cell s cell' s'" and "cell_frame cell' = cell_frame cell"
    and "sc_disputed cell' = sc_disputed cell" and "sc_machine cell' = sc_machine cell"
    and "sc_closed cell' = sc_closed cell" and "sub_tokens_paid s' = t"
proof -
  have s': "s' = s\<lparr>sub_tokens_paid := t\<rparr>" "t \<le> sub_funded_tokens s"
    and cell': "\<exists>a b d. cell' = cell\<lparr>sc_buyer_locked := a, sc_seller_received := b, sc_fee_accrued := d\<rparr>"
    using run by (auto simp: credit_tokens_through_iff move_payment_iff)
  then obtain a b d where
    upd: "cell' = cell\<lparr>sc_buyer_locked := a, sc_seller_received := b, sc_fee_accrued := d\<rparr>" by blast
  show same: "same_deal cell s cell' s'" by (simp add: same_deal_def upd s'(1))
  have "shape_ok s'" using base s' by (auto simp: deal_base_def shape_ok_def)
  moreover have "static_ok c cell' s'" using base by (auto simp: deal_base_def static_ok_def upd s'(1))
  moreover have "pipeline_times cell' s'" using base by (simp add: deal_base_def pipeline_times_def upd s'(1))
  ultimately show "deal_base c cell' s'"
    using credit_tokens_through_total [OF run] base same_deal_funds [OF same]
    by (simp add: deal_base_def)
qed (use run in \<open>auto simp: credit_tokens_through_iff move_payment_iff frame_defs\<close>)

lemma charge_base:
  assumes base: "deal_base c cell s" and w: "w \<le> sub_weeks s"
    and run: "charge_subscription_through cell s w c = Inr (cell', s', b)"
  shows "deal_base c cell' s'" and "same_deal cell s cell' s'" and "cell_frame cell' = cell_frame cell"
    and "sc_disputed cell' = sc_disputed cell" and "sc_machine cell' = sc_machine cell"
    and "sc_closed cell' = sc_closed cell"
proof -
  have "deal_base c cell' s' \<and> same_deal cell s cell' s' \<and> cell_frame cell' = cell_frame cell
    \<and> sc_disputed cell' = sc_disputed cell \<and> sc_machine cell' = sc_machine cell
    \<and> sc_closed cell' = sc_closed cell"
  proof (cases "w \<le> sub_week_index s")
    case True
    then show ?thesis using run base by (simp add: charge_subscription_through_def)
  next
    case False
    then obtain s1 where cr: "credit_tokens_through cell s (w * sub_tokens_per_week s) c = Inr (cell', s1)"
      and s': "s' = s1\<lparr>sub_week_index := w, sub_week_base_tokens := sc_tokens_pending cell'\<rparr>"
      using run by (auto simp: charge_subscription_through_def result_simps pending_tokens_def)
    note cb = credit_base [OF base cr]
    have s1: "s1 = s\<lparr>sub_tokens_paid := w * sub_tokens_per_week s\<rparr>"
      using cr by (simp add: credit_tokens_through_iff)
    have "sub_weeks s \<noteq> 0" using False w by simp
    then have "shape_ok s'"
      using cb(1) w by (auto simp: deal_base_def shape_ok_def s' s1 pipeline_times_def)
    moreover have "static_ok c cell' s'" "pipeline_times cell' s'"
      using cb(1) by (auto simp: deal_base_def static_ok_def pipeline_times_def s')
    moreover have "deal_funds c cell' s' = deal_funds c cell' s1"
      by (simp add: deal_funds_def s' bond_of_def is_subscription_def)
    ultimately have "deal_base c cell' s'" using cb(1) by (simp add: deal_base_def)
    then show ?thesis using cb(2-6) by (simp add: same_deal_def s')
  qed
  then show "deal_base c cell' s'" and "same_deal cell s cell' s'" and "cell_frame cell' = cell_frame cell"
    and "sc_disputed cell' = sc_disputed cell" and "sc_machine cell' = sc_machine cell"
    and "sc_closed cell' = sc_closed cell" by simp_all
qed

lemma promote_base:
  assumes base: "deal_base c cell s" and run: "promote_due cell now c = Inr cell'"
  shows "deal_base c cell' s"
    and "\<exists>t. cell' = cell\<lparr>sc_tokens_final := t\<rparr> \<and> t \<le> sc_tokens_pending cell"
proof -
  have le: "sc_tokens_final cell \<le> sc_tokens_pending cell"
    using base by (simp add: deal_base_def pipeline_times_def)
  then have cell': "cell' = cell\<lparr>sc_tokens_final := sc_tokens_pending cell\<rparr>
    \<or> cell' = cell\<lparr>sc_tokens_final := sc_tokens_final cell\<rparr>"
    using run by (auto simp: promote_due_iff promote_once_eq)
  have fin: "static_ok c (cell\<lparr>sc_tokens_final := t\<rparr>) s = static_ok c cell s"
    "cell_total (cell\<lparr>sc_tokens_final := t\<rparr>) = cell_total cell"
    "deal_funds c (cell\<lparr>sc_tokens_final := t\<rparr>) s = deal_funds c cell s" for t
    by (simp_all add: static_ok_def cell_total_def deal_funds_def)
  have "pipeline_times (cell\<lparr>sc_tokens_final := sc_tokens_pending cell\<rparr>) s"
    using base by (simp add: deal_base_def pipeline_times_def split: if_splits)
  then show "deal_base c cell' s"
    using cell' base by (elim disjE) (simp_all add: deal_base_def fin)
  show "\<exists>t. cell' = cell\<lparr>sc_tokens_final := t\<rparr> \<and> t \<le> sc_tokens_pending cell"
    using cell' le by blast
qed

text \<open>A cell whose locks are empty, in a base deal, is a closed deal in order.\<close>

lemma closed_deal_ok:
  assumes "deal_base c cell s" and "drained cell" and "sc_closed cell" and "\<not> sc_disputed cell"
    and "sm_state (sc_machine cell) = Closed"
  shows "deal_ok c cell s"
  using assms
  by (simp add: deal_ok_def deal_core_def deal_base_def money_ok_def weeks_ok_def machine_agrees_def
      deal_funds_def Let_def)

lemma deal_base_frame:
  assumes "deal_base c cell s" and "cell_frame cell' = cell_frame cell"
    and "cell_price cell' = cell_price cell" and "cell_total cell' = cell_total cell"
    and "sc_closed cell'" and "\<not> sc_disputed cell'"
  shows "deal_base c cell' s"
  using assms
  by (auto simp: deal_base_def static_ok_def pipeline_times_def deal_funds_def frame_defs)

lemma close_kept:
  assumes base: "deal_base c cell s" and nd: "\<not> sc_disputed cell"
    and run: "close_mock_clean cell d c = Inr (cell', refund)"
  shows "deal_ok c cell' s" and "same_deal cell s cell' s" and "cell_clock cell' = cell_clock cell"
proof -
  have m: "sc_machine cell' = close_machine (sc_machine cell)" and nd': "\<not> sc_disputed cell'"
    and fr: "cell_frame cell' = cell_frame cell"
    using run nd by (auto simp: money_iffs drain_def frame_defs)
  have st: "sm_state (sc_machine cell') = Closed" and pr: "cell_price cell' = cell_price cell"
    by (simp_all add: m close_machine_def)
  note tot = close_mock_clean_total [OF run]
  have "deal_base c cell' s"
    using deal_base_frame [OF base fr pr tot(1) tot(3) nd'] .
  then show "deal_ok c cell' s" using closed_deal_ok tot(2,3) nd' st by blast
  show "same_deal cell s cell' s" and "cell_clock cell' = cell_clock cell"
    using fr pr by (simp_all add: same_deal_def frame_defs)
qed

lemma deal_by_clock: "cell_clock cell' = cell_clock cell \<Longrightarrow> deal_by now cell' = deal_by now cell"
  by (simp add: deal_by_def cell_clock_def)

section \<open>The operations of an open deal\<close>

lemma machine_streaming:
  assumes "machine_agrees cell" and "sc_probe_accepted cell" and "\<not> sc_closed cell"
    and "\<not> sc_disputed cell"
  shows "sm_state (sc_machine cell) =
    Streaming (div_ceil (sc_tokens_final cell) TICK_SIZE) (div_ceil (sc_tokens_pending cell) TICK_SIZE)"
  using assms by (auto simp: machine_agrees_def split: StreamState.splits)

lemma machine_probe:
  assumes "machine_agrees cell" and "\<not> sc_probe_accepted cell" and "\<not> sc_closed cell"
    and "\<not> sc_disputed cell"
  obtains tick where "sm_state (sc_machine cell) = Probe tick" and "tick_price tick = cell_price cell"
  using assms by (auto simp: machine_agrees_def split: StreamState.splits)

text \<open>The machine is not part of the core beyond its price.\<close>

lemma deal_core_machine [simp]:
  "sm_price m = cell_price cell \<Longrightarrow> deal_core c (cell\<lparr>sc_machine := m\<rparr>) s = deal_core c cell s"
  by (simp add: deal_core_def static_ok_def pipeline_times_def money_ok_def weeks_ok_def
      drained_def cell_total_def books_ok_def)

lemma deal_base_machine [simp]:
  "sm_price m = cell_price cell \<Longrightarrow> deal_base c (cell\<lparr>sc_machine := m\<rparr>) s = deal_base c cell s"
  by (simp add: deal_base_def static_ok_def pipeline_times_def cell_total_def deal_funds_def)

lemma on_promote_Inr:
  "on_promote m = Inr m' \<longleftrightarrow> (\<exists>t p. sm_state m = Streaming t p \<and> m' = m\<lparr>sm_state := Streaming p p\<rparr>)"
  by (auto simp: on_promote_def check_invariant_def result_simps split: StreamState.splits)

lemma on_claim_Inr:
  "on_claim m n = Inr m' \<longleftrightarrow>
    (\<exists>t p. sm_state m = Streaming t p \<and> p \<le> n \<and> m' = m\<lparr>sm_state := Streaming p n\<rparr>)"
  by (auto simp: on_claim_def check_invariant_def result_simps split: StreamState.splits)

lemma on_probe_accepted_Inr:
  "on_probe_accepted m = Inr m' \<longleftrightarrow>
    (\<exists>tick. sm_state m = Probe tick) \<and> m' = m\<lparr>sm_state := Streaming 1 1\<rparr>"
  by (auto simp: on_probe_accepted_def split: StreamState.splits)

lemma promote_machine_Inr:
  "promote_machine cell = Inr cell' \<longleftrightarrow>
    (if sc_tokens_final cell = sc_tokens_pending cell
     then \<exists>t p. sm_state (sc_machine cell) = Streaming t p
       \<and> cell' = cell\<lparr>sc_machine := (sc_machine cell)\<lparr>sm_state := Streaming p p\<rparr>\<rparr>
     else cell' = cell)"
  by (auto simp: promote_machine_def result_simps on_promote_Inr)

text \<open>Accepting the probe.\<close>

lemma accept_probe_kept:
  assumes c: "consts_ok c" and ok: "deal_ok c cell s"
    and run: "accept_probe_deal c now cell s = Inr (cell', s', u)"
  shows "deal_kept c now cell s cell' s'"
proof -
  let ?p = "cell_price cell"
  have core: "deal_core c cell s" using ok by (simp add: deal_ok_def)
  have st: "\<not> sc_closed cell" "\<not> sc_disputed cell" "\<not> sc_probe_accepted cell"
    and time: "sc_probe_time cell \<le> now"
    and cell': "\<exists>pay fee tick. token_pay_and_fee TICK_SIZE ?p c = Inr (pay, fee)
      \<and> sm_state (sc_machine cell) = Probe tick \<and> fee \<le> sc_buyer_locked cell
      \<and> cell' = cell\<lparr>sc_machine := (sc_machine cell)\<lparr>sm_state := Streaming 1 1\<rparr>,
          sc_probe_accepted := True, sc_buyer_locked := sc_buyer_locked cell - fee,
          sc_probe_locked := 0, sc_seller_received := sc_seller_received cell + sc_probe_locked cell,
          sc_fee_accrued := sc_fee_accrued cell + fee, sc_tokens_final := TICK_SIZE,
          sc_tokens_pending := TICK_SIZE, sc_last_claim_time := now\<rparr>"
    and s': "s' = s\<lparr>sub_tokens_paid := TICK_SIZE, sub_period_start := now, sub_week_base_tokens := 0\<rparr>"
    using run by (auto simp: accept_probe_deal_def result_simps on_probe_accepted_Inr)
  then obtain pay fee tick where pf: "token_pay_and_fee TICK_SIZE ?p c = Inr (pay, fee)"
    and fee: "fee \<le> sc_buyer_locked cell"
    and upd: "cell' = cell\<lparr>sc_machine := (sc_machine cell)\<lparr>sm_state := Streaming 1 1\<rparr>,
          sc_probe_accepted := True, sc_buyer_locked := sc_buyer_locked cell - fee,
          sc_probe_locked := 0, sc_seller_received := sc_seller_received cell + sc_probe_locked cell,
          sc_fee_accrued := sc_fee_accrued cell + fee, sc_tokens_final := TICK_SIZE,
          sc_tokens_pending := TICK_SIZE, sc_last_claim_time := now\<rparr>" by blast
  have p: "?p \<le> U64_MAX" using core by (simp add: deal_core_def static_ok_def)
  have feq: "fee = fee_of c ?p TICK_SIZE"
    using pf by (auto simp: token_pay_and_fee_eq [OF c p] split: if_splits)
  have m: "sc_probe_locked cell = ?p" "sc_seller_received cell = 0" "sc_fee_accrued cell = 0"
    "sc_buyer_locked cell + ?p = value_of c ?p (sub_funded_tokens s)" "sub_week_index s = 0"
    using core st by (auto simp: deal_core_def money_ok_def weeks_ok_def Let_def)
  have two: "2 * TICK_SIZE \<le> sub_funded_tokens s" using core by (simp add: deal_core_def shape_ok_def)
  have val: "value_of c ?p TICK_SIZE = ?p + fee" by (simp add: value_of_def feq)
  have "shape_ok s'" using core two by (auto simp: deal_core_def shape_ok_def s')
  moreover have "static_ok c cell' s'" using core by (auto simp: deal_core_def static_ok_def upd s')
  moreover have "pipeline_times cell' s'"
    using core st time two by (auto simp: deal_core_def pipeline_times_def upd s')
  moreover have "books_ok c cell' s'"
    using core two m fee val feq
    by (auto simp: books_ok_def Let_def deal_core_def static_ok_def upd s')
  then have "money_ok c cell' s'"
    using core st by (simp add: deal_core_def money_ok_def Let_def upd s' bond_of_def is_subscription_def)
  moreover have "weeks_ok cell' s'"
    using core st m(5)
    by (auto simp: deal_core_def shape_ok_def weeks_ok_def upd s' is_subscription_def split: if_splits)
  moreover have "machine_agrees cell'"
    using st by (simp add: machine_agrees_def upd div_ceil_mult [of TICK_SIZE 1, simplified])
  ultimately show ?thesis
    using core st
    by (auto simp: deal_kept_def deal_ok_def deal_core_def deal_by_def same_deal_def upd s'
        pipeline_times_def)
qed

text \<open>Opening a dispute.\<close>

lemma dispute_kept:
  assumes ok: "deal_ok c cell s" and now: "deal_by at cell"
    and run: "dispute_deal at tc cell s = Inr (cell', s', r)"
  shows "deal_kept c at cell s cell' s'"
proof -
  have st: "\<not> sc_closed cell" "\<not> sc_disputed cell"
    and s': "s' = s" and upd: "cell' = cell\<lparr>sc_machine := buyer_dispute (sc_machine cell),
      sc_disputed := True, sc_dispute_time := at\<rparr>"
    using run by (auto simp: dispute_deal_def result_simps)
  have core: "deal_core c cell s" and ag: "machine_agrees cell" using ok by (simp_all add: deal_ok_def)
  have price: "cell_price cell' = cell_price cell"
    by (simp add: upd buyer_dispute_def split: prod.splits)
  have le: "div_ceil (sc_tokens_final cell) TICK_SIZE \<le> div_ceil (sc_tokens_pending cell) TICK_SIZE"
    using core by (intro div_ceil_mono) (auto simp: deal_core_def pipeline_times_def)
  have "machine_agrees cell'"
  proof (cases "sc_probe_accepted cell")
    case True
    then show ?thesis using machine_streaming [OF ag True st] le st(1)
      by (simp add: machine_agrees_def upd buyer_dispute_def)
  next
    case False
    then obtain tick where "sm_state (sc_machine cell) = Probe tick" using machine_probe ag st by blast
    moreover have "sc_tokens_pending cell = 0" "sc_tokens_final cell = 0"
      using core False by (auto simp: deal_core_def pipeline_times_def)
    ultimately show ?thesis using st(1) by (simp add: machine_agrees_def upd buyer_dispute_def)
  qed
  moreover have "pipeline_times cell' s"
    using core now st by (auto simp: deal_core_def pipeline_times_def upd deal_by_def split: if_splits)
  moreover have "static_ok c cell' s" "money_ok c cell' s" "weeks_ok cell' s"
    using core st price
    by (auto simp: deal_core_def static_ok_def money_ok_def weeks_ok_def books_ok_def Let_def upd)
  ultimately show ?thesis
    using core now price
    by (simp add: deal_kept_def deal_ok_def deal_core_def deal_by_def same_deal_def s')
      (simp add: upd)
qed

text \<open>A claim.\<close>

lemma charge_elapsed_kept:
  assumes c: "consts_ok c" and core: "deal_core c cell s"
    and run: "charge_elapsed_subscription_weeks cell s now c = Inr (cell', s', b)"
  shows "deal_core c cell' s'" and "same_deal cell s cell' s'"
    and "\<exists>x y z. cell' = cell\<lparr>sc_buyer_locked := x, sc_seller_received := y, sc_fee_accrued := z\<rparr>"
    and "sub_period_start s' = sub_period_start s"
proof -
  have "deal_core c cell' s' \<and> same_deal cell s cell' s' \<and> sub_period_start s' = sub_period_start s
    \<and> (\<exists>x y z. cell' = cell\<lparr>sc_buyer_locked := x, sc_seller_received := y, sc_fee_accrued := z\<rparr>)"
  proof (cases "is_subscription s")
    case False
    then have "cell' = cell" "s' = s" using run by (simp_all add: charge_elapsed_subscription_weeks_def)
    moreover have "\<exists>x y z. cell = cell\<lparr>sc_buyer_locked := x, sc_seller_received := y, sc_fee_accrued := z\<rparr>"
      by (rule exI [of _ "sc_buyer_locked cell"], rule exI [of _ "sc_seller_received cell"],
          rule exI [of _ "sc_fee_accrued cell"]) simp
    ultimately show ?thesis using core by simp
  next
    case True
    then obtain w where st: "sc_probe_accepted cell" "\<not> sc_closed cell" "w \<le> sub_weeks s"
      and ch: "charge_subscription_through cell s w c = Inr (cell', s', b)"
      using run by (auto simp: charge_elapsed_subscription_weeks_def result_simps
          dest: subscription_weeks_at_le)
    from charge_core [OF c core st(1,2) True st(3)] show ?thesis
      using ch by (metis Pair_inject sum.inject(2))
  qed
  then show "deal_core c cell' s'" and "same_deal cell s cell' s'"
    and "\<exists>x y z. cell' = cell\<lparr>sc_buyer_locked := x, sc_seller_received := y, sc_fee_accrued := z\<rparr>"
    and "sub_period_start s' = sub_period_start s" by simp_all
qed

lemma check_claim_cap_ok:
  assumes core: "deal_core c cell s" and run: "check_claim_cap cell s n = Inr u"
    and more: "sc_tokens_pending cell < n"
  shows "n \<le> sub_funded_tokens s"
    and "is_subscription s \<Longrightarrow> n \<le> sub_week_base_tokens s
      + (if sub_week_index s < sub_weeks s then sub_tokens_per_week s else 0)"
proof -
  have "sub_funded_tokens s = sc_max_ticks cell * TICK_SIZE"
    using core by (simp add: deal_core_def static_ok_def)
  then show "n \<le> sub_funded_tokens s"
    using run by (auto simp: check_claim_cap_def result_simps not_less)
  show "n \<le> sub_week_base_tokens s + (if sub_week_index s < sub_weeks s then sub_tokens_per_week s else 0)"
    if "is_subscription s"
    using run more that by (auto simp: check_claim_cap_def result_simps split: if_splits)
qed

lemma claim_tokens_kept:
  assumes c: "consts_ok c" and ok: "deal_ok c cell s" and now: "deal_by claim_time cell"
    and run: "claim_tokens_deal c now1 claim_time n cell s = Inr (cell', s', u)"
  shows "deal_kept c claim_time cell s cell' s'"
proof (cases "n = sc_tokens_pending cell")
  case True
  then show ?thesis using run ok now by (auto simp: claim_tokens_deal_def result_simps deal_kept_def)
next
  case False
  have core: "deal_core c cell s" and ag: "machine_agrees cell" using ok by (simp_all add: deal_ok_def)
  obtain cell1 s1 b cell2 m where st: "\<not> sc_closed cell" "\<not> sc_disputed cell" "sc_probe_accepted cell"
    and more: "sc_tokens_pending cell < n"
    and ch: "charge_elapsed_subscription_weeks cell s now1 c = Inr (cell1, s1, b)"
    and cap: "check_claim_cap cell1 s1 n = Inr ()"
    and rate: "check_claim_rate c claim_time cell1 n = Inr ()"
    and pr: "promote_due cell1 claim_time c = Inr cell2"
    and eq: "sc_tokens_pending cell2 = sc_tokens_final cell2"
    and cl: "on_claim (sc_machine cell2) (div_ceil n TICK_SIZE) = Inr m"
    and cell': "cell' = cell2\<lparr>sc_machine := m, sc_tokens_pending := n, sc_last_claim_time := claim_time\<rparr>"
    and s': "s' = s1"
    using run False
    by (auto simp: claim_tokens_deal_def result_simps charge_elapsed_subscription_weeks_def
        split: if_splits)
  note ce = charge_elapsed_kept [OF c core ch]
  obtain x y z where c1: "cell1 = cell\<lparr>sc_buyer_locked := x, sc_seller_received := y, sc_fee_accrued := z\<rparr>"
    using ce(3) by blast
  obtain t where c2: "cell2 = cell1\<lparr>sc_tokens_final := t\<rparr>" and core2: "deal_core c cell2 s1"
    using promote_due_core [OF ce(1) pr] by blast
  have more1: "sc_tokens_pending cell1 < n" using more by (simp add: c1)
  note capped = check_claim_cap_ok [OF ce(1) cap more1]
  have time: "sc_last_claim_time cell \<le> claim_time"
    using now by (simp add: deal_by_def)
  have m: "m = (sc_machine cell)\<lparr>sm_state := Streaming (div_ceil (sc_tokens_pending cell) TICK_SIZE)
      (div_ceil n TICK_SIZE)\<rparr>"
    using cl machine_streaming [OF ag st(3,1,2)] by (auto simp: on_claim_Inr c2 c1)
  have fin: "sc_tokens_final cell2 = sc_tokens_pending cell" using eq by (simp add: c2 c1)
  have "pipeline_times cell' s1"
    using core2 st time capped(1) more eq
    by (auto simp: deal_core_def pipeline_times_def cell' c2 c1 split: if_splits)
  moreover have "weeks_ok cell' s1"
    using core2 st capped(2) more by (auto simp: deal_core_def weeks_ok_def cell' c2 c1 split: if_splits)
  moreover have "static_ok c cell' s1" "money_ok c cell' s1"
    using core2 by (auto simp: deal_core_def static_ok_def money_ok_def cell' m c2 c1 books_ok_def
        Let_def drained_def cell_total_def)
  moreover have "machine_agrees cell'"
    using st fin by (simp add: machine_agrees_def cell' m c2 c1)
  ultimately show ?thesis
    using core2 ce(2) now
    by (simp add: deal_kept_def deal_ok_def deal_core_def s')
      (simp add: deal_by_def same_deal_def cell' m c2 c1)
qed

text \<open>Finalizing a claim, with the close of an ordinary deal that is fully delivered.\<close>

lemma finalize_kept:
  assumes c: "consts_ok c" and ok: "deal_ok c cell s" and now: "deal_by now cell"
    and run: "finalize_deal c now cell s = Inr (cell', s', u)"
  shows "deal_kept c now cell s cell' s'"
proof -
  have core: "deal_core c cell s" and ag: "machine_agrees cell" using ok by (simp_all add: deal_ok_def)
  obtain cell1 cell2 where st: "\<not> sc_closed cell" "\<not> sc_disputed cell" "sc_probe_accepted cell"
    and due: "sc_last_claim_time cell + claim_promote_window c \<le> now"
    and pr: "promote_due cell now c = Inr cell1"
    and pm: "promote_machine cell1 = Inr cell2"
    and rest: "(if \<not> is_subscription s \<and> sub_funded_tokens s \<le> sc_tokens_final cell2
      then bindR (credit_tokens_through cell2 s (sc_tokens_final cell2) c) (\<lambda>(cell3, s1).
           bindR (delivered_ticks cell3) (\<lambda>delivered.
           bindR (close_mock_clean cell3 delivered c) (\<lambda>(cell4, _). Inr (cell4, s1, ()))))
      else Inr (cell2, s, ())) = Inr (cell', s', ())"
    using run
    by (auto simp: finalize_deal_def has_due_claim_def claim_deadline_reached_def result_simps
        split: if_splits)
  obtain t where c1: "cell1 = cell\<lparr>sc_tokens_final := t\<rparr>" and core1: "deal_core c cell1 s"
    and t: "t = sc_tokens_pending cell"
    using promote_due_core [OF core pr] due by blast
  have c2: "cell2 = cell1\<lparr>sc_machine := (sc_machine cell)\<lparr>sm_state := Streaming
      (div_ceil (sc_tokens_pending cell) TICK_SIZE) (div_ceil (sc_tokens_pending cell) TICK_SIZE)\<rparr>\<rparr>"
    using pm machine_streaming [OF ag st(3,1,2)] by (auto simp: promote_machine_Inr c1 t)
  have core2: "deal_core c cell2 s" using core1 by (simp add: c2 c1)
  have same2: "same_deal cell s cell2 s" and clock2: "cell_clock cell2 = cell_clock cell"
    and nd: "\<not> sc_disputed cell2"
    using st by (simp_all add: same_deal_def cell_clock_def c2 c1)
  show ?thesis
  proof (cases "\<not> is_subscription s \<and> sub_funded_tokens s \<le> sc_tokens_final cell2")
    case True
    then obtain cell3 d r where cr: "credit_tokens_through cell2 s (sc_tokens_final cell2) c = Inr (cell3, s')"
      and cl: "close_mock_clean cell3 d c = Inr (cell', r)"
      using rest by (auto simp: result_simps)
    note cb = credit_base [OF deal_core_base [OF core2] cr]
    have nd3: "\<not> sc_disputed cell3" using nd cb(4) by simp
    note ck = close_kept [OF cb(1) nd3 cl]
    have "cell_clock cell' = cell_clock cell" using ck(3) cb(3) clock2 by (simp add: cell_frame_def)
    then show ?thesis
      using ck(1) same_deal_trans [OF same_deal_trans [OF same2 cb(2)] ck(2)] now
        deal_by_clock [of cell' cell now]
      by (simp add: deal_kept_def)
  next
    case False
    then have "cell' = cell2" "s' = s" using rest by (auto split: if_splits)
    moreover have "machine_agrees cell2" using st by (simp add: machine_agrees_def c2 c1 t)
    ultimately show ?thesis
      using core2 same2 now deal_by_clock [OF clock2] by (simp add: deal_kept_def deal_ok_def)
  qed
qed

section \<open>The operations that end a deal\<close>

text \<open>The common end of the clean paths: a last payment, perhaps, and the close.\<close>

lemma end_kept:
  assumes base: "deal_base c cell s" and nd: "\<not> sc_disputed cell"
    and pay: "(if owed then credit_tokens_through cell s t c else Inr (cell, s)) = Inr (cell1, s1)"
    and m: "sm_price m = cell_price cell1"
    and cl: "close_mock_clean (cell1\<lparr>sc_machine := m\<rparr>) d c = Inr (cell2, refund)"
  shows "deal_ok c cell2 s1" and "same_deal cell s cell2 s1" and "cell_clock cell2 = cell_clock cell"
proof -
  have "deal_base c cell1 s1 \<and> same_deal cell s cell1 s1 \<and> cell_clock cell1 = cell_clock cell
    \<and> \<not> sc_disputed cell1"
  proof (cases owed)
    case True
    then have cr: "credit_tokens_through cell s t c = Inr (cell1, s1)" using pay by simp
    show ?thesis using credit_base(1-4) [OF base cr] nd by (simp add: cell_frame_def)
  qed (use pay base nd in simp)
  then have mid: "deal_base c cell1 s1" "same_deal cell s cell1 s1"
    "cell_clock cell1 = cell_clock cell" "\<not> sc_disputed cell1" by simp_all
  have base': "deal_base c (cell1\<lparr>sc_machine := m\<rparr>) s1" using mid(1) m by simp
  have nd': "\<not> sc_disputed (cell1\<lparr>sc_machine := m\<rparr>)" using mid(4) by simp
  note ck = close_kept [OF base' nd' cl]
  show "deal_ok c cell2 s1" by (rule ck(1))
  show "same_deal cell s cell2 s1" using ck(2) mid(2) m by (simp add: same_deal_def)
  show "cell_clock cell2 = cell_clock cell" using ck(3) mid(3) by (simp add: cell_clock_def)
qed

lemma weeks_base:
  assumes base: "deal_base c cell s"
    and run: "(if is_subscription s then bindR (subscription_weeks_at s now b) (\<lambda>w.
        charge_subscription_through cell s w c) else Inr (cell, s, False)) = Inr (cell1, s1, x)"
  shows "deal_base c cell1 s1" and "same_deal cell s cell1 s1" and "cell_frame cell1 = cell_frame cell"
    and "sc_disputed cell1 = sc_disputed cell" and "sc_machine cell1 = sc_machine cell"
    and "sc_closed cell1 = sc_closed cell"
proof -
  have "deal_base c cell1 s1 \<and> same_deal cell s cell1 s1 \<and> cell_frame cell1 = cell_frame cell
    \<and> sc_disputed cell1 = sc_disputed cell \<and> sc_machine cell1 = sc_machine cell
    \<and> sc_closed cell1 = sc_closed cell"
  proof (cases "is_subscription s")
    case True
    then obtain w where w: "w \<le> sub_weeks s"
      and ch: "charge_subscription_through cell s w c = Inr (cell1, s1, x)"
      using run by (auto simp: result_simps dest: subscription_weeks_at_le)
    show ?thesis using charge_base [OF base w ch] by simp
  qed (use run base in simp)
  then show "deal_base c cell1 s1" and "same_deal cell s cell1 s1" and "cell_frame cell1 = cell_frame cell"
    and "sc_disputed cell1 = sc_disputed cell" and "sc_machine cell1 = sc_machine cell"
    and "sc_closed cell1 = sc_closed cell" by simp_all
qed

lemma stopped_price:
  "map_option snd (buyer_stop m) = Some m' \<Longrightarrow> sm_price m' = sm_price m"
  "map_option snd (seller_stop_machine m) = Some m' \<Longrightarrow> sm_price m' = sm_price m"
  "buyer_stop m = Some (r, m') \<Longrightarrow> sm_price m' = sm_price m"
  by (auto simp: buyer_stop_def seller_stop_machine_def Let_def split: StreamState.splits)

text \<open>The stop settlement a buyer's stop records is outside the invariant.\<close>

lemma deal_ok_stop_record [simp]:
  "deal_ok c (cell\<lparr>sc_buyer_stop_settlement := x\<rparr>) s = deal_ok c cell s"
proof -
  have "static_ok c (cell\<lparr>sc_buyer_stop_settlement := x\<rparr>) s = static_ok c cell s"
    "pipeline_times (cell\<lparr>sc_buyer_stop_settlement := x\<rparr>) s = pipeline_times cell s"
    "money_ok c (cell\<lparr>sc_buyer_stop_settlement := x\<rparr>) s = money_ok c cell s"
    "weeks_ok (cell\<lparr>sc_buyer_stop_settlement := x\<rparr>) s = weeks_ok cell s"
    by (simp_all add: static_ok_def pipeline_times_def money_ok_def weeks_ok_def books_ok_def
        drained_def cell_total_def)
  moreover have "machine_agrees (cell\<lparr>sc_buyer_stop_settlement := x\<rparr>) = machine_agrees cell"
    by (simp add: machine_agrees_def split: StreamState.split)
  ultimately show ?thesis by (simp add: deal_ok_def deal_core_def)
qed

lemma promoted_weeks:
  assumes base: "deal_base c cell s" and pr: "promote_due cell now1 c = Inr cell1"
    and wk: "(if is_subscription s then bindR (subscription_weeks_at s now2 b) (\<lambda>w.
        charge_subscription_through cell1 s w c) else Inr (cell1, s, False)) = Inr (cell2, s1, x)"
  shows "deal_base c cell2 s1" and "same_deal cell s cell2 s1" and "cell_clock cell2 = cell_clock cell"
    and "sc_disputed cell2 = sc_disputed cell" and "sc_machine cell2 = sc_machine cell"
proof -
  obtain t where c1: "cell1 = cell\<lparr>sc_tokens_final := t\<rparr>" using promote_base(2) [OF base pr] by blast
  note wb = weeks_base [OF promote_base(1) [OF base pr] wk]
  show "deal_base c cell2 s1" by (rule wb(1))
  show "same_deal cell s cell2 s1" using wb(2) by (simp add: same_deal_def c1)
  show "cell_clock cell2 = cell_clock cell" using wb(3) by (simp add: frame_defs c1)
  show "sc_disputed cell2 = sc_disputed cell" "sc_machine cell2 = sc_machine cell"
    using wb(4,5) by (simp_all add: c1)
qed

lemma accepted_stop_kept:
  assumes base: "deal_base c cell s" and nd: "\<not> sc_disputed cell"
    and run: "accepted_stop cell s now1 now2 c = Inr (cell', s', r)"
  shows "deal_ok c cell' s'" and "same_deal cell s cell' s'" and "cell_clock cell' = cell_clock cell"
proof -
  obtain cell1 cell2 s1 x cell3 d m cell4 refund where
    pr: "promote_due cell now1 c = Inr cell1"
    and wk: "(if is_subscription s then bindR (subscription_weeks_at s now2 True) (\<lambda>w.
        charge_subscription_through cell1 s w c) else Inr (cell1, s, False)) = Inr (cell2, s1, x)"
    and pay: "(if sub_tokens_paid s1 < sc_tokens_final cell2
      then credit_tokens_through cell2 s1 (sc_tokens_final cell2) c else Inr (cell2, s1)) = Inr (cell3, s')"
    and stp: "map_option snd (buyer_stop (sc_machine cell3)) = Some m"
    and cl: "close_mock_clean (cell3\<lparr>sc_machine := m\<rparr>) d c = Inr (cell4, refund)"
    and cell': "cell' = cell4\<lparr>sc_buyer_stop_settlement := Some (sc_seller_received cell4, refund)\<rparr>"
    using run by (auto simp: accepted_stop_def bindR_Inr_iff ok_or_else_Inr_iff)
  note pw = promoted_weeks [OF base pr wk]
  have nd2: "\<not> sc_disputed cell2" using pw(4) nd by simp
  note ek = end_kept [OF pw(1) nd2 pay stopped_price(1) [OF stp] cl]
  show "deal_ok c cell' s'" using ek(1) by (simp add: cell')
  show "same_deal cell s cell' s'"
    using same_deal_trans [OF pw(2) ek(2)] by (simp add: same_deal_def cell')
  show "cell_clock cell' = cell_clock cell" using ek(3) pw(3) by (simp add: cell_clock_def cell')
qed

text \<open>On the probe both stops empty the cell at once.\<close>

lemma probe_drain_kept:
  assumes core: "deal_core c cell s" and nd: "\<not> sc_disputed cell"
    and cell': "cell' = drain (cell\<lparr>sc_burned := x, sc_buyer_refunded := y, sc_seller_received := z\<rparr>) m"
    and m: "sm_state m = Closed" "sm_price m = cell_price cell"
    and tot: "cell_total cell' = cell_total cell" and fee: "sc_fee_accrued cell = 0"
  shows "deal_ok c cell' s" and "same_deal cell s cell' s" and "cell_clock cell' = cell_clock cell"
proof -
  have fr: "cell_frame cell' = cell_frame cell" and pr: "cell_price cell' = cell_price cell"
    and cl: "sc_closed cell'" "\<not> sc_disputed cell'" "drained cell'" "sm_state (sc_machine cell') = Closed"
    using nd m fee by (simp_all add: cell' drain_def frame_defs drained_def)
  show "deal_ok c cell' s"
    using closed_deal_ok deal_base_frame [OF deal_core_base [OF core] fr pr tot cl(1,2)] cl by blast
  show "same_deal cell s cell' s" and "cell_clock cell' = cell_clock cell"
    using fr pr by (simp_all add: same_deal_def frame_defs)
qed

lemma deal_core_probe_fee:
  "deal_core c cell s \<Longrightarrow> \<not> sc_closed cell \<Longrightarrow> \<not> sc_probe_accepted cell \<Longrightarrow> sc_fee_accrued cell = 0"
  by (simp add: deal_core_def money_ok_def Let_def)

lemma probe_stop_shape:
  assumes "probe_stop cell = Inr (cell', r)"
  shows "\<exists>x y z m. cell' = drain (cell\<lparr>sc_burned := x, sc_buyer_refunded := y, sc_seller_received := z\<rparr>) m
    \<and> sm_state m = Closed \<and> sm_price m = cell_price cell"
proof -
  obtain burn m x y z where "buyer_stop (sc_machine cell) = Some (BurnBoth burn, m)"
    and "cell' = drain (cell\<lparr>sc_burned := x, sc_buyer_refunded := y, sc_seller_received := z\<rparr>)
      (close_machine m)"
    using assms
    by (auto simp: probe_stop_def result_simps Let_def split: option.splits prod.splits Settlement.splits)
  then show ?thesis using stopped_price(3) by (fastforce simp: close_machine_def)
qed

lemma stop_kept:
  assumes ok: "deal_ok c cell s" and now: "deal_by now cell"
    and run: "stop_mock_deal cell s now1 now2 c = Inr (cell', s', r)"
  shows "deal_kept c now cell s cell' s'"
proof -
  have core: "deal_core c cell s" using ok by (simp add: deal_ok_def)
  have st: "\<not> sc_closed cell" "\<not> sc_disputed cell"
    using run by (auto simp: stop_mock_deal_def result_simps)
  have "deal_ok c cell' s' \<and> same_deal cell s cell' s' \<and> cell_clock cell' = cell_clock cell"
  proof (cases "sc_probe_accepted cell")
    case True
    then have "accepted_stop cell s now1 now2 c = Inr (cell', s', r)"
      using run by (simp add: stop_mock_deal_def result_simps)
    from accepted_stop_kept [OF deal_core_base [OF core] st(2) this] show ?thesis by simp
  next
    case False
    then have ps: "probe_stop cell = Inr (cell', r)" and s': "s' = s"
      using run by (auto simp: stop_mock_deal_def result_simps)
    obtain x y z m where eq: "cell' = drain (cell\<lparr>sc_burned := x, sc_buyer_refunded := y,
        sc_seller_received := z\<rparr>) m" and m: "sm_state m = Closed" "sm_price m = cell_price cell"
      using probe_stop_shape [OF ps] by blast
    from probe_drain_kept [OF core st(2) eq m probe_stop_total(1) [OF ps]]
      deal_core_probe_fee [OF core st(1) False]
    show ?thesis by (simp add: s')
  qed
  then show ?thesis using now deal_by_clock [of cell' cell now] by (simp add: deal_kept_def)
qed

text \<open>The seller's stop.\<close>

lemma seller_stop_probe_iff:
  "seller_stop_probe cell = Inr (cell', r) \<longleftrightarrow>
    (let burn = min (cell_price cell) (sc_seller_locked cell);
         refund = sc_buyer_locked cell + sc_probe_locked cell + sc_buyer_bond cell in
     refund \<le> U128_MAX \<and> sc_burned cell + burn \<le> U128_MAX
     \<and> sc_buyer_refunded cell + refund \<le> U128_MAX
     \<and> sc_seller_received cell + (sc_seller_locked cell - burn) \<le> U128_MAX
     \<and> cell' = drain (cell\<lparr>sc_burned := sc_burned cell + burn,
         sc_buyer_refunded := sc_buyer_refunded cell + refund,
         sc_seller_received := sc_seller_received cell + (sc_seller_locked cell - burn)\<rparr>)
         (close_machine (sc_machine cell))
     \<and> r = AmicableSplit 0 refund)"
  by (auto simp: seller_stop_probe_def result_simps Let_def)

lemma seller_stop_probe_total:
  "seller_stop_probe cell = Inr (cell', r) \<Longrightarrow> cell_total cell' = cell_total cell"
  by (auto simp: seller_stop_probe_iff Let_def drain_def cell_total_def)

lemma seller_stop_accepted_kept:
  assumes base: "deal_base c cell s" and nd: "\<not> sc_disputed cell"
    and run: "seller_stop_accepted c now1 now2 cell s = Inr (cell', s', r)"
  shows "deal_ok c cell' s'" and "same_deal cell s cell' s'" and "cell_clock cell' = cell_clock cell"
proof -
  obtain cell1 cell2 s1 x cell3 d m refund where
    pr: "promote_due cell now1 c = Inr cell1"
    and wk: "(if is_subscription s then bindR (subscription_weeks_at s now2 False) (\<lambda>w.
        charge_subscription_through cell1 s w c) else Inr (cell1, s, False)) = Inr (cell2, s1, x)"
    and pay: "(if \<not> is_subscription s1 \<and> sub_tokens_paid s1 < sc_tokens_final cell2
      then credit_tokens_through cell2 s1 (sc_tokens_final cell2) c else Inr (cell2, s1)) = Inr (cell3, s')"
    and stp: "map_option snd (seller_stop_machine (sc_machine cell3)) = Some m"
    and cl: "close_mock_clean (cell3\<lparr>sc_machine := m\<rparr>) d c = Inr (cell', refund)"
    using run by (auto simp: seller_stop_accepted_def bindR_Inr_iff ok_or_else_Inr_iff)
  note pw = promoted_weeks [OF base pr wk]
  have nd2: "\<not> sc_disputed cell2" using pw(4) nd by simp
  note ek = end_kept [OF pw(1) nd2 pay stopped_price(2) [OF stp] cl]
  show "deal_ok c cell' s'" by (rule ek(1))
  show "same_deal cell s cell' s'" by (rule same_deal_trans [OF pw(2) ek(2)])
  show "cell_clock cell' = cell_clock cell" using ek(3) pw(3) by simp
qed

lemma seller_stop_kept:
  assumes ok: "deal_ok c cell s" and now: "deal_by now cell"
    and run: "seller_stop_deal c now1 now2 cell s = Inr (cell', s', r)"
  shows "deal_kept c now cell s cell' s'"
proof -
  have core: "deal_core c cell s" using ok by (simp add: deal_ok_def)
  have st: "\<not> sc_closed cell" "\<not> sc_disputed cell"
    using run by (auto simp: seller_stop_deal_def result_simps)
  have "deal_ok c cell' s' \<and> same_deal cell s cell' s' \<and> cell_clock cell' = cell_clock cell"
  proof (cases "sc_probe_accepted cell")
    case True
    then have "seller_stop_accepted c now1 now2 cell s = Inr (cell', s', r)"
      using run by (simp add: seller_stop_deal_def result_simps)
    from seller_stop_accepted_kept [OF deal_core_base [OF core] st(2) this] show ?thesis by simp
  next
    case False
    then have ps: "seller_stop_probe cell = Inr (cell', r)" and s': "s' = s"
      using run by (auto simp: seller_stop_deal_def result_simps)
    have "\<exists>x y z. cell' = drain (cell\<lparr>sc_burned := x, sc_buyer_refunded := y, sc_seller_received := z\<rparr>)
        (close_machine (sc_machine cell))"
      using ps by (auto simp: seller_stop_probe_iff Let_def)
    then obtain x y z where eq: "cell' = drain (cell\<lparr>sc_burned := x, sc_buyer_refunded := y,
        sc_seller_received := z\<rparr>) (close_machine (sc_machine cell))" by blast
    from probe_drain_kept [OF core st(2) eq _ _ seller_stop_probe_total [OF ps]]
      deal_core_probe_fee [OF core st(1) False]
    show ?thesis by (simp add: s' close_machine_def)
  qed
  then show ?thesis using now deal_by_clock [of cell' cell now] by (simp add: deal_kept_def)
qed

text \<open>Settling a crossed week, with the close at the end of the term.\<close>

lemma settle_week_kept:
  assumes c: "consts_ok c" and ok: "deal_ok c cell s" and now: "deal_by now cell"
    and run: "settle_week_deal c now cell s = Inr (cell', s', u)"
  shows "deal_kept c now cell s cell' s'"
proof -
  have core: "deal_core c cell s" and ag: "machine_agrees cell" using ok by (simp_all add: deal_ok_def)
  obtain cell1 s1 b ended where sub: "is_subscription s"
    and ch: "charge_elapsed_subscription_weeks cell s now c = Inr (cell1, s1, b)"
    and rest: "(if ended then
        bindR (promote_due cell1 now c) (\<lambda>cell2. bindR (promote_machine cell2) (\<lambda>cell3.
        bindR (if sub_tokens_paid s1 < sc_tokens_final cell3
               then credit_tokens_through cell3 s1 (sc_tokens_final cell3) c
               else Inr (cell3, s1)) (\<lambda>(cell4, s2).
        bindR (delivered_ticks cell4) (\<lambda>delivered.
        bindR (close_mock_clean cell4 delivered c) (\<lambda>(cell5, _). Inr (cell5, s2, ()))))))
      else Inr (cell1, s1, ())) = Inr (cell', s', ())"
    using run by (auto simp: settle_week_deal_def bindR_Inr_iff refuse_if_Inr_iff)
  have st: "\<not> sc_disputed cell"
    using ch sub by (auto simp: charge_elapsed_subscription_weeks_def result_simps)
  note ce = charge_elapsed_kept [OF c core ch]
  obtain x y z where c1: "cell1 = cell\<lparr>sc_buyer_locked := x, sc_seller_received := y, sc_fee_accrued := z\<rparr>"
    using ce(3) by blast
  show ?thesis
  proof (cases ended)
    case False
    moreover have "machine_agrees cell1"
      using ag by (simp add: machine_agrees_def c1 split: StreamState.splits)
    ultimately show ?thesis using rest ce(1,2) now by (auto simp: deal_kept_def deal_ok_def deal_by_def c1)
  next
    case True
    then obtain cell2 cell3 cell4 d r where pr: "promote_due cell1 now c = Inr cell2"
      and pm: "promote_machine cell2 = Inr cell3"
      and pay: "(if sub_tokens_paid s1 < sc_tokens_final cell3
        then credit_tokens_through cell3 s1 (sc_tokens_final cell3) c else Inr (cell3, s1)) = Inr (cell4, s')"
      and cl: "close_mock_clean (cell4\<lparr>sc_machine := sc_machine cell4\<rparr>) d c = Inr (cell', r)"
      using rest by (auto simp: bindR_Inr_iff)
    note pb = promote_base [OF deal_core_base [OF ce(1)] pr]
    obtain t where c2: "cell2 = cell1\<lparr>sc_tokens_final := t\<rparr>" using pb(2) by blast
    have "\<exists>m. cell3 = cell2\<lparr>sc_machine := m\<rparr> \<and> sm_price m = cell_price cell2"
      using pm by (auto simp: promote_machine_Inr split: if_splits intro: exI [of _ "sc_machine cell2"])
    then obtain m where c3: "cell3 = cell2\<lparr>sc_machine := m\<rparr>" and m: "sm_price m = cell_price cell2"
      by blast
    have base3: "deal_base c cell3 s1" using pb(1) m by (simp add: c3)
    have nd3: "\<not> sc_disputed cell3" using st by (simp add: c3 c2 c1)
    note ek = end_kept [OF base3 nd3 pay refl cl]
    have "same_deal cell s cell3 s1" using ce(2) m by (simp add: same_deal_def c3 c2 c1)
    moreover have "cell_clock cell' = cell_clock cell" using ek(3) by (simp add: cell_clock_def c3 c2 c1)
    ultimately show ?thesis
      using ek(1,2) same_deal_trans now deal_by_clock [of cell' cell now]
      by (auto simp: deal_kept_def)
  qed
qed

text \<open>Resolving a dispute.\<close>

lemma void_claims_shape:
  assumes "void_claims_at cell at c = Inr cell'"
    and "sc_tokens_final cell \<le> sc_tokens_pending cell"
  shows "\<exists>t. cell' = cell\<lparr>sc_tokens_final := t, sc_tokens_pending := t\<rparr>
    \<and> sc_tokens_final cell \<le> t \<and> t \<le> sc_tokens_pending cell"
proof -
  from assms(1) have "cell' = cell\<lparr>sc_tokens_final := sc_tokens_pending cell,
      sc_tokens_pending := sc_tokens_pending cell\<rparr>
    \<or> cell' = cell\<lparr>sc_tokens_final := sc_tokens_final cell, sc_tokens_pending := sc_tokens_final cell\<rparr>"
    by (auto simp: void_claims_at_def result_simps Let_def split: if_splits)
  then show ?thesis using assms(2) by blast
qed

lemma resolved_machine_closed:
  "resolved_machine m b = Some m' \<Longrightarrow> sm_state m' = Closed \<and> sm_price m' = sm_price m"
  by (auto simp: resolved_machine_def release_dispute_machine_def resolve_dispute_timeout_machine_def
      Let_def split: StreamState.splits if_splits)

lemma finish_dispute_shape:
  assumes "finish_dispute cell s c b = Inr (cell', refund, bond)"
  shows "cell_frame cell' = cell_frame cell" and "\<not> sc_disputed cell'"
    and "sm_state (sc_machine cell') = Closed" and "cell_price cell' = cell_price cell"
  using assms
  by (auto simp: finish_dispute_def result_simps settle_mock_fees_iff drain_def frame_defs
      dest: resolved_machine_closed)

lemma take_stake_shape:
  "take_stake cell s x b = Inr cell' \<Longrightarrow> cell_frame cell' = cell_frame cell
    \<and> sc_machine cell' = sc_machine cell"
  by (auto simp: take_stake_def result_simps Let_def frame_defs split: if_splits)

lemma credit_token_delta_shape:
  "credit_token_delta cell x c = Inr cell' \<Longrightarrow> cell_frame cell' = cell_frame cell
    \<and> sc_machine cell' = sc_machine cell"
  by (auto simp: money_iffs frame_defs)

text \<open>The steps of a resolution, with the state each leaves.\<close>

lemma resolve_steps:
  assumes "resolve_mock_dispute cell s c b = Inr (cell', s', refund, bond)"
  obtains cell1 s1 y v cell2 cell3 cell4 where
    "(if is_subscription s \<and> sc_probe_accepted cell
      then bindR (subscription_weeks_at s (sc_dispute_time cell) False) (\<lambda>w.
           charge_subscription_through cell s w c)
      else Inr (cell, s, False)) = Inr (cell1, s1, y)"
    and "void_claims_at cell1 (sc_dispute_time cell1) c = Inr cell2"
    and "credit_token_delta cell2 (sc_tokens_final cell2 - claim_base s1) c = Inr cell3"
    and "take_stake cell3 s1 (dispute_stake cell1 s1 v) b = Inr cell4"
    and "s' = s1\<lparr>sub_tokens_paid := max (sub_tokens_paid s1) (sc_tokens_final cell2)\<rparr>"
    and "finish_dispute cell4 s' c b = Inr (cell', refund, bond)"
    and "sc_disputed cell"
  using assms by (auto simp: resolve_mock_dispute_def bindR_Inr_iff ok_or_else_Inr_iff
      refuse_if_Inr_iff Let_def)

lemma resolve_kept:
  assumes ok: "deal_ok c cell s" and now: "deal_by now cell"
    and run: "resolve_deal c b cell s = Inr (cell', s', r)"
  shows "deal_kept c now cell s cell' s'"
proof -
  have core: "deal_core c cell s" using ok by (simp add: deal_ok_def)
  obtain refund bond where rd: "resolve_mock_dispute cell s c b = Inr (cell', s', refund, bond)"
    using run by (auto simp: resolve_deal_def result_simps)
  obtain cell1 s1 y v cell2 cell3 cell4 where
    wk: "(if is_subscription s \<and> sc_probe_accepted cell
      then bindR (subscription_weeks_at s (sc_dispute_time cell) False) (\<lambda>w.
           charge_subscription_through cell s w c)
      else Inr (cell, s, False)) = Inr (cell1, s1, y)"
    and void: "void_claims_at cell1 (sc_dispute_time cell1) c = Inr cell2"
    and cr: "credit_token_delta cell2 (sc_tokens_final cell2 - claim_base s1) c = Inr cell3"
    and tk: "take_stake cell3 s1 (dispute_stake cell1 s1 v) b = Inr cell4"
    and s': "s' = s1\<lparr>sub_tokens_paid := max (sub_tokens_paid s1) (sc_tokens_final cell2)\<rparr>"
    and fin: "finish_dispute cell4 s' c b = Inr (cell', refund, bond)"
    and "sc_disputed cell"
    by (rule resolve_steps [OF rd])
  have "deal_base c cell1 s1 \<and> same_deal cell s cell1 s1 \<and> cell_frame cell1 = cell_frame cell"
  proof (cases "is_subscription s \<and> sc_probe_accepted cell")
    case True
    then show ?thesis using weeks_base [OF deal_core_base [OF core], of "sc_dispute_time cell" False cell1 s1 y] wk
      by simp
  qed (use wk deal_core_base [OF core] in \<open>auto split: if_splits\<close>)
  then have base1: "deal_base c cell1 s1" and same1: "same_deal cell s cell1 s1"
    and fr1: "cell_frame cell1 = cell_frame cell" by simp_all
  obtain t where c2: "cell2 = cell1\<lparr>sc_tokens_final := t, sc_tokens_pending := t\<rparr>"
    and t: "sc_tokens_final cell1 \<le> t" "t \<le> sc_tokens_pending cell1"
    using void_claims_shape [OF void] base1 by (auto simp: deal_base_def pipeline_times_def)
  note sh = finish_dispute_shape [OF fin] and cs = credit_token_delta_shape [OF cr] and ts = take_stake_shape [OF tk]
  note tot = resolve_mock_dispute_total [OF rd]
  have fr: "cell_frame cell' = cell_frame cell2" and price: "cell_price cell' = cell_price cell1"
    using sh(1,4) cs ts by (simp_all add: c2)
  have same: "same_deal cell s cell' s'"
    using same1 fr price by (simp add: same_deal_def s' c2 frame_defs)
  have "shape_ok s'" using base1 t by (auto simp: deal_base_def shape_ok_def s' c2 pipeline_times_def)
  moreover have "static_ok c cell' s'"
    using base1 fr price by (auto simp: deal_base_def static_ok_def s' c2 frame_defs)
  moreover have "pipeline_times cell' s'"
    using base1 fr t tot(3) sh(2)
    by (auto simp: deal_base_def pipeline_times_def s' c2 frame_defs split: if_splits)
  ultimately have "deal_base c cell' s'"
    using tot(1) deal_core_base [OF core] same_deal_funds [OF same] by (simp add: deal_base_def)
  moreover have "cell_clock cell' = cell_clock cell" using fr fr1 by (simp add: frame_defs c2)
  ultimately show ?thesis
    using closed_deal_ok tot(2,3) sh(2,3) same now deal_by_clock [of cell' cell now]
    by (simp add: deal_kept_def)
qed

section \<open>The contract of a deal operation\<close>

text \<open>
  An operation on one deal, with the last of its clock reads as an argument. Its contract is that on
  a deal in order whose clocks are not ahead, a successful run leaves the same deal, in order and
  not ahead.
\<close>

locale deal_operation =
  fixes c :: ProtocolConsts
    and deal_op :: "u64 \<Rightarrow> StreamCell \<Rightarrow> DealSubscription
      \<Rightarrow> ChainError + StreamCell \<times> DealSubscription \<times> 'r"
  assumes op_kept: "consts_ok c \<Longrightarrow> deal_ok c cell s \<Longrightarrow> deal_by now cell \<Longrightarrow>
    deal_op now cell s = Inr (cell', s', r) \<Longrightarrow> deal_kept c now cell s cell' s'"
begin

text \<open>Whatever the operation does, the money of the deal stays the money of the deal.\<close>

lemma op_conserves:
  assumes "consts_ok c" and "deal_ok c cell s" and "deal_by now cell"
    and "deal_op now cell s = Inr (cell', s', r)"
  shows "cell_total cell' = cell_total cell"
proof -
  have k: "deal_ok c cell' s'" "same_deal cell s cell' s'"
    using op_kept [OF assms] by (simp_all add: deal_kept_def)
  have "cell_total cell' = deal_funds c cell' s'" "cell_total cell = deal_funds c cell s"
    using k(1) assms(2) deal_core_total by (simp_all add: deal_ok_def deal_funds_def)
  then show ?thesis using same_deal_funds [OF k(2)] by simp
qed

text \<open>An operation that leaves the deal closed has paid everything out.\<close>

lemma op_closes_drained:
  assumes "consts_ok c" and "deal_ok c cell s" and "deal_by now cell"
    and "deal_op now cell s = Inr (cell', s', r)" and "sc_closed cell'"
  shows "drained cell'" and "sc_seller_received cell' + sc_buyer_refunded cell' + sc_burned cell'
    = deal_funds c cell s"
proof -
  have k: "deal_ok c cell' s'" "same_deal cell s cell' s'"
    using op_kept [OF assms(1-4)] by (simp_all add: deal_kept_def)
  then show d: "drained cell'"
    using assms(5) by (simp add: deal_ok_def deal_core_def money_ok_def Let_def)
  have "cell_total cell' = deal_funds c cell s"
    using deal_core_base [of c cell' s'] k(1) same_deal_funds [OF k(2)]
    by (simp add: deal_ok_def deal_base_def)
  then show "sc_seller_received cell' + sc_buyer_refunded cell' + sc_burned cell' = deal_funds c cell s"
    using d by (simp add: cell_total_def drained_def)
qed

end

interpretation accept_op: deal_operation c "accept_probe_deal c" for c
  by unfold_locales (rule accept_probe_kept)

interpretation claim_op: deal_operation c "\<lambda>now. claim_tokens_deal c now1 now n" for c now1 n
  by unfold_locales (rule claim_tokens_kept)

interpretation finalize_op: deal_operation c "finalize_deal c" for c
  by unfold_locales (rule finalize_kept)

interpretation week_op: deal_operation c "settle_week_deal c" for c
  by unfold_locales (rule settle_week_kept)

interpretation stop_op: deal_operation c "\<lambda>now cell s. stop_mock_deal cell s now1 now2 c" for c now1 now2
  by unfold_locales (rule stop_kept)

interpretation seller_stop_op: deal_operation c "\<lambda>now. seller_stop_deal c now1 now2" for c now1 now2
  by unfold_locales (rule seller_stop_kept)

interpretation dispute_op: deal_operation c "\<lambda>now. dispute_deal now tc" for c tc
  by unfold_locales (rule dispute_kept)

interpretation resolve_op: deal_operation c "\<lambda>now. resolve_deal c b" for c b
  by unfold_locales (rule resolve_kept)

end
