(* ===== verification/MockReach.thy ===== *)
theory MockReach
  imports MockOperations
begin

unbundle bit_operations_syntax

text \<open>
  The invariant of the whole state of the mock chain. \<open>mock_ok\<close> says that offers are valid and have
  a seller, that no contract is both offered and matched, that every match has its shape, its offer,
  its volume and its time, and that every opened stream is a deal in order bound to its match. Every
  operation of the backend keeps it (rule induction over \<open>mock_reach\<close>), and it implies the checks
  every load makes, so a state the backend wrote is one it accepts again.
\<close>

section \<open>The invariant of the state\<close>

definition fresh_shape :: "ProtocolConsts \<Rightarrow> u64 \<Rightarrow> shell \<Rightarrow> DealSubscription \<Rightarrow> bool" where
  "fresh_shape c now p s \<longleftrightarrow> shape_ok s \<and> sub_tokens_paid s = 0 \<and> sub_week_index s = 0
    \<and> sub_week_base_tokens s = 0 \<and> sub_period_start s \<le> now
    \<and> value_of c p (sub_funded_tokens s) \<le> U128_MAX"

definition offer_ok :: "ProtocolConsts \<Rightarrow> token_contract \<Rightarrow> SellOffer \<Rightarrow> bool" where
  "offer_ok c tc o1 \<longleftrightarrow> so_token_contract o1 = tc \<and> validate_mock_sell_offer o1 c = Inr ()
    \<and> so_price_per_tick o1 \<le> U64_MAX \<and> so_max_ticks o1 \<le> U64_MAX"

text \<open>The deal of a match: what the maps of the state hold for one matched contract.\<close>

definition stream_ok ::
  "ProtocolConsts \<Rightarrow> u64 \<Rightarrow> Match \<Rightarrow> u64 \<Rightarrow> DealSubscription \<Rightarrow> StreamCell option \<Rightarrow> bool" where
  "stream_ok c now m ticks s cell =
    (case cell of
       None \<Rightarrow> fresh_shape c now (mt_price_per_tick m) s
     | Some cell \<Rightarrow> deal_ok c cell s \<and> deal_by now cell
         \<and> sc_buyer_pubkey cell = mt_buyer_pubkey m \<and> cell_price cell = mt_price_per_tick m
         \<and> sc_max_ticks cell = ticks)"

definition match_ok ::
  "ProtocolConsts \<Rightarrow> u64 \<Rightarrow> token_contract \<Rightarrow> Match \<Rightarrow> DealSubscription option \<Rightarrow> SellOffer option
    \<Rightarrow> u64 option \<Rightarrow> string option \<Rightarrow> i64 option \<Rightarrow> StreamCell option \<Rightarrow> bool" where
  "match_ok c now tc m sub offer ticks seller created cell \<longleftrightarrow>
    (\<exists>s o1 n who at. sub = Some s \<and> offer = Some o1 \<and> ticks = Some n \<and> seller = Some who
      \<and> created = Some at \<and> 0 < at \<and> at \<le> int now
      \<and> mt_token_contract m = tc \<and> offer_ok c tc o1 \<and> mt_price_per_tick m = so_price_per_tick o1
      \<and> MIN_STREAM_BUY_TICKS \<le> n \<and> n \<le> so_max_ticks o1 \<and> sub_funded_tokens s = n * TICK_SIZE
      \<and> sub_deal_flags s = so_flags o1 AND DEAL_MASK \<and> stream_ok c now m n s cell)"

definition keys_ok :: "MockState \<Rightarrow> bool" where
  "keys_ok st \<longleftrightarrow> distinct_keys (ms_deal_subscriptions st) \<and> distinct_keys (ms_streams st)
    \<and> distinct_keys (ms_matches st) \<and> distinct_keys (ms_offers st)"

definition sell_side_ok :: "ProtocolConsts \<Rightarrow> MockState \<Rightarrow> bool" where
  "sell_side_ok c st \<longleftrightarrow>
    (\<forall>tc o1. hget (ms_offers st) tc = Some o1 \<longrightarrow> offer_ok c tc o1
      \<and> contains_key (ms_offer_sellers st) tc \<and> \<not> contains_key (ms_matches st) tc)
    \<and> (\<forall>tc who. hget (ms_offer_sellers st) tc = Some who \<longrightarrow> is_canonical_hex who)"

definition deal_at :: "ProtocolConsts \<Rightarrow> u64 \<Rightarrow> MockState \<Rightarrow> token_contract \<Rightarrow> bool" where
  "deal_at c now st tc =
    (case hget (ms_matches st) tc of
       None \<Rightarrow> \<not> contains_key (ms_deal_subscriptions st) tc \<and> \<not> contains_key (ms_matched_offers st) tc
         \<and> \<not> contains_key (ms_matched_ticks st) tc \<and> \<not> contains_key (ms_match_created_at st) tc
         \<and> \<not> contains_key (ms_streams st) tc
     | Some m \<Rightarrow> match_ok c now tc m (hget (ms_deal_subscriptions st) tc)
         (hget (ms_matched_offers st) tc) (hget (ms_matched_ticks st) tc)
         (hget (ms_offer_sellers st) tc) (hget (ms_match_created_at st) tc)
         (hget (ms_streams st) tc))"

definition mock_ok :: "ProtocolConsts \<Rightarrow> u64 \<Rightarrow> MockState \<Rightarrow> bool" where
  "mock_ok c now st \<longleftrightarrow> keys_ok st \<and> sell_side_ok c st \<and> (\<forall>tc. deal_at c now st tc)"

lemma mock_ok_default: "mock_ok c now default_state"
  by (simp add: mock_ok_def keys_ok_def sell_side_ok_def deal_at_def default_state_def
      contains_key_def)

lemma stream_ok_mono: "stream_ok c now m n s cell \<Longrightarrow> now \<le> now' \<Longrightarrow> stream_ok c now' m n s cell"
  by (auto simp: stream_ok_def fresh_shape_def deal_by_def split: option.splits)

lemma match_ok_mono:
  assumes "match_ok c now tc m sub offer ticks seller created cell" and "now \<le> now'"
  shows "match_ok c now' tc m sub offer ticks seller created cell"
  using assms(1) unfolding match_ok_def
  by (elim ex_forward) (use assms(2) stream_ok_mono in auto)

lemma deal_at_mono: "deal_at c now st tc \<Longrightarrow> now \<le> now' \<Longrightarrow> deal_at c now' st tc"
  by (auto simp: deal_at_def intro: match_ok_mono split: option.splits)

lemma mock_ok_mono: "mock_ok c now st \<Longrightarrow> now \<le> now' \<Longrightarrow> mock_ok c now' st"
  by (auto simp: mock_ok_def intro: deal_at_mono)

section \<open>The checks of a load\<close>

lemma deal_at_match:
  "deal_at c now st tc \<Longrightarrow> hget (ms_matches st) tc = Some m \<Longrightarrow>
    match_ok c now tc m (hget (ms_deal_subscriptions st) tc) (hget (ms_matched_offers st) tc)
    (hget (ms_matched_ticks st) tc) (hget (ms_offer_sellers st) tc) (hget (ms_match_created_at st) tc)
    (hget (ms_streams st) tc)"
  by (simp add: deal_at_def)

lemma deal_at_keys:
  assumes "deal_at c now st tc"
    and "contains_key (ms_deal_subscriptions st) tc \<or> contains_key (ms_matched_offers st) tc
      \<or> contains_key (ms_matched_ticks st) tc \<or> contains_key (ms_match_created_at st) tc
      \<or> contains_key (ms_streams st) tc"
  shows "contains_key (ms_matches st) tc"
  using assms by (auto simp: deal_at_def contains_key_def split: option.splits)

text \<open>The deal of a match, as the maps hold it.\<close>

lemma mock_ok_deal:
  assumes ok: "mock_ok c now st" and m: "hget (ms_matches st) tc = Some m"
  obtains s o1 n who at where "hget (ms_deal_subscriptions st) tc = Some s"
    and "hget (ms_matched_offers st) tc = Some o1" and "hget (ms_matched_ticks st) tc = Some n"
    and "hget (ms_offer_sellers st) tc = Some who" and "is_canonical_hex who"
    and "hget (ms_match_created_at st) tc = Some at" and "0 < at" and "at \<le> int now"
    and "mt_token_contract m = tc" and "offer_ok c tc o1" and "mt_price_per_tick m = so_price_per_tick o1"
    and "MIN_STREAM_BUY_TICKS \<le> n" and "n \<le> so_max_ticks o1" and "sub_funded_tokens s = n * TICK_SIZE"
    and "sub_deal_flags s = so_flags o1 AND DEAL_MASK" and "stream_ok c now m n s (hget (ms_streams st) tc)"
proof -
  have at: "deal_at c now st tc"
    and can: "\<And>who. hget (ms_offer_sellers st) tc = Some who \<Longrightarrow> is_canonical_hex who"
    using ok by (auto simp: mock_ok_def sell_side_ok_def)
  from deal_at_match [OF at m] show thesis
    unfolding match_ok_def by (elim exE conjE) (rule that; (assumption | (rule can, assumption)))
qed

lemma fresh_validates:
  assumes "fresh_shape c now p s"
  shows "validate_persisted_subscription s now = Inr ()"
  using assms
  by (auto simp: validate_persisted_subscription_def fresh_shape_def shape_ok_def Let_def result_simps
      checked_mul_def mult.commute split: if_splits)

lemma mock_ok_validates_deal:
  assumes ok: "mock_ok c now st" and m: "hget (ms_matches st) tc = Some m"
    and s: "hget (ms_deal_subscriptions st) tc = Some s"
  shows "validate_match_key st now tc = Inr ()" and "validate_deal_entry st now (tc, s) = Inr ()"
    and "hget (ms_streams st) tc = Some cell \<Longrightarrow> validate_stream_entry st now (tc, cell) = Inr ()"
proof -
  obtain o1 n who at where d: "hget (ms_matched_offers st) tc = Some o1"
    "hget (ms_matched_ticks st) tc = Some n" "hget (ms_offer_sellers st) tc = Some who"
    "is_canonical_hex who" "hget (ms_match_created_at st) tc = Some at" "0 < at" "at \<le> int now"
    "mt_token_contract m = tc" "offer_ok c tc o1" "mt_price_per_tick m = so_price_per_tick o1"
    "MIN_STREAM_BUY_TICKS \<le> n" "n \<le> so_max_ticks o1" "sub_funded_tokens s = n * TICK_SIZE"
    "sub_deal_flags s = so_flags o1 AND DEAL_MASK" "stream_ok c now m n s (hget (ms_streams st) tc)"
    using mock_ok_deal [OF ok m] s by (metis option.inject)
  have "nat at \<noteq> 0 \<and> nat at \<le> now" using d(6,7) by linarith
  then show "validate_match_key st now tc = Inr ()"
    using s d(5,6) by (simp add: validate_match_key_def mock_funded_time_def contains_key_def
        refuse_if_def)
  have n: "n * TICK_SIZE \<le> U128_MAX"
    using d(9,12) by (auto simp: offer_ok_def MAX_defs TICK_SIZE_def)
  have sub: "validate_persisted_subscription s now = Inr ()"
    using d(15) by (auto simp: stream_ok_def split: option.splits
        dest: fresh_validates deal_ok_validates(2))
  have cells: "validate_persisted_stream cell now = Inr ()
      \<and> sc_schema_version cell = STREAM_CELL_SCHEMA_VERSION"
    if "hget (ms_streams st) tc = Some cell" for cell
  proof -
    have ok: "deal_ok c cell s" and clk: "deal_by now cell" using d(15) that by (simp_all add: stream_ok_def)
    from ok have "sc_schema_version cell = STREAM_CELL_SCHEMA_VERSION"
      by (simp add: deal_ok_def deal_core_def static_ok_def)
    with deal_ok_validates(1) [OF ok clk] show ?thesis by simp
  qed
  have "validate_bound_cell m n (n * TICK_SIZE) cell = Inr ()" if "hget (ms_streams st) tc = Some cell" for cell
    using d(13,15) that
    by (auto simp: stream_ok_def validate_bound_cell_def deal_ok_def deal_core_def pipeline_times_def
        result_simps)
  then have "validate_persisted_deal_binding st tc s (hget (ms_streams st) tc) = Inr ()"
    using m d n
    by (auto simp: validate_persisted_deal_binding_def filled_offer_def offer_ok_def result_simps Let_def
        checked_mul_def split: option.splits)
  with sub show "validate_deal_entry st now (tc, s) = Inr ()"
    by (simp add: validate_deal_entry_def)
  show "validate_stream_entry st now (tc, cell) = Inr ()" if "hget (ms_streams st) tc = Some cell"
    using cells [OF that] s by (simp add: validate_stream_entry_def contains_key_def refuse_if_def)
qed

lemma mock_ok_validates:
  assumes ok: "mock_ok c now st"
  shows "validate_persisted_state st now = Inr ()"
proof -
  have d: "\<And>tc. deal_at c now st tc" and k: "keys_ok st" using ok by (simp_all add: mock_ok_def)
  have "validate_match_key st now tc = Inr ()" if "contains_key (ms_matches st) tc" for tc
    using that mock_ok_deal [OF ok] mock_ok_validates_deal(1) [OF ok] unfolding contains_key_def by blast
  moreover have "contains_key (ms_matches st) tc" if "contains_key (ms_match_created_at st) tc" for tc
    using deal_at_keys [OF d] that by blast
  moreover have "validate_deal_entry st now (tc, s) = Inr ()"
    if s: "hget (ms_deal_subscriptions st) tc = Some s" for tc s
  proof -
    have "contains_key (ms_matches st) tc" using deal_at_keys [OF d] s by (simp add: contains_key_def)
    then show ?thesis using mock_ok_validates_deal(2) [OF ok _ s] by (auto simp: contains_key_def)
  qed
  moreover have "validate_stream_entry st now (tc, cell) = Inr ()"
    if cell: "hget (ms_streams st) tc = Some cell" for tc cell
  proof -
    have "contains_key (ms_matches st) tc" using deal_at_keys [OF d] cell by (simp add: contains_key_def)
    then obtain m where m: "hget (ms_matches st) tc = Some m" by (auto simp: contains_key_def)
    then obtain s where "hget (ms_deal_subscriptions st) tc = Some s" using mock_ok_deal [OF ok] by blast
    then show ?thesis using mock_ok_validates_deal(3) [OF ok m _ cell] by blast
  qed
  ultimately show ?thesis
    using k by (auto simp: validate_persisted_state_def result_simps hkeys_contains keys_ok_def hget_entry)
qed

section \<open>Operations on a deal\<close>

text \<open>What the maps hold for one contract decides its part of the invariant.\<close>

lemma deal_at_cong:
  assumes "hget (ms_matches st') tc = hget (ms_matches st) tc"
    and "hget (ms_deal_subscriptions st') tc = hget (ms_deal_subscriptions st) tc"
    and "hget (ms_matched_offers st') tc = hget (ms_matched_offers st) tc"
    and "hget (ms_matched_ticks st') tc = hget (ms_matched_ticks st) tc"
    and "hget (ms_match_created_at st') tc = hget (ms_match_created_at st) tc"
    and "hget (ms_streams st') tc = hget (ms_streams st) tc"
    and "hget (ms_matches st) tc \<noteq> None \<Longrightarrow> hget (ms_offer_sellers st') tc = hget (ms_offer_sellers st) tc"
  shows "deal_at c now st' tc = deal_at c now st tc"
  using assms by (cases "hget (ms_matches st) tc") (simp_all add: deal_at_def contains_key_def)

lemma with_deal_Inr:
  "with_deal tc st f = Inr (st', r) \<longleftrightarrow>
    (\<exists>cell s cell' s'. hget (ms_streams st) tc = Some cell \<and> hget (ms_deal_subscriptions st) tc = Some s
      \<and> f cell s = Inr (cell', s', r)
      \<and> st' = st\<lparr>ms_streams := hinsert tc cell' (ms_streams st),
                 ms_deal_subscriptions := hinsert tc s' (ms_deal_subscriptions st)\<rparr>)"
  by (auto simp: with_deal_def result_simps)

text \<open>A stream of the state, with its shape and its match.\<close>

lemma mock_ok_stream:
  assumes ok: "mock_ok c now st" and cell: "hget (ms_streams st) tc = Some cell"
    and s: "hget (ms_deal_subscriptions st) tc = Some s"
  shows "deal_ok c cell s" and "deal_by now cell"
proof -
  have at: "deal_at c now st tc" using ok by (simp add: mock_ok_def)
  have "contains_key (ms_matches st) tc"
    using deal_at_keys [OF at] cell by (simp add: contains_key_def)
  then obtain m where m: "hget (ms_matches st) tc = Some m" by (auto simp: contains_key_def)
  show "deal_ok c cell s" and "deal_by now cell"
    using deal_at_match [OF at m] cell s by (auto simp: match_ok_def stream_ok_def)
qed

lemma mock_ok_put_deal:
  assumes ok: "mock_ok c now st" and cell: "hget (ms_streams st) tc = Some cell"
    and s: "hget (ms_deal_subscriptions st) tc = Some s" and kept: "deal_kept c now cell s cell' s'"
  shows "mock_ok c now (st\<lparr>ms_streams := hinsert tc cell' (ms_streams st),
    ms_deal_subscriptions := hinsert tc s' (ms_deal_subscriptions st)\<rparr>)" (is "mock_ok c now ?st'")
proof -
  have at: "\<And>j. deal_at c now st j" using ok by (simp add: mock_ok_def)
  have "contains_key (ms_matches st) tc"
    using deal_at_keys [OF at] cell by (simp add: contains_key_def)
  then obtain m where m: "hget (ms_matches st) tc = Some m" by (auto simp: contains_key_def)
  have "deal_at c now ?st' tc"
    using deal_at_match [OF at m] m kept cell s
    by (auto simp: deal_at_def match_ok_def stream_ok_def hget_hinsert deal_kept_def same_deal_def)
  moreover have "deal_at c now ?st' j" if "j \<noteq> tc" for j
  proof -
    have "deal_at c now ?st' j = deal_at c now st j"
      by (rule deal_at_cong) (simp_all add: that hget_hinsert)
    then show ?thesis using at by simp
  qed
  ultimately have "deal_at c now ?st' j" for j by (cases "j = tc") simp_all
  moreover have "keys_ok ?st'" "sell_side_ok c ?st'"
    using ok by (simp_all add: mock_ok_def keys_ok_def sell_side_ok_def)
  ultimately show ?thesis by (simp add: mock_ok_def)
qed

context deal_operation
begin

text \<open>The operation on a deal, lifted to the state.\<close>

lemma with_deal_ok:
  assumes c: "consts_ok c" and ok: "mock_ok c now st"
    and run: "with_deal tc st (deal_op now) = Inr (st', r)"
  shows "mock_ok c now st'"
proof -
  obtain cell s cell' s' where cell: "hget (ms_streams st) tc = Some cell"
    and s: "hget (ms_deal_subscriptions st) tc = Some s"
    and step: "deal_op now cell s = Inr (cell', s', r)"
    and st': "st' = st\<lparr>ms_streams := hinsert tc cell' (ms_streams st),
      ms_deal_subscriptions := hinsert tc s' (ms_deal_subscriptions st)\<rparr>"
    using run by (auto simp: with_deal_Inr)
  note stream = mock_ok_stream [OF ok cell s]
  show ?thesis unfolding st'
    by (rule mock_ok_put_deal [OF ok cell s op_kept [OF c stream step]])
qed

end

end
