(* ===== verification/MockBook.thy ===== *)
theory MockBook
  imports MockReach
begin

unbundle bit_operations_syntax

text \<open>
  The operations of the mock chain outside a running deal keep the invariant of the state: the sell
  side of the book, matching, opening, and the clean-up of a match that was never opened.
\<close>

section \<open>The sell side\<close>

definition pk_ok :: "NotePubkey \<Rightarrow> bool" where
  "pk_ok pk \<longleftrightarrow> length (pk_ed pk) = 32"

lemma hex_digit_code:
  assumes "n < 16"
  shows "(of_char (hex_digit n) :: nat) = (if n < 10 then 48 + n else 87 + n)"
  using assms by (simp add: hex_digit_def)

lemma hex_digit_canonical:
  assumes "n < 16"
  shows "is_ascii_digit (hex_digit n)
    \<or> (97 \<le> (of_char (hex_digit n) :: nat) \<and> (of_char (hex_digit n) :: nat) \<le> 102)"
  using assms by (auto simp: is_ascii_digit_def hex_digit_code)

lemma note_id_hex_canonical: "pk_ok pk \<Longrightarrow> is_canonical_hex (note_id_hex pk)"
proof -
  have "length (concat (map hex_byte xs)) = 2 * length xs" for xs
    by (induction xs) (simp_all add: hex_byte_def)
  moreover have "list_all (\<lambda>c. is_ascii_digit c \<or> (97 \<le> (of_char c :: nat) \<and> (of_char c :: nat) \<le> 102))
    (concat (map hex_byte xs))" for xs
  proof (induction xs)
    case (Cons b xs)
    have "unat b < 256" using unsigned_less [of b] by simp
    then have "unat b div 16 < 16" "unat b mod 16 < 16" by simp_all
    with Cons hex_digit_canonical show ?case by (simp add: hex_byte_def)
  qed simp
  moreover assume "pk_ok pk"
  ultimately show ?thesis by (simp add: is_canonical_hex_def note_id_hex_def pk_ok_def)
qed

text \<open>An update of the sell-side maps leaves the deals alone.\<close>

lemma mock_ok_sell_side:
  assumes ok: "mock_ok c now st" and side: "sell_side_ok c st'" and keys: "keys_ok st'"
    and same: "ms_matches st' = ms_matches st" "ms_deal_subscriptions st' = ms_deal_subscriptions st"
      "ms_matched_offers st' = ms_matched_offers st" "ms_matched_ticks st' = ms_matched_ticks st"
      "ms_match_created_at st' = ms_match_created_at st" "ms_streams st' = ms_streams st"
    and sellers: "\<And>j. hget (ms_matches st) j \<noteq> None \<Longrightarrow>
      hget (ms_offer_sellers st') j = hget (ms_offer_sellers st) j"
  shows "mock_ok c now st'"
proof -
  have "deal_at c now st' j = deal_at c now st j" for j
    by (rule deal_at_cong) (simp_all add: same sellers)
  with ok side keys show ?thesis by (simp add: mock_ok_def)
qed

lemma post_offer_ok:
  assumes ok: "mock_ok c now st" and pk: "pk_ok pk"
    and range: "so_price_per_tick offer \<le> U64_MAX" "so_max_ticks offer \<le> U64_MAX"
    and run: "post_offer c at offer pk st = Inr (st', u)"
  shows "mock_ok c now st'"
proof -
  let ?tc = "so_token_contract offer"
  have valid: "validate_mock_sell_offer offer c = Inr ()"
    and free: "\<not> contains_key (ms_matches st) ?tc"
    and st': "st' = st\<lparr>ms_offer_sellers := or_insert ?tc (note_id_hex pk) (ms_offer_sellers st),
              ms_offer_deadlines := hinsert ?tc (wrapping_add U64_MAX at MAX_SELL_TTL)
                (ms_offer_deadlines st),
              ms_deal_terms := or_insert ?tc (so_price_per_tick offer, so_max_ticks offer)
                (ms_deal_terms st),
              ms_offers := hinsert ?tc offer (ms_offers st)\<rparr>"
    using run by (auto simp: post_offer_def result_simps Let_def)
  have side: "sell_side_ok c st'"
    using ok free valid range note_id_hex_canonical [OF pk]
    by (auto simp: st' mock_ok_def sell_side_ok_def hget_hinsert hget_or_insert offer_ok_def
        contains_key_def split: option.splits if_splits)
  show ?thesis
    by (rule mock_ok_sell_side [OF ok side])
      (use ok free in \<open>auto simp: st' mock_ok_def keys_ok_def hget_or_insert contains_key_def\<close>)
qed

lemma drop_offer_ok:
  assumes ok: "mock_ok c now st"
  shows "mock_ok c now (st\<lparr>ms_offers := hremove tc (ms_offers st)\<rparr>)"
  by (rule mock_ok_sell_side [OF ok])
    (use ok in \<open>auto simp: mock_ok_def keys_ok_def sell_side_ok_def hget_hremove split: if_splits\<close>)

lemma book_fields_ok:
  assumes "mock_ok c now st"
  shows "mock_ok c now (st\<lparr>ms_expired_generations := g\<rparr>)"
    and "mock_ok c now (st\<lparr>ms_subscription_orders := a, ms_subscription_order_books := b,
      ms_subscription_terminal_orders := d\<rparr>)"
    and "mock_ok c now (st\<lparr>ms_next_subscription_order_id := n, ms_subscription_orders := a,
      ms_subscription_order_books := b\<rparr>)"
  using assms
  by (simp_all add: mock_ok_def keys_ok_def sell_side_ok_def deal_at_def cong: option.case_cong)

lemma expire_ok:
  assumes ok: "mock_ok c now st" and run: "expire_resting_sell_order sha at tc i st = Inr (st', u)"
  shows "mock_ok c now st'"
proof -
  have "st' = st \<or> (\<exists>g. st' = (st\<lparr>ms_offers := hremove tc (ms_offers st)\<rparr>)\<lparr>ms_expired_generations := g\<rparr>)"
    using run by (auto simp: expire_resting_sell_order_def split: if_splits)
  then show ?thesis using ok book_fields_ok(1) [OF drop_offer_ok [OF ok]] by blast
qed

lemma cancel_sell_ok:
  "mock_ok c now st \<Longrightarrow> cancel_resting_sell_order sha tc i st = Inr (st', u) \<Longrightarrow> mock_ok c now st'"
  by (auto simp: cancel_resting_sell_order_def result_simps drop_offer_ok)

section \<open>Matching\<close>

lemma deal_mask_flags:
  fixes x :: flag_bits
  shows "(x AND DEAL_MASK) AND NOT DEAL_MASK = 0"
    and "(x AND DEAL_MASK) AND SUBSCRIPTION = x AND SUBSCRIPTION"
  by (simp_all add: and.assoc flag_defs)

text \<open>What the checks of an offer promise about its volume and its value.\<close>

lemma offer_ok_value:
  assumes c: "consts_ok c" and ok: "offer_ok c tc o1"
  shows "0 < so_price_per_tick o1"
    and "value_of c (so_price_per_tick o1) (so_max_ticks o1 * TICK_SIZE) \<le> U128_MAX"
    and "so_flags o1 AND SUBSCRIPTION \<noteq> 0 \<Longrightarrow> so_flags o1 AND AON \<noteq> 0 \<and> so_max_ticks o1 mod SUBSCRIPTION_WEEKS = 0"
proof -
  obtain pay fee where v: "token_pay_and_fee (so_max_ticks o1 * TICK_SIZE) (so_price_per_tick o1) c = Inr (pay, fee)"
    "pay + fee \<le> U128_MAX" "so_price_per_tick o1 \<noteq> 0"
    using ok by (auto simp: offer_ok_def validate_mock_sell_offer_def result_simps Let_def)
  then show "0 < so_price_per_tick o1" by simp
  have "so_price_per_tick o1 \<le> U64_MAX" using ok by (simp add: offer_ok_def)
  from token_pay_and_fee_eq [OF c this] v(1,2)
  show "value_of c (so_price_per_tick o1) (so_max_ticks o1 * TICK_SIZE) \<le> U128_MAX"
    by (auto simp: value_of_def split: if_splits)
  show "so_flags o1 AND AON \<noteq> 0 \<and> so_max_ticks o1 mod SUBSCRIPTION_WEEKS = 0"
    if "so_flags o1 AND SUBSCRIPTION \<noteq> 0"
    using ok that by (auto simp: offer_ok_def validate_mock_sell_offer_def result_simps Let_def)
qed

lemma shape_fresh:
  assumes c: "consts_ok c" and ok: "offer_ok c tc o1" and t: "t \<le> now"
    and n: "MIN_STREAM_BUY_TICKS \<le> n" "n \<le> so_max_ticks o1"
    and run: "mock_deal_shape o1 n t = Inr s"
  shows "fresh_shape c now (so_price_per_tick o1) s" and "sub_funded_tokens s = n * TICK_SIZE"
    and "sub_deal_flags s = so_flags o1 AND DEAL_MASK"
proof -
  have val: "value_of c (so_price_per_tick o1) (n * TICK_SIZE) \<le> U128_MAX"
    using offer_ok_value(2) [OF c ok] value_of_mono n(2) by (meson le_trans mult_le_mono1)
  have two: "2 * TICK_SIZE \<le> n * TICK_SIZE" using n(1) by (simp add: MIN_STREAM_BUY_TICKS_def)
  have fit: "n * TICK_SIZE \<le> U128_MAX" using run by (auto simp: mock_deal_shape_def result_simps)
  show f: "sub_funded_tokens s = n * TICK_SIZE" and fl: "sub_deal_flags s = so_flags o1 AND DEAL_MASK"
    using run by (auto simp: mock_deal_shape_def result_simps Let_def split: if_splits)
  have "shape_ok s"
  proof (cases "so_flags o1 AND SUBSCRIPTION = 0")
    case True
    then show ?thesis
      using run two fit by (auto simp: mock_deal_shape_def result_simps Let_def deal_mask_flags shape_ok_def)
  next
    case False
    then have div: "n mod SUBSCRIPTION_WEEKS = 0"
      and s: "s = \<lparr>sub_deal_flags = so_flags o1 AND DEAL_MASK, sub_weeks = SUBSCRIPTION_WEEKS,
        sub_week_index = 0, sub_tokens_per_week = n * TICK_SIZE div SUBSCRIPTION_WEEKS,
        sub_funded_tokens = n * TICK_SIZE, sub_tokens_paid = 0, sub_period_start = t,
        sub_week_base_tokens = 0\<rparr>"
      using run by (auto simp: mock_deal_shape_def result_simps Let_def deal_mask_flags)
    then obtain k where k: "n = 4 * k" by (auto simp: SUBSCRIPTION_WEEKS_def)
    then have "1 \<le> k" using n(1) by (simp add: MIN_STREAM_BUY_TICKS_def)
    then have "TICK_SIZE \<le> k * TICK_SIZE" by simp
    then show ?thesis
      using False two fit k by (simp add: s shape_ok_def deal_mask_flags SUBSCRIPTION_WEEKS_def mult.assoc)
  qed
  moreover have "sub_tokens_paid s = 0 \<and> sub_week_index s = 0 \<and> sub_week_base_tokens s = 0
      \<and> sub_period_start s = t"
    using run by (auto simp: mock_deal_shape_def result_simps Let_def split: if_splits)
  ultimately show "fresh_shape c now (so_price_per_tick o1) s"
    using val t by (simp add: fresh_shape_def f)
qed

definition matched_state ::
  "token_contract \<Rightarrow> SellOffer \<Rightarrow> u64 \<Rightarrow> DealSubscription \<Rightarrow> NotePubkey \<Rightarrow> i64 \<Rightarrow> MockState \<Rightarrow> MockState" where
  "matched_state tc offer n s pk at st =
    st\<lparr>ms_offers := hremove tc (ms_offers st),
       ms_matched_offers := hinsert tc offer (ms_matched_offers st),
       ms_matched_ticks := hinsert tc n (ms_matched_ticks st),
       ms_deal_subscriptions := hinsert tc s (ms_deal_subscriptions st),
       ms_matches := hinsert tc \<lparr>mt_token_contract = tc, mt_buyer_pubkey = pk,
         mt_price_per_tick = so_price_per_tick offer\<rparr> (ms_matches st),
       ms_match_created_at := hinsert tc at (ms_match_created_at st)\<rparr>"

lemma place_buy_Inr:
  "place_buy_ticks_inner t at tc pk ticks st = Inr (st', u) \<longleftrightarrow>
    \<not> contains_key (ms_matches st) tc
    \<and> (\<exists>offer s n. hget (ms_offers st) tc = Some offer
      \<and> n = (case ticks of Some t \<Rightarrow> t | None \<Rightarrow> so_max_ticks offer)
      \<and> MIN_STREAM_BUY_TICKS \<le> n \<and> n \<le> so_max_ticks offer
      \<and> (so_flags offer AND AON \<noteq> 0 \<longrightarrow> n = so_max_ticks offer)
      \<and> mock_deal_shape offer n t = Inr s \<and> st' = matched_state tc offer n s pk at st)"
  by (auto simp: place_buy_ticks_inner_def matched_state_def result_simps Let_def not_less)

lemma place_buy_ok:
  assumes c: "consts_ok c" and ok: "mock_ok c now st" and t: "t \<le> now"
    and at: "0 < at" "at \<le> int now"
    and run: "place_buy_ticks_inner t at tc pk ticks st = Inr (st', u)"
  shows "mock_ok c now st'"
proof -
  obtain offer n s where free: "\<not> contains_key (ms_matches st) tc"
    and offer: "hget (ms_offers st) tc = Some offer"
    and n: "MIN_STREAM_BUY_TICKS \<le> n" "n \<le> so_max_ticks offer"
    and shape: "mock_deal_shape offer n t = Inr s"
    and st': "st' = matched_state tc offer n s pk at st"
    using run unfolding place_buy_Inr by blast
  note st' = st' [unfolded matched_state_def]
  have dat: "\<And>j. deal_at c now st j" using ok by (simp add: mock_ok_def)
  have off: "offer_ok c tc offer" and "contains_key (ms_offer_sellers st) tc"
    using ok offer by (auto simp: mock_ok_def sell_side_ok_def)
  then obtain who where who: "hget (ms_offer_sellers st) tc = Some who" by (auto simp: contains_key_def)
  have stream: "hget (ms_streams st) tc = None"
    using deal_at_keys [OF dat [of tc]] free by (metis contains_key_def)
  have "deal_at c now st' tc"
    using shape_fresh [OF c off t n shape] off at n who stream
    by (simp add: deal_at_def match_ok_def stream_ok_def st' hget_hinsert)
  moreover have "deal_at c now st' j" if "j \<noteq> tc" for j
  proof -
    have "deal_at c now st' j = deal_at c now st j"
      by (rule deal_at_cong) (simp_all add: that hget_hinsert st')
    then show ?thesis using dat by simp
  qed
  ultimately have "deal_at c now st' j" for j by (cases "j = tc") simp_all
  moreover have "keys_ok st'" using ok by (simp add: mock_ok_def keys_ok_def st')
  moreover have "sell_side_ok c st'"
    using ok by (auto simp: mock_ok_def sell_side_ok_def st' hget_hremove split: if_splits)
  ultimately show ?thesis by (simp add: mock_ok_def)
qed

section \<open>Opening and cleaning up\<close>

lemma opened_deal_ok:
  assumes c: "consts_ok c" and fresh: "fresh_shape c now (mt_price_per_tick m) s"
    and price: "0 < mt_price_per_tick m" "mt_price_per_tick m \<le> U64_MAX"
    and n: "n \<le> U64_MAX" "sub_funded_tokens s = n * TICK_SIZE"
    and at: "now \<le> at" "0 < at"
    and locked: "locked + mt_price_per_tick m = value_of c (mt_price_per_tick m) (sub_funded_tokens s)"
  shows "deal_ok c (opened_cell params at m n s locked) s"
    and "deal_by at (opened_cell params at m n s locked)"
  using assms
  by (auto simp: deal_ok_def deal_core_def static_ok_def pipeline_times_def money_ok_def weeks_ok_def
      machine_agrees_def opened_cell_def open_machine_def fresh_shape_def deal_by_def bond_of_def Let_def)

lemma open_stream_ok:
  assumes c: "consts_ok c" and ok: "mock_ok c now st" and at: "now \<le> at" "0 < at"
    and run: "open_stream c params at tc pk st = Inr (st', u)"
  shows "mock_ok c at st'"
proof -
  obtain m s pay fee n where free: "hget (ms_streams st) tc = None"
    and m: "hget (ms_matches st) tc = Some m" and s: "hget (ms_deal_subscriptions st) tc = Some s"
    and pf: "token_pay_and_fee (sub_funded_tokens s) (mt_price_per_tick m) c = Inr (pay, fee)"
    and le: "mt_price_per_tick m \<le> pay + fee"
    and n: "n = (case hget (ms_matched_ticks st) tc of Some t \<Rightarrow> t
                      | None \<Rightarrow> (case filled_offer st tc of Some o1 \<Rightarrow> so_max_ticks o1
                                | None \<Rightarrow> U64_MAX))"
    and st': "st' = st\<lparr>ms_streams := hinsert tc
      (opened_cell params at m n s (pay + fee - mt_price_per_tick m)) (ms_streams st)\<rparr>"
    using run
    by (auto simp: open_stream_def require_mock_seller_actor_def result_simps Let_def contains_key_def)
  obtain o1 k who t where d: "hget (ms_matched_offers st) tc = Some o1"
    "hget (ms_matched_ticks st) tc = Some k" "hget (ms_offer_sellers st) tc = Some who"
    "hget (ms_match_created_at st) tc = Some t" "0 < t" "t \<le> int now"
    "mt_token_contract m = tc" "offer_ok c tc o1" "mt_price_per_tick m = so_price_per_tick o1"
    "MIN_STREAM_BUY_TICKS \<le> k" "k \<le> so_max_ticks o1" "sub_funded_tokens s = k * TICK_SIZE"
    "sub_deal_flags s = so_flags o1 AND DEAL_MASK" "stream_ok c now m k s None"
    using mock_ok_deal [OF ok m] s free by (metis option.inject)
  have nk: "n = k" by (simp add: n d(2))
  have p: "0 < mt_price_per_tick m" "mt_price_per_tick m \<le> U64_MAX" "k \<le> U64_MAX"
    using offer_ok_value(1) [OF c d(8)] d(8,9,11) by (auto simp: offer_ok_def)
  have fresh: "fresh_shape c now (mt_price_per_tick m) s" using d(14) by (simp add: stream_ok_def)
  have lock: "pay + fee - mt_price_per_tick m + mt_price_per_tick m
      = value_of c (mt_price_per_tick m) (sub_funded_tokens s)"
    using pf le token_pay_and_fee_eq [OF c p(2)] by (auto simp: value_of_def split: if_splits)
  note opened = opened_deal_ok [OF c fresh p(1,2) p(3) d(12) at lock, of params]
  have ok': "mock_ok c at st" using ok at(1) by (rule mock_ok_mono)
  then have dat: "\<And>j. deal_at c at st j" by (simp add: mock_ok_def)
  have "deal_at c at st' tc"
    using deal_at_match [OF dat m] m s d(2) opened nk
    by (auto simp: deal_at_def match_ok_def stream_ok_def st' hget_hinsert)
      (simp_all add: opened_cell_def open_machine_def)
  moreover have "deal_at c at st' j" if "j \<noteq> tc" for j
  proof -
    have "deal_at c at st' j = deal_at c at st j"
      by (rule deal_at_cong) (simp_all add: that hget_hinsert st')
    then show ?thesis using dat by simp
  qed
  ultimately have "deal_at c at st' j" for j by (cases "j = tc") simp_all
  moreover have "keys_ok st'" "sell_side_ok c st'"
    using ok by (simp_all add: mock_ok_def keys_ok_def sell_side_ok_def st')
  ultimately show ?thesis by (simp add: mock_ok_def)
qed

lemma cleanup_ok:
  assumes ok: "mock_ok c now st" and run: "cleanup_unopened k at tc st = Inr (st', r)"
  shows "mock_ok c now st'"
proof -
  have free: "\<not> contains_key (ms_streams st) tc"
    and st': "st' = st\<lparr>ms_matches := hremove tc (ms_matches st),
              ms_match_created_at := hremove tc (ms_match_created_at st),
              ms_matched_offers := hremove tc (ms_matched_offers st),
              ms_matched_ticks := hremove tc (ms_matched_ticks st),
              ms_deal_subscriptions := hremove tc (ms_deal_subscriptions st)\<rparr>"
    using run by (auto simp: cleanup_unopened_def result_simps)
  have dat: "\<And>j. deal_at c now st j" using ok by (simp add: mock_ok_def)
  have "deal_at c now st' tc" using free by (simp add: deal_at_def st' hget_hremove)
  moreover have "deal_at c now st' j" if "j \<noteq> tc" for j
  proof -
    have "deal_at c now st' j = deal_at c now st j"
      by (rule deal_at_cong) (simp_all add: that hget_hremove st')
    then show ?thesis using dat by simp
  qed
  ultimately have "deal_at c now st' j" for j by (cases "j = tc") simp_all
  moreover have "keys_ok st'" "sell_side_ok c st'"
    using ok by (simp_all add: mock_ok_def keys_ok_def sell_side_ok_def st')
  ultimately show ?thesis by (simp add: mock_ok_def)
qed

end
