(* ===== verification/MockSystem.thy ===== *)
theory MockSystem
  imports MockBook
begin

text \<open>
  The mock chain as a system: the calls of the backend, the states they reach from the empty state
  while the clock runs forward, and the properties of every reachable state. A call carries its
  inputs and the clock reads it makes; a call that fails is no step.
\<close>

section \<open>Calls\<close>

datatype MockCall =
    PostOffer u64 SellOffer NotePubkey
  | ExpireSell u64 token_contract u128
  | CancelSell token_contract u128
  | PlaceBuy u64 i64 token_contract NotePubkey "u64 option"
  | OpenStream u64 token_contract NotePubkey
  | AcceptProbe u64 token_contract
  | ClaimTokens u64 u64 token_contract NotePubkey u128
  | Finalize u64 token_contract
  | SettleWeek u64 token_contract
  | Stop u64 u64 token_contract NotePubkey
  | StopByAddr u64 u64 token_contract string
  | SellerStop u64 u64 token_contract
  | OpenDispute u64 token_contract NotePubkey
  | ReleaseDispute token_contract
  | DisputeTimeout u64 token_contract
  | Cleanup u64 token_contract
  | PlaceOrder u64 string NotePubkey u128 u128 u128 flag_bits u64
  | ReadOrder u64 string u128 NotePubkey
  | ReadTerminal u64 string u128 NotePubkey
  | CancelOrder u64 string u128 NotePubkey

text \<open>The state a successful call stores.\<close>

definition stored :: "ChainError + MockState \<times> 'r \<Rightarrow> MockState option" where
  "stored r = (case r of Inr (st, _) \<Rightarrow> Some st | Inl _ \<Rightarrow> None)"

fun run_call ::
  "(token_contract \<Rightarrow> u128) \<Rightarrow> DobParams \<Rightarrow> ProtocolConsts \<Rightarrow> MockCall \<Rightarrow> MockState \<Rightarrow> MockState option"
  where
  "run_call sha params c (PostOffer now offer pk) st = stored (post_offer c now offer pk st)"
| "run_call sha params c (ExpireSell now tc i) st = stored (expire_resting_sell_order sha now tc i st)"
| "run_call sha params c (CancelSell tc i) st = stored (cancel_resting_sell_order sha tc i st)"
| "run_call sha params c (PlaceBuy now at tc pk ticks) st =
    stored (place_buy_ticks_inner now at tc pk ticks st)"
| "run_call sha params c (OpenStream now tc pk) st = stored (open_stream c params now tc pk st)"
| "run_call sha params c (AcceptProbe now tc) st = stored (accept_probe c now tc st)"
| "run_call sha params c (ClaimTokens now1 now2 tc pk n) st =
    stored (claim_tokens c now1 now2 tc pk n st)"
| "run_call sha params c (Finalize now tc) st = stored (finalize c now tc st)"
| "run_call sha params c (SettleWeek now tc) st = stored (settle_week c now tc st)"
| "run_call sha params c (Stop now1 now2 tc pk) st = stored (stop c now1 now2 tc pk st)"
| "run_call sha params c (StopByAddr now1 now2 tc addr) st =
    stored (stop_by_buyer_note_addr c now1 now2 tc addr st)"
| "run_call sha params c (SellerStop now1 now2 tc) st = stored (seller_stop c now1 now2 tc st)"
| "run_call sha params c (OpenDispute now tc pk) st = stored (dispute now tc pk st)"
| "run_call sha params c (ReleaseDispute tc) st = stored (release_dispute c tc st)"
| "run_call sha params c (DisputeTimeout now tc) st = stored (resolve_dispute_timeout c now tc st)"
| "run_call sha params c (Cleanup now tc) st = stored (cleanup_unopened c now tc st)"
| "run_call sha params c (PlaceOrder now book pk price ticks escrow fl deadline) st =
    stored (place_subscription_order now book pk price ticks escrow fl deadline st)"
| "run_call sha params c (ReadOrder now book i pk) st = stored (subscription_order now book i pk st)"
| "run_call sha params c (ReadTerminal now book i pk) st =
    stored (subscription_terminal_order now book i pk st)"
| "run_call sha params c (CancelOrder now book i pk) st =
    Some (fst (cancel_subscription_order now book i pk st))"

fun call_clocks :: "MockCall \<Rightarrow> u64 list" where
  "call_clocks (PostOffer now _ _) = [now]"
| "call_clocks (ExpireSell now _ _) = [now]"
| "call_clocks (CancelSell _ _) = []"
| "call_clocks (PlaceBuy now at _ _ _) = [now, nat at]"
| "call_clocks (OpenStream now _ _) = [now]"
| "call_clocks (AcceptProbe now _) = [now]"
| "call_clocks (ClaimTokens now1 now2 _ _ _) = [now1, now2]"
| "call_clocks (Finalize now _) = [now]"
| "call_clocks (SettleWeek now _) = [now]"
| "call_clocks (Stop now1 now2 _ _) = [now1, now2]"
| "call_clocks (StopByAddr now1 now2 _ _) = [now1, now2]"
| "call_clocks (SellerStop now1 now2 _) = [now1, now2]"
| "call_clocks (OpenDispute now _ _) = [now]"
| "call_clocks (ReleaseDispute _) = []"
| "call_clocks (DisputeTimeout now _) = [now]"
| "call_clocks (Cleanup now _) = [now]"
| "call_clocks (PlaceOrder now _ _ _ _ _ _ _) = [now]"
| "call_clocks (ReadOrder now _ _ _) = [now]"
| "call_clocks (ReadTerminal now _ _ _) = [now]"
| "call_clocks (CancelOrder now _ _ _) = [now]"

text \<open>Inputs inside their Rust types: prices and volumes are \<open>u64\<close>, keys have 32 bytes.\<close>

definition typed_call :: "MockCall \<Rightarrow> bool" where
  "typed_call call =
    (case call of
       PostOffer _ offer pk \<Rightarrow> so_price_per_tick offer \<le> U64_MAX \<and> so_max_ticks offer \<le> U64_MAX \<and> pk_ok pk
     | _ \<Rightarrow> True)"

text \<open>A call between \<open>now\<close> and \<open>now'\<close>: every clock it reads is in between and after the epoch.\<close>

definition call_ok :: "u64 \<Rightarrow> u64 \<Rightarrow> MockCall \<Rightarrow> bool" where
  "call_ok now now' call \<longleftrightarrow> typed_call call \<and>
    list_all (\<lambda>t. now \<le> t \<and> 0 < t \<and> t \<le> now') (call_clocks call)"

inductive mock_reach ::
  "(token_contract \<Rightarrow> u128) \<Rightarrow> DobParams \<Rightarrow> ProtocolConsts \<Rightarrow> u64 \<Rightarrow> MockState \<Rightarrow> bool"
  for sha :: "token_contract \<Rightarrow> u128" and params :: DobParams and c :: ProtocolConsts where
  mock_start: "mock_reach sha params c now default_state"
| mock_call: "mock_reach sha params c now st \<Longrightarrow> now \<le> now' \<Longrightarrow> call_ok now now' call
    \<Longrightarrow> run_call sha params c call st = Some st' \<Longrightarrow> mock_reach sha params c now' st'"

inductive_cases mock_reachE: "mock_reach sha params c now st"

lemma stored_Some: "stored r = Some st \<longleftrightarrow> (\<exists>x. r = Inr (st, x))"
  by (auto simp: stored_def split: sum.splits)

section \<open>Every call keeps the invariant\<close>

lemma swept_ok: "mock_ok c now st \<Longrightarrow> mock_ok c now (swept_state t i st)"
  and removed_ok: "mock_ok c now st \<Longrightarrow>
    mock_ok c now (remove_subscription_order_from_book i reason r st)"
proof -
  show removed: "mock_ok c now st \<Longrightarrow> mock_ok c now (remove_subscription_order_from_book i reason r st)"
    for i reason r
    by (auto simp: remove_subscription_order_from_book_def book_fields_ok split: option.splits)
  show "mock_ok c now st \<Longrightarrow> mock_ok c now (swept_state t i st)"
    by (auto simp: swept_state_def removed split: option.splits)
qed

lemma order_calls_ok:
  assumes "mock_ok c now st"
  shows "place_subscription_order t book pk p n e fl d st = Inr (st', o1) \<Longrightarrow> mock_ok c now st'"
    and "subscription_order t book i pk st = Inr (st', r) \<Longrightarrow> mock_ok c now st'"
    and "subscription_terminal_order t book i pk st = Inr (st', r') \<Longrightarrow> mock_ok c now st'"
    and "mock_ok c now (fst (cancel_subscription_order t book i pk st))"
  using assms swept_ok removed_ok
  by (auto simp: place_subscription_order_def subscription_order_def subscription_terminal_order_def
      cancel_subscription_order_def result_simps Let_def book_fields_ok split: option.splits)

lemma actor_calls:
  "claim_tokens c t1 t2 tc pk n st = Inr x \<Longrightarrow> with_deal tc st (claim_tokens_deal c t1 t2 n) = Inr x"
  "stop c t1 t2 tc pk st = Inr y \<Longrightarrow> stop_mock_stream c t1 t2 tc st = Inr y"
  "stop_by_buyer_note_addr c t1 t2 tc addr st = Inr y \<Longrightarrow> stop_mock_stream c t1 t2 tc st = Inr y"
  "dispute t1 tc pk st = Inr y \<Longrightarrow> with_deal tc st (dispute_deal t1 tc) = Inr y"
  "resolve_dispute_timeout c t1 tc st = Inr y \<Longrightarrow> with_deal tc st (resolve_deal c True) = Inr y"
  by (auto simp: claim_tokens_def stop_def stop_by_buyer_note_addr_def dispute_def
      resolve_dispute_timeout_def require_mock_seller_actor_def require_mock_buyer_actor_def
      require_mock_buyer_note_addr_def result_simps)

text \<open>The calls that run an operation on a deal, each through its interpretation.\<close>

lemma deal_calls_ok:
  assumes c: "consts_ok c" and ok: "mock_ok c now st"
  shows "accept_probe c now tc st = Inr (st', u1) \<Longrightarrow> mock_ok c now st'"
    and "claim_tokens c t1 now tc pk n st = Inr (st', u2) \<Longrightarrow> mock_ok c now st'"
    and "finalize c now tc st = Inr (st', u3) \<Longrightarrow> mock_ok c now st'"
    and "settle_week c now tc st = Inr (st', u4) \<Longrightarrow> mock_ok c now st'"
    and "stop_mock_stream c t1 t2 tc st = Inr (st', r1) \<Longrightarrow> mock_ok c now st'"
    and "seller_stop c t1 t2 tc st = Inr (st', r2) \<Longrightarrow> mock_ok c now st'"
    and "dispute now tc pk st = Inr (st', r3) \<Longrightarrow> mock_ok c now st'"
    and "release_dispute c tc st = Inr (st', r4) \<Longrightarrow> mock_ok c now st'"
    and "resolve_dispute_timeout c t1 tc st = Inr (st', r5) \<Longrightarrow> mock_ok c now st'"
  subgoal unfolding accept_probe_def by (rule accept_op.with_deal_ok [OF c ok])
  subgoal by (drule actor_calls(1)) (rule claim_op.with_deal_ok [OF c ok])
  subgoal unfolding finalize_def by (rule finalize_op.with_deal_ok [OF c ok])
  subgoal unfolding settle_week_def by (rule week_op.with_deal_ok [OF c ok])
  subgoal unfolding stop_mock_stream_def by (rule stop_op.with_deal_ok [OF c ok])
  subgoal unfolding seller_stop_def by (rule seller_stop_op.with_deal_ok [OF c ok])
  subgoal by (drule actor_calls(4)) (rule dispute_op.with_deal_ok [OF c ok])
  subgoal unfolding release_dispute_def by (rule resolve_op.with_deal_ok [OF c ok])
  subgoal by (drule actor_calls(5)) (rule resolve_op.with_deal_ok [OF c ok])
  done

lemma run_call_ok:
  assumes c: "consts_ok c" and ok: "mock_ok c now st" and le: "now \<le> now'"
    and call: "call_ok now now' call" and run: "run_call sha params c call st = Some st'"
  shows "mock_ok c now' st'"
proof -
  have later: "mock_ok c now' st" using ok le by (rule mock_ok_mono)
  have up: "mock_ok c t x \<Longrightarrow> t \<le> now' \<Longrightarrow> mock_ok c now' x" for t x by (rule mock_ok_mono)
  have at: "now \<le> t \<Longrightarrow> mock_ok c t st" for t using ok by (rule mock_ok_mono)
  show ?thesis
  proof (cases call)
    case (PostOffer t offer pk)
    then show ?thesis using run call post_offer_ok [OF later]
      by (auto simp: stored_Some call_ok_def typed_call_def)
  next
    case (ExpireSell t tc i)
    then show ?thesis using run expire_ok [OF later] by (auto simp: stored_Some)
  next
    case (CancelSell tc i)
    then show ?thesis using run cancel_sell_ok [OF later] by (auto simp: stored_Some)
  next
    case (PlaceBuy t at tc pk ticks)
    then show ?thesis using run call place_buy_ok [OF c later]
      by (auto simp: stored_Some call_ok_def)
  next
    case (OpenStream t tc pk)
    then show ?thesis using run call up [OF open_stream_ok [OF c ok]]
      by (auto simp: stored_Some call_ok_def)
  next
    case (AcceptProbe t tc)
    then show ?thesis using run call up [OF deal_calls_ok(1) [OF c at]]
      by (auto simp: stored_Some call_ok_def)
  next
    case (ClaimTokens t1 t2 tc pk n)
    then show ?thesis using run call up [OF deal_calls_ok(2) [OF c at]]
      by (auto simp: stored_Some call_ok_def)
  next
    case (Finalize t tc)
    then show ?thesis using run call up [OF deal_calls_ok(3) [OF c at]]
      by (auto simp: stored_Some call_ok_def)
  next
    case (SettleWeek t tc)
    then show ?thesis using run call up [OF deal_calls_ok(4) [OF c at]]
      by (auto simp: stored_Some call_ok_def)
  next
    case (OpenDispute t tc pk)
    then show ?thesis using run call up [OF deal_calls_ok(7) [OF c at]]
      by (auto simp: stored_Some call_ok_def)
  qed (use run deal_calls_ok(5,6,8,9) [OF c later] cleanup_ok [OF later] order_calls_ok [OF later] in
      \<open>auto simp: stored_Some dest!: actor_calls(2,3)\<close>)
qed

lemma mock_reach_ok:
  assumes "consts_ok c" and "mock_reach sha params c now st"
  shows "mock_ok c now st"
  using assms(2)
proof induction
  case (mock_call now st now' call st')
  then show ?case using run_call_ok [OF assms(1)] by blast
qed (rule mock_ok_default)

end
