(* ===== verification/MockSample.thy ===== *)
theory MockSample
  imports MockSystem
begin

text \<open>
  A concrete run of the mock chain, used to evaluate the properties of reachable states: an offer of
  four ticks is posted, three are bought, the stream is opened, its probe accepted, and one claim
  lands.
\<close>

definition sample_note :: NotePubkey where
  "sample_note = \<lparr>pk_x = replicate 32 0, pk_ed = replicate 32 0\<rparr>"

definition sample_offer :: SellOffer where
  "sample_offer = \<lparr>so_price_per_tick = 1000000000, so_max_ticks = 4, so_token_contract = ''a'',
     so_flags = 0\<rparr>"

definition sample_shape :: "u128 \<Rightarrow> u64 \<Rightarrow> DealSubscription" where
  "sample_shape paid start = \<lparr>sub_deal_flags = 0, sub_weeks = 0, sub_week_index = 0,
     sub_tokens_per_week = 3000000, sub_funded_tokens = 3000000, sub_tokens_paid = paid,
     sub_period_start = start, sub_week_base_tokens = 0\<rparr>"

definition sample_opened :: StreamCell where
  "sample_opened = \<lparr>sc_schema_version = 3,
     sc_machine = \<lparr>sm_state = Probe \<lparr>tick_index = 0, tick_price = 1000000000\<rparr>,
       sm_price = 1000000000, sm_seller_bond = 2000000000\<rparr>,
     sc_probe_accepted = False, sc_buyer_pubkey = sample_note, sc_seller_locked = 2000000000,
     sc_buyer_locked = 2075000000, sc_probe_locked = 1000000000, sc_probe_time = 12,
     sc_buyer_bond = 0, sc_fee_accrued = 0, sc_tokens_final = 0, sc_tokens_pending = 0,
     sc_last_claim_time = 12, sc_seller_received = 0, sc_buyer_refunded = 0, sc_burned = 0,
     sc_closed = False, sc_max_ticks = 3, sc_disputed = False, sc_dispute_time = 0,
     sc_buyer_stop_settlement = None\<rparr>"

definition sample_accepted :: StreamCell where
  "sample_accepted = sample_opened\<lparr>
     sc_machine := \<lparr>sm_state = Streaming 1 1, sm_price = 1000000000, sm_seller_bond = 2000000000\<rparr>,
     sc_probe_accepted := True, sc_buyer_locked := 2050000000, sc_probe_locked := 0,
     sc_seller_received := 1000000000, sc_fee_accrued := 25000000, sc_tokens_final := 1000000,
     sc_tokens_pending := 1000000, sc_last_claim_time := 300\<rparr>"

definition sample_claimed :: StreamCell where
  "sample_claimed = sample_accepted\<lparr>
     sc_machine := \<lparr>sm_state = Streaming 1 2, sm_price = 1000000000, sm_seller_bond = 2000000000\<rparr>,
     sc_tokens_pending := 2000000, sc_last_claim_time := 400\<rparr>"

definition sample_posted :: MockState where
  "sample_posted = default_state\<lparr>ms_offer_sellers := [(''a'', note_id_hex sample_note)],
     ms_offer_deadlines := [(''a'', 3610)], ms_deal_terms := [(''a'', (1000000000, 4))],
     ms_offers := [(''a'', sample_offer)]\<rparr>"

definition sample_matched :: MockState where
  "sample_matched = sample_posted\<lparr>ms_offers := [], ms_matched_offers := [(''a'', sample_offer)],
     ms_matched_ticks := [(''a'', 3)], ms_deal_subscriptions := [(''a'', sample_shape 0 11)],
     ms_matches := [(''a'', \<lparr>mt_token_contract = ''a'', mt_buyer_pubkey = sample_note,
       mt_price_per_tick = 1000000000\<rparr>)],
     ms_match_created_at := [(''a'', 11)]\<rparr>"

definition sample_running :: "StreamCell \<Rightarrow> DealSubscription \<Rightarrow> MockState" where
  "sample_running cell s = sample_matched\<lparr>ms_streams := [(''a'', cell)],
     ms_deal_subscriptions := [(''a'', s)]\<rparr>"

definition sample_state :: MockState where
  "sample_state = sample_running sample_claimed (sample_shape 1000000 300)"

lemmas sample_defs = sample_state_def sample_running_def sample_matched_def sample_posted_def
  sample_claimed_def sample_accepted_def sample_opened_def sample_shape_def sample_offer_def
  default_state_def

lemmas map_eval = hget_def hinsert_def hremove_def or_insert_def contains_key_def

lemmas money_eval = token_pay_and_fee_def checked_mul_div_floor_def canonical_def param_defs MAX_defs
  Let_def checked_add_def checked_mul_def checked_sub_def try_from_def

text \<open>The five calls.\<close>

lemma sample_post:
  "post_offer canonical 10 sample_offer sample_note default_state = Inr (sample_posted, ())"
  by (simp add: post_offer_def validate_mock_sell_offer_def sample_defs map_eval money_eval
      wrapping_add_def)

lemma sample_buy:
  "place_buy_ticks_inner 11 11 ''a'' sample_note (Some 3) sample_posted = Inr (sample_matched, ())"
  by (simp add: place_buy_ticks_inner_def mock_deal_shape_def sample_defs map_eval money_eval)

lemma sample_open:
  "open_stream canonical dob_canonical 12 ''a'' sample_note sample_matched
    = Inr (sample_running sample_opened (sample_shape 0 11), ())"
  by (simp add: open_stream_def require_mock_seller_actor_def opened_cell_def open_machine_def
      is_subscription_def STREAM_CELL_SCHEMA_VERSION_def sample_defs map_eval money_eval)

lemma sample_accept_deal:
  "accept_probe_deal canonical 300 sample_opened (sample_shape 0 11)
    = Inr (sample_accepted, sample_shape 1000000 300, ())"
  by (simp add: accept_probe_deal_def on_probe_accepted_def sample_defs map_eval money_eval)

lemma sample_claim_deal:
  "claim_tokens_deal canonical 400 400 2000000 sample_accepted (sample_shape 1000000 300)
    = Inr (sample_claimed, sample_shape 1000000 300, ())"
  by (simp add: claim_tokens_deal_def on_probe_def check_claim_cap_def check_claim_rate_def
      promote_due_def claim_deadline_reached_def promote_once_def on_claim_def check_invariant_def
      is_subscription_def div_ceil_def sample_defs map_eval money_eval)

lemma sample_accept:
  "accept_probe canonical 300 ''a'' (sample_running sample_opened (sample_shape 0 11))
    = Inr (sample_running sample_accepted (sample_shape 1000000 300), ())"
  by (simp add: accept_probe_def with_deal_def sample_running_def sample_accept_deal map_eval)

lemma sample_claim:
  "claim_tokens canonical 400 400 ''a'' sample_note 2000000
      (sample_running sample_accepted (sample_shape 1000000 300)) = Inr (sample_state, ())"
  by (simp add: claim_tokens_def require_mock_seller_actor_def with_deal_def sample_state_def
      sample_running_def sample_claim_deal map_eval)
    (simp add: sample_matched_def sample_posted_def)

lemma sample_consts: "consts_ok canonical"
  by (simp add: consts_ok_def canonical_def PLATFORM_FEE_BPS_def MAX_defs)

lemma sample_typed: "typed_call (PostOffer 10 sample_offer sample_note)"
  by (simp add: typed_call_def sample_offer_def sample_note_def pk_ok_def MAX_defs)

lemma sample_matched_reach: "mock_reach (\<lambda>_. 7) dob_canonical canonical 11 sample_matched"
proof -
  have "mock_reach (\<lambda>_. 7) dob_canonical canonical 10 sample_posted"
    by (rule mock_call [OF mock_start [of _ _ _ 10], where call = "PostOffer 10 sample_offer sample_note"])
      (simp_all add: call_ok_def sample_typed sample_post stored_def)
  then show ?thesis
    by (rule mock_call [where call = "PlaceBuy 11 11 ''a'' sample_note (Some 3)"])
      (simp_all add: call_ok_def typed_call_def sample_buy stored_def)
qed

lemma sample_accepted_reach:
  "mock_reach (\<lambda>_. 7) dob_canonical canonical 300
    (sample_running sample_accepted (sample_shape 1000000 300))"
proof -
  have "mock_reach (\<lambda>_. 7) dob_canonical canonical 12 (sample_running sample_opened (sample_shape 0 11))"
    by (rule mock_call [OF sample_matched_reach, where call = "OpenStream 12 ''a'' sample_note"])
      (simp_all add: call_ok_def typed_call_def sample_open stored_def)
  then show ?thesis
    by (rule mock_call [where call = "AcceptProbe 300 ''a''"])
      (simp_all add: call_ok_def typed_call_def sample_accept stored_def)
qed

lemma sample_reach: "mock_reach (\<lambda>_. 7) dob_canonical canonical 400 sample_state"
  by (rule mock_call [OF sample_accepted_reach, where call = "ClaimTokens 400 400 ''a'' sample_note 2000000"])
    (simp_all add: call_ok_def typed_call_def sample_claim stored_def)

text \<open>The buyer stops: the second claim is promoted and paid, and the deal closes.\<close>

definition sample_stopped :: StreamCell where
  "sample_stopped = sample_claimed\<lparr>
     sc_machine := \<lparr>sm_state = Closed, sm_price = 1000000000, sm_seller_bond = 2000000000\<rparr>,
     sc_seller_locked := 0, sc_buyer_locked := 0, sc_fee_accrued := 0, sc_tokens_final := 2000000,
     sc_seller_received := 4001600000, sc_buyer_refunded := 1025000000, sc_burned := 48400000,
     sc_closed := True, sc_buyer_stop_settlement := Some (4001600000, 1025000000)\<rparr>"

definition sample_end :: MockState where
  "sample_end = sample_running sample_stopped (sample_shape 2000000 300)"

lemma sample_stop_deal:
  "stop_mock_deal sample_claimed (sample_shape 1000000 300) 500 500 canonical
    = Inr (sample_stopped, sample_shape 2000000 300, AmicableSplit 2 1025000000)"
  by (simp add: stop_mock_deal_def accepted_stop_def promote_due_def claim_deadline_reached_def
      promote_once_def is_subscription_def credit_tokens_through_def move_payment_def
      delivered_ticks_def mock_finalized_ticks_def buyer_stop_def close_mock_clean_def
      settle_mock_fees_def mock_rebate_def drain_def close_machine_def saturating_mul_def
      sample_stopped_def sample_defs map_eval money_eval)

lemma sample_stop:
  "stop canonical 500 500 ''a'' sample_note sample_state = Inr (sample_end, AmicableSplit 2 1025000000)"
proof -
  have "sc_buyer_pubkey sample_claimed = sample_note" by (simp add: sample_defs)
  then show ?thesis
    by (simp add: stop_def require_mock_buyer_actor_def stop_mock_stream_def with_deal_def
        sample_state_def sample_running_def sample_stop_deal sample_end_def map_eval)
qed

lemma sample_end_reach: "mock_reach (\<lambda>_. 7) dob_canonical canonical 500 sample_end"
  by (rule mock_call [OF sample_reach, where call = "Stop 500 500 ''a'' sample_note"])
    (simp_all add: call_ok_def typed_call_def sample_stop stored_def)

text \<open>Or the buyer disputes the second claim before it is promoted.\<close>

definition sample_disputed :: StreamCell where
  "sample_disputed = sample_claimed\<lparr>
     sc_machine := \<lparr>sm_state = Disputed 1 1, sm_price = 1000000000, sm_seller_bond = 2000000000\<rparr>,
     sc_disputed := True, sc_dispute_time := 410\<rparr>"

definition sample_contested :: MockState where
  "sample_contested = sample_running sample_disputed (sample_shape 1000000 300)"

lemma sample_dispute:
  "\<exists>r. dispute 410 ''a'' sample_note sample_state = Inr (sample_contested, r)"
proof -
  have "sc_buyer_pubkey sample_claimed = sample_note" by (simp add: sample_defs)
  moreover have "\<exists>r. dispute_deal 410 ''a'' sample_claimed (sample_shape 1000000 300)
      = Inr (sample_disputed, sample_shape 1000000 300, r)"
    by (simp add: dispute_deal_def buyer_dispute_def sample_disputed_def sample_defs money_eval)
  ultimately show ?thesis
    by (auto simp: dispute_def require_mock_buyer_actor_def with_deal_def sample_state_def
        sample_running_def sample_contested_def map_eval)
qed

lemma sample_contested_reach: "mock_reach (\<lambda>_. 7) dob_canonical canonical 410 sample_contested"
proof -
  obtain r where "dispute 410 ''a'' sample_note sample_state = Inr (sample_contested, r)"
    using sample_dispute by blast
  then show ?thesis
    by (intro mock_call [OF sample_reach, where call = "OpenDispute 410 ''a'' sample_note"])
      (simp_all add: call_ok_def typed_call_def stored_def)
qed

lemma sample_streams [simp]:
  "hget (ms_streams sample_state) ''a'' = Some sample_claimed"
  "hget (ms_deal_subscriptions sample_state) ''a'' = Some (sample_shape 1000000 300)"
  "hget (ms_streams sample_end) ''a'' = Some sample_stopped"
  "hget (ms_deal_subscriptions sample_end) ''a'' = Some (sample_shape 2000000 300)"
  "hget (ms_streams sample_contested) ''a'' = Some sample_disputed"
  "hget (ms_deal_subscriptions sample_contested) ''a'' = Some (sample_shape 1000000 300)"
  by (simp_all add: sample_state_def sample_end_def sample_contested_def sample_running_def hget_def)

section \<open>A subscription\<close>

text \<open>A subscription of one tick a week, opened at 12 and accepted at 300.\<close>

definition weekly_offer :: SellOffer where
  "weekly_offer = sample_offer\<lparr>so_flags := 0x60\<rparr>"

definition weekly_shape :: "u128 \<Rightarrow> u64 \<Rightarrow> DealSubscription" where
  "weekly_shape paid start = \<lparr>sub_deal_flags = 0x40, sub_weeks = 4, sub_week_index = 0,
     sub_tokens_per_week = 1000000, sub_funded_tokens = 4000000, sub_tokens_paid = paid,
     sub_period_start = start, sub_week_base_tokens = 0\<rparr>"

definition weekly_opened :: StreamCell where
  "weekly_opened = sample_opened\<lparr>sc_buyer_locked := 3100000000, sc_buyer_bond := 2000000000, sc_max_ticks := 4\<rparr>"

definition weekly_accepted :: StreamCell where
  "weekly_accepted = sample_accepted\<lparr>sc_buyer_locked := 3075000000, sc_buyer_bond := 2000000000, sc_max_ticks := 4\<rparr>"

definition weekly_posted :: MockState where
  "weekly_posted = sample_posted\<lparr>ms_offers := [(''a'', weekly_offer)]\<rparr>"

definition weekly_matched :: MockState where
  "weekly_matched = sample_matched\<lparr>ms_matched_offers := [(''a'', weekly_offer)], ms_matched_ticks := [(''a'', 4)],
     ms_deal_subscriptions := [(''a'', weekly_shape 0 11)]\<rparr>"

definition weekly_running :: "StreamCell \<Rightarrow> DealSubscription \<Rightarrow> MockState" where
  "weekly_running cell s = weekly_matched\<lparr>ms_streams := [(''a'', cell)], ms_deal_subscriptions := [(''a'', s)]\<rparr>"

lemmas weekly_defs = weekly_running_def weekly_matched_def weekly_posted_def weekly_accepted_def weekly_opened_def
  weekly_shape_def weekly_offer_def sample_defs map_eval money_eval flag_defs SUPPORTED_FLAGS_def TAKER_FLAGS_def

lemma weekly_calls:
  "post_offer canonical 10 weekly_offer sample_note default_state = Inr (weekly_posted, ())"
  "place_buy_ticks_inner 11 11 ''a'' sample_note (Some 4) weekly_posted = Inr (weekly_matched, ())"
  "open_stream canonical dob_canonical 12 ''a'' sample_note weekly_matched
    = Inr (weekly_running weekly_opened (weekly_shape 0 11), ())"
  "accept_probe_deal canonical 300 weekly_opened (weekly_shape 0 11) = Inr (weekly_accepted, weekly_shape 1000000 300, ())"
  by (simp_all add: post_offer_def validate_mock_sell_offer_def wrapping_add_def place_buy_ticks_inner_def
      mock_deal_shape_def open_stream_def require_mock_seller_actor_def opened_cell_def open_machine_def
      is_subscription_def STREAM_CELL_SCHEMA_VERSION_def accept_probe_deal_def on_probe_accepted_def weekly_defs)

lemma weekly_typed: "typed_call (PostOffer 10 weekly_offer sample_note)"
  by (simp add: typed_call_def weekly_offer_def sample_offer_def sample_note_def pk_ok_def MAX_defs)

lemma weekly_reach:
  "mock_reach (\<lambda>_. 7) dob_canonical canonical 300 (weekly_running weekly_accepted (weekly_shape 1000000 300))"
proof -
  have "mock_reach (\<lambda>_. 7) dob_canonical canonical 10 weekly_posted"
    by (rule mock_call [OF mock_start [of _ _ _ 10], where call = "PostOffer 10 weekly_offer sample_note"])
      (simp_all add: call_ok_def weekly_typed weekly_calls stored_def)
  then have "mock_reach (\<lambda>_. 7) dob_canonical canonical 11 weekly_matched"
    by (rule mock_call [where call = "PlaceBuy 11 11 ''a'' sample_note (Some 4)"])
      (simp_all add: call_ok_def typed_call_def weekly_calls stored_def)
  then have "mock_reach (\<lambda>_. 7) dob_canonical canonical 12 (weekly_running weekly_opened (weekly_shape 0 11))"
    by (rule mock_call [where call = "OpenStream 12 ''a'' sample_note"])
      (simp_all add: call_ok_def typed_call_def weekly_calls stored_def)
  then show ?thesis
    by (rule mock_call [where call = "AcceptProbe 300 ''a''"])
      (simp_all add: call_ok_def typed_call_def accept_probe_def with_deal_def weekly_running_def map_eval
        weekly_calls stored_def)
qed

lemma weekly_deal:
  "hget (ms_streams (weekly_running weekly_accepted (weekly_shape 1000000 300))) ''a'' = Some weekly_accepted"
  "hget (ms_deal_subscriptions (weekly_running weekly_accepted (weekly_shape 1000000 300))) ''a''
    = Some (weekly_shape 1000000 300)"
  "is_subscription (weekly_shape 1000000 300)" "sc_probe_accepted weekly_accepted" "\<not> sc_closed weekly_accepted"
  "\<not> sc_disputed weekly_accepted"
  "sc_last_claim_time weekly_accepted + claim_promote_window canonical \<le> U64_MAX"
  by (simp_all add: is_subscription_def weekly_defs)

end
