(* ===== verification/MockProperties.thy ===== *)
theory MockProperties
  imports MockSample
begin

text \<open>
  The properties of the states the mock chain reaches: they load again, their money is conserved,
  the books of an open deal are exact, a closed deal stays as it is, and every deal reads back as a
  consistent snapshot.
\<close>

section \<open>Facts of a reachable deal\<close>

lemma reach_deal:
  assumes "consts_ok c" and "mock_reach sha params c now st" and "hget (ms_streams st) tc = Some cell"
    and "hget (ms_deal_subscriptions st) tc = Some s"
  shows "deal_ok c cell s" and "deal_by now cell"
  using mock_ok_stream [OF mock_reach_ok [OF assms(1,2)] assms(3,4)] by simp_all

lemma deal_ok_closed_undisputed: "deal_ok c cell s \<Longrightarrow> sc_closed cell \<Longrightarrow> \<not> sc_disputed cell"
  by (auto simp: deal_ok_def machine_agrees_def split: StreamState.splits)

text \<open>Every operation refuses a closed deal.\<close>

lemma closed_refused:
  assumes "sc_closed cell" and "\<not> sc_disputed cell"
  shows "accept_probe_deal c t cell s \<noteq> Inr x" and "claim_tokens_deal c t1 t2 n cell s \<noteq> Inr x"
    and "finalize_deal c t cell s \<noteq> Inr x" and "settle_week_deal c t cell s \<noteq> Inr x"
    and "stop_mock_deal cell s t1 t2 c \<noteq> Inr y" and "seller_stop_deal c t1 t2 cell s \<noteq> Inr y"
    and "dispute_deal t tc cell s \<noteq> Inr y" and "resolve_deal c b cell s \<noteq> Inr y"
  using assms
  by (simp_all add: accept_probe_deal_def claim_tokens_deal_def finalize_deal_def settle_week_deal_def
      charge_elapsed_subscription_weeks_def stop_mock_deal_def seller_stop_deal_def dispute_deal_def
      resolve_deal_def resolve_mock_dispute_def refuse_if_def)

text \<open>What a call can change of the stream and the shape of one contract.\<close>

definition same_stream :: "token_contract \<Rightarrow> MockState \<Rightarrow> MockState \<Rightarrow> bool" where
  "same_stream tc st st' \<longleftrightarrow> hget (ms_streams st') tc = hget (ms_streams st) tc
    \<and> hget (ms_deal_subscriptions st') tc = hget (ms_deal_subscriptions st) tc"

lemma refused_same_stream:
  assumes "hget (ms_streams st) tc = Some cell" and "\<And>s x. f cell s \<noteq> Inr x"
    and "with_deal k st f = Inr (st', r)"
  shows "same_stream tc st st'"
  using assms by (cases "k = tc") (auto simp: with_deal_Inr hget_hinsert same_stream_def)

lemma closed_same_stream:
  assumes "sc_closed cell" and "\<not> sc_disputed cell" and "hget (ms_streams st) tc = Some cell"
  shows "with_deal k st (accept_probe_deal c t) = Inr (st', u) \<Longrightarrow> same_stream tc st st'"
    and "with_deal k st (claim_tokens_deal c t1 t2 n) = Inr (st', u) \<Longrightarrow> same_stream tc st st'"
    and "with_deal k st (finalize_deal c t) = Inr (st', u) \<Longrightarrow> same_stream tc st st'"
    and "with_deal k st (settle_week_deal c t) = Inr (st', u) \<Longrightarrow> same_stream tc st st'"
    and "with_deal k st (\<lambda>cell s. stop_mock_deal cell s t1 t2 c) = Inr (st', r) \<Longrightarrow> same_stream tc st st'"
    and "with_deal k st (seller_stop_deal c t1 t2) = Inr (st', r) \<Longrightarrow> same_stream tc st st'"
    and "with_deal k st (dispute_deal t k) = Inr (st', r) \<Longrightarrow> same_stream tc st st'"
    and "with_deal k st (resolve_deal c b) = Inr (st', r) \<Longrightarrow> same_stream tc st st'"
  by (erule refused_same_stream [OF assms(3), rotated], rule closed_refused [OF assms(1,2)])+

lemma order_calls_streams:
  "ms_streams (swept_state t i st) = ms_streams st"
  "ms_deal_subscriptions (swept_state t i st) = ms_deal_subscriptions st"
  "ms_streams (remove_subscription_order_from_book i reason r st) = ms_streams st"
  "ms_deal_subscriptions (remove_subscription_order_from_book i reason r st) = ms_deal_subscriptions st"
  "ms_streams (fst (cancel_subscription_order t book i pk st)) = ms_streams st"
  "ms_deal_subscriptions (fst (cancel_subscription_order t book i pk st)) = ms_deal_subscriptions st"
  by (simp_all add: swept_state_def remove_subscription_order_from_book_def
      cancel_subscription_order_def Let_def split: option.split)

section \<open>Persistence\<close>

text \<open>
  C18: Whatever sequence of calls runs while the clock moves forward, the state the backend has stored
  passes every check of a later load, and the load returns exactly that state (with a JSON codec
  that reads back what it wrote). No operation can leave a state file that the next one refuses.
\<close>

theorem reachable_state_reloads:
  assumes "consts_ok c" and "mock_reach sha params c now st" and "now \<le> t"
    and "decode_json (encode_json st) = Some st" and "encode_json st \<noteq> []"
  shows "load_state decode_json (store_state encode_json st) t = Inr st"
  using mock_ok_validates [OF mock_ok_mono [OF mock_reach_ok [OF assms(1,2)] assms(3)]] assms(4,5)
  by (simp add: load_state_def store_state_def)

theorem reachable_state_reloads_witness:
  "load_state (\<lambda>_. Some sample_state) (store_state (\<lambda>_. [0]) sample_state) 500 = Inr sample_state"
  by (rule reachable_state_reloads [OF sample_consts sample_reach]) simp_all

section \<open>Money\<close>

text \<open>
  C1: In every reachable state the money of every opened deal is conserved: what is still locked on
  both sides, the accrued fee, and what was paid out, refunded or burned add up to the seller's bond
  \<open>2P\<close>, the funded volume at its price with the platform fee, and the subscriber's bond. When the
  deal is closed nothing is left locked, so all of it went to the seller, the buyer or the burn.
\<close>

theorem reachable_funds_conserved:
  assumes "consts_ok c" and "mock_reach sha params c now st"
    and "hget (ms_streams st) tc = Some cell" and "hget (ms_deal_subscriptions st) tc = Some s"
  shows "sc_seller_locked cell + sc_buyer_locked cell + sc_probe_locked cell + sc_buyer_bond cell
      + sc_fee_accrued cell + sc_seller_received cell + sc_buyer_refunded cell + sc_burned cell
    = 2 * sm_price (sc_machine cell) + value_of c (sm_price (sc_machine cell)) (sub_funded_tokens s)
      + (if is_subscription s then 2 * sm_price (sc_machine cell) else 0)
    \<and> (sc_closed cell \<longrightarrow> sc_seller_locked cell = 0 \<and> sc_buyer_locked cell = 0
      \<and> sc_probe_locked cell = 0 \<and> sc_buyer_bond cell = 0 \<and> sc_fee_accrued cell = 0)"
proof -
  have core: "deal_core c cell s" using reach_deal(1) [OF assms] by (simp add: deal_ok_def)
  have "sc_closed cell \<Longrightarrow> drained cell" using core by (simp add: deal_core_def money_ok_def Let_def)
  with deal_core_total [OF core] show ?thesis by (auto simp: cell_total_def bond_of_def drained_def)
qed

theorem reachable_funds_conserved_witness:
  "sc_seller_locked sample_claimed + sc_buyer_locked sample_claimed + sc_fee_accrued sample_claimed
    + sc_seller_received sample_claimed = 5075000000"
proof -
  from reachable_funds_conserved [OF sample_consts sample_reach sample_streams(1,2)] show ?thesis
    by (simp add: sample_defs value_of_def pay_of_def fee_of_def canonical_def param_defs
        is_subscription_def)
qed

text \<open>
  C19: The books of an open accepted deal are exact: the seller has been paid the tokens counted as
  paid at the tick price, the fee taken is the platform fee of that pay, the escrow still holds the
  value of the rest, and both bonds are whole. Nothing claimed and not yet paid has moved.
\<close>

theorem reachable_books_exact:
  assumes "consts_ok c" and "mock_reach sha params c now st"
    and "hget (ms_streams st) tc = Some cell" and "hget (ms_deal_subscriptions st) tc = Some s"
    and "sc_probe_accepted cell" and "\<not> sc_closed cell"
  shows "sc_seller_received cell = sub_tokens_paid s * sm_price (sc_machine cell) div TICK_SIZE
    \<and> sc_fee_accrued cell = sc_seller_received cell * platform_fee_bps c div 10000
    \<and> sc_buyer_locked cell + sc_seller_received cell + sc_fee_accrued cell
      = value_of c (sm_price (sc_machine cell)) (sub_funded_tokens s)
    \<and> sc_seller_locked cell = 2 * sm_price (sc_machine cell) \<and> sc_probe_locked cell = 0
    \<and> sc_tokens_final cell \<le> sc_tokens_pending cell
    \<and> sc_tokens_pending cell \<le> sub_funded_tokens s"
proof -
  let ?p = "sm_price (sc_machine cell)"
  have core: "deal_core c cell s" using reach_deal(1) [OF assms(1-4)] by (simp add: deal_ok_def)
  have b: "books_ok c cell s" using deal_core_books [OF core assms(5,6)] .
  have "value_of c ?p (sub_tokens_paid s) \<le> value_of c ?p (sub_funded_tokens s)"
    using b by (intro value_of_mono) (simp add: books_ok_def Let_def)
  moreover have "sc_seller_locked cell = 2 * ?p \<and> sc_probe_locked cell = 0"
    using core assms(5,6) by (simp add: deal_core_def money_ok_def Let_def)
  moreover have "sc_tokens_final cell \<le> sc_tokens_pending cell
    \<and> sc_tokens_pending cell \<le> sub_funded_tokens s"
    using core by (simp add: deal_core_def pipeline_times_def)
  ultimately show ?thesis
    using b by (auto simp: books_ok_def Let_def pay_of_def fee_of_def value_of_def)
qed

theorem reachable_books_exact_witness:
  "sc_seller_received sample_claimed = 1000000 * 1000000000 div TICK_SIZE"
proof -
  have "sc_probe_accepted sample_claimed" "\<not> sc_closed sample_claimed" by (simp_all add: sample_defs)
  from reachable_books_exact [OF sample_consts sample_reach sample_streams(1,2) this] show ?thesis
    by (simp add: sample_defs)
qed

text \<open>
  A closed deal is final: whatever call succeeds next, with any arguments and clocks, the stream
  and the shape of the deal stay exactly as they are. In particular nothing is paid twice.
\<close>

theorem closed_deal_is_final:
  assumes "consts_ok c" and "mock_reach sha params c now st"
    and "hget (ms_streams st) tc = Some cell" and "sc_closed cell"
    and "run_call sha params c call st = Some st'"
  shows "hget (ms_streams st') tc = Some cell
    \<and> hget (ms_deal_subscriptions st') tc = hget (ms_deal_subscriptions st) tc"
proof -
  have ok: "mock_ok c now st" using mock_reach_ok [OF assms(1,2)] .
  have at: "deal_at c now st tc" using ok by (simp add: mock_ok_def)
  have m: "contains_key (ms_matches st) tc"
    using deal_at_keys [OF at] assms(3) by (simp add: contains_key_def)
  then obtain mt where mt: "hget (ms_matches st) tc = Some mt" by (auto simp: contains_key_def)
  obtain s where s: "hget (ms_deal_subscriptions st) tc = Some s" using mock_ok_deal [OF ok mt] by blast
  have nd: "\<not> sc_disputed cell"
    using deal_ok_closed_undisputed [OF reach_deal(1) [OF assms(1-3) s] assms(4)] .
  note frozen = closed_same_stream [OF assms(4) nd assms(3)]
  have "same_stream tc st st'"
  proof (cases call)
    case (PlaceBuy t at k pk ticks)
    then show ?thesis using assms(3,5) m
      by (auto simp: stored_Some place_buy_Inr matched_state_def hget_hinsert same_stream_def)
  next
    case (OpenStream t k pk)
    then show ?thesis using assms(3,5)
      by (auto simp: stored_Some open_stream_def require_mock_seller_actor_def result_simps Let_def
          contains_key_def hget_hinsert same_stream_def)
  next
    case (Cleanup t k)
    then show ?thesis using assms(3,5)
      by (auto simp: stored_Some cleanup_unopened_def result_simps contains_key_def hget_hremove same_stream_def)
  qed (use assms(5) in \<open>auto simp: stored_Some accept_probe_def finalize_def settle_week_def
      stop_mock_stream_def seller_stop_def release_dispute_def post_offer_def
      expire_resting_sell_order_def cancel_resting_sell_order_def place_subscription_order_def
      subscription_order_def subscription_terminal_order_def order_calls_streams same_stream_def
      result_simps Let_def dest!: actor_calls dest: frozen [unfolded same_stream_def] split: if_splits\<close>)
  then show ?thesis using assms(3) by (simp add: same_stream_def)
qed

text \<open>An offer for another contract is posted after the sample deal has closed.\<close>

theorem closed_deal_is_final_witness:
  "\<exists>st'. run_call (\<lambda>_. 7) dob_canonical canonical
      (PostOffer 600 (sample_offer\<lparr>so_token_contract := ''b''\<rparr>) sample_note) sample_end = Some st'
    \<and> hget (ms_streams st') ''a'' = Some sample_stopped"
proof -
  have "\<exists>st'. run_call (\<lambda>_. 7) dob_canonical canonical
      (PostOffer 600 (sample_offer\<lparr>so_token_contract := ''b''\<rparr>) sample_note) sample_end = Some st'"
    by (simp add: stored_def post_offer_def validate_mock_sell_offer_def sample_end_def sample_defs
        map_eval money_eval)
  moreover have "sc_closed sample_stopped" by (simp add: sample_stopped_def)
  ultimately show ?thesis
    using closed_deal_is_final [OF sample_consts sample_end_reach sample_streams(3)] by blast
qed

section \<open>Claims\<close>

lemma check_claim_rate_ok:
  assumes "check_claim_rate c now cell n = Inr u" and "0 < min_seconds_per_tick c"
  shows "sc_last_claim_time cell + min_claim_interval c \<le> now"
    and "n - sc_tokens_pending cell \<le> max_claim_delta c (now - sc_last_claim_time cell)"
proof -
  have r: "sc_last_claim_time cell \<le> now" "min_claim_interval c \<le> now - sc_last_claim_time cell"
    "n - sc_tokens_pending cell \<le> MAX_CLAIM_DELTA"
    "(n - sc_tokens_pending cell) * min_seconds_per_tick c \<le> (now - sc_last_claim_time cell) * TICK_SIZE"
    using assms(1) by (auto simp: check_claim_rate_def result_simps Let_def not_less)
  then show "sc_last_claim_time cell + min_claim_interval c \<le> now" by linarith
  show "n - sc_tokens_pending cell \<le> max_claim_delta c (now - sc_last_claim_time cell)"
    using r claim_delta_limit_iff [OF assms(2)] by (simp add: max_claim_delta_def)
qed

text \<open>
  C20: A claim the chain accepts as new is inside every limit the client computes: it grows the total by
  at most \<open>max_claim_delta\<close> of the time since the last claim, keeps the minimum interval, stays
  inside the funded volume and, for a subscription, inside the quota of the running week. The claim
  before it is final by then, so at most one claim is ever unpromoted.
\<close>

theorem accepted_claim_within_limits:
  assumes "consts_ok c" and "mock_reach sha params c now st"
    and "hget (ms_streams st) tc = Some cell" and "hget (ms_deal_subscriptions st) tc = Some s"
    and "claim_tokens_deal c now1 now2 n cell s = Inr (cell', s', u)"
    and "n \<noteq> sc_tokens_pending cell" and "0 < min_seconds_per_tick c"
  shows "sc_tokens_pending cell < n \<and> n \<le> sub_funded_tokens s
    \<and> sc_last_claim_time cell + min_claim_interval c \<le> now2
    \<and> n - sc_tokens_pending cell \<le> max_claim_delta c (now2 - sc_last_claim_time cell)
    \<and> sc_tokens_final cell' = sc_tokens_pending cell \<and> sc_tokens_pending cell' = n
    \<and> (is_subscription s \<longrightarrow> n \<le> sub_week_base_tokens s' + sub_tokens_per_week s')"
proof -
  have core: "deal_core c cell s" using reach_deal(1) [OF assms(1-4)] by (simp add: deal_ok_def)
  obtain cell1 b cell2 m where more: "sc_tokens_pending cell < n"
    and ch: "charge_elapsed_subscription_weeks cell s now1 c = Inr (cell1, s', b)"
    and cap: "check_claim_cap cell1 s' n = Inr ()"
    and rate: "check_claim_rate c now2 cell1 n = Inr ()"
    and pr: "promote_due cell1 now2 c = Inr cell2"
    and eq: "sc_tokens_pending cell2 = sc_tokens_final cell2"
    and cell': "cell' = cell2\<lparr>sc_machine := m, sc_tokens_pending := n, sc_last_claim_time := now2\<rparr>"
    using assms(5,6)
    by (auto simp: claim_tokens_deal_def result_simps charge_elapsed_subscription_weeks_def
        split: if_splits)
  note ce = charge_elapsed_kept [OF assms(1) core ch]
  obtain x y z where c1: "cell1 = cell\<lparr>sc_buyer_locked := x, sc_seller_received := y, sc_fee_accrued := z\<rparr>"
    using ce(3) by blast
  obtain t where c2: "cell2 = cell1\<lparr>sc_tokens_final := t\<rparr>" using promote_due_core [OF ce(1) pr] by blast
  have more1: "sc_tokens_pending cell1 < n" using more by (simp add: c1)
  note capped = check_claim_cap_ok [OF ce(1) cap more1]
  have "sub_funded_tokens s' = sub_funded_tokens s" "is_subscription s' = is_subscription s"
    using ce(2) by (simp_all add: same_deal_def is_subscription_def)
  moreover have "sc_tokens_final cell' = sc_tokens_pending cell" "sc_tokens_pending cell' = n"
    using eq by (simp_all add: cell' c2 c1)
  ultimately show ?thesis
    using more capped check_claim_rate_ok [OF rate assms(7)] by (auto simp: c1 split: if_splits)
qed

text \<open>The claim of the sample run, which came a hundred seconds after the probe was accepted.\<close>

theorem accepted_claim_within_limits_witness:
  "2000000 - sc_tokens_pending sample_accepted
    \<le> max_claim_delta canonical (400 - sc_last_claim_time sample_accepted)"
proof -
  have "hget (ms_streams (sample_running sample_accepted (sample_shape 1000000 300))) ''a'' = Some sample_accepted"
    "hget (ms_deal_subscriptions (sample_running sample_accepted (sample_shape 1000000 300))) ''a''
      = Some (sample_shape 1000000 300)"
    by (simp_all add: sample_running_def hget_def)
  moreover have "2000000 \<noteq> sc_tokens_pending sample_accepted" "0 < min_seconds_per_tick canonical"
    by (simp_all add: sample_accepted_def canonical_def)
  ultimately show ?thesis
    using accepted_claim_within_limits [OF sample_consts sample_accepted_reach _ _ sample_claim_deal]
    by blast
qed

end
