(* ===== verification/MockSettlement.thy ===== *)
theory MockSettlement
  imports MockProperties
begin

text \<open>
  The settlements of the mock chain: a stop, a seller's stop and the resolution of a dispute always
  go through on a deal in order, and pay exactly what the paid volume is worth. The bound they need
  is that the whole money of the deal fits \<open>u128\<close>.
\<close>

section \<open>Closing always goes through\<close>

definition money_fits :: "ProtocolConsts \<Rightarrow> StreamCell \<Rightarrow> DealSubscription \<Rightarrow> bool" where
  "money_fits c cell s \<longleftrightarrow> deal_funds c cell s \<le> U128_MAX"

lemma mock_rebate_ok:
  assumes c: "consts_ok c" and d: "d * cell_price cell \<le> U128_MAX"
  shows "\<exists>r. mock_rebate cell d c clean = Inr r"
proof (cases clean)
  case True
  let ?rate = "min (saturating_mul U128_MAX (rebate_slope_bps c) d) (rebate_max_bps c)"
  have rate: "?rate \<le> 10000" using c by (auto simp: consts_ok_def)
  have "10000 * ?rate \<le> 10000 * 10000" using rate by (rule mult_le_mono2)
  also have "\<dots> \<le> U128_MAX" by (simp add: MAX_defs)
  finally have fit: "10000 * ?rate \<le> U128_MAX" .
  have "d * cell_price cell * ?rate \<le> d * cell_price cell * 10000" using rate by (rule mult_le_mono2)
  then have "d * cell_price cell * ?rate div 10000 \<le> d * cell_price cell * 10000 div 10000"
    by (rule div_le_mono)
  then have "d * cell_price cell * ?rate div 10000 \<le> U128_MAX" using d by simp
  then show ?thesis
    using True d checked_mul_div_floor_eq [OF _ fit, of "d * cell_price cell"]
    by (simp add: mock_rebate_def checked_mul_def Let_def)
qed (simp add: mock_rebate_def)

lemma settle_mock_fees_ok:
  assumes c: "consts_ok c" and d: "d * cell_price cell \<le> U128_MAX" and t: "cell_total cell \<le> U128_MAX"
  shows "\<exists>cell'. settle_mock_fees cell d c clean = Inr cell'"
proof -
  obtain r where r: "mock_rebate cell d c clean = Inr r" using mock_rebate_ok [OF c d] by blast
  then have "r \<le> sc_fee_accrued cell" by (rule mock_rebate_le)
  then show ?thesis using r t unfolding settle_mock_fees_iff cell_total_def by fastforce
qed

lemma close_mock_clean_ok:
  assumes c: "consts_ok c" and d: "d * cell_price cell \<le> U128_MAX" and t: "cell_total cell \<le> U128_MAX"
  shows "\<exists>cell' refund. close_mock_clean cell d c = Inr (cell', refund)"
proof -
  obtain c1 where c1: "settle_mock_fees cell d c True = Inr c1" using settle_mock_fees_ok [OF c d t] by blast
  have "cell_total c1 \<le> U128_MAX" using settle_mock_fees_total [OF c1] t by simp
  then have "sc_buyer_locked c1 + sc_probe_locked c1 + sc_buyer_bond c1 \<le> U128_MAX"
    "sc_buyer_refunded c1 + (sc_buyer_locked c1 + sc_probe_locked c1 + sc_buyer_bond c1) \<le> U128_MAX"
    "sc_seller_received c1 + sc_seller_locked c1 \<le> U128_MAX"
    by (simp_all add: cell_total_def)
  then show ?thesis using c1 unfolding close_mock_clean_iff by blast
qed

text \<open>What a clean close pays: the seller keeps the proceeds and the bond, and the rebate.\<close>

lemma close_mock_clean_exact:
  assumes "close_mock_clean cell d c = Inr (cell', refund)"
  shows "refund = sc_buyer_locked cell + sc_probe_locked cell + sc_buyer_bond cell"
    and "sc_buyer_refunded cell' = sc_buyer_refunded cell + refund"
    and "sc_seller_received cell' + sc_burned cell' =
      sc_seller_received cell + sc_seller_locked cell + sc_fee_accrued cell + sc_burned cell"
    and "sc_seller_received cell + sc_seller_locked cell \<le> sc_seller_received cell'"
    and "sc_closed cell'" and "sc_tokens_final cell' = sc_tokens_final cell"
  using assms by (auto simp: money_iffs drain_def dest!: mock_rebate_le)

lemma delivered_ok:
  assumes core: "deal_core c cell s" and price: "cell_price cell' = cell_price cell"
    and fin: "sc_tokens_final cell' \<le> sub_funded_tokens s" and acc: "sc_probe_accepted cell'"
  shows "\<exists>d. delivered_ticks cell' = Inr d \<and> d * cell_price cell \<le> U128_MAX"
proof -
  let ?d = "max (sc_tokens_final cell' div TICK_SIZE) 1"
  have st: "sub_funded_tokens s = sc_max_ticks cell * TICK_SIZE"
    "value_of c (cell_price cell) (sub_funded_tokens s) \<le> U128_MAX"
    using core by (auto simp: deal_core_def static_ok_def)
  have "2 * TICK_SIZE \<le> sub_funded_tokens s" using core by (simp add: deal_core_def shape_ok_def)
  then have two: "2 \<le> sc_max_ticks cell" using st(1) by simp
  have "sc_tokens_final cell' div TICK_SIZE \<le> sub_funded_tokens s div TICK_SIZE"
    using fin by (rule div_le_mono)
  then have "?d \<le> sc_max_ticks cell" using st(1) two by simp
  then have "?d * cell_price cell \<le> sc_max_ticks cell * cell_price cell" by (rule mult_le_mono1)
  also have "\<dots> = pay_of (cell_price cell) (sub_funded_tokens s)" by (simp add: st(1) pay_of_ticks)
  also have "\<dots> \<le> U128_MAX" using st(2) value_of_ge_pay(1) le_trans by blast
  finally show ?thesis
    using deal_core_ticks_fit(2) [OF core fin] acc
    by (simp add: delivered_ticks_def mock_finalized_ticks_def try_from_def)
qed

section \<open>The stops of an accepted deal\<close>

text \<open>
  Promotion, weekly charges and the last payment of a stop, on a deal in order: they go through, and
  leave books that are exact for the new paid volume.
\<close>

lemma weeks_at_ok:
  assumes "shape_ok s" and "sub_period_start s \<le> now"
  obtains w where "subscription_weeks_at s now b = Inr w" and "w \<le> sub_weeks s"
proof -
  have "sub_weeks s \<le> 4" using assms(1) by (auto simp: shape_ok_def SUBSCRIPTION_WEEKS_def split: if_splits)
  then have "\<exists>w. subscription_weeks_at s now b = Inr w"
    using assms(2)
    by (auto simp: subscription_weeks_at_def checked_sub_def try_from_def Let_def MAX_defs)
  then show thesis using that subscription_weeks_at_le by blast
qed

lemma stop_weeks_ok:
  assumes c: "consts_ok c" and core: "deal_core c cell s"
    and st: "sc_probe_accepted cell" "\<not> sc_closed cell" and t: "sub_period_start s \<le> now"
  obtains cell' s' x where
    "(if is_subscription s then bindR (subscription_weeks_at s now b) (\<lambda>w.
        charge_subscription_through cell s w c) else Inr (cell, s, False)) = Inr (cell', s', x)"
    and "deal_core c cell' s'" and "same_deal cell s cell' s'"
    and "\<exists>i j k. cell' = cell\<lparr>sc_buyer_locked := i, sc_seller_received := j, sc_fee_accrued := k\<rparr>"
    and "\<not> is_subscription s \<Longrightarrow> s' = s"
proof (cases "is_subscription s")
  case True
  have "shape_ok s" using core by (simp add: deal_core_def)
  then obtain w where w: "subscription_weeks_at s now b = Inr w" "w \<le> sub_weeks s"
    using weeks_at_ok t by blast
  show thesis
    by (rule charge_core [OF c core st True w(2)]) (rule that, simp_all add: True w(1))
next
  case False
  have "\<exists>i j k. cell = cell\<lparr>sc_buyer_locked := i, sc_seller_received := j, sc_fee_accrued := k\<rparr>"
    by (rule exI [of _ "sc_buyer_locked cell"], rule exI [of _ "sc_seller_received cell"],
        rule exI [of _ "sc_fee_accrued cell"]) simp
  then show thesis using False core by (intro that [of cell s False]) simp_all
qed

lemma last_payment_ok:
  assumes c: "consts_ok c" and core: "deal_core c cell s"
    and st: "sc_probe_accepted cell" "\<not> sc_closed cell"
  obtains cell' s' where
    "(if owed \<and> sub_tokens_paid s < sc_tokens_final cell
      then credit_tokens_through cell s (sc_tokens_final cell) c else Inr (cell, s)) = Inr (cell', s')"
    and "books_ok c cell' s'" and "same_deal cell s cell' s'"
    and "\<exists>i j k. cell' = cell\<lparr>sc_buyer_locked := i, sc_seller_received := j, sc_fee_accrued := k\<rparr>"
    and "sub_tokens_paid s' = (if owed then max (sub_tokens_paid s) (sc_tokens_final cell)
      else sub_tokens_paid s)"
proof (cases "owed \<and> sub_tokens_paid s < sc_tokens_final cell")
  case True
  have b: "books_ok c cell s" using deal_core_books [OF core st] .
  have le: "sc_tokens_final cell \<le> sub_funded_tokens s"
    using core by (auto simp: deal_core_def pipeline_times_def)
  let ?cell' = "paid_through c s (sc_tokens_final cell) cell"
    and ?s' = "s\<lparr>sub_tokens_paid := sc_tokens_final cell\<rparr>"
  have run: "credit_tokens_through cell s (sc_tokens_final cell) c = Inr (?cell', ?s')"
    using credit_tokens_through_books [OF c b _ le] True by simp
  have "\<exists>i j k. ?cell' = cell\<lparr>sc_buyer_locked := i, sc_seller_received := j, sc_fee_accrued := k\<rparr>"
    by (auto simp: paid_through_def Let_def)
  then show thesis
    using run True paid_through_books [OF b le]
    by (intro that [of ?cell' ?s']) (simp_all add: same_deal_def paid_through_def Let_def)
next
  case False
  have "\<exists>i j k. cell = cell\<lparr>sc_buyer_locked := i, sc_seller_received := j, sc_fee_accrued := k\<rparr>"
    by (rule exI [of _ "sc_buyer_locked cell"], rule exI [of _ "sc_seller_received cell"],
        rule exI [of _ "sc_fee_accrued cell"]) simp
  then show thesis using False deal_core_books [OF core st] by (intro that [of cell s]) auto
qed

text \<open>
  The weeks of a subscription at a moment: those that ended, or those that began, never more than the term has;
  and the volume such weeks are paid for, at least the trial tick.
\<close>

definition completed_weeks :: "DealSubscription \<Rightarrow> u64 \<Rightarrow> nat" where
  "completed_weeks s now = min ((now - sub_period_start s) div SUB_WEEK_LEN) (sub_weeks s)"

definition started_weeks :: "DealSubscription \<Rightarrow> u64 \<Rightarrow> nat" where
  "started_weeks s now = min ((now - sub_period_start s) div SUB_WEEK_LEN + 1) (sub_weeks s)"

definition weeks_volume :: "DealSubscription \<Rightarrow> nat \<Rightarrow> u128" where
  "weeks_volume s w = (if w = 0 then TICK_SIZE else w * sub_tokens_per_week s)"

lemma subscription_weeks_exact:
  "subscription_weeks_at s now b = Inr w \<Longrightarrow> w = (if b then started_weeks s now else completed_weeks s now)"
  by (auto simp: subscription_weeks_at_def started_weeks_def completed_weeks_def result_simps Let_def
      checked_sub_def try_from_def split: if_splits)

lemma charged_volume:
  assumes "charge_subscription_through cell s w c = Inr (cell', s', x)" and "deal_core c cell s"
    and "sc_probe_accepted cell" "\<not> sc_closed cell" "is_subscription s"
  shows "sub_week_index s' = max (sub_week_index s) w"
    and "sub_tokens_paid s' = weeks_volume s (max (sub_week_index s) w)"
proof -
  have "sub_tokens_paid s = weeks_volume s (sub_week_index s)"
    using assms(2-5) by (auto simp: deal_core_def weeks_ok_def weeks_volume_def split: if_splits)
  then show "sub_week_index s' = max (sub_week_index s) w" "sub_tokens_paid s' = weeks_volume s (max (sub_week_index s) w)"
    using assms(1)
    by (auto simp: charge_subscription_through_def credit_tokens_through_def weeks_volume_def result_simps max_def
        split: if_splits prod.splits)
qed

lemma credit_keeps_week:
  "credit_tokens_through cell s target c = Inr (cell', s') \<Longrightarrow> sub_week_index s' = sub_week_index s"
  by (auto simp: credit_tokens_through_def result_simps split: if_splits prod.splits)

text \<open>
  The stop of an accepted deal, for either side: \<open>charged\<close> says whether the running week is charged
  and \<open>owed\<close> whether trusted tokens beyond the paid ones are paid.
\<close>

lemma accepted_stop_steps:
  assumes c: "consts_ok c" and ok: "deal_ok c cell s" and st: "sc_probe_accepted cell" "\<not> sc_closed cell"
    and nd: "\<not> sc_disputed cell" and fits: "money_fits c cell s"
    and win: "sc_last_claim_time cell + claim_promote_window c \<le> U64_MAX" and t: "sub_period_start s \<le> now2"
  obtains cell1 cell2 s1 x cell3 s2 d paid where
    "promote_due cell now1 c = Inr cell1"
    and "(if is_subscription s then bindR (subscription_weeks_at s now2 charged) (\<lambda>w.
        charge_subscription_through cell1 s w c) else Inr (cell1, s, False)) = Inr (cell2, s1, x)"
    and "is_subscription s1 = is_subscription s"
    and "(if owed \<and> sub_tokens_paid s1 < sc_tokens_final cell2
      then credit_tokens_through cell2 s1 (sc_tokens_final cell2) c else Inr (cell2, s1)) = Inr (cell3, s2)"
    and "delivered_ticks cell3 = Inr d" and "mock_finalized_ticks (sub_tokens_paid s2) = Inr paid"
    and "sc_machine cell3 = sc_machine cell"
    and "\<forall>m. sm_price m = cell_price cell \<longrightarrow>
      (\<exists>cell4 r. close_mock_clean (cell3\<lparr>sc_machine := m\<rparr>) d c = Inr (cell4, r))"
    and "books_ok c cell3 s2" and "same_deal cell s cell3 s2"
    and "sc_probe_locked cell3 = 0" and "sc_buyer_bond cell3 = bond_of s (cell_price cell)"
    and "sc_seller_locked cell3 = 2 * cell_price cell" and "sc_burned cell3 = 0"
    and "sc_buyer_refunded cell3 = 0"
    and "sc_tokens_final cell3 = (if sc_last_claim_time cell + claim_promote_window c \<le> now1
      then sc_tokens_pending cell else sc_tokens_final cell)"
    and "\<not> is_subscription s \<and> owed \<longrightarrow> sub_tokens_paid s2 = sc_tokens_final cell3"
    and "is_subscription s \<longrightarrow>
      (let w = max (sub_week_index s) (if charged then started_weeks s now2 else completed_weeks s now2) in
       sub_week_index s2 = w
       \<and> sub_tokens_paid s2 = (if owed then max (weeks_volume s w) (sc_tokens_final cell3) else weeks_volume s w))"
proof -
  have core: "deal_core c cell s" and ag: "machine_agrees cell" using ok by (simp_all add: deal_ok_def)
  let ?t = "if sc_last_claim_time cell + claim_promote_window c \<le> now1
      then sc_tokens_pending cell else sc_tokens_final cell"
  have le: "sc_tokens_final cell \<le> sc_tokens_pending cell"
    using core by (simp add: deal_core_def pipeline_times_def)
  define cell1 where "cell1 = cell\<lparr>sc_tokens_final := ?t\<rparr>"
  have pr: "promote_due cell now1 c = Inr cell1"
    using win promote_once_eq [OF le] by (auto simp: promote_due_iff cell1_def)
  obtain t' where core1: "deal_core c cell1 s" using promote_due_core [OF core pr] by blast
  have st1: "sc_probe_accepted cell1" "\<not> sc_closed cell1" using st by (simp_all add: cell1_def)
  obtain cell2 s1 x where wk: "(if is_subscription s then bindR (subscription_weeks_at s now2 charged) (\<lambda>w.
        charge_subscription_through cell1 s w c) else Inr (cell1, s, False)) = Inr (cell2, s1, x)"
    and core2: "deal_core c cell2 s1" and same2: "same_deal cell1 s cell2 s1"
    and upd2: "\<exists>i j k. cell2 = cell1\<lparr>sc_buyer_locked := i, sc_seller_received := j, sc_fee_accrued := k\<rparr>"
    and s1: "\<not> is_subscription s \<Longrightarrow> s1 = s"
    using stop_weeks_ok [OF c core1 st1 t] by metis
  from upd2 obtain i j k where c2: "cell2 = cell1\<lparr>sc_buyer_locked := i, sc_seller_received := j,
      sc_fee_accrued := k\<rparr>" by blast
  have st2: "sc_probe_accepted cell2" "\<not> sc_closed cell2" using st1 by (simp_all add: c2)
  obtain cell3 s2 where pay: "(if owed \<and> sub_tokens_paid s1 < sc_tokens_final cell2
      then credit_tokens_through cell2 s1 (sc_tokens_final cell2) c else Inr (cell2, s1)) = Inr (cell3, s2)"
    and books: "books_ok c cell3 s2" and same3: "same_deal cell2 s1 cell3 s2"
    and upd3: "\<exists>i j k. cell3 = cell2\<lparr>sc_buyer_locked := i, sc_seller_received := j, sc_fee_accrued := k\<rparr>"
    and paid: "sub_tokens_paid s2 = (if owed then max (sub_tokens_paid s1) (sc_tokens_final cell2)
      else sub_tokens_paid s1)"
    using last_payment_ok [OF c core2 st2, of owed] by blast
  from upd3 obtain i' j' k' where c3: "cell3 = cell2\<lparr>sc_buyer_locked := i', sc_seller_received := j',
      sc_fee_accrued := k'\<rparr>" by blast
  have price: "cell_price cell3 = cell_price cell" and fin3: "sc_tokens_final cell3 = ?t"
    and acc3: "sc_probe_accepted cell3" using st by (simp_all add: c3 c2 cell1_def)
  have same: "same_deal cell s cell3 s2"
    using same2 same3 by (simp add: same_deal_def cell1_def)
  have "?t \<le> sub_funded_tokens s" using core le by (auto simp: deal_core_def pipeline_times_def)
  then obtain d where d: "delivered_ticks cell3 = Inr d" "d * cell_price cell \<le> U128_MAX"
    using delivered_ok [OF core price _ acc3] fin3 by auto
  have "sub_tokens_paid s2 \<le> sub_funded_tokens s"
    using books same by (simp add: books_ok_def Let_def same_deal_def)
  then obtain paid_ticks where pt: "mock_finalized_ticks (sub_tokens_paid s2) = Inr paid_ticks"
    using deal_core_ticks_fit(2) [OF core] by (auto simp: mock_finalized_ticks_def try_from_def)
  have "cell_total cell3 = cell_total cell"
  proof -
    have "cell_total cell3 = cell_total cell2"
      using pay by (auto dest: credit_tokens_through_total split: if_splits)
    moreover have "cell_total cell2 = cell_total cell1"
      using wk by (auto simp: result_simps dest: charge_subscription_through_total split: if_splits)
    ultimately show ?thesis by (simp add: cell1_def cell_total_def)
  qed
  then have tot: "cell_total cell3 \<le> U128_MAX"
    using fits deal_core_total [OF core] by (simp add: money_fits_def deal_funds_def)
  have close: "\<exists>cell4 r. close_mock_clean (cell3\<lparr>sc_machine := m\<rparr>) d c = Inr (cell4, r)"
    if "sm_price m = cell_price cell" for m
    using close_mock_clean_ok [OF c, of d "cell3\<lparr>sc_machine := m\<rparr>"] d(2) tot that
    by (simp add: cell_total_def)
  have locks: "sc_probe_locked cell3 = 0" "sc_buyer_bond cell3 = bond_of s (cell_price cell)"
    "sc_seller_locked cell3 = 2 * cell_price cell" "sc_burned cell3 = 0" "sc_buyer_refunded cell3 = 0"
    using core st by (simp_all add: c3 c2 cell1_def deal_core_def money_ok_def Let_def)
  have ord: "sub_tokens_paid s2 = sc_tokens_final cell3" if "\<not> is_subscription s" owed
  proof -
    have "sub_tokens_paid s1 = TICK_SIZE"
      using core st s1 [OF that(1)] that(1) by (simp add: deal_core_def weeks_ok_def)
    moreover have "TICK_SIZE \<le> sc_tokens_final cell2"
      using core2 st2 by (simp add: deal_core_def pipeline_times_def)
    ultimately show ?thesis using paid that(2) by (simp add: c3)
  qed
  have "is_subscription s1 = is_subscription s" using same2 by (simp add: same_deal_def is_subscription_def)
  moreover have "sc_machine cell3 = sc_machine cell" by (simp add: c3 c2 cell1_def)
  moreover have "is_subscription s \<longrightarrow>
      (let w = max (sub_week_index s) (if charged then started_weeks s now2 else completed_weeks s now2) in
       sub_week_index s2 = w
       \<and> sub_tokens_paid s2 = (if owed then max (weeks_volume s w) (sc_tokens_final cell3) else weeks_volume s w))"
  proof
    assume sub: "is_subscription s"
    then obtain w where w: "subscription_weeks_at s now2 charged = Inr w"
      and ch: "charge_subscription_through cell1 s w c = Inr (cell2, s1, x)"
      using wk by (auto simp: result_simps)
    have "sub_week_index s2 = sub_week_index s1" using pay credit_keeps_week by (auto split: if_splits)
    then show "let w = max (sub_week_index s) (if charged then started_weeks s now2 else completed_weeks s now2) in
       sub_week_index s2 = w
       \<and> sub_tokens_paid s2 = (if owed then max (weeks_volume s w) (sc_tokens_final cell3) else weeks_volume s w)"
      using charged_volume [OF ch core1 st1 sub] subscription_weeks_exact [OF w] paid by (simp add: c3 Let_def)
  qed
  ultimately show thesis
    using that [OF pr wk _ pay d(1) pt _ _ books same locks fin3] close ord by blast
qed

text \<open>What the close of such a stop pays.\<close>

definition settled_exactly ::
  "ProtocolConsts \<Rightarrow> StreamCell \<Rightarrow> DealSubscription \<Rightarrow> StreamCell \<Rightarrow> DealSubscription \<Rightarrow> u128 \<Rightarrow> bool" where
  "settled_exactly c cell s cell' s' refund \<longleftrightarrow>
    (let p = cell_price cell; funded = sub_funded_tokens s; paid = sub_tokens_paid s' in
     sc_closed cell' \<and> paid \<le> funded
     \<and> refund = value_of c p funded - value_of c p paid + (if is_subscription s then 2 * p else 0)
     \<and> sc_buyer_refunded cell' = refund
     \<and> sc_seller_received cell' + sc_burned cell' = value_of c p paid + 2 * p
     \<and> pay_of p paid + 2 * p \<le> sc_seller_received cell')"

lemma close_settles_exactly:
  assumes books: "books_ok c cell3 s2" and same: "same_deal cell s cell3 s2"
    and locks: "sc_probe_locked cell3 = 0" "sc_buyer_bond cell3 = bond_of s (cell_price cell)"
      "sc_seller_locked cell3 = 2 * cell_price cell" "sc_burned cell3 = 0" "sc_buyer_refunded cell3 = 0"
    and cl: "close_mock_clean (cell3\<lparr>sc_machine := m\<rparr>) d c = Inr (cell4, refund)"
  shows "settled_exactly c cell s cell4 s2 refund"
proof -
  have price: "cell_price cell3 = cell_price cell" and fund: "sub_funded_tokens s2 = sub_funded_tokens s"
    using same by (simp_all add: same_deal_def)
  have b: "sub_tokens_paid s2 \<le> sub_funded_tokens s"
    "sc_seller_received cell3 = pay_of (cell_price cell) (sub_tokens_paid s2)"
    "sc_fee_accrued cell3 = fee_of c (cell_price cell) (sub_tokens_paid s2)"
    "sc_buyer_locked cell3 = value_of c (cell_price cell) (sub_funded_tokens s)
      - value_of c (cell_price cell) (sub_tokens_paid s2)"
    using books price fund by (simp_all add: books_ok_def Let_def)
  show ?thesis
    using close_mock_clean_exact [OF cl] b locks
    by (auto simp: settled_exactly_def Let_def value_of_def bond_of_def)
qed

lemma buyer_stop_streaming:
  assumes "machine_agrees cell" and "sc_probe_accepted cell" and "\<not> sc_closed cell" and "\<not> sc_disputed cell"
  shows "\<exists>r m. buyer_stop (sc_machine cell) = Some (r, m) \<and> sm_price m = cell_price cell"
    and "\<exists>r m. seller_stop_machine (sc_machine cell) = Some (r, m) \<and> sm_price m = cell_price cell"
  using machine_streaming [OF assms] by (simp_all add: buyer_stop_def seller_stop_machine_def Let_def)

lemma accepted_stop_exact:
  assumes c: "consts_ok c" and ok: "deal_ok c cell s" and st: "sc_probe_accepted cell" "\<not> sc_closed cell"
    and nd: "\<not> sc_disputed cell" and fits: "money_fits c cell s"
    and win: "sc_last_claim_time cell + claim_promote_window c \<le> U64_MAX" and t: "sub_period_start s \<le> now2"
  shows "\<exists>cell' s' refund n. stop_mock_deal cell s now1 now2 c = Inr (cell', s', AmicableSplit n refund)
    \<and> settled_exactly c cell s cell' s' refund
    \<and> sc_tokens_final cell' = (if sc_last_claim_time cell + claim_promote_window c \<le> now1
        then sc_tokens_pending cell else sc_tokens_final cell)
    \<and> (if is_subscription s
       then sub_week_index s' = max (sub_week_index s) (started_weeks s now2)
         \<and> sub_tokens_paid s' = max (weeks_volume s (sub_week_index s')) (sc_tokens_final cell')
       else sub_tokens_paid s' = sc_tokens_final cell')"
proof -
  have ag: "machine_agrees cell" using ok by (simp add: deal_ok_def)
  obtain cell1 cell2 s1 x cell3 s2 d paid where step:
    "promote_due cell now1 c = Inr cell1"
    "(if is_subscription s then bindR (subscription_weeks_at s now2 True) (\<lambda>w.
        charge_subscription_through cell1 s w c) else Inr (cell1, s, False)) = Inr (cell2, s1, x)"
    "is_subscription s1 = is_subscription s"
    "(if True \<and> sub_tokens_paid s1 < sc_tokens_final cell2
      then credit_tokens_through cell2 s1 (sc_tokens_final cell2) c else Inr (cell2, s1)) = Inr (cell3, s2)"
    "delivered_ticks cell3 = Inr d" "mock_finalized_ticks (sub_tokens_paid s2) = Inr paid"
    "sc_machine cell3 = sc_machine cell"
    and close: "\<forall>m. sm_price m = cell_price cell \<longrightarrow>
      (\<exists>cell4 r. close_mock_clean (cell3\<lparr>sc_machine := m\<rparr>) d c = Inr (cell4, r))"
    and books: "books_ok c cell3 s2" "same_deal cell s cell3 s2"
    and locks: "sc_probe_locked cell3 = 0" "sc_buyer_bond cell3 = bond_of s (cell_price cell)"
      "sc_seller_locked cell3 = 2 * cell_price cell" "sc_burned cell3 = 0" "sc_buyer_refunded cell3 = 0"
    and fin: "sc_tokens_final cell3 = (if sc_last_claim_time cell + claim_promote_window c \<le> now1
        then sc_tokens_pending cell else sc_tokens_final cell)"
    and paid: "\<not> is_subscription s \<and> True \<longrightarrow> sub_tokens_paid s2 = sc_tokens_final cell3"
      "is_subscription s \<longrightarrow>
        (let w = max (sub_week_index s) (if True then started_weeks s now2 else completed_weeks s now2) in
         sub_week_index s2 = w
         \<and> sub_tokens_paid s2 = (if True then max (weeks_volume s w) (sc_tokens_final cell3) else weeks_volume s w))"
    by (rule accepted_stop_steps [OF assms, where charged = True and owed = True and ?now1.0 = now1])
  obtain r m where m: "buyer_stop (sc_machine cell3) = Some (r, m)" "sm_price m = cell_price cell"
    using buyer_stop_streaming(1) [OF ag st nd] step(7) by auto
  obtain cell4 refund where cl: "close_mock_clean (cell3\<lparr>sc_machine := m\<rparr>) d c = Inr (cell4, refund)"
    using close m(2) by blast
  let ?cell' = "cell4\<lparr>sc_buyer_stop_settlement := Some (sc_seller_received cell4, refund)\<rparr>"
  have "stop_mock_deal cell s now1 now2 c = Inr (?cell', s2, AmicableSplit paid refund)"
    using st nd step(1,5,6) m(1) cl step(2,4)
    by (simp add: stop_mock_deal_def accepted_stop_def)
  moreover have "settled_exactly c cell s ?cell' s2 refund"
    using close_settles_exactly [OF books locks cl] by (simp add: settled_exactly_def Let_def)
  moreover have "sc_tokens_final ?cell' = sc_tokens_final cell3"
    using close_mock_clean_exact(6) [OF cl] by simp
  ultimately show ?thesis using fin paid by (auto simp: Let_def)
qed

lemma seller_stop_exact:
  assumes c: "consts_ok c" and ok: "deal_ok c cell s" and st: "sc_probe_accepted cell" "\<not> sc_closed cell"
    and nd: "\<not> sc_disputed cell" and fits: "money_fits c cell s"
    and win: "sc_last_claim_time cell + claim_promote_window c \<le> U64_MAX" and t: "sub_period_start s \<le> now2"
  shows "\<exists>cell' s' refund n. seller_stop_deal c now1 now2 cell s = Inr (cell', s', AmicableSplit n refund)
    \<and> settled_exactly c cell s cell' s' refund
    \<and> sc_tokens_final cell' = (if sc_last_claim_time cell + claim_promote_window c \<le> now1
        then sc_tokens_pending cell else sc_tokens_final cell)
    \<and> (if is_subscription s
       then sub_week_index s' = max (sub_week_index s) (completed_weeks s now2)
         \<and> sub_tokens_paid s' = weeks_volume s (sub_week_index s')
       else sub_tokens_paid s' = sc_tokens_final cell')"
proof -
  have ag: "machine_agrees cell" using ok by (simp add: deal_ok_def)
  obtain cell1 cell2 s1 x cell3 s2 d paid where step:
    "promote_due cell now1 c = Inr cell1"
    "(if is_subscription s then bindR (subscription_weeks_at s now2 False) (\<lambda>w.
        charge_subscription_through cell1 s w c) else Inr (cell1, s, False)) = Inr (cell2, s1, x)"
    "is_subscription s1 = is_subscription s"
    "(if \<not> is_subscription s \<and> sub_tokens_paid s1 < sc_tokens_final cell2
      then credit_tokens_through cell2 s1 (sc_tokens_final cell2) c else Inr (cell2, s1)) = Inr (cell3, s2)"
    "delivered_ticks cell3 = Inr d" "mock_finalized_ticks (sub_tokens_paid s2) = Inr paid"
    "sc_machine cell3 = sc_machine cell"
    and close: "\<forall>m. sm_price m = cell_price cell \<longrightarrow>
      (\<exists>cell4 r. close_mock_clean (cell3\<lparr>sc_machine := m\<rparr>) d c = Inr (cell4, r))"
    and books: "books_ok c cell3 s2" "same_deal cell s cell3 s2"
    and locks: "sc_probe_locked cell3 = 0" "sc_buyer_bond cell3 = bond_of s (cell_price cell)"
      "sc_seller_locked cell3 = 2 * cell_price cell" "sc_burned cell3 = 0" "sc_buyer_refunded cell3 = 0"
    and fin: "sc_tokens_final cell3 = (if sc_last_claim_time cell + claim_promote_window c \<le> now1
        then sc_tokens_pending cell else sc_tokens_final cell)"
    and paid: "\<not> is_subscription s \<and> \<not> is_subscription s \<longrightarrow> sub_tokens_paid s2 = sc_tokens_final cell3"
      "is_subscription s \<longrightarrow>
        (let w = max (sub_week_index s) (if False then started_weeks s now2 else completed_weeks s now2) in
         sub_week_index s2 = w
         \<and> sub_tokens_paid s2 = (if \<not> is_subscription s then max (weeks_volume s w) (sc_tokens_final cell3) else weeks_volume s w))"
    by (rule accepted_stop_steps [OF assms, where charged = False and owed = "\<not> is_subscription s" and ?now1.0 = now1])
  obtain r m where m: "seller_stop_machine (sc_machine cell3) = Some (r, m)" "sm_price m = cell_price cell"
    using buyer_stop_streaming(2) [OF ag st nd] step(7) by auto
  obtain cell4 refund where cl: "close_mock_clean (cell3\<lparr>sc_machine := m\<rparr>) d c = Inr (cell4, refund)"
    using close m(2) by blast
  have "seller_stop_deal c now1 now2 cell s = Inr (cell4, s2, AmicableSplit paid refund)"
    using st nd step(1,5,6) m(1) cl step(2,3,4)
    by (simp add: seller_stop_deal_def seller_stop_accepted_def)
  moreover have "settled_exactly c cell s cell4 s2 refund"
    by (rule close_settles_exactly [OF books locks cl])
  ultimately show ?thesis using fin paid close_mock_clean_exact(6) [OF cl] by (auto simp: Let_def)
qed

section \<open>Resolving a dispute always goes through\<close>

lemma pay_fee_ok:
  assumes "consts_ok c" and "p \<le> U64_MAX" and "value_of c p t \<le> U128_MAX"
  shows "token_pay_and_fee t p c = Inr (pay_of p t, fee_of c p t)"
  using assms token_pay_and_fee_eq [OF assms(1,2), of t] by (simp add: value_of_def)

lemma credit_token_delta_ok:
  assumes c: "consts_ok c" and p: "cell_price cell \<le> U64_MAX"
    and v: "value_of c (cell_price cell) t \<le> sc_buyer_locked cell" and tot: "cell_total cell \<le> U128_MAX"
  shows "\<exists>cell'. credit_token_delta cell t c = Inr cell'"
proof -
  have "value_of c (cell_price cell) t \<le> U128_MAX" using v tot by (simp add: cell_total_def)
  from pay_fee_ok [OF c p this] show ?thesis
    using v tot by (auto simp: credit_token_delta_iff move_payment_iff value_of_def cell_total_def)
qed

lemma take_stake_ok:
  assumes "cell_total cell \<le> U128_MAX" and "is_subscription s \<Longrightarrow> stake \<le> sc_buyer_bond cell"
  shows "\<exists>cell'. take_stake cell s stake b = Inr cell'"
  using assms by (auto simp: take_stake_def Let_def checked_add_def cell_total_def)

text \<open>What is owed for trusted tokens at a dispute is always in the escrow.\<close>

lemma trusted_owed_covered:
  assumes core: "deal_core c cell s" and st: "\<not> sc_closed cell" and t: "t \<le> sc_tokens_pending cell"
  shows "value_of c (cell_price cell) (t - claim_base s) \<le> sc_buyer_locked cell"
proof (cases "sc_probe_accepted cell")
  case False
  then have "t = 0" using core t by (simp add: deal_core_def pipeline_times_def)
  then show ?thesis by (simp add: value_of_def fee_of_def)
next
  case True
  let ?p = "cell_price cell" and ?paid = "sub_tokens_paid s"
  have b: "books_ok c cell s" using deal_core_books [OF core True st] .
  have pend: "sc_tokens_pending cell \<le> sub_funded_tokens s"
    using core by (simp add: deal_core_def pipeline_times_def)
  have sum: "t - claim_base s = 0 \<or> (t - claim_base s) + ?paid \<le> sub_funded_tokens s"
  proof (cases "is_subscription s \<and> 0 < sub_week_index s")
    case False
    then have "claim_base s = ?paid" by (auto simp: claim_base_def)
    then show ?thesis using t pend by linarith
  next
    case sub: True
    have wk: "?paid = sub_week_index s * sub_tokens_per_week s"
      "sc_tokens_pending cell \<le> sub_week_base_tokens s
        + (if sub_week_index s < sub_weeks s then sub_tokens_per_week s else 0)"
      using core True st sub by (auto simp: deal_core_def weeks_ok_def)
    have fund: "sub_funded_tokens s = sub_tokens_per_week s * sub_weeks s"
      using core sub by (auto simp: deal_core_def shape_ok_def is_subscription_def)
    show ?thesis
    proof (cases "sub_week_index s < sub_weeks s")
      case lt: True
      have "Suc (sub_week_index s) * sub_tokens_per_week s \<le> sub_weeks s * sub_tokens_per_week s"
        using lt by (intro mult_le_mono1) simp
      then show ?thesis using wk t lt sub fund by (auto simp: claim_base_def mult.commute)
    next
      case False
      then show ?thesis using wk t sub by (simp add: claim_base_def)
    qed
  qed
  show ?thesis
  proof (cases "t - claim_base s = 0")
    case False
    then have "(t - claim_base s) + ?paid \<le> sub_funded_tokens s" using sum by simp
    then have "value_of c ?p ((t - claim_base s) + ?paid) \<le> value_of c ?p (sub_funded_tokens s)"
      by (rule value_of_mono)
    with value_of_add [of c ?p "t - claim_base s" ?paid]
    have "value_of c ?p (t - claim_base s) + value_of c ?p ?paid \<le> value_of c ?p (sub_funded_tokens s)"
      by (rule le_trans)
    then show ?thesis using b by (simp add: books_ok_def Let_def)
  qed (simp add: value_of_def fee_of_def)
qed

lemma refundable_ok:
  assumes c: "consts_ok c" and shape: "shape_ok s" and p: "cell_price cell \<le> U64_MAX"
    and v: "value_of c (cell_price cell) (sub_funded_tokens s) \<le> U128_MAX"
    and t: "sub_period_start s \<le> sc_dispute_time cell"
  shows "\<exists>r. refundable_deposit cell s rest c = Inr r"
proof (cases "is_subscription s \<and> sc_probe_accepted cell")
  case True
  obtain w where w: "subscription_weeks_at s (sc_dispute_time cell) True = Inr w"
    using weeks_at_ok [OF shape t] by blast
  have fund: "sub_funded_tokens s = sub_weeks s * sub_tokens_per_week s" "sub_funded_tokens s \<le> U128_MAX"
    using shape True by (auto simp: shape_ok_def is_subscription_def mult.commute)
  let ?future = "(sub_weeks s - w) * sub_tokens_per_week s"
  have le: "?future \<le> sub_funded_tokens s" unfolding fund(1) by (rule mult_le_mono1) simp
  then have fv: "value_of c (cell_price cell) ?future \<le> U128_MAX"
    using value_of_mono v le_trans by blast
  have "?future \<le> U128_MAX" using le fund(2) by (rule le_trans)
  then show ?thesis
    using True w pay_fee_ok [OF c p fv] fv
    by (simp add: refundable_deposit_def checked_mul_def checked_add_def value_of_def)
qed (auto simp: refundable_deposit_def)

lemma finish_dispute_ok:
  assumes c: "consts_ok c" and tot: "cell_total cell \<le> U128_MAX"
    and d: "delivered_ticks cell = Inr d" "d * cell_price cell \<le> U128_MAX"
    and ref: "\<And>cell' rest. cell_price cell' = cell_price cell \<Longrightarrow>
      sc_probe_accepted cell' = sc_probe_accepted cell \<Longrightarrow> sc_dispute_time cell' = sc_dispute_time cell \<Longrightarrow>
      \<exists>r. refundable_deposit cell' s rest c = Inr r"
    and m: "sm_state (sc_machine cell) = Disputed x y"
  shows "\<exists>cell' refund bond. finish_dispute cell s c b = Inr (cell', refund, bond)
    \<and> bond = sc_seller_locked cell"
proof -
  obtain c1 where c1: "settle_mock_fees cell d c False = Inr c1"
    using settle_mock_fees_ok [OF c d(2) tot] by blast
  have upd: "sc_machine c1 = sc_machine cell" "sc_probe_accepted c1 = sc_probe_accepted cell"
    "sc_dispute_time c1 = sc_dispute_time cell" "sc_seller_locked c1 = sc_seller_locked cell"
    using c1 by (auto simp: settle_mock_fees_iff)
  let ?rest = "sc_buyer_locked c1 + sc_probe_locked c1"
  obtain r where r: "refundable_deposit c1 s ?rest c = Inr r" using ref [of c1] upd by auto
  have rle: "r \<le> ?rest" using refundable_deposit_le [OF r] .
  have t1: "cell_total c1 \<le> U128_MAX" using settle_mock_fees_total [OF c1] tot by simp
  have "\<exists>m'. resolved_machine (sc_machine c1) b = Some m'"
    using m upd(1) by (simp add: resolved_machine_def release_dispute_machine_def Let_def)
  then show ?thesis
    using d(1) c1 r rle t1 upd(4)
    by (auto simp: finish_dispute_def checked_add_def cell_total_def)
qed

lemma void_claims_ok:
  assumes "sc_last_claim_time cell + claim_promote_window c \<le> U64_MAX"
  shows "\<exists>cell'. void_claims_at cell at c = Inr cell'"
  using assms
  by (auto simp: void_claims_at_def has_due_claim_def claim_deadline_reached_def checked_add_def Let_def)

lemma dispute_stake_bounds:
  "dispute_stake cell s v \<le> 2 * cell_price cell" and "dispute_stake cell s v \<le> sc_seller_locked cell"
  by (auto simp: dispute_stake_def Let_def min_le_iff_disj)

lemma take_stake_seller:
  assumes "take_stake cell s stake b = Inr cell'"
  shows "sc_seller_locked cell - (if b then stake else 0) \<le> sc_seller_locked cell'"
    and "sc_seller_locked cell' \<le> sc_seller_locked cell"
    and "\<not> b \<Longrightarrow> sc_seller_locked cell' = sc_seller_locked cell"
  using assms by (auto simp: take_stake_def Let_def result_simps split: if_splits)

text \<open>The weeks completed before the dispute are charged first, as far as the deal has any.\<close>

lemma dispute_weeks_ok:
  assumes c: "consts_ok c" and core: "deal_core c cell s" and op: "\<not> sc_closed cell"
    and t: "sub_period_start s \<le> sc_dispute_time cell"
  obtains cell1 s1 y where
    "(if is_subscription s \<and> sc_probe_accepted cell
      then bindR (subscription_weeks_at s (sc_dispute_time cell) False) (\<lambda>w.
           charge_subscription_through cell s w c)
      else Inr (cell, s, False)) = Inr (cell1, s1, y)"
    and "deal_core c cell1 s1" and "same_deal cell s cell1 s1"
    and "\<exists>i j k. cell1 = cell\<lparr>sc_buyer_locked := i, sc_seller_received := j, sc_fee_accrued := k\<rparr>"
proof (cases "sc_probe_accepted cell")
  case True
  show thesis
    by (rule stop_weeks_ok [OF c core True op t, where b = False]) (rule that, simp_all add: True)
next
  case False
  have "\<exists>i j k. cell = cell\<lparr>sc_buyer_locked := i, sc_seller_received := j, sc_fee_accrued := k\<rparr>"
    by (rule exI [of _ "sc_buyer_locked cell"], rule exI [of _ "sc_seller_received cell"],
        rule exI [of _ "sc_fee_accrued cell"]) simp
  then show thesis using False core by (intro that [of cell s False]) simp_all
qed

text \<open>From the charged deal to the stake: what is claimed is valued, what is trusted is paid.\<close>

lemma dispute_payments_ok:
  assumes c: "consts_ok c" and core: "deal_core c cell s" and op: "\<not> sc_closed cell"
    and tot: "cell_total cell \<le> U128_MAX"
    and win: "sc_last_claim_time cell + claim_promote_window c \<le> U64_MAX"
  defines "p \<equiv> cell_price cell" and "x \<equiv> sc_tokens_pending cell - claim_base s"
  obtains t cell2 cell3 cell4 where
    "token_pay_and_fee x p c = Inr (pay_of p x, fee_of c p x)" and "value_of c p x \<le> U128_MAX"
    and "void_claims_at cell (sc_dispute_time cell) c = Inr cell2"
    and "cell2 = cell\<lparr>sc_tokens_final := t, sc_tokens_pending := t\<rparr>" and "t \<le> sc_tokens_pending cell"
    and "credit_token_delta cell2 (t - claim_base s) c = Inr cell3"
    and "take_stake cell3 s (dispute_stake cell s (value_of c p x)) b = Inr cell4"
    and "sc_seller_locked cell3 = sc_seller_locked cell" and "cell_total cell4 \<le> U128_MAX"
    and "cell_frame cell4 = cell_frame cell2" and "sc_machine cell4 = sc_machine cell"
proof -
  have price: "p \<le> U64_MAX" and val: "value_of c p (sub_funded_tokens s) \<le> U128_MAX"
    and pend: "sc_tokens_pending cell \<le> sub_funded_tokens s"
    and fin: "sc_tokens_final cell \<le> sc_tokens_pending cell"
    using core by (auto simp: deal_core_def static_ok_def pipeline_times_def p_def)
  have "value_of c p x \<le> value_of c p (sub_funded_tokens s)"
    using pend by (intro value_of_mono) (simp add: x_def)
  then have vx: "value_of c p x \<le> U128_MAX" using val by (rule le_trans)
  obtain cell2 where c2: "void_claims_at cell (sc_dispute_time cell) c = Inr cell2"
    using void_claims_ok [OF win] by blast
  obtain t where c2': "cell2 = cell\<lparr>sc_tokens_final := t, sc_tokens_pending := t\<rparr>"
    and t: "t \<le> sc_tokens_pending cell" using void_claims_shape [OF c2 fin] by blast
  obtain cell3 where c3: "credit_token_delta cell2 (t - claim_base s) c = Inr cell3"
    using credit_token_delta_ok [OF c, of cell2] price trusted_owed_covered [OF core op t] tot
      void_claims_at_total [OF c2] by (auto simp: c2' p_def)
  have bond: "sc_buyer_bond cell3 = sc_buyer_bond cell"
    using credit_token_delta_bond [OF c3] by (simp add: c2')
  have tot3: "cell_total cell3 \<le> U128_MAX"
    using credit_token_delta_total [OF c3] void_claims_at_total [OF c2] tot by simp
  obtain cell4 where c4: "take_stake cell3 s (dispute_stake cell s (value_of c p x)) b = Inr cell4"
    using take_stake_ok [OF tot3] dispute_stake_le [of s cell] bond by metis
  note shapes = credit_token_delta_shape [OF c3] take_stake_shape [OF c4]
  show thesis
  proof (rule that [OF pay_fee_ok [OF c price vx] vx c2 c2' t c3 c4])
    show "sc_seller_locked cell3 = sc_seller_locked cell" using c3 by (auto simp: money_iffs c2')
    show "cell_total cell4 \<le> U128_MAX"
      using take_stake_total [OF c4] tot3 dispute_stake_le [of s cell] bond by simp
  qed (use shapes in \<open>simp_all add: c2'\<close>)
qed

text \<open>The delivered ticks of a voided pipeline.\<close>

lemma voided_delivered_ok:
  assumes core: "deal_core c cell s" and t: "t \<le> sc_tokens_pending cell"
    and cell': "sc_tokens_final cell' = t" "sc_probe_accepted cell' = sc_probe_accepted cell"
      "cell_price cell' = cell_price cell"
  obtains d where "delivered_ticks cell' = Inr d" and "d * cell_price cell' \<le> U128_MAX"
proof (cases "sc_probe_accepted cell")
  case True
  moreover have "t \<le> sub_funded_tokens s"
    using core t by (auto simp: deal_core_def pipeline_times_def)
  ultimately show thesis using delivered_ok [OF core, of cell'] cell' that by auto
next
  case False
  then have "t = 0" using core t by (simp add: deal_core_def pipeline_times_def)
  then show thesis
    using cell' False that [of 0] by (simp add: delivered_ticks_def mock_finalized_ticks_def try_from_def)
qed

lemma resolve_ok:
  assumes c: "consts_ok c" and ok: "deal_ok c cell s" and dis: "sc_disputed cell"
    and fits: "money_fits c cell s"
    and win: "sc_last_claim_time cell + claim_promote_window c \<le> U64_MAX"
  shows "\<exists>cell' s' refund bond. resolve_deal c b cell s = Inr (cell', s', SellerNoShow refund bond)
    \<and> bond \<le> 2 * cell_price cell \<and> (\<not> b \<longrightarrow> bond = 2 * cell_price cell)"
proof -
  have core: "deal_core c cell s" and ag: "machine_agrees cell" using ok by (simp_all add: deal_ok_def)
  have op: "\<not> sc_closed cell" and m: "\<exists>x y. sm_state (sc_machine cell) = Disputed x y"
    using ag dis by (auto simp: machine_agrees_def split: StreamState.splits)
  have time: "sub_period_start s \<le> sc_dispute_time cell"
    using core dis by (auto simp: deal_core_def pipeline_times_def)
  obtain cell1 s1 y where wk: "(if is_subscription s \<and> sc_probe_accepted cell
      then bindR (subscription_weeks_at s (sc_dispute_time cell) False) (\<lambda>w.
           charge_subscription_through cell s w c)
      else Inr (cell, s, False)) = Inr (cell1, s1, y)"
    and core1: "deal_core c cell1 s1" and same1: "same_deal cell s cell1 s1"
    and upd1: "\<exists>i j k. cell1 = cell\<lparr>sc_buyer_locked := i, sc_seller_received := j, sc_fee_accrued := k\<rparr>"
    by (rule dispute_weeks_ok [OF c core op time])
  then obtain i j k where c1: "cell1 = cell\<lparr>sc_buyer_locked := i, sc_seller_received := j,
      sc_fee_accrued := k\<rparr>" by blast
  have op1: "\<not> sc_closed cell1" and win1: "sc_last_claim_time cell1 + claim_promote_window c \<le> U64_MAX"
    using op win by (simp_all add: c1)
  have tot1: "cell_total cell1 \<le> U128_MAX"
    using deal_core_total [OF core1] fits same_deal_funds [OF same1]
    by (simp add: money_fits_def deal_funds_def)
  let ?x = "sc_tokens_pending cell1 - claim_base s1" and ?p = "cell_price cell1"
  obtain t cell2 cell3 cell4 where pay: "token_pay_and_fee ?x ?p c = Inr (pay_of ?p ?x, fee_of c ?p ?x)"
    "value_of c ?p ?x \<le> U128_MAX" "void_claims_at cell1 (sc_dispute_time cell1) c = Inr cell2"
    and c2: "cell2 = cell1\<lparr>sc_tokens_final := t, sc_tokens_pending := t\<rparr>" and t: "t \<le> sc_tokens_pending cell1"
    and c3: "credit_token_delta cell2 (t - claim_base s1) c = Inr cell3"
    and c4: "take_stake cell3 s1 (dispute_stake cell1 s1 (value_of c ?p ?x)) b = Inr cell4"
    and sl: "sc_seller_locked cell3 = sc_seller_locked cell1" and tot4: "cell_total cell4 \<le> U128_MAX"
    and fr: "cell_frame cell4 = cell_frame cell2" "sc_machine cell4 = sc_machine cell1"
    by (rule dispute_payments_ok [OF c core1 op1 tot1 win1])
  obtain d where d: "delivered_ticks cell4 = Inr d" "d * cell_price cell4 \<le> U128_MAX"
    by (rule voided_delivered_ok [OF core1 t, of cell4]) (use fr in \<open>simp_all add: frame_defs c2\<close>)
  have m4: "\<exists>x y. sm_state (sc_machine cell4) = Disputed x y" using m fr(2) by (simp add: c1)
  define s2 where "s2 = s1\<lparr>sub_tokens_paid := max (sub_tokens_paid s1) t\<rparr>"
  have shape: "shape_ok s2"
    using core1 t by (auto simp: s2_def deal_core_def shape_ok_def pipeline_times_def)
  have "\<exists>r. refundable_deposit cell' s2 rest c = Inr r"
    if "cell_price cell' = cell_price cell4" "sc_dispute_time cell' = sc_dispute_time cell4" for cell' rest
    by (rule refundable_ok [OF c shape])
      (use that core1 dis fr in \<open>auto simp: s2_def frame_defs c2 c1 deal_core_def static_ok_def
        pipeline_times_def\<close>)
  then obtain cell5 refund where c5: "finish_dispute cell4 s2 c b = Inr (cell5, refund, sc_seller_locked cell4)"
    using finish_dispute_ok [OF c tot4 d, of s2] m4 by metis
  have run: "resolve_mock_dispute cell s c b = Inr (cell5, s2, refund, sc_seller_locked cell4)"
    using dis wk pay c3 c4 c5
    by (simp add: resolve_mock_dispute_def pending_tokens_def c2 s2_def checked_add_def value_of_def Let_def)
  have "sc_seller_locked cell3 = 2 * cell_price cell"
    using core1 op1 sl by (simp add: deal_core_def money_ok_def Let_def) (simp add: c1)
  then show ?thesis using run take_stake_seller [OF c4] by (simp add: resolve_deal_def)
qed

section \<open>Properties\<close>

lemma reach_period_start:
  assumes "consts_ok c" and "mock_reach sha params c now st" and "hget (ms_streams st) tc = Some cell"
    and "hget (ms_deal_subscriptions st) tc = Some s" and "now \<le> t"
  shows "sub_period_start s \<le> t"
  using reach_deal [OF assms(1-4)] assms(5)
  by (auto simp: deal_ok_def deal_core_def pipeline_times_def deal_by_def)

text \<open>
  C13: A buyer can always leave: on every reachable open accepted deal that is not disputed, whose money
  fits \<open>u128\<close>, a stop succeeds and settles exactly. The claim is promoted if its window has
  passed at the stop, otherwise it is dropped. An ordinary deal pays exactly these trusted tokens; a
  subscription pays the quota of every week that has started by the stop, the running one in full, or the trusted
  tokens where they are more. The buyer gets back the value of everything unpaid and the
  bond, the seller keeps the pay and the bond, and only the fee is split between rebate and burn.
\<close>

theorem buyer_stop_settles:
  assumes "consts_ok c" and "mock_reach sha params c now st"
    and "hget (ms_streams st) tc = Some cell" and "hget (ms_deal_subscriptions st) tc = Some s"
    and "sc_probe_accepted cell" and "\<not> sc_closed cell" and "\<not> sc_disputed cell"
    and "deal_funds c cell s \<le> U128_MAX"
    and "sc_last_claim_time cell + claim_promote_window c \<le> U64_MAX" and "now \<le> now2"
  shows "\<exists>cell' s' refund n. stop_mock_deal cell s now1 now2 c = Inr (cell', s', AmicableSplit n refund)
    \<and> settled_exactly c cell s cell' s' refund
    \<and> sc_tokens_final cell' = (if sc_last_claim_time cell + claim_promote_window c \<le> now1
        then sc_tokens_pending cell else sc_tokens_final cell)
    \<and> (if is_subscription s
       then sub_week_index s' = max (sub_week_index s) (started_weeks s now2)
         \<and> sub_tokens_paid s' = max (weeks_volume s (sub_week_index s')) (sc_tokens_final cell')
       else sub_tokens_paid s' = sc_tokens_final cell')"
  using accepted_stop_exact [OF assms(1) reach_deal(1) [OF assms(1-4)] assms(5-7) _ assms(9)]
    reach_period_start [OF assms(1-4,10)] assms(8) by (simp add: money_fits_def)

lemma sample_money:
  "deal_funds canonical sample_claimed (sample_shape 1000000 300) \<le> U128_MAX"
  "deal_funds canonical sample_disputed (sample_shape 1000000 300) \<le> U128_MAX"
  by (simp_all add: deal_funds_def bond_of_def value_of_def pay_of_def fee_of_def is_subscription_def
      sample_disputed_def sample_defs canonical_def param_defs MAX_defs)

lemma weekly_money: "deal_funds canonical weekly_accepted (weekly_shape 1000000 300) \<le> U128_MAX"
  by (simp add: deal_funds_def bond_of_def value_of_def pay_of_def fee_of_def is_subscription_def weekly_defs)

text \<open>The weekly deal five seconds into its second week.\<close>

lemma weekly_weeks:
  "started_weeks (weekly_shape 1000000 300) 605105 = 2" "completed_weeks (weekly_shape 1000000 300) 605105 = 1"
  "weeks_volume (weekly_shape 1000000 300) 2 = 2000000" "weeks_volume (weekly_shape 1000000 300) 1 = 1000000"
  "sub_week_index (weekly_shape 1000000 300) = 0" "sub_funded_tokens (weekly_shape 1000000 300) = 4000000"
  "sc_tokens_pending weekly_accepted = 1000000" "sc_tokens_final weekly_accepted = 1000000"
  "cell_price weekly_accepted = 1000000000"
  by (simp_all add: started_weeks_def completed_weeks_def weeks_volume_def SUB_WEEK_LEN_def weekly_defs)

lemma sample_flags:
  "sc_probe_accepted sample_claimed" "\<not> sc_closed sample_claimed" "\<not> sc_disputed sample_claimed"
  "sc_last_claim_time sample_claimed + claim_promote_window canonical \<le> U64_MAX"
  "sc_disputed sample_disputed"
  "sc_last_claim_time sample_disputed + claim_promote_window canonical \<le> U64_MAX"
  by (simp_all add: sample_disputed_def sample_defs canonical_def MAX_defs)

text \<open>
  The sample deal is stopped inside the promotion window, so its second claim is dropped. The weekly deal pays
  its first week and the one that has just begun.
\<close>

theorem buyer_stop_settles_witness:
  "(\<exists>cell' s' refund n. stop_mock_deal sample_claimed (sample_shape 1000000 300) 410 410 canonical = Inr (cell', s', AmicableSplit n refund)
      \<and> sub_tokens_paid s' = 1000000 \<and> refund = 2050000000)
    \<and> (\<exists>cell' s' refund n. stop_mock_deal weekly_accepted (weekly_shape 1000000 300) 605105 605105 canonical = Inr (cell', s', AmicableSplit n refund)
      \<and> sub_tokens_paid s' = 2000000 \<and> refund = 4050000000)"
proof
  have sub: "\<not> is_subscription (sample_shape 1000000 300)"
    "sc_tokens_final sample_claimed = 1000000" "sc_last_claim_time sample_claimed = 400"
    "cell_price sample_claimed = 1000000000" "sub_funded_tokens (sample_shape 1000000 300) = 3000000"
    by (simp_all add: is_subscription_def sample_defs)
  from buyer_stop_settles [OF sample_consts sample_reach sample_streams(1,2) sample_flags(1-3)
      sample_money(1) sample_flags(4), of 410 410]
  show "\<exists>cell' s' refund n. stop_mock_deal sample_claimed (sample_shape 1000000 300) 410 410 canonical = Inr (cell', s', AmicableSplit n refund)
      \<and> sub_tokens_paid s' = 1000000 \<and> refund = 2050000000"
    using sub by (auto simp: settled_exactly_def Let_def value_of_def pay_of_def fee_of_def canonical_def param_defs)
next
  from buyer_stop_settles [OF sample_consts weekly_reach weekly_deal(1,2,4-6) weekly_money weekly_deal(7), of 605105 605105]
  show "\<exists>cell' s' refund n. stop_mock_deal weekly_accepted (weekly_shape 1000000 300) 605105 605105 canonical = Inr (cell', s', AmicableSplit n refund)
      \<and> sub_tokens_paid s' = 2000000 \<and> refund = 4050000000"
    using weekly_deal(3) weekly_weeks
    by (auto simp: settled_exactly_def Let_def value_of_def pay_of_def fee_of_def canonical_def param_defs)
qed

text \<open>
  C15: The seller can always leave too, and is then paid exactly the trusted tokens of an ordinary deal, or the
  quota of exactly the weeks of a subscription that were booked or have ended, the trial tick if there is none
  yet; nothing for the contested tail or the unfinished week.
\<close>

theorem seller_stop_settles:
  assumes "consts_ok c" and "mock_reach sha params c now st"
    and "hget (ms_streams st) tc = Some cell" and "hget (ms_deal_subscriptions st) tc = Some s"
    and "sc_probe_accepted cell" and "\<not> sc_closed cell" and "\<not> sc_disputed cell"
    and "deal_funds c cell s \<le> U128_MAX"
    and "sc_last_claim_time cell + claim_promote_window c \<le> U64_MAX" and "now \<le> now2"
  shows "\<exists>cell' s' refund n. seller_stop_deal c now1 now2 cell s = Inr (cell', s', AmicableSplit n refund)
    \<and> settled_exactly c cell s cell' s' refund
    \<and> sc_tokens_final cell' = (if sc_last_claim_time cell + claim_promote_window c \<le> now1
        then sc_tokens_pending cell else sc_tokens_final cell)
    \<and> (if is_subscription s
       then sub_week_index s' = max (sub_week_index s) (completed_weeks s now2)
         \<and> sub_tokens_paid s' = weeks_volume s (sub_week_index s')
       else sub_tokens_paid s' = sc_tokens_final cell')"
  using seller_stop_exact [OF assms(1) reach_deal(1) [OF assms(1-4)] assms(5-7) _ assms(9)]
    reach_period_start [OF assms(1-4,10)] assms(8) by (simp add: money_fits_def)

theorem seller_stop_settles_witness:
  "(\<exists>cell' s' refund n. seller_stop_deal canonical 500 500 sample_claimed (sample_shape 1000000 300) = Inr (cell', s', AmicableSplit n refund)
      \<and> sub_tokens_paid s' = 2000000 \<and> refund = 1025000000)
    \<and> (\<exists>cell' s' refund n. seller_stop_deal canonical 605105 605105 weekly_accepted (weekly_shape 1000000 300) = Inr (cell', s', AmicableSplit n refund)
      \<and> sub_tokens_paid s' = 1000000 \<and> refund = 5075000000)"
proof
  have sub: "\<not> is_subscription (sample_shape 1000000 300)"
    "sc_tokens_pending sample_claimed = 2000000" "sc_last_claim_time sample_claimed = 400"
    "cell_price sample_claimed = 1000000000" "sub_funded_tokens (sample_shape 1000000 300) = 3000000"
    by (simp_all add: is_subscription_def sample_defs)
  from seller_stop_settles [OF sample_consts sample_reach sample_streams(1,2) sample_flags(1-3)
      sample_money(1) sample_flags(4), of 500 500]
  show "\<exists>cell' s' refund n. seller_stop_deal canonical 500 500 sample_claimed (sample_shape 1000000 300) = Inr (cell', s', AmicableSplit n refund)
      \<and> sub_tokens_paid s' = 2000000 \<and> refund = 1025000000"
    using sub by (auto simp: settled_exactly_def Let_def value_of_def pay_of_def fee_of_def canonical_def param_defs)
next
  from seller_stop_settles [OF sample_consts weekly_reach weekly_deal(1,2,4-6) weekly_money weekly_deal(7), of 605105 605105]
  show "\<exists>cell' s' refund n. seller_stop_deal canonical 605105 605105 weekly_accepted (weekly_shape 1000000 300) = Inr (cell', s', AmicableSplit n refund)
      \<and> sub_tokens_paid s' = 1000000 \<and> refund = 5075000000"
    using weekly_deal(3) weekly_weeks
    by (auto simp: settled_exactly_def Let_def value_of_def pay_of_def fee_of_def canonical_def param_defs)
qed

text \<open>
  C17: No dispute is a dead end: every reachable disputed deal whose money fits \<open>u128\<close> can be resolved,
  by release or by timeout. A release returns the seller's whole bond; a timeout burns at most the
  bond.
\<close>

theorem dispute_always_resolves:
  assumes "consts_ok c" and "mock_reach sha params c now st"
    and "hget (ms_streams st) tc = Some cell" and "hget (ms_deal_subscriptions st) tc = Some s"
    and "sc_disputed cell" and "deal_funds c cell s \<le> U128_MAX"
    and "sc_last_claim_time cell + claim_promote_window c \<le> U64_MAX"
  shows "\<exists>cell' s' refund bond. resolve_deal c timed_out cell s = Inr (cell', s', SellerNoShow refund bond)
    \<and> sc_closed cell' \<and> drained cell' \<and> bond \<le> 2 * sm_price (sc_machine cell)
    \<and> (\<not> timed_out \<longrightarrow> bond = 2 * sm_price (sc_machine cell))"
proof -
  note deal = reach_deal [OF assms(1-4)]
  obtain cell' s' refund bond where run: "resolve_deal c timed_out cell s = Inr (cell', s', SellerNoShow refund bond)"
    and bond: "bond \<le> 2 * cell_price cell \<and> (\<not> timed_out \<longrightarrow> bond = 2 * cell_price cell)"
    using resolve_ok [OF assms(1) deal(1) assms(5) assms(6) [folded money_fits_def] assms(7), of timed_out]
    by blast
  have "sc_closed cell'" using run resolve_mock_dispute_total(3) by (auto simp: resolve_deal_def result_simps)
  with resolve_op.op_closes_drained(1) [OF assms(1) deal run] run bond show ?thesis by blast
qed

theorem dispute_always_resolves_witness:
  "\<exists>cell' s' refund. resolve_deal canonical False sample_disputed (sample_shape 1000000 300)
    = Inr (cell', s', SellerNoShow refund 2000000000)"
proof -
  have "sm_price (sc_machine sample_disputed) = 1000000000" by (simp add: sample_disputed_def)
  with dispute_always_resolves [OF sample_consts sample_contested_reach sample_streams(5,6) sample_flags(5)
      sample_money(2) sample_flags(6), of False]
  show ?thesis by auto
qed

end
