(* ===== verification/MockReads.thy ===== *)
theory MockReads
  imports MockProperties
begin

text \<open>
  What clients of the mock chain see: the snapshot of a deal, the seller's fills, the resting
  subscription orders and the handover written when a stream is opened.
\<close>

section \<open>Snapshots of a deal\<close>

lemma cross_getter_ok:
  assumes "2 * TICK_SIZE \<le> sub_funded_tokens (snap_subscription d)" and "dcs_funded (snap_state d)"
    and "sb_bond_funded (snap_seller_bond d)" and "0 < sb_bond_required (snap_seller_bond d)"
    and "bb_bond_required (snap_buyer_bond d)
      = (if is_subscription (snap_subscription d) then sb_bond_required (snap_seller_bond d) else 0)"
    and "(sb_bond_held (snap_seller_bond d) = sb_bond_required (snap_seller_bond d)
        \<and> bb_bond_held (snap_buyer_bond d) = bb_bond_required (snap_buyer_bond d))
      \<or> (sb_bond_held (snap_seller_bond d) = 0 \<and> bb_bond_held (snap_buyer_bond d) = 0
        \<and> is_stopped (snap_state d))"
  shows "validate_cross_getter_invariants d = Inr ()"
  using assms
  by (auto simp: validate_cross_getter_invariants_def Let_def refuse_if_def mult.commute is_stopped_def)

text \<open>The state a match reads as before and after it is opened.\<close>

lemma unopened_state:
  assumes c: "consts_ok c" and m: "hget (ms_matches st) tc = Some m"
    and none: "hget (ms_streams st) tc = None" and s: "hget (ms_deal_subscriptions st) tc = Some s"
    and time: "hget (ms_match_created_at st) tc = Some at" "0 < at"
    and price: "mt_price_per_tick m \<le> U64_MAX"
    and v: "value_of c (mt_price_per_tick m) (sub_funded_tokens s) \<le> U128_MAX"
  shows "\<exists>d. mock_deal_state st tc c = Inr (Some d) \<and> dcs_funded d \<and> \<not> dcs_opened d
    \<and> dcs_deposit d = value_of c (mt_price_per_tick m) (sub_funded_tokens s)"
proof -
  have "token_pay_and_fee (sub_funded_tokens s) (mt_price_per_tick m) c
    = Inr (pay_of (mt_price_per_tick m) (sub_funded_tokens s), fee_of c (mt_price_per_tick m) (sub_funded_tokens s))"
    using v by (simp add: token_pay_and_fee_eq [OF c price] value_of_def)
  then show ?thesis
    using m none s time v
    by (simp add: mock_deal_state_def contains_key_def mock_funded_time_def refuse_if_def checked_add_def
        value_of_def)
qed

definition cell_state :: "StreamCell \<Rightarrow> u64 \<Rightarrow> DealChainState" where
  "cell_state cell t =
    \<lparr>dcs_funded = True, dcs_opened = (\<not> sc_closed cell), dcs_probe_accepted = sc_probe_accepted cell,
     dcs_disputed = sc_disputed cell, dcs_deposit = (if sc_closed cell then 0 else sc_buyer_locked cell),
     dcs_finalized_owed = sc_seller_received cell, dcs_tokens_final = sc_tokens_final cell,
     dcs_tokens_pending = sc_tokens_pending cell, dcs_probe_tick = sc_probe_locked cell,
     dcs_funded_time = Some t, dcs_probe_time = sc_probe_time cell,
     dcs_last_claim_time = sc_last_claim_time cell, dcs_dispute_time = sc_dispute_time cell\<rparr>"

lemma opened_state:
  assumes "hget (ms_matches st) tc = Some m" and "hget (ms_streams st) tc = Some cell"
    and "hget (ms_match_created_at st) tc = Some at" and "0 < at"
  shows "mock_deal_state st tc c = Inr (Some (cell_state cell (nat at)))"
  using assms by (simp add: mock_deal_state_def contains_key_def mock_funded_time_def refuse_if_def cell_state_def)

definition snap_of ::
  "MockState \<Rightarrow> token_contract \<Rightarrow> DealChainState \<Rightarrow> DealSubscription \<Rightarrow> u128 \<Rightarrow> DealChainSnapshot" where
  "snap_of st tc d s req =
    \<lparr>snap_account_code_hash = ''mock-token-contract'', snap_account_boc_hash = ''mock:'' @ tc,
     snap_state = d, snap_subscription = s,
     snap_seller_bond = \<lparr>sb_bond_funded = True, sb_bond_held = (case hget (ms_streams st) tc of
       Some cell \<Rightarrow> sc_seller_locked cell | None \<Rightarrow> req), sb_bond_required = req\<rparr>,
     snap_buyer_bond = \<lparr>bb_bond_held = (case hget (ms_streams st) tc of Some cell \<Rightarrow> sc_buyer_bond cell
         | None \<Rightarrow> (if is_subscription s then req else 0)),
       bb_bond_required = (if is_subscription s then req else 0)\<rparr>\<rparr>"

lemma deal_snapshot_eq:
  assumes "mock_deal_state st tc c = Inr (Some d)" and "hget (ms_deal_subscriptions st) tc = Some s"
    and "hget (ms_matched_offers st) tc = Some o1" and "so_price_per_tick o1 \<le> U64_MAX"
    and "validate_cross_getter_invariants (snap_of st tc d s (so_price_per_tick o1 * 2)) = Inr ()"
  shows "deal_snapshot c st tc = Inr (Some (snap_of st tc d s (so_price_per_tick o1 * 2)))"
proof -
  have "so_price_per_tick o1 * 2 \<le> U128_MAX" using assms(4) by (simp add: MAX_defs)
  then show ?thesis
    using assms(1-3,5)
    by (cases "hget (ms_streams st) tc"; cases "is_subscription s")
      (simp_all add: deal_snapshot_def mock_deal_subscription_def checked_mul_def Let_def snap_of_def)
qed

text \<open>The snapshot of an opened deal shows its cell and its shape.\<close>

lemma stream_snapshot:
  assumes c: "consts_ok c" and ok: "mock_ok c now st" and cell: "hget (ms_streams st) tc = Some cell"
  obtains snap s t where "deal_snapshot c st tc = Inr (Some snap)" and "validate_cross_getter_invariants snap = Inr ()"
    and "hget (ms_deal_subscriptions st) tc = Some s" and "snap_subscription snap = s"
    and "hget (ms_match_created_at st) tc = Some t" and "snap_state snap = cell_state cell (nat t)"
proof -
  have at: "deal_at c now st tc" using ok by (simp add: mock_ok_def)
  then have "contains_key (ms_matches st) tc" using deal_at_keys cell by (simp add: contains_key_def)
  then obtain m where m: "hget (ms_matches st) tc = Some m" by (auto simp: contains_key_def)
  obtain s o1 n who t where d: "hget (ms_deal_subscriptions st) tc = Some s"
    "hget (ms_matched_offers st) tc = Some o1" "hget (ms_match_created_at st) tc = Some t" "0 < t"
    "offer_ok c tc o1" "mt_price_per_tick m = so_price_per_tick o1" "stream_ok c now m n s (hget (ms_streams st) tc)"
    by (rule mock_ok_deal [OF ok m])
  have p: "0 < so_price_per_tick o1" "so_price_per_tick o1 \<le> U64_MAX"
    using offer_ok_value(1) [OF c d(5)] d(5) by (simp_all add: offer_ok_def)
  have deal: "deal_core c cell s" "cell_price cell = so_price_per_tick o1"
    "sc_closed cell \<Longrightarrow> \<not> sc_disputed cell"
    using d(6,7) cell deal_ok_closed_undisputed by (auto simp: stream_ok_def deal_ok_def)
  note ds = opened_state [OF m cell d(3,4), of c]
  have money: "if sc_closed cell then drained cell else sc_seller_locked cell = so_price_per_tick o1 * 2
      \<and> sc_buyer_bond cell = (if is_subscription s then so_price_per_tick o1 * 2 else 0)"
    using deal by (auto simp: deal_core_def money_ok_def Let_def bond_of_def)
  have two: "2 * TICK_SIZE \<le> sub_funded_tokens s" using deal(1) by (simp add: deal_core_def shape_ok_def)
  let ?snap = "snap_of st tc (cell_state cell (nat t)) s (so_price_per_tick o1 * 2)"
  have v: "validate_cross_getter_invariants ?snap = Inr ()"
    by (rule cross_getter_ok)
      (use p two cell money deal(3) in \<open>auto simp: snap_of_def cell_state_def is_stopped_def drained_def split: if_splits\<close>)
  show thesis
    by (rule that [OF deal_snapshot_eq [OF ds d(1,2) p(2) v] v d(1) _ d(3)]) (simp_all add: snap_of_def)
qed

text \<open>
  C40: Every matched deal of a reachable state reads back: the snapshot never fails, it agrees with the
  invariants the client checks across getters, and it shows the deal as open exactly while its stream
  is.
\<close>

theorem reachable_deal_reads_back:
  assumes "consts_ok c" and "mock_reach sha params c now st" and "hget (ms_matches st) tc = Some m"
  shows "\<exists>snap. deal_snapshot c st tc = Inr (Some snap) \<and> validate_cross_getter_invariants snap = Inr ()
    \<and> hget (ms_deal_subscriptions st) tc = Some (snap_subscription snap) \<and> dcs_funded (snap_state snap)
    \<and> (dcs_opened (snap_state snap) \<longleftrightarrow> (\<exists>cell. hget (ms_streams st) tc = Some cell \<and> \<not> sc_closed cell))"
proof -
  have ok: "mock_ok c now st" using mock_reach_ok [OF assms(1,2)] .
  obtain s o1 n who at where d: "hget (ms_deal_subscriptions st) tc = Some s"
    "hget (ms_matched_offers st) tc = Some o1" "hget (ms_match_created_at st) tc = Some at" "0 < at"
    "offer_ok c tc o1" "mt_price_per_tick m = so_price_per_tick o1" "stream_ok c now m n s (hget (ms_streams st) tc)"
    by (rule mock_ok_deal [OF ok assms(3)])
  have p: "0 < so_price_per_tick o1" "so_price_per_tick o1 \<le> U64_MAX"
    using offer_ok_value(1) [OF assms(1) d(5)] d(5) by (simp_all add: offer_ok_def)
  show ?thesis
  proof (cases "hget (ms_streams st) tc")
    case None
    then have fresh: "fresh_shape c now (so_price_per_tick o1) s" using d(6,7) by (simp add: stream_ok_def)
    obtain ds where ds: "mock_deal_state st tc c = Inr (Some ds)" "dcs_funded ds" "\<not> dcs_opened ds"
      using unopened_state [OF assms(1,3) None d(1,3,4)] p fresh by (auto simp: d(6) fresh_shape_def)
    let ?snap = "snap_of st tc ds s (so_price_per_tick o1 * 2)"
    have "validate_cross_getter_invariants ?snap = Inr ()"
      by (rule cross_getter_ok) (use p fresh ds None in \<open>auto simp: snap_of_def fresh_shape_def shape_ok_def\<close>)
    with deal_snapshot_eq [OF ds(1) d(1,2) p(2)] show ?thesis
      using ds None d(1) by (intro exI [of _ ?snap]) (simp add: snap_of_def)
  next
    case (Some cell)
    show ?thesis
      by (rule stream_snapshot [OF assms(1) ok Some]) (use Some in \<open>auto simp: cell_state_def\<close>)
  qed
qed

theorem reachable_deal_reads_back_witness:
  "\<exists>snap. deal_snapshot canonical sample_end ''a'' = Inr (Some snap) \<and> \<not> dcs_opened (snap_state snap)"
proof -
  have "hget (ms_matches sample_end) ''a'' = Some \<lparr>mt_token_contract = ''a'',
      mt_buyer_pubkey = sample_note, mt_price_per_tick = 1000000000\<rparr>"
    by (simp add: sample_end_def sample_defs hget_def)
  moreover have "sc_closed sample_stopped" by (simp add: sample_stopped_def)
  ultimately show ?thesis
    using reachable_deal_reads_back [OF sample_consts sample_end_reach] by fastforce
qed

section \<open>The seller's fills\<close>

definition fill_time :: "MockState \<Rightarrow> MatchWatchCursor \<Rightarrow> token_contract \<Rightarrow> i64" where
  "fill_time st cur tc =
    (case hget (ms_match_created_at st) tc of Some t \<Rightarrow> t | None \<Rightarrow> cur_since_unix cur)"

lemma unseen_fill_Some:
  "unseen_fill sha st who cur tc = Some (t, f) \<Longrightarrow>
    t = fill_time st cur tc \<and> mf_token_contract f = tc \<and> \<not> has_seen cur t tc
    \<and> hget (ms_offer_sellers st) tc = Some who \<and> contains_key (ms_matched_offers st) tc"
  by (auto simp: unseen_fill_def fill_time_def Let_def contains_key_def split: if_splits option.splits)

lemma unseen_fill_ex:
  "hget (ms_offer_sellers st) tc = Some who \<Longrightarrow> contains_key (ms_matched_offers st) tc \<Longrightarrow>
    \<not> has_seen cur (fill_time st cur tc) tc \<Longrightarrow> \<exists>e. unseen_fill sha st who cur tc = Some e"
  by (auto simp: unseen_fill_def fill_time_def Let_def contains_key_def)

lemma set_map_filter: "set (List.map_filter f xs) = {y. \<exists>x\<in>set xs. f x = Some y}"
  by (induction xs) (auto simp: map_filter_simps split: option.splits)

lemma poll_contracts:
  "mf_token_contract ` set (fst (poll_seller_fills sha st pk cur)) =
    {tc. contains_key (ms_matches st) tc \<and> hget (ms_offer_sellers st) tc = Some (note_id_hex pk)
      \<and> contains_key (ms_matched_offers st) tc \<and> \<not> has_seen cur (fill_time st cur tc) tc}" (is "?l = ?r")
proof
  show "?l \<subseteq> ?r"
    by (fastforce simp: poll_seller_fills_def Let_def set_map_filter hkeys_contains
        dest: unseen_fill_Some)
  show "?r \<subseteq> ?l"
  proof
    fix tc assume tc: "tc \<in> ?r"
    then obtain e where e: "unseen_fill sha st (note_id_hex pk) cur tc = Some e"
      using unseen_fill_ex by blast
    then have "mf_token_contract (snd e) = tc" using unseen_fill_Some [of sha st _ cur tc "fst e" "snd e"] by simp
    then show "tc \<in> ?l"
      using e tc by (force simp: poll_seller_fills_def Let_def set_map_filter hkeys_contains)
  qed
qed

text \<open>Every fill a poll returns is covered by the cursor it leaves.\<close>

lemma poll_cursor:
  assumes "contains_key (ms_matches st) tc" and "hget (ms_offer_sellers st) tc = Some (note_id_hex pk)"
    and "contains_key (ms_matched_offers st) tc" and "\<not> has_seen cur (fill_time st cur tc) tc"
  shows "has_seen (snd (poll_seller_fills sha st pk cur)) (fill_time st cur tc) tc"
proof -
  obtain e where e: "unseen_fill sha st (note_id_hex pk) cur tc = Some e"
    using unseen_fill_ex [OF assms(2-4)] by blast
  then have ev: "fst e = fill_time st cur tc" "mf_token_contract (snd e) = tc"
    using unseen_fill_Some [of sha st _ cur tc "fst e" "snd e"] by simp_all
  have "cur_since_unix cur \<le> fill_time st cur tc" using assms(4) by (auto simp: has_seen_def split: if_splits)
  moreover have "(fill_time st cur tc, tc) \<in> (\<lambda>e. (fst e, mf_token_contract (snd e))) ` set
      (List.map_filter (unseen_fill sha st (note_id_hex pk) cur) (hkeys (ms_matches st)))"
    using e ev assms(1) by (force simp: set_map_filter hkeys_contains)
  ultimately show ?thesis
    by (force simp: poll_seller_fills_def Let_def has_seen_record_seen_batch)
qed

text \<open>
  A seller is told of every fill exactly once: a poll returns precisely the matches of the seller's
  own offers that the cursor has not seen, and a second poll with the cursor it leaves returns
  nothing.
\<close>

theorem seller_fills_once:
  "mf_token_contract ` set (fst (poll_seller_fills sha st pk cur)) =
      {tc. contains_key (ms_matches st) tc \<and> hget (ms_offer_sellers st) tc = Some (note_id_hex pk)
        \<and> contains_key (ms_matched_offers st) tc \<and> \<not> has_seen cur (fill_time st cur tc) tc}
    \<and> fst (poll_seller_fills sha st pk (snd (poll_seller_fills sha st pk cur))) = []"
proof -
  let ?cur' = "snd (poll_seller_fills sha st pk cur)"
  have since: "cur_since_unix ?cur' = cur_since_unix cur"
    by (simp add: poll_seller_fills_def Let_def record_seen_batch_def split: prod.split option.split)
  then have time: "fill_time st ?cur' tc = fill_time st cur tc" for tc
    by (simp add: fill_time_def split: option.split)
  have old: "has_seen cur t tc \<Longrightarrow> has_seen ?cur' t tc" for t tc
    by (simp add: poll_seller_fills_def Let_def has_seen_record_seen_batch)
  have "mf_token_contract ` set (fst (poll_seller_fills sha st pk ?cur')) = {}"
    using poll_cursor [of st _ pk cur sha] old by (auto simp: poll_contracts time)
  then show ?thesis using poll_contracts [of sha st pk cur] by simp
qed

section \<open>Subscription orders\<close>

definition orders_ok :: "MockState \<Rightarrow> bool" where
  "orders_ok st \<longleftrightarrow>
    (\<forall>i o1. hget (ms_subscription_orders st) i = Some o1 \<longrightarrow> ob_order_id o1 = i
      \<and> i < ms_next_subscription_order_id st \<and> hget (ms_subscription_terminal_orders st) i = None
      \<and> is_ok (check_subscription_buy_reserve (ob_escrow o1) (ob_ticks o1) (ob_price_per_tick o1)))
    \<and> (\<forall>i t. hget (ms_subscription_terminal_orders st) i = Some t \<longrightarrow> ob_order_id (ter_order t) = i
      \<and> i < ms_next_subscription_order_id st \<and> ter_refunded t = ob_escrow (ter_order t))"

definition same_orders :: "MockState \<Rightarrow> MockState \<Rightarrow> bool" where
  "same_orders st st' \<longleftrightarrow> ms_subscription_orders st' = ms_subscription_orders st
    \<and> ms_subscription_terminal_orders st' = ms_subscription_terminal_orders st
    \<and> ms_next_subscription_order_id st' = ms_next_subscription_order_id st"

lemma with_deal_same_orders: "with_deal k st f = Inr (st', r) \<Longrightarrow> same_orders st st'"
  by (auto simp: with_deal_Inr same_orders_def)

lemma removed_orders_ok:
  assumes "orders_ok st" and "hget (ms_subscription_orders st) i = Some o1" and "r = ob_escrow o1"
  shows "orders_ok (remove_subscription_order_from_book i reason r st)"
  using assms
  by (auto simp: orders_ok_def remove_subscription_order_from_book_def hget_hremove hget_hinsert
      split: if_splits)

lemma swept_orders_ok: "orders_ok st \<Longrightarrow> orders_ok (swept_state t i st)"
  by (auto simp: swept_state_def removed_orders_ok split: option.splits)

lemma placed_orders_ok:
  assumes ok: "orders_ok st" and run: "place_subscription_order t book pk p n e fl d st = Inr (st', o1)"
  shows "orders_ok st'"
proof -
  let ?i = "max (ms_next_subscription_order_id st) 1"
  let ?order = "\<lparr>ob_order_id = ?i, ob_owner_note = owner_addr pk, ob_token_contract = None,
    ob_is_buy = True, ob_price_per_tick = p, ob_ticks = n, ob_escrow = e, ob_deadline = d,
    ob_flags = fl, ob_timestamp = t\<rparr>"
  have reserve: "is_ok (check_subscription_buy_reserve e n p)"
    and st': "st' = st\<lparr>ms_next_subscription_order_id := ?i + 1,
      ms_subscription_orders := hinsert ?i ?order (ms_subscription_orders st),
      ms_subscription_order_books := hinsert ?i book (ms_subscription_order_books st)\<rparr>"
    using run by (auto simp: place_subscription_order_def result_simps Let_def is_ok_iff)
  have "hget (ms_subscription_terminal_orders st) ?i = None"
    using ok by (cases "hget (ms_subscription_terminal_orders st) ?i") (fastforce simp: orders_ok_def)+
  then show ?thesis
    using ok reserve by (fastforce simp: orders_ok_def st' hget_hinsert split: if_splits)
qed

lemma cancelled_orders_ok:
  assumes "orders_ok st"
  shows "orders_ok (fst (cancel_subscription_order t book i pk st))"
  using swept_orders_ok [OF assms, of t i] removed_orders_ok
  by (auto simp: cancel_subscription_order_def Let_def owned_order_def split: option.splits if_splits)

text \<open>The calls that do not concern subscription orders leave them alone.\<close>

lemma run_call_orders:
  assumes run: "run_call sha params c call st = Some st'"
  shows "same_orders st st' \<or> (\<exists>t book pk p n e fl d o1. place_subscription_order t book pk p n e fl d st = Inr (st', o1))
    \<or> (\<exists>t i. st' = swept_state t i st) \<or> (\<exists>t book i pk. st' = fst (cancel_subscription_order t book i pk st))"
proof (cases call)
  case (PlaceOrder t book pk p n e fl d)
  then show ?thesis using run by (auto simp: stored_Some)
next
  case (ReadOrder t book i pk)
  then show ?thesis using run by (auto simp: stored_Some subscription_order_def Let_def)
next
  case (ReadTerminal t book i pk)
  then show ?thesis using run by (auto simp: stored_Some subscription_terminal_order_def Let_def)
next
  case (CancelOrder t book i pk)
  then have "st' = fst (cancel_subscription_order t book i pk st)" using run by simp
  then show ?thesis by blast
qed (use run in \<open>auto simp: stored_Some accept_probe_def finalize_def settle_week_def
      stop_mock_stream_def seller_stop_def release_dispute_def post_offer_def
      expire_resting_sell_order_def cancel_resting_sell_order_def place_buy_Inr matched_state_def
      open_stream_def cleanup_unopened_def require_mock_seller_actor_def
      same_orders_def result_simps Let_def
      dest!: actor_calls with_deal_same_orders [unfolded same_orders_def] split: if_splits\<close>)

lemma run_call_orders_ok:
  assumes "orders_ok st" and "run_call sha params c call st = Some st'"
  shows "orders_ok st'"
  using run_call_orders [OF assms(2)]
proof (elim disjE exE)
  assume "same_orders st st'"
  then show ?thesis using assms(1) by (simp add: same_orders_def orders_ok_def)
qed (use assms(1) placed_orders_ok swept_orders_ok cancelled_orders_ok in simp_all)

lemma mock_reach_orders: "mock_reach sha params c now st \<Longrightarrow> orders_ok st"
proof (induction rule: mock_reach.induct)
  case (mock_call now st now' call st')
  then show ?case using run_call_orders_ok by blast
qed (simp add: orders_ok_def default_state_def)

lemma same_terminal:
  assumes ok: "orders_ok st" and t: "hget (ms_subscription_terminal_orders st) i = Some x"
  shows "hget (ms_subscription_terminal_orders (remove_subscription_order_from_book j reason r st)) i = Some x"
    and "hget (ms_subscription_terminal_orders (swept_state now j st)) i = Some x"
proof -
  have other: "hget (ms_subscription_orders st) i = None"
    using ok t by (cases "hget (ms_subscription_orders st) i") (auto simp: orders_ok_def)
  then show rm: "hget (ms_subscription_terminal_orders (remove_subscription_order_from_book j reason r st)) i = Some x"
    for reason r
    using t by (cases "i = j") (auto simp: remove_subscription_order_from_book_def hget_hinsert split: option.splits)
  show "hget (ms_subscription_terminal_orders (swept_state now j st)) i = Some x"
    using t rm by (auto simp: swept_state_def split: option.splits)
qed

lemma cancelled_terminal:
  assumes "orders_ok st" and "hget (ms_subscription_terminal_orders st) i = Some x"
  shows "hget (ms_subscription_terminal_orders (fst (cancel_subscription_order t book j pk st))) i = Some x"
  using same_terminal [OF swept_orders_ok [OF assms(1)] same_terminal(2) [OF assms]] same_terminal(2) [OF assms]
  by (simp add: cancel_subscription_order_def Let_def split: option.split)

text \<open>
  A subscription order leaves the book once: its terminal record refunds exactly the escrow it was
  placed with, no later call changes the record, and its id never rests in the book again.
\<close>

theorem order_exits_once:
  assumes "mock_reach sha params c now st"
    and "hget (ms_subscription_terminal_orders st) i = Some t"
    and "run_call sha params c call st = Some st'"
  shows "ter_refunded t = ob_escrow (ter_order t)
    \<and> hget (ms_subscription_terminal_orders st') i = Some t \<and> hget (ms_subscription_orders st') i = None"
proof -
  have ok: "orders_ok st" using mock_reach_orders [OF assms(1)] .
  have ok': "orders_ok st'" using run_call_orders_ok [OF ok assms(3)] .
  have "hget (ms_subscription_terminal_orders st') i = Some t"
    using run_call_orders [OF assms(3)]
  proof (elim disjE exE)
    assume "same_orders st st'"
    then show ?thesis using assms(2) by (simp add: same_orders_def)
  next
    fix at book pk p n e fl d o1
    assume "place_subscription_order at book pk p n e fl d st = Inr (st', o1)"
    then show ?thesis using assms(2) by (auto simp: place_subscription_order_def result_simps Let_def)
  qed (use same_terminal(2) [OF ok assms(2)] cancelled_terminal [OF ok assms(2)] in simp_all)
  then show ?thesis
    using ok ok' assms(2)
    by (cases "hget (ms_subscription_orders st') i") (auto simp: orders_ok_def)
qed

text \<open>A subscription order for 560 ticks, placed at 20 and cancelled at 30.\<close>

definition sample_order :: OrderBookOrder where
  "sample_order = \<lparr>ob_order_id = 1, ob_owner_note = owner_addr sample_note, ob_token_contract = None,
     ob_is_buy = True, ob_price_per_tick = 1000, ob_ticks = 560, ob_escrow = 576000, ob_deadline = 90,
     ob_flags = AON OR SUBSCRIPTION, ob_timestamp = 20\<rparr>"

definition sample_placed :: MockState where
  "sample_placed = default_state\<lparr>ms_next_subscription_order_id := 2,
     ms_subscription_orders := [(1, sample_order)], ms_subscription_order_books := [(1, ''book'')]\<rparr>"

definition sample_cancelled :: MockState where
  "sample_cancelled = default_state\<lparr>ms_next_subscription_order_id := 2,
     ms_subscription_terminal_orders := [(1, \<lparr>ter_order = sample_order, ter_order_book = ''book'',
       ter_reason = ExitCancelled, ter_refunded = 576000\<rparr>)]\<rparr>"

lemma sample_place:
  "place_subscription_order 20 ''book'' sample_note 1000 560 576000 (AON OR SUBSCRIPTION) 90 default_state
    = Inr (sample_placed, sample_order)"
  by (simp add: place_subscription_order_def check_subscription_buy_reserve_def
      subscription_buy_reserve_def checked_required_escrow_for_buy_def
      sample_placed_def sample_order_def default_state_def map_eval money_eval flag_defs)

lemma sample_placed_reach: "mock_reach (\<lambda>_. 7) dob_canonical canonical 20 sample_placed"
  by (rule mock_call [OF mock_start [of _ _ _ 20],
        where call = "PlaceOrder 20 ''book'' sample_note 1000 560 576000 (AON OR SUBSCRIPTION) 90"])
    (simp_all add: call_ok_def typed_call_def sample_place stored_def)

lemma sample_owned: "owned_order ''book'' 1 sample_note sample_placed = Some sample_order"
  by (simp add: owned_order_def sample_placed_def sample_order_def map_eval)

lemma sample_cancel:
  "cancel_subscription_order 30 ''book'' 1 sample_note sample_placed = (sample_cancelled, Inr sample_order)"
  by (simp add: cancel_subscription_order_def swept_state_def remove_subscription_order_from_book_def
      owned_order_def sample_placed_def sample_cancelled_def sample_order_def default_state_def map_eval)

lemma sample_cancelled_reach: "mock_reach (\<lambda>_. 7) dob_canonical canonical 30 sample_cancelled"
  by (rule mock_call [OF sample_placed_reach, where call = "CancelOrder 30 ''book'' 1 sample_note"])
    (simp_all add: call_ok_def typed_call_def sample_cancel [simplified])

theorem order_exits_once_witness:
  "hget (ms_subscription_orders (fst (cancel_subscription_order 40 ''book'' 1 sample_note sample_cancelled))) 1
    = None"
proof -
  have "hget (ms_subscription_terminal_orders sample_cancelled) 1 = Some \<lparr>ter_order = sample_order,
      ter_order_book = ''book'', ter_reason = ExitCancelled, ter_refunded = 576000\<rparr>"
    by (simp add: sample_cancelled_def hget_def)
  from order_exits_once [OF sample_cancelled_reach this, where call = "CancelOrder 40 ''book'' 1 sample_note"]
  show ?thesis by simp
qed

text \<open>
  Cancelling one's own resting order always takes it off the book with its whole escrow: before the
  deadline as a cancellation that returns the order, from the deadline on as an expiry that the
  cancellation reports as absent.
\<close>

theorem cancel_refunds_escrow:
  assumes "owned_order book i pk st = Some o1" and "cancel_subscription_order t book i pk st = (st', r)"
  shows "hget (ms_subscription_orders st') i = None
    \<and> (let expired = (ob_deadline o1 \<noteq> 0 \<and> ob_deadline o1 \<le> t) in
       hget (ms_subscription_terminal_orders st') i = Some \<lparr>ter_order = o1, ter_order_book = book,
         ter_reason = (if expired then ExitExpired else ExitCancelled), ter_refunded = ob_escrow o1\<rparr>
       \<and> r = (if expired then Inl (Chain OrderAbsent) else Inr o1))"
proof -
  have o1: "hget (ms_subscription_orders st) i = Some o1" "hget (ms_subscription_order_books st) i = Some book"
    using assms(1) by (auto simp: owned_order_def split: option.splits if_splits)
  show ?thesis
  proof (cases "ob_deadline o1 \<noteq> 0 \<and> ob_deadline o1 \<le> t")
    case True
    then show ?thesis
      using assms(2) o1
      by (auto simp: cancel_subscription_order_def swept_state_def remove_subscription_order_from_book_def
          owned_order_def hget_hremove hget_hinsert Let_def)
  next
    case False
    then have "swept_state t i st = st" using o1 by (auto simp: swept_state_def)
    with False show ?thesis
      using assms(1,2) o1
      by (auto simp: cancel_subscription_order_def remove_subscription_order_from_book_def
          hget_hremove hget_hinsert Let_def)
  qed
qed

theorem cancel_refunds_escrow_witness:
  "hget (ms_subscription_orders sample_cancelled) 1 = None
    \<and> hget (ms_subscription_terminal_orders sample_cancelled) 1 = Some \<lparr>ter_order = sample_order,
        ter_order_book = ''book'', ter_reason = ExitCancelled, ter_refunded = 576000\<rparr>"
  using cancel_refunds_escrow [OF sample_owned sample_cancel] by (simp add: sample_order_def)

end
