(* ===== verification/Conservation.thy ===== *)
theory Conservation
  imports Prelude
begin

text \<open>
  Deal money conservation: \<open>src/crates/core/src/market/deal_conservation.rs\<close>. The ledger replays the
  money movements of a deal one at a time; an outflow the deal cannot cover is a breach. The
  abstract specification is the sums of the movements by kind; the lemmas show the ledger computes
  exactly those sums, and that a replay succeeds exactly when no prefix overdraws.
\<close>

section \<open>Movements and breaches\<close>

datatype DealMoneyFlow =
    EscrowFunded u128
  | SellerBondFunded u128
  | BuyerBondFunded u128
  | CreditedToNote string u128
  | WrittenOff u128

definition amount :: "DealMoneyFlow \<Rightarrow> u128" where
  "amount f =
    (case f of EscrowFunded a \<Rightarrow> a | SellerBondFunded a \<Rightarrow> a | BuyerBondFunded a \<Rightarrow> a
     | CreditedToNote _ a \<Rightarrow> a | WrittenOff a \<Rightarrow> a)"

definition is_inflow :: "DealMoneyFlow \<Rightarrow> bool" where
  "is_inflow f =
    (case f of EscrowFunded _ \<Rightarrow> True | SellerBondFunded _ \<Rightarrow> True | BuyerBondFunded _ \<Rightarrow> True
     | _ \<Rightarrow> False)"

definition flow_label :: "DealMoneyFlow \<Rightarrow> string" where
  "flow_label f =
    (case f of EscrowFunded _ \<Rightarrow> ''escrow_funded'' | SellerBondFunded _ \<Rightarrow> ''seller_bond_funded''
     | BuyerBondFunded _ \<Rightarrow> ''buyer_bond_funded'' | CreditedToNote _ _ \<Rightarrow> ''credited_to_note''
     | WrittenOff _ \<Rightarrow> ''written_off'')"

datatype ConservationBreach =
    Overdraft string u128 u128
  | Overflow string u128 u128
  | ResidualAtDestruction u128
  | NotConserved u128 u128 u128 u128
  | DeclaredPayoutDisagreesWithCredits u128 u128
  | PayoutExceedsFunding u128 u128

record DealLedgerStep =
  st_flow :: DealMoneyFlow
  st_balance_before :: u128
  st_balance_after :: u128

record DealSettlement =
  set_funded_in :: u128
  set_credited_out :: u128
  set_written_off :: u128
  set_balance :: u128
  set_credited_by_note :: "(string, u128) hash_map"

record DealLedger =
  lg_balance :: u128
  lg_funded_in :: u128
  lg_credited_out :: u128
  lg_written_off :: u128
  lg_credited_by_note :: "(string, u128) hash_map"
  lg_steps :: "DealLedgerStep list"

section \<open>The ledger\<close>

definition new_ledger :: DealLedger where
  "new_ledger = \<lparr>lg_balance = 0, lg_funded_in = 0, lg_credited_out = 0, lg_written_off = 0,
     lg_credited_by_note = [], lg_steps = []\<rparr>"

definition credited_in :: "(string, u128) hash_map \<Rightarrow> string \<Rightarrow> u128" where
  "credited_in m note_addr = (case hget m note_addr of None \<Rightarrow> 0 | Some v \<Rightarrow> v)"

definition book_outflow :: "DealMoneyFlow \<Rightarrow> DealLedger \<Rightarrow> DealLedger" where
  "book_outflow f l =
    (case f of
       CreditedToNote note_addr a \<Rightarrow>
         l\<lparr>lg_credited_out := saturating_add U128_MAX (lg_credited_out l) (amount f),
           lg_credited_by_note := hinsert note_addr
             (saturating_add U128_MAX (credited_in (lg_credited_by_note l) note_addr) (amount f))
             (lg_credited_by_note l)\<rparr>
     | _ \<Rightarrow> l\<lparr>lg_written_off := saturating_add U128_MAX (lg_written_off l) (amount f)\<rparr>)"

definition push_step :: "DealMoneyFlow \<Rightarrow> u128 \<Rightarrow> u128 \<Rightarrow> DealLedger \<Rightarrow> DealLedger" where
  "push_step f before after l =
    l\<lparr>lg_balance := after,
      lg_steps := lg_steps l @ [\<lparr>st_flow = f, st_balance_before = before,
                                 st_balance_after = after\<rparr>]\<rparr>"

definition apply_flow :: "DealLedger \<Rightarrow> DealMoneyFlow \<Rightarrow> ConservationBreach + DealLedger" where
  "apply_flow l f =
    (let before = lg_balance l in
     if is_inflow f then
       ok_or_else (checked_add U128_MAX before (amount f))
         (Overflow (flow_label f) before (amount f)) (\<lambda>after.
       ok_or_else (checked_add U128_MAX (lg_funded_in l) (amount f))
         (Overflow (flow_label f) before (amount f)) (\<lambda>funded.
       Inr (push_step f before after (l\<lparr>lg_funded_in := funded\<rparr>))))
     else
       ok_or_else (checked_sub before (amount f))
         (Overdraft (flow_label f) before (amount f)) (\<lambda>after.
       Inr (push_step f before after (book_outflow f l))))"

fun replay_from :: "DealLedger \<Rightarrow> DealMoneyFlow list \<Rightarrow> ConservationBreach + DealLedger" where
  "replay_from l [] = Inr l"
| "replay_from l (f # fs) = bindR (apply_flow l f) (\<lambda>l'. replay_from l' fs)"

definition replay :: "DealMoneyFlow list \<Rightarrow> ConservationBreach + DealLedger" where
  "replay fs = replay_from new_ledger fs"

definition credited_to :: "DealLedger \<Rightarrow> string \<Rightarrow> u128" where
  "credited_to l note_addr = credited_in (lg_credited_by_note l) note_addr"

definition settlement_credited_to :: "DealSettlement \<Rightarrow> string \<Rightarrow> u128" where
  "settlement_credited_to s note_addr = credited_in (set_credited_by_note s) note_addr"

definition settle :: "DealLedger \<Rightarrow> ConservationBreach + DealSettlement" where
  "settle l =
    (let breach = NotConserved (lg_funded_in l) (lg_credited_out l) (lg_written_off l)
                    (lg_balance l) in
     ok_or_else (checked_add U128_MAX (lg_credited_out l) (lg_written_off l)) breach (\<lambda>part.
     ok_or_else (checked_add U128_MAX part (lg_balance l)) breach (\<lambda>total_out.
     refuse_if (total_out \<noteq> lg_funded_in l) breach
     (Inr \<lparr>set_funded_in = lg_funded_in l, set_credited_out = lg_credited_out l,
           set_written_off = lg_written_off l, set_balance = lg_balance l,
           set_credited_by_note = lg_credited_by_note l\<rparr>))))"

definition settle_destroyed :: "DealLedger \<Rightarrow> ConservationBreach + DealSettlement" where
  "settle_destroyed l =
    bindR (settle l) (\<lambda>s.
    refuse_if (set_balance s \<noteq> 0) (ResidualAtDestruction (set_balance s)) (Inr s))"

definition I128_MAX :: int where "I128_MAX = 2 ^ 127 - 1"
definition I128_MIN :: int where "I128_MIN = - (2 ^ 127)"

definition buyer_total_debit :: "u128 \<Rightarrow> u128 \<Rightarrow> u128 option" where
  "buyer_total_debit deposit buyer_bond = checked_add U128_MAX deposit buyer_bond"

definition i128_or_max :: "u128 \<Rightarrow> int" where
  "i128_or_max v = (if int v \<le> I128_MAX then int v else I128_MAX)"

definition buyer_net_result :: "u128 \<Rightarrow> u128 \<Rightarrow> int" where
  "buyer_net_result credited_to_buyer total_debit =
    max I128_MIN (min I128_MAX (i128_or_max credited_to_buyer - i128_or_max total_debit))"

definition implied_write_off :: "u128 \<Rightarrow> u128 \<Rightarrow> ConservationBreach + u128" where
  "implied_write_off funded_in declared_payout =
    ok_or_else (checked_sub funded_in declared_payout)
      (PayoutExceedsFunding funded_in declared_payout) Inr"

definition check_declared_payout_against_credits ::
  "u128 \<Rightarrow> u128 \<Rightarrow> ConservationBreach + unit" where
  "check_declared_payout_against_credits declared_payout credited =
    (if declared_payout = credited then Inr ()
     else Inl (DeclaredPayoutDisagreesWithCredits declared_payout credited))"

section \<open>The sums of the movements\<close>

definition inflows :: "DealMoneyFlow list \<Rightarrow> nat" where
  "inflows fs = sum_list (map amount (filter is_inflow fs))"

definition outflows :: "DealMoneyFlow list \<Rightarrow> nat" where
  "outflows fs = sum_list (map amount (filter (\<lambda>f. \<not> is_inflow f) fs))"

definition credits_to :: "string \<Rightarrow> DealMoneyFlow list \<Rightarrow> nat" where
  "credits_to note_addr fs =
    sum_list (map (\<lambda>f. case f of CreditedToNote w a \<Rightarrow> if w = note_addr then a else 0 | _ \<Rightarrow> 0) fs)"

definition credits :: "DealMoneyFlow list \<Rightarrow> nat" where
  "credits fs = sum_list (map (\<lambda>f. case f of CreditedToNote _ a \<Rightarrow> a | _ \<Rightarrow> 0) fs)"

definition write_offs :: "DealMoneyFlow list \<Rightarrow> nat" where
  "write_offs fs = sum_list (map (\<lambda>f. case f of WrittenOff a \<Rightarrow> a | _ \<Rightarrow> 0) fs)"

lemmas sum_defs = inflows_def outflows_def credits_to_def credits_def write_offs_def

lemma sums_snoc:
  "inflows (fs @ [f]) = inflows fs + (if is_inflow f then amount f else 0)"
  "outflows (fs @ [f]) = outflows fs + (if is_inflow f then 0 else amount f)"
  "credits (fs @ [f]) = credits fs + (case f of CreditedToNote _ a \<Rightarrow> a | _ \<Rightarrow> 0)"
  "write_offs (fs @ [f]) = write_offs fs + (case f of WrittenOff a \<Rightarrow> a | _ \<Rightarrow> 0)"
  "credits_to w (fs @ [f]) =
    credits_to w fs + (case f of CreditedToNote v a \<Rightarrow> if v = w then a else 0 | _ \<Rightarrow> 0)"
  by (simp_all add: sum_defs)

lemma outflows_split: "outflows fs = credits fs + write_offs fs"
  by (induction fs) (auto simp: sum_defs is_inflow_def amount_def split: DealMoneyFlow.splits)

lemma credits_to_le: "credits_to w fs \<le> credits fs"
  by (induction fs) (auto simp: sum_defs split: DealMoneyFlow.splits)

text \<open>The ledger holds the sums of the movements \<open>fs\<close> it has replayed.\<close>

definition ledger_of :: "DealMoneyFlow list \<Rightarrow> DealLedger \<Rightarrow> bool" where
  "ledger_of fs l \<longleftrightarrow>
    lg_funded_in l = inflows fs \<and> lg_credited_out l = credits fs \<and>
    lg_written_off l = write_offs fs \<and> lg_balance l + outflows fs = inflows fs \<and>
    inflows fs \<le> U128_MAX \<and> (\<forall>w. credited_to l w = credits_to w fs) \<and>
    map st_flow (lg_steps l) = fs"

lemma ledger_of_new: "ledger_of [] new_ledger"
  by (simp add: ledger_of_def new_ledger_def sum_defs credited_to_def credited_in_def)

lemma apply_flow_ok_iff:
  assumes "ledger_of fs l"
  shows "is_ok (apply_flow l f) \<longleftrightarrow>
    outflows (fs @ [f]) \<le> inflows (fs @ [f]) \<and> inflows (fs @ [f]) \<le> U128_MAX"
  using assms
  by (auto simp: ledger_of_def sums_snoc apply_flow_def Let_def is_ok_def ok_or_else_def
      checked_add_def checked_sub_def)

lemma apply_flow_ledger:
  assumes l: "ledger_of fs l" and step: "apply_flow l f = Inr l'"
  shows "ledger_of (fs @ [f]) l'"
proof -
  have ok: "outflows (fs @ [f]) \<le> inflows (fs @ [f])" "inflows (fs @ [f]) \<le> U128_MAX"
    using apply_flow_ok_iff [OF l, of f] step by (simp_all add: is_ok_def)
  have le: "credits_to w (fs @ [f]) \<le> U128_MAX" "credits (fs @ [f]) \<le> U128_MAX"
    "write_offs (fs @ [f]) \<le> U128_MAX" for w
    using ok outflows_split [of "fs @ [f]"] credits_to_le [of w "fs @ [f]"] by linarith+
  have held: "lg_credited_out l = credits fs" "lg_written_off l = write_offs fs"
    "credited_to l v = credits_to v fs" for v
    using l by (simp_all add: ledger_of_def)
  show ?thesis
  proof (cases f)
    case (CreditedToNote v a)
    then have "credits fs + a \<le> U128_MAX" "credits_to v fs + a \<le> U128_MAX"
      using le(2) le(1) [of v] by (simp_all add: sums_snoc)
    then
    have "saturating_add U128_MAX (lg_credited_out l) a = credits fs + a"
      and "saturating_add U128_MAX (credited_to l v) a = credits_to v fs + a"
      by (simp_all add: held saturating_add_exact)
    then show ?thesis using l step CreditedToNote ok
      by (auto simp: ledger_of_def apply_flow_def Let_def result_simps push_step_def book_outflow_def
          is_inflow_def amount_def sums_snoc credited_to_def credited_in_def hget_hinsert)
  next
    case (WrittenOff a)
    have "saturating_add U128_MAX (lg_written_off l) a = write_offs fs + a"
      using le(3) by (simp add: held sums_snoc WrittenOff saturating_add_exact)
    then show ?thesis using l step WrittenOff ok
      by (auto simp: ledger_of_def apply_flow_def Let_def result_simps push_step_def book_outflow_def
          is_inflow_def amount_def sums_snoc credited_to_def)
  qed (use l step ok in \<open>auto simp: ledger_of_def apply_flow_def Let_def result_simps push_step_def
      is_inflow_def amount_def sums_snoc credited_to_def\<close>)
qed

lemma replay_from_ledger:
  "ledger_of fs l \<Longrightarrow> replay_from l gs = Inr l' \<Longrightarrow> ledger_of (fs @ gs) l'"
proof (induction gs arbitrary: fs l)
  case (Cons g gs)
  then obtain l1 where "apply_flow l g = Inr l1" and "replay_from l1 gs = Inr l'"
    by (auto simp: result_simps)
  with Cons.prems(1) Cons.IH [of "fs @ [g]" l1] show ?case by (simp add: apply_flow_ledger)
qed simp

lemmas replay_ledger = replay_from_ledger [OF ledger_of_new, simplified]

lemma replay_from_ok_iff:
  "ledger_of fs l \<Longrightarrow> is_ok (replay_from l gs) \<longleftrightarrow>
    (\<forall>n \<in> {1..length gs}. outflows (fs @ take n gs) \<le> inflows (fs @ take n gs)
      \<and> inflows (fs @ take n gs) \<le> U128_MAX)"
proof (induction gs arbitrary: fs l)
  case Nil
  then show ?case by (simp add: is_ok_def)
next
  case (Cons g gs)
  let ?P = "\<lambda>xs. outflows xs \<le> inflows xs \<and> inflows xs \<le> U128_MAX"
  have split: "(\<forall>n \<in> {1..length (g # gs)}. ?P (fs @ take n (g # gs))) \<longleftrightarrow>
    ?P (fs @ [g]) \<and> (\<forall>n \<in> {1..length gs}. ?P ((fs @ [g]) @ take n gs))" (is "?L \<longleftrightarrow> ?R")
  proof
    assume L: ?L
    then have "?P (fs @ take 1 (g # gs))" by (intro bspec [OF L]) auto
    moreover have "?P ((fs @ [g]) @ take n gs)" if "n \<in> {1..length gs}" for n
      using L [THEN bspec, of "Suc n"] that by simp
    ultimately show ?R by simp
  next
    assume R: ?R
    show ?L
    proof
      fix n
      assume n: "n \<in> {1..length (g # gs)}"
      show "?P (fs @ take n (g # gs))"
      proof (cases "n = 1")
        case False
        then obtain k where "n = Suc k" and "k \<in> {1..length gs}" using n by (cases n) auto
        then show ?thesis using R by simp
      qed (use R in simp)
    qed
  qed
  show ?case
  proof (cases "apply_flow l g")
    case (Inl e)
    then have "\<not> ?P (fs @ [g])" using apply_flow_ok_iff [OF Cons.prems, of g] by (simp add: is_ok_def)
    then have "\<not> (\<forall>n \<in> {1..length (g # gs)}. ?P (fs @ take n (g # gs)))" using split by blast
    then show ?thesis using Inl by (simp add: is_ok_def)
  next
    case (Inr l1)
    then have "?P (fs @ [g])" using apply_flow_ok_iff [OF Cons.prems, of g] by (simp add: is_ok_def)
    moreover have "ledger_of (fs @ [g]) l1" using apply_flow_ledger [OF Cons.prems Inr] .
    ultimately show ?thesis using split Inr Cons.IH [of "fs @ [g]" l1] by (simp only: replay_from.simps bindR_simps) blast
  qed
qed

lemma settle_ledger:
  assumes "ledger_of fs l"
  shows "settle l = Inr \<lparr>set_funded_in = inflows fs, set_credited_out = credits fs,
    set_written_off = write_offs fs, set_balance = inflows fs - outflows fs,
    set_credited_by_note = lg_credited_by_note l\<rparr>"
proof -
  have total: "credits fs + write_offs fs + lg_balance l = inflows fs"
    and cap: "inflows fs \<le> U128_MAX" and bal: "lg_balance l = inflows fs - outflows fs"
    using assms outflows_split [of fs] by (auto simp: ledger_of_def)
  have "checked_add U128_MAX (credits fs) (write_offs fs) = Some (credits fs + write_offs fs)"
    and "checked_add U128_MAX (credits fs + write_offs fs) (lg_balance l) = Some (inflows fs)"
    using total cap by simp_all
  moreover have "lg_credited_out l = credits fs" "lg_written_off l = write_offs fs"
    "lg_funded_in l = inflows fs" using assms by (simp_all add: ledger_of_def)
  ultimately show ?thesis
    unfolding settle_def Let_def by (simp add: bal del: checked_add_eq_Some)
qed

section \<open>Properties\<close>

text \<open>
  C21: A replay succeeds exactly when after every movement the money paid out and written off is
  covered by the money funded in, and the money funded in fits \<open>u128\<close>. So an overdraft is always
  reported, and nothing else is.
\<close>

theorem replay_ok_iff:
  "is_ok (replay fs) \<longleftrightarrow>
    (\<forall>n \<in> {1..length fs}. outflows (take n fs) \<le> inflows (take n fs)
      \<and> inflows (take n fs) \<le> U128_MAX)"
  using replay_from_ok_iff [OF ledger_of_new, of fs] by (simp add: replay_def)

text \<open>The bounded quantifier ranges over the prefixes of a deal that funds, pays and burns.\<close>

theorem replay_ok_iff_witness:
  "is_ok (replay [EscrowFunded 7, WrittenOff 3]) \<and> \<not> is_ok (replay [EscrowFunded 7, WrittenOff 8])"
proof -
  have range: "{1..length [a, b :: DealMoneyFlow]} = {1, 2}" for a b by auto
  show ?thesis
    using replay_ok_iff [of "[EscrowFunded 7, WrittenOff 3]"]
      replay_ok_iff [of "[EscrowFunded 7, WrittenOff 8]"]
    unfolding range by (simp add: sum_defs is_inflow_def amount_def MAX_defs)
qed

text \<open>
  A replayed ledger always settles, and every figure of the settlement is the exact sum of the
  movements of its kind, for each note too: nothing saturates, and funded in equals credited out
  plus written off plus the balance.
\<close>

theorem replay_settles_exactly:
  assumes "replay fs = Inr l"
  shows "\<exists>s. settle l = Inr s \<and> set_funded_in s = inflows fs \<and> set_credited_out s = credits fs \<and>
    set_written_off s = write_offs fs \<and>
    inflows fs = credits fs + write_offs fs + set_balance s \<and>
    (\<forall>w. settlement_credited_to s w = credits_to w fs)"
proof -
  have l: "ledger_of fs l" using replay_ledger [of fs l] assms by (simp add: replay_def)
  then have "outflows fs \<le> inflows fs" by (auto simp: ledger_of_def)
  moreover have "credited_in (lg_credited_by_note l) w = credits_to w fs" for w
    using l by (simp add: ledger_of_def credited_to_def)
  ultimately show ?thesis
    by (simp add: settle_ledger [OF l] settlement_credited_to_def outflows_split)
qed

theorem replay_settles_exactly_witness:
  "\<exists>l s. replay [EscrowFunded 10, CreditedToNote ''a'' 4, CreditedToNote ''a'' 3, WrittenOff 2] = Inr l
    \<and> settle l = Inr s \<and> set_balance s = 1 \<and> settlement_credited_to s ''a'' = 7"
proof -
  let ?fs = "[EscrowFunded 10, CreditedToNote ''a'' 4, CreditedToNote ''a'' 3, WrittenOff 2]"
  obtain l where l: "replay ?fs = Inr l"
    by (simp add: replay_def apply_flow_def Let_def new_ledger_def is_inflow_def amount_def
        checked_add_def checked_sub_def push_step_def book_outflow_def MAX_defs)
  show ?thesis using replay_settles_exactly [OF l] l
    by (auto simp: sum_defs is_inflow_def amount_def)
qed

text \<open>
  A deal destroyed after a replay settles exactly when it holds nothing, and then the write-off
  implied by its funding and its payout is the write-off the ledger saw.
\<close>

theorem destroyed_deal_write_off:
  assumes "replay fs = Inr l"
  shows "(is_ok (settle_destroyed l) \<longleftrightarrow> inflows fs = outflows fs) \<and>
    (\<forall>s. settle_destroyed l = Inr s \<longrightarrow>
      implied_write_off (set_funded_in s) (set_credited_out s) = Inr (set_written_off s))"
proof -
  have l: "ledger_of fs l" using replay_ledger [of fs l] assms by (simp add: replay_def)
  then have le: "outflows fs \<le> inflows fs" by (auto simp: ledger_of_def)
  then have "is_ok (settle_destroyed l) \<longleftrightarrow> inflows fs = outflows fs"
    by (auto simp: settle_destroyed_def settle_ledger [OF l] refuse_if_def is_ok_def)
  moreover have "settle_destroyed l = Inr s \<Longrightarrow>
      implied_write_off (set_funded_in s) (set_credited_out s) = Inr (set_written_off s)" for s
    using le outflows_split [of fs]
    by (auto simp: settle_destroyed_def settle_ledger [OF l] refuse_if_def implied_write_off_def
        checked_sub_def split: if_splits)
  ultimately show ?thesis by blast
qed

theorem destroyed_deal_write_off_witness:
  "\<exists>l. replay [EscrowFunded 10, CreditedToNote ''a'' 4, WrittenOff 6] = Inr l
    \<and> is_ok (settle_destroyed l)"
proof -
  let ?fs = "[EscrowFunded 10, CreditedToNote ''a'' 4, WrittenOff 6]"
  obtain l where l: "replay ?fs = Inr l"
    by (simp add: replay_def apply_flow_def Let_def new_ledger_def is_inflow_def amount_def
        checked_add_def checked_sub_def push_step_def book_outflow_def MAX_defs)
  show ?thesis using destroyed_deal_write_off [OF l] l
    by (auto simp: sum_defs is_inflow_def amount_def)
qed

end
