(* ===== verification/Address.thy ===== *)
theory Address
  imports Params
begin

text \<open>
  \<open>src/crates/core/src/address.rs\<close>: the canonical address \<open>dapp_id::account_id\<close>, its two accepted
  spellings, the boundaries it crosses (command line, files, chain parameters) and the rendering of
  addresses for output. The chain SDK's own \<open>Address::parse\<close> is a parameter of
  \<open>parse_chain_address\<close>. The lemmas show that whatever the client prints or writes it also reads
  back as the same account.
\<close>

section \<open>Parsing\<close>

definition DEXDO_DAPP_ID :: string where
  "DEXDO_DAPP_ID = ''0000000000000000000000000000000000000000000000000000000000000004''"

definition is_ascii_hexdigit :: "char \<Rightarrow> bool" where
  "is_ascii_hexdigit c =
    (let n = (of_char c :: nat) in
     (48 \<le> n \<and> n \<le> 57) \<or> (65 \<le> n \<and> n \<le> 70) \<or> (97 \<le> n \<and> n \<le> 102))"

definition is_hex64 :: "string \<Rightarrow> bool" where
  "is_hex64 s \<longleftrightarrow> length s = 64 \<and> list_all is_ascii_hexdigit s"

text \<open>\<open>str::strip_prefix\<close>, \<open>str::split_once\<close> and \<open>str::contains\<close>.\<close>

definition strip_prefix :: "string \<Rightarrow> string \<Rightarrow> string option" where
  "strip_prefix pat s = (if take (length pat) s = pat then Some (drop (length pat) s) else None)"

fun split_once :: "string \<Rightarrow> string \<Rightarrow> (string \<times> string) option" where
  "split_once pat s =
    (case strip_prefix pat s of
       Some rest \<Rightarrow> Some ([], rest)
     | None \<Rightarrow> (case s of
         [] \<Rightarrow> None
       | c # cs \<Rightarrow> map_option (\<lambda>(a, b). (c # a, b)) (split_once pat cs)))"

declare split_once.simps [simp del]

definition str_contains :: "string \<Rightarrow> string \<Rightarrow> bool" where
  "str_contains pat s \<longleftrightarrow> split_once pat s \<noteq> None"

record CanonicalAddress =
  ca_dapp_id :: string
  ca_account_id :: string

datatype address_error =
    CanonicalHalves string | LegacyAccount string | NotAnAddress string
  | DappForWorkchain string string | DappAndBadAccount string string

definition parse_address :: "string \<Rightarrow> address_error + CanonicalAddress" where
  "parse_address raw =
    (let s = trim raw in
     case split_once ''::'' s of
       Some (d, a) \<Rightarrow>
         (let dapp_id = trim d; account_id = trim a in
          refuse_if (\<not> is_hex64 dapp_id \<or> \<not> is_hex64 account_id) (CanonicalHalves s)
          (Inr \<lparr>ca_dapp_id = to_ascii_lowercase dapp_id,
                ca_account_id = to_ascii_lowercase account_id\<rparr>))
     | None \<Rightarrow>
         (case strip_prefix ''0:'' s of
            Some account_id \<Rightarrow>
              refuse_if (\<not> is_hex64 account_id) (LegacyAccount s)
              (Inr \<lparr>ca_dapp_id = DEXDO_DAPP_ID, ca_account_id = to_ascii_lowercase account_id\<rparr>)
          | None \<Rightarrow> Inl (NotAnAddress s)))"

definition legacy :: "CanonicalAddress \<Rightarrow> string" where
  "legacy a = ''0:'' @ ca_account_id a"

definition show_address :: "CanonicalAddress \<Rightarrow> string" where
  "show_address a = ca_dapp_id a @ ''::'' @ ca_account_id a"

section \<open>Boundaries\<close>

definition to_canonical :: "string \<Rightarrow> address_error + string" where
  "to_canonical s = bindR (parse_address s) (\<lambda>a. Inr (show_address a))"

definition to_chain_param :: "string \<Rightarrow> address_error + string" where
  "to_chain_param s = bindR (parse_address s) (\<lambda>a. Inr (legacy a))"

definition arg_to_chain_param :: "string \<Rightarrow> address_error + string" where
  "arg_to_chain_param raw0 =
    (let raw = trim raw0 in
     if str_contains ''::'' raw then to_chain_param raw
     else case split_once '':'' raw of
       Some (f, r) \<Rightarrow>
         (let first = trim f; rest = trim r in
          if is_hex64 first
          then (if \<not> is_hex64 rest then Inl (DappAndBadAccount first rest)
                else Inl (DappForWorkchain first rest))
          else Inr raw)
     | None \<Rightarrow> Inr raw)"

definition to_dapp_id_param :: "string \<Rightarrow> string" where
  "to_dapp_id_param dapp_id = ''0x'' @ trim_start_matches ''0x'' dapp_id"

definition display :: "string \<Rightarrow> string" where
  "display s = (case parse_address s of Inr a \<Rightarrow> show_address a | Inl _ \<Rightarrow> trim s)"

definition display_self_dapp :: "string \<Rightarrow> string" where
  "display_self_dapp s =
    (let raw = trim s in
     case parse_address raw of
       Inr a \<Rightarrow> if str_contains ''::'' raw then show_address a
                 else ca_account_id a @ ''::'' @ ca_account_id a
     | Inl _ \<Rightarrow> raw)"

definition display_opt :: "string option \<Rightarrow> string \<Rightarrow> string" where
  "display_opt s placeholder = (case s of None \<Rightarrow> placeholder | Some v \<Rightarrow> display v)"

definition display_self_dapp_opt :: "string option \<Rightarrow> string \<Rightarrow> string" where
  "display_self_dapp_opt s placeholder =
    (case s of None \<Rightarrow> placeholder | Some v \<Rightarrow> display_self_dapp v)"

text \<open>
  A chain address keeps the DApp id its input named. The SDK's address type is \<^typ>\<open>'a\<close>, its parser
  the parameter \<open>sdk_parse\<close>.
\<close>

record 'a ChainAddress =
  cha_dapp_id :: "string option"
  cha_chain :: 'a

datatype chain_address_error = BadCanonical address_error | SdkRefused

definition parse_chain_address ::
  "(string \<Rightarrow> 'a option) \<Rightarrow> string \<Rightarrow> chain_address_error + 'a ChainAddress" where
  "parse_chain_address sdk_parse s0 =
    (let s = trim s0 in
     if str_contains ''::'' s then
       bindR (map_err BadCanonical (parse_address s)) (\<lambda>canonical.
       ok_or_else (sdk_parse (legacy canonical)) SdkRefused (\<lambda>chain.
       Inr \<lparr>cha_dapp_id = Some (ca_dapp_id canonical), cha_chain = chain\<rparr>))
     else ok_or_else (sdk_parse s) SdkRefused (\<lambda>chain.
       Inr \<lparr>cha_dapp_id = None, cha_chain = chain\<rparr>))"

definition show_chain_address :: "('a \<Rightarrow> string) \<Rightarrow> 'a ChainAddress \<Rightarrow> string" where
  "show_chain_address bare a =
    (case cha_dapp_id a of
       Some d \<Rightarrow> d @ ''::'' @ bare (cha_chain a)
     | None \<Rightarrow> ''0:'' @ bare (cha_chain a))"

text \<open>Address fields of a file: what is written and what a read keeps in memory.\<close>

definition read_address_field :: "string \<Rightarrow> string" where
  "read_address_field raw = (case parse_address raw of Inr a \<Rightarrow> legacy a | Inl _ \<Rightarrow> raw)"

definition write_canonical :: "string \<Rightarrow> string" where
  "write_canonical v = display v"

definition write_self_dapp :: "string \<Rightarrow> string" where
  "write_self_dapp v = display_self_dapp v"

definition write_canonical_opt :: "string option \<Rightarrow> string option" where
  "write_canonical_opt = map_option display"

definition read_address_opt :: "string option \<Rightarrow> string option" where
  "read_address_opt = map_option read_address_field"

definition write_self_dapp_opt :: "string option \<Rightarrow> string option" where
  "write_self_dapp_opt = map_option display_self_dapp"

definition write_self_dapp_vec :: "string list \<Rightarrow> string list" where
  "write_self_dapp_vec = map display_self_dapp"

definition read_self_dapp_vec :: "string list \<Rightarrow> string list" where
  "read_self_dapp_vec = map read_address_field"

section \<open>Strings of hex digits\<close>

lemma hexdigit_plain:
  assumes "is_ascii_hexdigit c"
  shows "c \<noteq> CHR '':''" and "\<not> is_ascii_space c"
  using assms by (auto simp: is_ascii_hexdigit_def is_ascii_space_def Let_def)

lemma of_char_lower:
  "(of_char (ascii_lower c) :: nat) =
    (let n = (of_char c :: nat) in if 65 \<le> n \<and> n \<le> 90 then n + 32 else n)"
proof -
  have "(of_char c :: nat) < 256" by simp
  then show ?thesis by (simp add: ascii_lower_def Let_def of_char_of take_bit_eq_mod)
qed

lemma hexdigit_lower: "is_ascii_hexdigit c \<Longrightarrow> is_ascii_hexdigit (ascii_lower c)"
  by (auto simp: is_ascii_hexdigit_def of_char_lower Let_def)

lemma lower_lower [simp]: "to_ascii_lowercase (to_ascii_lowercase s) = to_ascii_lowercase s"
proof -
  have "ascii_lower (ascii_lower c) = ascii_lower c" for c
    by (auto simp: ascii_lower_def [of "ascii_lower c"] of_char_lower Let_def)
  then show ?thesis by (simp add: to_ascii_lowercase_def)
qed

lemma hex64_lower [simp]: "is_hex64 s \<Longrightarrow> is_hex64 (to_ascii_lowercase s)"
  by (auto simp: is_hex64_def to_ascii_lowercase_def list_all_iff hexdigit_lower)

lemma hex64_no_colon: "is_hex64 s \<Longrightarrow> CHR '':'' \<notin> set s"
  using hexdigit_plain(1) by (auto simp: is_hex64_def list_all_iff)

lemma hex64_dexdo: "is_hex64 DEXDO_DAPP_ID" and lower_dexdo: "to_ascii_lowercase DEXDO_DAPP_ID = DEXDO_DAPP_ID"
  by (simp_all add: is_hex64_def DEXDO_DAPP_ID_def is_ascii_hexdigit_def to_ascii_lowercase_def
      ascii_lower_def)

lemma hex64_ends:
  assumes "is_hex64 s"
  shows "s \<noteq> []" "\<not> is_ascii_space (hd s)" "\<not> is_ascii_space (last s)"
proof -
  show ne: "s \<noteq> []" using assms by (auto simp: is_hex64_def)
  then have "hd s \<in> set s" and "last s \<in> set s" by simp_all
  then show "\<not> is_ascii_space (hd s)" "\<not> is_ascii_space (last s)"
    using assms hexdigit_plain(2) by (auto simp: is_hex64_def list_all_iff)
qed

lemma hex64_trim: "is_hex64 s \<Longrightarrow> trim s = s"
  using hex64_ends by (intro trim_fixed)

lemma trim_joined:
  assumes "a \<noteq> []" "b \<noteq> []" "\<not> is_ascii_space (hd a)" "\<not> is_ascii_space (last b)"
  shows "trim (a @ b) = a @ b"
  using assms by (intro trim_fixed) auto

lemma trim_trim [simp]: "trim (trim s) = trim s"
proof (cases "trim s = []")
  case False
  define t where "t = dropWhile is_ascii_space s"
  have ts: "trim s = rev (dropWhile is_ascii_space (rev t))" by (simp add: trim_def t_def)
  have t: "t = trim s @ rev (takeWhile is_ascii_space (rev t))"
    unfolding ts by (metis rev_append rev_rev_ident takeWhile_dropWhile_id)
  then have "t \<noteq> []" and "hd t = hd (trim s)" using False by (auto simp: hd_append) (metis hd_append)
  then have "\<not> is_ascii_space (hd (trim s))" using hd_dropWhile [of is_ascii_space s] by (simp add: t_def)
  moreover have "\<not> is_ascii_space (last (trim s))"
    using False hd_dropWhile [of is_ascii_space "rev t"] by (simp add: ts last_rev)
  ultimately show ?thesis using False by (intro trim_fixed)
next
  case True
  then show ?thesis by (simp only: True) (simp add: trim_def)
qed

section \<open>Splitting\<close>

lemma strip_prefix_Some: "strip_prefix pat s = Some r \<longleftrightarrow> s = pat @ r"
  by (auto simp: strip_prefix_def) (metis append_take_drop_id)

lemma split_once_Some: "split_once pat s = Some (a, b) \<Longrightarrow> s = a @ pat @ b"
proof (induction s arbitrary: a b)
  case (Cons c s)
  then show ?case
    by (subst (asm) split_once.simps) (auto simp: strip_prefix_Some split: option.splits)
qed (subst (asm) split_once.simps, auto simp: strip_prefix_Some split: option.splits)

lemma split_once_first:
  assumes "CHR '':'' \<notin> set a"
  shows "split_once (CHR '':'' # pat) (a @ CHR '':'' # pat @ b) = Some (a, b)"
  using assms
proof (induction a)
  case Nil
  show ?case by (subst split_once.simps) (simp add: strip_prefix_def)
next
  case (Cons c a)
  then show ?case by (subst split_once.simps) (auto simp: strip_prefix_def)
qed

lemma split_once_canonical:
  "CHR '':'' \<notin> set a \<Longrightarrow> split_once ''::'' (a @ ''::'' @ b) = Some (a, b)"
  using split_once_first [of a "'':''" b] by simp

lemma legacy_not_canonical: "CHR '':'' \<notin> set a \<Longrightarrow> split_once ''::'' (''0:'' @ a) = None"
proof (rule ccontr)
  assume a: "CHR '':'' \<notin> set a" and "split_once ''::'' (''0:'' @ a) \<noteq> None"
  then obtain x y where "''0:'' @ a = x @ ''::'' @ y" by (auto dest: split_once_Some)
  then have "count_list (''0:'' @ a) CHR '':'' = count_list (x @ ''::'' @ y) CHR '':''" by simp
  then show False using a by simp
qed

section \<open>Round trips\<close>

definition wf_address :: "CanonicalAddress \<Rightarrow> bool" where
  "wf_address a \<longleftrightarrow> is_hex64 (ca_dapp_id a) \<and> is_hex64 (ca_account_id a)
    \<and> to_ascii_lowercase (ca_dapp_id a) = ca_dapp_id a
    \<and> to_ascii_lowercase (ca_account_id a) = ca_account_id a"

lemma parse_wf: "parse_address s = Inr a \<Longrightarrow> wf_address a"
  by (auto simp: parse_address_def wf_address_def Let_def result_simps hex64_dexdo lower_dexdo
      split: option.splits)

lemma parse_show:
  assumes "wf_address a"
  shows "parse_address (show_address a) = Inr a"
proof -
  have d: "is_hex64 (ca_dapp_id a)" "is_hex64 (ca_account_id a)" using assms by (simp_all add: wf_address_def)
  have "trim (show_address a) = show_address a"
    unfolding show_address_def by (rule trim_joined) (use hex64_ends [OF d(1)] hex64_ends [OF d(2)] in simp_all)
  then show ?thesis
    using assms d split_once_canonical [OF hex64_no_colon [OF d(1)], of "ca_account_id a"]
    by (simp add: parse_address_def show_address_def hex64_trim wf_address_def)
qed

lemma trim_legacy: "is_hex64 (ca_account_id a) \<Longrightarrow> trim (legacy a) = legacy a"
  unfolding legacy_def by (rule trim_joined) (use hex64_ends in \<open>simp_all add: is_ascii_space_def\<close>)

lemma parse_legacy:
  assumes "wf_address a"
  shows "parse_address (legacy a) = Inr (a\<lparr>ca_dapp_id := DEXDO_DAPP_ID\<rparr>)"
proof -
  have d: "is_hex64 (ca_account_id a)" using assms by (simp add: wf_address_def)
  then show ?thesis
    using assms legacy_not_canonical [OF hex64_no_colon [OF d]] trim_legacy [OF d]
    by (simp add: parse_address_def legacy_def strip_prefix_def wf_address_def)
qed

lemma contains_show: "wf_address a \<Longrightarrow> str_contains ''::'' (show_address a)"
  using split_once_canonical hex64_no_colon by (simp add: str_contains_def show_address_def wf_address_def)

lemma trim_show: "wf_address a \<Longrightarrow> trim (show_address a) = show_address a"
  using parse_show [of a] hex64_ends
  by (simp add: show_address_def wf_address_def trim_joined)

lemma parse_trim: "parse_address (trim s) = parse_address s"
  by (simp add: parse_address_def)

lemma read_show: "wf_address a \<Longrightarrow> read_address_field (show_address a) = legacy a"
  by (simp add: read_address_field_def parse_show)

text \<open>
  Every spelling of an address that is accepted names one account on every boundary: the canonical
  rendering is well formed, parses back to the same address, is left alone by a second
  normalization, and pasting it on the command line gives the same chain parameter as the original
  spelling, which itself parses to the same account.
\<close>

theorem address_round_trips:
  assumes "parse_address s = Inr a"
  shows "is_hex64 (ca_dapp_id a) \<and> is_hex64 (ca_account_id a)
    \<and> to_canonical s = Inr (show_address a) \<and> to_canonical (show_address a) = Inr (show_address a)
    \<and> parse_address (show_address a) = Inr a \<and> display (show_address a) = show_address a
    \<and> to_chain_param s = Inr (legacy a) \<and> arg_to_chain_param (show_address a) = Inr (legacy a)
    \<and> arg_to_chain_param (legacy a) = Inr (legacy a) \<and> to_chain_param (legacy a) = Inr (legacy a)"
proof -
  have wf: "wf_address a" using parse_wf [OF assms] .
  then have d: "is_hex64 (ca_account_id a)" by (simp add: wf_address_def)
  have "\<not> str_contains ''::'' (legacy a)"
    using legacy_not_canonical [OF hex64_no_colon [OF d]] by (simp add: str_contains_def legacy_def)
  moreover have "split_once '':'' (legacy a) = Some (''0'', ca_account_id a)"
    using split_once_first [of "''0''" "[]" "ca_account_id a"] by (simp add: legacy_def)
  moreover have "\<not> is_hex64 (trim ''0'')" by (simp add: is_hex64_def trim_def is_ascii_space_def)
  ultimately have "arg_to_chain_param (legacy a) = Inr (legacy a)"
    by (simp add: arg_to_chain_param_def trim_legacy [OF d])
  then show ?thesis
    using assms wf parse_legacy [OF wf]
    by (simp add: wf_address_def to_canonical_def parse_show display_def to_chain_param_def
        arg_to_chain_param_def trim_show contains_show legacy_def)
qed

theorem address_round_trips_witness:
  "to_chain_param (''  0:'' @ replicate 64 (CHR ''A'')) = Inr (''0:'' @ replicate 64 (CHR ''a''))"
proof -
  have "parse_address (''  0:'' @ replicate 64 (CHR ''A''))
      = Inr \<lparr>ca_dapp_id = DEXDO_DAPP_ID, ca_account_id = replicate 64 (CHR ''a'')\<rparr>"
    by code_simp
  from address_round_trips [OF this] show ?thesis by (simp add: legacy_def)
qed

lemma read_write_self:
  "read_address_field (write_self_dapp v) = (case parse_address v of Inr a \<Rightarrow> legacy a | Inl _ \<Rightarrow> trim v)"
proof (cases "parse_address v")
  case (Inr a)
  have "wf_address \<lparr>ca_dapp_id = ca_account_id a, ca_account_id = ca_account_id a\<rparr>"
    using parse_wf [OF Inr] by (simp add: wf_address_def)
  from read_show [OF this] show ?thesis
    using Inr read_show [OF parse_wf [OF Inr]]
    by (simp add: write_self_dapp_def display_self_dapp_def parse_trim show_address_def legacy_def)
qed (simp add: write_self_dapp_def display_self_dapp_def parse_trim read_address_field_def)

lemma read_write_canonical:
  "read_address_field (write_canonical v) = (case parse_address v of Inr a \<Rightarrow> legacy a | Inl _ \<Rightarrow> trim v)"
proof (cases "parse_address v")
  case (Inr a)
  then show ?thesis using read_show [OF parse_wf [OF Inr]] by (simp add: write_canonical_def display_def)
qed (simp add: write_canonical_def display_def parse_trim read_address_field_def)

text \<open>
  A file keeps the account of a token contract: a self-DApp address in its workchain form is written
  as \<open>account::account\<close> and read back as itself, in an optional field and in a list too; and whatever
  text a field holds, one trip through the file reaches a fixed point, so a rewrite never drifts.
\<close>

theorem address_field_round_trips:
  "(\<forall>acc. is_hex64 acc \<longrightarrow> to_ascii_lowercase acc = acc \<longrightarrow>
      write_self_dapp (''0:'' @ acc) = acc @ ''::'' @ acc
      \<and> read_address_field (write_self_dapp (''0:'' @ acc)) = ''0:'' @ acc
      \<and> read_address_field (write_canonical (''0:'' @ acc)) = ''0:'' @ acc)
    \<and> (let trip = read_address_field \<circ> write_self_dapp; trip' = read_address_field \<circ> write_canonical in
       trip (trip v) = trip v \<and> trip' (trip' v) = trip' v \<and> trip v = trip' v
       \<and> read_self_dapp_vec (write_self_dapp_vec vs) = map trip vs
       \<and> read_address_opt (write_self_dapp_opt o1) = map_option trip o1
       \<and> read_address_opt (write_canonical_opt o1) = map_option trip' o1)"
proof -
  have fixed: "(case parse_address w of Inr a \<Rightarrow> legacy a | Inl _ \<Rightarrow> trim w) = w"
    if "w = (case parse_address v of Inr a \<Rightarrow> legacy a | Inl _ \<Rightarrow> trim v)" for v w
    using that parse_wf [of v] parse_legacy
    by (auto simp: parse_trim legacy_def split: sum.splits)
  have "write_self_dapp (''0:'' @ acc) = acc @ ''::'' @ acc
      \<and> read_address_field (write_self_dapp (''0:'' @ acc)) = ''0:'' @ acc
      \<and> read_address_field (write_canonical (''0:'' @ acc)) = ''0:'' @ acc"
    if acc: "is_hex64 acc" "to_ascii_lowercase acc = acc" for acc
  proof -
    let ?a = "\<lparr>ca_dapp_id = acc, ca_account_id = acc\<rparr>"
    have wf: "wf_address ?a" using acc by (simp add: wf_address_def)
    have "\<not> str_contains ''::'' (''0:'' @ acc)"
      using legacy_not_canonical [OF hex64_no_colon [OF acc(1)]] by (simp add: str_contains_def)
    then show ?thesis
      using parse_legacy [OF wf] trim_legacy [of ?a] acc read_show [OF wf, unfolded show_address_def]
      by (simp add: read_write_self read_write_canonical legacy_def write_self_dapp_def display_self_dapp_def)
  qed
  moreover have "let trip = read_address_field \<circ> write_self_dapp; trip' = read_address_field \<circ> write_canonical in
       trip (trip v) = trip v \<and> trip' (trip' v) = trip' v \<and> trip v = trip' v
       \<and> read_self_dapp_vec (write_self_dapp_vec vs) = map trip vs
       \<and> read_address_opt (write_self_dapp_opt o1) = map_option trip o1
       \<and> read_address_opt (write_canonical_opt o1) = map_option trip' o1"
    unfolding Let_def
    by (simp add: read_write_self read_write_canonical fixed read_self_dapp_vec_def write_self_dapp_vec_def
        read_address_opt_def write_self_dapp_opt_def write_canonical_opt_def option.map_comp comp_def
        flip: write_self_dapp_def write_canonical_def)
  ultimately show ?thesis by blast
qed

theorem address_field_round_trips_witness:
  "read_address_field (write_self_dapp (''0:'' @ replicate 64 (CHR ''7''))) = ''0:'' @ replicate 64 (CHR ''7'')"
proof -
  have "is_hex64 (replicate 64 (CHR ''7''))" and
    "to_ascii_lowercase (replicate 64 (CHR ''7'')) = replicate 64 (CHR ''7'')"
    by code_simp+
  with address_field_round_trips show ?thesis by blast
qed

end
