(* ===== verification/Capacity.thy ===== *)
theory Capacity
  imports Address MarketTypes
begin

text \<open>
  \<open>src/crates/dexdo/src/seller/capacity.rs\<close>: the crash-safe delivery capacity of one funded token
  contract. The chain owns the funded total, the current cap and the claimed high-water; the gateway
  keeps the delivery debt the chain cannot know yet, in memory and in one JSON file per deal.

  \<^item> The \<open>Arc\<close>s of the source are indices into a heap of cells, so a reservation keeps pointing at its
    cell after the deal has left the map of entries.
  \<^item> Every operation that writes takes the outcome of its write: success, a failure before the file
    was replaced, or a failure of the directory sync after it was replaced. An error leaves in memory
    and on disk exactly what the source leaves there. The locks make each operation atomic; a
    poisoned lock is not modelled.
  \<^item> The JSON text codec is a pair of parameters; the fields of the record and their encodings are
    those of the source.
\<close>

section \<open>Records\<close>

definition CAPACITY_RECORD_VERSION :: u32 where "CAPACITY_RECORD_VERSION = 1"
definition CAPACITY_PERSIST_TOKEN_INTERVAL :: u128 where "CAPACITY_PERSIST_TOKEN_INTERVAL = 1000"
definition PROBE_SEED_TOKENS :: u128 where "PROBE_SEED_TOKENS = TICK_SIZE"

record DurableCapacityRecord =
  cr_version :: u32
  cr_token_contract :: token_contract
  cr_funded_tokens :: u128
  cr_authoritative_cap :: u128
  cr_tokens_pending_anchor :: u128
  cr_local_delivered_after_anchor :: u128
  cr_outstanding_reservation :: u128

record CapacitySnapshot =
  cs_funded_tokens :: u128
  cs_authoritative_cap :: u128
  cs_tokens_pending_anchor :: u128
  cs_local_delivered_after_anchor :: u128
  cs_outstanding_reservation :: u128

definition capacity_snapshot_of :: "DurableCapacityRecord \<Rightarrow> CapacitySnapshot" where
  "capacity_snapshot_of r =
    \<lparr>cs_funded_tokens = cr_funded_tokens r, cs_authoritative_cap = cr_authoritative_cap r,
     cs_tokens_pending_anchor = cr_tokens_pending_anchor r,
     cs_local_delivered_after_anchor = cr_local_delivered_after_anchor r,
     cs_outstanding_reservation = cr_outstanding_reservation r\<rparr>"

datatype capacity_error =
    CommittedOverflow | AlreadyExceeded | WrongVersion | EmptyTokenContract | OverCap | CapOverFunded
  | ContradictoryFlag | ContradictoryOrdinary | NotFundedDeal | DisputedDeal | ProbeWhileClosed
  | ZeroFunded | PendingOverFunded | ProbeBelowTick | PendingBeforeProbe | PendingOverCap
  | WeekCapOverflow | PostTermOverflow | ForeignRecord | TerminalDeal | FundedChanged
  | PendingRegressed | CapRegressed | BeyondLocalDelivery | ReadFailed | EmptyFile | ParseFailed
  | PersistFailed | RemoveFailed | ReservationUnderflow | DeliveredOverflow | DeltaTooWide
  | ZeroDelta | AlreadyFinished | BeyondReservation | BecameTerminal | ReservationOverflow

definition committed :: "CapacitySnapshot \<Rightarrow> capacity_error + u128" where
  "committed s =
    (case Option.bind (checked_add U128_MAX (cs_tokens_pending_anchor s) (cs_local_delivered_after_anchor s))
            (\<lambda>v. checked_add U128_MAX v (cs_outstanding_reservation s)) of
       None \<Rightarrow> Inl CommittedOverflow | Some v \<Rightarrow> Inr v)"

definition available :: "CapacitySnapshot \<Rightarrow> capacity_error + u128" where
  "available s =
    bindR (committed s) (\<lambda>c. ok_or_else (checked_sub (cs_authoritative_cap s) c) AlreadyExceeded Inr)"

definition validate_record :: "DurableCapacityRecord \<Rightarrow> capacity_error + unit" where
  "validate_record r =
    refuse_if (cr_version r \<noteq> CAPACITY_RECORD_VERSION) WrongVersion
    (refuse_if (trim (cr_token_contract r) = []) EmptyTokenContract
    (let s = capacity_snapshot_of r in
     bindR (committed s) (\<lambda>c.
     refuse_if (cs_authoritative_cap s < c) OverCap
     (refuse_if (cs_funded_tokens s < cs_authoritative_cap s) CapOverFunded (Inr ())))))"

section \<open>The shape of a live deal\<close>

definition authoritative_cap :: "DealChainState \<Rightarrow> DealSubscription \<Rightarrow> capacity_error + u128" where
  "authoritative_cap st deal =
    (if is_subscription deal \<and> sub_weeks deal \<le> sub_week_index deal then Inr (dcs_tokens_pending st)
     else if \<not> dcs_probe_accepted st then Inr (min TICK_SIZE (sub_funded_tokens deal))
     else if \<not> is_subscription deal then Inr (sub_funded_tokens deal)
     else ok_or_else (checked_add U128_MAX (sub_week_base_tokens deal) (sub_tokens_per_week deal))
            WeekCapOverflow (\<lambda>cap. Inr (min cap (sub_funded_tokens deal))))"

definition validate_live_deal_shape :: "DealChainState \<Rightarrow> DealSubscription \<Rightarrow> capacity_error + unit" where
  "validate_live_deal_shape st deal =
    refuse_if (is_subscription deal \<noteq> (sub_deal_flags deal AND SUBSCRIPTION \<noteq> 0)) ContradictoryFlag
    (refuse_if (\<not> is_subscription deal \<and> (sub_week_index deal \<noteq> 0
        \<or> sub_tokens_per_week deal \<noteq> sub_funded_tokens deal \<or> sub_week_base_tokens deal \<noteq> 0))
       ContradictoryOrdinary
    (refuse_if (\<not> dcs_funded st) NotFundedDeal
    (refuse_if (dcs_disputed st) DisputedDeal
    (refuse_if (\<not> dcs_opened st \<and> dcs_probe_accepted st) ProbeWhileClosed
    (refuse_if (sub_funded_tokens deal = 0) ZeroFunded
    (refuse_if (sub_funded_tokens deal < dcs_tokens_pending st) PendingOverFunded
    (bindR (if dcs_probe_accepted st
            then refuse_if (dcs_tokens_pending st < TICK_SIZE) ProbeBelowTick (Inr ())
            else refuse_if (dcs_tokens_pending st \<noteq> 0) PendingBeforeProbe (Inr ())) (\<lambda>_.
     bindR (authoritative_cap st deal) (\<lambda>cap.
     refuse_if (cap < dcs_tokens_pending st) PendingOverCap (Inr ())))))))))) "

section \<open>The file of a deal\<close>

definition serialize_u128 :: "u128 \<Rightarrow> json" where
  "serialize_u128 v = JStr (show_nat v)"

definition deserialize_u128 :: "json \<Rightarrow> u128 option" where
  "deserialize_u128 j = (case j of JStr s \<Rightarrow> parse_uint U128_MAX s | _ \<Rightarrow> None)"

definition CAPACITY_FIELDS :: "string list" where
  "CAPACITY_FIELDS =
    [''version'', ''token_contract'', ''funded_tokens'', ''authoritative_cap'',
     ''tokens_pending_anchor'', ''local_delivered_after_anchor'', ''outstanding_reservation'']"

definition record_to_json :: "DurableCapacityRecord \<Rightarrow> json" where
  "record_to_json r = JObj
    [(''version'', JNum (int (cr_version r))),
     (''token_contract'', JStr (write_self_dapp (cr_token_contract r))),
     (''funded_tokens'', serialize_u128 (cr_funded_tokens r)),
     (''authoritative_cap'', serialize_u128 (cr_authoritative_cap r)),
     (''tokens_pending_anchor'', serialize_u128 (cr_tokens_pending_anchor r)),
     (''local_delivered_after_anchor'', serialize_u128 (cr_local_delivered_after_anchor r)),
     (''outstanding_reservation'', serialize_u128 (cr_outstanding_reservation r))]"

definition record_of_json :: "json \<Rightarrow> DurableCapacityRecord option" where
  "record_of_json j =
    (case j of
       JObj obj \<Rightarrow>
         if \<not> distinct (map fst obj) \<or> set (map fst obj) \<noteq> set CAPACITY_FIELDS then None
         else let num = (\<lambda>f. Option.bind (map_of obj f) deserialize_u128) in
           (case (map_of obj ''version'', map_of obj ''token_contract'', num ''funded_tokens'',
                  num ''authoritative_cap'', num ''tokens_pending_anchor'',
                  num ''local_delivered_after_anchor'', num ''outstanding_reservation'') of
              (Some (JNum v), Some (JStr tc), Some funded, Some cap, Some anchor, Some local, Some out) \<Rightarrow>
                if 0 \<le> v \<and> v \<le> int U32_MAX
                then Some \<lparr>cr_version = nat v, cr_token_contract = read_address_field tc,
                  cr_funded_tokens = funded, cr_authoritative_cap = cap, cr_tokens_pending_anchor = anchor,
                  cr_local_delivered_after_anchor = local, cr_outstanding_reservation = out\<rparr>
                else None
            | _ \<Rightarrow> None)
     | _ \<Rightarrow> None)"

text \<open>The outcome of one durable write, read or removal.\<close>

datatype io = IoOk | IoRefused | IoUnsynced

type_synonym disk = "(string, string) hash_map"

definition is_ascii_alphanumeric :: "char \<Rightarrow> bool" where
  "is_ascii_alphanumeric c =
    (let n = (of_char c :: nat) in
     (48 \<le> n \<and> n \<le> 57) \<or> (65 \<le> n \<and> n \<le> 90) \<or> (97 \<le> n \<and> n \<le> 122))"

definition capacity_path :: "string \<Rightarrow> string \<Rightarrow> string" where
  "capacity_path directory tc =
    directory @ ''/deal-'' @ map (\<lambda>c. if is_ascii_alphanumeric c then ascii_lower c else CHR ''-'') (trim tc)
      @ ''-seller-capacity.json''"

definition load_record ::
  "(string \<Rightarrow> json option) \<Rightarrow> io \<Rightarrow> string \<Rightarrow> disk \<Rightarrow> capacity_error + DurableCapacityRecord option" where
  "load_record of_text i path disk =
    (case hget disk path of
       None \<Rightarrow> Inr None
     | Some bytes \<Rightarrow>
         refuse_if (i \<noteq> IoOk) ReadFailed
         (refuse_if (bytes = []) EmptyFile
         (ok_or_else (Option.bind (of_text bytes) record_of_json) ParseFailed (\<lambda>r. Inr (Some r)))))"

definition persist_candidate ::
  "(json \<Rightarrow> string) \<Rightarrow> io \<Rightarrow> string option \<Rightarrow> DurableCapacityRecord \<Rightarrow> disk \<Rightarrow> disk \<times> (capacity_error + unit)" where
  "persist_candidate to_text i path r disk =
    (case path of
       None \<Rightarrow> (disk, Inr ())
     | Some p \<Rightarrow>
         (case i of
            IoOk \<Rightarrow> (hinsert p (to_text (record_to_json r)) disk, Inr ())
          | IoRefused \<Rightarrow> (disk, Inl PersistFailed)
          | IoUnsynced \<Rightarrow> (hinsert p (to_text (record_to_json r)) disk, Inl PersistFailed)))"

definition remove_if_present :: "io \<Rightarrow> string \<Rightarrow> disk \<Rightarrow> disk \<times> (capacity_error + unit)" where
  "remove_if_present i path disk =
    (if \<not> contains_key disk path then (disk, Inr ())
     else case i of
       IoOk \<Rightarrow> (hremove path disk, Inr ())
     | IoRefused \<Rightarrow> (disk, Inl RemoveFailed)
     | IoUnsynced \<Rightarrow> (hremove path disk, Inl RemoveFailed))"

section \<open>Entries and the manager\<close>

record CapacityEntryState =
  ce_record :: DurableCapacityRecord
  ce_terminal :: bool
  ce_unpersisted_delivered :: u128

record CapacityEntry =
  en_path :: "string option"
  en_state :: CapacityEntryState

record CapacityManager =
  cm_store_dir :: "string option"
  cm_entries :: "(token_contract, nat) hash_map"
  cm_cells :: "CapacityEntry list"
  cm_disk :: disk

definition in_memory :: "disk \<Rightarrow> CapacityManager" where
  "in_memory d = \<lparr>cm_store_dir = None, cm_entries = [], cm_cells = [], cm_disk = d\<rparr>"

definition in_deals_dir :: "string \<Rightarrow> disk \<Rightarrow> CapacityManager" where
  "in_deals_dir deals_dir d =
    \<lparr>cm_store_dir = Some (deals_dir @ ''/seller-capacity''), cm_entries = [], cm_cells = [], cm_disk = d\<rparr>"

definition entry_at :: "CapacityManager \<Rightarrow> nat \<Rightarrow> CapacityEntry" where
  "entry_at m i = cm_cells m ! i"

definition set_state :: "nat \<Rightarrow> CapacityEntryState \<Rightarrow> disk \<Rightarrow> CapacityManager \<Rightarrow> CapacityManager" where
  "set_state i s d m =
    m\<lparr>cm_cells := (cm_cells m)[i := (entry_at m i)\<lparr>en_state := s\<rparr>], cm_disk := d\<rparr>"

definition flush_delivered ::
  "(json \<Rightarrow> string) \<Rightarrow> io \<Rightarrow> string option \<Rightarrow> CapacityEntryState \<Rightarrow> disk
    \<Rightarrow> CapacityEntryState \<times> disk \<times> (capacity_error + u64)" where
  "flush_delivered to_text i path locked disk =
    (let pending = ce_unpersisted_delivered locked; r = ce_record locked in
     if pending = 0 then (locked, disk, Inr 0)
     else case checked_sub (cr_outstanding_reservation r) pending of
       None \<Rightarrow> (locked, disk, Inl ReservationUnderflow)
     | Some out \<Rightarrow>
         (case checked_add U128_MAX (cr_local_delivered_after_anchor r) pending of
            None \<Rightarrow> (locked, disk, Inl DeliveredOverflow)
          | Some local \<Rightarrow>
              (let candidate = r\<lparr>cr_outstanding_reservation := out, cr_local_delivered_after_anchor := local\<rparr> in
               case validate_record candidate of
                 Inl e \<Rightarrow> (locked, disk, Inl e)
               | Inr _ \<Rightarrow>
                   (case persist_candidate to_text i path candidate disk of
                      (disk', Inl e) \<Rightarrow> (locked, disk', Inl e)
                    | (disk', Inr _) \<Rightarrow>
                        (locked\<lparr>ce_record := candidate, ce_unpersisted_delivered := 0\<rparr>, disk',
                         if pending \<le> U64_MAX then Inr pending else Inl DeltaTooWide)))))"

definition mark_terminal :: "io \<Rightarrow> token_contract \<Rightarrow> CapacityManager \<Rightarrow> CapacityManager \<times> (capacity_error + unit)" where
  "mark_terminal i tc m =
    (let removed = m\<lparr>cm_entries := hremove tc (cm_entries m)\<rparr> in
     case hget (cm_entries m) tc of
       Some k \<Rightarrow>
         (let e = entry_at m k; dead = (en_state e)\<lparr>ce_terminal := True\<rparr> in
          case en_path e of
            None \<Rightarrow> (set_state k dead (cm_disk m) removed, Inr ())
          | Some p \<Rightarrow>
              (case remove_if_present i p (cm_disk m) of
                 (d, r) \<Rightarrow> (set_state k dead d removed, r)))
     | None \<Rightarrow>
         (case cm_store_dir m of
            None \<Rightarrow> (removed, Inr ())
          | Some dir \<Rightarrow>
              (case remove_if_present i (capacity_path dir tc) (cm_disk m) of
                 (d, r) \<Rightarrow> (removed\<lparr>cm_disk := d\<rparr>, r))))"

text \<open>The entry of a deal: the registered one, the one its file records, or a fresh one.\<close>

definition fresh_record :: "token_contract \<Rightarrow> DealChainState \<Rightarrow> DealSubscription \<Rightarrow> u128 \<Rightarrow> DurableCapacityRecord" where
  "fresh_record tc st deal cap =
    \<lparr>cr_version = CAPACITY_RECORD_VERSION, cr_token_contract = tc,
     cr_funded_tokens = sub_funded_tokens deal, cr_authoritative_cap = cap,
     cr_tokens_pending_anchor = dcs_tokens_pending st, cr_local_delivered_after_anchor = 0,
     cr_outstanding_reservation = 0\<rparr>"

definition register_entry ::
  "(string \<Rightarrow> json option) \<Rightarrow> io \<Rightarrow> token_contract \<Rightarrow> DealChainState \<Rightarrow> DealSubscription \<Rightarrow> u128
    \<Rightarrow> CapacityManager \<Rightarrow> capacity_error + CapacityManager \<times> nat" where
  "register_entry of_text i tc st deal cap m =
    (case hget (cm_entries m) tc of
       Some k \<Rightarrow> Inr (m, k)
     | None \<Rightarrow>
         (let path = map_option (\<lambda>dir. capacity_path dir tc) (cm_store_dir m) in
          bindR (case path of
                   None \<Rightarrow> Inr None
                 | Some p \<Rightarrow> load_record of_text i p (cm_disk m)) (\<lambda>loaded.
          bindR (case loaded of
                   None \<Rightarrow> Inr (fresh_record tc st deal cap)
                 | Some r \<Rightarrow>
                     bindR (validate_record r) (\<lambda>_.
                     refuse_if (cr_token_contract r \<noteq> tc) ForeignRecord (Inr r))) (\<lambda>r.
          let k = length (cm_cells m);
              e = \<lparr>en_path = path, en_state =
                    \<lparr>ce_record = r, ce_terminal = False, ce_unpersisted_delivered = 0\<rparr>\<rparr> in
          Inr (m\<lparr>cm_cells := cm_cells m @ [e], cm_entries := hinsert tc k (cm_entries m)\<rparr>, k)))))"

text \<open>The record a strict chain read turns the old one into.\<close>

definition refreshed_record ::
  "token_contract \<Rightarrow> DealChainState \<Rightarrow> DealSubscription \<Rightarrow> u128 \<Rightarrow> DurableCapacityRecord
    \<Rightarrow> capacity_error + DurableCapacityRecord" where
  "refreshed_record tc st deal cap old =
    (let term_ended = (is_subscription deal \<and> sub_weeks deal \<le> sub_week_index deal) in
     refuse_if (cr_funded_tokens old \<noteq> sub_funded_tokens deal) FundedChanged
     (refuse_if (dcs_tokens_pending st < cr_tokens_pending_anchor old) PendingRegressed
     (refuse_if (cap < cr_authoritative_cap old \<and> \<not> term_ended) CapRegressed
     (let acknowledged = dcs_tokens_pending st - cr_tokens_pending_anchor old;
          probe_seed = (if dcs_probe_accepted st \<and> cr_tokens_pending_anchor old = 0
                        then min PROBE_SEED_TOKENS acknowledged else 0);
          backed_by_delivery = acknowledged - probe_seed in
      refuse_if (cr_local_delivered_after_anchor old < backed_by_delivery \<and> \<not> term_ended) BeyondLocalDelivery
      (let local = saturating_sub (cr_local_delivered_after_anchor old) acknowledged in
       bindR (if term_ended
              then (case Option.bind (checked_add U128_MAX (dcs_tokens_pending st) local)
                           (\<lambda>v. checked_add U128_MAX v (cr_outstanding_reservation old)) of
                      None \<Rightarrow> Inl PostTermOverflow | Some v \<Rightarrow> Inr v)
              else Inr cap) (\<lambda>cap'.
       let candidate =
         \<lparr>cr_version = CAPACITY_RECORD_VERSION, cr_token_contract = tc,
          cr_funded_tokens = sub_funded_tokens deal, cr_authoritative_cap = cap',
          cr_tokens_pending_anchor = dcs_tokens_pending st, cr_local_delivered_after_anchor = local,
          cr_outstanding_reservation = cr_outstanding_reservation old\<rparr> in
       bindR (validate_record candidate) (\<lambda>_. Inr candidate)))))))"

definition reconcile_deal ::
  "(json \<Rightarrow> string) \<Rightarrow> (string \<Rightarrow> json option) \<Rightarrow> io \<Rightarrow> io \<Rightarrow> token_contract \<Rightarrow> DealChainState
    \<Rightarrow> DealSubscription \<Rightarrow> CapacityManager
    \<Rightarrow> CapacityManager \<times> (capacity_error + CapacitySnapshot option)" where
  "reconcile_deal to_text of_text io_r io_w tc st deal m =
    (if is_stopped st then
       (case mark_terminal io_w tc m of
          (m', Inl e) \<Rightarrow> (m', Inl e) | (m', Inr _) \<Rightarrow> (m', Inr None))
     else
       case bindR (validate_live_deal_shape st deal) (\<lambda>_. authoritative_cap st deal) of
         Inl e \<Rightarrow> (m, Inl e)
       | Inr cap \<Rightarrow>
           (case register_entry of_text io_r tc st deal cap m of
              Inl e \<Rightarrow> (m, Inl e)
            | Inr (m1, k) \<Rightarrow>
                (let locked = en_state (entry_at m1 k) in
                 if ce_terminal locked then (m1, Inl TerminalDeal)
                 else case refreshed_record tc st deal cap (ce_record locked) of
                   Inl e \<Rightarrow> (m1, Inl e)
                 | Inr candidate \<Rightarrow>
                     if candidate = ce_record locked
                     then (m1, Inr (Some (capacity_snapshot_of candidate)))
                     else (case persist_candidate to_text io_w (en_path (entry_at m1 k)) candidate (cm_disk m1) of
                             (d, Inl e) \<Rightarrow> (m1\<lparr>cm_disk := d\<rparr>, Inl e)
                           | (d, Inr _) \<Rightarrow>
                               (set_state k (locked\<lparr>ce_record := candidate\<rparr>) d m1,
                                Inr (Some (capacity_snapshot_of candidate)))))))"

section \<open>Reservations\<close>

datatype ReserveError = UnknownDeal | ReserveTerminal | Exhausted | InvalidState capacity_error

record CapacityReservation =
  rs_entry :: nat
  rs_initial :: u128
  rs_remaining :: u128
  rs_finished :: bool

definition reserve ::
  "(json \<Rightarrow> string) \<Rightarrow> io \<Rightarrow> token_contract \<Rightarrow> u64 \<Rightarrow> CapacityManager
    \<Rightarrow> CapacityManager \<times> (ReserveError + CapacityReservation)" where
  "reserve to_text i tc requested m =
    (if requested = 0 then (m, Inl Exhausted)
     else case hget (cm_entries m) tc of
       None \<Rightarrow> (m, Inl UnknownDeal)
     | Some k \<Rightarrow>
         (let locked = en_state (entry_at m k); r = ce_record locked in
          if ce_terminal locked then (m, Inl ReserveTerminal)
          else case bindR (validate_record r) (\<lambda>_. available (capacity_snapshot_of r)) of
            Inl e \<Rightarrow> (m, Inl (InvalidState e))
          | Inr avail \<Rightarrow>
              (let amount = min avail requested in
               if amount = 0 then (m, Inl Exhausted)
               else case checked_add U128_MAX (cr_outstanding_reservation r) amount of
                 None \<Rightarrow> (m, Inl (InvalidState ReservationOverflow))
               | Some out \<Rightarrow>
                   (let candidate = r\<lparr>cr_outstanding_reservation := out\<rparr> in
                    case validate_record candidate of
                      Inl e \<Rightarrow> (m, Inl (InvalidState e))
                    | Inr _ \<Rightarrow>
                        (case persist_candidate to_text i (en_path (entry_at m k)) candidate (cm_disk m) of
                           (d, Inl e) \<Rightarrow> (m\<lparr>cm_disk := d\<rparr>, Inl (InvalidState e))
                         | (d, Inr _) \<Rightarrow>
                             (set_state k (locked\<lparr>ce_unpersisted_delivered := 0, ce_record := candidate\<rparr>) d m,
                              Inr \<lparr>rs_entry = k, rs_initial = amount, rs_remaining = amount,
                                   rs_finished = False\<rparr>))))))"

definition capacity_snapshot :: "token_contract \<Rightarrow> CapacityManager \<Rightarrow> capacity_error + CapacitySnapshot option" where
  "capacity_snapshot tc m =
    (case hget (cm_entries m) tc of
       None \<Rightarrow> Inr None
     | Some k \<Rightarrow>
         (let locked = en_state (entry_at m k) in
          if ce_terminal locked then Inr None
          else bindR (validate_record (ce_record locked)) (\<lambda>_.
               Inr (Some (capacity_snapshot_of (ce_record locked))))))"

definition authorize_exposure :: "u64 \<Rightarrow> CapacityReservation \<Rightarrow> ReserveError + unit" where
  "authorize_exposure min_billable res =
    refuse_if (rs_finished res \<or> rs_remaining res < max min_billable 1) Exhausted (Inr ())"

definition record_delivered ::
  "(json \<Rightarrow> string) \<Rightarrow> io \<Rightarrow> u64 \<Rightarrow> CapacityReservation \<Rightarrow> CapacityManager
    \<Rightarrow> CapacityManager \<times> CapacityReservation \<times> (capacity_error + u64)" where
  "record_delivered to_text i tokens res m =
    (let k = rs_entry res; e = entry_at m k; locked = en_state e in
     if tokens = 0 then (m, res, Inl ZeroDelta)
     else if rs_finished res then (m, res, Inl AlreadyFinished)
     else if rs_remaining res < tokens then (m, res, Inl BeyondReservation)
     else if ce_terminal locked then (m, res, Inl BecameTerminal)
     else case checked_add U128_MAX (ce_unpersisted_delivered locked) tokens of
       None \<Rightarrow> (m, res, Inl DeliveredOverflow)
     | Some unpersisted \<Rightarrow>
         if cr_outstanding_reservation (ce_record locked) < unpersisted
         then (m, res, Inl ReservationUnderflow)
         else
           (let held = locked\<lparr>ce_unpersisted_delivered := unpersisted\<rparr> in
            if CAPACITY_PERSIST_TOKEN_INTERVAL \<le> unpersisted \<or> en_path e = None
            then case flush_delivered to_text i (en_path e) held (cm_disk m) of
                   (held', d, Inl err) \<Rightarrow> (set_state k held' d m, res, Inl err)
                 | (held', d, Inr durable) \<Rightarrow>
                     (set_state k held' d m, res\<lparr>rs_remaining := rs_remaining res - tokens\<rparr>, Inr durable)
            else (set_state k held (cm_disk m) m, res\<lparr>rs_remaining := rs_remaining res - tokens\<rparr>, Inr 0)))"

definition finish_exact ::
  "(json \<Rightarrow> string) \<Rightarrow> io \<Rightarrow> io \<Rightarrow> CapacityReservation \<Rightarrow> CapacityManager
    \<Rightarrow> CapacityManager \<times> CapacityReservation \<times> (capacity_error + u64)" where
  "finish_exact to_text i1 i2 res m =
    (let k = rs_entry res; e = entry_at m k; locked = en_state e;
         done = res\<lparr>rs_finished := True, rs_remaining := 0\<rparr> in
     if rs_finished res then (m, res, Inl AlreadyFinished)
     else if ce_terminal locked then (m, done, Inr 0)
     else case flush_delivered to_text i1 (en_path e) locked (cm_disk m) of
       (l1, d1, Inl err) \<Rightarrow> (set_state k l1 d1 m, res, Inl err)
     | (l1, d1, Inr durable) \<Rightarrow>
         (case checked_sub (cr_outstanding_reservation (ce_record l1)) (rs_remaining res) of
            None \<Rightarrow> (set_state k l1 d1 m, res, Inl ReservationUnderflow)
          | Some out \<Rightarrow>
              (let candidate = (ce_record l1)\<lparr>cr_outstanding_reservation := out\<rparr> in
               case validate_record candidate of
                 Inl err \<Rightarrow> (set_state k l1 d1 m, res, Inl err)
               | Inr _ \<Rightarrow>
                   (case persist_candidate to_text i2 (en_path e) candidate d1 of
                      (d2, Inl err) \<Rightarrow> (set_state k l1 d2 m, res, Inl err)
                    | (d2, Inr _) \<Rightarrow> (set_state k (l1\<lparr>ce_record := candidate\<rparr>) d2 m, done, Inr durable)))))"

definition finish_ambiguous ::
  "(json \<Rightarrow> string) \<Rightarrow> io \<Rightarrow> CapacityReservation \<Rightarrow> CapacityManager
    \<Rightarrow> CapacityManager \<times> CapacityReservation \<times> (capacity_error + u64)" where
  "finish_ambiguous to_text i res m =
    (let k = rs_entry res; e = entry_at m k; locked = en_state e;
         done = res\<lparr>rs_finished := True, rs_remaining := 0\<rparr> in
     if rs_finished res then (m, res, Inl AlreadyFinished)
     else if ce_terminal locked then (m, done, Inr 0)
     else case flush_delivered to_text i (en_path e) locked (cm_disk m) of
       (l1, d1, Inl err) \<Rightarrow> (set_state k l1 d1 m, res, Inl err)
     | (l1, d1, Inr durable) \<Rightarrow> (set_state k l1 d1 m, done, Inr durable))"

end
