(* ===== verification/Relay.thy ===== *)
theory Relay
  imports Capacity
begin

text \<open>
  The seller gateway's relay of one request, \<open>src/crates/dexdo/src/seller/gateway.rs\<close>: upstream chunks
  are forwarded to the buyer and their tokens recorded, either before the chunk (structured accounting) or
  after it (separate usage), and the end of the request is classified. What the loop receives is a list
  of arrivals, in the order in which its selection takes them; the end of the list is the end of the
  upstream. Whether the buyer's stream still takes a chunk is part of the arrival. What it did is a list
  of actions. The recorder is a parameter; the recorder on a capacity reservation is modelled here too.
\<close>

section \<open>The relay\<close>

datatype Finish = Clean | Interrupted | AmbiguousUsage

text \<open>The fields of a chunk that the relay reads; the others ride along in the name of the chunk.\<close>

record CanonChunk =
  ch_name :: string
  ch_text :: string
  ch_reasoning :: string

datatype relay_status =
    ChainUnavailable | EndedWithoutUsage | MixedAccounting | UsageWithoutOutput | Upstream string
  | CountOverflow | CapacityFailed capacity_error | CapacityRefused ReserveError

datatype UpstreamEvent = UpChunk CanonChunk u64 bool | UpAccounted u64 | UpError relay_status

datatype Arrival = ChainLost | ChainNews | Event UpstreamEvent

datatype RelayAction =
    Charged u64
  | Usage u64
  | Forwarded CanonChunk u64
  | Reported relay_status

record 'r DeliveryRecorder =
  rec_deliver :: "u64 \<Rightarrow> 'r \<Rightarrow> 'r \<times> relay_status option"
  rec_finish :: "Finish \<Rightarrow> 'r \<Rightarrow> 'r \<times> relay_status option"
  rec_authorize :: "u64 \<Rightarrow> 'r \<Rightarrow> relay_status option"

record 'r RelayEnd =
  re_finish :: Finish
  re_error :: "relay_status option"
  re_recorder :: 'r
  re_actions :: "RelayAction list"

definition cut_short :: "bool \<Rightarrow> Finish" where
  "cut_short awaiting_usage = (if awaiting_usage then AmbiguousUsage else Interrupted)"

definition has_output :: "CanonChunk \<Rightarrow> bool" where
  "has_output c \<longleftrightarrow> ch_text c \<noteq> [] \<or> ch_reasoning c \<noteq> []"

definition stops :: "Finish \<Rightarrow> relay_status option \<Rightarrow> 'r \<Rightarrow> RelayAction list \<Rightarrow> 'r RelayEnd" where
  "stops finish err r actions = \<lparr> re_finish = finish, re_error = err, re_recorder = r, re_actions = actions \<rparr>"

definition after_actions :: "RelayAction list \<Rightarrow> 'r RelayEnd \<Rightarrow> 'r RelayEnd" where
  "after_actions actions e = e \<lparr> re_actions := actions @ re_actions e \<rparr>"

text \<open>
  The loop. \<open>awaiting\<close> says that output went out whose count is still to come; \<open>charged\<close> is the largest
  count charged for one run of such output; \<open>report\<close> says that upstream failures are reported.
\<close>

fun relay_loop ::
  "'r DeliveryRecorder \<Rightarrow> bool \<Rightarrow> Arrival list \<Rightarrow> bool \<Rightarrow> u64 \<Rightarrow> 'r \<Rightarrow> 'r RelayEnd" where
  "relay_loop rec report [] awaiting charged r =
    (if awaiting then stops AmbiguousUsage (Some EndedWithoutUsage) r [] else stops Clean None r [])"
| "relay_loop rec report (ChainLost # as) awaiting charged r =
    stops (cut_short awaiting) (Some ChainUnavailable) r []"
| "relay_loop rec report (ChainNews # as) awaiting charged r = relay_loop rec report as awaiting charged r"
| "relay_loop rec report (Event (UpError status) # as) awaiting charged r =
    stops (cut_short awaiting) (Some status) r (if report then [Reported status] else [])"
| "relay_loop rec report (Event (UpAccounted tokens) # as) awaiting charged r =
    (if tokens = 0 \<or> \<not> awaiting then stops (cut_short awaiting) (Some UsageWithoutOutput) r []
     else case rec_deliver rec tokens r of
            (r', Some status) \<Rightarrow> stops AmbiguousUsage (Some status) r' []
          | (r', None) \<Rightarrow>
              after_actions [Usage tokens] (relay_loop rec report as False (max charged tokens) r'))"
| "relay_loop rec report (Event (UpChunk chunk accounted buyer_takes) # as) awaiting charged r =
    (let needs_usage = (accounted = 0 \<and> has_output chunk) in
     if 0 < accounted \<and> awaiting then stops AmbiguousUsage (Some MixedAccounting) r []
     else if needs_usage \<and> rec_authorize rec charged r \<noteq> None
     then stops (cut_short awaiting) (rec_authorize rec charged r) r []
     else if \<not> buyer_takes then stops (cut_short awaiting) None r []
     else if 0 < accounted then
       (case rec_deliver rec accounted r of
          (r', Some status) \<Rightarrow> stops Interrupted (Some status) r' []
        | (r', None) \<Rightarrow>
            after_actions [Charged accounted, Forwarded chunk accounted]
              (relay_loop rec report as awaiting charged r'))
     else after_actions [Forwarded chunk 0] (relay_loop rec report as (awaiting \<or> needs_usage) charged r))"

text \<open>The whole relay: the loop, then exactly one final call of the recorder, then the error, if any.\<close>

definition relay_counting :: "'r DeliveryRecorder \<Rightarrow> bool \<Rightarrow> Arrival list \<Rightarrow> 'r \<Rightarrow> 'r RelayEnd" where
  "relay_counting rec report arrivals r =
    (let e = relay_loop rec report arrivals False 0 r;
         (r', failed) = rec_finish rec (re_finish e) (re_recorder e)
     in e \<lparr> re_recorder := r', re_error := (case re_error e of Some s \<Rightarrow> Some s | None \<Rightarrow> failed) \<rparr>)"

section \<open>The recorders\<close>

definition checked_authoritative_tokens :: "u64 \<Rightarrow> u64 \<Rightarrow> relay_status + u64" where
  "checked_authoritative_tokens count tokens = ok_or_else (checked_add U64_MAX count tokens) CountOverflow Inr"

text \<open>\<open>DealDelivery\<close>: the shared count of the deal.\<close>

definition deal_delivery :: "u64 DeliveryRecorder" where
  "deal_delivery =
    \<lparr> rec_deliver = (\<lambda>tokens count.
        case checked_authoritative_tokens count tokens of Inr next \<Rightarrow> (next, None) | Inl status \<Rightarrow> (count, Some status)),
      rec_finish = (\<lambda>_ count. (count, None)),
      rec_authorize = (\<lambda>_ _. None) \<rparr>"

text \<open>
  \<open>CapacityDeliveryRecorder\<close>: the capacity manager with the reservation of the request and the count of
  the deal. \<open>cd_io\<close> holds the outcomes of the disk operations still to come.
\<close>

record CapacityRecorder =
  cd_manager :: CapacityManager
  cd_reservation :: CapacityReservation
  cd_count :: u64
  cd_io :: "nat \<Rightarrow> io"

definition advance_count :: "u64 \<Rightarrow> CapacityRecorder \<Rightarrow> CapacityRecorder \<times> relay_status option" where
  "advance_count durable r =
    (if durable = 0 then (r, None)
     else case checked_authoritative_tokens (cd_count r) durable of
            Inr next \<Rightarrow> (r \<lparr> cd_count := next \<rparr>, None)
          | Inl status \<Rightarrow> (r, Some status))"

definition settled ::
  "CapacityManager \<times> CapacityReservation \<times> (capacity_error + u64) \<Rightarrow> CapacityRecorder
    \<Rightarrow> CapacityRecorder \<times> relay_status option" where
  "settled result r =
    (case result of (m, res, outcome) \<Rightarrow>
       let r' = r \<lparr> cd_manager := m, cd_reservation := res, cd_io := (\<lambda>n. cd_io r (n + 2)) \<rparr> in
       case outcome of
         Inl e \<Rightarrow> (r', Some (CapacityFailed e))
       | Inr durable \<Rightarrow> advance_count durable r')"

definition capacity_recorder :: "(json \<Rightarrow> string) \<Rightarrow> CapacityRecorder DeliveryRecorder" where
  "capacity_recorder to_text =
    \<lparr> rec_deliver = (\<lambda>tokens r.
        case checked_authoritative_tokens (cd_count r) tokens of
          Inl status \<Rightarrow> (r, Some status)
        | Inr _ \<Rightarrow> settled (record_delivered to_text (cd_io r 0) tokens (cd_reservation r) (cd_manager r)) r),
      rec_finish = (\<lambda>finish r.
        if finish = AmbiguousUsage
        then settled (finish_ambiguous to_text (cd_io r 0) (cd_reservation r) (cd_manager r)) r
        else settled (finish_exact to_text (cd_io r 0) (cd_io r 1) (cd_reservation r) (cd_manager r)) r),
      rec_authorize = (\<lambda>min_billable r.
        case authorize_exposure min_billable (cd_reservation r) of
          Inl e \<Rightarrow> Some (CapacityRefused e) | Inr _ \<Rightarrow> None) \<rparr>"

section \<open>Billing\<close>

text \<open>
  The discipline of a billed request, as an automaton over its actions that remembers whether output is
  out whose count is still to come. A chunk with its own count is charged right before it is forwarded,
  and only when nothing is open; a separate usage closes what is open.
\<close>

fun billing :: "bool \<Rightarrow> RelayAction list \<Rightarrow> bool option" where
  "billing aw [] = Some aw"
| "billing aw (Charged n # Forwarded c m # rest) =
    (if n = m \<and> 0 < n \<and> \<not> aw then billing aw rest else None)"
| "billing aw (Usage n # rest) = (if aw \<and> 0 < n then billing False rest else None)"
| "billing aw (Forwarded c n # rest) = (if n = 0 then billing (aw \<or> has_output c) rest else None)"
| "billing aw (Reported s # rest) = billing aw rest"
| "billing aw (Charged n # rest) = None"

lemma relay_loop_billing:
  "billing awaiting (re_actions (relay_loop rec report as awaiting charged r))
    = Some (re_finish (relay_loop rec report as awaiting charged r) = AmbiguousUsage)"
  by (induction rec report as awaiting charged r rule: relay_loop.induct)
    (auto simp: stops_def cut_short_def after_actions_def Let_def split: prod.splits option.splits)

text \<open>
  C33: The relay classifies a request exactly. Every chunk with its own count is recorded right before it is
  forwarded and at that count; a separate usage is recorded only for output that went out before it; and
  the request ends as ambiguous exactly if some output was forwarded that no recorded count covers.
\<close>

theorem relay_classifies_exactly:
  "billing False (re_actions (relay_counting rec report arrivals r))
    = Some (re_finish (relay_counting rec report arrivals r) = AmbiguousUsage)"
  using relay_loop_billing [of False rec report arrivals 0 r]
  by (simp add: relay_counting_def Let_def split: prod.split)

section \<open>Recorders that keep a count\<close>

fun recorded :: "RelayAction list \<Rightarrow> nat" where
  "recorded [] = 0"
| "recorded (Charged n # as) = n + recorded as"
| "recorded (Usage n # as) = n + recorded as"
| "recorded (a # as) = recorded as"

lemma recorded_append [simp]: "recorded (xs @ ys) = recorded xs + recorded ys"
  by (induction xs rule: recorded.induct) simp_all

text \<open>A recorder whose states are good for a total: accepted deliveries add up, refused ones change nothing.\<close>

locale delivery_recorder =
  fixes rec :: "'r DeliveryRecorder" and good :: "nat \<Rightarrow> 'r \<Rightarrow> bool"
  assumes accepted: "good n r \<Longrightarrow> 0 < k \<Longrightarrow> rec_deliver rec k r = (r', None) \<Longrightarrow> good (n + k) r'"
    and refused: "good n r \<Longrightarrow> 0 < k \<Longrightarrow> rec_deliver rec k r = (r', Some status) \<Longrightarrow> good n r'"
begin

lemma relay_loop_good:
  "good n r \<Longrightarrow> good (n + recorded (re_actions (relay_loop rec report as awaiting charged r)))
    (re_recorder (relay_loop rec report as awaiting charged r))"
proof (induction as arbitrary: n awaiting charged r)
  case Nil
  then show ?case by (simp add: stops_def)
next
  case (Cons a as)
  have step: "good (n + recorded acts) r' \<Longrightarrow>
      good (n + recorded (re_actions (after_actions acts (relay_loop rec report as aw c r'))))
        (re_recorder (after_actions acts (relay_loop rec report as aw c r')))" for acts r' aw c
    using Cons.IH [of "n + recorded acts" r' aw c] by (simp add: after_actions_def add.assoc)
  show ?case
  proof (cases a)
    case (Event e)
    show ?thesis
    proof (cases e)
      case (UpChunk chunk accounted takes)
      then show ?thesis
        using Event Cons.prems step [of "[Forwarded chunk 0]"] step [of "[Charged accounted, Forwarded chunk accounted]"]
          accepted [of n r accounted] refused [of n r accounted]
        by (auto simp: stops_def Let_def split: prod.split option.split)
    next
      case (UpAccounted tokens)
      then show ?thesis
        using Event Cons.prems step [of "[Usage tokens]"] accepted [of n r tokens] refused [of n r tokens]
        by (auto simp: stops_def split: prod.split option.split)
    qed (use Event Cons.prems in \<open>simp add: stops_def\<close>)
  qed (use Cons.prems Cons.IH in \<open>simp_all add: stops_def\<close>)
qed

end

text \<open>The plain recorder counts what was recorded.\<close>

interpretation deal_count: delivery_recorder deal_delivery "\<lambda>n count. count = base + n \<and> count \<le> U64_MAX" for base
  by unfold_locales
    (auto simp: deal_delivery_def checked_authoritative_tokens_def ok_or_else_def split: option.splits)

text \<open>
  With the plain recorder the deal's count is exactly the tokens the relay recorded: the ones charged
  with a chunk and the separate usages, and never beyond \<open>u64\<close>.
\<close>

theorem relay_counts_recorded_tokens:
  assumes "count \<le> U64_MAX"
  shows "re_recorder (relay_counting deal_delivery report arrivals count)
      = count + recorded (re_actions (relay_counting deal_delivery report arrivals count))
    \<and> re_recorder (relay_counting deal_delivery report arrivals count) \<le> U64_MAX"
proof -
  let ?e = "relay_loop deal_delivery report arrivals False 0 count"
  have "re_recorder ?e = count + recorded (re_actions ?e) \<and> re_recorder ?e \<le> U64_MAX"
    using deal_count.relay_loop_good [of count 0 count report arrivals False 0] assms by simp
  moreover have "rec_finish deal_delivery f c = (c, None)" for f c
    by (simp add: deal_delivery_def)
  ultimately show ?thesis by (simp add: relay_counting_def Let_def)
qed

definition sample_chunk :: CanonChunk where
  "sample_chunk = \<lparr> ch_name = ''1'', ch_text = ''hi'', ch_reasoning = [] \<rparr>"

theorem relay_counts_recorded_tokens_witness:
  "re_recorder (relay_counting deal_delivery False
      [Event (UpChunk sample_chunk 3 True), ChainNews, Event (UpChunk sample_chunk 0 True), Event (UpAccounted 4)] 10) = 17"
proof -
  let ?as = "[Event (UpChunk sample_chunk 3 True), ChainNews, Event (UpChunk sample_chunk 0 True), Event (UpAccounted 4)]"
  have "recorded (re_actions (relay_counting deal_delivery False ?as 10)) = 7"
    by (simp add: relay_counting_def deal_delivery_def checked_authoritative_tokens_def checked_add_def MAX_defs
        after_actions_def stops_def sample_chunk_def has_output_def)
  then show ?thesis
    using relay_counts_recorded_tokens [of 10 False ?as] by (simp add: MAX_defs)
qed

end
