(* ===== verification/CapacityLaws.thy ===== *)
theory CapacityLaws
  imports Capacity
begin

text \<open>
  The delivery capacity as a system: the operations of \<open>Capacity\<close> on the manager, the live
  reservations of the gateway, crashes and failing writes in between. The counters \<open>sys_base\<close> and
  \<open>sys_served\<close> are not state of the program: they record where the ledger of a deal was opened and
  every token whose delivery an operation has accepted since, across restarts. The invariant is that
  what was served and what is still reserved never exceed what the record in memory, and the record
  on disk, count as committed.
\<close>

section \<open>Records\<close>

abbreviation committed_of :: "DurableCapacityRecord \<Rightarrow> nat" where
  "committed_of r \<equiv> cr_tokens_pending_anchor r + cr_local_delivered_after_anchor r
    + cr_outstanding_reservation r"

lemma committed_iff: "committed (capacity_snapshot_of r) = Inr c \<longleftrightarrow> c = committed_of r \<and> c \<le> U128_MAX"
  by (auto simp: committed_def capacity_snapshot_of_def checked_add_def)

lemma validate_record_iff:
  "validate_record r = Inr u \<longleftrightarrow> cr_version r = CAPACITY_RECORD_VERSION \<and> trim (cr_token_contract r) \<noteq> []
    \<and> committed_of r \<le> U128_MAX \<and> committed_of r \<le> cr_authoritative_cap r
    \<and> cr_authoritative_cap r \<le> cr_funded_tokens r"
  by (auto simp: validate_record_def Let_def result_simps committed_iff)
    (simp_all add: capacity_snapshot_of_def)

definition record_ok :: "token_contract \<Rightarrow> DurableCapacityRecord \<Rightarrow> bool" where
  "record_ok tc r \<longleftrightarrow> validate_record r = Inr () \<and> cr_token_contract r = tc \<and> cr_funded_tokens r \<le> U128_MAX"

text \<open>A token contract in the form the client keeps in memory.\<close>

definition wf_tc :: "token_contract \<Rightarrow> bool" where
  "wf_tc tc \<longleftrightarrow> (\<exists>acc. tc = ''0:'' @ acc \<and> is_hex64 acc \<and> to_ascii_lowercase acc = acc)"

lemma wf_tc_legacy: "wf_tc tc \<longleftrightarrow> (\<exists>a. wf_address a \<and> tc = legacy a)"
proof
  assume "wf_tc tc"
  then obtain acc where acc: "tc = ''0:'' @ acc" "is_hex64 acc" "to_ascii_lowercase acc = acc"
    by (auto simp: wf_tc_def)
  then show "\<exists>a. wf_address a \<and> tc = legacy a"
    by (intro exI [of _ "\<lparr>ca_dapp_id = acc, ca_account_id = acc\<rparr>"]) (simp add: wf_address_def legacy_def)
qed (auto simp: wf_tc_def wf_address_def legacy_def)

lemma wf_tc_file: "wf_tc tc \<Longrightarrow> read_address_field (write_self_dapp tc) = tc"
  by (auto simp: wf_tc_legacy read_write_self parse_legacy) (simp add: legacy_def)

lemma deserialize_serialize: "v \<le> U128_MAX \<Longrightarrow> deserialize_u128 (serialize_u128 v) = Some v"
  by (simp add: deserialize_u128_def serialize_u128_def parse_uint_digits)

lemma record_json:
  assumes "wf_tc tc" and "record_ok tc r"
  shows "record_of_json (record_to_json r) = Some r"
proof -
  have v: "cr_version r = 1" "cr_token_contract r = tc" "committed_of r \<le> U128_MAX"
    "cr_authoritative_cap r \<le> U128_MAX" "cr_funded_tokens r \<le> U128_MAX"
    using assms(2) by (auto simp: record_ok_def validate_record_iff CAPACITY_RECORD_VERSION_def)
  then have le: "cr_tokens_pending_anchor r \<le> U128_MAX" "cr_local_delivered_after_anchor r \<le> U128_MAX"
    "cr_outstanding_reservation r \<le> U128_MAX" by linarith+
  show ?thesis
    using v le wf_tc_file [OF assms(1)]
    by (simp add: record_of_json_def record_to_json_def CAPACITY_FIELDS_def Let_def deserialize_serialize
        U32_MAX_def insert_commute)
qed

definition text_codec :: "(json \<Rightarrow> string) \<Rightarrow> (string \<Rightarrow> json option) \<Rightarrow> bool" where
  "text_codec to_text of_text \<longleftrightarrow> (\<forall>j. of_text (to_text j) = Some j \<and> to_text j \<noteq> [])"

lemma load_persisted:
  assumes "text_codec to_text of_text" and "wf_tc tc" and "record_ok tc r"
    and "hget d p = Some (to_text (record_to_json r))"
  shows "load_record of_text IoOk p d = Inr (Some r)"
  using assms by (simp add: load_record_def text_codec_def record_json)

lemma load_record_Inr:
  assumes "text_codec to_text of_text" and "wf_tc tc" and "record_ok tc r"
    and "hget d p = Some (to_text (record_to_json r))" and "load_record of_text i p d = Inr x"
  shows "x = Some r"
  using assms by (auto simp: load_record_def text_codec_def record_json result_simps)

text \<open>Deals in the memory form never share a file.\<close>

lemma capacity_path_inj:
  assumes "wf_tc a" and "wf_tc b" and "capacity_path dir a = capacity_path dir b"
  shows "a = b"
proof -
  have safe: "map (\<lambda>c. if is_ascii_alphanumeric c then ascii_lower c else CHR ''-'') (trim tc) = ''0-'' @ drop 2 tc"
    if "wf_tc tc" for tc
  proof -
    obtain acc where acc: "tc = ''0:'' @ acc" "is_hex64 acc" "to_ascii_lowercase acc = acc"
      using \<open>wf_tc tc\<close> by (auto simp: wf_tc_def)
    have "trim tc = tc" using acc trim_legacy [of "\<lparr>ca_dapp_id = acc, ca_account_id = acc\<rparr>"] by (simp add: legacy_def)
    moreover have "is_ascii_alphanumeric c" if "c \<in> set acc" for c
      using acc(2) that
      by (auto simp: is_hex64_def list_all_iff is_ascii_hexdigit_def is_ascii_alphanumeric_def Let_def)
    then have "map (\<lambda>c. if is_ascii_alphanumeric c then ascii_lower c else CHR ''-'') acc = acc"
      using acc(3) by (metis (mono_tags, lifting) map_eq_conv to_ascii_lowercase_def)
    ultimately show ?thesis by (simp add: acc(1) is_ascii_alphanumeric_def ascii_lower_def)
  qed
  have "drop 2 a = drop 2 b" using assms(3) by (simp add: capacity_path_def safe [OF assms(1)] safe [OF assms(2)])
  then show ?thesis using assms(1,2) by (auto simp: wf_tc_def)
qed

section \<open>The system\<close>

record CapacitySystem =
  sys_m :: CapacityManager
  sys_live :: "CapacityReservation list"
  sys_base :: "token_contract \<Rightarrow> nat"
  sys_served :: "token_contract \<Rightarrow> nat"

definition held_by :: "CapacityReservation list \<Rightarrow> nat \<Rightarrow> nat" where
  "held_by live i = sum_list (map rs_remaining (filter (\<lambda>r. rs_entry r = i) live))"

definition held :: "CapacitySystem \<Rightarrow> token_contract \<Rightarrow> nat" where
  "held s tc = (case hget (cm_entries (sys_m s)) tc of None \<Rightarrow> 0 | Some i \<Rightarrow> held_by (sys_live s) i)"

definition cell_of :: "CapacitySystem \<Rightarrow> token_contract \<Rightarrow> CapacityEntry option" where
  "cell_of s tc = map_option (\<lambda>i. cm_cells (sys_m s) ! i) (hget (cm_entries (sys_m s)) tc)"

definition drop_nth :: "nat \<Rightarrow> 'a list \<Rightarrow> 'a list" where
  "drop_nth k xs = take k xs @ drop (Suc k) xs"

text \<open>
  What the counters do: the base of a ledger is the claimed high-water at which a fresh record was
  opened; a deal that is retired starts over.
\<close>

definition base_after :: "token_contract \<Rightarrow> CapacityManager \<Rightarrow> DealChainState \<Rightarrow> CapacityManager \<Rightarrow> nat \<Rightarrow> nat" where
  "base_after tc m st m' base =
    (case cm_store_dir m of
       None \<Rightarrow> base
     | Some dir \<Rightarrow>
         if hget (cm_entries m) tc = None \<and> hget (cm_disk m) (capacity_path dir tc) = None
            \<and> hget (cm_entries m') tc \<noteq> None
         then dcs_tokens_pending st else base)"

inductive capacity_step ::
  "(json \<Rightarrow> string) \<Rightarrow> (string \<Rightarrow> json option) \<Rightarrow> CapacitySystem \<Rightarrow> CapacitySystem \<Rightarrow> bool"
  for to_text :: "json \<Rightarrow> string" and of_text :: "string \<Rightarrow> json option" where
  refresh: "wf_tc tc \<Longrightarrow> sub_funded_tokens deal \<le> U128_MAX \<Longrightarrow> \<not> is_stopped st \<Longrightarrow>
    reconcile_deal to_text of_text i1 i2 tc st deal (sys_m s) = (m', r) \<Longrightarrow>
    capacity_step to_text of_text s (s\<lparr>sys_m := m',
      sys_base := (sys_base s)(tc := base_after tc (sys_m s) st m' (sys_base s tc))\<rparr>)"
| retire: "wf_tc tc \<Longrightarrow> mark_terminal i tc (sys_m s) = (m', r) \<Longrightarrow>
    capacity_step to_text of_text s (s\<lparr>sys_m := m', sys_base := (sys_base s)(tc := 0),
      sys_served := (sys_served s)(tc := 0)\<rparr>)"
| grant: "reserve to_text i tc n (sys_m s) = (m', Inr res) \<Longrightarrow>
    capacity_step to_text of_text s (s\<lparr>sys_m := m', sys_live := sys_live s @ [res]\<rparr>)"
| deny: "reserve to_text i tc n (sys_m s) = (m', Inl e) \<Longrightarrow>
    capacity_step to_text of_text s (s\<lparr>sys_m := m'\<rparr>)"
| deliver: "k < length (sys_live s) \<Longrightarrow>
    record_delivered to_text i n (sys_live s ! k) (sys_m s) = (m', res, Inr d) \<Longrightarrow>
    tc = cr_token_contract (ce_record (en_state (entry_at (sys_m s) (rs_entry (sys_live s ! k))))) \<Longrightarrow>
    capacity_step to_text of_text s (s\<lparr>sys_m := m', sys_live := (sys_live s)[k := res],
      sys_served := (sys_served s)(tc := sys_served s tc + n)\<rparr>)"
| undelivered: "k < length (sys_live s) \<Longrightarrow>
    record_delivered to_text i n (sys_live s ! k) (sys_m s) = (m', res, Inl e) \<Longrightarrow>
    capacity_step to_text of_text s (s\<lparr>sys_m := m', sys_live := (sys_live s)[k := res]\<rparr>)"
| finish: "k < length (sys_live s) \<Longrightarrow>
    finish_exact to_text i1 i2 (sys_live s ! k) (sys_m s) = (m', res, r) \<Longrightarrow>
    capacity_step to_text of_text s (s\<lparr>sys_m := m', sys_live := drop_nth k (sys_live s)\<rparr>)"
| abandon: "k < length (sys_live s) \<Longrightarrow>
    finish_ambiguous to_text i (sys_live s ! k) (sys_m s) = (m', res, r) \<Longrightarrow>
    capacity_step to_text of_text s (s\<lparr>sys_m := m', sys_live := drop_nth k (sys_live s)\<rparr>)"
| lose: "k < length (sys_live s) \<Longrightarrow>
    capacity_step to_text of_text s (s\<lparr>sys_live := drop_nth k (sys_live s)\<rparr>)"
| crash: "capacity_step to_text of_text s
    (s\<lparr>sys_m := (sys_m s)\<lparr>cm_entries := [], cm_cells := []\<rparr>, sys_live := []\<rparr>)"

inductive capacity_reach ::
  "(json \<Rightarrow> string) \<Rightarrow> (string \<Rightarrow> json option) \<Rightarrow> string \<Rightarrow> CapacitySystem \<Rightarrow> bool"
  for to_text :: "json \<Rightarrow> string" and of_text :: "string \<Rightarrow> json option" and deals_dir :: string where
  boot: "capacity_reach to_text of_text deals_dir
    \<lparr>sys_m = in_deals_dir deals_dir [], sys_live = [], sys_base = (\<lambda>_. 0), sys_served = (\<lambda>_. 0)\<rparr>"
| serve: "capacity_reach to_text of_text deals_dir s \<Longrightarrow> capacity_step to_text of_text s s' \<Longrightarrow>
    capacity_reach to_text of_text deals_dir s'"

section \<open>The invariant\<close>

definition ledger_ok ::
  "(json \<Rightarrow> string) \<Rightarrow> string \<Rightarrow> token_contract \<Rightarrow> CapacityEntry option \<Rightarrow> string option \<Rightarrow> nat \<Rightarrow> nat \<Rightarrow> nat \<Rightarrow> bool" where
  "ledger_ok to_text dir tc cell file base served res \<longleftrightarrow>
    (\<forall>e. cell = Some e \<longrightarrow> \<not> ce_terminal (en_state e) \<and> en_path e = Some (capacity_path dir tc)
      \<and> record_ok tc (ce_record (en_state e)) \<and> base + served + res \<le> committed_of (ce_record (en_state e)))
    \<and> (file = None \<longrightarrow> served = 0 \<and> res = 0)
    \<and> (\<forall>b. file = Some b \<longrightarrow> (\<exists>r. b = to_text (record_to_json r) \<and> record_ok tc r
      \<and> base + served + res \<le> committed_of r))"

definition system_ok :: "(json \<Rightarrow> string) \<Rightarrow> string \<Rightarrow> CapacitySystem \<Rightarrow> bool" where
  "system_ok to_text dir s \<longleftrightarrow> cm_store_dir (sys_m s) = Some dir
    \<and> (\<forall>tc i. hget (cm_entries (sys_m s)) tc = Some i \<longrightarrow> wf_tc tc \<and> i < length (cm_cells (sys_m s)))
    \<and> (\<forall>i<length (cm_cells (sys_m s)). ce_terminal (en_state (cm_cells (sys_m s) ! i))
        \<or> hget (cm_entries (sys_m s)) (cr_token_contract (ce_record (en_state (cm_cells (sys_m s) ! i)))) = Some i)
    \<and> (\<forall>r\<in>set (sys_live s). rs_entry r < length (cm_cells (sys_m s)))
    \<and> (\<forall>tc. wf_tc tc \<longrightarrow> ledger_ok to_text dir tc (cell_of s tc)
        (hget (cm_disk (sys_m s)) (capacity_path dir tc)) (sys_base s tc) (sys_served s tc) (held s tc))"

lemma system_okD:
  assumes "system_ok to_text dir s"
  shows "cm_store_dir (sys_m s) = Some dir"
    and "hget (cm_entries (sys_m s)) tc = Some i \<Longrightarrow> wf_tc tc \<and> i < length (cm_cells (sys_m s))"
    and "i < length (cm_cells (sys_m s)) \<Longrightarrow> \<not> ce_terminal (en_state (cm_cells (sys_m s) ! i)) \<Longrightarrow>
      hget (cm_entries (sys_m s)) (cr_token_contract (ce_record (en_state (cm_cells (sys_m s) ! i)))) = Some i"
    and "r \<in> set (sys_live s) \<Longrightarrow> rs_entry r < length (cm_cells (sys_m s))"
    and "wf_tc tc \<Longrightarrow> ledger_ok to_text dir tc (cell_of s tc)
        (hget (cm_disk (sys_m s)) (capacity_path dir tc)) (sys_base s tc) (sys_served s tc) (held s tc)"
  using assms by (auto simp: system_ok_def)

lemma registered:
  assumes "system_ok to_text dir s" and "hget (cm_entries (sys_m s)) tc = Some i"
  shows "wf_tc tc" and "i < length (cm_cells (sys_m s))"
    and "\<not> ce_terminal (en_state (cm_cells (sys_m s) ! i))"
    and "en_path (cm_cells (sys_m s) ! i) = Some (capacity_path dir tc)"
    and "record_ok tc (ce_record (en_state (cm_cells (sys_m s) ! i)))"
    and "held s tc = held_by (sys_live s) i"
    and "sys_base s tc + sys_served s tc + held_by (sys_live s) i
      \<le> committed_of (ce_record (en_state (cm_cells (sys_m s) ! i)))"
proof -
  show wf: "wf_tc tc" "i < length (cm_cells (sys_m s))" using system_okD(2) [OF assms] by auto
  show h: "held s tc = held_by (sys_live s) i" using assms(2) by (simp add: held_def)
  have "ledger_ok to_text dir tc (Some (cm_cells (sys_m s) ! i))
      (hget (cm_disk (sys_m s)) (capacity_path dir tc)) (sys_base s tc) (sys_served s tc) (held s tc)"
    using system_okD(5) [OF assms(1) wf(1)] assms(2) by (simp add: cell_of_def)
  then show "\<not> ce_terminal (en_state (cm_cells (sys_m s) ! i))"
    "en_path (cm_cells (sys_m s) ! i) = Some (capacity_path dir tc)"
    "record_ok tc (ce_record (en_state (cm_cells (sys_m s) ! i)))"
    "sys_base s tc + sys_served s tc + held_by (sys_live s) i
      \<le> committed_of (ce_record (en_state (cm_cells (sys_m s) ! i)))"
    unfolding ledger_ok_def h by simp_all
qed

text \<open>Two deals never share a cell.\<close>

lemma registered_unique:
  assumes "system_ok to_text dir s" and "hget (cm_entries (sys_m s)) a = Some i"
    and "hget (cm_entries (sys_m s)) b = Some i"
  shows "a = b"
  using registered(5) [OF assms(1,2)] registered(5) [OF assms(1,3)] by (simp add: record_ok_def)

text \<open>
  The frame of every operation on one deal: it rewrites the state of the deal's cell, the deal's file
  and the reservations on the cell, and what remains to be shown is the ledger of this deal.
\<close>

lemma step_frame:
  assumes ok: "system_ok to_text dir s" and reg: "hget (cm_entries (sys_m s)) tc = Some i"
    and disk: "\<And>p. p \<noteq> capacity_path dir tc \<Longrightarrow> hget d p = hget (cm_disk (sys_m s)) p"
    and live: "\<And>j. j \<noteq> i \<Longrightarrow> held_by live j = held_by (sys_live s) j"
      "\<And>r. r \<in> set live \<Longrightarrow> rs_entry r < length (cm_cells (sys_m s))"
    and counters: "\<And>t. t \<noteq> tc \<Longrightarrow> base t = sys_base s t \<and> served t = sys_served s t"
    and new: "ledger_ok to_text dir tc (Some ((cm_cells (sys_m s) ! i)\<lparr>en_state := l\<rparr>))
      (hget d (capacity_path dir tc)) (base tc) (served tc) (held_by live i)"
  shows "system_ok to_text dir (s\<lparr>sys_m := set_state i l d (sys_m s), sys_live := live,
    sys_base := base, sys_served := served\<rparr>)"
proof -
  let ?s = "s\<lparr>sys_m := set_state i l d (sys_m s), sys_live := live, sys_base := base, sys_served := served\<rparr>"
  have i: "i < length (cm_cells (sys_m s))" using registered(2) [OF ok reg] .
  have same: "cm_entries (sys_m ?s) = cm_entries (sys_m s)" "cm_disk (sys_m ?s) = d"
    "cm_store_dir (sys_m ?s) = cm_store_dir (sys_m s)"
    and cells: "cm_cells (sys_m ?s) = (cm_cells (sys_m s))[i := (cm_cells (sys_m s) ! i)\<lparr>en_state := l\<rparr>]"
    by (simp_all add: set_state_def entry_at_def)
  have l: "\<not> ce_terminal l" "cr_token_contract (ce_record l) = tc"
    using new by (simp_all add: ledger_ok_def record_ok_def)
  have "ledger_ok to_text dir t (cell_of ?s t) (hget d (capacity_path dir t)) (base t) (served t) (held ?s t)"
    if t: "wf_tc t" for t
  proof (cases "t = tc")
    case True
    then show ?thesis using new reg i by (simp add: cell_of_def held_def same cells set_state_def entry_at_def)
  next
    case False
    have on_disk: "hget d (capacity_path dir t) = hget (cm_disk (sys_m s)) (capacity_path dir t)"
      using disk capacity_path_inj [OF t registered(1) [OF ok reg]] False by blast
    have "j \<noteq> i" if "hget (cm_entries (sys_m s)) t = Some j" for j
      using registered_unique [OF ok reg] that False by blast
    then have "cell_of ?s t = cell_of s t" "held ?s t = held s t"
      using live(1)
      by (cases "hget (cm_entries (sys_m s)) t"; auto simp: cell_of_def held_def set_state_def entry_at_def)+
    then show ?thesis using system_okD(5) [OF ok t] on_disk counters [OF False] by simp
  qed
  then show ?thesis
    using ok live(2) l reg i unfolding system_ok_def same cells
    by (auto simp: nth_list_update)
qed

lemma ledger_less:
  assumes "ledger_ok to_text dir tc c f b v h" and "b' \<le> b" and "v' \<le> v" and "h' \<le> h"
  shows "ledger_ok to_text dir tc c f b' v' h'"
proof -
  have "b' + v' + h' \<le> n" if "b + v + h \<le> n" for n using that assms(2-4) by linarith
  then show ?thesis using assms unfolding ledger_ok_def by (metis le_zero_eq)
qed

lemma ledger_gone: "ledger_ok to_text dir tc c f b v h \<Longrightarrow> ledger_ok to_text dir tc None f b v h"
  unfolding ledger_ok_def by simp

lemma ledger_removed: "ledger_ok to_text dir tc None None b 0 0"
  unfolding ledger_ok_def by simp

lemma live_frame:
  assumes ok: "system_ok to_text dir s"
    and live: "\<And>tc i. hget (cm_entries (sys_m s)) tc = Some i \<Longrightarrow> held_by live i \<le> held_by (sys_live s) i"
      "\<And>r. r \<in> set live \<Longrightarrow> rs_entry r < length (cm_cells (sys_m s))"
  shows "system_ok to_text dir (s\<lparr>sys_live := live\<rparr>)"
proof -
  let ?s = "s\<lparr>sys_live := live\<rparr>"
  have "held ?s tc \<le> held s tc" for tc using live(1) by (auto simp: held_def split: option.split)
  then have "ledger_ok to_text dir tc (cell_of ?s tc) (hget (cm_disk (sys_m s)) (capacity_path dir tc))
      (sys_base s tc) (sys_served s tc) (held ?s tc)" if "wf_tc tc" for tc
    using ledger_less [OF system_okD(5) [OF ok that]] by (simp add: cell_of_def)
  then show ?thesis using ok live(2) by (simp add: system_ok_def)
qed

section \<open>What each operation does to its deal\<close>

lemma held_by_simps [simp]:
  "held_by [] i = 0"
  "held_by (r # live) i = (if rs_entry r = i then rs_remaining r else 0) + held_by live i"
  "held_by (xs @ ys) i = held_by xs i + held_by ys i"
  by (simp_all add: held_by_def)

lemma live_split: "k < length live \<Longrightarrow> live = take k live @ live ! k # drop (Suc k) live"
  by (rule id_take_nth_drop)

lemma held_by_split:
  assumes "k < length live"
  shows "held_by live i = held_by (drop_nth k live) i + (if rs_entry (live ! k) = i then rs_remaining (live ! k) else 0)"
    and "held_by (live[k := r]) i = held_by (drop_nth k live) i + (if rs_entry r = i then rs_remaining r else 0)"
proof -
  have "held_by live i = held_by (take k live @ live ! k # drop (Suc k) live) i"
    using live_split [OF assms] by simp
  then show "held_by live i = held_by (drop_nth k live) i + (if rs_entry (live ! k) = i then rs_remaining (live ! k) else 0)"
    by (simp add: drop_nth_def)
  show "held_by (live[k := r]) i = held_by (drop_nth k live) i + (if rs_entry r = i then rs_remaining r else 0)"
    using assms by (simp add: upd_conv_take_nth_drop drop_nth_def)
qed

lemma set_drop_nth: "r \<in> set (drop_nth k live) \<Longrightarrow> r \<in> set live"
  by (auto simp: drop_nth_def dest: in_set_takeD in_set_dropD)

definition wrote ::
  "(json \<Rightarrow> string) \<Rightarrow> string \<Rightarrow> disk \<Rightarrow> disk \<Rightarrow> (DurableCapacityRecord \<Rightarrow> bool) \<Rightarrow> bool" where
  "wrote to_text p d d' P \<longleftrightarrow> (\<forall>q. q \<noteq> p \<longrightarrow> hget d' q = hget d q)
    \<and> (hget d' p = hget d p \<or> (\<exists>r. hget d' p = Some (to_text (record_to_json r)) \<and> P r))"

lemma wrote_refl [simp]: "wrote to_text p d d P"
  by (simp add: wrote_def)

lemma wrote_trans:
  "wrote to_text p d d1 P \<Longrightarrow> wrote to_text p d1 d2 Q \<Longrightarrow> (\<And>r. P r \<Longrightarrow> S r) \<Longrightarrow> (\<And>r. Q r \<Longrightarrow> S r)
    \<Longrightarrow> wrote to_text p d d2 S"
  unfolding wrote_def by metis

lemma wrote_mono: "wrote to_text p d d' P \<Longrightarrow> (\<And>r. P r \<Longrightarrow> Q r) \<Longrightarrow> wrote to_text p d d' Q"
  by (auto simp: wrote_def)

lemma persist_wrote:
  "persist_candidate to_text i (Some p) r d = (d', x) \<Longrightarrow> P r \<Longrightarrow> wrote to_text p d d' P"
  by (auto simp: persist_candidate_def wrote_def hget_hinsert split: io.splits)

lemma persist_ok:
  "persist_candidate to_text i (Some p) r d = (d', Inr u) \<Longrightarrow> hget d' p = Some (to_text (record_to_json r))"
  by (auto simp: persist_candidate_def hget_hinsert split: io.splits)

text \<open>A flush moves tokens between the two halves of what is committed, whatever the write does.\<close>

lemma flush_effect:
  assumes run: "flush_delivered to_text i (Some p) l d = (l', d', r)" and ok: "record_ok tc (ce_record l)"
  shows "ce_terminal l' = ce_terminal l" and "record_ok tc (ce_record l')"
    and "committed_of (ce_record l') = committed_of (ce_record l)"
    and "wrote to_text p d d' (\<lambda>x. record_ok tc x \<and> committed_of x = committed_of (ce_record l))"
proof -
  let ?c = "(ce_record l)\<lparr>cr_outstanding_reservation := cr_outstanding_reservation (ce_record l) - ce_unpersisted_delivered l,
    cr_local_delivered_after_anchor := cr_local_delivered_after_anchor (ce_record l) + ce_unpersisted_delivered l\<rparr>"
  have cases: "l' = l \<and> d' = d \<or> ce_unpersisted_delivered l \<le> cr_outstanding_reservation (ce_record l)
      \<and> validate_record ?c = Inr ()
      \<and> (\<exists>x. persist_candidate to_text i (Some p) ?c d = (d', x)) \<and> (l' = l \<or> l' = l\<lparr>ce_record := ?c, ce_unpersisted_delivered := 0\<rparr>)"
    using run
    by (auto simp: flush_delivered_def Let_def checked_sub_def checked_add_def split: if_splits sum.splits prod.splits)
  have good: "record_ok tc ?c" "committed_of ?c = committed_of (ce_record l)"
    if "ce_unpersisted_delivered l \<le> cr_outstanding_reservation (ce_record l)" "validate_record ?c = Inr ()"
    using that ok by (simp_all add: record_ok_def)
  show "ce_terminal l' = ce_terminal l" using cases by auto
  show "record_ok tc (ce_record l')" using cases good(1) ok by auto
  show "committed_of (ce_record l') = committed_of (ce_record l)" using cases good(2) by auto
  show "wrote to_text p d d' (\<lambda>x. record_ok tc x \<and> committed_of x = committed_of (ce_record l))"
    using cases good persist_wrote by fastforce
qed

lemma ledger_step:
  assumes old: "ledger_ok to_text dir tc (Some e) (hget d p) b v h"
    and new: "\<not> ce_terminal l" "record_ok tc (ce_record l)" "b + v' + h' \<le> committed_of (ce_record l)"
    and disk: "wrote to_text p d d' (\<lambda>r. record_ok tc r \<and> b + v' + h' \<le> committed_of r)"
    and kept: "v' + h' \<le> v + h \<or> (\<exists>r. hget d' p = Some (to_text (record_to_json r)) \<and> record_ok tc r
      \<and> b + v' + h' \<le> committed_of r)"
  shows "ledger_ok to_text dir tc (Some (e\<lparr>en_state := l\<rparr>)) (hget d' p) b v' h'"
proof (cases "hget d' p = hget d p \<and> v' + h' \<le> v + h")
  case True
  then show ?thesis using old new unfolding ledger_ok_def by fastforce
next
  case False
  then obtain r where "hget d' p = Some (to_text (record_to_json r))" "record_ok tc r" "b + v' + h' \<le> committed_of r"
    using disk kept by (auto simp: wrote_def)
  then show ?thesis using old new unfolding ledger_ok_def by auto
qed

lemma op_frame:
  assumes ok: "system_ok to_text dir s" and reg: "hget (cm_entries (sys_m s)) tc = Some i"
    and new: "\<not> ce_terminal l" "record_ok tc (ce_record l)"
      "sys_base s tc + served tc + held_by live i \<le> committed_of (ce_record l)"
    and disk: "wrote to_text (capacity_path dir tc) (cm_disk (sys_m s)) d
      (\<lambda>r. record_ok tc r \<and> sys_base s tc + served tc + held_by live i \<le> committed_of r)"
    and kept: "served tc + held_by live i \<le> sys_served s tc + held_by (sys_live s) i
      \<or> (\<exists>r. hget d (capacity_path dir tc) = Some (to_text (record_to_json r)) \<and> record_ok tc r
        \<and> sys_base s tc + served tc + held_by live i \<le> committed_of r)"
    and live: "\<And>j. j \<noteq> i \<Longrightarrow> held_by live j = held_by (sys_live s) j"
      "\<And>r. r \<in> set live \<Longrightarrow> rs_entry r < length (cm_cells (sys_m s))"
    and others: "\<And>t. t \<noteq> tc \<Longrightarrow> served t = sys_served s t"
  shows "system_ok to_text dir (s\<lparr>sys_m := set_state i l d (sys_m s), sys_live := live, sys_served := served\<rparr>)"
proof -
  have "ledger_ok to_text dir tc (Some (cm_cells (sys_m s) ! i))
      (hget (cm_disk (sys_m s)) (capacity_path dir tc)) (sys_base s tc) (sys_served s tc) (held_by (sys_live s) i)"
    using system_okD(5) [OF ok registered(1) [OF ok reg]] reg by (simp add: cell_of_def held_def)
  then have "ledger_ok to_text dir tc (Some ((cm_cells (sys_m s) ! i)\<lparr>en_state := l\<rparr>))
      (hget d (capacity_path dir tc)) (sys_base s tc) (served tc) (held_by live i)"
    using new disk kept by (rule ledger_step)
  then have "system_ok to_text dir (s\<lparr>sys_m := set_state i l d (sys_m s), sys_live := live,
      sys_base := sys_base s, sys_served := served\<rparr>)"
    using disk others by (intro step_frame [OF ok reg] live) (auto simp: wrote_def)
  then show ?thesis by simp
qed

lemma set_state_same:
  "i < length (cm_cells m) \<Longrightarrow> set_state i (en_state (entry_at m i)) d m = m\<lparr>cm_disk := d\<rparr>"
  by (simp add: set_state_def entry_at_def)

lemma available_iff: "available (capacity_snapshot_of r) = Inr a \<longleftrightarrow>
    committed_of r \<le> U128_MAX \<and> committed_of r \<le> cr_authoritative_cap r \<and> a = cr_authoritative_cap r - committed_of r"
  by (auto simp: available_def result_simps committed_iff) (simp_all add: capacity_snapshot_of_def)

text \<open>A reservation that changes anything raises the reservations of its deal by what it grants.\<close>

lemma reserve_effect:
  assumes "reserve to_text i tc n m = (m', r)"
  shows "m' = m \<and> (\<exists>e. r = Inl e) \<or>
    (\<exists>k a c d x. hget (cm_entries m) tc = Some k \<and> \<not> ce_terminal (en_state (entry_at m k))
      \<and> 0 < a \<and> a \<le> n \<and> c = (ce_record (en_state (entry_at m k)))\<lparr>cr_outstanding_reservation :=
          cr_outstanding_reservation (ce_record (en_state (entry_at m k))) + a\<rparr> \<and> validate_record c = Inr ()
      \<and> persist_candidate to_text i (en_path (entry_at m k)) c (cm_disk m) = (d, x)
      \<and> (case x of Inl e \<Rightarrow> r = Inl (InvalidState e) \<and> m' = m\<lparr>cm_disk := d\<rparr>
          | Inr _ \<Rightarrow> r = Inr \<lparr>rs_entry = k, rs_initial = a, rs_remaining = a, rs_finished = False\<rparr>
              \<and> m' = set_state k ((en_state (entry_at m k))\<lparr>ce_unpersisted_delivered := 0, ce_record := c\<rparr>) d m))"
proof (cases "n = 0 \<or> hget (cm_entries m) tc = None")
  case False
  then obtain k where k: "hget (cm_entries m) tc = Some k" "0 < n" by auto
  let ?l = "en_state (entry_at m k)"
  let ?r = "ce_record ?l"
  show ?thesis
  proof (cases "\<not> ce_terminal ?l \<and> (\<exists>av. bindR (validate_record ?r) (\<lambda>_. available (capacity_snapshot_of ?r)) = Inr av \<and> 0 < av)")
    case False
    then show ?thesis
      using assms k by (auto simp: reserve_def Let_def split: sum.splits if_splits)
  next
    case True
    then obtain av where av: "bindR (validate_record ?r) (\<lambda>_. available (capacity_snapshot_of ?r)) = Inr av" "0 < av"
      and live: "\<not> ce_terminal ?l" by blast
    define a where "a = min av n"
    have a: "0 < a" "a \<le> n" using av k by (auto simp: a_def)
    let ?c = "?r\<lparr>cr_outstanding_reservation := cr_outstanding_reservation ?r + a\<rparr>"
    show ?thesis
    proof (cases "cr_outstanding_reservation ?r + a \<le> U128_MAX \<and> validate_record ?c = Inr ()")
      case False
      then show ?thesis
        using assms k live av a by (auto simp: reserve_def Let_def checked_add_def a_def [symmetric] split: sum.splits if_splits)
    next
      case True
      obtain d x where dx: "persist_candidate to_text i (en_path (entry_at m k)) ?c (cm_disk m) = (d, x)"
        by (cases "persist_candidate to_text i (en_path (entry_at m k)) ?c (cm_disk m)")
      have "case x of Inl e \<Rightarrow> r = Inl (InvalidState e) \<and> m' = m\<lparr>cm_disk := d\<rparr>
          | Inr _ \<Rightarrow> r = Inr \<lparr>rs_entry = k, rs_initial = a, rs_remaining = a, rs_finished = False\<rparr>
              \<and> m' = set_state k (?l\<lparr>ce_unpersisted_delivered := 0, ce_record := ?c\<rparr>) d m"
        using assms k live av a dx True
        by (auto simp: reserve_def Let_def checked_add_def a_def [symmetric] split: sum.split)
      with k live a True dx show ?thesis by blast
    qed
  qed
qed (use assms in \<open>auto simp: reserve_def split: option.splits if_splits\<close>)

lemma reserve_keeps:
  assumes ok: "system_ok to_text dir s" and run: "reserve to_text i tc n (sys_m s) = (m', r)"
  shows "case r of Inl _ \<Rightarrow> system_ok to_text dir (s\<lparr>sys_m := m'\<rparr>)
    | Inr res \<Rightarrow> system_ok to_text dir (s\<lparr>sys_m := m', sys_live := sys_live s @ [res]\<rparr>)"
  using reserve_effect [OF run]
proof (elim disjE conjE exE)
  fix k a c d x
  let ?l = "en_state (entry_at (sys_m s) k)"
  assume k: "hget (cm_entries (sys_m s)) tc = Some k" and a: "0 < a"
    and c: "c = (ce_record ?l)\<lparr>cr_outstanding_reservation := cr_outstanding_reservation (ce_record ?l) + a\<rparr>"
    and valid: "validate_record c = Inr ()"
    and dx: "persist_candidate to_text i (en_path (entry_at (sys_m s) k)) c (cm_disk (sys_m s)) = (d, x)"
    and res: "case x of Inl e \<Rightarrow> r = Inl (InvalidState e) \<and> m' = (sys_m s)\<lparr>cm_disk := d\<rparr>
          | Inr _ \<Rightarrow> r = Inr \<lparr>rs_entry = k, rs_initial = a, rs_remaining = a, rs_finished = False\<rparr>
              \<and> m' = set_state k (?l\<lparr>ce_unpersisted_delivered := 0, ce_record := c\<rparr>) d (sys_m s)"
  note reg = registered [OF ok k, folded entry_at_def]
  have c_ok: "record_ok tc c" using reg(5) valid by (simp add: record_ok_def c)
  have more: "sys_base s tc + sys_served s tc + held_by (sys_live s) k + a \<le> committed_of c"
    using reg(7) by (simp add: c)
  have wrote: "wrote to_text (capacity_path dir tc) (cm_disk (sys_m s)) d (\<lambda>x. x = c)"
    using dx reg(4) persist_wrote [of to_text i _ c _ d x "\<lambda>x. x = c"] by simp
  show ?thesis
  proof (cases x)
    case (Inl e)
    have "system_ok to_text dir (s\<lparr>sys_m := set_state k ?l d (sys_m s), sys_live := sys_live s,
        sys_served := sys_served s\<rparr>)"
      by (rule op_frame [OF ok k])
        (use reg more c_ok wrote system_okD(4) [OF ok] in \<open>auto simp: wrote_def\<close>)
    then show ?thesis using Inl res reg(2) by (simp add: set_state_same)
  next
    case (Inr u)
    have "hget d (capacity_path dir tc) = Some (to_text (record_to_json c))"
      using persist_ok dx reg(4) Inr by metis
    then have "system_ok to_text dir (s\<lparr>sys_m := set_state k (?l\<lparr>ce_unpersisted_delivered := 0, ce_record := c\<rparr>) d (sys_m s),
        sys_live := sys_live s @ [\<lparr>rs_entry = k, rs_initial = a, rs_remaining = a, rs_finished = False\<rparr>],
        sys_served := sys_served s\<rparr>)"
      by (intro op_frame [OF ok k])
        (use reg more c_ok wrote system_okD(4) [OF ok] in \<open>auto simp: wrote_def add.assoc\<close>)
    then show ?thesis using Inr res by simp
  qed
qed (use ok in \<open>auto split: sum.splits\<close>)

text \<open>The cell of a live reservation belongs to a registered deal unless it is terminal.\<close>

lemma live_cell:
  assumes ok: "system_ok to_text dir s" and k: "k < length (sys_live s)"
    and open_cell: "\<not> ce_terminal (en_state (entry_at (sys_m s) (rs_entry (sys_live s ! k))))"
  defines "tc \<equiv> cr_token_contract (ce_record (en_state (entry_at (sys_m s) (rs_entry (sys_live s ! k)))))"
  shows "hget (cm_entries (sys_m s)) tc = Some (rs_entry (sys_live s ! k))"
  using system_okD(3) [OF ok, of "rs_entry (sys_live s ! k)"] system_okD(4) [OF ok nth_mem [OF k]] open_cell
  by (simp add: entry_at_def tc_def)

text \<open>Live reservations after one of them moved.\<close>

lemma moved_live:
  assumes "system_ok to_text dir s" and "k < length (sys_live s)" and "rs_entry res = rs_entry (sys_live s ! k)"
  shows "j \<noteq> rs_entry res \<Longrightarrow> held_by ((sys_live s)[k := res]) j = held_by (sys_live s) j"
    and "j \<noteq> rs_entry res \<Longrightarrow> held_by (drop_nth k (sys_live s)) j = held_by (sys_live s) j"
    and "r \<in> set ((sys_live s)[k := res]) \<Longrightarrow> rs_entry r < length (cm_cells (sys_m s))"
    and "r \<in> set (drop_nth k (sys_live s)) \<Longrightarrow> rs_entry r < length (cm_cells (sys_m s))"
proof -
  note entry = system_okD(4) [OF assms(1)]
  show "j \<noteq> rs_entry res \<Longrightarrow> held_by ((sys_live s)[k := res]) j = held_by (sys_live s) j"
    "j \<noteq> rs_entry res \<Longrightarrow> held_by (drop_nth k (sys_live s)) j = held_by (sys_live s) j"
    using held_by_split(1) [OF assms(2), of j] held_by_split(2) [OF assms(2), of res j] assms(3) by auto
  show "r \<in> set ((sys_live s)[k := res]) \<Longrightarrow> rs_entry r < length (cm_cells (sys_m s))"
    using entry assms(2,3) nth_mem [OF assms(2)] set_update_subset_insert [of "sys_live s" k res] by auto
  show "r \<in> set (drop_nth k (sys_live s)) \<Longrightarrow> rs_entry r < length (cm_cells (sys_m s))"
    using entry set_drop_nth by fastforce
qed

lemma record_effect:
  assumes "record_delivered to_text i n res m = (m', res', r)"
  defines "l \<equiv> en_state (entry_at m (rs_entry res))" and "p \<equiv> en_path (entry_at m (rs_entry res))"
  shows "m' = m \<and> res' = res \<and> (\<exists>e. r = Inl e) \<or> n \<le> rs_remaining res \<and> \<not> ce_terminal l \<and>
    (\<exists>u l' d. (l' = l\<lparr>ce_unpersisted_delivered := u\<rparr> \<and> d = cm_disk m
          \<or> (\<exists>x. flush_delivered to_text i p (l\<lparr>ce_unpersisted_delivered := u\<rparr>) (cm_disk m) = (l', d, x)))
      \<and> m' = set_state (rs_entry res) l' d m
      \<and> (case r of Inl _ \<Rightarrow> res' = res | Inr _ \<Rightarrow> res' = res\<lparr>rs_remaining := rs_remaining res - n\<rparr>))"
  using assms(1) unfolding record_delivered_def Let_def l_def [symmetric] p_def [symmetric]
  by (auto split: if_splits option.splits prod.splits sum.splits simp del: checked_add_eq_Some)

lemma deliver_keeps:
  assumes ok: "system_ok to_text dir s" and k: "k < length (sys_live s)"
    and run: "record_delivered to_text i n (sys_live s ! k) (sys_m s) = (m', res, r)"
  defines "tc \<equiv> cr_token_contract (ce_record (en_state (entry_at (sys_m s) (rs_entry (sys_live s ! k)))))"
  shows "system_ok to_text dir (s\<lparr>sys_m := m', sys_live := (sys_live s)[k := res],
    sys_served := (sys_served s)(tc := sys_served s tc + (case r of Inl _ \<Rightarrow> 0 | Inr _ \<Rightarrow> n))\<rparr>)"
  using record_effect [OF run]
proof (rule disjE)
  assume "m' = sys_m s \<and> res = sys_live s ! k \<and> (\<exists>e. r = Inl e)"
  then show ?thesis using ok by auto
next
  let ?i = "rs_entry (sys_live s ! k)"
  let ?l = "en_state (entry_at (sys_m s) ?i)"
  assume "n \<le> rs_remaining (sys_live s ! k) \<and> \<not> ce_terminal ?l \<and>
    (\<exists>u l' d. (l' = ?l\<lparr>ce_unpersisted_delivered := u\<rparr> \<and> d = cm_disk (sys_m s)
          \<or> (\<exists>x. flush_delivered to_text i (en_path (entry_at (sys_m s) ?i)) (?l\<lparr>ce_unpersisted_delivered := u\<rparr>)
              (cm_disk (sys_m s)) = (l', d, x)))
      \<and> m' = set_state ?i l' d (sys_m s)
      \<and> (case r of Inl _ \<Rightarrow> res = sys_live s ! k
          | Inr _ \<Rightarrow> res = (sys_live s ! k)\<lparr>rs_remaining := rs_remaining (sys_live s ! k) - n\<rparr>))"
  then obtain u l' d where n: "n \<le> rs_remaining (sys_live s ! k)" and live: "\<not> ce_terminal ?l"
    and m': "m' = set_state ?i l' d (sys_m s)"
    and d: "l' = ?l\<lparr>ce_unpersisted_delivered := u\<rparr> \<and> d = cm_disk (sys_m s)
      \<or> (\<exists>x. flush_delivered to_text i (en_path (entry_at (sys_m s) ?i)) (?l\<lparr>ce_unpersisted_delivered := u\<rparr>)
          (cm_disk (sys_m s)) = (l', d, x))"
    and res: "case r of Inl _ \<Rightarrow> res = sys_live s ! k
      | Inr _ \<Rightarrow> res = (sys_live s ! k)\<lparr>rs_remaining := rs_remaining (sys_live s ! k) - n\<rparr>"
    by blast
  have reg: "hget (cm_entries (sys_m s)) tc = Some ?i" using live_cell [OF ok k live] by (simp add: tc_def)
  note r = registered [OF ok reg, folded entry_at_def]
  have l': "\<not> ce_terminal l'" "record_ok tc (ce_record l')" "committed_of (ce_record l') = committed_of (ce_record ?l)"
    "wrote to_text (capacity_path dir tc) (cm_disk (sys_m s)) d (\<lambda>x. record_ok tc x \<and> committed_of x = committed_of (ce_record ?l))"
    using d r(3-5) flush_effect [of to_text i "capacity_path dir tc" "?l\<lparr>ce_unpersisted_delivered := u\<rparr>"
        "cm_disk (sys_m s)" l' d] by auto
  have entry: "rs_entry res = ?i" using res by (cases r) auto
  let ?v = "(sys_served s)(tc := sys_served s tc + (case r of Inl _ \<Rightarrow> 0 | Inr _ \<Rightarrow> n))"
  have same: "?v tc + held_by ((sys_live s)[k := res]) ?i = sys_served s tc + held_by (sys_live s) ?i"
    using res n held_by_split(1) [OF k, of ?i] held_by_split(2) [OF k, of res ?i] by (cases r) auto
  have bound: "sys_base s tc + ?v tc + held_by ((sys_live s)[k := res]) ?i \<le> committed_of (ce_record ?l)"
    using r(7) same by linarith
  have disk: "wrote to_text (capacity_path dir tc) (cm_disk (sys_m s)) d (\<lambda>x. record_ok tc x
      \<and> sys_base s tc + ?v tc + held_by ((sys_live s)[k := res]) ?i \<le> committed_of x)"
    by (rule wrote_mono [OF l'(4)]) (use bound in linarith)
  have mem: "sys_base s tc + ?v tc + held_by ((sys_live s)[k := res]) ?i \<le> committed_of (ce_record l')"
    using bound l'(3) by linarith
  have "system_ok to_text dir (s\<lparr>sys_m := set_state ?i l' d (sys_m s),
      sys_live := (sys_live s)[k := res], sys_served := ?v\<rparr>)"
    by (rule op_frame [OF ok reg l'(1,2)];
        (fact mem | fact disk | use same moved_live [OF ok k entry] entry in auto))
  then show ?thesis by (simp add: m')
qed

lemma drop_keeps:
  assumes ok: "system_ok to_text dir s" and k: "k < length (sys_live s)"
  shows "system_ok to_text dir (s\<lparr>sys_live := drop_nth k (sys_live s)\<rparr>)"
  using held_by_split(1) [OF k] moved_live(4) [OF ok k refl] by (intro live_frame [OF ok]) auto

lemma finish_effect:
  assumes "finish_exact to_text i1 i2 res m = (m', res', r)"
  defines "l \<equiv> en_state (entry_at m (rs_entry res))" and "p \<equiv> en_path (entry_at m (rs_entry res))"
  shows "m' = m \<or> \<not> ce_terminal l \<and> (\<exists>l1 d1 x. flush_delivered to_text i1 p l (cm_disk m) = (l1, d1, x) \<and>
    (m' = set_state (rs_entry res) l1 d1 m \<or>
     (\<exists>c d2 y. rs_remaining res \<le> cr_outstanding_reservation (ce_record l1)
        \<and> c = (ce_record l1)\<lparr>cr_outstanding_reservation := cr_outstanding_reservation (ce_record l1) - rs_remaining res\<rparr>
        \<and> validate_record c = Inr () \<and> persist_candidate to_text i2 p c d1 = (d2, y)
        \<and> (m' = set_state (rs_entry res) l1 d2 m \<or> m' = set_state (rs_entry res) (l1\<lparr>ce_record := c\<rparr>) d2 m))))"
  using assms(1) unfolding finish_exact_def Let_def l_def [symmetric] p_def [symmetric]
  by (auto simp: checked_sub_def split: if_splits prod.splits sum.splits)

lemma abandon_effect:
  assumes "finish_ambiguous to_text i res m = (m', res', r)"
  defines "l \<equiv> en_state (entry_at m (rs_entry res))" and "p \<equiv> en_path (entry_at m (rs_entry res))"
  shows "m' = m \<or> \<not> ce_terminal l \<and> (\<exists>l1 d1 x. flush_delivered to_text i p l (cm_disk m) = (l1, d1, x) \<and>
    m' = set_state (rs_entry res) l1 d1 m)"
  using assms(1) unfolding finish_ambiguous_def Let_def l_def [symmetric] p_def [symmetric]
  by (auto split: if_splits prod.splits sum.splits)

text \<open>
  Ending a request, one way or the other: the record may keep its reservation or give back what is
  left of it, and either is enough for everything else.
\<close>

lemma ending_keeps:
  assumes ok: "system_ok to_text dir s" and k: "k < length (sys_live s)"
    and open_cell: "\<not> ce_terminal (en_state (entry_at (sys_m s) (rs_entry (sys_live s ! k))))"
  defines "i \<equiv> rs_entry (sys_live s ! k)"
  defines "old \<equiv> ce_record (en_state (entry_at (sys_m s) i))"
  defines "tc \<equiv> cr_token_contract old"
  assumes l: "\<not> ce_terminal l" "record_ok tc (ce_record l)"
      "committed_of old \<le> committed_of (ce_record l) + rs_remaining (sys_live s ! k)"
    and d: "wrote to_text (capacity_path dir tc) (cm_disk (sys_m s)) d
      (\<lambda>r. record_ok tc r \<and> committed_of old \<le> committed_of r + rs_remaining (sys_live s ! k))"
  shows "system_ok to_text dir (s\<lparr>sys_m := set_state i l d (sys_m s), sys_live := drop_nth k (sys_live s)\<rparr>)"
proof -
  have reg: "hget (cm_entries (sys_m s)) tc = Some i"
    using live_cell [OF ok k open_cell] by (simp add: tc_def old_def i_def)
  have held: "held_by (sys_live s) i = held_by (drop_nth k (sys_live s)) i + rs_remaining (sys_live s ! k)"
    using held_by_split(1) [OF k, of i] by (simp add: i_def)
  have b: "sys_base s tc + sys_served s tc + held_by (sys_live s) i \<le> committed_of old"
    using registered(7) [OF ok reg] by (simp add: old_def entry_at_def)
  have disk: "wrote to_text (capacity_path dir tc) (cm_disk (sys_m s)) d (\<lambda>r. record_ok tc r
      \<and> sys_base s tc + sys_served s tc + held_by (drop_nth k (sys_live s)) i \<le> committed_of r)"
    by (rule wrote_mono [OF d]) (use b held in linarith)
  have mem: "sys_base s tc + sys_served s tc + held_by (drop_nth k (sys_live s)) i \<le> committed_of (ce_record l)"
    using b held l(3) by linarith
  have "system_ok to_text dir (s\<lparr>sys_m := set_state i l d (sys_m s),
      sys_live := drop_nth k (sys_live s), sys_served := sys_served s\<rparr>)"
    by (rule op_frame [OF ok reg l(1,2)];
        (fact mem | fact disk | use held moved_live(2,4) [OF ok k refl] in \<open>auto simp: i_def\<close>))
  then show ?thesis by simp
qed

lemma finish_keeps:
  assumes ok: "system_ok to_text dir s" and k: "k < length (sys_live s)"
    and run: "finish_exact to_text i1 i2 (sys_live s ! k) (sys_m s) = (m', res, r)"
  shows "system_ok to_text dir (s\<lparr>sys_m := m', sys_live := drop_nth k (sys_live s)\<rparr>)"
proof (cases "m' = sys_m s")
  case True
  then show ?thesis using drop_keeps [OF ok k] by simp
next
  case False
  let ?i = "rs_entry (sys_live s ! k)" and ?n = "rs_remaining (sys_live s ! k)"
  let ?l = "en_state (entry_at (sys_m s) ?i)"
  let ?tc = "cr_token_contract (ce_record ?l)"
  obtain l1 d1 x where live: "\<not> ce_terminal ?l"
    and flush: "flush_delivered to_text i1 (en_path (entry_at (sys_m s) ?i)) ?l (cm_disk (sys_m s)) = (l1, d1, x)"
    and outcome: "m' = set_state ?i l1 d1 (sys_m s) \<or> (\<exists>c d2 y. ?n \<le> cr_outstanding_reservation (ce_record l1)
        \<and> c = (ce_record l1)\<lparr>cr_outstanding_reservation := cr_outstanding_reservation (ce_record l1) - ?n\<rparr>
        \<and> validate_record c = Inr () \<and> persist_candidate to_text i2 (en_path (entry_at (sys_m s) ?i)) c d1 = (d2, y)
        \<and> (m' = set_state ?i l1 d2 (sys_m s) \<or> m' = set_state ?i (l1\<lparr>ce_record := c\<rparr>) d2 (sys_m s)))"
    using finish_effect [OF run] False by blast
  note r = registered [OF ok live_cell [OF ok k live], folded entry_at_def]
  note f = flush_effect [OF flush [unfolded r(4)] r(5)]
  define Q where "Q = (\<lambda>r. record_ok ?tc r \<and> committed_of (ce_record ?l) \<le> committed_of r + ?n)"
  have d1: "wrote to_text (capacity_path dir ?tc) (cm_disk (sys_m s)) d1 Q"
    by (rule wrote_mono [OF f(4)]) (simp add: Q_def)
  have l1: "\<not> ce_terminal l1" "committed_of (ce_record ?l) \<le> committed_of (ce_record l1) + ?n"
    using f(1,3) r(3) by auto
  note kept = ending_keeps [OF ok k live, folded Q_def]
  from outcome show ?thesis
  proof (elim disjE exE conjE)
    assume "m' = set_state ?i l1 d1 (sys_m s)"
    then show ?thesis using kept [OF l1(1) f(2) l1(2) d1] by simp
  next
    fix c d2 y
    assume le: "?n \<le> cr_outstanding_reservation (ce_record l1)"
      and c: "c = (ce_record l1)\<lparr>cr_outstanding_reservation := cr_outstanding_reservation (ce_record l1) - ?n\<rparr>"
      and valid: "validate_record c = Inr ()"
      and w: "persist_candidate to_text i2 (en_path (entry_at (sys_m s) ?i)) c d1 = (d2, y)"
    have "Q c" using f(2,3) valid le by (auto simp: Q_def c record_ok_def)
    then have d2: "wrote to_text (capacity_path dir ?tc) (cm_disk (sys_m s)) d2 Q"
      using wrote_trans [OF d1 persist_wrote [OF w [unfolded r(4)], of Q]] by simp
    show "m' = set_state ?i l1 d2 (sys_m s) \<Longrightarrow> ?thesis"
      using kept [OF l1(1) f(2) l1(2) d2] by simp
    show "m' = set_state ?i (l1\<lparr>ce_record := c\<rparr>) d2 (sys_m s) \<Longrightarrow> ?thesis"
      using kept [of "l1\<lparr>ce_record := c\<rparr>", OF _ _ _ d2] l1(1) \<open>Q c\<close> by (simp add: Q_def)
  qed
qed

lemma abandon_keeps:
  assumes ok: "system_ok to_text dir s" and k: "k < length (sys_live s)"
    and run: "finish_ambiguous to_text i (sys_live s ! k) (sys_m s) = (m', res, r)"
  shows "system_ok to_text dir (s\<lparr>sys_m := m', sys_live := drop_nth k (sys_live s)\<rparr>)"
  using abandon_effect [OF run]
proof (elim disjE conjE exE)
  assume "m' = sys_m s"
  then show ?thesis using drop_keeps [OF ok k] by simp
next
  let ?i = "rs_entry (sys_live s ! k)"
  let ?l = "en_state (entry_at (sys_m s) ?i)"
  fix l1 d1 x
  assume live: "\<not> ce_terminal ?l"
    and flush: "flush_delivered to_text i (en_path (entry_at (sys_m s) ?i)) ?l (cm_disk (sys_m s)) = (l1, d1, x)"
    and m': "m' = set_state ?i l1 d1 (sys_m s)"
  note r = registered [OF ok live_cell [OF ok k live], folded entry_at_def]
  note f = flush_effect [OF flush [unfolded r(4)] r(5)]
  have "wrote to_text (capacity_path dir (cr_token_contract (ce_record ?l))) (cm_disk (sys_m s)) d1
      (\<lambda>r. record_ok (cr_token_contract (ce_record ?l)) r
        \<and> committed_of (ce_record ?l) \<le> committed_of r + rs_remaining (sys_live s ! k))"
    by (rule wrote_mono [OF f(4)]) auto
  from ending_keeps [OF ok k live _ f(2) _ this] show ?thesis using f(1,3) r(3) m' by simp
qed

section \<open>Registering, refreshing and retiring a deal\<close>

lemma shape_fits:
  assumes "validate_live_deal_shape st deal = Inr ()" and "authoritative_cap st deal = Inr cap"
  shows "dcs_tokens_pending st \<le> cap" and "cap \<le> sub_funded_tokens deal"
  using assms
  by (auto simp: validate_live_deal_shape_def authoritative_cap_def result_simps split: if_splits)

lemma wf_tc_nonempty: "wf_tc tc \<Longrightarrow> trim tc \<noteq> []"
  using trim_legacy by (auto simp: wf_tc_legacy wf_address_def) (simp add: legacy_def)

lemma fresh_ok:
  assumes "wf_tc tc" and "validate_live_deal_shape st deal = Inr ()" and "authoritative_cap st deal = Inr cap"
    and "sub_funded_tokens deal \<le> U128_MAX"
  shows "record_ok tc (fresh_record tc st deal cap)"
  using assms(1,4) shape_fits [OF assms(2,3)] wf_tc_nonempty
  by (simp add: record_ok_def fresh_record_def validate_record_iff)

lemma refreshed_ok:
  assumes "refreshed_record tc st deal cap old = Inr c" and "sub_funded_tokens deal \<le> U128_MAX"
  shows "record_ok tc c" and "committed_of old \<le> committed_of c"
proof -
  show "record_ok tc c"
    using assms by (auto simp: refreshed_record_def Let_def result_simps record_ok_def)
  show "committed_of old \<le> committed_of c"
    using assms(1) by (auto simp: refreshed_record_def Let_def result_simps)
qed

text \<open>A new cell for a deal that has none.\<close>

lemma new_cell:
  assumes ok: "system_ok to_text dir s" and wf: "wf_tc tc" and none: "hget (cm_entries (sys_m s)) tc = None"
    and r: "record_ok tc r" and b: "b + sys_served s tc \<le> committed_of r"
    and unread: "b = sys_base s tc \<or> hget (cm_disk (sys_m s)) (capacity_path dir tc) = None"
  defines "e \<equiv> \<lparr>en_path = Some (capacity_path dir tc), en_state =
    \<lparr>ce_record = r, ce_terminal = False, ce_unpersisted_delivered = 0\<rparr>\<rparr>"
  defines "m' \<equiv> (sys_m s)\<lparr>cm_cells := cm_cells (sys_m s) @ [e],
    cm_entries := hinsert tc (length (cm_cells (sys_m s))) (cm_entries (sys_m s))\<rparr>"
  shows "system_ok to_text dir (s\<lparr>sys_m := m', sys_base := (sys_base s)(tc := b)\<rparr>)"
proof -
  let ?s = "s\<lparr>sys_m := m', sys_base := (sys_base s)(tc := b)\<rparr>"
  let ?n = "length (cm_cells (sys_m s))"
  have "held_by (sys_live s) ?n = 0"
    using system_okD(4) [OF ok] by (fastforce simp: held_by_def)
  then have here: "cell_of ?s tc = Some e" "held ?s tc = 0"
    by (simp_all add: cell_of_def held_def m'_def hget_hinsert)
  have there: "cell_of ?s t = cell_of s t" "held ?s t = held s t" if "t \<noteq> tc" for t
    using that system_okD(2) [OF ok]
    by (cases "hget (cm_entries (sys_m s)) t"; auto simp: cell_of_def held_def m'_def hget_hinsert nth_append)+
  have old: "ledger_ok to_text dir tc None (hget (cm_disk (sys_m s)) (capacity_path dir tc)) (sys_base s tc) (sys_served s tc) 0"
    using system_okD(5) [OF ok wf] none by (simp add: cell_of_def held_def)
  have "ledger_ok to_text dir tc (Some e) (hget (cm_disk (sys_m s)) (capacity_path dir tc)) b (sys_served s tc) 0"
    using old r b unread unfolding ledger_ok_def by (auto simp: e_def)
  then have "ledger_ok to_text dir t (cell_of ?s t) (hget (cm_disk (sys_m ?s)) (capacity_path dir t))
      (sys_base ?s t) (sys_served ?s t) (held ?s t)" if "wf_tc t" for t
    using here there [of t] system_okD(5) [OF ok that] by (cases "t = tc") (simp_all add: m'_def)
  moreover have "ce_terminal (en_state (cm_cells m' ! i))
      \<or> hget (cm_entries m') (cr_token_contract (ce_record (en_state (cm_cells m' ! i)))) = Some i"
    if "i < Suc ?n" for i
  proof (cases "i = ?n")
    case True
    then show ?thesis using r by (simp add: m'_def e_def record_ok_def hget_hinsert)
  next
    case False
    then have "i < ?n" using that by simp
    then show ?thesis
      using system_okD(3) [OF ok, of i] none by (cases "ce_terminal (en_state (cm_cells (sys_m s) ! i))")
        (auto simp: m'_def nth_append hget_hinsert)
  qed
  ultimately show ?thesis
    using ok wf unfolding system_ok_def
    by (auto simp: m'_def hget_hinsert less_Suc_eq split: if_splits)
qed

lemma register_keeps:
  assumes ok: "system_ok to_text dir s" and codec: "text_codec to_text of_text" and wf: "wf_tc tc"
    and shape: "validate_live_deal_shape st deal = Inr ()" "authoritative_cap st deal = Inr cap"
      "sub_funded_tokens deal \<le> U128_MAX"
    and run: "register_entry of_text i tc st deal cap (sys_m s) = Inr (m1, k)"
  shows "system_ok to_text dir (s\<lparr>sys_m := m1,
      sys_base := (sys_base s)(tc := base_after tc (sys_m s) st m1 (sys_base s tc))\<rparr>)"
    and "hget (cm_entries m1) tc = Some k"
proof -
  note dir = system_okD(1) [OF ok]
  let ?p = "capacity_path dir tc"
  show "hget (cm_entries m1) tc = Some k"
    using run by (auto simp: register_entry_def Let_def result_simps hget_hinsert split: option.splits)
  show "system_ok to_text dir (s\<lparr>sys_m := m1,
      sys_base := (sys_base s)(tc := base_after tc (sys_m s) st m1 (sys_base s tc))\<rparr>)"
  proof (cases "hget (cm_entries (sys_m s)) tc")
    case (Some j)
    then show ?thesis using run ok dir by (auto simp: register_entry_def base_after_def)
  next
    case None
    have ledger: "ledger_ok to_text dir tc None (hget (cm_disk (sys_m s)) ?p) (sys_base s tc) (sys_served s tc) 0"
      using system_okD(5) [OF ok wf] None by (simp add: cell_of_def held_def)
    show ?thesis
    proof (cases "hget (cm_disk (sys_m s)) ?p")
      case no_file: None
      then have "sys_served s tc = 0" using ledger by (simp add: ledger_ok_def)
      then show ?thesis
        using run None no_file dir new_cell [OF ok wf None fresh_ok [OF wf shape], of "dcs_tokens_pending st"]
        by (auto simp: register_entry_def load_record_def Let_def base_after_def hget_hinsert fresh_record_def)
    next
      case (Some b)
      then obtain r where r: "b = to_text (record_to_json r)" "record_ok tc r"
        "sys_base s tc + sys_served s tc \<le> committed_of r"
        using ledger by (auto simp: ledger_ok_def)
      have "load_record of_text i ?p (cm_disk (sys_m s)) = Inr (Some r)"
        using run None dir load_record_Inr [OF codec wf r(2)] Some r(1)
        by (auto simp: register_entry_def Let_def result_simps)
      then show ?thesis
        using run None Some dir new_cell [OF ok wf None r(2,3)] r(2)
        by (auto simp: register_entry_def Let_def base_after_def record_ok_def)
    qed
  qed
qed

lemma refresh_keeps:
  assumes ok: "system_ok to_text dir s" and codec: "text_codec to_text of_text" and wf: "wf_tc tc"
    and funded: "sub_funded_tokens deal \<le> U128_MAX" and live: "\<not> is_stopped st"
    and run: "reconcile_deal to_text of_text i1 i2 tc st deal (sys_m s) = (m', r)"
  shows "system_ok to_text dir (s\<lparr>sys_m := m',
    sys_base := (sys_base s)(tc := base_after tc (sys_m s) st m' (sys_base s tc))\<rparr>)"
proof (cases "bindR (validate_live_deal_shape st deal) (\<lambda>_. authoritative_cap st deal)")
  case (Inl e)
  then show ?thesis using run live ok system_okD(1) [OF ok] by (auto simp: reconcile_deal_def base_after_def)
next
  case (Inr cap)
  then have shape: "validate_live_deal_shape st deal = Inr ()" "authoritative_cap st deal = Inr cap"
    by (auto simp: result_simps)
  show ?thesis
  proof (cases "register_entry of_text i1 tc st deal cap (sys_m s)")
    case (Inl e)
    then show ?thesis
      using run live Inr ok system_okD(1) [OF ok] by (auto simp: reconcile_deal_def base_after_def)
  next
    case reg: (Inr x)
    obtain m1 k where x: "x = (m1, k)" by (cases x)
    define s1 where "s1 = s\<lparr>sys_m := m1,
      sys_base := (sys_base s)(tc := base_after tc (sys_m s) st m1 (sys_base s tc))\<rparr>"
    have ok1: "system_ok to_text dir s1" and k: "hget (cm_entries m1) tc = Some k"
      using register_keeps [OF ok codec wf shape funded reg [unfolded x]] by (simp_all add: s1_def)
    have k1: "hget (cm_entries (sys_m s1)) tc = Some k" using k by (simp add: s1_def)
    note r1 = registered [OF ok1 k1, folded entry_at_def]
    let ?l = "en_state (entry_at m1 k)"
    have m1: "sys_m s1 = m1" by (simp add: s1_def)
    have cases: "m' = m1 \<or> (\<exists>c d y. refreshed_record tc st deal cap (ce_record ?l) = Inr c
        \<and> persist_candidate to_text i2 (en_path (entry_at m1 k)) c (cm_disk m1) = (d, y)
        \<and> (m' = m1\<lparr>cm_disk := d\<rparr> \<or> m' = set_state k (?l\<lparr>ce_record := c\<rparr>) d m1))"
      using run live Inr reg x by (auto simp: reconcile_deal_def Let_def split: if_splits sum.splits prod.splits)
    have after: "system_ok to_text dir (s1\<lparr>sys_m := m'\<rparr>)"
      using cases
    proof (elim disjE exE conjE)
      fix c d y
      assume c: "refreshed_record tc st deal cap (ce_record ?l) = Inr c"
        and w: "persist_candidate to_text i2 (en_path (entry_at m1 k)) c (cm_disk m1) = (d, y)"
      have more: "sys_base s1 tc + sys_served s1 tc + held_by (sys_live s1) k \<le> committed_of c"
        using r1(7) refreshed_ok(2) [OF c funded] m1 by simp
      have disk: "wrote to_text (capacity_path dir tc) (cm_disk (sys_m s1)) d (\<lambda>r. record_ok tc r
          \<and> sys_base s1 tc + sys_served s1 tc + held_by (sys_live s1) k \<le> committed_of r)"
        using w r1(4) refreshed_ok(1) [OF c funded] more m1 by (auto intro: persist_wrote)
      have step: "system_ok to_text dir (s1\<lparr>sys_m := set_state k l d (sys_m s1), sys_live := sys_live s1,
          sys_served := sys_served s1\<rparr>)" if "l = ?l \<or> l = ?l\<lparr>ce_record := c\<rparr>" for l
        by (rule op_frame [OF ok1 k1]; (fact disk | use that r1 more m1 refreshed_ok(1) [OF c funded]
              system_okD(4) [OF ok1] in auto))
      show "m' = m1\<lparr>cm_disk := d\<rparr> \<Longrightarrow> ?thesis"
        using step [of ?l] r1(2) by (simp add: m1 set_state_same)
      show "m' = set_state k (?l\<lparr>ce_record := c\<rparr>) d m1 \<Longrightarrow> ?thesis"
        using step [of "?l\<lparr>ce_record := c\<rparr>"] by (simp add: m1)
    next
      assume "m' = m1"
      then show ?thesis using ok1 m1 [symmetric] by simp
    qed
    have "cm_entries m' = cm_entries m1"
      using cases by (auto simp: set_state_def)
    then have "s1\<lparr>sys_m := m'\<rparr> = s\<lparr>sys_m := m',
        sys_base := (sys_base s)(tc := base_after tc (sys_m s) st m' (sys_base s tc))\<rparr>"
      by (cases s) (simp add: s1_def base_after_def cong: option.case_cong)
    with after show ?thesis by simp
  qed
qed

lemma retire_keeps:
  assumes ok: "system_ok to_text dir s" and wf: "wf_tc tc" and run: "mark_terminal i tc (sys_m s) = (m', r)"
  shows "system_ok to_text dir (s\<lparr>sys_m := m', sys_base := (sys_base s)(tc := 0), sys_served := (sys_served s)(tc := 0)\<rparr>)"
proof -
  let ?s = "s\<lparr>sys_m := m', sys_base := (sys_base s)(tc := 0), sys_served := (sys_served s)(tc := 0)\<rparr>"
  let ?p = "capacity_path dir tc"
  note dir = system_okD(1) [OF ok]
  have removed: "\<And>q. q \<noteq> ?p \<Longrightarrow> hget d q = hget (cm_disk (sys_m s)) q"
    "hget d ?p = None \<or> hget d ?p = hget (cm_disk (sys_m s)) ?p"
    if "remove_if_present i ?p (cm_disk (sys_m s)) = (d, x)" for d x
    using that by (auto simp: remove_if_present_def hget_hremove split: if_splits io.splits)
  have m': "cm_store_dir m' = Some dir" "cm_entries m' = hremove tc (cm_entries (sys_m s))"
    "length (cm_cells m') = length (cm_cells (sys_m s))"
    "\<And>q. q \<noteq> ?p \<Longrightarrow> hget (cm_disk m') q = hget (cm_disk (sys_m s)) q"
    "hget (cm_disk m') ?p = None \<or> hget (cm_disk m') ?p = hget (cm_disk (sys_m s)) ?p"
    using run dir removed registered(4) [OF ok]
    by (auto simp: mark_terminal_def Let_def set_state_def entry_at_def split: option.splits prod.splits)
  have cells: "cm_cells m' ! j = cm_cells (sys_m s) ! j" if "hget (cm_entries (sys_m s)) tc \<noteq> Some j" for j
    using run that by (auto simp: mark_terminal_def Let_def set_state_def entry_at_def split: option.splits prod.splits)
  have dead: "ce_terminal (en_state (cm_cells m' ! j))" if "hget (cm_entries (sys_m s)) tc = Some j" for j
    using run that registered(2) [OF ok that]
    by (auto simp: mark_terminal_def Let_def set_state_def entry_at_def split: option.splits prod.splits)
  have "ledger_ok to_text dir t (cell_of ?s t) (hget (cm_disk m') (capacity_path dir t)) (sys_base ?s t)
      (sys_served ?s t) (held ?s t)" if t: "wf_tc t" for t
  proof (cases "t = tc")
    case True
    then show ?thesis
      using ledger_less [OF ledger_gone [OF system_okD(5) [OF ok wf]], of 0 0 0] m'(5) ledger_removed
      by (auto simp: cell_of_def held_def m'(2) hget_hremove)
  next
    case False
    have "hget (cm_entries (sys_m s)) tc \<noteq> Some j" if "hget (cm_entries (sys_m s)) t = Some j" for j
      using registered_unique [OF ok that] False by blast
    then have "cell_of ?s t = cell_of s t" "held ?s t = held s t"
      using cells False
      by (cases "hget (cm_entries (sys_m s)) t"; simp add: cell_of_def held_def m'(2) hget_hremove)+
    moreover have "hget (cm_disk m') (capacity_path dir t) = hget (cm_disk (sys_m s)) (capacity_path dir t)"
      using m'(4) capacity_path_inj [OF t wf] False by blast
    ultimately show ?thesis using system_okD(5) [OF ok t] False by simp
  qed
  moreover have "ce_terminal (en_state (cm_cells m' ! j))
      \<or> hget (cm_entries m') (cr_token_contract (ce_record (en_state (cm_cells m' ! j)))) = Some j"
    if "j < length (cm_cells (sys_m s))" for j
  proof (cases "hget (cm_entries (sys_m s)) tc = Some j \<or> ce_terminal (en_state (cm_cells (sys_m s) ! j))")
    case True
    then show ?thesis using dead [of j] cells [of j] by metis
  next
    case False
    then show ?thesis using cells [of j] system_okD(3) [OF ok that] by (auto simp: m'(2) hget_hremove)
  qed
  ultimately show ?thesis
    using ok m' unfolding system_ok_def by (auto simp: hget_hremove)
qed

lemma crash_keeps:
  assumes ok: "system_ok to_text dir s"
  shows "system_ok to_text dir (s\<lparr>sys_m := (sys_m s)\<lparr>cm_entries := [], cm_cells := []\<rparr>, sys_live := []\<rparr>)"
proof -
  have "ledger_ok to_text dir tc None f b v 0" if "ledger_ok to_text dir tc c f b v h" for tc c f b v h
    using ledger_less [OF ledger_gone [OF that]] by simp
  then show ?thesis using ok by (auto simp: system_ok_def cell_of_def held_def)
qed

lemma capacity_reach_ok:
  assumes "text_codec to_text of_text" and "capacity_reach to_text of_text deals_dir s"
  shows "system_ok to_text (deals_dir @ ''/seller-capacity'') s"
  using assms(2)
proof induction
  case boot
  show ?case by (simp add: system_ok_def in_deals_dir_def cell_of_def held_def ledger_ok_def)
next
  case (serve s s')
  note ok = serve.IH
  from serve.hyps(2) show ?case
  proof cases
    case (refresh tc deal st i1 i2 m' r)
    then show ?thesis using refresh_keeps [OF ok assms(1)] by simp
  next
    case (retire tc i m' r)
    then show ?thesis using retire_keeps [OF ok] by simp
  next
    case (grant i tc n m' res)
    then show ?thesis using reserve_keeps [OF ok] by fastforce
  next
    case (deny i tc n m' e)
    then show ?thesis using reserve_keeps [OF ok] by fastforce
  next
    case (deliver k i n m' res d tc)
    then show ?thesis using deliver_keeps [OF ok deliver(2,3)] by simp
  next
    case (undelivered k i n m' res e)
    then show ?thesis using deliver_keeps [OF ok undelivered(2,3)] by simp
  next
    case (finish k i1 i2 m' res r)
    then show ?thesis using finish_keeps [OF ok] by simp
  next
    case (abandon k i m' res r)
    then show ?thesis using abandon_keeps [OF ok] by simp
  next
    case (lose k)
    then show ?thesis using drop_keeps [OF ok] by simp
  next
    case crash
    then show ?thesis using crash_keeps [OF ok] by simp
  qed
qed

end
