(* ===== verification/CapacityProperties.thy ===== *)
theory CapacityProperties
  imports CapacityLaws "HOL-Library.Countable"
begin

text \<open>
  The properties of the delivery capacity: what is served never exceeds what is funded, in any
  interleaving of requests, failing writes and crashes; what an operation reports as durable is on
  disk; a reservation that is given back leaves no trace. The last section shows where the coalesced
  delivery of one request is lost to another.
\<close>

section \<open>A codec for the concrete runs\<close>

instance json :: countable
  by countable_datatype

definition sample_to_text :: "json \<Rightarrow> string" where
  "sample_to_text j = replicate (Suc (to_nat j)) (CHR ''x'')"

definition sample_of_text :: "string \<Rightarrow> json option" where
  "sample_of_text s = Some (from_nat (length s - 1))"

lemma sample_codec: "text_codec sample_to_text sample_of_text"
  by (simp add: text_codec_def sample_to_text_def sample_of_text_def)

definition sample_tc :: token_contract where
  "sample_tc = ''0:'' @ replicate 64 (CHR ''a'')"

lemma sample_tc_wf: "wf_tc sample_tc"
  unfolding wf_tc_def sample_tc_def by (intro exI [of _ "replicate 64 (CHR ''a'')"] conjI refl) code_simp+

definition sample_chain :: DealChainState where
  "sample_chain = \<lparr>dcs_funded = True, dcs_opened = True, dcs_probe_accepted = True, dcs_disputed = False,
     dcs_deposit = 5, dcs_finalized_owed = 0, dcs_tokens_final = 1000000, dcs_tokens_pending = 1000000,
     dcs_probe_tick = 0, dcs_funded_time = Some 1, dcs_probe_time = 1, dcs_last_claim_time = 1,
     dcs_dispute_time = 0\<rparr>"

definition sample_deal :: DealSubscription where
  "sample_deal = \<lparr>sub_deal_flags = 0, sub_weeks = 0, sub_week_index = 0, sub_tokens_per_week = 3000000,
     sub_funded_tokens = 3000000, sub_tokens_paid = 1000000, sub_period_start = 1, sub_week_base_tokens = 0\<rparr>"

definition sample_boot :: CapacitySystem where
  "sample_boot = \<lparr>sys_m = in_deals_dir ''d'' [], sys_live = [], sys_base = (\<lambda>_. 0), sys_served = (\<lambda>_. 0)\<rparr>"

definition sample_record :: "u128 \<Rightarrow> u128 \<Rightarrow> DurableCapacityRecord" where
  "sample_record local out = \<lparr>cr_version = 1, cr_token_contract = sample_tc, cr_funded_tokens = 3000000,
     cr_authoritative_cap = 3000000, cr_tokens_pending_anchor = 1000000,
     cr_local_delivered_after_anchor = local, cr_outstanding_reservation = out\<rparr>"

definition sample_cell :: "u128 \<Rightarrow> u128 \<Rightarrow> u128 \<Rightarrow> CapacityEntry" where
  "sample_cell local out u = \<lparr>en_path = Some (capacity_path ''d/seller-capacity'' sample_tc), en_state =
     \<lparr>ce_record = sample_record local out, ce_terminal = False, ce_unpersisted_delivered = u\<rparr>\<rparr>"

definition sample_manager :: "CapacityEntry \<Rightarrow> disk \<Rightarrow> CapacityManager" where
  "sample_manager e d = \<lparr>cm_store_dir = Some ''d/seller-capacity'', cm_entries = [(sample_tc, 0)],
     cm_cells = [e], cm_disk = d\<rparr>"

lemma sample_valid: "1000000 + local + out \<le> 3000000 \<Longrightarrow> validate_record (sample_record local out) = Inr ()"
  using wf_tc_nonempty [OF sample_tc_wf]
  by (simp add: validate_record_iff sample_record_def CAPACITY_RECORD_VERSION_def U128_MAX_def)

lemma sample_register:
  "reconcile_deal to_text of_text IoOk IoOk sample_tc sample_chain sample_deal (in_deals_dir ''d'' [])
    = (sample_manager (sample_cell 0 0 0) [], Inr (Some (capacity_snapshot_of (sample_record 0 0))))"
proof -
  have "fresh_record sample_tc sample_chain sample_deal 3000000 = sample_record 0 0"
    by (simp add: fresh_record_def sample_chain_def sample_deal_def sample_record_def CAPACITY_RECORD_VERSION_def)
  then show ?thesis
    using sample_valid [of 0 0]
    by (simp add: reconcile_deal_def is_stopped_def validate_live_deal_shape_def authoritative_cap_def
        sample_chain_def sample_deal_def is_subscription_def register_entry_def in_deals_dir_def
        load_record_def refreshed_record_def sample_record_def sample_manager_def sample_cell_def
        entry_at_def hget_def hinsert_def TICK_SIZE_def Let_def flag_defs PROBE_SEED_TOKENS_def
        CAPACITY_RECORD_VERSION_def)
qed

text \<open>The sample deal is registered, a request reserves 2000 tokens, 500 are delivered, the process dies.\<close>

definition sample_disk :: "u128 \<Rightarrow> u128 \<Rightarrow> disk" where
  "sample_disk local out = [(capacity_path ''d/seller-capacity'' sample_tc, sample_to_text (record_to_json (sample_record local out)))]"

definition sample_request :: "u128 \<Rightarrow> u128 \<Rightarrow> CapacityReservation" where
  "sample_request initial left = \<lparr>rs_entry = 0, rs_initial = initial, rs_remaining = left, rs_finished = False\<rparr>"

lemma sample_record_more:
  "(sample_record local out)\<lparr>cr_outstanding_reservation := x\<rparr> = sample_record local x"
  "(sample_record local out)\<lparr>cr_local_delivered_after_anchor := y\<rparr> = sample_record y out"
  by (simp_all add: sample_record_def)

lemma sample_fields:
  "cr_outstanding_reservation (sample_record local out) = out"
  "cr_local_delivered_after_anchor (sample_record local out) = local"
  "cr_tokens_pending_anchor (sample_record local out) = 1000000"
  "cr_authoritative_cap (sample_record local out) = 3000000"
  "cr_token_contract (sample_record local out) = sample_tc"
  by (simp_all add: sample_record_def)

lemma sample_reserve:
  assumes "0 < n" and "local + out + n \<le> 2000000"
  shows "reserve sample_to_text IoOk sample_tc n (sample_manager (sample_cell local out u) d) =
    (sample_manager (sample_cell local (out + n) 0) (hinsert (capacity_path ''d/seller-capacity'' sample_tc)
       (sample_to_text (record_to_json (sample_record local (out + n)))) d), Inr (sample_request n n))"
proof -
  have "validate_record (sample_record local out) = Inr ()" "validate_record (sample_record local (out + n)) = Inr ()"
    using assms(2) sample_valid [of local out] sample_valid [of local "out + n"] by simp_all
  moreover have "available (capacity_snapshot_of (sample_record local out)) = Inr (2000000 - (local + out))"
    using assms(2) by (simp add: available_iff sample_fields U128_MAX_def)
  moreover have "min (2000000 - (local + out)) n = n" using assms(2) by simp
  ultimately show ?thesis
    using assms
    by (simp add: reserve_def sample_manager_def sample_cell_def entry_at_def hget_def Let_def sample_fields
        checked_add_def U128_MAX_def sample_record_more persist_candidate_def set_state_def sample_request_def)
qed

definition sample_dead :: CapacitySystem where
  "sample_dead = \<lparr>sys_m = \<lparr>cm_store_dir = Some ''d/seller-capacity'', cm_entries = [], cm_cells = [],
     cm_disk = sample_disk 0 2000\<rparr>, sys_live = [], sys_base = (\<lambda>_. 0)(sample_tc := 1000000),
     sys_served = (\<lambda>_. 0)(sample_tc := 500)\<rparr>"

lemma sample_deliver:
  assumes "0 < n" and "u + n \<le> out" and "u + n < 1000" and "n \<le> left"
  shows "record_delivered to_text i n (sample_request initial left) (sample_manager (sample_cell local out u) d) =
    (sample_manager (sample_cell local out (u + n)) d, sample_request initial (left - n), Inr 0)"
  using assms
  by (simp add: record_delivered_def sample_manager_def sample_cell_def sample_request_def entry_at_def Let_def
      checked_add_def U128_MAX_def sample_fields CAPACITY_PERSIST_TOKEN_INTERVAL_def set_state_def)

definition sample_serving :: CapacitySystem where
  "sample_serving = \<lparr>sys_m = sample_manager (sample_cell 0 2000 0) (sample_disk 0 2000),
    sys_live = [sample_request 2000 2000], sys_base = (\<lambda>_. 0)(sample_tc := 1000000), sys_served = (\<lambda>_. 0)\<rparr>"

lemma sample_serving_reach: "capacity_reach sample_to_text sample_of_text ''d'' sample_serving"
proof -
  let ?s0 = "\<lparr>sys_m = in_deals_dir ''d'' [], sys_live = [], sys_base = (\<lambda>_. 0), sys_served = (\<lambda>_. 0)\<rparr>"
  let ?s1 = "\<lparr>sys_m = sample_manager (sample_cell 0 0 0) [], sys_live = [],
    sys_base = (\<lambda>_. 0)(sample_tc := 1000000), sys_served = (\<lambda>_. 0)\<rparr>"
  have "capacity_step sample_to_text sample_of_text ?s0 ?s1"
    using capacity_step.refresh [OF sample_tc_wf, of sample_deal sample_chain sample_to_text sample_of_text IoOk IoOk ?s0]
      sample_register [of sample_to_text sample_of_text]
    by (simp add: sample_deal_def sample_chain_def is_stopped_def U128_MAX_def base_after_def
        sample_manager_def hget_def in_deals_dir_def)
  moreover have "capacity_step sample_to_text sample_of_text ?s1 sample_serving"
    using capacity_step.grant [of sample_to_text IoOk sample_tc 2000 ?s1] sample_reserve [of 2000 0 0 0 "[]"]
    by (simp add: sample_disk_def hinsert_def sample_serving_def)
  ultimately show ?thesis using serve [OF serve [OF boot]] by blast
qed

lemma sample_dead_reach: "capacity_reach sample_to_text sample_of_text ''d'' sample_dead"
proof -
  let ?s3 = "\<lparr>sys_m = sample_manager (sample_cell 0 2000 500) (sample_disk 0 2000),
    sys_live = [sample_request 2000 1500], sys_base = (\<lambda>_. 0)(sample_tc := 1000000),
    sys_served = (\<lambda>_. 0)(sample_tc := 500)\<rparr>"
  have "capacity_step sample_to_text sample_of_text sample_serving ?s3"
    using capacity_step.deliver [of 0 sample_serving sample_to_text IoOk 500] sample_deliver [of 500 0 2000 2000]
    by (simp add: sample_serving_def sample_request_def)
      (simp add: sample_manager_def sample_cell_def entry_at_def sample_fields)
  moreover have "capacity_step sample_to_text sample_of_text ?s3 sample_dead"
    using capacity_step.crash [of sample_to_text sample_of_text ?s3] by (simp add: sample_dead_def sample_manager_def)
  ultimately show ?thesis using serve [OF serve [OF sample_serving_reach]] by blast
qed

section \<open>Properties\<close>

text \<open>
  C5: The seller never delivers beyond what is funded. In every state reached by any interleaving of
  requests on any deals, with writes that fail before or after the file was replaced and with crashes
  anywhere, the high-water at which a deal's ledger was opened, plus every token whose delivery was
  recorded since, plus everything still reserved by live requests, stays inside the cap the chain
  allows now, which is inside the funded total. Whatever the process holds, the file of the deal
  covers the same amount, so the bound survives the next restart.
\<close>

theorem delivery_within_funding:
  assumes "text_codec to_text of_text" and "capacity_reach to_text of_text deals_dir s" and "wf_tc tc"
  shows "(case hget (cm_entries (sys_m s)) tc of
      None \<Rightarrow> True
    | Some i \<Rightarrow> (let r = ce_record (en_state (entry_at (sys_m s) i)) in
        sys_base s tc + sys_served s tc + held_by (sys_live s) i \<le> cr_authoritative_cap r
        \<and> cr_authoritative_cap r \<le> cr_funded_tokens r))
    \<and> (case load_record of_text IoOk (capacity_path (deals_dir @ ''/seller-capacity'') tc) (cm_disk (sys_m s)) of
        Inl _ \<Rightarrow> False
      | Inr None \<Rightarrow> sys_served s tc = 0
      | Inr (Some r) \<Rightarrow> cr_token_contract r = tc \<and> sys_base s tc + sys_served s tc \<le> cr_authoritative_cap r
          \<and> cr_authoritative_cap r \<le> cr_funded_tokens r)"
proof -
  let ?dir = "deals_dir @ ''/seller-capacity''"
  have ok: "system_ok to_text ?dir s" using capacity_reach_ok [OF assms(1,2)] .
  have bound: "n \<le> cr_authoritative_cap r \<and> cr_authoritative_cap r \<le> cr_funded_tokens r \<and> cr_token_contract r = tc"
    if "record_ok tc r" "n \<le> committed_of r" for n r
    using that by (auto simp: record_ok_def validate_record_iff)
  note ledger = system_okD(5) [OF ok assms(3)]
  have "case load_record of_text IoOk (capacity_path ?dir tc) (cm_disk (sys_m s)) of
        Inl _ \<Rightarrow> False
      | Inr None \<Rightarrow> sys_served s tc = 0
      | Inr (Some r) \<Rightarrow> cr_token_contract r = tc \<and> sys_base s tc + sys_served s tc \<le> cr_authoritative_cap r
          \<and> cr_authoritative_cap r \<le> cr_funded_tokens r"
  proof (cases "hget (cm_disk (sys_m s)) (capacity_path ?dir tc)")
    case None
    then show ?thesis using ledger by (simp add: load_record_def ledger_ok_def)
  next
    case (Some b)
    then obtain r where r: "b = to_text (record_to_json r)" "record_ok tc r"
      "sys_base s tc + sys_served s tc + held s tc \<le> committed_of r"
      using ledger by (auto simp: ledger_ok_def)
    have "load_record of_text IoOk (capacity_path ?dir tc) (cm_disk (sys_m s)) = Inr (Some r)"
      using load_persisted [OF assms(1,3) r(2)] Some r(1) by simp
    then show ?thesis using bound [OF r(2), of "sys_base s tc + sys_served s tc"] r(3) by simp
  qed
  moreover have "let r = ce_record (en_state (entry_at (sys_m s) i)) in
      sys_base s tc + sys_served s tc + held_by (sys_live s) i \<le> cr_authoritative_cap r
      \<and> cr_authoritative_cap r \<le> cr_funded_tokens r" if "hget (cm_entries (sys_m s)) tc = Some i" for i
    using bound [OF registered(5,7) [OF ok that]] by (simp add: Let_def entry_at_def)
  ultimately show ?thesis by (auto split: option.split)
qed

theorem delivery_within_funding_witness:
  "\<exists>r. load_record sample_of_text IoOk (capacity_path ''d/seller-capacity'' sample_tc) (cm_disk (sys_m sample_dead))
      = Inr (Some r) \<and> 1000500 \<le> cr_authoritative_cap r"
  using delivery_within_funding [OF sample_codec sample_dead_reach sample_tc_wf]
  by (auto simp: sample_dead_def split: sum.splits option.splits)

lemma flush_ok:
  assumes "flush_delivered to_text i (Some p) l d = (l', d', Inr n)" and "0 < n"
  shows "hget d' p = Some (to_text (record_to_json (ce_record l')))"
    and "cr_local_delivered_after_anchor (ce_record l') = cr_local_delivered_after_anchor (ce_record l) + n"
    and "n = ce_unpersisted_delivered l" and "ce_unpersisted_delivered l' = 0"
  using assms persist_ok
  by (fastforce simp: flush_delivered_def Let_def checked_sub_def checked_add_def
      split: if_splits sum.splits prod.splits)+

text \<open>The three operations that report durable tokens, seen from the disk.\<close>

lemma durable_effect:
  assumes path: "en_path (entry_at m (rs_entry res)) = Some p" and i: "rs_entry res < length (cm_cells m)"
    and run: "(m', res', Inr n) \<in> {record_delivered to_text i1 x res m, finish_exact to_text i1 i2 res m,
      finish_ambiguous to_text i1 res m}" and n: "0 < n"
  defines "old \<equiv> ce_record (en_state (entry_at m (rs_entry res)))"
    and "new \<equiv> ce_record (en_state (entry_at m' (rs_entry res)))"
  assumes ok: "record_ok tc old"
  shows "hget (cm_disk m') p = Some (to_text (record_to_json new))
    \<and> cr_local_delivered_after_anchor new = cr_local_delivered_after_anchor old + n \<and> record_ok tc new"
proof -
  consider "record_delivered to_text i1 x res m = (m', res', Inr n)"
    | "finish_exact to_text i1 i2 res m = (m', res', Inr n)"
    | "finish_ambiguous to_text i1 res m = (m', res', Inr n)" using run by auto
  then show ?thesis
  proof cases
    case 1
    then show ?thesis
      using n path i flush_ok(1,2) flush_effect(2) ok
      by (auto simp: record_delivered_def Let_def old_def new_def set_state_def entry_at_def
          split: if_splits option.splits prod.splits sum.splits)
  next
    case 2
    then show ?thesis
      using n path i flush_ok(2) persist_ok flush_effect(2) ok
      by (auto simp: finish_exact_def Let_def old_def new_def set_state_def entry_at_def record_ok_def
          split: if_splits option.splits prod.splits sum.splits)
  next
    case 3
    then show ?thesis
      using n path i flush_ok(1,2) flush_effect(2) ok
      by (auto simp: finish_ambiguous_def Let_def old_def new_def set_state_def entry_at_def
          split: if_splits option.splits prod.splits sum.splits)
  qed
qed

text \<open>
  The claim counter never leads the disk. Whenever recording a delivery or ending a request reports
  \<open>n\<close> tokens as durable, the file of the deal then holds the record in memory, and its delivered
  counter is \<open>n\<close> above what it was: a restart right after would load it back.
\<close>

theorem reported_delivery_is_durable:
  assumes "text_codec to_text of_text" and "capacity_reach to_text of_text deals_dir s"
    and "k < length (sys_live s)" and "res = sys_live s ! k" and "0 < n"
    and "\<not> ce_terminal (en_state (entry_at (sys_m s) (rs_entry res)))"
    and "(m', res', Inr n) \<in> {record_delivered to_text i1 x res (sys_m s),
      finish_exact to_text i1 i2 res (sys_m s), finish_ambiguous to_text i1 res (sys_m s)}"
  shows "let old = ce_record (en_state (entry_at (sys_m s) (rs_entry res)));
      new = ce_record (en_state (entry_at m' (rs_entry res))) in
    load_record of_text IoOk (capacity_path (deals_dir @ ''/seller-capacity'') (cr_token_contract old))
      (cm_disk m') = Inr (Some new)
    \<and> cr_local_delivered_after_anchor new = cr_local_delivered_after_anchor old + n"
proof -
  let ?dir = "deals_dir @ ''/seller-capacity''"
  let ?i = "rs_entry res"
  let ?old = "ce_record (en_state (entry_at (sys_m s) ?i))"
  let ?tc = "cr_token_contract ?old"
  have ok: "system_ok to_text ?dir s" using capacity_reach_ok [OF assms(1,2)] .
  have reg: "hget (cm_entries (sys_m s)) ?tc = Some ?i"
    using live_cell [OF ok assms(3)] assms(4,6) by simp
  note r = registered [OF ok reg, folded entry_at_def]
  have "hget (cm_disk m') (capacity_path ?dir ?tc)
        = Some (to_text (record_to_json (ce_record (en_state (entry_at m' ?i)))))
      \<and> cr_local_delivered_after_anchor (ce_record (en_state (entry_at m' ?i)))
        = cr_local_delivered_after_anchor ?old + n \<and> record_ok ?tc (ce_record (en_state (entry_at m' ?i)))"
    by (rule durable_effect [OF r(4,2) assms(7,5) r(5)])
  then show ?thesis using load_persisted [OF assms(1) r(1)] by (simp add: Let_def)
qed

lemma sample_flush:
  assumes "n \<le> left" and "1000 \<le> n" and "n \<le> out" and "local + out \<le> 2000000"
  shows "record_delivered sample_to_text IoOk n (sample_request initial left) (sample_manager (sample_cell local out 0) d) =
    (sample_manager (sample_cell (local + n) (out - n) 0) (hinsert (capacity_path ''d/seller-capacity'' sample_tc)
       (sample_to_text (record_to_json (sample_record (local + n) (out - n)))) d), sample_request initial (left - n), Inr n)"
proof -
  have "validate_record (sample_record (local + n) (out - n)) = Inr ()"
    using assms sample_valid [of "local + n" "out - n"] by simp
  moreover have "n \<le> U128_MAX" "local + n \<le> U128_MAX" "n \<le> U64_MAX" using assms by (simp_all add: MAX_defs)
  ultimately show ?thesis
    using assms
    by (simp add: record_delivered_def flush_delivered_def sample_manager_def sample_cell_def sample_request_def
        entry_at_def Let_def checked_add_def checked_sub_def sample_fields sample_record_more
        CAPACITY_PERSIST_TOKEN_INTERVAL_def set_state_def persist_candidate_def)
qed

theorem reported_delivery_is_durable_witness:
  "load_record sample_of_text IoOk (capacity_path ''d/seller-capacity'' sample_tc)
     (hinsert (capacity_path ''d/seller-capacity'' sample_tc)
       (sample_to_text (record_to_json (sample_record 1500 500))) (sample_disk 0 2000))
    = Inr (Some (sample_record 1500 500))"
proof -
  have live: "0 < length (sys_live sample_serving)" "sample_request 2000 2000 = sys_live sample_serving ! 0"
    "\<not> ce_terminal (en_state (entry_at (sys_m sample_serving) (rs_entry (sample_request 2000 2000))))"
    by (simp_all add: sample_serving_def sample_manager_def sample_cell_def entry_at_def sample_request_def)
  have "record_delivered sample_to_text IoOk 1500 (sample_request 2000 2000) (sys_m sample_serving) =
    (sample_manager (sample_cell 1500 500 0) (hinsert (capacity_path ''d/seller-capacity'' sample_tc)
       (sample_to_text (record_to_json (sample_record 1500 500))) (sample_disk 0 2000)), sample_request 2000 500, Inr 1500)"
    using sample_flush [of 1500 2000 2000 0] by (simp add: sample_serving_def)
  then have run: "(sample_manager (sample_cell 1500 500 0) (hinsert (capacity_path ''d/seller-capacity'' sample_tc)
       (sample_to_text (record_to_json (sample_record 1500 500))) (sample_disk 0 2000)), sample_request 2000 500, Inr 1500)
    \<in> {record_delivered sample_to_text IoOk 1500 (sample_request 2000 2000) (sys_m sample_serving),
      finish_exact sample_to_text IoOk IoOk (sample_request 2000 2000) (sys_m sample_serving),
      finish_ambiguous sample_to_text IoOk (sample_request 2000 2000) (sys_m sample_serving)}" by simp
  from reported_delivery_is_durable [OF sample_codec sample_serving_reach live(1,2) _ live(3) run]
  show ?thesis
    by (simp add: Let_def sample_serving_def sample_manager_def sample_cell_def entry_at_def sample_request_def sample_fields)
qed

text \<open>
  Capacity is neither lost nor invented. On every reachable registered deal a reservation is granted
  exactly when something is free, for the smaller of what is asked and what is free; and a request that
  delivers nothing and is given back leaves the deal's record as it was.
\<close>

theorem reserve_and_release:
  assumes "text_codec to_text of_text" and "capacity_reach to_text of_text deals_dir s"
    and "hget (cm_entries (sys_m s)) tc = Some i" and "0 < n"
  shows "let r = ce_record (en_state (entry_at (sys_m s) i)); free = cr_authoritative_cap r - committed_of r in
    if free = 0 then reserve to_text IoOk tc n (sys_m s) = (sys_m s, Inl Exhausted)
    else \<exists>m1 res m2 res2. reserve to_text IoOk tc n (sys_m s) = (m1, Inr res) \<and> rs_remaining res = min free n
      \<and> finish_exact to_text IoOk IoOk res m1 = (m2, res2, Inr 0) \<and> rs_finished res2
      \<and> ce_record (en_state (entry_at m2 i)) = r"
proof -
  let ?dir = "deals_dir @ ''/seller-capacity''"
  let ?l = "en_state (entry_at (sys_m s) i)"
  let ?r = "ce_record ?l"
  have ok: "system_ok to_text ?dir s" using capacity_reach_ok [OF assms(1,2)] .
  note reg = registered [OF ok assms(3), folded entry_at_def]
  have valid: "validate_record ?r = Inr ()" "committed_of ?r \<le> cr_authoritative_cap ?r"
    "cr_authoritative_cap ?r \<le> U128_MAX"
    using reg(5) by (auto simp: record_ok_def validate_record_iff)
  then have av: "available (capacity_snapshot_of ?r) = Inr (cr_authoritative_cap ?r - committed_of ?r)"
    by (simp add: available_iff)
  show ?thesis
  proof (cases "cr_authoritative_cap ?r - committed_of ?r = 0")
    case True
    then show ?thesis using assms(3,4) reg(3) valid av by (simp add: reserve_def Let_def)
  next
    case False
    define a where "a = min (cr_authoritative_cap ?r - committed_of ?r) n"
    define c where "c = ?r\<lparr>cr_outstanding_reservation := cr_outstanding_reservation ?r + a\<rparr>"
    define d where "d = hinsert (capacity_path ?dir tc) (to_text (record_to_json c)) (cm_disk (sys_m s))"
    define m1 where "m1 = set_state i (?l\<lparr>ce_unpersisted_delivered := 0, ce_record := c\<rparr>) d (sys_m s)"
    have a: "0 < a" "cr_outstanding_reservation ?r + a \<le> U128_MAX" "committed_of ?r + a \<le> cr_authoritative_cap ?r"
      using False assms(4) valid by (auto simp: a_def)
    have c_ok: "validate_record c = Inr ()" using valid a by (auto simp: c_def validate_record_iff)
    have run: "reserve to_text IoOk tc n (sys_m s)
        = (m1, Inr \<lparr>rs_entry = i, rs_initial = a, rs_remaining = a, rs_finished = False\<rparr>)"
      using assms(3,4) reg(3,4) valid(1) av a c_ok
      by (simp add: reserve_def Let_def checked_add_def a_def [symmetric] c_def [symmetric] d_def [symmetric]
          m1_def persist_candidate_def)
    have m1: "entry_at m1 i = (entry_at (sys_m s) i)\<lparr>en_state := ?l\<lparr>ce_unpersisted_delivered := 0, ce_record := c\<rparr>\<rparr>"
      "i < length (cm_cells m1)"
      using reg(2) by (simp_all add: m1_def set_state_def entry_at_def)
    have undone: "c\<lparr>cr_outstanding_reservation := cr_outstanding_reservation c - a\<rparr> = ?r" by (simp add: c_def)
    obtain m2 res2 where fin: "finish_exact to_text IoOk IoOk
        \<lparr>rs_entry = i, rs_initial = a, rs_remaining = a, rs_finished = False\<rparr> m1 = (m2, res2, Inr 0)"
      "rs_finished res2" "ce_record (en_state (entry_at m2 i)) = ?r"
      using reg(3,4) m1 undone valid(1) a
      by (simp add: finish_exact_def Let_def flush_delivered_def checked_sub_def persist_candidate_def c_def)
        (simp add: set_state_def entry_at_def)
    show ?thesis
      using False run fin by (auto simp: Let_def a_def)
  qed
qed

theorem reserve_and_release_witness:
  "\<exists>m1 res m2 res2. reserve sample_to_text IoOk sample_tc 7 (sys_m sample_serving) = (m1, Inr res) \<and> rs_remaining res = 7
    \<and> finish_exact sample_to_text IoOk IoOk res m1 = (m2, res2, Inr 0)"
proof -
  have "hget (cm_entries (sys_m sample_serving)) sample_tc = Some 0"
    by (simp add: sample_serving_def sample_manager_def hget_def)
  moreover have "ce_record (en_state (entry_at (sys_m sample_serving) 0)) = sample_record 0 2000"
    by (simp add: sample_serving_def sample_manager_def sample_cell_def entry_at_def)
  ultimately show ?thesis
    using reserve_and_release [OF sample_codec sample_serving_reach, of sample_tc 0 7]
    by (fastforce simp: Let_def sample_fields)
qed

section \<open>Delivery lost between two requests\<close>

text \<open>
  \<open>reserve\<close> resets the coalesced delivery of the entry without having written it. A request that
  delivered 500 tokens reports them when it ends, unless another request reserved in between: then it
  ends reporting none, the record never counts them as delivered, and they stay reserved for ever.
\<close>

lemma reserve_drops_coalesced_delivery:
  defines "delivered \<equiv> sample_manager (sample_cell 0 2000 500) (sample_disk 0 2000)"
  shows "\<exists>m' r'. finish_exact sample_to_text IoOk IoOk (sample_request 2000 1500) delivered = (m', r', Inr 500)
      \<and> ce_record (en_state (entry_at m' 0)) = sample_record 500 0"
    and "\<exists>m1 b m' r'. reserve sample_to_text IoOk sample_tc 100 delivered = (m1, Inr b)
      \<and> finish_exact sample_to_text IoOk IoOk (sample_request 2000 1500) m1 = (m', r', Inr 0)
      \<and> ce_record (en_state (entry_at m' 0)) = sample_record 0 600 \<and> rs_remaining b = 100"
proof -
  have v: "validate_record (sample_record 500 1500) = Inr ()" "validate_record (sample_record 500 0) = Inr ()"
    "validate_record (sample_record 0 600) = Inr ()"
    by (rule sample_valid, simp)+
  show "\<exists>m' r'. finish_exact sample_to_text IoOk IoOk (sample_request 2000 1500) delivered = (m', r', Inr 500)
      \<and> ce_record (en_state (entry_at m' 0)) = sample_record 500 0"
    using v
    by (simp add: finish_exact_def flush_delivered_def delivered_def sample_manager_def sample_cell_def
        sample_request_def entry_at_def Let_def checked_add_def checked_sub_def MAX_defs sample_fields
        sample_record_more set_state_def persist_candidate_def)
  show "\<exists>m1 b m' r'. reserve sample_to_text IoOk sample_tc 100 delivered = (m1, Inr b)
      \<and> finish_exact sample_to_text IoOk IoOk (sample_request 2000 1500) m1 = (m', r', Inr 0)
      \<and> ce_record (en_state (entry_at m' 0)) = sample_record 0 600 \<and> rs_remaining b = 100"
    using v sample_reserve [of 100 0 2000 500 "sample_disk 0 2000"]
    by (simp add: delivered_def finish_exact_def flush_delivered_def sample_manager_def sample_cell_def
        sample_request_def entry_at_def Let_def checked_sub_def sample_fields
        sample_record_more set_state_def persist_candidate_def)
qed

end
