(* ===== verification/RelayCapacity.thy ===== *)
theory RelayCapacity
  imports Relay CapacityProperties
begin

text \<open>
  The relay on a capacity reservation: whatever the upstream sends, the buyer's stream does and the disk
  refuses, one relayed request is a sequence of steps of the capacity system, so its bounds hold after it.
\<close>

lemma flush_same_contract:
  "flush_delivered to_text i p l d = (l', d', r) \<Longrightarrow> cr_token_contract (ce_record l') = cr_token_contract (ce_record l)"
  by (auto simp: flush_delivered_def Let_def split: if_splits option.splits sum.splits prod.splits)

lemma set_state_entry [simp]: "k < length (cm_cells m) \<Longrightarrow> en_state (entry_at (set_state k l d m) k) = l"
  by (simp add: set_state_def entry_at_def)

lemma record_delivered_frame:
  assumes "record_delivered to_text i n res m = (m', res', out)" and "rs_entry res < length (cm_cells m)"
  shows "rs_entry res' = rs_entry res" and "rs_remaining res' \<le> rs_remaining res"
    and "out = Inr d \<Longrightarrow> rs_remaining res' + n = rs_remaining res"
    and "cr_token_contract (ce_record (en_state (entry_at m' (rs_entry res))))
      = cr_token_contract (ce_record (en_state (entry_at m (rs_entry res))))"
  using assms
  by (auto simp: record_delivered_def Let_def dest!: flush_same_contract
      split: if_splits option.splits sum.splits prod.splits)

text \<open>
  A recorder inside the system: its manager is that of a reachable state in which its reservation is live,
  and what has been recorded so far was taken from the reservation and counted as served.
\<close>

definition in_system ::
  "(json \<Rightarrow> string) \<Rightarrow> (string \<Rightarrow> json option) \<Rightarrow> string \<Rightarrow> nat \<Rightarrow> token_contract \<Rightarrow> nat \<Rightarrow> nat \<Rightarrow> nat \<Rightarrow> nat
    \<Rightarrow> CapacityRecorder \<Rightarrow> bool" where
  "in_system to_text of_text dir k tc granted base served n r \<longleftrightarrow>
    (\<exists>s. capacity_reach to_text of_text dir s \<and> sys_m s = cd_manager r
      \<and> k < length (sys_live s) \<and> sys_live s ! k = cd_reservation r
      \<and> cr_token_contract (ce_record (en_state (entry_at (cd_manager r) (rs_entry (cd_reservation r))))) = tc
      \<and> rs_remaining (cd_reservation r) + n \<le> granted \<and> sys_base s tc = base \<and> served + n \<le> sys_served s tc)"

lemma advance_count_keeps: "advance_count d r = (r', status) \<Longrightarrow>
    cd_manager r' = cd_manager r \<and> cd_reservation r' = cd_reservation r"
  by (auto simp: advance_count_def split: if_splits sum.splits)

lemma in_system_less:
  "in_system to_text of_text dir k tc granted base served (n + x) r
    \<Longrightarrow> in_system to_text of_text dir k tc granted base served n r"
  by (force simp: in_system_def)

lemma in_system_cong:
  "cd_manager r' = cd_manager r \<Longrightarrow> cd_reservation r' = cd_reservation r \<Longrightarrow>
    in_system to_text of_text dir k tc granted base served n r'
      = in_system to_text of_text dir k tc granted base served n r"
  by (simp add: in_system_def)

lemma record_in_system:
  assumes codec: "text_codec to_text of_text"
    and r: "in_system to_text of_text dir k tc granted base served n r"
    and rec: "record_delivered to_text i x (cd_reservation r) (cd_manager r) = (m, res, out)"
    and r': "cd_manager r' = m" "cd_reservation r' = res"
  shows "in_system to_text of_text dir k tc granted base served (case out of Inr _ \<Rightarrow> n + x | Inl _ \<Rightarrow> n) r'"
proof -
  obtain s where s: "capacity_reach to_text of_text dir s" "sys_m s = cd_manager r" "k < length (sys_live s)"
    "sys_live s ! k = cd_reservation r" "rs_remaining (cd_reservation r) + n \<le> granted" "sys_base s tc = base"
    "served + n \<le> sys_served s tc"
    and tc: "cr_token_contract (ce_record (en_state (entry_at (cd_manager r) (rs_entry (cd_reservation r))))) = tc"
    using r by (auto simp: in_system_def)
  have cell: "rs_entry (cd_reservation r) < length (cm_cells (cd_manager r))"
    using system_okD(4) [OF capacity_reach_ok [OF codec s(1)] nth_mem [OF s(3)]] s(2,4) by simp
  note frame = record_delivered_frame [OF rec cell]
  show ?thesis
  proof (cases out)
    case (Inl e)
    let ?s = "s\<lparr>sys_m := m, sys_live := (sys_live s)[k := res]\<rparr>"
    have "record_delivered to_text i x (sys_live s ! k) (sys_m s) = (m, res, Inl e)"
      using rec Inl s(2,4) by simp
    then have "capacity_reach to_text of_text dir ?s"
      by (rule serve [OF s(1) undelivered [OF s(3)]])
    then show ?thesis
      using Inl s tc frame(1,2,4) r' unfolding in_system_def by (intro exI [of _ ?s]) simp
  next
    case (Inr d)
    let ?s = "s\<lparr>sys_m := m, sys_live := (sys_live s)[k := res], sys_served := (sys_served s)(tc := sys_served s tc + x)\<rparr>"
    have "record_delivered to_text i x (sys_live s ! k) (sys_m s) = (m, res, Inr d)"
      using rec Inr s(2,4) by simp
    then have "capacity_reach to_text of_text dir ?s"
      by (rule serve [OF s(1) deliver [OF s(3)]]) (simp add: tc s(2,4))
    then show ?thesis
      using Inr s tc frame(1,3,4) r' unfolding in_system_def by (intro exI [of _ ?s]) simp
  qed
qed

interpretation capacity_count: delivery_recorder "capacity_recorder to_text"
    "\<lambda>n r. text_codec to_text of_text \<and> in_system to_text of_text dir k tc granted base served n r"
  for to_text of_text dir k tc granted base served
proof
  fix n r x r' status
  assume r: "text_codec to_text of_text \<and> in_system to_text of_text dir k tc granted base served n r"
  obtain m res out where rec: "record_delivered to_text (cd_io r 0) x (cd_reservation r) (cd_manager r) = (m, res, out)"
    by (metis prod_cases3)
  let ?r = "r \<lparr> cd_manager := m, cd_reservation := res, cd_io := (\<lambda>n. cd_io r (n + 2)) \<rparr>"
  have moved: "in_system to_text of_text dir k tc granted base served (case out of Inr _ \<Rightarrow> n + x | Inl _ \<Rightarrow> n) r'"
    if "settled (m, res, out) r = (r', st)" for st
  proof -
    have "cd_manager r' = m \<and> cd_reservation r' = res"
      using that advance_count_keeps [of _ ?r r' st] by (auto simp: settled_def Let_def split: sum.splits)
    then show ?thesis using record_in_system [OF _ _ rec] r by blast
  qed
  show "text_codec to_text of_text \<and> in_system to_text of_text dir k tc granted base served (n + x) r'"
    if "rec_deliver (capacity_recorder to_text) x r = (r', None)"
    using that r moved rec
    by (auto simp: capacity_recorder_def settled_def Let_def split: sum.splits)
  show "text_codec to_text of_text \<and> in_system to_text of_text dir k tc granted base served n r'"
    if "rec_deliver (capacity_recorder to_text) x r = (r', Some status)"
  proof (cases "checked_authoritative_tokens (cd_count r) x")
    case (Inl e)
    then show ?thesis using that r by (simp add: capacity_recorder_def)
  next
    case (Inr c)
    then have "settled (m, res, out) r = (r', Some status)" using that rec by (simp add: capacity_recorder_def)
    from moved [OF this] r show ?thesis by (auto dest: in_system_less split: sum.splits)
  qed
qed

text \<open>The end of the request is a step of the system too.\<close>

lemma finish_in_system:
  assumes "in_system to_text of_text dir k tc granted base served n r"
    and "rec_finish (capacity_recorder to_text) f r = (r', status)"
  shows "\<exists>s. capacity_reach to_text of_text dir s \<and> sys_m s = cd_manager r' \<and> sys_base s tc = base
    \<and> served + n \<le> sys_served s tc"
proof -
  obtain s where s: "capacity_reach to_text of_text dir s" "sys_m s = cd_manager r" "k < length (sys_live s)"
    "sys_live s ! k = cd_reservation r" "sys_base s tc = base" "served + n \<le> sys_served s tc"
    using assms(1) by (auto simp: in_system_def)
  obtain m res out where run: "(if f = AmbiguousUsage
      then finish_ambiguous to_text (cd_io r 0) (cd_reservation r) (cd_manager r)
      else finish_exact to_text (cd_io r 0) (cd_io r 1) (cd_reservation r) (cd_manager r)) = (m, res, out)"
    by (metis prod_cases3)
  have "cd_manager r' = m"
    using assms(2) run advance_count_keeps
    by (auto simp: capacity_recorder_def settled_def Let_def split: if_splits sum.splits dest!: advance_count_keeps)
  moreover have "capacity_reach to_text of_text dir (s\<lparr>sys_m := m, sys_live := drop_nth k (sys_live s)\<rparr>)"
    using run s(2,4) finish [OF s(3)] abandon [OF s(3)] by (auto intro!: serve [OF s(1)] split: if_splits)
  ultimately show ?thesis using s by (intro exI [of _ "s\<lparr>sys_m := m, sys_live := drop_nth k (sys_live s)\<rparr>"]) simp
qed

text \<open>
  C2: A relayed request is paid for. From every reachable state of the capacity system, whatever the
  upstream sends, the buyer does and the disk refuses, the tokens the relay records stay inside the
  reservation of the request; and after it the file of the deal covers them, inside the cap the chain
  allows and the total that is funded.
\<close>

theorem relayed_tokens_are_funded:
  assumes "text_codec to_text of_text" and "capacity_reach to_text of_text dir s" and "wf_tc tc"
    and "k < length (sys_live s)" and "sys_live s ! k = cd_reservation r" and "sys_m s = cd_manager r"
    and "cr_token_contract (ce_record (en_state (entry_at (cd_manager r) (rs_entry (cd_reservation r))))) = tc"
    and "e = relay_counting (capacity_recorder to_text) report arrivals r"
  shows "recorded (re_actions e) \<le> rs_remaining (cd_reservation r)
    \<and> (recorded (re_actions e) = 0 \<or> (\<exists>c. load_record of_text IoOk (capacity_path (dir @ ''/seller-capacity'') tc)
        (cm_disk (cd_manager (re_recorder e))) = Inr (Some c)
      \<and> sys_base s tc + sys_served s tc + recorded (re_actions e) \<le> cr_authoritative_cap c
      \<and> cr_authoritative_cap c \<le> cr_funded_tokens c))"
proof -
  let ?granted = "rs_remaining (cd_reservation r)" and ?dir = "dir @ ''/seller-capacity''"
  let ?loop = "relay_loop (capacity_recorder to_text) report arrivals False 0 r"
  let ?n = "recorded (re_actions ?loop)"
  have "in_system to_text of_text dir k tc ?granted (sys_base s tc) (sys_served s tc) 0 r"
    unfolding in_system_def using assms by (intro exI [of _ s]) simp
  then have loop: "in_system to_text of_text dir k tc ?granted (sys_base s tc) (sys_served s tc) ?n (re_recorder ?loop)"
    using capacity_count.relay_loop_good [of to_text of_text dir k tc ?granted "sys_base s tc" "sys_served s tc" 0 r]
      assms(1) by simp
  obtain r' status where fin: "rec_finish (capacity_recorder to_text) (re_finish ?loop) (re_recorder ?loop) = (r', status)"
    by fastforce
  have e: "re_actions e = re_actions ?loop" "re_recorder e = r'"
    using assms(8) fin by (simp_all add: relay_counting_def Let_def)
  obtain s' where s': "capacity_reach to_text of_text dir s'" "sys_m s' = cd_manager r'" "sys_base s' tc = sys_base s tc"
    "sys_served s tc + ?n \<le> sys_served s' tc"
    using finish_in_system [OF loop fin] by blast
  have bound: "?n \<le> ?granted" using loop by (auto simp: in_system_def)
  note ledger = system_okD(5) [OF capacity_reach_ok [OF assms(1) s'(1)] assms(3)]
  have "\<exists>c. load_record of_text IoOk (capacity_path ?dir tc) (cm_disk (cd_manager r')) = Inr (Some c)
      \<and> sys_base s tc + sys_served s tc + ?n \<le> cr_authoritative_cap c \<and> cr_authoritative_cap c \<le> cr_funded_tokens c"
    if "?n \<noteq> 0"
  proof (cases "hget (cm_disk (sys_m s')) (capacity_path ?dir tc)")
    case None
    with ledger s'(4) that show ?thesis by (simp add: ledger_ok_def)
  next
    case (Some b)
    then obtain c where c: "b = to_text (record_to_json c)" "record_ok tc c"
      "sys_base s' tc + sys_served s' tc + held s' tc \<le> committed_of c"
      using ledger by (auto simp: ledger_ok_def)
    have "load_record of_text IoOk (capacity_path ?dir tc) (cm_disk (sys_m s')) = Inr (Some c)"
      using load_persisted [OF assms(1,3) c(2)] Some c(1) by simp
    then show ?thesis using c(2,3) s' by (auto simp: record_ok_def validate_record_iff)
  qed
  with bound show ?thesis by (auto simp: e)
qed

definition sample_recorder :: CapacityRecorder where
  "sample_recorder = \<lparr> cd_manager = sys_m sample_serving, cd_reservation = sample_request 2000 2000, cd_count = 0,
    cd_io = (\<lambda>_. IoOk) \<rparr>"

abbreviation sample_relayed :: "CapacityRecorder RelayEnd" where
  "sample_relayed \<equiv> relay_counting (capacity_recorder sample_to_text) False [Event (UpChunk sample_chunk 500 True)] sample_recorder"

lemma sample_relayed_500: "recorded (re_actions sample_relayed) = 500"
  using sample_deliver [of 500 0 2000 2000 sample_to_text IoOk 2000 0 "sample_disk 0 2000"]
  by (simp add: relay_counting_def capacity_recorder_def checked_authoritative_tokens_def checked_add_def MAX_defs
      settled_def advance_count_def after_actions_def stops_def sample_recorder_def sample_serving_def Let_def split: prod.split)

theorem relayed_tokens_are_funded_witness:
  "\<exists>c. load_record sample_of_text IoOk (capacity_path ''d/seller-capacity'' sample_tc)
        (cm_disk (cd_manager (re_recorder sample_relayed))) = Inr (Some c) \<and> 1000500 \<le> cr_authoritative_cap c"
proof -
  have start: "0 < length (sys_live sample_serving)" "sys_live sample_serving ! 0 = cd_reservation sample_recorder"
    "sys_m sample_serving = cd_manager sample_recorder"
    "cr_token_contract (ce_record (en_state (entry_at (cd_manager sample_recorder)
      (rs_entry (cd_reservation sample_recorder))))) = sample_tc"
    by (simp_all add: sample_recorder_def sample_serving_def sample_manager_def sample_cell_def sample_request_def
        entry_at_def sample_fields)
  from relayed_tokens_are_funded [OF sample_codec sample_serving_reach sample_tc_wf start refl [of sample_relayed]] sample_relayed_500
  show ?thesis by (auto simp: sample_serving_def)
qed

end
