(* ===== verification/Routing.thy ===== *)
theory Routing
  imports MarketTypes "HOL-Library.Product_Lexorder"
begin

text \<open>
  The buyer's routing loop, \<open>src/crates/dexdo/src/buyer/routing.rs\<close>: rank the offers of the book that
  fit the user's frame, try them one after the other, react to a seller that cheats or vanishes, and stop
  at the first that delivers. The chain and the deal runner are parameters that act on a world \<open>'w\<close>; so
  is the draw that selects a request for a spot check from the rate of the frame and the score of the
  seller, since it computes with floating-point numbers (a rate is kept as its 64 bits). The
  scores are unbounded integers; one step moves a score by one.
\<close>

section \<open>The frame, the memory and the ranking\<close>

type_synonym f64 = "64 word"

datatype ScammerReaction = StopReaction | DisputeReaction

record CappedBuy =
  cb_model :: string
  cb_price_cap :: u128
  cb_ticks :: u128
  cb_scammer_reaction :: ScammerReaction
  cb_spot_check_rate :: f64

record Candidate =
  ca_seller_id :: string
  ca_token_contract :: string
  ca_price_per_tick :: u128
  ca_max_ticks :: u128

type_synonym blacklist = "string list"
type_synonym seller_scores = "(string, int) hash_map"

definition SELLER_SCORE_PASS_DELTA :: int where "SELLER_SCORE_PASS_DELTA = 1"
definition SELLER_SCORE_BAIL_DELTA :: int where "SELLER_SCORE_BAIL_DELTA = - 1"

definition blacklist_mark :: "string \<Rightarrow> blacklist \<Rightarrow> blacklist" where
  "blacklist_mark seller bl = List.insert seller bl"

definition score_of :: "seller_scores \<Rightarrow> string \<Rightarrow> int" where
  "score_of scores seller = (case hget scores seller of Some n \<Rightarrow> n | None \<Rightarrow> 0)"

definition record_pass :: "string \<Rightarrow> seller_scores \<Rightarrow> seller_scores" where
  "record_pass seller scores = hinsert seller (score_of scores seller + SELLER_SCORE_PASS_DELTA) scores"

definition record_bail :: "string \<Rightarrow> seller_scores \<Rightarrow> seller_scores" where
  "record_bail seller scores = hinsert seller (score_of scores seller + SELLER_SCORE_BAIL_DELTA) scores"

definition eligible :: "CappedBuy \<Rightarrow> blacklist \<Rightarrow> Candidate \<Rightarrow> bool" where
  "eligible frame bl c \<longleftrightarrow>
    ca_price_per_tick c \<le> cb_price_cap frame \<and> cb_ticks frame \<le> ca_max_ticks c \<and> ca_seller_id c \<notin> set bl"

abbreviation rank_key :: "seller_scores \<Rightarrow> Candidate \<Rightarrow> u128 \<times> int \<times> string" where
  "rank_key scores c \<equiv> (ca_price_per_tick c, - score_of scores (ca_seller_id c), ca_seller_id c)"

definition eligible_ranked :: "CappedBuy \<Rightarrow> Candidate list \<Rightarrow> blacklist \<Rightarrow> seller_scores \<Rightarrow> Candidate list" where
  "eligible_ranked frame offers bl scores = sort_key (rank_key scores) (filter (eligible frame bl) offers)"

definition listings_to_candidates :: "OfferListing list \<Rightarrow> Candidate list" where
  "listings_to_candidates offers =
    map (\<lambda>l. \<lparr> ca_seller_id = ol_seller_id l, ca_token_contract = ol_token_contract l,
      ca_price_per_tick = ol_price_per_tick l, ca_max_ticks = ol_max_ticks l \<rparr>) offers"

section \<open>The loop\<close>

datatype DealOutcome = Delivered | Scam string | NoShow

record Attempt =
  at_seller_id :: string
  at_token_contract :: string
  at_outcome :: DealOutcome
  at_reaction :: "ScammerReaction option"

record RouteOutcome =
  ro_served_by :: "string option"
  ro_attempts :: "Attempt list"

text \<open>What the loop calls: each operation of the chain on a token contract answers whether it succeeded.\<close>

record 'w RoutedChain =
  rc_discover :: "'w \<Rightarrow> 'w \<times> OfferListing list option"
  rc_place_buy :: "string \<Rightarrow> 'w \<Rightarrow> 'w \<times> bool"
  rc_stop :: "string \<Rightarrow> 'w \<Rightarrow> 'w \<times> bool"
  rc_dispute :: "string \<Rightarrow> 'w \<Rightarrow> 'w \<times> bool"

record 'w DealRunner =
  dr_sample :: "f64 \<Rightarrow> int \<Rightarrow> 'w \<Rightarrow> 'w \<times> bool"
  dr_run :: "Candidate \<Rightarrow> bool \<Rightarrow> 'w \<Rightarrow> 'w \<times> DealOutcome"

record 'w RouteState =
  rs_world :: 'w
  rs_blacklist :: blacklist
  rs_scores :: seller_scores
  rs_attempts :: "Attempt list"

definition attempt_of :: "Candidate \<Rightarrow> DealOutcome \<Rightarrow> ScammerReaction option \<Rightarrow> Attempt" where
  "attempt_of c outcome reaction =
    \<lparr> at_seller_id = ca_seller_id c, at_token_contract = ca_token_contract c, at_outcome = outcome, at_reaction = reaction \<rparr>"

definition mark_failed :: "Candidate \<Rightarrow> DealOutcome \<Rightarrow> ScammerReaction option \<Rightarrow> 'w RouteState \<Rightarrow> 'w RouteState" where
  "mark_failed c outcome reaction s = s
    \<lparr> rs_blacklist := blacklist_mark (ca_seller_id c) (rs_blacklist s),
      rs_scores := record_bail (ca_seller_id c) (rs_scores s),
      rs_attempts := rs_attempts s @ [attempt_of c outcome reaction] \<rparr>"

text \<open>One candidate: the new state, and the outcome of its deal if the order was placed.\<close>

definition try_candidate ::
  "'w RoutedChain \<Rightarrow> 'w DealRunner \<Rightarrow> CappedBuy \<Rightarrow> Candidate \<Rightarrow> 'w RouteState \<Rightarrow> 'w RouteState \<times> DealOutcome" where
  "try_candidate chain runner frame c s =
    (let (w1, placed) = rc_place_buy chain (ca_token_contract c) (rs_world s) in
     if \<not> placed then (mark_failed c NoShow None (s \<lparr> rs_world := w1 \<rparr>), NoShow)
     else
       (let (w2, spot_check) = dr_sample runner (cb_spot_check_rate frame) (score_of (rs_scores s) (ca_seller_id c)) w1;
            (w3, outcome) = dr_run runner c spot_check w2
        in case outcome of
             Delivered \<Rightarrow>
               (s \<lparr> rs_world := w3, rs_scores := record_pass (ca_seller_id c) (rs_scores s),
                    rs_attempts := rs_attempts s @ [attempt_of c Delivered None] \<rparr>, Delivered)
           | Scam reason \<Rightarrow>
               (let reaction = cb_scammer_reaction frame;
                    (w4, _) = (case reaction of
                       StopReaction \<Rightarrow> rc_stop chain (ca_token_contract c) w3
                     | DisputeReaction \<Rightarrow> rc_dispute chain (ca_token_contract c) w3)
                in (mark_failed c (Scam reason) (Some reaction) (s \<lparr> rs_world := w4 \<rparr>), Scam reason))
           | NoShow \<Rightarrow>
               (let (w4, _) = rc_stop chain (ca_token_contract c) w3
                in (mark_failed c NoShow None (s \<lparr> rs_world := w4 \<rparr>), NoShow))))"

fun route_candidates ::
  "'w RoutedChain \<Rightarrow> 'w DealRunner \<Rightarrow> CappedBuy \<Rightarrow> Candidate list \<Rightarrow> 'w RouteState \<Rightarrow> 'w RouteState \<times> string option" where
  "route_candidates chain runner frame [] s = (s, None)"
| "route_candidates chain runner frame (c # cs) s =
    (let (s', outcome) = try_candidate chain runner frame c s in
     case outcome of
       Delivered \<Rightarrow> (s', Some (ca_seller_id c))
     | Scam _ \<Rightarrow>
         if cb_scammer_reaction frame = DisputeReaction then (s', None) else route_candidates chain runner frame cs s'
     | NoShow \<Rightarrow> route_candidates chain runner frame cs s')"

definition route_capped_buy ::
  "'w RoutedChain \<Rightarrow> 'w DealRunner \<Rightarrow> CappedBuy \<Rightarrow> blacklist \<Rightarrow> seller_scores \<Rightarrow> 'w
    \<Rightarrow> 'w RouteState \<times> RouteOutcome" where
  "route_capped_buy chain runner frame bl scores w =
    (case rc_discover chain w of
       (w', None) \<Rightarrow>
         (\<lparr> rs_world = w', rs_blacklist = bl, rs_scores = scores, rs_attempts = [] \<rparr>,
          \<lparr> ro_served_by = None, ro_attempts = [] \<rparr>)
     | (w', Some offers) \<Rightarrow>
         (let s0 = \<lparr> rs_world = w', rs_blacklist = bl, rs_scores = scores, rs_attempts = [] \<rparr>;
              (s, served) = route_candidates chain runner frame
                (eligible_ranked frame (listings_to_candidates offers) bl scores) s0
          in (s, \<lparr> ro_served_by = served, ro_attempts = rs_attempts s \<rparr>)))"

section \<open>The ranking is a ranking\<close>

text \<open>
  The candidates are exactly the offers inside the frame whose seller is not blacklisted, ordered by
  price, then by the better score, then by the name of the seller; offers equal in all three keep the
  order of the book.
\<close>

theorem eligible_ranked_exact:
  "set (eligible_ranked frame offers bl scores) = {c \<in> set offers. eligible frame bl c}
    \<and> sorted (map (rank_key scores) (eligible_ranked frame offers bl scores))
    \<and> filter (\<lambda>c. rank_key scores c = k) (eligible_ranked frame offers bl scores)
      = filter (\<lambda>c. eligible frame bl c \<and> rank_key scores c = k) offers"
  by (auto simp: eligible_ranked_def sort_key_stable)

section \<open>What a route did\<close>



















definition sample_market :: "unit RoutedChain" where
  "sample_market =
    \<lparr> rc_discover = (\<lambda>w. (w, Some
        [\<lparr> ol_seller_id = ''s'', ol_token_contract = ''b'', ol_price_per_tick = 7, ol_max_ticks = 9 \<rparr>,
         \<lparr> ol_seller_id = ''s'', ol_token_contract = ''a'', ol_price_per_tick = 5, ol_max_ticks = 9 \<rparr>])),
      rc_place_buy = (\<lambda>_ w. (w, True)), rc_stop = (\<lambda>_ w. (w, True)), rc_dispute = (\<lambda>_ w. (w, True)) \<rparr>"

definition sample_cheat :: "unit DealRunner" where
  "sample_cheat = \<lparr> dr_sample = (\<lambda>_ _ w. (w, False)), dr_run = (\<lambda>_ _ w. (w, Scam ''wrong model'')) \<rparr>"

definition sample_frame :: CappedBuy where
  "sample_frame = \<lparr> cb_model = ''m'', cb_price_cap = 10, cb_ticks = 4, cb_scammer_reaction = StopReaction,
    cb_spot_check_rate = 0 \<rparr>"


text \<open>
  The ranking is computed once: a seller with two offers that was caught and blacklisted on the first is
  given the second in the same route.
\<close>

lemma caught_seller_is_tried_again:
  "\<exists>a b. ro_attempts (snd (route_capped_buy sample_market sample_cheat sample_frame [] [] ())) = [a, b]
    \<and> at_outcome a = Scam ''wrong model'' \<and> at_seller_id b = at_seller_id a"
  by (simp add: route_capped_buy_def sample_market_def sample_cheat_def sample_frame_def listings_to_candidates_def
      eligible_ranked_def eligible_def try_candidate_def mark_failed_def attempt_of_def Let_def)


section \<open>The world of a route\<close>

text \<open>
  A chain whose operations keep a property of the world keeps it over a whole route, if the deals that
  are run keep it too.
\<close>

definition runner_keeps :: "('w \<Rightarrow> bool) \<Rightarrow> 'w DealRunner \<Rightarrow> bool" where
  "runner_keeps good runner \<longleftrightarrow>
    (\<forall>w. good w \<longrightarrow> (\<forall>rate n. good (fst (dr_sample runner rate n w))) \<and> (\<forall>c b. good (fst (dr_run runner c b w))))"

locale routed_chain =
  fixes chain :: "'w RoutedChain" and good :: "'w \<Rightarrow> bool"
  assumes keeps_discover: "good w \<Longrightarrow> good (fst (rc_discover chain w))"
    and keeps_place_buy: "good w \<Longrightarrow> good (fst (rc_place_buy chain tc w))"
    and keeps_stop: "good w \<Longrightarrow> good (fst (rc_stop chain tc w))"
    and keeps_dispute: "good w \<Longrightarrow> good (fst (rc_dispute chain tc w))"
begin

lemma try_candidate_keeps:
  assumes "runner_keeps good runner" and "good (rs_world s)"
  shows "good (rs_world (fst (try_candidate chain runner frame c s)))"
proof -
  obtain w1 placed where placed: "rc_place_buy chain (ca_token_contract c) (rs_world s) = (w1, placed)"
    by (cases "rc_place_buy chain (ca_token_contract c) (rs_world s)")
  obtain w2 check where draw: "dr_sample runner (cb_spot_check_rate frame) (score_of (rs_scores s) (ca_seller_id c)) w1 = (w2, check)"
    by (cases "dr_sample runner (cb_spot_check_rate frame) (score_of (rs_scores s) (ca_seller_id c)) w1")
  obtain w3 outcome where deal: "dr_run runner c check w2 = (w3, outcome)"
    by (cases "dr_run runner c check w2")
  have w1: "good w1" using keeps_place_buy [OF assms(2), of "ca_token_contract c"] placed by simp
  then have "good w2" using assms(1) draw unfolding runner_keeps_def by (metis fst_conv)
  then have "good w3" using assms(1) deal unfolding runner_keeps_def by (metis fst_conv)
  then show ?thesis
    using w1 keeps_stop [of w3 "ca_token_contract c"] keeps_dispute [of w3 "ca_token_contract c"] placed draw deal
    by (auto simp: try_candidate_def mark_failed_def Let_def split: prod.split DealOutcome.split ScammerReaction.split)
qed

lemma route_candidates_keeps:
  "runner_keeps good runner \<Longrightarrow> good (rs_world s) \<Longrightarrow> good (rs_world (fst (route_candidates chain runner frame cs s)))"
proof (induction cs arbitrary: s)
  case (Cons c cs)
  then have "good (rs_world (fst (try_candidate chain runner frame c s)))" by (simp add: try_candidate_keeps)
  with Cons show ?case by (auto split: prod.split DealOutcome.split)
qed simp

lemma route_keeps:
  assumes "runner_keeps good runner" and "good w"
  shows "good (rs_world (fst (route_capped_buy chain runner frame bl scores w)))"
  using keeps_discover [OF assms(2)]
  by (auto simp: route_capped_buy_def Let_def split: prod.split option.split
      dest: route_candidates_keeps [OF assms(1)])
     (metis assms(1) fst_conv route_candidates_keeps RouteState.select_convs(1))

end

end
