(* ===== verification/RoutingMock.thy ===== *)
theory RoutingMock
  imports Routing MockProperties
begin

text \<open>
  The routing loop on the mock chain. The world is the clock with the state of the chain; the operations
  of the chain are those of \<open>MockMarketBackend\<close> for the note of the buyer. The loop keeps the chain in
  its reachable states, so all that holds of those holds after any route.
\<close>

type_synonym mock_world = "u64 \<times> MockState"

definition on_chain ::
  "(u64 \<Rightarrow> MockState \<Rightarrow> ChainError + MockState \<times> 'a) \<Rightarrow> mock_world \<Rightarrow> mock_world \<times> bool" where
  "on_chain f w = (case f (fst w) (snd w) of Inr (st, _) \<Rightarrow> ((fst w, st), True) | Inl _ \<Rightarrow> (w, False))"

definition mock_chain :: "ProtocolConsts \<Rightarrow> NotePubkey \<Rightarrow> mock_world RoutedChain" where
  "mock_chain c pk =
    \<lparr> rc_discover = (\<lambda>w. (w, Some (discover_offers (snd w)))),
      rc_place_buy = (\<lambda>tc. on_chain (\<lambda>now. place_buy now (int now) tc pk)),
      rc_stop = (\<lambda>tc. on_chain (\<lambda>now. stop c now now tc pk)),
      rc_dispute = (\<lambda>tc. on_chain (\<lambda>now. dispute now tc pk)) \<rparr>"

definition mock_good :: "(token_contract \<Rightarrow> u128) \<Rightarrow> DobParams \<Rightarrow> ProtocolConsts \<Rightarrow> mock_world \<Rightarrow> bool" where
  "mock_good sha params c w \<longleftrightarrow> 0 < fst w \<and> mock_reach sha params c (fst w) (snd w)"

lemma on_chain_good:
  assumes "mock_good sha params c w"
    and "\<And>now st. stored (f now st) = run_call sha params c (call now) st"
    and "\<And>now. 0 < now \<Longrightarrow> call_ok now now (call now)"
  shows "mock_good sha params c (fst (on_chain f w))"
proof (cases "f (fst w) (snd w)")
  case (Inr r)
  then have "run_call sha params c (call (fst w)) (snd w) = Some (fst r)"
    using assms(2) [of "fst w" "snd w"] by (cases r) (simp add: stored_def)
  with assms(1,3) have "mock_reach sha params c (fst w) (fst r)"
    unfolding mock_good_def by (blast intro: mock_call)
  with Inr assms(1) show ?thesis by (simp add: on_chain_def mock_good_def split_beta)
qed (use assms(1) in \<open>simp add: on_chain_def\<close>)

interpretation mock_route: routed_chain "mock_chain c pk" "mock_good sha params c" for c pk sha params
proof
  fix w tc
  assume good: "mock_good sha params c w"
  show "mock_good sha params c (fst (rc_discover (mock_chain c pk) w))"
    using good by (simp add: mock_chain_def)
  show "mock_good sha params c (fst (rc_place_buy (mock_chain c pk) tc w))"
    using on_chain_good [OF good, of "\<lambda>now. place_buy now (int now) tc pk" "\<lambda>now. PlaceBuy now (int now) tc pk None"]
    by (simp add: mock_chain_def place_buy_def call_ok_def typed_call_def)
  show "mock_good sha params c (fst (rc_stop (mock_chain c pk) tc w))"
    using on_chain_good [OF good, of "\<lambda>now. stop c now now tc pk" "\<lambda>now. Stop now now tc pk"]
    by (simp add: mock_chain_def call_ok_def typed_call_def)
  show "mock_good sha params c (fst (rc_dispute (mock_chain c pk) tc w))"
    using on_chain_good [OF good, of "\<lambda>now. dispute now tc pk" "\<lambda>now. OpenDispute now tc pk"]
    by (simp add: mock_chain_def call_ok_def typed_call_def)
qed

text \<open>
  Whatever a route over the mock chain does, with any sellers, outcomes and reactions, the chain stays
  in a reachable state and every deal on it conserves its money.
\<close>

theorem route_conserves_funds:
  assumes "consts_ok c" and "mock_good sha params c w" and "runner_keeps (mock_good sha params c) runner"
    and "rs_world (fst (route_capped_buy (mock_chain c pk) runner frame bl scores w)) = (now, st)"
    and "hget (ms_streams st) tc = Some cell" and "hget (ms_deal_subscriptions st) tc = Some s"
  shows "mock_reach sha params c now st
    \<and> sc_seller_locked cell + sc_buyer_locked cell + sc_probe_locked cell + sc_buyer_bond cell
      + sc_fee_accrued cell + sc_seller_received cell + sc_buyer_refunded cell + sc_burned cell
    = 2 * sm_price (sc_machine cell) + value_of c (sm_price (sc_machine cell)) (sub_funded_tokens s)
      + (if is_subscription s then 2 * sm_price (sc_machine cell) else 0)"
proof -
  have reach: "mock_reach sha params c now st"
    using mock_route.route_keeps [OF assms(3,2)] assms(4) by (metis fst_conv mock_good_def snd_conv)
  then have "deal_core c cell s"
    using reach_deal(1) [OF assms(1) _ assms(5,6)] by (simp add: deal_ok_def)
  from deal_core_total [OF this] reach show ?thesis by (simp add: cell_total_def bond_of_def)
qed

definition sample_gateway :: "mock_world DealRunner" where
  "sample_gateway =
    \<lparr> dr_sample = (\<lambda>_ _ w. (w, False)),
      dr_run = (\<lambda>cand _ w.
        (fst (on_chain (\<lambda>now. open_stream canonical dob_canonical now (ca_token_contract cand) sample_note) w), NoShow)) \<rparr>"

lemma sample_gateway_keeps: "runner_keeps (mock_good sha dob_canonical canonical) sample_gateway"
proof -
  have "mock_good sha dob_canonical canonical
      (fst (on_chain (\<lambda>now. open_stream canonical dob_canonical now tc sample_note) w))"
    if "mock_good sha dob_canonical canonical w" for w tc
    using on_chain_good [OF that, of "\<lambda>now. open_stream canonical dob_canonical now tc sample_note"
        "\<lambda>now. OpenStream now tc sample_note"]
    by (simp add: call_ok_def typed_call_def)
  then show ?thesis by (simp add: runner_keeps_def sample_gateway_def)
qed

theorem route_conserves_funds_witness:
  "sc_seller_locked sample_claimed + sc_buyer_locked sample_claimed + sc_probe_locked sample_claimed
      + sc_buyer_bond sample_claimed + sc_fee_accrued sample_claimed + sc_seller_received sample_claimed
      + sc_buyer_refunded sample_claimed + sc_burned sample_claimed = 5075000000"
proof -
  have world: "rs_world (fst (route_capped_buy (mock_chain canonical sample_note) sample_gateway sample_frame [] []
      (400, sample_state))) = (400, sample_state)"
    by (simp add: route_capped_buy_def mock_chain_def discover_offers_def sample_state_def sample_running_def
        sample_matched_def listings_to_candidates_def eligible_ranked_def)
  have good: "mock_good (\<lambda>_. 7) dob_canonical canonical (400, sample_state)"
    using sample_reach by (simp add: mock_good_def)
  from route_conserves_funds [OF sample_consts good sample_gateway_keeps world sample_streams(1,2)] show ?thesis
    by (simp add: sample_defs value_of_def pay_of_def fee_of_def canonical_def param_defs is_subscription_def)
qed

text \<open>
  A buyer's stop cannot recover an order whose stream was never opened: the chain refuses it, although the
  routing loop relies on a stop to return the escrow of a seller that never showed up.
\<close>

lemma stop_refused_before_open:
  "hget (ms_streams st) tc = None \<Longrightarrow> \<exists>e. stop c t1 t2 tc pk st = Inl e"
  by (auto simp: stop_def require_mock_buyer_actor_def stop_mock_stream_def with_deal_def ok_or_else_def
      refuse_if_def split: option.splits if_splits)

end
