(* ===== verification/ExtOut.thy ===== *)
theory ExtOut
  imports JsonReads
begin

text \<open>
  Reading an account's ext-out messages, \<open>src/crates/core/src/chain/client.rs\<close>: decoding one GraphQL
  page, walking the pages from the newest to the oldest, and putting the messages back into chain order
  without the duplicates of overlapping pages. The transport is a parameter: \<open>fetch k before\<close> is what the
  \<open>k\<close>-th request of a walk, made with the cursor \<open>before\<close>, answers. A walk that never ends has no value.
  Also the readers of a decoded event body; decoding a body with the compiled ABI is a parameter.
\<close>

section \<open>One page\<close>

record ExtOutMessage =
  msg_id :: string
  msg_created_at :: u64
  msg_cursor :: string
  msg_body :: string

record ExtOutPage =
  page_messages :: "ExtOutMessage list"
  page_previous_cursor :: "string option"

datatype page_error =
    GraphQlErrors json | ShapeChanged | EdgesMissing | EventWithoutCursor | EventWithoutId string
  | EventWithoutBody string | EventWithoutCreatedAt | PageInfoMissing | HasPreviousMissing | NoProgress
  | MessageChanged string | HistoryGone string | UnreadableBody string | MissingField string | Transport string

definition previous_page_cursor :: "json \<Rightarrow> string option \<Rightarrow> page_error + string option" where
  "previous_page_cursor page before =
    ok_or_else (json_get page ''pageInfo'') PageInfoMissing (\<lambda>page_info.
    ok_or_else (as_bool (json_at page_info ''hasPreviousPage'')) HasPreviousMissing (\<lambda>has_previous.
    if \<not> has_previous then Inr None
    else
      (case as_str (json_at page_info ''startCursor'') of
         Some next \<Rightarrow> if Some next \<noteq> before then Inr (Some next) else Inl NoProgress
       | None \<Rightarrow> Inl NoProgress)))"

definition ext_out_message :: "json \<Rightarrow> page_error + ExtOutMessage" where
  "ext_out_message edge =
    ok_or_else (as_str (json_at edge ''cursor'')) EventWithoutCursor (\<lambda>cursor.
    let node = json_at edge ''node'' in
    ok_or_else (as_str (json_at node ''id'')) (EventWithoutId cursor) (\<lambda>id.
    ok_or_else (as_str (json_at node ''body'')) (EventWithoutBody id) (\<lambda>body.
    ok_or_else
      (or_else (as_u64 (json_at node ''created_at''))
        (Option.bind (as_str (json_at node ''created_at'')) (parse_uint U64_MAX)))
      EventWithoutCreatedAt (\<lambda>created_at.
    Inr \<lparr> msg_id = id, msg_created_at = created_at, msg_cursor = cursor, msg_body = body \<rparr>))))"

definition ext_out_page :: "string option \<Rightarrow> json \<Rightarrow> page_error + ExtOutPage" where
  "ext_out_page before response =
    (case json_get response ''errors'' of
       Some errors \<Rightarrow> Inl (GraphQlErrors errors)
     | None \<Rightarrow>
         ok_or_else (json_pointer [''data'', ''blockchain'', ''account'', ''messages''] response) ShapeChanged (\<lambda>page.
         ok_or_else (as_array (json_at page ''edges'')) EdgesMissing (\<lambda>edges.
         bindR (collect_rows ext_out_message edges) (\<lambda>messages.
         bindR (previous_page_cursor page before) (\<lambda>previous.
         Inr \<lparr> page_messages = messages, page_previous_cursor = previous \<rparr>)))))"

section \<open>Walking the pages\<close>

type_synonym page_source = "nat \<Rightarrow> string option \<Rightarrow> page_error + ExtOutPage"

partial_function (option) fetch_pages ::
  "page_source \<Rightarrow> nat \<Rightarrow> string option \<Rightarrow> ExtOutMessage list list
    \<Rightarrow> (page_error + ExtOutMessage list list) option" where
  "fetch_pages fetch k before pages =
    (case fetch k before of
       Inl e \<Rightarrow> Some (Inl e)
     | Inr page \<Rightarrow>
         (let pages' = pages @ [page_messages page] in
          case page_previous_cursor page of
            None \<Rightarrow> Some (Inr pages')
          | Some previous \<Rightarrow> fetch_pages fetch (Suc k) (Some previous) pages'))"

fun filter_map_from ::
  "(ExtOutMessage \<Rightarrow> page_error + 'a option) \<Rightarrow> (string, ExtOutMessage) hash_map \<Rightarrow> ExtOutMessage list
    \<Rightarrow> page_error + 'a list" where
  "filter_map_from f by_id [] = Inr []"
| "filter_map_from f by_id (message # messages) =
    (case hget by_id (msg_id message) of
       Some previous \<Rightarrow>
         if previous \<noteq> message then Inl (MessageChanged (msg_id message))
         else filter_map_from f by_id messages
     | None \<Rightarrow>
         bindR (f message) (\<lambda>candidate.
         bindR (filter_map_from f (hinsert (msg_id message) message by_id) messages) (\<lambda>retained.
         Inr (case candidate of Some c \<Rightarrow> c # retained | None \<Rightarrow> retained))))"

definition filter_map_ext_out_messages_in_order ::
  "(ExtOutMessage \<Rightarrow> page_error + 'a option) \<Rightarrow> ExtOutMessage list \<Rightarrow> page_error + 'a list" where
  "filter_map_ext_out_messages_in_order f messages = filter_map_from f [] messages"

definition fetch_all_ext_out_messages ::
  "page_source \<Rightarrow> (ExtOutMessage \<Rightarrow> page_error + 'a option) \<Rightarrow> (page_error + 'a list) option" where
  "fetch_all_ext_out_messages fetch f =
    map_option (\<lambda>r. bindR r (\<lambda>pages. filter_map_ext_out_messages_in_order f (concat (rev pages))))
      (fetch_pages fetch 0 None [])"

definition dedupe_ext_out_messages_in_order :: "ExtOutMessage list \<Rightarrow> page_error + ExtOutMessage list" where
  "dedupe_ext_out_messages_in_order = filter_map_ext_out_messages_in_order (\<lambda>m. Inr (Some m))"

section \<open>Decoded event bodies\<close>

datatype TokenValue = TUint nat | TBool bool | TAddress string | TOther

type_synonym tokens = "(string \<times> TokenValue) list"

text \<open>
  What a body holds once the ABI has been consulted: nothing (no event of the contract), or the name of
  the event with its arguments, which may fail to decode.
\<close>

type_synonym event_decoder = "string \<Rightarrow> page_error + (string \<times> (page_error + tokens)) option"

definition named_uint :: "nat \<Rightarrow> tokens \<Rightarrow> string \<Rightarrow> page_error + nat" where
  "named_uint m tokens name =
    ok_or_else (first_some (\<lambda>(got, v). case v of TUint n \<Rightarrow> if got = name then try_from m n else None | _ \<Rightarrow> None) tokens)
      (MissingField name) Inr"

definition named_u128 :: "tokens \<Rightarrow> string \<Rightarrow> page_error + u128" where
  "named_u128 = named_uint U128_MAX"

definition named_u64 :: "tokens \<Rightarrow> string \<Rightarrow> page_error + u64" where
  "named_u64 = named_uint U64_MAX"

definition named_u8 :: "tokens \<Rightarrow> string \<Rightarrow> page_error + u8" where
  "named_u8 = named_uint U8_MAX"

definition named_uint_decimal :: "tokens \<Rightarrow> string \<Rightarrow> page_error + string" where
  "named_uint_decimal tokens name =
    ok_or_else (first_some (\<lambda>(got, v). case v of TUint n \<Rightarrow> if got = name then Some (show_nat n) else None | _ \<Rightarrow> None) tokens)
      (MissingField name) Inr"

definition named_bool :: "tokens \<Rightarrow> string \<Rightarrow> page_error + bool" where
  "named_bool tokens name =
    ok_or_else (first_some (\<lambda>(got, v). case v of TBool b \<Rightarrow> if got = name then Some b else None | _ \<Rightarrow> None) tokens)
      (MissingField name) Inr"

definition named_address :: "tokens \<Rightarrow> string \<Rightarrow> page_error + string" where
  "named_address tokens name =
    ok_or_else (first_some (\<lambda>(got, v). case v of TAddress a \<Rightarrow> if got = name then Some a else None | _ \<Rightarrow> None) tokens)
      (MissingField name) Inr"

section \<open>An honest source\<close>

text \<open>
  The answers of a source that holds the history \<open>H\<close> in chain order, from the oldest message to the
  newest. A walk of it delivers windows of \<open>H\<close>, from the newest back to the first message; two windows
  in a row may overlap and leave no gap. Every answer but the last carries a new cursor.
\<close>

inductive served :: "'m list \<Rightarrow> nat \<Rightarrow> 'm list list \<Rightarrow> bool" for H where
  served_done: "served H 0 []"
| served_page: "lo \<le> k \<Longrightarrow> k \<le> hi \<Longrightarrow> hi \<le> length H \<Longrightarrow> p = take (hi - lo) (drop lo H) \<Longrightarrow> served H lo ps
    \<Longrightarrow> served H k (p # ps)"

inductive answers :: "page_source \<Rightarrow> nat \<Rightarrow> string option \<Rightarrow> ExtOutMessage list list \<Rightarrow> bool" for fetch where
  answers_last: "fetch k before = Inr \<lparr> page_messages = p, page_previous_cursor = None \<rparr> \<Longrightarrow> answers fetch k before [p]"
| answers_more: "fetch k before = Inr \<lparr> page_messages = p, page_previous_cursor = Some c \<rparr> \<Longrightarrow> before \<noteq> Some c
    \<Longrightarrow> answers fetch (Suc k) (Some c) ps \<Longrightarrow> answers fetch k before (p # ps)"

inductive_cases served_NilE: "served H k []"
inductive_cases served_ConsE: "served H k (p # ps)"
inductive_cases answers_ConsE: "answers fetch k before (p # ps)"

definition holds_history :: "page_source \<Rightarrow> ExtOutMessage list \<Rightarrow> bool" where
  "holds_history fetch H \<longleftrightarrow>
    distinct (map msg_id H) \<and> (\<exists>ps. served H (length H) ps \<and> answers fetch 0 None ps)"

text \<open>A page that decodes never asks for itself again: the cursor condition above is the client's own.\<close>

lemma ext_out_page_progress:
  "ext_out_page before response = Inr page \<Longrightarrow> page_previous_cursor page \<noteq> None
    \<Longrightarrow> page_previous_cursor page \<noteq> before"
  by (auto simp: ext_out_page_def previous_page_cursor_def ok_or_else_def bindR_def
      split: option.splits if_splits sum.splits)

lemma fetch_pages_answers:
  "answers fetch k before ps \<Longrightarrow> fetch_pages fetch k before acc = Some (Inr (acc @ ps))"
proof (induction arbitrary: acc rule: answers.induct)
  case (answers_last k before p)
  then show ?case by (subst fetch_pages.simps) (simp add: Let_def)
next
  case (answers_more k before p c ps)
  then show ?case by (subst fetch_pages.simps) (simp add: Let_def)
qed

section \<open>Overlapping windows in chain order\<close>

fun fresh :: "'m set \<Rightarrow> 'm list \<Rightarrow> 'm list" where
  "fresh S [] = []"
| "fresh S (m # ms) = (if m \<in> S then fresh S ms else m # fresh (insert m S) ms)"

lemma fresh_append: "fresh S (xs @ ys) = fresh S xs @ fresh (S \<union> set xs) ys"
  by (induction xs arbitrary: S) (auto simp: insert_absorb Un_insert_left [symmetric] simp del: Un_insert_left)

lemma fresh_all: "distinct ms \<Longrightarrow> set ms \<inter> S = {} \<Longrightarrow> fresh S ms = ms"
  by (induction ms arbitrary: S) auto

lemma fresh_none: "set ms \<subseteq> S \<Longrightarrow> fresh S ms = []"
  by (induction ms) auto

definition window :: "nat \<Rightarrow> nat \<Rightarrow> 'm list \<Rightarrow> 'm list" where
  "window lo hi H = take (hi - lo) (drop lo H)"

lemma window_split: "lo \<le> k \<Longrightarrow> k \<le> hi \<Longrightarrow> window lo hi H = window lo k H @ window k hi H"
  unfolding window_def
  by (metis (no_types, lifting) add_diff_cancel_left' diff_add_inverse drop_drop le_add_diff_inverse
      le_add_diff_inverse2 take_add Nat.add_diff_assoc2)

lemma set_window_subset: "hi \<le> m \<Longrightarrow> set (window lo hi H) \<subseteq> set (take m H)"
  unfolding window_def by (metis drop_take set_drop_subset set_take_subset_set_take subset_trans)

lemma window_from_0: "window 0 m H = take m H"
  by (simp add: window_def)

lemma take_window: "m \<le> hi \<Longrightarrow> take m H @ window m hi H = take hi H"
  using window_split [of 0 m hi H] by (simp add: window_from_0)

lemma fresh_window:
  assumes "distinct H" and "lo \<le> m" and "m \<le> hi"
  shows "fresh (set (take m H)) (window lo hi H) = window m hi H"
proof -
  have "distinct (take hi H)" using assms(1) by simp
  then have "distinct (take m H @ window m hi H)" using assms(3) by (simp add: take_window)
  moreover have "set (take m H) \<union> set (window lo m H) = set (take m H)"
    using set_window_subset [of m m lo H] by auto
  ultimately show ?thesis
    using assms set_window_subset [of m m lo H]
    by (simp add: window_split [of lo m hi] fresh_append fresh_none fresh_all Int_commute)
qed

lemma served_chain_order:
  assumes "served H k ps" and "distinct H"
  shows "\<exists>m. k \<le> m \<and> m \<le> length H \<and> fresh {} (concat (rev ps)) = take m H
    \<and> set (concat ps) = set (take m H)"
  using assms
proof (induction rule: served.induct)
  case (served_page lo k hi p ps)
  then obtain m where m: "lo \<le> m" "m \<le> length H" "fresh {} (concat (rev ps)) = take m H"
    "set (concat ps) = set (take m H)"
    by auto
  have p: "p = window lo hi H" using served_page by (simp add: window_def)
  have seen: "set (concat (rev ps)) = set (take m H)" using m by auto
  show ?case
  proof (cases "hi \<le> m")
    case True
    then have "set p \<subseteq> set (take m H)" by (simp add: p set_window_subset)
    then show ?thesis
      using m seen True served_page(2) by (intro exI [of _ m]) (auto simp: fresh_append fresh_none)
  next
    case False
    then have "fresh {} (concat (rev (p # ps))) = take hi H"
      using m seen served_page(6) served_page.prems by (simp add: fresh_append p fresh_window take_window)
    moreover have "set (concat (p # ps)) = set (take hi H)"
    proof -
      have "set (take hi H) = set (take m H) \<union> set (window m hi H)"
        using False take_window [of m hi H] by (metis nat_le_linear set_append)
      then show ?thesis
        using m False window_split [of lo m hi H] set_window_subset [of m m lo H] by (auto simp: p)
    qed
    ultimately show ?thesis
      using served_page by (intro exI [of _ hi]) auto
  qed
qed auto

definition retain :: "(ExtOutMessage \<Rightarrow> page_error + 'a option) \<Rightarrow> ExtOutMessage list \<Rightarrow> page_error + 'a list" where
  "retain f ms = bindR (collect_rows f ms) (\<lambda>cs. Inr (List.map_filter id cs))"

lemma retain_simps [simp]:
  "retain f [] = Inr []"
  "retain f (m # ms) =
    bindR (f m) (\<lambda>c. bindR (retain f ms) (\<lambda>cs. Inr (case c of Some x \<Rightarrow> x # cs | None \<Rightarrow> cs)))"
  by (auto simp: retain_def bindR_def List.map_filter_simps split: sum.splits option.splits)

lemma filter_map_from_fresh:
  assumes "inj_on msg_id (S \<union> set ms)"
    and "\<And>i m. hget by_id i = Some m \<longleftrightarrow> m \<in> S \<and> msg_id m = i"
  shows "filter_map_from f by_id ms = retain f (fresh S ms)"
  using assms
proof (induction ms arbitrary: S by_id)
  case (Cons m ms)
  show ?case
  proof (cases "m \<in> S")
    case True
    then have "hget by_id (msg_id m) = Some m" using Cons.prems(2) by simp
    moreover have "filter_map_from f by_id ms = retain f (fresh S ms)"
      using Cons.prems True by (intro Cons.IH) (simp_all add: insert_absorb)
    ultimately show ?thesis using True by simp
  next
    case False
    have "hget by_id (msg_id m) \<noteq> Some x" for x
    proof
      assume "hget by_id (msg_id m) = Some x"
      then have "x \<in> S" "msg_id x = msg_id m" using Cons.prems(2) by auto
      then have "x = m" using inj_onD [OF Cons.prems(1), of x m] by simp
      with \<open>x \<in> S\<close> False show False by simp
    qed
    then have none: "hget by_id (msg_id m) = None" by (cases "hget by_id (msg_id m)") auto
    have "hget (hinsert (msg_id m) m by_id) i = Some x \<longleftrightarrow> x \<in> insert m S \<and> msg_id x = i" for i x
      using inj_onD [OF Cons.prems(1), of x m] none by (auto simp: hget_hinsert Cons.prems(2))
    then have "filter_map_from f (hinsert (msg_id m) m by_id) ms = retain f (fresh (insert m S) ms)"
      using Cons.prems(1) by (intro Cons.IH) auto
    with False none show ?thesis by simp
  qed
qed simp

lemma distinct_ids: "distinct (map msg_id H) \<Longrightarrow> distinct H \<and> inj_on msg_id (set H)"
  by (simp add: distinct_map)

text \<open>
  Reading a whole ext-out history from a source that holds it ends, however its pages overlap, and
  filters every message exactly once, in chain order.
\<close>

theorem ext_out_history_in_order:
  assumes "holds_history fetch H"
  shows "fetch_all_ext_out_messages fetch f = Some (bindR (collect_rows f H) (\<lambda>cs. Inr (List.map_filter id cs)))"
proof -
  obtain ps where ps: "served H (length H) ps" "answers fetch 0 None ps" and ids: "distinct (map msg_id H)"
    using assms by (auto simp: holds_history_def)
  have all: "fresh {} (concat (rev ps)) = H" "set (concat ps) = set H"
    using served_chain_order [OF ps(1)] distinct_ids [OF ids] by auto
  have "filter_map_from f [] (concat (rev ps)) = retain f (fresh {} (concat (rev ps)))"
    using all(2) distinct_ids [OF ids] by (intro filter_map_from_fresh) auto
  then show ?thesis
    using fetch_pages_answers [OF ps(2), of "[]"] all(1)
    by (simp add: fetch_all_ext_out_messages_def filter_map_ext_out_messages_in_order_def retain_def)
qed

definition sample_message :: "nat \<Rightarrow> ExtOutMessage" where
  "sample_message n =
    \<lparr> msg_id = show_nat n, msg_created_at = n div 2, msg_cursor = show_nat n, msg_body = show_nat n \<rparr>"

definition sample_fetch :: "page_source" where
  "sample_fetch k before =
    (if before = None
     then Inr \<lparr> page_messages = [sample_message 2, sample_message 3], page_previous_cursor = Some ''2'' \<rparr>
     else Inr \<lparr> page_messages = [sample_message 1, sample_message 2], page_previous_cursor = None \<rparr>)"

lemma sample_digits: "show_nat 1 = ''1''" "show_nat (Suc 0) = ''1''" "show_nat 2 = ''2''" "show_nat 3 = ''3''"
  by code_simp+

lemma sample_fetch_holds: "holds_history sample_fetch [sample_message 1, sample_message 2, sample_message 3]"
proof -
  let ?H = "[sample_message 1, sample_message 2, sample_message 3]"
  have "served ?H 1 [[sample_message 1, sample_message 2]]"
    by (rule served_page [where lo = 0 and hi = 2, OF _ _ _ _ served_done]) simp_all
  then have "served ?H (length ?H) [[sample_message 2, sample_message 3], [sample_message 1, sample_message 2]]"
    by (rule served_page [where lo = 1 and hi = 3, rotated -1]) simp_all
  moreover have "answers sample_fetch 0 None [[sample_message 2, sample_message 3], [sample_message 1, sample_message 2]]"
    by (rule answers_more [OF _ _ answers_last]) (simp_all add: sample_fetch_def)
  ultimately show ?thesis
    by (auto simp: holds_history_def sample_message_def sample_digits)
qed

theorem ext_out_history_in_order_witness:
  "holds_history sample_fetch [sample_message 1, sample_message 2, sample_message 3]
    \<and> fetch_all_ext_out_messages sample_fetch (\<lambda>m. Inr (Some (msg_created_at m))) = Some (Inr [0, 1, 1])"
  using ext_out_history_in_order [OF sample_fetch_holds, of "\<lambda>m. Inr (Some (msg_created_at m))"] sample_fetch_holds
  by (simp add: sample_message_def List.map_filter_simps)

end
