(* ===== verification/BookEvents.thy ===== *)
theory BookEvents
  imports ExtOut MarketViews "HOL-Library.Product_Lexorder"
begin

text \<open>
  The order book as the client sees it, \<open>src/crates/core/src/chain/book_events.rs\<close>: the book's ext-out
  events folded into the orders that rest in it, incrementally from the last message seen. The maps of
  the fold are \<open>BTreeMap\<close>s, kept as association lists in the order of their keys.
\<close>

section \<open>Ordered maps\<close>

fun binsert :: "'k :: linorder \<Rightarrow> 'v \<Rightarrow> ('k \<times> 'v) list \<Rightarrow> ('k \<times> 'v) list" where
  "binsert k v [] = [(k, v)]"
| "binsert k v ((j, w) # m) =
    (if k < j then (k, v) # (j, w) # m else if k = j then (k, v) # m else (j, w) # binsert k v m)"

lemma hget_binsert: "hget (binsert k v m) j = (if j = k then Some v else hget m j)"
  by (induction k v m rule: binsert.induct) (auto simp: hget_def)

interpretation bm: keyed_store hget binsert hremove
  by unfold_locales (simp_all add: hget_binsert hget_hremove)

definition key_ordered :: "('k :: linorder \<times> 'v) list \<Rightarrow> bool" where
  "key_ordered m \<longleftrightarrow> sorted_wrt (<) (map fst m)"

lemma set_keys_binsert: "set (map fst (binsert k v m)) = insert k (set (map fst m))"
  by (induction k v m rule: binsert.induct) auto

lemma key_ordered_binsert [simp, intro]: "key_ordered m \<Longrightarrow> key_ordered (binsert k v m)"
proof (induction k v m rule: binsert.induct)
  case (2 k v j w m)
  then show ?case
    using set_keys_binsert [of k v m] by (fastforce simp: key_ordered_def)
qed (simp add: key_ordered_def)

lemma key_ordered_hremove [simp, intro]: "key_ordered m \<Longrightarrow> key_ordered (hremove k m)"
  by (induction m) (auto simp: key_ordered_def hremove_def AList.delete_eq)

section \<open>The fold\<close>

record LiveBookOrder =
  lbo_order_id :: u128
  lbo_is_buy :: bool
  lbo_price :: u128
  lbo_ticks_remaining :: u128
  lbo_note :: string
  lbo_token_contract :: string
  lbo_deadline :: u64
  lbo_flags :: u8
  lbo_expired_by_event :: bool

definition is_live_at :: "u64 \<Rightarrow> LiveBookOrder \<Rightarrow> bool" where
  "is_live_at now order \<longleftrightarrow>
    \<not> lbo_expired_by_event order \<and> order_deadline_is_live (lbo_is_buy order) (lbo_deadline order) now"

record BookEventFold =
  bf_orders :: "(u128 \<times> LiveBookOrder) list"
  bf_cancel_rejections :: "((u128 \<times> string) \<times> u8) list"
  bf_last_seen_id :: "string option"

datatype BookEvent =
    EvPlaced LiveBookOrder
  | EvCancelled u128
  | EvCancelRejected u128 u8 string
  | EvFilled u128 u128 u128
  | EvExpired u128 bool string string

definition all_orders :: "BookEventFold \<Rightarrow> LiveBookOrder list" where
  "all_orders f = map snd (bf_orders f)"

definition live_orders_at :: "u64 \<Rightarrow> BookEventFold \<Rightarrow> LiveBookOrder list" where
  "live_orders_at now f = filter (is_live_at now) (map snd (bf_orders f))"

definition live_sell_for_token_contract_at :: "BookEventFold \<Rightarrow> string \<Rightarrow> u64 \<Rightarrow> LiveBookOrder option" where
  "live_sell_for_token_contract_at f tc now =
    find (\<lambda>order. \<not> lbo_is_buy order \<and> lbo_token_contract order = tc) (live_orders_at now f)"

definition after_event_marker :: "string option \<Rightarrow> BookEventFold" where
  "after_event_marker marker = \<lparr> bf_orders = [], bf_cancel_rejections = [], bf_last_seen_id = marker \<rparr>"

definition cancel_rejection_reason :: "BookEventFold \<Rightarrow> u128 \<Rightarrow> string \<Rightarrow> u8 option" where
  "cancel_rejection_reason f order_id owner_note =
    first_some (\<lambda>((seen_id, seen_owner), reason).
        if seen_id = order_id \<and> eq_ignore_ascii_case seen_owner owner_note then Some reason else None)
      (bf_cancel_rejections f)"

definition fill_order :: "u128 \<Rightarrow> u128 \<Rightarrow> BookEventFold \<Rightarrow> BookEventFold" where
  "fill_order order_id ticks f =
    (case hget (bf_orders f) order_id of
       None \<Rightarrow> f
     | Some order \<Rightarrow>
         if \<not> lbo_is_buy order then f \<lparr> bf_orders := hremove order_id (bf_orders f) \<rparr>
         else
           (let order' = order \<lparr> lbo_ticks_remaining := saturating_sub (lbo_ticks_remaining order) ticks \<rparr>
            in if lbo_ticks_remaining order' = 0 then f \<lparr> bf_orders := hremove order_id (bf_orders f) \<rparr>
               else f \<lparr> bf_orders := binsert order_id order' (bf_orders f) \<rparr>))"

fun apply_book_event :: "BookEventFold \<Rightarrow> BookEvent \<Rightarrow> BookEventFold" where
  "apply_book_event f (EvPlaced order) = f \<lparr> bf_orders := binsert (lbo_order_id order) order (bf_orders f) \<rparr>"
| "apply_book_event f (EvCancelled order_id) = f \<lparr> bf_orders := hremove order_id (bf_orders f) \<rparr>"
| "apply_book_event f (EvCancelRejected order_id reason note) =
    f \<lparr> bf_cancel_rejections := binsert (order_id, note) reason (bf_cancel_rejections f) \<rparr>"
| "apply_book_event f (EvFilled maker_id taker_id ticks) =
    fill_order taker_id ticks (fill_order maker_id ticks f)"
| "apply_book_event f (EvExpired order_id _ _ _) =
    (case hget (bf_orders f) order_id of
       None \<Rightarrow> f
     | Some order \<Rightarrow>
         f \<lparr> bf_orders := binsert order_id (order \<lparr> lbo_expired_by_event := True \<rparr>) (bf_orders f) \<rparr>)"

section \<open>Decoding book events\<close>

definition decode_book_event_input ::
  "event_decoder \<Rightarrow> string list \<Rightarrow> string \<Rightarrow> page_error + (string \<times> tokens) option" where
  "decode_book_event_input event_of accepted_names body =
    bindR (event_of body) (\<lambda>found.
    case found of
      None \<Rightarrow> Inr None
    | Some (name, input) \<Rightarrow>
        if name \<notin> set accepted_names then Inr None
        else bindR input (\<lambda>tokens. Inr (Some (name, tokens))))"

definition book_order_placed :: "tokens \<Rightarrow> page_error + LiveBookOrder" where
  "book_order_placed tokens =
    bindR (named_u128 tokens ''orderId'') (\<lambda>order_id.
    bindR (named_bool tokens ''isBuy'') (\<lambda>is_buy.
    bindR (named_u128 tokens ''price'') (\<lambda>price.
    bindR (named_u128 tokens ''ticks'') (\<lambda>ticks.
    bindR (named_address tokens ''note'') (\<lambda>note.
    bindR (named_address tokens ''tokenContract'') (\<lambda>tc.
    bindR (named_u64 tokens ''deadline'') (\<lambda>deadline.
    bindR (named_u8 tokens ''flags'') (\<lambda>flags.
    Inr \<lparr> lbo_order_id = order_id, lbo_is_buy = is_buy, lbo_price = price, lbo_ticks_remaining = ticks,
          lbo_note = note, lbo_token_contract = tc, lbo_deadline = deadline, lbo_flags = flags,
          lbo_expired_by_event = False \<rparr>))))))))"

definition BOOK_EVENTS :: "string list" where
  "BOOK_EVENTS = [''InferenceOrderPlaced'', ''InferenceOrderCancelled'', ''InferenceOrderCancelRejected'',
    ''InferenceFilled'', ''InferenceOrderExpired'']"

definition decode_book_event :: "event_decoder \<Rightarrow> string \<Rightarrow> page_error + BookEvent option" where
  "decode_book_event event_of body =
    bindR (decode_book_event_input event_of BOOK_EVENTS body) (\<lambda>found.
    case found of
      None \<Rightarrow> Inr None
    | Some (event_name, tokens) \<Rightarrow>
        if event_name = ''InferenceOrderPlaced'' then
          bindR (book_order_placed tokens) (\<lambda>order. Inr (Some (EvPlaced order)))
        else if event_name = ''InferenceOrderCancelled'' then
          bindR (named_u128 tokens ''orderId'') (\<lambda>oid. Inr (Some (EvCancelled oid)))
        else if event_name = ''InferenceOrderCancelRejected'' then
          bindR (named_u128 tokens ''orderId'') (\<lambda>oid.
          bindR (named_u8 tokens ''reason'') (\<lambda>reason.
          bindR (named_address tokens ''note'') (\<lambda>note. Inr (Some (EvCancelRejected oid reason note)))))
        else if event_name = ''InferenceFilled'' then
          bindR (named_u128 tokens ''makerId'') (\<lambda>maker.
          bindR (named_u128 tokens ''takerId'') (\<lambda>taker.
          bindR (named_u128 tokens ''ticks'') (\<lambda>ticks. Inr (Some (EvFilled maker taker ticks)))))
        else
          bindR (named_u128 tokens ''orderId'') (\<lambda>oid.
          bindR (named_bool tokens ''isBuy'') (\<lambda>is_buy.
          bindR (named_address tokens ''note'') (\<lambda>note.
          bindR (named_address tokens ''tokenContract'') (\<lambda>tc. Inr (Some (EvExpired oid is_buy note tc)))))))"

definition BUYER_FACT_EVENTS :: "string list" where
  "BUYER_FACT_EVENTS = [''InferenceOrderPlaced'', ''InferenceOrderCancelled'', ''InferenceOrderExpired'',
    ''InferenceRefunded'', ''InferenceOrderRejected'']"

definition buyer_fact_kind :: "string \<Rightarrow> tokens \<Rightarrow> page_error + BuyerOrderFactKind option" where
  "buyer_fact_kind name tokens =
    (if name = ''InferenceOrderPlaced'' then
       bindR (named_bool tokens ''isBuy'') (\<lambda>is_buy.
       if \<not> is_buy then Inr None
       else
         bindR (named_u128 tokens ''orderId'') (\<lambda>oid.
         bindR (named_u128 tokens ''price'') (\<lambda>price.
         bindR (named_u128 tokens ''ticks'') (\<lambda>ticks.
         bindR (named_u64 tokens ''deadline'') (\<lambda>deadline. Inr (Some (FactPlaced oid price ticks deadline)))))))
     else if name = ''InferenceOrderCancelled'' then
       bindR (named_u128 tokens ''orderId'') (\<lambda>oid.
       bindR (named_u128 tokens ''refunded'') (\<lambda>refunded. Inr (Some (FactCancelled oid refunded))))
     else if name = ''InferenceOrderExpired'' then
       bindR (named_bool tokens ''isBuy'') (\<lambda>is_buy.
       if \<not> is_buy then Inr None
       else bindR (named_u128 tokens ''orderId'') (\<lambda>oid. Inr (Some (FactExpired oid))))
     else if name = ''InferenceRefunded'' then
       bindR (named_u128 tokens ''orderId'') (\<lambda>oid.
       bindR (named_u128 tokens ''amount'') (\<lambda>amount. Inr (Some (FactRefunded oid amount))))
     else
       bindR (named_u128 tokens ''reason'') (\<lambda>reason.
       bindR (named_u128 tokens ''refund'') (\<lambda>refund. Inr (Some (FactRejected (min reason U8_MAX) refund)))))"

definition decode_buyer_order_fact :: "event_decoder \<Rightarrow> string \<Rightarrow> i64 \<Rightarrow> page_error + BuyerOrderFact option" where
  "decode_buyer_order_fact event_of body created_at =
    bindR (decode_book_event_input event_of BUYER_FACT_EVENTS body) (\<lambda>found.
    case found of
      None \<Rightarrow> Inr None
    | Some (name, tokens) \<Rightarrow>
        bindR (buyer_fact_kind name tokens) (\<lambda>kind.
        case kind of
          None \<Rightarrow> Inr None
        | Some k \<Rightarrow>
            bindR (named_address tokens ''note'') (\<lambda>note.
            Inr (Some \<lparr> fact_created_at = created_at, fact_note = note, fact_kind = k \<rparr>))))"

record BookFillCandidate =
  bfc_maker_id :: u128
  bfc_taker_id :: u128
  bfc_ticks :: u128
  bfc_clearing_price :: string
  bfc_seller_token_contract :: string
  bfc_buyer_note :: string
  bfc_seller_note :: string

text \<open>The address parser of the SDK is the parameter \<open>norm\<close>.\<close>

definition decode_book_fill_candidate ::
  "event_decoder \<Rightarrow> (string \<Rightarrow> page_error + string) \<Rightarrow> string \<Rightarrow> string \<Rightarrow> page_error + BookFillCandidate option" where
  "decode_book_fill_candidate event_of norm normalized_buyer_note body =
    bindR (decode_book_event_input event_of [''InferenceFilled''] body) (\<lambda>found.
    case found of
      None \<Rightarrow> Inr None
    | Some (_, tokens) \<Rightarrow>
        bindR (named_address tokens ''buyerNote'') (\<lambda>raw_buyer.
        bindR (norm raw_buyer) (\<lambda>buyer_note.
        if buyer_note \<noteq> normalized_buyer_note then Inr None
        else
          bindR (named_u128 tokens ''makerId'') (\<lambda>maker.
          bindR (named_u128 tokens ''takerId'') (\<lambda>taker.
          bindR (named_u128 tokens ''ticks'') (\<lambda>ticks.
          bindR (named_uint_decimal tokens ''clearingPrice'') (\<lambda>price.
          bindR (bindR (named_address tokens ''sellerTC'') norm) (\<lambda>tc.
          bindR (bindR (named_address tokens ''sellerNote'') norm) (\<lambda>seller.
          Inr (Some \<lparr> bfc_maker_id = maker, bfc_taker_id = taker, bfc_ticks = ticks, bfc_clearing_price = price,
            bfc_seller_token_contract = tc, bfc_buyer_note = buyer_note, bfc_seller_note = seller \<rparr>)))))))))) "

definition read_book_fill_candidates ::
  "event_decoder \<Rightarrow> (string \<Rightarrow> page_error + string) \<Rightarrow> page_source \<Rightarrow> string
    \<Rightarrow> (page_error + BookFillCandidate list) option" where
  "read_book_fill_candidates event_of norm fetch buyer_note =
    (case norm buyer_note of
       Inl e \<Rightarrow> Some (Inl e)
     | Inr note \<Rightarrow> fetch_all_ext_out_messages fetch (\<lambda>m. decode_book_fill_candidate event_of norm note (msg_body m)))"

section \<open>Folding pages\<close>

definition collect_message ::
  "string option \<Rightarrow> ExtOutMessage \<Rightarrow> bool \<times> string list \<times> ExtOutMessage list
    \<Rightarrow> bool \<times> string list \<times> ExtOutMessage list" where
  "collect_message since message = (\<lambda>(found, seen, messages).
    (found \<or> since = Some (msg_id message),
     if msg_id message \<in> set seen then seen else msg_id message # seen,
     if msg_id message \<in> set seen then messages else messages @ [message]))"

partial_function (option) collect_pages ::
  "page_source \<Rightarrow> string option \<Rightarrow> nat \<Rightarrow> string option \<Rightarrow> bool \<times> string list \<times> ExtOutMessage list
    \<Rightarrow> (page_error + bool \<times> ExtOutMessage list) option" where
  "collect_pages fetch since k before acc =
    (case fetch k before of
       Inl e \<Rightarrow> Some (Inl e)
     | Inr page \<Rightarrow>
         (let acc' = fold (collect_message since) (page_messages page) acc;
              found = fst acc'; messages = snd (snd acc') in
          if since \<noteq> None \<and> found then Some (Inr (found, messages))
          else case page_previous_cursor page of
                 None \<Rightarrow> Some (Inr (found, messages))
               | Some previous \<Rightarrow>
                   if before = Some previous then Some (Inl NoProgress)
                   else collect_pages fetch since (Suc k) (Some previous) acc'))"

fun apply_messages :: "event_decoder \<Rightarrow> BookEventFold \<Rightarrow> ExtOutMessage list \<Rightarrow> page_error + BookEventFold" where
  "apply_messages event_of f [] = Inr f"
| "apply_messages event_of f (m # ms) =
    bindR (decode_book_event event_of (msg_body m)) (\<lambda>found.
    apply_messages event_of (case found of Some ev \<Rightarrow> apply_book_event f ev | None \<Rightarrow> f) ms)"

abbreviation chain_key :: "ExtOutMessage \<Rightarrow> u64 \<times> string" where
  "chain_key m \<equiv> (msg_created_at m, msg_cursor m)"

definition fold_messages ::
  "event_decoder \<Rightarrow> BookEventFold \<Rightarrow> bool \<times> ExtOutMessage list \<Rightarrow> page_error + BookEventFold" where
  "fold_messages event_of f = (\<lambda>(found_since, collected).
    let since = bf_last_seen_id f in
    case since of
      Some since_id \<Rightarrow>
        if \<not> found_since then Inl (HistoryGone since_id)
        else
          (let messages = sort_key chain_key collected;
               start = (case position (\<lambda>m. msg_id m = since_id) messages of Some i \<Rightarrow> i + 1 | None \<Rightarrow> 0)
           in bindR (apply_messages event_of f (drop start messages)) (\<lambda>f'.
              Inr (if messages = [] then f' else f' \<lparr> bf_last_seen_id := Some (msg_id (last messages)) \<rparr>)))
    | None \<Rightarrow>
        (let messages = sort_key chain_key collected
         in bindR (apply_messages event_of f messages) (\<lambda>f'.
            Inr (if messages = [] then f' else f' \<lparr> bf_last_seen_id := Some (msg_id (last messages)) \<rparr>))))"

definition fold_book_event_pages ::
  "event_decoder \<Rightarrow> BookEventFold \<Rightarrow> page_source \<Rightarrow> (page_error + BookEventFold) option" where
  "fold_book_event_pages event_of f fetch =
    map_option (\<lambda>r. bindR r (fold_messages event_of f))
      (collect_pages fetch (bf_last_seen_id f) 0 None (False, [], []))"

end
