(* ===== verification/BookFold.thy ===== *)
theory BookFold
  imports BookEvents
begin

text \<open>
  What the fold of the book's events computes: a walk of the pages of an honest source applies exactly
  the messages after the last one seen, in chain order; folding in instalments is folding at once; and
  the orders of the fold are a function of their placement and of the events that name them since.
\<close>

section \<open>Collecting the pages\<close>

definition chain_ordered :: "ExtOutMessage list \<Rightarrow> bool" where
  "chain_ordered H \<longleftrightarrow> sorted_wrt (<) (map chain_key H)"

definition collected :: "string option \<Rightarrow> ExtOutMessage set \<Rightarrow> bool \<times> string list \<times> ExtOutMessage list \<Rightarrow> bool" where
  "collected since S = (\<lambda>(found, seen, messages).
    set messages = S \<and> distinct messages \<and> set seen = msg_id ` S
    \<and> (found \<longleftrightarrow> (\<exists>m \<in> S. since = Some (msg_id m))))"

lemma collect_message_collected:
  assumes "collected since S acc" and "inj_on msg_id (insert m S)"
  shows "collected since (insert m S) (collect_message since m acc)"
proof -
  obtain found seen messages where acc: "acc = (found, seen, messages)" by (cases acc) auto
  have "msg_id m \<in> msg_id ` S \<longleftrightarrow> m \<in> S"
    using assms(2) inj_on_image_mem_iff [of msg_id "insert m S" m S] by auto
  with assms(1) show ?thesis
    by (auto simp: acc collected_def collect_message_def insert_absorb)
qed

lemma fold_collected:
  "collected since S acc \<Longrightarrow> inj_on msg_id (S \<union> set p) \<Longrightarrow>
    collected since (S \<union> set p) (fold (collect_message since) p acc)"
proof (induction p arbitrary: S acc)
  case (Cons m p)
  have "inj_on msg_id (insert m S)" "inj_on msg_id (insert m S \<union> set p)"
    using Cons.prems(2) by (auto intro: inj_on_subset)
  with Cons.IH [OF collect_message_collected [OF Cons.prems(1)]] show ?case by simp
qed simp

lemma window_extends: "lo \<le> k \<Longrightarrow> k \<le> hi \<Longrightarrow> set (drop k H) \<union> set (window lo hi H) = set (drop lo H)"
proof -
  assume le: "lo \<le> k" "k \<le> hi"
  have "drop lo H = window lo k H @ drop k H"
    using le by (metis append_take_drop_id drop_drop le_add_diff_inverse2 window_def)
  moreover have "set (window k hi H) \<subseteq> set (drop k H)"
    by (simp add: window_def set_take_subset)
  ultimately show ?thesis
    using le by (auto simp: window_split [of lo k hi])
qed

lemma collect_pages_served:
  assumes "answers fetch i before ps" and "served H k ps" and "inj_on msg_id (set H)"
    and "collected since (set (drop k H)) acc"
  shows "\<exists>lo messages. collect_pages fetch since i before acc =
      Some (Inr (\<exists>m \<in> set (drop lo H). since = Some (msg_id m), messages))
    \<and> set messages = set (drop lo H) \<and> distinct messages
    \<and> (lo = 0 \<or> (\<exists>m \<in> set (drop lo H). since = Some (msg_id m)))"
  using assms
proof (induction arbitrary: k acc rule: answers.induct)
  case (answers_last i before p)
  obtain hi where "p = window 0 hi H" "k \<le> hi"
    using answers_last.prems(1) by (auto elim!: served_ConsE served_NilE simp: window_def)
  then have "collected since (set H) (fold (collect_message since) p acc)"
    using fold_collected [OF answers_last.prems(3), of p] answers_last.prems(2) window_extends [of 0 k hi H] by simp
  then show ?case
    using answers_last.hyps
    by (intro exI [of _ 0]) (subst collect_pages.simps, auto simp: Let_def collected_def split_beta)
next
  case (answers_more i before p c ps)
  obtain lo hi where page: "p = window lo hi H" "lo \<le> k" "k \<le> hi" and rest: "served H lo ps"
    using answers_more.prems(1) by (auto elim!: served_ConsE simp: window_def)
  let ?acc = "fold (collect_message since) p acc"
  have "inj_on msg_id (set (drop lo H))"
    using answers_more.prems(2) by (rule inj_on_subset) (rule set_drop_subset)
  then have acc: "collected since (set (drop lo H)) ?acc"
    using fold_collected [OF answers_more.prems(3), of p] window_extends [OF page(2,3), of H] page(1) by simp
  show ?case
  proof (cases "since \<noteq> None \<and> fst ?acc")
    case True
    then show ?thesis
      using answers_more.hyps(1) acc
      by (intro exI [of _ lo]) (subst collect_pages.simps, auto simp: Let_def collected_def split_beta)
  next
    case False
    then have "collect_pages fetch since i before acc = collect_pages fetch since (Suc i) (Some c) ?acc"
      using answers_more.hyps(1,2) by (subst collect_pages.simps) (auto simp: Let_def)
    with answers_more.IH [OF rest answers_more.prems(2) acc] show ?thesis by simp
  qed
qed

lemma chain_ordered_distinct: "chain_ordered H \<Longrightarrow> sorted (map chain_key H) \<and> distinct (map chain_key H)"
  by (simp add: chain_ordered_def strict_sorted_iff)

lemma chain_ordered_drop: "chain_ordered H \<Longrightarrow> chain_ordered (drop n H)"
  by (simp add: chain_ordered_def drop_map [symmetric] sorted_wrt_drop)

lemma sort_collected:
  assumes "chain_ordered H" and "set messages = set H" and "distinct messages"
  shows "sort_key chain_key messages = H"
proof -
  have inj: "inj_on chain_key (set H)" and "distinct H"
    using chain_ordered_distinct [OF assms(1)] by (simp_all add: distinct_map)
  have "distinct (map chain_key (sort_key chain_key messages))"
    using assms(2,3) inj by (simp add: distinct_map)
  then have "map chain_key (sort_key chain_key messages) = map chain_key H"
    using chain_ordered_distinct [OF assms(1)] assms(2)
    by (intro sorted_distinct_set_unique) simp_all
  then show ?thesis
    using inj assms(2) by (simp add: inj_on_map_eq_map)
qed

section \<open>The fold of an honest source\<close>

definition seen_up_to :: "ExtOutMessage list \<Rightarrow> BookEventFold \<Rightarrow> BookEventFold" where
  "seen_up_to H f = (if H = [] then f else f \<lparr> bf_last_seen_id := Some (msg_id (last H)) \<rparr>)"

definition unseen :: "string option \<Rightarrow> ExtOutMessage list \<Rightarrow> page_error + ExtOutMessage list" where
  "unseen since H =
    (case since of
       None \<Rightarrow> Inr H
     | Some since_id \<Rightarrow>
         (case position (\<lambda>m. msg_id m = since_id) H of Some i \<Rightarrow> Inr (drop (i + 1) H) | None \<Rightarrow> Inl (HistoryGone since_id)))"

lemma fold_messages_served:
  assumes "chain_ordered H" and "distinct (map msg_id H)"
    and "set messages = set (drop lo H)" and "distinct messages"
    and "lo = 0 \<or> (\<exists>m \<in> set (drop lo H). bf_last_seen_id f = Some (msg_id m))"
  shows "fold_messages event_of f (\<exists>m \<in> set (drop lo H). bf_last_seen_id f = Some (msg_id m), messages) =
    bindR (unseen (bf_last_seen_id f) H) (\<lambda>ms. bindR (apply_messages event_of f ms) (\<lambda>f'. Inr (seen_up_to H f')))"
proof (cases "bf_last_seen_id f")
  case None
  then have "sort_key chain_key messages = H"
    using assms by (intro sort_collected) auto
  with None show ?thesis
    by (simp add: fold_messages_def unseen_def seen_up_to_def Let_def cong: if_cong)
next
  case (Some since_id)
  show ?thesis
  proof (cases "\<exists>m \<in> set (drop lo H). bf_last_seen_id f = Some (msg_id m)")
    case True
    have sorted: "sort_key chain_key messages = drop lo H"
      using assms by (intro sort_collected chain_ordered_drop)
    obtain i where i: "position (\<lambda>m. msg_id m = since_id) H = Some i"
      using True Some by (cases "position (\<lambda>m. msg_id m = since_id) H")
        (auto simp: position_None_iff dest: in_set_dropD)
    obtain j where j: "position (\<lambda>m. msg_id m = since_id) (drop lo H) = Some j"
      using True Some by (cases "position (\<lambda>m. msg_id m = since_id) (drop lo H)") (auto simp: position_None_iff)
    have "msg_id (H ! i) = msg_id (H ! (lo + j))" "i < length H" "lo + j < length H"
      using position_SomeD [OF i] position_SomeD [OF j] by auto
    then have "i = lo + j"
      using assms(2) by (simp add: distinct_conv_nth) metis
    moreover have "lo < length H" "H \<noteq> []"
      using position_SomeD [OF j] by auto
    ultimately show ?thesis
      using True Some i j sorted
      by (auto simp: fold_messages_def unseen_def seen_up_to_def Let_def add.commute add.left_commute last_drop
          cong: if_cong)
  next
    case False
    then have "position (\<lambda>m. msg_id m = since_id) H = None"
      using assms(5) Some by (auto simp: position_None_iff)
    with False Some show ?thesis
      by (auto simp: fold_messages_def unseen_def Let_def)
  qed
qed

text \<open>
  C24: The fold of a source that holds a history in chain order ends. It applies exactly the messages
  after the last one seen, once each and in chain order, and remembers the newest; if the message last
  seen is no longer in the history it fails with that error and applies nothing.
\<close>

theorem book_fold_exact:
  assumes "holds_history fetch H" and "chain_ordered H"
  shows "fold_book_event_pages event_of f fetch =
    Some (bindR (unseen (bf_last_seen_id f) H) (\<lambda>ms.
      bindR (apply_messages event_of f ms) (\<lambda>f'. Inr (seen_up_to H f'))))"
proof -
  obtain ps where ps: "served H (length H) ps" "answers fetch 0 None ps" and ids: "distinct (map msg_id H)"
    using assms(1) by (auto simp: holds_history_def)
  have "collected (bf_last_seen_id f) (set (drop (length H) H)) (False, [], [])"
    by (simp add: collected_def)
  then obtain lo messages where walk:
    "collect_pages fetch (bf_last_seen_id f) 0 None (False, [], []) =
      Some (Inr (\<exists>m \<in> set (drop lo H). bf_last_seen_id f = Some (msg_id m), messages))"
    "set messages = set (drop lo H)" "distinct messages"
    "lo = 0 \<or> (\<exists>m \<in> set (drop lo H). bf_last_seen_id f = Some (msg_id m))"
    using collect_pages_served [OF ps(2,1)] distinct_ids [OF ids] by blast
  then show ?thesis
    using fold_messages_served [OF assms(2) ids walk(2-4)] by (simp add: fold_book_event_pages_def)
qed

definition sample_events :: event_decoder where
  "sample_events body =
    (if body = ''1'' then
       Inr (Some (''InferenceOrderPlaced'', Inr [(''orderId'', TUint 7), (''isBuy'', TBool True), (''price'', TUint 3),
         (''ticks'', TUint 10), (''note'', TAddress ''n''), (''tokenContract'', TAddress ''t''), (''deadline'', TUint 0),
         (''flags'', TUint 0)]))
     else if body = ''2'' then
       Inr (Some (''InferenceFilled'', Inr [(''makerId'', TUint 7), (''takerId'', TUint 9), (''ticks'', TUint 4)]))
     else Inr None)"

definition sample_history :: "ExtOutMessage list" where
  "sample_history = [sample_message 1, sample_message 2, sample_message 3]"

lemmas sample_messages = sample_message_def sample_digits

lemma sample_history_ordered: "chain_ordered sample_history" "chain_ordered [sample_message 1]"
  by (simp_all add: chain_ordered_def sample_history_def sample_messages less_char_def)

lemma sample_history_held: "holds_history sample_fetch sample_history"
  using sample_fetch_holds by (simp add: sample_history_def)

lemmas decode_rules = decode_book_event_def decode_book_event_input_def book_order_placed_def BOOK_EVENTS_def
  named_u128_def named_u64_def named_u8_def named_uint_def named_bool_def named_address_def try_from_def MAX_defs

definition sample_folded :: "string \<Rightarrow> BookEventFold" where
  "sample_folded marker = \<lparr> bf_orders = [(7, \<lparr> lbo_order_id = 7, lbo_is_buy = True, lbo_price = 3,
    lbo_ticks_remaining = 6, lbo_note = ''n'', lbo_token_contract = ''t'', lbo_deadline = 0, lbo_flags = 0,
    lbo_expired_by_event = False \<rparr>)], bf_cancel_rejections = [], bf_last_seen_id = Some marker \<rparr>"

lemma sample_replay: "apply_messages sample_events (after_event_marker None) sample_history =
    Inr ((sample_folded []) \<lparr> bf_last_seen_id := None \<rparr>)"
  by (simp add: sample_history_def sample_messages sample_events_def decode_rules after_event_marker_def
      sample_folded_def fill_order_def hget_def)

theorem book_fold_exact_witness:
  "holds_history sample_fetch sample_history \<and> chain_ordered sample_history
    \<and> fold_book_event_pages sample_events (after_event_marker None) sample_fetch = Some (Inr (sample_folded ''3''))
    \<and> fold_book_event_pages sample_events (after_event_marker (Some ''8'')) sample_fetch = Some (Inl (HistoryGone ''8''))"
proof -
  have "unseen (Some ''8'') sample_history = Inl (HistoryGone ''8'')"
    by (simp add: unseen_def sample_history_def sample_messages)
  then show ?thesis
    using book_fold_exact [OF sample_history_held sample_history_ordered(1), of sample_events "after_event_marker None"]
      book_fold_exact [OF sample_history_held sample_history_ordered(1), of sample_events "after_event_marker (Some ''8'')"]
      sample_history_held sample_history_ordered(1) sample_replay
    by (simp add: after_event_marker_def unseen_def seen_up_to_def sample_folded_def)
       (simp add: sample_history_def sample_messages)
qed

section \<open>Folding in instalments\<close>

lemma apply_messages_append:
  "apply_messages event_of f (xs @ ys) = bindR (apply_messages event_of f xs) (\<lambda>f'. apply_messages event_of f' ys)"
  by (induction event_of f xs rule: apply_messages.induct) (auto simp: bindR_def split: sum.split)

lemma apply_book_event_marker:
  "apply_book_event (f \<lparr> bf_last_seen_id := marker \<rparr>) ev = (apply_book_event f ev) \<lparr> bf_last_seen_id := marker \<rparr>"
  by (cases ev) (auto simp: fill_order_def Let_def split: option.split)

lemma apply_messages_marker:
  "apply_messages event_of (f \<lparr> bf_last_seen_id := marker \<rparr>) ms =
    bindR (apply_messages event_of f ms) (\<lambda>f'. Inr (f' \<lparr> bf_last_seen_id := marker \<rparr>))"
proof (induction ms arbitrary: f)
  case (Cons m ms)
  show ?case
  proof (cases "decode_book_event event_of (msg_body m)")
    case (Inr ev)
    then show ?thesis using Cons.IH by (cases ev) (simp_all add: apply_book_event_marker)
  qed simp
qed simp

lemma unseen_of_known:
  assumes "distinct (map msg_id (H @ N))" and "H \<noteq> []"
  shows "unseen (Some (msg_id (last H))) (H @ N) = Inr N"
proof -
  have "position (\<lambda>m. msg_id m = msg_id ((H @ N) ! (length H - 1))) (H @ N) = Some (length H - 1)"
    using assms by (intro position_unique) (auto simp: trans_less_add1)
  moreover have "(H @ N) ! (length H - 1) = last H"
    using assms(2) by (simp add: last_conv_nth nth_append)
  ultimately show ?thesis
    using assms(2) by (simp add: unseen_def)
qed

text \<open>
  C3: Folding in instalments is folding at once. A first read folds the history of that moment; a later
  read of the grown history from the fold kept gives what reading the whole of it from nothing gives,
  failures of decoding included.
\<close>

theorem incremental_book_fold:
  assumes "holds_history fetch H" "chain_ordered H"
    and "holds_history fetch' (H @ N)" "chain_ordered (H @ N)"
    and "fold_book_event_pages event_of (after_event_marker None) fetch = Some (Inr f)"
  shows "fold_book_event_pages event_of f fetch' = fold_book_event_pages event_of (after_event_marker None) fetch'"
proof -
  let ?new = "after_event_marker None"
  have new: "bf_last_seen_id ?new = None" by (simp add: after_event_marker_def)
  obtain g where g: "apply_messages event_of ?new H = Inr g" "f = seen_up_to H g"
    using assms(5) by (auto simp: book_fold_exact [OF assms(1,2)] new unseen_def bindR_Inr_iff)
  show ?thesis
  proof (cases "H = []")
    case True
    with g show ?thesis by (simp add: seen_up_to_def)
  next
    case False
    have ids: "distinct (map msg_id (H @ N))" using assms(3) by (auto simp: holds_history_def)
    have f: "f = g \<lparr> bf_last_seen_id := Some (msg_id (last H)) \<rparr>"
      using g(2) False by (simp add: seen_up_to_def)
    then have "unseen (bf_last_seen_id f) (H @ N) = Inr N"
      using unseen_of_known [OF ids False] by simp
    then have "fold_book_event_pages event_of f fetch' =
        Some (bindR (apply_messages event_of g N) (\<lambda>f'. Inr (seen_up_to (H @ N) f')))"
      using False by (cases "apply_messages event_of g N")
        (simp_all add: book_fold_exact [OF assms(3,4)] f apply_messages_marker seen_up_to_def)
    then show ?thesis
      using g(1) by (simp add: book_fold_exact [OF assms(3,4)] new unseen_def apply_messages_append)
  qed
qed

definition sample_first_fetch :: page_source where
  "sample_first_fetch k before = Inr \<lparr> page_messages = [sample_message 1], page_previous_cursor = None \<rparr>"

lemma sample_first_held: "holds_history sample_first_fetch [sample_message 1]"
proof -
  have "served [sample_message 1] (length [sample_message 1]) [[sample_message 1]]"
    by (rule served_page [where lo = 0 and hi = 1, OF _ _ _ _ served_done]) simp_all
  moreover have "answers sample_first_fetch 0 None [[sample_message 1]]"
    by (rule answers_last) (simp add: sample_first_fetch_def)
  ultimately show ?thesis by (auto simp: holds_history_def)
qed

theorem incremental_book_fold_witness:
  "\<exists>f. fold_book_event_pages sample_events (after_event_marker None) sample_first_fetch = Some (Inr f)
    \<and> bf_last_seen_id f = Some ''1''
    \<and> fold_book_event_pages sample_events f sample_fetch
      = fold_book_event_pages sample_events (after_event_marker None) sample_fetch"
proof -
  have history: "holds_history sample_fetch ([sample_message 1] @ [sample_message 2, sample_message 3])"
    "chain_ordered ([sample_message 1] @ [sample_message 2, sample_message 3])"
    using sample_history_held sample_history_ordered(1) by (simp_all add: sample_history_def)
  obtain g where "apply_messages sample_events (after_event_marker None) [sample_message 1] = Inr g"
    by (simp add: sample_messages sample_events_def decode_rules)
  then obtain f where f: "fold_book_event_pages sample_events (after_event_marker None) sample_first_fetch = Some (Inr f)"
    "bf_last_seen_id f = Some ''1''"
    using book_fold_exact [OF sample_first_held sample_history_ordered(2), of sample_events "after_event_marker None"]
    by (auto simp: after_event_marker_def unseen_def seen_up_to_def sample_messages)
  then show ?thesis
    using incremental_book_fold [OF sample_first_held sample_history_ordered(2) history f(1)] by blast
qed

section \<open>What the fold holds of an order\<close>

fun fills_naming :: "u128 \<Rightarrow> BookEvent \<Rightarrow> u128 list" where
  "fills_naming oid (EvFilled maker taker ticks) =
    (if maker = oid then [ticks] else []) @ (if taker = oid then [ticks] else [])"
| "fills_naming oid _ = []"

definition all_fills :: "u128 \<Rightarrow> BookEvent list \<Rightarrow> u128 list" where
  "all_fills oid evs = concat (map (fills_naming oid) evs)"

fun places :: "u128 \<Rightarrow> BookEvent \<Rightarrow> bool" where
  "places oid (EvPlaced order) = (lbo_order_id order = oid)"
| "places oid _ = False"

fun expires :: "u128 \<Rightarrow> BookEvent \<Rightarrow> bool" where
  "expires oid (EvExpired i _ _ _) = (i = oid)"
| "expires oid _ = False"

definition rests_after :: "LiveBookOrder \<Rightarrow> u128 \<Rightarrow> BookEvent list \<Rightarrow> bool" where
  "rests_after order oid evs \<longleftrightarrow>
    EvCancelled oid \<notin> set evs
    \<and> (all_fills oid evs = [] \<or> lbo_is_buy order \<and> sum_list (all_fills oid evs) < lbo_ticks_remaining order)"

definition order_after :: "LiveBookOrder \<Rightarrow> u128 \<Rightarrow> BookEvent list \<Rightarrow> LiveBookOrder" where
  "order_after order oid evs = order
    \<lparr> lbo_ticks_remaining := lbo_ticks_remaining order - sum_list (all_fills oid evs),
      lbo_expired_by_event := lbo_expired_by_event order \<or> list_ex (expires oid) evs \<rparr>"

text \<open>The state of one order, as the events change it.\<close>

definition fill_one :: "u128 \<Rightarrow> LiveBookOrder option \<Rightarrow> LiveBookOrder option" where
  "fill_one ticks slot =
    (case slot of
       None \<Rightarrow> None
     | Some order \<Rightarrow>
         if lbo_is_buy order \<and> ticks < lbo_ticks_remaining order
         then Some (order \<lparr> lbo_ticks_remaining := lbo_ticks_remaining order - ticks \<rparr>) else None)"

lemma hget_fill_order:
  "hget (bf_orders (fill_order oid ticks f)) j = (if j = oid then fill_one ticks (hget (bf_orders f) j)
    else hget (bf_orders f) j)"
  by (auto simp: fill_order_def fill_one_def Let_def hget_hremove hget_binsert split: option.split)

lemma order_step:
  assumes "\<not> places oid ev"
  shows "hget (bf_orders (apply_book_event f ev)) oid =
    (if ev = EvCancelled oid then None
     else map_option (\<lambda>order. order \<lparr> lbo_expired_by_event := lbo_expired_by_event order \<or> expires oid ev \<rparr>)
       (fold fill_one (fills_naming oid ev) (hget (bf_orders f) oid)))"
  using assms
proof (cases ev)
  case (EvExpired i b n tc)
  then show ?thesis
    by (cases "i = oid"; cases "hget (bf_orders f) i"; cases "hget (bf_orders f) oid") (simp_all add: hget_binsert)
qed (auto simp: hget_fill_order hget_binsert hget_hremove option.map_ident)

lemma fill_one_None [simp]: "fold fill_one ts None = None"
  by (induction ts) (auto simp: fill_one_def)

lemma fold_fill_one:
  "fold fill_one ts (Some order) =
    (if ts = [] \<or> lbo_is_buy order \<and> sum_list ts < lbo_ticks_remaining order
     then Some (order \<lparr> lbo_ticks_remaining := lbo_ticks_remaining order - sum_list ts \<rparr>) else None)"
  by (induction ts arbitrary: order) (auto simp: fill_one_def)

lemma order_gone: "\<not> list_ex (places oid) evs \<Longrightarrow> hget (bf_orders f) oid = None
    \<Longrightarrow> hget (bf_orders (foldl apply_book_event f evs)) oid = None"
  by (induction evs arbitrary: f) (simp_all add: order_step)

text \<open>
  C32: What the fold holds of an order after its last placement depends only on the events that name it.
  It rests unless a cancel named it, or it is an ask and was matched at all, or it is a bid whose fills
  consumed its ticks; a fill that names the order on both sides counts twice. A resting order has the
  ticks the fills left and is marked exactly if an expiry named it.
\<close>

theorem book_order_exact:
  assumes "hget (bf_orders f) oid = Some order" and "\<not> list_ex (places oid) evs"
  shows "hget (bf_orders (foldl apply_book_event f evs)) oid =
    (if rests_after order oid evs then Some (order_after order oid evs) else None)"
  using assms
proof (induction evs arbitrary: f order)
  case (Cons ev evs)
  have step: "hget (bf_orders (apply_book_event f ev)) oid =
    (if rests_after order oid [ev] then Some (order_after order oid [ev]) else None)"
    using Cons.prems
    by (auto simp: order_step fold_fill_one rests_after_def order_after_def all_fills_def)
  have fills: "all_fills oid (ev # evs) = all_fills oid [ev] @ all_fills oid evs"
    by (simp add: all_fills_def)
  show ?case
  proof (cases "rests_after order oid [ev]")
    case True
    have "hget (bf_orders (foldl apply_book_event (apply_book_event f ev) evs)) oid =
      (if rests_after (order_after order oid [ev]) oid evs
       then Some (order_after (order_after order oid [ev]) oid evs) else None)"
      using Cons.prems step True by (intro Cons.IH) auto
    moreover have "rests_after order oid (ev # evs) \<longleftrightarrow> rests_after (order_after order oid [ev]) oid evs"
      using True unfolding rests_after_def order_after_def fills by auto
    moreover have "order_after (order_after order oid [ev]) oid evs = order_after order oid (ev # evs)"
      unfolding order_after_def fills by (simp add: disj_assoc)
    ultimately show ?thesis by simp
  next
    case False
    then have "\<not> rests_after order oid (ev # evs)"
      unfolding rests_after_def fills by auto
    with False step Cons.prems show ?thesis by (simp add: order_gone)
  qed
qed (simp add: rests_after_def order_after_def all_fills_def)

definition sample_bid :: LiveBookOrder where
  "sample_bid = \<lparr> lbo_order_id = 7, lbo_is_buy = True, lbo_price = 3, lbo_ticks_remaining = 10, lbo_note = ''n'',
    lbo_token_contract = ''t'', lbo_deadline = 0, lbo_flags = 0, lbo_expired_by_event = False \<rparr>"

theorem book_order_exact_witness:
  "hget (bf_orders (apply_book_event (after_event_marker None) (EvPlaced sample_bid))) 7 = Some sample_bid
    \<and> hget (bf_orders (foldl apply_book_event (apply_book_event (after_event_marker None) (EvPlaced sample_bid))
        [EvFilled 7 3 4, EvExpired 7 True ''n'' ''t'', EvFilled 2 7 5])) 7
      = Some (sample_bid \<lparr> lbo_ticks_remaining := 1, lbo_expired_by_event := True \<rparr>)"
proof -
  let ?f = "apply_book_event (after_event_marker None) (EvPlaced sample_bid)"
  have placed: "hget (bf_orders ?f) 7 = Some sample_bid"
    by (simp add: after_event_marker_def sample_bid_def hget_def)
  have "rests_after sample_bid 7 [EvFilled 7 3 4, EvExpired 7 True ''n'' ''t'', EvFilled 2 7 5]"
    by (simp add: rests_after_def all_fills_def sample_bid_def)
  with book_order_exact [OF placed, of "[EvFilled 7 3 4, EvExpired 7 True ''n'' ''t'', EvFilled 2 7 5]"] placed
  show ?thesis by (simp add: order_after_def all_fills_def sample_bid_def)
qed

end
