(* ===== verification/Diagnostics.thy ===== *)
theory Diagnostics
  imports JsonReads
begin

text \<open>
  What the client says about an on-chain submission, \<open>src/crates/core/src/onchain_diagnostics.rs\<close>: which
  responses count as refusals, the names of the contracts' error codes, and the removal of credentials
  from a payload before it is shown. Numbers of a response are integers. The text of a refusal by the
  block manager quotes JSON and is kept as its parts; the other messages are spelled out.
\<close>

section \<open>Error codes\<close>

definition CONTRACT_ERRORS :: "(int \<times> string list) list" where
  "CONTRACT_ERRORS =
    [(100, [''modelregistry::ERR_NOT_OWNER'']),
     (101, [''dex::ERR_INVALID_SENDER'', ''modelregistry::ERR_NO_PUBKEY'']),
     (102, [''dex::ERR_LOW_VALUE'', ''modelregistry::ERR_NOT_MODEL'']),
     (103, [''dex::ERR_ALREADY_RESOLVED'', ''modelregistry::ERR_NAME_TOO_LONG'']),
     (107, [''dex::ERR_ALREADY_INITIALIZED'']),
     (114, [''dex::ERR_NOT_INITIALIZED'']),
     (116, [''dex::ERR_NOT_APPROVED'']),
     (120, [''dex::ERR_STAKE_PERIOD_ENDED'']),
     (121, [''dex::ERR_NOTE_BUSY'']),
     (122, [''dex::ERR_STAKE_NOT_APPROVED'']),
     (124, [''dex::ERR_STAKE_NOT_STARTED'']),
     (125, [''dex::ERR_RESULT_NOT_STARTED'']),
     (126, [''dex::ERR_RESULT_ENDED'']),
     (128, [''dex::ERR_ZERO_TOKEN_AMOUNT'']),
     (129, [''dex::ERR_INVALID_PARAMS'']),
     (130, [''dex::ERR_INVALID_OUTCOME_ID'']),
     (132, [''dex::ERR_ALREADY_CANCELLED'']),
     (133, [''dex::ERR_NOT_CANCELLED'']),
     (137, [''dex::ERR_INVALID_ZKPROOF'']),
     (138, [''dex::ERR_INVALID_TOKEN_TYPE'']),
     (141, [''dex::ERR_NOT_ALLOWED'']),
     (142, [''dex::ERR_STAKE_NOT_EXISTS'']),
     (143, [''dex::ERR_HAS_DEBT'']),
     (144, [''dex::ERR_NON_ZERO_BALANCE'']),
     (145, [''dex::ERR_COUPON_POOL_LIMIT_EXCEEDED'']),
     (146, [''dex::ERR_NO_COUPON_AVAILABLE'']),
     (147, [''dex::ERR_INVALID_BET_TYPE'']),
     (148, [''dex::ERR_COUPON_ALREADY_EXISTS'']),
     (149, [''dex::ERR_COUPON_ACTIVE'']),
     (150, [''dex::ERR_DEBT_NON_ZERO'']),
     (151, [''dex::ERR_INVALID_STATE'']),
     (154, [''dex::ERR_ALREADY_FROZEN'']),
     (156, [''dex::ERR_NOT_STAKEEND'']),
     (158, [''dex::ERR_ORDER_NOT_FOUND'']),
     (160, [''dex::ERR_ORDER_TOO_SMALL'']),
     (161, [''dex::ERR_BATCH_TOO_LARGE'']),
     (162, [''dex::ERR_EMPTY_BATCH'']),
     (163, [''dex::ERR_AMOUNT_NOT_LOT_MULTIPLE'']),
     (164, [''dex::ERR_PRICE_NOT_TICK_MULTIPLE'']),
     (165, [''dex::ERR_ORDERBOOK_NOT_SHUTDOWN'']),
     (167, [''dex::ERR_OPEN_ORDERS_EXIST'']),
     (168, [''dex::ERR_NOTIONAL_OVERFLOW'']),
     (169, [''dex::ERR_STAKE_EXISTS'']),
     (170, [''dex::ERR_NOT_ALLOWED_CONSTRUCTOR'']),
     (301, [''airegistry::ERR_NOT_OWNER'']),
     (302, [''airegistry::ERR_INVALID_SENDER'']),
     (303, [''airegistry::ERR_ZERO_AMOUNT'']),
     (304, [''airegistry::ERR_ALREADY_REGISTERED'']),
     (306, [''airegistry::ERR_INSUFFICIENT_TOKENS'']),
     (311, [''airegistry::ERR_NO_SHELL'']),
     (313, [''airegistry::ERR_BAD_PARAM'']),
     (314, [''airegistry::ERR_OVERFLOW'']),
     (316, [''airegistry::ERR_BAD_CODE_HASH'']),
     (318, [''airegistry::ERR_NOT_FUNDED'']),
     (319, [''airegistry::ERR_ALREADY_FUNDED'']),
     (320, [''airegistry::ERR_NOT_OPEN'']),
     (321, [''airegistry::ERR_ALREADY_OPEN'']),
     (322, [''airegistry::ERR_NOT_BUYER'']),
     (323, [''airegistry::ERR_SETTLE_WINDOW_OPEN'']),
     (324, [''airegistry::ERR_DISPUTED'']),
     (325, [''airegistry::ERR_NOT_DISPUTED'']),
     (326, [''airegistry::ERR_DISPUTE_WINDOW_OPEN'']),
     (327, [''airegistry::ERR_STREAM_TIMEOUT_OPEN'']),
     (328, [''airegistry::ERR_INSUFFICIENT_DEPOSIT'']),
     (329, [''airegistry::ERR_STILL_OPEN'']),
     (332, [''airegistry::ERR_BOND_NOT_FUNDED'']),
     (333, [''airegistry::ERR_BOND_ALREADY_FUNDED'']),
     (334, [''iob::ERR_NO_LIQUIDITY'']),
     (335, [''iob::ERR_BAD_FLAGS'']),
     (336, [''airegistry::ERR_OFFER_LIVE'']),
     (340, [''iob::ERR_QUEUE_FULL'']),
     (342, [''iob::ERR_BAD_TOKEN_CONTRACT'']),
     (343, [''iob::ERR_NAME_TOO_LONG'']),
     (344, [''iob::ERR_BAD_MODEL_NAME'']),
     (345, [''iob::ERR_NOT_DEPLOYER_NOTE'']),
     (346, [''iob::ERR_EXPIRED'']),
     (350, [''oracleeventlist::ERR_NOT_RANGE_EVENT'']),
     (400, [''dex::ERR_MESSAGE_IS_EXIST'']),
     (401, [''dex::ERR_MESSAGE_WITH_HUGE_EXPIREAT'']),
     (402, [''dex::ERR_MESSAGE_EXPIRED'']),
     (403, [''dex::ERR_INVALID_HISTORY_PROOF'']),
     (404, [''dex::ERR_NORM_REFUND_PENDING'']),
     (405, [''dex::ERR_SELL_DEADLINE_TOO_LONG'']),
     (407, [''dex::ERR_BAD_GAS_MIX'']),
     (408, [''dex::ERR_BELOW_GAS_DEPOSIT'']),
     (409, [''dex::ERR_FEE_TYPE_NOT_DEPOSITABLE''])]"

definition contract_error_names :: "int \<Rightarrow> string list" where
  "contract_error_names code = (case map_of CONTRACT_ERRORS code of Some names \<Rightarrow> names | None \<Rightarrow> [])"

fun join_with :: "string \<Rightarrow> string list \<Rightarrow> string" where
  "join_with sep [] = []"
| "join_with sep [s] = s"
| "join_with sep (s # t # ss) = s @ sep @ join_with sep (t # ss)"

definition contract_error_label :: "int \<Rightarrow> string option" where
  "contract_error_label code =
    (if code = 0 then None
     else Some (case contract_error_names code of
                  [] \<Rightarrow> ''unknown contract error code''
                | [only] \<Rightarrow> only
                | many \<Rightarrow> ''ambiguous: '' @ join_with ''|'' many))"

definition unvendored_contract_error_label :: "string \<Rightarrow> int \<Rightarrow> string option" where
  "unvendored_contract_error_label contract code =
    (if code \<noteq> 0
     then Some (contract @ '' exit code; this repo vendors no source that declares its error codes'') else None)"

definition action_result_code_label :: "int \<Rightarrow> string option" where
  "action_result_code_label code =
    (if code = 38 then Some ''insufficient extra currency / no_funds'' else None)"

section \<open>Codes in a response\<close>

record ExitCode =
  ec_code :: int
  ec_stage :: string

definition I64_MAX :: int where "I64_MAX = 2 ^ 63 - 1"
definition I64_MIN :: int where "I64_MIN = - (2 ^ 63)"

definition in_i64 :: "int \<Rightarrow> int option" where
  "in_i64 n = (if I64_MIN \<le> n \<and> n \<le> I64_MAX then Some n else None)"

definition radix_val :: "nat \<Rightarrow> string \<Rightarrow> nat" where
  "radix_val base s = foldl (\<lambda>acc c. acc * base + hexdigit_val c) 0 s"

text \<open>\<open>i64::from_str_radix\<close> and \<open>str::parse::<i64>\<close>: one optional sign and at least one digit.\<close>

definition parse_i64 :: "nat \<Rightarrow> (char \<Rightarrow> bool) \<Rightarrow> string \<Rightarrow> int option" where
  "parse_i64 base is_digit s =
    (case s of
       CHR ''-'' # ds \<Rightarrow> if ds \<noteq> [] \<and> list_all is_digit ds then in_i64 (- int (radix_val base ds)) else None
     | _ \<Rightarrow> let ds = strip_plus s in
           if ds \<noteq> [] \<and> list_all is_digit ds then in_i64 (int (radix_val base ds)) else None)"

definition value_i64 :: "json \<Rightarrow> int option" where
  "value_i64 v =
    (case v of
       JNum n \<Rightarrow> in_i64 n
     | JStr text \<Rightarrow>
         (let s = trim text in
          case or_else (strip_prefix ''0x'' s) (strip_prefix ''0X'' s) of
            Some hex \<Rightarrow> parse_i64 16 is_ascii_hexdigit hex
          | None \<Rightarrow> parse_i64 10 is_ascii_digit s)
     | _ \<Rightarrow> None)"

definition is_exit_code_key :: "string \<Rightarrow> bool" where
  "is_exit_code_key key \<longleftrightarrow> key \<in> {''exit_code'', ''exitCode'', ''vm_exit_code'', ''vmExitCode''}"

definition is_action_result_code_key :: "string \<Rightarrow> bool" where
  "is_action_result_code_key key \<longleftrightarrow>
    key \<in> {''result_code'', ''resultCode'', ''action_result_code'', ''actionResultCode''}"

text \<open>Both collectors walk the value in order; the codes of a key come before those below it.\<close>

fun collect_codes :: "(string \<Rightarrow> bool) \<Rightarrow> json \<Rightarrow> string \<Rightarrow> ExitCode list"
  and collect_fields :: "(string \<Rightarrow> bool) \<Rightarrow> (string \<times> json) list \<Rightarrow> string \<Rightarrow> ExitCode list"
  and collect_items :: "(string \<Rightarrow> bool) \<Rightarrow> json list \<Rightarrow> nat \<Rightarrow> string \<Rightarrow> ExitCode list" where
  "collect_codes is_key (JObj members) path = collect_fields is_key members path"
| "collect_codes is_key (JArr items) path = collect_items is_key items 0 path"
| "collect_codes is_key JNull path = []"
| "collect_codes is_key (JBool b) path = []"
| "collect_codes is_key (JNum n) path = []"
| "collect_codes is_key (JStr s) path = []"
| "collect_fields is_key [] path = []"
| "collect_fields is_key ((key, child) # rest) path =
    (case value_i64 child of
       Some code \<Rightarrow> if is_key key then [\<lparr> ec_code = code, ec_stage = path \<rparr>] else []
     | None \<Rightarrow> [])
    @ collect_codes is_key child (if path = [] then key else path @ ''.'' @ key)
    @ collect_fields is_key rest path"
| "collect_items is_key [] i path = []"
| "collect_items is_key (child # rest) i path =
    collect_codes is_key child (path @ ''['' @ show_nat i @ '']'') @ collect_items is_key rest (Suc i) path"

definition all_exit_codes :: "json \<Rightarrow> ExitCode list" where
  "all_exit_codes v = collect_codes is_exit_code_key v []"

definition all_action_result_codes :: "json \<Rightarrow> ExitCode list" where
  "all_action_result_codes v = collect_codes is_action_result_code_key v []"

definition first_of :: "'a list \<Rightarrow> 'a option" where
  "first_of xs = (case xs of [] \<Rightarrow> None | x # _ \<Rightarrow> Some x)"

definition first_exit_code :: "json \<Rightarrow> ExitCode option" where
  "first_exit_code v = first_of (all_exit_codes v)"

definition first_nonzero_exit_code :: "json \<Rightarrow> ExitCode option" where
  "first_nonzero_exit_code v = find (\<lambda>e. ec_code e \<noteq> 0) (all_exit_codes v)"

definition action_result_code :: "json \<Rightarrow> ExitCode option" where
  "action_result_code v = first_of (all_action_result_codes v)"

definition first_nonzero_action_result_code :: "json \<Rightarrow> ExitCode option" where
  "first_nonzero_action_result_code v = find (\<lambda>e. ec_code e \<noteq> 0) (all_action_result_codes v)"

fun value_at_path :: "json \<Rightarrow> string list \<Rightarrow> json option" where
  "value_at_path v [] = Some v"
| "value_at_path v (segment # path) = Option.bind (json_get v segment) (\<lambda>w. value_at_path w path)"

fun find_named_value :: "string \<Rightarrow> json \<Rightarrow> json option"
  and find_named_field :: "string \<Rightarrow> (string \<times> json) list \<Rightarrow> json option"
  and find_named_item :: "string \<Rightarrow> json list \<Rightarrow> json option" where
  "find_named_value wanted (JObj members) = find_named_field wanted members"
| "find_named_value wanted (JArr items) = find_named_item wanted items"
| "find_named_value wanted JNull = None"
| "find_named_value wanted (JBool b) = None"
| "find_named_value wanted (JNum n) = None"
| "find_named_value wanted (JStr s) = None"
| "find_named_field wanted [] = None"
| "find_named_field wanted ((key, child) # rest) =
    (if key = wanted then Some child
     else or_else (find_named_value wanted child) (find_named_field wanted rest))"
| "find_named_item wanted [] = None"
| "find_named_item wanted (child # rest) = or_else (find_named_value wanted child) (find_named_item wanted rest)"

section \<open>Removing credentials\<close>

definition REDACTED :: string where "REDACTED = ''<redacted>''"

definition CREDENTIAL_KEYS :: "string list" where
  "CREDENTIAL_KEYS =
    [''extmessagetoken'', ''ext_message_token'', ''authorization'', ''accesstoken'', ''access_token'',
     ''refreshtoken'', ''refresh_token'', ''api_key'', ''apikey'', ''provider_api_key'', ''providerapikey'',
     ''secret'', ''secretkey'', ''secret_key'', ''secret_hash'', ''seed'', ''seedphrase'', ''seed_phrase'',
     ''mnemonic'', ''password'', ''password_hash'', ''passwd'', ''privatekey'', ''private_key'', ''signature'',
     ''unsigned'', ''signedmessagebody'', ''signed_message_body'', ''messageboc'', ''message_boc'',
     ''signedboc'', ''signed_boc'']"

definition is_credential_key :: "string \<Rightarrow> bool" where
  "is_credential_key key \<longleftrightarrow> to_ascii_lowercase key \<in> set CREDENTIAL_KEYS"

definition is_ext_message_token_key :: "string \<Rightarrow> bool" where
  "is_ext_message_token_key key \<longleftrightarrow> to_ascii_lowercase key \<in> {''extmessagetoken'', ''ext_message_token''}"

fun collect_strings :: "json \<Rightarrow> string list"
  and collect_field_strings :: "(string \<times> json) list \<Rightarrow> string list"
  and collect_item_strings :: "json list \<Rightarrow> string list" where
  "collect_strings (JStr secret) = (if secret \<noteq> [] then [secret] else [])"
| "collect_strings (JObj members) = collect_field_strings members"
| "collect_strings (JArr items) = collect_item_strings items"
| "collect_strings JNull = []"
| "collect_strings (JBool b) = []"
| "collect_strings (JNum n) = []"
| "collect_field_strings [] = []"
| "collect_field_strings ((key, child) # rest) = collect_strings child @ collect_field_strings rest"
| "collect_item_strings [] = []"
| "collect_item_strings (child # rest) = collect_strings child @ collect_item_strings rest"

fun collect_echo_secrets :: "json \<Rightarrow> string list"
  and collect_field_secrets :: "(string \<times> json) list \<Rightarrow> string list"
  and collect_item_secrets :: "json list \<Rightarrow> string list" where
  "collect_echo_secrets (JObj members) = collect_field_secrets members"
| "collect_echo_secrets (JArr items) = collect_item_secrets items"
| "collect_echo_secrets JNull = []"
| "collect_echo_secrets (JBool b) = []"
| "collect_echo_secrets (JNum n) = []"
| "collect_echo_secrets (JStr s) = []"
| "collect_field_secrets [] = []"
| "collect_field_secrets ((key, child) # rest) =
    (if is_credential_key key \<and> \<not> is_ext_message_token_key key then collect_strings child
     else collect_echo_secrets child) @ collect_field_secrets rest"
| "collect_item_secrets [] = []"
| "collect_item_secrets (child # rest) = collect_echo_secrets child @ collect_item_secrets rest"

text \<open>\<open>str::replace\<close>: every occurrence from the left, without overlaps. The pattern is not empty.\<close>

function replace_all :: "string \<Rightarrow> string \<Rightarrow> string \<Rightarrow> string" where
  "replace_all pat rep [] = []"
| "replace_all pat rep (c # s) =
    (if pat \<noteq> [] \<and> take (length pat) (c # s) = pat
     then rep @ replace_all pat rep (drop (length pat) (c # s)) else c # replace_all pat rep s)"
  by pat_completeness auto
termination
  by (relation "measure (\<lambda>(pat, rep, s). length s)") (auto simp: Suc_le_eq)

text \<open>The set of secrets is walked by falling length.\<close>

definition mask_exact_secrets :: "string list \<Rightarrow> string \<Rightarrow> string" where
  "mask_exact_secrets secrets text =
    fold (\<lambda>secret masked. replace_all secret REDACTED masked)
      (rev (sort_key length (filter (\<lambda>s. 8 \<le> length s) (remdups secrets)))) text"

fun sanitize_value :: "string list \<Rightarrow> json \<Rightarrow> json"
  and sanitize_fields :: "string list \<Rightarrow> (string \<times> json) list \<Rightarrow> (string \<times> json) list"
  and sanitize_items :: "string list \<Rightarrow> json list \<Rightarrow> json list" where
  "sanitize_value secrets (JObj members) = JObj (sanitize_fields secrets members)"
| "sanitize_value secrets (JArr items) = JArr (sanitize_items secrets items)"
| "sanitize_value secrets (JStr text) = JStr (mask_exact_secrets secrets text)"
| "sanitize_value secrets JNull = JNull"
| "sanitize_value secrets (JBool b) = JBool b"
| "sanitize_value secrets (JNum n) = JNum n"
| "sanitize_fields secrets [] = []"
| "sanitize_fields secrets ((key, child) # rest) =
    (key, if is_credential_key key then JStr REDACTED else sanitize_value secrets child) # sanitize_fields secrets rest"
| "sanitize_items secrets [] = []"
| "sanitize_items secrets (child # rest) = sanitize_value secrets child # sanitize_items secrets rest"

definition sanitize_onchain_submit_payload :: "json \<Rightarrow> json" where
  "sanitize_onchain_submit_payload v = sanitize_value (collect_echo_secrets v) v"

section \<open>Judging a response\<close>

definition show_int :: "int \<Rightarrow> string" where
  "show_int n = (if n < 0 then ''-'' @ show_nat (nat (- n)) else show_nat (nat n))"

definition labelled :: "string option \<Rightarrow> string" where
  "labelled label = (case label of Some l \<Rightarrow> '' ('' @ l @ '')'' | None \<Rightarrow> [])"

definition exit_code_fragment :: "ExitCode \<Rightarrow> string" where
  "exit_code_fragment exit =
    ''exit_code='' @ show_int (ec_code exit) @ labelled (contract_error_label (ec_code exit)) @ '' stage='' @ ec_stage exit"

definition action_result_code_fragment :: "ExitCode \<Rightarrow> string" where
  "action_result_code_fragment action =
    ''action_result_code='' @ show_int (ec_code action) @ labelled (action_result_code_label (ec_code action))
      @ '' stage='' @ ec_stage action"

definition value_to_string :: "json option \<Rightarrow> string option" where
  "value_to_string v =
    (case v of
       Some (JStr s) \<Rightarrow> Some s
     | Some (JNum n) \<Rightarrow> Some (show_int n)
     | Some (JBool b) \<Rightarrow> Some (if b then ''true'' else ''false'')
     | _ \<Rightarrow> None)"

definition bm_detail_fragments :: "json \<Rightarrow> string list" where
  "bm_detail_fragments err =
    (case json_get err ''data'' of
       None \<Rightarrow> []
     | Some data \<Rightarrow>
         List.map_filter
           (\<lambda>key. map_option (\<lambda>v. key @ ''='' @ v)
              (Option.bind (find_named_value key data) (\<lambda>v. value_to_string (Some v))))
           [''category'', ''raw_category'', ''phase'', ''stage'', ''vm_step'', ''vmStep'', ''vm_step_name''])"

datatype submit_message =
    BlockManagerRejected string string "string list" json
  | SubmitFailed string
  | SubmitAborted "string list"

record OnchainSubmitError =
  ose_message :: submit_message
  ose_payload :: json

definition option_list :: "'a option \<Rightarrow> 'a list" where
  "option_list x = (case x of Some a \<Rightarrow> [a] | None \<Rightarrow> [])"

definition block_manager_error_message :: "json \<Rightarrow> submit_message" where
  "block_manager_error_message err =
    BlockManagerRejected
      (case value_to_string (json_get err ''code'') of Some s \<Rightarrow> s | None \<Rightarrow> ''UNKNOWN'')
      (case value_to_string (json_get err ''message'') of Some s \<Rightarrow> s | None \<Rightarrow> ''(no message)'')
      (option_list (map_option exit_code_fragment (or_else (first_nonzero_exit_code err) (first_exit_code err)))
       @ option_list (map_option action_result_code_fragment
           (or_else (first_nonzero_action_result_code err) (action_result_code err)))
       @ bm_detail_fragments err)
      (sanitize_onchain_submit_payload err)"

definition aborted_error_message :: "json \<Rightarrow> submit_message" where
  "aborted_error_message resp =
    SubmitAborted
      (option_list (map_option exit_code_fragment (or_else (first_nonzero_exit_code resp) (first_exit_code resp)))
       @ option_list (map_option action_result_code_fragment (action_result_code resp)))"

definition exit_code_error_message :: "ExitCode \<Rightarrow> string" where
  "exit_code_error_message exit = ''on-chain submit failed: '' @ exit_code_fragment exit"

definition action_result_code_error_message :: "ExitCode \<Rightarrow> string" where
  "action_result_code_error_message action = ''on-chain submit failed: '' @ action_result_code_fragment action"

definition submit_error :: "submit_message \<Rightarrow> json \<Rightarrow> OnchainSubmitError" where
  "submit_error message payload = \<lparr> ose_message = message, ose_payload = sanitize_onchain_submit_payload payload \<rparr>"

definition validate_onchain_submit_response :: "json \<Rightarrow> OnchainSubmitError + json" where
  "validate_onchain_submit_response resp =
    (if json_get resp ''error'' \<noteq> None \<and> json_get resp ''error'' \<noteq> Some JNull then
       (let sanitized = sanitize_onchain_submit_payload resp
        in Inl \<lparr> ose_message = block_manager_error_message (json_at sanitized ''error''), ose_payload = sanitized \<rparr>)
     else
       (case first_nonzero_exit_code resp of
          Some exit \<Rightarrow> Inl (submit_error (SubmitFailed (exit_code_error_message exit)) resp)
        | None \<Rightarrow>
            (case first_nonzero_action_result_code resp of
               Some action \<Rightarrow> Inl (submit_error (SubmitFailed (action_result_code_error_message action)) resp)
             | None \<Rightarrow>
                 if Option.bind (value_at_path resp [''result'', ''aborted'']) as_bool = Some True
                 then Inl (submit_error (aborted_error_message resp) resp)
                 else Inr resp)))"

end
