(* ===== verification/WithdrawGate.thy ===== *)
theory WithdrawGate
  imports Diagnostics
begin

text \<open>
  \<open>src/crates/core/src/note_withdraw_gate.rs\<close>: which of the eleven conditions of
  \<open>PrivateNote.withdrawTokens\<close> (\<open>src/contracts/dex/PrivateNote.sol\<close>) holds a note's money, read from
  one decoded storage snapshot, and whether a withdrawal arrived. The contract's own conditions are
  modelled beside the client's reading of them; the lemmas show that the two agree. The advice texts
  of the module are not modelled.
\<close>

section \<open>The gates\<close>

datatype WithdrawGate =
    HasWithdrawn
  | Busy string
  | Stakes nat
  | Debt u128
  | LockedInOrders u32 u128
  | PendingPlaceBuyLock u128
  | PendingBatchBuyLock u128
  | OpenOrders u32
  | RestingInference nat
  | PendingInference nat
  | LiveDeals nat



fun exit_code :: "WithdrawGate \<Rightarrow> u16" where
  "exit_code HasWithdrawn = 151"
| "exit_code (Busy _) = 121"
| "exit_code (Stakes _) = 121"
| "exit_code (Debt _) = 150"
| "exit_code (LockedInOrders _ _) = 144"
| "exit_code (PendingPlaceBuyLock _) = 144"
| "exit_code (PendingBatchBuyLock _) = 144"
| "exit_code (OpenOrders _) = 167"
| "exit_code (RestingInference _) = 167"
| "exit_code (PendingInference _) = 167"
| "exit_code (LiveDeals _) = 167"

fun holds :: "WithdrawGate \<Rightarrow> string" where
  "holds HasWithdrawn = ''the note has already withdrawn once''"
| "holds (Busy w) = ''an in-flight operation with '' @ w"
| "holds (Stakes n) = show_nat n @ '' PMP stake(s)''"
| "holds (Debt n) = ''a debt of '' @ show_nat n"
| "holds (LockedInOrders t n) = show_nat n @ '' locked in orders for token type '' @ show_nat t"
| "holds (PendingPlaceBuyLock n) = ''a pending place-buy lock of '' @ show_nat n"
| "holds (PendingBatchBuyLock n) = ''a pending batch-buy lock of '' @ show_nat n"
| "holds (OpenOrders n) = show_nat n @ '' open order(s)''"
| "holds (RestingInference n) = show_nat n @ '' resting inference order(s)''"
| "holds (PendingInference n) = show_nat n @ '' pending inference buy(s)''"
| "holds (LiveDeals n) = show_nat n @ '' live deal(s)''"

datatype gate_reason =
    AbsentField string | NotANumber string | NotAnInteger string string | NotAMap string
  | NotAGateBool string | EmptyBusy | NotAnAddressField string | BadRowKey string | BadRowValue string
  | RowWithoutKey string | RowWithoutValue string

datatype NoteWithdrawGate = Clear | Held WithdrawGate | Unreadable string gate_reason

definition WITHDRAW_GATE_FIELDS :: "string list" where
  "WITHDRAW_GATE_FIELDS =
    [''_hasWithdrawn'', ''_busy'', ''_stakes'', ''_debt'', ''_lockedInOrders'', ''_pendingPlaceBuyLock'',
     ''_pendingBatchBuyLock'', ''_openOrderCount'', ''_restingInf'', ''_pendingInf'', ''_liveDeals'']"

definition WITHDRAW_GATE_EXIT_CODES :: "u16 list" where
  "WITHDRAW_GATE_EXIT_CODES = [121, 144, 150, 151, 167]"

definition refusal_carries_a_withdraw_gate_code :: "string \<Rightarrow> bool" where
  "refusal_carries_a_withdraw_gate_code error_text \<longleftrightarrow>
    list_ex (\<lambda>code. str_contains (''exit_code='' @ show_nat code @ '' ('') error_text) WITHDRAW_GATE_EXIT_CODES"

section \<open>Reading storage storage\<close>

definition hex_val :: "string \<Rightarrow> nat" where
  "hex_val s = foldl (\<lambda>acc c. acc * 16 + hexdigit_val c) 0 s"

text \<open>\<open>u128::from_str_radix(_, 16)\<close>: an optional plus sign and at least one digit.\<close>

definition parse_hex_uint :: "nat \<Rightarrow> string \<Rightarrow> nat option" where
  "parse_hex_uint m s =
    (let ds = strip_plus s
     in if ds \<noteq> [] \<and> list_all is_ascii_hexdigit ds \<and> hex_val ds \<le> m then Some (hex_val ds) else None)"

definition parse_storage_text :: "string \<Rightarrow> u128 option" where
  "parse_storage_text text =
    (case (case strip_prefix ''0x'' text of Some h \<Rightarrow> Some h | None \<Rightarrow> strip_prefix ''0X'' text) of
       Some hex \<Rightarrow> parse_hex_uint U128_MAX hex
     | None \<Rightarrow> parse_uint U128_MAX text)"

definition storage_u128 :: "json \<Rightarrow> string \<Rightarrow> gate_reason + u128" where
  "storage_u128 storage name =
    ok_or_else (json_get storage name) (AbsentField name) (\<lambda>raw.
    case as_u64 raw of
      Some n \<Rightarrow> Inr n
    | None \<Rightarrow>
        (case raw of
           JStr s \<Rightarrow> ok_or_else (parse_storage_text (trim s)) (NotAnInteger name (trim s)) Inr
         | _ \<Rightarrow> Inl (NotANumber name)))"

definition storage_map_len :: "json \<Rightarrow> string \<Rightarrow> gate_reason + nat" where
  "storage_map_len storage name =
    (case json_get storage name of
       None \<Rightarrow> Inl (AbsentField name)
     | Some JNull \<Rightarrow> Inl (AbsentField name)
     | Some (JObj entries) \<Rightarrow> Inr (length entries)
     | Some (JArr entries) \<Rightarrow> Inr (length entries)
     | Some _ \<Rightarrow> Inl (NotAMap name))"

definition parse_u :: "json \<Rightarrow> u128 option" where
  "parse_u v =
    (case as_u64 v of
       Some n \<Rightarrow> Some n
     | None \<Rightarrow> (case v of JStr s \<Rightarrow> parse_storage_text (trim s) | _ \<Rightarrow> None))"

definition or_get :: "(string, json) hash_map \<Rightarrow> string \<Rightarrow> string \<Rightarrow> json option" where
  "or_get obj a b = (case hget obj a of Some v \<Rightarrow> Some v | None \<Rightarrow> hget obj b)"

definition locked_entry :: "json \<times> json \<Rightarrow> gate_reason + u32 \<times> u128" where
  "locked_entry kv =
    ok_or_else (Option.bind (parse_u (fst kv)) (try_from U32_MAX)) (BadRowKey ''_lockedInOrders'') (\<lambda>i.
    ok_or_else (parse_u (snd kv)) (BadRowValue ''_lockedInOrders'') (\<lambda>locked. Inr (i, locked)))"

definition locked_row :: "json \<Rightarrow> gate_reason + u32 \<times> u128" where
  "locked_row entry =
    (case (case entry of
             JObj obj \<Rightarrow> (or_get obj ''key'' ''0'', or_get obj ''value'' ''1'')
           | JArr [a, b] \<Rightarrow> (Some a, Some b)
           | _ \<Rightarrow> (None, None)) of
       (k, v) \<Rightarrow>
         ok_or_else k (RowWithoutKey ''_lockedInOrders'') (\<lambda>key.
         ok_or_else v (RowWithoutValue ''_lockedInOrders'') (\<lambda>val. locked_entry (key, val))))"

definition locked_in_orders :: "json \<Rightarrow> gate_reason + (u32 \<times> u128) list" where
  "locked_in_orders storage =
    (case json_get storage ''_lockedInOrders'' of
       None \<Rightarrow> Inl (AbsentField ''_lockedInOrders'')
     | Some JNull \<Rightarrow> Inl (AbsentField ''_lockedInOrders'')
     | Some (JObj entries) \<Rightarrow> collect_rows (\<lambda>(k, v). locked_entry (JStr k, v)) entries
     | Some (JArr entries) \<Rightarrow> collect_rows locked_row entries
     | Some _ \<Rightarrow> Inl (NotAMap ''_lockedInOrders''))"

definition read_has_withdrawn :: "json \<Rightarrow> gate_reason + bool" where
  "read_has_withdrawn storage =
    (case json_get storage ''_hasWithdrawn'' of
       Some (JBool b) \<Rightarrow> Inr b
     | Some (JStr text) \<Rightarrow>
         (let t = to_ascii_lowercase (trim text) in
          if t = ''true'' \<or> t = ''1'' then Inr True
          else if t = ''false'' \<or> t = ''0'' then Inr False
          else Inl (NotAGateBool t))
     | Some _ \<Rightarrow> Inl (NotAGateBool [])
     | None \<Rightarrow> Inl (AbsentField ''_hasWithdrawn''))"

definition read_busy :: "json \<Rightarrow> gate_reason + string option" where
  "read_busy storage =
    (case json_get storage ''_busy'' of
       None \<Rightarrow> Inl (AbsentField ''_busy'')
     | Some JNull \<Rightarrow> Inr None
     | Some (JStr address) \<Rightarrow> if trim address = [] then Inl EmptyBusy else Inr (Some (trim address))
     | Some (JObj obj) \<Rightarrow>
         (case or_get obj ''value'' ''0'' of
            Some (JStr address) \<Rightarrow> if trim address \<noteq> [] then Inr (Some (trim address)) else Inr None
          | _ \<Rightarrow> Inr None)
     | Some _ \<Rightarrow> Inl (NotAnAddressField ''_busy''))"

text \<open>One step of the reading: an unread field ends it, an open gate ends it, a closed one goes on.\<close>

definition read_gate ::
  "string \<Rightarrow> gate_reason + 'v \<Rightarrow> ('v \<Rightarrow> WithdrawGate option) \<Rightarrow> NoteWithdrawGate \<Rightarrow> NoteWithdrawGate" where
  "read_gate field r f k =
    (case r of
       Inl reason \<Rightarrow> Unreadable field reason
     | Inr v \<Rightarrow> (case f v of Some g \<Rightarrow> Held g | None \<Rightarrow> k))"

definition note_withdraw_gate_from_storage :: "json \<Rightarrow> NoteWithdrawGate" where
  "note_withdraw_gate_from_storage storage =
    read_gate ''_hasWithdrawn'' (read_has_withdrawn storage) (\<lambda>b. if b then Some HasWithdrawn else None)
    (read_gate ''_busy'' (read_busy storage) (map_option Busy)
    (read_gate ''_stakes'' (storage_map_len storage ''_stakes'') (\<lambda>n. if 0 < n then Some (Stakes n) else None)
    (read_gate ''_debt'' (storage_u128 storage ''_debt'') (\<lambda>n. if n \<noteq> 0 then Some (Debt n) else None)
    (read_gate ''_lockedInOrders'' (locked_in_orders storage)
      (\<lambda>rows. map_option (\<lambda>(t, l). LockedInOrders t l) (find (\<lambda>(_, l). l \<noteq> 0) rows))
    (read_gate ''_pendingPlaceBuyLock'' (storage_u128 storage ''_pendingPlaceBuyLock'')
      (\<lambda>n. if n \<noteq> 0 then Some (PendingPlaceBuyLock n) else None)
    (read_gate ''_pendingBatchBuyLock'' (storage_u128 storage ''_pendingBatchBuyLock'')
      (\<lambda>n. if n \<noteq> 0 then Some (PendingBatchBuyLock n) else None)
    (read_gate ''_openOrderCount'' (storage_u128 storage ''_openOrderCount'')
      (\<lambda>n. if n \<noteq> 0 then Some (OpenOrders (min n U32_MAX)) else None)
    (read_gate ''_restingInf'' (storage_map_len storage ''_restingInf'')
      (\<lambda>n. if 0 < n then Some (RestingInference n) else None)
    (read_gate ''_pendingInf'' (storage_map_len storage ''_pendingInf'')
      (\<lambda>n. if 0 < n then Some (PendingInference n) else None)
    (read_gate ''_liveDeals'' (storage_map_len storage ''_liveDeals'')
      (\<lambda>n. if 0 < n then Some (LiveDeals n) else None) Clear))))))))))"

section \<open>Whether a withdrawal arrived\<close>

record NoteWithdrawalArrival =
  note_trading_record :: u128
  note_ecc_pocket :: u128
  destination_before :: u128
  destination_after :: u128

definition arrival_expected :: "NoteWithdrawalArrival \<Rightarrow> u128 option" where
  "arrival_expected a = checked_add U128_MAX (note_trading_record a) (note_ecc_pocket a)"

definition arrival_observed :: "NoteWithdrawalArrival \<Rightarrow> u128 option" where
  "arrival_observed a = checked_sub (destination_after a) (destination_before a)"

datatype arrival_error = ArrivalOverflow | DestinationFell | DidNotArrive u128 u128

definition check_withdrawal_arrival :: "NoteWithdrawalArrival \<Rightarrow> arrival_error + u128" where
  "check_withdrawal_arrival a =
    ok_or_else (arrival_expected a) ArrivalOverflow (\<lambda>expected.
    ok_or_else (arrival_observed a) DestinationFell (\<lambda>observed.
    refuse_if (observed \<noteq> expected) (DidNotArrive observed expected) (Inr observed)))"

section \<open>The contract's conditions\<close>

text \<open>
  The storage of a note that \<open>withdrawTokens\<close> looks at, and its \<open>require\<close>s in their order.
\<close>

record NoteStorage =
  st_hasWithdrawn :: bool
  st_busy :: "string option"
  st_stakes :: nat
  st_debt :: u128
  st_lockedInOrders :: "(u32 \<times> u128) list"
  st_pendingPlaceBuyLock :: u128
  st_pendingBatchBuyLock :: u128
  st_openOrderCount :: u32
  st_restingInf :: nat
  st_pendingInf :: nat
  st_liveDeals :: nat

datatype contract_error =
  ERR_INVALID_STATE | ERR_NOTE_BUSY | ERR_DEBT_NON_ZERO | ERR_NON_ZERO_BALANCE | ERR_OPEN_ORDERS_EXIST

text \<open>
  A \<open>require\<close> with its line in the contract, the storage field it looks at, whether it passes, and the
  error it raises. The one on line 2659 is passed once for each row of \<open>_lockedInOrders\<close>.
\<close>

record WithdrawRequire =
  wr_line :: u32
  wr_field :: string
  wr_passes :: bool
  wr_error :: contract_error

definition require_at :: "u32 \<Rightarrow> string \<Rightarrow> bool \<Rightarrow> contract_error \<Rightarrow> WithdrawRequire" where
  "require_at line field passes err = \<lparr> wr_line = line, wr_field = field, wr_passes = passes, wr_error = err \<rparr>"

definition withdraw_requires :: "NoteStorage \<Rightarrow> WithdrawRequire list" where
  "withdraw_requires st =
    [require_at 2649 ''_hasWithdrawn'' (\<not> st_hasWithdrawn st) ERR_INVALID_STATE,
     require_at 2650 ''_busy'' (st_busy st = None) ERR_NOTE_BUSY,
     require_at 2651 ''_stakes'' (st_stakes st = 0) ERR_NOTE_BUSY,
     require_at 2652 ''_debt'' (st_debt st = 0) ERR_DEBT_NON_ZERO]
    @ map (\<lambda>(_, locked). require_at 2659 ''_lockedInOrders'' (locked = 0) ERR_NON_ZERO_BALANCE) (st_lockedInOrders st)
    @ [require_at 2661 ''_pendingPlaceBuyLock'' (st_pendingPlaceBuyLock st = 0) ERR_NON_ZERO_BALANCE,
     require_at 2662 ''_pendingBatchBuyLock'' (st_pendingBatchBuyLock st = 0) ERR_NON_ZERO_BALANCE,
     require_at 2663 ''_openOrderCount'' (st_openOrderCount st = 0) ERR_OPEN_ORDERS_EXIST,
     require_at 2677 ''_restingInf'' (st_restingInf st = 0) ERR_OPEN_ORDERS_EXIST,
     require_at 2682 ''_pendingInf'' (st_pendingInf st = 0) ERR_OPEN_ORDERS_EXIST,
     require_at 2683 ''_liveDeals'' (st_liveDeals st = 0) ERR_OPEN_ORDERS_EXIST]"

definition withdraw_refusal :: "NoteStorage \<Rightarrow> WithdrawRequire option" where
  "withdraw_refusal st = find (\<lambda>q. \<not> wr_passes q) (withdraw_requires st)"



text \<open>The readers of the client answer, \<open>_busy\<close> aside or with it, and this is what they answer.\<close>

definition ten_fields_read :: "json \<Rightarrow> NoteStorage \<Rightarrow> bool" where
  "ten_fields_read storage st \<longleftrightarrow> read_has_withdrawn storage = Inr (st_hasWithdrawn st)
    \<and> storage_map_len storage ''_stakes'' = Inr (st_stakes st)
    \<and> storage_u128 storage ''_debt'' = Inr (st_debt st)
    \<and> locked_in_orders storage = Inr (st_lockedInOrders st)
    \<and> storage_u128 storage ''_pendingPlaceBuyLock'' = Inr (st_pendingPlaceBuyLock st)
    \<and> storage_u128 storage ''_pendingBatchBuyLock'' = Inr (st_pendingBatchBuyLock st)
    \<and> storage_u128 storage ''_openOrderCount'' = Inr (st_openOrderCount st)
    \<and> storage_map_len storage ''_restingInf'' = Inr (st_restingInf st)
    \<and> storage_map_len storage ''_pendingInf'' = Inr (st_pendingInf st)
    \<and> storage_map_len storage ''_liveDeals'' = Inr (st_liveDeals st)"

definition readers_answer :: "json \<Rightarrow> NoteStorage \<Rightarrow> bool" where
  "readers_answer storage st \<longleftrightarrow> ten_fields_read storage st \<and> read_busy storage = Inr (st_busy st)"


















lemma read_gate_Clear:
  "read_gate name r f k = Clear \<longleftrightarrow> (\<exists>v. r = Inr v \<and> f v = None) \<and> k = Clear"
  by (auto simp: read_gate_def split: sum.split option.split)

lemma if_Some_None: "(if c then Some x else None) = None \<longleftrightarrow> \<not> c"
  by simp

lemma find_failed_None: "find (\<lambda>q. \<not> wr_passes q) xs = None \<longleftrightarrow> (\<forall>x \<in> set xs. wr_passes x)"
  by (auto simp: find_None_iff)

lemma find_row_None: "find (\<lambda>(_, l). (0::nat) < l) rows = None \<longleftrightarrow> (\<forall>row \<in> set rows. snd row = 0)"
  by (auto simp: find_None_iff)

lemma withdraw_refusal_None:
  "withdraw_refusal st = None \<longleftrightarrow>
    \<not> st_hasWithdrawn st \<and> st_busy st = None \<and> st_stakes st = 0 \<and> st_debt st = 0
    \<and> (\<forall>row \<in> set (st_lockedInOrders st). snd row = 0)
    \<and> st_pendingPlaceBuyLock st = 0 \<and> st_pendingBatchBuyLock st = 0 \<and> st_openOrderCount st = 0
    \<and> st_restingInf st = 0 \<and> st_pendingInf st = 0 \<and> st_liveDeals st = 0"
  unfolding withdraw_refusal_def find_failed_None withdraw_requires_def
  by (simp add: ball_Un split_beta require_at_def, blast)

text \<open>
  A note is called free exactly if all eleven readers answered and the contract would accept the
  withdrawal; a reader that failed is never taken for a closed gate.
\<close>

theorem withdraw_clear_iff:
  "note_withdraw_gate_from_storage storage = Clear
    \<longleftrightarrow> (\<exists>st. readers_answer storage st \<and> withdraw_refusal st = None)"
proof
  assume clear: "note_withdraw_gate_from_storage storage = Clear"
  then obtain rows where rows: "locked_in_orders storage = Inr rows" "\<forall>row \<in> set rows. snd row = 0"
    and closed: "read_has_withdrawn storage = Inr False" "read_busy storage = Inr None"
    "storage_map_len storage ''_stakes'' = Inr 0" "storage_u128 storage ''_debt'' = Inr 0"
    "storage_u128 storage ''_pendingPlaceBuyLock'' = Inr 0"
    "storage_u128 storage ''_pendingBatchBuyLock'' = Inr 0"
    "storage_u128 storage ''_openOrderCount'' = Inr 0"
    "storage_map_len storage ''_restingInf'' = Inr 0"
    "storage_map_len storage ''_pendingInf'' = Inr 0"
    "storage_map_len storage ''_liveDeals'' = Inr 0"
    by (auto simp: note_withdraw_gate_from_storage_def read_gate_Clear find_row_None if_Some_None)
  let ?st = "\<lparr> st_hasWithdrawn = False, st_busy = None, st_stakes = 0, st_debt = 0, st_lockedInOrders = rows,
        st_pendingPlaceBuyLock = 0, st_pendingBatchBuyLock = 0, st_openOrderCount = 0,
        st_restingInf = 0, st_pendingInf = 0, st_liveDeals = 0 \<rparr>"
  have "readers_answer storage ?st" "withdraw_refusal ?st = None"
    using rows closed by (simp_all add: readers_answer_def ten_fields_read_def withdraw_refusal_None)
  then show "\<exists>st. readers_answer storage st \<and> withdraw_refusal st = None"
    by blast
next
  assume "\<exists>st. readers_answer storage st \<and> withdraw_refusal st = None"
  then show "note_withdraw_gate_from_storage storage = Clear"
    by (auto simp: readers_answer_def ten_fields_read_def withdraw_refusal_None note_withdraw_gate_from_storage_def read_gate_Clear
        find_row_None if_Some_None)
qed

text \<open>
  The reader of \<open>_busy\<close> takes an object whose \<open>value\<close> is missing or no string for a note that is not
  busy, although the module promises that an unread field is never reported as closed.
\<close>

lemma unread_busy_is_reported_closed:
  "read_busy (JObj [(''_busy'', JObj [])]) = Inr None
    \<and> read_busy (JObj [(''_busy'', JObj [(''value'', JNum 7)])]) = Inr None"
  by (simp add: read_busy_def json_get_def or_get_def hget_def)

text \<open>
  The arrival check passes exactly if the destination grew by the trading record and the physical
  pocket together, and then returns that amount; it refuses every sum that leaves \<open>u128\<close>.
\<close>

theorem withdrawal_arrival_exact:
  "check_withdrawal_arrival a = Inr n
    \<longleftrightarrow> n = note_trading_record a + note_ecc_pocket a \<and> n \<le> U128_MAX
      \<and> destination_after a = destination_before a + n"
  by (auto simp: check_withdrawal_arrival_def arrival_expected_def arrival_observed_def ok_or_else_def
      refuse_if_def checked_add_def checked_sub_def split: option.splits if_splits)

end
