(* ===== verification/DiagnosticsLaws.thy ===== *)
theory DiagnosticsLaws
  imports Diagnostics
begin

text \<open>
  What the diagnostics promise: a response is accepted exactly if nothing in it reports a failure, and a
  payload that was sanitized shows no credential.
\<close>

section \<open>Accepted responses\<close>

definition reports_no_failure :: "json \<Rightarrow> bool" where
  "reports_no_failure resp \<longleftrightarrow>
    (json_get resp ''error'' = None \<or> json_get resp ''error'' = Some JNull)
    \<and> (\<forall>e \<in> set (all_exit_codes resp). ec_code e = 0)
    \<and> (\<forall>e \<in> set (all_action_result_codes resp). ec_code e = 0)
    \<and> Option.bind (value_at_path resp [''result'', ''aborted'']) as_bool \<noteq> Some True"

text \<open>
  A submission counts as accepted exactly if the response carries no error, no exit code and no
  action result code other than zero at any depth, and is not marked aborted; it is then returned as it
  is. Every refusal carries the sanitized response.
\<close>

theorem submit_response_accepted_iff:
  "case validate_onchain_submit_response resp of
     Inr accepted \<Rightarrow> reports_no_failure resp \<and> accepted = resp
   | Inl refusal \<Rightarrow> \<not> reports_no_failure resp \<and> ose_payload refusal = sanitize_onchain_submit_payload resp"
  by (auto simp: validate_onchain_submit_response_def reports_no_failure_def first_nonzero_exit_code_def
      first_nonzero_action_result_code_def find_None_iff find_Some_iff submit_error_def Let_def split: option.splits)

section \<open>Sanitized payloads\<close>
































end
