(* ===== verification/Continuity.thy ===== *)
theory Continuity
  imports Params
begin

text \<open>
  The buyer's continuity planner, \<open>src/crates/dexdo/src/buyer/continuity.rs\<close>. The planner does nothing
  itself: from the facts of the current deal and of a possible next one it names the action to take, and
  remembers for which deals a successor was ordered and which were given up. A sequence of calls is run
  by \<open>run_planner\<close>; the lemmas bound how often it can name the actions that move money.
\<close>

section \<open>Facts and actions\<close>

definition BUYER_RENEWAL_THRESHOLD_TOKENS :: u64 where "BUYER_RENEWAL_THRESHOLD_TOKENS = 64"

datatype BuyerRunMode = OneShot | Service
datatype BuyerLifecycle = ExitAfterCurrentDeal | KeepServingAndRenew

fun lifecycle_for_mode :: "BuyerRunMode \<Rightarrow> BuyerLifecycle" where
  "lifecycle_for_mode OneShot = ExitAfterCurrentDeal"
| "lifecycle_for_mode Service = KeepServingAndRenew"

datatype DealOwner = ThisBuyer | WrongBuyer

datatype DealPhase = FundedNeverOpened u64 | Opened u64 | HandoverReady | ClosedPhase

record DealFacts =
  df_token_contract :: string
  df_owner :: DealOwner
  df_phase :: DealPhase
  df_remaining_tokens :: "u64 option"

datatype BuyerAction =
    ServeCurrent string
  | PrepareNextDeal string
  | SwitchToNextDeal string string
  | CleanupUnopened string
  | PlaceNextDeal string
  | IgnoreStale string
  | FailClosed string string
  | Noop string

datatype ConsumerDemand = IdleDemand | ActiveOrRecent

definition is_active_or_recent :: "ConsumerDemand \<Rightarrow> bool" where
  "is_active_or_recent d \<longleftrightarrow> d = ActiveOrRecent"

datatype ContinuityMode = Proactive | OnDemand

fun planner_demand :: "ContinuityMode \<Rightarrow> ConsumerDemand \<Rightarrow> ConsumerDemand" where
  "planner_demand Proactive observed = ActiveOrRecent"
| "planner_demand OnDemand observed = observed"

record ContinuityConfig =
  renewal_threshold_tokens :: u64
  match_open_timeout_secs :: u64

definition default_continuity_config :: ContinuityConfig where
  "default_continuity_config =
    \<lparr> renewal_threshold_tokens = BUYER_RENEWAL_THRESHOLD_TOKENS, match_open_timeout_secs = MATCH_OPEN_TIMEOUT_SECS \<rparr>"

record BuyerContinuity =
  bc_stale :: "string list"
  bc_pending_after :: "(string, string) hash_map"

definition new_continuity :: BuyerContinuity where
  "new_continuity = \<lparr> bc_stale = [], bc_pending_after = [] \<rparr>"

section \<open>The planner\<close>

definition note_pending_next :: "string \<Rightarrow> string \<Rightarrow> BuyerContinuity \<Rightarrow> BuyerContinuity" where
  "note_pending_next current next b = b \<lparr> bc_pending_after := hinsert current next (bc_pending_after b) \<rparr>"

definition clear_pending_next :: "string \<Rightarrow> BuyerContinuity \<Rightarrow> BuyerContinuity" where
  "clear_pending_next current b = b \<lparr> bc_pending_after := hremove current (bc_pending_after b) \<rparr>"

definition keep_active :: "string \<Rightarrow> BuyerContinuity \<Rightarrow> BuyerContinuity" where
  "keep_active current b = b \<lparr> bc_stale := removeAll current (bc_stale b) \<rparr>"

text \<open>
  Ordering the successor of \<open>tc\<close>: nothing without demand, nothing while one is pending, and otherwise
  the order, recorded as pending under an empty name.
\<close>

definition order_successor ::
  "string \<Rightarrow> string \<Rightarrow> BuyerAction \<Rightarrow> ConsumerDemand \<Rightarrow> BuyerContinuity \<Rightarrow> BuyerContinuity \<times> BuyerAction" where
  "order_successor tc idle_reason action demand b =
    (if \<not> is_active_or_recent demand then (b, Noop idle_reason)
     else if contains_key (bc_pending_after b) tc then (b, Noop ''next-deal-already-pending'')
     else (b \<lparr> bc_pending_after := hinsert tc [] (bc_pending_after b) \<rparr>, action))"

definition tick_phase ::
  "DealFacts \<Rightarrow> ContinuityConfig \<Rightarrow> ConsumerDemand \<Rightarrow> BuyerContinuity \<Rightarrow> BuyerContinuity \<times> BuyerAction" where
  "tick_phase current cfg demand b =
    (let tc = df_token_contract current;
         serve_or_renew =
           (case df_remaining_tokens current of
              Some r \<Rightarrow>
                if r \<le> renewal_threshold_tokens cfg
                then order_successor tc ''low-remaining-no-consumer-demand'' (PrepareNextDeal tc) demand b
                else (b, ServeCurrent tc)
            | None \<Rightarrow> (b, ServeCurrent tc))
     in case df_phase current of
          ClosedPhase \<Rightarrow>
            order_successor tc ''closed-current-no-consumer-demand'' (PlaceNextDeal ''closed-current'') demand b
        | FundedNeverOpened funded_age_secs \<Rightarrow>
            if tc \<in> set (bc_stale b) then (b, IgnoreStale tc)
            else if match_open_timeout_secs cfg \<le> funded_age_secs
            then (b \<lparr> bc_stale := List.insert tc (bc_stale b) \<rparr>, CleanupUnopened tc)
            else (b, Noop ''waiting-for-handover'')
        | Opened _ \<Rightarrow> if tc \<in> set (bc_stale b) then (b, IgnoreStale tc) else serve_or_renew
        | HandoverReady \<Rightarrow> if tc \<in> set (bc_stale b) then (b, IgnoreStale tc) else serve_or_renew)"

definition takes_over :: "DealFacts \<Rightarrow> bool" where
  "takes_over next \<longleftrightarrow> (case df_phase next of HandoverReady \<Rightarrow> True | Opened _ \<Rightarrow> True | _ \<Rightarrow> False)"

definition tick_with_demand ::
  "DealFacts option \<Rightarrow> DealFacts option \<Rightarrow> ContinuityConfig \<Rightarrow> ConsumerDemand \<Rightarrow> BuyerContinuity
    \<Rightarrow> BuyerContinuity \<times> BuyerAction" where
  "tick_with_demand current ready_next cfg demand b =
    (case current of
       None \<Rightarrow>
         (b, if is_active_or_recent demand then PlaceNextDeal ''no-current-deal''
             else Noop ''no-current-no-consumer-demand'')
     | Some cur \<Rightarrow>
         if df_owner cur \<noteq> ThisBuyer then (b, FailClosed (df_token_contract cur) ''wrong-owner'')
         else
           (case ready_next of
              None \<Rightarrow> tick_phase cur cfg demand b
            | Some next \<Rightarrow>
                if df_owner next \<noteq> ThisBuyer then (b, FailClosed (df_token_contract next) ''next-wrong-owner'')
                else if takes_over next
                then (b \<lparr> bc_pending_after := hremove (df_token_contract cur) (bc_pending_after b) \<rparr>,
                      SwitchToNextDeal (df_token_contract cur) (df_token_contract next))
                else tick_phase cur cfg demand b))"

definition tick ::
  "DealFacts option \<Rightarrow> DealFacts option \<Rightarrow> ContinuityConfig \<Rightarrow> BuyerContinuity \<Rightarrow> BuyerContinuity \<times> BuyerAction" where
  "tick current ready_next cfg b = tick_with_demand current ready_next cfg ActiveOrRecent b"

definition tick_with_mode ::
  "DealFacts option \<Rightarrow> DealFacts option \<Rightarrow> ContinuityConfig \<Rightarrow> ContinuityMode \<Rightarrow> ConsumerDemand \<Rightarrow> BuyerContinuity
    \<Rightarrow> BuyerContinuity \<times> BuyerAction" where
  "tick_with_mode current ready_next cfg mode observed b =
    tick_with_demand current ready_next cfg (planner_demand mode observed) b"

definition restart_from_handle :: "DealFacts \<Rightarrow> ContinuityConfig \<Rightarrow> BuyerContinuity \<Rightarrow> BuyerContinuity \<times> BuyerAction" where
  "restart_from_handle facts cfg b = tick (Some facts) None cfg b"

datatype SellerDealOutcome = NoBuyerYet | Completed | CleanedUnopened | ReclaimedOpened
datatype SellerAction = KeepResting | PublishFreshOffer string

fun seller_market_action :: "string \<Rightarrow> SellerDealOutcome \<Rightarrow> SellerAction" where
  "seller_market_action offer NoBuyerYet = KeepResting"
| "seller_market_action offer Completed = PublishFreshOffer offer"
| "seller_market_action offer CleanedUnopened = PublishFreshOffer offer"
| "seller_market_action offer ReclaimedOpened = PublishFreshOffer offer"

section \<open>Sequences of calls\<close>

datatype PlannerCall =
    Tick "DealFacts option" "DealFacts option" ContinuityConfig ConsumerDemand
  | NotePending string string
  | ClearPending string
  | KeepActive string

fun planner_step :: "PlannerCall \<Rightarrow> BuyerContinuity \<Rightarrow> BuyerContinuity \<times> BuyerAction option" where
  "planner_step (Tick current ready_next cfg demand) b =
    (let (b', a) = tick_with_demand current ready_next cfg demand b in (b', Some a))"
| "planner_step (NotePending current next) b = (note_pending_next current next b, None)"
| "planner_step (ClearPending current) b = (clear_pending_next current b, None)"
| "planner_step (KeepActive current) b = (keep_active current b, None)"

fun run_planner :: "PlannerCall list \<Rightarrow> BuyerContinuity \<Rightarrow> (PlannerCall \<times> BuyerAction option) list" where
  "run_planner [] b = []"
| "run_planner (c # cs) b = (let (b', a) = planner_step c b in (c, a) # run_planner cs b')"

text \<open>What an entry of a run does to the deal \<open>tc\<close>.\<close>

fun orders_next :: "string \<Rightarrow> PlannerCall \<times> BuyerAction option \<Rightarrow> bool" where
  "orders_next tc (Tick (Some cur) _ _ _, Some (PlaceNextDeal _)) = (df_token_contract cur = tc)"
| "orders_next tc (Tick (Some cur) _ _ _, Some (PrepareNextDeal _)) = (df_token_contract cur = tc)"
| "orders_next tc _ = False"

fun releases_next :: "string \<Rightarrow> PlannerCall \<times> BuyerAction option \<Rightarrow> bool" where
  "releases_next tc (ClearPending cur, _) = (cur = tc)"
| "releases_next tc (_, Some (SwitchToNextDeal previous _)) = (previous = tc)"
| "releases_next tc _ = False"

fun cleans_up :: "string \<Rightarrow> PlannerCall \<times> BuyerAction option \<Rightarrow> bool" where
  "cleans_up tc (_, Some (CleanupUnopened t)) = (t = tc)"
| "cleans_up tc _ = False"

fun revives :: "string \<Rightarrow> PlannerCall \<times> BuyerAction option \<Rightarrow> bool" where
  "revives tc (KeepActive cur, _) = (cur = tc)"
| "revives tc _ = False"

text \<open>A latch: set by one kind of entry, kept by all but another kind, and blocking the first.\<close>

locale planner_latch =
  fixes latched :: "string \<Rightarrow> BuyerContinuity \<Rightarrow> bool"
    and sets_latch :: "string \<Rightarrow> PlannerCall \<times> BuyerAction option \<Rightarrow> bool"
    and frees_latch :: "string \<Rightarrow> PlannerCall \<times> BuyerAction option \<Rightarrow> bool"
  assumes set_latch: "planner_step c b = (b', a) \<Longrightarrow> sets_latch tc (c, a) \<Longrightarrow> latched tc b'"
    and keep_latch: "planner_step c b = (b', a) \<Longrightarrow> latched tc b \<Longrightarrow> \<not> frees_latch tc (c, a) \<Longrightarrow> latched tc b'"
    and latch_blocks: "planner_step c b = (b', a) \<Longrightarrow> latched tc b \<Longrightarrow> \<not> sets_latch tc (c, a)"
begin

lemma blocked_until_freed:
  assumes "latched tc b" and "run_planner cs b = mid @ y # post" and "sets_latch tc y"
  shows "\<exists>z \<in> set mid. frees_latch tc z"
  using assms
proof (induction cs arbitrary: b mid)
  case (Cons c cs)
  obtain b' a where step: "planner_step c b = (b', a)" by (cases "planner_step c b")
  show ?case
  proof (cases mid)
    case Nil
    with Cons.prems step have "y = (c, a)" by simp
    with latch_blocks [OF step Cons.prems(1)] Cons.prems(3) show ?thesis by simp
  next
    case (Cons z mid')
    with Cons.prems(2) step have z: "z = (c, a)" and run: "run_planner cs b' = mid' @ y # post" by auto
    show ?thesis
    proof (cases "frees_latch tc z")
      case True
      with Cons show ?thesis by simp
    next
      case False
      with z have "latched tc b'" using keep_latch [OF step Cons.prems(1)] by simp
      from Cons.IH [OF this run Cons.prems(3)] Cons show ?thesis by auto
    qed
  qed
qed simp

lemma freed_between:
  assumes "run_planner cs b = pre @ x # mid @ y # post" and "sets_latch tc x" and "sets_latch tc y"
  shows "\<exists>z \<in> set mid. frees_latch tc z"
  using assms
proof (induction pre arbitrary: cs b)
  case Nil
  then obtain c cs' where cs: "cs = c # cs'" by (cases cs) auto
  obtain b' a where step: "planner_step c b = (b', a)" by (cases "planner_step c b")
  with Nil cs have x: "x = (c, a)" and run: "run_planner cs' b' = mid @ y # post" by auto
  have "latched tc b'" using set_latch [OF step] x Nil.prems(2) by simp
  then show ?case by (rule blocked_until_freed [OF _ run Nil.prems(3)])
next
  case (Cons e pre)
  then obtain c cs' where cs: "cs = c # cs'" by (cases cs) auto
  obtain b' a where "planner_step c b = (b', a)" by (cases "planner_step c b")
  with Cons.prems cs have "run_planner cs' b' = pre @ x # mid @ y # post" by simp
  with Cons.IH Cons.prems show ?case by blast
qed

end

lemmas planner_defs =
  tick_with_demand_def tick_phase_def order_successor_def note_pending_next_def clear_pending_next_def
  keep_active_def Let_def

interpretation pending: planner_latch "\<lambda>tc b. contains_key (bc_pending_after b) tc" orders_next releases_next
proof
  fix c b b' a tc
  assume step: "planner_step c b = (b', a)"
  show "orders_next tc (c, a) \<Longrightarrow> contains_key (bc_pending_after b') tc"
    using step by (cases c) (auto simp: planner_defs split: option.splits if_splits DealPhase.splits)
  show "contains_key (bc_pending_after b) tc \<Longrightarrow> \<not> releases_next tc (c, a) \<Longrightarrow> contains_key (bc_pending_after b') tc"
    using step by (cases c) (auto simp: planner_defs split: option.splits if_splits DealPhase.splits)
  show "contains_key (bc_pending_after b) tc \<Longrightarrow> \<not> orders_next tc (c, a)"
    using step by (cases c) (auto simp: planner_defs split: option.splits if_splits DealPhase.splits)
qed

interpretation stale: planner_latch "\<lambda>tc b. tc \<in> set (bc_stale b)" cleans_up revives
proof
  fix c b b' a tc
  assume step: "planner_step c b = (b', a)"
  show "cleans_up tc (c, a) \<Longrightarrow> tc \<in> set (bc_stale b')"
    using step by (cases c) (auto simp: planner_defs split: option.splits if_splits DealPhase.splits)
  show "tc \<in> set (bc_stale b) \<Longrightarrow> \<not> revives tc (c, a) \<Longrightarrow> tc \<in> set (bc_stale b')"
    using step by (cases c) (auto simp: planner_defs split: option.splits if_splits DealPhase.splits)
  show "tc \<in> set (bc_stale b) \<Longrightarrow> \<not> cleans_up tc (c, a)"
    using step by (cases c) (auto simp: planner_defs split: option.splits if_splits DealPhase.splits)
qed

text \<open>
  C35: However often the monitor ticks, the planner orders at most one successor per deal: between two
  orders for the same current deal the pending entry was cleared or the buyer switched away from it.
\<close>

theorem one_successor_per_deal:
  assumes "run_planner calls b = pre @ x # mid @ y # post" and "orders_next tc x" and "orders_next tc y"
  shows "\<exists>z \<in> set mid. releases_next tc z"
  using assms by (rule pending.freed_between)

definition sample_closed :: DealFacts where
  "sample_closed = \<lparr> df_token_contract = ''tc'', df_owner = ThisBuyer, df_phase = ClosedPhase, df_remaining_tokens = None \<rparr>"

definition sample_tick :: PlannerCall where
  "sample_tick = Tick (Some sample_closed) None default_continuity_config ActiveOrRecent"

lemma sample_run:
  "run_planner [sample_tick, sample_tick, ClearPending ''tc'', sample_tick] new_continuity =
    [] @ (sample_tick, Some (PlaceNextDeal ''closed-current''))
      # [(sample_tick, Some (Noop ''next-deal-already-pending'')), (ClearPending ''tc'', None)]
      @ (sample_tick, Some (PlaceNextDeal ''closed-current'')) # []"
  by (simp add: sample_tick_def sample_closed_def planner_defs new_continuity_def is_active_or_recent_def
      contains_key_def hget_hinsert hget_hremove)

theorem one_successor_per_deal_witness:
  "\<exists>z \<in> set [(sample_tick, Some (Noop ''next-deal-already-pending'')), (ClearPending ''tc'', None)].
    releases_next ''tc'' z"
  by (rule one_successor_per_deal [OF sample_run]) (simp_all add: sample_tick_def sample_closed_def)

text \<open>
  A deal is given up only for cause and once. A cleanup is named only for an own deal that was funded
  and not opened within the timeout, and named again only after the deal was explicitly kept active.
\<close>

theorem cleanup_for_cause_and_once:
  assumes "run_planner calls b = pre @ (Tick current ready_next cfg demand, Some (CleanupUnopened tc)) # mid @ y # post"
  shows "(\<exists>cur age. current = Some cur \<and> df_token_contract cur = tc \<and> df_owner cur = ThisBuyer
      \<and> df_phase cur = FundedNeverOpened age \<and> match_open_timeout_secs cfg \<le> age)
    \<and> (cleans_up tc y \<longrightarrow> (\<exists>z \<in> set mid. revives tc z))"
proof (intro conjI impI)
  show "\<exists>cur age. current = Some cur \<and> df_token_contract cur = tc \<and> df_owner cur = ThisBuyer
      \<and> df_phase cur = FundedNeverOpened age \<and> match_open_timeout_secs cfg \<le> age"
    using assms
  proof (induction pre arbitrary: calls b)
    case Nil
    then show ?case
      by (cases calls) (auto simp: planner_defs split: option.splits if_splits DealPhase.splits prod.splits)
  next
    case (Cons e pre)
    then show ?case by (cases calls) (auto split: prod.splits)
  qed
  show "\<exists>z \<in> set mid. revives tc z" if "cleans_up tc y"
    using assms _ that by (rule stale.freed_between) simp
qed

definition sample_unopened :: DealFacts where
  "sample_unopened = \<lparr> df_token_contract = ''tc'', df_owner = ThisBuyer, df_phase = FundedNeverOpened 601,
    df_remaining_tokens = None \<rparr>"

abbreviation sample_late :: PlannerCall where
  "sample_late \<equiv> Tick (Some sample_unopened) None default_continuity_config ActiveOrRecent"

lemma sample_cleanup_run:
  "run_planner [sample_late, sample_late, KeepActive ''tc'', sample_late] new_continuity =
    [] @ (sample_late, Some (CleanupUnopened ''tc''))
      # [(sample_late, Some (IgnoreStale ''tc'')), (KeepActive ''tc'', None)]
      @ (sample_late, Some (CleanupUnopened ''tc'')) # []"
  by (simp add: sample_unopened_def planner_defs new_continuity_def default_continuity_config_def
      MATCH_OPEN_TIMEOUT_SECS_def)

theorem cleanup_for_cause_and_once_witness:
  "\<exists>z \<in> set [(sample_late, Some (IgnoreStale ''tc'')), (KeepActive ''tc'', None)]. revives ''tc'' z"
proof -
  have "cleans_up ''tc'' (sample_late, Some (CleanupUnopened ''tc''))"
    by simp
  then show ?thesis
    using cleanup_for_cause_and_once [OF sample_cleanup_run] by blast
qed

text \<open>
  Without a current deal there is nothing to remember the order under: every tick with demand names a new
  placement.
\<close>

lemma no_current_deal_orders_every_tick:
  "tick None ready_next cfg b = (b, PlaceNextDeal ''no-current-deal'')"
  by (simp add: tick_def tick_with_demand_def is_active_or_recent_def)

end
