(* ===== verification/Effects.thy ===== *)
theory Effects
  imports Prelude
begin

text \<open>
  Async code that threads one world through many awaited calls: a call takes the world and returns it
  changed, with an error or a value. An await of the source is a call; \<open>?\<close> is \<open>bindS\<close>. What other
  tasks do between two awaits is part of what the call does to the world, so a statement over every
  world and every call is a statement over every interleaving. Used by \<open>Keeper\<close>,
  \<open>Advance\<close>, \<open>AccumulatorDesk\<close>, \<open>Offers\<close> and \<open>Supervision\<close>.
\<close>

type_synonym ('s, 'e, 'a) call = "'s \<Rightarrow> 's \<times> ('e + 'a)"

definition returnS :: "'a \<Rightarrow> ('s, 'e, 'a) call" where
  "returnS x s = (s, Inr x)"

definition failS :: "'e \<Rightarrow> ('s, 'e, 'a) call" where
  "failS e s = (s, Inl e)"

definition liftS :: "'e + 'a \<Rightarrow> ('s, 'e, 'a) call" where
  "liftS r s = (s, r)"

definition bindS :: "('s, 'e, 'a) call \<Rightarrow> ('a \<Rightarrow> ('s, 'e, 'b) call) \<Rightarrow> ('s, 'e, 'b) call" where
  "bindS m f s = (case m s of (s', Inl e) \<Rightarrow> (s', Inl e) | (s', Inr x) \<Rightarrow> f x s')"

text \<open>A call whose error is a value for the caller, \<open>.err()\<close> or a \<open>match\<close> on the result.\<close>

definition tryS :: "('s, 'e, 'a) call \<Rightarrow> ('s, 'e2, 'e + 'a) call" where
  "tryS m s = (case m s of (s', r) \<Rightarrow> (s', Inr r))"

definition mapErrS :: "('e \<Rightarrow> 'e2) \<Rightarrow> ('s, 'e, 'a) call \<Rightarrow> ('s, 'e2, 'a) call" where
  "mapErrS g m s = (case m s of (s', r) \<Rightarrow> (s', map_err g r))"

lemmas call_defs = returnS_def failS_def liftS_def bindS_def tryS_def mapErrS_def

lemma bindS_simps [simp]:
  "m s = (s', Inr x) \<Longrightarrow> bindS m f s = f x s'"
  "m s = (s', Inl e) \<Longrightarrow> bindS m f s = (s', Inl e)"
  by (simp_all add: bindS_def)

lemma bindS_returnS [simp]: "bindS (returnS x) f = f x"
  by (rule ext) (simp add: bindS_def returnS_def)

text \<open>Every successful run of a sequence is a successful run of its parts.\<close>

lemma bindS_Inr_iff:
  "bindS m f s = (s', Inr y) \<longleftrightarrow> (\<exists>t x. m s = (t, Inr x) \<and> f x t = (s', Inr y))"
  by (auto simp: bindS_def split: prod.splits sum.splits)

lemma mapErrS_Inr_iff: "mapErrS g m s = (s', Inr x) \<longleftrightarrow> m s = (s', Inr x)"
  by (auto simp: mapErrS_def map_err_def split: prod.splits sum.splits)

lemma tryS_Inr_iff: "tryS m s = (s', Inr r) \<longleftrightarrow> m s = (s', r)"
  by (auto simp: tryS_def split: prod.splits)

lemma simple_Inr_iff:
  "returnS x s = (s', Inr y) \<longleftrightarrow> s' = s \<and> y = x"
  "liftS r s = (s', Inr y) \<longleftrightarrow> s' = s \<and> r = Inr y"
  "failS e s = (s', Inr y) \<longleftrightarrow> False"
  by (auto simp: call_defs)

lemmas call_iffs = bindS_Inr_iff mapErrS_Inr_iff tryS_Inr_iff simple_Inr_iff

section \<open>Invariants of a world\<close>

text \<open>
  A call keeps a property of the world whatever it answers. Sequences of such calls keep it, so a
  property of the chain calls of a driver carries over to the driver.
\<close>

definition keeps :: "('s \<Rightarrow> bool) \<Rightarrow> ('s, 'e, 'a) call \<Rightarrow> bool" where
  "keeps I m \<longleftrightarrow> (\<forall>s. I s \<longrightarrow> I (fst (m s)))"

lemma keepsD: "keeps I m \<Longrightarrow> I s \<Longrightarrow> m s = (s', r) \<Longrightarrow> I s'"
  by (fastforce simp: keeps_def)

named_theorems keeps_intros

lemma keeps_simple [keeps_intros]:
  "keeps I (returnS x)" "keeps I (failS e)" "keeps I (liftS r)"
  by (simp_all add: keeps_def call_defs)

lemma keeps_bindS [keeps_intros]:
  "keeps I m \<Longrightarrow> (\<And>x. keeps I (f x)) \<Longrightarrow> keeps I (bindS m f)"
  by (auto simp: keeps_def bindS_def split: prod.splits sum.splits)

lemma keeps_wrapped [keeps_intros]:
  "keeps I m \<Longrightarrow> keeps I (tryS m)" "keeps I m \<Longrightarrow> keeps I (mapErrS g m)"
  by (auto simp: keeps_def tryS_def mapErrS_def split: prod.splits)

section \<open>Calls that may not return\<close>

text \<open>A run is a call that may wait for ever: \<open>None\<close>.\<close>

type_synonym ('s, 'e, 'a) run = "'s \<Rightarrow> ('s \<times> ('e + 'a)) option"

definition once :: "('s, 'e, 'a) call \<Rightarrow> ('s, 'e, 'a) run" where
  "once m s = Some (m s)"

definition bindO :: "('s, 'e, 'a) run \<Rightarrow> ('a \<Rightarrow> ('s, 'e, 'b) run) \<Rightarrow> ('s, 'e, 'b) run" where
  "bindO m f s = (case m s of
     None \<Rightarrow> None | Some (s', Inl e) \<Rightarrow> Some (s', Inl e) | Some (s', Inr x) \<Rightarrow> f x s')"

lemma bindO_simps [simp]:
  "m s = Some (s', Inr x) \<Longrightarrow> bindO m f s = f x s'"
  "m s = Some (s', Inl e) \<Longrightarrow> bindO m f s = Some (s', Inl e)"
  "m s = None \<Longrightarrow> bindO m f s = None"
  by (simp_all add: bindO_def)

lemma bindO_cases:
  assumes "bindO m f s = Some (s', r)"
  obtains e where "m s = Some (s', Inl e)" and "r = Inl e"
    | t x where "m s = Some (t, Inr x)" and "f x t = Some (s', r)"
  using assms by (auto simp: bindO_def split: option.splits prod.splits sum.splits)

lemma once_iff [simp]: "once m s = Some y \<longleftrightarrow> m s = y"
  by (simp add: once_def)

text \<open>What holds of the world after a run, and of its value, whenever it returns.\<close>

definition ensures :: "('s \<Rightarrow> bool) \<Rightarrow> ('s, 'e, 'a) run \<Rightarrow> ('a \<Rightarrow> 's \<Rightarrow> bool) \<Rightarrow> ('s \<Rightarrow> bool) \<Rightarrow> bool" where
  "ensures P m Q E \<longleftrightarrow> (\<forall>s s' r. P s \<longrightarrow> m s = Some (s', r) \<longrightarrow> (case r of Inr x \<Rightarrow> Q x s' | Inl _ \<Rightarrow> E s'))"

lemma ensuresI:
  assumes "\<And>s s' x. P s \<Longrightarrow> m s = Some (s', Inr x) \<Longrightarrow> Q x s'"
    and "\<And>s s' e. P s \<Longrightarrow> m s = Some (s', Inl e) \<Longrightarrow> E s'"
  shows "ensures P m Q E"
  unfolding ensures_def by (auto split: sum.split intro: assms)

lemma ensuresD:
  assumes "ensures P m Q E" and "P s" and "m s = Some (s', r)"
  shows "case r of Inr x \<Rightarrow> Q x s' | Inl _ \<Rightarrow> E s'"
  using assms unfolding ensures_def by blast

lemma ensures_bindO:
  assumes "ensures P m Q E" and "\<And>x. ensures (Q x) (f x) R E"
  shows "ensures P (bindO m f) R E"
  unfolding ensures_def
proof (intro allI impI)
  fix s s' r
  assume "P s" and "bindO m f s = Some (s', r)"
  from this(2) show "case r of Inr x \<Rightarrow> R x s' | Inl _ \<Rightarrow> E s'"
  proof (cases rule: bindO_cases)
    case (1 e)
    then show ?thesis using ensuresD [OF assms(1) \<open>P s\<close>] by fastforce
  next
    case (2 t x)
    then have "Q x t" using ensuresD [OF assms(1) \<open>P s\<close>] by fastforce
    then show ?thesis using ensuresD [OF assms(2)] 2 by blast
  qed
qed

lemma ensures_once: "keeps I m \<Longrightarrow> ensures I (once m) (\<lambda>_. I) I"
  by (rule ensuresI) (auto dest: keepsD)

lemma ensures_return: "(\<And>s. P s \<Longrightarrow> Q x s) \<Longrightarrow> ensures P (once (returnS x)) Q E"
  by (auto simp: ensures_def returnS_def)

lemma ensures_fail: "(\<And>s. P s \<Longrightarrow> E s) \<Longrightarrow> ensures P (once (failS e)) Q E"
  by (auto simp: ensures_def failS_def)

lemma ensures_if:
  "(b \<Longrightarrow> ensures P m Q E) \<Longrightarrow> (\<not> b \<Longrightarrow> ensures P n Q E) \<Longrightarrow> ensures P (if b then m else n) Q E"
  by simp

lemma ensures_weaken:
  "ensures P m Q E \<Longrightarrow> (\<And>s. P' s \<Longrightarrow> P s) \<Longrightarrow> (\<And>x s. Q x s \<Longrightarrow> Q' x s) \<Longrightarrow> (\<And>s. E s \<Longrightarrow> E' s)
    \<Longrightarrow> ensures P' m Q' E'"
  by (rule ensuresI) (fastforce simp: ensures_def)+

end
