(* ===== verification/Keeper.thy ===== *)
theory Keeper
  imports Effects MarketTypes Params
begin

text \<open>
  The subscription keeper of the seller, \<open>src/crates/dexdo/src/seller/keeper.rs\<close>: from the getters of
  the deal it plans the next permissionless call (\<open>finalize\<close> or \<open>settleWeek\<close>) or how long to wait,
  makes the call, and reconciles it with a later read. The chain, the clock and the observer are calls
  on one world (record \<open>KeeperWorld\<close>), the loop is a \<open>partial_function\<close>: \<open>None\<close> is a loop that never
  ends. Durations are whole seconds. The theorems characterise the plan exactly; the theory \<open>KeeperMock\<close>
  runs the keeper on the mock chain.
\<close>

section \<open>Snapshots, plans, errors\<close>

record KeeperSnapshot =
  ks_deal :: DealChainState
  ks_subscription :: DealSubscription

definition keeper_snapshot_of :: "DealChainSnapshot \<Rightarrow> KeeperSnapshot" where
  "keeper_snapshot_of snapshot =
    \<lparr> ks_deal = snap_state snapshot, ks_subscription = snap_subscription snapshot \<rparr>"

datatype KeeperPlan =
  PlanNotSubscription | PlanTerminal | PlanWait secs | PlanFinalize | PlanSettleWeek u8

datatype KeeperStep =
  StepNotSubscription | StepTerminal u128 | StepWait secs | StepProgress

datatype malformed_state =
    PipelineRegressed | OpenedNotFunded | WeekBeyondTerm | PendingBeyondFunded | WeekBaseBeyondPending
  | BelowProbeHighWater | PeriodStartZero | LastClaimTimeZero

datatype keeper_error =
    Malformed malformed_state | ClaimIntervalZero | PromoteWindowZero | DeadlineOverflow
  | WeekIncrementOverflow | WeekOffsetOverflow | WeekBoundaryOverflow
  | BeforePeriodStart | WeekTargetTooWide | TargetNotAhead
  | RegressingState | ImmutableFieldChanged string
  | NoDataBeforeLive | OrdinaryDealKept
  | UnexpectedWeek u8 u8 "ChainError option" | WriteWithoutEffect KeeperPlan "ChainError option"
  | KeeperChain ChainError

section \<open>Reading a snapshot\<close>

definition validate_accepted :: "DealChainState \<Rightarrow> DealSubscription \<Rightarrow> keeper_error + unit" where
  "validate_accepted deal subscription =
    (if dcs_opened deal \<and> dcs_probe_accepted deal then
       refuse_if (dcs_tokens_final deal < TICK_SIZE \<or> sub_tokens_paid subscription < TICK_SIZE)
         (Malformed BelowProbeHighWater)
       (refuse_if (sub_period_start subscription = 0) (Malformed PeriodStartZero)
       (refuse_if (dcs_last_claim_time deal = 0) (Malformed LastClaimTimeZero)
       (Inr ())))
     else Inr ())"

definition validate_snapshot :: "KeeperSnapshot \<Rightarrow> keeper_error + unit" where
  "validate_snapshot snapshot =
    (let deal = ks_deal snapshot; subscription = ks_subscription snapshot in
     refuse_if (dcs_tokens_pending deal < dcs_tokens_final deal) (Malformed PipelineRegressed)
     (refuse_if (dcs_opened deal \<and> \<not> dcs_funded deal) (Malformed OpenedNotFunded)
     (if is_subscription subscription then
        refuse_if (sub_weeks subscription < sub_week_index subscription) (Malformed WeekBeyondTerm)
        (refuse_if (sub_funded_tokens subscription < dcs_tokens_pending deal) (Malformed PendingBeyondFunded)
        (refuse_if (\<not> is_stopped deal \<and> dcs_tokens_pending deal < sub_week_base_tokens subscription)
           (Malformed WeekBaseBeyondPending)
        (validate_accepted deal subscription)))
      else Inr ())))"

definition checked_deadline :: "u64 \<Rightarrow> secs \<Rightarrow> keeper_error + u64" where
  "checked_deadline anchor duration = ok_or_else (checked_add U64_MAX anchor duration) DeadlineOverflow Inr"

definition next_week_boundary :: "DealSubscription \<Rightarrow> keeper_error + u64" where
  "next_week_boundary subscription =
    ok_or_else (checked_add U64_MAX (sub_week_index subscription) 1) WeekIncrementOverflow (\<lambda>next_week.
    ok_or_else (checked_mul U64_MAX SUB_WEEK_LEN next_week) WeekOffsetOverflow (\<lambda>offset.
    ok_or_else (checked_add U64_MAX (sub_period_start subscription) offset) WeekBoundaryOverflow Inr))"

definition scheduled_week_target :: "DealSubscription \<Rightarrow> u64 \<Rightarrow> keeper_error + u8" where
  "scheduled_week_target subscription now =
    ok_or_else (checked_sub now (sub_period_start subscription)) BeforePeriodStart (\<lambda>elapsed.
    ok_or_else (try_from U8_MAX (min (elapsed div SUB_WEEK_LEN) (sub_weeks subscription))) WeekTargetTooWide
      (\<lambda>target.
    refuse_if (target \<le> sub_week_index subscription) TargetNotAhead (Inr target)))"

section \<open>The plan\<close>

text \<open>\<open>(cond).then(f).transpose()?\<close> of the source.\<close>

definition deadline_when :: "bool \<Rightarrow> keeper_error + u64 \<Rightarrow> keeper_error + u64 option" where
  "deadline_when b r = (if b then bindR r (\<lambda>d. Inr (Some d)) else Inr None)"

definition due :: "u64 option \<Rightarrow> u64 \<Rightarrow> bool" where
  "due deadline now = (case deadline of None \<Rightarrow> False | Some d \<Rightarrow> d \<le> now)"

definition wait_until :: "secs \<Rightarrow> u64 \<Rightarrow> u64 option list \<Rightarrow> secs" where
  "wait_until idle now deadlines =
    fold (\<lambda>deadline delay. case deadline of
        None \<Rightarrow> delay
      | Some d \<Rightarrow> if now < d then min delay (d - now) else delay) deadlines idle"

definition plan :: "KeeperSnapshot \<Rightarrow> ClaimBounds \<Rightarrow> u64 \<Rightarrow> keeper_error + KeeperPlan" where
  "plan snapshot bounds now =
    bindR (validate_snapshot snapshot) (\<lambda>_.
    let deal = ks_deal snapshot; subscription = ks_subscription snapshot;
        idle = cb_min_claim_interval bounds; promote = cb_promote_window bounds in
    if \<not> is_subscription subscription then Inr PlanNotSubscription
    else if is_stopped deal then Inr PlanTerminal
    else refuse_if (idle = 0) ClaimIntervalZero
    (if \<not> dcs_opened deal \<or> \<not> dcs_probe_accepted deal \<or> dcs_disputed deal then Inr (PlanWait idle)
     else refuse_if (promote = 0) PromoteWindowZero
     (bindR (deadline_when (dcs_tokens_final deal < dcs_tokens_pending deal)
               (checked_deadline (dcs_last_claim_time deal) promote)) (\<lambda>last_deadline.
      if due last_deadline now then Inr PlanFinalize
      else bindR (deadline_when (sub_week_index subscription < sub_weeks subscription)
                    (next_week_boundary subscription)) (\<lambda>next_boundary.
      if due next_boundary now
      then bindR (scheduled_week_target subscription now) (\<lambda>target. Inr (PlanSettleWeek target))
      else bindR (deadline_when (sub_week_index subscription = sub_weeks subscription)
                    (checked_deadline (dcs_last_claim_time deal) promote)) (\<lambda>final_close_deadline.
      if due final_close_deadline now \<and> dcs_tokens_final deal = dcs_tokens_pending deal
      then Inr (PlanSettleWeek (sub_weeks subscription))
      else Inr (PlanWait (wait_until idle now [last_deadline, next_boundary, final_close_deadline]))))))))"

section \<open>Reconciling\<close>

definition regressed :: "KeeperSnapshot \<Rightarrow> KeeperSnapshot \<Rightarrow> bool" where
  "regressed before after \<longleftrightarrow>
    (let b = ks_deal before; a = ks_deal after; bs = ks_subscription before; as = ks_subscription after;
         terminal_transition = (\<not> is_stopped b \<and> is_stopped a) in
     dcs_tokens_final a < dcs_tokens_final b
     \<or> (\<not> terminal_transition \<and> dcs_tokens_pending a < dcs_tokens_pending b)
     \<or> dcs_last_claim_time a < dcs_last_claim_time b
     \<or> (dcs_probe_accepted b \<and> \<not> dcs_probe_accepted a)
     \<or> sub_week_index as < sub_week_index bs
     \<or> sub_tokens_paid as < sub_tokens_paid bs
     \<or> sub_week_base_tokens as < sub_week_base_tokens bs
     \<or> sub_period_start as < sub_period_start bs)"

definition ensure_non_regressing_transition :: "KeeperSnapshot \<Rightarrow> KeeperSnapshot \<Rightarrow> keeper_error + unit" where
  "ensure_non_regressing_transition before after =
    (let bs = ks_subscription before; as = ks_subscription after;
         accepted_probe_now = (\<not> dcs_probe_accepted (ks_deal before) \<and> dcs_probe_accepted (ks_deal after)) in
     refuse_if (regressed before after) RegressingState
     (refuse_if (sub_deal_flags as \<noteq> sub_deal_flags bs) (ImmutableFieldChanged ''dealFlags'')
     (refuse_if (sub_weeks as \<noteq> sub_weeks bs) (ImmutableFieldChanged ''subWeeks'')
     (refuse_if (sub_tokens_per_week as \<noteq> sub_tokens_per_week bs) (ImmutableFieldChanged ''tokensPerWeek'')
     (refuse_if (sub_funded_tokens as \<noteq> sub_funded_tokens bs) (ImmutableFieldChanged ''fundedTokens'')
     (refuse_if (sub_period_start as \<noteq> sub_period_start bs \<and> \<not> accepted_probe_now)
        (ImmutableFieldChanged ''periodStart'')
     (Inr ())))))))"

text \<open>\<open>KeeperCursor\<close> holds the last accepted snapshot.\<close>

type_synonym KeeperCursor = "KeeperSnapshot option"

definition accept_snapshot :: "KeeperSnapshot \<Rightarrow> KeeperCursor \<Rightarrow> keeper_error + KeeperCursor" where
  "accept_snapshot snapshot cursor =
    bindR (validate_snapshot snapshot) (\<lambda>_.
    bindR (case cursor of None \<Rightarrow> Inr () | Some previous \<Rightarrow> ensure_non_regressing_transition previous snapshot)
      (\<lambda>_. Inr (Some snapshot)))"

definition terminal_tokens_final :: "KeeperCursor \<Rightarrow> u128 option" where
  "terminal_tokens_final cursor = map_option (\<lambda>s. dcs_tokens_final (ks_deal s)) cursor"

fun write_applied :: "KeeperPlan \<Rightarrow> KeeperSnapshot \<Rightarrow> KeeperSnapshot \<Rightarrow> bool" where
  "write_applied PlanFinalize before after =
    (dcs_tokens_final (ks_deal before) < dcs_tokens_final (ks_deal after))"
| "write_applied (PlanSettleWeek target) before after =
    (sub_week_index (ks_subscription before) < sub_weeks (ks_subscription before)
     \<and> sub_week_index (ks_subscription after) = target)"
| "write_applied _ before after = False"

definition err_of :: "ChainError + unit \<Rightarrow> ChainError option" where
  "err_of r = (case r of Inl e \<Rightarrow> Some e | Inr _ \<Rightarrow> None)"

definition reconcile_write ::
  "ClaimBounds \<Rightarrow> KeeperPlan \<Rightarrow> KeeperSnapshot \<Rightarrow> KeeperSnapshot option \<Rightarrow> ChainError + unit
    \<Rightarrow> keeper_error + KeeperStep" where
  "reconcile_write bounds action before after submit =
    (case after of
       None \<Rightarrow> Inr (StepTerminal (dcs_tokens_final (ks_deal before)))
     | Some after \<Rightarrow>
         bindR (validate_snapshot after) (\<lambda>_.
         if is_stopped (ks_deal after) then Inr (StepTerminal (dcs_tokens_final (ks_deal after)))
         else if dcs_disputed (ks_deal after) then Inr (StepWait (cb_min_claim_interval bounds))
         else bindR (ensure_non_regressing_transition before after) (\<lambda>_.
         if write_applied action before after then Inr StepProgress
         else case action of
                PlanSettleWeek target \<Rightarrow>
                  Inl (UnexpectedWeek target (sub_week_index (ks_subscription after)) (err_of submit))
              | _ \<Rightarrow> Inl (WriteWithoutEffect action (err_of submit)))))"

section \<open>One step and the loop\<close>

record 'w KeeperWorld =
  kw_deal_snapshot :: "('w, ChainError, DealChainSnapshot option) call"
  kw_finalize :: "('w, ChainError, unit) call"
  kw_settle_week :: "('w, ChainError, unit) call"
  kw_observe :: "DealChainSnapshot option \<Rightarrow> ('w, ChainError, unit) call"
  kw_now :: "('w, ChainError, u64) call"
  kw_sleep :: "secs \<Rightarrow> 'w \<Rightarrow> 'w"

type_synonym 'w keeper_state = "'w \<times> KeeperCursor"

definition on_world :: "('w, ChainError, 'a) call \<Rightarrow> ('w keeper_state, keeper_error, 'a) call" where
  "on_world m = (\<lambda>(w, cursor). case m w of (w', r) \<Rightarrow> ((w', cursor), map_err KeeperChain r))"

definition attempt_on_world :: "('w, ChainError, 'a) call \<Rightarrow> ('w keeper_state, keeper_error, ChainError + 'a) call" where
  "attempt_on_world m = (\<lambda>(w, cursor). case m w of (w', r) \<Rightarrow> ((w', cursor), Inr r))"

definition accept_read :: "KeeperSnapshot \<Rightarrow> ('w keeper_state, keeper_error, unit) call" where
  "accept_read snapshot = (\<lambda>(w, cursor). case accept_snapshot snapshot cursor of
     Inl e \<Rightarrow> ((w, cursor), Inl e) | Inr cursor' \<Rightarrow> ((w, cursor'), Inr ()))"

definition read_accepted_snapshot ::
  "'w KeeperWorld \<Rightarrow> ('w keeper_state, keeper_error, KeeperSnapshot option) call" where
  "read_accepted_snapshot world =
    bindS (on_world (kw_deal_snapshot world)) (\<lambda>snapshot.
    case snapshot of
      None \<Rightarrow> returnS None
    | Some snapshot \<Rightarrow>
        (let keeper_snapshot = keeper_snapshot_of snapshot in
         bindS (accept_read keeper_snapshot) (\<lambda>_.
         bindS (on_world (kw_observe world (Some snapshot))) (\<lambda>_.
         returnS (Some keeper_snapshot)))))"

text \<open>What a plan without a write answers.\<close>

fun idle_step :: "KeeperPlan \<Rightarrow> KeeperSnapshot \<Rightarrow> KeeperStep option" where
  "idle_step PlanNotSubscription s = Some StepNotSubscription"
| "idle_step PlanTerminal s = Some (StepTerminal (dcs_tokens_final (ks_deal s)))"
| "idle_step (PlanWait delay) s = Some (StepWait delay)"
| "idle_step _ s = None"

definition missing_first :: "'w KeeperWorld \<Rightarrow> ('w keeper_state, keeper_error, KeeperStep) call" where
  "missing_first world = (\<lambda>(w, cursor). case terminal_tokens_final cursor of
     Some tokens_final \<Rightarrow>
       bindS (on_world (kw_observe world None)) (\<lambda>_. returnS (StepTerminal tokens_final)) (w, cursor)
   | None \<Rightarrow> failS NoDataBeforeLive (w, cursor))"

definition submit_and_reconcile ::
  "'w KeeperWorld \<Rightarrow> ClaimBounds \<Rightarrow> KeeperPlan \<Rightarrow> KeeperSnapshot \<Rightarrow> ('w keeper_state, keeper_error, KeeperStep) call"
  where
  "submit_and_reconcile world bounds action pre_write =
    bindS (attempt_on_world (case action of PlanFinalize \<Rightarrow> kw_finalize world | _ \<Rightarrow> kw_settle_week world))
      (\<lambda>submit.
    bindS (read_accepted_snapshot world) (\<lambda>post_write.
    bindS (case post_write of None \<Rightarrow> on_world (kw_observe world None) | Some _ \<Rightarrow> returnS ()) (\<lambda>_.
    liftS (reconcile_write bounds action pre_write post_write submit))))"

definition keeper_step ::
  "'w KeeperWorld \<Rightarrow> ClaimBounds \<Rightarrow> u64 \<Rightarrow> ('w keeper_state, keeper_error, KeeperStep) call" where
  "keeper_step world bounds now =
    bindS (read_accepted_snapshot world) (\<lambda>read.
    case read of
      None \<Rightarrow> missing_first world
    | Some observed \<Rightarrow>
        bindS (liftS (plan observed bounds now)) (\<lambda>scheduled.
        case idle_step scheduled observed of
          Some step \<Rightarrow> returnS step
        | None \<Rightarrow>
            bindS (read_accepted_snapshot world) (\<lambda>again.
            case again of
              None \<Rightarrow> bindS (on_world (kw_observe world None)) (\<lambda>_.
                returnS (StepTerminal (dcs_tokens_final (ks_deal observed))))
            | Some pre_write \<Rightarrow>
                bindS (liftS (plan pre_write bounds now)) (\<lambda>action.
                case idle_step action pre_write of
                  Some step \<Rightarrow> returnS step
                | None \<Rightarrow> submit_and_reconcile world bounds action pre_write))))"

definition keeper_round ::
  "'w KeeperWorld \<Rightarrow> ClaimBounds \<Rightarrow> ('w keeper_state, keeper_error, KeeperStep) call" where
  "keeper_round world bounds = bindS (on_world (kw_now world)) (keeper_step world bounds)"

partial_function (option) keeper_loop ::
  "'w KeeperWorld \<Rightarrow> ClaimBounds \<Rightarrow> 'w keeper_state \<Rightarrow> ('w keeper_state \<times> (keeper_error + u128)) option" where
  "keeper_loop world bounds s =
    (case keeper_round world bounds s of
       (s', Inl e) \<Rightarrow> Some (s', Inl e)
     | (s', Inr step) \<Rightarrow>
         (case step of
            StepNotSubscription \<Rightarrow> Some (s', Inl OrdinaryDealKept)
          | StepTerminal tokens_final \<Rightarrow> Some (s', Inr tokens_final)
          | StepProgress \<Rightarrow> keeper_loop world bounds s'
          | StepWait delay \<Rightarrow> keeper_loop world bounds (apfst (kw_sleep world delay) s')))"

definition drive_subscription_keeper ::
  "'w KeeperWorld \<Rightarrow> ClaimBounds \<Rightarrow> 'w \<Rightarrow> ('w \<times> (keeper_error + u128)) option" where
  "drive_subscription_keeper world bounds w =
    map_option (apfst fst) (keeper_loop world bounds (w, None))"

section \<open>What the keeper plans\<close>

definition claim_due_at :: "ClaimBounds \<Rightarrow> KeeperSnapshot \<Rightarrow> nat" where
  "claim_due_at bounds s = dcs_last_claim_time (ks_deal s) + cb_promote_window bounds"

definition week_due_at :: "KeeperSnapshot \<Rightarrow> nat" where
  "week_due_at s = sub_period_start (ks_subscription s) + SUB_WEEK_LEN * (sub_week_index (ks_subscription s) + 1)"

definition unpromoted :: "KeeperSnapshot \<Rightarrow> bool" where
  "unpromoted s \<longleftrightarrow> dcs_tokens_final (ks_deal s) < dcs_tokens_pending (ks_deal s)"

definition weeks_left :: "KeeperSnapshot \<Rightarrow> bool" where
  "weeks_left s \<longleftrightarrow> sub_week_index (ks_subscription s) < sub_weeks (ks_subscription s)"

definition live_subscription :: "KeeperSnapshot \<Rightarrow> bool" where
  "live_subscription s \<longleftrightarrow> validate_snapshot s = Inr () \<and> is_subscription (ks_subscription s)
    \<and> sub_weeks (ks_subscription s) \<le> U8_MAX
    \<and> dcs_opened (ks_deal s) \<and> dcs_probe_accepted (ks_deal s) \<and> \<not> dcs_disputed (ks_deal s)"

text \<open>Bounds with which no keeper deadline overflows and no keeper loop is busy.\<close>

definition bounds_fit :: "ClaimBounds \<Rightarrow> KeeperSnapshot \<Rightarrow> bool" where
  "bounds_fit bounds s \<longleftrightarrow> 0 < cb_min_claim_interval bounds \<and> 0 < cb_promote_window bounds
    \<and> claim_due_at bounds s \<le> U64_MAX \<and> (weeks_left s \<longrightarrow> week_due_at s \<le> U64_MAX)"

lemma live_facts:
  assumes "live_subscription s"
  shows "dcs_tokens_final (ks_deal s) \<le> dcs_tokens_pending (ks_deal s)"
    and "sub_week_index (ks_subscription s) \<le> sub_weeks (ks_subscription s)"
    and "\<not> is_stopped (ks_deal s)"
  using assms
  by (auto simp: live_subscription_def validate_snapshot_def refuse_if_def is_stopped_def Let_def split: if_splits)

lemma scheduled_target:
  assumes "live_subscription s" and "weeks_left s" and "week_due_at s \<le> now"
  shows "scheduled_week_target (ks_subscription s) now
      = Inr (min ((now - sub_period_start (ks_subscription s)) div SUB_WEEK_LEN) (sub_weeks (ks_subscription s)))"
    and "sub_week_index (ks_subscription s)
      < min ((now - sub_period_start (ks_subscription s)) div SUB_WEEK_LEN) (sub_weeks (ks_subscription s))"
proof -
  let ?sub = "ks_subscription s"
  have "SUB_WEEK_LEN * (sub_week_index ?sub + 1) \<le> now - sub_period_start ?sub"
    using assms(3) by (simp add: week_due_at_def)
  then have "sub_week_index ?sub + 1 \<le> (now - sub_period_start ?sub) div SUB_WEEK_LEN"
    by (simp add: less_eq_div_iff_mult_less_eq SUB_WEEK_LEN_def)
  then show less: "sub_week_index ?sub < min ((now - sub_period_start ?sub) div SUB_WEEK_LEN) (sub_weeks ?sub)"
    using assms(2) by (simp add: weeks_left_def)
  have "min ((now - sub_period_start ?sub) div SUB_WEEK_LEN) (sub_weeks ?sub) \<le> U8_MAX"
    using assms(1) by (simp add: live_subscription_def min.coboundedI2)
  then show "scheduled_week_target ?sub now
      = Inr (min ((now - sub_period_start ?sub) div SUB_WEEK_LEN) (sub_weeks ?sub))"
    using assms(3) less
    by (simp add: scheduled_week_target_def checked_sub_def try_from_def week_due_at_def refuse_if_def not_le)
qed

lemma week_boundary: "week_due_at s \<le> U64_MAX \<Longrightarrow> next_week_boundary (ks_subscription s) = Inr (week_due_at s)"
  by (simp add: next_week_boundary_def checked_add_def checked_mul_def week_due_at_def SUB_WEEK_LEN_def)

text \<open>The deadlines the keeper waits for.\<close>

definition keeper_deadlines :: "ClaimBounds \<Rightarrow> KeeperSnapshot \<Rightarrow> nat set" where
  "keeper_deadlines bounds s =
    (if unpromoted s \<or> \<not> weeks_left s then {claim_due_at bounds s} else {})
    \<union> (if weeks_left s then {week_due_at s} else {})"

lemma plan_cases:
  assumes live: "live_subscription s" and fit: "bounds_fit bounds s"
  shows "plan s bounds now = Inr
    (if unpromoted s \<and> claim_due_at bounds s \<le> now then PlanFinalize
     else if weeks_left s \<and> week_due_at s \<le> now
     then PlanSettleWeek (min ((now - sub_period_start (ks_subscription s)) div SUB_WEEK_LEN)
       (sub_weeks (ks_subscription s)))
     else if \<not> weeks_left s \<and> claim_due_at bounds s \<le> now then PlanSettleWeek (sub_weeks (ks_subscription s))
     else PlanWait (wait_until (cb_min_claim_interval bounds) now
       [if unpromoted s then Some (claim_due_at bounds s) else None,
        if weeks_left s then Some (week_due_at s) else None,
        if weeks_left s then None else Some (claim_due_at bounds s)]))"
proof -
  have st: "\<not> is_stopped (ks_deal s)" "dcs_tokens_final (ks_deal s) \<le> dcs_tokens_pending (ks_deal s)"
    "sub_week_index (ks_subscription s) \<le> sub_weeks (ks_subscription s)"
    using live_facts [OF live] by simp_all
  have claim: "checked_deadline (dcs_last_claim_time (ks_deal s)) (cb_promote_window bounds)
      = Inr (claim_due_at bounds s)"
    using fit by (simp add: bounds_fit_def checked_deadline_def checked_add_def claim_due_at_def)
  have week: "weeks_left s \<Longrightarrow> next_week_boundary (ks_subscription s) = Inr (week_due_at s)"
    using fit by (simp add: bounds_fit_def week_boundary)
  show ?thesis
    using live fit st claim week scheduled_target(1) [OF live, of now]
    by (auto simp: plan_def live_subscription_def bounds_fit_def refuse_if_def deadline_when_def due_def Let_def
        unpromoted_def weeks_left_def)
qed

lemma wait_until_exact:
  assumes "0 < idle"
  shows "0 < wait_until idle now ds \<and> wait_until idle now ds \<le> idle
    \<and> (\<forall>d. Some d \<in> set ds \<longrightarrow> now < d \<longrightarrow> now + wait_until idle now ds \<le> d)
    \<and> (wait_until idle now ds = idle \<or> Some (now + wait_until idle now ds) \<in> set ds)"
  using assms
proof (induction ds arbitrary: idle)
  case (Cons e ds)
  define idle' where "idle' = (case e of None \<Rightarrow> idle | Some d \<Rightarrow> if now < d then min idle (d - now) else idle)"
  have step: "wait_until idle now (e # ds) = wait_until idle' now ds"
    by (simp add: wait_until_def idle'_def)
  have "0 < idle'" "idle' \<le> idle" "\<And>d. e = Some d \<Longrightarrow> now < d \<Longrightarrow> now + idle' \<le> d"
    "idle' = idle \<or> e = Some (now + idle')"
    using Cons.prems by (auto simp: idle'_def min_def split: option.split)
  with Cons.IH [of idle'] show ?case unfolding step by fastforce
qed (simp add: wait_until_def)

lemma plan_exact:
  assumes live: "live_subscription s" and fit: "bounds_fit bounds s"
  shows "plan s bounds now = Inr PlanFinalize \<longleftrightarrow> unpromoted s \<and> claim_due_at bounds s \<le> now"
    and "plan s bounds now = Inr (PlanSettleWeek w) \<longleftrightarrow>
        \<not> (unpromoted s \<and> claim_due_at bounds s \<le> now)
        \<and> (if weeks_left s then week_due_at s \<le> now
              \<and> w = min ((now - sub_period_start (ks_subscription s)) div SUB_WEEK_LEN) (sub_weeks (ks_subscription s))
            else claim_due_at bounds s \<le> now \<and> w = sub_weeks (ks_subscription s))"
    and "(\<exists>delay. plan s bounds now = Inr (PlanWait delay)) \<longleftrightarrow> (\<forall>d. d \<in> keeper_deadlines bounds s \<longrightarrow> now < d)"
    and "plan s bounds now = Inr (PlanWait delay) \<Longrightarrow> 0 < delay \<and> delay \<le> cb_min_claim_interval bounds
        \<and> (\<forall>d. d \<in> keeper_deadlines bounds s \<longrightarrow> now + delay \<le> d)
        \<and> (delay = cb_min_claim_interval bounds \<or> now + delay \<in> keeper_deadlines bounds s)"
    and "plan s bounds now = Inr (PlanSettleWeek w) \<Longrightarrow> weeks_left s \<Longrightarrow> sub_week_index (ks_subscription s) < w"
proof -
  note p = plan_cases [OF live fit, of now]
  let ?ds = "[if unpromoted s then Some (claim_due_at bounds s) else None,
        if weeks_left s then Some (week_due_at s) else None,
        if weeks_left s then None else Some (claim_due_at bounds s)]"
  have idle: "0 < cb_min_claim_interval bounds" using fit by (simp add: bounds_fit_def)
  have ds: "Some d \<in> set ?ds \<longleftrightarrow> d \<in> keeper_deadlines bounds s" for d
    by (auto simp: keeper_deadlines_def)
  note w = wait_until_exact [OF idle, of now ?ds, unfolded ds]
  show "plan s bounds now = Inr PlanFinalize \<longleftrightarrow> unpromoted s \<and> claim_due_at bounds s \<le> now"
    by (simp add: p)
  show "plan s bounds now = Inr (PlanSettleWeek w) \<longleftrightarrow>
        \<not> (unpromoted s \<and> claim_due_at bounds s \<le> now)
        \<and> (if weeks_left s then week_due_at s \<le> now
              \<and> w = min ((now - sub_period_start (ks_subscription s)) div SUB_WEEK_LEN) (sub_weeks (ks_subscription s))
            else claim_due_at bounds s \<le> now \<and> w = sub_weeks (ks_subscription s))"
    by (auto simp: p)
  show wait: "(\<exists>delay. plan s bounds now = Inr (PlanWait delay)) \<longleftrightarrow> (\<forall>d. d \<in> keeper_deadlines bounds s \<longrightarrow> now < d)"
    by (auto simp: p keeper_deadlines_def)
  show "0 < delay \<and> delay \<le> cb_min_claim_interval bounds
        \<and> (\<forall>d. d \<in> keeper_deadlines bounds s \<longrightarrow> now + delay \<le> d)
        \<and> (delay = cb_min_claim_interval bounds \<or> now + delay \<in> keeper_deadlines bounds s)"
    if plan: "plan s bounds now = Inr (PlanWait delay)"
  proof -
    have later: "\<forall>d. d \<in> keeper_deadlines bounds s \<longrightarrow> now < d" using plan wait by blast
    have "delay = wait_until (cb_min_claim_interval bounds) now ?ds" using plan by (simp add: p split: if_splits)
    then show ?thesis using w later by blast
  qed
  show "sub_week_index (ks_subscription s) < w" if "plan s bounds now = Inr (PlanSettleWeek w)" "weeks_left s"
    using that scheduled_target(2) [OF live that(2), of now] by (auto simp: p split: if_splits)
qed

text \<open>
  C31: The keeper plans exactly. On a live accepted undisputed subscription whose deadlines fit their counters it
  finalizes exactly when a claim is unpromoted past its window; otherwise it settles exactly when a week boundary has passed (to the
  number of weeks elapsed, at most the term) or when the term is over and the last claim window has passed;
  otherwise it waits, for at least a second and at most the claim interval, never past a pending deadline,
  and wakes early only for one of them.
\<close>

theorem keeper_plans_exactly:
  assumes "live_subscription s" and "bounds_fit bounds s"
  shows "(plan s bounds now = Inr PlanFinalize \<longleftrightarrow> unpromoted s \<and> claim_due_at bounds s \<le> now)
    \<and> (plan s bounds now = Inr (PlanSettleWeek w) \<longleftrightarrow>
        \<not> (unpromoted s \<and> claim_due_at bounds s \<le> now)
        \<and> (if weeks_left s then week_due_at s \<le> now
              \<and> w = min ((now - sub_period_start (ks_subscription s)) div SUB_WEEK_LEN) (sub_weeks (ks_subscription s))
            else claim_due_at bounds s \<le> now \<and> w = sub_weeks (ks_subscription s)))
    \<and> (plan s bounds now = Inr (PlanSettleWeek w) \<and> weeks_left s \<longrightarrow> sub_week_index (ks_subscription s) < w)
    \<and> ((\<forall>d. d \<in> keeper_deadlines bounds s \<longrightarrow> now < d) \<longleftrightarrow> (\<exists>delay. plan s bounds now = Inr (PlanWait delay)))
    \<and> (plan s bounds now = Inr (PlanWait delay) \<longrightarrow> 0 < delay \<and> delay \<le> cb_min_claim_interval bounds
        \<and> (\<forall>d. d \<in> keeper_deadlines bounds s \<longrightarrow> now + delay \<le> d)
        \<and> (delay = cb_min_claim_interval bounds \<or> now + delay \<in> keeper_deadlines bounds s))"
  using plan_exact [OF assms] by blast

text \<open>A deal in its first week with a claim of half a tick pending since 1500.\<close>

definition sample_live :: KeeperSnapshot where
  "sample_live = \<lparr>
    ks_deal = \<lparr>dcs_funded = True, dcs_opened = True, dcs_probe_accepted = True, dcs_disputed = False,
      dcs_deposit = 1, dcs_finalized_owed = 0, dcs_tokens_final = 1000000, dcs_tokens_pending = 1500000,
      dcs_probe_tick = 0, dcs_funded_time = Some 900, dcs_probe_time = 950, dcs_last_claim_time = 1500,
      dcs_dispute_time = 0\<rparr>,
    ks_subscription = \<lparr>sub_deal_flags = SUBSCRIPTION, sub_weeks = 4, sub_week_index = 0,
      sub_tokens_per_week = 2000000, sub_funded_tokens = 8000000, sub_tokens_paid = 1000000,
      sub_period_start = 1000, sub_week_base_tokens = 0\<rparr>\<rparr>"

theorem keeper_plans_exactly_witness:
  "plan sample_live claim_bounds_canonical 1560 = Inr PlanFinalize
    \<and> (\<exists>delay. plan sample_live claim_bounds_canonical 1540 = Inr (PlanWait delay) \<and> 1540 + delay \<le> 1560)"
proof -
  have live: "live_subscription sample_live"
    by (simp add: live_subscription_def validate_snapshot_def validate_accepted_def sample_live_def is_subscription_def
        is_stopped_def refuse_if_def TICK_SIZE_def MAX_defs)
  have fit: "bounds_fit claim_bounds_canonical sample_live"
    by (simp add: bounds_fit_def claim_due_at_def week_due_at_def claim_bounds_canonical_def canonical_def
        sample_live_def SUB_WEEK_LEN_def MAX_defs)
  have due: "unpromoted sample_live" "claim_due_at claim_bounds_canonical sample_live = 1560"
    by (simp_all add: unpromoted_def claim_due_at_def claim_bounds_canonical_def canonical_def sample_live_def)
  have deadlines: "keeper_deadlines claim_bounds_canonical sample_live = {605800, 1560}"
    using due by (simp add: keeper_deadlines_def weeks_left_def week_due_at_def sample_live_def SUB_WEEK_LEN_def)
  have "\<exists>delay. plan sample_live claim_bounds_canonical 1540 = Inr (PlanWait delay)"
    using keeper_plans_exactly [OF live fit, of 1540] deadlines by auto
  then show ?thesis
    using keeper_plans_exactly [OF live fit, of 1540] keeper_plans_exactly [OF live fit, of 1560] due deadlines
    by auto
qed

end
