(* ===== verification/KeeperMock.thy ===== *)
theory KeeperMock
  imports Keeper MockSettlement MockReads MockSample
begin

text \<open>
  The subscription keeper on the mock chain. The world is the mock state with a clock, the keeper's chain
  calls are the calls of the mock backend at that clock, and a sleep moves the clock. The theorem is that
  the keeper alone takes every accepted undisputed subscription to its end.
\<close>

section \<open>What the calls of the keeper do to a deal\<close>

lemma finalize_due:
  assumes ok: "deal_ok c cell s" and st: "sc_probe_accepted cell" "\<not> sc_closed cell" "\<not> sc_disputed cell"
    and sub: "is_subscription s" and un: "sc_tokens_final cell < sc_tokens_pending cell"
    and fit: "sc_last_claim_time cell + claim_promote_window c \<le> U64_MAX"
    and due: "sc_last_claim_time cell + claim_promote_window c \<le> now"
  shows "\<exists>m. finalize_deal c now cell s
    = Inr (cell\<lparr>sc_tokens_final := sc_tokens_pending cell, sc_machine := m\<rparr>, s, ())"
proof -
  have "machine_agrees cell" using ok by (simp add: deal_ok_def)
  note streaming = machine_streaming [OF this st]
  have promoted: "promote_due cell now c = Inr (cell\<lparr>sc_tokens_final := sc_tokens_pending cell\<rparr>)"
    using fit due un by (simp add: promote_due_iff promote_once_def)
  obtain m where "promote_machine (cell\<lparr>sc_tokens_final := sc_tokens_pending cell\<rparr>)
      = Inr (cell\<lparr>sc_tokens_final := sc_tokens_pending cell, sc_machine := m\<rparr>)"
    using streaming by (auto simp: promote_machine_Inr)
  then have "finalize_deal c now cell s = Inr (cell\<lparr>sc_tokens_final := sc_tokens_pending cell, sc_machine := m\<rparr>, s, ())"
    using promoted st sub un fit due
    by (simp add: finalize_deal_def has_due_claim_def claim_deadline_reached_def refuse_if_def checked_add_def)
  then show ?thesis by blast
qed

lemma charge_shape:
  assumes "charge_subscription_through cell s w c = Inr (cell', s', b)"
  shows "\<exists>p. sub_tokens_paid s \<le> p \<and> s' = (if w \<le> sub_week_index s then s
    else s\<lparr>sub_tokens_paid := p, sub_week_index := w, sub_week_base_tokens := sc_tokens_pending cell\<rparr>)"
  using assms
  by (auto simp: charge_subscription_through_def result_simps pending_tokens_def money_iffs split: if_splits)

text \<open>The weeks a settlement at \<open>now\<close> charges.\<close>

definition weeks_due :: "DealSubscription \<Rightarrow> u64 \<Rightarrow> nat" where
  "weeks_due s now = min ((now - sub_period_start s) div SUB_WEEK_LEN) (sub_weeks s)"

text \<open>What a settlement may change of a deal, as the keeper reads it.\<close>

definition settled_forward :: "StreamCell \<Rightarrow> DealSubscription \<Rightarrow> StreamCell \<Rightarrow> DealSubscription \<Rightarrow> bool" where
  "settled_forward cell s cell' s' \<longleftrightarrow>
    sc_tokens_final cell \<le> sc_tokens_final cell' \<and> sc_tokens_pending cell' = sc_tokens_pending cell
    \<and> sc_last_claim_time cell' = sc_last_claim_time cell \<and> sc_probe_accepted cell' = sc_probe_accepted cell
    \<and> sc_disputed cell' = sc_disputed cell
    \<and> sub_tokens_paid s \<le> sub_tokens_paid s' \<and> sub_week_base_tokens s \<le> sub_week_base_tokens s'
    \<and> sub_week_index s \<le> sub_week_index s' \<and> sub_period_start s' = sub_period_start s
    \<and> sub_deal_flags s' = sub_deal_flags s \<and> sub_weeks s' = sub_weeks s
    \<and> sub_tokens_per_week s' = sub_tokens_per_week s \<and> sub_funded_tokens s' = sub_funded_tokens s"

lemma settle_charges:
  assumes c: "consts_ok c" and core: "deal_core c cell s"
    and st: "sc_probe_accepted cell" "\<not> sc_closed cell" "\<not> sc_disputed cell" and sub: "is_subscription s"
    and now: "sub_period_start s \<le> now"
  obtains cell' s' where
    "charge_elapsed_subscription_weeks cell s now c = Inr (cell', s', sub_week_index s < weeks_due s now)"
    and "deal_core c cell' s'" and "same_deal cell s cell' s'"
    and "\<exists>x y z. cell' = cell\<lparr>sc_buyer_locked := x, sc_seller_received := y, sc_fee_accrued := z\<rparr>"
    and "sub_week_index s' = max (weeks_due s now) (sub_week_index s)" and "settled_forward cell s cell' s'"
proof -
  have shape: "shape_ok s" using core by (simp add: deal_core_def)
  then have "sub_weeks s \<le> U8_MAX"
    by (auto simp: shape_ok_def SUBSCRIPTION_WEEKS_def MAX_defs split: if_splits)
  then have weeks: "subscription_weeks_at s now False = Inr (weeks_due s now)"
    using now by (simp add: subscription_weeks_at_def checked_sub_def try_from_def weeks_due_def Let_def min.coboundedI2)
  have le: "weeks_due s now \<le> sub_weeks s" by (simp add: weeks_due_def)
  obtain cell' s' where run: "charge_subscription_through cell s (weeks_due s now) c
      = Inr (cell', s', sub_week_index s < weeks_due s now)"
    and kept: "deal_core c cell' s'" "same_deal cell s cell' s'"
      "\<exists>x y z. cell' = cell\<lparr>sc_buyer_locked := x, sc_seller_received := y, sc_fee_accrued := z\<rparr>"
      "sub_week_index s' = max (weeks_due s now) (sub_week_index s)"
    using charge_core [OF c core st(1,2) sub le] by metis
  have "sub_week_base_tokens s \<le> sc_tokens_pending cell" using core st sub by (simp add: deal_core_def weeks_ok_def)
  then have "settled_forward cell s cell' s'"
    using kept(3) charge_shape [OF run] by (auto simp: settled_forward_def split: if_splits)
  with run kept weeks st sub show thesis
    by (intro that) (simp_all add: charge_elapsed_subscription_weeks_def refuse_if_def)
qed

lemma settle_week_due:
  assumes c: "consts_ok c" and ok: "deal_ok c cell s" and fits: "deal_funds c cell s \<le> U128_MAX"
    and st: "sc_probe_accepted cell" "\<not> sc_closed cell" "\<not> sc_disputed cell" and sub: "is_subscription s"
    and now: "sub_period_start s \<le> now"
    and win: "sc_last_claim_time cell + claim_promote_window c \<le> U64_MAX"
    and due: "sub_week_index s < weeks_due s now \<or> sub_week_index s = sub_weeks s"
  obtains cell' s' where "settle_week_deal c now cell s = Inr (cell', s', ())"
    and "sub_week_index s' = max (weeks_due s now) (sub_week_index s)" and "settled_forward cell s cell' s'"
    and "sc_closed cell' \<longleftrightarrow> sub_week_index s' = sub_weeks s \<and> sc_last_claim_time cell + claim_promote_window c \<le> now"
    and "\<not> sc_closed cell' \<longrightarrow> sc_tokens_final cell' = sc_tokens_final cell"
    and "sc_closed cell' \<longrightarrow> sub_tokens_paid s' = sub_funded_tokens s \<and> sc_tokens_final cell' = sc_tokens_pending cell"
proof -
  have core: "deal_core c cell s" and ag: "machine_agrees cell" using ok by (simp_all add: deal_ok_def)
  obtain cell1 s1 where ch: "charge_elapsed_subscription_weeks cell s now c
      = Inr (cell1, s1, sub_week_index s < weeks_due s now)"
    and core1: "deal_core c cell1 s1" and same1: "same_deal cell s cell1 s1"
    and upd1: "\<exists>x y z. cell1 = cell\<lparr>sc_buyer_locked := x, sc_seller_received := y, sc_fee_accrued := z\<rparr>"
    and wi: "sub_week_index s1 = max (weeks_due s now) (sub_week_index s)" and fwd1: "settled_forward cell s cell1 s1"
    by (rule settle_charges [OF c core st sub now])
  from upd1 obtain x y z where c1: "cell1 = cell\<lparr>sc_buyer_locked := x, sc_seller_received := y, sc_fee_accrued := z\<rparr>"
    by blast
  have weeks: "sub_weeks s1 = sub_weeks s" "sub_funded_tokens s1 = sub_funded_tokens s"
    and sub1: "is_subscription s1" using same1 sub by (simp_all add: same_deal_def is_subscription_def)
  have wle: "sub_week_index s1 \<le> sub_weeks s"
    using core1 weeks by (simp add: deal_core_def shape_ok_def)
  let ?over = "sc_last_claim_time cell + claim_promote_window c \<le> now"
  have open_case: "settle_week_deal c now cell s = Inr (cell1, s1, ())" if "\<not> (sub_week_index s1 = sub_weeks s \<and> ?over)"
    using ch sub due that win wi weeks wle
    by (auto simp: settle_week_deal_def refuse_if_def claim_deadline_reached_def checked_add_def c1)
  show thesis
  proof (cases "sub_week_index s1 = sub_weeks s \<and> ?over")
    case False
    then show thesis using open_case wi fwd1 st by (intro that [of cell1 s1]) (simp_all add: c1)
  next
    case True
    define cell2 where "cell2 = cell1\<lparr>sc_tokens_final := sc_tokens_pending cell\<rparr>"
    have le: "sc_tokens_final cell \<le> sc_tokens_pending cell"
      using core by (simp add: deal_core_def pipeline_times_def)
    have pr: "promote_due cell1 now c = Inr cell2"
      using True win promote_once_eq [of cell1] le by (simp add: promote_due_iff cell2_def c1)
    obtain t where core2: "deal_core c cell2 s1" using promote_due_core [OF core1 pr] by blast
    have "sm_state (sc_machine cell2) = Streaming (div_ceil (sc_tokens_final cell) TICK_SIZE)
        (div_ceil (sc_tokens_pending cell) TICK_SIZE)"
      using machine_streaming [OF ag st] by (simp add: cell2_def c1)
    then obtain m where pm: "promote_machine cell2 = Inr (cell2\<lparr>sc_machine := m\<rparr>)" and m: "sm_price m = cell_price cell"
      by (auto simp: promote_machine_Inr cell2_def c1)
    define cell3 where "cell3 = cell2\<lparr>sc_machine := m\<rparr>"
    have paid: "sub_tokens_paid s1 = sub_funded_tokens s"
      using core1 True weeks sub1 st
      by (auto simp: deal_core_def weeks_ok_def shape_ok_def SUBSCRIPTION_WEEKS_def is_subscription_def c1 mult.commute)
    have fin3: "sc_tokens_final cell3 \<le> sub_funded_tokens s" and acc3: "sc_probe_accepted cell3"
      and price3: "cell_price cell3 = cell_price cell"
      using core st m by (simp_all add: cell3_def cell2_def c1 deal_core_def pipeline_times_def)
    obtain d where d: "delivered_ticks cell3 = Inr d" "d * cell_price cell \<le> U128_MAX"
      using delivered_ok [OF core price3 fin3 acc3] by blast
    have "cell_total cell3 = cell_total cell1" by (simp add: cell3_def cell2_def cell_total_def)
    also have "\<dots> = cell_total cell" using deal_core_total [OF core] deal_core_total [OF core1] same_deal_funds [OF same1]
      by (simp add: deal_funds_def)
    finally have tot: "cell_total cell3 \<le> U128_MAX"
      using fits deal_core_total [OF core] by (simp add: deal_funds_def)
    obtain cell4 r where cl: "close_mock_clean cell3 d c = Inr (cell4, r)"
      using close_mock_clean_ok [OF c _ tot] d(2) price3 by metis
    have run: "settle_week_deal c now cell s = Inr (cell4, s1, ())"
      using ch sub due True win wi weeks pr pm paid fin3 d(1) cl
      by (simp add: settle_week_deal_def refuse_if_def claim_deadline_reached_def checked_add_def c1 cell3_def)
    have "sc_closed cell4" "sc_tokens_final cell4 = sc_tokens_pending cell"
      "sc_tokens_pending cell4 = sc_tokens_pending cell" "sc_last_claim_time cell4 = sc_last_claim_time cell"
      "sc_probe_accepted cell4 = sc_probe_accepted cell" "sc_disputed cell4 = sc_disputed cell"
      using cl by (auto simp: money_iffs drain_def cell3_def cell2_def c1)
    then show thesis
      using run wi fwd1 True le paid by (intro that [of cell4 s1]) (auto simp: settled_forward_def c1)
  qed
qed

section \<open>The keeper's view of a deal in order\<close>

definition view :: "StreamCell \<Rightarrow> DealSubscription \<Rightarrow> u64 \<Rightarrow> KeeperSnapshot" where
  "view cell s t = \<lparr>ks_deal = cell_state cell t, ks_subscription = s\<rparr>"

lemmas view_defs = view_def cell_state_def

definition kept_deal :: "ProtocolConsts \<Rightarrow> StreamCell \<Rightarrow> DealSubscription \<Rightarrow> bool" where
  "kept_deal c cell s \<longleftrightarrow> deal_ok c cell s \<and> is_subscription s \<and> sc_probe_accepted cell \<and> \<not> sc_closed cell
    \<and> \<not> sc_disputed cell"

lemma shape_paid:
  assumes "deal_core c cell s" and "is_subscription s" and "sc_probe_accepted cell" and "\<not> sc_closed cell"
  shows "TICK_SIZE \<le> sub_tokens_paid s"
proof (cases "sub_week_index s")
  case (Suc n)
  have "TICK_SIZE \<le> sub_tokens_per_week s" and paid: "sub_tokens_paid s = sub_week_index s * sub_tokens_per_week s"
    using assms Suc by (auto simp: deal_core_def shape_ok_def weeks_ok_def is_subscription_def)
  then show ?thesis unfolding paid Suc by (simp add: le_add1 trans_le_add1)
qed (use assms in \<open>simp add: deal_core_def weeks_ok_def\<close>)

lemma view_live: "kept_deal c cell s \<Longrightarrow> live_subscription (view cell s t)"
  using shape_paid [of c cell s]
  by (auto simp: kept_deal_def deal_ok_def deal_core_def live_subscription_def view_defs validate_snapshot_def
      validate_accepted_def pipeline_times_def weeks_ok_def shape_ok_def refuse_if_def is_stopped_def Let_def
      SUBSCRIPTION_WEEKS_def MAX_defs is_subscription_def split: if_splits)

lemma view_ended:
  assumes "deal_ok c cell s" and "sc_closed cell"
  shows "is_stopped (ks_deal (view cell s t))" and "validate_snapshot (view cell s t) = Inr ()"
proof -
  have "\<not> sc_disputed cell" using deal_ok_closed_undisputed assms by blast
  moreover have "sc_probe_locked cell = 0"
    using assms by (simp add: deal_ok_def deal_core_def money_ok_def drained_def Let_def)
  ultimately show stopped: "is_stopped (ks_deal (view cell s t))"
    using assms(2) by (simp add: is_stopped_def view_defs)
  show "validate_snapshot (view cell s t) = Inr ()"
    using assms stopped
    by (auto simp: validate_snapshot_def validate_accepted_def refuse_if_def Let_def view_defs deal_ok_def
        deal_core_def pipeline_times_def shape_ok_def)
qed

text \<open>A settlement never looks like a regression to the keeper.\<close>

lemma forward_accepted:
  assumes "settled_forward cell s cell' s'"
  shows "ensure_non_regressing_transition (view cell s t) (view cell' s' t) = Inr ()"
  using assms
  by (simp add: ensure_non_regressing_transition_def regressed_def refuse_if_def settled_forward_def view_defs Let_def)

lemma same_accepted: "ensure_non_regressing_transition v v = Inr ()"
  by (simp add: ensure_non_regressing_transition_def regressed_def refuse_if_def)

section \<open>The mock chain as the keeper's world\<close>

definition mock_write :: "(MockState \<Rightarrow> ChainError + MockState \<times> unit) \<Rightarrow> MockState \<times> u64
    \<Rightarrow> (MockState \<times> u64) \<times> (ChainError + unit)" where
  "mock_write f = (\<lambda>(st, t). case f st of Inl e \<Rightarrow> ((st, t), Inl e) | Inr (st', _) \<Rightarrow> ((st', t), Inr ()))"

definition mock_keeper_world :: "ProtocolConsts \<Rightarrow> token_contract \<Rightarrow> (MockState \<times> u64) KeeperWorld" where
  "mock_keeper_world c tc = \<lparr>
    kw_deal_snapshot = (\<lambda>(st, t). ((st, t), deal_snapshot c st tc)),
    kw_finalize = (\<lambda>(st, t). mock_write (finalize c t tc) (st, t)),
    kw_settle_week = (\<lambda>(st, t). mock_write (settle_week c t tc) (st, t)),
    kw_observe = (\<lambda>_ w. (w, Inr ())),
    kw_now = (\<lambda>(st, t). ((st, t), Inr t)),
    kw_sleep = (\<lambda>d (st, t). (st, t + d)) \<rparr>"

text \<open>A mock state in which the deal of \<open>tc\<close> is the given one.\<close>

definition holds_deal :: "ProtocolConsts \<Rightarrow> u64 \<Rightarrow> MockState \<Rightarrow> token_contract \<Rightarrow> StreamCell \<Rightarrow> DealSubscription
    \<Rightarrow> i64 \<Rightarrow> bool" where
  "holds_deal c t st tc cell s funded \<longleftrightarrow> mock_ok c t st \<and> hget (ms_streams st) tc = Some cell
    \<and> hget (ms_deal_subscriptions st) tc = Some s \<and> hget (ms_match_created_at st) tc = Some funded"

lemma keeper_reads:
  assumes "consts_ok c" and "holds_deal c t st tc cell s funded"
    and "accept_snapshot (view cell s (nat funded)) cursor = Inr cursor'"
  shows "read_accepted_snapshot (mock_keeper_world c tc) ((st, t), cursor)
    = (((st, t), cursor'), Inr (Some (view cell s (nat funded))))"
proof -
  have h: "mock_ok c t st" "hget (ms_streams st) tc = Some cell" "hget (ms_deal_subscriptions st) tc = Some s"
    "hget (ms_match_created_at st) tc = Some funded" using assms(2) by (simp_all add: holds_deal_def)
  obtain snap where "deal_snapshot c st tc = Inr (Some snap)" "snap_subscription snap = s"
    "snap_state snap = cell_state cell (nat funded)"
    using stream_snapshot [OF assms(1) h(1,2)] h(3,4) by (metis option.inject)
  moreover from this have "keeper_snapshot_of snap = view cell s (nat funded)"
    by (simp add: keeper_snapshot_of_def view_def)
  ultimately show ?thesis
    using assms(3)
    by (simp add: read_accepted_snapshot_def mock_keeper_world_def on_world_def accept_read_def bindS_def
        returnS_def map_err_def Let_def)
qed

lemma round_plans:
  assumes "consts_ok c" and "holds_deal c t st tc cell s funded" and "live_subscription v"
    and v: "v = view cell s (nat funded)" and cursor: "cursor = None \<or> cursor = Some v"
    and p: "plan v b t = Inr action"
  shows "keeper_round (mock_keeper_world c tc) b ((st, t), cursor) =
    (case idle_step action v of
       Some step \<Rightarrow> (((st, t), Some v), Inr step)
     | None \<Rightarrow> submit_and_reconcile (mock_keeper_world c tc) b action v ((st, t), Some v))"
proof -
  have ok: "accept_snapshot v cur = Inr (Some v)" if "cur = None \<or> cur = Some v" for cur
    using assms(3) that same_accepted by (auto simp: accept_snapshot_def live_subscription_def)
  note read = keeper_reads [OF assms(1,2), folded v, OF ok]
  have now: "on_world (kw_now (mock_keeper_world c tc)) ((st, t), cursor) = (((st, t), cursor), Inr t)"
    by (simp add: on_world_def mock_keeper_world_def map_err_def)
  show ?thesis
    using read [OF cursor] read [of "Some v"] p
    by (simp add: keeper_round_def keeper_step_def now liftS_def returnS_def bindS_def split: option.split)
qed

lemma write_reconciled:
  assumes c: "consts_ok c" and v: "v = view cell s (nat funded)" and v': "v' = view cell' s' (nat funded)"
    and run: "(case action of PlanFinalize \<Rightarrow> finalize c t tc st | _ \<Rightarrow> settle_week c t tc st) = Inr (st', ())"
    and held: "holds_deal c t st' tc cell' s' funded" and fwd: "settled_forward cell s cell' s'"
    and valid: "validate_snapshot v' = Inr ()"
  shows "submit_and_reconcile (mock_keeper_world c tc) b action v ((st, t), Some v)
    = (((st', t), Some v'), reconcile_write b action v (Some v') (Inr ()))"
proof -
  have "accept_snapshot v' (Some v) = Inr (Some v')"
    using valid forward_accepted [OF fwd] by (simp add: accept_snapshot_def v v')
  note read = keeper_reads [OF c held, folded v', OF this]
  have "attempt_on_world (case action of PlanFinalize \<Rightarrow> kw_finalize (mock_keeper_world c tc)
      | _ \<Rightarrow> kw_settle_week (mock_keeper_world c tc)) ((st, t), Some v) = (((st', t), Some v), Inr (Inr ()))"
    using run by (cases action) (simp_all add: attempt_on_world_def mock_keeper_world_def mock_write_def)
  then show ?thesis
    by (simp add: submit_and_reconcile_def read returnS_def liftS_def bindS_def)
qed

text \<open>The calls are steps of the mock system and keep the deal where it is.\<close>

lemma week_call_held:
  assumes c: "consts_ok c" and reach: "mock_reach sha params c now st" and now: "now \<le> t"
    and held: "holds_deal c t st tc cell s funded"
    and run: "(if fin then finalize_deal c t else settle_week_deal c t) cell s = Inr (cell', s', ())"
  obtains st' where "(if fin then finalize c t tc st else settle_week c t tc st) = Inr (st', ())"
    and "mock_reach sha params c t st'" and "holds_deal c t st' tc cell' s' funded"
proof -
  have h: "mock_ok c t st" "hget (ms_streams st) tc = Some cell" "hget (ms_deal_subscriptions st) tc = Some s"
    "hget (ms_match_created_at st) tc = Some funded" using held by (simp_all add: holds_deal_def)
  let ?st' = "st\<lparr>ms_streams := hinsert tc cell' (ms_streams st),
                 ms_deal_subscriptions := hinsert tc s' (ms_deal_subscriptions st)\<rparr>"
  have "0 < t"
    using mock_ok_stream [OF h(1-3)] by (auto simp: deal_ok_def deal_core_def pipeline_times_def deal_by_def)
  let ?call = "if fin then Finalize t tc else SettleWeek t tc"
  have "with_deal tc st (if fin then finalize_deal c t else settle_week_deal c t) = Inr (?st', ())"
    using run h by (auto simp: with_deal_Inr)
  then have op: "(if fin then finalize c t tc st else settle_week c t tc st) = Inr (?st', ())"
    by (auto simp: finalize_def settle_week_def split: if_splits)
  have "run_call sha params c ?call st = Some ?st'"
    using op by (auto simp: stored_def split: if_splits)
  moreover have "call_ok now t ?call" using now \<open>0 < t\<close> by (simp add: call_ok_def typed_call_def)
  ultimately have reach': "mock_reach sha params c t ?st'" using mock_call [OF reach now] by blast
  have "holds_deal c t ?st' tc cell' s' funded"
    using mock_reach_ok [OF c reach'] h(4) by (simp add: holds_deal_def hget_hinsert)
  then show thesis using that op reach' by blast
qed

section \<open>The keeper ends every subscription\<close>

definition keepable :: "ProtocolConsts \<Rightarrow> ClaimBounds \<Rightarrow> StreamCell \<Rightarrow> DealSubscription \<Rightarrow> bool" where
  "keepable c b cell s \<longleftrightarrow> kept_deal c cell s \<and> deal_funds c cell s \<le> U128_MAX
    \<and> 0 < cb_min_claim_interval b \<and> cb_promote_window b = claim_promote_window c \<and> 0 < claim_promote_window c
    \<and> sc_last_claim_time cell + claim_promote_window c \<le> U64_MAX
    \<and> sub_period_start s + SUB_WEEK_LEN * sub_weeks s \<le> U64_MAX"

definition term_end :: "ProtocolConsts \<Rightarrow> StreamCell \<Rightarrow> DealSubscription \<Rightarrow> nat" where
  "term_end c cell s =
    max (sc_last_claim_time cell + claim_promote_window c) (sub_period_start s + SUB_WEEK_LEN * sub_weeks s)"

definition keeper_rank :: "ProtocolConsts \<Rightarrow> StreamCell \<Rightarrow> DealSubscription \<Rightarrow> nat \<Rightarrow> nat" where
  "keeper_rank c cell s t = (if sc_tokens_final cell < sc_tokens_pending cell then 1 else 0)
    + (sub_weeks s - sub_week_index s) + (term_end c cell s - t)"

lemma keepable_plan:
  assumes "keepable c b cell s"
  shows "live_subscription (view cell s t)" and "bounds_fit b (view cell s t)"
    and "d \<in> keeper_deadlines b (view cell s t) \<Longrightarrow> d \<le> term_end c cell s"
    and "\<exists>d. d \<in> keeper_deadlines b (view cell s t)"
proof -
  have k: "kept_deal c cell s" using assms by (simp add: keepable_def)
  show "live_subscription (view cell s t)" using view_live [OF k] .
  have week: "week_due_at (view cell s t) \<le> sub_period_start s + SUB_WEEK_LEN * sub_weeks s"
    if "weeks_left (view cell s t)"
    using that mult_le_mono2 [of "sub_week_index s + 1" "sub_weeks s" SUB_WEEK_LEN]
    by (simp add: weeks_left_def week_due_at_def view_def)
  show "bounds_fit b (view cell s t)"
    using assms week by (auto simp: keepable_def bounds_fit_def claim_due_at_def view_defs)
  show "d \<in> keeper_deadlines b (view cell s t) \<Longrightarrow> d \<le> term_end c cell s"
    using week assms
    by (auto simp: keeper_deadlines_def term_end_def claim_due_at_def view_defs keepable_def split: if_splits)
  show "\<exists>d. d \<in> keeper_deadlines b (view cell s t)" by (auto simp: keeper_deadlines_def)
qed

lemma forward_keepable:
  assumes "keepable c b cell s" and "settled_forward cell s cell' s'" and "deal_ok c cell' s'"
    and "same_deal cell s cell' s'" and "\<not> sc_closed cell'"
  shows "keepable c b cell' s'" and "term_end c cell' s' = term_end c cell s"
  using assms same_deal_funds [OF assms(4), of c]
  by (auto simp: keepable_def kept_deal_def settled_forward_def term_end_def is_subscription_def)

text \<open>A round with nothing due waits, at least a second and not past the next deadline.\<close>

lemma round_waits:
  assumes c: "consts_ok c" and k: "keepable c b cell s" and held: "holds_deal c t st tc cell s funded"
    and v: "v = view cell s (nat funded)" and cursor: "cursor = None \<or> cursor = Some v"
    and idle: "\<forall>d. d \<in> keeper_deadlines b v \<longrightarrow> t < d"
  obtains delay where "keeper_round (mock_keeper_world c tc) b ((st, t), cursor) = (((st, t), Some v), Inr (StepWait delay))"
    and "0 < delay" and "t + delay \<le> term_end c cell s" and "t < term_end c cell s"
proof -
  have live: "live_subscription v" and fit: "bounds_fit b v" using keepable_plan(1,2) [OF k] v by simp_all
  note e = plan_exact [OF live fit]
  obtain delay where p: "plan v b t = Inr (PlanWait delay)" using e(3) idle by blast
  note d = e(4) [OF p]
  obtain d0 where "d0 \<in> keeper_deadlines b v" using keepable_plan(4) [OF k] v by blast
  then have "t + delay \<le> term_end c cell s" "t < term_end c cell s"
    using keepable_plan(3) [OF k, folded v] d idle by (metis le_trans v, metis le_trans less_le_trans v)
  moreover have "keeper_round (mock_keeper_world c tc) b ((st, t), cursor) = (((st, t), Some v), Inr (StepWait delay))"
    using round_plans [OF c held live v cursor p] by simp
  ultimately show thesis using that d by blast
qed

text \<open>A round with something due makes the call; it either moves the deal on or ends it.\<close>

definition moved_on :: "ProtocolConsts \<Rightarrow> ClaimBounds \<Rightarrow> StreamCell \<Rightarrow> DealSubscription \<Rightarrow> u64
    \<Rightarrow> StreamCell \<Rightarrow> DealSubscription \<Rightarrow> bool" where
  "moved_on c b cell s t cell' s' \<longleftrightarrow> keepable c b cell' s' \<and> term_end c cell' s' = term_end c cell s
    \<and> keeper_rank c cell' s' t < keeper_rank c cell s t \<and> sc_tokens_pending cell' = sc_tokens_pending cell
    \<and> sub_funded_tokens s' = sub_funded_tokens s"

definition ended_well :: "StreamCell \<Rightarrow> DealSubscription \<Rightarrow> StreamCell \<Rightarrow> DealSubscription \<Rightarrow> bool" where
  "ended_well cell s cell' s' \<longleftrightarrow> sc_closed cell' \<and> sub_tokens_paid s' = sub_funded_tokens s
    \<and> sc_tokens_final cell' = sc_tokens_pending cell"

lemma finalize_round:
  assumes c: "consts_ok c" and k: "keepable c b cell s" and held: "holds_deal c t st tc cell s funded"
    and reach: "mock_reach sha params c now st" "now \<le> t"
    and v: "v = view cell s (nat funded)" and cursor: "cursor = None \<or> cursor = Some v"
    and due: "unpromoted v" "claim_due_at b v \<le> t"
  obtains st' cell' where "keeper_round (mock_keeper_world c tc) b ((st, t), cursor)
      = (((st', t), Some (view cell' s (nat funded))), Inr StepProgress)"
    and "mock_reach sha params c t st'" and "holds_deal c t st' tc cell' s funded" and "moved_on c b cell s t cell' s"
proof -
  have live: "live_subscription v" and fit: "bounds_fit b v" using keepable_plan(1,2) [OF k] v by simp_all
  have deal: "deal_ok c cell s" "sc_probe_accepted cell" "\<not> sc_closed cell" "\<not> sc_disputed cell" "is_subscription s"
    using k by (simp_all add: keepable_def kept_deal_def)
  have by_t: "deal_by t cell" using held mock_ok_stream by (auto simp: holds_deal_def)
  have un: "sc_tokens_final cell < sc_tokens_pending cell"
    and win: "sc_last_claim_time cell + claim_promote_window c \<le> U64_MAX"
    and due': "sc_last_claim_time cell + claim_promote_window c \<le> t"
    using due k by (simp_all add: v view_defs unpromoted_def claim_due_at_def keepable_def)
  obtain m where run: "finalize_deal c t cell s = Inr (cell\<lparr>sc_tokens_final := sc_tokens_pending cell, sc_machine := m\<rparr>, s, ())"
    using finalize_due [OF deal un win due'] by blast
  define cell' where "cell' = cell\<lparr>sc_tokens_final := sc_tokens_pending cell, sc_machine := m\<rparr>"
  have kept: "deal_ok c cell' s" "same_deal cell s cell' s"
    using finalize_kept [OF c deal(1) by_t run] by (simp_all add: deal_kept_def cell'_def)
  have fwd: "settled_forward cell s cell' s" using un by (simp add: settled_forward_def cell'_def)
  have open': "\<not> sc_closed cell'" using deal(3) by (simp add: cell'_def)
  note k' = forward_keepable [OF k fwd kept open']
  obtain st' where st': "finalize c t tc st = Inr (st', ())" "mock_reach sha params c t st'"
    "holds_deal c t st' tc cell' s funded"
    using week_call_held [OF c reach held, of True cell' s] run by (auto simp: cell'_def)
  have valid: "validate_snapshot (view cell' s (nat funded)) = Inr ()"
    using keepable_plan(1) [OF k'(1)] by (simp add: live_subscription_def)
  have p: "plan v b t = Inr PlanFinalize" using plan_exact(1) [OF live fit] due by blast
  have "submit_and_reconcile (mock_keeper_world c tc) b PlanFinalize v ((st, t), Some v)
      = (((st', t), Some (view cell' s (nat funded))),
         reconcile_write b PlanFinalize v (Some (view cell' s (nat funded))) (Inr ()))"
    by (rule write_reconciled [OF c v refl _ st'(3) fwd valid]) (simp add: st'(1))
  moreover have "reconcile_write b PlanFinalize v (Some (view cell' s (nat funded))) (Inr ()) = Inr StepProgress"
    using valid open' deal un forward_accepted [OF fwd]
    by (simp add: reconcile_write_def v is_stopped_def view_defs cell'_def)
  ultimately have "keeper_round (mock_keeper_world c tc) b ((st, t), cursor)
      = (((st', t), Some (view cell' s (nat funded))), Inr StepProgress)"
    using round_plans [OF c held live v cursor p] by simp
  moreover have "moved_on c b cell s t cell' s"
    using k' un by (simp add: moved_on_def keeper_rank_def cell'_def)
  ultimately show thesis using that st' by blast
qed

lemma settle_round:
  assumes c: "consts_ok c" and k: "keepable c b cell s" and held: "holds_deal c t st tc cell s funded"
    and reach: "mock_reach sha params c now st" "now \<le> t"
    and v: "v = view cell s (nat funded)" and cursor: "cursor = None \<or> cursor = Some v"
    and p: "plan v b t = Inr (PlanSettleWeek w)"
  obtains st' cell' s' where "mock_reach sha params c t st'" and "holds_deal c t st' tc cell' s' funded"
    and "ended_well cell s cell' s' \<and> keeper_round (mock_keeper_world c tc) b ((st, t), cursor)
          = (((st', t), Some (view cell' s' (nat funded))), Inr (StepTerminal (sc_tokens_final cell')))
      \<or> moved_on c b cell s t cell' s' \<and> keeper_round (mock_keeper_world c tc) b ((st, t), cursor)
          = (((st', t), Some (view cell' s' (nat funded))), Inr StepProgress)"
proof -
  have live: "live_subscription v" and fit: "bounds_fit b v" using keepable_plan(1,2) [OF k] v by simp_all
  have deal: "deal_ok c cell s" "sc_probe_accepted cell" "\<not> sc_closed cell" "\<not> sc_disputed cell" "is_subscription s"
    "deal_funds c cell s \<le> U128_MAX" "sc_last_claim_time cell + claim_promote_window c \<le> U64_MAX"
    using k by (simp_all add: keepable_def kept_deal_def)
  have by_t: "deal_by t cell" using held mock_ok_stream by (auto simp: holds_deal_def)
  have ps: "sub_period_start s \<le> t"
    using deal(1) by_t by (auto simp: deal_ok_def deal_core_def pipeline_times_def deal_by_def)
  have wi: "sub_week_index s \<le> sub_weeks s" using live_facts(2) [OF live] by (simp add: v view_def)
  note e = plan_exact(2) [OF live fit, of t w]
  have w: "if sub_week_index s < sub_weeks s then w = weeks_due s t \<and> sub_week_index s < w
      else w = sub_weeks s \<and> sc_last_claim_time cell + claim_promote_window c \<le> t"
    using p e plan_exact(5) [OF live fit p] k
    by (auto simp: v weeks_left_def view_defs weeks_due_def claim_due_at_def keepable_def split: if_splits)
  then have due: "sub_week_index s < weeks_due s t \<or> sub_week_index s = sub_weeks s" using wi by (auto split: if_splits)
  obtain cell' s' where run: "settle_week_deal c t cell s = Inr (cell', s', ())"
    and wi': "sub_week_index s' = max (weeks_due s t) (sub_week_index s)" and fwd: "settled_forward cell s cell' s'"
    and closed: "sc_closed cell' \<longleftrightarrow> sub_week_index s' = sub_weeks s \<and> sc_last_claim_time cell + claim_promote_window c \<le> t"
    and opened: "\<not> sc_closed cell' \<longrightarrow> sc_tokens_final cell' = sc_tokens_final cell"
    and paid: "sc_closed cell' \<longrightarrow> sub_tokens_paid s' = sub_funded_tokens s \<and> sc_tokens_final cell' = sc_tokens_pending cell"
    by (rule settle_week_due [OF c deal(1,6,2-5) ps deal(7) due])
  have kept: "deal_ok c cell' s'" "same_deal cell s cell' s'"
    using settle_week_kept [OF c deal(1) by_t run] by (simp_all add: deal_kept_def)
  obtain st' where st': "settle_week c t tc st = Inr (st', ())" "mock_reach sha params c t st'"
    "holds_deal c t st' tc cell' s' funded"
    using week_call_held [OF c reach held, of False cell' s'] run by auto
  let ?v' = "view cell' s' (nat funded)"
  have valid: "validate_snapshot ?v' = Inr ()"
  proof (cases "sc_closed cell'")
    case False
    then show ?thesis
      using keepable_plan(1) [OF forward_keepable(1) [OF k fwd kept]] by (simp add: live_subscription_def)
  qed (rule view_ended(2) [OF kept(1)])
  have "submit_and_reconcile (mock_keeper_world c tc) b (PlanSettleWeek w) v ((st, t), Some v)
      = (((st', t), Some ?v'), reconcile_write b (PlanSettleWeek w) v (Some ?v') (Inr ()))"
    by (rule write_reconciled [OF c v refl _ st'(3) fwd valid]) (simp add: st'(1))
  then have step: "keeper_round (mock_keeper_world c tc) b ((st, t), cursor)
      = (((st', t), Some ?v'), reconcile_write b (PlanSettleWeek w) v (Some ?v') (Inr ()))"
    using round_plans [OF c held live v cursor p] by simp
  show thesis
  proof (cases "sc_closed cell'")
    case True
    then have "reconcile_write b (PlanSettleWeek w) v (Some ?v') (Inr ()) = Inr (StepTerminal (sc_tokens_final cell'))"
      using valid view_ended(1) [OF kept(1) True] by (simp add: reconcile_write_def view_defs)
    then show thesis using that [OF st'(2,3)] step paid True by (simp add: ended_well_def)
  next
    case False
    have "weeks_due s t \<le> sub_weeks s" by (simp add: weeks_due_def)
    then have "sub_week_index s < sub_weeks s" using closed False w wi wi' by (auto simp: max_def split: if_splits)
    then have less: "sub_week_index s < sub_weeks s" "sub_week_index s' = w" "sub_week_index s < w"
      using w wi' by auto
    then have "reconcile_write b (PlanSettleWeek w) v (Some ?v') (Inr ()) = Inr StepProgress"
      using valid False deal fwd forward_accepted [OF fwd]
      by (simp add: reconcile_write_def v is_stopped_def view_defs settled_forward_def)
    moreover have "moved_on c b cell s t cell' s'"
      using forward_keepable [OF k fwd kept False] less opened False fwd
      by (simp add: moved_on_def keeper_rank_def settled_forward_def)
    ultimately show thesis using that [OF st'(2,3)] step by simp
  qed
qed

text \<open>The whole run: by induction on what is left to do.\<close>

lemma keeper_loop_ends:
  assumes c: "consts_ok c"
  shows "keepable c b cell s \<Longrightarrow> holds_deal c t st tc cell s funded \<Longrightarrow> mock_reach sha params c now st \<Longrightarrow> now \<le> t
    \<Longrightarrow> cursor = None \<or> cursor = Some (view cell s (nat funded))
    \<Longrightarrow> \<exists>st' t' cell' s' now' cur. keeper_loop (mock_keeper_world c tc) b ((st, t), cursor)
          = Some (((st', t'), cur), Inr (sc_tokens_final cell'))
        \<and> mock_reach sha params c now' st' \<and> now' \<le> t' \<and> t' \<le> max t (term_end c cell s)
        \<and> holds_deal c t' st' tc cell' s' funded \<and> ended_well cell s cell' s'"
proof (induction "keeper_rank c cell s t" arbitrary: cell s t st now cursor rule: less_induct)
  case less
  let ?v = "view cell s (nat funded)" and ?W = "mock_keeper_world c tc"
  note live = keepable_plan(1) [OF less.prems(1)] and fit = keepable_plan(2) [OF less.prems(1)]
  have loop: "keeper_loop ?W b ((st, t), cursor) = (case step of
      StepNotSubscription \<Rightarrow> Some (s', Inl OrdinaryDealKept) | StepTerminal n \<Rightarrow> Some (s', Inr n)
    | StepProgress \<Rightarrow> keeper_loop ?W b s' | StepWait delay \<Rightarrow> keeper_loop ?W b (apfst (kw_sleep ?W delay) s'))"
    if "keeper_round ?W b ((st, t), cursor) = (s', Inr step)" for s' step
    by (subst keeper_loop.simps) (simp add: that)
  have go_on: ?case if k': "moved_on c b cell s t cell1 s1" and st1: "holds_deal c t st1 tc cell1 s1 funded"
    "mock_reach sha params c t st1"
    and round: "keeper_round ?W b ((st, t), cursor) = (((st1, t), Some (view cell1 s1 (nat funded))), Inr StepProgress)"
    for cell1 s1 st1
  proof -
    have m: "keeper_rank c cell1 s1 t < keeper_rank c cell s t" "keepable c b cell1 s1"
      "term_end c cell1 s1 = term_end c cell s" using k' by (simp_all add: moved_on_def)
    obtain st' t' cell' s' now' cur where
      "keeper_loop ?W b ((st1, t), Some (view cell1 s1 (nat funded))) = Some (((st', t'), cur), Inr (sc_tokens_final cell'))"
      and "mock_reach sha params c now' st'" "now' \<le> t'" "t' \<le> max t (term_end c cell1 s1)"
        "holds_deal c t' st' tc cell' s' funded" and "ended_well cell1 s1 cell' s'"
      using less.hyps [OF m(1,2) st1(1) st1(2) le_refl disjI2 [OF refl]] by blast
    moreover from \<open>ended_well cell1 s1 cell' s'\<close> have "ended_well cell s cell' s'"
      using k' by (simp add: ended_well_def moved_on_def)
    ultimately show ?thesis unfolding m(3) loop [OF round] KeeperStep.case by blast
  qed
  consider (wait) "\<forall>d. d \<in> keeper_deadlines b ?v \<longrightarrow> t < d" | (fin) "unpromoted ?v" "claim_due_at b ?v \<le> t"
    | (week) w where "plan ?v b t = Inr (PlanSettleWeek w)"
    using plan_cases [OF live fit, of "nat funded" t] plan_exact(3) [OF live fit, of "nat funded" t]
    by (auto split: if_splits)
  then show ?case
  proof cases
    case wait
    obtain delay where round: "keeper_round ?W b ((st, t), cursor) = (((st, t), Some ?v), Inr (StepWait delay))"
      and d: "0 < delay" "t + delay \<le> term_end c cell s" "t < term_end c cell s"
      by (rule round_waits [OF c less.prems(1,2) refl less.prems(5) wait])
    have rank: "keeper_rank c cell s (t + delay) < keeper_rank c cell s t" using d by (simp add: keeper_rank_def)
    have held: "holds_deal c (t + delay) st tc cell s funded"
      using less.prems(2) mock_ok_mono [of c t st "t + delay"] by (simp add: holds_deal_def)
    have "keeper_loop ?W b ((st, t), cursor) = keeper_loop ?W b ((st, t + delay), Some ?v)"
      unfolding loop [OF round] by (simp add: mock_keeper_world_def)
    moreover have "max (t + delay) (term_end c cell s) = max t (term_end c cell s)" using d by simp
    moreover have "now \<le> t + delay" using less.prems(4) by simp
    ultimately show ?thesis using less.hyps [OF rank less.prems(1) held less.prems(3) _ disjI2 [OF refl]] by auto
  next
    case fin
    show ?thesis
      by (rule finalize_round [OF c less.prems(1,2) less.prems(3,4) refl less.prems(5) fin]) (rule go_on)
  next
    case (week w)
    obtain st1 cell1 s1 where st1: "mock_reach sha params c t st1" "holds_deal c t st1 tc cell1 s1 funded"
      and out: "ended_well cell s cell1 s1 \<and> keeper_round ?W b ((st, t), cursor)
          = (((st1, t), Some (view cell1 s1 (nat funded))), Inr (StepTerminal (sc_tokens_final cell1)))
        \<or> moved_on c b cell s t cell1 s1 \<and> keeper_round ?W b ((st, t), cursor)
          = (((st1, t), Some (view cell1 s1 (nat funded))), Inr StepProgress)"
      by (rule settle_round [OF c less.prems(1,2) less.prems(3,4) refl less.prems(5) week])
    from out show ?thesis
    proof
      assume over: "ended_well cell s cell1 s1 \<and> keeper_round ?W b ((st, t), cursor)
          = (((st1, t), Some (view cell1 s1 (nat funded))), Inr (StepTerminal (sc_tokens_final cell1)))"
      then have "keeper_loop ?W b ((st, t), cursor)
          = Some (((st1, t), Some (view cell1 s1 (nat funded))), Inr (sc_tokens_final cell1))"
        using loop by simp
      then show ?thesis using st1 over le_refl max.cobounded1 by blast
    qed (use go_on st1 in blast)
  qed
qed

text \<open>
  C14: The keeper alone takes every subscription to its end. On a reachable mock state with an accepted,
  open, undisputed subscription whose money fits and whose deadlines fit the clock, the keeper loop ends
  without an error; by the end of the term (or the last claim window) the deal is closed, the whole funded
  volume is paid, the last claim is promoted, the answer is the final token count, and the state it leaves
  is a reachable state of the chain.
\<close>

theorem keeper_settles_subscription:
  assumes "consts_ok c" and "mock_reach sha params c now st" and "now \<le> t"
    and "hget (ms_streams st) tc = Some cell" and "hget (ms_deal_subscriptions st) tc = Some s"
    and "is_subscription s" and "sc_probe_accepted cell" and "\<not> sc_closed cell" and "\<not> sc_disputed cell"
    and "deal_funds c cell s \<le> U128_MAX"
    and "0 < cb_min_claim_interval b" and "cb_promote_window b = claim_promote_window c" and "0 < claim_promote_window c"
    and "term_end c cell s \<le> U64_MAX"
  shows "\<exists>st' t' now' cell' s'. drive_subscription_keeper (mock_keeper_world c tc) b (st, t)
        = Some ((st', t'), Inr (sc_tokens_final cell'))
    \<and> mock_reach sha params c now' st' \<and> now' \<le> t' \<and> t' \<le> max t (term_end c cell s)
    \<and> hget (ms_streams st') tc = Some cell' \<and> hget (ms_deal_subscriptions st') tc = Some s'
    \<and> sc_closed cell' \<and> sub_tokens_paid s' = sub_funded_tokens s
    \<and> sc_tokens_final cell' = sc_tokens_pending cell"
proof -
  have ok: "mock_ok c t st" using mock_ok_mono [OF mock_reach_ok [OF assms(1,2)] assms(3)] .
  then obtain funded where f: "hget (ms_match_created_at st) tc = Some funded"
    using stream_snapshot [OF assms(1) _ assms(4)] by blast
  have held: "holds_deal c t st tc cell s funded" using ok assms(4,5) f by (simp add: holds_deal_def)
  have k: "keepable c b cell s"
    using reach_deal(1) [OF assms(1,2,4,5)] assms(6-14) by (simp add: keepable_def kept_deal_def term_end_def)
  show ?thesis
    using keeper_loop_ends [OF assms(1) k held assms(2,3), of None]
    by (fastforce simp: drive_subscription_keeper_def holds_deal_def ended_well_def)
qed

theorem keeper_settles_subscription_witness:
  "\<exists>st' t' cell'. drive_subscription_keeper (mock_keeper_world canonical ''a'') claim_bounds_canonical
        (weekly_running weekly_accepted (weekly_shape 1000000 300), 300)
      = Some ((st', t'), Inr (sc_tokens_final cell'))
    \<and> t' \<le> 2419500 \<and> hget (ms_streams st') ''a'' = Some cell' \<and> sc_closed cell' \<and> sc_tokens_final cell' = 1000000"
proof -
  have b: "0 < cb_min_claim_interval claim_bounds_canonical"
    "cb_promote_window claim_bounds_canonical = claim_promote_window canonical" "0 < claim_promote_window canonical"
    by (simp_all add: claim_bounds_canonical_def canonical_def)
  have ends: "term_end canonical weekly_accepted (weekly_shape 1000000 300) = 2419500"
    "sc_tokens_pending weekly_accepted = 1000000"
    by (simp_all add: term_end_def SUB_WEEK_LEN_def weekly_defs)
  have "term_end canonical weekly_accepted (weekly_shape 1000000 300) \<le> U64_MAX" unfolding ends(1) by (simp add: MAX_defs)
  from keeper_settles_subscription [OF sample_consts weekly_reach le_refl weekly_deal(1-6) weekly_money b this]
  show ?thesis unfolding ends by fastforce
qed

end
