(* ===== verification/Advance.thy ===== *)
theory Advance
  imports Effects MarketTypes Params
begin

text \<open>
  The claim driver of the seller, \<open>src/crates/dexdo/src/seller/advance.rs\<close>: accept the probe once
  something was delivered, then claim the delivered tokens in steps the chain accepts, then finalize the
  last claim. The chain, the observer, the two atomics the gateway publishes and the sleeps are calls on
  one world (record \<open>AdvanceWorld\<close>). Both loops may wait for ever, so they are partial functions. Log
  lines are left out. The theorem is about every claim the driver submits, whatever the world does.
\<close>

definition SELLER_TERMINAL_RECEIPT_POLL_INTERVAL :: secs where "SELLER_TERMINAL_RECEIPT_POLL_INTERVAL = 3"

record AdvanceWindows =
  aw_claim_interval :: secs
  aw_seconds_per_tick :: secs
  aw_promote :: secs
  aw_probe :: secs

definition windows_from_bounds :: "ClaimBounds \<Rightarrow> AdvanceWindows" where
  "windows_from_bounds bounds =
    \<lparr> aw_claim_interval = cb_min_claim_interval bounds, aw_seconds_per_tick = cb_min_seconds_per_tick bounds,
      aw_promote = cb_promote_window bounds, aw_probe = cb_probe_window bounds \<rparr>"

definition windows_canonical :: AdvanceWindows where
  "windows_canonical = windows_from_bounds claim_bounds_canonical"

definition windows_max_claim_delta :: "AdvanceWindows \<Rightarrow> secs \<Rightarrow> u128" where
  "windows_max_claim_delta w elapsed = claim_delta_limit elapsed (aw_seconds_per_tick w)"

record ClaimDeliveryMeasurement =
  cm_deal_delivery_count :: u64
  cm_delivery_at_probe :: "u128 option"
  cm_cumulative_tokens :: "u128 option"

datatype advance_error =
    AdvanceChain ChainError | TickSizeZero | NoClaimState | NotActionable | PendingBelowTick | FinalAbovePending
  | HighWaterAboveBudget | MalformedPreProbe | ProbeStayedOpen | InvalidResync u128 u128 u128

text \<open>
  \<open>wd_exhausted\<close> is \<open>exhausted_transient_read\<close>, a test on the text of a chain error; \<open>wd_closed\<close> is
  \<open>deal_closed\<close>, false if the snapshot cannot be read; \<open>wd_instant\<close> is the monotonic clock.
\<close>

record 'w AdvanceWorld =
  wd_deal_state :: "('w, ChainError, DealChainState option) call"
  wd_closed :: "'w \<Rightarrow> 'w \<times> bool"
  wd_accept_probe :: "('w, ChainError, unit) call"
  wd_claim_tokens :: "u128 \<Rightarrow> ('w, ChainError, unit) call"
  wd_finalize :: "('w, ChainError, unit) call"
  wd_observe :: "DealChainState \<Rightarrow> ('w, ChainError, unit) call"
  wd_observe_terminal :: "('w, ChainError, unit) call"
  wd_observe_unavailable :: "ChainError \<Rightarrow> 'w \<Rightarrow> 'w"
  wd_observe_probe_decision :: "ClaimDeliveryMeasurement \<Rightarrow> 'w \<Rightarrow> 'w"
  wd_observe_claim_submitted :: "ClaimDeliveryMeasurement \<Rightarrow> 'w \<Rightarrow> 'w"
  wd_exhausted :: "ChainError \<Rightarrow> bool"
  wd_delivered :: "'w \<Rightarrow> 'w \<times> u64"
  wd_delivery_done :: "'w \<Rightarrow> 'w \<times> bool"
  wd_instant :: "'w \<Rightarrow> 'w \<times> secs"
  wd_sleep :: "secs \<Rightarrow> 'w \<Rightarrow> 'w"

text \<open>A load of the world, and an update of it, as runs.\<close>

definition load :: "('w \<Rightarrow> 'w \<times> 'a) \<Rightarrow> ('w, advance_error, 'a) run" where
  "load f w = (case f w of (w', x) \<Rightarrow> Some (w', Inr x))"

definition act :: "('w \<Rightarrow> 'w) \<Rightarrow> ('w, advance_error, unit) run" where
  "act f w = Some (f w, Inr ())"

definition await :: "('w, ChainError, 'a) call \<Rightarrow> ('w, advance_error, 'a) run" where
  "await m = once (mapErrS AdvanceChain m)"

definition attempt :: "('w, ChainError, 'a) call \<Rightarrow> ('w, advance_error, ChainError + 'a) run" where
  "attempt m = once (tryS m)"

section \<open>Reading the deal\<close>

definition deal_closed_observed :: "'w AdvanceWorld \<Rightarrow> ('w, advance_error, bool) run" where
  "deal_closed_observed world =
    bindO (load (wd_closed world)) (\<lambda>closed.
    if closed then bindO (await (wd_observe_terminal world)) (\<lambda>_. once (returnS closed))
    else once (returnS closed))"

definition required_claim_state :: "'w AdvanceWorld \<Rightarrow> ('w, advance_error, DealChainState) run" where
  "required_claim_state world =
    bindO (attempt (wd_deal_state world)) (\<lambda>read.
    case read of
      Inl error \<Rightarrow>
        bindO (act (if wd_exhausted world error then wd_observe_unavailable world error else (\<lambda>w. w))) (\<lambda>_.
        once (failS (AdvanceChain error)))
    | Inr None \<Rightarrow> once (failS NoClaimState)
    | Inr (Some state) \<Rightarrow> bindO (await (wd_observe world state)) (\<lambda>_. once (returnS state)))"

definition validated_claim_high_water :: "DealChainState \<Rightarrow> u128 \<Rightarrow> advance_error + u128" where
  "validated_claim_high_water state token_budget =
    refuse_if (\<not> dcs_opened state \<or> dcs_disputed state \<or> \<not> dcs_probe_accepted state) NotActionable
    (refuse_if (dcs_tokens_pending state < TICK_SIZE) PendingBelowTick
    (refuse_if (dcs_tokens_pending state < dcs_tokens_final state) FinalAbovePending
    (refuse_if (token_budget < dcs_tokens_pending state) HighWaterAboveBudget
    (Inr (dcs_tokens_pending state)))))"

definition delivery_target_from_probe_anchor :: "u128 \<Rightarrow> u128 \<Rightarrow> u64 \<Rightarrow> u128 \<Rightarrow> u128" where
  "delivery_target_from_probe_anchor probe_high_water delivery_at_probe delivered token_budget =
    min (saturating_add U128_MAX probe_high_water (saturating_sub delivered delivery_at_probe)) token_budget"

partial_function (option) wait_until_closed ::
  "'w AdvanceWorld \<Rightarrow> secs \<Rightarrow> 'w \<Rightarrow> ('w \<times> (advance_error + bool)) option" where
  "wait_until_closed world deadline w =
    (case wd_instant world w of (w1, now) \<Rightarrow>
     if deadline \<le> now then Some (w1, Inr False)
     else case wd_closed world
                 (wd_sleep world (min SELLER_TERMINAL_RECEIPT_POLL_INTERVAL (deadline - now)) w1) of
            (w2, closed) \<Rightarrow> if closed then Some (w2, Inr True) else wait_until_closed world deadline w2)"

definition wait_claim_or_closed :: "'w AdvanceWorld \<Rightarrow> secs \<Rightarrow> ('w, advance_error, bool) run" where
  "wait_claim_or_closed world window =
    bindO (load (wd_instant world)) (\<lambda>now. wait_until_closed world (now + window))"

section \<open>The probe\<close>

text \<open>One turn of the wait for the first delivered token: \<open>Some True\<close> is delivered, \<open>Some False\<close> is
  nothing to come, \<open>None\<close> is another turn.\<close>

definition first_token_turn :: "'w AdvanceWorld \<Rightarrow> AdvanceWindows \<Rightarrow> ('w, advance_error, bool option) run" where
  "first_token_turn world windows =
    bindO (load (wd_delivered world)) (\<lambda>delivered_tokens.
    if 0 < delivered_tokens then once (returnS (Some True))
    else bindO (load (wd_delivery_done world)) (\<lambda>finished.
    if finished then bindO (load (wd_delivered world)) (\<lambda>again. once (returnS (Some (0 < again))))
    else bindO (wait_claim_or_closed world (aw_claim_interval windows)) (\<lambda>closed.
    once (returnS (if closed then Some False else None)))))"

partial_function (option) await_first_token ::
  "'w AdvanceWorld \<Rightarrow> AdvanceWindows \<Rightarrow> 'w \<Rightarrow> ('w \<times> (advance_error + bool)) option" where
  "await_first_token world windows w =
    (case first_token_turn world windows w of
       None \<Rightarrow> None
     | Some (w', Inl e) \<Rightarrow> Some (w', Inl e)
     | Some (w', Inr (Some delivered)) \<Rightarrow> Some (w', Inr delivered)
     | Some (w', Inr None) \<Rightarrow> await_first_token world windows w')"

text \<open>
  The probe decision: \<open>None\<close> is an early end of the driver with nothing claimed, \<open>Some (at, measured)\<close>
  is the delivery the probe tick absorbs.
\<close>

definition take_probe :: "'w AdvanceWorld \<Rightarrow> ('w, advance_error, (u128 \<times> u128 option) option) run" where
  "take_probe world =
    bindO (load (wd_delivered world)) (\<lambda>deal_delivery_count.
    let delivery_at_probe = min deal_delivery_count TICK_SIZE in
    bindO (act (wd_observe_probe_decision world \<lparr>cm_deal_delivery_count = deal_delivery_count,
      cm_delivery_at_probe = Some delivery_at_probe, cm_cumulative_tokens = None\<rparr>)) (\<lambda>_.
    bindO (attempt (wd_accept_probe world)) (\<lambda>accepted.
    bindO (required_claim_state world) (\<lambda>after_accept.
    if dcs_probe_accepted after_accept
    then once (returnS (Some (delivery_at_probe, Some delivery_at_probe)))
    else bindO (deal_closed_observed world) (\<lambda>closed.
         if closed then once (returnS None)
         else once (failS (case accepted of Inl e \<Rightarrow> AdvanceChain e | Inr _ \<Rightarrow> ProbeStayedOpen)))))))"

definition probe_phase ::
  "'w AdvanceWorld \<Rightarrow> AdvanceWindows \<Rightarrow> DealChainState \<Rightarrow> ('w, advance_error, (u128 \<times> u128 option) option) run" where
  "probe_phase world windows before_probe =
    (if dcs_probe_accepted before_probe then once (returnS (Some (0, None)))
     else if \<not> dcs_opened before_probe \<or> dcs_disputed before_probe \<or> dcs_tokens_pending before_probe \<noteq> 0
     then once (failS MalformedPreProbe)
     else bindO (act (wd_sleep world (aw_probe windows))) (\<lambda>_.
          bindO (deal_closed_observed world) (\<lambda>closed.
          if closed then once (returnS None)
          else bindO (await_first_token world windows) (\<lambda>delivered.
          if \<not> delivered then once (returnS None) else take_probe world))))"

section \<open>The claim loop\<close>

text \<open>What the loop carries: the cursor and whether a claim is left to finalize.\<close>

datatype claim_turn = Leave u128 bool | Again u128 bool

record claim_frame =
  cf_base :: u128
  cf_at_probe :: u128
  cf_measured :: "u128 option"
  cf_budget :: u128

definition target_of :: "claim_frame \<Rightarrow> u64 \<Rightarrow> u128" where
  "target_of f delivered =
    delivery_target_from_probe_anchor (cf_base f) (cf_at_probe f) delivered (cf_budget f)"

definition claim_allowance :: "AdvanceWindows \<Rightarrow> u128" where
  "claim_allowance windows =
    (if aw_claim_interval windows = 0 then MAX_CLAIM_DELTA
     else windows_max_claim_delta windows (aw_claim_interval windows))"

definition settle_claim ::
  "'w AdvanceWorld \<Rightarrow> claim_frame \<Rightarrow> u128 \<Rightarrow> u128 \<Rightarrow> u128 \<Rightarrow> bool \<Rightarrow> ChainError + unit
    \<Rightarrow> ('w, advance_error, claim_turn) run" where
  "settle_claim world f target next claimed needs_finalize claim_result =
    (case claim_result of
       Inr _ \<Rightarrow> once (returnS (Again next True))
     | Inl (ClaimHighWaterResync attempted on_chain) \<Rightarrow>
         if attempted \<noteq> next \<or> on_chain \<le> next \<or> target < on_chain \<or> cf_budget f < on_chain
         then once (failS (InvalidResync attempted next on_chain))
         else once (returnS (Again on_chain True))
     | Inl (Limit _) \<Rightarrow> once (returnS (Leave claimed needs_finalize))
     | Inl e \<Rightarrow>
         bindO (deal_closed_observed world) (\<lambda>closed.
         if closed then once (returnS (Leave claimed needs_finalize)) else once (failS (AdvanceChain e))))"

definition submit_claim ::
  "'w AdvanceWorld \<Rightarrow> AdvanceWindows \<Rightarrow> claim_frame \<Rightarrow> u128 \<Rightarrow> bool \<Rightarrow> ('w, advance_error, claim_turn) run" where
  "submit_claim world windows f claimed needs_finalize =
    bindO (act (wd_sleep world (aw_claim_interval windows))) (\<lambda>_.
    bindO (load (wd_delivered world)) (\<lambda>deal_delivery_count.
    let target = target_of f deal_delivery_count;
        next = min target (saturating_add U128_MAX claimed (claim_allowance windows)) in
    if next \<le> claimed then once (returnS (Again claimed needs_finalize))
    else bindO (attempt (wd_claim_tokens world next)) (\<lambda>claim_result.
         bindO (act (wd_observe_claim_submitted world \<lparr>cm_deal_delivery_count = deal_delivery_count,
           cm_delivery_at_probe = cf_measured f, cm_cumulative_tokens = Some next\<rparr>)) (\<lambda>_.
         settle_claim world f target next claimed needs_finalize claim_result))))"

definition claim_turn_of ::
  "'w AdvanceWorld \<Rightarrow> AdvanceWindows \<Rightarrow> claim_frame \<Rightarrow> u128 \<Rightarrow> bool \<Rightarrow> ('w, advance_error, claim_turn) run" where
  "claim_turn_of world windows f claimed needs_finalize =
    (if cf_budget f \<le> claimed then once (returnS (Leave claimed needs_finalize))
     else bindO (deal_closed_observed world) (\<lambda>closed.
     if closed then once (returnS (Leave claimed needs_finalize))
     else bindO (load (wd_delivered world)) (\<lambda>deal_delivery_count.
     if target_of f deal_delivery_count \<le> claimed then
       bindO (load (wd_delivery_done world)) (\<lambda>finished.
       if finished then
         bindO (load (wd_delivered world)) (\<lambda>refreshed_count.
         if target_of f refreshed_count \<le> claimed then once (returnS (Leave claimed needs_finalize))
         else submit_claim world windows f claimed needs_finalize)
       else
         bindO (wait_claim_or_closed world (aw_claim_interval windows)) (\<lambda>closed.
         once (returnS (if closed then Leave claimed needs_finalize else Again claimed needs_finalize))))
     else submit_claim world windows f claimed needs_finalize)))"

partial_function (option) claim_loop ::
  "'w AdvanceWorld \<Rightarrow> AdvanceWindows \<Rightarrow> claim_frame \<Rightarrow> u128 \<Rightarrow> bool \<Rightarrow> 'w
    \<Rightarrow> ('w \<times> (advance_error + u128 \<times> bool)) option" where
  "claim_loop world windows f claimed needs_finalize w =
    (case claim_turn_of world windows f claimed needs_finalize w of
       None \<Rightarrow> None
     | Some (w', Inl e) \<Rightarrow> Some (w', Inl e)
     | Some (w', Inr (Leave claimed' needs')) \<Rightarrow> Some (w', Inr (claimed', needs'))
     | Some (w', Inr (Again claimed' needs')) \<Rightarrow> claim_loop world windows f claimed' needs' w')"

section \<open>The driver\<close>

definition finalize_phase ::
  "'w AdvanceWorld \<Rightarrow> AdvanceWindows \<Rightarrow> bool \<Rightarrow> u128 \<Rightarrow> bool \<Rightarrow> ('w, advance_error, u128) run" where
  "finalize_phase world windows finalize_last_claim claimed needs_finalize =
    (if needs_finalize \<and> finalize_last_claim then
       bindO (act (wd_sleep world (aw_promote windows))) (\<lambda>_.
       bindO (attempt (wd_finalize world)) (\<lambda>finalized.
       case finalized of
         Inr _ \<Rightarrow> once (returnS claimed)
       | Inl error \<Rightarrow>
           bindO (deal_closed_observed world) (\<lambda>closed.
           if closed then once (returnS claimed) else once (failS (AdvanceChain error)))))
     else once (returnS claimed))"

definition claim_phase ::
  "'w AdvanceWorld \<Rightarrow> AdvanceWindows \<Rightarrow> u128 \<Rightarrow> bool \<Rightarrow> u128 \<times> u128 option \<Rightarrow> ('w, advance_error, u128) run" where
  "claim_phase world windows token_budget finalize_last_claim probe =
    bindO (required_claim_state world) (\<lambda>claim_state.
    bindO (once (liftS (validated_claim_high_water claim_state token_budget))) (\<lambda>claimed.
    bindO (claim_loop world windows
      \<lparr>cf_base = claimed, cf_at_probe = fst probe, cf_measured = snd probe, cf_budget = token_budget\<rparr> claimed
      (dcs_tokens_final claim_state < dcs_tokens_pending claim_state)) (\<lambda>(claimed', needs_finalize).
    finalize_phase world windows finalize_last_claim claimed' needs_finalize)))"

definition drive_advance ::
  "'w AdvanceWorld \<Rightarrow> AdvanceWindows \<Rightarrow> u128 \<Rightarrow> u64 \<Rightarrow> bool \<Rightarrow> ('w, advance_error, u128) run" where
  "drive_advance world windows tick_budget tsize finalize_last_claim =
    (if tsize = 0 then once (failS TickSizeZero)
     else
       (let token_budget = saturating_mul U128_MAX tick_budget tsize in
        bindO (deal_closed_observed world) (\<lambda>closed.
        if closed then once (returnS 0)
        else bindO (required_claim_state world) (\<lambda>before_probe.
             bindO (probe_phase world windows before_probe) (\<lambda>probe.
             case probe of
               None \<Rightarrow> once (returnS 0)
             | Some anchor \<Rightarrow> claim_phase world windows token_budget finalize_last_claim anchor)))))"

section \<open>Every claim the driver submits\<close>

text \<open>
  The world with a log, which the driver cannot see: \<open>lg_load\<close> is the delivery count the driver loaded last. The
  book has the claims it submitted, each with the count loaded before it and the answer of the chain; the states
  it read from the chain; and the count loaded before the probe was accepted, if the driver accepted it.
\<close>

type_synonym claim_entry = "u64 \<times> u128 \<times> (ChainError + unit)"

record claim_book =
  bk_claims :: "claim_entry list"
  bk_reads :: "DealChainState list"
  bk_accept :: "u64 option"

record claim_log =
  lg_load :: u64
  lg_book :: claim_book

definition empty_log :: claim_log where
  "empty_log = \<lparr> lg_load = 0, lg_book = \<lparr> bk_claims = [], bk_reads = [], bk_accept = None \<rparr> \<rparr>"

definition on_first :: "('w \<Rightarrow> 'w \<times> 'a) \<Rightarrow> 'w \<times> claim_log \<Rightarrow> ('w \<times> claim_log) \<times> 'a" where
  "on_first f = (\<lambda>(w, l). case f w of (w', x) \<Rightarrow> ((w', l), x))"

definition note_read :: "ChainError + DealChainState option \<Rightarrow> claim_book \<Rightarrow> claim_book" where
  "note_read x b = (case x of Inr (Some state) \<Rightarrow> b\<lparr>bk_reads := bk_reads b @ [state]\<rparr> | _ \<Rightarrow> b)"

definition logged :: "'w AdvanceWorld \<Rightarrow> ('w \<times> claim_log) AdvanceWorld" where
  "logged W = \<lparr>
    wd_deal_state = (\<lambda>(w, l). case wd_deal_state W w of (w', x) \<Rightarrow> ((w', l\<lparr>lg_book := note_read x (lg_book l)\<rparr>), x)),
    wd_closed = on_first (wd_closed W),
    wd_accept_probe = (\<lambda>(w, l). on_first (wd_accept_probe W) (w, l\<lparr>lg_book := (lg_book l)\<lparr>bk_accept := Some (lg_load l)\<rparr>\<rparr>)),
    wd_claim_tokens = (\<lambda>n (w, l). case wd_claim_tokens W n w of (w', x) \<Rightarrow>
      ((w', l\<lparr>lg_book := (lg_book l)\<lparr>bk_claims := bk_claims (lg_book l) @ [(lg_load l, n, x)]\<rparr>\<rparr>), x)),
    wd_finalize = on_first (wd_finalize W), wd_observe = (\<lambda>d. on_first (wd_observe W d)),
    wd_observe_terminal = on_first (wd_observe_terminal W),
    wd_observe_unavailable = (\<lambda>e. apfst (wd_observe_unavailable W e)),
    wd_observe_probe_decision = (\<lambda>m. apfst (wd_observe_probe_decision W m)),
    wd_observe_claim_submitted = (\<lambda>m. apfst (wd_observe_claim_submitted W m)),
    wd_exhausted = wd_exhausted W,
    wd_delivered = (\<lambda>(w, l). case wd_delivered W w of (w', n) \<Rightarrow> ((w', l\<lparr>lg_load := n\<rparr>), n)),
    wd_delivery_done = on_first (wd_delivery_done W), wd_instant = on_first (wd_instant W),
    wd_sleep = (\<lambda>d. apfst (wd_sleep W d)) \<rparr>"

text \<open>A property of the book alone.\<close>

definition on_claims :: "(claim_book \<Rightarrow> bool) \<Rightarrow> 'w \<times> claim_log \<Rightarrow> bool" where
  "on_claims P s = P (lg_book (snd s))"

lemma on_first_log: "on_first f s = (s', x) \<Longrightarrow> snd s' = snd s"
  by (auto simp: on_first_def split: prod.splits)

lemma ensures_on_first [intro]:
  "ensures (on_claims P) (load (on_first f)) (\<lambda>_. on_claims P) (on_claims P)"
  "ensures (on_claims P) (await (on_first m)) (\<lambda>_. on_claims P) (on_claims P)"
  "ensures (on_claims P) (attempt (on_first m)) (\<lambda>_. on_claims P) (on_claims P)"
  "ensures (on_claims P) (act (apfst g)) (\<lambda>_. on_claims P) (on_claims P)"
  by (auto simp: ensures_def load_def await_def attempt_def act_def mapErrS_def tryS_def on_claims_def on_first_def
      split: prod.splits sum.splits)

lemma ensures_silent:
  "ensures (on_claims P) (once (returnS x)) (\<lambda>_. on_claims P) (on_claims P)"
  "ensures (on_claims P) (once (failS e)) Q (on_claims P)"
  "ensures (on_claims P) (once (liftS r)) (\<lambda>x s. on_claims P s \<and> r = Inr x) (on_claims P)"
  by (auto simp: ensures_def call_defs split: sum.splits)

lemma ensures_delivered:
  "ensures (on_claims P) (load (wd_delivered (logged W))) (\<lambda>n s. on_claims P s \<and> lg_load (snd s) = n) (on_claims P)"
  by (auto simp: ensures_def load_def logged_def on_claims_def split: prod.splits)

text \<open>Runs that leave the book alone.\<close>

definition quiet :: "('w \<times> claim_log, advance_error, 'a) run \<Rightarrow> bool" where
  "quiet m \<longleftrightarrow> (\<forall>P. ensures (on_claims P) m (\<lambda>_. on_claims P) (on_claims P))"

named_theorems quiet_intros

lemma quietD: "quiet m \<Longrightarrow> ensures (on_claims P) m (\<lambda>_. on_claims P) (on_claims P)"
  by (simp add: quiet_def)

lemma quiet_bindO [quiet_intros]: "quiet m \<Longrightarrow> (\<And>x. quiet (f x)) \<Longrightarrow> quiet (bindO m f)"
  by (auto simp: quiet_def intro: ensures_bindO)

lemma quiet_calls [quiet_intros]:
  "quiet (load (on_first g))" "quiet (await (on_first m))" "quiet (attempt (on_first m))" "quiet (act (apfst h))"
  "quiet (once (returnS x))" "quiet (once (failS e))" "quiet (load (wd_delivered (logged W)))"
  using ensures_delivered [of _ W] by (auto simp: quiet_def ensures_silent intro: ensures_weaken)

lemma quiet_if [quiet_intros]: "quiet m \<Longrightarrow> quiet n \<Longrightarrow> quiet (if b then m else n)"
  by simp

lemma logged_sel [simp]:
  "wd_closed (logged W) = on_first (wd_closed W)" "wd_finalize (logged W) = on_first (wd_finalize W)"
  "wd_observe (logged W) d = on_first (wd_observe W d)"
  "wd_observe_terminal (logged W) = on_first (wd_observe_terminal W)"
  "wd_observe_unavailable (logged W) e = apfst (wd_observe_unavailable W e)"
  "wd_observe_probe_decision (logged W) m = apfst (wd_observe_probe_decision W m)"
  "wd_observe_claim_submitted (logged W) m = apfst (wd_observe_claim_submitted W m)"
  "wd_exhausted (logged W) = wd_exhausted W" "wd_delivery_done (logged W) = on_first (wd_delivery_done W)"
  "wd_instant (logged W) = on_first (wd_instant W)" "wd_sleep (logged W) delay = apfst (wd_sleep W delay)"
  by (simp_all add: logged_def)

lemma quiet_closed [quiet_intros]: "quiet (deal_closed_observed (logged W))"
  unfolding deal_closed_observed_def logged_sel by (intro quiet_intros)

lemma quiet_idle [quiet_intros]: "quiet (act (\<lambda>w. w))"
  by (auto simp: quiet_def ensures_def act_def)

lemma wait_until_closed_log:
  assumes "wait_until_closed (logged W) deadline s = Some y"
  shows "lg_book (snd (fst y)) = lg_book (snd s)"
proof -
  have "world = logged W \<longrightarrow> lg_book (snd (fst y)) = lg_book (snd s)"
    if "wait_until_closed world deadline s = Some y" for world deadline s y
  proof (rule wait_until_closed.raw_induct [where P = "\<lambda>world _ s y. world = logged W
        \<longrightarrow> lg_book (snd (fst y)) = lg_book (snd s)", OF _ that], goal_cases)
  case (1 again world deadline s y)
  obtain s1 now where now: "on_first (wd_instant W) s = (s1, now)" by fastforce
  show ?case
  proof (cases "deadline \<le> now")
    case False
    let ?nap = "apfst (wd_sleep W (min SELLER_TERMINAL_RECEIPT_POLL_INTERVAL (deadline - now))) s1"
    obtain s2 closed where closed: "on_first (wd_closed W) ?nap = (s2, closed)" by fastforce
    have "snd s1 = snd s" "snd s2 = snd s1"
      using on_first_log [OF now] on_first_log [OF closed] by simp_all
    then show ?thesis using 1(1) [of "logged W" deadline s2 y] 1(2) False now closed by (auto split: if_splits)
  qed (use 1 now on_first_log [OF now] in auto)
  qed
  then show ?thesis using assms by blast
qed

lemma quiet_wait [quiet_intros]: "quiet (wait_claim_or_closed (logged W) window)"
proof -
  have "quiet (wait_until_closed (logged W) deadline)" for deadline
    unfolding quiet_def ensures_def using wait_until_closed_log by (fastforce simp: on_claims_def split: sum.split)
  then show ?thesis unfolding wait_claim_or_closed_def logged_sel by (intro quiet_intros)
qed

lemma quiet_first_turn [quiet_intros]: "quiet (first_token_turn (logged W) windows)"
  unfolding first_token_turn_def logged_sel by (intro quiet_intros)

lemma quiet_log:
  assumes "quiet m" and "m s = Some (t, x)"
  shows "lg_book (snd t) = lg_book (snd s)"
  using ensuresD [OF quietD [OF assms(1), of "\<lambda>b. b = lg_book (snd s)"] _ assms(2)]
  by (auto simp: on_claims_def split: sum.splits)

lemma await_first_token_log:
  assumes "await_first_token (logged W) windows s = Some y"
  shows "lg_book (snd (fst y)) = lg_book (snd s)"
proof -
  have "world = logged W \<longrightarrow> lg_book (snd (fst y)) = lg_book (snd s)"
    if "await_first_token world windows s = Some y" for world windows s y
  proof (rule await_first_token.raw_induct [where P = "\<lambda>world _ s y. world = logged W
        \<longrightarrow> lg_book (snd (fst y)) = lg_book (snd s)", OF _ that], goal_cases)
  case (1 again world windows s y)
  note turn = quiet_log [OF quiet_first_turn]
  show ?case
  proof
    assume W: "world = logged W"
    show "lg_book (snd (fst y)) = lg_book (snd s)"
    proof (cases "first_token_turn (logged W) windows s")
      case (Some out)
      obtain s1 r where out: "out = (s1, r)" by (cases out)
      have log: "lg_book (snd s1) = lg_book (snd s)" using turn Some out by blast
      show ?thesis
      proof (cases "r = Inr None")
        case True
        then have "again world windows s1 = Some y" using 1(2) W Some out by simp
        then show ?thesis using 1(1) [of world windows s1 y] W log by simp
      next
        case False
        then have "fst y = s1" using 1(2) W Some out by (auto split: sum.splits option.splits)
        then show ?thesis using log by simp
      qed
    qed (use 1(2) W in simp)
  qed
  qed
  then show ?thesis using assms by blast
qed

lemma quiet_first_token [quiet_intros]: "quiet (await_first_token (logged W) windows)"
  unfolding quiet_def ensures_def using await_first_token_log by (fastforce simp: on_claims_def split: sum.split)

text \<open>A read of the deal adds what it answered to the book, and only that.\<close>

lemma state_read:
  assumes "required_claim_state (logged W) s = Some (s', r)"
  shows "bk_claims (lg_book (snd s')) = bk_claims (lg_book (snd s)) \<and> bk_accept (lg_book (snd s')) = bk_accept (lg_book (snd s))
    \<and> (\<forall>state. r = Inr state \<longrightarrow> bk_reads (lg_book (snd s')) = bk_reads (lg_book (snd s)) @ [state])"
proof -
  obtain w l where s: "s = (w, l)" by (cases s)
  obtain w' x where x: "wd_deal_state W w = (w', x)" by fastforce
  let ?s = "(w', l\<lparr>lg_book := note_read x (lg_book l)\<rparr>)"
  have read: "attempt (wd_deal_state (logged W)) s = Some (?s, Inr x)"
    by (simp add: attempt_def tryS_def once_def logged_def s x)
  consider e where "x = Inl e" | "x = Inr None" | state where "x = Inr (Some state)"
    by (metis not_Some_eq sumE)
  then show ?thesis
  proof cases
    case 1
    let ?say = "act (if wd_exhausted W e then apfst (wd_observe_unavailable W e) else (\<lambda>w. w))"
    have "quiet (bindO ?say (\<lambda>_. once (failS (AdvanceChain e) :: _ \<Rightarrow> _ \<times> (_ + DealChainState))))"
      by (intro quiet_bindO quiet_intros) (simp add: quiet_calls quiet_idle)
    moreover have "bindO ?say (\<lambda>_. once (failS (AdvanceChain e))) ?s = Some (s', r)"
      using assms read 1 by (cases "wd_exhausted W e") (simp_all add: required_claim_state_def bindO_def [of "attempt _"])
    moreover have "\<forall>state. r \<noteq> Inr state" using calculation(2) by (auto simp: failS_def elim!: bindO_cases)
    ultimately show ?thesis using quiet_log by (fastforce simp: s 1 note_read_def)
  next
    case 2
    then show ?thesis using assms read by (auto simp: required_claim_state_def bindO_def s failS_def note_read_def)
  next
    case 3
    have run: "bindO (await (on_first (wd_observe W state))) (\<lambda>_. once (returnS state)) ?s = Some (s', r)"
      using assms read 3 by (simp add: required_claim_state_def bindO_def [of "attempt _"])
    have "quiet (bindO (await (on_first (wd_observe W state))) (\<lambda>_. once (returnS state)))" by (intro quiet_intros)
    then have "lg_book (snd s') = lg_book (snd ?s)" using run quiet_log by blast
    moreover have "\<forall>state'. r = Inr state' \<longrightarrow> state' = state" using run by (auto simp: returnS_def elim!: bindO_cases)
    ultimately show ?thesis by (simp add: s 3 note_read_def)
  qed
qed

lemmas state_reads = state_read [THEN conjunct1] state_read [THEN conjunct2, THEN conjunct1]

text \<open>The delivery the probe tick absorbed: none if the driver found the probe accepted.\<close>

definition anchor_of :: "u64 option \<Rightarrow> u128" where
  "anchor_of accepted = (case accepted of None \<Rightarrow> 0 | Some d \<Rightarrow> min d TICK_SIZE)"

lemma accept_logged:
  assumes "attempt (wd_accept_probe (logged W)) s = Some (s', r)"
  shows "lg_book (snd s') = (lg_book (snd s))\<lparr>bk_accept := Some (lg_load (snd s))\<rparr>"
  using assms by (cases s) (auto simp: attempt_def tryS_def once_def logged_def on_first_def split: prod.splits)

lemma take_probe_book:
  assumes "take_probe (logged W) s = Some (s', r)"
  shows "bk_claims (lg_book (snd s')) = bk_claims (lg_book (snd s))"
    and "\<And>anchor. r = Inr (Some anchor) \<Longrightarrow> fst anchor = anchor_of (bk_accept (lg_book (snd s')))"
proof -
  obtain s1 n where n: "wd_delivered (logged W) s = (s1, n)" by fastforce
  then have l1: "lg_load (snd s1) = n" "lg_book (snd s1) = lg_book (snd s)"
    by (cases s; auto simp: logged_def split: prod.splits)+
  let ?m = "\<lparr>cm_deal_delivery_count = n, cm_delivery_at_probe = Some (min n TICK_SIZE), cm_cumulative_tokens = None\<rparr>"
  let ?s2 = "apfst (wd_observe_probe_decision W ?m) s1"
  obtain s3 acc where "wd_accept_probe (logged W) ?s2 = (s3, acc)" by fastforce
  then have acc: "attempt (wd_accept_probe (logged W)) ?s2 = Some (s3, Inr acc)" by (simp add: attempt_def tryS_def once_def)
  have l3: "bk_claims (lg_book (snd s3)) = bk_claims (lg_book (snd s))" "bk_accept (lg_book (snd s3)) = Some n"
    using accept_logged [OF acc] l1 by simp_all
  let ?rest = "\<lambda>after. if dcs_probe_accepted after then once (returnS (Some (min n TICK_SIZE, Some (min n TICK_SIZE))))
      else bindO (deal_closed_observed (logged W)) (\<lambda>closed. if closed then once (returnS None)
        else once (failS (case acc of Inl e \<Rightarrow> AdvanceChain e | Inr _ \<Rightarrow> ProbeStayedOpen)))"
  have run: "bindO (required_claim_state (logged W)) ?rest s3 = Some (s', r)"
    using assms n acc by (simp add: take_probe_def bindO_def [of "load _"] bindO_def [of "act _"] bindO_def [of "attempt _"]
        load_def act_def Let_def del: logged_sel(1))
  have rest: "quiet (?rest after)" for after by (intro quiet_intros)
  have "bk_claims (lg_book (snd s')) = bk_claims (lg_book (snd s))
    \<and> (\<forall>anchor. r = Inr (Some anchor) \<longrightarrow> fst anchor = anchor_of (bk_accept (lg_book (snd s'))))"
    using run
  proof (cases rule: bindO_cases)
    case (1 e)
    then show ?thesis using state_reads(1) [OF 1(1)] l3(1) by simp
  next
    case (2 s4 after)
    have "lg_book (snd s') = lg_book (snd s4)" using quiet_log [OF rest 2(2)] .
    moreover have "\<forall>anchor. r = Inr (Some anchor) \<longrightarrow> fst anchor = min n TICK_SIZE"
      using 2(2) by (auto simp: returnS_def failS_def elim!: bindO_cases split: if_splits)
    ultimately show ?thesis using state_reads [OF 2(1)] l3 by (simp add: anchor_of_def)
  qed
  then show "bk_claims (lg_book (snd s')) = bk_claims (lg_book (snd s))"
    and "\<And>anchor. r = Inr (Some anchor) \<Longrightarrow> fst anchor = anchor_of (bk_accept (lg_book (snd s')))" by blast+
qed

lemma probe_book:
  assumes "probe_phase (logged W) windows before_probe s = Some (s', r)" and none: "bk_accept (lg_book (snd s)) = None"
  shows "bk_claims (lg_book (snd s')) = bk_claims (lg_book (snd s))"
    and "\<And>anchor. r = Inr (Some anchor) \<Longrightarrow> fst anchor = anchor_of (bk_accept (lg_book (snd s')))"
proof -
  have "bk_claims (lg_book (snd s')) = bk_claims (lg_book (snd s))
    \<and> (\<forall>anchor. r = Inr (Some anchor) \<longrightarrow> fst anchor = anchor_of (bk_accept (lg_book (snd s'))))"
  proof (cases "dcs_probe_accepted before_probe \<or> \<not> dcs_opened before_probe \<or> dcs_disputed before_probe
      \<or> dcs_tokens_pending before_probe \<noteq> 0")
    case True
    then show ?thesis
      using assms by (auto simp: probe_phase_def returnS_def failS_def anchor_of_def split: if_splits)
  next
    case False
    let ?first = "bindO (act (wd_sleep (logged W) (aw_probe windows))) (\<lambda>_.
        bindO (deal_closed_observed (logged W)) (\<lambda>closed.
        if closed then once (returnS False) else await_first_token (logged W) windows))"
    have quiet: "quiet ?first" unfolding logged_sel by (intro quiet_intros)
    have "bindO ?first (\<lambda>go. if go then take_probe (logged W) else once (returnS None)) s = Some (s', r)"
      using assms(1) False by (auto simp: probe_phase_def bindO_def returnS_def split: option.splits prod.splits sum.splits if_splits)
    then show ?thesis
    proof (cases rule: bindO_cases)
      case (1 e)
      then show ?thesis using quiet_log [OF quiet 1(1)] by simp
    next
      case (2 t go)
      have "lg_book (snd t) = lg_book (snd s)" by (rule quiet_log [OF quiet 2(1)])
      then show ?thesis
        using 2(2) take_probe_book [of W t s' r] by (cases go) (auto simp: returnS_def)
    qed
  qed
  then show "bk_claims (lg_book (snd s')) = bk_claims (lg_book (snd s))"
    and "\<And>anchor. r = Inr (Some anchor) \<Longrightarrow> fst anchor = anchor_of (bk_accept (lg_book (snd s')))" by blast+
qed

lemma quiet_finalize [quiet_intros]: "quiet (finalize_phase (logged W) windows b claimed needs)"
  unfolding finalize_phase_def logged_sel
  by (intro quiet_intros) (auto split: sum.split intro!: quiet_intros)

section \<open>The claims are covered by delivery\<close>

text \<open>Where the cursor of the driver stands after a claim: at the claim, or where the chain says it already is.\<close>

definition moved_to :: "claim_entry \<Rightarrow> u128" where
  "moved_to x = (case snd (snd x) of Inl (ClaimHighWaterResync _ on_chain) \<Rightarrow> on_chain | _ \<Rightarrow> fst (snd x))"

definition cursor_after :: "u128 \<Rightarrow> claim_entry list \<Rightarrow> u128" where
  "cursor_after c L = (if L = [] then c else moved_to (last L))"

text \<open>Each claim lies above the cursor, by at most \<open>m\<close>.\<close>

fun steps_within :: "nat \<Rightarrow> u128 \<Rightarrow> claim_entry list \<Rightarrow> bool" where
  "steps_within m c [] \<longleftrightarrow> True"
| "steps_within m c (x # L) \<longleftrightarrow> c < fst (snd x) \<and> fst (snd x) \<le> c + m \<and> steps_within m (moved_to x) L"

lemma steps_within_snoc:
  "steps_within m c (L @ [x]) \<longleftrightarrow>
    steps_within m c L \<and> cursor_after c L < fst (snd x) \<and> fst (snd x) \<le> cursor_after c L + m"
  by (induction L arbitrary: c) (auto simp: cursor_after_def)

text \<open>
  The most the physical rate allows in one claim interval, and never more than the per-call maximum.
\<close>

definition rate_limit :: "AdvanceWindows \<Rightarrow> u128" where
  "rate_limit windows =
    (if aw_claim_interval windows = 0 \<or> aw_seconds_per_tick windows = 0 then TICK_SIZE
     else min TICK_SIZE (aw_claim_interval windows * TICK_SIZE div aw_seconds_per_tick windows))"

lemma claim_allowance_rate: "claim_allowance windows = rate_limit windows"
  by (auto simp: claim_allowance_def rate_limit_def windows_max_claim_delta_def claim_delta_limit_def MAX_CLAIM_DELTA_def Let_def)

definition claim_ok :: "claim_frame \<Rightarrow> claim_entry \<Rightarrow> bool" where
  "claim_ok f x \<longleftrightarrow> cf_base f < fst (snd x) \<and> fst (snd x) \<le> cf_budget f
    \<and> fst (snd x) \<le> cf_base f + (fst x - cf_at_probe f)"

text \<open>The book agrees with the frame of the claim loop, and its claims are in order.\<close>

definition claims_ok :: "nat \<Rightarrow> claim_frame \<Rightarrow> claim_book \<Rightarrow> bool" where
  "claims_ok m f b \<longleftrightarrow>
    bk_reads b \<noteq> [] \<and> cf_base f = dcs_tokens_pending (last (bk_reads b)) \<and> cf_at_probe f = anchor_of (bk_accept b)
    \<and> (\<forall>x \<in> set (bk_claims b). claim_ok f x) \<and> sorted_wrt (<) (map (fst \<circ> snd) (bk_claims b))
    \<and> steps_within m (cf_base f) (bk_claims b)"

definition cursor_ok :: "claim_frame \<Rightarrow> u128 \<Rightarrow> claim_book \<Rightarrow> bool" where
  "cursor_ok f claimed b \<longleftrightarrow> cf_base f \<le> claimed \<and> claimed \<le> cf_budget f
    \<and> (\<forall>x \<in> set (bk_claims b). fst (snd x) \<le> claimed) \<and> claimed = cursor_after (cf_base f) (bk_claims b)"

definition turn_ok :: "nat \<Rightarrow> claim_frame \<Rightarrow> claim_turn \<Rightarrow> claim_book \<Rightarrow> bool" where
  "turn_ok m f turn b \<longleftrightarrow> claims_ok m f b \<and>
    (case turn of Leave claimed _ \<Rightarrow> claimed \<le> cf_budget f | Again claimed _ \<Rightarrow> cursor_ok f claimed b)"

text \<open>The book right after the claim \<open>n\<close>: all claims are at most \<open>n\<close>, and the answer to it is the last entry.\<close>

definition claim_done :: "nat \<Rightarrow> claim_frame \<Rightarrow> u128 \<Rightarrow> ChainError + unit \<Rightarrow> claim_book \<Rightarrow> bool" where
  "claim_done m f n r b \<longleftrightarrow> claims_ok m f b \<and> (\<forall>x \<in> set (bk_claims b). fst (snd x) \<le> n) \<and> cf_base f \<le> n \<and> n \<le> cf_budget f
    \<and> bk_claims b \<noteq> [] \<and> (\<exists>d. last (bk_claims b) = (d, n, r))"

lemma claims_append:
  assumes "claims_ok m f b" and "cursor_ok f claimed b" and "claimed < n"
    and "n \<le> target_of f d" and "n \<le> claimed + m"
  shows "claim_done m f n r (b\<lparr>bk_claims := bk_claims b @ [(d, n, r)]\<rparr>)"
proof -
  have "target_of f d \<le> cf_budget f" "target_of f d \<le> cf_base f + (d - cf_at_probe f)"
    by (auto simp: target_of_def delivery_target_from_probe_anchor_def saturating_add_def saturating_sub_eq)
  then have ok: "claim_ok f (d, n, r)" and budget: "n \<le> cf_budget f"
    using assms(2,3,4) by (auto simp: claim_ok_def cursor_ok_def)
  have "steps_within m (cf_base f) (bk_claims b @ [(d, n, r)])"
    using assms(1,2,3,5) unfolding steps_within_snoc claims_ok_def cursor_ok_def by auto
  then have "claims_ok m f (b\<lparr>bk_claims := bk_claims b @ [(d, n, r)]\<rparr>)"
    using assms(1,2,3) ok by (auto simp: claims_ok_def cursor_ok_def sorted_wrt_append)
  then show ?thesis
    using assms(2,3) budget by (auto simp: claim_done_def cursor_ok_def)
qed

lemma ensures_claim:
  assumes "\<And>b r. P b \<Longrightarrow> Q r (b\<lparr>bk_claims := bk_claims b @ [(d, n, r)]\<rparr>)"
  shows "ensures (\<lambda>s. on_claims P s \<and> lg_load (snd s) = d) (attempt (wd_claim_tokens (logged W) n))
    (\<lambda>r. on_claims (Q r)) E"
  using assms
  by (auto simp: ensures_def attempt_def tryS_def once_def logged_def on_claims_def split: prod.splits)

lemma ensures_pure:
  "(\<And>L. P L \<Longrightarrow> Q x L) \<Longrightarrow> ensures (on_claims P) (once (returnS x)) (\<lambda>x. on_claims (Q x)) E"
  by (rule ensures_return) (simp add: on_claims_def)

lemma ensures_refuse: "(\<And>L. P L \<Longrightarrow> Q L) \<Longrightarrow> ensures (on_claims P) (once (failS e)) R (on_claims Q)"
  by (rule ensures_fail) (simp add: on_claims_def)

text \<open>A quiet run before another: the claims stay as they are, also if it fails.\<close>

lemma ensures_after_quiet:
  assumes "quiet m" and "\<And>x. ensures (on_claims P) (f x) R (on_claims Q)" and "\<And>L. P L \<Longrightarrow> Q L"
  shows "ensures (on_claims P) (bindO m f) R (on_claims Q)"
proof -
  have "ensures (on_claims P) m (\<lambda>_. on_claims P) (on_claims Q)"
    by (rule ensures_weaken [OF quietD [OF assms(1), of P]]) (auto simp: on_claims_def assms(3))
  then show ?thesis using assms(2) by (rule ensures_bindO)
qed

lemma claim_done_moves:
  "claim_done m f n (Inr x) b \<Longrightarrow> claims_ok m f b \<and> cursor_ok f n b"
  "claim_done m f n (Inl (ClaimHighWaterResync a on_chain)) b \<Longrightarrow> n < on_chain \<Longrightarrow> on_chain \<le> cf_budget f \<Longrightarrow>
    claims_ok m f b \<and> cursor_ok f on_chain b"
  by (auto simp: claim_done_def cursor_ok_def cursor_after_def moved_to_def)

lemma settle_ok:
  assumes "claimed \<le> cf_budget f"
  shows "ensures (on_claims (claim_done m f next r))
    (settle_claim (logged W) f target next claimed needs r)
    (\<lambda>turn. on_claims (turn_ok m f turn)) (on_claims (claims_ok m f))"
proof -
  have dn: "\<And>b. claim_done m f next r b \<Longrightarrow> claims_ok m f b" by (simp add: claim_done_def)
  have leave: "ensures (on_claims (claim_done m f next r))
      (once (returnS (Leave claimed needs))) (\<lambda>turn. on_claims (turn_ok m f turn)) E" for E
    using assms by (auto simp: turn_ok_def intro!: ensures_pure dn)
  have closed: "ensures (on_claims (claim_done m f next r))
      (bindO (deal_closed_observed (logged W)) (\<lambda>closed.
         if closed then once (returnS (Leave claimed needs)) else once (failS (AdvanceChain e))))
      (\<lambda>turn. on_claims (turn_ok m f turn)) (on_claims (claims_ok m f))" for e
    using leave by (auto intro!: ensures_after_quiet quiet_closed ensures_if ensures_refuse dn)
  show ?thesis
  proof (cases r)
    case (Inr x)
    then show ?thesis
      by (auto simp: settle_claim_def turn_ok_def dest: claim_done_moves(1) intro!: ensures_pure)
  next
    case (Inl e)
    show ?thesis
    proof (cases "\<exists>a on_chain. e = ClaimHighWaterResync a on_chain")
      case True
      then show ?thesis
        using Inl dn
        by (auto simp: settle_claim_def turn_ok_def not_le not_less intro!: ensures_pure ensures_refuse ensures_if claim_done_moves(2) [THEN conjunct2])
    next
      case False
      then show ?thesis using Inl leave closed by (auto simp: settle_claim_def split: ChainError.split)
    qed
  qed
qed

lemma submit_ok:
  assumes m: "claim_allowance windows \<le> m"
  shows "ensures (on_claims (\<lambda>b. claims_ok m f b \<and> cursor_ok f claimed b))
    (submit_claim (logged W) windows f claimed needs)
    (\<lambda>turn. on_claims (turn_ok m f turn)) (on_claims (claims_ok m f))"
  (is "ensures (on_claims ?P) _ ?R (on_claims ?E)")
proof -
  have turn: "ensures (\<lambda>s. on_claims ?P s \<and> lg_load (snd s) = d)
      (let target = target_of f d; next = min target (saturating_add U128_MAX claimed (claim_allowance windows)) in
       if next \<le> claimed then once (returnS (Again claimed needs))
       else bindO (attempt (wd_claim_tokens (logged W) next)) (\<lambda>r.
            bindO (act (wd_observe_claim_submitted (logged W) \<lparr>cm_deal_delivery_count = d,
              cm_delivery_at_probe = cf_measured f, cm_cumulative_tokens = Some next\<rparr>)) (\<lambda>_.
            settle_claim (logged W) f target next claimed needs r))) ?R (on_claims ?E)" for d
  proof -
    let ?next = "min (target_of f d) (saturating_add U128_MAX claimed (claim_allowance windows))"
    have le: "?next \<le> claimed + m" using m by (auto simp: saturating_add_def)
    have idle: "ensures (\<lambda>s. on_claims ?P s \<and> lg_load (snd s) = d) (once (returnS (Again claimed needs))) ?R (on_claims ?E)"
      by (rule ensures_return) (simp add: on_claims_def turn_ok_def)
    have submit: "ensures (\<lambda>s. on_claims ?P s \<and> lg_load (snd s) = d)
        (bindO (attempt (wd_claim_tokens (logged W) ?next)) (\<lambda>r.
            bindO (act (wd_observe_claim_submitted (logged W) \<lparr>cm_deal_delivery_count = d,
              cm_delivery_at_probe = cf_measured f, cm_cumulative_tokens = Some ?next\<rparr>)) (\<lambda>_.
            settle_claim (logged W) f (target_of f d) ?next claimed needs r))) ?R (on_claims ?E)"
      if "claimed < ?next"
    proof (cases "claimed \<le> cf_budget f")
      case True
      have claim: "ensures (\<lambda>s. on_claims ?P s \<and> lg_load (snd s) = d) (attempt (wd_claim_tokens (logged W) ?next))
          (\<lambda>r. on_claims (claim_done m f ?next r)) (on_claims ?E)"
        by (rule ensures_claim) (use claims_append [OF _ _ that min.cobounded1 le] in blast)
      show ?thesis
        by (rule ensures_bindO [OF claim], unfold logged_sel, intro ensures_after_quiet settle_ok quiet_calls True)
          (simp add: claim_done_def)
    qed (auto simp: ensures_def on_claims_def cursor_ok_def)
    show ?thesis unfolding Let_def by (rule ensures_if [OF idle]) (rule submit, simp only: not_le)
  qed
  have load: "ensures (on_claims ?P) (load (wd_delivered (logged W)))
      (\<lambda>n s. on_claims ?P s \<and> lg_load (snd s) = n) (on_claims ?E)"
    by (rule ensures_weaken [OF ensures_delivered [of ?P W]]) (auto simp: on_claims_def)
  show ?thesis
    unfolding submit_claim_def logged_sel
    by (intro ensures_after_quiet quiet_calls ensures_bindO [OF load turn [unfolded logged_sel]]) simp
qed

lemma turn_claims_ok:
  assumes m: "claim_allowance windows \<le> m"
  shows "ensures (on_claims (\<lambda>L. claims_ok m f L \<and> cursor_ok f claimed L))
    (claim_turn_of (logged W) windows f claimed needs)
    (\<lambda>turn. on_claims (turn_ok m f turn)) (on_claims (claims_ok m f))"
  (is "ensures (on_claims ?P) _ ?R (on_claims ?E)")
proof -
  have stay: "ensures (on_claims ?P) (once (returnS (Leave claimed needs))) ?R (on_claims ?E)"
    "ensures (on_claims ?P) (once (returnS (if b then Leave claimed needs else Again claimed needs))) ?R (on_claims ?E)" for b
    by (auto simp: turn_ok_def cursor_ok_def intro!: ensures_pure)
  note submit = submit_ok [OF m, of f claimed W needs]
  have keep: "\<And>L. ?P L \<Longrightarrow> ?E L" by simp
  show ?thesis
    unfolding claim_turn_of_def logged_sel
    by (intro ensures_if stay(1) ensures_after_quiet [OF quiet_closed _ keep]
        ensures_after_quiet [OF quiet_calls(7) _ keep] ensures_after_quiet [OF quiet_calls(1) _ keep]
        ensures_after_quiet [OF quiet_wait _ keep] stay(2) submit)
qed

lemma loop_claims_ok:
  assumes m: "claim_allowance windows \<le> m"
    and run: "claim_loop (logged W) windows f claimed needs s = Some (s', r)"
    and start: "claims_ok m f (lg_book (snd s))" "cursor_ok f claimed (lg_book (snd s))"
  shows "claims_ok m f (lg_book (snd s')) \<and> (case r of Inr (c, _) \<Rightarrow> c \<le> cf_budget f | Inl _ \<Rightarrow> True)"
proof -
  let ?P = "\<lambda>world win f claimed needs s y. world = logged W \<and> win = windows
      \<and> claims_ok m f (lg_book (snd s)) \<and> cursor_ok f claimed (lg_book (snd s))
      \<longrightarrow> claims_ok m f (lg_book (snd (fst y))) \<and> (case snd y of Inr (c, _) \<Rightarrow> c \<le> cf_budget f | Inl _ \<Rightarrow> True)"
  have "?P (logged W) windows f claimed needs s (s', r)"
  proof (rule claim_loop.raw_induct [where P = ?P, OF _ run], goal_cases)
    case (1 again world win f claimed needs s y)
    show ?case
    proof
      assume a: "world = logged W \<and> win = windows
        \<and> claims_ok m f (lg_book (snd s)) \<and> cursor_ok f claimed (lg_book (snd s))"
      then obtain s1 r1 where t: "claim_turn_of (logged W) windows f claimed needs s = Some (s1, r1)"
        using 1(2) by (cases "claim_turn_of (logged W) windows f claimed needs s") auto
      have "on_claims (\<lambda>L. claims_ok m f L \<and> cursor_ok f claimed L) s" using a by (simp add: on_claims_def)
      note ok = ensuresD [OF turn_claims_ok [OF m] this t]
      show "claims_ok m f (lg_book (snd (fst y))) \<and> (case snd y of Inr (c, _) \<Rightarrow> c \<le> cf_budget f | Inl _ \<Rightarrow> True)"
      proof (cases r1)
        case (Inl e)
        then show ?thesis using 1(2) a t ok by (auto simp: on_claims_def)
      next
        case (Inr turn)
        show ?thesis
        proof (cases turn)
          case (Leave c n)
          then show ?thesis using 1(2) a t ok Inr by (auto simp: on_claims_def turn_ok_def)
        next
          case (Again c n)
          then have "again world win f c n s1 = Some y" using 1(2) a t Inr by simp
          then show ?thesis using 1(1) [of world win f c n s1 y] a ok Inr Again by (simp add: on_claims_def turn_ok_def)
        qed
      qed
    qed
  qed
  then show ?thesis using start by simp
qed

lemma claim_phase_ok:
  assumes run: "claim_phase (logged W) windows budget b probe s = Some (s', r)" and none: "bk_claims (lg_book (snd s)) = []"
    and anchor: "fst probe = anchor_of (bk_accept (lg_book (snd s)))"
  shows "bk_claims (lg_book (snd s')) = [] \<and> (\<forall>paid. r \<noteq> Inr paid)
    \<or> (\<exists>base. TICK_SIZE \<le> base \<and> claims_ok (rate_limit windows)
        \<lparr>cf_base = base, cf_at_probe = fst probe, cf_measured = snd probe, cf_budget = budget\<rparr> (lg_book (snd s'))
      \<and> (\<forall>paid. r = Inr paid \<longrightarrow> paid \<le> budget))"
proof -
  let ?f = "\<lambda>base. \<lparr>cf_base = base, cf_at_probe = fst probe, cf_measured = snd probe, cf_budget = budget\<rparr>"
  note allowance = eq_refl [OF claim_allowance_rate [of windows]]
  from run show ?thesis
    unfolding claim_phase_def
  proof (cases rule: bindO_cases)
    case (1 e)
    then show ?thesis using state_reads(1) [OF 1(1)] none by simp
  next
    case (2 s1 state)
    note book1 = state_read [OF 2(1)]
    from 2(2) show ?thesis
    proof (cases rule: bindO_cases)
      case (1 e)
      then show ?thesis using book1 none by (auto simp: liftS_def)
    next
      case (2 s2 claimed)
      then have s2: "s2 = s1" and high: "validated_claim_high_water state budget = Inr claimed"
        by (auto simp: liftS_def)
      have c: "TICK_SIZE \<le> claimed" "claimed \<le> budget" "claimed = dcs_tokens_pending state"
        using high by (auto simp: validated_claim_high_water_def result_simps)
      have start: "claims_ok (rate_limit windows) (?f claimed) (lg_book (snd s1))" "cursor_ok (?f claimed) claimed (lg_book (snd s1))"
        using c none anchor book1 by (simp_all add: claims_ok_def cursor_ok_def cursor_after_def)
      have loop: "claims_ok (rate_limit windows) (?f claimed) (lg_book (snd t))
          \<and> (case x of Inr (c, _) \<Rightarrow> c \<le> budget | Inl _ \<Rightarrow> True)"
        if "claim_loop (logged W) windows (?f claimed) claimed needs s1 = Some (t, x)" for needs t x
        using loop_claims_ok [OF allowance that start] by (auto split: sum.splits)
      from 2(2) show ?thesis
      proof (cases rule: bindO_cases)
        case (1 e)
        then show ?thesis using loop [of _ s' "Inl e"] c(1) by (auto simp: s2)
      next
        case (2 s3 out)
        obtain paid needs where out: "out = (paid, needs)" by (cases out)
        have l3: "claims_ok (rate_limit windows) (?f claimed) (lg_book (snd s3))" "paid \<le> budget"
          using loop [of _ s3 "Inr out"] 2(1) by (auto simp: s2 out)
        have fin: "finalize_phase (logged W) windows b paid needs s3 = Some (s', r)" using 2(2) out by simp
        have "\<forall>t. r = Inr t \<longrightarrow> t = paid"
          using fin
          by (auto simp: finalize_phase_def returnS_def failS_def elim!: bindO_cases split: if_splits sum.splits)
        then show ?thesis
          using l3 quiet_log [OF quiet_finalize fin] c(1) by auto
      qed
    qed
  qed
qed

text \<open>A run submits no claim, or its claims are those of the claim phase, entered with the anchor of the probe.\<close>

lemma drive_enters_claims:
  assumes "drive_advance (logged W) windows tick_budget tsize fin (w, empty_log) = Some (s', r)"
  defines "claiming \<equiv> \<lambda>at s. claim_phase (logged W) windows (saturating_mul U128_MAX tick_budget tsize) fin at s = Some (s', r)
    \<and> bk_claims (lg_book (snd s)) = [] \<and> fst at = anchor_of (bk_accept (lg_book (snd s)))"
  shows "bk_claims (lg_book (snd s')) = [] \<and> (\<forall>answer. r = Inr answer \<longrightarrow> answer = 0) \<or> (\<exists>at s. claiming at s)"
proof (cases "tsize = 0")
  case False
  let ?claims = "claim_phase (logged W) windows (saturating_mul U128_MAX tick_budget tsize) fin"
  let ?after = "\<lambda>probe. case probe of None \<Rightarrow> once (returnS 0) | Some at \<Rightarrow> ?claims at"
  let ?probed = "\<lambda>before. bindO (probe_phase (logged W) windows before) ?after"
  have probed: ?thesis if run: "?probed before s = Some (s', r)"
    and fresh: "bk_claims (lg_book (snd s)) = []" "bk_accept (lg_book (snd s)) = None" for before s
    using run
  proof (cases rule: bindO_cases)
    case (1 e)
    then show ?thesis using probe_book(1) [OF 1(1) fresh(2)] fresh(1) by auto
  next
    case (2 s3 probe)
    show ?thesis
    proof (cases probe)
      case None
      then show ?thesis using 2(2) probe_book(1) [OF 2(1) fresh(2)] fresh(1) by (auto simp: returnS_def)
    next
      case (Some at)
      then have "claiming at s3" using 2 probe_book [OF 2(1) fresh(2)] fresh(1) by (simp add: claiming_def)
      then show ?thesis by blast
    qed
  qed
  from assms(1) False have "bindO (deal_closed_observed (logged W)) (\<lambda>closed. if closed then once (returnS 0)
      else bindO (required_claim_state (logged W)) ?probed) (w, empty_log) = Some (s', r)"
    unfolding drive_advance_def Let_def by simp
  then show ?thesis
  proof (cases rule: bindO_cases)
    case (1 e)
    then show ?thesis using quiet_log [OF quiet_closed 1(1)] by (auto simp: empty_log_def)
  next
    case (2 s1 closed)
    have l1: "bk_claims (lg_book (snd s1)) = []" "bk_accept (lg_book (snd s1)) = None"
      using quiet_log [OF quiet_closed 2(1)] by (simp_all add: empty_log_def)
    show ?thesis
    proof (cases closed)
      case False
      with 2(2) have "bindO (required_claim_state (logged W)) ?probed s1 = Some (s', r)" by simp
      then show ?thesis
      proof (cases rule: bindO_cases)
        case (1 e)
        then show ?thesis using state_reads(1) [OF 1(1)] l1(1) by simp
      next
        case (2 s2 before)
        then show ?thesis using probed [OF 2(2)] state_reads [OF 2(1)] l1 by simp
      qed
    qed (use 2(2) l1 in \<open>auto simp: returnS_def\<close>)
  qed
qed (use assms(1) in \<open>auto simp: drive_advance_def failS_def empty_log_def\<close>)

text \<open>
  C16: The driver never claims what was not delivered. Whatever the chain, the gateway and the observers do, let the
  base be the claimed tokens of the last state read from the chain, at least a tick, and the anchor what the probe
  tick absorbed: the delivery loaded before the driver accepted the probe, at most a tick, or nothing where it found
  the probe accepted. Every claim is above the base, inside the budget, and exceeds the base by at most what
  was delivered beyond the anchor when it was submitted. The claims grow strictly, and each exceeds the cursor (the
  claim before it, or the high water the chain answered with) by at most what the physical rate allows
  in one claim interval. The answer is inside the budget.
\<close>

theorem claims_never_exceed_delivery:
  assumes "drive_advance (logged W) windows tick_budget tsize fin (w, empty_log) = Some ((w', log), r)"
  defines "budget \<equiv> saturating_mul U128_MAX tick_budget tsize"
    and "base \<equiv> dcs_tokens_pending (last (bk_reads (lg_book log)))"
    and "anchor \<equiv> (case bk_accept (lg_book log) of None \<Rightarrow> 0 | Some d \<Rightarrow> min d TICK_SIZE)"
  shows "(bk_claims (lg_book log) \<noteq> [] \<longrightarrow> bk_reads (lg_book log) \<noteq> [] \<and> TICK_SIZE \<le> base)
    \<and> (\<forall>d n x. (d, n, x) \<in> set (bk_claims (lg_book log)) \<longrightarrow> base < n \<and> n \<le> budget \<and> n \<le> base + (d - anchor))
    \<and> sorted_wrt (<) (map (fst \<circ> snd) (bk_claims (lg_book log)))
    \<and> steps_within (rate_limit windows) base (bk_claims (lg_book log))
    \<and> (\<forall>answer. r = Inr answer \<longrightarrow> answer \<le> budget)"
proof -
  from drive_enters_claims [OF assms(1)] consider
    "bk_claims (lg_book log) = []" "\<forall>answer. r = Inr answer \<longrightarrow> answer = 0"
    | at s where "claim_phase (logged W) windows budget fin at s = Some ((w', log), r)"
      "bk_claims (lg_book (snd s)) = []" "fst at = anchor_of (bk_accept (lg_book (snd s)))"
    unfolding budget_def by auto
  then show ?thesis
  proof cases
    case 2
    from claim_phase_ok [OF this] show ?thesis
      by (auto simp: claims_ok_def claim_ok_def base_def anchor_def anchor_of_def)
  qed auto
qed

text \<open>A deal that resumes after its probe: half a tick is delivered beyond it, of three ticks bought.\<close>

definition resumed_deal :: DealChainState where
  "resumed_deal = \<lparr> dcs_funded = True, dcs_opened = True, dcs_probe_accepted = True, dcs_disputed = False,
     dcs_deposit = 300, dcs_finalized_owed = 100, dcs_tokens_final = 1000000, dcs_tokens_pending = 1000000,
     dcs_probe_tick = 100, dcs_funded_time = Some 10, dcs_probe_time = 20, dcs_last_claim_time = 20,
     dcs_dispute_time = 0 \<rparr>"

definition resumed_world :: "unit AdvanceWorld" where
  "resumed_world = \<lparr>
    wd_deal_state = (\<lambda>w. (w, Inr (Some resumed_deal))), wd_closed = (\<lambda>w. (w, False)),
    wd_accept_probe = (\<lambda>w. (w, Inr ())), wd_claim_tokens = (\<lambda>_ w. (w, Inr ())), wd_finalize = (\<lambda>w. (w, Inr ())),
    wd_observe = (\<lambda>_ w. (w, Inr ())), wd_observe_terminal = (\<lambda>w. (w, Inr ())),
    wd_observe_unavailable = (\<lambda>_ w. w), wd_observe_probe_decision = (\<lambda>_ w. w),
    wd_observe_claim_submitted = (\<lambda>_ w. w), wd_exhausted = (\<lambda>_. False), wd_delivered = (\<lambda>w. (w, 1500000)),
    wd_delivery_done = (\<lambda>w. (w, True)), wd_instant = (\<lambda>w. (w, 0)), wd_sleep = (\<lambda>_ w. w) \<rparr>"

definition immediate_windows :: AdvanceWindows where
  "immediate_windows = \<lparr> aw_claim_interval = 0, aw_seconds_per_tick = 1, aw_promote = 0, aw_probe = 0 \<rparr>"

lemmas resumed_defs = resumed_world_def resumed_deal_def immediate_windows_def logged_def on_first_def

lemma resumed_calls:
  "wd_deal_state (logged resumed_world) (w, l)
    = ((w, l\<lparr>lg_book := (lg_book l)\<lparr>bk_reads := bk_reads (lg_book l) @ [resumed_deal]\<rparr>\<rparr>), Inr (Some resumed_deal))"
  "wd_closed (logged resumed_world) s = (s, False)"
  "wd_observe (logged resumed_world) d s = (s, Inr ())"
  "wd_finalize (logged resumed_world) s = (s, Inr ())"
  "wd_sleep (logged resumed_world) n s = s"
  "wd_delivery_done (logged resumed_world) s = (s, True)"
  "wd_observe_claim_submitted (logged resumed_world) m s = s"
  "wd_delivered (logged resumed_world) (w, l) = ((w, l\<lparr>lg_load := 1500000\<rparr>), 1500000)"
  "wd_claim_tokens (logged resumed_world) t (w, l) = ((w, l\<lparr>lg_book := (lg_book l)\<lparr>bk_claims := bk_claims (lg_book l) @ [(lg_load l, t, Inr ())]\<rparr>\<rparr>), Inr ())"
  by (cases s; simp add: resumed_defs note_read_def)+

lemmas resumed_eval = bindO_def load_def await_def attempt_def act_def once_def call_defs resumed_calls
  deal_closed_observed_def required_claim_state_def
  claim_turn_of_def submit_claim_def settle_claim_def target_of_def delivery_target_from_probe_anchor_def
  claim_allowance_def saturating_add_def MAX_CLAIM_DELTA_def TICK_SIZE_def U128_MAX_def

definition resumed_frame :: claim_frame where
  "resumed_frame = \<lparr>cf_base = 1000000, cf_at_probe = 0, cf_measured = None, cf_budget = 3000000\<rparr>"

definition resumed_log :: "u128 list \<Rightarrow> claim_log" where
  "resumed_log ns = \<lparr> lg_load = 1500000, lg_book = \<lparr> bk_claims = map (\<lambda>n. (1500000, n, Inr ())) ns,
     bk_reads = [resumed_deal, resumed_deal], bk_accept = None \<rparr> \<rparr>"

lemma resumed_turns:
  "lg_book l = lg_book (resumed_log []) \<Longrightarrow>
    claim_turn_of (logged resumed_world) immediate_windows resumed_frame 1000000 needs (w, l)
      = Some ((w, resumed_log [2000000]), Inr (Again 2000000 True))"
  "claim_turn_of (logged resumed_world) immediate_windows resumed_frame 2000000 needs (w, resumed_log [2000000])
    = Some ((w, resumed_log [2000000, 2500000]), Inr (Again 2500000 True))"
  "claim_turn_of (logged resumed_world) immediate_windows resumed_frame 2500000 needs (w, resumed_log ns)
    = Some ((w, resumed_log ns), Inr (Leave 2500000 needs))"
  by (simp_all add: resumed_eval immediate_windows_def resumed_frame_def resumed_log_def del: logged_sel)

lemma resumed_loop:
  "lg_book l = lg_book (resumed_log []) \<Longrightarrow>
    claim_loop (logged resumed_world) immediate_windows resumed_frame 1000000 False (w, l)
      = Some ((w, resumed_log [2000000, 2500000]), Inr (2500000, True))"
  by (subst claim_loop.simps, simp add: resumed_turns)+

text \<open>The driver claims 2000000 and then 2500000.\<close>

lemma resumed_run:
  "drive_advance (logged resumed_world) immediate_windows 3 1000000 True (w, empty_log)
    = Some ((w, resumed_log [2000000, 2500000]), Inr 2500000)"
  using resumed_loop [unfolded resumed_frame_def,
      of "empty_log\<lparr>lg_book := lg_book (resumed_log [])\<rparr>" w]
  by (simp add: drive_advance_def probe_phase_def claim_phase_def finalize_phase_def validated_claim_high_water_def
      result_simps saturating_mul_def resumed_eval resumed_deal_def empty_log_def resumed_log_def del: logged_sel)

theorem claims_never_exceed_delivery_witness:
  "dcs_tokens_pending (last (bk_reads (lg_book (resumed_log [2000000, 2500000])))) = 1000000
    \<and> (2500000 :: nat) \<le> 1000000 + (1500000 - 0)
    \<and> steps_within (rate_limit immediate_windows) 1000000 (bk_claims (lg_book (resumed_log [2000000, 2500000])))"
  using claims_never_exceed_delivery [OF resumed_run [of "()"]] by (simp add: resumed_log_def resumed_deal_def)

end
