(* ===== verification/Accumulator.thy ===== *)
theory Accumulator
  imports JsonReads
begin

text \<open>
  The Shell Accumulator's money arithmetic, \<open>src/crates/core/src/accumulator.rs\<close>: the plan of a sell
  (which lots, in which order), the plan of a buy, the amounts as text, and the decoders of the root's
  and the lots' getters. Log texts and error texts are left out; an error keeps its figures. A machine
  word has 64 bits, so \<open>usize::try_from\<close> bounds by \<open>U64_MAX\<close>; whether the allocator can reserve the lots is
  the parameter \<open>reserve\<close>.
\<close>

definition USDC_UNIT :: u128 where "USDC_UNIT = 1000000"
definition ACCUMULATOR_SHELL_PER_USDC_RAW :: u128 where "ACCUMULATOR_SHELL_PER_USDC_RAW = 100 * SHELL_UNIT"
definition ACCUMULATOR_DENOMS :: "u16 list" where "ACCUMULATOR_DENOMS = [1000, 100, 10, 1]"

lemmas accumulator_params = USDC_UNIT_def ACCUMULATOR_SHELL_PER_USDC_RAW_def SHELL_UNIT_def ACCUMULATOR_DENOMS_def

section \<open>Planning a sell\<close>

record SellLot =
  sl_denom :: u16
  sl_shell_raw :: u128

record SellPlan =
  sp_lots :: "SellLot list"
  sp_usdc_whole :: u128
  sp_shell_committed_raw :: u128
  sp_usdc_expected_raw :: u128

datatype SellPlanError = SellZeroAmount | SellOverflow | InsufficientShell u128 u128

definition max_whole_usdc_from_shell :: "u128 \<Rightarrow> u128" where
  "max_whole_usdc_from_shell shell_raw = shell_raw div ACCUMULATOR_SHELL_PER_USDC_RAW"

definition shell_remainder_raw :: "u128 \<Rightarrow> u128" where
  "shell_remainder_raw shell_raw = shell_raw mod ACCUMULATOR_SHELL_PER_USDC_RAW"

text \<open>The number of lots, with every addition checked.\<close>

fun count_lots :: "u16 list \<Rightarrow> u128 \<times> u128 \<Rightarrow> (u128 \<times> u128) option" where
  "count_lots [] acc = Some acc"
| "count_lots (denom # denoms) (total_lots, left) =
    (case checked_add U128_MAX total_lots (left div denom) of
       None \<Rightarrow> None
     | Some next_total \<Rightarrow> count_lots denoms (next_total, left mod denom))"

fun push_lots :: "u16 list \<Rightarrow> u128 \<Rightarrow> SellLot list" where
  "push_lots [] left = []"
| "push_lots (denom # denoms) left =
    replicate (left div denom) \<lparr>sl_denom = denom, sl_shell_raw = denom * ACCUMULATOR_SHELL_PER_USDC_RAW\<rparr>
    @ push_lots denoms (left - left div denom * denom)"

definition sell_for_whole_usdc :: "(nat \<Rightarrow> bool) \<Rightarrow> u128 \<Rightarrow> SellPlanError + SellPlan" where
  "sell_for_whole_usdc reserve usdc_whole =
    refuse_if (usdc_whole = 0) SellZeroAmount
    (ok_or_else (checked_mul U128_MAX usdc_whole ACCUMULATOR_SHELL_PER_USDC_RAW) SellOverflow (\<lambda>shell_committed.
    ok_or_else (checked_mul U128_MAX usdc_whole USDC_UNIT) SellOverflow (\<lambda>usdc_expected.
    ok_or_else (count_lots ACCUMULATOR_DENOMS (0, usdc_whole)) SellOverflow (\<lambda>counted.
    ok_or_else (try_from U64_MAX (fst counted)) SellOverflow (\<lambda>lot_count.
    refuse_if (\<not> reserve lot_count) SellOverflow
    (Inr \<lparr> sp_lots = push_lots ACCUMULATOR_DENOMS usdc_whole, sp_usdc_whole = usdc_whole,
           sp_shell_committed_raw = shell_committed, sp_usdc_expected_raw = usdc_expected \<rparr>))))))"

definition sell_for_available_shell :: "(nat \<Rightarrow> bool) \<Rightarrow> u128 \<Rightarrow> SellPlanError + SellPlan" where
  "sell_for_available_shell reserve shell_available =
    sell_for_whole_usdc reserve (max_whole_usdc_from_shell shell_available)"

definition sell_require_funded :: "SellPlan \<Rightarrow> u128 \<Rightarrow> SellPlanError + unit" where
  "sell_require_funded plan available_raw =
    refuse_if (available_raw < sp_shell_committed_raw plan)
      (InsufficientShell (sp_shell_committed_raw plan) available_raw) (Inr ())"

definition lot_count :: "SellPlan \<Rightarrow> nat" where
  "lot_count plan = length (sp_lots plan)"

definition shell_left_raw :: "SellPlan \<Rightarrow> u128 \<Rightarrow> u128" where
  "shell_left_raw plan available_raw = saturating_sub available_raw (sp_shell_committed_raw plan)"

definition denomination_counts :: "SellPlan \<Rightarrow> (u16 \<times> nat) list" where
  "denomination_counts plan =
    List.map_filter (\<lambda>denom.
      let count = length (filter (\<lambda>lot. sl_denom lot = denom) (sp_lots plan)) in
      if 0 < count then Some (denom, count) else None) ACCUMULATOR_DENOMS"

section \<open>Planning a buy\<close>

record BuyPlan =
  bp_usdc_whole :: u128
  bp_usdc_raw :: u128
  bp_shell_expected_raw :: u128

datatype BuyPlanError = BuyZeroAmount | BuyOverflow | InsufficientUsdc u128 u128

definition buy_for_whole_usdc :: "u128 \<Rightarrow> BuyPlanError + BuyPlan" where
  "buy_for_whole_usdc usdc_whole =
    refuse_if (usdc_whole = 0) BuyZeroAmount
    (ok_or_else (checked_mul U128_MAX usdc_whole USDC_UNIT) BuyOverflow (\<lambda>usdc_raw.
    ok_or_else (checked_mul U128_MAX usdc_whole ACCUMULATOR_SHELL_PER_USDC_RAW) BuyOverflow (\<lambda>shell_expected.
    Inr \<lparr> bp_usdc_whole = usdc_whole, bp_usdc_raw = usdc_raw, bp_shell_expected_raw = shell_expected \<rparr>)))"

definition buy_require_funded :: "BuyPlan \<Rightarrow> u128 \<Rightarrow> BuyPlanError + unit" where
  "buy_require_funded plan available_raw =
    refuse_if (available_raw < bp_usdc_raw plan) (InsufficientUsdc (bp_usdc_raw plan) available_raw) (Inr ())"

section \<open>Amounts as text\<close>

definition zero_padded :: "nat \<Rightarrow> nat \<Rightarrow> string" where
  "zero_padded width n = replicate (width - length (show_nat n)) (CHR ''0'') @ show_nat n"

definition decimal_units :: "u128 \<Rightarrow> u128 \<Rightarrow> nat \<Rightarrow> string" where
  "decimal_units raw unit decimals = show_nat (raw div unit) @ ''.'' @ zero_padded decimals (raw mod unit)"

definition whole_shell_from_raw :: "u128 \<Rightarrow> string" where
  "whole_shell_from_raw raw = decimal_units raw SHELL_UNIT 9"

definition whole_usdc_from_raw :: "u128 \<Rightarrow> string" where
  "whole_usdc_from_raw raw = decimal_units raw USDC_UNIT 6"

section \<open>Decoding the getters\<close>

datatype acc_getter_error =
    FieldMissing string | NeitherStringNorInteger string | BadInteger string | NotAString string
  | DenomTooWide | ClaimedNotABool

definition acc_getter_field :: "json \<Rightarrow> string \<Rightarrow> acc_getter_error + json" where
  "acc_getter_field v field = ok_or_else (json_get v field) (FieldMissing field) Inr"

definition acc_getter_uint :: "nat \<Rightarrow> json \<Rightarrow> string \<Rightarrow> acc_getter_error + nat" where
  "acc_getter_uint m v field =
    bindR (acc_getter_field v field) (\<lambda>raw.
    case as_u64 raw of
      Some n \<Rightarrow> Inr n
    | None \<Rightarrow> ok_or_else (as_str raw) (NeitherStringNorInteger field) (\<lambda>text.
              ok_or_else (parse_uint m text) (BadInteger field) Inr))"

definition acc_getter_string :: "json \<Rightarrow> string \<Rightarrow> acc_getter_error + string" where
  "acc_getter_string v field =
    bindR (acc_getter_field v field) (\<lambda>raw. ok_or_else (as_str raw) (NotAString field) Inr)"

record LotId =
  li_denom :: u16
  li_order_id :: u64

record QueueState =
  qs_next_id :: u64
  qs_available :: u64
  qs_sold_prefix :: u64
  qs_owed_count :: u64

definition decode_queue_state :: "json \<Rightarrow> acc_getter_error + QueueState" where
  "decode_queue_state v =
    bindR (acc_getter_uint U64_MAX v ''nextId'') (\<lambda>next_id.
    bindR (acc_getter_uint U64_MAX v ''available'') (\<lambda>available.
    bindR (acc_getter_uint U64_MAX v ''soldPrefix'') (\<lambda>sold_prefix.
    bindR (acc_getter_uint U64_MAX v ''owedCount'') (\<lambda>owed_count.
    Inr \<lparr> qs_next_id = next_id, qs_available = available, qs_sold_prefix = sold_prefix,
          qs_owed_count = owed_count \<rparr>))))"

definition is_sold :: "QueueState \<Rightarrow> u64 \<Rightarrow> bool" where
  "is_sold queue order_id \<longleftrightarrow> order_id \<noteq> 0 \<and> order_id \<le> qs_sold_prefix queue"

definition issued_order_ids :: "QueueState \<Rightarrow> u64 list" where
  "issued_order_ids queue = [1..<qs_next_id queue]"

record LotDetails =
  ld_root :: string
  ld_owner :: string
  ld_denom :: u16
  ld_order_id :: u64
  ld_claimed :: bool

definition decode_lot_details :: "json \<Rightarrow> acc_getter_error + LotDetails" where
  "decode_lot_details v =
    bindR (acc_getter_string v ''root'') (\<lambda>root.
    bindR (acc_getter_string v ''owner'') (\<lambda>owner.
    bindR (acc_getter_uint U64_MAX v ''denom'') (\<lambda>wide.
    ok_or_else (try_from 65535 wide) DenomTooWide (\<lambda>denom.
    bindR (acc_getter_uint U64_MAX v ''orderId'') (\<lambda>order_id.
    ok_or_else (Option.bind (json_get v ''claimed'') as_bool) ClaimedNotABool (\<lambda>claimed.
    Inr \<lparr> ld_root = root, ld_owner = owner, ld_denom = denom, ld_order_id = order_id, ld_claimed = claimed \<rparr>))))))"

definition lot_id :: "LotDetails \<Rightarrow> LotId" where
  "lot_id d = \<lparr> li_denom = ld_denom d, li_order_id = ld_order_id d \<rparr>"

record RootDetails =
  rd_seller_shell_pool_raw :: u128
  rd_usdc_balance_raw :: u128
  rd_owed_total_raw :: u128

definition decode_root_details :: "json \<Rightarrow> acc_getter_error + RootDetails" where
  "decode_root_details v =
    bindR (acc_getter_uint U128_MAX v ''sellerShellPool'') (\<lambda>pool.
    bindR (acc_getter_uint U128_MAX v ''usdcBalance'') (\<lambda>balance.
    bindR (acc_getter_uint U128_MAX v ''owedTotal'') (\<lambda>owed.
    Inr \<lparr> rd_seller_shell_pool_raw = pool, rd_usdc_balance_raw = balance, rd_owed_total_raw = owed \<rparr>)))"

definition free_reserve_raw :: "RootDetails \<Rightarrow> u128" where
  "free_reserve_raw d = saturating_sub (rd_usdc_balance_raw d) (rd_owed_total_raw d)"

section \<open>The lots of a plan\<close>

text \<open>The number of lots the greedy decomposition uses.\<close>

definition greedy_count :: "nat \<Rightarrow> nat" where
  "greedy_count n = n div 1000 + n mod 1000 div 100 + n mod 100 div 10 + n mod 10"

lemma push_lots_denoms:
  "push_lots ACCUMULATOR_DENOMS n =
    map (\<lambda>d. \<lparr>sl_denom = d, sl_shell_raw = d * ACCUMULATOR_SHELL_PER_USDC_RAW\<rparr>)
      (replicate (n div 1000) 1000 @ replicate (n mod 1000 div 100) 100 @ replicate (n mod 100 div 10) 10
       @ replicate (n mod 10) 1)"
proof -
  have "n - n div 1000 * 1000 = n mod 1000" "n mod 1000 - n mod 1000 div 100 * 100 = n mod 100"
    "n mod 100 - n mod 100 div 10 * 10 = n mod 10"
    by (simp_all add: minus_div_mult_eq_mod mod_mod_cancel)
  then show ?thesis by (simp add: ACCUMULATOR_DENOMS_def)
qed

lemma split_digit: "r < k \<Longrightarrow> (k * q + r) div k = q \<and> (k * q + r) mod k = (r :: nat)"
  by simp

lemma greedy_count_digits:
  assumes "a < 10" "b < 10" "c < 10"
  shows "greedy_count (1000 * q + 100 * a + 10 * b + c) = q + a + b + c"
proof -
  let ?n = "1000 * q + 100 * a + 10 * b + c"
  have n: "?n = 1000 * q + (100 * a + (10 * b + c))" "?n = 100 * (10 * q + a) + (10 * b + c)"
    "?n = 10 * (100 * q + 10 * a + b) + c"
    by simp_all
  have "?n div 1000 = q" "?n mod 1000 = 100 * a + (10 * b + c)"
    using split_digit [of "100 * a + (10 * b + c)" 1000 q] assms unfolding n(1) by auto
  moreover have "?n mod 100 = 10 * b + c"
    using split_digit [of "10 * b + c" 100 "10 * q + a"] assms unfolding n(2) by auto
  moreover have "?n mod 10 = c"
    using split_digit [of c 10 "100 * q + 10 * a + b"] assms unfolding n(3) by auto
  moreover have "(100 * a + (10 * b + c)) div 100 = a" "(10 * b + c) div 10 = b"
    using split_digit [of "10 * b + c" 100 a] split_digit [of c 10 b] assms by auto
  ultimately show ?thesis unfolding greedy_count_def by metis
qed

lemma digits_sum: "(n :: nat) = 1000 * (n div 1000) + 100 * (n mod 1000 div 100) + 10 * (n mod 100 div 10) + n mod 10"
  using mult_div_mod_eq [of 1000 n] mult_div_mod_eq [of 100 "n mod 1000"] mult_div_mod_eq [of 10 "n mod 100"]
    mod_mod_cancel [of 100 1000 n, simplified] mod_mod_cancel [of 10 100 n, simplified]
  by linarith

lemma digits_exist:
  obtains q a b c :: nat where "n = 1000 * q + 100 * a + 10 * b + c" and "a < 10" "b < 10" "c < 10"
  using digits_sum [of n] by (rule that) auto

lemma greedy_count_le: "greedy_count n \<le> n"
  by (rule digits_exist [of n]) (auto simp: greedy_count_digits)

lemma count_lots_greedy: "n \<le> U128_MAX \<Longrightarrow> count_lots ACCUMULATOR_DENOMS (0, n) = Some (greedy_count n, 0)"
proof -
  assume n: "n \<le> U128_MAX"
  have parts: "n mod 1000 mod 100 = n mod 100" "n mod 100 mod 10 = n mod 10"
    by (simp_all add: mod_mod_cancel)
  have "n div 1000 \<le> U128_MAX" "n div 1000 + n mod 1000 div 100 \<le> U128_MAX"
    "n div 1000 + n mod 1000 div 100 + n mod 100 div 10 \<le> U128_MAX"
    "n div 1000 + n mod 1000 div 100 + n mod 100 div 10 + n mod 10 \<le> U128_MAX"
    using n greedy_count_le [of n] unfolding greedy_count_def by linarith+
  then show ?thesis
    by (simp add: ACCUMULATOR_DENOMS_def checked_add_def parts greedy_count_def)
qed

text \<open>One more unit of any denomination costs at most one more lot: greedy is never beaten.\<close>

lemma greedy_count_step:
  assumes "d \<in> set ACCUMULATOR_DENOMS"
  shows "greedy_count (n + d) \<le> Suc (greedy_count n)"
proof -
  obtain q a b c where n: "n = 1000 * q + 100 * a + 10 * b + c" and d: "a < 10" "b < 10" "c < 10"
    by (rule digits_exist)
  note at = greedy_count_digits
  consider "d = 1000" | "d = 100" | "d = 10" | "d = 1" using assms by (auto simp: ACCUMULATOR_DENOMS_def)
  then show ?thesis
  proof cases
    case 1
    then show ?thesis using at [OF d, of q] at [OF d, of "Suc q"] by (simp add: n ac_simps)
  next
    case 2
    then show ?thesis
      using d at [OF d, of q] at [of "Suc a" b c q] at [of 0 b c "Suc q"] by (cases "a = 9") (simp_all add: n ac_simps)
  next
    case 3
    then show ?thesis
      using d at [OF d, of q] at [of a "Suc b" c q] at [of "Suc a" 0 c q] at [of 0 0 c "Suc q"]
      by (cases "b = 9"; cases "a = 9") (simp_all add: n ac_simps)
  next
    case 4
    then show ?thesis
      using d at [OF d, of q] at [of a b "Suc c" q] at [of a "Suc b" 0 q] at [of "Suc a" 0 0 q]
        at [of 0 0 0 "Suc q"]
      by (cases "c = 9"; cases "b = 9"; cases "a = 9") (simp_all add: n ac_simps)
  qed
qed

lemma greedy_count_optimal: "set ds \<subseteq> set ACCUMULATOR_DENOMS \<Longrightarrow> greedy_count (sum_list ds) \<le> length ds"
proof (induction ds)
  case (Cons d ds)
  then show ?case using greedy_count_step [of d "sum_list ds"] by (simp add: add.commute)
qed (simp add: greedy_count_def)

lemma sorted_wrt_same: "sorted_wrt (\<ge>) (replicate k (d :: nat))"
  by (induction k) auto

text \<open>The printed amounts lose nothing: six or nine digits after the point, and the value is the amount.\<close>

lemma decimal_units_exact:
  assumes "0 < decimals"
  shows "\<exists>whole fraction. decimal_units raw (10 ^ decimals) decimals = whole @ ''.'' @ fraction
    \<and> length fraction = decimals \<and> dec_val whole * 10 ^ decimals + dec_val fraction = raw"
proof -
  have "length (show_nat (raw mod 10 ^ decimals)) \<le> decimals" using assms by (intro length_show_nat) auto
  then show ?thesis
    by - (rule exI [of _ "show_nat (raw div 10 ^ decimals)"],
        rule exI [of _ "zero_padded decimals (raw mod 10 ^ decimals)"], simp add: decimal_units_def zero_padded_def dec_val_append div_mult_mod_eq)
qed

text \<open>When a plan exists, and what it is.\<close>

lemma sell_plan_iff:
  "sell_for_whole_usdc reserve n = Inr plan \<longleftrightarrow>
    0 < n \<and> n * ACCUMULATOR_SHELL_PER_USDC_RAW \<le> U128_MAX \<and> greedy_count n \<le> U64_MAX \<and> reserve (greedy_count n)
    \<and> plan = \<lparr> sp_lots = push_lots ACCUMULATOR_DENOMS n, sp_usdc_whole = n,
        sp_shell_committed_raw = n * ACCUMULATOR_SHELL_PER_USDC_RAW, sp_usdc_expected_raw = n * USDC_UNIT \<rparr>"
proof -
  have small: "n * ACCUMULATOR_SHELL_PER_USDC_RAW \<le> U128_MAX \<Longrightarrow> n * USDC_UNIT \<le> U128_MAX \<and> n \<le> U128_MAX"
    by (simp add: accumulator_params)
  show ?thesis
    using small
    by (auto simp: sell_for_whole_usdc_def result_simps checked_mul_def try_from_def count_lots_greedy)
qed

lemma sell_plan_lots:
  assumes plan: "sell_for_whole_usdc reserve n = Inr plan"
  shows "set (map sl_denom (sp_lots plan)) \<subseteq> set ACCUMULATOR_DENOMS
     \<and> (\<forall>lot \<in> set (sp_lots plan). sl_shell_raw lot = sl_denom lot * ACCUMULATOR_SHELL_PER_USDC_RAW)
     \<and> sorted_wrt (\<ge>) (map sl_denom (sp_lots plan))
     \<and> sum_list (map sl_denom (sp_lots plan)) = n
     \<and> sum_list (map sl_shell_raw (sp_lots plan)) = sp_shell_committed_raw plan
     \<and> (\<forall>ds. set ds \<subseteq> set ACCUMULATOR_DENOMS \<longrightarrow> sum_list ds = n \<longrightarrow> lot_count plan \<le> length ds)"
proof -
  let ?ds = "replicate (n div 1000) 1000 @ replicate (n mod 1000 div 100) 100 @ replicate (n mod 100 div 10) 10
       @ replicate (n mod 10) (1 :: nat)"
  have sum: "sum_list ?ds = n" using digits_sum [of n] by (simp add: sum_list_replicate mult.commute)
  have lots: "sp_lots plan = map (\<lambda>d. \<lparr>sl_denom = d, sl_shell_raw = d * ACCUMULATOR_SHELL_PER_USDC_RAW\<rparr>) ?ds"
    "sp_shell_committed_raw plan = n * ACCUMULATOR_SHELL_PER_USDC_RAW"
    using plan by (auto simp: sell_plan_iff push_lots_denoms)
  have denoms: "map sl_denom (sp_lots plan) = ?ds" unfolding lots by (simp add: comp_def)
  have shells: "map sl_shell_raw (sp_lots plan) = map (\<lambda>d. d * ACCUMULATOR_SHELL_PER_USDC_RAW) ?ds"
    unfolding lots by (simp add: comp_def)
  have paid: "sum_list (map sl_shell_raw (sp_lots plan)) = n * ACCUMULATOR_SHELL_PER_USDC_RAW"
    unfolding shells sum_list_mult_const map_ident sum by (rule refl)
  have "sorted_wrt (\<ge>) ?ds" by (auto simp: sorted_wrt_append sorted_wrt_same)
  moreover have "set ?ds \<subseteq> set ACCUMULATOR_DENOMS" by (auto simp: ACCUMULATOR_DENOMS_def)
  moreover have "lot_count plan = greedy_count n" by (simp add: lot_count_def lots greedy_count_def)
  moreover have "\<forall>lot \<in> set (sp_lots plan). sl_shell_raw lot = sl_denom lot * ACCUMULATOR_SHELL_PER_USDC_RAW"
    by (auto simp: lots(1))
  moreover have "\<forall>ds. set ds \<subseteq> set ACCUMULATOR_DENOMS \<longrightarrow> sum_list ds = n \<longrightarrow> greedy_count n \<le> length ds"
    using greedy_count_optimal by auto
  ultimately show ?thesis
    unfolding denoms paid sum lots(2) by simp
qed

lemma sell_plan_left:
  assumes "sell_for_available_shell reserve shell = Inr full"
  shows "sp_shell_committed_raw full \<le> shell \<and> shell_left_raw full shell = shell_remainder_raw shell
     \<and> shell_remainder_raw shell < ACCUMULATOR_SHELL_PER_USDC_RAW"
  using assms
  by (auto simp: sell_for_available_shell_def sell_plan_iff shell_left_raw_def saturating_sub_def
      shell_remainder_raw_def max_whole_usdc_from_shell_def minus_div_mult_eq_mod accumulator_params)

text \<open>
  C37: A sell plan is exact and minimal. A plan for \<open>n\<close> whole eccUSDC exists exactly if \<open>n\<close> is positive, its
  SHELL fits 128 bits and its lots can be reserved; its lots are of the four sizes the accumulator accepts,
  each at its exact price, largest first; their sizes add up to \<open>n\<close> and their SHELL to what the plan
  commits; no other choice of accepted sizes with the same sum has fewer lots. The plan for a whole
  balance commits all of it but a remainder below one lot.
\<close>

theorem sell_plan_exact:
  "((\<exists>plan. sell_for_whole_usdc reserve n = Inr plan) \<longleftrightarrow>
     0 < n \<and> n * ACCUMULATOR_SHELL_PER_USDC_RAW \<le> U128_MAX \<and> greedy_count n \<le> U64_MAX \<and> reserve (greedy_count n))
   \<and> (\<forall>plan. sell_for_whole_usdc reserve n = Inr plan \<longrightarrow>
        set (map sl_denom (sp_lots plan)) \<subseteq> set ACCUMULATOR_DENOMS
        \<and> (\<forall>lot \<in> set (sp_lots plan). sl_shell_raw lot = sl_denom lot * ACCUMULATOR_SHELL_PER_USDC_RAW)
        \<and> sorted_wrt (\<ge>) (map sl_denom (sp_lots plan))
        \<and> sum_list (map sl_denom (sp_lots plan)) = n
        \<and> sum_list (map sl_shell_raw (sp_lots plan)) = sp_shell_committed_raw plan
        \<and> (\<forall>ds. set ds \<subseteq> set ACCUMULATOR_DENOMS \<longrightarrow> sum_list ds = n \<longrightarrow> lot_count plan \<le> length ds))
   \<and> (\<forall>shell full. sell_for_available_shell reserve shell = Inr full \<longrightarrow>
        sp_shell_committed_raw full \<le> shell \<and> shell_left_raw full shell = shell_remainder_raw shell
        \<and> shell_remainder_raw shell < ACCUMULATOR_SHELL_PER_USDC_RAW)"
  using sell_plan_lots sell_plan_left by (simp add: sell_plan_iff)

theorem sell_plan_exact_witness:
  "\<exists>plan. sell_for_whole_usdc (\<lambda>_. True) 2034 = Inr plan \<and> lot_count plan = 9
    \<and> (\<forall>ds. set ds \<subseteq> set ACCUMULATOR_DENOMS \<longrightarrow> sum_list ds = 2034 \<longrightarrow> 9 \<le> length ds)"
proof -
  obtain plan where plan: "sell_for_whole_usdc (\<lambda>_. True) 2034 = Inr plan"
    using sell_plan_exact [of "\<lambda>_. True" 2034] by (auto simp: accumulator_params U128_MAX_def U64_MAX_def greedy_count_def)
  moreover have "lot_count plan = 9"
    using plan by (auto simp: sell_plan_iff lot_count_def push_lots_denoms)
  ultimately show ?thesis using sell_plan_exact [of "\<lambda>_. True" 2034] by fastforce
qed

end
