(* ===== verification/AccumulatorDesk.thy ===== *)
theory AccumulatorDesk
  imports Accumulator Effects Params
begin

text \<open>
  The exchange commands, \<open>src/crates/dexdo/src/cli/accumulator.rs\<close>: \<open>sell\<close>, \<open>buy\<close> and \<open>claim\<close> spend from
  the operator wallet, each behind a durable intent that is written before the first message and removed
  only when the chain shows the outcome. The chain, the SDK and the file system are calls on one world
  (record \<open>AccWorld\<close>); the intent file is part of the state, as the commands own it. \<open>dk_events\<close> is the
  history the theorems speak of and no operation reads it. Opening the wallet (\<open>Spender::open\<close>, with the
  wallet's lock) happens before: \<open>owner\<close> is its address. What is printed is left out.
\<close>

definition GAS_BALANCE_CONFIRM_MAX_READS :: nat where "GAS_BALANCE_CONFIRM_MAX_READS = 20"
definition GAS_BALANCE_CONFIRM_POLL_INTERVAL :: secs where "GAS_BALANCE_CONFIRM_POLL_INTERVAL = 2"
definition SHELL_CURRENCY_ID :: u32 where "SHELL_CURRENCY_ID = 2"
definition USDC_CURRENCY_ID :: u32 where "USDC_CURRENCY_ID = 3"
definition ACCUMULATOR_WALLET_MESSAGE_GAS_RAW :: u128 where "ACCUMULATOR_WALLET_MESSAGE_GAS_RAW = 16888658"

definition ACCUMULATOR_ROOT_ADDRESS :: string where
  "ACCUMULATOR_ROOT_ADDRESS = ''0:'' @ concat (replicate 32 ''35'')"

definition ACCUMULATOR_DAPP_ID :: string where
  "ACCUMULATOR_DAPP_ID = replicate 63 (CHR ''0'') @ ''1''"

definition ACCUMULATOR_ROOT_VERSION :: "string \<times> string" where
  "ACCUMULATOR_ROOT_VERSION = (''1.0.2'', ''ShellAccumulatorRootUSDC'')"

definition ACCUMULATOR_LOT_VERSION :: "string \<times> string" where
  "ACCUMULATOR_LOT_VERSION = (''1.0.2'', ''ShellSellOrderLot'')"

section \<open>The world of the commands\<close>

datatype acc_error =
    WorldError string | RootNotActive | NoGetterAnswer | WrongVersion string string | BadGetter acc_getter_error
  | NoLotAddress | BadAddress string | CreditOverflow | GasOverflow | NotEnoughGas u128 u128 | PersistFailed
  | WalletMissing | TransferRefused bool int | BadIntent | StillPending | SellRefused SellPlanError
  | BuyRefused BuyPlanError | BelowGasFloor u128 | LotsMissing nat nat | CreditNotSeen | LotNotSold LotId

record account =
  ac_balance :: u128
  ac_ecc :: "u32 \<Rightarrow> u128"
  ac_active :: bool

record receipt =
  rc_aborted :: bool
  rc_action_result_code :: int

text \<open>A message of the wallet: a bare currency transfer, or the claim of a lot.\<close>

datatype acc_message = SendEcc string u32 u128 | ClaimLot string

datatype PendingOperation =
    PendingBuy string string string string
  | PendingSell "(u16, u64) hash_map" "u16 list"
  | PendingClaim "(u16 \<times> u64) list"

text \<open>
  A write renames a complete temporary file over the old one and then syncs the directory: it may fail
  before the rename, or after it.
\<close>

datatype write_outcome = NotWritten | RenamedNotSynced | Written

record 'w AccWorld =
  ax_getter :: "string \<Rightarrow> string \<Rightarrow> json \<Rightarrow> ('w, acc_error, json option) call"
  ax_account_in_dapp :: "string \<Rightarrow> string \<Rightarrow> ('w, acc_error, account option) call"
  ax_account :: "string \<Rightarrow> ('w, acc_error, account option) call"
  ax_parse :: "string \<Rightarrow> string option"
  ax_encode :: "acc_message \<Rightarrow> ('w, acc_error, unit) call"
  ax_preflight :: "('w, acc_error, unit) call"
  ax_post :: "acc_message \<Rightarrow> ('w, acc_error, unit) call"
  ax_receipt :: "acc_message \<Rightarrow> ('w, acc_error, receipt option) call"
  ax_read_file :: "('w, acc_error, unit) call"
  ax_write_file :: "'w \<Rightarrow> 'w \<times> write_outcome"
  ax_remove_file :: "('w, acc_error, unit) call"
  ax_sleep :: "secs \<Rightarrow> 'w \<Rightarrow> 'w"
  ax_reserve :: "nat \<Rightarrow> bool"

datatype acc_event = Persisted PendingOperation | Posted acc_message | Cleared

record 'w desk =
  dk_chain :: 'w
  dk_file :: "PendingOperation option"
  dk_events :: "acc_event list"

definition on_desk :: "('w, 'e, 'a) call \<Rightarrow> ('w desk, 'e, 'a) call" where
  "on_desk m s = (case m (dk_chain s) of (w, r) \<Rightarrow> (s\<lparr>dk_chain := w\<rparr>, r))"

definition nap :: "'w AccWorld \<Rightarrow> ('w desk, acc_error, unit) call" where
  "nap W s = (s\<lparr>dk_chain := ax_sleep W GAS_BALANCE_CONFIRM_POLL_INTERVAL (dk_chain s)\<rparr>, Inr ())"

definition ok_orS :: "'a option \<Rightarrow> 'e \<Rightarrow> ('s, 'e, 'a) call" where
  "ok_orS x e = liftS (ok_or_else x e Inr)"

definition ensureS :: "bool \<Rightarrow> 'e \<Rightarrow> ('s, 'e, unit) call" where
  "ensureS c e = liftS (refuse_if (\<not> c) e (Inr ()))"

section \<open>Reading the accumulator\<close>

text \<open>A \<open>LiveLot\<close>: the address is the parsed one.\<close>

record LiveLot =
  ll_id :: LotId
  ll_address :: string
  ll_details :: LotDetails
  ll_sold :: bool

definition run_getter :: "'w AccWorld \<Rightarrow> string \<Rightarrow> string \<Rightarrow> json \<Rightarrow> acc_error \<Rightarrow> ('w desk, acc_error, json) call" where
  "run_getter W address method args missing =
    bindS (on_desk (ax_getter W address method args)) (\<lambda>answer. ok_orS answer missing)"

definition check_version :: "json \<Rightarrow> string \<times> string \<Rightarrow> ('s, acc_error, unit) call" where
  "check_version version want =
    (let got_version = (case as_str (json_at version ''value0'') of Some t \<Rightarrow> t | None \<Rightarrow> []);
         got_name = (case as_str (json_at version ''value1'') of Some t \<Rightarrow> t | None \<Rightarrow> []) in
     ensureS (\<not> (got_version \<noteq> fst want \<or> got_name \<noteq> snd want)) (WrongVersion got_version got_name))"

definition assert_root_identity :: "'w AccWorld \<Rightarrow> ('w desk, acc_error, unit) call" where
  "assert_root_identity W =
    bindS (run_getter W ACCUMULATOR_ROOT_ADDRESS ''getVersion'' (JObj []) RootNotActive) (\<lambda>version.
    check_version version ACCUMULATOR_ROOT_VERSION)"

definition queue_of :: "'w AccWorld \<Rightarrow> u16 \<Rightarrow> ('w desk, acc_error, QueueState) call" where
  "queue_of W denom =
    bindS (run_getter W ACCUMULATOR_ROOT_ADDRESS ''getQueueState'' (JObj [(''D'', JNum (int denom))]) NoGetterAnswer)
      (\<lambda>raw. liftS (map_err BadGetter (decode_queue_state raw)))"

definition root_details :: "'w AccWorld \<Rightarrow> ('w desk, acc_error, RootDetails) call" where
  "root_details W =
    bindS (run_getter W ACCUMULATOR_ROOT_ADDRESS ''getDetails'' (JObj []) NoGetterAnswer)
      (\<lambda>raw. liftS (map_err BadGetter (decode_root_details raw)))"

definition lot_address :: "'w AccWorld \<Rightarrow> LotId \<Rightarrow> ('w desk, acc_error, string) call" where
  "lot_address W i =
    bindS (run_getter W ACCUMULATOR_ROOT_ADDRESS ''getSellOrderAddress''
      (JObj [(''D'', JNum (int (li_denom i))), (''orderId'', JStr (show_nat (li_order_id i)))]) NoGetterAnswer) (\<lambda>raw.
    bindS (ok_orS (as_str (json_at raw ''sellOrderAddr'')) NoLotAddress) (\<lambda>addr.
    ok_orS (ax_parse W addr) (BadAddress addr)))"

definition lot_details :: "'w AccWorld \<Rightarrow> string \<Rightarrow> ('w desk, acc_error, LotDetails option) call" where
  "lot_details W address =
    bindS (ok_orS (ax_parse W ACCUMULATOR_DAPP_ID) (BadAddress ACCUMULATOR_DAPP_ID)) (\<lambda>dapp.
    bindS (on_desk (ax_account_in_dapp W address dapp)) (\<lambda>account.
    case account of
      None \<Rightarrow> returnS None
    | Some a \<Rightarrow>
        if \<not> ac_active a then returnS None
        else bindS (on_desk (ax_getter W address ''getDetails'' (JObj []))) (\<lambda>answer.
             case answer of
               None \<Rightarrow> returnS None
             | Some raw \<Rightarrow> liftS (map_err BadGetter (bindR (decode_lot_details raw) (\<lambda>d. Inr (Some d)))))))"

definition assert_lot_identity :: "'w AccWorld \<Rightarrow> string \<Rightarrow> ('w desk, acc_error, unit) call" where
  "assert_lot_identity W address =
    bindS (run_getter W address ''getVersion'' (JObj []) RootNotActive) (\<lambda>version.
    check_version version ACCUMULATOR_LOT_VERSION)"

fun assert_lots_identity :: "'w AccWorld \<Rightarrow> LiveLot list \<Rightarrow> ('w desk, acc_error, unit) call" where
  "assert_lots_identity W [] = returnS ()"
| "assert_lots_identity W (lot # lots) =
    bindS (assert_lot_identity W (ll_address lot)) (\<lambda>_. assert_lots_identity W lots)"

definition scan_floor :: "(u16, u64) hash_map \<Rightarrow> u16 \<Rightarrow> u64" where
  "scan_floor floors denom = (case hget floors denom of Some n \<Rightarrow> n | None \<Rightarrow> 1)"

fun scan_orders :: "'w AccWorld \<Rightarrow> string \<Rightarrow> QueueState \<Rightarrow> u16 \<Rightarrow> u64 list \<Rightarrow> ('w desk, acc_error, LiveLot list) call" where
  "scan_orders W owner queue denom [] = returnS []"
| "scan_orders W owner queue denom (order_id # rest) =
    (let i = \<lparr>li_denom = denom, li_order_id = order_id\<rparr> in
     bindS (lot_address W i) (\<lambda>address.
     bindS (lot_details W address) (\<lambda>details.
     bindS (scan_orders W owner queue denom rest) (\<lambda>found.
     returnS (case details of
       None \<Rightarrow> found
     | Some d \<Rightarrow>
         if ax_parse W (ld_owner d) = Some owner
         then \<lparr>ll_id = i, ll_address = address, ll_details = d, ll_sold = is_sold queue order_id\<rparr> # found
         else found)))))"

fun scan_queues :: "'w AccWorld \<Rightarrow> string \<Rightarrow> (u16, u64) hash_map \<Rightarrow> u16 list \<Rightarrow> ('w desk, acc_error, LiveLot list) call" where
  "scan_queues W owner floors [] = returnS []"
| "scan_queues W owner floors (denom # denoms) =
    bindS (queue_of W denom) (\<lambda>queue.
    bindS (scan_orders W owner queue denom (dropWhile (\<lambda>i. i < scan_floor floors denom) (issued_order_ids queue))) (\<lambda>found.
    bindS (scan_queues W owner floors denoms) (\<lambda>others. returnS (found @ others))))"

definition lots_owned_by_from :: "'w AccWorld \<Rightarrow> string \<Rightarrow> (u16, u64) hash_map \<Rightarrow> ('w desk, acc_error, LiveLot list) call" where
  "lots_owned_by_from W owner floors = scan_queues W owner floors ACCUMULATOR_DENOMS"

definition lots_owned_by :: "'w AccWorld \<Rightarrow> string \<Rightarrow> u64 \<Rightarrow> ('w desk, acc_error, LiveLot list) call" where
  "lots_owned_by W owner from_order_id =
    lots_owned_by_from W owner (map (\<lambda>denom. (denom, from_order_id)) ACCUMULATOR_DENOMS)"

definition confirmation_complete :: "nat \<Rightarrow> nat \<Rightarrow> bool" where
  "confirmation_complete found expected \<longleftrightarrow> expected \<le> found"

fun await_owned_lots ::
  "'w AccWorld \<Rightarrow> string \<Rightarrow> (u16, u64) hash_map \<Rightarrow> nat \<Rightarrow> nat \<Rightarrow> LiveLot list \<Rightarrow> ('w desk, acc_error, LiveLot list) call" where
  "await_owned_lots W owner floors expected 0 latest = returnS latest"
| "await_owned_lots W owner floors expected (Suc reads) latest =
    bindS (nap W) (\<lambda>_.
    bindS (lots_owned_by_from W owner floors) (\<lambda>found.
    if confirmation_complete (length found) expected then returnS found
    else await_owned_lots W owner floors expected reads found))"

section \<open>The wallet and its intent\<close>

definition expected_credit_landed :: "u128 \<Rightarrow> u128 \<Rightarrow> u128 \<Rightarrow> acc_error + bool" where
  "expected_credit_landed before_raw expected_raw now_raw =
    ok_or_else (checked_add U128_MAX before_raw expected_raw) CreditOverflow (\<lambda>target_raw. Inr (target_raw \<le> now_raw))"

definition is_claim_candidate :: "bool \<Rightarrow> bool \<Rightarrow> bool" where
  "is_claim_candidate sold claimed \<longleftrightarrow> sold \<and> \<not> claimed"

definition required_native_gas :: "nat \<Rightarrow> acc_error + u128" where
  "required_native_gas message_count =
    ok_or_else (checked_mul U128_MAX ACCUMULATOR_WALLET_MESSAGE_GAS_RAW message_count) GasOverflow Inr"

definition require_native_gas :: "u128 \<Rightarrow> nat \<Rightarrow> acc_error + unit" where
  "require_native_gas available_raw message_count =
    bindR (required_native_gas message_count) (\<lambda>required_raw.
    refuse_if (available_raw < required_raw) (NotEnoughGas available_raw required_raw) (Inr ()))"

definition persist_operation :: "'w AccWorld \<Rightarrow> PendingOperation \<Rightarrow> ('w desk, acc_error, unit) call" where
  "persist_operation W operation s =
    (case ax_write_file W (dk_chain s) of (w, outcome) \<Rightarrow>
     if outcome = NotWritten then (s\<lparr>dk_chain := w\<rparr>, Inl PersistFailed)
     else (s\<lparr>dk_chain := w, dk_file := Some operation, dk_events := dk_events s @ [Persisted operation]\<rparr>,
           if outcome = Written then Inr () else Inl PersistFailed))"

definition load_operation :: "'w AccWorld \<Rightarrow> ('w desk, acc_error, PendingOperation option) call" where
  "load_operation W = bindS (on_desk (ax_read_file W)) (\<lambda>_ s. (s, Inr (dk_file s)))"

definition clear_pending :: "'w AccWorld \<Rightarrow> ('w desk, acc_error, unit) call" where
  "clear_pending W =
    bindS (on_desk (ax_remove_file W)) (\<lambda>_ s. (s\<lparr>dk_file := None, dk_events := dk_events s @ [Cleared]\<rparr>, Inr ()))"

definition native_balance :: "'w AccWorld \<Rightarrow> string \<Rightarrow> ('w desk, acc_error, u128) call" where
  "native_balance W owner =
    bindS (on_desk (ax_account W owner)) (\<lambda>account.
    bindS (ok_orS account WalletMissing) (\<lambda>a. returnS (ac_balance a)))"

definition ecc_balance :: "'w AccWorld \<Rightarrow> string \<Rightarrow> u32 \<Rightarrow> ('w desk, acc_error, u128) call" where
  "ecc_balance W owner currency =
    bindS (on_desk (ax_account W owner)) (\<lambda>account.
    returnS (case account of Some a \<Rightarrow> ac_ecc a currency | None \<Rightarrow> 0))"

fun await_ecc_credit ::
  "'w AccWorld \<Rightarrow> string \<Rightarrow> u32 \<Rightarrow> u128 \<Rightarrow> u128 \<Rightarrow> nat \<Rightarrow> ('w desk, acc_error, u128 option) call" where
  "await_ecc_credit W owner currency before_raw expected_raw 0 = returnS None"
| "await_ecc_credit W owner currency before_raw expected_raw (Suc reads) =
    bindS (nap W) (\<lambda>_.
    bindS (ecc_balance W owner currency) (\<lambda>now_raw.
    bindS (liftS (expected_credit_landed before_raw expected_raw now_raw)) (\<lambda>landed.
    if landed then returnS (Some now_raw)
    else await_ecc_credit W owner currency before_raw expected_raw reads)))"

text \<open>The message leaves the process here, whatever the node answers.\<close>

definition post :: "'w AccWorld \<Rightarrow> acc_message \<Rightarrow> ('w desk, acc_error, unit) call" where
  "post W m s = on_desk (ax_post W m) (s\<lparr>dk_events := dk_events s @ [Posted m]\<rparr>)"

definition observe_receipt :: "'w AccWorld \<Rightarrow> acc_message \<Rightarrow> ('w desk, acc_error, unit) call" where
  "observe_receipt W m =
    bindS (tryS (on_desk (ax_receipt W m))) (\<lambda>observed.
    case observed of
      Inr (Some receipt) \<Rightarrow>
        ensureS (\<not> (rc_aborted receipt \<or> rc_action_result_code receipt \<noteq> 0))
          (TransferRefused (rc_aborted receipt) (rc_action_result_code receipt))
    | _ \<Rightarrow> returnS ())"

definition submit :: "'w AccWorld \<Rightarrow> acc_message \<Rightarrow> ('w desk, acc_error, unit) call" where
  "submit W m =
    bindS (on_desk (ax_preflight W)) (\<lambda>_.
    bindS (post W m) (\<lambda>_. observe_receipt W m))"

text \<open>\<open>send_ecc\<close> and \<open>call_method\<close>: encode the message, then submit it.\<close>

definition send_message :: "'w AccWorld \<Rightarrow> acc_message \<Rightarrow> ('w desk, acc_error, unit) call" where
  "send_message W m = bindS (on_desk (ax_encode W m)) (\<lambda>_. submit W m)"

section \<open>Reconciling an intent\<close>

definition count_denom :: "u16 \<Rightarrow> u16 list \<Rightarrow> nat" where
  "count_denom denom denoms = length (filter (\<lambda>d. d = denom) denoms)"

fun claims_complete :: "'w AccWorld \<Rightarrow> (u16 \<times> u64) list \<Rightarrow> bool \<Rightarrow> ('w desk, acc_error, bool) call" where
  "claims_complete W [] complete = returnS complete"
| "claims_complete W ((denom, order_id) # lots) complete =
    bindS (lot_address W \<lparr>li_denom = denom, li_order_id = order_id\<rparr>) (\<lambda>address.
    bindS (lot_details W address) (\<lambda>details.
    claims_complete W lots
      (case details of Some d \<Rightarrow> if \<not> ld_claimed d then False else complete | None \<Rightarrow> complete)))"

definition operation_complete :: "'w AccWorld \<Rightarrow> string \<Rightarrow> PendingOperation \<Rightarrow> ('w desk, acc_error, bool) call" where
  "operation_complete W owner pending =
    (case pending of
       PendingBuy shell_before shell_expected usdc_before usdc_spent \<Rightarrow>
         bindS (ok_orS (parse_uint U128_MAX shell_before) BadIntent) (\<lambda>before_raw.
         bindS (ok_orS (parse_uint U128_MAX shell_expected) BadIntent) (\<lambda>expected_raw.
         bindS (ok_orS (parse_uint U128_MAX usdc_before) BadIntent) (\<lambda>usdc_before.
         bindS (ok_orS (parse_uint U128_MAX usdc_spent) BadIntent) (\<lambda>usdc_spent.
         bindS (ecc_balance W owner USDC_CURRENCY_ID) (\<lambda>usdc_after.
         bindS (ecc_balance W owner SHELL_CURRENCY_ID) (\<lambda>shell_now.
         bindS (liftS (expected_credit_landed before_raw expected_raw shell_now)) (\<lambda>landed.
         returnS (landed \<and> (case checked_sub usdc_before usdc_spent of
                              Some target \<Rightarrow> usdc_after \<le> target | None \<Rightarrow> False)))))))))
     | PendingSell floors denoms \<Rightarrow>
         bindS (lots_owned_by_from W owner floors) (\<lambda>found.
         returnS (\<forall>denom \<in> set ACCUMULATOR_DENOMS.
           count_denom denom denoms \<le> count_denom denom (map (\<lambda>lot. li_denom (ll_id lot)) found)))
     | PendingClaim lots \<Rightarrow> claims_complete W lots True)"

text \<open>\<open>True\<close> if an intent was on file and the chain shows it is done: nothing else is submitted then.\<close>

definition reconcile_pending :: "'w AccWorld \<Rightarrow> string \<Rightarrow> ('w desk, acc_error, bool) call" where
  "reconcile_pending W owner =
    bindS (load_operation W) (\<lambda>loaded.
    case loaded of
      None \<Rightarrow> returnS False
    | Some pending \<Rightarrow>
        bindS (operation_complete W owner pending) (\<lambda>complete.
        if complete then bindS (clear_pending W) (\<lambda>_. returnS True) else failS StillPending))"

section \<open>The commands\<close>

fun first_unseen :: "'w AccWorld \<Rightarrow> u16 list \<Rightarrow> ('w desk, acc_error, (u16, u64) hash_map) call" where
  "first_unseen W [] = returnS []"
| "first_unseen W (denom # denoms) =
    bindS (queue_of W denom) (\<lambda>queue.
    bindS (first_unseen W denoms) (\<lambda>rest. returnS ((denom, qs_next_id queue) # rest)))"

fun send_all :: "'w AccWorld \<Rightarrow> acc_message list \<Rightarrow> ('w desk, acc_error, unit) call" where
  "send_all W [] = returnS ()"
| "send_all W (m # ms) = bindS (send_message W m) (\<lambda>_. send_all W ms)"

definition sell_message :: "SellLot \<Rightarrow> acc_message" where
  "sell_message lot = SendEcc ACCUMULATOR_ROOT_ADDRESS SHELL_CURRENCY_ID (sl_shell_raw lot)"

definition landed_lots :: "(u16, u64) hash_map \<Rightarrow> LiveLot list \<Rightarrow> nat" where
  "landed_lots floors created =
    length (filter (\<lambda>lot. case hget floors (li_denom (ll_id lot)) of
      Some first \<Rightarrow> first \<le> li_order_id (ll_id lot) | None \<Rightarrow> False) created)"

definition sell_plan :: "'w AccWorld \<Rightarrow> u64 option \<Rightarrow> u128 \<Rightarrow> acc_error + SellPlan" where
  "sell_plan W usdc available_raw =
    map_err SellRefused (bindR
      (case usdc of Some n \<Rightarrow> sell_for_whole_usdc (ax_reserve W) n
       | None \<Rightarrow> sell_for_available_shell (ax_reserve W) available_raw) (\<lambda>plan.
    bindR (sell_require_funded plan available_raw) (\<lambda>_. Inr plan)))"

definition sell_lots :: "'w AccWorld \<Rightarrow> string \<Rightarrow> SellPlan \<Rightarrow> (u16, u64) hash_map \<Rightarrow> ('w desk, acc_error, unit) call" where
  "sell_lots W owner plan floors =
    bindS (persist_operation W (PendingSell floors (map sl_denom (sp_lots plan)))) (\<lambda>_.
    bindS (send_all W (map sell_message (sp_lots plan))) (\<lambda>_.
    bindS (await_owned_lots W owner floors (lot_count plan) GAS_BALANCE_CONFIRM_MAX_READS []) (\<lambda>created.
    bindS (ensureS (\<not> landed_lots floors created < lot_count plan)
      (LotsMissing (landed_lots floors created) (lot_count plan))) (\<lambda>_.
    clear_pending W))))"

definition run_sell :: "'w AccWorld \<Rightarrow> string \<Rightarrow> u64 option \<Rightarrow> ('w desk, acc_error, unit) call" where
  "run_sell W owner usdc =
    bindS (assert_root_identity W) (\<lambda>_.
    bindS (reconcile_pending W owner) (\<lambda>reconciled.
    if reconciled then returnS () else
    bindS (ecc_balance W owner SHELL_CURRENCY_ID) (\<lambda>available_raw.
    bindS (liftS (sell_plan W usdc available_raw)) (\<lambda>plan.
    bindS (first_unseen W ACCUMULATOR_DENOMS) (\<lambda>floors.
    bindS (native_balance W owner) (\<lambda>native_raw.
    bindS (liftS (require_native_gas native_raw (lot_count plan))) (\<lambda>_.
    case funding_wallet_native_shortfall_raw native_raw of
      Some short \<Rightarrow> failS (BelowGasFloor short)
    | None \<Rightarrow> sell_lots W owner plan floors)))))))"

definition spend_usdc :: "'w AccWorld \<Rightarrow> string \<Rightarrow> BuyPlan \<Rightarrow> u128 \<Rightarrow> u128 \<Rightarrow> ('w desk, acc_error, unit) call" where
  "spend_usdc W owner plan available_raw before_raw =
    bindS (persist_operation W (PendingBuy (show_nat before_raw) (show_nat (bp_shell_expected_raw plan))
      (show_nat available_raw) (show_nat (bp_usdc_raw plan)))) (\<lambda>_.
    bindS (send_all W [SendEcc ACCUMULATOR_ROOT_ADDRESS USDC_CURRENCY_ID (bp_usdc_raw plan)]) (\<lambda>_.
    bindS (await_ecc_credit W owner SHELL_CURRENCY_ID before_raw (bp_shell_expected_raw plan)
      GAS_BALANCE_CONFIRM_MAX_READS) (\<lambda>after.
    bindS (ok_orS after CreditNotSeen) (\<lambda>_.
    clear_pending W))))"

definition run_buy :: "'w AccWorld \<Rightarrow> string \<Rightarrow> u64 \<Rightarrow> ('w desk, acc_error, unit) call" where
  "run_buy W owner usdc =
    bindS (assert_root_identity W) (\<lambda>_.
    bindS (reconcile_pending W owner) (\<lambda>reconciled.
    if reconciled then returnS () else
    bindS (liftS (map_err BuyRefused (buy_for_whole_usdc usdc))) (\<lambda>plan.
    bindS (ecc_balance W owner USDC_CURRENCY_ID) (\<lambda>available_raw.
    bindS (liftS (map_err BuyRefused (buy_require_funded plan available_raw))) (\<lambda>_.
    bindS (ecc_balance W owner SHELL_CURRENCY_ID) (\<lambda>before_raw.
    bindS (native_balance W owner) (\<lambda>native_raw.
    bindS (liftS (require_native_gas native_raw 1)) (\<lambda>_.
    spend_usdc W owner plan available_raw before_raw))))))))"

definition claim_targets :: "u16 option \<Rightarrow> u64 option \<Rightarrow> LiveLot list \<Rightarrow> LiveLot list" where
  "claim_targets denom order_id owned =
    (case (denom, order_id) of
       (Some d, Some i) \<Rightarrow>
         filter (\<lambda>lot. li_denom (ll_id lot) = d \<and> li_order_id (ll_id lot) = i
           \<and> is_claim_candidate (ll_sold lot) (ld_claimed (ll_details lot))) owned
     | _ \<Rightarrow> filter (\<lambda>lot. is_claim_candidate (ll_sold lot) (ld_claimed (ll_details lot))) owned)"

definition claim_payout :: "LiveLot list \<Rightarrow> u128" where
  "claim_payout targets = sum_list (map (\<lambda>lot. li_denom (ll_id lot) * USDC_UNIT) targets)"

fun send_claims :: "'w AccWorld \<Rightarrow> LiveLot list \<Rightarrow> ('w desk, acc_error, unit) call" where
  "send_claims W [] = returnS ()"
| "send_claims W (lot # lots) =
    bindS (ensureS (ll_sold lot) (LotNotSold (ll_id lot))) (\<lambda>_.
    bindS (send_message W (ClaimLot (ll_address lot))) (\<lambda>_. send_claims W lots))"

definition claim_lots :: "'w AccWorld \<Rightarrow> string \<Rightarrow> LiveLot list \<Rightarrow> u128 \<Rightarrow> ('w desk, acc_error, unit) call" where
  "claim_lots W owner targets before_raw =
    bindS (persist_operation W (PendingClaim (map (\<lambda>lot. (li_denom (ll_id lot), li_order_id (ll_id lot))) targets))) (\<lambda>_.
    bindS (send_claims W targets) (\<lambda>_.
    bindS (await_ecc_credit W owner USDC_CURRENCY_ID before_raw (claim_payout targets)
      GAS_BALANCE_CONFIRM_MAX_READS) (\<lambda>after.
    bindS (ok_orS after CreditNotSeen) (\<lambda>_.
    clear_pending W))))"

definition run_claim ::
  "'w AccWorld \<Rightarrow> string \<Rightarrow> u16 option \<Rightarrow> u64 option \<Rightarrow> u64 \<Rightarrow> ('w desk, acc_error, unit) call" where
  "run_claim W owner denom order_id from_order_id =
    bindS (assert_root_identity W) (\<lambda>_.
    bindS (reconcile_pending W owner) (\<lambda>reconciled.
    if reconciled then returnS () else
    bindS (lots_owned_by W owner from_order_id) (\<lambda>owned.
    let targets = claim_targets denom order_id owned in
    if targets = [] then returnS () else
    bindS (ecc_balance W owner USDC_CURRENCY_ID) (\<lambda>before_raw.
    bindS (native_balance W owner) (\<lambda>native_raw.
    bindS (liftS (require_native_gas native_raw (length targets))) (\<lambda>_.
    bindS (assert_lots_identity W targets) (\<lambda>_.
    claim_lots W owner targets before_raw)))))))"

datatype acc_command = Sell "u64 option" | Buy u64 | Claim "u16 option" "u64 option" u64

definition run_accumulator :: "'w AccWorld \<Rightarrow> string \<Rightarrow> acc_command \<Rightarrow> ('w desk, acc_error, unit) call" where
  "run_accumulator W owner command =
    (case command of
       Sell usdc \<Rightarrow> run_sell W owner usdc
     | Buy usdc \<Rightarrow> run_buy W owner usdc
     | Claim denom order_id from_order_id \<Rightarrow> run_claim W owner denom order_id from_order_id)"

section \<open>What a command leaves on file and on the wire\<close>

text \<open>Calls that neither touch the intent nor post anything.\<close>

definition quiet_call :: "('w desk, acc_error, 'a) call \<Rightarrow> bool" where
  "quiet_call m \<longleftrightarrow> (\<forall>s. dk_file (fst (m s)) = dk_file s \<and> dk_events (fst (m s)) = dk_events s)"

named_theorems quiet_intros

lemma quiet_simple [quiet_intros]:
  "quiet_call (returnS x)" "quiet_call (failS e)" "quiet_call (liftS r)" "quiet_call (ok_orS v e)" "quiet_call (ensureS c e)"
  "quiet_call (on_desk m)" "quiet_call (nap W)"
  by (auto simp: quiet_call_def call_defs ok_orS_def ensureS_def on_desk_def nap_def split: prod.splits)

lemma quiet_bindS [quiet_intros]: "quiet_call m \<Longrightarrow> (\<And>x. quiet_call (f x)) \<Longrightarrow> quiet_call (bindS m f)"
  by (auto simp: quiet_call_def bindS_def split: prod.splits sum.splits) (metis fst_conv)+

lemma quiet_branches [quiet_intros]:
  "quiet_call m \<Longrightarrow> quiet_call n \<Longrightarrow> quiet_call (if b then m else n)"
  "quiet_call m \<Longrightarrow> (\<And>y. quiet_call (f y)) \<Longrightarrow> quiet_call (case x of None \<Rightarrow> m | Some y \<Rightarrow> f y)"
  by (auto split: option.split)

lemma quiet_callD: "quiet_call m \<Longrightarrow> m s = (s', r) \<Longrightarrow> dk_file s' = dk_file s \<and> dk_events s' = dk_events s"
  by (metis fst_conv quiet_call_def)

lemma quiet_reads [quiet_intros]:
  "quiet_call (run_getter W a g args e)" "quiet_call (check_version v want)"
  unfolding run_getter_def check_version_def Let_def by (intro quiet_intros)+

lemma quiet_reader [quiet_intros]:
  "quiet_call (assert_root_identity W)" "quiet_call (queue_of W d)" "quiet_call (lot_address W i)" "quiet_call (lot_details W a)"
  "quiet_call (assert_lot_identity W a)" "quiet_call (native_balance W own)" "quiet_call (ecc_balance W own c)"
  unfolding assert_root_identity_def queue_of_def lot_address_def lot_details_def assert_lot_identity_def
    native_balance_def ecc_balance_def
  by (intro quiet_intros)+

lemma quiet_scan_orders [quiet_intros]: "quiet_call (scan_orders W own q d ids)"
  by (induction ids) (auto simp: Let_def intro!: quiet_intros)

lemma quiet_scan_queues [quiet_intros]: "quiet_call (scan_queues W own floors ds)"
  by (induction ds) (auto intro!: quiet_intros)

lemma quiet_lots [quiet_intros]: "quiet_call (lots_owned_by_from W own floors)" "quiet_call (lots_owned_by W own i)"
  unfolding lots_owned_by_def lots_owned_by_from_def by (intro quiet_intros)+

lemma quiet_awaits [quiet_intros]:
  "quiet_call (await_owned_lots W own floors n k latest)" "quiet_call (await_ecc_credit W own c b e k)"
  by (induction k arbitrary: latest) (auto intro!: quiet_intros)

lemma quiet_loops [quiet_intros]:
  "quiet_call (assert_lots_identity W lots)" "quiet_call (first_unseen W ds)" "quiet_call (claims_complete W cs b)"
  by (induction lots, auto intro!: quiet_intros, induction ds, auto intro!: quiet_intros,
      induction cs arbitrary: b, auto intro!: quiet_intros)

lemma quiet_complete [quiet_intros]: "quiet_call (operation_complete W own p)"
  unfolding operation_complete_def by (cases p; simp; intro quiet_intros)

text \<open>Calls that post a beginning of \<open>ms\<close>, all of it if they succeed.\<close>

definition posts :: "acc_message list \<Rightarrow> ('w desk, acc_error, 'a) call \<Rightarrow> bool" where
  "posts ms m \<longleftrightarrow> (\<forall>s s' r. m s = (s', r) \<longrightarrow> dk_file s' = dk_file s
    \<and> (\<exists>k. dk_events s' = dk_events s @ map Posted (take k ms) \<and> (is_ok r \<longrightarrow> take k ms = ms)))"

lemma postsE:
  assumes "posts ms m" and "m s = (s', r)"
  obtains k where "dk_file s' = dk_file s" and "dk_events s' = dk_events s @ map Posted (take k ms)"
    and "is_ok r \<longrightarrow> take k ms = ms"
  using assms unfolding posts_def by blast

lemma posts_nothing: "quiet_call m \<Longrightarrow> posts [] m"
  by (auto simp: posts_def dest: quiet_callD)

lemma posts_bindS:
  assumes m: "posts ms m" and f: "\<And>x. posts ns (f x)"
  shows "posts (ms @ ns) (bindS m f)"
  unfolding posts_def
proof (intro allI impI)
  fix s s' r
  assume run: "bindS m f s = (s', r)"
  obtain t x where t: "m s = (t, x)" by fastforce
  obtain k where k: "dk_file t = dk_file s" "dk_events t = dk_events s @ map Posted (take k ms)"
    "is_ok x \<longrightarrow> take k ms = ms" by (rule postsE [OF m t])
  show "dk_file s' = dk_file s
    \<and> (\<exists>k. dk_events s' = dk_events s @ map Posted (take k (ms @ ns)) \<and> (is_ok r \<longrightarrow> take k (ms @ ns) = ms @ ns))"
  proof (cases x)
    case (Inl e)
    then show ?thesis
      using run t k by (auto simp: is_ok_def min_def intro!: exI [of _ "min k (length ms)"])
  next
    case (Inr y)
    then have fy: "f y t = (s', r)" using run t by simp
    obtain j where j: "dk_file s' = dk_file t" "dk_events s' = dk_events t @ map Posted (take j ns)"
      "is_ok r \<longrightarrow> take j ns = ns" by (rule postsE [OF f fy])
    moreover have "take k ms = ms" using k Inr by (simp add: is_ok_def)
    ultimately show ?thesis
      using k by (auto intro!: exI [of _ "length ms + j"])
  qed
qed

lemma posts_quiet: "quiet_call m \<Longrightarrow> (\<And>x. posts ms (f x)) \<Longrightarrow> posts ms (bindS m f)"
  using posts_bindS [of "[]" m ms f] posts_nothing by auto

lemma posts_post: "posts [m] (post W m)"
  by (auto simp: posts_def post_def on_desk_def split: prod.splits intro: exI [of _ 1])

lemma quiet_receipt: "quiet_call (observe_receipt W m)"
  by (auto simp: quiet_call_def observe_receipt_def call_defs on_desk_def ensureS_def
      split: prod.splits sum.splits option.splits)

lemma posts_message: "posts [m] (send_message W m)"
proof -
  have "posts ([m] @ []) (bindS (post W m) (\<lambda>_. observe_receipt W m))"
    by (intro posts_bindS posts_post posts_nothing quiet_receipt)
  then show ?thesis
    unfolding send_message_def submit_def by (auto intro!: posts_quiet quiet_simple)
qed

lemma posts_all: "posts ms (send_all W ms)"
proof (induction ms)
  case (Cons m ms)
  then show ?case using posts_bindS [OF posts_message, of ms "\<lambda>_. send_all W ms"] by simp
qed (simp add: posts_nothing quiet_intros)

lemma posts_claims: "posts (map (\<lambda>lot. ClaimLot (ll_address lot)) lots) (send_claims W lots)"
proof (induction lots)
  case (Cons lot lots)
  then have "posts ([ClaimLot (ll_address lot)] @ map (\<lambda>lot. ClaimLot (ll_address lot)) lots)
    (bindS (send_message W (ClaimLot (ll_address lot))) (\<lambda>_. send_claims W lots))"
    by (intro posts_bindS posts_message)
  then show ?case by (simp add: posts_quiet quiet_intros)
qed (simp add: posts_nothing quiet_intros)

text \<open>Calls that end with the intent removed if they succeed, and leave it if they do not.\<close>

definition closes :: "('w desk, acc_error, 'a) call \<Rightarrow> bool" where
  "closes m \<longleftrightarrow> (\<forall>s s' r. m s = (s', r) \<longrightarrow>
     (if is_ok r then dk_file s' = None \<and> dk_events s' = dk_events s @ [Cleared]
      else dk_file s' = dk_file s \<and> dk_events s' = dk_events s))"

lemma closesD:
  assumes "closes m" and "m s = (s', r)"
  shows "if is_ok r then dk_file s' = None \<and> dk_events s' = dk_events s @ [Cleared]
      else dk_file s' = dk_file s \<and> dk_events s' = dk_events s"
  using assms unfolding closes_def by blast

lemma closes_clear: "closes (clear_pending W)"
  by (auto simp: closes_def clear_pending_def bindS_def on_desk_def is_ok_def split: prod.splits sum.splits)

lemma closes_bindS:
  assumes m: "quiet_call m" and f: "\<And>x. closes (f x)"
  shows "closes (bindS m f)"
  unfolding closes_def
proof (intro allI impI)
  fix s s' r
  assume run: "bindS m f s = (s', r)"
  obtain t x where t: "m s = (t, x)" by fastforce
  note same = quiet_callD [OF m t]
  show "if is_ok r then dk_file s' = None \<and> dk_events s' = dk_events s @ [Cleared]
      else dk_file s' = dk_file s \<and> dk_events s' = dk_events s"
  proof (cases x)
    case (Inl e)
    then show ?thesis using run t same by (auto simp: is_ok_def)
  next
    case (Inr y)
    then have "f y t = (s', r)" using run t by simp
    from closesD [OF f this] show ?thesis using same by simp
  qed
qed

text \<open>What a command does to the file and to the history: nothing; remove the intent it found; or write an
  intent where there was none, post a beginning of its messages, and remove it at the end or not at all.\<close>

definition intent_messages :: "PendingOperation \<Rightarrow> acc_message list \<Rightarrow> bool" where
  "intent_messages op ms =
    (case op of
       PendingBuy _ _ _ spent \<Rightarrow>
         ms = [SendEcc ACCUMULATOR_ROOT_ADDRESS USDC_CURRENCY_ID (dec_val spent)]
     | PendingSell _ denoms \<Rightarrow>
         ms = map (\<lambda>d. SendEcc ACCUMULATOR_ROOT_ADDRESS SHELL_CURRENCY_ID (d * ACCUMULATOR_SHELL_PER_USDC_RAW)) denoms
     | PendingClaim lots \<Rightarrow> (\<exists>addresses. length addresses = length lots \<and> ms = map ClaimLot addresses))"

definition desk_run :: "PendingOperation option \<Rightarrow> acc_event list \<Rightarrow> PendingOperation option \<Rightarrow> bool \<Rightarrow> bool" where
  "desk_run F added F' success \<longleftrightarrow>
    (added = [] \<and> F' = F \<and> (success \<longrightarrow> F = None))
    \<or> (F \<noteq> None \<and> added = [Cleared] \<and> F' = None \<and> success)
    \<or> (F = None \<and> (\<exists>op ms k. intent_messages op ms \<and>
        (if success then added = Persisted op # map Posted ms @ [Cleared] \<and> F' = None
         else added = Persisted op # map Posted (take k ms) \<and> F' = Some op)))"

lemma desk_run_open:
  "intent_messages op ms \<Longrightarrow> desk_run None (Persisted op # map Posted (take k ms)) (Some op) False"
  unfolding desk_run_def by auto

lemma desk_run_closed: "intent_messages op ms \<Longrightarrow> desk_run None (Persisted op # map Posted ms @ [Cleared]) None True"
  unfolding desk_run_def by auto

definition runs :: "('w desk, acc_error, 'a) call \<Rightarrow> bool" where
  "runs m \<longleftrightarrow> (\<forall>s s' r. m s = (s', r) \<longrightarrow>
     (\<exists>added. dk_events s' = dk_events s @ added \<and> desk_run (dk_file s) added (dk_file s') (is_ok r)))"

definition runs_fresh :: "('w desk, acc_error, 'a) call \<Rightarrow> bool" where
  "runs_fresh m \<longleftrightarrow> (\<forall>s s' r. m s = (s', r) \<longrightarrow> dk_file s = None \<longrightarrow>
     (\<exists>added. dk_events s' = dk_events s @ added \<and> desk_run None added (dk_file s') (is_ok r)))"

lemma runs_fresh_quiet: "quiet_call m \<Longrightarrow> runs_fresh m"
  by (auto simp: runs_fresh_def desk_run_def dest: quiet_callD)

lemma runs_fresh_bindS:
  assumes m: "quiet_call m" and f: "\<And>x s s'. m s = (s', Inr x) \<Longrightarrow> runs_fresh (f x)"
  shows "runs_fresh (bindS m f)"
  unfolding runs_fresh_def
proof (intro allI impI)
  fix s s' r
  assume run: "bindS m f s = (s', r)" and none: "dk_file s = None"
  obtain t x where t: "m s = (t, x)" by fastforce
  note same = quiet_callD [OF m t]
  show "\<exists>added. dk_events s' = dk_events s @ added \<and> desk_run None added (dk_file s') (is_ok r)"
  proof (cases x)
    case (Inl e)
    then show ?thesis using run t same none by (auto simp: desk_run_def is_ok_def)
  next
    case (Inr y)
    then have "f y t = (s', r)" using run t by simp
    moreover have "runs_fresh (f y)" using f t Inr by simp
    ultimately show ?thesis using same none unfolding runs_fresh_def by metis
  qed
qed

lemma runs_fresh_intent:
  assumes ms: "intent_messages op ms" and send: "posts ms send" and rest: "\<And>x. closes (rest x)"
  shows "runs_fresh (bindS (persist_operation W op) (\<lambda>_. bindS send rest))"
  unfolding runs_fresh_def
proof (intro allI impI)
  fix s s' r
  assume run: "bindS (persist_operation W op) (\<lambda>_. bindS send rest) s = (s', r)" and none: "dk_file s = None"
  obtain w out where out: "ax_write_file W (dk_chain s) = (w, out)" by fastforce
  let ?t = "s\<lparr>dk_chain := w, dk_file := Some op, dk_events := dk_events s @ [Persisted op]\<rparr>"
  show "\<exists>added. dk_events s' = dk_events s @ added \<and> desk_run None added (dk_file s') (is_ok r)"
  proof (cases out)
    case NotWritten
    then show ?thesis
      using run out none by (auto simp: bindS_def persist_operation_def desk_run_def is_ok_def)
  next
    case RenamedNotSynced
    then have "s' = ?t" "r = Inl PersistFailed" using run out by (auto simp: bindS_def persist_operation_def)
    then show ?thesis using desk_run_open [OF ms, of 0] by (simp add: is_ok_def)
  next
    case Written
    then have go: "bindS send rest ?t = (s', r)" using run out by (simp add: bindS_def persist_operation_def)
    obtain u x where u: "send ?t = (u, x)" by fastforce
    obtain k where k: "dk_file u = dk_file ?t" "dk_events u = dk_events ?t @ map Posted (take k ms)"
      "is_ok x \<longrightarrow> take k ms = ms" by (rule postsE [OF send u])
    show ?thesis
    proof (cases x)
      case (Inl e)
      then have "s' = u" "r = Inl e" using go u by auto
      then show ?thesis using k desk_run_open [OF ms, of k] by (simp add: is_ok_def)
    next
      case (Inr y)
      then have last: "rest y u = (s', r)" using go u by simp
      have all: "take k ms = ms" using k Inr by (simp add: is_ok_def)
      show ?thesis
        using closesD [OF rest last] k all desk_run_open [OF ms, of k] desk_run_closed [OF ms]
        by (cases "is_ok r") simp_all
    qed
  qed
qed

text \<open>Every command first reconciles, so the fresh part runs only without an intent on file.\<close>

lemma reconcile_shape:
  assumes "reconcile_pending W owner s = (s', r)"
  shows "case r of
      Inr True \<Rightarrow> dk_file s \<noteq> None \<and> dk_file s' = None \<and> dk_events s' = dk_events s @ [Cleared]
    | Inr False \<Rightarrow> dk_file s = None \<and> dk_file s' = None \<and> dk_events s' = dk_events s
    | Inl _ \<Rightarrow> dk_file s' = dk_file s \<and> dk_events s' = dk_events s"
proof -
  obtain t x where load: "on_desk (ax_read_file W) s = (t, x)" by fastforce
  note same = quiet_callD [OF quiet_simple(6) load]
  show ?thesis
  proof (cases "x = Inr () \<and> dk_file s \<noteq> None")
    case False
    then show ?thesis
      using assms load same
      by (cases x) (auto simp: reconcile_pending_def load_operation_def bindS_def returnS_def)
  next
    case True
    then obtain p where p: "dk_file s = Some p" "x = Inr ()" by auto
    obtain u b where u: "operation_complete W owner p t = (u, b)" by fastforce
    note same2 = quiet_callD [OF quiet_complete u]
    have run: "bindS (operation_complete W owner p) (\<lambda>complete.
        if complete then bindS (clear_pending W) (\<lambda>_. returnS True) else failS StillPending) t = (s', r)"
      using assms load p same by (simp add: reconcile_pending_def load_operation_def bindS_def)
    obtain v y where v: "clear_pending W u = (v, y)" by fastforce
    show ?thesis
      using run u same same2 p closesD [OF closes_clear v] v
      by (cases b; cases y) (auto simp: bindS_def returnS_def failS_def is_ok_def split: if_splits)
  qed
qed

lemma runs_command:
  assumes m: "runs_fresh m"
  shows "runs (bindS (assert_root_identity W) (\<lambda>_. bindS (reconcile_pending W owner) (\<lambda>reconciled.
    if reconciled then returnS () else m)))"
  unfolding runs_def
proof (intro allI impI)
  fix s s' r
  assume run: "bindS (assert_root_identity W) (\<lambda>_. bindS (reconcile_pending W owner) (\<lambda>reconciled.
    if reconciled then returnS () else m)) s = (s', r)"
  obtain t x where t: "assert_root_identity W s = (t, x)" by fastforce
  note same = quiet_callD [OF quiet_reader(1) t]
  obtain u y where u: "reconcile_pending W owner t = (u, y)" by fastforce
  note shape = reconcile_shape [OF u]
  show "\<exists>added. dk_events s' = dk_events s @ added \<and> desk_run (dk_file s) added (dk_file s') (is_ok r)"
  proof (cases "\<exists>a. x = Inr a \<and> y = Inr False")
    case True
    then have "m u = (s', r)" using run t u by (auto simp: bindS_def)
    moreover have "dk_file u = None" "dk_events u = dk_events s" "dk_file s = None"
      using True shape same by auto
    ultimately show ?thesis using m unfolding runs_fresh_def by metis
  next
    case False
    then show ?thesis
      using run t u same shape
      by (cases x; cases y) (auto simp: bindS_def returnS_def desk_run_def is_ok_def split: if_splits bool.splits)
  qed
qed

lemma runs_fresh_if: "runs_fresh m \<Longrightarrow> runs_fresh n \<Longrightarrow> runs_fresh (if b then m else n)"
  by simp

lemma sell_intent:
  assumes "sell_plan W usdc available = Inr plan"
  shows "intent_messages (PendingSell floors (map sl_denom (sp_lots plan))) (map sell_message (sp_lots plan))"
proof -
  obtain n where "sell_for_whole_usdc (ax_reserve W) n = Inr plan"
    using assms
    by (auto simp: sell_plan_def sell_for_available_shell_def result_simps split: option.splits)
  from sell_plan_lots [OF this] show ?thesis
    by (simp add: intent_messages_def sell_message_def)
qed

lemma run_sell_runs: "runs (run_sell W owner usdc)"
proof -
  have "runs_fresh (sell_lots W owner plan floors)" if "sell_plan W usdc available = Inr plan" for plan floors available
    unfolding sell_lots_def
    by (intro runs_fresh_intent [OF sell_intent [OF that] posts_all] closes_bindS closes_clear quiet_intros)
  then show ?thesis
    unfolding run_sell_def
    by (intro runs_command runs_fresh_bindS quiet_intros)
      (auto simp: simple_Inr_iff intro: runs_fresh_quiet quiet_intros split: option.split)
qed

lemma run_buy_runs: "runs (run_buy W owner usdc)"
proof -
  have "runs_fresh (spend_usdc W owner plan available before)" for plan available before
    unfolding spend_usdc_def
    by (intro runs_fresh_intent [OF _ posts_all] closes_bindS closes_clear quiet_intros) (simp add: intent_messages_def)
  then show ?thesis
    unfolding run_buy_def by (intro runs_command runs_fresh_bindS quiet_intros)
qed

lemma run_claim_runs: "runs (run_claim W owner denom order_id from)"
proof -
  have "runs_fresh (claim_lots W owner targets before)" for targets before
    unfolding claim_lots_def
    by (intro runs_fresh_intent [OF _ posts_claims] closes_bindS closes_clear quiet_intros)
      (auto simp: intent_messages_def intro!: exI [of _ "map ll_address targets"])
  then show ?thesis
    unfolding run_claim_def Let_def
    by (intro runs_command runs_fresh_bindS runs_fresh_if quiet_intros) (auto intro: runs_fresh_quiet quiet_intros)
qed

lemma run_accumulator_runs: "runs (run_accumulator W owner command)"
  by (cases command) (simp_all add: run_accumulator_def run_sell_runs run_buy_runs run_claim_runs)

section \<open>Histories with crashes\<close>

text \<open>
  A process may be killed between any two effects: then the history and the file are those of a beginning
  of its run. Between two commands the chain moves on by itself.
\<close>

fun replay_desk :: "PendingOperation option \<Rightarrow> acc_event list \<Rightarrow> PendingOperation option" where
  "replay_desk F [] = F"
| "replay_desk F (Persisted op # rest) = replay_desk (Some op) rest"
| "replay_desk F (Posted m # rest) = replay_desk F rest"
| "replay_desk F (Cleared # rest) = replay_desk None rest"

inductive history :: "'w AccWorld \<Rightarrow> string \<Rightarrow> 'w desk \<Rightarrow> bool" for W :: "'w AccWorld" and owner where
  start: "history W owner \<lparr>dk_chain = w, dk_file = None, dk_events = []\<rparr>"
| run: "history W owner s \<Longrightarrow> run_accumulator W owner command (s\<lparr>dk_chain := w\<rparr>) = (s', r) \<Longrightarrow>
    history W owner s'"
| killed: "history W owner s \<Longrightarrow> run_accumulator W owner command (s\<lparr>dk_chain := w\<rparr>) = (s', r) \<Longrightarrow>
    dk_events s' = dk_events s @ added \<Longrightarrow> added = before @ lost \<Longrightarrow>
    history W owner \<lparr>dk_chain = w', dk_file = replay_desk (dk_file s) before, dk_events = dk_events s @ before\<rparr>"

text \<open>One intent of a history: what was written, its messages, and how many of them were posted.\<close>

type_synonym episode = "PendingOperation \<times> acc_message list \<times> nat"

definition episode_ok :: "episode \<Rightarrow> bool" where
  "episode_ok e \<longleftrightarrow> intent_messages (fst e) (fst (snd e)) \<and> snd (snd e) \<le> length (fst (snd e))"

definition open_events :: "episode \<Rightarrow> acc_event list" where
  "open_events e = Persisted (fst e) # map Posted (take (snd (snd e)) (fst (snd e)))"

definition closed_events :: "episode \<Rightarrow> acc_event list" where
  "closed_events e = open_events e @ [Cleared]"

definition episodes :: "PendingOperation option \<Rightarrow> acc_event list \<Rightarrow> bool" where
  "episodes F E \<longleftrightarrow> (\<exists>past current. E = concat (map closed_events past) @ (case current of None \<Rightarrow> [] | Some e \<Rightarrow> open_events e)
    \<and> (\<forall>e \<in> set past. episode_ok e) \<and> (\<forall>e. current = Some e \<longrightarrow> episode_ok e) \<and> F = map_option fst current)"

lemma episodes_open:
  assumes "episodes None E" and "intent_messages op ms"
  shows "episodes (Some op) (E @ Persisted op # map Posted (take k ms))"
proof -
  obtain past where "E = concat (map closed_events past)" "\<forall>e \<in> set past. episode_ok e"
    using assms(1) by (auto simp: episodes_def)
  then show ?thesis
    unfolding episodes_def using assms(2)
    by (intro exI [of _ past] exI [of _ "Some (op, ms, min k (length ms))"])
      (auto simp: open_events_def episode_ok_def min_def)
qed

lemma episodes_close:
  assumes "episodes (Some op) E"
  shows "episodes None (E @ [Cleared])"
proof -
  obtain past current where current: "Some op = map_option fst current"
    and E: "E = concat (map closed_events past) @ (case current of None \<Rightarrow> [] | Some e \<Rightarrow> open_events e)"
    and ok: "\<forall>e \<in> set past. episode_ok e" "\<forall>e. current = Some e \<longrightarrow> episode_ok e"
    using assms unfolding episodes_def by blast
  obtain e where "current = Some e" using current by (cases current) auto
  then have "E = concat (map closed_events past) @ open_events e" "\<forall>x \<in> set past. episode_ok x" "episode_ok e"
    using E ok by auto
  then show ?thesis
    unfolding episodes_def
    by (intro exI [of _ "past @ [e]"] exI [of _ None]) (auto simp: closed_events_def)
qed

lemma replay_posted: "replay_desk F (map Posted ms) = F"
  by (induction ms) auto

lemma replay_append: "replay_desk F (xs @ ys) = replay_desk (replay_desk F xs) ys"
  by (induction F xs rule: replay_desk.induct) auto

text \<open>Every beginning of a run of a command keeps the shape.\<close>

lemma posted_beginning:
  assumes "map Posted ms = before @ lost"
  obtains j where "before = map Posted (take j ms)"
  using assms by (metis append_eq_conv_conj take_map that)

lemma desk_run_cases:
  assumes "desk_run F added F' success"
  obtains (same) "added = []" | (cleared) op where "F = Some op" "added = [Cleared]"
  | (opened) op ms k tail where "F = None" "intent_messages op ms"
      "added = Persisted op # map Posted (take k ms) @ tail" "tail = [] \<or> tail = [Cleared]"
  using assms unfolding desk_run_def
proof (elim disjE conjE exE)
  fix op ms k
  assume o: "F = None" "intent_messages op ms"
    and a: "if success then added = Persisted op # map Posted ms @ [Cleared] \<and> F' = None
      else added = Persisted op # map Posted (take k ms) \<and> F' = Some op"
  show thesis
  proof (cases success)
    case True
    then show thesis using opened [OF o, of "length ms" "[Cleared]"] a by simp
  next
    case False
    then show thesis using opened [OF o, of k "[]"] a by simp
  qed
qed (auto intro: same cleared)

lemma desk_run_episodes:
  assumes E: "episodes F E" and run: "desk_run F added F' success" and split: "added = before @ lost"
  shows "episodes (replay_desk F before) (E @ before)"
proof -
  from run show ?thesis
  proof (cases rule: desk_run_cases)
    case same
    then show ?thesis using E split by simp
  next
    case cleared
    then show ?thesis using E split episodes_close by (cases before) (auto simp: Cons_eq_append_conv)
  next
    case (opened op ms k tail)
    show ?thesis
    proof (cases before)
      case Nil
      then show ?thesis using E opened by simp
    next
      case (Cons e rest)
      then have b: "before = Persisted op # rest" and rest: "map Posted (take k ms) @ tail = rest @ lost"
        using opened split by auto
      have none: "episodes None E" using E opened by simp
      show ?thesis
      proof (cases "length rest \<le> length (take k ms)")
        case True
        then have "map Posted (take k ms) = rest @ take (length (take k ms) - length rest) lost"
          using arg_cong [OF rest, of "take (length (take k ms))"] by simp
        then obtain j where "rest = map Posted (take j (take k ms))" by (rule posted_beginning)
        then show ?thesis using episodes_open [OF none opened(2), of "min j k"] by (simp add: b replay_posted)
      next
        case False
        moreover have "length rest + length lost = length (take k ms) + length tail"
          using arg_cong [OF rest, of length] by simp
        moreover from calculation have "length tail \<noteq> 0" by linarith
        then have tail: "tail = [Cleared]" using opened(4) by auto
        ultimately have "length lost = 0" by (simp only: tail list.size)
        then have "rest = map Posted (take k ms) @ [Cleared]" using rest tail by simp
        then show ?thesis
          using episodes_close [OF episodes_open [OF none opened(2), of k]]
          by (simp add: b replay_append replay_posted)
      qed
    qed
  qed
qed

lemma desk_run_replay: "desk_run F added F' success \<Longrightarrow> F' = replay_desk F added"
  by (auto simp: desk_run_def replay_append replay_posted split: if_splits)

text \<open>
  C6: Every message of the accumulator commands belongs to exactly one durable intent and is posted at most
  once. Whatever sequence of sells, buys and claims runs, whatever the chain, the node and the file system
  answer, and wherever a process is killed, the history splits into intents: each is written before its
  first message, the messages posted under it are a beginning of the messages it names, in order, and
  the next intent is written only after the one before it was removed; the file holds exactly the intent
  that is still open.
\<close>

theorem intents_posted_at_most_once:
  assumes "history W owner s"
  shows "\<exists>past current. dk_events s = concat (map closed_events past) @ (case current of None \<Rightarrow> [] | Some e \<Rightarrow> open_events e)
    \<and> (\<forall>e \<in> set past. episode_ok e) \<and> (\<forall>e. current = Some e \<longrightarrow> episode_ok e) \<and> dk_file s = map_option fst current"
proof -
  have "episodes (dk_file s) (dk_events s)"
    using assms
  proof (induction rule: history.induct)
    case (start w)
    have "episodes None []" unfolding episodes_def by (intro exI [of _ "[]"] exI [of _ None]) simp
    then show ?case by simp
  next
    case (run s command w s' r)
    obtain added where added: "dk_events s' = dk_events s @ added" "desk_run (dk_file s) added (dk_file s') (is_ok r)"
      using run_accumulator_runs [of W owner command] run(2) unfolding runs_def by fastforce
    show ?case
      using desk_run_episodes [OF run(3) added(2), of added "[]"] desk_run_replay [OF added(2)] added(1) by simp
  next
    case (killed s command w s' r added before lost w')
    have "desk_run (dk_file s) added (dk_file s') (is_ok r)"
      using run_accumulator_runs [of W owner command] killed(2,3) unfolding runs_def by fastforce
    then show ?case using desk_run_episodes [OF killed(5) _ killed(4)] by simp
  qed
  then show ?thesis unfolding episodes_def .
qed

text \<open>
  A wallet with five eccUSDC buys for two. The process dies after the message has left; the next command
  finds the intent complete on chain and removes it without posting anything.
\<close>

definition sample_getter :: "string \<Rightarrow> string \<Rightarrow> json \<Rightarrow> ('w, acc_error, json option) call" where
  "sample_getter address method args w =
    (w, Inr (Some (JObj [(''value0'', JStr ''1.0.2''), (''value1'', JStr ''ShellAccumulatorRootUSDC'')])))"

definition desk_account :: "nat \<times> nat \<Rightarrow> account" where
  "desk_account w = \<lparr>ac_balance = 1000000000, ac_ecc = (\<lambda>c. if c = 2 then fst w else snd w), ac_active = True\<rparr>"

definition sample_post :: "acc_message \<Rightarrow> (nat \<times> nat, acc_error, unit) call" where
  "sample_post m w =
    (case m of SendEcc _ _ raw \<Rightarrow> ((fst w + raw * 100000, snd w - raw), Inr ()) | ClaimLot _ \<Rightarrow> (w, Inr ()))"

definition sample_accumulator :: "(nat \<times> nat) AccWorld" where
  "sample_accumulator = \<lparr>
    ax_getter = sample_getter, ax_account_in_dapp = (\<lambda>_ _ w. (w, Inr None)),
    ax_account = (\<lambda>_ w. (w, Inr (Some (desk_account w)))), ax_parse = Some, ax_encode = (\<lambda>_ w. (w, Inr ())),
    ax_preflight = (\<lambda>w. (w, Inr ())), ax_post = sample_post, ax_receipt = (\<lambda>_ w. (w, Inr None)),
    ax_read_file = (\<lambda>w. (w, Inr ())), ax_write_file = (\<lambda>w. (w, Written)), ax_remove_file = (\<lambda>w. (w, Inr ())),
    ax_sleep = (\<lambda>_ w. w), ax_reserve = (\<lambda>_. True) \<rparr>"

definition sample_intent :: PendingOperation where
  "sample_intent = PendingBuy (show_nat 0) (show_nat 200000000000) (show_nat 5000000) (show_nat 2000000)"

definition desk_message :: acc_message where
  "desk_message = SendEcc ACCUMULATOR_ROOT_ADDRESS USDC_CURRENCY_ID 2000000"

lemmas desk_sample_defs = sample_accumulator_def sample_getter_def desk_account_def sample_post_def

lemma sample_reads:
  "assert_root_identity sample_accumulator s = (s, Inr ())"
  "dk_file s = None \<Longrightarrow> reconcile_pending sample_accumulator owner s = (s, Inr False)"
  "ecc_balance sample_accumulator owner SHELL_CURRENCY_ID s = (s, Inr (fst (dk_chain s)))"
  "ecc_balance sample_accumulator owner USDC_CURRENCY_ID s = (s, Inr (snd (dk_chain s)))"
  "native_balance sample_accumulator owner s = (s, Inr 1000000000)"
  by (simp_all add: assert_root_identity_def run_getter_def check_version_def reconcile_pending_def
      load_operation_def ecc_balance_def native_balance_def on_desk_def ok_orS_def ensureS_def call_defs desk_sample_defs
      json_at_def json_get_def hget_def as_str_def ACCUMULATOR_ROOT_VERSION_def SHELL_CURRENCY_ID_def
      USDC_CURRENCY_ID_def)

lemma sample_writes:
  "send_message sample_accumulator (SendEcc to c raw) s =
    (s\<lparr>dk_chain := (fst (dk_chain s) + raw * 100000, snd (dk_chain s) - raw),
       dk_events := dk_events s @ [Posted (SendEcc to c raw)]\<rparr>, Inr ())"
  "persist_operation sample_accumulator op s = (s\<lparr>dk_file := Some op, dk_events := dk_events s @ [Persisted op]\<rparr>, Inr ())"
  "clear_pending sample_accumulator s = (s\<lparr>dk_file := None, dk_events := dk_events s @ [Cleared]\<rparr>, Inr ())"
  by (simp_all add: send_message_def submit_def post_def observe_receipt_def persist_operation_def clear_pending_def
      on_desk_def call_defs desk_sample_defs)

lemma sample_nap: "nap sample_accumulator s = (s, Inr ())"
  by (simp add: nap_def sample_accumulator_def)

lemma sample_credit:
  "before + expected \<le> fst (dk_chain s) \<Longrightarrow> before + expected \<le> U128_MAX \<Longrightarrow>
    0 < k \<Longrightarrow> await_ecc_credit sample_accumulator owner SHELL_CURRENCY_ID before expected k s = (s, Inr (Some (fst (dk_chain s))))"
  by (cases k) (simp_all add: sample_nap bindS_def sample_reads liftS_def returnS_def expected_credit_landed_def
      checked_add_def)

lemma desk_sample_buy:
  "run_accumulator sample_accumulator owner (Buy 2) \<lparr>dk_chain = (0, 5000000), dk_file = None, dk_events = []\<rparr>
    = (\<lparr>dk_chain = (200000000000, 3000000), dk_file = None,
        dk_events = [Persisted sample_intent, Posted desk_message, Cleared]\<rparr>, Inr ())"
proof -
  have reads: "0 < GAS_BALANCE_CONFIRM_MAX_READS" by (simp add: GAS_BALANCE_CONFIRM_MAX_READS_def)
  have plan: "buy_for_whole_usdc 2 = Inr \<lparr>bp_usdc_whole = 2, bp_usdc_raw = 2000000, bp_shell_expected_raw = 200000000000\<rparr>"
    by (simp add: buy_for_whole_usdc_def checked_mul_def accumulator_params U128_MAX_def)
  show ?thesis
    by (simp add: run_accumulator_def run_buy_def sample_reads plan buy_require_funded_def liftS_def bindS_def
        require_native_gas_def required_native_gas_def checked_mul_def ACCUMULATOR_WALLET_MESSAGE_GAS_RAW_def
        spend_usdc_def sample_writes reads sample_credit U128_MAX_def ok_orS_def sample_intent_def desk_message_def
        returnS_def del: await_ecc_credit.simps)
qed

theorem intents_posted_at_most_once_witness:
  "\<exists>past current. [Persisted sample_intent, Posted desk_message]
      = concat (map closed_events past) @ (case current of None \<Rightarrow> [] | Some e \<Rightarrow> open_events e)
    \<and> (\<forall>e \<in> set past. episode_ok e) \<and> (\<forall>e. current = Some e \<longrightarrow> episode_ok e)
    \<and> Some sample_intent = map_option fst current"
proof -
  have "history sample_accumulator [] \<lparr>dk_chain = w, dk_file = None, dk_events = []\<rparr>" for w by (rule history.start)
  then have "history sample_accumulator [] \<lparr>dk_chain = (0, 0), dk_file = replay_desk None [Persisted sample_intent, Posted desk_message],
      dk_events = [] @ [Persisted sample_intent, Posted desk_message]\<rparr>"
    using history.killed [of sample_accumulator "[]" "\<lparr>dk_chain = (0, 5000000), dk_file = None, dk_events = []\<rparr>" "Buy 2"
      "(0, 5000000)" _ _ _ "[Persisted sample_intent, Posted desk_message]" "[Cleared]" "(0, 0)"] desk_sample_buy
    by simp
  from intents_posted_at_most_once [OF this] show ?thesis by simp
qed

section \<open>What success means\<close>

text \<open>
  A successful sell that posted its lots has read back, from the chain, at least as many lots of the owner as
  it planned, all at or above the order ids noted before the first message; a successful buy has read the whole credit.
\<close>

lemma scan_orders_found:
  "scan_orders W owner queue denom ids s = (s', Inr found) \<Longrightarrow>
    \<forall>lot \<in> set found. li_denom (ll_id lot) = denom \<and> li_order_id (ll_id lot) \<in> set ids
      \<and> ax_parse W (ld_owner (ll_details lot)) = Some owner \<and> ll_sold lot = is_sold queue (li_order_id (ll_id lot))"
proof (induction ids arbitrary: s s' found)
  case (Cons i ids)
  then obtain t details rest where "scan_orders W owner queue denom ids t = (s', Inr rest)"
    and "\<exists>address. found = (case details of None \<Rightarrow> rest | Some d \<Rightarrow>
       if ax_parse W (ld_owner d) = Some owner
       then \<lparr>ll_id = \<lparr>li_denom = denom, li_order_id = i\<rparr>, ll_address = address, ll_details = d, ll_sold = is_sold queue i\<rparr> # rest
       else rest)"
    by (auto simp: call_iffs Let_def)
  with Cons.IH [of t s' rest] show ?case by (cases details) (auto split: if_splits)
qed (simp add: simple_Inr_iff)

lemma sorted_dropWhile: "i \<in> set (dropWhile (\<lambda>j. j < n) xs) \<Longrightarrow> sorted xs \<Longrightarrow> n \<le> (i :: nat)"
  by (induction xs) (auto split: if_splits)

lemma scan_queues_found:
  "scan_queues W owner floors denoms s = (s', Inr found) \<Longrightarrow>
    \<forall>lot \<in> set found. li_denom (ll_id lot) \<in> set denoms \<and> scan_floor floors (li_denom (ll_id lot)) \<le> li_order_id (ll_id lot)
      \<and> ax_parse W (ld_owner (ll_details lot)) = Some owner"
proof (induction denoms arbitrary: s s' found)
  case (Cons denom denoms)
  obtain t queue u here rest where queue: "scan_orders W owner queue denom
      (dropWhile (\<lambda>i. i < scan_floor floors denom) (issued_order_ids queue)) t = (u, Inr here)"
    and rest: "scan_queues W owner floors denoms u = (s', Inr rest)" and found: "found = here @ rest"
    using Cons.prems by (auto simp: call_iffs)
  have "scan_floor floors denom \<le> i" if "i \<in> set (dropWhile (\<lambda>i. i < scan_floor floors denom) (issued_order_ids queue))" for i
    using that by (rule sorted_dropWhile) (simp add: issued_order_ids_def)
  then show ?case using scan_orders_found [OF queue] Cons.IH [OF rest] found by auto
qed (simp add: simple_Inr_iff)

lemma await_owned_lots_read:
  assumes "await_owned_lots W owner floors expected k latest s = (s', Inr lots)"
  shows "lots = latest \<or> (\<exists>t t'. lots_owned_by_from W owner floors t = (t', Inr lots))"
  using assms
  by (induction k arbitrary: latest s) (auto simp: call_iffs split: if_splits)

lemma sell_confirmed:
  assumes "sell_lots W owner plan floors s = (s', Inr ())" and "0 < lot_count plan"
  shows "\<exists>t t' lots. lots_owned_by_from W owner floors t = (t', Inr lots)
    \<and> lot_count plan \<le> length (filter (\<lambda>lot. ax_parse W (ld_owner (ll_details lot)) = Some owner
        \<and> (\<exists>first. hget floors (li_denom (ll_id lot)) = Some first \<and> first \<le> li_order_id (ll_id lot))) lots)"
proof -
  obtain t t' lots where read: "await_owned_lots W owner floors (lot_count plan) GAS_BALANCE_CONFIRM_MAX_READS [] t = (t', Inr lots)"
    and landed: "lot_count plan \<le> landed_lots floors lots"
    using assms(1) by (auto simp: sell_lots_def call_iffs ensureS_def refuse_if_def split: if_splits)
  have "lots \<noteq> []" using landed assms(2) by (auto simp: landed_lots_def)
  then obtain u u' where u: "lots_owned_by_from W owner floors u = (u', Inr lots)"
    using await_owned_lots_read [OF read] by auto
  have "filter (\<lambda>lot. case hget floors (li_denom (ll_id lot)) of Some first \<Rightarrow> first \<le> li_order_id (ll_id lot) | None \<Rightarrow> False) lots
    = filter (\<lambda>lot. ax_parse W (ld_owner (ll_details lot)) = Some owner
        \<and> (\<exists>first. hget floors (li_denom (ll_id lot)) = Some first \<and> first \<le> li_order_id (ll_id lot))) lots"
    using scan_queues_found [OF u [unfolded lots_owned_by_from_def]] by (intro filter_cong) (auto split: option.splits)
  then show ?thesis using u landed unfolding landed_lots_def by auto
qed

lemma credit_read:
  assumes "await_ecc_credit W owner currency before expected k s = (s', Inr (Some now))"
  shows "before + expected \<le> now \<and> (\<exists>t t'. ecc_balance W owner currency t = (t', Inr now))"
  using assms
  by (induction k arbitrary: s)
    (auto simp: call_iffs expected_credit_landed_def checked_add_def result_simps split: if_splits)

lemma buy_confirmed:
  assumes "spend_usdc W owner plan available before s = (s', Inr ())"
  shows "\<exists>t t' now. ecc_balance W owner SHELL_CURRENCY_ID t = (t', Inr now) \<and> before + bp_shell_expected_raw plan \<le> now"
proof -
  obtain t t' now where "await_ecc_credit W owner SHELL_CURRENCY_ID before (bp_shell_expected_raw plan)
      GAS_BALANCE_CONFIRM_MAX_READS t = (t', Inr (Some now))"
    using assms by (auto simp: spend_usdc_def call_iffs ok_orS_def result_simps)
  from credit_read [OF this] show ?thesis by blast
qed

text \<open>
  The gas check before a sell prices every message at its fee alone, but every message also attaches
  \<open>NOTE_DEPLOY_SUBMIT_NATIVE_VALUE\<close>: a wallet exactly at the floor passes both checks for thirty lots, and
  the value those lots attach is almost six times what it holds.
\<close>

lemma gas_check_leaves_out_the_attached_value:
  "require_native_gas FUNDING_WALLET_NATIVE_FLOOR_RAW 30 = Inr ()"
  "funding_wallet_native_shortfall_raw FUNDING_WALLET_NATIVE_FLOOR_RAW = None"
  "5 * FUNDING_WALLET_NATIVE_FLOOR_RAW < 30 * NOTE_DEPLOY_SUBMIT_NATIVE_VALUE"
  by (simp_all add: require_native_gas_def required_native_gas_def checked_mul_def checked_sub_def U128_MAX_def
      funding_wallet_native_shortfall_raw_def FUNDING_WALLET_NATIVE_FLOOR_RAW_def NOTE_DEPLOY_WALLET_SUBMITS_def
      NOTE_DEPLOY_SUBMIT_NATIVE_VALUE_def WALLET_SUBMIT_NATIVE_FEE_BOUND_RAW_def ACCUMULATOR_WALLET_MESSAGE_GAS_RAW_def)

end
