(* ===== verification/Offers.thy ===== *)
theory Offers
  imports Effects Address MarketViews
begin

text \<open>
  How the seller finds, checks and posts its offer: \<open>src/crates/dexdo/src/seller/mod.rs\<close>
  (\<open>validate_resting_offer\<close>, \<open>inspect_seller_offer\<close>, \<open>prepare_seller_offer\<close>, \<open>post_offer_with_note\<close>), and
  the world the seller's offer lives in, which \<open>Supervision\<close> shares. Every chain call names the deadline
  it is awaited under, \<open>None\<close> for none; a call that is dropped at its deadline answers \<open>Elapsed\<close>, whatever it did
  before. Error texts are left out: a fault keeps its figures.
\<close>

unbundle bit_operations_syntax

type_synonym instant = nat

definition SUBSCRIPTION_SELL_FLAGS :: flag_bits where "SUBSCRIPTION_SELL_FLAGS = AON OR SUBSCRIPTION"

record SellerConfig =
  cfg_token_contract :: token_contract
  cfg_price_per_tick :: u64
  cfg_max_ticks :: u64
  cfg_subscription :: bool
  cfg_gateway_advertise :: string
  cfg_mock_token_count :: u64

datatype SellerOfferStartup = ResumedFunded | ResumedResting u128 | PostedOffer "SellOfferOutcome option"

datatype SellerOfferInspection = InspFunded | InspResting u128 | InspVacant

datatype resting_fault =
    NotASell | NoTokenContractFact | BadWantedContract | BadOrderContract | OtherContract | NoExpectedOwner
  | BadWantedOwner | BadOrderOwner | OtherOwner | OtherPrice u128 | OtherTicks u128 | OtherFlags flag_bits
  | BookUnread ChainError | AmbiguousBook "u128 list"

datatype offer_fault = Elapsed | ChainFault ChainError | RestingFault resting_fault | BadVolume

section \<open>The world\<close>

text \<open>The marker of an accepted cancel is the backend's own; a submit may be refused before or at the node.\<close>

datatype cancel_fault = CancelElapsed | CancelPreparation ChainError | CancelSubmit ChainError

datatype health_component = GatewayTask | AdvertisedGateway | UpstreamModel

record HealthFailure =
  hf_component :: health_component
  hf_timed_out :: bool

datatype supervision_event = MatchCame "ChainError + Match" | ShutdownCame | HealthTick | ExpiryTick

text \<open>
  The awaits of the supervision loops: \<open>ow_select\<close> is the branch a \<open>select!\<close> takes, \<open>ow_interrupt\<close> whether a
  shutdown or the end of the gateway task wins over the awaited future. The readiness probes are network
  reads.
\<close>

record ('w, 'm) OfferWorld =
  ow_unix :: "'w \<Rightarrow> 'w \<times> u64"
  ow_now :: "'w \<Rightarrow> 'w \<times> instant"
  ow_sleep_until :: "instant \<Rightarrow> 'w \<Rightarrow> 'w"
  ow_raw_orders :: "instant option \<Rightarrow> token_contract \<Rightarrow> ('w, offer_fault, OrderBookOrder list) call"
  ow_openable_match :: "instant option \<Rightarrow> token_contract \<Rightarrow> ('w, offer_fault, Match option) call"
  ow_offer_latch :: "instant option \<Rightarrow> token_contract \<Rightarrow> ('w, offer_fault, DealOfferLatch option) call"
  ow_deal_state :: "instant option \<Rightarrow> token_contract \<Rightarrow> ('w, offer_fault, DealChainState option) call"
  ow_terms :: "instant option \<Rightarrow> token_contract \<Rightarrow> ('w, offer_fault, (u64 \<times> u64) option) call"
  ow_expire :: "instant option \<Rightarrow> token_contract \<Rightarrow> u128 \<Rightarrow> ('w, offer_fault, unit) call"
  ow_begin_cancel :: "instant option \<Rightarrow> token_contract \<Rightarrow> u128 \<Rightarrow> ('w, cancel_fault, 'm) call"
  ow_rejection :: "token_contract \<Rightarrow> u128 \<Rightarrow> string \<Rightarrow> 'm \<Rightarrow> ('w, offer_fault, u8 option) call"
  ow_assert_fresh :: "instant option \<Rightarrow> token_contract \<Rightarrow> ('w, offer_fault, unit) call"
  ow_post_offer :: "instant option \<Rightarrow> SellOffer \<Rightarrow> ('w, offer_fault, unit) call"
  ow_confirm_outcome :: "instant option \<Rightarrow> token_contract \<Rightarrow> ('w, offer_fault, SellOfferOutcome option) call"
  ow_covers_bond :: "token_contract \<Rightarrow> ('w, offer_fault, unit) call"
  ow_read_match :: "token_contract \<Rightarrow> ('w, offer_fault, Match) call"
  ow_startup_readiness :: "secs \<Rightarrow> 'w \<Rightarrow> 'w \<times> HealthFailure option"
  ow_readiness :: "secs \<Rightarrow> 'w \<Rightarrow> 'w \<times> HealthFailure option"
  ow_interrupt :: "'w \<Rightarrow> 'w \<times> HealthFailure option option"
  ow_select :: "'w \<Rightarrow> 'w \<times> supervision_event"
  ow_read_select :: "'w \<Rightarrow> 'w \<times> supervision_event option"
  ow_abort_gateway :: "'w \<Rightarrow> 'w"

text \<open>
  What a run shows of itself: the submits, and the readings it decided on. No operation reads it.
\<close>

datatype TargetState = Present | Absent | TargetMatched Match | TargetExpired u64 u64

datatype relist_refusal = SecondOffer u128 | LatchUnreadable | DealUsed string | TermsUnreadable | BelowMinimumFill u64

datatype reap_pending = ExpiredStillInBook | LatchStillPosted | DealStateAbsent

datatype RelistDecision = Relist u64 u64 | RelistMatched Match | RelistRefused relist_refusal | RelistUnproven

datatype offer_event =
    SawTarget TargetState | SawReap "reap_pending + RelistDecision" | SawVacant | SubmittedCancel u128 | SubmittedExpire u128
  | SubmittedPost SellOffer | Relisted u128 u64 u128 u64 | AbortedGateway

record 'w seller_state =
  ss_world :: 'w
  ss_events :: "offer_event list"

definition onW :: "('w, 'e, 'a) call \<Rightarrow> ('w seller_state, 'e, 'a) call" where
  "onW m s = (case m (ss_world s) of (w, r) \<Rightarrow> (s\<lparr>ss_world := w\<rparr>, r))"

definition getW :: "('w \<Rightarrow> 'w \<times> 'a) \<Rightarrow> ('w seller_state, 'e, 'a) call" where
  "getW f s = (case f (ss_world s) of (w, x) \<Rightarrow> (s\<lparr>ss_world := w\<rparr>, Inr x))"

definition actW :: "('w \<Rightarrow> 'w) \<Rightarrow> ('w seller_state, 'e, unit) call" where
  "actW f s = (s\<lparr>ss_world := f (ss_world s)\<rparr>, Inr ())"

definition show_event :: "offer_event \<Rightarrow> ('w seller_state, 'e, unit) call" where
  "show_event e s = (s\<lparr>ss_events := ss_events s @ [e]\<rparr>, Inr ())"

section \<open>The offer of the seller\<close>

definition validate_subscription_offer_volume :: "SellerConfig \<Rightarrow> offer_fault + unit" where
  "validate_subscription_offer_volume cfg =
    refuse_if (cfg_subscription cfg \<and> (cfg_max_ticks cfg = 0 \<or> SUBSCRIPTION_MAX_TICKS < cfg_max_ticks cfg
        \<or> cfg_max_ticks cfg mod SUBSCRIPTION_WEEKS \<noteq> 0)) BadVolume (Inr ())"

definition seller_flags :: "SellerConfig \<Rightarrow> flag_bits" where
  "seller_flags cfg = (if cfg_subscription cfg then SUBSCRIPTION_SELL_FLAGS else 0)"

definition offer_of :: "SellerConfig \<Rightarrow> SellOffer" where
  "offer_of cfg = \<lparr> so_price_per_tick = cfg_price_per_tick cfg, so_max_ticks = cfg_max_ticks cfg,
     so_token_contract = cfg_token_contract cfg, so_flags = seller_flags cfg \<rparr>"

definition post_offer_with_note ::
  "('w, 'm) OfferWorld \<Rightarrow> instant option \<Rightarrow> SellerConfig \<Rightarrow> ('w seller_state, offer_fault, unit) call" where
  "post_offer_with_note W due cfg =
    bindS (liftS (validate_subscription_offer_volume cfg)) (\<lambda>_.
    bindS (show_event (SubmittedPost (offer_of cfg))) (\<lambda>_.
    onW (ow_post_offer W due (offer_of cfg))))"

definition normalize_wallet_address :: "string \<Rightarrow> address_error + string" where
  "normalize_wallet_address s = bindR (parse_address s) (\<lambda>addr. Inr (legacy addr))"

definition validate_resting_offer :: "OrderBookOrder \<Rightarrow> string option \<Rightarrow> SellerConfig \<Rightarrow> resting_fault + unit" where
  "validate_resting_offer order expected_owner cfg =
    refuse_if (ob_is_buy order) NotASell
    (ok_or_else (ob_token_contract order) NoTokenContractFact (\<lambda>order_tc.
    bindR (map_err (\<lambda>_. BadWantedContract) (normalize_wallet_address (cfg_token_contract cfg))) (\<lambda>wanted_tc.
    bindR (map_err (\<lambda>_. BadOrderContract) (normalize_wallet_address order_tc)) (\<lambda>actual_tc.
    refuse_if (actual_tc \<noteq> wanted_tc) OtherContract
    (ok_or_else expected_owner NoExpectedOwner (\<lambda>expected.
    bindR (map_err (\<lambda>_. BadWantedOwner) (normalize_wallet_address expected)) (\<lambda>wanted_owner.
    bindR (map_err (\<lambda>_. BadOrderOwner) (normalize_wallet_address (ob_owner_note order))) (\<lambda>actual_owner.
    refuse_if (actual_owner \<noteq> wanted_owner) OtherOwner
    (refuse_if (ob_price_per_tick order \<noteq> cfg_price_per_tick cfg) (OtherPrice (ob_price_per_tick order))
    (refuse_if (ob_ticks order \<noteq> cfg_max_ticks cfg) (OtherTicks (ob_ticks order))
    (refuse_if (ob_flags order \<noteq> seller_flags cfg) (OtherFlags (ob_flags order))
    (Inr ()))))))))))))"

definition inspect_seller_offer ::
  "('w, 'm) OfferWorld \<Rightarrow> instant option \<Rightarrow> SellerConfig \<Rightarrow> string option
    \<Rightarrow> ('w seller_state, offer_fault, SellerOfferInspection) call" where
  "inspect_seller_offer W due cfg expected_owner =
    bindS (liftS (validate_subscription_offer_volume cfg)) (\<lambda>_.
    bindS (onW (ow_openable_match W due (cfg_token_contract cfg))) (\<lambda>openable.
    case openable of
      Some _ \<Rightarrow> returnS InspFunded
    | None \<Rightarrow>
        bindS (onW (ow_raw_orders W due (cfg_token_contract cfg))) (\<lambda>raw_orders.
        case raw_orders of
          [] \<Rightarrow> bindS (show_event SawVacant) (\<lambda>_. returnS InspVacant)
        | [order] \<Rightarrow>
            bindS (liftS (map_err RestingFault (validate_resting_offer order expected_owner cfg))) (\<lambda>_.
            returnS (InspResting (ob_order_id order)))
        | orders \<Rightarrow> failS (RestingFault (AmbiguousBook (map ob_order_id orders))))))"

definition prepare_seller_offer ::
  "('w, 'm) OfferWorld \<Rightarrow> instant option \<Rightarrow> SellerConfig \<Rightarrow> string option
    \<Rightarrow> ('w seller_state, offer_fault, SellerOfferStartup) call" where
  "prepare_seller_offer W due cfg expected_owner =
    bindS (inspect_seller_offer W due cfg expected_owner) (\<lambda>inspection.
    case inspection of
      InspVacant \<Rightarrow>
        bindS (onW (ow_assert_fresh W due (cfg_token_contract cfg))) (\<lambda>_.
        bindS (post_offer_with_note W due cfg) (\<lambda>_.
        bindS (onW (ow_confirm_outcome W due (cfg_token_contract cfg))) (\<lambda>outcome.
        returnS (PostedOffer outcome))))
    | InspResting order_id \<Rightarrow> returnS (ResumedResting order_id)
    | InspFunded \<Rightarrow> returnS ResumedFunded)"

section \<open>What a call shows\<close>

text \<open>\<open>reveals L m\<close>: whatever the world does, the events a run of \<open>m\<close> adds, with its result, are in \<open>L\<close>.\<close>

definition reveals :: "(offer_event list \<Rightarrow> 'e + 'a \<Rightarrow> bool) \<Rightarrow> ('w seller_state, 'e, 'a) call \<Rightarrow> bool" where
  "reveals L m \<longleftrightarrow> (\<forall>s s' r. m s = (s', r) \<longrightarrow> (\<exists>added. ss_events s' = ss_events s @ added \<and> L added r))"

definition silent :: "('w seller_state, 'e, 'a) call \<Rightarrow> bool" where
  "silent m \<longleftrightarrow> (\<forall>s. ss_events (fst (m s)) = ss_events s)"

named_theorems silent_intros

lemma silent_simple [silent_intros]:
  "silent (returnS x)" "silent (failS e)" "silent (liftS r)" "silent (onW m)" "silent (getW f)" "silent (actW g)"
  by (auto simp: silent_def call_defs onW_def getW_def actW_def split: prod.splits)

lemma silent_bindS [silent_intros]: "silent m \<Longrightarrow> (\<And>x. silent (f x)) \<Longrightarrow> silent (bindS m f)"
  by (auto simp: silent_def bindS_def split: prod.splits sum.splits) (metis fst_conv)+

lemma silent_tryS [silent_intros]: "silent m \<Longrightarrow> silent (tryS m)"
  by (auto simp: silent_def tryS_def split: prod.splits) (metis fst_conv)

lemma silentD: "silent m \<Longrightarrow> m s = (s', r) \<Longrightarrow> ss_events s' = ss_events s"
  by (metis fst_conv silent_def)

lemma revealsE:
  assumes "reveals L m" and "m s = (s', r)"
  obtains added where "ss_events s' = ss_events s @ added" and "L added r"
  using assms unfolding reveals_def by blast

lemma reveals_weaken: "reveals L m \<Longrightarrow> (\<And>added r. L added r \<Longrightarrow> L' added r) \<Longrightarrow> reveals L' m"
  unfolding reveals_def by blast

lemma reveals_silent: "silent m \<Longrightarrow> (\<And>s s' r. m s = (s', r) \<Longrightarrow> L [] r) \<Longrightarrow> reveals L m"
  unfolding reveals_def by (metis append_Nil2 silentD)

lemma reveals_event: "L [e] (Inr ()) \<Longrightarrow> reveals L (show_event e)"
  by (auto simp: reveals_def show_event_def)

lemma reveals_bindS:
  assumes m: "reveals L m" and f: "\<And>x. reveals (M x) (f x)"
    and failed: "\<And>xs e. L xs (Inl e) \<Longrightarrow> N xs (Inl e)"
    and both: "\<And>xs x ys r. L xs (Inr x) \<Longrightarrow> M x ys r \<Longrightarrow> N (xs @ ys) r"
  shows "reveals N (bindS m f)"
  unfolding reveals_def
proof (intro allI impI)
  fix s s' r
  assume run: "bindS m f s = (s', r)"
  obtain t x where t: "m s = (t, x)" by fastforce
  obtain xs where xs: "ss_events t = ss_events s @ xs" "L xs x" by (rule revealsE [OF m t])
  show "\<exists>added. ss_events s' = ss_events s @ added \<and> N added r"
  proof (cases x)
    case (Inl e)
    then show ?thesis using run t xs failed by auto
  next
    case (Inr y)
    then have go: "f y t = (s', r)" using run t by simp
    obtain ys where "ss_events s' = ss_events t @ ys" "M y ys r" by (rule revealsE [OF f go])
    then show ?thesis using xs Inr both by auto
  qed
qed

text \<open>
  The seller posts only onto a vacant deal: a post is preceded, in the same preparation, by the reading
  that found no match and no resting order.
\<close>

definition prepares :: "SellerConfig \<Rightarrow> offer_event list \<Rightarrow> offer_fault + SellerOfferStartup \<Rightarrow> bool" where
  "prepares cfg added r \<longleftrightarrow>
    (added = [] \<and> (\<forall>outcome. r \<noteq> Inr (PostedOffer outcome)))
    \<or> (added = [SawVacant] \<and> \<not> is_ok r) \<or> added = [SawVacant, SubmittedPost (offer_of cfg)]"

lemma inspect_reveals:
  "reveals (\<lambda>added r. if r = Inr InspVacant then added = [SawVacant] else added = []) (inspect_seller_offer W due cfg owner)"
  unfolding inspect_seller_offer_def reveals_def
  by (auto simp: bindS_def liftS_def onW_def returnS_def failS_def show_event_def
      split: prod.splits sum.splits option.splits list.splits)

lemma post_reveals:
  "reveals (\<lambda>added r. (added = [] \<and> \<not> is_ok r) \<or> added = [SubmittedPost (offer_of cfg)]) (post_offer_with_note W due cfg)"
  unfolding post_offer_with_note_def reveals_def
  by (auto simp: bindS_def liftS_def onW_def show_event_def is_ok_def split: prod.splits sum.splits)

lemma fresh_post_reveals:
  "reveals (\<lambda>added r. (added = [] \<and> \<not> is_ok r) \<or> added = [SubmittedPost (offer_of cfg)])
    (bindS (onW (ow_assert_fresh W due (cfg_token_contract cfg))) (\<lambda>_.
     bindS (post_offer_with_note W due cfg) (\<lambda>_.
     bindS (onW (ow_confirm_outcome W due (cfg_token_contract cfg))) (\<lambda>outcome.
     returnS (PostedOffer outcome)))))" (is "reveals ?T _")
proof -
  have tail: "reveals (\<lambda>added r. added = []) (bindS (onW (ow_confirm_outcome W due (cfg_token_contract cfg))) (\<lambda>outcome.
     returnS (PostedOffer outcome)))"
    by (intro reveals_silent silent_intros) simp
  have post: "reveals ?T (bindS (post_offer_with_note W due cfg) (\<lambda>_.
     bindS (onW (ow_confirm_outcome W due (cfg_token_contract cfg))) (\<lambda>outcome. returnS (PostedOffer outcome))))"
    by (rule reveals_bindS [OF post_reveals tail]) (auto simp: is_ok_def)
  have fresh: "reveals (\<lambda>added r. added = []) (onW (ow_assert_fresh W due (cfg_token_contract cfg)))"
    by (intro reveals_silent silent_intros) simp
  show ?thesis by (rule reveals_bindS [OF fresh post]) (auto simp: is_ok_def)
qed

lemma prepare_reveals: "reveals (prepares cfg) (prepare_seller_offer W due cfg owner)"
  unfolding prepare_seller_offer_def
proof (rule reveals_bindS [OF inspect_reveals])
  fix x
  show "reveals (\<lambda>added r. if x = InspVacant then (added = [] \<and> \<not> is_ok r) \<or> added = [SubmittedPost (offer_of cfg)]
      else added = [] \<and> (\<forall>outcome. r \<noteq> Inr (PostedOffer outcome)))
    (case x of
      InspVacant \<Rightarrow>
        bindS (onW (ow_assert_fresh W due (cfg_token_contract cfg))) (\<lambda>_.
        bindS (post_offer_with_note W due cfg) (\<lambda>_.
        bindS (onW (ow_confirm_outcome W due (cfg_token_contract cfg))) (\<lambda>outcome.
        returnS (PostedOffer outcome))))
    | InspResting order_id \<Rightarrow> returnS (ResumedResting order_id)
    | InspFunded \<Rightarrow> returnS ResumedFunded)"
  proof (cases x)
    case InspVacant
    then show ?thesis using fresh_post_reveals by simp
  qed (simp_all add: reveals_def returnS_def)
qed (auto simp: prepares_def is_ok_def split: if_splits)

end
