(* ===== verification/Supervision.thy ===== *)
theory Supervision
  imports Offers
begin

text \<open>
  The life of a resting offer, \<open>src/crates/dexdo/src/seller/liveness.rs\<close>: cancel it and find out what
  became of it, reap it when it expired and relist the deal, prepare a fresh offer, and the supervision loop
  over all of them. The loops end when the world lets them, so they are partial functions. Log lines
  are left out, except \<open>seller_offer_relisted\<close>, which is the event \<open>Relisted\<close>; error texts are constructors.
\<close>

definition SELLER_UPSTREAM_HEALTH_TIMEOUT_MAX_ATTEMPTS :: u32 where
  "SELLER_UPSTREAM_HEALTH_TIMEOUT_MAX_ATTEMPTS = 2"

definition TRANSIENT_READ_TOTAL_BUDGET :: secs where "TRANSIENT_READ_TOTAL_BUDGET = 45"

record RestingOfferIdentity =
  ri_owner_note :: string
  ri_token_contract :: token_contract
  ri_order_id :: u128

datatype known_result =
    InitialReadTimeout | InitialReadFailed offer_fault | PreparationFailed ChainError | SubmitTimeout
  | RejectedThen "offer_fault + TargetState" | ReadTimeout | UnresolvedSubmit | NoProof | UnconfirmedPost
  | SameOrderId | DeadlineBehind u64 | SuccessorUnread

datatype CancellationDisposition =
    Cancelled | AlreadyAbsent | AlreadyMatched Match | UnknownFailure known_result | RejectedStillResting u8
  | NotAttemptedExpired | ReapedNotRelisted relist_refusal

definition proven_unmatchable :: "CancellationDisposition \<Rightarrow> bool" where
  "proven_unmatchable d =
    (case d of
       Cancelled \<Rightarrow> True | AlreadyAbsent \<Rightarrow> True | AlreadyMatched _ \<Rightarrow> True | NotAttemptedExpired \<Rightarrow> True
     | ReapedNotRelisted _ \<Rightarrow> True | UnknownFailure _ \<Rightarrow> False | RejectedStillResting _ \<Rightarrow> False)"

datatype watcher_note = WatchFailed ChainError | NoExactOutcome | PostFailed offer_fault

datatype RestingStopReason = StopHealth HealthFailure | StopShutdown | StopWatcher watcher_note | StopExpired u64 u64

datatype RestingSellerOutcome = SellerMatched Match | SellerStopped RestingStopReason CancellationDisposition

datatype SellerStartupOutcome =
  Ready SellerOfferStartup | StartupStopped "RestingOfferIdentity option" RestingStopReason CancellationDisposition

datatype seller_error = Fault offer_fault | NotReady HealthFailure

record SupervisionTiming =
  st_health_interval :: secs
  st_health_timeout :: secs
  st_cycle_timeout :: secs
  st_cancel_poll :: secs
  st_expiry_poll :: secs
  st_reap_timeout :: secs
  st_reap_poll :: secs
  st_abort_gateway_on_stop :: bool

definition canonical_timing :: "bool \<Rightarrow> SupervisionTiming" where
  "canonical_timing abort_gateway_on_stop =
    \<lparr> st_health_interval = 20, st_health_timeout = 20, st_cycle_timeout = 60, st_cancel_poll = 2, st_expiry_poll = 5,
      st_reap_timeout = 60, st_reap_poll = 2, st_abort_gateway_on_stop = abort_gateway_on_stop \<rparr>"

type_synonym ('w, 'a) seller_run = "('w seller_state, seller_error, 'a) run"

definition awaitO :: "('w seller_state, offer_fault, 'a) call \<Rightarrow> ('w, 'a) seller_run" where
  "awaitO m = once (mapErrS Fault m)"

definition attemptO :: "('w seller_state, 'e, 'a) call \<Rightarrow> ('w, 'e + 'a) seller_run" where
  "attemptO m = once (tryS m)"

definition loadO :: "('w \<Rightarrow> 'w \<times> 'a) \<Rightarrow> ('w, 'a) seller_run" where
  "loadO f = once (getW f)"

definition showO :: "offer_event \<Rightarrow> ('w, unit) seller_run" where
  "showO e = once (show_event e)"

definition now_of :: "('w, 'm) OfferWorld \<Rightarrow> ('w, instant) seller_run" where
  "now_of W = loadO (ow_now W)"

definition sleep_untilO :: "('w, 'm) OfferWorld \<Rightarrow> instant \<Rightarrow> ('w, unit) seller_run" where
  "sleep_untilO W t = once (actW (ow_sleep_until W t))"

definition sleepO :: "('w, 'm) OfferWorld \<Rightarrow> secs \<Rightarrow> ('w, unit) seller_run" where
  "sleepO W poll = bindO (now_of W) (\<lambda>now. sleep_untilO W (now + poll))"

definition wake_before :: "('w, 'm) OfferWorld \<Rightarrow> secs \<Rightarrow> instant \<Rightarrow> ('w, unit) seller_run" where
  "wake_before W poll deadline = bindO (now_of W) (\<lambda>now. sleep_untilO W (min (now + poll) deadline))"

definition abort_gateway :: "('w, 'm) OfferWorld \<Rightarrow> ('w, unit) seller_run" where
  "abort_gateway W = bindO (showO AbortedGateway) (\<lambda>_. once (actW (ow_abort_gateway W)))"

text \<open>A turn of a loop: an answer, or another turn with what the loop carries.\<close>

datatype ('c, 'a) turn = Answer 'a | Turn 'c

partial_function (option) repeat ::
  "('c \<Rightarrow> ('w, ('c, 'a) turn) seller_run) \<Rightarrow> 'c \<Rightarrow> 'w seller_state \<Rightarrow> ('w seller_state \<times> (seller_error + 'a)) option" where
  "repeat m c s = (case m c s of
     None \<Rightarrow> None
   | Some (s', Inl e) \<Rightarrow> Some (s', Inl e)
   | Some (s', Inr (Answer x)) \<Rightarrow> Some (s', Inr x)
   | Some (s', Inr (Turn c')) \<Rightarrow> repeat m c' s')"

text \<open>The rule for loops: what a turn keeps, the loop has when it answers.\<close>

lemma ensures_repeat:
  assumes turn: "\<And>c. ensures (I c) (m c) (\<lambda>t s. case t of Answer x \<Rightarrow> Q x s | Turn c' \<Rightarrow> I c' s) E"
  shows "ensures (I c) (repeat m c) Q E"
proof -
  have loop: "I c s \<longrightarrow> m' = m \<longrightarrow> (case snd y of Inr x \<Rightarrow> Q x (fst y) | Inl _ \<Rightarrow> E (fst y))" if "repeat m' c s = Some y" for m' c s y
  proof (rule repeat.raw_induct [where P = "\<lambda>m' c s y. I c s \<longrightarrow> m' = m \<longrightarrow>
      (case snd y of Inr x \<Rightarrow> Q x (fst y) | Inl _ \<Rightarrow> E (fst y))", OF _ that], goal_cases)
    case (1 again m' c s y)
    show ?case
    proof (intro impI)
      assume inv: "I c s" and m': "m' = m"
      obtain s1 r where run: "m c s = Some (s1, r)" using 1(2) m' by (cases "m c s") auto
      note after = ensuresD [OF turn inv run]
      show "case snd y of Inr x \<Rightarrow> Q x (fst y) | Inl _ \<Rightarrow> E (fst y)"
      proof (cases r)
        case (Inl e)
        then show ?thesis using 1(2) m' run after by auto
      next
        case (Inr t)
        then show ?thesis using 1 m' run after by (cases t) auto
      qed
    qed
  qed
  show ?thesis unfolding ensures_def using loop by (metis fst_conv snd_conv)
qed

section \<open>Cancelling the exact order\<close>

definition target_state ::
  "('w, 'm) OfferWorld \<Rightarrow> instant option \<Rightarrow> SellerConfig \<Rightarrow> RestingOfferIdentity \<Rightarrow> ('w seller_state, offer_fault, TargetState) call" where
  "target_state W due cfg identity =
    bindS (getW (ow_unix W)) (\<lambda>observed_at.
    bindS (onW (ow_raw_orders W due (ri_token_contract identity))) (\<lambda>orders.
    case find (\<lambda>order. ob_order_id order = ri_order_id identity) orders of
      Some order \<Rightarrow>
        bindS (liftS (map_err RestingFault (validate_resting_offer order (Some (ri_owner_note identity)) cfg))) (\<lambda>_.
        returnS (if \<not> order_deadline_is_live (ob_is_buy order) (ob_deadline order) observed_at
                 then TargetExpired (ob_deadline order) observed_at else Present))
    | None \<Rightarrow>
        bindS (onW (ow_openable_match W due (ri_token_contract identity))) (\<lambda>openable.
        returnS (case openable of Some matched \<Rightarrow> TargetMatched matched | None \<Rightarrow> Absent))))"

definition see_target ::
  "('w, 'm) OfferWorld \<Rightarrow> instant option \<Rightarrow> SellerConfig \<Rightarrow> RestingOfferIdentity
    \<Rightarrow> ('w, offer_fault + TargetState) seller_run" where
  "see_target W due cfg identity =
    attemptO (bindS (target_state W due cfg identity) (\<lambda>state.
      bindS (show_event (SawTarget state)) (\<lambda>_. returnS state)))"

definition watch_turn ::
  "('w, 'm) OfferWorld \<Rightarrow> SellerConfig \<Rightarrow> RestingOfferIdentity \<Rightarrow> 'm \<Rightarrow> secs
    \<Rightarrow> ('w, (unit, CancellationDisposition) turn) seller_run" where
  "watch_turn W cfg identity marker poll_interval =
    bindO (see_target W None cfg identity) (\<lambda>state.
    case state of
      Inr Absent \<Rightarrow> once (returnS (Answer Cancelled))
    | Inr (TargetMatched matched) \<Rightarrow> once (returnS (Answer (AlreadyMatched matched)))
    | Inl _ \<Rightarrow> bindO (sleepO W poll_interval) (\<lambda>_. once (returnS (Turn ())))
    | Inr _ \<Rightarrow>
        bindO (attemptO (onW (ow_rejection W (ri_token_contract identity) (ri_order_id identity)
          (ri_owner_note identity) marker))) (\<lambda>rejection.
        case rejection of
          Inr (Some reason) \<Rightarrow> once (returnS (Answer (RejectedStillResting reason)))
        | _ \<Rightarrow> bindO (sleepO W poll_interval) (\<lambda>_. once (returnS (Turn ())))))"

definition watch_accepted_cancel ::
  "('w, 'm) OfferWorld \<Rightarrow> SellerConfig \<Rightarrow> RestingOfferIdentity \<Rightarrow> 'm \<Rightarrow> secs
    \<Rightarrow> ('w, CancellationDisposition) seller_run" where
  "watch_accepted_cancel W cfg identity marker poll_interval = repeat (\<lambda>_. watch_turn W cfg identity marker poll_interval) ()"

text \<open>The first loop of a cancel: \<open>None\<close> is the way on to the submit.\<close>

definition absent_turn ::
  "('w, 'm) OfferWorld \<Rightarrow> instant \<Rightarrow> secs \<Rightarrow> ('w, (unit, CancellationDisposition option) turn) seller_run" where
  "absent_turn W deadline poll_interval =
    bindO (now_of W) (\<lambda>now.
    bindO (if now < deadline then bindO (wake_before W poll_interval deadline) (\<lambda>_. now_of W) else once (returnS deadline)) (\<lambda>later.
    if later < deadline then once (returnS (Turn ()))
    else bindO (now_of W) (\<lambda>final.
         once (returnS (if deadline \<le> final then Answer (Some AlreadyAbsent) else Turn ())))))"

definition initial_turn ::
  "('w, 'm) OfferWorld \<Rightarrow> SellerConfig \<Rightarrow> RestingOfferIdentity \<Rightarrow> instant \<Rightarrow> secs
    \<Rightarrow> ('w, (unit, CancellationDisposition option) turn) seller_run" where
  "initial_turn W cfg identity deadline poll_interval =
    bindO (see_target W (Some deadline) cfg identity) (\<lambda>state.
    case state of
      Inl Elapsed \<Rightarrow> once (returnS (Answer (Some (UnknownFailure InitialReadTimeout))))
    | Inl error \<Rightarrow> once (returnS (Answer (Some (UnknownFailure (InitialReadFailed error)))))
    | Inr (TargetMatched matched) \<Rightarrow> once (returnS (Answer (Some (AlreadyMatched matched))))
    | Inr Absent \<Rightarrow> absent_turn W deadline poll_interval
    | Inr _ \<Rightarrow> once (returnS (Answer None)))"

text \<open>The last loop of a cancel whose submit was refused; \<open>seen\<close> is what the read before it answered.\<close>

definition rejected_turn ::
  "('w, 'm) OfferWorld \<Rightarrow> SellerConfig \<Rightarrow> RestingOfferIdentity \<Rightarrow> instant \<Rightarrow> secs \<Rightarrow> offer_fault + TargetState
    \<Rightarrow> ('w, (offer_fault + TargetState, CancellationDisposition) turn) seller_run" where
  "rejected_turn W cfg identity deadline poll_interval seen =
    bindO (now_of W) (\<lambda>now.
    if deadline \<le> now
    then once (returnS (Answer (if seen = Inr Absent then AlreadyAbsent else UnknownFailure (RejectedThen seen))))
    else bindO (see_target W (Some deadline) cfg identity) (\<lambda>state.
    case state of
      Inl Elapsed \<Rightarrow> once (returnS (Answer (UnknownFailure ReadTimeout)))
    | Inr (TargetMatched matched) \<Rightarrow> once (returnS (Answer (AlreadyMatched matched)))
    | _ \<Rightarrow> bindO (wake_before W poll_interval deadline) (\<lambda>_. once (returnS (Turn state)))))"

definition submit_cancel ::
  "('w, 'm) OfferWorld \<Rightarrow> SellerConfig \<Rightarrow> RestingOfferIdentity \<Rightarrow> instant \<Rightarrow> secs
    \<Rightarrow> ('w, CancellationDisposition) seller_run" where
  "submit_cancel W cfg identity deadline poll_interval =
    bindO (showO (SubmittedCancel (ri_order_id identity))) (\<lambda>_.
    bindO (attemptO (onW (ow_begin_cancel W (Some deadline) (ri_token_contract identity) (ri_order_id identity)))) (\<lambda>begun.
    case begun of
      Inr marker \<Rightarrow> watch_accepted_cancel W cfg identity marker poll_interval
    | Inl (CancelPreparation error) \<Rightarrow> once (returnS (UnknownFailure (PreparationFailed error)))
    | Inl CancelElapsed \<Rightarrow> once (returnS (UnknownFailure SubmitTimeout))
    | Inl (CancelSubmit _) \<Rightarrow> repeat (rejected_turn W cfg identity deadline poll_interval) (Inr Present)))"

definition cancel_and_confirm_before ::
  "('w, 'm) OfferWorld \<Rightarrow> SellerConfig \<Rightarrow> RestingOfferIdentity \<Rightarrow> instant \<Rightarrow> secs
    \<Rightarrow> ('w, CancellationDisposition) seller_run" where
  "cancel_and_confirm_before W cfg identity deadline poll_interval =
    bindO (repeat (\<lambda>_. initial_turn W cfg identity deadline poll_interval) ()) (\<lambda>verdict.
    case verdict of
      Some disposition \<Rightarrow> once (returnS disposition)
    | None \<Rightarrow> submit_cancel W cfg identity deadline poll_interval)"

definition cancel_and_confirm :: "('w, 'm) OfferWorld \<Rightarrow> SellerConfig \<Rightarrow> RestingOfferIdentity \<Rightarrow> ('w, CancellationDisposition) seller_run" where
  "cancel_and_confirm W cfg identity =
    bindO (now_of W) (\<lambda>now. cancel_and_confirm_before W cfg identity (now + 60) 2)"

section \<open>Reaping an expired order\<close>

definition reap_state ::
  "('w, 'm) OfferWorld \<Rightarrow> instant option \<Rightarrow> RestingOfferIdentity
    \<Rightarrow> ('w seller_state, offer_fault, reap_pending + RelistDecision) call" where
  "reap_state W due identity =
    (let tc = ri_token_contract identity in
     bindS (onW (ow_openable_match W due tc)) (\<lambda>openable.
     case openable of
       Some matched \<Rightarrow> returnS (Inr (RelistMatched matched))
     | None \<Rightarrow>
     bindS (onW (ow_raw_orders W due tc)) (\<lambda>orders.
     case find (\<lambda>order. ob_order_id order \<noteq> ri_order_id identity) orders of
       Some other \<Rightarrow> returnS (Inr (RelistRefused (SecondOffer (ob_order_id other))))
     | None \<Rightarrow>
     if orders \<noteq> [] then returnS (Inl ExpiredStillInBook) else
     bindS (onW (ow_offer_latch W due tc)) (\<lambda>read_latch.
     case read_latch of
       None \<Rightarrow> returnS (Inr (RelistRefused LatchUnreadable))
     | Some latch \<Rightarrow>
     if offer_posted latch then returnS (Inl LatchStillPosted) else
     bindS (onW (ow_deal_state W due tc)) (\<lambda>read_state.
     case read_state of
       None \<Rightarrow> returnS (Inl DealStateAbsent)
     | Some state \<Rightarrow>
     case used_reason state of
       Some reason \<Rightarrow> returnS (Inr (RelistRefused (DealUsed reason)))
     | None \<Rightarrow>
     bindS (onW (ow_terms W due tc)) (\<lambda>terms.
     case terms of
       None \<Rightarrow> returnS (Inr (RelistRefused TermsUnreadable))
     | Some (price_per_tick, remaining_ticks) \<Rightarrow>
         returnS (Inr (if remaining_ticks < MIN_STREAM_BUY_TICKS then RelistRefused (BelowMinimumFill remaining_ticks)
                       else Relist remaining_ticks price_per_tick))))))))"

definition see_reap ::
  "('w, 'm) OfferWorld \<Rightarrow> instant option \<Rightarrow> RestingOfferIdentity
    \<Rightarrow> ('w, offer_fault + (reap_pending + RelistDecision)) seller_run" where
  "see_reap W due identity =
    attemptO (bindS (reap_state W due identity) (\<lambda>answer.
      bindS (show_event (SawReap answer)) (\<lambda>_. returnS answer)))"

definition submit_expire :: "('w, 'm) OfferWorld \<Rightarrow> RestingOfferIdentity \<Rightarrow> instant \<Rightarrow> ('w, unit) seller_run" where
  "submit_expire W identity deadline =
    bindO (showO (SubmittedExpire (ri_order_id identity))) (\<lambda>_.
    bindO (attemptO (onW (ow_expire W (Some deadline) (ri_token_contract identity) (ri_order_id identity)))) (\<lambda>_.
    once (returnS ())))"

text \<open>The loop carries whether the expiry was submitted.\<close>

definition reap_turn ::
  "('w, 'm) OfferWorld \<Rightarrow> RestingOfferIdentity \<Rightarrow> instant \<Rightarrow> secs \<Rightarrow> bool
    \<Rightarrow> ('w, (bool, RelistDecision) turn) seller_run" where
  "reap_turn W identity deadline poll_interval submitted =
    bindO (see_reap W (Some deadline) identity) (\<lambda>read.
    case read of
      Inr (Inr decision) \<Rightarrow> once (returnS (Answer decision))
    | _ \<Rightarrow>
        bindO (if submitted then once (returnS ()) else submit_expire W identity deadline) (\<lambda>_.
        bindO (now_of W) (\<lambda>now.
        if deadline \<le> now then once (returnS (Answer RelistUnproven))
        else bindO (wake_before W poll_interval deadline) (\<lambda>_. once (returnS (Turn True))))))"

definition reap_expired_offer ::
  "('w, 'm) OfferWorld \<Rightarrow> RestingOfferIdentity \<Rightarrow> instant \<Rightarrow> secs \<Rightarrow> ('w, RelistDecision) seller_run" where
  "reap_expired_offer W identity deadline poll_interval = repeat (reap_turn W identity deadline poll_interval) False"

definition successor_turn ::
  "('w, 'm) OfferWorld \<Rightarrow> RestingOfferIdentity \<Rightarrow> instant \<Rightarrow> secs \<Rightarrow> ('w, (unit, u64 option) turn) seller_run" where
  "successor_turn W identity deadline poll_interval =
    bindO (attemptO (onW (ow_raw_orders W (Some deadline) (ri_token_contract identity)))) (\<lambda>read.
    case (case read of Inr orders \<Rightarrow> find (\<lambda>order. ob_order_id order = ri_order_id identity) orders | Inl _ \<Rightarrow> None) of
      Some order \<Rightarrow> once (returnS (Answer (Some (ob_deadline order))))
    | None \<Rightarrow>
        bindO (now_of W) (\<lambda>now.
        if deadline \<le> now then once (returnS (Answer None))
        else bindO (wake_before W poll_interval deadline) (\<lambda>_. once (returnS (Turn ())))))"

definition successor_absolute_deadline ::
  "('w, 'm) OfferWorld \<Rightarrow> RestingOfferIdentity \<Rightarrow> instant \<Rightarrow> secs \<Rightarrow> ('w, u64 option) seller_run" where
  "successor_absolute_deadline W identity deadline poll_interval =
    repeat (\<lambda>_. successor_turn W identity deadline poll_interval) ()"

section \<open>Preparing an offer\<close>

definition stop_exact_offer ::
  "('w, 'm) OfferWorld \<Rightarrow> SellerConfig \<Rightarrow> RestingOfferIdentity \<Rightarrow> RestingStopReason \<Rightarrow> instant \<Rightarrow> SupervisionTiming
    \<Rightarrow> ('w, SellerStartupOutcome) seller_run" where
  "stop_exact_offer W cfg identity reason deadline timing =
    bindO (cancel_and_confirm_before W cfg identity deadline (st_cancel_poll timing)) (\<lambda>disposition.
    case disposition of
      AlreadyMatched _ \<Rightarrow> once (returnS (Ready ResumedFunded))
    | _ \<Rightarrow>
        if \<not> proven_unmatchable disposition then once (returnS (StartupStopped (Some identity) reason disposition))
        else bindO (abort_gateway W) (\<lambda>_. once (returnS (StartupStopped (Some identity) reason disposition))))"

definition reconcile_turn ::
  "('w, 'm) OfferWorld \<Rightarrow> SellerConfig \<Rightarrow> string \<Rightarrow> instant \<Rightarrow> secs
    \<Rightarrow> ('w, (unit, SellerOfferInspection option) turn) seller_run" where
  "reconcile_turn W cfg expected_owner deadline poll_interval =
    bindO (now_of W) (\<lambda>now.
    if deadline \<le> now then once (returnS (Answer None))
    else bindO (attemptO (inspect_seller_offer W (Some deadline) cfg (Some expected_owner))) (\<lambda>inspected.
    case inspected of
      Inl Elapsed \<Rightarrow> once (returnS (Answer None))
    | Inl _ \<Rightarrow> bindO (wake_before W poll_interval deadline) (\<lambda>_. once (returnS (Turn ())))
    | Inr InspVacant \<Rightarrow> bindO (wake_before W poll_interval deadline) (\<lambda>_. once (returnS (Turn ())))
    | Inr inspection \<Rightarrow> once (returnS (Answer (Some inspection)))))"

definition reconcile_unresolved_startup ::
  "('w, 'm) OfferWorld \<Rightarrow> SellerConfig \<Rightarrow> string \<Rightarrow> instant \<Rightarrow> secs \<Rightarrow> ('w, SellerOfferInspection option) seller_run" where
  "reconcile_unresolved_startup W cfg expected_owner deadline poll_interval =
    repeat (\<lambda>_. reconcile_turn W cfg expected_owner deadline poll_interval) ()"

definition identity_of :: "SellerConfig \<Rightarrow> string \<Rightarrow> u128 \<Rightarrow> RestingOfferIdentity" where
  "identity_of cfg owner order_id =
    \<lparr>ri_owner_note = owner, ri_token_contract = cfg_token_contract cfg, ri_order_id = order_id\<rparr>"

definition settle_inspection ::
  "('w, 'm) OfferWorld \<Rightarrow> SellerConfig \<Rightarrow> string \<Rightarrow> RestingStopReason \<Rightarrow> instant \<Rightarrow> SupervisionTiming
    \<Rightarrow> SellerOfferInspection \<Rightarrow> ('w, SellerStartupOutcome) seller_run" where
  "settle_inspection W cfg expected_owner reason deadline timing inspection =
    (case inspection of
       InspFunded \<Rightarrow> once (returnS (Ready ResumedFunded))
     | InspResting order_id \<Rightarrow> stop_exact_offer W cfg (identity_of cfg expected_owner order_id) reason deadline timing
     | InspVacant \<Rightarrow> bindO (abort_gateway W) (\<lambda>_. once (returnS (StartupStopped None reason AlreadyAbsent))))"

definition resolve_interrupted_startup ::
  "('w, 'm) OfferWorld \<Rightarrow> SellerConfig \<Rightarrow> string \<Rightarrow> SellerOfferStartup option \<Rightarrow> RestingStopReason \<Rightarrow> instant
    \<Rightarrow> SupervisionTiming \<Rightarrow> ('w, SellerStartupOutcome) seller_run" where
  "resolve_interrupted_startup W cfg expected_owner startup reason deadline timing =
    (let unresolved =
       bindO (reconcile_unresolved_startup W cfg expected_owner deadline (st_cancel_poll timing)) (\<lambda>reconciled.
       case reconciled of
         Some inspection \<Rightarrow> settle_inspection W cfg expected_owner reason deadline timing inspection
       | None \<Rightarrow> once (returnS (StartupStopped None reason (UnknownFailure UnresolvedSubmit)))) in
     case startup of
       None \<Rightarrow> unresolved
     | Some ResumedFunded \<Rightarrow> once (returnS (Ready ResumedFunded))
     | Some (ResumedResting order_id) \<Rightarrow>
         settle_inspection W cfg expected_owner reason deadline timing (InspResting order_id)
     | Some (PostedOffer (Some Matched)) \<Rightarrow> once (returnS (Ready ResumedFunded))
     | Some (PostedOffer (Some (Rested order_id))) \<Rightarrow>
         settle_inspection W cfg expected_owner reason deadline timing (InspResting order_id)
     | Some (PostedOffer None) \<Rightarrow> unresolved)"

text \<open>Only a timed-out probe is asked again; \<open>left\<close> are the attempts that remain.\<close>

fun startup_readiness_with_timeout_retries ::
  "('w, 'm) OfferWorld \<Rightarrow> SupervisionTiming \<Rightarrow> nat \<Rightarrow> ('w, HealthFailure option) seller_run" where
  "startup_readiness_with_timeout_retries W timing left =
    bindO (loadO (ow_startup_readiness W (st_health_timeout timing))) (\<lambda>outcome.
    case outcome of
      None \<Rightarrow> once (returnS None)
    | Some failure \<Rightarrow>
        (case left of
           Suc rest \<Rightarrow> if hf_timed_out failure then startup_readiness_with_timeout_retries W timing rest
                       else once (returnS (Some failure))
         | 0 \<Rightarrow> once (returnS (Some failure))))"

declare startup_readiness_with_timeout_retries.simps [simp del]

definition interruption :: "HealthFailure option \<Rightarrow> RestingStopReason" where
  "interruption x = (case x of None \<Rightarrow> StopShutdown | Some failure \<Rightarrow> StopHealth failure)"

text \<open>A \<open>select!\<close> between the interruptions and a readiness probe: the reason to stop, if any.\<close>

definition unless_interrupted ::
  "('w, 'm) OfferWorld \<Rightarrow> ('w, HealthFailure option) seller_run \<Rightarrow> ('w, RestingStopReason option) seller_run" where
  "unless_interrupted W probe =
    bindO (loadO (ow_interrupt W)) (\<lambda>interrupted.
    case interrupted of
      Some x \<Rightarrow> once (returnS (Some (interruption x)))
    | None \<Rightarrow> bindO probe (\<lambda>failure. once (returnS (map_option StopHealth failure))))"

definition refuse_before_sell ::
  "('w, 'm) OfferWorld \<Rightarrow> RestingStopReason \<Rightarrow> ('w, SellerStartupOutcome) seller_run" where
  "refuse_before_sell W reason =
    bindO (abort_gateway W) (\<lambda>_.
    case reason of
      StopHealth failure \<Rightarrow> once (failS (NotReady failure))
    | _ \<Rightarrow> once (returnS (StartupStopped None reason AlreadyAbsent)))"

definition confirm_fresh_offer ::
  "('w, 'm) OfferWorld \<Rightarrow> SellerConfig \<Rightarrow> RestingOfferIdentity \<Rightarrow> SellerOfferStartup \<Rightarrow> SupervisionTiming
    \<Rightarrow> ('w, SellerStartupOutcome) seller_run" where
  "confirm_fresh_offer W cfg identity startup timing =
    bindO (now_of W) (\<lambda>base.
    let deadline = base + st_cycle_timeout timing in
    bindO (now_of W) (\<lambda>now.
    bindO (unless_interrupted W (loadO (ow_readiness W (min (st_health_timeout timing) (deadline - now))))) (\<lambda>stop.
    case stop of
      Some reason \<Rightarrow> stop_exact_offer W cfg identity reason deadline timing
    | None \<Rightarrow> once (returnS (Ready startup)))))"

definition settle_startup ::
  "('w, 'm) OfferWorld \<Rightarrow> SellerConfig \<Rightarrow> string \<Rightarrow> SupervisionTiming \<Rightarrow> offer_fault + SellerOfferStartup
    \<Rightarrow> ('w, SellerStartupOutcome) seller_run" where
  "settle_startup W cfg expected_owner timing startup =
    (let resolve = (\<lambda>note.
       bindO (now_of W) (\<lambda>now. resolve_interrupted_startup W cfg expected_owner None (StopWatcher note)
         (now + st_cycle_timeout timing) timing)) in
     case startup of
       Inr (PostedOffer None) \<Rightarrow> resolve NoExactOutcome
     | Inr (PostedOffer (Some (Rested order_id))) \<Rightarrow>
         confirm_fresh_offer W cfg (identity_of cfg expected_owner order_id) (PostedOffer (Some (Rested order_id))) timing
     | Inr other \<Rightarrow> once (returnS (Ready other))
     | Inl error \<Rightarrow> resolve (PostFailed error))"

definition prepare_seller_offer_with_timing ::
  "('w, 'm) OfferWorld \<Rightarrow> SellerConfig \<Rightarrow> string \<Rightarrow> RestingOfferIdentity option \<Rightarrow> SupervisionTiming
    \<Rightarrow> ('w, SellerStartupOutcome) seller_run" where
  "prepare_seller_offer_with_timing W cfg expected_owner existing_identity timing =
    bindO (awaitO (onW (ow_covers_bond W (cfg_token_contract cfg)))) (\<lambda>_.
    bindO (now_of W) (\<lambda>base.
    bindO (unless_interrupted W (startup_readiness_with_timeout_retries W timing
      (SELLER_UPSTREAM_HEALTH_TIMEOUT_MAX_ATTEMPTS - 1))) (\<lambda>readiness_stop.
    case readiness_stop of
      Some reason \<Rightarrow>
        (case existing_identity of
           Some identity \<Rightarrow> stop_exact_offer W cfg identity reason (base + st_cycle_timeout timing) timing
         | None \<Rightarrow> refuse_before_sell W reason)
    | None \<Rightarrow>
        bindO (loadO (ow_interrupt W)) (\<lambda>interrupted.
        case interrupted of
          None \<Rightarrow>
            bindO (attemptO (prepare_seller_offer W None cfg (Some expected_owner))) (\<lambda>startup.
            settle_startup W cfg expected_owner timing startup)
        | Some x \<Rightarrow>
            bindO (now_of W) (\<lambda>now.
            let deadline = now + st_cycle_timeout timing in
            bindO (now_of W) (\<lambda>later.
            bindO (attemptO (prepare_seller_offer W (Some (min deadline (later + st_health_timeout timing))) cfg
              (Some expected_owner))) (\<lambda>startup.
            resolve_interrupted_startup W cfg expected_owner
              (case startup of Inr s \<Rightarrow> Some s | Inl _ \<Rightarrow> None) (interruption x) deadline timing)))))))"

section \<open>Supervising and relisting\<close>

datatype SupervisedOfferPoll = PollLive u64 | PollExpired u64 u64 | PollMatched

definition resting_offer_expiry ::
  "('w, 'm) OfferWorld \<Rightarrow> instant option \<Rightarrow> RestingOfferIdentity \<Rightarrow> u64 option
    \<Rightarrow> ('w seller_state, offer_fault, SupervisedOfferPoll) call" where
  "resting_offer_expiry W due identity last_observed_deadline =
    bindS (getW (ow_unix W)) (\<lambda>observed_at.
    bindS (onW (ow_raw_orders W due (ri_token_contract identity))) (\<lambda>orders.
    case find (\<lambda>order. ob_order_id order = ri_order_id identity) orders of
      None \<Rightarrow>
        bindS (onW (ow_openable_match W due (ri_token_contract identity))) (\<lambda>openable.
        returnS (if openable \<noteq> None then PollMatched
                 else PollExpired (case last_observed_deadline of Some d \<Rightarrow> d | None \<Rightarrow> 0) observed_at))
    | Some order \<Rightarrow>
        returnS (if order_deadline_is_live (ob_is_buy order) (ob_deadline order) observed_at
                 then PollLive (ob_deadline order) else PollExpired (ob_deadline order) observed_at)))"

datatype trigger = TrHealth HealthFailure | TrShutdown | TrWatcher ChainError | TrExpired u64 u64

text \<open>What ends supervision: a match, or a trigger with the deadline of the cancel. A turn carries the
  instant of the last healthy check and the last deadline the book showed.\<close>

type_synonym 'w supervision_turn = "('w, (instant \<times> u64 option, (trigger \<times> instant) + Match) turn) seller_run"

definition on_match :: "('w, 'm) OfferWorld \<Rightarrow> SupervisionTiming \<Rightarrow> ChainError + Match \<Rightarrow> 'w supervision_turn" where
  "on_match W timing r =
    (case r of
       Inr matched \<Rightarrow> once (returnS (Answer (Inr matched)))
     | Inl error \<Rightarrow> bindO (now_of W) (\<lambda>now. once (returnS (Answer (Inl (TrWatcher error, now + st_cycle_timeout timing))))))"

definition on_shutdown :: "('w, 'm) OfferWorld \<Rightarrow> SupervisionTiming \<Rightarrow> 'w supervision_turn" where
  "on_shutdown W timing =
    bindO (now_of W) (\<lambda>now. once (returnS (Answer (Inl (TrShutdown, now + st_cycle_timeout timing)))))"

fun readiness_attempts ::
  "('w, 'm) OfferWorld \<Rightarrow> SupervisionTiming \<Rightarrow> instant \<Rightarrow> instant \<Rightarrow> bool \<Rightarrow> nat
    \<Rightarrow> ('w, (HealthFailure \<times> instant) + instant) seller_run" where
  "readiness_attempts W timing deadline timeout_deadline retried left =
    bindO (now_of W) (\<lambda>now.
    bindO (loadO (ow_readiness W (min (st_health_timeout timing)
      ((if retried then timeout_deadline else deadline) - now)))) (\<lambda>outcome.
    case outcome of
      None \<Rightarrow> bindO (now_of W) (\<lambda>healthy. once (returnS (Inr healthy)))
    | Some failure \<Rightarrow>
        (case left of
           Suc rest \<Rightarrow>
             if hf_timed_out failure \<and> (hf_component failure = UpstreamModel \<or> hf_component failure = AdvertisedGateway)
             then readiness_attempts W timing deadline timeout_deadline True rest
             else once (returnS (Inl (failure, if retried then timeout_deadline else deadline)))
         | 0 \<Rightarrow> once (returnS (Inl (failure, if retried then timeout_deadline else deadline))))))"

declare readiness_attempts.simps [simp del]

definition on_health_tick ::
  "('w, 'm) OfferWorld \<Rightarrow> SupervisionTiming \<Rightarrow> instant \<times> u64 option \<Rightarrow> 'w supervision_turn" where
  "on_health_tick W timing carried =
    bindO (now_of W) (\<lambda>cycle_start.
    let starved = fst carried + st_cycle_timeout timing \<le> cycle_start;
        cycle_base = (if starved then cycle_start else fst carried);
        deadline = cycle_base + st_cycle_timeout timing;
        retry_allowance = st_health_timeout timing * (SELLER_UPSTREAM_HEALTH_TIMEOUT_MAX_ATTEMPTS - 1) in
    bindO (readiness_attempts W timing deadline (deadline + retry_allowance) False
      (SELLER_UPSTREAM_HEALTH_TIMEOUT_MAX_ATTEMPTS - 1)) (\<lambda>outcome.
    once (returnS (case outcome of
      Inr healthy \<Rightarrow> Turn (healthy, snd carried)
    | Inl (failure, cancellation_deadline) \<Rightarrow> Answer (Inl (TrHealth failure, cancellation_deadline))))))"

definition on_expiry_tick ::
  "('w, 'm) OfferWorld \<Rightarrow> SupervisionTiming \<Rightarrow> RestingOfferIdentity \<Rightarrow> instant \<times> u64 option \<Rightarrow> 'w supervision_turn" where
  "on_expiry_tick W timing identity carried =
    bindO (loadO (ow_read_select W)) (\<lambda>first.
    case first of
      Some (MatchCame r) \<Rightarrow> on_match W timing r
    | Some ShutdownCame \<Rightarrow> on_shutdown W timing
    | _ \<Rightarrow>
        bindO (now_of W) (\<lambda>now.
        bindO (attemptO (resting_offer_expiry W (Some (now + TRANSIENT_READ_TOTAL_BUDGET)) identity (snd carried))) (\<lambda>read.
        case read of
          Inr (PollExpired deadline observed_at) \<Rightarrow>
            bindO (now_of W) (\<lambda>later.
            once (returnS (Answer (Inl (TrExpired deadline observed_at, later + st_cycle_timeout timing)))))
        | Inr (PollLive deadline) \<Rightarrow> once (returnS (Turn (fst carried, Some deadline)))
        | _ \<Rightarrow> once (returnS (Turn carried)))))"

definition supervision_turn ::
  "('w, 'm) OfferWorld \<Rightarrow> SupervisionTiming \<Rightarrow> RestingOfferIdentity \<Rightarrow> instant \<times> u64 option \<Rightarrow> 'w supervision_turn" where
  "supervision_turn W timing identity carried =
    bindO (loadO (ow_select W)) (\<lambda>event.
    case event of
      MatchCame r \<Rightarrow> on_match W timing r
    | ShutdownCame \<Rightarrow> on_shutdown W timing
    | HealthTick \<Rightarrow> on_health_tick W timing carried
    | ExpiryTick \<Rightarrow> on_expiry_tick W timing identity carried)"

definition stop_reason :: "trigger \<Rightarrow> RestingStopReason" where
  "stop_reason t =
    (case t of
       TrHealth failure \<Rightarrow> StopHealth failure | TrShutdown \<Rightarrow> StopShutdown
     | TrWatcher error \<Rightarrow> StopWatcher (WatchFailed error) | TrExpired deadline observed_at \<Rightarrow> StopExpired deadline observed_at)"

definition retire ::
  "('w, 'm) OfferWorld \<Rightarrow> SellerConfig \<Rightarrow> RestingOfferIdentity \<Rightarrow> SupervisionTiming \<Rightarrow> trigger \<Rightarrow> instant
    \<Rightarrow> ('w, RestingSellerOutcome) seller_run" where
  "retire W cfg identity timing t deadline =
    bindO (cancel_and_confirm_before W cfg identity deadline (st_cancel_poll timing)) (\<lambda>disposition.
    case disposition of
      AlreadyMatched matched \<Rightarrow> once (returnS (SellerMatched matched))
    | _ \<Rightarrow>
        bindO (if st_abort_gateway_on_stop timing \<and> proven_unmatchable disposition then abort_gateway W
               else once (returnS ())) (\<lambda>_.
        once (returnS (SellerStopped (stop_reason t) disposition))))"

definition supervise_with_timing ::
  "('w, 'm) OfferWorld \<Rightarrow> SellerConfig \<Rightarrow> RestingOfferIdentity \<Rightarrow> SupervisionTiming
    \<Rightarrow> ('w, RestingSellerOutcome) seller_run" where
  "supervise_with_timing W cfg identity timing =
    bindO (now_of W) (\<lambda>last_healthy.
    bindO (repeat (supervision_turn W timing identity) (last_healthy, None)) (\<lambda>decision.
    case decision of
      Inr matched \<Rightarrow> once (returnS (SellerMatched matched))
    | Inl (TrExpired deadline observed_at, _) \<Rightarrow>
        once (returnS (SellerStopped (StopExpired deadline observed_at) NotAttemptedExpired))
    | Inl (t, cancel_deadline) \<Rightarrow> retire W cfg identity timing t cancel_deadline))"

text \<open>One generation of the relist loop; it carries the configuration and the identity it supervises.\<close>

type_synonym 'w generation_turn =
  "('w, (SellerConfig \<times> RestingOfferIdentity, RestingOfferIdentity \<times> RestingSellerOutcome) turn) seller_run"

definition settle_generation :: "RestingOfferIdentity \<Rightarrow> RestingSellerOutcome \<Rightarrow> 'w generation_turn" where
  "settle_generation identity outcome = once (returnS (Answer (identity, outcome)))"

definition adopt_successor ::
  "('w, 'm) OfferWorld \<Rightarrow> SupervisionTiming \<Rightarrow> SellerConfig \<Rightarrow> RestingOfferIdentity \<Rightarrow> u64 \<Rightarrow> u64 \<Rightarrow> u128
    \<Rightarrow> 'w generation_turn" where
  "adopt_successor W timing cfg identity expired_deadline expired_at successor =
    (let unknown = (\<lambda>k. settle_generation identity (SellerStopped (StopExpired expired_deadline expired_at) (UnknownFailure k)));
         successor_identity = identity\<lparr>ri_order_id := successor\<rparr> in
     if successor = ri_order_id identity then unknown SameOrderId
     else
       bindO (now_of W) (\<lambda>now.
       bindO (successor_absolute_deadline W successor_identity (now + st_reap_timeout timing) (st_reap_poll timing)) (\<lambda>read.
       case read of
         None \<Rightarrow> unknown SuccessorUnread
       | Some deadline \<Rightarrow>
           if expired_deadline < deadline
           then bindO (showO (Relisted (ri_order_id identity) expired_deadline successor deadline)) (\<lambda>_.
                once (returnS (Turn (cfg, successor_identity))))
           else unknown (DeadlineBehind deadline))))"

definition relist_offer ::
  "('w, 'm) OfferWorld \<Rightarrow> SupervisionTiming \<Rightarrow> SellerConfig \<Rightarrow> RestingOfferIdentity \<Rightarrow> u64 \<Rightarrow> u64
    \<Rightarrow> 'w generation_turn" where
  "relist_offer W timing cfg identity expired_deadline expired_at =
    bindO (prepare_seller_offer_with_timing W cfg (ri_owner_note identity) None timing) (\<lambda>prepared.
    case prepared of
      Ready ResumedFunded \<Rightarrow>
        bindO (awaitO (onW (ow_read_match W (ri_token_contract identity)))) (\<lambda>m. settle_generation identity (SellerMatched m))
    | Ready (PostedOffer (Some Matched)) \<Rightarrow>
        bindO (awaitO (onW (ow_read_match W (ri_token_contract identity)))) (\<lambda>m. settle_generation identity (SellerMatched m))
    | Ready (PostedOffer (Some (Rested order_id))) \<Rightarrow>
        adopt_successor W timing cfg identity expired_deadline expired_at order_id
    | Ready (ResumedResting order_id) \<Rightarrow>
        adopt_successor W timing cfg identity expired_deadline expired_at order_id
    | Ready (PostedOffer None) \<Rightarrow>
        settle_generation identity (SellerStopped (StopExpired expired_deadline expired_at) (UnknownFailure UnconfirmedPost))
    | StartupStopped _ reason disposition \<Rightarrow> settle_generation identity (SellerStopped reason disposition))"

definition generation_turn ::
  "('w, 'm) OfferWorld \<Rightarrow> SupervisionTiming \<Rightarrow> SellerConfig \<times> RestingOfferIdentity \<Rightarrow> 'w generation_turn" where
  "generation_turn W timing carried =
    (case carried of (cfg, identity) \<Rightarrow>
     bindO (supervise_with_timing W cfg identity timing) (\<lambda>outcome.
     case outcome of
       SellerStopped (StopExpired expired_deadline expired_at) _ \<Rightarrow>
         bindO (now_of W) (\<lambda>now.
         bindO (reap_expired_offer W identity (now + st_reap_timeout timing) (st_reap_poll timing)) (\<lambda>decision.
         case decision of
           RelistMatched matched \<Rightarrow> settle_generation identity (SellerMatched matched)
         | RelistRefused reason \<Rightarrow>
             settle_generation identity (SellerStopped (StopExpired expired_deadline expired_at) (ReapedNotRelisted reason))
         | RelistUnproven \<Rightarrow>
             settle_generation identity (SellerStopped (StopExpired expired_deadline expired_at) (UnknownFailure NoProof))
         | Relist remaining_ticks price_per_tick \<Rightarrow>
             relist_offer W timing (cfg\<lparr>cfg_price_per_tick := price_per_tick, cfg_max_ticks := remaining_ticks\<rparr>)
               identity expired_deadline expired_at))
     | settled \<Rightarrow> settle_generation identity settled))"

definition supervise_and_relist_reporting_identity ::
  "('w, 'm) OfferWorld \<Rightarrow> SellerConfig \<Rightarrow> RestingOfferIdentity \<Rightarrow> SupervisionTiming
    \<Rightarrow> ('w, RestingOfferIdentity \<times> RestingSellerOutcome) seller_run" where
  "supervise_and_relist_reporting_identity W cfg identity timing = repeat (generation_turn W timing) (cfg, identity)"

definition supervise_resting_offer_with_relist ::
  "('w, 'm) OfferWorld \<Rightarrow> SellerConfig \<Rightarrow> RestingOfferIdentity \<Rightarrow> bool
    \<Rightarrow> ('w, RestingOfferIdentity \<times> RestingSellerOutcome) seller_run" where
  "supervise_resting_offer_with_relist W cfg identity abort_gateway_on_stop =
    supervise_and_relist_reporting_identity W cfg identity (canonical_timing abort_gateway_on_stop)"

end
