(* ===== verification/SupervisionLaws.thy ===== *)
theory SupervisionLaws
  imports Supervision
begin

text \<open>
  What the supervision of a resting offer guarantees, whatever the chain, the probes and the clock do: the
  verdict of a cancel rests on the last reading of the book; the gateway is stopped only after a reading
  that the order is gone; a successor is posted only onto a deal that was just read to be free.
\<close>

section \<open>Runs that show nothing\<close>

definition onE :: "(offer_event list \<Rightarrow> bool) \<Rightarrow> 'w seller_state \<Rightarrow> bool" where
  "onE P s = P (ss_events s)"

definition quietO :: "('w, 'a) seller_run \<Rightarrow> bool" where
  "quietO m \<longleftrightarrow> (\<forall>P. ensures (onE P) m (\<lambda>_. onE P) (onE P))"

named_theorems quietO_intros

lemma quietO_once [quietO_intros]: "silent m \<Longrightarrow> quietO (once m)"
  by (auto simp: quietO_def ensures_def onE_def once_def split: sum.split) (metis silentD)+

lemma quietO_bindO [quietO_intros]: "quietO m \<Longrightarrow> (\<And>x. quietO (f x)) \<Longrightarrow> quietO (bindO m f)"
  unfolding quietO_def by (blast intro: ensures_bindO)

lemma turn_same: "(case t of Answer x \<Rightarrow> b | Turn c \<Rightarrow> b) = b"
  by (cases t) auto

lemma quietO_repeat [quietO_intros]: "(\<And>c. quietO (m c)) \<Longrightarrow> quietO (repeat m c)"
  unfolding quietO_def
proof
  fix P
  assume "\<And>c. \<forall>P. ensures (onE P) (m c) (\<lambda>_. onE P) (onE P)"
  then have "ensures (onE P) (m c) (\<lambda>t s. case t of Answer x \<Rightarrow> onE P s | Turn c' \<Rightarrow> onE P s) (onE P)" for c
    by (simp add: turn_same)
  then show "ensures (onE P) (repeat m c) (\<lambda>_. onE P) (onE P)" by (rule ensures_repeat)
qed

lemma silent_mapErrS [silent_intros]: "silent m \<Longrightarrow> silent (mapErrS g m)"
  by (auto simp: silent_def mapErrS_def split: prod.splits) (metis fst_conv)

lemma quietO_calls [quietO_intros]:
  "silent m \<Longrightarrow> quietO (awaitO m)" "silent n \<Longrightarrow> quietO (attemptO n)" "quietO (loadO f)" "quietO (now_of W)"
  "quietO (sleep_untilO W t)" "quietO (sleepO W poll)" "quietO (wake_before W poll deadline)"
  unfolding awaitO_def attemptO_def loadO_def now_of_def sleep_untilO_def sleepO_def wake_before_def
  by (intro quietO_intros silent_intros; assumption)+

lemma quietO_branches [quietO_intros]:
  "quietO m \<Longrightarrow> quietO n \<Longrightarrow> quietO (if b then m else n)"
  "quietO m \<Longrightarrow> (\<And>y. quietO (f y)) \<Longrightarrow> quietO (case x of None \<Rightarrow> m | Some y \<Rightarrow> f y)"
  "(\<And>y. quietO (g y)) \<Longrightarrow> (\<And>z. quietO (h z)) \<Longrightarrow> quietO (case r of Inl y \<Rightarrow> g y | Inr z \<Rightarrow> h z)"
  by (auto split: option.split sum.split)

lemma quietO_successor: "quietO (successor_absolute_deadline W identity deadline poll)"
  unfolding successor_absolute_deadline_def successor_turn_def by (intro quietO_intros silent_intros)

lemma quietO_startup_readiness: "quietO (startup_readiness_with_timeout_retries W timing left)"
  by (induction left; subst startup_readiness_with_timeout_retries.simps)
    (auto intro!: quietO_intros silent_intros split: option.split)

lemma quietO_unless_interrupted: "quietO probe \<Longrightarrow> quietO (unless_interrupted W probe)"
  unfolding unless_interrupted_def by (intro quietO_intros silent_intros)

lemma quietO_readiness_attempts: "quietO (readiness_attempts W timing deadline timeout_deadline retried left)"
  by (induction left arbitrary: retried; subst readiness_attempts.simps)
    (auto intro!: quietO_intros silent_intros split: option.split)

lemma silent_expiry: "silent (resting_offer_expiry W due identity d)"
  unfolding resting_offer_expiry_def
  by (intro silent_intros) (auto intro!: silent_intros split: option.split)

lemma quietO_supervision_turn: "quietO (supervision_turn W timing identity carried)"
proof -
  have "quietO (on_match W timing r)" for r
    unfolding on_match_def by (intro quietO_intros silent_intros)
  moreover have "quietO (on_shutdown W timing)"
    unfolding on_shutdown_def by (intro quietO_intros silent_intros)
  moreover have "quietO (on_health_tick W timing carried)"
    unfolding on_health_tick_def Let_def by (intro quietO_intros silent_intros quietO_readiness_attempts)
  moreover have "quietO (on_expiry_tick W timing identity carried)"
    unfolding on_expiry_tick_def using calculation(1,2)
    by (intro quietO_intros)
      (auto intro!: quietO_intros silent_intros silent_expiry split: option.split supervision_event.split sum.split
        SupervisedOfferPoll.split)
  ultimately show ?thesis
    unfolding supervision_turn_def
    by (intro quietO_intros) (auto split: supervision_event.split)
qed

section \<open>What a cancel decides on\<close>

text \<open>A reading is shown exactly if it was made.\<close>

lemma see_target_ensures:
  "ensures (onE (\<lambda>h. h = h0)) (see_target W due cfg identity)
    (\<lambda>r. onE (\<lambda>h. h = h0 @ (case r of Inr x \<Rightarrow> [SawTarget x] | Inl _ \<Rightarrow> []))) (\<lambda>_. False)"
proof -
  have "silent (target_state W due cfg identity)"
    unfolding target_state_def by (intro silent_intros) (auto intro!: silent_intros split: option.split)
  note D = silentD [OF this]
  show ?thesis
    unfolding ensures_def onE_def see_target_def attemptO_def
    by (auto simp: once_def tryS_def bindS_def show_event_def returnS_def dest: D split: prod.splits sum.splits)
qed

lemma quiet_ensures: "quietO m \<Longrightarrow> (\<And>h. P h \<Longrightarrow> Q h) \<Longrightarrow> ensures (onE P) m (\<lambda>_. onE Q) (onE Q)"
  unfolding quietO_def by (erule allE [of _ P], erule ensures_weaken) (auto simp: onE_def)

definition readings :: "offer_event list \<Rightarrow> (TargetState list \<Rightarrow> bool) \<Rightarrow> offer_event list \<Rightarrow> bool" where
  "readings h0 P h \<longleftrightarrow> (\<exists>xs. h = h0 @ map SawTarget xs \<and> P xs)"

definition still_there :: "TargetState \<Rightarrow> bool" where
  "still_there x \<longleftrightarrow> (case x of Present \<Rightarrow> True | TargetExpired _ _ \<Rightarrow> True | _ \<Rightarrow> False)"

text \<open>The reading a verdict rests on is the last one made.\<close>

definition decides :: "TargetState list \<Rightarrow> CancellationDisposition \<Rightarrow> bool" where
  "decides xs d =
    (case d of
       Cancelled \<Rightarrow> xs \<noteq> [] \<and> last xs = Absent
     | AlreadyAbsent \<Rightarrow> xs \<noteq> [] \<and> last xs = Absent
     | AlreadyMatched m \<Rightarrow> xs \<noteq> [] \<and> last xs = TargetMatched m
     | RejectedStillResting _ \<Rightarrow> xs \<noteq> [] \<and> still_there (last xs)
     | UnknownFailure _ \<Rightarrow> True
     | _ \<Rightarrow> False)"

lemma see_target_reads:
  "ensures (onE (readings h0 P)) (see_target W due cfg identity)
    (\<lambda>r. onE (readings h0 (\<lambda>xs. case r of Inr x \<Rightarrow> xs \<noteq> [] \<and> last xs = x | Inl _ \<Rightarrow> P xs))) (\<lambda>_. False)"
  unfolding ensures_def
proof (intro allI impI)
  fix s s' r
  assume pre: "onE (readings h0 P) s" and run: "see_target W due cfg identity s = Some (s', r)"
  obtain xs where xs: "ss_events s = h0 @ map SawTarget xs" "P xs" using pre by (auto simp: onE_def readings_def)
  have "case r of Inr r' \<Rightarrow> ss_events s' = ss_events s @ (case r' of Inr x \<Rightarrow> [SawTarget x] | Inl _ \<Rightarrow> []) | Inl _ \<Rightarrow> False"
    using see_target_ensures [of "ss_events s" W due cfg identity] run unfolding ensures_def onE_def by blast
  then show "case r of Inr x \<Rightarrow> onE (readings h0 (\<lambda>xs. case x of Inr x \<Rightarrow> xs \<noteq> [] \<and> last xs = x | Inl _ \<Rightarrow> P xs)) s' | Inl _ \<Rightarrow> False"
    using xs
    by (auto simp: onE_def readings_def split: sum.splits intro: exI [of _ "xs @ [_]"])
qed

lemma see_target_reads_any:
  "ensures (onE (readings h0 P)) (see_target W due cfg identity)
    (\<lambda>r. onE (readings h0 (\<lambda>xs. case r of Inr x \<Rightarrow> xs \<noteq> [] \<and> last xs = x | Inl _ \<Rightarrow> P xs))) E"
  by (rule ensures_weaken [OF see_target_reads]) auto

lemma answer_ensures: "(\<And>h. P h \<Longrightarrow> Q x h) \<Longrightarrow> ensures (onE P) (once (returnS x)) (\<lambda>y. onE (Q y)) E"
  by (rule ensures_return) (simp add: onE_def)

lemma quiet_then:
  "quietO m \<Longrightarrow> (\<And>x. ensures (onE P) (f x) Q (onE E)) \<Longrightarrow> (\<And>h. P h \<Longrightarrow> E h) \<Longrightarrow> ensures (onE P) (bindO m f) Q (onE E)"
  by (rule ensures_bindO [where Q = "\<lambda>_. onE P"]) (auto simp: quietO_def onE_def intro: ensures_weaken)

text \<open>The watch of an accepted cancel.\<close>

lemma watch_decides:
  "ensures (onE (readings h0 (\<lambda>_. True))) (watch_accepted_cancel W cfg identity marker poll)
    (\<lambda>d. onE (readings h0 (\<lambda>xs. decides xs d))) (onE (readings h0 (\<lambda>_. True)))"
  unfolding watch_accepted_cancel_def
proof (rule ensures_repeat)
  fix c :: unit
  let ?I = "onE (readings h0 (\<lambda>_. True))"
  let ?Q = "\<lambda>t s. case t of Answer d \<Rightarrow> onE (readings h0 (\<lambda>xs. decides xs d)) s | Turn c' \<Rightarrow> ?I s"
  have again: "ensures (onE (readings h0 P)) (bindO (sleepO W poll) (\<lambda>_. once (returnS (Turn ())))) ?Q ?I" for P
    by (rule quiet_then [OF quietO_calls(6)])
      (auto simp: readings_def onE_def intro!: ensures_return)
  have rejection: "ensures (onE (readings h0 (\<lambda>xs. xs \<noteq> [] \<and> last xs = x)))
      (bindO (attemptO (onW (ow_rejection W (ri_token_contract identity) (ri_order_id identity)
          (ri_owner_note identity) marker))) (\<lambda>rejection.
        case rejection of
          Inr (Some reason) \<Rightarrow> once (returnS (Answer (RejectedStillResting reason)))
        | _ \<Rightarrow> bindO (sleepO W poll) (\<lambda>_. once (returnS (Turn ()))))) ?Q ?I" if "still_there x" for x
    using again that
    by (intro quiet_then quietO_calls silent_intros)
      (auto simp: decides_def readings_def onE_def intro!: ensures_return split: sum.split option.split)
  show "ensures ?I (watch_turn W cfg identity marker poll) ?Q ?I"
    unfolding watch_turn_def
  proof (rule ensures_bindO [OF see_target_reads_any])
    fix r
    show "ensures (onE (readings h0 (\<lambda>xs. case r of Inr x \<Rightarrow> xs \<noteq> [] \<and> last xs = x | Inl _ \<Rightarrow> True)))
      (case r of
        Inr Absent \<Rightarrow> once (returnS (Answer Cancelled))
      | Inr (TargetMatched matched) \<Rightarrow> once (returnS (Answer (AlreadyMatched matched)))
      | Inl _ \<Rightarrow> bindO (sleepO W poll) (\<lambda>_. once (returnS (Turn ())))
      | Inr _ \<Rightarrow>
          bindO (attemptO (onW (ow_rejection W (ri_token_contract identity) (ri_order_id identity)
            (ri_owner_note identity) marker))) (\<lambda>rejection.
          case rejection of
            Inr (Some reason) \<Rightarrow> once (returnS (Answer (RejectedStillResting reason)))
          | _ \<Rightarrow> bindO (sleepO W poll) (\<lambda>_. once (returnS (Turn ()))))) ?Q ?I"
    proof (cases r)
      case (Inl e)
      then show ?thesis using again by simp
    next
      case (Inr x)
      then show ?thesis using rejection [of x]
        by (cases x) (auto simp: decides_def readings_def onE_def still_there_def intro!: ensures_return)
    qed
  qed
qed

text \<open>The loop before the submit.\<close>

definition before_submit :: "offer_event list \<Rightarrow> CancellationDisposition option \<Rightarrow> offer_event list \<Rightarrow> bool" where
  "before_submit h0 v =
    (case v of
       Some d \<Rightarrow> readings h0 (\<lambda>xs. decides xs d \<and> d \<noteq> Cancelled)
     | None \<Rightarrow> readings h0 (\<lambda>xs. xs \<noteq> [] \<and> still_there (last xs)))"

lemma readings_weaken: "readings h0 P h \<Longrightarrow> (\<And>xs. P xs \<Longrightarrow> Q xs) \<Longrightarrow> readings h0 Q h"
  by (auto simp: readings_def)

lemma initial_decides:
  "ensures (onE (readings h0 (\<lambda>_. True))) (repeat (\<lambda>_. initial_turn W cfg identity deadline poll) ())
    (\<lambda>v. onE (before_submit h0 v)) (onE (readings h0 (\<lambda>_. True)))"
proof (rule ensures_repeat)
  fix c :: unit
  let ?I = "onE (readings h0 (\<lambda>_. True))"
  let ?Q = "\<lambda>t s. case t of Answer v \<Rightarrow> onE (before_submit h0 v) s | Turn c' \<Rightarrow> ?I s"
  have absent: "ensures (onE (readings h0 (\<lambda>xs. xs \<noteq> [] \<and> last xs = Absent))) (absent_turn W deadline poll) ?Q ?I"
    unfolding absent_turn_def
    by (intro quiet_then quietO_intros silent_intros)
      (auto simp: before_submit_def decides_def onE_def intro!: ensures_return quiet_then quietO_calls
        elim: readings_weaken split: if_splits)
  show "ensures ?I (initial_turn W cfg identity deadline poll) ?Q ?I"
    unfolding initial_turn_def
  proof (rule ensures_bindO [OF see_target_reads_any])
    fix r
    show "ensures (onE (readings h0 (\<lambda>xs. case r of Inr x \<Rightarrow> xs \<noteq> [] \<and> last xs = x | Inl _ \<Rightarrow> True)))
      (case r of
        Inl Elapsed \<Rightarrow> once (returnS (Answer (Some (UnknownFailure InitialReadTimeout))))
      | Inl error \<Rightarrow> once (returnS (Answer (Some (UnknownFailure (InitialReadFailed error)))))
      | Inr (TargetMatched matched) \<Rightarrow> once (returnS (Answer (Some (AlreadyMatched matched))))
      | Inr Absent \<Rightarrow> absent_turn W deadline poll
      | Inr _ \<Rightarrow> once (returnS (Answer None))) ?Q ?I"
    proof (cases r)
      case (Inl e)
      then show ?thesis by (cases e) (auto simp: before_submit_def decides_def onE_def intro!: ensures_return)
    next
      case (Inr x)
      then show ?thesis using absent
        by (cases x) (auto simp: before_submit_def decides_def still_there_def onE_def elim!: readings_weaken intro!: ensures_return)
    qed
  qed
qed

text \<open>The loop after a refused submit.\<close>

lemma rejected_decides:
  "ensures (onE (readings h0 (\<lambda>_. True))) (repeat (rejected_turn W cfg identity deadline poll) (Inr Present))
    (\<lambda>d. onE (readings h0 (\<lambda>xs. decides xs d))) (onE (readings h0 (\<lambda>_. True)))"
proof -
  let ?I = "\<lambda>seen. onE (readings h0 (\<lambda>xs. seen = Inr Absent \<longrightarrow> xs \<noteq> [] \<and> last xs = Absent))"
  let ?E = "onE (readings h0 (\<lambda>_. True))"
  let ?Q = "\<lambda>t s. case t of Answer d \<Rightarrow> onE (readings h0 (\<lambda>xs. decides xs d)) s | Turn c' \<Rightarrow> ?I c' s"
  have turn: "ensures (?I seen) (rejected_turn W cfg identity deadline poll seen) ?Q ?E" for seen
    unfolding rejected_turn_def
  proof (rule quiet_then [OF quietO_calls(4)])
    fix now
    have next_turn: "ensures (onE (readings h0 (\<lambda>xs. case r of Inr x \<Rightarrow> xs \<noteq> [] \<and> last xs = x | Inl _ \<Rightarrow> P xs)))
        (bindO (wake_before W poll deadline) (\<lambda>_. once (returnS (Turn r)))) ?Q ?E" for P and r :: "offer_fault + TargetState"
      by (rule quiet_then [OF quietO_calls(7)]) (auto simp: onE_def elim!: readings_weaken intro!: ensures_return)
    have "ensures (?I seen)
       (bindO (see_target W (Some deadline) cfg identity) (\<lambda>state.
        case state of
          Inl Elapsed \<Rightarrow> once (returnS (Answer (UnknownFailure ReadTimeout)))
        | Inr (TargetMatched matched) \<Rightarrow> once (returnS (Answer (AlreadyMatched matched)))
        | _ \<Rightarrow> bindO (wake_before W poll deadline) (\<lambda>_. once (returnS (Turn state))))) ?Q ?E"
    proof (rule ensures_bindO [OF see_target_reads_any])
      fix r :: "offer_fault + TargetState"
      let ?P = "\<lambda>xs. seen = Inr Absent \<longrightarrow> xs \<noteq> [] \<and> last xs = Absent"
      show "ensures (onE (readings h0 (\<lambda>xs. case r of Inr x \<Rightarrow> xs \<noteq> [] \<and> last xs = x | Inl _ \<Rightarrow> ?P xs)))
         (case r of
            Inl Elapsed \<Rightarrow> once (returnS (Answer (UnknownFailure ReadTimeout)))
          | Inr (TargetMatched matched) \<Rightarrow> once (returnS (Answer (AlreadyMatched matched)))
          | _ \<Rightarrow> bindO (wake_before W poll deadline) (\<lambda>_. once (returnS (Turn r)))) ?Q ?E"
      proof (cases r)
        case (Inl e)
        then show ?thesis using next_turn [of ?P r]
          by (cases e) (auto simp: decides_def onE_def elim: readings_weaken intro!: ensures_return)
      next
        case (Inr x)
        then show ?thesis using next_turn [of ?P r]
          by (cases x) (auto simp: decides_def onE_def elim: readings_weaken intro!: ensures_return)
      qed
    qed
    then show "ensures (?I seen)
       (if deadline \<le> now
        then once (returnS (Answer (if seen = Inr Absent then AlreadyAbsent else UnknownFailure (RejectedThen seen))))
        else bindO (see_target W (Some deadline) cfg identity) (\<lambda>state.
        case state of
          Inl Elapsed \<Rightarrow> once (returnS (Answer (UnknownFailure ReadTimeout)))
        | Inr (TargetMatched matched) \<Rightarrow> once (returnS (Answer (AlreadyMatched matched)))
        | _ \<Rightarrow> bindO (wake_before W poll deadline) (\<lambda>_. once (returnS (Turn state))))) ?Q ?E"
      by (auto simp: decides_def onE_def elim: readings_weaken intro!: ensures_return)
  qed (auto elim: readings_weaken)
  show ?thesis by (rule ensures_weaken [OF ensures_repeat [OF turn]]) (auto simp: onE_def elim: readings_weaken)
qed

definition cancel_trace :: "offer_event list \<Rightarrow> u128 \<Rightarrow> CancellationDisposition \<Rightarrow> offer_event list \<Rightarrow> bool" where
  "cancel_trace h0 i d h \<longleftrightarrow> readings h0 (\<lambda>xs. decides xs d \<and> d \<noteq> Cancelled) h
    \<or> (\<exists>xs. xs \<noteq> [] \<and> still_there (last xs)
        \<and> readings (h0 @ map SawTarget xs @ [SubmittedCancel i]) (\<lambda>ys. decides ys d) h)"

text \<open>Everything a cancel may show.\<close>

definition cancel_steps :: "offer_event list \<Rightarrow> u128 \<Rightarrow> offer_event list \<Rightarrow> bool" where
  "cancel_steps h0 i h \<longleftrightarrow> (\<exists>added. h = h0 @ added \<and> set added \<subseteq> range SawTarget \<union> {SubmittedCancel i})"

lemma readings_steps: "readings h0 P h \<Longrightarrow> cancel_steps h0 i h"
  "readings (h0 @ map SawTarget xs @ [SubmittedCancel i]) P h \<Longrightarrow> cancel_steps h0 i h"
  unfolding readings_def cancel_steps_def by fastforce+

lemma show_ensures: "(\<And>h. P h \<Longrightarrow> Q (h @ [e])) \<Longrightarrow> ensures (onE P) (showO e) (\<lambda>_. onE Q) E"
  by (auto simp: ensures_def onE_def showO_def once_def show_event_def)

lemma submit_cancel_decides:
  "ensures (onE (readings h0 (\<lambda>xs. xs \<noteq> [] \<and> still_there (last xs)))) (submit_cancel W cfg identity deadline poll)
    (\<lambda>d. onE (cancel_trace h0 (ri_order_id identity) d)) (onE (cancel_steps h0 (ri_order_id identity)))"
  unfolding ensures_def
proof (intro allI impI)
  fix s s' r
  assume pre: "onE (readings h0 (\<lambda>xs. xs \<noteq> [] \<and> still_there (last xs))) s"
    and run: "submit_cancel W cfg identity deadline poll s = Some (s', r)"
  obtain xs where xs: "ss_events s = h0 @ map SawTarget xs" "xs \<noteq> []" "still_there (last xs)"
    using pre by (auto simp: onE_def readings_def)
  let ?h = "h0 @ map SawTarget xs @ [SubmittedCancel (ri_order_id identity)]"
  let ?I = "onE (readings ?h (\<lambda>_. True))"
  have "ensures (onE (\<lambda>h. h = h0 @ map SawTarget xs)) (submit_cancel W cfg identity deadline poll)
      (\<lambda>d. onE (readings ?h (\<lambda>ys. decides ys d))) ?I"
    unfolding submit_cancel_def
  proof (rule ensures_bindO [OF show_ensures [where Q = "readings ?h (\<lambda>_. True)"]])
    fix x
    show "ensures ?I (bindO (attemptO (onW (ow_begin_cancel W (Some deadline) (ri_token_contract identity) (ri_order_id identity)))) (\<lambda>begun.
      case begun of
        Inr marker \<Rightarrow> watch_accepted_cancel W cfg identity marker poll
      | Inl (CancelPreparation error) \<Rightarrow> once (returnS (UnknownFailure (PreparationFailed error)))
      | Inl CancelElapsed \<Rightarrow> once (returnS (UnknownFailure SubmitTimeout))
      | Inl (CancelSubmit _) \<Rightarrow> repeat (rejected_turn W cfg identity deadline poll) (Inr Present)))
      (\<lambda>d. onE (readings ?h (\<lambda>ys. decides ys d))) ?I"
      using watch_decides rejected_decides
      by (intro quiet_then quietO_calls silent_intros)
        (auto simp: decides_def onE_def intro!: ensures_return split: sum.split cancel_fault.split)
  qed (auto simp: readings_def)
  from ensuresD [OF this _ run] show "case r of Inr d \<Rightarrow> onE (cancel_trace h0 (ri_order_id identity) d) s'
      | Inl _ \<Rightarrow> onE (cancel_steps h0 (ri_order_id identity)) s'"
    using xs by (auto simp: onE_def cancel_trace_def intro: readings_steps split: sum.splits)
qed

lemma cancel_decides:
  "ensures (onE (\<lambda>h. h = h0)) (cancel_and_confirm_before W cfg identity deadline poll)
    (\<lambda>d. onE (cancel_trace h0 (ri_order_id identity) d)) (onE (cancel_steps h0 (ri_order_id identity)))"
  unfolding cancel_and_confirm_before_def
proof (rule ensures_bindO)
  show "ensures (onE (\<lambda>h. h = h0)) (repeat (\<lambda>_. initial_turn W cfg identity deadline poll) ())
      (\<lambda>v. onE (before_submit h0 v)) (onE (cancel_steps h0 (ri_order_id identity)))"
    by (rule ensures_weaken [OF initial_decides [of h0]]) (auto simp: onE_def readings_def cancel_steps_def)
next
  fix v
  show "ensures (onE (before_submit h0 v)) (case v of Some disposition \<Rightarrow> once (returnS disposition)
      | None \<Rightarrow> submit_cancel W cfg identity deadline poll)
    (\<lambda>d. onE (cancel_trace h0 (ri_order_id identity) d)) (onE (cancel_steps h0 (ri_order_id identity)))"
    using submit_cancel_decides
    by (cases v) (auto simp: before_submit_def cancel_trace_def onE_def intro!: ensures_return)
qed

section \<open>Why a step was allowed\<close>

text \<open>The events that need a reason, and the reason: it is what the history shows just before.\<close>

definition justified :: "offer_event list \<Rightarrow> offer_event \<Rightarrow> bool" where
  "justified h e =
    (case e of
       SubmittedPost offer \<Rightarrow>
         (\<exists>past. h = past @ [SawReap (Inr (Relist (so_max_ticks offer) (so_price_per_tick offer))), SawVacant])
     | AbortedGateway \<Rightarrow> h \<noteq> [] \<and> (last h = SawTarget Absent \<or> (\<exists>t p. last h = SawReap (Inr (Relist t p))))
     | Relisted old old_deadline new new_deadline \<Rightarrow> new \<noteq> old \<and> old_deadline < new_deadline
     | _ \<Rightarrow> True)"

fun justified_after :: "offer_event list \<Rightarrow> offer_event list \<Rightarrow> bool" where
  "justified_after past [] = True"
| "justified_after past (e # rest) = (justified past e \<and> justified_after (past @ [e]) rest)"

abbreviation J :: "offer_event list \<Rightarrow> bool" where "J \<equiv> justified_after []"

lemma justified_append: "justified_after past (xs @ ys) \<longleftrightarrow> justified_after past xs \<and> justified_after (past @ xs) ys"
  by (induction xs arbitrary: past) auto

lemma J_append_iff: "J (h @ added) \<longleftrightarrow> J h \<and> justified_after h added"
  by (simp add: justified_append)

lemma justified_cancel: "set added \<subseteq> range SawTarget \<union> {SubmittedCancel i} \<Longrightarrow> justified_after h added"
  by (induction added arbitrary: h) (auto simp: justified_def)

lemma cancel_keeps:
  "ensures (onE J) (cancel_and_confirm_before W cfg identity deadline poll)
    (\<lambda>d. onE (\<lambda>h. J h \<and> (d = Cancelled \<or> d = AlreadyAbsent \<longrightarrow> h \<noteq> [] \<and> last h = SawTarget Absent)
      \<and> d \<noteq> NotAttemptedExpired \<and> (\<forall>r. d \<noteq> ReapedNotRelisted r))) (onE J)"
  unfolding ensures_def
proof (intro allI impI)
  fix s s' r
  assume pre: "onE J s" and run: "cancel_and_confirm_before W cfg identity deadline poll s = Some (s', r)"
  let ?i = "ri_order_id identity"
  have after: "case r of Inr d \<Rightarrow> onE (cancel_trace (ss_events s) ?i d) s' | Inl _ \<Rightarrow> onE (cancel_steps (ss_events s) ?i) s'"
    by (rule ensuresD [OF cancel_decides _ run]) (simp add: onE_def)
  have steps: "J h" if "cancel_steps (ss_events s) ?i h" for h
    using that pre by (auto simp: cancel_steps_def onE_def J_append_iff justified_cancel)
  have trace: "cancel_steps (ss_events s) ?i h" "d = Cancelled \<or> d = AlreadyAbsent \<Longrightarrow> h \<noteq> [] \<and> last h = SawTarget Absent"
    "d \<noteq> NotAttemptedExpired" "d \<noteq> ReapedNotRelisted x" if "cancel_trace (ss_events s) ?i d h" for d h x
    using that by (auto simp: cancel_trace_def readings_def decides_def last_map cancel_steps_def)
  show "case r of Inr d \<Rightarrow> onE (\<lambda>h. J h \<and> (d = Cancelled \<or> d = AlreadyAbsent \<longrightarrow> h \<noteq> [] \<and> last h = SawTarget Absent)
      \<and> d \<noteq> NotAttemptedExpired \<and> (\<forall>r. d \<noteq> ReapedNotRelisted r)) s' | Inl _ \<Rightarrow> onE J s'"
    using after steps trace by (auto simp: onE_def split: sum.splits)
qed

lemma abort_keeps:
  "ensures (onE (\<lambda>h. J h \<and> justified h AbortedGateway)) (abort_gateway W) (\<lambda>_. onE J) (onE J)"
  unfolding abort_gateway_def
  by (rule ensures_bindO [OF show_ensures [where Q = J]])
    (auto simp: J_append_iff quietO_def [symmetric] intro!: quiet_ensures quietO_intros silent_intros)

definition keepsJ :: "('w, 'a) seller_run \<Rightarrow> bool" where
  "keepsJ m \<longleftrightarrow> ensures (onE J) m (\<lambda>_. onE J) (onE J)"

lemma keepsJ_quiet: "quietO m \<Longrightarrow> keepsJ m"
  by (simp add: keepsJ_def quietO_def)

lemma keepsJ_bindO: "keepsJ m \<Longrightarrow> (\<And>x. keepsJ (f x)) \<Longrightarrow> keepsJ (bindO m f)"
  unfolding keepsJ_def by (rule ensures_bindO)

lemma abort_then:
  assumes "\<And>h. P h \<Longrightarrow> J h \<and> justified h AbortedGateway" and "keepsJ m"
  shows "ensures (onE P) (bindO (abort_gateway W) (\<lambda>_. m)) (\<lambda>_. onE J) (onE J)"
  using assms(2) unfolding keepsJ_def
  by (intro ensures_bindO [OF ensures_weaken [OF abort_keeps]]) (use assms(1) in \<open>auto simp: onE_def\<close>)

lemma return_keeps: "(\<And>h. P h \<Longrightarrow> J h) \<Longrightarrow> ensures (onE P) (once (returnS x)) (\<lambda>_. onE J) E"
  by (rule ensures_return) (simp add: onE_def)

lemma keepsJ_return: "keepsJ (once (returnS x))" "keepsJ (once (failS e))"
  by (intro keepsJ_quiet quietO_intros silent_intros)+

lemma stop_exact_keeps: "keepsJ (stop_exact_offer W cfg identity reason deadline timing)"
  unfolding keepsJ_def stop_exact_offer_def
proof (rule ensures_bindO [OF cancel_keeps])
  fix d
  show "ensures (onE (\<lambda>h. J h \<and> (d = Cancelled \<or> d = AlreadyAbsent \<longrightarrow> h \<noteq> [] \<and> last h = SawTarget Absent)
      \<and> d \<noteq> NotAttemptedExpired \<and> (\<forall>r. d \<noteq> ReapedNotRelisted r)))
    (case d of AlreadyMatched _ \<Rightarrow> once (returnS (Ready ResumedFunded))
     | _ \<Rightarrow> if \<not> proven_unmatchable d then once (returnS (StartupStopped (Some identity) reason d))
            else bindO (abort_gateway W) (\<lambda>_. once (returnS (StartupStopped (Some identity) reason d)))) (\<lambda>_. onE J) (onE J)"
    by (cases d) (auto simp: proven_unmatchable_def justified_def intro!: abort_then keepsJ_return return_keeps)
qed

lemma retire_keepsJ:
  fixes W :: "('w, 'm) OfferWorld"
  shows "keepsJ (retire W cfg identity timing t deadline)"
  unfolding keepsJ_def retire_def
proof (rule ensures_bindO [OF cancel_keeps])
  fix d
  have quiet: "ensures (onE P) (bindO (once (returnS ())) (\<lambda>_. once (returnS x)) :: ('w, RestingSellerOutcome) seller_run)
      (\<lambda>_. onE J) (onE J)" if "\<And>h. P h \<Longrightarrow> J h" for x P
    by (rule quiet_ensures) (use that in \<open>auto intro!: quietO_intros silent_intros\<close>)
  show "ensures (onE (\<lambda>h. J h \<and> (d = Cancelled \<or> d = AlreadyAbsent \<longrightarrow> h \<noteq> [] \<and> last h = SawTarget Absent)
      \<and> d \<noteq> NotAttemptedExpired \<and> (\<forall>r. d \<noteq> ReapedNotRelisted r)))
    (case d of AlreadyMatched matched \<Rightarrow> once (returnS (SellerMatched matched))
     | _ \<Rightarrow> bindO (if st_abort_gateway_on_stop timing \<and> proven_unmatchable d then abort_gateway W else once (returnS ())) (\<lambda>_.
            once (returnS (SellerStopped (stop_reason t) d)))) (\<lambda>_. onE J) (onE J)"
    by (cases "st_abort_gateway_on_stop timing"; cases d)
      (auto simp: proven_unmatchable_def justified_def intro!: abort_then keepsJ_return return_keeps quiet)
qed

lemma supervise_keeps: "keepsJ (supervise_with_timing W cfg identity timing)"
proof -
  have "keepsJ (case decision of
      Inr matched \<Rightarrow> once (returnS (SellerMatched matched))
    | Inl (TrExpired deadline observed_at, _) \<Rightarrow>
        once (returnS (SellerStopped (StopExpired deadline observed_at) NotAttemptedExpired))
    | Inl (t, cancel_deadline) \<Rightarrow> retire W cfg identity timing t cancel_deadline)" for decision
    by (auto intro: keepsJ_return retire_keepsJ split: sum.split prod.split trigger.split)
  then show ?thesis
    unfolding supervise_with_timing_def
    by (intro keepsJ_bindO keepsJ_quiet [OF quietO_calls(4)]
        keepsJ_quiet [OF quietO_repeat [OF quietO_supervision_turn]])
qed

lemma inspect_keeps:
  "ensures (onE P) (attemptO (inspect_seller_offer W due cfg owner))
    (\<lambda>r. onE (\<lambda>h. if r = Inr InspVacant then \<exists>h0. h = h0 @ [SawVacant] \<and> P h0 else P h)) E"
  unfolding ensures_def
proof (intro allI impI)
  fix s s' r
  assume pre: "onE P s" and run: "attemptO (inspect_seller_offer W due cfg owner) s = Some (s', r)"
  obtain t x where t: "inspect_seller_offer W due cfg owner s = (t, x)" by fastforce
  obtain added where "ss_events t = ss_events s @ added" "if x = Inr InspVacant then added = [SawVacant] else added = []"
    by (rule revealsE [OF inspect_reveals t])
  moreover have "s' = t" "r = Inr x" using run t by (auto simp: attemptO_def once_def tryS_def)
  ultimately show "case r of Inr r' \<Rightarrow> onE (\<lambda>h. if r' = Inr InspVacant then \<exists>h0. h = h0 @ [SawVacant] \<and> P h0 else P h) s'
      | Inl _ \<Rightarrow> E s'"
    using pre by (auto simp: onE_def split: if_splits)
qed

lemma reconcile_keeps:
  "ensures (onE J) (reconcile_unresolved_startup W cfg owner deadline poll) (\<lambda>r. onE (\<lambda>h. J h \<and> r \<noteq> Some InspVacant)) (onE J)"
  unfolding reconcile_unresolved_startup_def
proof (rule ensures_repeat)
  fix c :: unit
  let ?Q = "\<lambda>t s. case t of Answer r \<Rightarrow> onE (\<lambda>h. J h \<and> r \<noteq> Some InspVacant) s | Turn c' \<Rightarrow> onE J s"
  have again: "ensures (onE P) (bindO (wake_before W poll deadline) (\<lambda>_. once (returnS (Turn ())))) ?Q (onE J)"
    if "\<And>h. P h \<Longrightarrow> J h" for P
    by (rule quiet_then [OF quietO_calls(7)]) (use that in \<open>auto simp: onE_def intro!: ensures_return\<close>)
  have "ensures (onE J) (bindO (attemptO (inspect_seller_offer W (Some deadline) cfg (Some owner))) (\<lambda>inspected.
    case inspected of
      Inl Elapsed \<Rightarrow> once (returnS (Answer None))
    | Inl _ \<Rightarrow> bindO (wake_before W poll deadline) (\<lambda>_. once (returnS (Turn ())))
    | Inr InspVacant \<Rightarrow> bindO (wake_before W poll deadline) (\<lambda>_. once (returnS (Turn ())))
    | Inr inspection \<Rightarrow> once (returnS (Answer (Some inspection))))) ?Q (onE J)"
    by (rule ensures_bindO [OF inspect_keeps])
      (auto simp: onE_def J_append_iff justified_def split: sum.split offer_fault.split SellerOfferInspection.split
        intro!: again ensures_return)
  then show "ensures (onE J) (reconcile_turn W cfg owner deadline poll) ?Q (onE J)"
    unfolding reconcile_turn_def
    by (intro quiet_then quietO_calls) (auto simp: onE_def intro!: ensures_return)
qed

lemma settle_inspection_keeps:
  "inspection \<noteq> InspVacant \<Longrightarrow> keepsJ (settle_inspection W cfg owner reason deadline timing inspection)"
  unfolding settle_inspection_def by (cases inspection) (auto intro: keepsJ_return stop_exact_keeps)

lemma resolve_keeps: "keepsJ (resolve_interrupted_startup W cfg owner startup reason deadline timing)"
proof -
  have unresolved: "keepsJ (bindO (reconcile_unresolved_startup W cfg owner deadline (st_cancel_poll timing)) (\<lambda>reconciled.
       case reconciled of
         Some inspection \<Rightarrow> settle_inspection W cfg owner reason deadline timing inspection
       | None \<Rightarrow> once (returnS (StartupStopped None reason (UnknownFailure UnresolvedSubmit)))))"
    unfolding keepsJ_def
  proof (rule ensures_bindO [OF reconcile_keeps])
    fix r
    show "ensures (onE (\<lambda>h. J h \<and> r \<noteq> Some InspVacant)) (case r of
         Some inspection \<Rightarrow> settle_inspection W cfg owner reason deadline timing inspection
       | None \<Rightarrow> once (returnS (StartupStopped None reason (UnknownFailure UnresolvedSubmit)))) (\<lambda>_. onE J) (onE J)"
    proof (cases "r = Some InspVacant")
      case False
      then show ?thesis
        using settle_inspection_keeps [of _ W cfg owner reason deadline timing]
        by (cases r) (auto simp: keepsJ_def intro: return_keeps)
    qed (auto simp: ensures_def onE_def)
  qed
  show ?thesis
    unfolding resolve_interrupted_startup_def Let_def
    by (auto intro: unresolved keepsJ_return settle_inspection_keeps
        split: option.split SellerOfferStartup.split SellOfferOutcome.split)
qed

lemma confirm_keeps: "keepsJ (confirm_fresh_offer W cfg identity startup timing)"
  unfolding confirm_fresh_offer_def Let_def
  by (intro keepsJ_bindO keepsJ_quiet [OF quietO_calls(4)] keepsJ_quiet [OF quietO_unless_interrupted [OF quietO_calls(3)]])
    (auto intro: stop_exact_keeps keepsJ_return split: option.split)

lemma settle_startup_keeps: "keepsJ (settle_startup W cfg owner timing startup)"
proof -
  have "keepsJ (bindO (now_of W) (\<lambda>now. resolve_interrupted_startup W cfg owner None (StopWatcher why)
         (now + st_cycle_timeout timing) timing))" for why
    by (intro keepsJ_bindO resolve_keeps keepsJ_quiet [OF quietO_calls(4)])
  then show ?thesis
    unfolding settle_startup_def Let_def
    by (auto intro: confirm_keeps keepsJ_return split: sum.split SellerOfferStartup.split option.split SellOfferOutcome.split)
qed

text \<open>The deal was just read to be free, on these terms.\<close>

definition free_deal :: "SellerConfig \<Rightarrow> offer_event list \<Rightarrow> bool" where
  "free_deal cfg h \<longleftrightarrow> J h \<and> (\<exists>past. h = past @ [SawReap (Inr (Relist (cfg_max_ticks cfg) (cfg_price_per_tick cfg)))])"

lemma post_keeps:
  "ensures (onE (free_deal cfg)) (attemptO (prepare_seller_offer W due cfg owner)) (\<lambda>_. onE J) E"
  unfolding ensures_def
proof (intro allI impI)
  fix s s' r
  assume pre: "onE (free_deal cfg) s" and run: "attemptO (prepare_seller_offer W due cfg owner) s = Some (s', r)"
  obtain t x where t: "prepare_seller_offer W due cfg owner s = (t, x)" by fastforce
  obtain added where "ss_events t = ss_events s @ added" "prepares cfg added x"
    by (rule revealsE [OF prepare_reveals t])
  moreover have "s' = t" "r = Inr x" using run t by (auto simp: attemptO_def once_def tryS_def)
  ultimately show "case r of Inr _ \<Rightarrow> onE J s' | Inl _ \<Rightarrow> E s'"
    using pre by (auto simp: onE_def free_deal_def prepares_def J_append_iff justified_def offer_of_def)
qed

lemma prepare_keeps:
  "ensures (onE (free_deal cfg)) (prepare_seller_offer_with_timing W cfg owner None timing) (\<lambda>_. onE J) (onE J)"
proof -
  have free: "J h" "justified h AbortedGateway" if "free_deal cfg h" for h
    using that by (auto simp: free_deal_def justified_def)
  have refuse: "ensures (onE (free_deal cfg)) (refuse_before_sell W reason) (\<lambda>_. onE J) (onE J)" for reason
    unfolding refuse_before_sell_def
    by (rule abort_then) (auto intro: free keepsJ_return split: RestingStopReason.split)
  have post: "ensures (onE (free_deal cfg)) (bindO (attemptO (prepare_seller_offer W due cfg (Some owner))) f) (\<lambda>_. onE J) (onE J)"
    if "\<And>x. keepsJ (f x)" for f :: "_ \<Rightarrow> ('a, SellerStartupOutcome) seller_run" and due
    by (rule ensures_bindO [OF post_keeps]) (use that in \<open>simp add: keepsJ_def\<close>)
  show ?thesis
    unfolding prepare_seller_offer_with_timing_def Let_def
    by (intro quiet_then quietO_calls silent_intros quietO_unless_interrupted quietO_startup_readiness)
      (auto intro!: quiet_then quietO_calls post refuse settle_startup_keeps resolve_keeps free split: option.split)
qed

lemma adopt_keeps: "keepsJ (adopt_successor W timing cfg identity expired_deadline expired_at successor)"
proof -
  have listed: "ensures (onE J) (bindO (showO (Relisted i d j d')) (\<lambda>_. once (returnS x))) (\<lambda>_. onE J) (onE J)"
    if "j \<noteq> i" "d < d'" for i d j d' and x :: "(SellerConfig \<times> RestingOfferIdentity, RestingOfferIdentity \<times> RestingSellerOutcome) turn"
    using that by (intro ensures_bindO [OF show_ensures] return_keeps) (auto simp: J_append_iff justified_def)
  show ?thesis
    unfolding adopt_successor_def Let_def settle_generation_def
    by (auto simp: keepsJ_def [symmetric] intro!: keepsJ_return keepsJ_bindO keepsJ_quiet [OF quietO_calls(4)]
        keepsJ_quiet [OF quietO_successor] listed [folded keepsJ_def] split: option.split)
qed

lemma relist_keeps:
  "ensures (onE (free_deal cfg)) (relist_offer W timing cfg identity d a) (\<lambda>_. onE J) (onE J)"
  unfolding relist_offer_def
proof (rule ensures_bindO [OF prepare_keeps])
  fix prepared
  have "keepsJ (bindO (awaitO (onW (ow_read_match W (ri_token_contract identity)))) (\<lambda>m. settle_generation identity (SellerMatched m)))"
    unfolding settle_generation_def by (intro keepsJ_bindO keepsJ_return keepsJ_quiet [OF quietO_calls(1)] silent_intros)
  then have "keepsJ (case prepared of
      Ready ResumedFunded \<Rightarrow>
        bindO (awaitO (onW (ow_read_match W (ri_token_contract identity)))) (\<lambda>m. settle_generation identity (SellerMatched m))
    | Ready (PostedOffer (Some Matched)) \<Rightarrow>
        bindO (awaitO (onW (ow_read_match W (ri_token_contract identity)))) (\<lambda>m. settle_generation identity (SellerMatched m))
    | Ready (PostedOffer (Some (Rested order_id))) \<Rightarrow> adopt_successor W timing cfg identity d a order_id
    | Ready (ResumedResting order_id) \<Rightarrow> adopt_successor W timing cfg identity d a order_id
    | Ready (PostedOffer None) \<Rightarrow>
        settle_generation identity (SellerStopped (StopExpired d a) (UnknownFailure UnconfirmedPost))
    | StartupStopped _ reason disposition \<Rightarrow> settle_generation identity (SellerStopped reason disposition))"
    by (auto simp: settle_generation_def intro: adopt_keeps keepsJ_return
        split: SellerStartupOutcome.split SellerOfferStartup.split option.split SellOfferOutcome.split)
  then show "ensures (onE J) (case prepared of
      Ready ResumedFunded \<Rightarrow>
        bindO (awaitO (onW (ow_read_match W (ri_token_contract identity)))) (\<lambda>m. settle_generation identity (SellerMatched m))
    | Ready (PostedOffer (Some Matched)) \<Rightarrow>
        bindO (awaitO (onW (ow_read_match W (ri_token_contract identity)))) (\<lambda>m. settle_generation identity (SellerMatched m))
    | Ready (PostedOffer (Some (Rested order_id))) \<Rightarrow> adopt_successor W timing cfg identity d a order_id
    | Ready (ResumedResting order_id) \<Rightarrow> adopt_successor W timing cfg identity d a order_id
    | Ready (PostedOffer None) \<Rightarrow>
        settle_generation identity (SellerStopped (StopExpired d a) (UnknownFailure UnconfirmedPost))
    | StartupStopped _ reason disposition \<Rightarrow> settle_generation identity (SellerStopped reason disposition)) (\<lambda>_. onE J) (onE J)"
    unfolding keepsJ_def .
qed

text \<open>The reap ends with the reading it decided on.\<close>

lemma silent_reap_state: "silent (reap_state W due identity)"
  unfolding reap_state_def Let_def
  by (intro silent_intros) (auto intro!: silent_intros split: option.split if_split)

lemma see_reap_keeps:
  "ensures (onE J) (see_reap W due identity)
    (\<lambda>r. onE (\<lambda>h. J h \<and> (\<forall>x. r = Inr x \<longrightarrow> (\<exists>past. h = past @ [SawReap x])))) E"
  unfolding ensures_def onE_def see_reap_def attemptO_def
  by (auto simp: once_def tryS_def bindS_def show_event_def returnS_def J_append_iff justified_def
      dest: silentD [OF silent_reap_state] split: prod.splits sum.splits)

lemma submit_expire_keeps: "keepsJ (submit_expire W identity deadline)"
  unfolding keepsJ_def submit_expire_def
  by (rule ensures_bindO [OF show_ensures [where Q = J]])
    (auto simp: J_append_iff justified_def keepsJ_def [symmetric]
      intro!: keepsJ_quiet quietO_bindO quietO_calls quietO_once silent_intros)

definition reaped :: "RelistDecision \<Rightarrow> offer_event list \<Rightarrow> bool" where
  "reaped d h \<longleftrightarrow> J h \<and> (\<forall>t p. d = Relist t p \<longrightarrow> (\<exists>past. h = past @ [SawReap (Inr (Relist t p))]))"

lemma reap_keeps:
  "ensures (onE J) (reap_expired_offer W identity deadline poll) (\<lambda>d. onE (reaped d)) (onE J)"
  unfolding reap_expired_offer_def
proof (rule ensures_repeat)
  fix submitted
  let ?Q = "\<lambda>t s. case t of Answer d \<Rightarrow> onE (reaped d) s | Turn c' \<Rightarrow> onE J s"
  have last: "ensures (onE J) (bindO (now_of W) (\<lambda>now.
        if deadline \<le> now then once (returnS (Answer RelistUnproven))
        else bindO (wake_before W poll deadline) (\<lambda>_. once (returnS (Turn True))))) ?Q (onE J)"
    by (intro quiet_then quietO_calls)
      (auto simp: onE_def reaped_def intro!: ensures_return quiet_then quietO_calls)
  have "keepsJ (if submitted then once (returnS ()) else submit_expire W identity deadline)"
    by (simp add: submit_expire_keeps keepsJ_return)
  then have rest: "ensures (onE J) (bindO (if submitted then once (returnS ()) else submit_expire W identity deadline) (\<lambda>_.
      bindO (now_of W) (\<lambda>now.
        if deadline \<le> now then once (returnS (Answer RelistUnproven))
        else bindO (wake_before W poll deadline) (\<lambda>_. once (returnS (Turn True)))))) ?Q (onE J)"
    unfolding keepsJ_def using last by (rule ensures_bindO)
  show "ensures (onE J) (reap_turn W identity deadline poll submitted) ?Q (onE J)"
    unfolding reap_turn_def
  proof (rule ensures_bindO [OF see_reap_keeps])
    fix r
    let ?more = "bindO (if submitted then once (returnS ()) else submit_expire W identity deadline) (\<lambda>_.
      bindO (now_of W) (\<lambda>now.
        if deadline \<le> now then once (returnS (Answer RelistUnproven))
        else bindO (wake_before W poll deadline) (\<lambda>_. once (returnS (Turn True)))))"
    have more: "ensures (onE (\<lambda>h. J h \<and> P h)) ?more ?Q (onE J)" for P
      by (rule ensures_weaken [OF rest]) (auto simp: onE_def)
    show "ensures (onE (\<lambda>h. J h \<and> (\<forall>x. r = Inr x \<longrightarrow> (\<exists>past. h = past @ [SawReap x]))))
      (case r of Inr (Inr decision) \<Rightarrow> once (returnS (Answer decision)) | _ \<Rightarrow> ?more) ?Q (onE J)"
    proof (cases "\<exists>d. r = Inr (Inr d)")
      case True
      then show ?thesis by (auto simp: onE_def reaped_def intro!: ensures_return)
    next
      case False
      then have "(case r of Inr (Inr decision) \<Rightarrow> once (returnS (Answer decision)) | _ \<Rightarrow> ?more) = ?more"
        by (auto split: sum.split)
      then show ?thesis by (simp only: more)
    qed
  qed
qed

lemma generation_keeps: "keepsJ (generation_turn W timing carried)"
proof -
  obtain cfg identity where c: "carried = (cfg, identity)" by (cases carried)
  have settle_generation: "keepsJ (settle_generation identity outcome)" for outcome
    unfolding settle_generation_def by (rule keepsJ_return)
  have decided: "ensures (onE (reaped decision)) (case decision of
           RelistMatched matched \<Rightarrow> settle_generation identity (SellerMatched matched)
         | RelistRefused reason \<Rightarrow> settle_generation identity (SellerStopped (StopExpired d a) (ReapedNotRelisted reason))
         | RelistUnproven \<Rightarrow> settle_generation identity (SellerStopped (StopExpired d a) (UnknownFailure NoProof))
         | Relist remaining_ticks price_per_tick \<Rightarrow>
             relist_offer W timing (cfg\<lparr>cfg_price_per_tick := price_per_tick, cfg_max_ticks := remaining_ticks\<rparr>) identity d a)
      (\<lambda>_. onE J) (onE J)" for decision d a
  proof (cases decision)
    case (Relist t p)
    show ?thesis
      unfolding Relist using relist_keeps [of "cfg\<lparr>cfg_price_per_tick := p, cfg_max_ticks := t\<rparr>" W timing identity d a]
      by (simp, rule_tac ensures_weaken, assumption) (auto simp: onE_def reaped_def free_deal_def)
  qed (auto simp: settle_generation_def reaped_def intro!: return_keeps)
  have expired: "keepsJ (bindO (now_of W) (\<lambda>now.
         bindO (reap_expired_offer W identity (now + st_reap_timeout timing) (st_reap_poll timing)) (\<lambda>decision.
         case decision of
           RelistMatched matched \<Rightarrow> settle_generation identity (SellerMatched matched)
         | RelistRefused reason \<Rightarrow> settle_generation identity (SellerStopped (StopExpired d a) (ReapedNotRelisted reason))
         | RelistUnproven \<Rightarrow> settle_generation identity (SellerStopped (StopExpired d a) (UnknownFailure NoProof))
         | Relist remaining_ticks price_per_tick \<Rightarrow>
             relist_offer W timing (cfg\<lparr>cfg_price_per_tick := price_per_tick, cfg_max_ticks := remaining_ticks\<rparr>) identity d a)))" for d a
    by (rule keepsJ_bindO [OF keepsJ_quiet [OF quietO_calls(4)]])
      (unfold keepsJ_def, rule ensures_bindO [OF reap_keeps decided])
  show ?thesis
    unfolding generation_turn_def c
    using settle_generation expired
    by (auto intro!: keepsJ_bindO supervise_keeps split: RestingSellerOutcome.split RestingStopReason.split)
qed

lemma supervision_keeps: "keepsJ (supervise_and_relist_reporting_identity W cfg identity timing)"
  unfolding supervise_and_relist_reporting_identity_def keepsJ_def
  by (rule ensures_repeat) (use generation_keeps in \<open>simp add: keepsJ_def turn_same\<close>)

end
