(* ===== verification/SupervisionProperties.thy ===== *)
theory SupervisionProperties
  imports SupervisionLaws
begin

text \<open>
  The properties of the seller's offer supervision: what the readings mean, the verdict of a cancel, the
  supervision loop over all generations, and the bounded reap, with a sample world that expires an offer, lets it be
  reaped and relisted, and matches its successor.
\<close>

section \<open>A sample world\<close>

text \<open>
  The world is a stage: 0, the seller's order 7 is in the book; 1, it is gone; 2, the successor 8 is in
  the book. The wall clock shows \<open>unix\<close>; the order's deadline is 100.
\<close>

definition offer_account :: CanonicalAddress where
  "offer_account = \<lparr>ca_dapp_id = DEXDO_DAPP_ID, ca_account_id = DEXDO_DAPP_ID\<rparr>"

definition offer_tc :: token_contract where "offer_tc = legacy offer_account"

definition sample_cfg :: SellerConfig where
  "sample_cfg = \<lparr> cfg_token_contract = offer_tc, cfg_price_per_tick = 5, cfg_max_ticks = 3, cfg_subscription = False,
     cfg_gateway_advertise = [], cfg_mock_token_count = 0 \<rparr>"

definition book_order :: "u128 \<Rightarrow> u64 \<Rightarrow> OrderBookOrder" where
  "book_order i deadline = \<lparr> ob_order_id = i, ob_owner_note = offer_tc, ob_token_contract = Some offer_tc, ob_is_buy = False,
     ob_price_per_tick = 5, ob_ticks = 3, ob_escrow = 0, ob_deadline = deadline, ob_flags = 0, ob_timestamp = 0 \<rparr>"

definition sample_identity :: RestingOfferIdentity where
  "sample_identity = \<lparr>ri_owner_note = offer_tc, ri_token_contract = offer_tc, ri_order_id = 7\<rparr>"

definition sample_pubkey :: NotePubkey where
  "sample_pubkey = \<lparr>pk_x = replicate 32 1, pk_ed = replicate 32 2\<rparr>"

definition sample_match :: Match where
  "sample_match = \<lparr>mt_token_contract = offer_tc, mt_buyer_pubkey = sample_pubkey, mt_price_per_tick = 5\<rparr>"

definition fresh_state :: DealChainState where
  "fresh_state = \<lparr> dcs_funded = False, dcs_opened = False, dcs_probe_accepted = False, dcs_disputed = False,
     dcs_deposit = 0, dcs_finalized_owed = 0, dcs_tokens_final = 0, dcs_tokens_pending = 0, dcs_probe_tick = 0,
     dcs_funded_time = None, dcs_probe_time = 0, dcs_last_claim_time = 0, dcs_dispute_time = 0 \<rparr>"

definition stage_orders :: "nat \<Rightarrow> OrderBookOrder list" where
  "stage_orders w = (if w = 0 then [book_order 7 100] else if w = 1 then [] else [book_order 8 3700])"

definition sample_offers :: "u64 \<Rightarrow> (nat, unit) OfferWorld" where
  "sample_offers unix = \<lparr>
    ow_unix = (\<lambda>w. (w, unix)), ow_now = (\<lambda>w. (w, 0)), ow_sleep_until = (\<lambda>_ w. w),
    ow_raw_orders = (\<lambda>_ _ w. (w, Inr (stage_orders w))), ow_openable_match = (\<lambda>_ _ w. (w, Inr None)),
    ow_offer_latch = (\<lambda>_ _ w. (w, Inr (Some \<lparr>offer_posted = False\<rparr>))),
    ow_deal_state = (\<lambda>_ _ w. (w, Inr (Some fresh_state))), ow_terms = (\<lambda>_ _ w. (w, Inr (Some (5, 3)))),
    ow_expire = (\<lambda>_ _ _ w. (1, Inr ())), ow_begin_cancel = (\<lambda>_ _ _ w. (1, Inr ())), ow_rejection = (\<lambda>_ _ _ _ w. (w, Inr None)),
    ow_assert_fresh = (\<lambda>_ _ w. (w, Inr ())), ow_post_offer = (\<lambda>_ _ w. (2, Inr ())),
    ow_confirm_outcome = (\<lambda>_ _ w. (w, Inr (Some (Rested 8)))), ow_covers_bond = (\<lambda>_ w. (w, Inr ())),
    ow_read_match = (\<lambda>_ w. (w, Inr sample_match)), ow_startup_readiness = (\<lambda>_ w. (w, None)), ow_readiness = (\<lambda>_ w. (w, None)),
    ow_interrupt = (\<lambda>w. (w, None)), ow_select = (\<lambda>w. (w, if w = 2 then MatchCame (Inr sample_match) else ExpiryTick)),
    ow_read_select = (\<lambda>w. (w, None)), ow_abort_gateway = (\<lambda>w. w) \<rparr>"

lemma sample_parses: "normalize_wallet_address offer_tc = Inr offer_tc"
  using parse_legacy [of offer_account]
  by (simp add: normalize_wallet_address_def offer_tc_def offer_account_def wf_address_def hex64_dexdo lower_dexdo legacy_def)

lemma offer_valid: "validate_resting_offer (book_order i deadline) (Some offer_tc) sample_cfg = Inr ()"
  by (simp add: validate_resting_offer_def book_order_def sample_cfg_def sample_parses seller_flags_def)

lemmas offer_run = bindO_def once_def bindS_def returnS_def liftS_def tryS_def mapErrS_def
  onW_def getW_def actW_def show_event_def awaitO_def attemptO_def loadO_def showO_def now_of_def sleep_untilO_def
  sleepO_def wake_before_def

lemma sample_target:
  "see_target (sample_offers u) due sample_cfg sample_identity \<lparr>ss_world = w, ss_events = h\<rparr>
    = (let x = (if w = 0 then (if u < 100 then Present else TargetExpired 100 u) else Absent)
       in Some (\<lparr>ss_world = w, ss_events = h @ [SawTarget x]\<rparr>, Inr (Inr x)))"
  by (simp add: see_target_def target_state_def offer_run Let_def offer_valid stage_orders_def sample_identity_def
      sample_offers_def order_deadline_is_live_def, simp add: book_order_def offer_valid [unfolded book_order_def])

lemma sample_sel:
  "ow_unix (sample_offers u) = (\<lambda>w. (w, u))" "ow_now (sample_offers u) = (\<lambda>w. (w, 0))"
  "ow_sleep_until (sample_offers u) t = (\<lambda>w. w)" "ow_begin_cancel (sample_offers u) due tc i = (\<lambda>w. (1, Inr ()))"
  "ow_expire (sample_offers u) due tc i = (\<lambda>w. (1, Inr ()))" "ow_covers_bond (sample_offers u) tc = (\<lambda>w. (w, Inr ()))"
  "ow_raw_orders (sample_offers u) due tc = (\<lambda>w. (w, Inr (stage_orders w)))"
  "ow_openable_match (sample_offers u) due tc = (\<lambda>w. (w, Inr None))"
  "ow_startup_readiness (sample_offers u) d = (\<lambda>w. (w, None))" "ow_readiness (sample_offers u) d = (\<lambda>w. (w, None))"
  "ow_interrupt (sample_offers u) = (\<lambda>w. (w, None))" "ow_read_select (sample_offers u) = (\<lambda>w. (w, None))"
  "ow_select (sample_offers u) = (\<lambda>w. (w, if w = 2 then MatchCame (Inr sample_match) else ExpiryTick))"
  "ow_offer_latch (sample_offers u) due tc = (\<lambda>w. (w, Inr (Some \<lparr>offer_posted = False\<rparr>)))"
  "ow_deal_state (sample_offers u) due tc = (\<lambda>w. (w, Inr (Some fresh_state)))"
  "ow_terms (sample_offers u) due tc = (\<lambda>w. (w, Inr (Some (5, 3))))"
  "ow_assert_fresh (sample_offers u) due tc = (\<lambda>w. (w, Inr ()))"
  "ow_post_offer (sample_offers u) due offer = (\<lambda>w. (2, Inr ()))"
  "ow_confirm_outcome (sample_offers u) due tc = (\<lambda>w. (w, Inr (Some (Rested 8))))"
  by (simp_all add: sample_offers_def)

lemma offer_cancel:
  "cancel_and_confirm (sample_offers 50) sample_cfg sample_identity \<lparr>ss_world = 0, ss_events = []\<rparr>
    = Some (\<lparr>ss_world = 1, ss_events = [SawTarget Present, SubmittedCancel 7, SawTarget Absent]\<rparr>, Inr Cancelled)"
proof -
  have first: "repeat (\<lambda>_. initial_turn (sample_offers 50) sample_cfg sample_identity d p) () \<lparr>ss_world = 0, ss_events = []\<rparr>
      = Some (\<lparr>ss_world = 0, ss_events = [SawTarget Present]\<rparr>, Inr None)" for d p
    by (subst repeat.simps) (simp add: initial_turn_def sample_target Let_def bindO_def once_def returnS_def)
  have watch: "watch_accepted_cancel (sample_offers 50) sample_cfg sample_identity m p \<lparr>ss_world = Suc 0, ss_events = h\<rparr>
      = Some (\<lparr>ss_world = 1, ss_events = h @ [SawTarget Absent]\<rparr>, Inr Cancelled)" for m p h
    unfolding watch_accepted_cancel_def
    by (subst repeat.simps) (simp add: watch_turn_def sample_target Let_def bindO_def once_def returnS_def)
  show ?thesis
    by (simp add: cancel_and_confirm_def cancel_and_confirm_before_def submit_cancel_def first watch sample_sel offer_run)
      (simp add: sample_identity_def)
qed

text \<open>Two generations: the first expires, is reaped and relisted; the second is matched.\<close>

lemma sample_expiry:
  "supervise_with_timing (sample_offers 200) sample_cfg sample_identity timing \<lparr>ss_world = 0, ss_events = h\<rparr>
    = Some (\<lparr>ss_world = 0, ss_events = h\<rparr>, Inr (SellerStopped (StopExpired 100 200) NotAttemptedExpired))"
proof -
  have "repeat (supervision_turn (sample_offers 200) timing sample_identity) c \<lparr>ss_world = 0, ss_events = h\<rparr>
      = Some (\<lparr>ss_world = 0, ss_events = h\<rparr>, Inr (Inl (TrExpired 100 200, st_cycle_timeout timing)))" for c
    by (subst repeat.simps)
      (simp add: supervision_turn_def on_expiry_tick_def resting_offer_expiry_def sample_sel offer_run stage_orders_def
        sample_identity_def book_order_def order_deadline_is_live_def)
  then show ?thesis by (simp add: supervise_with_timing_def sample_sel offer_run)
qed

lemma sample_reap:
  "0 < d \<Longrightarrow> reap_expired_offer (sample_offers 200) sample_identity d p \<lparr>ss_world = 0, ss_events = h\<rparr>
    = Some (\<lparr>ss_world = 1, ss_events = h @ [SawReap (Inl ExpiredStillInBook), SubmittedExpire 7, SawReap (Inr (Relist 3 5))]\<rparr>,
        Inr (Relist 3 5))"
  unfolding reap_expired_offer_def
  by (subst repeat.simps, simp add: reap_turn_def see_reap_def reap_state_def submit_expire_def Let_def sample_sel offer_run
      stage_orders_def sample_identity_def book_order_def,
      subst repeat.simps, simp add: reap_turn_def see_reap_def reap_state_def Let_def sample_sel offer_run
      stage_orders_def sample_identity_def fresh_state_def used_reason_def used_facts_def figure_def MIN_STREAM_BUY_TICKS_def)

lemma sample_prepare:
  "prepare_seller_offer_with_timing (sample_offers 200) sample_cfg offer_tc None timing \<lparr>ss_world = Suc 0, ss_events = h\<rparr>
    = Some (\<lparr>ss_world = 2, ss_events = h @ [SawVacant, SubmittedPost (offer_of sample_cfg)]\<rparr>, Inr (Ready (PostedOffer (Some (Rested 8)))))"
proof -
  have "validate_subscription_offer_volume sample_cfg = Inr ()"
    by (simp add: validate_subscription_offer_volume_def sample_cfg_def)
  then have offer: "prepare_seller_offer (sample_offers 200) due sample_cfg owner \<lparr>ss_world = Suc 0, ss_events = h\<rparr>
      = (\<lparr>ss_world = 2, ss_events = h @ [SawVacant, SubmittedPost (offer_of sample_cfg)]\<rparr>, Inr (PostedOffer (Some (Rested 8))))"
    for due owner
    by (simp add: prepare_seller_offer_def inspect_seller_offer_def post_offer_with_note_def sample_sel offer_run stage_orders_def)
  show ?thesis
    by (simp add: prepare_seller_offer_with_timing_def offer settle_startup_def confirm_fresh_offer_def unless_interrupted_def
        startup_readiness_with_timeout_retries.simps sample_sel offer_run Let_def)
qed

lemma sample_successor:
  "successor_absolute_deadline (sample_offers u) (sample_identity\<lparr>ri_order_id := 8\<rparr>) d p \<lparr>ss_world = 2, ss_events = h\<rparr>
    = Some (\<lparr>ss_world = 2, ss_events = h\<rparr>, Inr (Some 3700))"
  unfolding successor_absolute_deadline_def
  by (subst repeat.simps)
    (simp add: successor_turn_def sample_sel offer_run stage_orders_def book_order_def sample_identity_def)

lemma sample_matched:
  "supervise_with_timing (sample_offers 200) cfg identity timing \<lparr>ss_world = 2, ss_events = h\<rparr>
    = Some (\<lparr>ss_world = 2, ss_events = h\<rparr>, Inr (SellerMatched sample_match))"
proof -
  have "repeat (supervision_turn (sample_offers 200) timing identity) c \<lparr>ss_world = 2, ss_events = h\<rparr>
      = Some (\<lparr>ss_world = 2, ss_events = h\<rparr>, Inr (Inr sample_match))" for c
    by (subst repeat.simps) (simp add: supervision_turn_def on_match_def sample_sel offer_run)
  then show ?thesis by (simp add: supervise_with_timing_def sample_sel offer_run)
qed

lemma sample_generations:
  "supervise_resting_offer_with_relist (sample_offers 200) sample_cfg sample_identity True \<lparr>ss_world = 0, ss_events = []\<rparr>
    = Some (\<lparr>ss_world = 2, ss_events = [SawReap (Inl ExpiredStillInBook), SubmittedExpire 7, SawReap (Inr (Relist 3 5)),
          SawVacant, SubmittedPost (offer_of sample_cfg), Relisted 7 100 8 3700]\<rparr>,
        Inr (sample_identity\<lparr>ri_order_id := 8\<rparr>, SellerMatched sample_match))"
proof -
  have cfg: "sample_cfg\<lparr>cfg_price_per_tick := 5, cfg_max_ticks := 3\<rparr> = sample_cfg" by (simp add: sample_cfg_def)
  have owner: "ri_owner_note sample_identity = offer_tc" "ri_order_id sample_identity = 7" by (simp_all add: sample_identity_def)
  show ?thesis
    unfolding supervise_resting_offer_with_relist_def supervise_and_relist_reporting_identity_def
    by (subst repeat.simps,
        simp add: generation_turn_def relist_offer_def adopt_successor_def sample_expiry sample_reap sample_prepare sample_successor
          cfg owner canonical_timing_def Let_def sample_sel offer_run,
        subst repeat.simps,
        simp add: generation_turn_def settle_generation_def sample_matched offer_run)
qed

section \<open>What the readings mean\<close>

text \<open>The order is absent if the book read had no such row and the deal read no match after it.\<close>

lemma onW_Inr: "onW m s = (s', Inr x) \<Longrightarrow> m (ss_world s) = (ss_world s', Inr x)"
  by (auto simp: onW_def split: prod.splits)

lemma absent_means:
  assumes "target_state W due cfg identity s = (s', Inr Absent)"
  shows "\<exists>w w1 w2 orders. ow_raw_orders W due (ri_token_contract identity) w = (w1, Inr orders)
    \<and> ri_order_id identity \<notin> set (map ob_order_id orders)
    \<and> ow_openable_match W due (ri_token_contract identity) w1 = (w2, Inr None)"
proof -
  obtain t u v x orders where book: "onW (ow_raw_orders W due (ri_token_contract identity)) t = (u, Inr orders)"
    and none: "find (\<lambda>order. ob_order_id order = ri_order_id identity) orders = None"
    and free: "onW (ow_openable_match W due (ri_token_contract identity)) u = (v, Inr (None :: Match option))"
    using assms
    by (fastforce simp: target_state_def bindS_Inr_iff simple_Inr_iff split: option.splits if_splits)
  show ?thesis
    using onW_Inr [OF book] onW_Inr [OF free] none by (fastforce simp: find_None_iff)
qed

text \<open>A deal is relisted only if, in one pass, no match was open on it, its book was empty, its latch was
  free, it was unused, and its own terms allow the smallest fill.\<close>

lemma relist_means:
  assumes "reap_state W due identity s = (s', Inr (Inr (Relist t p)))"
  defines "tc \<equiv> ri_token_contract identity"
  shows "\<exists>w0 w1 w2 w3 w4 w5 latch state. ow_openable_match W due tc w0 = (w1, Inr None)
    \<and> ow_raw_orders W due tc w1 = (w2, Inr []) \<and> ow_offer_latch W due tc w2 = (w3, Inr (Some latch)) \<and> \<not> offer_posted latch
    \<and> ow_deal_state W due tc w3 = (w4, Inr (Some state)) \<and> used_reason state = None
    \<and> ow_terms W due tc w4 = (w5, Inr (Some (p, t))) \<and> MIN_STREAM_BUY_TICKS \<le> t"
proof -
  obtain a b c d e f latch state where
    "onW (ow_openable_match W due tc) a = (b, Inr (None :: Match option))" "onW (ow_raw_orders W due tc) b = (c, Inr [])"
    "onW (ow_offer_latch W due tc) c = (d, Inr (Some latch))" "\<not> offer_posted latch"
    "onW (ow_deal_state W due tc) d = (e, Inr (Some state))" "used_reason state = None"
    "onW (ow_terms W due tc) e = (f, Inr (Some (p, t)))" "MIN_STREAM_BUY_TICKS \<le> t"
    using assms(1)
    by (fastforce simp: reap_state_def Let_def tc_def bindS_Inr_iff simple_Inr_iff not_less
        split: option.splits if_splits)
  then show ?thesis by (meson onW_Inr)
qed

text \<open>
  A refusal is reported as \<open>ReapedNotRelisted\<close>, whose documentation says the expired order was reaped off
  the book; but the pass refuses at the first other order it finds, before it looks whether the expired
  one is gone.
\<close>

lemma refused_with_the_order_in_the_book:
  assumes "ow_openable_match W due (ri_token_contract identity) (ss_world s) = (w, Inr None)"
    and "ow_raw_orders W due (ri_token_contract identity) w = (w', Inr [expired, other])"
    and "ob_order_id expired = ri_order_id identity" and "ob_order_id other \<noteq> ri_order_id identity"
  shows "snd (reap_state W due identity s) = Inr (Inr (RelistRefused (SecondOffer (ob_order_id other))))"
    and "proven_unmatchable (ReapedNotRelisted (SecondOffer (ob_order_id other)))"
  using assms by (simp_all add: reap_state_def Let_def bindS_def onW_def returnS_def proven_unmatchable_def)

section \<open>The verdict of a cancel\<close>

text \<open>
  C22: The verdict of a cancel rests on the last reading of the book. Whatever the chain answers and however
  long it takes, a cancel makes readings of the exact order, submits at most one cancel, and that only
  for this order and only after a reading that found it resting; it reports the order cancelled or
  absent only if the last reading found neither the order nor a match, matched only if the last reading
  found that match, and refused by the chain only if the last reading found the order still there. So the
  seller holds an offer for unmatchable only on a reading that shows it.
\<close>

theorem cancel_verdict_rests_on_the_book:
  assumes "cancel_and_confirm W cfg identity s = Some (s', Inr d)"
  shows "(\<exists>xs. ss_events s' = ss_events s @ map SawTarget xs \<and> decides xs d \<and> d \<noteq> Cancelled)
    \<or> (\<exists>xs ys. ss_events s' = ss_events s @ map SawTarget xs @ SubmittedCancel (ri_order_id identity) # map SawTarget ys
        \<and> xs \<noteq> [] \<and> still_there (last xs) \<and> decides ys d)"
proof -
  obtain w now where now: "ow_now W (ss_world s) = (w, now)" by fastforce
  define t where "t = s\<lparr>ss_world := w\<rparr>"
  have t: "ss_events t = ss_events s"
    and run: "cancel_and_confirm_before W cfg identity (now + 60) 2 t = Some (s', Inr d)"
    using assms now by (simp_all add: t_def cancel_and_confirm_def now_of_def loadO_def once_def getW_def bindO_def)
  have "onE (cancel_trace (ss_events s) (ri_order_id identity) d) s'"
    using ensuresD [OF cancel_decides [of "ss_events s"] _ run] t by (simp add: onE_def)
  then show ?thesis by (auto simp: onE_def cancel_trace_def readings_def)
qed

theorem cancel_verdict_rests_on_the_book_witness:
  "(\<exists>xs. [SawTarget Present, SubmittedCancel 7, SawTarget Absent] = map SawTarget xs \<and> decides xs Cancelled \<and> Cancelled \<noteq> Cancelled)
    \<or> (\<exists>xs ys. [SawTarget Present, SubmittedCancel 7, SawTarget Absent] = map SawTarget xs @ SubmittedCancel 7 # map SawTarget ys
        \<and> xs \<noteq> [] \<and> still_there (last xs) \<and> decides ys Cancelled)"
  using cancel_verdict_rests_on_the_book [OF offer_cancel] by (simp add: sample_identity_def)

section \<open>The supervision loop\<close>

text \<open>
  C12: The seller never stops serving a deal a buyer can still match, and never offers a deal twice. In a run of
  the supervision loop, over any number of generations: the gateway is aborted only right after a reading that
  found neither the order nor a match, or right after the reap proved the deal free; an offer is posted
  only right after the reap proved the deal free, on exactly the terms it read, and after the book was
  read to be vacant once more; and every successor has a new order id and a later deadline.
\<close>

theorem supervision_steps_are_justified:
  assumes "supervise_resting_offer_with_relist W cfg identity abort s = Some (s', r)" and "ss_events s = []"
  shows "\<forall>past e rest. ss_events s' = past @ e # rest \<longrightarrow> justified past e"
proof -
  have "keepsJ (supervise_resting_offer_with_relist W cfg identity abort)"
    unfolding supervise_resting_offer_with_relist_def by (rule supervision_keeps)
  moreover have "onE J s" by (simp add: onE_def assms(2))
  ultimately have "case r of Inr _ \<Rightarrow> onE J s' | Inl _ \<Rightarrow> onE J s'"
    using assms(1) unfolding keepsJ_def ensures_def by blast
  then have "J (ss_events s')" by (simp add: onE_def split: sum.splits)
  then show ?thesis by (auto simp: justified_append)
qed

theorem supervision_steps_are_justified_witness:
  "justified [SawReap (Inl ExpiredStillInBook), SubmittedExpire 7, SawReap (Inr (Relist 3 5)), SawVacant]
    (SubmittedPost (offer_of sample_cfg))"
  using supervision_steps_are_justified [OF sample_generations] by simp

end
