(* ===== verification/SupervisionWaits.thy ===== *)
theory SupervisionWaits
  imports SupervisionProperties
begin

text \<open>
  The bounded waits of the seller's offer supervision return. The source polls until a deadline on the
  monotonic clock; \<open>clocked\<close> says what it relies on: no await moves the clock back, and a sleep
  until an instant ends at that instant or later.
\<close>

section \<open>Loops with a measure\<close>

lemma repeat_returns:
  assumes turn: "\<And>c s. \<exists>s' t. m c s = Some (s', Inr t) \<and> (\<forall>c'. t = Turn c' \<longrightarrow> \<mu> s' < (\<mu> s :: nat))"
  shows "\<exists>s' x. repeat m c s = Some (s', Inr x)"
proof (induction "\<mu> s" arbitrary: c s rule: less_induct)
  case less
  obtain s' t where run: "m c s = Some (s', Inr t)" and down: "\<forall>c'. t = Turn c' \<longrightarrow> \<mu> s' < \<mu> s"
    using turn by blast
  show ?case
    using less down by (subst repeat.simps, cases t) (simp_all add: run)
qed

section \<open>The clock\<close>

definition later :: "('w \<Rightarrow> instant) \<Rightarrow> ('w, 'e, 'a) call \<Rightarrow> bool" where
  "later clock m \<longleftrightarrow> (\<forall>w. clock w \<le> clock (fst (m w)))"

definition clocked :: "('w, 'm) OfferWorld \<Rightarrow> ('w \<Rightarrow> instant) \<Rightarrow> bool" where
  "clocked W clock \<longleftrightarrow>
    (\<forall>w. clock w \<le> snd (ow_now W w) \<and> snd (ow_now W w) \<le> clock (fst (ow_now W w)))
    \<and> (\<forall>t w. max t (clock w) \<le> clock (ow_sleep_until W t w))
    \<and> (\<forall>due tc. later clock (ow_raw_orders W due tc) \<and> later clock (ow_openable_match W due tc)
        \<and> later clock (ow_offer_latch W due tc) \<and> later clock (ow_deal_state W due tc) \<and> later clock (ow_terms W due tc)
        \<and> (\<forall>i. later clock (ow_expire W due tc i)))"

abbreviation since :: "('w \<Rightarrow> instant) \<Rightarrow> instant \<Rightarrow> 'w seller_state \<Rightarrow> bool" where
  "since clock t s \<equiv> t \<le> clock (ss_world s)"

lemma keeps_since_onW [keeps_intros]: "later clock m \<Longrightarrow> keeps (since clock t) (onW m)"
  by (auto simp: keeps_def later_def onW_def split: prod.splits) (metis fst_conv le_trans)

lemma keeps_since_show [keeps_intros]: "keeps (since clock t) (show_event e)"
  by (simp add: keeps_def show_event_def)

lemma clocked_calls:
  assumes "clocked W clock"
  shows "later clock (ow_raw_orders W due tc)" "later clock (ow_openable_match W due tc)" "later clock (ow_offer_latch W due tc)"
    "later clock (ow_deal_state W due tc)" "later clock (ow_terms W due tc)" "later clock (ow_expire W due tc i)"
  using assms by (simp_all add: clocked_def)

text \<open>An attempt always answers, and only moves the clock on.\<close>

lemma attempt_later:
  assumes "keeps (since clock (clock (ss_world s))) m"
  obtains s' r where "attemptO m s = Some (s', Inr r)" and "clock (ss_world s) \<le> clock (ss_world s')"
proof (cases "m s")
  case (Pair s' r)
  then show thesis using that assms by (simp add: attemptO_def once_def tryS_def keeps_def) (metis fst_conv order_refl)
qed

lemma now_later:
  assumes "clocked W clock"
  obtains s' now where "now_of W s = Some (s', Inr now)" and "clock (ss_world s) \<le> now" and "now \<le> clock (ss_world s')"
proof (cases "ow_now W (ss_world s)")
  case (Pair w now)
  then show thesis
    using that assms by (simp add: clocked_def now_of_def loadO_def once_def getW_def) (metis fst_conv snd_conv)
qed

lemma wake_later:
  assumes "clocked W clock"
  obtains s' where "wake_before W poll deadline s = Some (s', Inr ())"
    and "min (clock (ss_world s) + poll) deadline \<le> clock (ss_world s')"
proof -
  obtain t now where now: "now_of W s = Some (t, Inr now)" "clock (ss_world s) \<le> now" by (rule now_later [OF assms])
  have "min (clock (ss_world s) + poll) deadline \<le> clock (ow_sleep_until W (min (now + poll) deadline) (ss_world t))"
    using assms now(2) unfolding clocked_def by (metis add_le_mono1 le_trans max.bounded_iff min.mono order_refl)
  then show thesis
    using that now(1) by (simp add: wake_before_def sleep_untilO_def once_def actW_def)
qed

section \<open>The waits\<close>

lemma keeps_reap_state:
  "clocked W clock \<Longrightarrow> keeps (since clock t) (reap_state W due identity)"
  unfolding reap_state_def Let_def
  by (intro keeps_intros; (auto intro!: keeps_intros split: option.split prod.split simp: clocked_calls)?)

lemma keeps_inspect:
  "clocked W clock \<Longrightarrow> keeps (since clock t) (inspect_seller_offer W due cfg owner)"
  unfolding inspect_seller_offer_def
  by (intro keeps_intros; (auto intro!: keeps_intros split: option.split list.split simp: clocked_calls)?)


text \<open>\<open>nears\<close>: the run answers, or turns with less time left to the deadline than at \<open>t\<close>.\<close>

definition nears ::
  "('w \<Rightarrow> instant) \<Rightarrow> instant \<Rightarrow> instant \<Rightarrow> ('w seller_state \<times> (seller_error + ('c, 'a) turn)) option \<Rightarrow> bool" where
  "nears clock deadline t r \<longleftrightarrow>
    (\<exists>s' x. r = Some (s', Inr x) \<and> (\<forall>c. x = Turn c \<longrightarrow> deadline - clock (ss_world s') < deadline - t))"

lemma nears_earlier: "nears clock deadline t r \<Longrightarrow> t' \<le> t \<Longrightarrow> nears clock deadline t' r"
  by (fastforce simp: nears_def)

lemma nears_answer: "nears clock deadline t (once (returnS (Answer x)) s)"
  by (simp add: nears_def once_def returnS_def)

lemma nears_wake:
  assumes "clocked W clock" and "0 < poll" and "t < deadline" and "t \<le> clock (ss_world s)"
  shows "nears clock deadline t (bindO (wake_before W poll deadline) (\<lambda>_. once (returnS (Turn c))) s)"
proof -
  obtain s' where "wake_before W poll deadline s = Some (s', Inr ())"
    and "min (clock (ss_world s) + poll) deadline \<le> clock (ss_world s')"
    by (rule wake_later [OF assms(1)])
  then show ?thesis using assms(2-) by (auto simp: nears_def once_def returnS_def)
qed

lemma nears_poll:
  assumes "clocked W clock" and "0 < poll"
  shows "nears clock deadline (clock (ss_world s))
    (bindO (now_of W) (\<lambda>now. if deadline \<le> now then once (returnS (Answer x))
       else bindO (wake_before W poll deadline) (\<lambda>_. once (returnS (Turn c)))) s)"
proof -
  obtain u now where now: "now_of W s = Some (u, Inr now)" "clock (ss_world s) \<le> now" "now \<le> clock (ss_world u)"
    by (rule now_later [OF assms(1)])
  then show ?thesis
    using nears_wake [OF assms, of "clock (ss_world s)" deadline u] by (auto simp: nears_answer not_le)
qed

lemma nears_returns:
  assumes "\<And>c s. nears clock deadline (clock (ss_world s)) (m c s)"
  shows "\<exists>s' x. repeat m c s = Some (s', Inr x)"
  using assms by (intro repeat_returns [where \<mu> = "\<lambda>s. deadline - clock (ss_world s)"]) (simp add: nears_def)

lemma reap_nears:
  assumes clocked: "clocked W clock" and poll: "0 < poll"
  shows "nears clock deadline (clock (ss_world s)) (reap_turn W identity deadline poll submitted s)"
proof -
  have "keeps (since clock (clock (ss_world s)))
      (bindS (reap_state W (Some deadline) identity) (\<lambda>answer. bindS (show_event (SawReap answer)) (\<lambda>_. returnS answer)))"
    by (intro keeps_intros keeps_reap_state clocked)
  then obtain u r where read: "see_reap W (Some deadline) identity s = Some (u, Inr r)"
    and u: "clock (ss_world s) \<le> clock (ss_world u)"
    unfolding see_reap_def by (rule attempt_later)
  obtain v where submit: "(if submitted then once (returnS ()) else submit_expire W identity deadline) u = Some (v, Inr ())"
    and v: "clock (ss_world u) \<le> clock (ss_world v)"
  proof (cases submitted)
    case True
    then show thesis using that by (simp add: once_def returnS_def)
  next
    case False
    define t where "t = u\<lparr>ss_events := ss_events u @ [SubmittedExpire (ri_order_id identity)]\<rparr>"
    have "later clock (ow_expire W (Some deadline) (ri_token_contract identity) (ri_order_id identity))"
      using clocked by (rule clocked_calls)
    then obtain v r where "attemptO (onW (ow_expire W (Some deadline) (ri_token_contract identity) (ri_order_id identity))) t
        = Some (v, Inr r)" and "clock (ss_world t) \<le> clock (ss_world v)"
      by (rule attempt_later [OF keeps_since_onW])
    then show thesis using that False by (simp add: t_def submit_expire_def showO_def once_def show_event_def returnS_def)
  qed
  note poll = nears_earlier [OF nears_poll [OF clocked poll, of deadline v RelistUnproven True] le_trans [OF u v]]
  show ?thesis
    unfolding reap_turn_def using read submit poll
    by (cases r) (auto simp: nears_answer split: sum.split)
qed

lemma successor_nears:
  assumes clocked: "clocked W clock" and poll: "0 < poll"
  shows "nears clock deadline (clock (ss_world s)) (successor_turn W identity deadline poll s)"
proof -
  have "later clock (ow_raw_orders W (Some deadline) (ri_token_contract identity))"
    using clocked by (rule clocked_calls)
  then obtain u r where read: "attemptO (onW (ow_raw_orders W (Some deadline) (ri_token_contract identity))) s = Some (u, Inr r)"
    and u: "clock (ss_world s) \<le> clock (ss_world u)"
    by (rule attempt_later [OF keeps_since_onW])
  note poll = nears_earlier [OF nears_poll [OF clocked poll, of deadline u None "()"] u]
  show ?thesis
    unfolding successor_turn_def using read poll by (auto simp: nears_answer split: option.split)
qed

lemma reconcile_nears:
  assumes clocked: "clocked W clock" and poll: "0 < poll"
  shows "nears clock deadline (clock (ss_world s)) (reconcile_turn W cfg owner deadline poll s)"
proof -
  obtain u now where now: "now_of W s = Some (u, Inr now)" "clock (ss_world s) \<le> now" "now \<le> clock (ss_world u)"
    by (rule now_later [OF clocked])
  obtain v r where read: "attemptO (inspect_seller_offer W (Some deadline) cfg (Some owner)) u = Some (v, Inr r)"
    and v: "clock (ss_world u) \<le> clock (ss_world v)"
    by (rule attempt_later [OF keeps_inspect [OF clocked]])
  have "nears clock deadline (clock (ss_world s)) (bindO (wake_before W poll deadline) (\<lambda>_. once (returnS (Turn ()))) v)"
    if "now < deadline"
    using now v that by (intro nears_wake clocked poll) auto
  then show ?thesis
    unfolding reconcile_turn_def using now read
    by (auto simp: nears_answer not_le split: sum.split offer_fault.split SellerOfferInspection.split)
qed

text \<open>
  C23: The bounded waits return. On a clock that no await moves back and that a sleep moves on, the reap of an
  expired offer, the search for its successor's deadline and the reconciliation of an unresolved startup all
  end with an answer, whatever the chain answers, also when it answers nothing but errors: after the
  deadline each gives up with its own verdict instead of an error.
\<close>

theorem bounded_waits_return:
  assumes "clocked W clock" and "0 < poll"
  shows "(\<exists>s' decision. reap_expired_offer W identity deadline poll s = Some (s', Inr decision))
    \<and> (\<exists>s' found. successor_absolute_deadline W identity deadline poll s = Some (s', Inr found))
    \<and> (\<exists>s' inspection. reconcile_unresolved_startup W cfg owner deadline poll s = Some (s', Inr inspection))"
  unfolding reap_expired_offer_def successor_absolute_deadline_def reconcile_unresolved_startup_def
  by (intro conjI nears_returns [where clock = clock and deadline = deadline]
      reap_nears successor_nears reconcile_nears assms)

text \<open>A world in which the clock runs and nothing else ever happens: the order stays in the book.\<close>

definition stuck_offers :: "(nat, unit) OfferWorld" where
  "stuck_offers = (sample_offers 200)\<lparr> ow_now := (\<lambda>w. (w, w)), ow_sleep_until := (\<lambda>t w. max t w),
     ow_raw_orders := (\<lambda>_ _ w. (w, Inr [book_order 7 100])), ow_expire := (\<lambda>_ _ _ w. (w, Inl Elapsed)) \<rparr>"

lemma stuck_clocked: "clocked stuck_offers (\<lambda>w. w)"
  by (simp add: clocked_def later_def stuck_offers_def sample_sel)

theorem bounded_waits_return_witness:
  "clocked stuck_offers (\<lambda>w. w)
    \<and> (\<exists>s' decision. reap_expired_offer stuck_offers sample_identity 60 2 \<lparr>ss_world = 0, ss_events = []\<rparr> = Some (s', Inr decision))"
  using bounded_waits_return [OF stuck_clocked, of 2 sample_identity 60 "\<lparr>ss_world = 0, ss_events = []\<rparr>" sample_cfg offer_tc]
  by (simp add: stuck_clocked)

end
