(* ===== verification/Text.thy ===== *)
theory Text
  imports Diagnostics
begin

text \<open>
  The \<open>str\<close> operations of the provider adapters, on the UTF-8 bytes of the text (a \<open>char\<close> is a byte):
  validity, trimming of Unicode white space, lines, splitting. Trimming drops whole characters, so on
  valid UTF-8 it is the trimming of the standard library.
\<close>

section \<open>UTF-8\<close>

abbreviation byte :: "char \<Rightarrow> nat" where "byte \<equiv> of_char"

definition between :: "nat \<Rightarrow> nat \<Rightarrow> char \<Rightarrow> bool" where
  "between lo hi c \<longleftrightarrow> lo \<le> byte c \<and> byte c \<le> hi"

abbreviation continuation :: "char \<Rightarrow> bool" where "continuation \<equiv> between 128 191"

text \<open>\<open>String::from_utf8\<close>: no overlong form, no surrogate, nothing above U+10FFFF.\<close>

fun valid_utf8 :: "string \<Rightarrow> bool" where
  "valid_utf8 [] \<longleftrightarrow> True"
| "valid_utf8 (a # s) \<longleftrightarrow>
    (if byte a < 128 then valid_utf8 s
     else case s of
       [] \<Rightarrow> False
     | b # s \<Rightarrow>
       if between 194 223 a then continuation b \<and> valid_utf8 s
       else case s of
         [] \<Rightarrow> False
       | c # s \<Rightarrow>
         if byte a = 224 then between 160 191 b \<and> continuation c \<and> valid_utf8 s
         else if byte a = 237 then between 128 159 b \<and> continuation c \<and> valid_utf8 s
         else if between 225 239 a then continuation b \<and> continuation c \<and> valid_utf8 s
         else case s of
           [] \<Rightarrow> False
         | d # s \<Rightarrow>
           (if byte a = 240 then between 144 191 b
            else if between 241 243 a then continuation b
            else byte a = 244 \<and> between 128 143 b)
           \<and> continuation c \<and> continuation d \<and> valid_utf8 s)"

section \<open>White space\<close>

text \<open>The UTF-8 forms of the characters with the Unicode property \<open>White_Space\<close>.\<close>

definition white_space :: "string list" where
  "white_space =
    [[CHR 0x09], [CHR 0x0A], [CHR 0x0B], [CHR 0x0C], [CHR 0x0D], [CHR 0x20], [CHR 0xC2, CHR 0x85],
     [CHR 0xC2, CHR 0xA0], [CHR 0xE1, CHR 0x9A, CHR 0x80], [CHR 0xE2, CHR 0x80, CHR 0x80],
     [CHR 0xE2, CHR 0x80, CHR 0x81], [CHR 0xE2, CHR 0x80, CHR 0x82], [CHR 0xE2, CHR 0x80, CHR 0x83],
     [CHR 0xE2, CHR 0x80, CHR 0x84], [CHR 0xE2, CHR 0x80, CHR 0x85], [CHR 0xE2, CHR 0x80, CHR 0x86],
     [CHR 0xE2, CHR 0x80, CHR 0x87], [CHR 0xE2, CHR 0x80, CHR 0x88], [CHR 0xE2, CHR 0x80, CHR 0x89],
     [CHR 0xE2, CHR 0x80, CHR 0x8A], [CHR 0xE2, CHR 0x80, CHR 0xA8], [CHR 0xE2, CHR 0x80, CHR 0xA9],
     [CHR 0xE2, CHR 0x80, CHR 0xAF], [CHR 0xE2, CHR 0x81, CHR 0x9F], [CHR 0xE3, CHR 0x80, CHR 0x80]]"

fun drop_first_of :: "string list \<Rightarrow> string \<Rightarrow> string option" where
  "drop_first_of [] s = None"
| "drop_first_of (w # ws) s = (if w \<noteq> [] \<and> take (length w) s = w then Some (drop (length w) s) else drop_first_of ws s)"

lemma drop_first_of_shorter: "drop_first_of ws s = Some t \<Longrightarrow> length t < length s"
  by (induction ws) (auto split: if_splits, metis length_0_conv length_greater_0_conv min_less_iff_conj diff_less length_take)

function trim_all :: "string list \<Rightarrow> string \<Rightarrow> string" where
  "trim_all ws s = (case drop_first_of ws s of Some t \<Rightarrow> trim_all ws t | None \<Rightarrow> s)"
  by pat_completeness auto
termination
  by (relation "measure (\<lambda>(ws, s). length s)") (auto dest: drop_first_of_shorter)

declare trim_all.simps [simp del]

definition trim_start :: "string \<Rightarrow> string" where "trim_start s = trim_all white_space s"
definition trim_end :: "string \<Rightarrow> string" where "trim_end s = rev (trim_all (map rev white_space) (rev s))"
definition str_trim :: "string \<Rightarrow> string" where "str_trim s = trim_end (trim_start s)"

lemma trim_all_Nil [simp]: "trim_all ws [] = []"
proof -
  have "drop_first_of ws [] = None" by (induction ws) auto
  then show ?thesis by (simp add: trim_all.simps)
qed

lemma str_trim_Nil [simp]: "str_trim [] = []"
  by (simp add: str_trim_def trim_end_def trim_start_def)

text \<open>Text that begins and ends with a visible ASCII character is left as it is.\<close>

abbreviation visible :: "char \<Rightarrow> bool" where "visible \<equiv> between 33 126"

lemma white_space_not_visible: "list_all (\<lambda>w. w \<noteq> [] \<and> \<not> visible (hd w) \<and> \<not> visible (last w)) white_space"
  by code_simp

lemma drop_first_of_visible:
  assumes "visible (hd s)" and "list_all (\<lambda>w. w \<noteq> [] \<and> \<not> visible (hd w)) ws"
  shows "drop_first_of ws s = None"
  using assms(2)
proof (induction ws)
  case (Cons w ws)
  have "take (length w) s \<noteq> w"
  proof
    assume "take (length w) s = w"
    then have "hd w = hd s" using Cons by (cases s; cases w) auto
    then show False using Cons assms(1) by simp
  qed
  then show ?case using Cons by simp
qed simp

lemma str_trim_visible: "s \<noteq> [] \<Longrightarrow> visible (hd s) \<Longrightarrow> visible (last s) \<Longrightarrow> str_trim s = s"
  using white_space_not_visible drop_first_of_visible [of s white_space]
    drop_first_of_visible [of "rev s" "map rev white_space"]
  by (simp add: str_trim_def trim_start_def trim_end_def trim_all.simps list_all_iff hd_rev)

section \<open>Splitting\<close>

text \<open>\<open>str::split\<close>: the pieces between the occurrences of the separator, which is not empty.\<close>

function split_on :: "string \<Rightarrow> string \<Rightarrow> string list" where
  "split_on sep s = (case split_once sep s of
     Some (a, b) \<Rightarrow> if sep = [] then [s] else a # split_on sep b | None \<Rightarrow> [s])"
  by pat_completeness auto

lemma strip_prefix_SomeD: "strip_prefix pat s = Some t \<Longrightarrow> s = pat @ t"
  by (auto simp: strip_prefix_def split: if_splits) (metis append_take_drop_id)

lemma split_once_parts: "split_once sep s = Some (a, b) \<Longrightarrow> s = a @ sep @ b"
proof (induction sep s arbitrary: a b rule: split_once.induct)
  case (1 sep s)
  show ?case
  proof (cases "strip_prefix sep s")
    case None
    then show ?thesis
      using 1 by (subst (asm) (2) split_once.simps) (auto split: list.splits)
  next
    case (Some rest)
    then have "s = sep @ rest" by (rule strip_prefix_SomeD)
    then show ?thesis
      using 1(2) Some by (subst (asm) split_once.simps) auto
  qed
qed

termination split_on
  by (relation "measure (\<lambda>(sep, s). length s)") (auto dest!: split_once_parts)

declare split_on.simps [simp del]

text \<open>\<open>str::lines\<close>: split at line feeds, without a last empty line, each without a carriage return at its end.\<close>

definition strip_cr :: "string \<Rightarrow> string" where
  "strip_cr s = (if s \<noteq> [] \<and> last s = CHR 0x0D then butlast s else s)"

definition str_lines :: "string \<Rightarrow> string list" where
  "str_lines s =
    (let pieces = split_on [CHR 0x0A] s in map strip_cr (if last pieces = [] then butlast pieces else pieces))"

lemma split_on_Cons: "split_on sep s \<noteq> []"
  by (subst split_on.simps) (auto split: option.splits)

lemma join_split_on: "join_with sep (split_on sep s) = s"
proof (induction sep s rule: split_on.induct)
  case (1 sep s)
  show ?case
  proof (cases "split_once sep s")
    case None
    then show ?thesis by (simp add: split_on.simps)
  next
    case (Some p)
    obtain a b where p: "p = (a, b)" by fastforce
    show ?thesis
    proof (cases "sep = []")
      case False
      have "join_with sep (a # split_on sep b) = a @ sep @ join_with sep (split_on sep b)"
        using split_on_Cons [of sep b] by (cases "split_on sep b") auto
      then show ?thesis
        using 1 Some p False split_once_parts [of sep s a b] by (subst split_on.simps) simp
    qed (use Some p in \<open>simp add: split_on.simps\<close>)
  qed
qed

text \<open>Splitting goes on where it stopped when more text arrives.\<close>

lemma split_once_found: "split_once sep (a @ sep @ b) \<noteq> None"
proof (induction a)
  case Nil
  show ?case by (subst split_once.simps) (simp add: strip_prefix_def)
next
  case (Cons c a)
  then show ?case by (subst split_once.simps) (auto split: option.split)
qed

lemma split_once_append: "split_once sep s = Some (a, b) \<Longrightarrow> split_once sep (s @ t) = Some (a, b @ t)"
proof (induction sep s arbitrary: a b rule: split_once.induct)
  case (1 sep s)
  show ?case
  proof (cases "strip_prefix sep s")
    case (Some rest)
    then have "s = sep @ rest" by (rule strip_prefix_SomeD)
    then have "strip_prefix sep (s @ t) = Some (rest @ t)" by (simp add: strip_prefix_def)
    then show ?thesis using 1(2) Some by (subst (asm) split_once.simps, subst split_once.simps) auto
  next
    case None
    then obtain c s' a' where s: "s = c # s'" and rest: "split_once sep s' = Some (a', b)" and a: "a = c # a'"
      using 1(2) by (subst (asm) split_once.simps) (auto split: list.splits)
    have "length sep \<le> length s" using split_once_parts [OF rest] s by simp
    then have "strip_prefix sep (s @ t) = None" using None by (auto simp: strip_prefix_def split: if_splits)
    then show ?thesis using 1(1) [OF None s rest] s a by (subst split_once.simps) simp
  qed
qed

lemma split_once_last: "sep \<noteq> [] \<Longrightarrow> split_once sep (last (split_on sep s)) = None"
proof (induction sep s rule: split_on.induct)
  case (1 sep s)
  then show ?case
    using split_on_Cons by (subst split_on.simps) (auto split: option.split prod.split)
qed

lemma split_on_append:
  "sep \<noteq> [] \<Longrightarrow> split_on sep (s @ t) = butlast (split_on sep s) @ split_on sep (last (split_on sep s) @ t)"
proof (induction sep s rule: split_on.induct)
  case (1 sep s)
  show ?case
  proof (cases "split_once sep s")
    case None
    then have "split_on sep s = [s]" by (simp add: split_on.simps)
    then show ?thesis by simp
  next
    case (Some p)
    obtain a b where p: "p = (a, b)" by fastforce
    have "split_on sep s = a # split_on sep b" using Some p 1(2) by (subst split_on.simps) simp
    moreover have "split_on sep (s @ t) = a # split_on sep (b @ t)"
      using split_once_append [of sep s a b t] Some p 1(2) by (subst split_on.simps) simp
    ultimately show ?thesis using 1(1) [OF Some p [symmetric] 1(2)] 1(2) split_on_Cons by simp
  qed
qed

definition strip_suffix :: "string \<Rightarrow> string \<Rightarrow> string option" where
  "strip_suffix pat s = map_option rev (strip_prefix (rev pat) (rev s))"

definition starts_with :: "string \<Rightarrow> string \<Rightarrow> bool" where
  "starts_with pat s \<longleftrightarrow> strip_prefix pat s \<noteq> None"

definition ends_with :: "string \<Rightarrow> string \<Rightarrow> bool" where
  "ends_with pat s \<longleftrightarrow> strip_suffix pat s \<noteq> None"

lemma strip_suffix_SomeD: "strip_suffix pat s = Some t \<Longrightarrow> s = t @ pat"
  by (auto simp: strip_suffix_def dest!: strip_prefix_SomeD) (metis rev_append rev_rev_ident)

lemma starts_with_iff: "starts_with pat s \<longleftrightarrow> (\<exists>t. s = pat @ t)"
  unfolding starts_with_def strip_prefix_def by (auto intro: exI [of _ "drop (length pat) s"]) (metis append_take_drop_id)

end
