(* ===== verification/ModelNames.thy ===== *)
theory ModelNames
  imports Text
begin

text \<open>
  Names of models: the canonical id \<open>producer--model--version[--flag]...\<close> of \<open>src/crates/core/src/manifest.rs\<close>
  with its flags in a fixed order, the check of a market manifest, and the spellings under which
  \<open>src/crates/dexdo/src/registry.rs\<close> looks a name up. SHA-256 is a parameter, and so is
  the table of Unicode upper cases beyond ASCII (\<open>upcase\<close>, from the UTF-8 bytes of a character to those of its
  upper case).
\<close>

section \<open>Canonical ids\<close>

text \<open>The precision is the token; its status is always \<open>attested\<close>, not enforced.\<close>

record CanonicalModelFlags =
  mf_unit :: "string option"
  mf_window :: "string option"
  mf_resolution :: "string option"
  mf_tools :: bool
  mf_think :: bool
  mf_precision :: "string option"

record CanonicalModelId =
  mi_producer :: string
  mi_model :: string
  mi_version :: string
  mi_flags :: CanonicalModelFlags

datatype model_id_error =
    NameTooLong nat | NotThreeParts | PackingFormat string | MalformedWindow string | UnknownFlag string
  | DuplicateFlag string | FlagOutOfOrder string

definition no_flags :: CanonicalModelFlags where
  "no_flags = \<lparr> mf_unit = None, mf_window = None, mf_resolution = None, mf_tools = False, mf_think = False,
     mf_precision = None \<rparr>"

definition window_digits :: "string \<Rightarrow> string" where
  "window_digits token =
    (case Option.bind (strip_prefix ''w'' token) (strip_suffix ''k'') of Some digits \<Rightarrow> digits | None \<Rightarrow> [])"

definition parse_model_flag :: "string \<Rightarrow> model_id_error + nat" where
  "parse_model_flag token =
    (if token \<in> {''sec'', ''min'', ''img'', ''frame''} then Inr 0
     else if token \<in> {''480p'', ''720p'', ''1080p'', ''2160p''} then Inr 2
     else if token = ''tools'' then Inr 3
     else if token = ''think'' then Inr 4
     else if token \<in> {''fp32'', ''bf16'', ''fp16'', ''fp8'', ''int8'', ''int4''} then Inr 5
     else if token \<in> {''gptq'', ''awq'', ''gguf'', ''Q4_K_M''} then Inl (PackingFormat token)
     else if starts_with ''w'' token then
       (let digits = window_digits token; thousands = parse_uint U64_MAX digits in
        refuse_if (digits = [] \<or> \<not> list_all is_ascii_digit digits \<or> thousands = Some 0 \<or> thousands = None
            \<or> (case thousands of Some v \<Rightarrow> show_nat v \<noteq> digits | None \<Rightarrow> False)) (MalformedWindow token)
        (Inr 1))
     else Inl (UnknownFlag token))"

definition set_flag :: "nat \<Rightarrow> string \<Rightarrow> CanonicalModelFlags \<Rightarrow> CanonicalModelFlags" where
  "set_flag slot token f =
    (if slot = 0 then f\<lparr>mf_unit := Some token\<rparr> else if slot = 1 then f\<lparr>mf_window := Some token\<rparr>
     else if slot = 2 then f\<lparr>mf_resolution := Some token\<rparr> else if slot = 3 then f\<lparr>mf_tools := True\<rparr>
     else if slot = 4 then f\<lparr>mf_think := True\<rparr> else f\<lparr>mf_precision := Some token\<rparr>)"

fun read_flags :: "string list \<Rightarrow> nat list \<Rightarrow> nat option \<Rightarrow> CanonicalModelFlags \<Rightarrow> model_id_error + CanonicalModelFlags" where
  "read_flags [] seen last_slot f = Inr f"
| "read_flags (token # tokens) seen last_slot f =
    bindR (parse_model_flag token) (\<lambda>slot.
    refuse_if (slot \<in> set seen) (DuplicateFlag token)
    (refuse_if (case last_slot of Some l \<Rightarrow> slot < l | None \<Rightarrow> False) (FlagOutOfOrder token)
    (read_flags tokens (slot # seen) (Some slot) (set_flag slot token f))))"

definition parse_canonical_model_id :: "string \<Rightarrow> model_id_error + CanonicalModelId" where
  "parse_canonical_model_id name =
    refuse_if (127 < length name) (NameTooLong (length name))
    (case split_on ''--'' name of
       producer # model # version # tokens \<Rightarrow>
         refuse_if (str_trim producer = [] \<or> str_trim model = [] \<or> str_trim version = []) NotThreeParts
         (bindR (read_flags tokens [] None no_flags) (\<lambda>flags.
         Inr \<lparr> mi_producer = producer, mi_model = model, mi_version = version, mi_flags = flags \<rparr>))
     | _ \<Rightarrow> Inl NotThreeParts)"

text \<open>\<open>model_hash_for\<close> is SHA-256 of the raw id, in hex: the parameter \<open>sha\<close>.\<close>

definition normalize_hash :: "string \<Rightarrow> string" where
  "normalize_hash h =
    (let t = str_trim h in
     to_ascii_lowercase (case or_else (strip_prefix ''0x'' t) (strip_prefix ''0X'' t) of Some u \<Rightarrow> u | None \<Rightarrow> t))"

definition resolve_model_name :: "(string \<Rightarrow> string) \<Rightarrow> string option \<Rightarrow> string list \<Rightarrow> string option" where
  "resolve_model_name sha model_hash known_models =
    Option.bind model_hash (\<lambda>h. find (\<lambda>name. normalize_hash (sha name) = normalize_hash h) known_models)"

datatype manifest_error = EmptyTokenContract | EmptyFrameModel | HashMismatch

record MarketManifest =
  mm_network :: string
  mm_frame_model :: string
  mm_model_hash :: string
  mm_inference_order_book :: string
  mm_root_model :: string
  mm_token_contract :: string
  mm_seller_note :: string
  mm_nonce :: u64
  mm_price_per_tick :: u128
  mm_max_ticks :: u128

definition validate_manifest :: "(string \<Rightarrow> string) \<Rightarrow> MarketManifest \<Rightarrow> manifest_error + unit" where
  "validate_manifest sha m =
    refuse_if (str_trim (mm_token_contract m) = []) EmptyTokenContract
    (refuse_if (str_trim (mm_frame_model m) = []) EmptyFrameModel
    (refuse_if (mm_model_hash m \<noteq> sha (mm_frame_model m)) HashMismatch
    (Inr ())))"

section \<open>The spellings of a name\<close>

definition ascii_upper :: "char \<Rightarrow> char" where
  "ascii_upper c = (let n = (of_char c :: nat) in if 97 \<le> n \<and> n \<le> 122 then char_of (n - 32) else c)"

definition frame_model_to_served_alias :: "string \<Rightarrow> string option" where
  "frame_model_to_served_alias model_id =
    (case parse_canonical_model_id model_id of
       Inr found \<Rightarrow> Some (mi_producer found @ ''/'' @ mi_model found @ ''-'' @ mi_version found)
     | Inl _ \<Rightarrow>
         (case split_once ''--'' model_id of
            None \<Rightarrow> None
          | Some (vendor, rest) \<Rightarrow>
              if vendor = [] \<or> rest = [] then None
              else let rest = replace_all ''--'' ''-'' rest in
                   if rest = [] then None else Some (vendor @ ''/'' @ rest)))"

definition model_id_alias :: "string \<Rightarrow> string" where
  "model_id_alias model_id =
    (let normalized = to_ascii_lowercase (str_trim model_id) in
     case frame_model_to_served_alias normalized of Some alias \<Rightarrow> alias | None \<Rightarrow> normalized)"

text \<open>The bytes of the character a byte starts, and \<open>char::to_uppercase\<close>: the table is asked beyond ASCII only.\<close>

definition char_bytes :: "char \<Rightarrow> nat" where
  "char_bytes c = (if byte c < 192 then 1 else if byte c < 224 then 2 else if byte c < 240 then 3 else 4)"

definition char_to_uppercase :: "(string \<Rightarrow> string) \<Rightarrow> string \<Rightarrow> string" where
  "char_to_uppercase upcase c = (if list_all (\<lambda>a. byte a < 128) c then map ascii_upper c else upcase c)"

fun display_case_token :: "(string \<Rightarrow> string) \<Rightarrow> string \<Rightarrow> string" where
  "display_case_token upcase [] = []"
| "display_case_token upcase (first # rest) =
    (let token = first # rest; n = char_bytes first in
     if is_ascii_digit first then map ascii_upper token
     else char_to_uppercase upcase (take n token) @ drop n token)"

definition display_case_served_alias :: "(string \<Rightarrow> string) \<Rightarrow> string \<Rightarrow> string option" where
  "display_case_served_alias upcase model_id =
    (case split_once ''/'' model_id of
       None \<Rightarrow> None
     | Some (vendor, rest) \<Rightarrow>
         if vendor = [] \<or> rest = [] then None
         else Some (display_case_token upcase vendor @ ''/'' @ join_with ''-'' (map (display_case_token upcase) (split_on ''-'' rest))))"

definition producer_free_name :: "string \<Rightarrow> string option" where
  "producer_free_name model_id =
    Option.bind (split_once ''/'' model_id) (\<lambda>(producer, rest).
    if producer \<noteq> [] \<and> rest \<noteq> [] \<and> \<not> str_contains ''/'' rest then Some rest else None)"

definition push_candidate :: "string \<Rightarrow> string list \<Rightarrow> string list" where
  "push_candidate candidate out =
    (let c = str_trim candidate in if c = [] \<or> c \<in> set out then out else out @ [c])"

definition push_producer_free :: "string \<Rightarrow> string list \<Rightarrow> string list" where
  "push_producer_free served_alias out =
    (case producer_free_name served_alias of Some bare \<Rightarrow> push_candidate bare out | None \<Rightarrow> out)"

definition registry_identity_candidates :: "(string \<Rightarrow> string) \<Rightarrow> string \<Rightarrow> string list" where
  "registry_identity_candidates upcase model_id =
    (let trimmed = str_trim model_id;
         alias = model_id_alias trimmed;
         display = display_case_served_alias upcase alias;
         out = push_candidate alias (push_candidate trimmed []);
         out = (case display of Some d \<Rightarrow> push_candidate d out | None \<Rightarrow> out);
         out = push_producer_free alias out in
     case display of Some d \<Rightarrow> push_producer_free d out | None \<Rightarrow> out)"

section \<open>The grammar of canonical ids is injective\<close>

text \<open>The tokens of the flags in the order of their slots, and the id written back from its parts.\<close>

definition flag_tokens :: "CanonicalModelFlags \<Rightarrow> string list" where
  "flag_tokens f =
    List.map_filter (\<lambda>x. x) [mf_unit f, mf_window f, mf_resolution f, if mf_tools f then Some ''tools'' else None,
      if mf_think f then Some ''think'' else None, mf_precision f]"

definition render_model_id :: "CanonicalModelId \<Rightarrow> string" where
  "render_model_id m = join_with ''--'' ([mi_producer m, mi_model m, mi_version m] @ flag_tokens (mi_flags m))"

text \<open>What a slot holds, so that the flags below a slot are those already read.\<close>

definition slot_of :: "CanonicalModelFlags \<Rightarrow> nat \<Rightarrow> string option" where
  "slot_of f i =
    [mf_unit f, mf_window f, mf_resolution f, if mf_tools f then Some ''tools'' else None,
      if mf_think f then Some ''think'' else None, mf_precision f] ! i"

lemma flag_tokens_slots: "flag_tokens f = List.map_filter (slot_of f) [0..<6]"
  by (simp add: flag_tokens_def slot_of_def List.map_filter_def upt_rec [of 0 6] upt_conv_Cons)

lemma parse_model_flag_slot: "parse_model_flag token = Inr slot \<Longrightarrow> slot < 6"
  by (auto simp: parse_model_flag_def Let_def result_simps split: if_splits)

lemma parse_model_flag_fixed:
  "parse_model_flag token = Inr 3 \<Longrightarrow> token = ''tools''" "parse_model_flag token = Inr 4 \<Longrightarrow> token = ''think''"
  by (auto simp: parse_model_flag_def Let_def result_simps split: if_splits)

lemma slot_of_set_flag:
  assumes "parse_model_flag token = Inr slot" and "i < 6"
  shows "slot_of (set_flag slot token f) i = (if i = slot then Some token else slot_of f i)"
proof -
  have "slot \<in> {0, 1, 2, 3, 4, 5}" "i \<in> {0, 1, 2, 3, 4, 5}" using parse_model_flag_slot [OF assms(1)] assms(2) by auto
  then show ?thesis
    using parse_model_flag_fixed [of token] assms(1) by (auto simp: slot_of_def set_flag_def)
qed

text \<open>Flags are read upwards, so the tokens come out in the order they were read.\<close>

lemma map_filter_extend:
  assumes "slot < n" and "\<And>i. slot \<le> i \<Longrightarrow> i < n \<Longrightarrow> f i = None"
    and "\<And>i. i < n \<Longrightarrow> g i = (if i = slot then Some x else f i)"
  shows "List.map_filter g [0..<n] = List.map_filter f [0..<n] @ [x]"
proof -
  have split: "[0..<n] = [0..<slot] @ slot # [Suc slot..<n]"
    using assms(1) by (metis le0 less_imp_le_nat upt_add_eq_append upt_conv_Cons le_add_diff_inverse)
  have "List.map_filter g [0..<slot] = List.map_filter f [0..<slot]"
    using assms(1,3) by (auto simp: List.map_filter_def intro!: arg_cong [where f = "map the"] filter_cong map_cong)
  moreover have "List.map_filter h [Suc slot..<n] = []" if "\<And>i. slot < i \<Longrightarrow> i < n \<Longrightarrow> h i = None" for h :: "nat \<Rightarrow> 'a option"
    using that by (auto simp: List.map_filter_def filter_empty_conv)
  ultimately show ?thesis
    using assms unfolding split by (simp add: List.map_filter_def)
qed

lemma read_flags_tokens:
  assumes "read_flags tokens seen last_slot f = Inr g"
    and "\<And>i. i < 6 \<Longrightarrow> slot_of f i \<noteq> None \<longleftrightarrow> i \<in> set seen"
    and "\<And>i. i \<in> set seen \<Longrightarrow> \<exists>l. last_slot = Some l \<and> i \<le> l"
  shows "flag_tokens g = flag_tokens f @ tokens"
  using assms
proof (induction tokens seen last_slot f rule: read_flags.induct)
  case (2 token tokens seen last_slot f)
  from 2(2) obtain slot where slot: "parse_model_flag token = Inr slot" "slot \<notin> set seen"
    "\<not> (case last_slot of Some l \<Rightarrow> slot < l | None \<Rightarrow> False)"
    "read_flags tokens (slot # seen) (Some slot) (set_flag slot token f) = Inr g"
    by (auto simp: result_simps)
  have above: "i < slot" if "i \<in> set seen" for i
    using 2(4) [OF that] slot(2,3) that by (auto split: option.splits) (metis linorder_neqE_nat order.strict_trans2)
  have "slot_of f i = None" if "slot \<le> i" "i < 6" for i
    using 2(3) [OF that(2)] above that(1) by (meson leD option.exhaust option.distinct(1))
  then have "flag_tokens (set_flag slot token f) = flag_tokens f @ [token]"
    unfolding flag_tokens_slots
    by (intro map_filter_extend [OF parse_model_flag_slot [OF slot(1)]] slot_of_set_flag [OF slot(1)])
  moreover have "flag_tokens g = flag_tokens (set_flag slot token f) @ tokens"
  proof (rule 2(1) [OF slot(4)])
    show "slot_of (set_flag slot token f) i \<noteq> None \<longleftrightarrow> i \<in> set (slot # seen)" if "i < 6" for i
      using 2(3) [OF that] slot_of_set_flag [OF slot(1) that, of f] by simp
    show "\<exists>l. Some slot = Some l \<and> i \<le> l" if "i \<in> set (slot # seen)" for i
      using that above by (auto simp: less_imp_le)
  qed
  ultimately show ?case by simp
qed simp

lemma parse_renders:
  assumes "parse_canonical_model_id name = Inr m"
  shows "render_model_id m = name"
proof -
  obtain p q v tokens flags where parts: "split_on ''--'' name = p # q # v # tokens"
    and flags: "read_flags tokens [] None no_flags = Inr flags"
    and m: "m = \<lparr>mi_producer = p, mi_model = q, mi_version = v, mi_flags = flags\<rparr>"
    using assms by (auto simp: parse_canonical_model_id_def result_simps split: list.splits)
  have "slot_of no_flags i = None" if "i < 6" for i
  proof -
    have "i \<in> {0, 1, 2, 3, 4, 5}" using that by auto
    then show ?thesis by (auto simp: slot_of_def no_flags_def)
  qed
  then have "flag_tokens flags = flag_tokens no_flags @ tokens"
    by (intro read_flags_tokens [OF flags]) auto
  then have "flag_tokens flags = tokens" by (simp add: flag_tokens_def no_flags_def List.map_filter_def)
  then show ?thesis using join_split_on [of "''--''" name] parts m by (simp add: render_model_id_def)
qed

text \<open>Conversely every id put together from proper parts parses back to them.\<close>

definition proper_part :: "string \<Rightarrow> bool" where
  "proper_part p \<longleftrightarrow> str_trim p \<noteq> [] \<and> split_once ''--'' (p @ ''-'') = None"

definition proper_flags :: "CanonicalModelFlags \<Rightarrow> bool" where
  "proper_flags f \<longleftrightarrow> (\<forall>i < 6. \<forall>t. slot_of f i = Some t \<longrightarrow> parse_model_flag t = Inr i)"

lemma split_once_at: "split_once ''--'' (p @ ''-'') = None \<Longrightarrow> split_once ''--'' (p @ ''--'' @ r) = Some (p, r)"
proof (induction p)
  case Nil
  then show ?case by (subst split_once.simps) (simp add: strip_prefix_def)
next
  case (Cons c p)
  have none: "strip_prefix ''--'' (c # p @ ''-'') = None" "split_once ''--'' (p @ ''-'') = None"
    using Cons.prems by (subst (asm) split_once.simps, auto split: option.splits)+
  then have "strip_prefix ''--'' (c # p @ ''--'' @ r) = None"
    by (cases p) (auto simp: strip_prefix_def split: if_splits)
  then show ?case using Cons.IH [OF none(2)] by (subst split_once.simps) simp
qed

lemma split_once_shorter: "split_once ''--'' (p @ q) = None \<Longrightarrow> split_once ''--'' p = None"
proof (induction p)
  case Nil
  then show ?case by (subst split_once.simps) (simp add: strip_prefix_def)
next
  case (Cons c p)
  have none: "strip_prefix ''--'' (c # p @ q) = None" "split_once ''--'' (p @ q) = None"
    using Cons.prems by (subst (asm) split_once.simps, auto split: option.splits)+
  then have "strip_prefix ''--'' (c # p) = None" by (auto simp: strip_prefix_def split: if_splits)
  then show ?case using Cons.IH [OF none(2)] by (subst split_once.simps) simp
qed

lemma split_on_join:
  assumes "ps \<noteq> []" and "\<And>p. p \<in> set ps \<Longrightarrow> split_once ''--'' (p @ ''-'') = None"
  shows "split_on ''--'' (join_with ''--'' ps) = ps"
  using assms
proof (induction ps rule: induct_list012)
  case (2 p)
  then show ?case using split_once_shorter [of p "''-''"] by (subst split_on.simps) simp
next
  case (3 p q ps)
  have "split_once ''--'' (join_with ''--'' (p # q # ps)) = Some (p, join_with ''--'' (q # ps))"
    using split_once_at [of p "join_with ''--'' (q # ps)"] 3(4) by simp
  then show ?case using 3(2,4) by (subst split_on.simps) simp
qed simp

lemma flag_token_part: "parse_model_flag t = Inr i \<Longrightarrow> split_once ''--'' (t @ ''-'') = None"
proof -
  assume parse: "parse_model_flag t = Inr i"
  have no_dash: "split_once ''--'' (u @ ''-'') = None" if "CHR ''-'' \<notin> set u" for u
    using that
  proof (induction u)
    case Nil
    show ?case by (subst split_once.simps, subst split_once.simps) (simp add: strip_prefix_def)
  next
    case (Cons c u)
    then show ?case by (subst split_once.simps) (auto simp: strip_prefix_def)
  qed
  have "CHR ''-'' \<notin> set t"
  proof (cases "starts_with ''w'' t")
    case True
    then obtain u where t: "t = ''w'' @ u" by (auto simp: starts_with_iff)
    have "strip_prefix ''w'' t = Some u" by (simp add: t strip_prefix_def)
    then have digits: "window_digits t = (case strip_suffix ''k'' u of Some d \<Rightarrow> d | None \<Rightarrow> [])"
      by (simp add: window_digits_def)
    have nonempty: "window_digits t \<noteq> []" and all: "list_all is_ascii_digit (window_digits t)"
      using parse t by (auto simp: parse_model_flag_def Let_def result_simps starts_with_iff split: if_splits)
    obtain d where d: "strip_suffix ''k'' u = Some d"
      using nonempty digits by (cases "strip_suffix ''k'' u") auto
    have "u = d @ ''k''" by (rule strip_suffix_SomeD [OF d])
    moreover have "list_all is_ascii_digit d" using all digits d by simp
    ultimately have "u = d @ ''k''" "list_all is_ascii_digit d" .
    then show ?thesis using t by (auto simp: list_all_iff is_ascii_digit_def)
  next
    case False
    then have "t \<in> set [''sec'', ''min'', ''img'', ''frame'', ''480p'', ''720p'', ''1080p'', ''2160p'', ''tools'', ''think'',
        ''fp32'', ''bf16'', ''fp16'', ''fp8'', ''int8'', ''int4'']"
      using parse unfolding parse_model_flag_def by (simp split: if_split_asm) (elim disjE; simp)+
    then show ?thesis by (simp only: list.set insert_iff empty_iff) (elim disjE; simp)
  qed
  then show ?thesis by (rule no_dash)
qed

lemma flags_ext: "(\<And>i. i < 6 \<Longrightarrow> slot_of f i = slot_of g i) \<Longrightarrow> f = g"
proof -
  assume eq: "\<And>i. i < 6 \<Longrightarrow> slot_of f i = slot_of g i"
  show ?thesis
    using eq [of 0] eq [of 1] eq [of 2] eq [of 3] eq [of 4] eq [of 5]
    by (cases f, cases g) (auto simp: slot_of_def split: if_splits)
qed

lemma read_back_flags:
  assumes "proper_flags f" and "k \<le> 6"
    and "\<And>i. i < 6 \<Longrightarrow> slot_of g i = (if i < k then slot_of f i else None)"
    and "\<And>i. i \<in> set seen \<Longrightarrow> i < k" and "\<And>l. last_slot = Some l \<Longrightarrow> l < k"
  shows "read_flags (List.map_filter (slot_of f) [k..<6]) seen last_slot g = Inr f"
  using assms(2-)
proof (induction "6 - k" arbitrary: k g seen last_slot)
  case 0
  then have "g = f" by (intro flags_ext) auto
  then show ?case using 0 by (simp add: List.map_filter_def)
next
  case (Suc n)
  then have k: "k < 6" by simp
  then have list: "[k..<6] = k # [Suc k..<6]" by (rule upt_conv_Cons)
  show ?case
  proof (cases "slot_of f k")
    case None
    have "read_flags (List.map_filter (slot_of f) [Suc k..<6]) seen last_slot g = Inr f"
      using Suc k None by (intro Suc(1)) (auto simp: less_Suc_eq)
    then show ?thesis using None list by (simp add: List.map_filter_simps)
  next
    case (Some t)
    have t: "parse_model_flag t = Inr k" using assms(1) k Some by (simp add: proper_flags_def)
    have "k \<notin> set seen" "\<not> (case last_slot of Some l \<Rightarrow> k < l | None \<Rightarrow> False)"
      using Suc(5) [of k] Suc(6) by (auto split: option.splits)
    moreover have "read_flags (List.map_filter (slot_of f) [Suc k..<6]) (k # seen) (Some k) (set_flag k t g) = Inr f"
      using Suc k Some slot_of_set_flag [OF t] by (intro Suc(1)) (auto simp: less_Suc_eq)
    ultimately show ?thesis using Some list t by (simp add: List.map_filter_simps)
  qed
qed

lemma render_parses:
  assumes "proper_part (mi_producer m)" and "proper_part (mi_model m)" and "proper_part (mi_version m)"
    and "proper_flags (mi_flags m)" and "length (render_model_id m) \<le> 127"
  shows "parse_canonical_model_id (render_model_id m) = Inr m"
proof -
  let ?ps = "[mi_producer m, mi_model m, mi_version m] @ flag_tokens (mi_flags m)"
  have "split_once ''--'' (t @ ''-'') = None" if "t \<in> set (flag_tokens (mi_flags m))" for t
    using that assms(4) flag_token_part
    by (fastforce simp: flag_tokens_slots List.map_filter_def proper_flags_def)
  then have "split_on ''--'' (render_model_id m) = ?ps"
    unfolding render_model_id_def using assms(1-3) by (intro split_on_join) (auto simp: proper_part_def)
  moreover have "read_flags (flag_tokens (mi_flags m)) [] None no_flags = Inr (mi_flags m)"
  proof -
    have "slot_of no_flags i = None" if "i < 6" for i
    proof -
      have "i \<in> {0, 1, 2, 3, 4, 5}" using that by auto
      then show ?thesis by (auto simp: slot_of_def no_flags_def)
    qed
    then show ?thesis unfolding flag_tokens_slots by (intro read_back_flags assms(4)) auto
  qed
  ultimately show ?thesis
    using assms by (simp add: parse_canonical_model_id_def proper_part_def)
qed

text \<open>
  C39: The grammar of canonical model ids is injective. What an id parses to determines the id: written back
  from its parts it is the raw id, byte for byte, so two ids with the same parts are the same id, and
  hashing the raw bytes names exactly one model. Every id put together from proper parts and flags, and
  short enough for the contract, parses back to them.
\<close>

theorem model_id_round_trip:
  "(parse_canonical_model_id name = Inr m \<longrightarrow> render_model_id m = name \<and> length name \<le> 127)
    \<and> (proper_part (mi_producer m) \<and> proper_part (mi_model m) \<and> proper_part (mi_version m) \<and> proper_flags (mi_flags m)
        \<and> length (render_model_id m) \<le> 127 \<longrightarrow> parse_canonical_model_id (render_model_id m) = Inr m)"
  using parse_renders render_parses by (auto simp: parse_canonical_model_id_def result_simps)

definition sample_model :: CanonicalModelId where
  "sample_model = \<lparr> mi_producer = ''qwen'', mi_model = ''qwen3'', mi_version = ''32b'',
     mi_flags = no_flags\<lparr>mf_tools := True, mf_precision := Some ''fp8''\<rparr> \<rparr>"

theorem model_id_round_trip_witness:
  "parse_canonical_model_id ''qwen--qwen3--32b--tools--fp8'' = Inr sample_model
    \<and> render_model_id sample_model = ''qwen--qwen3--32b--tools--fp8''"
proof -
  have "split_on ''--'' ''qwen--qwen3--32b--tools--fp8'' = [''qwen'', ''qwen3'', ''32b'', ''tools'', ''fp8'']"
    by code_simp
  moreover have "str_trim ''qwen'' = ''qwen''" "str_trim ''qwen3'' = ''qwen3''" "str_trim ''32b'' = ''32b''"
    by (simp_all add: str_trim_visible between_def)
  moreover have "read_flags [''tools'', ''fp8''] [] None no_flags = Inr (mi_flags sample_model)"
    by (simp add: parse_model_flag_def set_flag_def sample_model_def)
  ultimately have "parse_canonical_model_id ''qwen--qwen3--32b--tools--fp8'' = Inr sample_model"
    by (simp add: parse_canonical_model_id_def) (simp add: sample_model_def)
  then show ?thesis
    using model_id_round_trip [of "''qwen--qwen3--32b--tools--fp8''" sample_model] by simp
qed

end
