(* ===== verification/OpenAi.thy ===== *)
theory OpenAi
  imports ModelNames Relay
begin

text \<open>
  The seller's adapter to an OpenAI-compatible provider, \<open>src/crates/dexdo/src/seller/upstream/openai.rs\<close>:
  the request it builds, the server-sent events it reads, what a frame says, and the redaction of what a
  provider says about an error. Text is UTF-8 bytes. The JSON reader is a parameter that answers nothing
  where the text is no JSON; a number that is no integer is outside the model. Statuses are the values of
  \<open>upstream_fault\<close>; \<open>Explained\<close> is a status to which the provider's own words were appended.
\<close>

datatype upstream_fault =
    FrameNotUtf8 | FrameBeyondCap | MalformedFrame | UsageNotObject | NotATokenCount | UsageTotalsDisagree
  | ReasoningDetailsNotObject | NotAReasoningCount | ReasoningTotalsDisagree | ContradictoryReasoning
  | CapabilityMissing "string list" | ModelMismatch string "string option" | UsageOnOutput | UsageBeyondLimit
  | ContradictoryUsage | OutputAfterUsage | UsageWithoutDelivery | NoPositiveUsage | AnsweredWithoutFraming
  | UnfinishedFrame | EndedWithoutDone | ReadFailed | NoOutputInCycle | ConnectFailed | HttpStatus nat
  | HttpBodyOmitted nat | HttpBodyUnreadable nat | HttpDetail nat string | SellerConfigFault upstream_fault
  | Explained upstream_fault string | NoOutputCap | NoKey | NoRequest

section \<open>Constants\<close>

definition UPSTREAM_ERROR_BODY_MAX_BYTES :: nat where "UPSTREAM_ERROR_BODY_MAX_BYTES = 4096"
definition UPSTREAM_ERROR_DETAIL_MAX_BYTES :: nat where "UPSTREAM_ERROR_DETAIL_MAX_BYTES = 1024"
definition UPSTREAM_ERROR_ECHO_PREFIX_CHARS :: nat where "UPSTREAM_ERROR_ECHO_PREFIX_CHARS = 32"
definition UPSTREAM_SSE_FRAME_MAX_BYTES :: nat where "UPSTREAM_SSE_FRAME_MAX_BYTES = 1048576"
definition CAPABILITY_TOOL_NAME :: string where "CAPABILITY_TOOL_NAME = ''dexdo_capability_probe''"

section \<open>The request\<close>

record OpenAiConfig =
  oa_base_url :: string
  oa_model :: string
  oa_frame_model :: string
  oa_claimed_override :: "string option"
  oa_tokenizer_family :: string
  oa_max_output_tokens :: "u32 option"
  oa_identity_aliases :: "string list"

record ChatMessage =
  cm_role :: string
  cm_content :: string

text \<open>The temperature is a float of which only being zero is asked: its type is a parameter.\<close>

record 't SamplingParams =
  sp_temperature :: 't
  sp_max_tokens :: u32
  sp_stop :: "string list"
  sp_greedy :: bool

record 't CanonRequest =
  rq_messages :: "ChatMessage list"
  rq_params :: "'t SamplingParams option"

record StartupCapabilityRequirements =
  cap_tools :: bool
  cap_think :: bool

definition from_market :: "string \<Rightarrow> StartupCapabilityRequirements option" where
  "from_market market =
    (case parse_canonical_model_id market of
       Inl _ \<Rightarrow> None
     | Inr m \<Rightarrow> let r = \<lparr> cap_tools = mf_tools (mi_flags m), cap_think = mf_think (mi_flags m) \<rparr> in
               if cap_tools r \<or> cap_think r then Some r else None)"

text \<open>
  The body that is posted. \<open>stream\<close> and \<open>include_usage\<close> are always set; \<open>rb_reasoning\<close> asks for reasoning that
  is not excluded, \<open>rb_tool\<close> offers and forces the capability tool.
\<close>

record 't ChatRequest =
  rb_model :: string
  rb_messages :: "ChatMessage list"
  rb_temperature :: "'t option"
  rb_max_tokens :: u32
  rb_stop :: "string list"
  rb_seed :: "u32 option"
  rb_reasoning :: bool
  rb_tool :: bool

definition openrouter_qwen_reasoning :: "OpenAiConfig \<Rightarrow> bool" where
  "openrouter_qwen_reasoning cfg \<longleftrightarrow>
    str_contains ''openrouter.ai'' (to_ascii_lowercase (oa_base_url cfg))
    \<and> to_ascii_lowercase (oa_model cfg) = to_ascii_lowercase ''qwen/qwen3-32b''"

definition build_request_with_startup_capabilities ::
  "OpenAiConfig \<Rightarrow> 't::zero CanonRequest \<Rightarrow> u64 \<Rightarrow> u32 \<Rightarrow> StartupCapabilityRequirements option \<Rightarrow> 't ChatRequest" where
  "build_request_with_startup_capabilities cfg req count model_output_cap requirements =
    (let (temperature, requested, stop, seed) =
       (case rq_params req of
          Some p \<Rightarrow>
            (if sp_greedy p then Some 0 else if sp_temperature p \<noteq> 0 then Some (sp_temperature p) else None,
             if sp_max_tokens p \<noteq> 0 then Some (sp_max_tokens p) else None,
             sp_stop p,
             if sp_greedy p then Some 0 else None)
        | None \<Rightarrow> (None, None, [], None));
       deal_max_tokens = (case try_from U32_MAX count of Some n \<Rightarrow> n | None \<Rightarrow> U32_MAX);
       probe_tools = (case requirements of Some r \<Rightarrow> cap_tools r | None \<Rightarrow> False);
       probe_thinking = (case requirements of Some r \<Rightarrow> cap_think r | None \<Rightarrow> False)
     in \<lparr> rb_model = oa_model cfg, rb_messages = rq_messages req, rb_temperature = temperature,
          rb_max_tokens =
            max (min (min (case requested of Some n \<Rightarrow> n | None \<Rightarrow> U32_MAX) deal_max_tokens) model_output_cap) 1,
          rb_stop = stop, rb_seed = seed, rb_reasoning = (probe_thinking \<or> openrouter_qwen_reasoning cfg),
          rb_tool = probe_tools \<rparr>)"

definition resolve_model_output_cap :: "u32 option \<Rightarrow> upstream_fault + u32" where
  "resolve_model_output_cap declared =
    (case declared of Some cap \<Rightarrow> if 0 < cap then Inr cap else Inl NoOutputCap | None \<Rightarrow> Inl NoOutputCap)"

definition is_seller_config_http_status :: "nat \<Rightarrow> bool" where
  "is_seller_config_http_status code \<longleftrightarrow> 400 \<le> code \<and> code < 500 \<and> code \<notin> {401, 403, 408, 429}"

definition annotate_seller_config_fault :: "upstream_fault \<Rightarrow> nat \<Rightarrow> upstream_fault" where
  "annotate_seller_config_fault status http_status =
    (if is_seller_config_http_status http_status then SellerConfigFault status else status)"

section \<open>Frames\<close>

text \<open>\<open>drain_complete_events\<close>: the complete frames in front of the buffer, and what stays behind them.\<close>

definition blank_line :: string where "blank_line = [CHR 0x0A, CHR 0x0A]"

function drain_frames :: "string \<Rightarrow> (upstream_fault + string list) \<times> string" where
  "drain_frames buf =
    (case split_once blank_line buf of
       None \<Rightarrow> (Inr [], buf)
     | Some (frame, rest) \<Rightarrow>
         if \<not> valid_utf8 frame then (Inl FrameNotUtf8, rest)
         else (case drain_frames rest of
                 (Inl e, left) \<Rightarrow> (Inl e, left) | (Inr events, left) \<Rightarrow> (Inr (frame # events), left)))"
  by pat_completeness auto
termination
  by (relation "measure length") (auto dest!: split_once_parts simp: blank_line_def)

declare drain_frames.simps [simp del]

definition drain_complete_events :: "string \<Rightarrow> (upstream_fault + string list) \<times> string" where
  "drain_complete_events buf =
    (case drain_frames buf of
       (Inl e, left) \<Rightarrow> (Inl e, left)
     | (Inr events, left) \<Rightarrow>
         (if UPSTREAM_SSE_FRAME_MAX_BYTES < length left then Inl FrameBeyondCap else Inr events, left))"

text \<open>The data of a frame, and whether a line of it names the event an error.\<close>

definition frame_data :: "string \<Rightarrow> string" where
  "frame_data event =
    concat (map (\<lambda>line. case strip_prefix ''data:'' line of Some rest \<Rightarrow> trim_start rest | None \<Rightarrow> []) (str_lines event))"

definition frame_named_error :: "string \<Rightarrow> bool" where
  "frame_named_error event \<longleftrightarrow>
    list_ex (\<lambda>line. case strip_prefix ''event:'' line of Some rest \<Rightarrow> str_trim rest = ''error'' | None \<Rightarrow> False)
      (str_lines event)"

section \<open>Usage\<close>

definition native_output_total :: "json option \<Rightarrow> upstream_fault + u64 option" where
  "native_output_total container =
    (case container of
       None \<Rightarrow> Inr None
     | Some JNull \<Rightarrow> Inr None
     | Some (JObj obj) \<Rightarrow>
         (case hget obj ''completion_tokens'' of
            None \<Rightarrow> Inr None
          | Some JNull \<Rightarrow> Inr None
          | Some v \<Rightarrow> ok_or_else (as_u64 v) NotATokenCount (\<lambda>n. Inr (Some n)))
     | Some _ \<Rightarrow> Inl UsageNotObject)"

definition groq_usage :: "json \<Rightarrow> json option" where
  "groq_usage v = Option.bind (json_get v ''x_groq'') (\<lambda>groq. json_get groq ''usage'')"

definition agreed :: "upstream_fault \<Rightarrow> u64 option \<Rightarrow> u64 option \<Rightarrow> upstream_fault + u64 option" where
  "agreed disagree standard groq =
    (case (standard, groq) of
       (Some s, Some g) \<Rightarrow> if s \<noteq> g then Inl disagree else Inr (Some s)
     | (Some s, None) \<Rightarrow> Inr (Some s)
     | (None, g) \<Rightarrow> Inr g)"

definition frame_native_usage :: "json \<Rightarrow> upstream_fault + u64 option" where
  "frame_native_usage v =
    bindR (native_output_total (json_get v ''usage'')) (\<lambda>standard.
    bindR (native_output_total (groq_usage v)) (\<lambda>groq.
    agreed UsageTotalsDisagree standard groq))"

definition reasoning_output_total :: "json option \<Rightarrow> upstream_fault + u64 option" where
  "reasoning_output_total container =
    (case container of
       None \<Rightarrow> Inr None
     | Some JNull \<Rightarrow> Inr None
     | Some (JObj obj) \<Rightarrow>
         (case hget obj ''completion_tokens_details'' of
            None \<Rightarrow> Inr None
          | Some JNull \<Rightarrow> Inr None
          | Some (JObj details) \<Rightarrow>
              (case hget details ''reasoning_tokens'' of
                 None \<Rightarrow> Inr None
               | Some JNull \<Rightarrow> Inr None
               | Some v \<Rightarrow> ok_or_else (as_u64 v) NotAReasoningCount (\<lambda>n. Inr (Some n)))
          | Some _ \<Rightarrow> Inl ReasoningDetailsNotObject)
     | Some _ \<Rightarrow> Inl UsageNotObject)"

definition frame_reasoning_usage :: "json \<Rightarrow> upstream_fault + u64 option" where
  "frame_reasoning_usage v =
    bindR (reasoning_output_total (json_get v ''usage'')) (\<lambda>standard.
    bindR (reasoning_output_total (groq_usage v)) (\<lambda>groq.
    agreed ReasoningTotalsDisagree standard groq))"

section \<open>What a frame says\<close>

definition frame_served_model :: "json \<Rightarrow> string option" where
  "frame_served_model v =
    Option.bind (json_get v ''model'') (\<lambda>m. Option.bind (as_str m) (\<lambda>s.
    let reported = str_trim s in if reported = [] then None else Some reported))"

definition stated_error :: "json \<Rightarrow> json option" where
  "stated_error v = (case json_get v ''error'' of Some e \<Rightarrow> if e = JNull then None else Some e | None \<Rightarrow> None)"

definition json_error_detail :: "json \<Rightarrow> string option" where
  "json_error_detail v =
    (let err = (case stated_error v of Some e \<Rightarrow> e | None \<Rightarrow> v) in
     case as_str err of
       Some detail \<Rightarrow> Some detail
     | None \<Rightarrow> first_some (\<lambda>name. Option.bind (json_get err name) as_str) [''message'', ''detail'', ''code'', ''type''])"

text \<open>
  The derived \<open>Deserialize\<close>: the named members of an object or the elements of an array by position, the
  default for what is missing, a failure for anything else and for an array that is too long.
\<close>

definition struct_members :: "string list \<Rightarrow> json \<Rightarrow> json option list option" where
  "struct_members names v =
    (case v of
       JObj obj \<Rightarrow> Some (map (hget obj) names)
     | JArr xs \<Rightarrow>
         if length xs \<le> length names
         then Some (map Some xs @ replicate (length names - length xs) None) else None
     | _ \<Rightarrow> None)"

definition defaulted :: "'a \<Rightarrow> (json \<Rightarrow> 'a option) \<Rightarrow> json option \<Rightarrow> 'a option" where
  "defaulted d decode member = (case member of None \<Rightarrow> Some d | Some v \<Rightarrow> decode v)"

definition decode_option :: "(json \<Rightarrow> 'a option) \<Rightarrow> json \<Rightarrow> 'a option option" where
  "decode_option decode v = (if v = JNull then Some None else map_option Some (decode v))"

definition decode_vec :: "(json \<Rightarrow> 'a option) \<Rightarrow> json \<Rightarrow> 'a list option" where
  "decode_vec decode v = Option.bind (as_array v) (\<lambda>xs. those (map decode xs))"

record ReasoningDetailWire =
  rd_text :: "string option"
  rd_summary :: "string option"

record Delta =
  dl_content :: "string option"
  dl_reasoning :: "string option"
  dl_reasoning_content :: "string option"
  dl_reasoning_details :: "ReasoningDetailWire list option"

definition decode_reasoning_detail :: "json \<Rightarrow> ReasoningDetailWire option" where
  "decode_reasoning_detail v =
    (case struct_members [''text'', ''summary''] v of
       Some [text, summary] \<Rightarrow>
         Option.bind (defaulted None (decode_option as_str) text) (\<lambda>t.
         Option.bind (defaulted None (decode_option as_str) summary) (\<lambda>s.
         Some \<lparr> rd_text = t, rd_summary = s \<rparr>))
     | _ \<Rightarrow> None)"

definition empty_delta :: Delta where
  "empty_delta = \<lparr> dl_content = None, dl_reasoning = None, dl_reasoning_content = None, dl_reasoning_details = None \<rparr>"

definition decode_delta :: "json \<Rightarrow> Delta option" where
  "decode_delta v =
    (case struct_members [''content'', ''reasoning'', ''reasoning_content'', ''reasoning_details''] v of
       Some [content, reasoning, reasoning_content, details] \<Rightarrow>
         Option.bind (defaulted None (decode_option as_str) content) (\<lambda>c.
         Option.bind (defaulted None (decode_option as_str) reasoning) (\<lambda>r.
         Option.bind (defaulted None (decode_option as_str) reasoning_content) (\<lambda>rc.
         Option.bind (defaulted None (decode_option (decode_vec decode_reasoning_detail)) details) (\<lambda>ds.
         Some \<lparr> dl_content = c, dl_reasoning = r, dl_reasoning_content = rc, dl_reasoning_details = ds \<rparr>))))
     | _ \<Rightarrow> None)"

definition decode_choice :: "json \<Rightarrow> Delta option" where
  "decode_choice v =
    (case struct_members [''delta''] v of Some [delta] \<Rightarrow> defaulted empty_delta decode_delta delta | _ \<Rightarrow> None)"

definition decode_stream_chunk :: "json \<Rightarrow> Delta list option" where
  "decode_stream_chunk v =
    (case struct_members [''choices''] v of
       Some [choices] \<Rightarrow> defaulted [] (decode_vec decode_choice) choices | _ \<Rightarrow> None)"

definition nonblank_parts :: "string option list \<Rightarrow> string list" where
  "nonblank_parts values = filter (\<lambda>s. str_trim s \<noteq> []) (List.map_filter (\<lambda>x. x) values)"

definition collect_reasoning :: "string option \<Rightarrow> string option \<Rightarrow> ReasoningDetailWire list option \<Rightarrow> string" where
  "collect_reasoning reasoning reasoning_content details =
    join_with [CHR 0x0A]
      (nonblank_parts [reasoning, reasoning_content]
       @ concat (map (\<lambda>d. nonblank_parts [rd_text d, rd_summary d]) (case details of Some ds \<Rightarrow> ds | None \<Rightarrow> [])))"

datatype ParsedEvent =
    Done
  | Frame (pe_text: string) (pe_reasoning: string) (pe_usage: "u64 option") (pe_model: "string option")
  | ProviderError string
  | Other

definition bare_usage :: "u64 option \<Rightarrow> string option \<Rightarrow> ParsedEvent" where
  "bare_usage usage model = (case usage of Some n \<Rightarrow> Frame [] [] (Some n) model | None \<Rightarrow> Other)"

definition unwrap_text :: "string option \<Rightarrow> string" where
  "unwrap_text s = (case s of Some t \<Rightarrow> t | None \<Rightarrow> [])"

definition parse_event :: "(string \<Rightarrow> json option) \<Rightarrow> string \<Rightarrow> upstream_fault + ParsedEvent" where
  "parse_event json event =
    (let data = frame_data event in
     if data = [] then Inr Other
     else if data = ''[DONE]'' then Inr Done
     else
       ok_or_else (json data) MalformedFrame (\<lambda>v.
       bindR (frame_native_usage v) (\<lambda>usage.
       let model = frame_served_model v in
       if usage = None \<and> (frame_named_error event \<or> stated_error v \<noteq> None)
       then Inr (ProviderError (unwrap_text (json_error_detail v)))
       else
         case decode_stream_chunk v of
           Some (delta # _) \<Rightarrow>
             Inr (Frame (unwrap_text (dl_content delta))
               (collect_reasoning (dl_reasoning delta) (dl_reasoning_content delta) (dl_reasoning_details delta))
               usage model)
         | _ \<Rightarrow> Inr (bare_usage usage model))))"

definition offered_model_aliases :: "OpenAiConfig \<Rightarrow> string option \<Rightarrow> string list" where
  "offered_model_aliases cfg market =
    (case market of
       Some m \<Rightarrow> [model_id_alias m]
     | None \<Rightarrow> [model_id_alias (oa_model cfg), model_id_alias (oa_frame_model cfg)])
    @ map model_id_alias (oa_identity_aliases cfg)"

section \<open>The startup capability probe\<close>

record StartupCapabilityObservation =
  so_content :: bool
  so_reasoning :: bool
  so_tool_call :: bool
  so_reasoning_tokens :: "u64 option"

definition nothing_observed :: StartupCapabilityObservation where
  "nothing_observed = \<lparr> so_content = False, so_reasoning = False, so_tool_call = False, so_reasoning_tokens = None \<rparr>"

definition observe_reasoning_tokens ::
  "u64 option \<Rightarrow> StartupCapabilityObservation \<Rightarrow> upstream_fault + StartupCapabilityObservation" where
  "observe_reasoning_tokens reported obs =
    (case reported of
       None \<Rightarrow> Inr obs
     | Some n \<Rightarrow>
         if (case so_reasoning_tokens obs of Some earlier \<Rightarrow> earlier \<noteq> n | None \<Rightarrow> False)
         then Inl ContradictoryReasoning else Inr (obs\<lparr>so_reasoning_tokens := Some n\<rparr>))"

definition validate_observation ::
  "StartupCapabilityRequirements \<Rightarrow> StartupCapabilityObservation \<Rightarrow> upstream_fault + unit" where
  "validate_observation requirements obs =
    (let tools_missing = (cap_tools requirements \<and> \<not> so_tool_call obs);
         reasoning_missing = (cap_think requirements \<and> \<not> so_reasoning obs);
         usage_missing = (cap_think requirements
           \<and> (case so_reasoning_tokens obs of Some n \<Rightarrow> n | None \<Rightarrow> 0) = 0) in
     if \<not> tools_missing \<and> \<not> reasoning_missing \<and> \<not> usage_missing then Inr ()
     else Inl (CapabilityMissing
       ((if tools_missing then [''tool call''] else []) @ (if reasoning_missing then [''reasoning content''] else [])
        @ (if usage_missing then [''positive reasoning-token usage''] else []))))"

definition names_capability_function :: "json \<Rightarrow> bool" where
  "names_capability_function f \<longleftrightarrow> Option.bind (json_get f ''name'') as_str = Some CAPABILITY_TOOL_NAME"

definition names_capability_tool :: "json \<Rightarrow> bool" where
  "names_capability_tool call \<longleftrightarrow>
    (case json_get call ''function'' of Some f \<Rightarrow> names_capability_function f | None \<Rightarrow> False)"

definition frame_has_tool_call :: "json \<Rightarrow> bool" where
  "frame_has_tool_call v \<longleftrightarrow>
    (case Option.bind (json_get v ''choices'') as_array of
       None \<Rightarrow> False
     | Some choices \<Rightarrow>
         list_ex (\<lambda>choice. list_ex (\<lambda>name.
           case json_get choice name of
             None \<Rightarrow> False
           | Some container \<Rightarrow>
               (case Option.bind (json_get container ''tool_calls'') as_array of
                  Some calls \<Rightarrow> list_ex names_capability_tool calls | None \<Rightarrow> False)
               \<or> (case json_get container ''function_call'' of
                    Some f \<Rightarrow> names_capability_function f | None \<Rightarrow> False))
           [''delta'', ''message'']) choices)"

record StartupCapabilityEvent =
  sc_tool_call :: bool
  sc_reasoning_tokens :: "u64 option"

definition no_capability_event :: StartupCapabilityEvent where
  "no_capability_event = \<lparr> sc_tool_call = False, sc_reasoning_tokens = None \<rparr>"

definition startup_capability_event ::
  "(string \<Rightarrow> json option) \<Rightarrow> string \<Rightarrow> StartupCapabilityRequirements \<Rightarrow> upstream_fault + StartupCapabilityEvent" where
  "startup_capability_event json event requirements =
    (let data = frame_data event in
     if data = [] \<or> data = ''[DONE]'' then Inr no_capability_event
     else
       ok_or_else (json data) MalformedFrame (\<lambda>v.
       bindR (if cap_think requirements then frame_reasoning_usage v else Inr None) (\<lambda>tokens.
       Inr \<lparr> sc_tool_call = (cap_tools requirements \<and> frame_has_tool_call v), sc_reasoning_tokens = tokens \<rparr>)))"

section \<open>The provider's words\<close>

text \<open>The characters of a text: a byte with the continuation bytes that follow it.\<close>

fun chars_of :: "string \<Rightarrow> string list" where
  "chars_of [] = []"
| "chars_of (c # s) =
    (case chars_of s of
       [] \<Rightarrow> [[c]]
     | ch # rest \<Rightarrow> if ch \<noteq> [] \<and> continuation (hd ch) then (c # ch) # rest else [c] # ch # rest)"

text \<open>\<open>char::is_control\<close>: U+0000 to U+001F and U+007F to U+009F.\<close>

definition is_control :: "string \<Rightarrow> bool" where
  "is_control ch \<longleftrightarrow>
    (case ch of
       [c] \<Rightarrow> byte c < 32 \<or> byte c = 127
     | [c, d] \<Rightarrow> byte c = 194 \<and> between 128 159 d
     | _ \<Rightarrow> False)"

text \<open>\<open>split_whitespace\<close>: the runs of characters between white space, the empty ones left out.\<close>

fun words_of :: "string list \<Rightarrow> string \<Rightarrow> string list" where
  "words_of [] word = (if word = [] then [] else [word])"
| "words_of (ch # chs) word =
    (if ch \<in> set white_space then (if word = [] then words_of chs [] else word # words_of chs [])
     else words_of chs (word @ ch))"

definition compact_text :: "string \<Rightarrow> string" where
  "compact_text text =
    join_with '' '' (words_of (map (\<lambda>ch. if is_control ch then '' '' else ch) (chars_of text)) [])"

definition echoes_request_value :: "string \<Rightarrow> string \<Rightarrow> bool" where
  "echoes_request_value detail value =
    (let value = compact_text value;
         prefix = concat (take UPSTREAM_ERROR_ECHO_PREFIX_CHARS (chars_of value)) in
     detail \<noteq> [] \<and> value \<noteq> []
     \<and> (str_contains value detail \<or> str_contains detail value \<or> (prefix \<noteq> value \<and> str_contains prefix detail)))"

definition SENSITIVE_MARKERS :: "string list" where
  "SENSITIVE_MARKERS =
    [''authorization'', ''bearer '', ''api_key'', ''api-key'', ''apikey'', ''access_token'', ''access-token'',
     ''client_secret'', ''private_key'', ''password'', ''secret'', ''gsk_'', ''sk-'']"

definition redacted_detail :: string where "redacted_detail = ''sensitive provider error detail redacted''"

definition sanitize_error_detail :: "string \<Rightarrow> string \<Rightarrow> 't CanonRequest \<Rightarrow> string" where
  "sanitize_error_detail detail key request =
    (let compact = compact_text detail; lower = to_ascii_lowercase compact;
         echoes = (list_ex (\<lambda>m. echoes_request_value compact (cm_content m)) (rq_messages request)
           \<or> (case rq_params request of
                Some p \<Rightarrow> list_ex (echoes_request_value compact) (sp_stop p) | None \<Rightarrow> False)) in
     if echoes \<or> (key \<noteq> [] \<and> str_contains key compact) \<or> list_ex (\<lambda>m. str_contains m lower) SENSITIVE_MARKERS
     then redacted_detail else compact)"

definition TRUNCATED_DETAIL_SUFFIX :: string where "TRUNCATED_DETAIL_SUFFIX = ''... [truncated]''"

definition is_char_boundary :: "string \<Rightarrow> nat \<Rightarrow> bool" where
  "is_char_boundary s i \<longleftrightarrow> i = 0 \<or> i = length s \<or> (i < length s \<and> \<not> continuation (s ! i))"

fun boundary_below :: "string \<Rightarrow> nat \<Rightarrow> nat" where
  "boundary_below s 0 = 0"
| "boundary_below s (Suc i) = (if is_char_boundary s (Suc i) then Suc i else boundary_below s i)"

definition bound_error_detail :: "string \<Rightarrow> bool \<Rightarrow> string" where
  "bound_error_detail detail body_truncated =
    (if \<not> (body_truncated \<or> UPSTREAM_ERROR_DETAIL_MAX_BYTES < length detail) then detail
     else
       (let limit = UPSTREAM_ERROR_DETAIL_MAX_BYTES - length TRUNCATED_DETAIL_SUFFIX in
        take (boundary_below detail (min (length detail) limit)) detail @ TRUNCATED_DETAIL_SUFFIX))"

definition media_type :: "string \<Rightarrow> string" where
  "media_type content_type = to_ascii_lowercase (str_trim (hd (split_on '';'' content_type)))"

definition is_text_error_body :: "string \<Rightarrow> bool" where
  "is_text_error_body content_type =
    (let m = media_type content_type in
     m = [] \<or> starts_with ''text/'' m \<or> m = ''application/json'' \<or> ends_with ''+json'' m)"

definition safe_error_detail ::
  "(string \<Rightarrow> json option) \<Rightarrow> string \<Rightarrow> string \<Rightarrow> string \<Rightarrow> 't CanonRequest \<Rightarrow> bool \<Rightarrow> string option" where
  "safe_error_detail json body content_type key request body_truncated =
    (if body = [] then None
     else if body_truncated then Some (bound_error_detail ''provider error body omitted'' True)
     else if \<not> valid_utf8 body then Some ''non-text response body omitted''
     else
       (let text = str_trim body; m = media_type content_type in
        if text = [] then None
        else if ends_with ''json'' m \<or> (m = [] \<and> (starts_with ''{'' text \<or> starts_with ''['' text)) then
          (case json text of
             None \<Rightarrow> Some ''malformed provider error body omitted''
           | Some v \<Rightarrow>
               Some (bound_error_detail (sanitize_error_detail
                 (case json_error_detail v of Some d \<Rightarrow> d | None \<Rightarrow> ''provider error body omitted'') key request)
                 body_truncated))
        else Some (bound_error_detail (sanitize_error_detail text key request) body_truncated)))"

definition unframed_provider_error :: "(string \<Rightarrow> json option) \<Rightarrow> string \<Rightarrow> string option" where
  "unframed_provider_error json body =
    (let text = str_trim body in
     if \<not> valid_utf8 body \<or> text = [] then None
     else
       Option.bind (json text) (\<lambda>v. Option.bind (stated_error v) (\<lambda>_. Some (unwrap_text (json_error_detail v)))))"

text \<open>
  \<open>upstream_http_error\<close>: the body of a refused request, read up to the cap; a read that fails is \<open>None\<close>.
\<close>

fun read_error_body :: "string option list \<Rightarrow> string \<Rightarrow> (string \<times> bool) option" where
  "read_error_body [] body = Some (body, False)"
| "read_error_body (None # reads) body = None"
| "read_error_body (Some bytes # reads) body =
    (let remaining = UPSTREAM_ERROR_BODY_MAX_BYTES - length body in
     if remaining < length bytes then Some (body @ take remaining bytes, True)
     else read_error_body reads (body @ bytes))"

definition upstream_http_error ::
  "(string \<Rightarrow> json option) \<Rightarrow> nat \<Rightarrow> string \<Rightarrow> string option list \<Rightarrow> string \<Rightarrow> 't CanonRequest \<Rightarrow> upstream_fault" where
  "upstream_http_error json code content_type reads key request =
    (if \<not> is_text_error_body content_type then HttpBodyOmitted code
     else case read_error_body reads [] of
            None \<Rightarrow> HttpBodyUnreadable code
          | Some (body, truncated) \<Rightarrow>
              (case safe_error_detail json body content_type key request truncated of
                 None \<Rightarrow> HttpStatus code | Some detail \<Rightarrow> HttpDetail code detail))"

end
