(* ===== verification/OpenAiStream.thy ===== *)
theory OpenAiStream
  imports OpenAi
begin

text \<open>
  One request of the seller to its provider, from the first attempt to the end:
  \<open>stream_response\<close>, \<open>stream_upstream_with_startup_capabilities\<close> and \<open>run_with_startup_capabilities\<close> of
  \<open>src/crates/dexdo/src/seller/upstream/openai.rs\<close>. What the sockets and the clock answer is a list, in the
  order in which the code meets it; what is sent to the gateway is recorded. Sends to a gateway that still
  listens succeed: \<open>takes\<close> says so of the n-th send.
\<close>

section \<open>One response\<close>

text \<open>The fields of \<open>CanonChunk\<close>; no provider of this kind gives token ids. The manifest is the tokenizer
  family and the model that is claimed.\<close>

record OutChunk =
  oc_text :: string
  oc_reasoning :: string
  oc_seq :: u64
  oc_manifest :: "(string \<times> string) option"

datatype Sent = SentChunk OutChunk | SentAccounted u64

record StreamEnding =
  se_retryable :: bool
  se_provider_error :: "string option"
  se_answered :: bool
  se_body :: string

definition fresh_ending :: StreamEnding where
  "fresh_ending = \<lparr> se_retryable = False, se_provider_error = None, se_answered = False, se_body = [] \<rparr>"

definition observe_body :: "string \<Rightarrow> StreamEnding \<Rightarrow> StreamEnding" where
  "observe_body bytes e =
    (let remaining = UPSTREAM_ERROR_BODY_MAX_BYTES - length (se_body e) in
     if remaining = 0 then e else e\<lparr>se_body := se_body e @ take (min (length bytes) remaining) bytes\<rparr>)"

definition transport_non_answer :: "(string \<Rightarrow> json option) \<Rightarrow> StreamEnding \<Rightarrow> StreamEnding" where
  "transport_non_answer json e =
    (if se_provider_error e \<noteq> None then e
     else case unframed_provider_error json (se_body e) of
            Some detail \<Rightarrow> e\<lparr>se_provider_error := Some detail, se_answered := True\<rparr>
          | None \<Rightarrow> e\<lparr>se_retryable := True\<rparr>)"

definition explain :: "StreamEnding \<Rightarrow> upstream_fault \<Rightarrow> string \<Rightarrow> 't CanonRequest \<Rightarrow> upstream_fault" where
  "explain e failure key request =
    (case se_provider_error e of
       None \<Rightarrow> failure
     | Some words \<Rightarrow>
         let detail = bound_error_detail (sanitize_error_detail words key request) False in
         if detail = [] then failure else Explained failure detail)"

record StreamEnv =
  ev_json :: "string \<Rightarrow> json option"
  ev_cfg :: OpenAiConfig
  ev_market :: "string option"
  ev_requirements :: "StartupCapabilityRequirements option"
  ev_count :: u64
  ev_takes :: "nat \<Rightarrow> bool"

record ResponseState =
  ss_buf :: string
  ss_seq :: u64
  ss_usage :: "u64 option"
  ss_identified :: bool
  ss_observed :: "StartupCapabilityObservation option"
  ss_ending :: StreamEnding
  ss_sent :: "Sent list"

definition stream_start :: "StreamEnv \<Rightarrow> ResponseState" where
  "stream_start env =
    \<lparr> ss_buf = [], ss_seq = 0, ss_usage = None, ss_identified = False,
      ss_observed = map_option (\<lambda>_. nothing_observed) (ev_requirements env), ss_ending = fresh_ending, ss_sent = [] \<rparr>"

text \<open>A frame lets the loop go on, breaks it at \<open>[DONE]\<close>, or returns.\<close>

datatype StreamFlow = Going | SawDone | Returned "upstream_fault + unit"

definition observe_capability ::
  "StreamEnv \<Rightarrow> string \<Rightarrow> ResponseState \<Rightarrow> upstream_fault + StartupCapabilityEvent \<times> ResponseState" where
  "observe_capability env event s =
    (case (ev_requirements env, ss_observed s) of
       (Some requirements, Some obs) \<Rightarrow>
         bindR (startup_capability_event (ev_json env) event requirements) (\<lambda>evidence.
         bindR (observe_reasoning_tokens (sc_reasoning_tokens evidence)
           (obs\<lparr>so_tool_call := so_tool_call obs \<or> sc_tool_call evidence\<rparr>)) (\<lambda>obs.
         Inr (evidence, s\<lparr>ss_observed := Some obs\<rparr>)))
     | _ \<Rightarrow> Inr (no_capability_event, s))"

definition observe_output :: "string \<Rightarrow> string \<Rightarrow> ResponseState \<Rightarrow> ResponseState" where
  "observe_output text reasoning s =
    s\<lparr>ss_observed := map_option (\<lambda>obs. obs\<lparr>so_content := so_content obs \<or> str_trim text \<noteq> [],
        so_reasoning := so_reasoning obs \<or> str_trim reasoning \<noteq> []\<rparr>) (ss_observed s)\<rparr>"

text \<open>The model that answers is judged once, and refused only before any output.\<close>

definition foreign_model :: "StreamEnv \<Rightarrow> string option \<Rightarrow> ResponseState \<Rightarrow> string option" where
  "foreign_model env model s =
    (case model of
       Some reported \<Rightarrow>
         if \<not> ss_identified s \<and> model_id_alias reported \<notin> set (offered_model_aliases (ev_cfg env) (ev_market env))
         then Some reported else None
     | None \<Rightarrow> None)"

definition identified :: "string option \<Rightarrow> ResponseState \<Rightarrow> ResponseState" where
  "identified model s = s\<lparr>ss_identified := ss_identified s \<or> model \<noteq> None\<rparr>"

definition chunk_of :: "StreamEnv \<Rightarrow> string \<Rightarrow> string \<Rightarrow> u64 \<Rightarrow> OutChunk" where
  "chunk_of env text reasoning seq =
    \<lparr> oc_text = text, oc_reasoning = reasoning, oc_seq = seq,
      oc_manifest =
        (if seq = 0 then
           Some (oa_tokenizer_family (ev_cfg env),
             case oa_claimed_override (ev_cfg env) of Some m \<Rightarrow> m | None \<Rightarrow> oa_frame_model (ev_cfg env))
         else None) \<rparr>"

definition send_event :: "StreamEnv \<Rightarrow> Sent \<Rightarrow> ResponseState \<Rightarrow> bool \<times> ResponseState" where
  "send_event env event s =
    (if ev_takes env (length (ss_sent s)) then (True, s\<lparr>ss_sent := ss_sent s @ [event]\<rparr>) else (False, s))"

text \<open>A frame that carries a total is a terminal record; any other output goes to the gateway.\<close>

definition record_usage :: "StreamEnv \<Rightarrow> bool \<Rightarrow> u64 \<Rightarrow> ResponseState \<Rightarrow> StreamFlow \<times> ResponseState" where
  "record_usage env has_any_output reported s =
    (if has_any_output then (Returned (Inl UsageOnOutput), s)
     else if ev_count env < reported then (Returned (Inl UsageBeyondLimit), s)
     else case ss_usage s of
            Some earlier \<Rightarrow> if earlier \<noteq> reported then (Returned (Inl ContradictoryUsage), s) else (Going, s)
          | None \<Rightarrow> (Going, s\<lparr>ss_usage := Some reported\<rparr>))"

definition forward_output ::
  "StreamEnv \<Rightarrow> bool \<Rightarrow> string \<Rightarrow> string \<Rightarrow> ResponseState \<Rightarrow> StreamFlow \<times> ResponseState" where
  "forward_output env tool_call text reasoning s =
    (let has_canon_output = (text \<noteq> [] \<or> reasoning \<noteq> []) in
     if \<not> (has_canon_output \<or> tool_call) then (Going, s)
     else if ss_usage s \<noteq> None then (Returned (Inl OutputAfterUsage), s)
     else if \<not> has_canon_output then (Going, s)
     else
       (let chunk = chunk_of env text reasoning (ss_seq s);
            (taken, s) = send_event env (SentChunk chunk) (s\<lparr>ss_seq := ss_seq s + 1\<rparr>) in
        if taken then (Going, s) else (Returned (Inr ()), s)))"

definition process_frame :: "StreamEnv \<Rightarrow> string \<Rightarrow> ResponseState \<Rightarrow> StreamFlow \<times> ResponseState" where
  "process_frame env event s =
    (case observe_capability env event s of
       Inl e \<Rightarrow> (Returned (Inl e), s)
     | Inr (evidence, s) \<Rightarrow>
         (case parse_event (ev_json env) event of
            Inl e \<Rightarrow> (Returned (Inl e), s)
          | Inr Done \<Rightarrow> (SawDone, s)
          | Inr (ProviderError detail) \<Rightarrow>
              (Going, s\<lparr>ss_ending := (ss_ending s)\<lparr>se_provider_error :=
                 or_else (se_provider_error (ss_ending s)) (Some detail)\<rparr>\<rparr>)
          | Inr Other \<Rightarrow> (Going, s)
          | Inr (Frame text reasoning usage model) \<Rightarrow>
              let s = observe_output text reasoning s; foreign = foreign_model env model s; s = identified model s in
              if foreign \<noteq> None \<and> ss_seq s = 0 then (Returned (Inl (ModelMismatch (the foreign) (ev_market env))), s)
              else case usage of
                     Some reported \<Rightarrow>
                       record_usage env (text \<noteq> [] \<or> reasoning \<noteq> [] \<or> sc_tool_call evidence) reported s
                   | None \<Rightarrow> forward_output env (sc_tool_call evidence) text reasoning s))"

fun process_frames :: "StreamEnv \<Rightarrow> string list \<Rightarrow> ResponseState \<Rightarrow> StreamFlow \<times> ResponseState" where
  "process_frames env [] s = (Going, s)"
| "process_frames env (event # events) s =
    (case process_frame env event s of
       (Going, s) \<Rightarrow> process_frames env events s
     | stopped \<Rightarrow> stopped)"

text \<open>
  What the loop waits for: bytes, a failed read (worth another attempt or not), the gateway closing its end,
  or, while there is no output, the end of the supervision cycle. The end of the list is the end of the body.
\<close>

datatype Read = Piece string | ReadFault bool | GatewayClosed | CyclePassed

definition buffer_piece :: "string \<Rightarrow> ResponseState \<Rightarrow> ResponseState" where
  "buffer_piece bytes s =
    (let s = s\<lparr>ss_buf := ss_buf s @ bytes\<rparr> in
     if ss_seq s = 0 then s\<lparr>ss_ending := observe_body bytes (ss_ending s)\<rparr> else s)"

definition take_piece :: "StreamEnv \<Rightarrow> string \<Rightarrow> ResponseState \<Rightarrow> StreamFlow \<times> ResponseState" where
  "take_piece env bytes s =
    (let s = buffer_piece bytes s in
     case drain_complete_events (ss_buf s) of
       (Inl e, left) \<Rightarrow> (Returned (Inl e), s\<lparr>ss_buf := left\<rparr>)
     | (Inr events, left) \<Rightarrow> process_frames env events (s\<lparr>ss_buf := left\<rparr>))"

fun stream_loop :: "StreamEnv \<Rightarrow> Read list \<Rightarrow> ResponseState \<Rightarrow> StreamFlow \<times> ResponseState" where
  "stream_loop env [] s = (Going, s)"
| "stream_loop env (GatewayClosed # reads) s = (Returned (Inr ()), s)"
| "stream_loop env (CyclePassed # reads) s =
    (if ss_seq s = 0 then (Returned (Inl NoOutputInCycle), s) else stream_loop env reads s)"
| "stream_loop env (ReadFault retryable # reads) s =
    (Returned (Inl ReadFailed),
     if ss_seq s = 0 \<and> retryable then s\<lparr>ss_ending := transport_non_answer (ev_json env) (ss_ending s)\<rparr> else s)"
| "stream_loop env (Piece bytes # reads) s =
    (case take_piece env bytes s of
       (Going, s) \<Rightarrow> stream_loop env reads s
     | stopped \<Rightarrow> stopped)"

text \<open>After \<open>[DONE]\<close>: the output is billed at the provider's total, or refused.\<close>

definition saw_tool_call :: "ResponseState \<Rightarrow> bool" where
  "saw_tool_call s \<longleftrightarrow> (case ss_observed s of Some obs \<Rightarrow> so_tool_call obs | None \<Rightarrow> False)"

definition after_done :: "StreamEnv \<Rightarrow> ResponseState \<Rightarrow> (upstream_fault + unit) \<times> ResponseState" where
  "after_done env s =
    (case (case (ev_requirements env, ss_observed s) of
             (Some requirements, Some obs) \<Rightarrow> validate_observation requirements obs | _ \<Rightarrow> Inr ()) of
       Inl e \<Rightarrow> (Inl e, s)
     | Inr _ \<Rightarrow>
         if ss_seq s = 0 \<and> \<not> saw_tool_call s then
           (if (case ss_usage s of Some n \<Rightarrow> n | None \<Rightarrow> 0) \<noteq> 0 then Inl UsageWithoutDelivery else Inr (), s)
         else case ss_usage s of
                Some n \<Rightarrow>
                  if 0 < n then (Inr (), snd (send_event env (SentAccounted n) s)) else (Inl NoPositiveUsage, s)
              | None \<Rightarrow> (Inl NoPositiveUsage, s))"

definition after_silence :: "StreamEnv \<Rightarrow> ResponseState \<Rightarrow> (upstream_fault + unit) \<times> ResponseState" where
  "after_silence env s =
    (let s = (if ss_seq s = 0 then s\<lparr>ss_ending := transport_non_answer (ev_json env) (ss_ending s)\<rparr> else s) in
     (Inl (if se_answered (ss_ending s) then AnsweredWithoutFraming
           else if ss_buf s \<noteq> [] then UnfinishedFrame else EndedWithoutDone), s))"

definition stream_end :: "StreamEnv \<Rightarrow> StreamFlow \<times> ResponseState \<Rightarrow> (upstream_fault + unit) \<times> ResponseState" where
  "stream_end env ended =
    (case ended of
       (Returned r, s) \<Rightarrow> (r, s) | (SawDone, s) \<Rightarrow> after_done env s | (Going, s) \<Rightarrow> after_silence env s)"

definition stream_response :: "StreamEnv \<Rightarrow> Read list \<Rightarrow> (upstream_fault + unit) \<times> ResponseState" where
  "stream_response env reads = stream_end env (stream_loop env reads (stream_start env))"

section \<open>Attempts\<close>

text \<open>
  One turn of the attempt loop: the gateway leaves, the connection fails (worth another attempt or not), the
  cycle ends, or there is a response with its status, its \<open>Retry-After\<close> in milliseconds and its body. The
  time left of the cycle when a retry is considered, and whether the gateway leaves while it waits, ride
  along. A body is read either as a stream or, when it is refused, as an error body with its content type.
\<close>

datatype Answer =
    GatewayLeft | ConnectFault bool | CycleEnded
  | Response nat "nat option" string "string option list" "Read list"

record UpstreamAttempt =
  at_answer :: Answer
  at_remaining :: nat
  at_leaves :: bool

definition retryable_provider_status :: "nat \<Rightarrow> bool" where
  "retryable_provider_status status \<longleftrightarrow> status \<in> {429, 502, 503}"

datatype RetryStep = Retry | GatewayGone

definition wait_for_retry :: "upstream_fault \<Rightarrow> nat option \<Rightarrow> nat \<Rightarrow> bool \<Rightarrow> upstream_fault + RetryStep" where
  "wait_for_retry failure retry_after remaining leaves =
    (let delay = (case retry_after of Some d \<Rightarrow> d | None \<Rightarrow> 20000) in
     if remaining = 0 \<or> remaining \<le> delay then Inl failure else Inr (if leaves then GatewayGone else Retry))"

text \<open>What an attempt sent, and whether the request ends with it (\<open>None\<close>: it is attempted again).\<close>

definition retry_or_end :: "upstream_fault \<Rightarrow> nat option \<Rightarrow> UpstreamAttempt \<Rightarrow> (upstream_fault + unit) option" where
  "retry_or_end failure retry_after a =
    (case wait_for_retry failure retry_after (at_remaining a) (at_leaves a) of
       Inl e \<Rightarrow> Some (Inl e) | Inr GatewayGone \<Rightarrow> Some (Inr ()) | Inr Retry \<Rightarrow> None)"

definition try_provider ::
  "StreamEnv \<Rightarrow> string \<Rightarrow> 't CanonRequest \<Rightarrow> UpstreamAttempt \<Rightarrow> (upstream_fault + unit) option \<times> Sent list" where
  "try_provider env key request a =
    (case at_answer a of
       GatewayLeft \<Rightarrow> (Some (Inr ()), [])
     | CycleEnded \<Rightarrow> (Some (Inl NoOutputInCycle), [])
     | ConnectFault retryable \<Rightarrow>
         (if retryable then retry_or_end ConnectFailed None a else Some (Inl ConnectFailed), [])
     | Response status retry_after content_type error_reads reads \<Rightarrow>
         if retryable_provider_status status then (retry_or_end (HttpStatus status) retry_after a, [])
         else if \<not> (200 \<le> status \<and> status < 300) then
           (Some (Inl (annotate_seller_config_fault
              (upstream_http_error (ev_json env) status content_type error_reads key request) status)), [])
         else
           (case stream_response env reads of
              (Inr _, s) \<Rightarrow> (Some (Inr ()), ss_sent s)
            | (Inl failure, s) \<Rightarrow>
                (if se_retryable (ss_ending s) then retry_or_end failure None a
                 else Some (Inl (explain (ss_ending s) failure key request)), ss_sent s)))"

text \<open>The attempt loop; \<open>None\<close> where the list of attempts ends before the request does.\<close>

fun stream_upstream ::
  "StreamEnv \<Rightarrow> string \<Rightarrow> 't CanonRequest \<Rightarrow> UpstreamAttempt list \<Rightarrow> (upstream_fault + unit) option \<times> Sent list" where
  "stream_upstream env key request [] = (None, [])"
| "stream_upstream env key request (a # as) =
    (case try_provider env key request a of
       (Some r, sent) \<Rightarrow> (Some r, sent)
     | (None, sent) \<Rightarrow>
         (case stream_upstream (env\<lparr>ev_takes := (\<lambda>n. ev_takes env (n + length sent))\<rparr>) key request as of
            (r, later) \<Rightarrow> (r, sent @ later)))"

text \<open>
  \<open>run_with_startup_capabilities\<close>: what reaches the gateway, the failure last. The key is read from the
  environment of the process.
\<close>

datatype Delivered = DeliveredEvent Sent | DeliveredError upstream_fault

definition run_upstream ::
  "StreamEnv \<Rightarrow> string option \<Rightarrow> 't CanonRequest option \<Rightarrow> UpstreamAttempt list \<Rightarrow> Delivered list" where
  "run_upstream env api_key request attempts =
    (let refuse = (\<lambda>status. if ev_takes env 0 then [DeliveredError status] else []) in
     if ev_count env = 0 then []
     else case resolve_model_output_cap (oa_max_output_tokens (ev_cfg env)) of
            Inl status \<Rightarrow> refuse status
          | Inr _ \<Rightarrow>
              (case (api_key, request) of
                 (None, _) \<Rightarrow> refuse NoKey
               | (Some _, None) \<Rightarrow> refuse NoRequest
               | (Some key, Some req) \<Rightarrow>
                   (case stream_upstream env key req attempts of
                      (Some (Inl status), sent) \<Rightarrow>
                        map DeliveredEvent sent
                        @ (if ev_takes env (length sent) then [DeliveredError status] else [])
                    | (_, sent) \<Rightarrow> map DeliveredEvent sent)))"

end
