(* ===== verification/OpenAiLaws.thy ===== *)
theory OpenAiLaws
  imports OpenAiStream
begin

text \<open>
  What the adapter promises the gateway: numbered output, one bill at the provider's own total, no output twice
  across attempts, an outcome that does not depend on how the network cut the body into pieces, and what
  the relay makes of it.
\<close>

section \<open>Output in order, billed once\<close>

definition numbered :: "OutChunk list \<Rightarrow> bool" where
  "numbered cs \<longleftrightarrow> map oc_seq cs = [0..<length cs]
    \<and> list_all (\<lambda>c. (oc_text c \<noteq> [] \<or> oc_reasoning c \<noteq> []) \<and> (oc_manifest c \<noteq> None \<longleftrightarrow> oc_seq c = 0)) cs"

definition billed_once :: "StreamEnv \<Rightarrow> (upstream_fault + unit) option \<Rightarrow> Sent list \<Rightarrow> bool" where
  "billed_once env outcome sent \<longleftrightarrow>
    (\<exists>cs. numbered cs \<and>
      (sent = map SentChunk cs
       \<or> (\<exists>n. sent = map SentChunk cs @ [SentAccounted n] \<and> 0 < n \<and> n \<le> ev_count env \<and> outcome = Some (Inr ())
              \<and> (cs \<noteq> [] \<or> ev_requirements env \<noteq> None))))"

lemma numbered_Nil [simp]: "numbered []"
  by (simp add: numbered_def)

lemma numbered_chunk_of:
  "numbered cs \<Longrightarrow> text \<noteq> [] \<or> reasoning \<noteq> [] \<Longrightarrow> numbered (cs @ [chunk_of env text reasoning (length cs)])"
  by (auto simp: numbered_def chunk_of_def)

text \<open>The invariant of the loop; while it goes on, the next number is the number of chunks sent.\<close>

definition stream_inv :: "StreamEnv \<Rightarrow> StreamFlow \<times> ResponseState \<Rightarrow> bool" where
  "stream_inv env ended \<longleftrightarrow>
    (let s = snd ended; live = (fst ended = Going \<or> fst ended = SawDone) in
     (\<exists>cs. ss_sent s = map SentChunk cs \<and> numbered cs \<and> length cs \<le> ss_seq s \<and> (live \<longrightarrow> length cs = ss_seq s))
     \<and> (case ss_usage s of Some n \<Rightarrow> n \<le> ev_count env | None \<Rightarrow> True)
     \<and> (ss_observed s = None \<longleftrightarrow> ev_requirements env = None)
     \<and> (se_retryable (ss_ending s) \<longrightarrow> ss_seq s = 0 \<and> \<not> live)
     \<and> (fst ended = Returned (Inr ()) \<longrightarrow> \<not> se_retryable (ss_ending s)))"

lemma stream_inv_start: "stream_inv env (Going, stream_start env)"
  by (simp add: stream_inv_def stream_start_def fresh_ending_def)

text \<open>Only these parts of the state matter to it.\<close>

lemma stream_inv_cong:
  "ss_sent s' = ss_sent s \<Longrightarrow> ss_seq s' = ss_seq s \<Longrightarrow> ss_usage s' = ss_usage s
    \<Longrightarrow> se_retryable (ss_ending s') = se_retryable (ss_ending s) \<Longrightarrow> (ss_observed s' = None) = (ss_observed s = None)
    \<Longrightarrow> stream_inv env (f, s') = stream_inv env (f, s)"
  by (simp add: stream_inv_def)

lemma stream_inv_stops:
  "stream_inv env (Going, s) \<Longrightarrow> stream_inv env (f, s)"
  by (auto simp: stream_inv_def Let_def)

lemma stream_inv_record_usage: "stream_inv env (Going, s) \<Longrightarrow> stream_inv env (record_usage env any n s)"
  by (auto simp: record_usage_def stream_inv_def Let_def split: option.splits)

lemma stream_inv_forward_output:
  assumes "stream_inv env (Going, s)"
  shows "stream_inv env (forward_output env tool text reasoning s)"
proof (cases "ss_usage s = None \<and> (text \<noteq> [] \<or> reasoning \<noteq> [])")
  case False
  then show ?thesis using assms stream_inv_stops [OF assms] by (auto simp: forward_output_def Let_def)
next
  case True
  obtain cs where cs: "ss_sent s = map SentChunk cs" "numbered cs" "ss_seq s = length cs"
    using assms by (auto simp: stream_inv_def Let_def)
  show ?thesis
  proof (cases "ev_takes env (length cs)")
    case takes: True
    have "numbered (cs @ [chunk_of env text reasoning (length cs)])"
      using numbered_chunk_of [OF cs(2)] True by blast
    then show ?thesis
      using True takes cs assms
      by (auto simp: forward_output_def send_event_def stream_inv_def Let_def
          intro!: exI [of _ "cs @ [chunk_of env text reasoning (length cs)]"])
  next
    case False
    then show ?thesis
      using True cs assms by (auto simp: forward_output_def send_event_def stream_inv_def Let_def)
  qed
qed

lemma observe_capability_keeps:
  "observe_capability env event s = Inr (evidence, s') \<Longrightarrow>
    \<exists>obs. s' = s\<lparr>ss_observed := obs\<rparr> \<and> (obs = None \<longleftrightarrow> ss_observed s = None)"
proof -
  assume a: "observe_capability env event s = Inr (evidence, s')"
  show ?thesis
  proof (cases "ev_requirements env \<noteq> None \<and> ss_observed s \<noteq> None")
    case True
    then obtain obs where "s' = s\<lparr>ss_observed := Some obs\<rparr>" using a by (auto simp: observe_capability_def result_simps)
    then show ?thesis using True by (intro exI [of _ "Some obs"]) simp
  next
    case False
    then have "s' = s" using a by (auto simp: observe_capability_def split: option.splits)
    then show ?thesis by (intro exI [of _ "ss_observed s"]) simp
  qed
qed

lemma stream_inv_process_frame:
  assumes "stream_inv env (Going, s)"
  shows "stream_inv env (process_frame env event s)"
proof (cases "observe_capability env event s")
  case (Inl e)
  then show ?thesis using stream_inv_stops [OF assms] by (simp add: process_frame_def)
next
  case (Inr p)
  obtain evidence s' where p: "p = (evidence, s')" by fastforce
  obtain obs where s': "s' = s\<lparr>ss_observed := obs\<rparr>" "obs = None \<longleftrightarrow> ss_observed s = None" using observe_capability_keeps Inr p by blast
  have inv: "stream_inv env (Going, s')" using assms s'(2) unfolding s'(1) by (subst stream_inv_cong [where s = s]) simp_all
  show ?thesis
  proof (cases "parse_event (ev_json env) event")
    case (Inl e)
    then show ?thesis using stream_inv_stops [OF inv] \<open>observe_capability env event s = Inr p\<close> p
      by (simp add: process_frame_def)
  next
    case (Inr parsed)
    note step = \<open>observe_capability env event s = Inr p\<close> p Inr
    show ?thesis
    proof (cases parsed)
      case Done
      then show ?thesis using step stream_inv_stops [OF inv] by (simp add: process_frame_def)
    next
      case Other
      then show ?thesis using step inv by (simp add: process_frame_def)
    next
      case (ProviderError detail)
      then show ?thesis
        using step inv by (simp add: process_frame_def) (simp add: stream_inv_def)
    next
      case (Frame words reasoning usage model)
      let ?s = "identified model (observe_output words reasoning s')"
      have "stream_inv env (Going, ?s)"
        using inv by (subst stream_inv_cong [where s = s']) (simp_all add: identified_def observe_output_def)
      then show ?thesis
        using step Frame stream_inv_stops [of env ?s] stream_inv_record_usage [of env ?s]
          stream_inv_forward_output [of env ?s]
        by (simp add: process_frame_def Let_def split: option.split)
    qed
  qed
qed

lemma stream_inv_process_frames: "stream_inv env (Going, s) \<Longrightarrow> stream_inv env (process_frames env events s)"
proof (induction events arbitrary: s)
  case (Cons event events)
  show ?case
  proof (cases "process_frame env event s")
    case (Pair f s')
    then show ?thesis
      using Cons stream_inv_process_frame [OF Cons.prems, of event] by (cases f) simp_all
  qed
qed simp

lemma se_retryable_observe_body [simp]: "se_retryable (observe_body bytes e) = se_retryable e"
  by (simp add: observe_body_def Let_def)

lemma stream_inv_take_piece:
  assumes "stream_inv env (Going, s)"
  shows "stream_inv env (take_piece env bytes s)"
proof -
  let ?s = "buffer_piece bytes s"
  have inv: "stream_inv env (Going, ?s\<lparr>ss_buf := left\<rparr>)" for left
    using assms by (subst stream_inv_cong [where s = s]) (simp_all add: buffer_piece_def Let_def)
  obtain drained left where d: "drain_complete_events (ss_buf ?s) = (drained, left)" by fastforce
  show ?thesis
  proof (cases drained)
    case (Inl e)
    then show ?thesis using d stream_inv_stops [OF inv [of left], of "Returned (Inl e)"] by (simp add: take_piece_def Let_def)
  next
    case (Inr events)
    then show ?thesis
      using d stream_inv_process_frames [OF inv [of left], of events] by (simp add: take_piece_def Let_def)
  qed
qed

lemma stream_inv_loop: "stream_inv env (Going, s) \<Longrightarrow> stream_inv env (stream_loop env reads s)"
proof (induction env reads s rule: stream_loop.induct)
  case (4 env retryable reads s)
  then show ?case by (auto simp: stream_inv_def transport_non_answer_def Let_def split: option.split)
next
  case (5 env bytes reads s)
  have piece: "stream_inv env (take_piece env bytes s)" using 5(2) by (rule stream_inv_take_piece)
  show ?case
  proof (cases "take_piece env bytes s")
    case (Pair f s')
    then show ?thesis using piece 5(1) by (cases f) simp_all
  qed
qed (use stream_inv_stops in \<open>auto\<close>)

text \<open>So a response is billed at most once, and one worth another attempt has sent nothing.\<close>

lemma stream_response_ends:
  assumes "stream_response env reads = (r, s)"
  shows "billed_once env (Some r) (ss_sent s)"
    and "se_retryable (ss_ending s) \<Longrightarrow> ss_sent s = []"
proof -
  obtain f t where loop: "stream_loop env reads (stream_start env) = (f, t)" by fastforce
  have inv: "stream_inv env (f, t)"
    using stream_inv_loop [OF stream_inv_start, of env reads] loop by simp
  then obtain cs where cs: "ss_sent t = map SentChunk cs" "numbered cs" "length cs \<le> ss_seq t"
    by (auto simp: stream_inv_def Let_def)
  have sent: "billed_once env (Some r) (ss_sent t)" using cs by (auto simp: billed_once_def)
  have ends: "stream_end env (f, t) = (r, s)" using assms loop by (simp add: stream_response_def)
  have "billed_once env (Some r) (ss_sent s) \<and> (se_retryable (ss_ending s) \<longrightarrow> ss_sent s = [])"
  proof (cases f)
    case Going
    then show ?thesis
      using ends sent cs inv
      by (auto simp: stream_end_def after_silence_def Let_def stream_inv_def split: if_splits)
  next
    case SawDone
    have "\<not> se_retryable (ss_ending t)" using inv SawDone by (auto simp: stream_inv_def Let_def)
    moreover have "ss_usage t = Some n \<Longrightarrow> n \<le> ev_count env" for n
      using inv by (simp add: stream_inv_def)
    moreover have "cs = [] \<Longrightarrow> ss_seq t = 0" using inv SawDone cs(1) by (auto simp: stream_inv_def Let_def)
    moreover have "saw_tool_call t \<Longrightarrow> ev_requirements env \<noteq> None"
      using inv by (auto simp: stream_inv_def Let_def saw_tool_call_def)
    ultimately show ?thesis
      using ends sent cs SawDone
      by (auto simp: stream_end_def after_done_def send_event_def billed_once_def split: sum.splits if_splits option.splits)
  next
    case (Returned x)
    then show ?thesis using ends sent cs inv by (auto simp: stream_end_def stream_inv_def Let_def)
  qed
  then show "billed_once env (Some r) (ss_sent s)" "se_retryable (ss_ending s) \<Longrightarrow> ss_sent s = []"
    by auto
qed

lemma try_provider_ends:
  assumes "try_provider env key request a = (r, sent)"
  shows "billed_once env r sent" and "r = None \<Longrightarrow> sent = []"
proof -
  have none: "billed_once env r []" for r
    by (auto simp: billed_once_def intro!: exI [of _ "[]"])
  have failed: "stream_response env reads = (Inl e, s) \<Longrightarrow> billed_once env r' (ss_sent s)" for reads e s r'
    using stream_response_ends(1) [of env reads "Inl e" s] by (auto simp: billed_once_def)
  show "billed_once env r sent" "r = None \<Longrightarrow> sent = []"
    using assms none stream_response_ends
    by (auto simp: try_provider_def split: Answer.splits if_splits prod.splits sum.splits dest: failed)
qed

lemma upstream_bills:
  "billed_once env (fst (stream_upstream env key request attempts))
    (snd (stream_upstream env key request attempts))"
proof (induction attempts arbitrary: env)
  case Nil
  show ?case by (auto simp: billed_once_def intro!: exI [of _ "[]"])
next
  case (Cons a attempts)
  obtain r sent where a: "try_provider env key request a = (r, sent)" by fastforce
  show ?case
  proof (cases r)
    case None
    then have "sent = []" using try_provider_ends(2) [OF a] by simp
    then show ?thesis using a None Cons.IH [of env] by (simp split: prod.split)
  next
    case (Some x)
    then show ?thesis using a try_provider_ends(1) [OF a] by simp
  qed
qed

text \<open>
  C8: Across all attempts at one request the gateway receives numbered output without gaps or repetitions,
  the manifest on the first chunk only, and at most one bill, as the last thing, positive, within the
  requested limit, and only when the request succeeds. A failed request is never billed.
\<close>

theorem upstream_bills_once:
  "billed_once env (fst (stream_upstream env key request attempts))
    (snd (stream_upstream env key request attempts))"
  by (rule upstream_bills)

section \<open>A sample response\<close>

text \<open>
  A provider that answers with one chunk, its total and the end. The JSON reader knows the two documents of
  the sample.
\<close>

definition sample_json :: "string \<Rightarrow> json option" where
  "sample_json s =
    (if s = ''A'' then Some (JObj [(''choices'', JArr [JObj [(''delta'', JObj [(''content'', JStr ''hi'')])]])])
     else if s = ''B'' then Some (JObj [(''usage'', JObj [(''completion_tokens'', JNum 2)])])
     else None)"

definition sample_config :: OpenAiConfig where
  "sample_config =
    \<lparr> oa_base_url = ''https://provider'', oa_model = ''m'', oa_frame_model = ''m'', oa_claimed_override = None,
      oa_tokenizer_family = ''qwen'', oa_max_output_tokens = Some 100, oa_identity_aliases = [] \<rparr>"

definition sample_upstream :: StreamEnv where
  "sample_upstream =
    \<lparr> ev_json = sample_json, ev_cfg = sample_config, ev_market = None, ev_requirements = None, ev_count = 10,
      ev_takes = (\<lambda>_. True) \<rparr>"

definition sample_pieces :: "string list" where
  "sample_pieces =
    [''data: A'' @ [CHR 0x0A], [CHR 0x0A] @ ''data: B'' @ blank_line @ ''dat'', ''a: [DONE]'' @ blank_line]"

definition sample_prompt :: "nat CanonRequest" where
  "sample_prompt = \<lparr> rq_messages = [\<lparr> cm_role = ''user'', cm_content = ''hello'' \<rparr>], rq_params = None \<rparr>"

definition sample_attempts :: "UpstreamAttempt list" where
  "sample_attempts =
    [\<lparr> at_answer = ConnectFault True, at_remaining = 60000, at_leaves = False \<rparr>,
     \<lparr> at_answer = Response 200 None ''text/event-stream'' [] (map Piece sample_pieces), at_remaining = 40000,
       at_leaves = False \<rparr>]"

definition sample_sent :: "Sent list" where
  "sample_sent =
    [SentChunk \<lparr> oc_text = ''hi'', oc_reasoning = [], oc_seq = 0, oc_manifest = Some (''qwen'', ''m'') \<rparr>, SentAccounted 2]"

lemma sample_drains:
  "drain_complete_events (''data: A'' @ [CHR 0x0A]) = (Inr [], ''data: A'' @ [CHR 0x0A])"
  "drain_complete_events (''data: A'' @ [CHR 0x0A, CHR 0x0A] @ ''data: B'' @ blank_line @ ''dat'')
    = (Inr [''data: A'', ''data: B''], ''dat'')"
  "drain_complete_events (''data: [DONE]'' @ blank_line) = (Inr [''data: [DONE]''], [])"
proof -
  have "drain_frames (''data: A'' @ [CHR 0x0A]) = (Inr [], ''data: A'' @ [CHR 0x0A])"
    "drain_frames (''data: A'' @ [CHR 0x0A, CHR 0x0A] @ ''data: B'' @ blank_line @ ''dat'')
      = (Inr [''data: A'', ''data: B''], ''dat'')"
    "drain_frames (''data: [DONE]'' @ blank_line) = (Inr [''data: [DONE]''], [])"
    by code_simp+
  then show "drain_complete_events (''data: A'' @ [CHR 0x0A]) = (Inr [], ''data: A'' @ [CHR 0x0A])"
    "drain_complete_events (''data: A'' @ [CHR 0x0A, CHR 0x0A] @ ''data: B'' @ blank_line @ ''dat'')
      = (Inr [''data: A'', ''data: B''], ''dat'')"
    "drain_complete_events (''data: [DONE]'' @ blank_line) = (Inr [''data: [DONE]''], [])"
    by (simp_all only: drain_complete_events_def prod.case sum.case UPSTREAM_SSE_FRAME_MAX_BYTES_def) simp_all
qed

lemma sample_frames:
  "parse_event sample_json ''data: A'' = Inr (Frame ''hi'' [] None None)"
  "parse_event sample_json ''data: B'' = Inr (Frame [] [] (Some 2) None)"
  "parse_event sample_json ''data: [DONE]'' = Inr Done"
proof -
  have datas: "frame_data ''data: A'' = ''A''" "frame_data ''data: B'' = ''B''" "frame_data ''data: [DONE]'' = ''[DONE]''"
    "frame_named_error ''data: A'' = False"
    by code_simp+
  show "parse_event sample_json ''data: A'' = Inr (Frame ''hi'' [] None None)" by code_simp
  show "parse_event sample_json ''data: [DONE]'' = Inr Done" by (simp add: parse_event_def datas)
  have "frame_native_usage (JObj [(''usage'', JObj [(''completion_tokens'', JNum 2)])]) = Inr (Some 2)"
    by (simp add: frame_native_usage_def native_output_total_def json_get_def hget_def groq_usage_def as_u64_def
        agreed_def MAX_defs)
  moreover have "decode_stream_chunk (JObj [(''usage'', JObj [(''completion_tokens'', JNum 2)])]) = Some []"
    by code_simp
  moreover have "frame_served_model (JObj [(''usage'', JObj [(''completion_tokens'', JNum 2)])]) = None" by code_simp
  ultimately show "parse_event sample_json ''data: B'' = Inr (Frame [] [] (Some 2) None)"
    by (simp add: parse_event_def datas sample_json_def bare_usage_def)
qed

lemma sample_upstream_run: "stream_upstream sample_upstream ''key'' sample_prompt sample_attempts = (Some (Inr ()), sample_sent)"
  using sample_drains
  by (simp add: sample_attempts_def try_provider_def retry_or_end_def wait_for_retry_def retryable_provider_status_def
      stream_response_def sample_pieces_def stream_start_def fresh_ending_def take_piece_def buffer_piece_def
      sample_upstream_def process_frame_def observe_capability_def sample_frames observe_output_def foreign_model_def
      identified_def forward_output_def send_event_def record_usage_def chunk_of_def stream_end_def after_done_def
      saw_tool_call_def sample_sent_def sample_config_def no_capability_event_def observe_body_def blank_line_def Let_def
      UPSTREAM_ERROR_BODY_MAX_BYTES_def)

section \<open>The network's pieces do not matter\<close>

text \<open>
  The reference: the frames of the whole body at once. \<open>framed\<close> sets the parts of the state that the frames
  never look at.
\<close>

definition framed :: "string \<Rightarrow> string \<Rightarrow> ResponseState \<Rightarrow> ResponseState" where
  "framed b u s = s\<lparr>ss_buf := b, ss_ending := (ss_ending s)\<lparr>se_body := u\<rparr>\<rparr>"

definition whole_response :: "StreamEnv \<Rightarrow> string \<Rightarrow> (upstream_fault + unit) \<times> ResponseState" where
  "whole_response env body =
    (let parts = split_on blank_line body in
     stream_end env (process_frames env (butlast parts)
       (framed (last parts) (take UPSTREAM_ERROR_BODY_MAX_BYTES body) (stream_start env))))"

definition outcome_of ::
  "(upstream_fault + unit) \<times> ResponseState \<Rightarrow> (upstream_fault + unit) \<times> Sent list \<times> bool \<times> string option \<times> bool" where
  "outcome_of ended =
    (case ended of (r, s) \<Rightarrow>
       (r, ss_sent s, se_retryable (ss_ending s), se_provider_error (ss_ending s), se_answered (ss_ending s)))"

lemma framed_framed [simp]: "framed b u (framed b' u' s) = framed b u s"
  by (simp add: framed_def)

lemma framed_same: "framed (ss_buf s) (se_body (ss_ending s)) s = s"
  by (simp add: framed_def)

lemma framed_selectors [simp]:
  "ss_buf (framed b u s) = b" "se_body (ss_ending (framed b u s)) = u" "ss_seq (framed b u s) = ss_seq s"
  "ss_usage (framed b u s) = ss_usage s" "ss_sent (framed b u s) = ss_sent s"
  "ss_observed (framed b u s) = ss_observed s" "ss_identified (framed b u s) = ss_identified s"
  "se_provider_error (ss_ending (framed b u s)) = se_provider_error (ss_ending s)"
  "se_retryable (ss_ending (framed b u s)) = se_retryable (ss_ending s)"
  "se_answered (ss_ending (framed b u s)) = se_answered (ss_ending s)"
  by (simp_all add: framed_def)

lemma framed_observe_capability:
  "observe_capability env event (framed b u s) = map_sum id (map_prod id (framed b u)) (observe_capability env event s)"
  by (auto simp: observe_capability_def framed_def bindR_def split: option.split sum.split)

lemma framed_send:
  "send_event env e (framed b u s) = map_prod id (framed b u) (send_event env e s)"
  by (simp add: send_event_def framed_def)

lemma framed_record_usage:
  "record_usage env any n (framed b u s) = map_prod id (framed b u) (record_usage env any n s)"
  by (simp add: record_usage_def framed_def split: option.split)

lemma framed_forward_output:
  "forward_output env tool text reasoning (framed b u s)
    = map_prod id (framed b u) (forward_output env tool text reasoning s)"
  by (simp add: forward_output_def framed_def send_event_def Let_def)

lemma framed_frame:
  "process_frame env event (framed b u s) = map_prod id (framed b u) (process_frame env event s)"
proof -
  have frame: "identified model (observe_output words reasoning (framed b u t))
      = framed b u (identified model (observe_output words reasoning t))"
    "foreign_model env model (observe_output words reasoning (framed b u t))
      = foreign_model env model (observe_output words reasoning t)" for model words reasoning t
    by (simp_all add: identified_def observe_output_def foreign_model_def framed_def split: option.split)
  have err: "(framed b u t)\<lparr>ss_ending := (ss_ending (framed b u t))\<lparr>se_provider_error := x\<rparr>\<rparr>
      = framed b u (t\<lparr>ss_ending := (ss_ending t)\<lparr>se_provider_error := x\<rparr>\<rparr>)" for t x
    by (simp add: framed_def)
  show ?thesis
    unfolding process_frame_def framed_observe_capability
    by (auto simp: Let_def frame err framed_record_usage framed_forward_output
        split: sum.split prod.split ParsedEvent.split option.split)
qed

lemma framed_frames:
  "process_frames env events (framed b u s) = map_prod id (framed b u) (process_frames env events s)"
proof (induction events arbitrary: s)
  case (Cons event events)
  show ?case
    by (cases "process_frame env event s"; cases "fst (process_frame env event s)")
      (simp_all add: framed_frame Cons.IH)
qed simp

lemma frames_keep:
  assumes "process_frames env events s = (f, t)"
  shows "ss_buf t = ss_buf s" and "se_body (ss_ending t) = se_body (ss_ending s)"
proof -
  have "process_frames env events s = map_prod id (framed (ss_buf s) (se_body (ss_ending s))) (process_frames env events s)"
    using framed_frames [of env events "ss_buf s" "se_body (ss_ending s)" s] by (simp add: framed_same)
  then have "t = framed (ss_buf s) (se_body (ss_ending s)) t" using assms by simp
  then show "ss_buf t = ss_buf s" "se_body (ss_ending t) = se_body (ss_ending s)" by (metis framed_selectors)+
qed

lemma frame_seq: "ss_seq s \<le> ss_seq (snd (process_frame env event s))"
proof -
  have "ss_seq t = ss_seq s" if "observe_capability env event s = Inr (e, t)" for e t
    using observe_capability_keeps [OF that] by auto
  moreover have "ss_seq t \<le> ss_seq (snd (record_usage env any n t))" for any n t
    by (simp add: record_usage_def split: option.split)
  moreover have "ss_seq t \<le> ss_seq (snd (forward_output env tool words reasoning t))" for tool words reasoning t
    by (simp add: forward_output_def send_event_def Let_def)
  moreover have "ss_seq (identified model (observe_output words reasoning t)) = ss_seq t" for model words reasoning t
    by (simp add: identified_def observe_output_def)
  ultimately show ?thesis
    unfolding process_frame_def
    by (auto simp: Let_def split: sum.split prod.split ParsedEvent.split option.split) (metis snd_conv)+
qed

lemma frames_seq: "process_frames env events s = (f, t) \<Longrightarrow> ss_seq s \<le> ss_seq t"
proof (induction events arbitrary: s)
  case (Cons event events)
  obtain g u where g: "process_frame env event s = (g, u)" by fastforce
  then show ?case using Cons frame_seq [of s env event] by (cases g) fastforce+
qed simp

lemma process_frames_append:
  "process_frames env (xs @ ys) s =
    (case process_frames env xs s of (Going, t) \<Rightarrow> process_frames env ys t | stopped \<Rightarrow> stopped)"
proof (induction xs arbitrary: s)
  case (Cons x xs)
  obtain g u where g: "process_frame env x s = (g, u)" by fastforce
  then show ?case using Cons by (cases g) simp_all
qed simp

lemma drain_frames_valid:
  "list_all valid_utf8 (butlast (split_on blank_line buf)) \<Longrightarrow>
    drain_frames buf = (Inr (butlast (split_on blank_line buf)), last (split_on blank_line buf))"
proof (induction buf rule: drain_frames.induct)
  case (1 buf)
  show ?case
  proof (cases "split_once blank_line buf")
    case None
    then show ?thesis by (subst drain_frames.simps, subst (1 2) split_on.simps) simp
  next
    case (Some p)
    obtain frame rest where p: "p = (frame, rest)" by fastforce
    have split: "split_on blank_line buf = frame # split_on blank_line rest"
      using Some p by (subst split_on.simps) (simp add: blank_line_def)
    then have "valid_utf8 frame" "list_all valid_utf8 (butlast (split_on blank_line rest))"
      using 1(2) split_on_Cons by simp_all
    then show ?thesis
      using 1(1) [OF Some p [symmetric]] Some p split split_on_Cons by (subst drain_frames.simps) simp
  qed
qed

text \<open>What stays behind is no longer than the frame it becomes, and one line feed.\<close>

lemma unfinished_length:
  assumes "split_once blank_line b = None"
  shows "length b \<le> length (hd (split_on blank_line (b @ t))) + 1"
proof (cases "split_once blank_line (b @ t)")
  case None
  then show ?thesis by (subst split_on.simps) simp
next
  case (Some p)
  obtain f r where p: "p = (f, r)" by fastforce
  have hd: "hd (split_on blank_line (b @ t)) = f"
    using Some p by (subst split_on.simps) (simp add: blank_line_def)
  have whole: "b @ t = f @ blank_line @ r" using split_once_parts Some p by blast
  have "\<not> length f + 2 \<le> length b"
  proof
    assume "length f + 2 \<le> length b"
    then obtain d where d: "length b = length f + 2 + d" using le_Suc_ex by blast
    have "b = take (length b) (b @ t)" by simp
    also have "\<dots> = f @ blank_line @ take d r" unfolding whole d by (simp add: blank_line_def numeral_2_eq_2)
    finally have "b = f @ blank_line @ take d r" .
    then show False using split_once_found [of blank_line f] assms by metis
  qed
  then show ?thesis using hd by simp
qed

lemma observe_body_prefix:
  "se_body e = take UPSTREAM_ERROR_BODY_MAX_BYTES x \<Longrightarrow>
    observe_body bytes e = e\<lparr>se_body := take UPSTREAM_ERROR_BODY_MAX_BYTES (x @ bytes)\<rparr>"
  by (cases "length x \<le> UPSTREAM_ERROR_BODY_MAX_BYTES") (auto simp: observe_body_def Let_def min_def)

lemma buffer_piece_framed:
  assumes "ss_seq s = 0 \<Longrightarrow> se_body (ss_ending s) = take UPSTREAM_ERROR_BODY_MAX_BYTES x"
  obtains u where "(buffer_piece bytes s)\<lparr>ss_buf := left\<rparr> = framed left u s"
    and "ss_seq s = 0 \<Longrightarrow> u = take UPSTREAM_ERROR_BODY_MAX_BYTES (x @ bytes)"
proof (cases "ss_seq s = 0")
  case True
  then show ?thesis
    using that [of "take UPSTREAM_ERROR_BODY_MAX_BYTES (x @ bytes)"] observe_body_prefix [OF assms]
    by (simp add: buffer_piece_def framed_def Let_def)
next
  case False
  then show ?thesis
    using that [of "se_body (ss_ending s)"] by (simp add: buffer_piece_def framed_def Let_def)
qed

lemma stream_end_framed:
  "f \<noteq> Going \<Longrightarrow> outcome_of (stream_end env (f, framed b u s)) = outcome_of (stream_end env (f, s))"
  by (cases f)
    (auto simp: stream_end_def outcome_of_def after_done_def framed_send saw_tool_call_def
      split: sum.split option.split prod.split)

lemma after_silence_framed:
  assumes "ss_seq s = 0 \<Longrightarrow> u = u'"
  shows "outcome_of (after_silence env (framed b u s)) = outcome_of (after_silence env (framed b u' s))"
proof (cases "ss_seq s = 0")
  case False
  then show ?thesis by (simp add: after_silence_def outcome_of_def Let_def)
qed (use assms in simp)

text \<open>The loop has consumed \<open>x\<close>: the frames of \<open>x\<close> were processed, and what follows them is in the buffer.\<close>

definition consumed :: "StreamEnv \<Rightarrow> string \<Rightarrow> ResponseState \<Rightarrow> bool" where
  "consumed env x s \<longleftrightarrow>
    (\<exists>t u. process_frames env (butlast (split_on blank_line x)) (stream_start env) = (Going, t)
      \<and> s = framed (last (split_on blank_line x)) u t
      \<and> (ss_seq t = 0 \<longrightarrow> u = take UPSTREAM_ERROR_BODY_MAX_BYTES x))"

definition well_cut :: "string \<Rightarrow> bool" where
  "well_cut body \<longleftrightarrow>
    list_all valid_utf8 (butlast (split_on blank_line body))
    \<and> list_all (\<lambda>f. length f < UPSTREAM_SSE_FRAME_MAX_BYTES) (split_on blank_line body)"

lemma well_cut_drains:
  assumes "well_cut (x @ p @ rest)" and "s = last (split_on blank_line x)"
  shows "drain_complete_events (s @ p)
    = (Inr (butlast (split_on blank_line (s @ p))), last (split_on blank_line (x @ p)))"
    and "butlast (split_on blank_line (x @ p)) = butlast (split_on blank_line x) @ butlast (split_on blank_line (s @ p))"
proof -
  let ?parts = "split_on blank_line"
  have sep: "blank_line \<noteq> []" by (simp add: blank_line_def)
  have xp: "?parts (x @ p) = butlast (?parts x) @ ?parts (s @ p)" unfolding assms(2) by (rule split_on_append [OF sep])
  then show split: "butlast (?parts (x @ p)) = butlast (?parts x) @ butlast (?parts (s @ p))"
    using split_on_Cons by (simp add: butlast_append)
  let ?left = "last (?parts (x @ p))"
  have left: "?left = last (?parts (s @ p))" using xp split_on_Cons by simp
  have body: "?parts (x @ p @ rest) = butlast (?parts (x @ p)) @ ?parts (?left @ rest)"
    using split_on_append [OF sep, of "x @ p" rest] by simp
  then have valid: "list_all valid_utf8 (butlast (?parts (s @ p)))"
    using assms(1) split split_on_Cons by (simp add: well_cut_def butlast_append)
  have "length (hd (?parts (?left @ rest))) < UPSTREAM_SSE_FRAME_MAX_BYTES"
    using assms(1) body split_on_Cons [of blank_line "?left @ rest"] by (simp add: well_cut_def list_all_iff)
  then have "length ?left \<le> UPSTREAM_SSE_FRAME_MAX_BYTES"
    using unfinished_length [OF split_once_last [OF sep], of "x @ p" rest] by simp
  then show "drain_complete_events (s @ p) = (Inr (butlast (?parts (s @ p))), ?left)"
    using drain_frames_valid [OF valid] left by (simp add: drain_complete_events_def)
qed

lemma stream_loop_whole:
  assumes "consumed env x s" and "well_cut (x @ concat ps)"
  shows "outcome_of (stream_end env (stream_loop env (map Piece ps) s)) = outcome_of (whole_response env (x @ concat ps))"
  using assms
proof (induction ps arbitrary: x s)
  case Nil
  let ?parts = "split_on blank_line x"
  obtain t u where t: "process_frames env (butlast ?parts) (stream_start env) = (Going, t)"
    "s = framed (last ?parts) u t" "ss_seq t = 0 \<Longrightarrow> u = take UPSTREAM_ERROR_BODY_MAX_BYTES x"
    using Nil(1) by (auto simp: consumed_def)
  then show ?case
    using after_silence_framed [OF t(3)] by (simp add: whole_response_def Let_def framed_frames stream_end_def)
next
  case (Cons p ps)
  let ?parts = "split_on blank_line"
  obtain t u where t: "process_frames env (butlast (?parts x)) (stream_start env) = (Going, t)"
    and s: "s = framed (last (?parts x)) u t" and u: "ss_seq t = 0 \<Longrightarrow> u = take UPSTREAM_ERROR_BODY_MAX_BYTES x"
    using Cons.prems(1) by (auto simp: consumed_def)
  have cut: "well_cut (x @ p @ concat ps)" using Cons.prems(2) by simp
  note drains = well_cut_drains [OF cut refl]
  let ?events = "butlast (?parts (last (?parts x) @ p))" and ?left = "last (?parts (x @ p))"
  obtain g t' where g: "process_frames env ?events t = (g, t')" by fastforce
  have whole: "process_frames env (butlast (?parts (x @ p))) (stream_start env) = (g, t')"
    using t g drains(2) by (simp add: process_frames_append)
  have prefix: "ss_seq s = 0 \<Longrightarrow> se_body (ss_ending s) = take UPSTREAM_ERROR_BODY_MAX_BYTES x" using s u by simp
  obtain u' where piece: "(buffer_piece p s)\<lparr>ss_buf := ?left\<rparr> = framed ?left u' s"
    and u': "ss_seq s = 0 \<Longrightarrow> u' = take UPSTREAM_ERROR_BODY_MAX_BYTES (x @ p)"
    using buffer_piece_framed [of s x ?left p] prefix by metis
  have "ss_buf (buffer_piece p s) = last (?parts x) @ p" using s by (simp add: buffer_piece_def Let_def)
  then have taken: "take_piece env p s = (g, framed ?left u' t')"
    using drains(1) piece s g by (simp add: take_piece_def framed_frames)
  show ?case
  proof (cases "g = Going")
    case True
    have "ss_seq t \<le> ss_seq t'" using frames_seq [OF g] .
    then have "consumed env (x @ p) (framed ?left u' t')"
      using whole True u' s by (auto simp: consumed_def)
    then show ?thesis using Cons.IH [of "x @ p"] cut taken True by simp
  next
    case False
    have "?parts ((x @ p) @ concat ps) = butlast (?parts (x @ p)) @ ?parts (?left @ concat ps)"
      by (rule split_on_append) (simp add: blank_line_def)
    then have "process_frames env (butlast (?parts (x @ p @ concat ps))) (stream_start env) = (g, t')"
      using whole False split_on_Cons by (cases g) (simp_all add: process_frames_append butlast_append)
    then show ?thesis
      using taken False stream_end_framed [OF False]
      by (cases g) (simp_all add: whole_response_def Let_def framed_frames)
  qed
qed

text \<open>
  C9: How the network cuts a response into pieces does not matter: a body whose complete frames are text and
  whose frames are below the cap gives the outcome, the output and the diagnosis of reading it whole.
\<close>

theorem pieces_do_not_matter:
  "well_cut (concat pieces) \<Longrightarrow>
    outcome_of (stream_response env (map Piece pieces)) = outcome_of (whole_response env (concat pieces))"
proof -
  assume cut: "well_cut (concat pieces)"
  have "split_on blank_line [] = [[]]"
    by (subst split_on.simps, subst split_once.simps) (simp add: strip_prefix_def blank_line_def)
  then have "consumed env [] (stream_start env)"
    by (auto simp: consumed_def framed_def stream_start_def fresh_ending_def)
  then show ?thesis using stream_loop_whole [of env "[]"] cut by (simp add: stream_response_def)
qed

theorem pieces_do_not_matter_witness:
  "outcome_of (stream_response sample_upstream (map Piece sample_pieces))
    = outcome_of (whole_response sample_upstream (concat sample_pieces))"
proof (rule pieces_do_not_matter)
  have "split_on blank_line (concat sample_pieces) = [''data: A'', ''data: B'', ''data: [DONE]'', []]" by code_simp
  moreover have "list_all valid_utf8 [''data: A'', ''data: B'', ''data: [DONE]'']" by code_simp
  ultimately show "well_cut (concat sample_pieces)" by (simp add: well_cut_def UPSTREAM_SSE_FRAME_MAX_BYTES_def)
qed

section \<open>The totals a provider states\<close>

text \<open>
  What a body says of its tokens, read off its documents: a frame states a total where its document has a number at
  \<open>completion_tokens\<close> of \<open>usage\<close>, or else of \<open>x_groq.usage\<close>. The frames of a body end at blank lines, and nothing
  after the frame \<open>[DONE]\<close> counts.
\<close>

definition tokens_at :: "json option \<Rightarrow> nat option" where
  "tokens_at container =
    (case container of Some (JObj obj) \<Rightarrow> Option.bind (hget obj ''completion_tokens'') as_u64 | _ \<Rightarrow> None)"

definition document_total :: "json \<Rightarrow> nat option" where
  "document_total v =
    (case tokens_at (json_get v ''usage'') of
       Some n \<Rightarrow> Some n
     | None \<Rightarrow> tokens_at (Option.bind (json_get v ''x_groq'') (\<lambda>groq. json_get groq ''usage'')))"

definition stated_total :: "(string \<Rightarrow> json option) \<Rightarrow> string \<Rightarrow> nat option" where
  "stated_total json frame =
    (if frame_data frame = [] then None else Option.bind (json (frame_data frame)) document_total)"

definition frame_totals :: "(string \<Rightarrow> json option) \<Rightarrow> string list \<Rightarrow> nat list" where
  "frame_totals json frames =
    List.map_filter (stated_total json) (takeWhile (\<lambda>f. frame_data f \<noteq> ''[DONE]'') frames)"

definition provider_totals :: "(string \<Rightarrow> json option) \<Rightarrow> string \<Rightarrow> nat list" where
  "provider_totals json body = frame_totals json (butlast (split_on blank_line body))"

lemma native_total_tokens: "native_output_total c = Inr u \<Longrightarrow> u = tokens_at c"
  by (auto simp: native_output_total_def tokens_at_def as_u64_def ok_or_else_def
      split: option.splits json.splits if_splits)

lemma frame_usage_document: "frame_native_usage v = Inr u \<Longrightarrow> u = document_total v"
  by (auto simp: frame_native_usage_def document_total_def agreed_def groq_usage_def result_simps
      dest!: native_total_tokens split: option.splits if_splits)

text \<open>What a frame is read as agrees with what it states.\<close>

lemma parse_event_total:
  assumes "parse_event json event = Inr parsed"
  shows "parsed = Done \<longleftrightarrow> frame_data event = ''[DONE]''"
    and "parsed \<noteq> Done \<Longrightarrow> stated_total json event = (case parsed of Frame _ _ usage _ \<Rightarrow> usage | _ \<Rightarrow> None)"
  using assms
  by (auto simp: parse_event_def stated_total_def Let_def bare_usage_def result_simps dest!: frame_usage_document
      split: if_splits option.splits list.splits)

text \<open>The state after a frame: the total it holds is the one stated so far, if there is one.\<close>

fun tracks_frame :: "StreamEnv \<Rightarrow> string \<Rightarrow> ResponseState \<Rightarrow> StreamFlow \<times> ResponseState \<Rightarrow> bool" where
  "tracks_frame env event s (Going, t) \<longleftrightarrow> frame_data event \<noteq> ''[DONE]''
    \<and> set_option (ss_usage t) = set_option (ss_usage s) \<union> set_option (stated_total (ev_json env) event)"
| "tracks_frame env event s (SawDone, t) \<longleftrightarrow> frame_data event = ''[DONE]'' \<and> ss_usage t = ss_usage s"
| "tracks_frame env event s (Returned r, t) \<longleftrightarrow> True"

lemma frame_tracks: "tracks_frame env event s (process_frame env event s)"
proof (cases "observe_capability env event s")
  case (Inl e)
  then show ?thesis by (simp add: process_frame_def)
next
  case cap: (Inr p)
  obtain evidence u where p: "p = (evidence, u)" by fastforce
  have used: "ss_usage u = ss_usage s"
    using cap p by (auto simp: observe_capability_def result_simps split: option.splits)
  show ?thesis
  proof (cases "parse_event (ev_json env) event")
    case (Inl e)
    then show ?thesis using cap p by (simp add: process_frame_def)
  next
    case (Inr parsed)
    note parse = parse_event_total [OF Inr]
    show ?thesis
    proof (cases parsed)
      case (Frame words reasoning usage model)
      let ?u = "identified model (observe_output words reasoning u)"
      have start: "ss_usage ?u = ss_usage s" using used by (simp add: identified_def observe_output_def)
      have stated: "stated_total (ev_json env) event = usage" "frame_data event \<noteq> ''[DONE]''" using parse Frame by simp_all
      have "tracks_frame env event s (record_usage env any n ?u)" if "usage = Some n" for any n
        using that start stated by (auto simp: record_usage_def split: option.split)
      moreover have "tracks_frame env event s (forward_output env tool words reasoning ?u)" if "usage = None" for tool
        using that start stated by (auto simp: forward_output_def send_event_def Let_def)
      ultimately show ?thesis using cap p Inr Frame by (simp add: process_frame_def Let_def split: option.split)
    qed (use cap p Inr used parse in \<open>simp_all add: process_frame_def\<close>)
  qed
qed

lemma frame_totals_Cons:
  "frame_totals json (f # fs) = (if frame_data f = ''[DONE]'' then []
    else (case stated_total json f of None \<Rightarrow> frame_totals json fs | Some n \<Rightarrow> n # frame_totals json fs))"
  by (simp add: frame_totals_def List.map_filter_def split: option.split)

lemma frame_totals_append:
  "frame_totals json (xs @ ys)
    = (if \<exists>f \<in> set xs. frame_data f = ''[DONE]'' then frame_totals json xs else frame_totals json xs @ frame_totals json ys)"
  by (induction xs) (auto simp: frame_totals_Cons frame_totals_def split: option.split)

lemma frames_track:
  assumes "process_frames env events s = (g, t)"
  shows "g = SawDone \<or> g = Going \<Longrightarrow> (g = SawDone \<longleftrightarrow> (\<exists>f \<in> set events. frame_data f = ''[DONE]''))
    \<and> set_option (ss_usage t) = set_option (ss_usage s) \<union> set (frame_totals (ev_json env) events)"
  using assms
proof (induction events arbitrary: s)
  case Nil
  then show ?case by (simp add: frame_totals_def)
next
  case (Cons event events)
  obtain h u where h: "process_frame env event s = (h, u)" by fastforce
  have track: "tracks_frame env event s (h, u)" using frame_tracks [of env event s] h by simp
  show ?case
  proof (cases h)
    case Going
    then have "process_frames env events u = (g, t)" using Cons.prems(2) h by simp
    then show ?thesis
      using Cons.IH [of u] Cons.prems(1) track Going by (auto simp: frame_totals_Cons split: option.split)
  next
    case SawDone
    then show ?thesis using Cons.prems(2) h track by (auto simp: frame_totals_Cons)
  next
    case (Returned r)
    then show ?thesis using Cons.prems h by auto
  qed
qed

lemma drain_frames_split:
  "drain_frames buf = (Inr events, left) \<Longrightarrow> split_on blank_line buf = events @ [left]"
proof (induction buf arbitrary: events rule: drain_frames.induct)
  case (1 buf)
  show ?case
  proof (cases "split_once blank_line buf")
    case None
    then show ?thesis using 1(2) by (subst split_on.simps) (simp add: drain_frames.simps)
  next
    case (Some q)
    obtain frame rest where q: "q = (frame, rest)" by fastforce
    have split: "split_on blank_line buf = frame # split_on blank_line rest"
      using Some q by (subst split_on.simps) (simp add: blank_line_def)
    obtain events' where "drain_frames rest = (Inr events', left)" "events = frame # events'" "valid_utf8 frame"
      using 1(2) Some q by (subst (asm) drain_frames.simps) (auto split: if_splits prod.splits sum.splits)
    then show ?thesis using 1(1) [OF Some q [symmetric]] split by simp
  qed
qed

text \<open>The bytes of a response as far as they were read, and what the loop knows of them.\<close>

definition bytes_read :: "Read list \<Rightarrow> string" where
  "bytes_read reads = concat (map (\<lambda>r. case r of Piece bytes \<Rightarrow> bytes | _ \<Rightarrow> []) reads)"

definition tracked :: "StreamEnv \<Rightarrow> string \<Rightarrow> ResponseState \<Rightarrow> bool" where
  "tracked env x s \<longleftrightarrow> ss_buf s = last (split_on blank_line x)
    \<and> (\<forall>f \<in> set (butlast (split_on blank_line x)). frame_data f \<noteq> ''[DONE]'')
    \<and> set_option (ss_usage s) = set (provider_totals (ev_json env) x)"

lemma loop_tracks:
  assumes "tracked env x s" and "stream_loop env reads s = (SawDone, t)"
  shows "set_option (ss_usage t) = set (provider_totals (ev_json env) (x @ bytes_read reads))"
  using assms
proof (induction reads arbitrary: x s)
  case (Cons r reads)
  show ?case
  proof (cases r)
    case (Piece bytes)
    let ?parts = "split_on blank_line"
    have sep: "blank_line \<noteq> []" by (simp add: blank_line_def)
    obtain h u where h: "take_piece env bytes s = (h, u)" by fastforce
    then have live: "h = Going \<or> h = SawDone" using Cons.prems(2) Piece by (cases h) auto
    let ?s = "\<lambda>left. (buffer_piece bytes s)\<lparr>ss_buf := left\<rparr>"
    have buf: "ss_buf (buffer_piece bytes s) = last (?parts x) @ bytes" "\<And>left. ss_usage (?s left) = ss_usage s"
      using Cons.prems(1) by (simp_all add: tracked_def buffer_piece_def Let_def)
    then obtain events left where drained: "drain_frames (last (?parts x) @ bytes) = (Inr events, left)"
      and frames: "process_frames env events (?s left) = (h, u)"
      using h live by (auto simp: take_piece_def drain_complete_events_def Let_def split: prod.splits sum.splits if_splits)
    have parts: "?parts (x @ bytes) = butlast (?parts x) @ events @ [left]"
      using split_on_append [OF sep, of x bytes] drain_frames_split [OF drained] by simp
    note step = frames_track [OF frames]
    have totals: "set_option (ss_usage u) = set (provider_totals (ev_json env) (x @ bytes))"
      using step live Cons.prems(1) buf(2) parts
      by (auto simp: tracked_def provider_totals_def frame_totals_append butlast_append)
    show ?thesis
    proof (cases "h = Going")
      case True
      have "ss_buf u = left" using frames_keep(1) [OF frames] by simp
      then have "tracked env (x @ bytes) u"
        using totals step True Cons.prems(1) parts by (auto simp: tracked_def butlast_append)
      then show ?thesis using Cons.IH [of "x @ bytes" u] Cons.prems(2) Piece h True by (simp add: bytes_read_def)
    next
      case False
      have "?parts ((x @ bytes) @ bytes_read reads) = butlast (?parts (x @ bytes)) @ ?parts (left @ bytes_read reads)"
        using split_on_append [OF sep, of "x @ bytes"] parts by simp
      moreover have "\<exists>f \<in> set (butlast (?parts (x @ bytes))). frame_data f = ''[DONE]''"
        using step live False parts by (auto simp: butlast_append)
      ultimately have "provider_totals (ev_json env) (x @ bytes @ bytes_read reads) = provider_totals (ev_json env) (x @ bytes)"
        using split_on_Cons by (simp add: provider_totals_def frame_totals_append butlast_append)
      then show ?thesis using totals Cons.prems(2) Piece h live False by (simp add: bytes_read_def)
    qed
  qed (use Cons in \<open>auto simp: bytes_read_def split: if_splits\<close>)
qed simp

lemma response_totals:
  assumes "stream_loop env reads (stream_start env) = (SawDone, t)"
  shows "set_option (ss_usage t) = set (provider_totals (ev_json env) (bytes_read reads))"
proof -
  have "split_on blank_line [] = [[]]"
    by (subst split_on.simps, subst split_once.simps) (simp add: strip_prefix_def blank_line_def)
  then have "tracked env [] (stream_start env)"
    by (simp add: tracked_def provider_totals_def frame_totals_def stream_start_def)
  from loop_tracks [OF this assms] show ?thesis by simp
qed

text \<open>The body of the answer a request ended with: attempts before it are tried again.\<close>

fun final_attempt :: "StreamEnv \<Rightarrow> string \<Rightarrow> 't CanonRequest \<Rightarrow> UpstreamAttempt list \<Rightarrow> UpstreamAttempt option" where
  "final_attempt env key request [] = None"
| "final_attempt env key request (a # as) =
    (if fst (try_provider env key request a) = None then final_attempt env key request as else Some a)"

definition final_body :: "StreamEnv \<Rightarrow> string \<Rightarrow> 't CanonRequest \<Rightarrow> UpstreamAttempt list \<Rightarrow> string" where
  "final_body env key request attempts =
    (case final_attempt env key request attempts of
       None \<Rightarrow> []
     | Some a \<Rightarrow> (case at_answer a of Response _ _ _ _ reads \<Rightarrow> bytes_read reads | _ \<Rightarrow> []))"

section \<open>Completed output is billed\<close>

text \<open>The gateway listens to the end: it takes every event and never closes its end.\<close>

definition listens :: "StreamEnv \<Rightarrow> UpstreamAttempt list \<Rightarrow> bool" where
  "listens env attempts \<longleftrightarrow>
    (\<forall>n. ev_takes env n)
    \<and> list_all (\<lambda>a. \<not> at_leaves a \<and>
        (case at_answer a of
           GatewayLeft \<Rightarrow> False | Response _ _ _ _ reads \<Rightarrow> GatewayClosed \<notin> set reads | _ \<Rightarrow> True)) attempts"

lemma frame_not_left:
  assumes "\<And>n. ev_takes env n"
  shows "fst (process_frame env event s) \<noteq> Returned (Inr ())"
proof -
  have "fst (record_usage env any n t) \<noteq> Returned (Inr ())" for any n t
    by (simp add: record_usage_def split: option.split)
  moreover have "fst (forward_output env tool words reasoning t) \<noteq> Returned (Inr ())" for tool words reasoning t
    using assms by (simp add: forward_output_def send_event_def Let_def)
  ultimately show ?thesis
    unfolding process_frame_def
    by (auto simp: Let_def split: sum.split prod.split ParsedEvent.split option.split)
qed

lemma frames_not_left:
  assumes "\<And>n. ev_takes env n"
  shows "fst (process_frames env events s) \<noteq> Returned (Inr ())"
proof (induction events arbitrary: s)
  case (Cons event events)
  obtain g u where "process_frame env event s = (g, u)" by fastforce
  then show ?case using Cons frame_not_left [OF assms, of event s] by (cases g) simp_all
qed simp

lemma loop_not_left:
  assumes "\<And>n. ev_takes env n" and "GatewayClosed \<notin> set reads"
  shows "fst (stream_loop env reads s) \<noteq> Returned (Inr ())"
  using assms(2)
proof (induction env\<equiv>env reads s rule: stream_loop.induct)
  case (5 bytes reads s)
  obtain g u where g: "take_piece env bytes s = (g, u)" by fastforce
  have "g \<noteq> Returned (Inr ())"
    using frames_not_left [OF assms(1)] g
    by (auto simp: take_piece_def Let_def split: prod.splits sum.splits) (metis fst_conv)
  then show ?case using 5 g by (cases g) simp_all
qed simp_all

text \<open>Billed at what the body states, or neither output nor a positive total.\<close>

definition billed_as_stated :: "(string \<Rightarrow> json option) \<Rightarrow> string \<Rightarrow> Sent list \<Rightarrow> bool" where
  "billed_as_stated json body sent \<longleftrightarrow>
    sent = [] \<and> set (provider_totals json body) \<subseteq> {0}
    \<or> (\<exists>n. 0 < n \<and> set (provider_totals json body) = {n} \<and> sent \<noteq> [] \<and> last sent = SentAccounted n)"

lemma stream_response_billed:
  assumes "\<And>n. ev_takes env n" and "GatewayClosed \<notin> set reads" and "stream_response env reads = (Inr (), s)"
  shows "billed_as_stated (ev_json env) (bytes_read reads) (ss_sent s)"
proof -
  obtain f t where loop: "stream_loop env reads (stream_start env) = (f, t)" by fastforce
  have "f \<noteq> Returned (Inr ())" using loop_not_left [OF assms(1,2)] loop by (metis fst_conv)
  then have f: "f = SawDone" and ends: "after_done env t = (Inr (), s)"
    using assms(3) loop by (cases f; simp add: stream_response_def stream_end_def after_silence_def Let_def)+
  have "ss_seq t = 0 \<Longrightarrow> ss_sent t = []"
    using stream_inv_loop [OF stream_inv_start, of env reads] loop f by (auto simp: stream_inv_def Let_def)
  moreover have totals: "set (provider_totals (ev_json env) (bytes_read reads)) = set_option (ss_usage t)"
    using response_totals loop f by blast
  ultimately show ?thesis
    using ends assms(1) unfolding billed_as_stated_def totals
    by (auto simp: after_done_def send_event_def split: sum.splits if_splits option.splits)
qed

text \<open>An attempt that succeeds while the gateway listens has read a response to its end.\<close>

lemma try_provider_succeeds:
  assumes "try_provider env key request a = (Some (Inr ()), sent)" and "\<not> at_leaves a" and "at_answer a \<noteq> GatewayLeft"
  obtains status after kind errors reads s where "at_answer a = Response status after kind errors reads"
    and "stream_response env reads = (Inr (), s)" and "sent = ss_sent s"
proof (cases "at_answer a")
  case (Response status after kind errors reads)
  obtain r s where r: "stream_response env reads = (r, s)" by fastforce
  have "r = Inr () \<and> sent = ss_sent s"
    using assms(1,2) Response r
    by (cases r) (auto simp: try_provider_def retry_or_end_def wait_for_retry_def Let_def split: if_splits)
  then show thesis using that Response r by blast
qed (use assms in \<open>auto simp: try_provider_def retry_or_end_def wait_for_retry_def Let_def split: if_splits\<close>)

lemma upstream_unfinished: "stream_upstream env key request attempts = (None, sent) \<Longrightarrow> sent = []"
proof (induction attempts arbitrary: env sent)
  case (Cons a attempts)
  obtain r sent' where a: "try_provider env key request a = (r, sent')" by fastforce
  then have "r = None" using Cons.prems by (cases r) simp_all
  moreover have "sent' = []" using try_provider_ends(2) [OF a] calculation by simp
  ultimately show ?case using a Cons.prems Cons.IH [of env] by (auto split: prod.splits)
qed simp

lemma upstream_billed_as_stated:
  "listens env attempts \<Longrightarrow> stream_upstream env key request attempts = (Some (Inr ()), sent) \<Longrightarrow>
    billed_as_stated (ev_json env) (final_body env key request attempts) sent"
proof (induction attempts arbitrary: env sent)
  case (Cons a attempts)
  obtain r sent' where a: "try_provider env key request a = (r, sent')" by fastforce
  show ?case
  proof (cases r)
    case None
    then have "sent' = []" using try_provider_ends(2) [OF a] by simp
    then have "stream_upstream env key request attempts = (Some (Inr ()), sent)"
      using a None Cons.prems(2) by (simp split: prod.splits)
    then show ?thesis using Cons.IH [of env sent] Cons.prems(1) a None by (simp add: listens_def final_body_def)
  next
    case (Some x)
    then have attempt: "try_provider env key request a = (Some (Inr ()), sent)" using a Cons.prems(2) by simp
    have takes: "\<And>n. ev_takes env n" using Cons.prems(1) by (simp add: listens_def)
    have stays: "\<not> at_leaves a" "at_answer a \<noteq> GatewayLeft" using Cons.prems(1) by (auto simp: listens_def)
    obtain status after kind errors reads s where answer: "at_answer a = Response status after kind errors reads"
      and response: "stream_response env reads = (Inr (), s)" and sent: "sent = ss_sent s"
      by (rule try_provider_succeeds [OF attempt stays])
    have "GatewayClosed \<notin> set reads" using Cons.prems(1) answer by (simp add: listens_def)
    from stream_response_billed [OF takes this response] show ?thesis
      using a Some sent answer by (simp add: final_body_def)
  qed
qed simp

text \<open>
  C38: While the gateway listens, a request that succeeds is billed at what the provider states: where anything was
  delivered, the last thing the gateway receives is the bill, it is positive, and every total the answer states
  before its \<open>[DONE]\<close>, and there is one, is this number; where nothing was delivered, the answer states no positive
  total.
\<close>

theorem completed_output_is_billed:
  assumes "listens env attempts" and "stream_upstream env key request attempts = (Some (Inr ()), sent)"
  shows "sent = [] \<and> set (provider_totals (ev_json env) (final_body env key request attempts)) \<subseteq> {0}
    \<or> (\<exists>n. 0 < n \<and> set (provider_totals (ev_json env) (final_body env key request attempts)) = {n}
        \<and> sent \<noteq> [] \<and> last sent = SentAccounted n)"
  using upstream_billed_as_stated [OF assms] by (simp add: billed_as_stated_def)

lemma sample_listens: "listens sample_upstream sample_attempts"
  by (simp add: listens_def sample_upstream_def sample_attempts_def sample_pieces_def)

lemma sample_final: "final_body sample_upstream ''key'' sample_prompt sample_attempts = concat sample_pieces"
proof -
  let ?asked = "try_provider sample_upstream ''key'' sample_prompt"
  let ?a = "hd sample_attempts" and ?b = "hd (tl sample_attempts)"
  have attempts: "sample_attempts = [?a, ?b]" by (simp add: sample_attempts_def)
  have first: "?asked ?a = (None, [])"
    by (simp add: sample_attempts_def try_provider_def retry_or_end_def wait_for_retry_def)
  obtain r sent where second: "?asked ?b = (r, sent)" by fastforce
  have "stream_upstream sample_upstream ''key'' sample_prompt [?a, ?b] = (Some (Inr ()), sample_sent)"
    using sample_upstream_run unfolding attempts [symmetric] .
  then have "r \<noteq> None" using first second by (cases r) simp_all
  then have "final_attempt sample_upstream ''key'' sample_prompt [?a, ?b] = Some ?b" using first second by simp
  then have "final_attempt sample_upstream ''key'' sample_prompt sample_attempts = Some ?b"
    unfolding attempts [symmetric] .
  then show ?thesis by (simp add: final_body_def) (simp add: sample_attempts_def bytes_read_def comp_def)
qed

theorem completed_output_is_billed_witness:
  "set (provider_totals sample_json (concat sample_pieces)) = {2} \<and> last sample_sent = SentAccounted 2"
proof -
  have "ev_json sample_upstream = sample_json" "sample_sent \<noteq> []" "last sample_sent = SentAccounted 2"
    by (simp_all add: sample_upstream_def sample_sent_def)
  then show ?thesis
    using completed_output_is_billed [OF sample_listens sample_upstream_run] unfolding sample_final by auto
qed

section \<open>The relay of what the adapter delivers\<close>

text \<open>What the gateway's relay receives when the buyer takes every chunk; \<open>render\<close> is the text of a status.\<close>

definition relay_chunk :: "OutChunk \<Rightarrow> CanonChunk" where
  "relay_chunk c = \<lparr> ch_name = show_nat (oc_seq c), ch_text = oc_text c, ch_reasoning = oc_reasoning c \<rparr>"

fun arrival :: "(upstream_fault \<Rightarrow> string) \<Rightarrow> Delivered \<Rightarrow> Arrival" where
  "arrival render (DeliveredEvent (SentChunk c)) = Event (UpChunk (relay_chunk c) 0 True)"
| "arrival render (DeliveredEvent (SentAccounted n)) = Event (UpAccounted n)"
| "arrival render (DeliveredError e) = Event (UpError (Upstream (render e)))"

definition has_chunk :: "Delivered list \<Rightarrow> bool" where
  "has_chunk ds \<longleftrightarrow> list_ex (\<lambda>d. case d of DeliveredEvent (SentChunk _) \<Rightarrow> True | _ \<Rightarrow> False) ds"

definition failed :: "Delivered list \<Rightarrow> bool" where
  "failed ds \<longleftrightarrow> list_ex (\<lambda>d. case d of DeliveredError _ \<Rightarrow> True | _ \<Rightarrow> False) ds"

text \<open>The totals the provider states in the answer the request ended with; none where no request is made.\<close>

definition stated_by_provider ::
  "StreamEnv \<Rightarrow> string option \<Rightarrow> 't CanonRequest option \<Rightarrow> UpstreamAttempt list \<Rightarrow> nat set" where
  "stated_by_provider env api_key request attempts =
    (case (api_key, request) of
       (Some key, Some req) \<Rightarrow> set (provider_totals (ev_json env) (final_body env key req attempts))
     | _ \<Rightarrow> {})"

text \<open>The shapes of a delivery to a buyer: output alone, output with its bill, output with the failure.\<close>

definition delivery_shape :: "OutChunk list \<Rightarrow> Delivered list \<Rightarrow> bool" where
  "delivery_shape cs ds \<longleftrightarrow>
    (let out = map (DeliveredEvent \<circ> SentChunk) cs in
     ds = out \<or> (\<exists>n. ds = out @ [DeliveredEvent (SentAccounted n)] \<and> 0 < n \<and> cs \<noteq> []) \<or> (\<exists>e. ds = out @ [DeliveredError e]))"

lemma run_upstream_shape:
  assumes "ev_requirements env = None"
  obtains cs where "numbered cs" and "delivery_shape cs (run_upstream env api_key request attempts)"
proof -
  have empty: thesis if "delivery_shape [] (run_upstream env api_key request attempts)"
    using that by (rule \<open>\<And>cs. numbered cs \<Longrightarrow> delivery_shape cs _ \<Longrightarrow> thesis\<close> [OF numbered_Nil])
  show thesis
  proof (cases "ev_count env = 0 \<or> resolve_model_output_cap (oa_max_output_tokens (ev_cfg env)) = Inl NoOutputCap
      \<or> api_key = None \<or> request = None")
    case True
    then show thesis
      by (intro empty)
        (auto simp: run_upstream_def delivery_shape_def Let_def split: sum.split option.split)
  next
    case False
    then obtain cap key req where given: "ev_count env \<noteq> 0" "api_key = Some key" "request = Some req"
      "resolve_model_output_cap (oa_max_output_tokens (ev_cfg env)) = Inr cap"
      by (auto simp: resolve_model_output_cap_def split: option.splits if_splits)
    obtain r sent where up: "stream_upstream env key req attempts = (r, sent)" by fastforce
    have "billed_once env r sent" using upstream_bills [of env key req attempts] up by simp
    then obtain cs where cs: "numbered cs"
      "sent = map SentChunk cs \<or> (\<exists>n. sent = map SentChunk cs @ [SentAccounted n] \<and> 0 < n \<and> cs \<noteq> [] \<and> r = Some (Inr ()))"
      using assms by (auto simp: billed_once_def)
    show thesis
    proof (rule that [OF cs(1)])
      show "delivery_shape cs (run_upstream env api_key request attempts)"
        using given up cs(2) by (auto simp: run_upstream_def delivery_shape_def Let_def split: option.split sum.split)
    qed
  qed
qed

lemma run_upstream_billed:
  assumes "listens env attempts" and "has_chunk (run_upstream env api_key request attempts)"
    and "\<not> failed (run_upstream env api_key request attempts)"
  shows "\<exists>n. 0 < n \<and> n \<le> ev_count env \<and> stated_by_provider env api_key request attempts = {n}
    \<and> last (run_upstream env api_key request attempts) = DeliveredEvent (SentAccounted n)"
proof -
  have takes: "\<And>n. ev_takes env n" using assms(1) by (simp add: listens_def)
  let ?ds = "run_upstream env api_key request attempts"
  obtain key req where given: "api_key = Some key" "request = Some req" "ev_count env \<noteq> 0"
    "\<exists>cap. resolve_model_output_cap (oa_max_output_tokens (ev_cfg env)) = Inr cap"
    using assms(2,3)
    by (auto simp: run_upstream_def has_chunk_def failed_def Let_def takes split: if_splits sum.splits option.splits)
  obtain r sent where up: "stream_upstream env key req attempts = (r, sent)" by fastforce
  have ds: "?ds = map DeliveredEvent sent" and r: "r = None \<or> r = Some (Inr ())"
    using assms(3) given up takes
    by (auto simp: run_upstream_def failed_def Let_def split: option.splits sum.splits)
  have bills: "billed_once env r sent" using upstream_bills [of env key req attempts] up by simp
  have "sent \<noteq> []" using assms(2) ds by (auto simp: has_chunk_def)
  moreover have "sent = []" if "r = None" using upstream_unfinished up that by metis
  ultimately have "r = Some (Inr ())" using r by blast
  from upstream_billed_as_stated [OF assms(1) up [unfolded this]] \<open>sent \<noteq> []\<close>
  obtain n where n: "0 < n" "set (provider_totals (ev_json env) (final_body env key req attempts)) = {n}"
    "last sent = SentAccounted n" by (auto simp: billed_as_stated_def)
  moreover obtain cs where "sent = map SentChunk cs \<or> (\<exists>m. sent = map SentChunk cs @ [SentAccounted m] \<and> m \<le> ev_count env)"
    using bills by (auto simp: billed_once_def)
  then have "n \<le> ev_count env" using n(3) \<open>sent \<noteq> []\<close> by (cases cs rule: rev_cases) auto
  ultimately show ?thesis using given ds \<open>sent \<noteq> []\<close> by (simp add: stated_by_provider_def last_map)
qed

lemma relay_chunks:
  assumes "list_all (\<lambda>c. oc_text c \<noteq> [] \<or> oc_reasoning c \<noteq> []) cs"
  shows "relay_loop deal_delivery report (map (arrival render \<circ> DeliveredEvent \<circ> SentChunk) cs @ rest) awaiting charged r
    = after_actions (map (\<lambda>c. Forwarded (relay_chunk c) 0) cs)
        (relay_loop deal_delivery report rest (awaiting \<or> cs \<noteq> []) charged r)"
  using assms
proof (induction cs arbitrary: awaiting)
  case (Cons c cs)
  then have "has_output (relay_chunk c)" by (simp add: has_output_def relay_chunk_def)
  then show ?case using Cons by (simp add: deal_delivery_def after_actions_def Let_def)
qed (simp add: after_actions_def)

lemma has_chunk_chunks: "has_chunk (map (DeliveredEvent \<circ> SentChunk) cs @ rest) \<longleftrightarrow> cs \<noteq> [] \<or> has_chunk rest"
  by (cases cs) (simp_all add: has_chunk_def)

lemma failed_chunks: "failed (map (DeliveredEvent \<circ> SentChunk) cs @ rest) \<longleftrightarrow> failed rest"
  by (induction cs) (simp_all add: failed_def)

lemma relay_counting_loop:
  assumes "e = relay_counting deal_delivery report arrivals count"
  shows "re_recorder e = re_recorder (relay_loop deal_delivery report arrivals False 0 count)"
    "re_finish e = re_finish (relay_loop deal_delivery report arrivals False 0 count)"
    "re_error e = re_error (relay_loop deal_delivery report arrivals False 0 count)"
  using assms by (simp_all add: relay_counting_def deal_delivery_def Let_def split: option.split)

text \<open>
  C7: From the provider's answer to the deal's count. While the gateway listens and the buyer takes every chunk, a
  request that delivers output and does not fail adds to the count exactly the total the provider states in its
  answer, once, and ends clean; a request that delivers nothing or fails adds nothing, and ends ambiguous
  exactly if it fails after output was delivered. It ends without an error exactly if it ends clean. The limit of
  the request is assumed to fit on top of the count.
\<close>

theorem provider_total_is_recorded:
  assumes "ev_requirements env = None" and "listens env attempts" and "ds = run_upstream env api_key request attempts"
    and "count + ev_count env \<le> U64_MAX"
    and "e = relay_counting deal_delivery report (map (arrival render) ds) count"
  shows "(if has_chunk ds \<and> \<not> failed ds
      then (\<exists>n. 0 < n \<and> stated_by_provider env api_key request attempts = {n} \<and> re_recorder e = count + n) \<and> re_finish e = Clean
      else re_recorder e = count)
    \<and> (re_finish e = AmbiguousUsage \<longleftrightarrow> has_chunk ds \<and> failed ds)
    \<and> (re_error e = None \<longleftrightarrow> re_finish e = Clean)"
proof -
  obtain cs where cs: "numbered cs" "delivery_shape cs ds" using run_upstream_shape [OF assms(1)] assms(3) by metis
  have out: "list_all (\<lambda>c. oc_text c \<noteq> [] \<or> oc_reasoning c \<noteq> []) cs"
    using cs(1) by (auto simp: numbered_def list_all_iff)
  let ?relay = "\<lambda>rest. relay_loop deal_delivery report (map (arrival render) (map (DeliveredEvent \<circ> SentChunk) cs @ rest))
    False 0 count"
  have relay: "?relay rest = after_actions (map (\<lambda>c. Forwarded (relay_chunk c) 0) cs)
      (relay_loop deal_delivery report (map (arrival render) rest) (cs \<noteq> []) 0 count)" for rest
    using relay_chunks [OF out, of report render "map (arrival render) rest" False 0 count] by (simp add: comp_assoc)
  note e = relay_counting_loop [OF assms(5)]
  have billed: "\<exists>n. 0 < n \<and> n \<le> ev_count env \<and> stated_by_provider env api_key request attempts = {n}
      \<and> last ds = DeliveredEvent (SentAccounted n)" if "has_chunk ds" "\<not> failed ds"
    using run_upstream_billed [OF assms(2)] that assms(3) by blast
  consider "ds = map (DeliveredEvent \<circ> SentChunk) cs @ []"
    | n where "ds = map (DeliveredEvent \<circ> SentChunk) cs @ [DeliveredEvent (SentAccounted n)]" "0 < n" "cs \<noteq> []"
    | f where "ds = map (DeliveredEvent \<circ> SentChunk) cs @ [DeliveredError f]"
    using cs(2) by (auto simp: delivery_shape_def Let_def)
  then show ?thesis
  proof cases
    case 1
    have "cs = []"
    proof (rule ccontr)
      assume "cs \<noteq> []"
      then show False using billed 1 has_chunk_chunks [of _ "[]"] failed_chunks [of _ "[]"] by (auto simp: failed_def last_map)
    qed
    then show ?thesis unfolding e unfolding 1 relay
      by (simp add: after_actions_def stops_def has_chunk_def failed_def)
  next
    case (2 n)
    have "\<not> failed ds" "has_chunk ds" unfolding 2(1) has_chunk_chunks failed_chunks using 2(3) by (simp_all add: failed_def)
    with billed have n: "n \<le> ev_count env" "stated_by_provider env api_key request attempts = {n}" using 2(1) by auto
    have "checked_authoritative_tokens count n = Inr (count + n)"
      using assms(4) n(1) by (simp add: checked_authoritative_tokens_def ok_or_else_def checked_add_def)
    then show ?thesis using 2(2,3) n(2) \<open>\<not> failed ds\<close> \<open>has_chunk ds\<close> unfolding e unfolding 2(1) relay
      by (simp add: after_actions_def stops_def deal_delivery_def)
  next
    case (3 f)
    have "failed ds" "has_chunk ds \<longleftrightarrow> cs \<noteq> []" unfolding 3 has_chunk_chunks failed_chunks by (simp_all add: failed_def has_chunk_def)
    then show ?thesis unfolding e unfolding 3 relay
      by (simp add: after_actions_def stops_def cut_short_def)
  qed
qed

lemma sample_delivery:
  "run_upstream sample_upstream (Some ''key'') (Some sample_prompt) sample_attempts = map DeliveredEvent sample_sent"
proof -
  have "resolve_model_output_cap (oa_max_output_tokens (ev_cfg sample_upstream)) = Inr 100" "ev_count sample_upstream \<noteq> 0"
    by (simp_all add: resolve_model_output_cap_def sample_upstream_def sample_config_def)
  then show ?thesis by (simp add: run_upstream_def sample_upstream_run)
qed

theorem provider_total_is_recorded_witness:
  "re_recorder (relay_counting deal_delivery True
     (map (arrival (\<lambda>_. [])) (run_upstream sample_upstream (Some ''key'') (Some sample_prompt) sample_attempts)) 5) = 7"
proof -
  let ?ds = "run_upstream sample_upstream (Some ''key'') (Some sample_prompt) sample_attempts"
  have shape: "has_chunk ?ds" "\<not> failed ?ds" by (simp_all add: sample_delivery sample_sent_def has_chunk_def failed_def)
  have "split_on blank_line (concat sample_pieces) = [''data: A'', ''data: B'', ''data: [DONE]'', []]" by code_simp
  moreover have "frame_totals sample_json [''data: A'', ''data: B'', ''data: [DONE]''] = [2]"
  proof -
    have datas: "frame_data ''data: A'' = ''A''" "frame_data ''data: B'' = ''B''" "frame_data ''data: [DONE]'' = ''[DONE]''"
      by code_simp+
    show ?thesis
      by (simp add: frame_totals_Cons stated_total_def datas sample_json_def document_total_def tokens_at_def json_get_def
          hget_def as_u64_def MAX_defs)
  qed
  ultimately have "stated_by_provider sample_upstream (Some ''key'') (Some sample_prompt) sample_attempts = {2}"
    by (simp add: stated_by_provider_def sample_final provider_totals_def) (simp add: sample_upstream_def)
  moreover have "ev_requirements sample_upstream = None" "5 + ev_count sample_upstream \<le> U64_MAX"
    by (simp_all add: sample_upstream_def MAX_defs)
  moreover note provider_total_is_recorded [of sample_upstream sample_attempts ?ds "Some ''key''" "Some sample_prompt" 5
      _ True "\<lambda>_. []", OF _ sample_listens refl _ refl]
  ultimately have "\<exists>n. {2} = {n} \<and> re_recorder (relay_counting deal_delivery True (map (arrival (\<lambda>_. [])) ?ds) 5) = 5 + n"
    using shape by (simp only: if_True simp_thms) blast
  then show ?thesis by force
qed

section \<open>Truncated text is text\<close>

text \<open>A character takes its continuation bytes with it.\<close>

lemma between_weaken: "between lo hi c \<Longrightarrow> lo' \<le> lo \<Longrightarrow> hi \<le> hi' \<Longrightarrow> between lo' hi' c"
  by (simp add: between_def)

lemma valid_utf8_step:
  assumes "valid_utf8 s" and "s \<noteq> []"
  obtains h t where "s = h @ t" and "h \<noteq> []" and "list_all continuation (tl h)" and "valid_utf8 t"
    and "\<And>t'. valid_utf8 (h @ t') = valid_utf8 t'"
proof -
  obtain a s1 where s: "s = a # s1" using assms(2) by (cases s) auto
  show thesis
  proof (cases "byte a < 128")
    case True
    then show thesis using that [of "[a]" s1] assms(1) s by simp
  next
    case False
    then obtain b s2 where s1: "s1 = b # s2" using assms(1) s by (cases s1) auto
    show thesis
    proof (cases "between 194 223 a")
      case True
      then show thesis using that [of "[a, b]" s2] assms(1) s s1 False by simp
    next
      case two: False
      then obtain c s3 where s2: "s2 = c # s3" using assms(1) s s1 False by (cases s2) auto
      show thesis
      proof (cases "byte a = 224 \<or> byte a = 237 \<or> between 225 239 a")
        case True
        have "continuation b" "continuation c" "valid_utf8 s3"
          using assms(1) s s1 s2 False two True by (auto simp: between_def split: if_splits)
        moreover have "valid_utf8 ([a, b, c] @ t') = valid_utf8 t'" for t'
          using assms(1) s s1 s2 False two True calculation by (simp split: if_splits)
        ultimately show thesis using that [of "[a, b, c]" s3] s s1 s2 by simp
      next
        case three: False
        then obtain d s4 where s3: "s3 = d # s4" using assms(1) s s1 s2 False two by (cases s3) auto
        have lead: "if byte a = 240 then between 144 191 b else if between 241 243 a then continuation b
            else byte a = 244 \<and> between 128 143 b"
          and rest: "continuation c" "continuation d" "valid_utf8 s4"
          using assms(1) three unfolding s s1 s2 s3 valid_utf8.simps(2) [of a]
          by (simp_all only: list.case False two if_False de_Morgan_disj conj_assoc) blast
        have "between 144 191 b \<or> continuation b \<or> between 128 143 b" using lead by metis
        then have "continuation b" by (elim disjE) (auto intro: between_weaken)
        moreover have "valid_utf8 ([a, b, c, d] @ t') = valid_utf8 t'" for t'
          using lead rest False two three by simp
        ultimately show thesis using that [of "[a, b, c, d]" s4] s s1 s2 s3 rest by simp
      qed
    qed
  qed
qed

lemma take_boundary_valid: "valid_utf8 s \<Longrightarrow> is_char_boundary s i \<Longrightarrow> valid_utf8 (take i s)"
proof (induction "length s" arbitrary: s i rule: less_induct)
  case less
  show ?case
  proof (cases "s = [] \<or> i = 0")
    case False
    obtain h t where h: "s = h @ t" "h \<noteq> []" "list_all continuation (tl h)" "valid_utf8 t"
      "\<And>t'. valid_utf8 (h @ t') = valid_utf8 t'"
      using valid_utf8_step [OF less(2)] False by metis
    have "\<not> i < length h"
    proof
      assume i: "i < length h"
      then have "s ! i = tl h ! (i - 1)" "i - 1 < length (tl h)" using h(1) False by (auto simp: nth_append nth_tl)
      then have "continuation (s ! i)" using h(3) by (simp add: list_all_length)
      then show False using less(3) False i h(1) by (auto simp: is_char_boundary_def)
    qed
    then have "take i s = h @ take (i - length h) t" "is_char_boundary t (i - length h)"
      using h(1) less(3) by (auto simp: is_char_boundary_def nth_append)
    then show ?thesis using less(1) [of t "i - length h"] h by simp
  qed auto
qed

lemma boundary_below_ok: "i \<le> length s \<Longrightarrow> is_char_boundary s (boundary_below s i) \<and> boundary_below s i \<le> i"
  by (induction i) (auto simp: is_char_boundary_def)

lemma valid_utf8_append: "valid_utf8 s \<Longrightarrow> valid_utf8 (s @ t) = valid_utf8 t"
proof (induction "length s" arbitrary: s rule: less_induct)
  case less
  show ?case
  proof (cases "s = []")
    case False
    obtain h u where h: "s = h @ u" "h \<noteq> []" "valid_utf8 u" "\<And>t'. valid_utf8 (h @ t') = valid_utf8 t'"
      using valid_utf8_step [OF less(2) False] by metis
    then show ?thesis using less(1) [of u] by simp
  qed simp
qed

text \<open>
  What a provider says reaches the operator within 1024 bytes, cut at a character: text stays text, and
  what is short enough and whole is left as it is.
\<close>

theorem provider_words_bounded:
  "valid_utf8 detail \<Longrightarrow>
    length (bound_error_detail detail shortened) \<le> UPSTREAM_ERROR_DETAIL_MAX_BYTES
    \<and> valid_utf8 (bound_error_detail detail shortened)
    \<and> (\<not> shortened \<and> length detail \<le> UPSTREAM_ERROR_DETAIL_MAX_BYTES \<longrightarrow> bound_error_detail detail shortened = detail)"
proof -
  assume valid: "valid_utf8 detail"
  let ?limit = "UPSTREAM_ERROR_DETAIL_MAX_BYTES - length TRUNCATED_DETAIL_SUFFIX"
  let ?stop = "boundary_below detail (min (length detail) ?limit)"
  have ok: "is_char_boundary detail ?stop \<and> ?stop \<le> min (length detail) ?limit" by (rule boundary_below_ok) simp
  then have kept: "valid_utf8 (take ?stop detail)" using take_boundary_valid [OF valid] by blast
  have "valid_utf8 TRUNCATED_DETAIL_SUFFIX" by code_simp
  then have "valid_utf8 (take ?stop detail @ TRUNCATED_DETAIL_SUFFIX)" using valid_utf8_append [OF kept] by simp
  moreover have "length TRUNCATED_DETAIL_SUFFIX \<le> UPSTREAM_ERROR_DETAIL_MAX_BYTES"
    by (simp add: TRUNCATED_DETAIL_SUFFIX_def UPSTREAM_ERROR_DETAIL_MAX_BYTES_def)
  ultimately show ?thesis using valid ok by (auto simp: bound_error_detail_def Let_def)
qed

theorem provider_words_bounded_witness:
  "length (bound_error_detail ''rate limited'' True) \<le> UPSTREAM_ERROR_DETAIL_MAX_BYTES"
proof -
  have "valid_utf8 ''rate limited''" by code_simp
  then show ?thesis using provider_words_bounded [of "''rate limited''" True] by blast
qed

end
