(* ===== verification/Registry.thy ===== *)
theory Registry
  imports OpenAi WithdrawGate Offers
begin

text \<open>
  The client's side of the on-chain model registry, \<open>src/crates/dexdo/src/registry.rs\<close>: its configuration,
  what a getter answers, the resolution of a claimed name over its spellings, the check of a market against
  the registry, and the suggestions after a miss. The getters of the registry contract, SHA-256 and the
  address of a canonical order book are parameters. An error is marked as answered when the registry was
  read and this is what it said.
\<close>

datatype registry_error =
    NotRead string
  | Answered string
  | Refused string

fun registry_answered :: "registry_error \<Rightarrow> bool" where
  "registry_answered (Answered _) \<longleftrightarrow> True"
| "registry_answered _ \<longleftrightarrow> False"

datatype RegistryRole = SellerRole | BuyerRole

record ModelRegistryEntry =
  rg_exists :: bool
  rg_model_hash :: string
  rg_order_book :: string

record ModelRegistryFacts =
  rf_frame_model :: string
  rf_model_hash :: string
  rf_order_book :: string

record ResolvedModelIdentity =
  ri_requested_model :: string
  ri_registry_model :: string
  ri_model_hash :: string
  ri_order_book :: string

datatype RegistryBookAction = UseActive | SellerMayDeployMissing | BuyerHideMissing
datatype BuyerMissingBookPolicy = RejectMissing | HideFromAvailableList
datatype RegistrySuggestions = ComputeSuggestions | SkipSuggestions

record ModelRegistryReader =
  rr_model :: "string \<Rightarrow> registry_error + ModelRegistryEntry option"
  rr_names :: "registry_error + string list"

section \<open>Configuration\<close>

record RegistryValidationPolicy =
  rp_network :: string
  rp_registry_address :: "string option"
  rp_seller_check :: bool
  rp_seller_deploy_missing :: bool
  rp_buyer_check :: bool
  rp_source :: "string option"
  rp_overridden :: bool

record RawRegistryConfig =
  rw_address :: "string option"
  rw_network :: string
  rw_seller_check :: bool
  rw_seller_deploy :: bool
  rw_buyer_check :: bool

definition MODEL_REGISTRY_VALIDATION_SCHEMA :: string where
  "MODEL_REGISTRY_VALIDATION_SCHEMA = ''dexdo.model_registry_validation.v1''"

text \<open>A struct that refuses unknown members.\<close>

definition strict_members :: "string list \<Rightarrow> json \<Rightarrow> json option list option" where
  "strict_members names v =
    (case v of
       JObj obj \<Rightarrow> if list_all (\<lambda>(k, _). k \<in> set names) obj then struct_members names v else None
     | _ \<Rightarrow> struct_members names v)"

definition validate_registry_address :: "string \<Rightarrow> registry_error + string" where
  "validate_registry_address address =
    map_err (\<lambda>_. Refused ''malformed ModelRegistry address'') (normalize_wallet_address address)"

definition raw_config_members :: "json \<Rightarrow> (string \<times> RawRegistryConfig) option" where
  "raw_config_members v =
    (case strict_members [''schema'', ''registry'', ''seller'', ''buyer''] v of
       Some [Some schema, Some registry, Some seller, Some buyer] \<Rightarrow>
         Option.bind (as_str schema) (\<lambda>schema.
         (case (strict_members [''address'', ''network''] registry,
                strict_members [''check_model_registry'', ''deploy_missing_order_book''] seller,
                strict_members [''check_model_registry''] buyer) of
            (Some [address, Some network], Some [Some check, Some deploy], Some [Some buyer_check]) \<Rightarrow>
              Option.bind (defaulted None (decode_option as_str) address) (\<lambda>address.
              Option.bind (as_str network) (\<lambda>network.
              Option.bind (as_bool check) (\<lambda>check.
              Option.bind (as_bool deploy) (\<lambda>deploy.
              Option.bind (as_bool buyer_check) (\<lambda>buyer_check.
              Some (schema, \<lparr> rw_address = address, rw_network = network, rw_seller_check = check,
                rw_seller_deploy = deploy, rw_buyer_check = buyer_check \<rparr>))))))
          | _ \<Rightarrow> None))
     | _ \<Rightarrow> None)"

definition raw_config_from_json :: "(string \<Rightarrow> json option) \<Rightarrow> string \<Rightarrow> registry_error + RawRegistryConfig" where
  "raw_config_from_json json text =
    ok_or_else (Option.bind (json text) raw_config_members) (Refused ''parse JSON'') (\<lambda>(schema, cfg).
    refuse_if (schema \<noteq> MODEL_REGISTRY_VALIDATION_SCHEMA) (Refused ''schema'')
    (case rw_address cfg of
       Some addr \<Rightarrow>
         bindR (validate_registry_address addr) (\<lambda>address. Inr (cfg\<lparr>rw_address := Some address\<rparr>))
     | None \<Rightarrow> Inr cfg))"

definition address_from_value :: "json \<Rightarrow> string option" where
  "address_from_value v = or_else (as_str v) (Option.bind (json_get v ''address'') as_str)"

definition default_registry_address ::
  "(string \<Rightarrow> json option) \<Rightarrow> string option \<Rightarrow> registry_error + string" where
  "default_registry_address json contracts_text =
    ok_or_else contracts_text (NotRead ''contracts manifest'') (\<lambda>text.
    ok_or_else (json text) (NotRead ''contracts manifest'') (\<lambda>v.
    ok_or_else
      (or_else
        (Option.bind
          (or_else (json_get v ''model_registry'') (or_else (json_get v ''modelRegistry'') (json_get v ''ModelRegistry'')))
          address_from_value)
        (Option.bind (json_get v ''registry'') (\<lambda>r.
          Option.bind (or_else (json_get r ''model_registry'') (json_get r ''modelRegistry'')) address_from_value)))
      (Refused ''contracts manifest has no model registry address'')
      validate_registry_address))"

definition disabled_policy :: "string \<Rightarrow> RegistryValidationPolicy" where
  "disabled_policy current_network =
    \<lparr> rp_network = current_network, rp_registry_address = None, rp_seller_check = False,
      rp_seller_deploy_missing = False, rp_buyer_check = False, rp_source = None, rp_overridden = False \<rparr>"

text \<open>\<open>RegistryValidationPolicy::load\<close>; \<open>files\<close> answers the text of a file that can be read.\<close>

definition load_policy ::
  "(string \<Rightarrow> json option) \<Rightarrow> (string \<Rightarrow> string option) \<Rightarrow> string \<Rightarrow> string \<Rightarrow> string option \<Rightarrow> string option
    \<Rightarrow> registry_error + RegistryValidationPolicy" where
  "load_policy json files current_network contracts config_path address_override =
    (if config_path = None \<and> address_override = None then Inr (disabled_policy current_network)
     else
       ok_or_else config_path (Refused ''--model-registry-address requires a config'') (\<lambda>path.
       ok_or_else (files path) (NotRead path) (\<lambda>text.
       bindR (raw_config_from_json json text) (\<lambda>raw.
       bindR (case address_override of
                Some a \<Rightarrow> bindR (validate_registry_address a) (\<lambda>address. Inr (Some address, True))
              | None \<Rightarrow> Inr (rw_address raw, False)) (\<lambda>(address, overridden).
       bindR (if address = None \<and> (rw_seller_check raw \<or> rw_buyer_check raw)
              then bindR (default_registry_address json (files contracts)) (\<lambda>a. Inr (Some a))
              else Inr address) (\<lambda>address.
       Inr \<lparr> rp_network = rw_network raw, rp_registry_address = address, rp_seller_check = rw_seller_check raw,
             rp_seller_deploy_missing = rw_seller_deploy raw, rp_buyer_check = rw_buyer_check raw,
             rp_source = Some path, rp_overridden = overridden \<rparr>))))))"

definition check_enabled :: "RegistryRole \<Rightarrow> RegistryValidationPolicy \<Rightarrow> bool" where
  "check_enabled role policy = (case role of SellerRole \<Rightarrow> rp_seller_check policy | BuyerRole \<Rightarrow> rp_buyer_check policy)"

definition required_address :: "RegistryValidationPolicy \<Rightarrow> registry_error + string" where
  "required_address policy = ok_or_else (rp_registry_address policy) (Refused ''no ModelRegistry address'') Inr"

section \<open>What the registry answers\<close>

definition is_zero_address_like :: "string \<Rightarrow> bool" where
  "is_zero_address_like raw =
    (let t = str_trim raw;
         bare = (case or_else (strip_prefix ''0:'' t) (or_else (strip_prefix ''0x'' t) (strip_prefix ''0X'' t)) of
                   Some b \<Rightarrow> b | None \<Rightarrow> t) in
     bare \<noteq> [] \<and> list_all (\<lambda>b. b = CHR ''0'') bare)"

definition nonzero_registry_order_book :: "string \<Rightarrow> registry_error + string option" where
  "nonzero_registry_order_book raw =
    (let trimmed = str_trim raw in
     if trimmed = [] \<or> is_zero_address_like trimmed then Inr None
     else bindR (validate_registry_address trimmed) (\<lambda>a. Inr (Some a)))"

definition registry_getter_bool :: "json \<Rightarrow> string list \<Rightarrow> bool option" where
  "registry_getter_bool v keys =
    first_some (\<lambda>key. Option.bind (json_get v key) (\<lambda>w.
      or_else (as_bool w) (Option.bind (as_str w) (\<lambda>s.
        let t = str_trim s in if t = ''true'' then Some True else if t = ''false'' then Some False else None)))) keys"

definition hex_digit_char :: "nat \<Rightarrow> char" where
  "hex_digit_char d = char_of (if d < 10 then 48 + d else 87 + d)"

fun show_hex_padded :: "nat \<Rightarrow> nat \<Rightarrow> string" where
  "show_hex_padded 0 n = []"
| "show_hex_padded (Suc w) n = show_hex_padded w (n div 16) @ [hex_digit_char (n mod 16)]"

definition getter_hash :: "json \<Rightarrow> string list \<Rightarrow> string option" where
  "getter_hash v keys =
    first_some (\<lambda>key. Option.bind (json_get v key) (\<lambda>w.
      case as_str w of
        Some raw \<Rightarrow>
          (let s = str_trim raw in
           if s = [] then None
           else if starts_with ''0x'' s \<or> starts_with ''0X'' s then Some (''0x'' @ normalize_hash s)
           else if length s \<le> 64 \<and> list_all is_ascii_hexdigit s then Some (''0x'' @ to_ascii_lowercase s)
           else None)
      | None \<Rightarrow> map_option (\<lambda>n. ''0x'' @ show_hex_padded 64 n) (as_u64 w))) keys"

definition getter_address :: "json \<Rightarrow> string list \<Rightarrow> string option" where
  "getter_address v keys =
    first_some (\<lambda>key. Option.bind (json_get v key) (\<lambda>w. Option.bind (as_str w) (\<lambda>raw.
      let s = str_trim raw in if s = [] then None else Some s))) keys"

text \<open>\<open>ChainModelRegistryReader::model\<close> over the getters of the contract.\<close>

definition chain_model ::
  "(string \<Rightarrow> string \<Rightarrow> registry_error + json) \<Rightarrow> string \<Rightarrow> registry_error + ModelRegistryEntry option" where
  "chain_model getter frame_model =
    bindR (getter ''has'' frame_model) (\<lambda>has.
    ok_or_else (registry_getter_bool has [''value0'']) (NotRead ''has returned no bool'') (\<lambda>has.
    if \<not> has then Inr None
    else
      bindR (getter ''modelHashOf'' frame_model) (\<lambda>hash.
      ok_or_else (getter_hash hash [''value0'']) (Answered ''modelHashOf returned no modelHash'') (\<lambda>model_hash.
      bindR (getter ''orderBookOf'' frame_model) (\<lambda>book.
      ok_or_else (getter_address book [''value0'']) (Answered ''orderBookOf returned no address'') (\<lambda>raw.
      bindR (map_err (\<lambda>_. Answered ''orderBookOf returned a malformed address'') (nonzero_registry_order_book raw)) (\<lambda>book.
      ok_or_else book (Answered ''orderBookOf returned the zero address'') (\<lambda>order_book.
      Inr (Some \<lparr> rg_exists = True, rg_model_hash = model_hash, rg_order_book = order_book \<rparr>)))))))))"

text \<open>The order of strings is that of their bytes; \<open>dedup\<close> drops equal neighbours.\<close>

definition byte_le :: "string \<Rightarrow> string \<Rightarrow> bool" where
  "byte_le a b \<longleftrightarrow> map byte a \<le> map byte b"

fun insert_sorted_by :: "('a \<Rightarrow> 'a \<Rightarrow> bool) \<Rightarrow> 'a \<Rightarrow> 'a list \<Rightarrow> 'a list" where
  "insert_sorted_by le x [] = [x]"
| "insert_sorted_by le x (y # ys) = (if le x y then x # y # ys else y # insert_sorted_by le x ys)"

definition sort_by :: "('a \<Rightarrow> 'a \<Rightarrow> bool) \<Rightarrow> 'a list \<Rightarrow> 'a list" where
  "sort_by le xs = foldr (insert_sorted_by le) xs []"

fun dedup_on :: "('a \<Rightarrow> 'b) \<Rightarrow> 'a list \<Rightarrow> 'a list" where
  "dedup_on f (x # y # ys) = (if f x = f y then dedup_on f (x # ys) else x # dedup_on f (y # ys))"
| "dedup_on f xs = xs"

definition model_registry_names_from_storage_fields :: "json \<Rightarrow> registry_error + string list" where
  "model_registry_names_from_storage_fields storage =
    (case json_get storage ''_models'' of
       Some (JObj models) \<Rightarrow>
         bindR (collect_rows (\<lambda>(_, v). ok_or_else (as_str v) (NotRead ''_models entry is not a string'') Inr) models)
           (\<lambda>names. Inr (dedup_on (\<lambda>x. x) (sort_by byte_le names)))
     | _ \<Rightarrow> Inl (NotRead ''storage exposes no _models map''))"

definition parse_registry_count :: "json \<Rightarrow> registry_error + u32" where
  "parse_registry_count answered =
    ok_or_else (json_get answered ''value0'') (Refused ''no value0'') (\<lambda>raw.
    case raw of
      JStr s \<Rightarrow>
        (let trimmed = str_trim s in
         case or_else (strip_prefix ''0x'' trimmed) (strip_prefix ''0X'' trimmed) of
           Some hex \<Rightarrow>
             if hex \<noteq> [] \<and> list_all is_ascii_hexdigit hex
             then ok_or_else (parse_hex_uint U32_MAX hex) (Refused trimmed) Inr
             else Inl (Refused trimmed)
         | None \<Rightarrow>
             if trimmed \<noteq> [] \<and> list_all is_ascii_digit trimmed
             then ok_or_else (parse_uint U32_MAX trimmed) (Refused trimmed) Inr
             else Inl (Refused trimmed))
    | JNum _ \<Rightarrow> ok_or_else (Option.bind (as_u64 raw) (try_from U32_MAX)) (Refused ''number'') Inr
    | _ \<Rightarrow> Inl (Refused ''not a number''))"

definition validate_model_registry_abi_getters :: "(string \<Rightarrow> json option) \<Rightarrow> string \<Rightarrow> registry_error + unit" where
  "validate_model_registry_abi_getters json abi_json =
    ok_or_else (json abi_json) (Refused ''parse JSON'') (\<lambda>abi.
    ok_or_else (Option.bind (json_get abi ''functions'') as_array) (Refused ''ABI has no functions array'') (\<lambda>functions.
    check_all (\<lambda>required.
      refuse_if (\<not> list_ex (\<lambda>f. Option.bind (json_get f ''name'') as_str = Some required) functions) (Refused required) (Inr ()))
      [''has'', ''modelHashOf'', ''orderBookOf'', ''count'', ''inferenceOrderBookCode'']))"

section \<open>Checking a market\<close>

definition validate_registered_model ::
  "(string \<Rightarrow> string) \<Rightarrow> ModelRegistryReader \<Rightarrow> string \<Rightarrow> string \<Rightarrow> registry_error + ModelRegistryFacts" where
  "validate_registered_model sha reader frame_model expected_order_book =
    bindR (validate_registry_address expected_order_book) (\<lambda>expected_order_book.
    bindR (rr_model reader frame_model) (\<lambda>found.
    ok_or_else found (Refused ''not registered'') (\<lambda>entry.
    refuse_if (\<not> rg_exists entry) (Refused ''not registered'')
    (refuse_if (normalize_hash (rg_model_hash entry) \<noteq> normalize_hash (sha frame_model)) (Refused ''modelHash'')
    (bindR (nonzero_registry_order_book (rg_order_book entry)) (\<lambda>book.
    refuse_if (case book of Some b \<Rightarrow> b \<noteq> expected_order_book | None \<Rightarrow> False) (Refused ''orderBook'')
    (Inr \<lparr> rf_frame_model = frame_model, rf_model_hash = sha frame_model, rf_order_book = expected_order_book \<rparr>)))))))"

definition order_book_availability ::
  "RegistryRole \<Rightarrow> bool \<Rightarrow> bool \<Rightarrow> BuyerMissingBookPolicy \<Rightarrow> registry_error + RegistryBookAction" where
  "order_book_availability role book_active seller_deploy_missing buyer_policy =
    (if book_active then Inr UseActive
     else case role of
            SellerRole \<Rightarrow> if seller_deploy_missing then Inr SellerMayDeployMissing else Inl (Refused ''not deployed'')
          | BuyerRole \<Rightarrow>
              if buyer_policy = HideFromAvailableList then Inr BuyerHideMissing else Inl (Refused ''not deployed''))"

definition enforce_model_registry_policy ::
  "(string \<Rightarrow> string) \<Rightarrow> ModelRegistryReader \<Rightarrow> RegistryRole \<Rightarrow> RegistryValidationPolicy \<Rightarrow> string \<Rightarrow> string \<Rightarrow> bool
    \<Rightarrow> BuyerMissingBookPolicy \<Rightarrow> registry_error + RegistryBookAction" where
  "enforce_model_registry_policy sha reader role policy frame_model expected_order_book book_active buyer_policy =
    bindR (required_address policy) (\<lambda>_.
    bindR (validate_registered_model sha reader frame_model expected_order_book) (\<lambda>_.
    order_book_availability role book_active (rp_seller_deploy_missing policy) buyer_policy))"

section \<open>Suggestions\<close>

definition served_model_suggestion_aliases :: "(string \<Rightarrow> string) \<Rightarrow> string \<Rightarrow> string list" where
  "served_model_suggestion_aliases upcase model_id =
    (let normalized = to_ascii_lowercase (str_trim model_id);
         with_display = (\<lambda>alias out.
           let out = push_candidate alias out in
           case display_case_served_alias upcase alias of Some d \<Rightarrow> push_candidate d out | None \<Rightarrow> out);
         out = (if str_contains ''/'' normalized then with_display normalized [] else []);
         out = (case frame_model_to_served_alias normalized of Some alias \<Rightarrow> with_display alias out | None \<Rightarrow> out) in
     map to_ascii_lowercase out)"

text \<open>One row of the table from the row above it; \<open>diagonal\<close> and \<open>beside\<close> are the cells already passed.\<close>

fun distance_row :: "char \<Rightarrow> string \<Rightarrow> nat \<Rightarrow> nat list \<Rightarrow> nat \<Rightarrow> nat list" where
  "distance_row c (d # ds) diagonal (upper # row) beside =
    (let cell = (if c = d then diagonal else 1 + min (min diagonal upper) beside) in
     cell # distance_row c ds upper row cell)"
| "distance_row c _ diagonal _ beside = []"

fun distance_rows :: "string \<Rightarrow> string \<Rightarrow> nat \<Rightarrow> nat list \<Rightarrow> nat list" where
  "distance_rows [] right i previous = previous"
| "distance_rows (c # left) right i previous =
    distance_rows left right (Suc i) (Suc i # distance_row c right (hd previous) (tl previous) (Suc i))"

definition ascii_case_folded_levenshtein_distance :: "string \<Rightarrow> string \<Rightarrow> nat" where
  "ascii_case_folded_levenshtein_distance left right =
    (let right = to_ascii_lowercase right in
     distance_rows left right 0 [0..<length right + 1] ! length right)"

definition REGISTERED_MODEL_SUGGESTION_LIMIT :: nat where "REGISTERED_MODEL_SUGGESTION_LIMIT = 5"

definition ranked_names :: "(string \<Rightarrow> string) \<Rightarrow> string \<Rightarrow> string list \<Rightarrow> string list" where
  "ranked_names upcase claimed_model discovered =
    (let forbidden = served_model_suggestion_aliases upcase claimed_model;
         comparison = to_ascii_lowercase (str_trim claimed_model);
         ranked = map (\<lambda>name. (ascii_case_folded_levenshtein_distance comparison name, name))
           (filter (\<lambda>name. name \<noteq> [] \<and> to_ascii_lowercase name \<notin> set forbidden) discovered);
         ranked = sort_by (\<lambda>x y. fst x < fst y \<or> (fst x = fst y \<and> byte_le (snd x) (snd y))) ranked in
     map snd (take REGISTERED_MODEL_SUGGESTION_LIMIT (dedup_on snd ranked)))"

definition suggestible :: "(string \<Rightarrow> string) \<Rightarrow> (string \<Rightarrow> string option) \<Rightarrow> ModelRegistryReader \<Rightarrow> string \<Rightarrow> bool" where
  "suggestible sha book_of reader name \<longleftrightarrow>
    (case rr_model reader name of
       Inr (Some entry) \<Rightarrow>
         rg_exists entry \<and> normalize_hash (rg_model_hash entry) = normalize_hash (sha name)
         \<and> (case nonzero_registry_order_book (rg_order_book entry) of
              Inr (Some book) \<Rightarrow> book_of (sha name) = Some book
            | _ \<Rightarrow> False)
     | _ \<Rightarrow> False)"

definition registered_model_suggestions ::
  "(string \<Rightarrow> string) \<Rightarrow> (string \<Rightarrow> string) \<Rightarrow> (string \<Rightarrow> string option)
    \<Rightarrow> ModelRegistryReader \<Rightarrow> string \<Rightarrow> registry_error + string list" where
  "registered_model_suggestions upcase sha book_of reader claimed_model =
    bindR (rr_names reader) (\<lambda>discovered.
    Inr (filter (suggestible sha book_of reader) (ranked_names upcase claimed_model discovered)))"

section \<open>Resolution\<close>

datatype resolution_error =
    ReaderError registry_error
  | EntryHashMismatch string
  | EntryBookMalformed string
  | NotRegistered "string list" "string list option"

fun resolution_answered :: "resolution_error \<Rightarrow> bool" where
  "resolution_answered (ReaderError e) \<longleftrightarrow> registry_answered e"
| "resolution_answered _ \<longleftrightarrow> True"

fun resolve_candidates ::
  "(string \<Rightarrow> string) \<Rightarrow> ModelRegistryReader \<Rightarrow> string \<Rightarrow> string list \<Rightarrow> resolution_error + ResolvedModelIdentity option" where
  "resolve_candidates sha reader claimed [] = Inr None"
| "resolve_candidates sha reader claimed (candidate # candidates) =
    (case rr_model reader candidate of
       Inl e \<Rightarrow> Inl (ReaderError e)
     | Inr found \<Rightarrow>
         (case found of
            Some entry \<Rightarrow>
              if rg_exists entry then
                refuse_if (normalize_hash (rg_model_hash entry) \<noteq> normalize_hash (sha candidate)) (EntryHashMismatch candidate)
                (bindR (map_err (\<lambda>_. EntryBookMalformed candidate) (nonzero_registry_order_book (rg_order_book entry))) (\<lambda>book.
                Inr (Some \<lparr> ri_requested_model = claimed, ri_registry_model = candidate, ri_model_hash = sha candidate,
                  ri_order_book = unwrap_text book \<rparr>)))
              else resolve_candidates sha reader claimed candidates
          | None \<Rightarrow> resolve_candidates sha reader claimed candidates))"

text \<open>A miss names every candidate, with the suggestions where they were computed.\<close>

definition resolve_registered_model_identity_with ::
  "(string \<Rightarrow> string) \<Rightarrow> (string \<Rightarrow> string) \<Rightarrow> (string \<Rightarrow> string option)
    \<Rightarrow> ModelRegistryReader \<Rightarrow> string \<Rightarrow> RegistrySuggestions
    \<Rightarrow> resolution_error + ResolvedModelIdentity" where
  "resolve_registered_model_identity_with upcase sha book_of reader claimed_model policy =
    (let candidates = registry_identity_candidates upcase claimed_model in
     bindR (resolve_candidates sha reader claimed_model candidates) (\<lambda>found.
     case found of
       Some identity \<Rightarrow> Inr identity
     | None \<Rightarrow>
         Inl (NotRegistered candidates
           (case policy of
              SkipSuggestions \<Rightarrow> None
            | ComputeSuggestions \<Rightarrow>
                Some (case registered_model_suggestions upcase sha book_of reader claimed_model of
                        Inr names \<Rightarrow> names | Inl _ \<Rightarrow> [])))))"

end
