(* ===== verification/RegistryLaws.thy ===== *)
theory RegistryLaws
  imports Registry
begin

text \<open>
  What the registry client promises: the distance that ranks its suggestions is the least number of edits,
  a name resolves to the first of its spellings that is registered, a failure is marked as a verdict exactly
  when the registry was read, and a suggested name resolves.
\<close>

section \<open>The distance is the least number of edits\<close>

text \<open>Ways to turn one text into another, with the number of bytes inserted, deleted or replaced.\<close>

inductive edits :: "nat \<Rightarrow> string \<Rightarrow> string \<Rightarrow> bool" where
  none: "edits 0 [] []"
| keep: "edits n xs ys \<Longrightarrow> edits n (c # xs) (c # ys)"
| insertion: "edits n xs ys \<Longrightarrow> edits (Suc n) xs (d # ys)"
| deletion: "edits n xs ys \<Longrightarrow> edits (Suc n) (c # xs) ys"
| replacement: "edits n xs ys \<Longrightarrow> edits (Suc n) (c # xs) (d # ys)"

lemma edits_append: "edits n xs ys \<Longrightarrow> edits m us vs \<Longrightarrow> edits (n + m) (xs @ us) (ys @ vs)"
  by (induction n xs ys rule: edits.induct) (auto intro: edits.intros)

lemma edits_rev: "edits n xs ys \<Longrightarrow> edits n (rev xs) (rev ys)"
proof (induction n xs ys rule: edits.induct)
  case (keep n xs ys c)
  then show ?case using edits_append [of n "rev xs" "rev ys" 0 "[c]" "[c]"] by (simp add: edits.intros)
next
  case (insertion n xs ys d)
  then show ?case using edits_append [of n "rev xs" "rev ys" 1 "[]" "[d]"] edits.insertion [OF edits.none] by simp
next
  case (deletion n xs ys c)
  then show ?case using edits_append [of n "rev xs" "rev ys" 1 "[c]" "[]"] edits.deletion [OF edits.none] by simp
next
  case (replacement n xs ys c d)
  then show ?case using edits_append [of n "rev xs" "rev ys" 1 "[c]" "[d]"] edits.replacement [OF edits.none] by simp
qed (simp add: edits.none)

text \<open>The recursive distance, which the table computes on reversed prefixes.\<close>

fun lev :: "string \<Rightarrow> string \<Rightarrow> nat" where
  "lev [] ys = length ys"
| "lev (x # xs) [] = Suc (length xs)"
| "lev (x # xs) (y # ys) = (if x = y then lev xs ys else 1 + min (min (lev xs ys) (lev xs (y # ys))) (lev (x # xs) ys))"

lemma lev_Nil [simp]: "lev xs [] = length xs"
  by (cases xs) simp_all

lemma lev_sym: "lev xs ys = lev ys xs"
  by (induction xs ys rule: lev.induct) (auto simp: min.commute min.left_commute min.assoc)

lemma lev_step: "lev xs (y # ys) \<le> Suc (lev xs ys) \<and> lev xs ys \<le> Suc (lev (x # xs) ys)"
proof (induction "length xs + length ys" arbitrary: xs ys x y rule: less_induct)
  case less
  have shorter: "lev us vs \<le> Suc (lev (u # us) vs)" if "length us + length vs < length xs + length ys" for u us vs
    using less that by blast
  have longer: "lev us (v # vs) \<le> Suc (lev us vs)" if "length us + length vs < length xs + length ys" for v us vs
    using less that by blast
  have "lev xs (y # ys) \<le> Suc (lev xs ys)"
  proof (cases xs)
    case (Cons x' xs')
    then show ?thesis using shorter [of xs' ys x'] by (cases "x' = y") (simp_all add: Cons)
  qed simp
  moreover have "lev xs ys \<le> Suc (lev (x # xs) ys)"
  proof (cases ys)
    case (Cons y' ys')
    have up: "lev xs (y' # ys') \<le> Suc (lev xs ys')" using longer [of xs ys' y'] Cons by simp
    have down: "lev xs ys' \<le> Suc (lev (x # xs) ys')" using shorter [of xs ys' x] Cons by simp
    show ?thesis unfolding Cons using up down by (cases "x = y'") (simp_all add: min_def)
  qed simp
  ultimately show ?case ..
qed

lemma lev_le_edits: "edits n xs ys \<Longrightarrow> lev xs ys \<le> n"
proof (induction n xs ys rule: edits.induct)
  case (insertion n xs ys d)
  then show ?case using lev_step [of xs d ys] by (meson Suc_le_mono le_trans)
next
  case (deletion n xs ys c)
  then show ?case using lev_step [of ys c xs] by (metis Suc_le_mono le_trans lev_sym)
next
  case (replacement n xs ys c d)
  then show ?case by (auto simp: min_def)
qed simp_all

lemma edits_of_length: "edits (length ys) [] ys" "edits (length xs) xs []"
  by (induction ys, auto intro: edits.intros) (induction xs, auto intro: edits.intros)

lemma edits_lev: "edits (lev xs ys) xs ys"
proof (induction xs ys rule: lev.induct)
  case (3 x xs y ys)
  then show ?case by (auto simp: min_def intro: edits.intros)
qed (auto intro: edits_of_length edits.deletion)

text \<open>The rows of the table.\<close>

fun lev_row :: "string \<Rightarrow> string \<Rightarrow> string \<Rightarrow> nat list" where
  "lev_row q p [] = []"
| "lev_row q p (d # ds) = lev q (d # p) # lev_row q (d # p) ds"

lemma distance_row_lev: "distance_row c ds (lev q p) (lev_row q p ds) (lev (c # q) p) = lev_row (c # q) p ds"
proof (induction ds arbitrary: p)
  case (Cons d ds)
  have "(if c = d then lev q p else 1 + min (min (lev q p) (lev q (d # p))) (lev (c # q) p)) = lev (c # q) (d # p)" by simp
  then show ?case using Cons.IH [of "d # p"] by (simp only: distance_row.simps lev_row.simps Let_def)
qed simp

lemma distance_rows_lev:
  "distance_rows left right (length q) (lev q [] # lev_row q [] right) = lev (rev left @ q) [] # lev_row (rev left @ q) [] right"
proof (induction left arbitrary: q)
  case (Cons c left)
  then show ?case using distance_row_lev [of c right q "[]"] Cons.IH [of "c # q"] by simp
qed simp

lemma first_row: "lev_row [] p ds = [Suc (length p)..<Suc (length p) + length ds]"
  by (induction ds arbitrary: p) (simp_all add: upt_conv_Cons del: upt_Suc)

lemma last_cell: "(lev q p # lev_row q p ds) ! length ds = lev q (rev ds @ p)"
  by (induction ds arbitrary: p) simp_all

lemma distance_is_lev:
  "ascii_case_folded_levenshtein_distance left right = lev (rev left) (rev (to_ascii_lowercase right))"
proof -
  let ?r = "to_ascii_lowercase right"
  have "[0..<length ?r + 1] = lev [] [] # lev_row [] [] ?r"
    by (simp add: first_row upt_conv_Cons del: upt_Suc)
  then show ?thesis
    using distance_rows_lev [of left ?r "[]"] last_cell [of "rev left" "[]" ?r]
    by (simp add: ascii_case_folded_levenshtein_distance_def Let_def del: upt_Suc)
qed

text \<open>
  C26: The two-row table computes the edit distance: its result is a number of single-byte edits that turns the
  claimed name into the lower-cased registered one, and no smaller number does.
\<close>

theorem distance_is_least_edits:
  "edits (ascii_case_folded_levenshtein_distance left right) left (to_ascii_lowercase right)
    \<and> (edits n left (to_ascii_lowercase right) \<longrightarrow> ascii_case_folded_levenshtein_distance left right \<le> n)"
proof -
  have "edits (lev (rev left) (rev (to_ascii_lowercase right))) left (to_ascii_lowercase right)"
    using edits_rev [OF edits_lev, of "rev left" "rev (to_ascii_lowercase right)"] by simp
  then show ?thesis
    using lev_le_edits [OF edits_rev] by (auto simp: distance_is_lev)
qed

theorem distance_is_least_edits_witness:
  "edits (ascii_case_folded_levenshtein_distance ''qwen'' ''Qwn'') ''qwen'' ''qwn''
    \<and> ascii_case_folded_levenshtein_distance ''qwen'' ''Qwn'' \<le> 1"
proof -
  have "to_ascii_lowercase ''Qwn'' = ''qwn''" by code_simp
  moreover have "edits 1 ''qwen'' ''qwn''"
    using edits.keep [OF edits.keep [OF edits.deletion [OF edits.keep [OF edits.none]]]] by simp
  ultimately show ?thesis using distance_is_least_edits [of "''qwen''" "''Qwn''" 1] by simp
qed

section \<open>Resolution\<close>

text \<open>A spelling the registry does not hold, and the entry of one it does.\<close>

definition missing :: "ModelRegistryReader \<Rightarrow> string \<Rightarrow> bool" where
  "missing reader c \<longleftrightarrow> (case rr_model reader c of Inr None \<Rightarrow> True | Inr (Some e) \<Rightarrow> \<not> rg_exists e | Inl _ \<Rightarrow> False)"

definition first_held :: "ModelRegistryReader \<Rightarrow> string list \<Rightarrow> string \<Rightarrow> bool" where
  "first_held reader candidates c \<longleftrightarrow> find (\<lambda>c. \<not> missing reader c) candidates = Some c"

lemma first_held_unique: "first_held reader cs c \<Longrightarrow> first_held reader cs c' \<Longrightarrow> c = c'"
  by (simp add: first_held_def)

lemma first_held_Cons:
  "first_held reader (d # cs) x \<longleftrightarrow> x = d \<and> \<not> missing reader d \<or> missing reader d \<and> first_held reader cs x"
  by (auto simp: first_held_def)

definition answer_of ::
  "(string \<Rightarrow> string) \<Rightarrow> ModelRegistryReader \<Rightarrow> string \<Rightarrow> string \<Rightarrow> resolution_error + ResolvedModelIdentity" where
  "answer_of sha reader claimed c =
    (case rr_model reader c of
       Inl e \<Rightarrow> Inl (ReaderError e)
     | Inr found \<Rightarrow>
         (let entry = the found in
          if normalize_hash (rg_model_hash entry) \<noteq> normalize_hash (sha c) then Inl (EntryHashMismatch c)
          else case nonzero_registry_order_book (rg_order_book entry) of
                 Inl _ \<Rightarrow> Inl (EntryBookMalformed c)
               | Inr book \<Rightarrow>
                   Inr \<lparr> ri_requested_model = claimed, ri_registry_model = c, ri_model_hash = sha c,
                     ri_order_book = unwrap_text book \<rparr>))"

lemma resolve_candidates_first:
  "first_held reader cs c \<Longrightarrow> resolve_candidates sha reader claimed cs = map_sum id Some (answer_of sha reader claimed c)"
proof (induction cs)
  case (Cons d cs)
  show ?case
  proof (cases "missing reader d")
    case True
    then have "first_held reader cs c" using Cons.prems by (simp add: first_held_Cons)
    then show ?thesis
      using Cons.IH True by (simp add: missing_def split: sum.splits option.splits)
  next
    case False
    then have "c = d" using Cons.prems by (simp add: first_held_Cons)
    then show ?thesis
      using False
      by (auto simp: missing_def answer_of_def Let_def bindR_def map_err_def refuse_if_def split: sum.splits option.splits)
  qed
qed (simp add: first_held_def)

lemma resolve_candidates_none:
  "list_all (missing reader) cs \<Longrightarrow> resolve_candidates sha reader claimed cs = Inr None"
  by (induction cs) (auto simp: missing_def split: sum.splits option.splits)

text \<open>
  C27: A claimed name resolves by the first of its spellings that the registry holds, and by nothing else: a
  later spelling is never asked, the hash is that of the spelling and must be the registered one. When the
  registry holds none, the refusal names every spelling. A failure counts as unread exactly if the reading of
  that first spelling failed without an answer.
\<close>

theorem resolution_by_first_spelling:
  "(first_held reader (registry_identity_candidates upcase claimed) c \<longrightarrow>
      resolve_registered_model_identity_with upcase sha book_of reader claimed policy = answer_of sha reader claimed c)
    \<and> (list_all (missing reader) (registry_identity_candidates upcase claimed) \<longrightarrow>
      (\<exists>s. resolve_registered_model_identity_with upcase sha book_of reader claimed policy
        = Inl (NotRegistered (registry_identity_candidates upcase claimed) s)))
    \<and> (resolve_registered_model_identity_with upcase sha book_of reader claimed policy = Inl e \<longrightarrow>
      (\<not> resolution_answered e \<longleftrightarrow>
        (\<exists>c r. first_held reader (registry_identity_candidates upcase claimed) c \<and> rr_model reader c = Inl r \<and> \<not> registry_answered r)))"
proof -
  let ?cs = "registry_identity_candidates upcase claimed"
  have found: "resolve_registered_model_identity_with upcase sha book_of reader claimed policy = answer_of sha reader claimed c"
    if "first_held reader ?cs c" for c
    using resolve_candidates_first [OF that, of sha claimed]
    by (cases "answer_of sha reader claimed c") (simp_all add: resolve_registered_model_identity_with_def Let_def)
  have missed: "\<exists>s. resolve_registered_model_identity_with upcase sha book_of reader claimed policy = Inl (NotRegistered ?cs s)"
    if "list_all (missing reader) ?cs"
    using resolve_candidates_none [OF that, of sha claimed] by (simp add: resolve_registered_model_identity_with_def Let_def)
  have either: "list_all (missing reader) cs \<or> (\<exists>c. first_held reader cs c)" for cs
    by (induction cs) (auto simp: first_held_Cons)
  have "\<not> resolution_answered e \<longleftrightarrow> (\<exists>c r. first_held reader ?cs c \<and> rr_model reader c = Inl r \<and> \<not> registry_answered r)"
    if e: "resolve_registered_model_identity_with upcase sha book_of reader claimed policy = Inl e"
  proof (cases "\<exists>c. first_held reader ?cs c")
    case True
    then obtain c where c: "first_held reader ?cs c" by blast
    then have "answer_of sha reader claimed c = Inl e" using found e by simp
    then have "\<not> resolution_answered e \<longleftrightarrow> (\<exists>r. rr_model reader c = Inl r \<and> \<not> registry_answered r)"
      by (auto simp: answer_of_def Let_def split: sum.splits if_splits)
    then show ?thesis using c first_held_unique by blast
  next
    case False
    then have "list_all (missing reader) ?cs" using either by blast
    then show ?thesis using missed e False by auto
  qed
  then show ?thesis using found missed by blast
qed

text \<open>A registry that holds one spelling of the model.\<close>

definition sample_registry :: ModelRegistryReader where
  "sample_registry =
    \<lparr> rr_model = (\<lambda>c. if c = ''qwen/qwen3-32b'' then
         Inr (Some \<lparr> rg_exists = True, rg_model_hash = ''0xAB'', rg_order_book = [] \<rparr>) else Inr None),
      rr_names = Inr [''qwen/qwen3-32b''] \<rparr>"

definition sample_identity :: ResolvedModelIdentity where
  "sample_identity =
    \<lparr> ri_requested_model = ''qwen--qwen3--32b'', ri_registry_model = ''qwen/qwen3-32b'', ri_model_hash = ''ab'',
      ri_order_book = [] \<rparr>"

theorem resolution_by_first_spelling_witness:
  "resolve_registered_model_identity_with (\<lambda>c. c) (\<lambda>_. ''ab'') (\<lambda>_. None) sample_registry ''qwen--qwen3--32b'' SkipSuggestions
    = Inr sample_identity"
proof -
  have "registry_identity_candidates (\<lambda>c. c) ''qwen--qwen3--32b''
      = [''qwen--qwen3--32b'', ''qwen/qwen3-32b'', ''Qwen/Qwen3-32B'', ''qwen3-32b'', ''Qwen3-32B'']"
    by code_simp
  then have "first_held sample_registry (registry_identity_candidates (\<lambda>c. c) ''qwen--qwen3--32b'') ''qwen/qwen3-32b''"
    by (simp add: first_held_def missing_def sample_registry_def)
  moreover have "normalize_hash ''0xAB'' = ''ab''" "normalize_hash ''ab'' = ''ab''" by code_simp+
  then have "answer_of (\<lambda>_. ''ab'') sample_registry ''qwen--qwen3--32b'' ''qwen/qwen3-32b'' = Inr sample_identity"
    by (simp add: answer_of_def sample_registry_def sample_identity_def nonzero_registry_order_book_def unwrap_text_def)
  ultimately show ?thesis
    using resolution_by_first_spelling [of sample_registry "\<lambda>c. c" "''qwen--qwen3--32b''" "''qwen/qwen3-32b''" "\<lambda>_. ''ab''"] by simp
qed

section \<open>Suggestions\<close>

lemma set_insert_sorted_by [simp]: "set (insert_sorted_by le x xs) = insert x (set xs)"
  by (induction xs) auto

lemma set_sort_by [simp]: "set (sort_by le xs) = set xs"
  by (induction xs) (simp_all add: sort_by_def)

lemma sort_by_sorted:
  assumes "\<And>x y. le x y \<or> le y x" and "\<And>x y z. le x y \<Longrightarrow> le y z \<Longrightarrow> le x z"
  shows "sorted_wrt le (sort_by le xs)"
proof -
  have "sorted_wrt le (insert_sorted_by le x ys)" if "sorted_wrt le ys" for x ys
    using that
  proof (induction ys)
    case (Cons y ys)
    show ?case
    proof (cases "le x y")
      case True
      then have "le x z" if "z \<in> set ys" for z using Cons.prems assms(2) [of x y z] that by simp
      then show ?thesis using Cons.prems True by simp
    next
      case False
      then have "le y x" using assms(1) by blast
      then show ?thesis using Cons False by auto
    qed
  qed simp
  then show ?thesis by (induction xs) (simp_all add: sort_by_def)
qed

lemma dedup_on_sub: "set (dedup_on f xs) \<subseteq> set xs"
  by (induction f xs rule: dedup_on.induct) auto

lemma dedup_on_sorted: "sorted_wrt le xs \<Longrightarrow> sorted_wrt le (dedup_on f xs)"
proof (induction f xs rule: dedup_on.induct)
  case (1 f x y ys)
  show ?case
  proof (cases "f x = f y")
    case False
    then show ?thesis using 1 dedup_on_sub [of f "y # ys"] by auto
  qed (use 1 in simp)
qed simp_all

lemma push_candidate_extends: "\<exists>rest. push_candidate c out = out @ rest"
  by (auto simp: push_candidate_def Let_def)

lemma push_producer_free_extends: "\<exists>rest. push_producer_free alias out = out @ rest"
  by (auto simp: push_producer_free_def push_candidate_extends split: option.split)

lemma own_spelling_first:
  assumes "str_trim name = name" and "name \<noteq> []"
  shows "\<exists>rest. registry_identity_candidates upcase name = name # rest"
proof -
  have start: "push_candidate name [] = [name]" using assms by (simp add: push_candidate_def)
  have keeps: "\<exists>rest. push_candidate c (name # out) = name # rest" "\<exists>rest. push_producer_free c (name # out) = name # rest"
    for c out
    using push_candidate_extends [of c "name # out"] push_producer_free_extends [of c "name # out"] by auto
  show ?thesis
    unfolding registry_identity_candidates_def Let_def assms(1) start
    using keeps by (auto split: option.split) metis+
qed

lemma ranked_names_ok:
  "length (ranked_names upcase claimed discovered) \<le> REGISTERED_MODEL_SUGGESTION_LIMIT"
  "name \<in> set (ranked_names upcase claimed discovered) \<Longrightarrow>
    name \<in> set discovered \<and> name \<noteq> [] \<and> to_ascii_lowercase name \<notin> set (served_model_suggestion_aliases upcase claimed)"
  by (auto simp: ranked_names_def Let_def dest!: in_set_takeD subsetD [OF dedup_on_sub])

abbreviation name_distance :: "string \<Rightarrow> string \<Rightarrow> nat" where
  "name_distance claimed name \<equiv> ascii_case_folded_levenshtein_distance (to_ascii_lowercase (str_trim claimed)) name"

lemma ranked_names_sorted:
  "sorted_wrt (\<lambda>a b. name_distance claimed a \<le> name_distance claimed b) (ranked_names upcase claimed discovered)"
proof -
  let ?le = "\<lambda>x y :: nat \<times> string. fst x < fst y \<or> (fst x = fst y \<and> byte_le (snd x) (snd y))"
  let ?d = "name_distance claimed"
  let ?rows = "map (\<lambda>name. (?d name, name))
      (filter (\<lambda>name. name \<noteq> [] \<and> to_ascii_lowercase name \<notin> set (served_model_suggestion_aliases upcase claimed)) discovered)"
  define top where "top = take REGISTERED_MODEL_SUGGESTION_LIMIT (dedup_on snd (sort_by ?le ?rows))"
  have "sorted_wrt ?le (sort_by ?le ?rows)" by (rule sort_by_sorted) (auto simp: byte_le_def)
  then have "sorted_wrt ?le top" unfolding top_def by (intro sorted_wrt_take dedup_on_sorted)
  moreover have pair: "fst x = ?d (snd x)" if "x \<in> set top" for x
    using subsetD [OF dedup_on_sub in_set_takeD [OF that [unfolded top_def]]] by auto
  have "?d (snd x) \<le> ?d (snd y)" if "x \<in> set top" "y \<in> set top" "?le x y" for x y
    using that(3) pair [OF that(1)] pair [OF that(2)] by auto
  ultimately have "sorted_wrt (\<lambda>x y. ?d (snd x) \<le> ?d (snd y)) top"
    using sorted_wrt_mono_rel [of top ?le "\<lambda>x y. ?d (snd x) \<le> ?d (snd y)"] by blast
  moreover have "ranked_names upcase claimed discovered = map snd top" by (simp add: ranked_names_def top_def Let_def)
  ultimately show ?thesis by (simp add: sorted_wrt_map)
qed

lemma suggestibleE:
  assumes "suggestible sha book_of reader name"
  obtains entry book where "rr_model reader name = Inr (Some entry)" "rg_exists entry"
    "normalize_hash (rg_model_hash entry) = normalize_hash (sha name)"
    "nonzero_registry_order_book (rg_order_book entry) = Inr (Some book)" "book_of (sha name) = Some book"
proof -
  obtain entry where entry: "rr_model reader name = Inr (Some entry)"
    using assms by (cases "rr_model reader name") (auto simp: suggestible_def split: option.splits)
  obtain book where "nonzero_registry_order_book (rg_order_book entry) = Inr (Some book)"
    using assms entry
    by (cases "nonzero_registry_order_book (rg_order_book entry)") (auto simp: suggestible_def split: option.splits)
  then show thesis using that entry assms by (simp add: suggestible_def)
qed

text \<open>
  The suggestions after a miss are at most five, nearest first, none of them only another spelling of the
  claimed name, and each is a way out: asked for under a suggested name the registry resolves it, under that
  very name and with the canonical order book.
\<close>

theorem suggestions_resolve:
  assumes "registered_model_suggestions upcase sha book_of reader claimed = Inr names"
  shows "length names \<le> REGISTERED_MODEL_SUGGESTION_LIMIT
    \<and> sorted_wrt (\<lambda>a b. name_distance claimed a \<le> name_distance claimed b) names
    \<and> (\<forall>name \<in> set names. to_ascii_lowercase name \<notin> set (served_model_suggestion_aliases upcase claimed)
        \<and> (str_trim name = name \<longrightarrow>
            (\<exists>identity. resolve_registered_model_identity_with upcase sha book_of reader name policy = Inr identity
              \<and> ri_registry_model identity = name \<and> book_of (sha name) = Some (ri_order_book identity))))"
proof -
  obtain discovered where names: "names = filter (suggestible sha book_of reader) (ranked_names upcase claimed discovered)"
    using assms by (auto simp: registered_model_suggestions_def result_simps)
  have resolves: "\<exists>identity. resolve_registered_model_identity_with upcase sha book_of reader name policy = Inr identity
      \<and> ri_registry_model identity = name \<and> book_of (sha name) = Some (ri_order_book identity)"
    if name: "name \<in> set names" and trimmed: "str_trim name = name" for name
  proof -
    have "name \<noteq> []" using name names ranked_names_ok(2) by auto
    then obtain rest where rest: "registry_identity_candidates upcase name = name # rest" using own_spelling_first trimmed by blast
    have "suggestible sha book_of reader name" using name names by simp
    then obtain entry book where entry: "rr_model reader name = Inr (Some entry)" "rg_exists entry"
      "normalize_hash (rg_model_hash entry) = normalize_hash (sha name)"
      "nonzero_registry_order_book (rg_order_book entry) = Inr (Some book)" "book_of (sha name) = Some book"
      by (rule suggestibleE)
    have "first_held reader (registry_identity_candidates upcase name) name"
      using rest entry(1,2) by (simp add: first_held_def missing_def)
    then show ?thesis
      using resolve_candidates_first [of reader "registry_identity_candidates upcase name" name sha name] entry
      by (simp add: resolve_registered_model_identity_with_def answer_of_def Let_def unwrap_text_def)
  qed
  have "length names \<le> REGISTERED_MODEL_SUGGESTION_LIMIT"
    using names ranked_names_ok(1) [of upcase claimed discovered] by (metis le_trans length_filter_le)
  moreover have "sorted_wrt (\<lambda>a b. name_distance claimed a \<le> name_distance claimed b) names"
    unfolding names by (rule sorted_wrt_filter [OF ranked_names_sorted])
  ultimately show ?thesis using resolves names ranked_names_ok(2) by auto
qed

definition sample_book :: string where "sample_book = ''0:'' @ replicate 64 (CHR ''1'')"

definition sample_listing :: ModelRegistryReader where
  "sample_listing =
    \<lparr> rr_model = (\<lambda>_. Inr (Some \<lparr> rg_exists = True, rg_model_hash = ''ab'', rg_order_book = sample_book \<rparr>)),
      rr_names = Inr [''acme--m--1''] \<rparr>"

lemma sample_suggestions:
  "registered_model_suggestions (\<lambda>c. c) (\<lambda>_. ''ab'') (\<lambda>_. Some sample_book) sample_listing ''acme--m--2'' = Inr [''acme--m--1'']"
proof -
  have "ranked_names (\<lambda>c. c) ''acme--m--2'' [''acme--m--1''] = [''acme--m--1'']" by code_simp
  moreover have "nonzero_registry_order_book sample_book = Inr (Some sample_book)" by code_simp
  ultimately show ?thesis by (simp add: registered_model_suggestions_def suggestible_def sample_listing_def)
qed

theorem suggestions_resolve_witness:
  "\<exists>identity. resolve_registered_model_identity_with (\<lambda>c. c) (\<lambda>_. ''ab'') (\<lambda>_. Some sample_book) sample_listing ''acme--m--1''
     SkipSuggestions = Inr identity \<and> ri_registry_model identity = ''acme--m--1''"
proof -
  have "str_trim ''acme--m--1'' = ''acme--m--1''" by code_simp
  then show ?thesis using suggestions_resolve [OF sample_suggestions, of SkipSuggestions] by auto
qed

end
