(* ===== verification/RouteBudget.thy ===== *)
theory RouteBudget
  imports OpenAi MarketViews
begin

text \<open>
  The token budget of the buyer's local API, \<open>src/crates/dexdo/src/buyer/api/mod.rs\<close>: what a deal may still
  deliver, what its requests have reserved of it, and how a subscription moves its weekly ceiling. The
  atomics of the source are the fields of one record; a compare-and-exchange and a load are separate
  steps of the concurrent system below. What the chain answers is an argument.
\<close>

section \<open>The route and its reservations\<close>

definition CONTENT_PROBE_MAX_TOKENS :: u64 where "CONTENT_PROBE_MAX_TOKENS = 64"

text \<open>\<open>SubscriptionWeeklyBudget\<close>, without its chain handle and its locks.\<close>

record WeeklyBudget =
  wk_claim_anchor :: u128
  wk_anchored_before_probe :: bool
  wk_terminal :: bool
  wk_published_week :: u8
  wk_expires_at :: u64

text \<open>
  The counters of \<open>ApiDeal\<close>. \<open>ar_probes\<close> says that its content gate probes at all, \<open>ar_verdict\<close> that the verdict
  of the gate is cached.
\<close>

record ApiRoute =
  ar_delivered :: u64
  ar_reserved :: u64
  ar_ceiling :: u64
  ar_weekly :: "WeeklyBudget option"
  ar_probes :: bool
  ar_verdict :: bool

record RouteReservation =
  rv_granted :: u64
  rv_used :: u64

datatype route_reject =
    OrdinaryBudgetExhausted | CannotCoverVerification | TerminalSubscription | StateUnreadable | NoCoherentSnapshot
  | NoWeeklyBoundary | DisputedOrStopped | TermServed | NotOpen | BookingNotVisible | BoundaryNotBooked
  | CapUnreadable cap_error | CapBelowAnchor | CapBeyondCounter | DeliveredBeyondProbe | WeekDrawnDown
  | BeyondReservation | BeyondCeiling | DeliveryOverflow | NoReservation

definition reservation_remaining :: "RouteReservation \<Rightarrow> u64" where
  "reservation_remaining r = (case checked_sub (rv_granted r) (rv_used r) of Some n \<Rightarrow> n | None \<Rightarrow> 0)"

definition checked_used_after :: "u64 \<Rightarrow> RouteReservation \<Rightarrow> route_reject + u64" where
  "checked_used_after delivered r =
    (case checked_add U64_MAX (rv_used r) delivered of
       Some used \<Rightarrow> if used \<le> rv_granted r then Inr used else Inl BeyondReservation
     | None \<Rightarrow> Inl BeyondReservation)"

definition new_route :: "u64 \<Rightarrow> bool \<Rightarrow> ApiRoute" where
  "new_route max_tokens probes =
    \<lparr> ar_delivered = 0, ar_reserved = 0, ar_ceiling = max_tokens, ar_weekly = None, ar_probes = probes, ar_verdict = False \<rparr>"

definition new_weekly :: "DealChainState \<Rightarrow> DealSubscription \<Rightarrow> WeeklyBudget" where
  "new_weekly st s =
    \<lparr> wk_claim_anchor = dcs_tokens_pending st, wk_anchored_before_probe = (\<not> dcs_probe_accepted st),
      wk_terminal = term_is_over s, wk_published_week = sub_week_index s, wk_expires_at = recorded_week_expires_at s \<rparr>"

definition with_weekly_budget :: "WeeklyBudget \<Rightarrow> ApiRoute \<Rightarrow> ApiRoute" where
  "with_weekly_budget w r = r\<lparr>ar_weekly := Some w\<rparr>"

definition outstanding_verification_tokens :: "ApiRoute \<Rightarrow> u64" where
  "outstanding_verification_tokens r =
    (if \<not> ar_probes r then 0 else if ar_verdict r then 0 else saturating_mul U64_MAX CONTENT_PROBE_MAX_TOKENS 2)"

text \<open>Before the trial tick is accepted the ceiling is that tick, whatever was published.\<close>

definition admission_ceiling :: "ApiRoute \<Rightarrow> u64" where
  "admission_ceiling r =
    (case ar_weekly r of
       Some w \<Rightarrow> if wk_anchored_before_probe w then TICK_SIZE else ar_ceiling r
     | None \<Rightarrow> ar_ceiling r)"

definition remaining_tokens :: "ApiRoute \<Rightarrow> u64" where
  "remaining_tokens r =
    (if (case ar_weekly r of Some w \<Rightarrow> wk_terminal w | None \<Rightarrow> False) then 0
     else saturating_sub (admission_ceiling r) (ar_reserved r))"

text \<open>What a request is granted against an observed counter of reserved tokens; nothing where the floor is not passed.\<close>

definition grant_for :: "u64 option \<Rightarrow> u64 \<Rightarrow> ApiRoute \<Rightarrow> u64 option" where
  "grant_for asked reserved r =
    (let free = saturating_sub (admission_ceiling r) reserved;
         floor = outstanding_verification_tokens r;
         granted = (case asked of Some n \<Rightarrow> min (saturating_add U64_MAX n floor) free | None \<Rightarrow> free) in
     if granted \<le> floor then None else Some granted)"

text \<open>\<open>try_reserve\<close> when no other request interferes: its first exchange succeeds.\<close>

definition try_reserve :: "u64 option \<Rightarrow> ApiRoute \<Rightarrow> RouteReservation option \<times> ApiRoute" where
  "try_reserve asked r =
    (case grant_for asked (ar_reserved r) r of
       None \<Rightarrow> (None, r)
     | Some granted \<Rightarrow>
         (Some \<lparr> rv_granted = granted, rv_used = 0 \<rparr>,
          r\<lparr>ar_reserved := saturating_add U64_MAX (ar_reserved r) granted\<rparr>))"

definition drop_reservation :: "RouteReservation \<Rightarrow> ApiRoute \<Rightarrow> ApiRoute" where
  "drop_reservation v r = r\<lparr>ar_reserved := ar_reserved r - reservation_remaining v\<rparr>"

text \<open>\<open>record_delivered\<close> against a ceiling that was loaded before.\<close>

definition record_route_delivered :: "u64 \<Rightarrow> u64 \<Rightarrow> ApiRoute \<Rightarrow> route_reject + ApiRoute" where
  "record_route_delivered ceiling n r =
    (case checked_add U64_MAX (ar_delivered r) n of
       Some total_after \<Rightarrow> if total_after \<le> ceiling then Inr (r\<lparr>ar_delivered := total_after\<rparr>) else Inl BeyondCeiling
     | None \<Rightarrow> Inl DeliveryOverflow)"

text \<open>\<open>ConsumerRequestGuard::record_delivered\<close>: the reservation is checked first and charged last.\<close>

definition guard_record_delivered ::
  "u64 \<Rightarrow> u64 \<Rightarrow> RouteReservation option \<Rightarrow> ApiRoute \<Rightarrow> route_reject + RouteReservation \<times> ApiRoute" where
  "guard_record_delivered ceiling n held r =
    ok_or_else held NoReservation (\<lambda>v.
    bindR (checked_used_after n v) (\<lambda>used.
    bindR (record_route_delivered ceiling n r) (\<lambda>r.
    Inr (v\<lparr>rv_used := used\<rparr>, r))))"

definition exhausted_reason :: "ApiRoute \<Rightarrow> route_reject" where
  "exhausted_reason r =
    (if 0 < outstanding_verification_tokens r then CannotCoverVerification else OrdinaryBudgetExhausted)"

text \<open>\<open>cap_canon_to_grant\<close>: what the seller is told, and the figure itself.\<close>

definition cap_canon_to_grant :: "u64 \<Rightarrow> 't::zero CanonRequest \<Rightarrow> 't CanonRequest \<times> u64" where
  "cap_canon_to_grant granted canon =
    (let granted = (case try_from U32_MAX granted of Some n \<Rightarrow> n | None \<Rightarrow> U32_MAX) in
     case rq_params canon of
       Some p \<Rightarrow>
         (let capped = (if sp_max_tokens p = 0 then granted else min (sp_max_tokens p) granted) in
          (canon\<lparr>rq_params := Some (p\<lparr>sp_max_tokens := capped\<rparr>)\<rparr>, capped))
     | None \<Rightarrow>
         (canon\<lparr>rq_params := Some \<lparr> sp_temperature = 0, sp_max_tokens = granted, sp_stop = [], sp_greedy = False \<rparr>\<rparr>,
          granted))"

section \<open>The weekly ceiling\<close>

definition week_ran_out :: "u64 \<Rightarrow> WeeklyBudget \<Rightarrow> bool" where
  "week_ran_out now w \<longleftrightarrow> wk_expires_at w \<le> now"

definition local_ceiling :: "DealChainSnapshot \<Rightarrow> u128 \<Rightarrow> route_reject + u64" where
  "local_ceiling snapshot anchor =
    bindR (map_err CapUnreadable (subscription_claim_cap_at (snap_state snapshot) (snap_subscription snapshot))) (\<lambda>cap.
    ok_or_else (checked_sub cap anchor) CapBelowAnchor (\<lambda>local.
    ok_or_else (try_from U64_MAX local) CapBeyondCounter Inr))"

definition rebase_anchor_on_probe :: "DealChainState \<Rightarrow> u64 \<Rightarrow> WeeklyBudget \<Rightarrow> route_reject + (WeeklyBudget \<times> bool)" where
  "rebase_anchor_on_probe st delivered w =
    (if \<not> dcs_probe_accepted st \<or> \<not> wk_anchored_before_probe w then Inr (w, False)
     else ok_or_else (checked_sub TICK_SIZE delivered) DeliveredBeyondProbe (\<lambda>rebased.
          Inr (w\<lparr>wk_claim_anchor := rebased\<rparr>, True)))"

definition publish_week :: "u8 \<Rightarrow> u64 \<Rightarrow> u64 \<Rightarrow> bool \<Rightarrow> WeeklyBudget \<Rightarrow> ApiRoute \<Rightarrow> ApiRoute" where
  "publish_week week expires_at ceiling rebased w r =
    r\<lparr>ar_ceiling := ceiling,
      ar_weekly := Some (w\<lparr>wk_published_week := week, wk_expires_at := expires_at,
        wk_anchored_before_probe := wk_anchored_before_probe w \<and> \<not> rebased\<rparr>)\<rparr>"

definition latch_terminal :: "WeeklyBudget \<Rightarrow> ApiRoute \<Rightarrow> ApiRoute" where
  "latch_terminal w r = r\<lparr>ar_weekly := Some (w\<lparr>wk_terminal := True\<rparr>)\<rparr>"

text \<open>
  The end of \<open>reconcile\<close>, on a snapshot that supports an answer: move the anchor, compute the ceiling, publish both.
  An anchor that was moved stays moved when the ceiling cannot be computed afterwards.
\<close>

definition move_ceiling :: "DealChainSnapshot \<Rightarrow> WeeklyBudget \<Rightarrow> ApiRoute \<Rightarrow> (route_reject + unit) \<times> ApiRoute" where
  "move_ceiling snapshot w r =
    (let s = snap_subscription snapshot; week = sub_week_index s; republished = (wk_published_week w \<noteq> week) in
     case rebase_anchor_on_probe (snap_state snapshot) (ar_delivered r) w of
       Inl e \<Rightarrow> (Inl e, r)
     | Inr (w', rebased) \<Rightarrow>
         (case (if republished \<or> rebased then local_ceiling snapshot (wk_claim_anchor w') else Inr (ar_ceiling r)) of
            Inl e \<Rightarrow> (Inl e, r\<lparr>ar_weekly := Some w'\<rparr>)
          | Inr ceiling \<Rightarrow>
              (if ceiling \<le> ar_delivered r then Inl WeekDrawnDown else Inr (),
               publish_week week (recorded_week_expires_at s) ceiling rebased w' r)))"

text \<open>\<open>reconcile\<close> after its two calls: whether the booking was answered as done, and what the snapshot read answered.\<close>

definition reconcile ::
  "u64 \<Rightarrow> bool \<Rightarrow> (unit + DealChainSnapshot option) \<Rightarrow> WeeklyBudget \<Rightarrow> ApiRoute \<Rightarrow> (route_reject + unit) \<times> ApiRoute" where
  "reconcile now booked read w r =
    (if wk_terminal w then (Inl TerminalSubscription, r)
     else case read of
       Inl _ \<Rightarrow> (Inl StateUnreadable, r)
     | Inr None \<Rightarrow> (Inl NoCoherentSnapshot, r)
     | Inr (Some snapshot) \<Rightarrow>
         (let st = snap_state snapshot; s = snap_subscription snapshot;
              republished = (wk_published_week w \<noteq> sub_week_index s) in
          if \<not> is_subscription s then (Inl NoWeeklyBoundary, r)
          else if dcs_disputed st \<or> is_stopped st then (Inl DisputedOrStopped, latch_terminal w r)
          else if term_is_over s then (Inl TermServed, latch_terminal w r)
          else if \<not> dcs_opened st then (Inl NotOpen, r)
          else if booked \<and> \<not> republished then (Inl BookingNotVisible, r)
          else if \<not> republished \<and> recorded_week_expires_at s \<le> now then (Inl BoundaryNotBooked, r)
          else move_ceiling snapshot w r))"

text \<open>\<open>admit\<close> of one request that no other interferes with.\<close>

definition reserve_or_reason :: "u64 option \<Rightarrow> ApiRoute \<Rightarrow> (route_reject + RouteReservation) \<times> ApiRoute" where
  "reserve_or_reason want r =
    (case try_reserve want r of (Some v, r') \<Rightarrow> (Inr v, r') | (None, _) \<Rightarrow> (Inl (exhausted_reason r), r))"

definition admit ::
  "u64 \<Rightarrow> bool \<Rightarrow> (unit + DealChainSnapshot option) \<Rightarrow> u32 option \<Rightarrow> ApiRoute
    \<Rightarrow> (route_reject + RouteReservation) \<times> ApiRoute" where
  "admit now booked read requested r =
    (let want = (case requested of Some n \<Rightarrow> if 0 < n then Some n else None | None \<Rightarrow> None) in
     case ar_weekly r of
       None \<Rightarrow> reserve_or_reason want r
     | Some w \<Rightarrow>
         if wk_terminal w then (Inl TerminalSubscription, r)
         else if 0 < remaining_tokens r \<and> \<not> week_ran_out now w \<and> \<not> wk_anchored_before_probe w
         then reserve_or_reason want r
         else case reconcile now booked read w r of
                (Inr _, r) \<Rightarrow> reserve_or_reason want r
              | (Inl e, r) \<Rightarrow> (Inl e, r))"

end
