(* ===== verification/RouteSystem.thy ===== *)
theory RouteSystem
  imports RouteBudget
begin

text \<open>
  Requests of the buyer's API interleaved on one route. A request loads the counter of reserved tokens, looks
  at the ceiling, and exchanges the counter or starts again; it loads the ceiling before it commits a
  delivered chunk; it returns what it did not use when it ends. A reconciliation publishes the ceiling
  of a snapshot. The cutover after the trial tick is excluded while a chunk is between its two steps, as
  both hold the anchor's mutex. The chain is held to this: while the term runs, the claim cap of the snapshots
  never falls and, once the trial tick is accepted, covers it. Past the final boundary the claim cap is the total
  already declared, which may be lower; such a snapshot only ends the route.
\<close>

section \<open>The system\<close>

datatype RequestPhase =
    Waiting
  | Trying u64
  | Deciding u64 u64
  | Serving RouteReservation
  | Delivering RouteReservation u64 u64

record RouteWorld =
  rw_route :: ApiRoute
  rw_requests :: "RequestPhase list"
  rw_cap :: u128

fun delivering :: "RequestPhase \<Rightarrow> bool" where
  "delivering (Delivering _ _ _) \<longleftrightarrow> True"
| "delivering _ \<longleftrightarrow> False"

definition cutover :: "DealChainSnapshot \<Rightarrow> WeeklyBudget \<Rightarrow> bool" where
  "cutover snapshot w \<longleftrightarrow> dcs_probe_accepted (snap_state snapshot) \<and> wk_anchored_before_probe w"

text \<open>
  The claim cap of a snapshot within the term; none past the final boundary, where there is no quota, and none
  where the sum leaves its width. \<open>rw_cap\<close> is the cap of the latest snapshot that had one: it holds no lower
  one, as \<open>weekBaseTokens\<close> only rises from week to week.
\<close>

definition term_cap :: "DealChainSnapshot \<Rightarrow> u128 option" where
  "term_cap snapshot =
    (if term_is_over (snap_subscription snapshot) then None
     else case subscription_claim_cap_at (snap_state snapshot) (snap_subscription snapshot) of
            Inr cap \<Rightarrow> Some cap | Inl _ \<Rightarrow> None)"

definition honest_cap :: "DealChainSnapshot \<Rightarrow> u128 \<Rightarrow> u128 \<Rightarrow> bool" where
  "honest_cap snapshot cap cap' \<longleftrightarrow>
    (case term_cap snapshot of
       None \<Rightarrow> cap' = cap
     | Some c \<Rightarrow> cap' = c \<and> cap \<le> c \<and> (dcs_probe_accepted (snap_state snapshot) \<longrightarrow> TICK_SIZE \<le> c))"

inductive route_step :: "RouteWorld \<Rightarrow> RouteWorld \<Rightarrow> bool" where
  arrive: "route_step W (W\<lparr>rw_requests := rw_requests W @ [Waiting]\<rparr>)"
| load: "i < length (rw_requests W) \<Longrightarrow> rw_requests W ! i = Waiting \<Longrightarrow>
    route_step W (W\<lparr>rw_requests := (rw_requests W)[i := Trying (ar_reserved (rw_route W))]\<rparr>)"
| look: "i < length (rw_requests W) \<Longrightarrow> rw_requests W ! i = Trying reserved \<Longrightarrow>
    grant_for asked reserved (rw_route W) = Some granted \<Longrightarrow>
    route_step W (W\<lparr>rw_requests := (rw_requests W)[i := Deciding reserved granted]\<rparr>)"
| refuse: "i < length (rw_requests W) \<Longrightarrow> rw_requests W ! i = Trying reserved \<Longrightarrow>
    grant_for asked reserved (rw_route W) = None \<Longrightarrow>
    route_step W (W\<lparr>rw_requests := (rw_requests W)[i := Waiting]\<rparr>)"
| exchange: "i < length (rw_requests W) \<Longrightarrow> rw_requests W ! i = Deciding reserved granted \<Longrightarrow>
    ar_reserved (rw_route W) = reserved \<Longrightarrow>
    route_step W (W\<lparr>rw_route := (rw_route W)\<lparr>ar_reserved := saturating_add U64_MAX reserved granted\<rparr>,
      rw_requests := (rw_requests W)[i := Serving \<lparr> rv_granted = granted, rv_used = 0 \<rparr>]\<rparr>)"
| lost_exchange: "i < length (rw_requests W) \<Longrightarrow> rw_requests W ! i = Deciding reserved granted \<Longrightarrow>
    ar_reserved (rw_route W) \<noteq> reserved \<Longrightarrow>
    route_step W (W\<lparr>rw_requests := (rw_requests W)[i := Trying (ar_reserved (rw_route W))]\<rparr>)"
| chunk: "i < length (rw_requests W) \<Longrightarrow> rw_requests W ! i = Serving v \<Longrightarrow>
    route_step W (W\<lparr>rw_requests := (rw_requests W)[i := Delivering v (ar_ceiling (rw_route W)) n]\<rparr>)"
| delivered: "i < length (rw_requests W) \<Longrightarrow> rw_requests W ! i = Delivering v ceiling n \<Longrightarrow>
    guard_record_delivered ceiling n (Some v) (rw_route W) = Inr (v', r') \<Longrightarrow>
    route_step W (W\<lparr>rw_route := r', rw_requests := (rw_requests W)[i := Serving v']\<rparr>)"
| undelivered: "i < length (rw_requests W) \<Longrightarrow> rw_requests W ! i = Delivering v ceiling n \<Longrightarrow>
    guard_record_delivered ceiling n (Some v) (rw_route W) = Inl e \<Longrightarrow>
    route_step W (W\<lparr>rw_requests := (rw_requests W)[i := Serving v]\<rparr>)"
| finish: "i < length (rw_requests W) \<Longrightarrow> rw_requests W ! i = Serving v \<Longrightarrow>
    route_step W (W\<lparr>rw_route := drop_reservation v (rw_route W), rw_requests := (rw_requests W)[i := Waiting]\<rparr>)"
| verified: "route_step W (W\<lparr>rw_route := (rw_route W)\<lparr>ar_verdict := True\<rparr>\<rparr>)"
| unread: "ar_weekly (rw_route W) = Some w \<Longrightarrow> read = Inl u \<or> read = Inr None \<Longrightarrow>
    route_step W (W\<lparr>rw_route := snd (reconcile now booked read w (rw_route W))\<rparr>)"
| reconciled: "ar_weekly (rw_route W) = Some w \<Longrightarrow> honest_cap snapshot (rw_cap W) cap \<Longrightarrow>
    (cutover snapshot w \<Longrightarrow> list_all (\<lambda>p. \<not> delivering p) (rw_requests W)) \<Longrightarrow>
    route_step W (W\<lparr>rw_route := snd (reconcile now booked (Inr (Some snapshot)) w (rw_route W)), rw_cap := cap\<rparr>)"

text \<open>
  A route starts as an ordinary deal with its funded budget, or as a subscription on a snapshot, whose ceiling
  is the headroom above the tokens claimed.
\<close>

definition route_start :: "RouteWorld \<Rightarrow> bool" where
  "route_start W \<longleftrightarrow>
    rw_requests W = [] \<and> ar_delivered (rw_route W) = 0 \<and> ar_reserved (rw_route W) = 0 \<and> ar_ceiling (rw_route W) \<le> U64_MAX
    \<and> (case ar_weekly (rw_route W) of
         None \<Rightarrow> True
       | Some w \<Rightarrow> wk_claim_anchor w + ar_ceiling (rw_route W) \<le> rw_cap W)"

definition route_reach :: "RouteWorld \<Rightarrow> RouteWorld \<Rightarrow> bool" where
  "route_reach W W' \<longleftrightarrow> route_start W \<and> route_step\<^sup>*\<^sup>* W W'"

section \<open>The invariant\<close>

fun unspent :: "RequestPhase \<Rightarrow> nat" where
  "unspent (Serving v) = rv_granted v - rv_used v"
| "unspent (Delivering v _ _) = rv_granted v - rv_used v"
| "unspent _ = 0"

abbreviation on_trial :: "ApiRoute \<Rightarrow> bool" where
  "on_trial r \<equiv> (case ar_weekly r of Some w \<Rightarrow> wk_anchored_before_probe w | None \<Rightarrow> False)"

fun phase_ok :: "ApiRoute \<Rightarrow> u128 \<Rightarrow> RequestPhase \<Rightarrow> bool" where
  "phase_ok r cap (Deciding reserved granted) \<longleftrightarrow>
    reserved + granted \<le> U64_MAX \<and> (on_trial r \<longrightarrow> reserved + granted \<le> TICK_SIZE)
    \<and> (ar_weekly r = None \<longrightarrow> reserved + granted \<le> ar_ceiling r)"
| "phase_ok r cap (Serving v) \<longleftrightarrow> rv_used v \<le> rv_granted v"
| "phase_ok r cap (Delivering v ceiling n) \<longleftrightarrow> rv_used v \<le> rv_granted v
    \<and> (case ar_weekly r of
         None \<Rightarrow> ceiling = ar_ceiling r
       | Some w \<Rightarrow> \<not> wk_anchored_before_probe w \<longrightarrow> wk_claim_anchor w + ceiling \<le> cap)"
| "phase_ok r cap _ \<longleftrightarrow> True"

definition budget_ok :: "ApiRoute \<Rightarrow> u128 \<Rightarrow> bool" where
  "budget_ok r cap \<longleftrightarrow>
    ar_ceiling r \<le> U64_MAX \<and> ar_reserved r \<le> U64_MAX
    \<and> (case ar_weekly r of
         None \<Rightarrow> ar_reserved r \<le> ar_ceiling r
       | Some w \<Rightarrow>
           if wk_anchored_before_probe w then ar_reserved r \<le> TICK_SIZE
           else wk_claim_anchor w + ar_ceiling r \<le> cap \<and> wk_claim_anchor w + ar_delivered r \<le> cap)"

definition route_inv :: "RouteWorld \<Rightarrow> bool" where
  "route_inv W \<longleftrightarrow>
    ar_reserved (rw_route W) = ar_delivered (rw_route W) + sum_list (map unspent (rw_requests W))
    \<and> budget_ok (rw_route W) (rw_cap W) \<and> list_all (phase_ok (rw_route W) (rw_cap W)) (rw_requests W)"

lemma TICK_fits: "TICK_SIZE \<le> U64_MAX"
  by (simp add: TICK_SIZE_def U64_MAX_def)

lemma route_inv_start: "route_start W \<Longrightarrow> route_inv W"
  by (auto simp: route_start_def route_inv_def budget_ok_def split: option.splits)

text \<open>Replacing one phase.\<close>

lemma unspent_update:
  "i < length ps \<Longrightarrow> sum_list (map unspent (ps[i := p])) + unspent (ps ! i) = sum_list (map unspent ps) + unspent p"
  using elem_le_sum_list [of i "map unspent ps"] by (simp add: map_update sum_list_update)

lemma phases_update: "list_all P ps \<Longrightarrow> P p \<Longrightarrow> list_all P (ps[i := p])"
  by (auto simp: list_all_iff dest: set_update_subset_insert [THEN subsetD])

lemma phase_ok_cong:
  "ar_weekly r' = ar_weekly r \<Longrightarrow> ar_ceiling r' = ar_ceiling r \<Longrightarrow> phase_ok r' cap p = phase_ok r cap p"
  by (cases p) (simp_all split: option.split)

lemma grant_for_ok:
  assumes "grant_for asked reserved r = Some granted" and "budget_ok r cap"
  shows "phase_ok r cap (Deciding reserved granted)" and "outstanding_verification_tokens r < granted"
proof -
  have granted: "granted \<le> admission_ceiling r - reserved" "0 < granted"
    using assms(1) by (auto simp: grant_for_def Let_def split: option.splits if_splits)
  then have "reserved + granted \<le> admission_ceiling r" by simp
  moreover have "admission_ceiling r \<le> U64_MAX"
    using assms(2) TICK_fits by (auto simp: admission_ceiling_def budget_ok_def split: option.split)
  ultimately show "phase_ok r cap (Deciding reserved granted)"
    by (auto simp: admission_ceiling_def split: option.splits if_splits)
  show "outstanding_verification_tokens r < granted"
    using assms(1) by (auto simp: grant_for_def Let_def split: if_splits)
qed

lemma route_inv_phase:
  assumes "route_inv W" and "i < length (rw_requests W)" and "unspent p = unspent (rw_requests W ! i)"
    and "phase_ok (rw_route W) (rw_cap W) p"
  shows "route_inv (W\<lparr>rw_requests := (rw_requests W)[i := p]\<rparr>)"
  using assms unspent_update [of i "rw_requests W" p] phases_update [of "phase_ok (rw_route W) (rw_cap W)" _ p i]
  by (simp add: route_inv_def)

lemma phase_at: "route_inv W \<Longrightarrow> i < length (rw_requests W) \<Longrightarrow> phase_ok (rw_route W) (rw_cap W) (rw_requests W ! i)"
  by (simp add: route_inv_def list_all_length)

text \<open>A step that changes the counters and one phase, but neither ceiling nor week.\<close>

lemma route_inv_counters:
  assumes inv: "route_inv W" and i: "i < length (rw_requests W)"
    and same: "ar_weekly r' = ar_weekly (rw_route W)" "ar_ceiling r' = ar_ceiling (rw_route W)"
    and sums: "ar_reserved r' + ar_delivered (rw_route W) + unspent (rw_requests W ! i)
      = ar_reserved (rw_route W) + ar_delivered r' + unspent p"
    and ok: "budget_ok r' (rw_cap W)" "phase_ok (rw_route W) (rw_cap W) p"
  shows "route_inv (W\<lparr>rw_route := r', rw_requests := (rw_requests W)[i := p]\<rparr>)"
proof -
  have "list_all (phase_ok r' (rw_cap W)) ((rw_requests W)[i := p])"
    using inv ok(2) by (intro phases_update) (simp_all add: route_inv_def list_all_iff phase_ok_cong [OF same])
  moreover have "ar_reserved r' = ar_delivered r' + sum_list (map unspent ((rw_requests W)[i := p]))"
    using inv sums unspent_update [OF i, of p] by (simp add: route_inv_def)
  ultimately show ?thesis using ok(1) by (simp add: route_inv_def)
qed

text \<open>What a reconciliation leaves behind: the route as it was, a terminal latch, or one of these.\<close>

definition published :: "DealChainSnapshot \<Rightarrow> WeeklyBudget \<Rightarrow> ApiRoute \<Rightarrow> ApiRoute \<Rightarrow> bool" where
  "published snapshot w r r' \<longleftrightarrow>
    (\<exists>week expires ceiling. r' = publish_week week expires ceiling False w r
      \<and> (ceiling = ar_ceiling r \<or> local_ceiling snapshot (wk_claim_anchor w) = Inr ceiling))"

definition rebased :: "DealChainSnapshot \<Rightarrow> WeeklyBudget \<Rightarrow> ApiRoute \<Rightarrow> ApiRoute \<Rightarrow> bool" where
  "rebased snapshot w r r' \<longleftrightarrow> cutover snapshot w \<and> ar_delivered r \<le> TICK_SIZE \<and>
    (let w' = w\<lparr>wk_claim_anchor := TICK_SIZE - ar_delivered r\<rparr> in
     r' = r\<lparr>ar_weekly := Some w'\<rparr>
     \<or> (\<exists>week expires ceiling. r' = publish_week week expires ceiling True w' r
          \<and> local_ceiling snapshot (TICK_SIZE - ar_delivered r) = Inr ceiling))"

lemma move_ceiling_cases:
  assumes "ar_weekly r = Some w" and "r' = snd (move_ceiling snapshot w r)"
  shows "r' = r \<or> published snapshot w r r' \<or> rebased snapshot w r r'"
proof (cases "rebase_anchor_on_probe (snap_state snapshot) (ar_delivered r) w")
  case (Inl e)
  then show ?thesis using assms(2) by (simp add: move_ceiling_def Let_def)
next
  case (Inr p)
  obtain w' moved where p: "p = (w', moved)" by fastforce
  show ?thesis
  proof (cases moved)
    case False
    then have "w' = w" using Inr p by (auto simp: rebase_anchor_on_probe_def result_simps split: if_splits)
    then show ?thesis
      using assms Inr p False
      by (auto simp: move_ceiling_def published_def Let_def split: sum.splits if_splits)
  next
    case True
    then have "cutover snapshot w" "ar_delivered r \<le> TICK_SIZE" "w' = w\<lparr>wk_claim_anchor := TICK_SIZE - ar_delivered r\<rparr>"
      using Inr p by (auto simp: rebase_anchor_on_probe_def cutover_def result_simps split: if_splits)
    then show ?thesis
      using assms(2) Inr p True
      by (cases "local_ceiling snapshot (TICK_SIZE - ar_delivered r)") (auto simp: move_ceiling_def rebased_def Let_def)
  qed
qed

lemma reconcile_cases:
  assumes "ar_weekly r = Some w" and "r' = snd (reconcile now booked (Inr (Some snapshot)) w r)"
  shows "r' = r \<or> r' = latch_terminal w r
    \<or> \<not> term_is_over (snap_subscription snapshot) \<and> (published snapshot w r r' \<or> rebased snapshot w r r')"
  using move_ceiling_cases [OF assms(1)] assms(2) by (auto simp: reconcile_def Let_def split: if_splits)

lemma local_ceilingD:
  "local_ceiling snapshot anchor = Inr ceiling \<Longrightarrow>
    subscription_claim_cap_at (snap_state snapshot) (snap_subscription snapshot) = Inr (anchor + ceiling) \<and> ceiling \<le> U64_MAX"
  by (auto simp: local_ceiling_def map_err_def result_simps split: sum.splits)

lemma local_ceiling_ok:
  "local_ceiling snapshot anchor = Inr ceiling \<Longrightarrow> \<not> term_is_over (snap_subscription snapshot) \<Longrightarrow>
    honest_cap snapshot cap cap' \<Longrightarrow>
    anchor + ceiling = cap' \<and> ceiling \<le> U64_MAX \<and> (dcs_probe_accepted (snap_state snapshot) \<longrightarrow> TICK_SIZE \<le> cap')"
  by (auto dest!: local_ceilingD simp: honest_cap_def term_cap_def)

lemma reconcile_keeps_route:
  assumes inv: "route_inv W" and w: "ar_weekly (rw_route W) = Some w" and honest: "honest_cap snapshot (rw_cap W) cap"
    and quiet: "cutover snapshot w \<Longrightarrow> list_all (\<lambda>p. \<not> delivering p) (rw_requests W)"
    and r': "r' = snd (reconcile now booked (Inr (Some snapshot)) w (rw_route W))"
  shows "route_inv (W\<lparr>rw_route := r', rw_cap := cap\<rparr>)"
proof -
  let ?r = "rw_route W"
  have cap: "rw_cap W \<le> cap" using honest by (auto simp: honest_cap_def split: option.splits)
  have counters: "ar_reserved r' = ar_reserved ?r" "ar_delivered r' = ar_delivered ?r"
    using reconcile_cases [OF w r']
    by (auto simp: latch_terminal_def published_def rebased_def publish_week_def Let_def)
  have spent: "ar_delivered ?r \<le> ar_reserved ?r" using inv by (simp add: route_inv_def)
  have budget: "budget_ok ?r (rw_cap W)" and phases: "list_all (phase_ok ?r (rw_cap W)) (rw_requests W)"
    using inv by (simp_all add: route_inv_def)
  have "budget_ok r' cap \<and> list_all (phase_ok r' cap) (rw_requests W)"
    using reconcile_cases [OF w r']
  proof (elim disjE conjE)
    assume "r' = ?r"
    moreover have "phase_ok ?r cap p" if "phase_ok ?r (rw_cap W) p" for p using that cap w by (cases p) auto
    ultimately show ?thesis using budget phases cap w by (auto simp: budget_ok_def list_all_iff split: if_splits)
  next
    assume "r' = latch_terminal w ?r"
    moreover have "phase_ok (latch_terminal w ?r) cap p" if "phase_ok ?r (rw_cap W) p" for p
      using that cap w by (cases p) (auto simp: latch_terminal_def)
    ultimately show ?thesis
      using budget phases cap w by (auto simp: budget_ok_def latch_terminal_def list_all_iff split: if_splits)
  next
    assume running: "\<not> term_is_over (snap_subscription snapshot)" and "published snapshot w ?r r'"
    then obtain week expires ceiling where pub: "r' = publish_week week expires ceiling False w ?r"
      "ceiling = ar_ceiling ?r \<or> local_ceiling snapshot (wk_claim_anchor w) = Inr ceiling"
      by (auto simp: published_def)
    have "phase_ok r' cap p" if "phase_ok ?r (rw_cap W) p" for p
      using that cap w by (cases p) (auto simp: pub(1) publish_week_def)
    moreover have "ceiling \<le> U64_MAX" "\<not> wk_anchored_before_probe w \<Longrightarrow> wk_claim_anchor w + ceiling \<le> cap"
      using pub(2) local_ceiling_ok [OF _ running honest] budget w cap by (auto simp: budget_ok_def)
    ultimately show ?thesis
      using budget phases cap w by (auto simp: budget_ok_def pub(1) publish_week_def list_all_iff split: if_splits)
  next
    assume running: "\<not> term_is_over (snap_subscription snapshot)" and reb: "rebased snapshot w ?r r'"
    then have cut: "cutover snapshot w" "ar_delivered ?r \<le> TICK_SIZE" by (simp_all add: rebased_def)
    then have trial: "wk_anchored_before_probe w" and accepted: "dcs_probe_accepted (snap_state snapshot)"
      by (simp_all add: cutover_def)
    have phase: "phase_ok r' cap p" if "phase_ok ?r (rw_cap W) p" "\<not> delivering p" for p
      using that w trial reb by (cases p) (auto simp: rebased_def publish_week_def Let_def)
    then have "list_all (phase_ok r' cap) (rw_requests W)" using phases quiet [OF cut(1)] by (auto simp: list_all_iff)
    moreover have "budget_ok r' cap"
      using reb budget w trial cut(2) accepted local_ceiling_ok [OF _ running honest]
      by (auto simp: budget_ok_def rebased_def publish_week_def Let_def)
    ultimately show ?thesis by simp
  qed
  then show ?thesis using inv counters by (simp add: route_inv_def)
qed

lemma guard_record_deliveredD:
  "guard_record_delivered ceiling n (Some v) r = Inr (v', r') \<Longrightarrow>
    rv_granted v' = rv_granted v \<and> rv_used v' = rv_used v + n \<and> rv_used v' \<le> rv_granted v'
    \<and> r' = r\<lparr>ar_delivered := ar_delivered r + n\<rparr> \<and> ar_delivered r + n \<le> ceiling"
  by (auto simp: guard_record_delivered_def checked_used_after_def record_route_delivered_def result_simps
      split: option.splits if_splits)

lemma route_inv_step: "route_step W W' \<Longrightarrow> route_inv W \<Longrightarrow> route_inv W'"
proof (induction rule: route_step.induct)
  case (arrive W)
  then show ?case by (simp add: route_inv_def)
next
  case (load i W)
  then show ?case by (intro route_inv_phase) simp_all
next
  case (look i W reserved asked granted)
  then have "phase_ok (rw_route W) (rw_cap W) (Deciding reserved granted)"
    using grant_for_ok(1) [OF look(3)] look(4) unfolding route_inv_def by blast
  then show ?case using look by (intro route_inv_phase) simp_all
next
  case (refuse i W reserved asked)
  then show ?case by (intro route_inv_phase) simp_all
next
  case (exchange i W reserved granted)
  have phase: "phase_ok (rw_route W) (rw_cap W) (Deciding reserved granted)" using phase_at exchange by metis
  then have sum: "saturating_add U64_MAX reserved granted = reserved + granted" by (simp add: saturating_add_exact)
  have "budget_ok ((rw_route W)\<lparr>ar_reserved := reserved + granted\<rparr>) (rw_cap W)"
    using exchange(4) phase by (auto simp: route_inv_def budget_ok_def split: option.splits)
  then show ?case using exchange sum by (intro route_inv_counters) simp_all
next
  case (lost_exchange i W reserved granted)
  then show ?case by (intro route_inv_phase) simp_all
next
  case (chunk i W v n)
  have "rv_used v \<le> rv_granted v" using phase_at [of W i] chunk by simp
  moreover have "budget_ok (rw_route W) (rw_cap W)" using chunk(3) by (simp add: route_inv_def)
  ultimately have "phase_ok (rw_route W) (rw_cap W) (Delivering v (ar_ceiling (rw_route W)) n)"
    by (auto simp: budget_ok_def split: option.splits)
  then show ?case using chunk by (intro route_inv_phase) simp_all
next
  case (delivered i W v ceiling n v' r')
  note d = guard_record_deliveredD [OF delivered(3)]
  have phase: "phase_ok (rw_route W) (rw_cap W) (Delivering v ceiling n)" using phase_at [of W i] delivered by simp
  have "ar_delivered (rw_route W) + (rv_granted v - rv_used v) \<le> ar_reserved (rw_route W)"
    using delivered(4) elem_le_sum_list [of i "map unspent (rw_requests W)"] delivered(1,2) by (simp add: route_inv_def)
  then have "budget_ok r' (rw_cap W)"
    using d phase delivered(4) by (auto simp: route_inv_def budget_ok_def split: option.splits if_splits)
  then show ?case using delivered d by (intro route_inv_counters) auto
next
  case (undelivered i W v ceiling n e)
  then show ?case using phase_at [of W i] by (intro route_inv_phase) simp_all
next
  case (finish i W v)
  have v: "rv_used v \<le> rv_granted v" using phase_at [of W i] finish by simp
  have "rv_granted v - rv_used v \<le> ar_reserved (rw_route W)"
    using finish(3) elem_le_sum_list [of i "map unspent (rw_requests W)"] finish(1,2) by (simp add: route_inv_def)
  moreover have rest: "reservation_remaining v = rv_granted v - rv_used v"
    using v by (simp add: reservation_remaining_def checked_sub_def)
  moreover have "budget_ok (drop_reservation v (rw_route W)) (rw_cap W)"
    using finish(3) by (auto simp: route_inv_def budget_ok_def drop_reservation_def split: option.splits if_splits)
  ultimately show ?case using finish by (intro route_inv_counters) (simp_all add: drop_reservation_def)
next
  case (verified W)
  have "phase_ok ((rw_route W)\<lparr>ar_verdict := True\<rparr>) (rw_cap W) p = phase_ok (rw_route W) (rw_cap W) p" for p
    by (rule phase_ok_cong) simp_all
  then show ?case using verified by (auto simp: route_inv_def budget_ok_def list_all_iff split: option.splits)
next
  case (unread W w read u now booked)
  then have "snd (reconcile now booked read w (rw_route W)) = rw_route W" by (auto simp: reconcile_def)
  then show ?case using unread by simp
next
  case (reconciled W w snapshot cap now booked)
  then show ?case using reconcile_keeps_route by blast
qed

lemma route_inv_reach: "route_reach W W' \<Longrightarrow> route_inv W'"
proof -
  assume "route_reach W W'"
  then have start: "route_start W" and steps: "route_step\<^sup>*\<^sup>* W W'" by (simp_all add: route_reach_def)
  from steps show ?thesis
    by (induction rule: rtranclp_induct) (use route_inv_start [OF start] route_inv_step in auto)
qed












text \<open>So the cutover to the accepted trial tick never meets the contradiction it guards against.\<close>

lemma cutover_never_contradicted:
  assumes "route_reach W W'" and "ar_weekly (rw_route W') = Some w"
  shows "rebase_anchor_on_probe st (ar_delivered (rw_route W')) w \<noteq> Inl DeliveredBeyondProbe"
proof -
  have inv: "route_inv W'" using assms(1) by (rule route_inv_reach)
  then have "ar_delivered (rw_route W') \<le> ar_reserved (rw_route W')" by (simp add: route_inv_def)
  moreover have "wk_anchored_before_probe w \<Longrightarrow> ar_reserved (rw_route W') \<le> TICK_SIZE"
    using inv assms(2) by (simp add: route_inv_def budget_ok_def)
  ultimately show ?thesis
    by (cases "wk_anchored_before_probe w") (auto simp: rebase_anchor_on_probe_def checked_sub_def)
qed

section \<open>Admission\<close>















end
