(* ===== verification/Session.thy ===== *)
theory Session
  imports Machine
begin

text \<open>
  How a buyer's session ends its deal: \<open>SessionSettle\<close> of \<open>src/crates/dexdo/src/buyer/api/mod.rs\<close>. The atomics of
  the struct are the fields of a record; the codes \<open>0\<close> are \<^const>\<open>None\<close>. Every operation that writes to the
  chain holds \<open>settle_lock\<close> to its end, so these run one after another; the others do not take the lock and may
  run between any two of them or while one of them waits for the chain. What the chain answers, and which of
  the others run meanwhile, is an input of each operation (\<open>Awaited\<close>). A task is taken to be polled to its end
  once it has the lock.

  The list \<open>sw_log\<close> keeps the chain writes in the order they were made, each with what became of it.
\<close>

section \<open>Policies and state\<close>

datatype VerificationBailAction = BailStop | BailDispute | BailStopAndBlacklist
datatype DeadGatewayAction = RetryThenReclaim | DeadNextSeller | DeadFailClosed
datatype EmptyStreamAction = EmptyReclaim | EmptyNextSeller | EmptyFailClosed
datatype SellerStallsMidStreamAction = AcceptDeliveredThenReclaim | StallDispute
datatype RecoveryKind = CleanupUnopened | ReclaimOpened
datatype SessionLifetimePolicy = SettleOnExit | PreserveDeal
datatype SessionTerminalAction = StreamStop | StreamDispute | StreamCleanup | ObservedTerminal | UnknownCloserAction

record BuyerApiFailurePolicy =
  fp_verification_bail :: VerificationBailAction
  fp_dead_gateway :: DeadGatewayAction
  fp_empty_stream :: EmptyStreamAction
  fp_seller_stalls_mid_stream :: SellerStallsMidStreamAction

definition default_failure_policy :: BuyerApiFailurePolicy where
  "default_failure_policy = \<lparr>fp_verification_bail = BailStop, fp_dead_gateway = RetryThenReclaim,
     fp_empty_stream = EmptyReclaim, fp_seller_stalls_mid_stream = AcceptDeliveredThenReclaim\<rparr>"

definition event_action :: "SessionTerminalAction \<Rightarrow> string" where
  "event_action a = (case a of StreamStop \<Rightarrow> ''streamStop'' | StreamDispute \<Rightarrow> ''streamDispute''
     | StreamCleanup \<Rightarrow> ''streamCleanup'' | ObservedTerminal \<Rightarrow> ''observedTerminal''
     | UnknownCloserAction \<Rightarrow> ''terminalCloserUnknown'')"

definition event_state :: "SessionTerminalAction \<Rightarrow> string" where
  "event_state a = (case a of StreamStop \<Rightarrow> ''stopped'' | StreamCleanup \<Rightarrow> ''stopped''
     | StreamDispute \<Rightarrow> ''disputed'' | _ \<Rightarrow> ''terminal'')"

definition chain_write_submitted :: "SessionTerminalAction \<Rightarrow> bool" where
  "chain_write_submitted a \<longleftrightarrow> a \<noteq> ObservedTerminal"

definition from_stop_settlement :: "Settlement \<Rightarrow> SessionTerminalAction" where
  "from_stop_settlement s =
    (case s of
       BuyerStopTerminal receipt \<Rightarrow>
         (case bst_fact receipt of
            SubmittedStop \<Rightarrow> StreamStop
          | AlreadyClosedFact \<Rightarrow> ObservedTerminal
          | UnknownCloser \<Rightarrow> UnknownCloserAction)
     | _ \<Rightarrow> StreamStop)"

record SessionSettle =
  se_settled :: bool
  se_closed :: bool
  se_recovery_episode :: "RecoveryKind option"
  se_recovery_closed_session :: bool
  se_handler_recovery_reconciliation :: bool
  se_recovery_submit_may_have_landed :: bool
  se_drop_backup_enabled :: bool
  se_failure_policy :: BuyerApiFailurePolicy
  se_lifetime :: SessionLifetimePolicy
  se_terminal_action :: "SessionTerminalAction option"
  se_route_delivery :: "u64 option"

definition new_session :: "BuyerApiFailurePolicy \<Rightarrow> SessionLifetimePolicy \<Rightarrow> SessionSettle" where
  "new_session policy lifetime =
    \<lparr>se_settled = False, se_closed = False, se_recovery_episode = None, se_recovery_closed_session = False,
     se_handler_recovery_reconciliation = False, se_recovery_submit_may_have_landed = False,
     se_drop_backup_enabled = True, se_failure_policy = policy, se_lifetime = lifetime,
     se_terminal_action = None, se_route_delivery = None\<rparr>"

text \<open>The first binding of the route's counter is kept.\<close>

definition bind_route_delivery :: "u64 \<Rightarrow> SessionSettle \<Rightarrow> SessionSettle" where
  "bind_route_delivery delivered s =
    (case se_route_delivery s of None \<Rightarrow> s\<lparr>se_route_delivery := Some delivered\<rparr> | Some _ \<Rightarrow> s)"

section \<open>Steps that do not take the lock\<close>

definition close_local_api :: "SessionSettle \<Rightarrow> SessionSettle" where
  "close_local_api s = s\<lparr>se_closed := True\<rparr>"

definition disable_drop_backup :: "SessionSettle \<Rightarrow> SessionSettle" where
  "disable_drop_backup s = s\<lparr>se_drop_backup_enabled := False\<rparr>"

definition record_terminal_action :: "SessionTerminalAction \<Rightarrow> SessionSettle \<Rightarrow> SessionSettle" where
  "record_terminal_action action s =
    (if action = ObservedTerminal then
       s\<lparr>se_terminal_action := (case se_terminal_action s of None \<Rightarrow> Some action | Some a \<Rightarrow> Some a)\<rparr>
     else s\<lparr>se_terminal_action := Some action\<rparr>)"

definition implicit_terminal_lacks_delivery :: "SessionSettle \<Rightarrow> bool" where
  "implicit_terminal_lacks_delivery s \<longleftrightarrow> se_route_delivery s = Some 0"

definition veto_implicit_terminal_without_delivery :: "SessionSettle \<Rightarrow> SessionSettle \<times> bool" where
  "veto_implicit_terminal_without_delivery s =
    (if implicit_terminal_lacks_delivery s then (disable_drop_backup (close_local_api s), True) else (s, False))"

definition preserve_without_implicit_chain_write :: "SessionSettle \<Rightarrow> SessionSettle \<times> bool" where
  "preserve_without_implicit_chain_write s =
    (if se_lifetime s = PreserveDeal then (disable_drop_backup (close_local_api s), True) else (s, False))"

definition submit_may_have_landed :: "RecoveryKind \<Rightarrow> SessionSettle \<Rightarrow> bool" where
  "submit_may_have_landed kind s \<longleftrightarrow>
    se_recovery_episode s = Some kind \<and> se_recovery_submit_may_have_landed s"

definition take_handler_recovery_reconciliation :: "SessionSettle \<Rightarrow> SessionSettle \<times> RecoveryKind option" where
  "take_handler_recovery_reconciliation s =
    (s\<lparr>se_handler_recovery_reconciliation := False\<rparr>,
     if se_handler_recovery_reconciliation s then se_recovery_episode s else None)"

definition close_recovery_episode :: "RecoveryKind \<Rightarrow> SessionSettle \<Rightarrow> SessionSettle \<times> bool" where
  "close_recovery_episode kind s =
    (if se_settled s then (s, False)
     else
       (let started = (se_recovery_episode s = None);
            s1 = (if started then s\<lparr>se_recovery_episode := Some kind\<rparr> else s);
            s2 = close_local_api s1
        in (if \<not> se_closed s1 \<and> se_recovery_episode s2 = Some kind
            then s2\<lparr>se_recovery_closed_session := True\<rparr> else s2,
            started)))"

definition clear_recovery :: "SessionSettle \<Rightarrow> SessionSettle" where
  "clear_recovery s = s\<lparr>se_recovery_closed_session := False, se_handler_recovery_reconciliation := False,
     se_recovery_submit_may_have_landed := False\<rparr>"

definition mark_recovered :: "SessionSettle \<Rightarrow> SessionSettle \<times> bool" where
  "mark_recovered s =
    (if se_settled s then (s, False)
     else (close_local_api (clear_recovery (record_terminal_action ObservedTerminal (s\<lparr>se_settled := True\<rparr>))), True))"

text \<open>A route swap away from a route that delivered nothing, \<open>RouteManager::replace_active\<close>.\<close>

definition leave_undelivered :: "SessionSettle \<Rightarrow> SessionSettle" where
  "leave_undelivered s =
    (if implicit_terminal_lacks_delivery s then disable_drop_backup (close_local_api s) else s)"

datatype free_step =
    BindRoute u64
  | RouteDelivers u64
  | VetoUndelivered
  | PreserveRunning
  | TakeReconciliation
  | CloseEpisode RecoveryKind
  | MarkRecovered
  | LeaveUndelivered

fun run_free :: "free_step \<Rightarrow> SessionSettle \<Rightarrow> SessionSettle" where
  "run_free (BindRoute n) s = bind_route_delivery n s"
| "run_free (RouteDelivers n) s = s\<lparr>se_route_delivery := map_option (\<lambda>d. d + n) (se_route_delivery s)\<rparr>"
| "run_free VetoUndelivered s = fst (veto_implicit_terminal_without_delivery s)"
| "run_free PreserveRunning s = fst (preserve_without_implicit_chain_write s)"
| "run_free TakeReconciliation s = fst (take_handler_recovery_reconciliation s)"
| "run_free (CloseEpisode kind) s = fst (close_recovery_episode kind s)"
| "run_free MarkRecovered s = fst (mark_recovered s)"
| "run_free LeaveUndelivered s = leave_undelivered s"

section \<open>Writes to the chain\<close>

datatype WriteFailure = AmbiguousSubmit | WriteFailed string
datatype ChainWrite = WriteStop | WriteGuardedStop | WriteDispute | WriteCleanup
datatype WriteFate = Landed | MayHaveLanded | NotLanded

record ChainPost =
  cp_write :: ChainWrite
  cp_fate :: WriteFate

record SessionWorld =
  sw_session :: SessionSettle
  sw_log :: "ChainPost list"

text \<open>
  What the chain answers to the write of an operation, and what runs while the operation waits. The guarded stop
  (\<open>stop_if_heartbeat\<close>) sends nothing and answers \<^const>\<open>None\<close> when accepted output resumed before the signed
  message was sent.
\<close>

record Awaited =
  aw_meanwhile :: "free_step list"
  aw_answer :: "WriteFailure + Settlement"
  aw_output_resumed :: bool

fun fate :: "WriteFailure + Settlement \<Rightarrow> WriteFate" where
  "fate (Inl AmbiguousSubmit) = MayHaveLanded"
| "fate (Inl (WriteFailed _)) = NotLanded"
| "fate (Inr _) = Landed"

definition guarded_fate :: "Awaited \<Rightarrow> WriteFate" where
  "guarded_fate aw = (if aw_output_resumed aw then NotLanded else fate (aw_answer aw))"

definition guarded_answer :: "Awaited \<Rightarrow> WriteFailure + Settlement option" where
  "guarded_answer aw = (if aw_output_resumed aw then Inr None else map_sum id Some (aw_answer aw))"

definition write_chain :: "ChainWrite \<Rightarrow> WriteFate \<Rightarrow> Awaited \<Rightarrow> SessionWorld \<Rightarrow> SessionWorld" where
  "write_chain w f aw W =
    \<lparr>sw_session = fold run_free (aw_meanwhile aw) (sw_session W),
     sw_log = sw_log W @ [\<lparr>cp_write = w, cp_fate = f\<rparr>]\<rparr>"

definition on_session :: "(SessionSettle \<Rightarrow> SessionSettle) \<Rightarrow> SessionWorld \<Rightarrow> SessionWorld" where
  "on_session f W = W\<lparr>sw_session := f (sw_session W)\<rparr>"

definition latch_possibly_landed_stop :: "WriteFailure \<Rightarrow> SessionSettle \<Rightarrow> SessionSettle" where
  "latch_possibly_landed_stop e s =
    (if e = AmbiguousSubmit then
       disable_drop_backup (s\<lparr>se_recovery_episode := Some ReclaimOpened,
         se_recovery_submit_may_have_landed := True, se_handler_recovery_reconciliation := True\<rparr>)
     else s)"

definition begin_recovery_attempt :: "RecoveryKind \<Rightarrow> bool \<Rightarrow> SessionSettle \<Rightarrow> SessionSettle \<times> bool" where
  "begin_recovery_attempt kind handler_origin s =
    (let started = (se_recovery_episode s = None);
         s1 = (if started then s\<lparr>se_recovery_episode := Some kind\<rparr> else s)
     in if se_recovery_episode s1 \<noteq> Some kind then (s1, False)
        else if submit_may_have_landed kind s1 then (s1, False)
        else if \<not> handler_origin \<and> \<not> started \<and> se_handler_recovery_reconciliation s1 then (s1, False)
        else if handler_origin then
          ((if se_closed s1 then s1 else (close_local_api s1)\<lparr>se_recovery_closed_session := True\<rparr>), started)
        else (s1, True))"

definition cancel_recovery_without_post :: "RecoveryKind \<Rightarrow> SessionSettle \<Rightarrow> SessionSettle" where
  "cancel_recovery_without_post kind s =
    (if se_recovery_episode s \<noteq> Some kind then s
     else
       (let s1 = s\<lparr>se_recovery_episode := None, se_handler_recovery_reconciliation := False,
                   se_recovery_submit_may_have_landed := False, se_recovery_closed_session := False\<rparr>
        in if se_recovery_closed_session s \<and> \<not> se_settled s then s1\<lparr>se_closed := False\<rparr> else s1))"

text \<open>A terminal outcome is recorded before \<open>settled\<close> is set.\<close>

definition become_settled :: "SessionTerminalAction \<Rightarrow> SessionSettle \<Rightarrow> SessionSettle" where
  "become_settled action s = (record_terminal_action action s)\<lparr>se_settled := True\<rparr>"

definition recover_cleanup_unopened ::
    "bool \<Rightarrow> Awaited \<Rightarrow> SessionWorld \<Rightarrow> SessionWorld \<times> (WriteFailure + Settlement option)" where
  "recover_cleanup_unopened handler_origin aw W =
    (case preserve_without_implicit_chain_write (sw_session W) of
       (s, True) \<Rightarrow> (W\<lparr>sw_session := s\<rparr>, Inr None)
     | (s, False) \<Rightarrow>
         if se_settled s then (W, Inr None)
         else
           (case begin_recovery_attempt CleanupUnopened handler_origin s of
              (s', False) \<Rightarrow> (W\<lparr>sw_session := s'\<rparr>, Inr None)
            | (s', True) \<Rightarrow>
                let W' = write_chain WriteCleanup (fate (aw_answer aw)) aw (W\<lparr>sw_session := s'\<rparr>)
                in (case aw_answer aw of
                      Inl e \<Rightarrow>
                        (on_session (\<lambda>t. if handler_origin then t\<lparr>se_handler_recovery_reconciliation := True\<rparr> else t) W',
                         Inl e)
                    | Inr settlement \<Rightarrow>
                        (on_session (\<lambda>t. clear_recovery (become_settled StreamCleanup (close_local_api t))) W',
                         Inr (Some settlement)))))"

definition recover_reclaim_opened ::
    "bool \<Rightarrow> Awaited \<Rightarrow> SessionWorld \<Rightarrow> SessionWorld \<times> (WriteFailure + Settlement option)" where
  "recover_reclaim_opened handler_origin aw W =
    (case preserve_without_implicit_chain_write (sw_session W) of
       (s, True) \<Rightarrow> (W\<lparr>sw_session := s\<rparr>, Inr None)
     | (s, False) \<Rightarrow>
         if se_settled s then (W, Inr None)
         else
           (case begin_recovery_attempt ReclaimOpened handler_origin s of
              (s', False) \<Rightarrow> (W\<lparr>sw_session := s'\<rparr>, Inr None)
            | (s', True) \<Rightarrow>
                let W' = write_chain WriteGuardedStop (guarded_fate aw) aw (W\<lparr>sw_session := s'\<rparr>)
                in (case guarded_answer aw of
                      Inl e \<Rightarrow>
                        (on_session (\<lambda>t. if e \<noteq> AmbiguousSubmit \<and> handler_origin
                                         then t\<lparr>se_handler_recovery_reconciliation := True\<rparr>
                                         else latch_possibly_landed_stop e t) W',
                         Inl e)
                    | Inr None \<Rightarrow> (on_session (cancel_recovery_without_post ReclaimOpened) W', Inr None)
                    | Inr (Some settlement) \<Rightarrow>
                        (on_session (\<lambda>t. clear_recovery (become_settled (from_stop_settlement settlement)
                                              (close_local_api t))) W',
                         Inr (Some settlement)))))"

definition session_settle :: "Awaited \<Rightarrow> SessionWorld \<Rightarrow> SessionWorld \<times> (WriteFailure + bool)" where
  "session_settle aw W =
    (let s = sw_session W
     in if se_settled s then (W, Inr False)
        else if submit_may_have_landed ReclaimOpened s then (W, Inl AmbiguousSubmit)
        else
          (let W' = write_chain WriteStop (fate (aw_answer aw)) aw (on_session close_local_api W)
           in (case aw_answer aw of
                 Inr settlement \<Rightarrow>
                   (on_session (\<lambda>t. clear_recovery (become_settled (from_stop_settlement settlement) t)) W', Inr True)
               | Inl e \<Rightarrow> (on_session (\<lambda>t. disable_drop_backup (latch_possibly_landed_stop e t)) W', Inl e))))"

definition settle_on_exit :: "Awaited \<Rightarrow> SessionWorld \<Rightarrow> SessionWorld \<times> (WriteFailure + bool)" where
  "settle_on_exit aw W =
    (case se_lifetime (sw_session W) of
       SettleOnExit \<Rightarrow>
         (case veto_implicit_terminal_without_delivery (sw_session W) of
            (s, True) \<Rightarrow> (W\<lparr>sw_session := s\<rparr>, Inr False)
          | (s, False) \<Rightarrow> session_settle aw W)
     | PreserveDeal \<Rightarrow> (on_session (\<lambda>s. fst (preserve_without_implicit_chain_write s)) W, Inr False))"

text \<open>A policy that closes the API and submits nothing.\<close>

definition policy_fail_closed :: "SessionWorld \<Rightarrow> SessionWorld \<times> bool" where
  "policy_fail_closed W =
    (if se_settled (sw_session W) \<or> \<not> se_drop_backup_enabled (sw_session W) then (W, False)
     else (on_session close_local_api W, False))"

definition policy_unsupported :: "SessionWorld \<Rightarrow> SessionWorld \<times> bool" where
  "policy_unsupported W =
    (if se_settled (sw_session W) then (W, False) else (on_session close_local_api W, False))"

definition policy_seller_timeout :: "Awaited \<Rightarrow> SessionWorld \<Rightarrow> SessionWorld \<times> bool" where
  "policy_seller_timeout aw W =
    (case recover_reclaim_opened True aw W of
       (W', Inr (Some _)) \<Rightarrow> (W', True)
     | (W', _) \<Rightarrow> (W', False))"

text \<open>The dispute of a policy, and of a verification bail.\<close>

definition submit_dispute :: "Awaited \<Rightarrow> SessionWorld \<Rightarrow> SessionWorld \<times> bool" where
  "submit_dispute aw W =
    (let W' = write_chain WriteDispute (fate (aw_answer aw)) aw W
     in (case aw_answer aw of
           Inr _ \<Rightarrow> (on_session (become_settled StreamDispute) W', True)
         | Inl _ \<Rightarrow> (W', False)))"

definition policy_dispute :: "Awaited \<Rightarrow> SessionWorld \<Rightarrow> SessionWorld \<times> bool" where
  "policy_dispute aw W =
    (case preserve_without_implicit_chain_write (sw_session W) of
       (s, True) \<Rightarrow> (W\<lparr>sw_session := s\<rparr>, False)
     | (s, False) \<Rightarrow>
         if se_settled s then (W, False) else submit_dispute aw (on_session close_local_api W))"

definition settle_verification_bail :: "Awaited \<Rightarrow> SessionWorld \<Rightarrow> SessionWorld \<times> bool" where
  "settle_verification_bail aw W =
    (case preserve_without_implicit_chain_write (sw_session W) of
       (s, True) \<Rightarrow> (W\<lparr>sw_session := s\<rparr>, False)
     | (s, False) \<Rightarrow>
         if se_settled s then (W, False)
         else
           (let W1 = on_session close_local_api W
            in (case fp_verification_bail (se_failure_policy s) of
                  BailStop \<Rightarrow>
                    if submit_may_have_landed ReclaimOpened (sw_session W1) then (W1, False)
                    else
                      (let W' = write_chain WriteStop (fate (aw_answer aw)) aw W1
                       in (case aw_answer aw of
                             Inr settlement \<Rightarrow> (on_session (become_settled (from_stop_settlement settlement)) W', True)
                           | Inl e \<Rightarrow> (on_session (latch_possibly_landed_stop e) W', False)))
                | BailDispute \<Rightarrow> submit_dispute aw W1
                | BailStopAndBlacklist \<Rightarrow> (W1, False))))"

definition settle_dead_gateway :: "Awaited \<Rightarrow> SessionWorld \<Rightarrow> SessionWorld \<times> bool" where
  "settle_dead_gateway aw W =
    (case fp_dead_gateway (se_failure_policy (sw_session W)) of
       RetryThenReclaim \<Rightarrow> policy_seller_timeout aw W
     | DeadNextSeller \<Rightarrow> policy_unsupported W
     | DeadFailClosed \<Rightarrow> policy_fail_closed W)"

definition settle_empty_stream :: "Awaited \<Rightarrow> SessionWorld \<Rightarrow> SessionWorld \<times> bool" where
  "settle_empty_stream aw W =
    (case fp_empty_stream (se_failure_policy (sw_session W)) of
       EmptyReclaim \<Rightarrow> policy_seller_timeout aw W
     | EmptyNextSeller \<Rightarrow> policy_unsupported W
     | EmptyFailClosed \<Rightarrow> policy_fail_closed W)"

definition settle_seller_stalls_mid_stream :: "Awaited \<Rightarrow> SessionWorld \<Rightarrow> SessionWorld \<times> bool" where
  "settle_seller_stalls_mid_stream aw W =
    (case fp_seller_stalls_mid_stream (se_failure_policy (sw_session W)) of
       AcceptDeliveredThenReclaim \<Rightarrow> policy_seller_timeout aw W
     | StallDispute \<Rightarrow> policy_dispute aw W)"

definition mark_recovered_serialized :: "SessionWorld \<Rightarrow> SessionWorld \<times> bool" where
  "mark_recovered_serialized W =
    (if se_settled (sw_session W) then (W, False)
     else (on_session (\<lambda>s. close_local_api (clear_recovery (become_settled ObservedTerminal s))) W, True))"

section \<open>Serving\<close>

datatype UnopenedCleanupDecision = CleanupReady | CleanupWait u64 | MissingFundedTime

definition unopened_cleanup_decision :: "DealChainState \<Rightarrow> u64 \<Rightarrow> UnopenedCleanupDecision option" where
  "unopened_cleanup_decision st now_secs =
    (if \<not> (dcs_funded st \<and> \<not> dcs_opened st \<and> \<not> dcs_disputed st \<and> \<not> is_stopped st) then None
     else
       (case dcs_funded_time st of
          None \<Rightarrow> Some MissingFundedTime
        | Some funded_time \<Rightarrow>
            (let cleanup_at = saturating_add U64_MAX funded_time MATCH_OPEN_TIMEOUT_SECS
             in if cleanup_at \<le> now_secs then Some CleanupReady
                else Some (CleanupWait (saturating_sub cleanup_at now_secs)))))"

datatype not_serving = StateUnavailable | StateUnreadable | NotSafelyOpen DealChainState "UnopenedCleanupDecision option"

definition fail_closed_before_serving :: "SessionWorld \<Rightarrow> SessionWorld" where
  "fail_closed_before_serving W =
    (if se_settled (sw_session W) then W else on_session close_local_api W)"

definition fail_closed_unopened_before_serving ::
    "UnopenedCleanupDecision option \<Rightarrow> Awaited \<Rightarrow> SessionWorld \<Rightarrow> SessionWorld" where
  "fail_closed_unopened_before_serving cleanup aw W =
    (if cleanup = Some CleanupReady then fst (recover_cleanup_unopened True aw W)
     else fail_closed_before_serving W)"

definition ensure_open_for_serving ::
    "WriteFailure + DealChainState option \<Rightarrow> u64 \<Rightarrow> Awaited \<Rightarrow> SessionWorld \<Rightarrow> SessionWorld \<times> (not_serving + unit)" where
  "ensure_open_for_serving read now_secs aw W =
    (case read of
       Inr None \<Rightarrow> (fail_closed_before_serving W, Inl StateUnavailable)
     | Inl _ \<Rightarrow> (fail_closed_before_serving W, Inl StateUnreadable)
     | Inr (Some st) \<Rightarrow>
         if dcs_funded st \<and> dcs_opened st \<and> \<not> dcs_disputed st then (W, Inr ())
         else
           (let cleanup = unopened_cleanup_decision st now_secs
            in (fail_closed_unopened_before_serving cleanup aw W, Inl (NotSafelyOpen st cleanup))))"

section \<open>The end of a session\<close>

text \<open>
  \<open>Drop\<close> runs when the last reference is gone. The backup stop is spawned when a runtime is there; its answer
  reaches nobody.
\<close>

definition drop_session :: "bool \<Rightarrow> Awaited \<Rightarrow> SessionWorld \<Rightarrow> SessionWorld" where
  "drop_session runtime aw W =
    (let s = sw_session W
     in if se_lifetime s = PreserveDeal \<or> se_settled s \<or> \<not> se_drop_backup_enabled s
           \<or> se_recovery_submit_may_have_landed s then W
        else
          (case veto_implicit_terminal_without_delivery s of
             (s', True) \<Rightarrow> W\<lparr>sw_session := s'\<rparr>
           | (s', False) \<Rightarrow>
               if runtime then W\<lparr>sw_log := sw_log W @ [\<lparr>cp_write = WriteStop, cp_fate = fate (aw_answer aw)\<rparr>]\<rparr>
               else W))"

datatype session_call =
    Free free_step
  | SettleNow Awaited
  | ExitSettle Awaited
  | VerificationBail Awaited
  | DeadGateway Awaited
  | EmptyStream Awaited
  | SellerStalls Awaited
  | CleanupUnopenedDeal bool Awaited
  | ReclaimOpenedDeal bool Awaited
  | EnsureOpen "WriteFailure + DealChainState option" u64 Awaited
  | MarkRecoveredSerialized

fun run_session_call :: "session_call \<Rightarrow> SessionWorld \<Rightarrow> SessionWorld" where
  "run_session_call (Free f) W = on_session (run_free f) W"
| "run_session_call (SettleNow aw) W = fst (session_settle aw W)"
| "run_session_call (ExitSettle aw) W = fst (settle_on_exit aw W)"
| "run_session_call (VerificationBail aw) W = fst (settle_verification_bail aw W)"
| "run_session_call (DeadGateway aw) W = fst (settle_dead_gateway aw W)"
| "run_session_call (EmptyStream aw) W = fst (settle_empty_stream aw W)"
| "run_session_call (SellerStalls aw) W = fst (settle_seller_stalls_mid_stream aw W)"
| "run_session_call (CleanupUnopenedDeal handler aw) W = fst (recover_cleanup_unopened handler aw W)"
| "run_session_call (ReclaimOpenedDeal handler aw) W = fst (recover_reclaim_opened handler aw W)"
| "run_session_call (EnsureOpen read now aw) W = fst (ensure_open_for_serving read now aw W)"
| "run_session_call MarkRecoveredSerialized W = fst (mark_recovered_serialized W)"

text \<open>A session: calls in any order, and in the end perhaps its drop.\<close>

definition session_start :: "BuyerApiFailurePolicy \<Rightarrow> SessionLifetimePolicy \<Rightarrow> SessionWorld" where
  "session_start policy lifetime = \<lparr>sw_session = new_session policy lifetime, sw_log = []\<rparr>"

definition run_session :: "session_call list \<Rightarrow> SessionWorld \<Rightarrow> SessionWorld" where
  "run_session calls W = fold run_session_call calls W"

definition session_history ::
    "BuyerApiFailurePolicy \<Rightarrow> SessionLifetimePolicy \<Rightarrow> session_call list \<Rightarrow> (bool \<times> Awaited) option \<Rightarrow> SessionWorld" where
  "session_history policy lifetime calls dropped =
    (let W = run_session calls (session_start policy lifetime)
     in case dropped of None \<Rightarrow> W | Some (runtime, aw) \<Rightarrow> drop_session runtime aw W)"

end
