(* ===== verification/SessionLaws.thy ===== *)
theory SessionLaws
  imports Session
begin

text \<open>
  A session ends its deal once. Over any order of calls, with any answers of the chain and any steps of other
  tasks while a call waits, a write that landed is the last one, and after a stop that may have landed no other
  stop is sent. Serving needs an open deal, and what nobody asked for is not ended by itself.
\<close>

section \<open>Writes in order\<close>

definition stop_write :: "ChainPost \<Rightarrow> bool" where
  "stop_write p \<longleftrightarrow> cp_write p = WriteStop \<or> cp_write p = WriteGuardedStop"

definition possible_stop :: "ChainPost \<Rightarrow> bool" where
  "possible_stop p \<longleftrightarrow> stop_write p \<and> cp_fate p = MayHaveLanded"

definition may_follow :: "ChainPost \<Rightarrow> ChainPost \<Rightarrow> bool" where
  "may_follow p q \<longleftrightarrow> cp_fate p \<noteq> Landed \<and> (possible_stop p \<longrightarrow> cp_write q = WriteDispute)"

definition latched :: "SessionSettle \<Rightarrow> bool" where
  "latched s \<longleftrightarrow> submit_may_have_landed ReclaimOpened s"

text \<open>
  What the session knows of its writes: a landed one has settled it, and a possible stop has latched it unless it
  is settled. A settled session does not serve and names its terminal action; the latch belongs to the episode
  of an opened deal.
\<close>

definition knows :: "SessionSettle \<Rightarrow> ChainPost list \<Rightarrow> bool" where
  "knows s log \<longleftrightarrow>
    (\<forall>p\<in>set log. cp_fate p = Landed \<longrightarrow> se_settled s)
    \<and> (\<forall>p\<in>set log. possible_stop p \<longrightarrow> se_settled s \<or> latched s)
    \<and> (se_settled s \<longrightarrow> se_closed s \<and> se_terminal_action s \<noteq> None)
    \<and> (se_recovery_submit_may_have_landed s \<longrightarrow> se_recovery_episode s = Some ReclaimOpened)"

definition session_inv :: "SessionWorld \<Rightarrow> bool" where
  "session_inv W \<longleftrightarrow> sorted_wrt may_follow (sw_log W) \<and> knows (sw_session W) (sw_log W)"

named_theorems session_defs

lemmas session_defs_basic [session_defs] =
  close_local_api_def disable_drop_backup_def record_terminal_action_def clear_recovery_def
  latch_possibly_landed_stop_def become_settled_def on_session_def

lemma knows_ambiguous:
  "knows s log \<Longrightarrow> \<not> se_settled s \<Longrightarrow> p \<in> set log \<Longrightarrow> cp_fate p \<noteq> Landed \<and> (possible_stop p \<longrightarrow> latched s)"
  by (auto simp: knows_def)

text \<open>A step outside the lock keeps what the session knows, and never unsettles it.\<close>

lemma run_free_keeps:
  "knows s log \<Longrightarrow> knows (run_free f s) log"
  by (cases f) (auto simp: knows_def latched_def submit_may_have_landed_def bind_route_delivery_def
      veto_implicit_terminal_without_delivery_def preserve_without_implicit_chain_write_def
      take_handler_recovery_reconciliation_def close_recovery_episode_def mark_recovered_def leave_undelivered_def
      Let_def session_defs split: option.splits)

lemma run_frees_keep: "knows s log \<Longrightarrow> knows (fold run_free fs s) log"
  by (induction fs arbitrary: s) (simp_all add: run_free_keeps)

lemma run_free_closed: "se_closed s \<Longrightarrow> se_closed (run_free f s)"
  by (cases f) (auto simp: bind_route_delivery_def veto_implicit_terminal_without_delivery_def
      preserve_without_implicit_chain_write_def take_handler_recovery_reconciliation_def close_recovery_episode_def
      mark_recovered_def leave_undelivered_def Let_def session_defs split: option.splits)

lemma run_frees_closed: "se_closed s \<Longrightarrow> se_closed (fold run_free fs s)"
  by (induction fs arbitrary: s) (simp_all add: run_free_closed)

text \<open>
  The step from one write to the next. A write is made only by an unsettled session, and by a latched one only
  if it is a dispute; what the operation does with the answer has to settle a landed write and to latch a
  possible stop.
\<close>

lemma inv_after_write:
  assumes inv: "session_inv W" and live: "\<not> se_settled (sw_session W)"
    and latch: "latched (sw_session W) \<Longrightarrow> w = WriteDispute \<and> (se_settled t \<or> latched t)"
    and landed: "f = Landed \<Longrightarrow> se_settled t"
    and possible: "f = MayHaveLanded \<Longrightarrow> w \<noteq> WriteDispute \<Longrightarrow> w \<noteq> WriteCleanup \<Longrightarrow> se_settled t \<or> latched t"
    and settled: "se_settled t \<Longrightarrow> se_closed t \<and> se_terminal_action t \<noteq> None"
    and flag: "se_recovery_submit_may_have_landed t \<Longrightarrow> se_recovery_episode t = Some ReclaimOpened"
  shows "session_inv \<lparr>sw_session = t, sw_log = sw_log W @ [\<lparr>cp_write = w, cp_fate = f\<rparr>]\<rparr>"
proof -
  have old: "cp_fate p \<noteq> Landed \<and> (possible_stop p \<longrightarrow> latched (sw_session W))" if "p \<in> set (sw_log W)" for p
    using knows_ambiguous [OF _ live that] inv by (simp add: session_inv_def)
  have order: "sorted_wrt may_follow (sw_log W @ [\<lparr>cp_write = w, cp_fate = f\<rparr>])"
    using inv old latch by (auto simp: session_inv_def sorted_wrt_append may_follow_def)
  have "knows t (sw_log W @ [\<lparr>cp_write = w, cp_fate = f\<rparr>])"
    using old latch landed possible settled flag by (auto simp: knows_def possible_stop_def stop_write_def)
  then show ?thesis using order by (simp add: session_inv_def)
qed

text \<open>A step that writes nothing keeps the invariant when it keeps what the session knows.\<close>

lemma inv_without_write:
  "session_inv W \<Longrightarrow> (knows (sw_session W) (sw_log W) \<Longrightarrow> knows s (sw_log W)) \<Longrightarrow> session_inv (W\<lparr>sw_session := s\<rparr>)"
  by (simp add: session_inv_def)

lemma knows_close: "knows s log \<Longrightarrow> knows (close_local_api s) log"
  by (auto simp: knows_def latched_def submit_may_have_landed_def session_defs)

lemma inv_close: "session_inv W \<Longrightarrow> session_inv (on_session close_local_api W)"
  by (simp add: session_inv_def on_session_def knows_close)

lemma inv_free: "session_inv W \<Longrightarrow> session_inv (on_session (run_free f) W)"
  by (simp add: session_inv_def on_session_def run_free_keeps)

lemma inv_preserve:
  "session_inv W \<Longrightarrow> preserve_without_implicit_chain_write (sw_session W) = (s, b) \<Longrightarrow> session_inv (W\<lparr>sw_session := s\<rparr>)"
  using inv_free [of W PreserveRunning] by (simp add: on_session_def)

lemma preserve_runs_on:
  "preserve_without_implicit_chain_write s = (s', False) \<longleftrightarrow> s' = s \<and> se_lifetime s \<noteq> PreserveDeal"
  by (auto simp: preserve_without_implicit_chain_write_def split: if_splits)

text \<open>An attempt at a recovery begins only when no stop may have landed.\<close>

lemma begin_attempt:
  assumes "begin_recovery_attempt kind h s = (s', b)"
  shows "knows s log \<Longrightarrow> knows s' log" and "se_settled s' = se_settled s"
    and "b \<Longrightarrow> se_recovery_episode s' = Some kind" and "b \<Longrightarrow> \<not> latched s"
    and "b \<Longrightarrow> \<not> submit_may_have_landed kind s'"
  using assms
  by (auto simp: begin_recovery_attempt_def knows_def latched_def submit_may_have_landed_def Let_def session_defs
      split: if_splits)

section \<open>Every operation keeps the order\<close>

lemma write_chain_parts:
  "sw_session (write_chain w f aw W) = fold run_free (aw_meanwhile aw) (sw_session W)"
  "on_session g (write_chain w f aw W)
    = \<lparr>sw_session = g (fold run_free (aw_meanwhile aw) (sw_session W)), sw_log = sw_log W @ [\<lparr>cp_write = w, cp_fate = f\<rparr>]\<rparr>"
  by (simp_all add: write_chain_def on_session_def)

lemma knows_settled: "knows s log \<Longrightarrow> se_settled s \<Longrightarrow> se_closed s \<and> se_terminal_action s \<noteq> None"
  by (simp add: knows_def)

lemma knows_latch: "knows s log \<Longrightarrow> se_recovery_submit_may_have_landed s \<Longrightarrow> se_recovery_episode s = Some ReclaimOpened"
  by (simp add: knows_def)

lemma knows_meanwhile:
  "session_inv W \<Longrightarrow> (knows (sw_session W) (sw_log W) \<Longrightarrow> knows s (sw_log W)) \<Longrightarrow> se_settled (fold run_free fs s) \<Longrightarrow>
    se_closed (fold run_free fs s) \<and> se_terminal_action (fold run_free fs s) \<noteq> None"
  by (rule knows_settled [OF run_frees_keep]) (simp add: session_inv_def)

text \<open>What the answers do to the flags that matter here.\<close>

lemma answer_flags [simp]:
  "se_settled (become_settled a s)" "\<exists>y. se_terminal_action (become_settled a s) = Some y"
  "se_closed (become_settled a s) = se_closed s"
  "se_settled (clear_recovery s) = se_settled s" "se_closed (clear_recovery s) = se_closed s"
  "se_terminal_action (clear_recovery s) = se_terminal_action s"
  "se_settled (close_local_api s) = se_settled s" "se_closed (close_local_api s)"
  "se_terminal_action (close_local_api s) = se_terminal_action s"
  "latched (close_local_api s) = latched s"
  "se_settled (disable_drop_backup s) = se_settled s" "se_closed (disable_drop_backup s) = se_closed s"
  "se_terminal_action (disable_drop_backup s) = se_terminal_action s" "latched (disable_drop_backup s) = latched s"
  "se_settled (latch_possibly_landed_stop e s) = se_settled s" "se_closed (latch_possibly_landed_stop e s) = se_closed s"
  "se_terminal_action (latch_possibly_landed_stop e s) = se_terminal_action s"
  "latched (latch_possibly_landed_stop AmbiguousSubmit s)"
  "se_recovery_submit_may_have_landed (become_settled a s) = se_recovery_submit_may_have_landed s"
  "se_recovery_episode (become_settled a s) = se_recovery_episode s"
  "se_recovery_submit_may_have_landed (close_local_api s) = se_recovery_submit_may_have_landed s"
  "se_recovery_episode (close_local_api s) = se_recovery_episode s"
  "se_recovery_submit_may_have_landed (disable_drop_backup s) = se_recovery_submit_may_have_landed s"
  "se_recovery_episode (disable_drop_backup s) = se_recovery_episode s"
  "\<not> se_recovery_submit_may_have_landed (clear_recovery s)"
  "se_recovery_submit_may_have_landed (latch_possibly_landed_stop e s)
    = (e = AmbiguousSubmit \<or> se_recovery_submit_may_have_landed s)"
  "se_recovery_episode (latch_possibly_landed_stop e s)
    = (if e = AmbiguousSubmit then Some ReclaimOpened else se_recovery_episode s)"
  by (simp_all add: session_defs latched_def submit_may_have_landed_def split: option.splits)

lemma fate_iff:
  "fate r = Landed \<longleftrightarrow> (\<exists>x. r = Inr x)" "fate r = MayHaveLanded \<longleftrightarrow> r = Inl AmbiguousSubmit"
  by (cases r rule: fate.cases; simp)+

lemma inv_answer:
  assumes inv: "session_inv W" and live: "\<not> se_settled (sw_session W)" and t: "t = fold run_free (aw_meanwhile aw) (sw_session W)"
    and latch: "latched (sw_session W) \<Longrightarrow> w = WriteDispute \<and> (se_settled (g t) \<or> latched (g t))"
    and landed: "f = Landed \<Longrightarrow> se_settled (g t)"
    and possible: "f = MayHaveLanded \<Longrightarrow> w \<noteq> WriteDispute \<Longrightarrow> w \<noteq> WriteCleanup \<Longrightarrow> se_settled (g t) \<or> latched (g t)"
    and settled: "(se_settled t \<Longrightarrow> se_closed t \<and> se_terminal_action t \<noteq> None) \<Longrightarrow> (se_closed (sw_session W) \<Longrightarrow> se_closed t) \<Longrightarrow>
      se_settled (g t) \<Longrightarrow> se_closed (g t) \<and> se_terminal_action (g t) \<noteq> None"
    and flag: "(se_recovery_submit_may_have_landed t \<Longrightarrow> se_recovery_episode t = Some ReclaimOpened) \<Longrightarrow>
      se_recovery_submit_may_have_landed (g t) \<Longrightarrow> se_recovery_episode (g t) = Some ReclaimOpened"
  shows "session_inv (on_session g (write_chain w f aw W))"
proof -
  have "se_settled t \<Longrightarrow> se_closed t \<and> se_terminal_action t \<noteq> None" unfolding t by (rule knows_meanwhile [OF inv])
  moreover have "se_closed (sw_session W) \<Longrightarrow> se_closed t" unfolding t by (rule run_frees_closed)
  moreover have "se_recovery_submit_may_have_landed t \<Longrightarrow> se_recovery_episode t = Some ReclaimOpened"
    unfolding t by (rule knows_latch [OF run_frees_keep, of _ "sw_log W"]) (use inv in \<open>simp_all add: session_inv_def\<close>)
  ultimately show ?thesis
    using inv_after_write [OF inv live latch landed possible settled flag] by (simp add: write_chain_parts t)
qed

lemma session_settle_keeps:
  assumes "session_inv W"
  shows "session_inv (fst (session_settle aw W))"
proof (cases "se_settled (sw_session W) \<or> latched (sw_session W)")
  case True
  then show ?thesis using assms by (auto simp: session_settle_def latched_def Let_def)
next
  case False
  let ?W = "on_session close_local_api W"
  have inv: "session_inv ?W" and live: "\<not> se_settled (sw_session ?W)" and free: "\<not> latched (sw_session ?W)"
    using False inv_close [OF assms] by (simp_all add: on_session_def)
  show ?thesis
  proof (cases "aw_answer aw")
    case (Inl e)
    have "session_inv (on_session (\<lambda>t. disable_drop_backup (latch_possibly_landed_stop e t)) (write_chain WriteStop (fate (aw_answer aw)) aw ?W))"
      by (rule inv_answer [OF inv live refl]) (use free in \<open>auto simp: Inl fate_iff\<close>)
    then show ?thesis using False Inl by (simp add: session_settle_def Let_def latched_def)
  next
    case (Inr x)
    have "session_inv (on_session (\<lambda>t. clear_recovery (become_settled (from_stop_settlement x) t)) (write_chain WriteStop (fate (aw_answer aw)) aw ?W))"
      by (rule inv_answer [OF inv live refl]) (use free in \<open>auto simp: Inr fate_iff on_session_def\<close>)
    then show ?thesis using False Inr by (simp add: session_settle_def Let_def latched_def)
  qed
qed

lemma on_session_id [simp]: "on_session (\<lambda>t. t) W = W"
  by (simp add: on_session_def)

lemma submit_dispute_keeps:
  assumes inv: "session_inv W" and live: "\<not> se_settled (sw_session W)" and closed: "se_closed (sw_session W)"
  shows "session_inv (fst (submit_dispute aw W))"
proof -
  have rests: "se_settled (fold run_free fs s) \<or> latched (fold run_free fs s)" if "latched s" "\<not> se_settled s" for fs s
    using run_frees_keep [of s "[\<lparr>cp_write = WriteStop, cp_fate = MayHaveLanded\<rparr>]" fs] that
    by (simp add: knows_def possible_stop_def stop_write_def latched_def submit_may_have_landed_def)
  show ?thesis
  proof (cases "aw_answer aw")
    case (Inl e)
    have "session_inv (on_session (\<lambda>t. t) (write_chain WriteDispute (fate (aw_answer aw)) aw W))"
      by (rule inv_answer [OF inv live refl]) (use rests live in \<open>auto simp: Inl fate_iff\<close>)
    then show ?thesis using Inl by (simp add: submit_dispute_def)
  next
    case (Inr x)
    have "session_inv (on_session (become_settled StreamDispute) (write_chain WriteDispute (fate (aw_answer aw)) aw W))"
      by (rule inv_answer [OF inv live refl]) (use closed in \<open>auto simp: Inr fate_iff\<close>)
    then show ?thesis using Inr by (simp add: submit_dispute_def)
  qed
qed

lemma policy_dispute_keeps: "session_inv W \<Longrightarrow> session_inv (fst (policy_dispute aw W))"
  using inv_preserve [of W] inv_close [of W] submit_dispute_keeps [of "on_session close_local_api W"]
  by (auto simp: policy_dispute_def on_session_def preserve_runs_on split: prod.splits bool.splits)

lemma settle_verification_bail_keeps:
  assumes "session_inv W"
  shows "session_inv (fst (settle_verification_bail aw W))"
proof (cases "se_lifetime (sw_session W) = PreserveDeal \<or> se_settled (sw_session W)")
  case True
  then show ?thesis using assms inv_preserve [OF assms]
    by (auto simp: settle_verification_bail_def preserve_runs_on split: prod.splits bool.splits)
next
  case False
  let ?W = "on_session close_local_api W" and ?policy = "fp_verification_bail (se_failure_policy (sw_session W))"
  have inv: "session_inv ?W" and live: "\<not> se_settled (sw_session ?W)" and closed: "se_closed (sw_session ?W)"
    using False inv_close [OF assms] by (simp_all add: on_session_def)
  have bail: "fst (settle_verification_bail aw W) =
      (case ?policy of
         BailStop \<Rightarrow> if latched (sw_session ?W) then ?W
           else (case aw_answer aw of
               Inr x \<Rightarrow> on_session (become_settled (from_stop_settlement x)) (write_chain WriteStop (fate (aw_answer aw)) aw ?W)
             | Inl e \<Rightarrow> on_session (latch_possibly_landed_stop e) (write_chain WriteStop (fate (aw_answer aw)) aw ?W))
       | BailDispute \<Rightarrow> fst (submit_dispute aw ?W)
       | BailStopAndBlacklist \<Rightarrow> ?W)"
    using False by (simp add: settle_verification_bail_def preserve_without_implicit_chain_write_def latched_def Let_def
        split: VerificationBailAction.splits sum.splits)
  have stop: "session_inv (case aw_answer aw of
               Inr x \<Rightarrow> on_session (become_settled (from_stop_settlement x)) (write_chain WriteStop (fate (aw_answer aw)) aw ?W)
             | Inl e \<Rightarrow> on_session (latch_possibly_landed_stop e) (write_chain WriteStop (fate (aw_answer aw)) aw ?W))"
    if "\<not> latched (sw_session ?W)"
    using that closed by (cases "aw_answer aw") (auto intro!: inv_answer [OF inv live refl] simp: fate_iff)
  show ?thesis unfolding bail
    using stop inv submit_dispute_keeps [OF inv live closed] by (auto split: VerificationBailAction.splits)
qed

lemma recover_cleanup_keeps:
  assumes "session_inv W"
  shows "session_inv (fst (recover_cleanup_unopened h aw W))"
proof (cases "se_lifetime (sw_session W) = PreserveDeal \<or> se_settled (sw_session W)")
  case True
  then show ?thesis using assms inv_preserve [OF assms]
    by (auto simp: recover_cleanup_unopened_def preserve_runs_on split: prod.splits bool.splits)
next
  case False
  obtain s b where begun: "begin_recovery_attempt CleanupUnopened h (sw_session W) = (s, b)" by fastforce
  let ?W = "W\<lparr>sw_session := s\<rparr>"
  have inv: "session_inv ?W" using inv_without_write [OF assms] begin_attempt(1) [OF begun] by blast
  have live: "\<not> se_settled (sw_session ?W)" using False begin_attempt(2) [OF begun] by simp
  have free: "\<not> latched (sw_session ?W)" if b
    using begin_attempt(3) [OF begun that] by (simp add: latched_def submit_may_have_landed_def)
  have cleanup: "fst (recover_cleanup_unopened h aw W) =
      (if b then (case aw_answer aw of
           Inl e \<Rightarrow> on_session (\<lambda>t. if h then t\<lparr>se_handler_recovery_reconciliation := True\<rparr> else t)
                        (write_chain WriteCleanup (fate (aw_answer aw)) aw ?W)
         | Inr x \<Rightarrow> on_session (\<lambda>t. clear_recovery (become_settled StreamCleanup (close_local_api t)))
                        (write_chain WriteCleanup (fate (aw_answer aw)) aw ?W))
       else ?W)"
    using False begun by (simp add: recover_cleanup_unopened_def preserve_without_implicit_chain_write_def Let_def split: sum.splits)
  show ?thesis unfolding cleanup using inv free
    by (cases "aw_answer aw") (auto intro!: inv_answer [OF inv live refl] simp: fate_iff split: if_splits)
qed

lemma recover_reclaim_keeps:
  assumes "session_inv W"
  shows "session_inv (fst (recover_reclaim_opened h aw W))"
proof (cases "se_lifetime (sw_session W) = PreserveDeal \<or> se_settled (sw_session W)")
  case True
  then show ?thesis using assms inv_preserve [OF assms]
    by (auto simp: recover_reclaim_opened_def preserve_runs_on split: prod.splits bool.splits)
next
  case False
  obtain s b where begun: "begin_recovery_attempt ReclaimOpened h (sw_session W) = (s, b)" by fastforce
  let ?W = "W\<lparr>sw_session := s\<rparr>" and ?post = "write_chain WriteGuardedStop (guarded_fate aw) aw (W\<lparr>sw_session := s\<rparr>)"
  have inv: "session_inv ?W" using inv_without_write [OF assms] begin_attempt(1) [OF begun] by blast
  have live: "\<not> se_settled (sw_session ?W)" using False begin_attempt(2) [OF begun] by simp
  have free: "\<not> latched (sw_session ?W)" if b
    using begin_attempt(5) [OF begun that] by (simp add: latched_def)
  have reclaim: "fst (recover_reclaim_opened h aw W) =
      (if b then (case guarded_answer aw of
           Inl e \<Rightarrow> on_session (\<lambda>t. if e \<noteq> AmbiguousSubmit \<and> h then t\<lparr>se_handler_recovery_reconciliation := True\<rparr>
                                     else latch_possibly_landed_stop e t) ?post
         | Inr None \<Rightarrow> on_session (cancel_recovery_without_post ReclaimOpened) ?post
         | Inr (Some x) \<Rightarrow> on_session (\<lambda>t. clear_recovery (become_settled (from_stop_settlement x) (close_local_api t))) ?post)
       else ?W)"
    using False begun by (simp add: recover_reclaim_opened_def preserve_without_implicit_chain_write_def Let_def
        split: sum.splits option.splits)
  show ?thesis unfolding reclaim using inv free
    by (cases "aw_output_resumed aw"; cases "aw_answer aw")
       (auto intro!: inv_answer [OF inv live refl]
          simp: fate_iff guarded_fate_def guarded_answer_def cancel_recovery_without_post_def Let_def
          split: if_splits)
qed

lemma serialized_mark: "fst (mark_recovered_serialized W) = on_session (run_free MarkRecovered) W"
  by (cases W, cases "sw_session W")
     (simp add: mark_recovered_serialized_def mark_recovered_def session_defs split: option.splits)

lemma policies_keep:
  assumes "session_inv W"
  shows "session_inv (fst (policy_fail_closed W))" and "session_inv (fst (policy_unsupported W))"
    and "session_inv (fst (policy_seller_timeout aw W))" and "session_inv (fail_closed_before_serving W)"
    and "session_inv (fst (mark_recovered_serialized W))"
  using assms inv_close [OF assms] recover_reclaim_keeps [OF assms, of True aw] inv_free [OF assms, of MarkRecovered]
  by (auto simp: policy_fail_closed_def policy_unsupported_def policy_seller_timeout_def fail_closed_before_serving_def
      serialized_mark split: prod.splits sum.splits option.splits)

lemma settle_on_exit_keeps: "session_inv W \<Longrightarrow> session_inv (fst (settle_on_exit aw W))"
  using inv_free [of W VetoUndelivered] inv_free [of W PreserveRunning] session_settle_keeps [of W]
  by (auto simp: settle_on_exit_def on_session_def split: SessionLifetimePolicy.splits prod.splits bool.splits)

lemma serving_keeps: "session_inv W \<Longrightarrow> session_inv (fst (ensure_open_for_serving read now aw W))"
  using policies_keep(4) recover_cleanup_keeps
  by (auto simp: ensure_open_for_serving_def fail_closed_unopened_before_serving_def Let_def split: sum.splits option.splits)

lemma session_call_keeps: "session_inv W \<Longrightarrow> session_inv (run_session_call c W)"
  using inv_free session_settle_keeps settle_on_exit_keeps settle_verification_bail_keeps policies_keep policy_dispute_keeps
    recover_cleanup_keeps recover_reclaim_keeps serving_keeps
  by (cases c) (auto simp: settle_dead_gateway_def settle_empty_stream_def settle_seller_stalls_mid_stream_def
      split: DeadGatewayAction.splits EmptyStreamAction.splits SellerStallsMidStreamAction.splits)

lemma run_session_keeps: "session_inv W \<Longrightarrow> session_inv (run_session calls W)"
  unfolding run_session_def by (induction calls arbitrary: W) (simp_all add: session_call_keeps)

lemma session_start_inv: "session_inv (session_start policy lifetime)"
  by (simp add: session_inv_def session_start_def knows_def new_session_def)

text \<open>The backup of the drop writes only when nothing landed and no stop may have.\<close>

lemma drop_order:
  assumes "session_inv W"
  shows "sorted_wrt may_follow (sw_log (drop_session runtime aw W))"
proof -
  have "cp_fate p \<noteq> Landed \<and> \<not> possible_stop p"
    if "p \<in> set (sw_log W)" "\<not> se_settled (sw_session W)" "\<not> se_recovery_submit_may_have_landed (sw_session W)" for p
    using knows_ambiguous [OF _ that(2,1)] that(3) assms by (auto simp: session_inv_def latched_def submit_may_have_landed_def)
  then show ?thesis using assms
    by (auto simp: drop_session_def session_inv_def sorted_wrt_append may_follow_def Let_def split: prod.splits bool.splits)
qed

text \<open>
  C11: A session ends its deal once, whatever is called in which order, whatever the chain answers and whatever
  other tasks do while a call waits. Once a write landed nothing is written any more; once a stop may have
  landed no other stop and no cleanup is sent, by no entry point and not by the backup on drop. A session that
  saw a terminal outcome is settled, refuses requests and names its terminal action.
\<close>

theorem session_ends_deal_once:
  "sorted_wrt (\<lambda>p q. cp_fate p \<noteq> Landed \<and> (stop_write p \<and> cp_fate p = MayHaveLanded \<longrightarrow> cp_write q = WriteDispute))
      (sw_log (session_history policy lifetime calls dropped))
    \<and> (let W = session_history policy lifetime calls None in
        ((\<exists>p\<in>set (sw_log W). cp_fate p = Landed) \<longrightarrow> se_settled (sw_session W))
        \<and> (se_settled (sw_session W) \<longrightarrow> se_closed (sw_session W) \<and> se_terminal_action (sw_session W) \<noteq> None))"
proof -
  let ?W = "run_session calls (session_start policy lifetime)"
  have inv: "session_inv ?W" by (rule run_session_keeps [OF session_start_inv])
  have "(\<lambda>p q. cp_fate p \<noteq> Landed \<and> (stop_write p \<and> cp_fate p = MayHaveLanded \<longrightarrow> cp_write q = WriteDispute)) = may_follow"
    by (auto simp: fun_eq_iff may_follow_def possible_stop_def)
  moreover have "sorted_wrt may_follow (sw_log (session_history policy lifetime calls dropped))"
    using inv drop_order [OF inv] by (auto simp: session_history_def session_inv_def Let_def split: option.splits)
  moreover have "knows (sw_session ?W) (sw_log ?W)" using inv by (simp add: session_inv_def)
  ultimately show ?thesis by (auto simp: session_history_def knows_def Let_def)
qed

text \<open>
  A session whose bail stop may have landed: every later stop is suppressed, a stalled seller is still disputed,
  and reading the deal as ended settles the session.
\<close>

definition sample_session_calls :: "session_call list" where
  "sample_session_calls =
    (let unclear = \<lparr>aw_meanwhile = [], aw_answer = Inl AmbiguousSubmit, aw_output_resumed = False\<rparr>;
         stopped = \<lparr>aw_meanwhile = [TakeReconciliation], aw_answer = Inr (AmicableSplit 0 0), aw_output_resumed = False\<rparr>
     in [Free (BindRoute 0), Free (RouteDelivers 5), VerificationBail unclear, SettleNow stopped, DeadGateway stopped,
         SellerStalls stopped])"

definition sample_session_policy :: BuyerApiFailurePolicy where
  "sample_session_policy = default_failure_policy\<lparr>fp_seller_stalls_mid_stream := StallDispute\<rparr>"

lemmas sample_session_defs = sample_session_calls_def sample_session_policy_def session_history_def run_session_def
  session_start_def new_session_def default_failure_policy_def settle_verification_bail_def session_settle_def
  settle_dead_gateway_def policy_seller_timeout_def recover_reclaim_opened_def begin_recovery_attempt_def
  settle_seller_stalls_mid_stream_def policy_dispute_def submit_dispute_def submit_may_have_landed_def
  preserve_without_implicit_chain_write_def bind_route_delivery_def write_chain_def
  take_handler_recovery_reconciliation_def guarded_answer_def guarded_fate_def Let_def

lemma sample_session_log:
  "sw_log (session_history sample_session_policy SettleOnExit sample_session_calls None)
    = [\<lparr>cp_write = WriteStop, cp_fate = MayHaveLanded\<rparr>, \<lparr>cp_write = WriteDispute, cp_fate = Landed\<rparr>]"
  by (simp add: sample_session_defs session_defs)

theorem session_ends_deal_once_witness:
  "se_settled (sw_session (session_history sample_session_policy SettleOnExit sample_session_calls None))
    \<and> se_closed (sw_session (session_history sample_session_policy SettleOnExit sample_session_calls None))"
proof -
  let ?W = "session_history sample_session_policy SettleOnExit sample_session_calls None"
  have "\<exists>p\<in>set (sw_log ?W). cp_fate p = Landed" unfolding sample_session_log by simp
  then show ?thesis
    using session_ends_deal_once [of sample_session_policy SettleOnExit sample_session_calls None] by (simp add: Let_def)
qed

text \<open>
  The latch covers stops only: a dispute is posted although a stop may have landed.
\<close>

lemma dispute_after_possible_stop:
  "\<exists>policy calls. sw_log (session_history policy SettleOnExit calls None)
    = [\<lparr>cp_write = WriteStop, cp_fate = MayHaveLanded\<rparr>, \<lparr>cp_write = WriteDispute, cp_fate = Landed\<rparr>]"
  using sample_session_log by blast

section \<open>Implicit endings\<close>

text \<open>A session that preserves its deal writes in an explicit settlement only.\<close>

lemma lifetime_constant:
  "se_lifetime (run_free f s) = se_lifetime s" "se_lifetime (fold run_free fs s) = se_lifetime s"
proof -
  show one: "se_lifetime (run_free f s) = se_lifetime s" for f s
    by (cases f) (auto simp: bind_route_delivery_def veto_implicit_terminal_without_delivery_def
      preserve_without_implicit_chain_write_def take_handler_recovery_reconciliation_def close_recovery_episode_def
      mark_recovered_def leave_undelivered_def Let_def session_defs split: option.splits)
  show "se_lifetime (fold run_free fs s) = se_lifetime s" by (induction fs arbitrary: s) (simp_all add: one)
qed

lemma preserved_call:
  assumes "se_lifetime (sw_session W) = PreserveDeal" and "\<And>aw. c \<noteq> SettleNow aw"
  shows "sw_log (run_session_call c W) = sw_log W \<and> se_lifetime (sw_session (run_session_call c W)) = PreserveDeal"
  using assms
  by (cases c) (auto simp: settle_on_exit_def settle_verification_bail_def settle_dead_gateway_def settle_empty_stream_def
      settle_seller_stalls_mid_stream_def policy_seller_timeout_def policy_unsupported_def policy_fail_closed_def policy_dispute_def
      recover_cleanup_unopened_def recover_reclaim_opened_def ensure_open_for_serving_def fail_closed_unopened_before_serving_def
      fail_closed_before_serving_def preserve_without_implicit_chain_write_def mark_recovered_serialized_def lifetime_constant session_defs Let_def
      split: DeadGatewayAction.splits EmptyStreamAction.splits SellerStallsMidStreamAction.splits sum.splits option.splits)

lemma preserved_run:
  assumes "se_lifetime (sw_session W) = PreserveDeal" and "\<And>aw. SettleNow aw \<notin> set calls"
  shows "sw_log (run_session calls W) = sw_log W \<and> se_lifetime (sw_session (run_session calls W)) = PreserveDeal"
  using assms
proof (induction calls arbitrary: W)
  case (Cons c calls)
  have c: "sw_log (run_session_call c W) = sw_log W \<and> se_lifetime (sw_session (run_session_call c W)) = PreserveDeal"
    by (rule preserved_call [OF Cons.prems(1)]) (use Cons.prems(2) in force)
  moreover have "SettleNow aw \<notin> set calls" for aw using Cons.prems(2) [of aw] by simp
  ultimately show ?case using Cons.IH [of "run_session_call c W"] by (simp add: run_session_def)
qed (simp add: run_session_def)

text \<open>
  Nobody uses the deal: tasks come and go without delivering, the terminal outcome may be observed, the
  service shuts down.
\<close>

fun nobody_asked :: "session_call \<Rightarrow> bool" where
  "nobody_asked (Free f) \<longleftrightarrow> (\<forall>n. f \<noteq> RouteDelivers n)"
| "nobody_asked (ExitSettle _) \<longleftrightarrow> True"
| "nobody_asked MarkRecoveredSerialized \<longleftrightarrow> True"
| "nobody_asked _ \<longleftrightarrow> False"

lemma unused_free:
  "(\<forall>n. f \<noteq> RouteDelivers n) \<Longrightarrow> se_route_delivery s = Some 0 \<Longrightarrow> se_route_delivery (run_free f s) = Some 0"
  by (cases f) (auto simp: bind_route_delivery_def veto_implicit_terminal_without_delivery_def
      preserve_without_implicit_chain_write_def take_handler_recovery_reconciliation_def close_recovery_episode_def
      mark_recovered_def leave_undelivered_def Let_def session_defs split: option.splits)

lemma unused_call:
  "nobody_asked c \<Longrightarrow> se_route_delivery (sw_session W) = Some 0 \<Longrightarrow>
    sw_log (run_session_call c W) = sw_log W \<and> se_route_delivery (sw_session (run_session_call c W)) = Some 0"
  by (cases c) (auto simp: unused_free serialized_mark settle_on_exit_def veto_implicit_terminal_without_delivery_def
      implicit_terminal_lacks_delivery_def preserve_without_implicit_chain_write_def session_defs mark_recovered_def
      simp del: run_free.simps split: SessionLifetimePolicy.splits)

lemma unused_run:
  "list_all nobody_asked calls \<Longrightarrow> se_route_delivery (sw_session W) = Some 0 \<Longrightarrow>
    sw_log (run_session calls W) = sw_log W \<and> se_route_delivery (sw_session (run_session calls W)) = Some 0"
  unfolding run_session_def by (induction calls arbitrary: W) (simp_all add: unused_call)

lemma drop_writes_for_delivery:
  "sw_log (drop_session runtime aw W) \<noteq> sw_log W \<Longrightarrow>
    se_lifetime (sw_session W) = SettleOnExit \<and> se_route_delivery (sw_session W) \<noteq> Some 0"
  by (cases "se_lifetime (sw_session W)")
     (auto simp: drop_session_def veto_implicit_terminal_without_delivery_def implicit_terminal_lacks_delivery_def Let_def split: if_splits)

text \<open>
  C29: What nobody asked for is not ended by itself. A session that preserves its deal writes nothing unless
  somebody settles explicitly, whatever fails and however it is dropped. A route that was bound and never
  delivered a token writes nothing when the service shuts down or the session is dropped, so no stop burns the
  trial tick of an unused deal.
\<close>

theorem unused_deal_is_left_alone:
  "((\<forall>aw. SettleNow aw \<notin> set calls) \<longrightarrow> sw_log (session_history policy PreserveDeal calls dropped) = [])
    \<and> (list_all nobody_asked calls \<longrightarrow> sw_log (session_history policy lifetime (Free (BindRoute 0) # calls) dropped) = [])"
proof (intro conjI impI)
  assume none: "\<forall>aw. SettleNow aw \<notin> set calls"
  let ?W = "run_session calls (session_start policy PreserveDeal)"
  have "sw_log ?W = [] \<and> se_lifetime (sw_session ?W) = PreserveDeal"
    using preserved_run [of "session_start policy PreserveDeal" calls] none by (simp add: session_start_def new_session_def)
  then show "sw_log (session_history policy PreserveDeal calls dropped) = []"
    using drop_writes_for_delivery [of _ _ ?W] by (cases dropped) (fastforce simp: session_history_def)+
next
  assume unused: "list_all nobody_asked calls"
  let ?W = "run_session (Free (BindRoute 0) # calls) (session_start policy lifetime)"
  have "sw_log ?W = [] \<and> se_route_delivery (sw_session ?W) = Some 0"
    using unused_run [OF unused, of "run_session_call (Free (BindRoute 0)) (session_start policy lifetime)"]
    by (simp add: run_session_def session_start_def new_session_def on_session_def bind_route_delivery_def)
  then show "sw_log (session_history policy lifetime (Free (BindRoute 0) # calls) dropped) = []"
    using drop_writes_for_delivery [of _ _ ?W] by (cases dropped) (fastforce simp: session_history_def)+
qed

theorem unused_deal_is_left_alone_witness:
  "sw_log (session_history default_failure_policy SettleOnExit
      [Free (BindRoute 0), ExitSettle \<lparr>aw_meanwhile = [], aw_answer = Inl AmbiguousSubmit, aw_output_resumed = False\<rparr>]
      (Some (True, \<lparr>aw_meanwhile = [], aw_answer = Inl AmbiguousSubmit, aw_output_resumed = False\<rparr>))) = []"
  using unused_deal_is_left_alone [of "[ExitSettle \<lparr>aw_meanwhile = [], aw_answer = Inl AmbiguousSubmit, aw_output_resumed = False\<rparr>]"
      default_failure_policy "Some (True, \<lparr>aw_meanwhile = [], aw_answer = Inl AmbiguousSubmit, aw_output_resumed = False\<rparr>)" SettleOnExit]
  by simp

section \<open>Serving\<close>

lemma begin_closes:
  assumes "begin_recovery_attempt CleanupUnopened True s = (s', b)" and "knows s log"
    and "se_recovery_episode s \<noteq> Some ReclaimOpened"
  shows "se_closed s'"
  using assms
  by (cases "se_recovery_episode s") (auto simp: begin_recovery_attempt_def submit_may_have_landed_def knows_def Let_def
      session_defs split: if_splits RecoveryKind.splits, (metis RecoveryKind.exhaust option.inject)+)

lemma cleanup_closes:
  assumes inv: "session_inv W" and free: "se_recovery_episode (sw_session W) \<noteq> Some ReclaimOpened"
  shows "se_closed (sw_session (fst (recover_cleanup_unopened True aw W)))"
proof (cases "se_lifetime (sw_session W) = PreserveDeal \<or> se_settled (sw_session W)")
  case True
  then show ?thesis using inv
    by (auto simp: recover_cleanup_unopened_def preserve_without_implicit_chain_write_def session_inv_def knows_def)
next
  case False
  obtain s b where begun: "begin_recovery_attempt CleanupUnopened True (sw_session W) = (s, b)" by fastforce
  have "se_closed s" using begin_closes [OF begun _ free] inv by (auto simp: session_inv_def)
  then have "se_closed (fold run_free (aw_meanwhile aw) s)" by (rule run_frees_closed)
  then show ?thesis using False begun \<open>se_closed s\<close>
    by (cases b) (auto simp: recover_cleanup_unopened_def preserve_without_implicit_chain_write_def write_chain_parts Let_def
        split: sum.splits)
qed

lemma cleanup_log:
  "sw_log (fst (recover_cleanup_unopened h aw W)) = sw_log W
    \<or> sw_log (fst (recover_cleanup_unopened h aw W)) = sw_log W @ [\<lparr>cp_write = WriteCleanup, cp_fate = fate (aw_answer aw)\<rparr>]"
  by (auto simp: recover_cleanup_unopened_def write_chain_def on_session_def Let_def split: prod.splits bool.splits sum.splits)

lemma fail_closed_log: "sw_log (fail_closed_before_serving W) = sw_log W"
  by (simp add: fail_closed_before_serving_def on_session_def)

lemma fail_closed_closes: "session_inv W \<Longrightarrow> se_closed (sw_session (fail_closed_before_serving W))"
  by (auto simp: fail_closed_before_serving_def on_session_def session_inv_def knows_def)

text \<open>
  C30: The gate a request passes before it is served, \<open>ensure_open_for_serving\<close>, opens exactly on a deal the chain
  shows funded, open and undisputed, and changes nothing then. Otherwise it refuses the request, and the session is
  closed afterwards unless the reclaim of the opened deal is under way already; the refusal writes to the chain
  only to clean up a deal that is funded, was never opened and has passed its opening timeout.
\<close>

theorem serving_needs_open_deal:
  assumes "W = run_session calls (session_start policy lifetime)" and "ensure_open_for_serving read now aw W = (W', r)"
  shows "(r = Inr () \<longleftrightarrow> (\<exists>st. read = Inr (Some st) \<and> dcs_funded st \<and> dcs_opened st \<and> \<not> dcs_disputed st))
    \<and> (r = Inr () \<longrightarrow> W' = W)
    \<and> (r \<noteq> Inr () \<longrightarrow> se_closed (sw_session W') \<or> se_recovery_episode (sw_session W) = Some ReclaimOpened)
    \<and> (sw_log W' \<noteq> sw_log W \<longrightarrow>
        sw_log W' = sw_log W @ [\<lparr>cp_write = WriteCleanup, cp_fate = fate (aw_answer aw)\<rparr>]
        \<and> (\<exists>st t. read = Inr (Some st) \<and> dcs_funded st \<and> \<not> dcs_opened st \<and> \<not> dcs_disputed st \<and> \<not> is_stopped st
            \<and> dcs_funded_time st = Some t \<and> saturating_add U64_MAX t MATCH_OPEN_TIMEOUT_SECS \<le> now))"
proof -
  have inv: "session_inv W" unfolding assms(1) by (rule run_session_keeps [OF session_start_inv])
  have ready: "unopened_cleanup_decision st now = Some CleanupReady \<longleftrightarrow>
      dcs_funded st \<and> \<not> dcs_opened st \<and> \<not> dcs_disputed st \<and> \<not> is_stopped st
      \<and> (\<exists>t. dcs_funded_time st = Some t \<and> saturating_add U64_MAX t MATCH_OPEN_TIMEOUT_SECS \<le> now)" for st
    by (auto simp: unopened_cleanup_decision_def Let_def split: option.splits)
  show ?thesis
  proof (cases "\<exists>st. read = Inr (Some st) \<and> \<not> (dcs_funded st \<and> dcs_opened st \<and> \<not> dcs_disputed st)
      \<and> unopened_cleanup_decision st now = Some CleanupReady")
    case True
    then show ?thesis
      using assms(2) cleanup_closes [OF inv] cleanup_log [of True aw W] ready
      by (auto simp: ensure_open_for_serving_def fail_closed_unopened_before_serving_def Let_def)
  next
    case False
    then show ?thesis
      using assms(2) fail_closed_closes [OF inv] fail_closed_log [of W]
      by (auto simp: ensure_open_for_serving_def fail_closed_unopened_before_serving_def Let_def
          split: sum.splits option.splits if_splits)
  qed
qed

text \<open>A funded deal whose seller did not open it in time is cleaned up before a request is served on it.\<close>

definition sample_never_opened :: DealChainState where
  "sample_never_opened =
    \<lparr>dcs_funded = True, dcs_opened = False, dcs_probe_accepted = False, dcs_disputed = False, dcs_deposit = 1000,
     dcs_finalized_owed = 0, dcs_tokens_final = 0, dcs_tokens_pending = 0, dcs_probe_tick = 10, dcs_funded_time = Some 100,
     dcs_probe_time = 0, dcs_last_claim_time = 0, dcs_dispute_time = 0\<rparr>"

theorem serving_needs_open_deal_witness:
  "(\<exists>W' r. ensure_open_for_serving (Inr (Some sample_never_opened)) 700
        \<lparr>aw_meanwhile = [], aw_answer = Inr (AmicableSplit 0 0), aw_output_resumed = False\<rparr>
        (session_start default_failure_policy SettleOnExit) = (W', r)
     \<and> r \<noteq> Inr () \<and> se_closed (sw_session W'))"
proof -
  let ?aw = "\<lparr>aw_meanwhile = [], aw_answer = Inr (AmicableSplit 0 0), aw_output_resumed = False\<rparr>"
  let ?W = "session_start default_failure_policy SettleOnExit"
  obtain W' r where run: "ensure_open_for_serving (Inr (Some sample_never_opened)) 700 ?aw ?W = (W', r)" by fastforce
  have "?W = run_session [] ?W" by (simp add: run_session_def)
  from serving_needs_open_deal [OF this run] have "r \<noteq> Inr () \<and> se_closed (sw_session W')"
    by (auto simp: sample_never_opened_def session_start_def new_session_def)
  then show ?thesis using run by blast
qed

end
