(* ===== verification/Advertise.thy ===== *)
theory Advertise
  imports Text
begin

text \<open>
  Which gateway addresses a seller may advertise: \<open>src/crates/dexdo/src/seller/advertise.rs\<close>, with the parser of
  IP literals of the standard library (\<open>core::net::parser\<close>) and the class tests of its addresses. An IPv4 address
  is its four octets, an IPv6 address the list of its eight segments; the reader only yields numbers below
  \<open>256\<close> and \<open>65536\<close>. Text is UTF-8 bytes.
\<close>

unbundle bit_operations_syntax

section \<open>IP literals\<close>

type_synonym ipv4 = "nat \<times> nat \<times> nat \<times> nat"
type_synonym ipv6 = "nat list"
datatype IpAddr = V4 ipv4 | V6 ipv6

definition to_digit :: "nat \<Rightarrow> char \<Rightarrow> nat option" where
  "to_digit radix c =
    (let n = (of_char c :: nat);
         d = (if 48 \<le> n \<and> n \<le> 57 then n - 48
              else if 97 \<le> n \<and> n \<le> 122 then n - 87
              else if 65 \<le> n \<and> n \<le> 90 then n - 55 else 36)
     in if d < radix then Some d else None)"

definition digits_value :: "nat \<Rightarrow> string \<Rightarrow> nat" where
  "digits_value radix ds = foldl (\<lambda>acc c. acc * radix + the (to_digit radix c)) 0 ds"

text \<open>
  \<open>read_number\<close>: all digits that follow, at most \<open>max_digits\<close> of them, for octets without a leading zero, and the
  value has to fit.
\<close>

definition read_number :: "nat \<Rightarrow> nat \<Rightarrow> bool \<Rightarrow> nat \<Rightarrow> string \<Rightarrow> (nat \<times> string) option" where
  "read_number radix max_digits allow_zero_prefix bound s =
    (let ds = takeWhile (\<lambda>c. to_digit radix c \<noteq> None) s
     in if ds = [] \<or> max_digits < length ds
           \<or> (\<not> allow_zero_prefix \<and> hd ds = CHR ''0'' \<and> 1 < length ds) \<or> bound \<le> digits_value radix ds
        then None else Some (digits_value radix ds, drop (length ds) s))"

definition read_given_char :: "char \<Rightarrow> string \<Rightarrow> string option" where
  "read_given_char c s = (case s of x # rest \<Rightarrow> if x = c then Some rest else None | [] \<Rightarrow> None)"

text \<open>\<open>read_separator\<close>: the separator stands before every item but the first.\<close>

definition read_separator :: "char \<Rightarrow> nat \<Rightarrow> (string \<Rightarrow> ('a \<times> string) option) \<Rightarrow> string \<Rightarrow> ('a \<times> string) option" where
  "read_separator sep index inner s =
    (if 0 < index then Option.bind (read_given_char sep s) inner else inner s)"

definition read_octet :: "nat \<Rightarrow> string \<Rightarrow> (nat \<times> string) option" where
  "read_octet i = read_separator (CHR ''.'') i (read_number 10 3 False 256)"

definition read_ipv4_addr :: "string \<Rightarrow> (ipv4 \<times> string) option" where
  "read_ipv4_addr s =
    Option.bind (read_octet 0 s) (\<lambda>(a, s).
    Option.bind (read_octet 1 s) (\<lambda>(b, s).
    Option.bind (read_octet 2 s) (\<lambda>(c, s).
    Option.bind (read_octet 3 s) (\<lambda>(d, s). Some ((a, b, c, d), s)))))"

text \<open>
  \<open>read_groups\<close> of \<open>read_ipv6_addr\<close>: up to the limit groups of hexadecimal digits; an IPv4 literal counts for two and
  ends them.
\<close>

fun read_groups :: "nat \<Rightarrow> nat \<Rightarrow> string \<Rightarrow> nat list \<times> bool \<times> string" where
  "read_groups 0 i s = ([], False, s)"
| "read_groups (Suc left) i s =
    (case (if 0 < left then read_separator (CHR '':'') i read_ipv4_addr s else None) of
       Some ((a, b, c, d), rest) \<Rightarrow> ([a * 256 + b, c * 256 + d], True, rest)
     | None \<Rightarrow>
         (case read_separator (CHR '':'') i (read_number 16 4 True 65536) s of
            None \<Rightarrow> ([], False, s)
          | Some (g, rest) \<Rightarrow>
              (case read_groups left (Suc i) rest of (gs, v4, u) \<Rightarrow> (g # gs, v4, u))))"

definition read_ipv6_addr :: "string \<Rightarrow> (ipv6 \<times> string) option" where
  "read_ipv6_addr s =
    (case read_groups 8 0 s of (front, front_ipv4, s) \<Rightarrow>
       if length front = 8 then Some (front, s)
       else if front_ipv4 then None
       else
         Option.bind (read_given_char (CHR '':'') s) (\<lambda>s.
         Option.bind (read_given_char (CHR '':'') s) (\<lambda>s.
         case read_groups (8 - (length front + 1)) 0 s of (rear, _, s) \<Rightarrow>
           Some (front @ replicate (8 - length front - length rear) 0 @ rear, s))))"

text \<open>\<open>str::parse::<IpAddr>\<close>: the literal is the whole text.\<close>

definition parse_ip :: "string \<Rightarrow> IpAddr option" where
  "parse_ip s =
    (case read_ipv4_addr s of
       Some (ip, rest) \<Rightarrow> if rest = [] then Some (V4 ip) else None
     | None \<Rightarrow>
         (case read_ipv6_addr s of
            Some (ip, rest) \<Rightarrow> if rest = [] then Some (V6 ip) else None
          | None \<Rightarrow> None))"

text \<open>\<open>Ipv6Addr::to_ipv4_mapped\<close>: the addresses \<open>::ffff:a.b.c.d\<close>.\<close>

definition to_ipv4_mapped :: "ipv6 \<Rightarrow> ipv4 option" where
  "to_ipv4_mapped ip =
    (if take 6 ip = [0, 0, 0, 0, 0, 0xffff]
     then Some (ip ! 6 div 256, ip ! 6 mod 256, ip ! 7 div 256, ip ! 7 mod 256) else None)"

section \<open>Classes\<close>

datatype NonPublicReason =
    BindAll | Loopback | PrivateRange | LinkLocal | Cgnat | ThisNetwork | Documentation | Benchmarking
  | ReservedRange | Multicast | LocalName

datatype AdvertiseReachability = PublicAddress | NonPublic NonPublicReason

definition is_public :: "AdvertiseReachability \<Rightarrow> bool" where
  "is_public r \<longleftrightarrow> r = PublicAddress"

definition before_last_colon :: "string \<Rightarrow> string" where
  "before_last_colon s =
    (if CHR '':'' \<in> set s then rev (tl (dropWhile (\<lambda>c. c \<noteq> CHR '':'') (rev s))) else s)"

definition advertise_host :: "string \<Rightarrow> string" where
  "advertise_host addr =
    (let addr = str_trim addr
     in case strip_prefix ''['' addr of
          Some rest \<Rightarrow> (case split_once '']'' rest of Some (host, _) \<Rightarrow> host | None \<Rightarrow> rest)
        | None \<Rightarrow> if 1 < length (filter (\<lambda>c. c = CHR '':'') addr) then addr else before_last_colon addr)"

text \<open>
  The tests of the standard library in the order of the source: \<open>is_unspecified\<close>, \<open>is_loopback\<close>, \<open>is_private\<close>,
  \<open>is_link_local\<close>, \<open>is_documentation\<close>, \<open>is_multicast\<close>.
\<close>

fun classify_v4 :: "ipv4 \<Rightarrow> AdvertiseReachability" where
  "classify_v4 (a, b, c, d) =
    (if a = 0 \<and> b = 0 \<and> c = 0 \<and> d = 0 then NonPublic BindAll
     else if a = 0 then NonPublic ThisNetwork
     else if a = 127 then NonPublic Loopback
     else if a = 10 \<or> (a = 172 \<and> 16 \<le> b \<and> b \<le> 31) \<or> (a = 192 \<and> b = 168) then NonPublic PrivateRange
     else if a = 169 \<and> b = 254 then NonPublic LinkLocal
     else if a = 100 \<and> 64 \<le> b \<and> b \<le> 127 then NonPublic Cgnat
     else if (a = 192 \<and> b = 0 \<and> c = 2) \<or> (a = 198 \<and> b = 51 \<and> c = 100) \<or> (a = 203 \<and> b = 0 \<and> c = 113)
       then NonPublic Documentation
     else if a = 198 \<and> (b = 18 \<or> b = 19) then NonPublic Benchmarking
     else if 224 \<le> a \<and> a \<le> 239 then NonPublic Multicast
     else if 240 \<le> a then NonPublic ReservedRange
     else PublicAddress)"

definition classify_v6 :: "ipv6 \<Rightarrow> AdvertiseReachability" where
  "classify_v6 ip =
    (let first = ip ! 0
     in if ip = [0, 0, 0, 0, 0, 0, 0, 0] then NonPublic BindAll
        else if ip = [0, 0, 0, 0, 0, 0, 0, 1] then NonPublic Loopback
        else if first AND 0xffc0 = 0xfe80 then NonPublic LinkLocal
        else if first AND 0xfe00 = 0xfc00 then NonPublic PrivateRange
        else if (first = 0x2001 \<and> ip ! 1 = 0x0db8) \<or> (first = 0x3fff \<and> ip ! 1 AND 0xf000 = 0) then NonPublic Documentation
        else if first AND 0xff00 = 0xff00 then NonPublic Multicast
        else PublicAddress)"

definition trim_end_dots :: "string \<Rightarrow> string" where
  "trim_end_dots s = rev (dropWhile (\<lambda>c. c = CHR ''.'') (rev s))"

definition classify_name :: "string \<Rightarrow> AdvertiseReachability" where
  "classify_name host =
    (let name = to_ascii_lowercase (trim_end_dots host)
     in if name = ''localhost'' \<or> ends_with ''.localhost'' name \<or> ends_with ''.local'' name
           \<or> ends_with ''.internal'' name \<or> ends_with ''.home.arpa'' name
        then NonPublic LocalName else PublicAddress)"

definition classify_advertise :: "string \<Rightarrow> AdvertiseReachability" where
  "classify_advertise addr =
    (let host = advertise_host addr
     in case parse_ip host of
          Some (V4 v4) \<Rightarrow> classify_v4 v4
        | Some (V6 v6) \<Rightarrow> (case to_ipv4_mapped v6 of Some v4 \<Rightarrow> classify_v4 v4 | None \<Rightarrow> classify_v6 v6)
        | None \<Rightarrow> classify_name host)"

definition advertise_is_public :: "string \<Rightarrow> bool" where
  "advertise_is_public addr \<longleftrightarrow> is_public (classify_advertise addr)"

text \<open>The refusal \<open>E_ADVERTISE_NOT_PUBLIC\<close> names the address, whether it was the default, and the reason.\<close>

definition validate_advertise :: "string \<Rightarrow> bool \<Rightarrow> bool \<Rightarrow> (string \<times> bool \<times> NonPublicReason) + unit" where
  "validate_advertise advertised defaulted_from_listen allow_private =
    (if allow_private then Inr ()
     else case classify_advertise advertised of
            PublicAddress \<Rightarrow> Inr ()
          | NonPublic reason \<Rightarrow> Inl (advertised, defaulted_from_listen, reason))"

section \<open>Blocks of addresses\<close>

text \<open>
  The classes as blocks of address space. An address is the number its octets or segments spell; a block of
  length \<open>n\<close> holds the addresses that agree with its base in the first \<open>n\<close> bits.
\<close>

fun v4_number :: "ipv4 \<Rightarrow> nat" where
  "v4_number (a, b, c, d) = ((a * 256 + b) * 256 + c) * 256 + d"

definition v6_number :: "ipv6 \<Rightarrow> nat" where
  "v6_number ip = foldl (\<lambda>n s. n * 65536 + s) 0 ip"

definition in_block :: "nat \<Rightarrow> nat \<Rightarrow> nat \<times> nat \<Rightarrow> bool" where
  "in_block bits n block = (case block of (base, len) \<Rightarrow> n div 2 ^ (bits - len) = base div 2 ^ (bits - len))"

fun first_class :: "nat \<Rightarrow> ((nat \<times> nat) \<times> NonPublicReason) list \<Rightarrow> nat \<Rightarrow> AdvertiseReachability" where
  "first_class bits [] n = PublicAddress"
| "first_class bits ((block, reason) # blocks) n =
    (if in_block bits n block then NonPublic reason else first_class bits blocks n)"

definition v4_blocks :: "((nat \<times> nat) \<times> NonPublicReason) list" where
  "v4_blocks = map (\<lambda>(ip, len, reason). ((v4_number ip, len), reason))
    [((0, 0, 0, 0), 32, BindAll), ((0, 0, 0, 0), 8, ThisNetwork), ((127, 0, 0, 0), 8, Loopback),
     ((10, 0, 0, 0), 8, PrivateRange), ((172, 16, 0, 0), 12, PrivateRange), ((192, 168, 0, 0), 16, PrivateRange),
     ((169, 254, 0, 0), 16, LinkLocal), ((100, 64, 0, 0), 10, Cgnat), ((192, 0, 2, 0), 24, Documentation),
     ((198, 51, 100, 0), 24, Documentation), ((203, 0, 113, 0), 24, Documentation),
     ((198, 18, 0, 0), 15, Benchmarking), ((224, 0, 0, 0), 4, Multicast), ((240, 0, 0, 0), 4, ReservedRange)]"

definition v6_blocks :: "((nat \<times> nat) \<times> NonPublicReason) list" where
  "v6_blocks = map (\<lambda>(front, len, reason). ((v6_number (front @ replicate (8 - length front) 0), len), reason))
    [([], 128, BindAll), ([0, 0, 0, 0, 0, 0, 0, 1], 128, Loopback), ([0xfe80], 10, LinkLocal),
     ([0xfc00], 7, PrivateRange), ([0x2001, 0x0db8], 32, Documentation), ([0x3fff], 20, Documentation),
     ([0xff00], 8, Multicast)]"

end
