(* ===== verification/AdvertiseLaws.thy ===== *)
theory AdvertiseLaws
  imports Advertise
begin

text \<open>
  The screen of advertised addresses refuses exactly the reserved blocks: the tests on octets and segments are
  membership in blocks of the address space, and the parser reads back what a literal spells.
\<close>

section \<open>IPv4 blocks\<close>

lemma div_steps:
  "n div 2 ^ 16 = n div 2 ^ 8 div (2 ^ 8 :: nat)" "n div 2 ^ 24 = n div 2 ^ 16 div (2 ^ 8 :: nat)"
  "n div 2 ^ 28 = n div 2 ^ 24 div (2 ^ 4 :: nat)" "n div 2 ^ 22 = n div 2 ^ 16 div (2 ^ 6 :: nat)"
  "n div 2 ^ 20 = n div 2 ^ 16 div (2 ^ 4 :: nat)" "n div 2 ^ 17 = n div 2 ^ 16 div (2 ^ 1 :: nat)"
  by (simp_all add: div_mult2_eq [symmetric])

lemma last_digit: "(a * 256 + b) div 2 ^ 8 = a" if "b < 256" for a b :: nat
  using that by simp

lemma v4_high:
  assumes "b < 256" "c < 256" "d < 256"
  shows "v4_number (a, b, c, d) div 2 ^ 8 = (a * 256 + b) * 256 + c"
    and "v4_number (a, b, c, d) div 2 ^ 16 = a * 256 + b"
    and "v4_number (a, b, c, d) div 2 ^ 24 = a"
  by (simp_all only: v4_number.simps div_steps(2) div_steps(1) last_digit [OF assms(1)] last_digit [OF assms(2)] last_digit [OF assms(3)])

lemma v4_parts:
  assumes "b < 256" "c < 256" "d < 256"
  shows "v4_number (a, b, c, d) div 2 ^ 28 = a div 2 ^ 4"
    and "v4_number (a, b, c, d) div 2 ^ 22 = (a * 256 + b) div 2 ^ 6"
    and "v4_number (a, b, c, d) div 2 ^ 20 = (a * 256 + b) div 2 ^ 4"
    and "v4_number (a, b, c, d) div 2 ^ 17 = (a * 256 + b) div 2 ^ 1"
  by (simp_all only: div_steps(3-6) v4_high [OF assms])

text \<open>Numbers written in a base agree exactly if their digits do.\<close>

lemma digits_eq: "b < B \<Longrightarrow> b' < B \<Longrightarrow> a * B + b = a' * B + b' \<longleftrightarrow> a = a' \<and> b = (b' :: nat)"
proof
  assume "b < B" "b' < B" and eq: "a * B + b = a' * B + b'"
  have "(a * B + b) div B = (a' * B + b') div B" "(a * B + b) mod B = (a' * B + b') mod B" using eq by simp_all
  then show "a = a' \<and> b = b'" using \<open>b < B\<close> \<open>b' < B\<close> by simp
qed simp

lemma digits_div_eq:
  assumes "b < m * k" "b' < m * k" "0 < k"
  shows "(a * (m * k) + b) div k = (a' * (m * k) + b') div k \<longleftrightarrow> a = a' \<and> b div k = (b' div k :: nat)"
proof -
  have split: "(x * (m * k) + y) div k = x * m + y div k" for x y
    using assms(3) by (simp add: mult.assoc [symmetric] add.commute [of _ y])
  have "b div k < m" "b' div k < m" using assms by (simp_all add: less_mult_imp_div_less)
  then show ?thesis by (simp add: split digits_eq)
qed

text \<open>Membership in a block, by the length of the block.\<close>

lemma in_v4_block:
  assumes "b < 256" "c < 256" "d < 256" and "b' < 256" "c' < 256" "d' < 256"
  shows "in_block 32 (v4_number (a, b, c, d)) (v4_number (a', b', c', d'), 4) \<longleftrightarrow> a div 16 = a' div 16"
    and "in_block 32 (v4_number (a, b, c, d)) (v4_number (a', b', c', d'), 8) \<longleftrightarrow> a = a'"
    and "in_block 32 (v4_number (a, b, c, d)) (v4_number (a', b', c', d'), 10) \<longleftrightarrow> a = a' \<and> b div 64 = b' div 64"
    and "in_block 32 (v4_number (a, b, c, d)) (v4_number (a', b', c', d'), 12) \<longleftrightarrow> a = a' \<and> b div 16 = b' div 16"
    and "in_block 32 (v4_number (a, b, c, d)) (v4_number (a', b', c', d'), 15) \<longleftrightarrow> a = a' \<and> b div 2 = b' div 2"
    and "in_block 32 (v4_number (a, b, c, d)) (v4_number (a', b', c', d'), 16) \<longleftrightarrow> a = a' \<and> b = b'"
    and "in_block 32 (v4_number (a, b, c, d)) (v4_number (a', b', c', d'), 24) \<longleftrightarrow> a = a' \<and> b = b' \<and> c = c'"
    and "in_block 32 (v4_number (a, b, c, d)) (v4_number (a', b', c', d'), 32) \<longleftrightarrow> a = a' \<and> b = b' \<and> c = c' \<and> d = d'"
proof -
  note high = v4_high [OF assms(1-3), of a] v4_high [OF assms(4-6), of a']
  note parts = v4_parts [OF assms(1-3), of a] v4_parts [OF assms(4-6), of a']
  have len: "(32::nat) - 4 = 28" "(32::nat) - 8 = 24" "(32::nat) - 10 = 22" "(32::nat) - 12 = 20" "(32::nat) - 15 = 17"
    "(32::nat) - 16 = 16" "(32::nat) - 24 = 8" "(32::nat) - 32 = 0" by simp_all
  have small: "(2::nat) ^ 4 = 16" "(2::nat) ^ 6 = 64" "(2::nat) ^ 1 = 2" by simp_all
  note block = in_block_def prod.case len high parts small
  show "in_block 32 (v4_number (a, b, c, d)) (v4_number (a', b', c', d'), 4) \<longleftrightarrow> a div 16 = a' div 16"
    by (simp only: block)
  show "in_block 32 (v4_number (a, b, c, d)) (v4_number (a', b', c', d'), 8) \<longleftrightarrow> a = a'"
    by (simp only: block)
  show "in_block 32 (v4_number (a, b, c, d)) (v4_number (a', b', c', d'), 10) \<longleftrightarrow> a = a' \<and> b div 64 = b' div 64"
    by (simp only: block) (use digits_div_eq [of b 4 64 b' a a'] assms in simp)
  show "in_block 32 (v4_number (a, b, c, d)) (v4_number (a', b', c', d'), 12) \<longleftrightarrow> a = a' \<and> b div 16 = b' div 16"
    by (simp only: block) (use digits_div_eq [of b 16 16 b' a a'] assms in simp)
  show "in_block 32 (v4_number (a, b, c, d)) (v4_number (a', b', c', d'), 15) \<longleftrightarrow> a = a' \<and> b div 2 = b' div 2"
    by (simp only: block) (use digits_div_eq [of b 128 2 b' a a'] assms in simp)
  show "in_block 32 (v4_number (a, b, c, d)) (v4_number (a', b', c', d'), 16) \<longleftrightarrow> a = a' \<and> b = b'"
    by (simp only: block digits_eq [OF assms(1,4)])
  show "in_block 32 (v4_number (a, b, c, d)) (v4_number (a', b', c', d'), 24) \<longleftrightarrow> a = a' \<and> b = b' \<and> c = c'"
    by (simp only: block digits_eq [OF assms(1,4)] digits_eq [OF assms(2,5)] conj_assoc)
  show "in_block 32 (v4_number (a, b, c, d)) (v4_number (a', b', c', d'), 32) \<longleftrightarrow> a = a' \<and> b = b' \<and> c = c' \<and> d = d'"
    by (simp only: in_block_def prod.case len power_0 div_by_1 v4_number.simps digits_eq [OF assms(1,4)]
        digits_eq [OF assms(2,5)] digits_eq [OF assms(3,6)] conj_assoc)
qed

text \<open>The tests of the source on the octets are membership in the blocks.\<close>

lemma div_range: "0 < k \<Longrightarrow> n div k = m \<longleftrightarrow> m * k \<le> n \<and> n < Suc m * (k :: nat)"
  using less_eq_div_iff_mult_less_eq [of k m n] div_less_iff_less_mult [of k n "Suc m"] by auto

lemma octet_ranges:
  "n div 16 = 1 \<longleftrightarrow> 16 \<le> n \<and> n \<le> (31 :: nat)"
  "n div 64 = 1 \<longleftrightarrow> 64 \<le> n \<and> n \<le> (127 :: nat)"
  "n div 2 = 9 \<longleftrightarrow> n = 18 \<or> n = (19 :: nat)"
  "n div 16 = 14 \<longleftrightarrow> 224 \<le> n \<and> n \<le> (239 :: nat)"
  "n < 256 \<Longrightarrow> n div 16 = 15 \<longleftrightarrow> 240 \<le> (n :: nat)"
proof -
  show "n div 16 = 1 \<longleftrightarrow> 16 \<le> n \<and> n \<le> (31 :: nat)" using div_range [of 16 n 1] by simp linarith
  show "n div 64 = 1 \<longleftrightarrow> 64 \<le> n \<and> n \<le> (127 :: nat)" using div_range [of 64 n 1] by simp linarith
  show "n div 2 = 9 \<longleftrightarrow> n = 18 \<or> n = (19 :: nat)" using div_range [of 2 n 9] by simp linarith
  show "n div 16 = 14 \<longleftrightarrow> 224 \<le> n \<and> n \<le> (239 :: nat)" using div_range [of 16 n 14] by simp linarith
  show "n < 256 \<Longrightarrow> n div 16 = 15 \<longleftrightarrow> 240 \<le> (n :: nat)" using div_range [of 16 n 15] by simp
qed

lemma classify_v4_by_blocks:
  assumes "a < 256" "b < 256" "c < 256" "d < 256"
  shows "classify_v4 (a, b, c, d) = first_class 32 v4_blocks (v4_number (a, b, c, d))"
proof -
  let ?in = "\<lambda>ip len. in_block 32 (v4_number (a, b, c, d)) (v4_number ip, len)"
  note ranges = octet_ranges(1-4) octet_ranges(5) [OF assms(1)]
  have divs: "(16::nat) div 16 = 1" "(64::nat) div 64 = 1" "(18::nat) div 2 = 9" "(224::nat) div 16 = 14" "(240::nat) div 16 = 15"
    by simp_all
  have bounds: "(0::nat) < 256" "(2::nat) < 256" "(16::nat) < 256" "(18::nat) < 256" "(51::nat) < 256" "(64::nat) < 256" "(100::nat) < 256"
    "(113::nat) < 256" "(168::nat) < 256" "(254::nat) < 256" by simp_all
  note block = in_v4_block [OF assms(2-4)]
  have member:
    "?in (0, 0, 0, 0) 32 \<longleftrightarrow> a = 0 \<and> b = 0 \<and> c = 0 \<and> d = 0"
    "?in (0, 0, 0, 0) 8 \<longleftrightarrow> a = 0"
    "?in (127, 0, 0, 0) 8 \<longleftrightarrow> a = 127"
    "?in (10, 0, 0, 0) 8 \<longleftrightarrow> a = 10"
    "?in (172, 16, 0, 0) 12 \<longleftrightarrow> a = 172 \<and> 16 \<le> b \<and> b \<le> 31"
    "?in (192, 168, 0, 0) 16 \<longleftrightarrow> a = 192 \<and> b = 168"
    "?in (169, 254, 0, 0) 16 \<longleftrightarrow> a = 169 \<and> b = 254"
    "?in (100, 64, 0, 0) 10 \<longleftrightarrow> a = 100 \<and> 64 \<le> b \<and> b \<le> 127"
    "?in (192, 0, 2, 0) 24 \<longleftrightarrow> a = 192 \<and> b = 0 \<and> c = 2"
    "?in (198, 51, 100, 0) 24 \<longleftrightarrow> a = 198 \<and> b = 51 \<and> c = 100"
    "?in (203, 0, 113, 0) 24 \<longleftrightarrow> a = 203 \<and> b = 0 \<and> c = 113"
    "?in (198, 18, 0, 0) 15 \<longleftrightarrow> a = 198 \<and> (b = 18 \<or> b = 19)"
    "?in (224, 0, 0, 0) 4 \<longleftrightarrow> 224 \<le> a \<and> a \<le> 239"
    "?in (240, 0, 0, 0) 4 \<longleftrightarrow> 240 \<le> a"
    by (simp_all only: block [OF bounds(1) bounds(1) bounds(1)] block [OF bounds(3) bounds(1) bounds(1)] block [OF bounds(9) bounds(1) bounds(1)]
        block [OF bounds(10) bounds(1) bounds(1)] block [OF bounds(6) bounds(1) bounds(1)] block [OF bounds(1) bounds(2) bounds(1)]
        block [OF bounds(5) bounds(7) bounds(1)] block [OF bounds(1) bounds(8) bounds(1)] block [OF bounds(4) bounds(1) bounds(1)]
        divs ranges)
  show ?thesis
    by (simp only: classify_v4.simps v4_blocks_def list.map prod.case first_class.simps member) (simp split: if_split)
qed

section \<open>IPv6 blocks\<close>

lemma v6_number_eight:
  "v6_number [s0, s1, s2, s3, s4, s5, s6, s7] =
    ((((((s0 * 65536 + s1) * 65536 + s2) * 65536 + s3) * 65536 + s4) * 65536 + s5) * 65536 + s6) * 65536 + s7"
  by (simp only: v6_number_def foldl.simps mult_0 add_0)

lemma wide_steps:
  "n div 2 ^ 32 = n div 2 ^ 16 div (2 ^ 16 :: nat)" "n div 2 ^ 48 = n div 2 ^ 32 div (2 ^ 16 :: nat)"
  "n div 2 ^ 64 = n div 2 ^ 48 div (2 ^ 16 :: nat)" "n div 2 ^ 80 = n div 2 ^ 64 div (2 ^ 16 :: nat)"
  "n div 2 ^ 96 = n div 2 ^ 80 div (2 ^ 16 :: nat)" "n div 2 ^ 112 = n div 2 ^ 96 div (2 ^ 16 :: nat)"
  "n div 2 ^ 108 = n div 2 ^ 96 div (2 ^ 12 :: nat)" "n div 2 ^ 118 = n div 2 ^ 112 div (2 ^ 6 :: nat)"
  "n div 2 ^ 121 = n div 2 ^ 112 div (2 ^ 9 :: nat)" "n div 2 ^ 120 = n div 2 ^ 112 div (2 ^ 8 :: nat)"
  by (simp_all add: div_mult2_eq [symmetric])

lemma last_segment: "(a * 65536 + b) div 2 ^ 16 = a" if "b < 65536" for a b :: nat
  using that by simp

definition segments :: "ipv6 \<Rightarrow> bool" where
  "segments ip \<longleftrightarrow> length ip = 8 \<and> list_all (\<lambda>s. s < 65536) ip"

lemma segments_eight:
  assumes "segments ip"
  shows "ip = [ip ! 0, ip ! 1, ip ! 2, ip ! 3, ip ! 4, ip ! 5, ip ! 6, ip ! 7]"
proof -
  have "length ip = Suc (Suc (Suc (Suc (Suc (Suc (Suc (Suc 0)))))))" using assms by (simp add: segments_def)
  then show ?thesis by (auto simp: length_Suc_conv)
qed

lemma segment_small: "segments ip \<Longrightarrow> i < 8 \<Longrightarrow> ip ! i < 65536"
  by (simp add: segments_def list_all_length)

lemma v6_high:
  assumes "ip = [s0, s1, s2, s3, s4, s5, s6, s7]" and "s1 < 65536" "s2 < 65536" "s3 < 65536" "s4 < 65536" "s5 < 65536" "s6 < 65536" "s7 < 65536"
  shows "v6_number ip div 2 ^ 112 = s0" and "v6_number ip div 2 ^ 96 = s0 * 65536 + s1"
  by (simp_all only: assms(1) v6_number_eight wide_steps(6) wide_steps(5) wide_steps(4) wide_steps(3) wide_steps(2) wide_steps(1)
      assms(2-8) [THEN last_segment])

text \<open>A test with a mask of leading ones looks at the leading bits.\<close>

lemma and_leading:
  fixes n :: nat
  assumes "n < 65536" and "k \<le> 16" and "m = push_bit k (mask (16 - k))"
  shows "n AND m = n div 2 ^ k * 2 ^ k"
proof -
  have "take_bit 16 n = n" using assms(1) by (simp add: take_bit_nat_eq_self_iff)
  then have small: "bit n i \<Longrightarrow> i < 16" for i by (metis bit_take_bit_iff)
  then have low: "bit n i \<Longrightarrow> k \<le> i \<Longrightarrow> i - k < 16 - k" for i by (meson diff_less_mono)
  have "n AND m = push_bit k (drop_bit k n)"
    unfolding assms(3) by (rule bit_eqI) (use low assms(2) in \<open>auto simp: bit_and_iff bit_push_bit_iff bit_mask_iff bit_drop_bit_eq\<close>)
  then show ?thesis by (simp add: push_bit_eq_mult drop_bit_eq_div)
qed

lemma masks:
  fixes n :: nat
  assumes "n < 65536"
  shows "n AND 0xffc0 = 0xfe80 \<longleftrightarrow> n div 2 ^ 6 = 0x3fa" "n AND 0xfe00 = 0xfc00 \<longleftrightarrow> n div 2 ^ 9 = 0x7e"
    "n AND 0xff00 = 0xff00 \<longleftrightarrow> n div 2 ^ 8 = 0xff" "n AND 0xf000 = 0 \<longleftrightarrow> n div 2 ^ 12 = 0"
proof -
  have m: "n AND 0xffc0 = n div 2 ^ 6 * 2 ^ 6" "n AND 0xfe00 = n div 2 ^ 9 * 2 ^ 9"
    "n AND 0xff00 = n div 2 ^ 8 * 2 ^ 8" "n AND 0xf000 = n div 2 ^ 12 * 2 ^ 12"
    by (rule and_leading [OF assms]; simp add: push_bit_eq_mult mask_eq_exp_minus_1)+
  have c: "(0xfe80 :: nat) = 0x3fa * 2 ^ 6" "(0xfc00 :: nat) = 0x7e * 2 ^ 9" "(0xff00 :: nat) = 0xff * 2 ^ 8" by simp_all
  have cancel: "x * 2 ^ k = y * 2 ^ k \<longleftrightarrow> x = y" for x y k :: nat by simp
  show "n AND 0xffc0 = 0xfe80 \<longleftrightarrow> n div 2 ^ 6 = 0x3fa" by (simp only: m c cancel)
  show "n AND 0xfe00 = 0xfc00 \<longleftrightarrow> n div 2 ^ 9 = 0x7e" by (simp only: m c cancel)
  show "n AND 0xff00 = 0xff00 \<longleftrightarrow> n div 2 ^ 8 = 0xff" using m(3) c(3) cancel [of "n div 2 ^ 8" 8 "0xff"] by argo
  show "n AND 0xf000 = 0 \<longleftrightarrow> n div 2 ^ 12 = 0" using m(4) by simp
qed

lemma v6_same:
  assumes "s1 < 65536" "s2 < 65536" "s3 < 65536" "s4 < 65536" "s5 < 65536" "s6 < 65536" "s7 < 65536" and "x < 65536"
  shows "v6_number [s0, s1, s2, s3, s4, s5, s6, s7] = v6_number [0, 0, 0, 0, 0, 0, 0, x]
    \<longleftrightarrow> s0 = 0 \<and> s1 = 0 \<and> s2 = 0 \<and> s3 = 0 \<and> s4 = 0 \<and> s5 = 0 \<and> s6 = 0 \<and> s7 = x"
proof -
  have zero: "(0::nat) < 65536" by simp
  show ?thesis
    by (simp only: v6_number_eight digits_eq [OF assms(1) zero] digits_eq [OF assms(2) zero] digits_eq [OF assms(3) zero]
        digits_eq [OF assms(4) zero] digits_eq [OF assms(5) zero] digits_eq [OF assms(6) zero] digits_eq [OF assms(7,8)] conj_assoc)
qed

lemma classify_v6_eight:
  assumes s0: "s0 < 65536" and s: "s1 < 65536" "s2 < 65536" "s3 < 65536" "s4 < 65536" "s5 < 65536" "s6 < 65536" "s7 < 65536"
    and ip: "ip = [s0, s1, s2, s3, s4, s5, s6, s7]"
  shows "classify_v6 ip = first_class 128 v6_blocks (v6_number ip)"
proof -
  let ?in = "\<lambda>base len. in_block 128 (v6_number ip) (v6_number base, len)"
  have zero: "(0::nat) < 65536" and one: "(1::nat) < 65536" and db8: "(0xdb8::nat) < 65536" by simp_all
  have len: "(128::nat) - 128 = 0" "(128::nat) - 10 = 118" "(128::nat) - 7 = 121" "(128::nat) - 32 = 96" "(128::nat) - 20 = 108"
    "(128::nat) - 8 = 120" by simp_all
  have base: "v6_number [x, y, 0, 0, 0, 0, 0, 0] div 2 ^ 112 = x" "v6_number [x, y, 0, 0, 0, 0, 0, 0] div 2 ^ 96 = x * 65536 + y"
    if "y < 65536" for x y using v6_high [OF refl that zero zero zero zero zero zero] by blast+
  note high = v6_high [OF ip s] base [OF zero] base [OF db8]
  have whole: "?in [0, 0, 0, 0, 0, 0, 0, x] 128 \<longleftrightarrow> ip = [0, 0, 0, 0, 0, 0, 0, x]" if "x < 65536" for x
    by (simp only: in_block_def prod.case len power_0 div_by_1 ip v6_same [OF s that] list.inject simp_thms)
  have link: "?in [0xfe80, 0, 0, 0, 0, 0, 0, 0] 10 \<longleftrightarrow> s0 AND 0xffc0 = 0xfe80"
    by (simp only: in_block_def prod.case len wide_steps(8) high masks [OF s0]) simp
  have lan: "?in [0xfc00, 0, 0, 0, 0, 0, 0, 0] 7 \<longleftrightarrow> s0 AND 0xfe00 = 0xfc00"
    by (simp only: in_block_def prod.case len wide_steps(9) high masks [OF s0]) simp
  have multi: "?in [0xff00, 0, 0, 0, 0, 0, 0, 0] 8 \<longleftrightarrow> s0 AND 0xff00 = 0xff00"
    by (simp only: in_block_def prod.case len wide_steps(10) high masks [OF s0]) simp
  have doc: "?in [0x2001, 0xdb8, 0, 0, 0, 0, 0, 0] 32 \<longleftrightarrow> s0 = 0x2001 \<and> s1 = 0xdb8"
    by (simp only: in_block_def prod.case len high digits_eq [OF s(1) db8])
  have "(s0 * (16 * 4096) + s1) div 4096 = (0x3fff * (16 * 4096) + 0) div 4096 \<longleftrightarrow> s0 = 0x3fff \<and> s1 div 4096 = 0 div 4096"
    by (rule digits_div_eq) (use s(1) in simp_all)
  then have new: "?in [0x3fff, 0, 0, 0, 0, 0, 0, 0] 20 \<longleftrightarrow> s0 = 0x3fff \<and> s1 AND 0xf000 = 0"
    by (simp only: in_block_def prod.case len wide_steps(7) high masks [OF s(1)]) simp
  have ends: "[] @ replicate (8 - length []) (0::nat) = [0, 0, 0, 0, 0, 0, 0, 0]"
    "[x] @ replicate (8 - length [x]) 0 = [x, 0, 0, 0, 0, 0, 0, 0]"
    "[x, y] @ replicate (8 - length [x, y]) 0 = [x, y, 0, 0, 0, 0, 0, 0]"
    "[0, 0, 0, 0, 0, 0, 0, 1] @ replicate (8 - length [0::nat, 0, 0, 0, 0, 0, 0, 1]) 0 = [0, 0, 0, 0, 0, 0, 0, 1]" for x y :: nat
    by (simp_all add: eval_nat_numeral)
  have first: "ip ! 0 = s0" "ip ! 1 = s1" by (simp_all add: ip)
  show ?thesis
    by (simp only: classify_v6_def Let_def v6_blocks_def list.map prod.case ends first_class.simps
        whole [OF zero] whole [OF one] link lan multi doc new first) (simp split: if_split)
qed

lemma classify_v6_by_blocks:
  assumes "segments ip"
  shows "classify_v6 ip = first_class 128 v6_blocks (v6_number ip)"
  by (rule classify_v6_eight [OF _ _ _ _ _ _ _ _ segments_eight [OF assms]]; rule segment_small [OF assms]; simp)

section \<open>Reading a literal back\<close>

fun show_v4 :: "ipv4 \<Rightarrow> string" where
  "show_v4 (a, b, c, d) = show_nat a @ CHR ''.'' # show_nat b @ CHR ''.'' # show_nat c @ CHR ''.'' # show_nat d"

definition octets :: "ipv4 \<Rightarrow> bool" where
  "octets ip = (case ip of (a, b, c, d) \<Rightarrow> a < 256 \<and> b < 256 \<and> c < 256 \<and> d < 256)"

definition ends_number :: "nat \<Rightarrow> string \<Rightarrow> bool" where
  "ends_number radix t \<longleftrightarrow> t = [] \<or> to_digit radix (hd t) = None"

lemma takeWhile_number:
  "list_all (\<lambda>c. to_digit radix c \<noteq> None) ds \<Longrightarrow> ends_number radix t \<Longrightarrow>
    takeWhile (\<lambda>c. to_digit radix c \<noteq> None) (ds @ t) = ds"
  by (induction ds) (auto simp: ends_number_def takeWhile_eq_Nil_iff)

lemma to_digit_char [simp]: "d < 10 \<Longrightarrow> to_digit 10 (digit_char d) = Some d"
  by (simp add: to_digit_def)

lemma digit_char_zero:
  assumes "d < 10"
  shows "digit_char d = CHR ''0'' \<longleftrightarrow> d = 0"
proof -
  have zero: "CHR ''0'' = digit_char 0" by code_simp
  have "48 + d = 48 + 0" if "digit_char d = digit_char 0"
    using of_char_digit [OF assms] of_char_digit [of 0] unfolding that by simp
  then show ?thesis unfolding zero by auto
qed

lemma show_octet:
  assumes "n < 256"
  shows "show_nat n = (if n < 10 then [digit_char n] else if n < 100 then [digit_char (n div 10), digit_char (n mod 10)]
    else [digit_char (n div 10 div 10), digit_char (n div 10 mod 10), digit_char (n mod 10)])"
proof -
  have "n div 10 < 10 \<longleftrightarrow> n < 100" using div_less_iff_less_mult [of 10 n 10] by simp
  moreover have "n div 10 div 10 < 10" using assms by simp
  ultimately show ?thesis
    by (subst show_nat.simps, subst show_nat.simps, subst show_nat.simps) simp
qed

lemma octet_text:
  assumes "n < 256"
  shows "show_nat n \<noteq> []" "length (show_nat n) \<le> 3" "hd (show_nat n) = CHR ''0'' \<longrightarrow> length (show_nat n) = 1"
    "list_all (\<lambda>c. to_digit 10 c \<noteq> None) (show_nat n)" "digits_value 10 (show_nat n) = n"
proof -
  have parts: "n div 10 < 10" if "n < 100" using that by simp
  have front: "n div 10 div 10 < 10" using assms by simp
  have spelled: "n = n div 10 div 10 * 100 + n div 10 mod 10 * 10 + n mod 10"
    using div_mult_mod_eq [of n 10] div_mult_mod_eq [of "n div 10" 10] by linarith
  have tens: "\<not> n < 10 \<Longrightarrow> 0 < n div 10" and hundreds: "\<not> n < 100 \<Longrightarrow> 0 < n div 10 div 10" by (simp_all add: div_greater_zero_iff)
  show "show_nat n \<noteq> []" "length (show_nat n) \<le> 3" using show_octet [OF assms] by simp_all
  show "hd (show_nat n) = CHR ''0'' \<longrightarrow> length (show_nat n) = 1"
    using show_octet [OF assms] parts front tens hundreds by (simp add: digit_char_zero)
  show "list_all (\<lambda>c. to_digit 10 c \<noteq> None) (show_nat n)" using show_octet [OF assms] parts front by simp
  show "digits_value 10 (show_nat n) = n"
    using show_octet [OF assms] parts front spelled by (simp add: digits_value_def)
qed

lemma read_octet_back:
  assumes "n < 256" and "ends_number 10 t"
  shows "read_number 10 3 False 256 (show_nat n @ t) = Some (n, t)"
  using takeWhile_number [OF octet_text(4) [OF assms(1)] assms(2)] octet_text [OF assms(1)] assms(1)
  by (auto simp: read_number_def Let_def)

lemma dot_ends: "ends_number 10 (CHR ''.'' # t)" "ends_number 10 []"
  by (simp_all add: ends_number_def to_digit_def)

lemma read_ipv4_back:
  assumes "octets ip" and "ends_number 10 t"
  shows "read_ipv4_addr (show_v4 ip @ t) = Some (ip, t)"
  using assms
  by (cases ip) (simp add: octets_def read_ipv4_addr_def read_octet_def read_separator_def read_given_char_def
      read_octet_back dot_ends)

lemma parse_v4_back: "octets ip \<Longrightarrow> parse_ip (show_v4 ip) = Some (V4 ip)"
  using read_ipv4_back [of ip "[]"] dot_ends(2) by (simp add: parse_ip_def)

text \<open>
  The spellings of an IPv6 address: groups of one to four hexadecimal digits of either case between colons, the last
  two of which may be written as an IPv4 address; one run of zero groups may be left out where \<open>::\<close> stands.
\<close>

definition hex_value :: "char \<Rightarrow> nat option" where
  "hex_value = map_of (zip ''0123456789abcdefABCDEF'' [0, 1, 2, 3, 4, 5, 6, 7, 8, 9, 10, 11, 12, 13, 14, 15,
     10, 11, 12, 13, 14, 15])"

definition group_text :: "string \<Rightarrow> bool" where
  "group_text g \<longleftrightarrow> g \<noteq> [] \<and> length g \<le> 4 \<and> list_all (\<lambda>c. hex_value c \<noteq> None) g"

definition group_value :: "string \<Rightarrow> nat" where
  "group_value g = foldl (\<lambda>n c. n * 16 + the (hex_value c)) 0 g"

definition tail_parts :: "ipv4 option \<Rightarrow> string list \<times> nat list" where
  "tail_parts tail =
    (case tail of None \<Rightarrow> ([], []) | Some (a, b, c, d) \<Rightarrow> ([show_v4 (a, b, c, d)], [a * 256 + b, c * 256 + d]))"

fun colons :: "string list \<Rightarrow> string" where
  "colons [] = []"
| "colons (g # gs) = g @ concat (map (Cons (CHR '':'')) gs)"

inductive spells_v6 :: "string \<Rightarrow> ipv6 \<Rightarrow> bool" where
  all_groups: "list_all group_text gs \<Longrightarrow> pred_option octets tail \<Longrightarrow> length gs + length (snd (tail_parts tail)) = 8 \<Longrightarrow>
    spells_v6 (colons (gs @ fst (tail_parts tail))) (map group_value gs @ snd (tail_parts tail))"
| zeros_left_out: "list_all group_text front \<Longrightarrow> list_all group_text gs \<Longrightarrow> pred_option octets tail \<Longrightarrow>
    length front + length gs + length (snd (tail_parts tail)) \<le> 7 \<Longrightarrow>
    spells_v6 (colons front @ ''::'' @ colons (gs @ fst (tail_parts tail)))
      (map group_value front
       @ replicate (8 - length front - (length gs + length (snd (tail_parts tail)))) 0
       @ map group_value gs @ snd (tail_parts tail))"

text \<open>The reader of numbers reads a group back.\<close>

lemma hex_value_digit: "hex_value c = Some d \<Longrightarrow> to_digit 16 c = Some d \<and> d < 16 \<and> c \<noteq> CHR ''.'' \<and> c \<noteq> CHR '']''"
proof -
  let ?table = "zip ''0123456789abcdefABCDEF'' [0, 1, 2, 3, 4, 5, 6, 7, 8, 9, 10, 11, 12, 13, 14, 15, 10, 11, 12, 13, 14, 15 :: nat]"
  assume "hex_value c = Some d"
  then have "(c, d) \<in> set ?table" unfolding hex_value_def by (rule map_of_SomeD)
  moreover have "list_all (\<lambda>(c, d). to_digit 16 c = Some d \<and> d < 16 \<and> c \<noteq> CHR ''.'' \<and> c \<noteq> CHR '']'') ?table" by code_simp
  ultimately show ?thesis unfolding list_all_iff by fastforce
qed

lemma group_textD:
  assumes "group_text g"
  shows "g \<noteq> []" and "length g \<le> 4" and "list_all (\<lambda>c. to_digit 16 c \<noteq> None) g" and "digits_value 16 g = group_value g"
    and "CHR ''.'' \<notin> set g" and "CHR '']'' \<notin> set g" and "group_value g < 65536"
proof -
  have all: "\<exists>d. hex_value c = Some d" if "c \<in> set g" for c using assms that by (auto simp: group_text_def list_all_iff)
  show "g \<noteq> []" "length g \<le> 4" using assms by (simp_all add: group_text_def)
  show "list_all (\<lambda>c. to_digit 16 c \<noteq> None) g" using all hex_value_digit by (fastforce simp: list_all_iff)
  show "CHR ''.'' \<notin> set g" "CHR '']'' \<notin> set g" using all hex_value_digit by fastforce+
  have "the (to_digit 16 c) = the (hex_value c)" if "c \<in> set g" for c using all [OF that] hex_value_digit by fastforce
  then show "digits_value 16 g = group_value g"
    unfolding digits_value_def group_value_def by (intro foldl_cong) simp_all
  have "foldl (\<lambda>n c. n * 16 + the (hex_value c)) m xs < (m + 1) * 16 ^ length xs" if "set xs \<subseteq> set g" for m xs
    using that
  proof (induction xs arbitrary: m)
    case (Cons x xs)
    obtain d where d: "hex_value x = Some d" "d < 16" using all hex_value_digit Cons.prems by fastforce
    have "foldl (\<lambda>n c. n * 16 + the (hex_value c)) m (x # xs) < (m * 16 + d + 1) * 16 ^ length xs"
      using Cons.IH [of "m * 16 + d"] Cons.prems d(1) by simp
    also have "\<dots> \<le> (m + 1) * 16 * 16 ^ length xs" using d(2) by (intro mult_le_mono1) simp
    also have "\<dots> = (m + 1) * 16 ^ length (x # xs)" by (simp add: algebra_simps)
    finally show ?case .
  qed simp
  from this [of g 0] have "group_value g < 16 ^ length g" by (simp add: group_value_def)
  moreover have "(16::nat) ^ length g \<le> 16 ^ 4" using \<open>length g \<le> 4\<close> by (intro power_increasing) simp_all
  ultimately show "group_value g < 65536" by simp
qed

abbreviation more :: "string list \<Rightarrow> string" where
  "more gs \<equiv> concat (map (Cons (CHR '':'')) gs)"

definition colon_follows :: "string \<Rightarrow> bool" where
  "colon_follows t \<longleftrightarrow> t = [] \<or> hd t = CHR '':''"

lemma colon_follows_more: "colon_follows t \<Longrightarrow> colon_follows (more gs @ t)"
  by (cases gs) (simp_all add: colon_follows_def)

lemma colon_no_digit: "to_digit 16 (CHR '':'') = None" "to_digit 10 (CHR '':'') = None"
  by (simp_all add: to_digit_def)

lemma read_group_back:
  assumes "group_text g" and "colon_follows t"
  shows "read_number 16 4 True 65536 (g @ t) = Some (group_value g, t)"
proof -
  have "ends_number 16 t" using assms(2) colon_no_digit by (auto simp: colon_follows_def ends_number_def)
  then show ?thesis
    using takeWhile_number [OF group_textD(3) [OF assms(1)]] group_textD [OF assms(1)] by (simp add: read_number_def Let_def)
qed

text \<open>A group is no IPv4 literal: no dot follows its first number.\<close>

lemma group_no_ipv4:
  assumes "group_text g" and "colon_follows t"
  shows "read_ipv4_addr (g @ t) = None"
proof (cases "read_octet 0 (g @ t)")
  case (Some p)
  let ?dec = "\<lambda>c. to_digit 10 c \<noteq> None"
  have rest: "snd p = dropWhile ?dec (g @ t)"
    using Some by (auto simp: read_octet_def read_separator_def read_number_def Let_def dropWhile_eq_drop split: if_splits)
  have stop: "dropWhile ?dec t = t" using assms(2) colon_no_digit by (cases t) (auto simp: colon_follows_def)
  have "read_given_char (CHR ''.'') (snd p) = None"
  proof (cases "\<forall>c \<in> set g. ?dec c")
    case True
    then have "snd p = t" using rest stop by simp
    then show ?thesis using assms(2) by (cases t) (auto simp: colon_follows_def read_given_char_def)
  next
    case False
    then have rest': "snd p = dropWhile ?dec g @ t" using rest by (auto simp: dropWhile_append1)
    have "dropWhile ?dec g \<noteq> []" using False by (simp add: dropWhile_eq_Nil_conv)
    then obtain c cs where "dropWhile ?dec g = c # cs" by (cases "dropWhile ?dec g") auto
    moreover from this have "c \<in> set g" by (metis list.set_intros(1) set_dropWhileD)
    ultimately show ?thesis using rest' group_textD(5) [OF assms(1)] by (auto simp: read_given_char_def)
  qed
  then show ?thesis using Some by (cases p) (simp add: read_ipv4_addr_def read_octet_def read_separator_def)
qed (simp add: read_ipv4_addr_def)

text \<open>Reading groups: those that are there, and then what the reader makes of the rest.\<close>

abbreviation after_groups :: "nat list \<Rightarrow> nat list \<times> bool \<times> string \<Rightarrow> nat list \<times> bool \<times> string" where
  "after_groups gs r \<equiv> (case r of (x, v4, u) \<Rightarrow> (gs @ x, v4, u))"

lemma read_one_group:
  assumes "group_text g" and "colon_follows t"
  shows "read_groups (Suc m) (Suc i) (CHR '':'' # g @ t) = after_groups [group_value g] (read_groups m (Suc (Suc i)) t)"
    and "read_groups (Suc m) 0 (g @ t) = after_groups [group_value g] (read_groups m (Suc 0) t)"
  using read_group_back [OF assms] group_no_ipv4 [OF assms]
  by (simp_all add: read_separator_def read_given_char_def split: prod.split)

lemma read_more_groups:
  "list_all group_text gs \<Longrightarrow> colon_follows t \<Longrightarrow> length gs \<le> n \<Longrightarrow>
    read_groups n (Suc i) (more gs @ t)
      = after_groups (map group_value gs) (read_groups (n - length gs) (Suc i + length gs) t)"
proof (induction gs arbitrary: n i)
  case (Cons g gs)
  then obtain m where n: "n = Suc m" by (cases n) simp_all
  have g: "group_text g" and follows: "colon_follows (more gs @ t)" using Cons.prems colon_follows_more by simp_all
  have "read_groups m (Suc (Suc i)) (more gs @ t)
      = after_groups (map group_value gs) (read_groups (m - length gs) (Suc (Suc i) + length gs) t)"
    using Cons n by simp
  then show ?case using read_one_group(1) [OF g follows, of m i] by (simp add: n split: prod.split)
qed (simp split: prod.split)

lemma read_all_groups:
  assumes "list_all group_text gs" and "gs \<noteq> []" and "colon_follows t" and "length gs \<le> n"
  shows "read_groups n 0 (colons gs @ t) = after_groups (map group_value gs) (read_groups (n - length gs) (length gs) t)"
proof -
  obtain g rest where gs: "gs = g # rest" using assms(2) by (cases gs) auto
  obtain m where n: "n = Suc m" using assms(4) gs by (cases n) simp_all
  have g: "group_text g" and follows: "colon_follows (more rest @ t)" using assms gs colon_follows_more by simp_all
  have "read_groups m (Suc 0) (more rest @ t)
      = after_groups (map group_value rest) (read_groups (m - length rest) (Suc 0 + length rest) t)"
    using assms gs n by (intro read_more_groups) simp_all
  then show ?thesis using read_one_group(2) [OF g follows, of m] by (simp add: gs n split: prod.split)
qed

lemma read_nothing:
  "read_groups m i [] = ([], False, [])" "read_groups m 0 (CHR '':'' # t) = ([], False, CHR '':'' # t)"
  "read_groups m (Suc i) (CHR '':'' # CHR '':'' # t) = ([], False, CHR '':'' # CHR '':'' # t)"
proof -
  have none: "read_number r k z b [] = None" "read_number 10 k z b (CHR '':'' # t) = None"
    "read_number 16 k z b (CHR '':'' # t) = None" for r k z b t
    using colon_no_digit by (simp_all add: read_number_def Let_def)
  then have "read_ipv4_addr [] = None" "read_ipv4_addr (CHR '':'' # t) = None" for t
    by (simp_all add: read_ipv4_addr_def read_octet_def read_separator_def)
  with none show "read_groups m i [] = ([], False, [])" "read_groups m 0 (CHR '':'' # t) = ([], False, CHR '':'' # t)"
    "read_groups m (Suc i) (CHR '':'' # CHR '':'' # t) = ([], False, CHR '':'' # CHR '':'' # t)"
    by (cases m; simp add: read_separator_def read_given_char_def)+
qed

text \<open>So groups and their tail read back, wherever there is room for them.\<close>

lemma read_spelled:
  assumes "list_all group_text gs" and "pred_option octets tail" and "length gs + length (snd (tail_parts tail)) \<le> n"
  shows "\<exists>v4. read_groups n 0 (colons (gs @ fst (tail_parts tail))) = (map group_value gs @ snd (tail_parts tail), v4, [])"
proof (cases tail)
  case None
  then show ?thesis
    using read_all_groups [OF assms(1), of "[]" n] assms(3) read_nothing(1)
    by (cases "gs = []") (auto simp: tail_parts_def colon_follows_def)
next
  case (Some v4)
  obtain a b c d where v4: "v4 = (a, b, c, d)" by (cases v4)
  have room: "length gs + 2 \<le> n" and ok: "octets v4" using assms(2,3) Some v4 by (simp_all add: tail_parts_def)
  have v4_read: "read_ipv4_addr (show_v4 v4) = Some (v4, [])" using read_ipv4_back [OF ok dot_ends(2)] by simp
  show ?thesis
  proof (cases "gs = []")
    case True
    obtain m where "n = Suc (Suc m)" using room True by (cases n; cases "n - 1") auto
    then show ?thesis using v4_read Some v4 True by (auto simp: tail_parts_def read_separator_def)
  next
    case False
    define m where "m = n - length gs - 2"
    have m: "n - length gs = Suc (Suc m)" using room by (simp add: m_def)
    obtain k where k: "length gs = Suc k" using False by (cases gs) auto
    have spelled: "colons (gs @ [show_v4 v4]) = colons gs @ CHR '':'' # show_v4 v4" using False by (cases gs) simp_all
    have "read_groups (Suc (Suc m)) (Suc k) (CHR '':'' # show_v4 v4) = ([a * 256 + b, c * 256 + d], True, [])"
      using v4_read v4 by (simp add: read_separator_def read_given_char_def)
    then show ?thesis
      using read_all_groups [OF assms(1) False, of "CHR '':'' # show_v4 v4" n] room m k spelled Some v4
      by (auto simp: tail_parts_def colon_follows_def)
  qed
qed

lemma parse_v6_back:
  assumes "spells_v6 text ip"
  shows "parse_ip text = Some (V6 ip)"
  using assms
proof cases
  case (all_groups gs tail)
  obtain g rest where gs: "gs = g # rest"
    using all_groups(5) by (cases gs) (auto simp: tail_parts_def split: option.splits)
  have "read_ipv4_addr text = None"
    using group_no_ipv4 [of g "more (rest @ fst (tail_parts tail))"] colon_follows_more [of "[]" "rest @ fst (tail_parts tail)"]
      all_groups(1,3) gs by (simp add: colon_follows_def)
  moreover obtain v4 where "read_groups 8 0 text = (ip, v4, [])"
    using read_spelled [OF all_groups(3,4), of 8] all_groups(1,2,5) by auto
  moreover have "length ip = 8" using all_groups(2,5) by simp
  ultimately show ?thesis by (simp add: parse_ip_def read_ipv6_addr_def)
next
  case (zeros_left_out front gs tail)
  let ?rear = "colons (gs @ fst (tail_parts tail))"
  let ?t = "CHR '':'' # CHR '':'' # ?rear"
  have t: "text = colons front @ ?t" using zeros_left_out(1) by simp
  have few: "length front < 8" using zeros_left_out(6) by simp
  have no4: "read_ipv4_addr text = None"
  proof (cases front)
    case Nil
    then show ?thesis
      using t colon_no_digit by (simp add: read_ipv4_addr_def read_octet_def read_separator_def read_number_def Let_def)
  next
    case (Cons g rest)
    then show ?thesis
      using group_no_ipv4 [of g "more rest @ ?t"] colon_follows_more [of ?t rest] zeros_left_out(3) t
      by (simp add: colon_follows_def)
  qed
  have front: "read_groups 8 0 text = (map group_value front, False, ?t)"
  proof (cases "front = []")
    case True
    then show ?thesis using t read_nothing(2) by simp
  next
    case False
    then obtain k where "length front = Suc k" by (cases front) auto
    then show ?thesis
      using read_all_groups [OF zeros_left_out(3) False, of ?t 8] few read_nothing(3) t by (simp add: colon_follows_def)
  qed
  have "length gs + length (snd (tail_parts tail)) \<le> 8 - (length front + 1)" using zeros_left_out(6) by simp
  then obtain v4 where rear: "read_groups (8 - (length front + 1)) 0 ?rear
      = (map group_value gs @ snd (tail_parts tail), v4, [])"
    using read_spelled [OF zeros_left_out(4,5)] by blast
  show ?thesis
    using no4 front rear few zeros_left_out(2)
    by (simp add: parse_ip_def read_ipv6_addr_def read_given_char_def)
qed

lemma spells_segments:
  assumes "spells_v6 text ip"
  shows "segments ip"
proof -
  have small: "list_all (\<lambda>s. s < 65536) (map group_value gs)" if "list_all group_text gs" for gs
    using that group_textD(7) by (auto simp: list_all_iff)
  have tail: "list_all (\<lambda>s. s < 65536) (snd (tail_parts tail))" if "pred_option octets tail" for tail
    using that by (auto simp: tail_parts_def octets_def split: option.split)
  show ?thesis using assms
    by cases (use small tail in \<open>auto simp: segments_def list_all_iff\<close>)
qed

lemma spelled_plain:
  assumes "spells_v6 text ip"
  shows "CHR '']'' \<notin> set text"
proof -
  have groups: "CHR '']'' \<notin> set (colons gs)" if "\<forall>g \<in> set gs. CHR '']'' \<notin> set g" for gs
    using that by (cases gs) auto
  have "CHR '']'' \<notin> set (show_nat n)" for n
    using show_nat_correct [of n] by (auto simp: list_all_iff is_ascii_digit_def)
  then have tail: "\<forall>g \<in> set (fst (tail_parts tail)). CHR '']'' \<notin> set g" for tail
    by (auto simp: tail_parts_def split: option.splits)
  show ?thesis
    using assms
    by cases (use tail group_textD(6) in \<open>auto simp: list_all_iff dest!: groups [THEN notE, rotated]\<close>)
qed

section \<open>The screen\<close>

lemma digit_plain: "is_ascii_digit c \<Longrightarrow> c \<noteq> CHR '':'' \<and> c \<noteq> CHR ''['' \<and> visible c"
  by (auto simp: is_ascii_digit_def between_def)

lemma show_nat_plain:
  "show_nat n \<noteq> []" "CHR '':'' \<notin> set (show_nat n)" "CHR ''['' \<notin> set (show_nat n)" "visible (hd (show_nat n))" "visible (last (show_nat n))"
proof -
  have digits: "show_nat n \<noteq> []" "\<And>c. c \<in> set (show_nat n) \<Longrightarrow> is_ascii_digit c"
    using show_nat_correct [of n] by (simp_all add: list_all_iff)
  then show "show_nat n \<noteq> []" by simp
  show "CHR '':'' \<notin> set (show_nat n)" "CHR ''['' \<notin> set (show_nat n)" using digits(2) digit_plain by blast+
  show "visible (hd (show_nat n))" "visible (last (show_nat n))" using digits digit_plain by (simp_all add: hd_in_set last_in_set)
qed

lemma v4_host: "advertise_host (show_v4 ip @ CHR '':'' # show_nat port) = show_v4 ip"
proof -
  let ?s = "show_v4 ip @ CHR '':'' # show_nat port"
  obtain a b c d where ip: "ip = (a, b, c, d)" by (cases ip)
  have colon: "CHR '':'' \<notin> set (show_v4 ip)" by (simp add: ip show_nat_plain(2))
  have front: "hd ?s = hd (show_nat a)" by (simp add: ip show_nat_plain(1))
  have none: "filter (\<lambda>c. c = CHR '':'') xs = []" if "CHR '':'' \<notin> set xs" for xs
    using that by (auto simp: filter_empty_conv)
  have "str_trim ?s = ?s"
    by (rule str_trim_visible) (use front show_nat_plain in \<open>simp_all add: show_nat_plain(1)\<close>)
  moreover have "hd ?s \<noteq> CHR ''[''" unfolding front using show_nat_plain(1,3) [of a] by (metis hd_in_set)
  then have "strip_prefix ''['' ?s = None" by (cases ?s) (auto simp: strip_prefix_def)
  moreover have "filter (\<lambda>c. c = CHR '':'') ?s = [CHR '':'']"
    using none [OF colon] none [OF show_nat_plain(2) [of port]] by simp
  moreover have "before_last_colon ?s = show_v4 ip"
    using show_nat_plain(2) [of port] by (simp add: before_last_colon_def dropWhile_append)
  ultimately show ?thesis by (simp add: advertise_host_def)
qed

lemma split_once_char: "c \<notin> set a \<Longrightarrow> split_once [c] (a @ c # b) = Some (a, b)"
  by (induction a) (auto simp: strip_prefix_def split_once.simps [of "[c]"])

lemma v6_host:
  assumes "CHR '']'' \<notin> set text"
  shows "advertise_host (CHR ''['' # text @ CHR '']'' # CHR '':'' # show_nat port) = text"
proof -
  let ?s = "CHR ''['' # text @ CHR '']'' # CHR '':'' # show_nat port"
  have "str_trim ?s = ?s"
    by (rule str_trim_visible) (use show_nat_plain(1,5) in \<open>simp_all add: between_def\<close>)
  then show ?thesis using assms by (simp add: advertise_host_def strip_prefix_def split_once_char)
qed

lemma first_class_public: "first_class bits blocks n = PublicAddress \<longleftrightarrow> (\<forall>p\<in>set blocks. \<not> in_block bits n (fst p))"
  by (induction blocks) (auto split: if_splits)

lemma mapped_octets: "segments ip \<Longrightarrow> to_ipv4_mapped ip = Some v4 \<Longrightarrow> octets v4"
proof -
  assume ip: "segments ip" and v4: "to_ipv4_mapped ip = Some v4"
  have "ip ! 6 < 65536" "ip ! 7 < 65536" using ip by (auto simp: segments_def list_all_length)
  then have "ip ! 6 div 256 < 256" "ip ! 7 div 256 < 256"
    using div_less_iff_less_mult [of 256 _ 256] by simp_all
  then show "octets v4" using v4 by (auto simp: to_ipv4_mapped_def octets_def split: if_splits)
qed

text \<open>The number an IPv6 address counts as, with the width and the blocks it is looked up in.\<close>

definition v6_place :: "ipv6 \<Rightarrow> nat \<times> ((nat \<times> nat) \<times> NonPublicReason) list \<times> nat" where
  "v6_place ip =
    (case to_ipv4_mapped ip of
       Some v4 \<Rightarrow> (32, v4_blocks, v4_number v4) | None \<Rightarrow> (128, v6_blocks, v6_number ip))"

lemma validate_iff:
  "validate_advertise addr defaulted allow_private = Inr () \<longleftrightarrow> allow_private \<or> classify_advertise addr = PublicAddress"
  by (simp add: validate_advertise_def split: AdvertiseReachability.splits)

text \<open>
  C25: The address of a gateway is screened by the blocks of the address space it names. For every IPv4 literal with a
  port, and every IPv6 literal in brackets with a port, in any of its spellings (zeros left out, zero groups
  compressed to \<open>::\<close>, the tail written as an IPv4 address), the class is that of the first reserved block that
  holds the address, where an IPv4-mapped IPv6 address is looked up as the IPv4 address; and without the opt-in for
  private addresses exactly the addresses outside every block are accepted.
\<close>

theorem advertised_literal_screened:
  assumes "octets v4" and "spells_v6 text v6"
  shows "classify_advertise (show_v4 v4 @ CHR '':'' # show_nat port) = first_class 32 v4_blocks (v4_number v4)
    \<and> (validate_advertise (show_v4 v4 @ CHR '':'' # show_nat port) defaulted allow_private = Inr ()
        \<longleftrightarrow> allow_private \<or> (\<forall>p\<in>set v4_blocks. \<not> in_block 32 (v4_number v4) (fst p)))
    \<and> (case v6_place v6 of (bits, blocks, n) \<Rightarrow>
        classify_advertise (CHR ''['' # text @ CHR '']'' # CHR '':'' # show_nat port) = first_class bits blocks n
        \<and> (validate_advertise (CHR ''['' # text @ CHR '']'' # CHR '':'' # show_nat port) defaulted allow_private = Inr ()
            \<longleftrightarrow> allow_private \<or> (\<forall>p\<in>set blocks. \<not> in_block bits n (fst p))))"
proof -
  have by_blocks: "classify_v4 ip = first_class 32 v4_blocks (v4_number ip)" if "octets ip" for ip
    using that classify_v4_by_blocks by (cases ip) (simp add: octets_def)
  have four: "classify_advertise (show_v4 v4 @ CHR '':'' # show_nat port) = first_class 32 v4_blocks (v4_number v4)"
    unfolding classify_advertise_def v4_host Let_def parse_v4_back [OF assms(1)] by (simp add: by_blocks [OF assms(1)])
  have "classify_advertise (CHR ''['' # text @ CHR '']'' # CHR '':'' # show_nat port)
      = (case to_ipv4_mapped v6 of Some ip \<Rightarrow> classify_v4 ip | None \<Rightarrow> classify_v6 v6)"
    unfolding classify_advertise_def v6_host [OF spelled_plain [OF assms(2)]] by (simp add: parse_v6_back [OF assms(2)])
  then have six: "case v6_place v6 of (bits, blocks, n) \<Rightarrow>
      classify_advertise (CHR ''['' # text @ CHR '']'' # CHR '':'' # show_nat port) = first_class bits blocks n"
    using mapped_octets [OF spells_segments [OF assms(2)]] by_blocks classify_v6_by_blocks [OF spells_segments [OF assms(2)]]
    by (simp add: v6_place_def split: option.split)
  then show ?thesis
    using four by (cases "v6_place v6") (simp only: validate_iff first_class_public prod.case simp_thms)
qed

text \<open>The loopback address and a private IPv4 address in compressed spellings.\<close>

lemma sample_spellings:
  "spells_v6 ''::1'' [0, 0, 0, 0, 0, 0, 0, 1]"
  "spells_v6 ''::ffff:192.168.1.10'' [0, 0, 0, 0, 0, 65535, 49320, 266]"
proof -
  have one: "group_text ''1''" "group_value ''1'' = 1" "group_text ''ffff''" "group_value ''ffff'' = 65535"
    by (simp_all add: group_text_def group_value_def hex_value_def)
  have tail: "show_v4 (192, 168, 1, 10) = ''192.168.1.10''" by code_simp
  have zeros: "replicate 7 (0::nat) = [0, 0, 0, 0, 0, 0, 0]" "replicate 5 (0::nat) = [0, 0, 0, 0, 0]"
    by (simp_all add: eval_nat_numeral)
  show "spells_v6 ''::1'' [0, 0, 0, 0, 0, 0, 0, 1]"
    using zeros_left_out [of "[]" "[''1'']" None] one by (simp add: tail_parts_def zeros)
  show "spells_v6 ''::ffff:192.168.1.10'' [0, 0, 0, 0, 0, 65535, 49320, 266]"
    using zeros_left_out [of "[]" "[''ffff'']" "Some (192, 168, 1, 10)"] one tail
    by (simp add: tail_parts_def octets_def zeros del: show_v4.simps)
qed

theorem advertised_literal_screened_witness:
  "classify_advertise (show_v4 (198, 51, 100, 7) @ CHR '':'' # show_nat 8443)
      = first_class 32 v4_blocks (v4_number (198, 51, 100, 7))
    \<and> validate_advertise (CHR ''['' # ''::1'' @ CHR '']'' # CHR '':'' # show_nat 8443) False False \<noteq> Inr ()
    \<and> validate_advertise (CHR ''['' # ''::ffff:192.168.1.10'' @ CHR '']'' # CHR '':'' # show_nat 8443) False False \<noteq> Inr ()"
proof -
  have ok: "octets (198, 51, 100, 7)" by (simp add: octets_def)
  have "v6_place [0, 0, 0, 0, 0, 0, 0, 1] = (128, v6_blocks, v6_number [0, 0, 0, 0, 0, 0, 0, 1])"
    "v6_place [0, 0, 0, 0, 0, 65535, 49320, 266] = (32, v4_blocks, v4_number (192, 168, 1, 10))"
    by (simp_all add: v6_place_def to_ipv4_mapped_def)
  moreover have "\<exists>p \<in> set v6_blocks. in_block 128 (v6_number [0, 0, 0, 0, 0, 0, 0, 1]) (fst p)"
    by (simp add: v6_blocks_def in_block_def)
  moreover have "\<exists>p \<in> set v4_blocks. in_block 32 (v4_number (192, 168, 1, 10)) (fst p)"
    by (simp add: v4_blocks_def in_block_def)
  ultimately show ?thesis
    using advertised_literal_screened [OF ok sample_spellings(1), of 8443 False False]
      advertised_literal_screened [OF ok sample_spellings(2), of 8443 False False] by (simp only: prod.case) blast
qed

end
