(* ===== verification/Spec2Isabelle.thy ===== *)
theory Spec2Isabelle
  imports MockSettlement MockReads Conservation RelayCapacity RoutingMock BookFold WithdrawGate DiagnosticsLaws
    Continuity KeeperMock Advance AccumulatorDesk SupervisionWaits OpenAiLaws
    RegistryLaws RouteSystem SessionLaws AdvertiseLaws
begin

text \<open>
  \<^bold>\<open>A verification of the core of dexdo.\<close>

  dexdo is a market for inference tokens. A seller posts an offer in an on-chain order book; a buyer's
  order fills it and funds a deal contract (the \<open>TokenContract\<close>); the seller's gateway streams model
  output to the buyer and claims the tokens it delivered; the deal is settled by stops, weekly charges or
  a dispute. The repository holds the client: \<open>crates/core\<close> (parameters, settlement arithmetic, the chain
  interface and its file-backed mock), \<open>crates/dexdo\<close> (seller gateway, buyer, command line) and the
  contracts the client talks to. This development models the parts that decide about money and state.

  \<^bold>\<open>Conventions.\<close> An unsigned integer of the source is a natural number with the largest value of its type
  written at every operation that can leave it (\<open>checked_add U128_MAX\<close>, \<open>saturating_sub\<close>, and words where the
  source wraps). \<open>Result\<close> is a sum with the error on the left, early returns are \<open>bindR\<close>,
  \<open>ok_or_else\<close> and \<open>refuse_if\<close>. Strings are ASCII; the provider adapter and the model names
  work on the bytes of UTF-8 text. A \<open>HashMap\<close> is an association list with distinct keys, a
  \<open>BTreeMap\<close> one in the order of its keys. Clocks, disk outcomes, pages and upstream events are inputs.
  Third-party code is a parameter: the JSON and ABI codecs, the SDK's address parser, SHA-256, the
  transport, random draws; so is the table of Unicode upper cases beyond ASCII. Error values are datatypes; the prose of the messages is mostly left out.

  \<^bold>\<open>Theories, from the bottom up.\<close>

  \<^item> \<open>Prelude\<close>: integers, results, maps (locale \<open>keyed_store\<close>), ASCII text. \<open>Params\<close> (\<open>core/src/params.rs\<close>):
    constants, gas reserves, deadlines, decimal numbers, SHELL amounts. \<open>Settle\<close> (\<open>settle.rs\<close>): fees, rebates
    and burns on words. \<open>Address\<close> (\<open>address.rs\<close>): canonical and legacy addresses and their serializers, with
    the round trips. \<open>JsonReads\<close>: how untyped JSON is read.
  \<^item> \<open>MarketTypes\<close>, \<open>MarketViews\<close> (\<open>market/types.rs\<close>, \<open>note.rs\<close>): offers, orders, deals, snapshots, receipts, the
    strict decoders of the contract getters. \<open>Accounting\<close> (\<open>market/accounting.rs\<close>): escrows, executable
    quotes, coalescing of equal asks, breakdowns, preflights; the quote is the exact greedy fill.
    \<open>Conservation\<close> (\<open>market/deal_conservation.rs\<close>): the ledger of a deal's money; a replay succeeds exactly
    if no prefix overdraws, and settles to the sums of its movements.
  \<^item> \<open>Machine\<close> (\<open>machine.rs\<close>): the stream state machine and what a buyer has at risk.
  \<^item> The mock chain (\<open>market/mock.rs\<close>, the reference backend of the client): \<open>MockState\<close> (persisted state and
    its validation), \<open>MockMoney\<close> (settlement on a deal), \<open>MockBackend\<close> and \<open>MockTerminal\<close> (the operations),
    \<open>MockLaws\<close>, \<open>MockInvariant\<close>, \<open>MockOperations\<close>, \<open>MockReach\<close>, \<open>MockBook\<close> (the invariant and that each
    operation keeps it, once in a locale of deal operations), \<open>MockSystem\<close> (calls in any order under a
    monotone clock, \<open>mock_reach\<close>), \<open>MockSample\<close> (concrete runs of an ordinary deal and of a
    subscription), \<open>MockProperties\<close>, \<open>MockSettlement\<close>,
    \<open>MockReads\<close> (the properties: money is conserved, books are exact, state reloads, stops and disputes
    settle as specified, to the tokens or the exact number of weeks, closed deals are final, reads agree).
  \<^item> \<open>Capacity\<close>, \<open>CapacityLaws\<close>, \<open>CapacityProperties\<close> (\<open>dexdo/src/seller/capacity.rs\<close>): the seller's durable
    delivery ledger with reservations, coalesced writes, writes that fail before or after the file was
    replaced, and crashes; \<open>capacity_reach\<close> interleaves requests freely. Delivery stays inside the funding.
    \<open>Relay\<close>, \<open>RelayCapacity\<close> (\<open>seller/gateway.rs\<close>): the relay loop of one request over an abstract recorder
    (locale \<open>delivery_recorder\<close>, interpreted on the plain count and on the capacity reservation).
  \<^item> Async drivers, over \<open>Effects\<close> (calls on a world, runs that may not return, and their invariants): an await
    is a call on a record of the outside world, so a theorem for every world is one for every answer, fault
    and interleaving. \<open>Keeper\<close>, \<open>KeeperMock\<close> (\<open>seller/keeper.rs\<close>): what the subscription keeper plans, and that on
    the mock chain it takes every subscription to its end. \<open>Advance\<close> (\<open>seller/advance.rs\<close>): the claim driver;
    the calls it makes are logged with what the world
    answered, and it never claims what was not delivered, nor faster than the physical rate. \<open>Accumulator\<close>, \<open>AccumulatorDesk\<close> (\<open>core/src/accumulator.rs\<close>,
    \<open>cli/accumulator.rs\<close>): the split of an exchange into lots, and the sell, buy and claim commands behind their
    durable intent, over histories with crashes. \<open>Offers\<close>, \<open>Supervision\<close>, \<open>SupervisionLaws\<close>,
    \<open>SupervisionProperties\<close>, \<open>SupervisionWaits\<close> (\<open>seller/mod.rs\<close>, \<open>seller/liveness.rs\<close>): posting, cancelling,
    reaping and relisting the seller's resting offer; every step rests on a reading of the book, and the
    bounded waits return.
  \<^item> \<open>ExtOut\<close> (\<open>chain/client.rs\<close>): decoding and walking pages of ext-out messages. \<open>BookEvents\<close>, \<open>BookFold\<close>
    (\<open>chain/book_events.rs\<close>): the order book folded from its events, incrementally.
  \<^item> \<open>Continuity\<close> (\<open>buyer/continuity.rs\<close>): the planner of successive deals; its two latches are
    interpretations of one locale. \<open>Routing\<close>, \<open>RoutingMock\<close> (\<open>buyer/routing.rs\<close>): ranking and failover over
    sellers, with every call on the chain and the runner logged, so that an attempt is tied to what they answered;
    the locale \<open>routed_chain\<close> is interpreted on the mock chain.
  \<^item> \<open>Diagnostics\<close>, \<open>DiagnosticsLaws\<close> (\<open>onchain_diagnostics.rs\<close>): which submissions were refused, error
    names, removal of credentials, against what stands under a credential field at any depth. \<open>WithdrawGate\<close> (\<open>note_withdraw_gate.rs\<close>): which condition of the note
    contract (\<open>contracts/dex/PrivateNote.sol\<close>) holds a withdrawal, and that the client's reading is the
    contract's decision, \<open>require\<close> by \<open>require\<close>.

  \<^item> \<open>Text\<close> (UTF-8 validity, lines, trimming, case), \<open>ModelNames\<close> (\<open>core/src/manifest.rs\<close>): canonical model ids with
    their flags and the check of a market manifest. \<open>Registry\<close>, \<open>RegistryLaws\<close> (\<open>dexdo/src/registry.rs\<close>): which
    registered model a claimed name means, and the suggestions after a miss with their edit distance.
    \<open>OpenAi\<close>, \<open>OpenAiStream\<close>, \<open>OpenAiLaws\<close> (\<open>seller/upstream/openai.rs\<close>): the adapter of OpenAI-compatible providers:
    the events of one response, usage, served model and errors, and the attempts at a request. It bills a
    request once, at the total the provider's documents state, and the deal counts that total.
  \<^item> \<open>RouteBudget\<close>, \<open>RouteSystem\<close> (\<open>buyer/api/mod.rs\<close>): what the requests of a buyer may spend on one deal:
    reservations, verification headroom, and the ceiling of a subscription as its weeks are read.
    \<open>route_reach\<close> interleaves the requests freely. \<open>Session\<close>, \<open>SessionLaws\<close>
    (same file): how a session ends its deal; over any order of calls it writes no second stop.
    \<open>Advertise\<close>, \<open>AdvertiseLaws\<close> (\<open>seller/advertise.rs\<close>): the gateway addresses a seller may advertise, as blocks of
    the address space, with the parser of IP literals against their spellings.

  \<^bold>\<open>Termination.\<close> Every function is total except the two page walks, whose source may never end, and the
  loops of the async drivers, which wait for the world; they are partial functions into \<^typ>\<open>'a option\<close>.
  The properties show that the page walks return when the source holds a finite history, that the keeper
  returns on the mock chain, and that the waits with a deadline return when the clock moves on. No fuel is
  used; \<open>GAS_BALANCE_CONFIRM_MAX_READS\<close> bounds the confirmation reads as in the source.

  \<^bold>\<open>Hypotheses.\<close> A codec is injective on what it writes (\<open>text_codec\<close>); a source of pages serves windows
  of one history, newest first, without gaps (\<open>holds_history\<close>), in strictly increasing chain order
  (\<open>chain_ordered\<close>); the monotonic clock does not run backwards and a sleep ends no earlier than asked
  (\<open>clocked\<close>); the protocol constants are in range (\<open>consts_ok\<close>); mock calls carry values inside their
  Rust types and clocks do not run backwards (\<open>call_ok\<close>). The frames of
  a provider's response are UTF-8 text below the frame limit (\<open>well_cut\<close>), the gateway stays to take what the adapter
  sends (\<open>listens\<close>), and the claim cap of a subscription does not fall while its term runs (\<open>honest_cap\<close>; past
  the final boundary it may). The storage of a note holds a value in each field the gates read
  (\<open>reads_storage\<close>); an object at \<open>_busy\<close> without an address is none. Each is shown to hold on a concrete instance.

  \<^bold>\<open>Not modelled.\<close> The network: message encoding, submission, retries and pacing of \<open>chain/client.rs\<close> and
  \<open>chain/backends.rs\<close>; the HTTP and gRPC servers and clients; the Anthropic adapter;
  the command line; key handling
  and cryptography; the contracts themselves, apart from the withdrawal conditions. Lock poisoning is taken
  not to occur. Floating-point scores enter as parameters.
\<close>

end
